(* ===== verification/Prelude.thy ===== *)
theory Prelude
  imports Main "HOL-Library.Word" "HOL-Library.Monad_Syntax"
    "HOL-Library.List_Lexorder" "HOL-Library.Char_ord"
begin

text \<open>
  Shared vocabulary of the development.

  \<^item> Bytes are \<^typ>\<open>8 word\<close>; a fixed-width integer of the source is a word of that width.
    The code copies integers into buffers with \<^verbatim>\<open>memcpy\<close>, so the bytes on the wire are in the
    order of the machine; the server targets x86-64 Linux (README.md), which is little-endian,
    and \<open>le_enc\<close>/\<open>le_dec\<close> are that order.
  \<^item> \<^verbatim>\<open>std::string\<close> is \<^typ>\<open>string\<close>; \<open>str_bytes\<close> and \<open>bytes_str\<close> move between
    characters and bytes.
  \<^item> \<^verbatim>\<open>std::map\<close> is an association list in strictly increasing key order (\<open>omap\<close>), because
    the code iterates over maps and the order of iteration is observable on the wire.
  \<^item> An operation whose execution the source leaves undefined (an out-of-range access, a null
    dereference) or that stops the process (\<^verbatim>\<open>assert\<close>) returns \<^const>\<open>None\<close>.
\<close>

section \<open>Types\<close>

type_synonym byte = "8 word"
type_synonym uint8 = "8 word"
type_synonym uint16 = "16 word"
type_synonym uint32 = "32 word"
type_synonym uint64 = "64 word"

named_theorems byte_simps \<open>conversions between integers, strings and bytes\<close>
named_theorems omap_simps \<open>lookup and invariant of ordered maps\<close>

section \<open>Options\<close>

lemma bind_SomeE: "Option.bind m f = Some r \<Longrightarrow> (\<And>x. m = Some x \<Longrightarrow> f x = Some r \<Longrightarrow> P) \<Longrightarrow> P"
  by (auto simp: bind_eq_Some_conv)

section \<open>Lists as memory blocks\<close>

definition segment :: "nat \<Rightarrow> nat \<Rightarrow> 'a list \<Rightarrow> 'a list" where
  "segment pos n xs = take n (drop pos xs)"

definition overwrite :: "nat \<Rightarrow> 'a list \<Rightarrow> 'a list \<Rightarrow> 'a list" where
  "overwrite pos bs xs = take pos xs @ bs @ drop (pos + length bs) xs"

definition vec_resize :: "'a \<Rightarrow> nat \<Rightarrow> 'a list \<Rightarrow> 'a list" where
  "vec_resize z n xs = take n xs @ replicate (n - length xs) z"

lemma length_segment [simp]: "length (segment pos n xs) = min n (length xs - pos)"
  by (simp add: segment_def)

lemma length_overwrite [simp]:
  "pos + length bs \<le> length xs \<Longrightarrow> length (overwrite pos bs xs) = length xs"
  by (simp add: overwrite_def)

lemma take_overwrite:
  "pos \<le> length xs \<Longrightarrow> take (pos + length bs) (overwrite pos bs xs) = take pos xs @ bs"
  by (simp add: overwrite_def)

lemma length_vec_resize [simp]: "length (vec_resize z n xs) = n"
  by (simp add: vec_resize_def)

lemma take_vec_resize: "k \<le> n \<Longrightarrow> k \<le> length xs \<Longrightarrow> take k (vec_resize z n xs) = take k xs"
  by (simp add: vec_resize_def)

lemma segment_0 [simp]: "segment 0 n xs = take n xs"
  by (simp add: segment_def)

lemma segment_take: "pos + n \<le> k \<Longrightarrow> segment pos n (take k xs) = segment pos n xs"
  by (simp add: segment_def drop_take)

lemma unat_byte_less_256 [simp]: "unat (b :: byte) < 256"
  by (rule order_less_le_trans [OF unsigned_less]) simp

section \<open>Little-endian integers\<close>

fun le_enc :: "nat \<Rightarrow> nat \<Rightarrow> byte list" where
  "le_enc 0 v = []"
| "le_enc (Suc n) v = of_nat (v mod 256) # le_enc n (v div 256)"

fun le_dec :: "byte list \<Rightarrow> nat" where
  "le_dec [] = 0"
| "le_dec (b # bs) = unat b + 256 * le_dec bs"

lemma length_le_enc [simp]: "length (le_enc n v) = n"
  by (induction n arbitrary: v) auto

lemma unat_of_nat_byte [simp]: "unat (of_nat (v mod 256) :: byte) = v mod 256"
  by (simp add: unat_of_nat)

lemma le_dec_enc [byte_simps]: "le_dec (le_enc n v) = v mod 256 ^ n"
proof (induction n arbitrary: v)
  case (Suc n)
  then show ?case
    by (simp add: mod_mult2_eq)
qed simp

lemma le_dec_bound: "le_dec bs < 256 ^ length bs"
proof (induction bs)
  case (Cons b bs)
  have "unat b < 256" by simp
  with Cons show ?case by (simp del: unat_byte_less_256)
qed simp

lemma le_enc_dec [byte_simps]: "le_enc (length bs) (le_dec bs) = bs"
proof (induction bs)
  case (Cons b bs)
  then show ?case by simp
qed simp

lemma le_dec_zeros [simp]: "le_dec (replicate n 0) = 0"
  by (induction n) auto

section \<open>Strings and bytes\<close>

definition char_byte :: "char \<Rightarrow> byte" where
  "char_byte c = of_nat (of_char c)"

definition byte_char :: "byte \<Rightarrow> char" where
  "byte_char b = char_of (unat b)"

definition str_bytes :: "string \<Rightarrow> byte list" where
  "str_bytes s = map char_byte s"

text \<open>The characters a C string function sees, the bytes of \<^verbatim>\<open>std::getline\<close>, and \<^verbatim>\<open>tolower\<close> in the C locale.\<close>

definition c_str :: "string \<Rightarrow> string" where
  "c_str s = takeWhile (\<lambda>c. c \<noteq> CHR 0x00) s"

fun split_lines :: "string \<Rightarrow> string \<Rightarrow> string list" where
  "split_lines acc [] = (if acc = [] then [] else [rev acc])"
| "split_lines acc (c # cs) = (if c = CHR 0x0A then rev acc # split_lines [] cs else split_lines (c # acc) cs)"

definition getlines :: "string \<Rightarrow> string list" where
  "getlines s = split_lines [] s"

definition c_tolower :: "char \<Rightarrow> char" where
  "c_tolower c = (if (65 :: nat) \<le> of_char c \<and> of_char c \<le> (90 :: nat) then char_of (of_char c + 32 :: nat) else c)"

definition bytes_str :: "byte list \<Rightarrow> string" where
  "bytes_str bs = map byte_char bs"

lemma of_char_less_256 [simp]: "(of_char c :: nat) < 256"
  using nat_of_char_less_256 [of c] by simp

lemma unat_char_byte [simp]: "unat (char_byte c) = of_char c"
  by (simp add: char_byte_def unat_of_nat)

lemma byte_char_byte [byte_simps, simp]: "byte_char (char_byte c) = c"
  by (simp add: byte_char_def)

lemma byte_char_of_char [simp]: "byte_char (word_of_nat (of_char c)) = c"
  using byte_char_byte [of c] by (simp only: char_byte_def)

lemma char_byte_char [byte_simps, simp]: "char_byte (byte_char b) = b"
  by (simp add: byte_char_def char_byte_def)

lemma bytes_str_bytes [byte_simps, simp]: "bytes_str (str_bytes s) = s"
  by (simp add: bytes_str_def str_bytes_def comp_def)

lemma length_str_bytes [simp]: "length (str_bytes s) = length s"
  by (simp add: str_bytes_def)

lemma length_bytes_str [simp]: "length (bytes_str bs) = length bs"
  by (simp add: bytes_str_def)

lemma char_byte_eq_0_iff [simp]: "char_byte c = 0 \<longleftrightarrow> c = CHR 0x00"
proof
  assume "char_byte c = 0"
  then have "byte_char (char_byte c) = byte_char 0" by (simp only:)
  then show "c = CHR 0x00" by (simp only: byte_char_byte) (simp add: byte_char_def char_of_def)
next
  assume "c = CHR 0x00"
  then show "char_byte c = 0" by (simp add: char_byte_def)
qed

lemma of_char_eq_0_iff [simp]: "(of_char c :: nat) = 0 \<longleftrightarrow> c = CHR 0x00"
  by (metis char_byte_eq_0_iff unat_char_byte unat_eq_zero)

lemma char_byte_inject [simp]: "char_byte c = char_byte d \<longleftrightarrow> c = d"
  by (metis byte_char_byte)

section \<open>Numerals as text\<close>

definition digit_char :: "nat \<Rightarrow> char" where
  "digit_char d = char_of (48 + d)"

fun dec_str :: "nat \<Rightarrow> string" where
  "dec_str n = (if n < 10 then [digit_char n] else dec_str (n div 10) @ [digit_char (n mod 10)])"

declare dec_str.simps [simp del]

text \<open>The value of a string of decimal digits, read from the left as \<^verbatim>\<open>atoi\<close> does.\<close>

definition is_digit :: "char \<Rightarrow> bool" where
  "is_digit c \<longleftrightarrow> 48 \<le> (of_char c :: nat) \<and> (of_char c :: nat) \<le> 57"

definition dec_val :: "string \<Rightarrow> nat" where
  "dec_val s = foldl (\<lambda>n c. 10 * n + (of_char c - 48)) 0 s"

lemma of_char_digit_char [simp]: "d < 10 \<Longrightarrow> (of_char (digit_char d) :: nat) = 48 + d"
  by (simp add: digit_char_def)

lemma is_digit_char [simp]: "d < 10 \<Longrightarrow> is_digit (digit_char d)"
  by (simp add: is_digit_def)

lemma dec_str_digits: "\<forall>c \<in> set (dec_str n). is_digit c"
proof (induction n rule: dec_str.induct)
  case (1 n)
  then show ?case by (subst dec_str.simps) auto
qed

lemma dec_val_dec_str [simp]: "dec_val (dec_str n) = n"
proof (induction n rule: dec_str.induct)
  case (1 n)
  then show ?case by (subst dec_str.simps) (auto simp: dec_val_def)
qed

lemma dec_str_not_Nil [simp]: "dec_str n \<noteq> []"
  by (subst dec_str.simps) simp

text \<open>
  \<^verbatim>\<open>atoi\<close>: white space, a sign, digits; anything else is 0. Values outside \<^verbatim>\<open>int\<close> are undefined in C
  and keep their mathematical value here.
\<close>

definition c_isspace :: "char \<Rightarrow> bool" where
  "c_isspace c \<longleftrightarrow> (of_char c :: nat) \<in> {9, 10, 11, 12, 13, 32}"

definition c_atoi :: "string \<Rightarrow> int" where
  "c_atoi s =
     (case dropWhile c_isspace s of
        [] \<Rightarrow> 0
      | c # r \<Rightarrow>
          if c = CHR ''-'' then - int (dec_val (takeWhile is_digit r))
          else if c = CHR ''+'' then int (dec_val (takeWhile is_digit r))
          else int (dec_val (takeWhile is_digit (c # r))))"

lemma is_digit_not_space: "is_digit c \<Longrightarrow> \<not> c_isspace c"
  by (auto simp: is_digit_def c_isspace_def)

lemma c_atoi_dec_str [simp]: "c_atoi (dec_str n) = int n"
proof -
  obtain c r where cr: "dec_str n = c # r" by (cases "dec_str n") simp_all
  have all: "\<forall>x \<in> set (c # r). is_digit x" using dec_str_digits [of n] cr by simp
  then have "\<not> c_isspace c" "c \<noteq> CHR ''-''" "c \<noteq> CHR ''+''"
    by (auto simp: is_digit_not_space) (auto simp: is_digit_def)
  moreover have "takeWhile is_digit (c # r) = dec_str n" using all cr by simp
  moreover have "dec_val (c # r) = n" using cr dec_val_dec_str [of n] by simp
  ultimately show ?thesis using cr by (simp add: c_atoi_def)
qed

text \<open>\<^verbatim>\<open>%X\<close>: upper-case hexadecimal without leading zeros.\<close>

definition hex_digit :: "nat \<Rightarrow> char" where
  "hex_digit d = (if d < 10 then digit_char d else char_of (55 + d))"

fun hex_str :: "nat \<Rightarrow> string" where
  "hex_str n = (if n < 16 then [hex_digit n] else hex_str (n div 16) @ [hex_digit (n mod 16)])"

declare hex_str.simps [simp del]

section \<open>Ordered maps\<close>

fun omap_set :: "'k::linorder \<Rightarrow> 'v \<Rightarrow> ('k \<times> 'v) list \<Rightarrow> ('k \<times> 'v) list" where
  "omap_set k v [] = [(k, v)]"
| "omap_set k v ((k', v') # m) =
     (if k < k' then (k, v) # (k', v') # m
      else if k = k' then (k, v) # m
      else (k', v') # omap_set k v m)"

text \<open>\<^verbatim>\<open>insert\<close> keeps the value of a key that is present; \<^verbatim>\<open>m[k] = v\<close> is \<^const>\<open>omap_set\<close>.\<close>

definition omap_insert :: "'k::linorder \<Rightarrow> 'v \<Rightarrow> ('k \<times> 'v) list \<Rightarrow> ('k \<times> 'v) list" where
  "omap_insert k v m = (case map_of m k of None \<Rightarrow> omap_set k v m | Some _ \<Rightarrow> m)"

definition omap_erase :: "'k \<Rightarrow> ('k \<times> 'v) list \<Rightarrow> ('k \<times> 'v) list" where
  "omap_erase k m = filter (\<lambda>(k', v). k' \<noteq> k) m"

definition omap_ok :: "('k::linorder \<times> 'v) list \<Rightarrow> bool" where
  "omap_ok m = sorted_wrt (<) (map fst m)"

lemma omap_ok_Nil [simp]: "omap_ok []"
  by (simp add: omap_ok_def)

lemma omap_ok_Cons [simp]: "omap_ok ((k, v) # m) \<longleftrightarrow> (\<forall>k' \<in> set (map fst m). k < k') \<and> omap_ok m"
  by (auto simp: omap_ok_def)

lemma set_omap_set [simp]: "set (map fst (omap_set k v m)) = insert k (set (map fst m))"
  by (induction k v m rule: omap_set.induct) auto

lemma omap_ok_set [omap_simps, intro]: "omap_ok m \<Longrightarrow> omap_ok (omap_set k v m)"
proof (induction k v m rule: omap_set.induct)
  case (2 k v k' v' m)
  then show ?case
    using set_omap_set [of k v m] by auto
qed simp

lemma map_of_omap_set [omap_simps]: "omap_ok m \<Longrightarrow> map_of (omap_set k v m) = (map_of m)(k \<mapsto> v)"
proof (induction k v m rule: omap_set.induct)
  case (2 k v k' v' m)
  then show ?case by (auto simp: fun_eq_iff)
qed auto

lemma omap_ok_insert [omap_simps, intro]: "omap_ok m \<Longrightarrow> omap_ok (omap_insert k v m)"
  by (auto simp: omap_insert_def omap_simps split: option.splits)

lemma map_of_omap_insert [omap_simps]:
  "omap_ok m \<Longrightarrow>
   map_of (omap_insert k v m) = (if k \<in> dom (map_of m) then map_of m else (map_of m)(k \<mapsto> v))"
  by (auto simp: omap_insert_def omap_simps split: option.splits)

lemma omap_ok_erase [omap_simps, intro]: "omap_ok m \<Longrightarrow> omap_ok (omap_erase k m)"
  by (induction m) (auto simp: omap_erase_def)

lemma map_of_omap_erase [omap_simps]: "map_of (omap_erase k m) = (map_of m)(k := None)"
  by (induction m) (auto simp: omap_erase_def fun_eq_iff)

lemma omap_ok_distinct: "omap_ok m \<Longrightarrow> distinct (map fst m)"
  by (simp add: omap_ok_def strict_sorted_iff)

lemma omap_set_last:
  "\<forall>k' \<in> set (map fst m). k' < k \<Longrightarrow> omap_set k v m = m @ [(k, v)]"
  by (induction m) (auto dest: less_asym')

lemma omap_insert_last:
  "\<forall>k' \<in> set (map fst m). k' < k \<Longrightarrow> omap_insert k v m = m @ [(k, v)]"
proof -
  assume lt: "\<forall>k' \<in> set (map fst m). k' < k"
  then have "map_of m k = None" by (auto simp: map_of_eq_None_iff)
  with lt show ?thesis by (simp add: omap_insert_def omap_set_last)
qed

lemma omap_append: "omap_ok (m @ m') \<longleftrightarrow>
    omap_ok m \<and> omap_ok m' \<and> (\<forall>k \<in> set (map fst m). \<forall>k' \<in> set (map fst m'). k < k')"
  by (auto simp: omap_ok_def sorted_wrt_append)

text \<open>Inserting the pairs of an ordered map in order rebuilds it.\<close>

lemma fold_omap_insert:
  "omap_ok (m @ m') \<Longrightarrow> fold (\<lambda>(k, v). omap_insert k v) m' m = m @ m'"
proof (induction m' arbitrary: m)
  case (Cons kv m')
  obtain k v where kv: "kv = (k, v)" by fastforce
  from Cons.prems kv have "omap_insert k v m = m @ [(k, v)]"
    by (intro omap_insert_last) (auto simp: omap_append)
  moreover from Cons.prems kv have "fold (\<lambda>(k, v). omap_insert k v) m' (m @ [(k, v)]) = m @ [(k, v)] @ m'"
    using Cons.IH [of "m @ [(k, v)]"] by simp
  ultimately show ?case using kv by simp
qed simp

end
