(* ===== verification/Byte_Buffer.thy ===== *)
theory Byte_Buffer
  imports Prelude
begin

text \<open>
  \<^verbatim>\<open>ByteBuffer\<close> (pitayaserver/framework/ByteBuffer.h) and its subclass \<^verbatim>\<open>WorldPacket\<close>
  (pitayaserver/framework/WorldPacket.h): the growable byte array every packet of the server is
  written to and read from. The state is the read position, the write position and the storage
  vector; \<^verbatim>\<open>size()\<close> is the write position, not the length of the vector. Positions are
  \<^verbatim>\<open>size_t\<close> values, natural numbers below \<open>2 ^ 64\<close>; the additions of the read path, where a
  caller can set the position to anything, wrap (\<open>szadd\<close>).

  Floating-point values are carried by their IEEE bit pattern: the buffer only copies bytes.
  The locale \<open>codec\<close> is the contract between a type's \<^verbatim>\<open><<\<close> and \<^verbatim>\<open>>>\<close> that the
  container templates at the end of the header rely on.
\<close>

section \<open>State\<close>

record byte_buffer =
  bb_rpos :: nat
  bb_wpos :: nat
  bb_storage :: "byte list"

definition szadd :: "nat \<Rightarrow> nat \<Rightarrow> nat" where
  "szadd a b = (a + b) mod 2 ^ 64"

definition bb_new :: "nat \<Rightarrow> byte_buffer" where
  "bb_new res = \<lparr>bb_rpos = 0, bb_wpos = 0, bb_storage = vec_resize 0 res []\<rparr>"

definition bb_default :: byte_buffer where
  "bb_default = bb_new 0x1000"

definition bb_clear :: "'z byte_buffer_scheme \<Rightarrow> 'z byte_buffer_scheme" where
  "bb_clear b = b\<lparr>bb_rpos := 0, bb_wpos := 0\<rparr>"

definition bb_size :: "'z byte_buffer_scheme \<Rightarrow> nat" where
  "bb_size b = bb_wpos b"

definition bb_empty :: "'z byte_buffer_scheme \<Rightarrow> bool" where
  "bb_empty b = (bb_wpos b = 0)"

definition bb_set_rpos :: "nat \<Rightarrow> 'z byte_buffer_scheme \<Rightarrow> nat \<times> 'z byte_buffer_scheme" where
  "bb_set_rpos p b = (p, b\<lparr>bb_rpos := p\<rparr>)"

definition bb_set_wpos :: "nat \<Rightarrow> 'z byte_buffer_scheme \<Rightarrow> nat \<times> 'z byte_buffer_scheme" where
  "bb_set_wpos p b = (p, b\<lparr>bb_wpos := p\<rparr>)"

definition bb_resize :: "nat \<Rightarrow> 'z byte_buffer_scheme \<Rightarrow> 'z byte_buffer_scheme" where
  "bb_resize newsize b =
     b\<lparr>bb_storage := vec_resize 0 newsize (bb_storage b), bb_rpos := 0, bb_wpos := newsize\<rparr>"

text \<open>\<^verbatim>\<open>contents()\<close> with \<^verbatim>\<open>n\<close> bytes read from it, as its callers do.\<close>

definition bb_contents :: "nat \<Rightarrow> 'z byte_buffer_scheme \<Rightarrow> byte list option" where
  "bb_contents n b = (if n \<le> length (bb_storage b) then Some (take n (bb_storage b)) else None)"

section \<open>Writing\<close>

definition bb_append :: "byte list \<Rightarrow> 'z byte_buffer_scheme \<Rightarrow> 'z byte_buffer_scheme option" where
  "bb_append src b =
     (if src = [] then Some b
      else if \<not> bb_size b < 10000000 then None
      else
        let cnt = length src;
            st = (if length (bb_storage b) < bb_wpos b + cnt
                  then vec_resize 0 (bb_wpos b + cnt) (bb_storage b) else bb_storage b)
        in Some (b\<lparr>bb_storage := overwrite (bb_wpos b) src st, bb_wpos := bb_wpos b + cnt\<rparr>))"

definition bb_put_bool :: "bool \<Rightarrow> 'z byte_buffer_scheme \<Rightarrow> 'z byte_buffer_scheme option" where
  "bb_put_bool v = bb_append (le_enc 1 (if v then 1 else 0))"

definition bb_put_u8 :: "uint8 \<Rightarrow> 'z byte_buffer_scheme \<Rightarrow> 'z byte_buffer_scheme option" where
  "bb_put_u8 v = bb_append (le_enc 1 (unat v))"

definition bb_put_u16 :: "uint16 \<Rightarrow> 'z byte_buffer_scheme \<Rightarrow> 'z byte_buffer_scheme option" where
  "bb_put_u16 v = bb_append (le_enc 2 (unat v))"

definition bb_put_u32 :: "uint32 \<Rightarrow> 'z byte_buffer_scheme \<Rightarrow> 'z byte_buffer_scheme option" where
  "bb_put_u32 v = bb_append (le_enc 4 (unat v))"

definition bb_put_u64 :: "uint64 \<Rightarrow> 'z byte_buffer_scheme \<Rightarrow> 'z byte_buffer_scheme option" where
  "bb_put_u64 v = bb_append (le_enc 8 (unat v))"

text \<open>The signed and floating-point overloads copy the same number of bytes of the value.\<close>

definition bb_put_i8 :: "8 word \<Rightarrow> 'z byte_buffer_scheme \<Rightarrow> 'z byte_buffer_scheme option" where
  "bb_put_i8 v = bb_append (le_enc 1 (unat v))"

definition bb_put_i16 :: "16 word \<Rightarrow> 'z byte_buffer_scheme \<Rightarrow> 'z byte_buffer_scheme option" where
  "bb_put_i16 v = bb_append (le_enc 2 (unat v))"

definition bb_put_i32 :: "32 word \<Rightarrow> 'z byte_buffer_scheme \<Rightarrow> 'z byte_buffer_scheme option" where
  "bb_put_i32 v = bb_append (le_enc 4 (unat v))"

definition bb_put_i64 :: "64 word \<Rightarrow> 'z byte_buffer_scheme \<Rightarrow> 'z byte_buffer_scheme option" where
  "bb_put_i64 v = bb_append (le_enc 8 (unat v))"

definition bb_put_f32 :: "32 word \<Rightarrow> 'z byte_buffer_scheme \<Rightarrow> 'z byte_buffer_scheme option" where
  "bb_put_f32 v = bb_append (le_enc 4 (unat v))"

definition bb_put_f64 :: "64 word \<Rightarrow> 'z byte_buffer_scheme \<Rightarrow> 'z byte_buffer_scheme option" where
  "bb_put_f64 v = bb_append (le_enc 8 (unat v))"

definition bb_put_str :: "string \<Rightarrow> 'z byte_buffer_scheme \<Rightarrow> 'z byte_buffer_scheme option" where
  "bb_put_str s b = do { b \<leftarrow> bb_append (str_bytes s) b; bb_append [0] b }"

text \<open>A \<^verbatim>\<open>const char *\<close> is \<^const>\<open>None\<close> when null, else the characters before the first NUL.\<close>

definition bb_SetStr :: "string option \<Rightarrow> 'z byte_buffer_scheme \<Rightarrow> 'z byte_buffer_scheme option" where
  "bb_SetStr s b =
     do { b \<leftarrow> bb_append (case s of None \<Rightarrow> [] | Some cs \<Rightarrow> str_bytes (takeWhile (\<lambda>c. c \<noteq> CHR 0x00) cs)) b;
          bb_append [0] b }"

definition bb_append_str :: "string \<Rightarrow> 'z byte_buffer_scheme \<Rightarrow> 'z byte_buffer_scheme option" where
  "bb_append_str s = bb_append (str_bytes s @ [0])"

definition bb_put_buf ::
  "'y byte_buffer_scheme \<Rightarrow> 'z byte_buffer_scheme \<Rightarrow> 'z byte_buffer_scheme option" where
  "bb_put_buf rhs b =
     do { b \<leftarrow> bb_put_u32 (word_of_nat (bb_size rhs)) b;
          bs \<leftarrow> bb_contents (bb_size rhs) rhs;
          bb_append bs b }"

definition bb_append_buf ::
  "'y byte_buffer_scheme \<Rightarrow> 'z byte_buffer_scheme \<Rightarrow> 'z byte_buffer_scheme option" where
  "bb_append_buf buf b =
     (if bb_size buf \<noteq> 0 then do { bs \<leftarrow> bb_contents (bb_size buf) buf; bb_append bs b } else Some b)"

text \<open>
  \<^verbatim>\<open>operator<<(const google::protobuf::Message&)\<close>: the serialised bytes of the message are the
  parameter. Unlike \<^verbatim>\<open>append\<close>, this path has no assertion.
\<close>

definition bb_put_msg :: "byte list \<Rightarrow> 'z byte_buffer_scheme \<Rightarrow> 'z byte_buffer_scheme" where
  "bb_put_msg ser b =
     (let len = length ser;
          st = (if length (bb_storage b) < bb_wpos b + len
                then vec_resize 0 (bb_wpos b + len) (bb_storage b) else bb_storage b)
      in b\<lparr>bb_storage := overwrite (bb_wpos b) ser st, bb_wpos := bb_wpos b + len\<rparr>)"

text \<open>\<^verbatim>\<open>appendPackGUID\<close>: a mask byte, then the non-zero bytes of the identifier.\<close>

fun bb_packguid_loop ::
  "nat \<Rightarrow> nat \<Rightarrow> nat \<Rightarrow> uint64 \<Rightarrow> 'z byte_buffer_scheme \<Rightarrow> 'z byte_buffer_scheme option" where
  "bb_packguid_loop 0 i m guid b = Some b"
| "bb_packguid_loop (Suc n) i m guid b =
     (if and guid 0xFF \<noteq> 0
      then (if m < length (bb_storage b)
            then do {
              b \<leftarrow> bb_put_u8 (ucast (and guid 0xFF))
                     (b\<lparr>bb_storage := (bb_storage b)[m := or (bb_storage b ! m) (push_bit i 1)]\<rparr>);
              bb_packguid_loop n (Suc i) m (drop_bit 8 guid) b }
            else None)
      else bb_packguid_loop n (Suc i) m (drop_bit 8 guid) b)"

definition bb_appendPackGUID :: "uint64 \<Rightarrow> 'z byte_buffer_scheme \<Rightarrow> 'z byte_buffer_scheme option" where
  "bb_appendPackGUID guid b =
     do { let m = bb_wpos b; b \<leftarrow> bb_put_u8 0 b; bb_packguid_loop 8 0 m guid b }"

section \<open>Reading\<close>

text \<open>
  \<^verbatim>\<open>read<T>(pos)\<close> for a \<open>n\<close>-byte type, as the little-endian value of the bytes: past the end it
  returns \<open>T(0)\<close>. \<^verbatim>\<open>read<T>()\<close> advances the position even then.
\<close>

definition bb_read_at :: "nat \<Rightarrow> nat \<Rightarrow> 'z byte_buffer_scheme \<Rightarrow> nat option" where
  "bb_read_at n pos b =
     (if szadd pos n > bb_size b then Some 0
      else if pos + n \<le> length (bb_storage b) then Some (le_dec (segment pos n (bb_storage b)))
      else None)"

definition bb_read :: "nat \<Rightarrow> 'z byte_buffer_scheme \<Rightarrow> (nat \<times> 'z byte_buffer_scheme) option" where
  "bb_read n b =
     do { r \<leftarrow> bb_read_at n (bb_rpos b) b; Some (r, b\<lparr>bb_rpos := szadd (bb_rpos b) n\<rparr>) }"

definition bb_get_bool :: "'z byte_buffer_scheme \<Rightarrow> (bool \<times> 'z byte_buffer_scheme) option" where
  "bb_get_bool b = do { (v, b) \<leftarrow> bb_read 1 b; Some (sint (word_of_nat v :: 8 word) > 0, b) }"

definition bb_get_u8 :: "'z byte_buffer_scheme \<Rightarrow> (uint8 \<times> 'z byte_buffer_scheme) option" where
  "bb_get_u8 b = do { (v, b) \<leftarrow> bb_read 1 b; Some (word_of_nat v, b) }"

definition bb_get_u16 :: "'z byte_buffer_scheme \<Rightarrow> (uint16 \<times> 'z byte_buffer_scheme) option" where
  "bb_get_u16 b = do { (v, b) \<leftarrow> bb_read 2 b; Some (word_of_nat v, b) }"

definition bb_get_u32 :: "'z byte_buffer_scheme \<Rightarrow> (uint32 \<times> 'z byte_buffer_scheme) option" where
  "bb_get_u32 b = do { (v, b) \<leftarrow> bb_read 4 b; Some (word_of_nat v, b) }"

definition bb_get_u64 :: "'z byte_buffer_scheme \<Rightarrow> (uint64 \<times> 'z byte_buffer_scheme) option" where
  "bb_get_u64 b = do { (v, b) \<leftarrow> bb_read 8 b; Some (word_of_nat v, b) }"

definition bb_get_i8 :: "'z byte_buffer_scheme \<Rightarrow> (8 word \<times> 'z byte_buffer_scheme) option" where
  "bb_get_i8 b = do { (v, b) \<leftarrow> bb_read 1 b; Some (word_of_nat v, b) }"

definition bb_get_i16 :: "'z byte_buffer_scheme \<Rightarrow> (16 word \<times> 'z byte_buffer_scheme) option" where
  "bb_get_i16 b = do { (v, b) \<leftarrow> bb_read 2 b; Some (word_of_nat v, b) }"

definition bb_get_i32 :: "'z byte_buffer_scheme \<Rightarrow> (32 word \<times> 'z byte_buffer_scheme) option" where
  "bb_get_i32 b = do { (v, b) \<leftarrow> bb_read 4 b; Some (word_of_nat v, b) }"

definition bb_get_i64 :: "'z byte_buffer_scheme \<Rightarrow> (64 word \<times> 'z byte_buffer_scheme) option" where
  "bb_get_i64 b = do { (v, b) \<leftarrow> bb_read 8 b; Some (word_of_nat v, b) }"

definition bb_get_f32 :: "'z byte_buffer_scheme \<Rightarrow> (32 word \<times> 'z byte_buffer_scheme) option" where
  "bb_get_f32 b = do { (v, b) \<leftarrow> bb_read 4 b; Some (word_of_nat v, b) }"

definition bb_get_f64 :: "'z byte_buffer_scheme \<Rightarrow> (64 word \<times> 'z byte_buffer_scheme) option" where
  "bb_get_f64 b = do { (v, b) \<leftarrow> bb_read 8 b; Some (word_of_nat v, b) }"

text \<open>
  \<^verbatim>\<open>operator>>(std::string&)\<close>: bytes up to a NUL or to the end. The loop runs while
  \<^verbatim>\<open>rpos() < size()\<close>, so it reads one byte inside the buffer in every round. The second
  conjunct of the guard holds of every \<^verbatim>\<open>size_t\<close> and only tells the termination proof so.
\<close>

function bb_get_str_loop ::
  "string \<Rightarrow> 'z byte_buffer_scheme \<Rightarrow> (string \<times> 'z byte_buffer_scheme) option" where
  "bb_get_str_loop acc b =
     (if bb_rpos b < bb_size b \<and> bb_size b < 2 ^ 64
      then (case bb_read 1 b of
              None \<Rightarrow> None
            | Some (v, b') \<Rightarrow>
                if v = 0 then Some (acc, b') else bb_get_str_loop (acc @ [byte_char (word_of_nat v)]) b')
      else Some (acc, b))"
  by pat_completeness auto
termination
proof (relation "measure (\<lambda>(acc, b). bb_size b - bb_rpos b)", goal_cases)
  case (2 acc b p v b')
  then show ?case
    by (auto simp: bb_read_def bb_size_def szadd_def split: bind_splits)
qed simp

definition bb_get_str :: "'z byte_buffer_scheme \<Rightarrow> (string \<times> 'z byte_buffer_scheme) option" where
  "bb_get_str b = bb_get_str_loop [] b"

definition bb_read_bytes :: "nat \<Rightarrow> 'z byte_buffer_scheme \<Rightarrow> (byte list \<times> 'z byte_buffer_scheme) option" where
  "bb_read_bytes len b =
     (if szadd (bb_rpos b) len > bb_size b then Some (replicate len 0, b)
      else if bb_rpos b + len \<le> length (bb_storage b)
      then Some (segment (bb_rpos b) len (bb_storage b), b\<lparr>bb_rpos := szadd (bb_rpos b) len\<rparr>)
      else None)"

definition bb_read_str :: "nat \<Rightarrow> 'z byte_buffer_scheme \<Rightarrow> (string \<times> 'z byte_buffer_scheme) option" where
  "bb_read_str len b =
     (if szadd (bb_rpos b) len > bb_size b then Some ([], b)
      else if bb_rpos b + len \<le> length (bb_storage b)
      then Some (bytes_str (segment (bb_rpos b) len (bb_storage b)), b\<lparr>bb_rpos := szadd (bb_rpos b) len\<rparr>)
      else None)"

text \<open>\<^verbatim>\<open>operator>>(ByteBuffer& value)\<close>: the target buffer is resized, then filled.\<close>

definition bb_get_buf ::
  "'y byte_buffer_scheme \<Rightarrow> 'z byte_buffer_scheme \<Rightarrow> ('y byte_buffer_scheme \<times> 'z byte_buffer_scheme) option" where
  "bb_get_buf value b =
     do { (size, b) \<leftarrow> bb_get_u32 b;
          let value = bb_resize (unat size) value;
          (bs, b) \<leftarrow> bb_read_bytes (unat size) b;
          Some (value\<lparr>bb_storage := overwrite 0 bs (bb_storage value)\<rparr>, b) }"

definition bb_index :: "nat \<Rightarrow> 'z byte_buffer_scheme \<Rightarrow> uint8 option" where
  "bb_index pos b = map_option word_of_nat (bb_read_at 1 pos b)"

text \<open>
  \<^verbatim>\<open>operator>>(google::protobuf::Message&)\<close> hands everything unread to the message's parser,
  a parameter here, and moves to the end. With the read position past the end the length handed
  to the parser is negative.
\<close>

definition bb_get_msg ::
  "(byte list \<Rightarrow> 'm) \<Rightarrow> 'z byte_buffer_scheme \<Rightarrow> ('m \<times> 'z byte_buffer_scheme) option" where
  "bb_get_msg parse b =
     (if bb_rpos b \<le> bb_size b \<and> bb_size b \<le> length (bb_storage b) \<and> bb_size b - bb_rpos b < 2 ^ 31
      then Some (parse (segment (bb_rpos b) (bb_size b - bb_rpos b) (bb_storage b)), b\<lparr>bb_rpos := bb_size b\<rparr>)
      else None)"

section \<open>Log output\<close>

text \<open>
  \<^verbatim>\<open>hexlike\<close> as the list of messages it hands to the log: the counters \<^verbatim>\<open>j\<close> and \<^verbatim>\<open>k\<close> mark
  every eighth and every sixteenth byte.
\<close>

definition hex_pad :: "uint8 \<Rightarrow> string" where
  "hex_pad v = (if v < 0x0F then ''0'' else []) @ hex_str (unat v) @ '' ''"

fun bb_hexlike_loop ::
  "nat \<Rightarrow> nat \<Rightarrow> nat \<Rightarrow> nat \<Rightarrow> 'z byte_buffer_scheme \<Rightarrow> string list option" where
  "bb_hexlike_loop 0 i j k b = Some []"
| "bb_hexlike_loop (Suc n) i j k b =
     do { v \<leftarrow> bb_index i b;
          let (pre, j, k) =
            (if i = j * 8 \<and> i \<noteq> k * 16 then (''| '', j + 1, k)
             else if i = k * 16 then ([CHR 0x0A], j + 1, k + 1)
             else ([], j, k));
          rest \<leftarrow> bb_hexlike_loop n (i + 1) j k b;
          Some ((pre @ hex_pad v) # rest) }"

definition bb_hexlike :: "'z byte_buffer_scheme \<Rightarrow> string list option" where
  "bb_hexlike b =
     do { out \<leftarrow> bb_hexlike_loop (bb_size b) 0 1 1 b;
          Some ([''STORAGE_SIZE: '' @ dec_str (bb_size b)] @ out @ ['' '']) }"

definition bb_textlike :: "'z byte_buffer_scheme \<Rightarrow> string list option" where
  "bb_textlike b =
     do { cs \<leftarrow> those (map (\<lambda>i. bb_index i b) [0..<bb_size b]);
          Some ([''STORAGE_SIZE: '' @ dec_str (bb_size b)] @ map (\<lambda>v. [byte_char v]) cs @ ['' '']) }"

definition bb_print_storage :: "'z byte_buffer_scheme \<Rightarrow> string list option" where
  "bb_print_storage b =
     do { cs \<leftarrow> those (map (\<lambda>i. bb_index i b) [0..<bb_size b]);
          Some ([''STORAGE_SIZE: '' @ dec_str (bb_size b)] @ map (\<lambda>v. dec_str (unat v) @ '' - '') cs @ ['' '']) }"

section \<open>Container templates\<close>

fun bb_put_each ::
  "('a \<Rightarrow> 'z byte_buffer_scheme \<Rightarrow> 'z byte_buffer_scheme option) \<Rightarrow> 'a list \<Rightarrow> 'z byte_buffer_scheme \<Rightarrow>
   'z byte_buffer_scheme option" where
  "bb_put_each put [] b = Some b"
| "bb_put_each put (x # xs) b = do { b \<leftarrow> put x b; bb_put_each put xs b }"

fun bb_get_each ::
  "('z byte_buffer_scheme \<Rightarrow> ('a \<times> 'z byte_buffer_scheme) option) \<Rightarrow> nat \<Rightarrow> 'z byte_buffer_scheme \<Rightarrow>
   ('a list \<times> 'z byte_buffer_scheme) option" where
  "bb_get_each get 0 b = Some ([], b)"
| "bb_get_each get (Suc n) b =
     do { (x, b) \<leftarrow> get b; (xs, b) \<leftarrow> bb_get_each get n b; Some (x # xs, b) }"

definition bb_put_vec ::
  "('a \<Rightarrow> 'z byte_buffer_scheme \<Rightarrow> 'z byte_buffer_scheme option) \<Rightarrow> 'a list \<Rightarrow> 'z byte_buffer_scheme \<Rightarrow>
   'z byte_buffer_scheme option" where
  "bb_put_vec put v b = do { b \<leftarrow> bb_put_u32 (word_of_nat (length v)) b; bb_put_each put v b }"

definition bb_get_vec ::
  "('z byte_buffer_scheme \<Rightarrow> ('a \<times> 'z byte_buffer_scheme) option) \<Rightarrow> 'z byte_buffer_scheme \<Rightarrow>
   ('a list \<times> 'z byte_buffer_scheme) option" where
  "bb_get_vec get b = do { (vsize, b) \<leftarrow> bb_get_u32 b; bb_get_each get (unat vsize) b }"

text \<open>\<^verbatim>\<open>std::list\<close> is written and read by the same two loops.\<close>

definition bb_put_list ::
  "('a \<Rightarrow> 'z byte_buffer_scheme \<Rightarrow> 'z byte_buffer_scheme option) \<Rightarrow> 'a list \<Rightarrow> 'z byte_buffer_scheme \<Rightarrow>
   'z byte_buffer_scheme option" where
  "bb_put_list put v b = do { b \<leftarrow> bb_put_u32 (word_of_nat (length v)) b; bb_put_each put v b }"

definition bb_get_list ::
  "('z byte_buffer_scheme \<Rightarrow> ('a \<times> 'z byte_buffer_scheme) option) \<Rightarrow> 'z byte_buffer_scheme \<Rightarrow>
   ('a list \<times> 'z byte_buffer_scheme) option" where
  "bb_get_list get b = do { (vsize, b) \<leftarrow> bb_get_u32 b; bb_get_each get (unat vsize) b }"

definition bb_put_pair ::
  "('k \<Rightarrow> 'z byte_buffer_scheme \<Rightarrow> 'z byte_buffer_scheme option) \<Rightarrow>
   ('v \<Rightarrow> 'z byte_buffer_scheme \<Rightarrow> 'z byte_buffer_scheme option) \<Rightarrow>
   'k \<times> 'v \<Rightarrow> 'z byte_buffer_scheme \<Rightarrow> 'z byte_buffer_scheme option" where
  "bb_put_pair putk putv kv b = do { b \<leftarrow> putk (fst kv) b; putv (snd kv) b }"

definition bb_get_pair ::
  "('z byte_buffer_scheme \<Rightarrow> ('k \<times> 'z byte_buffer_scheme) option) \<Rightarrow>
   ('z byte_buffer_scheme \<Rightarrow> ('v \<times> 'z byte_buffer_scheme) option) \<Rightarrow>
   'z byte_buffer_scheme \<Rightarrow> (('k \<times> 'v) \<times> 'z byte_buffer_scheme) option" where
  "bb_get_pair getk getv b = do { (k, b) \<leftarrow> getk b; (v, b) \<leftarrow> getv b; Some ((k, v), b) }"

definition bb_put_map ::
  "('k \<Rightarrow> 'z byte_buffer_scheme \<Rightarrow> 'z byte_buffer_scheme option) \<Rightarrow>
   ('v \<Rightarrow> 'z byte_buffer_scheme \<Rightarrow> 'z byte_buffer_scheme option) \<Rightarrow>
   ('k \<times> 'v) list \<Rightarrow> 'z byte_buffer_scheme \<Rightarrow> 'z byte_buffer_scheme option" where
  "bb_put_map putk putv m b =
     do { b \<leftarrow> bb_put_u32 (word_of_nat (length m)) b; bb_put_each (bb_put_pair putk putv) m b }"

definition bb_get_map ::
  "('z byte_buffer_scheme \<Rightarrow> ('k::linorder \<times> 'z byte_buffer_scheme) option) \<Rightarrow>
   ('z byte_buffer_scheme \<Rightarrow> ('v \<times> 'z byte_buffer_scheme) option) \<Rightarrow>
   'z byte_buffer_scheme \<Rightarrow> (('k \<times> 'v) list \<times> 'z byte_buffer_scheme) option" where
  "bb_get_map getk getv b =
     do { (msize, b) \<leftarrow> bb_get_u32 b;
          (kvs, b) \<leftarrow> bb_get_each (bb_get_pair getk getv) (unat msize) b;
          Some (fold (\<lambda>(k, v). omap_insert k v) kvs [], b) }"

section \<open>WorldPacket\<close>

record world_packet = byte_buffer +
  wp_opcode :: uint32

definition wp_new :: "uint32 \<Rightarrow> nat \<Rightarrow> world_packet" where
  "wp_new opcode res = byte_buffer.extend (bb_new res) (world_packet.fields opcode)"

definition wp_default :: world_packet where
  "wp_default = wp_new 0 1000"

definition wp_opc :: "uint32 \<Rightarrow> world_packet" where
  "wp_opc opcode = wp_new opcode 1000"

definition wp_Initialize :: "uint32 \<Rightarrow> world_packet \<Rightarrow> world_packet" where
  "wp_Initialize opcode p = (bb_clear p)\<lparr>wp_opcode := opcode\<rparr>"

definition wp_SetOpcode :: "uint32 \<Rightarrow> world_packet \<Rightarrow> world_packet" where
  "wp_SetOpcode opcode p = p\<lparr>wp_opcode := opcode\<rparr>"

section \<open>Well-formed buffers\<close>

text \<open>
  A buffer is well-formed when the write position is inside the vector and all positions are
  machine sizes. \<open>bb_data\<close> is what has been written, \<open>bb_unread\<close> what a reader has left.
\<close>

definition bb_wf :: "'z byte_buffer_scheme \<Rightarrow> bool" where
  "bb_wf b \<longleftrightarrow> bb_wpos b \<le> length (bb_storage b) \<and> length (bb_storage b) < 2 ^ 63 \<and> bb_rpos b < 2 ^ 63"

definition bb_data :: "'z byte_buffer_scheme \<Rightarrow> byte list" where
  "bb_data b = take (bb_wpos b) (bb_storage b)"

definition bb_unread :: "'z byte_buffer_scheme \<Rightarrow> byte list" where
  "bb_unread b = drop (bb_rpos b) (bb_data b)"

definition bb_room :: "nat \<Rightarrow> 'z byte_buffer_scheme \<Rightarrow> bool" where
  "bb_room n b \<longleftrightarrow> bb_wpos b + n \<le> 10000000"

definition bb_extend :: "byte list \<Rightarrow> 'z byte_buffer_scheme \<Rightarrow> 'z byte_buffer_scheme" where
  "bb_extend bs b =
     b\<lparr>bb_storage := overwrite (bb_wpos b) bs
         (if length (bb_storage b) < bb_wpos b + length bs
          then vec_resize 0 (bb_wpos b + length bs) (bb_storage b) else bb_storage b),
       bb_wpos := bb_wpos b + length bs\<rparr>"

definition bb_skip :: "nat \<Rightarrow> 'z byte_buffer_scheme \<Rightarrow> 'z byte_buffer_scheme" where
  "bb_skip n b = b\<lparr>bb_rpos := bb_rpos b + n\<rparr>"

lemma bb_wf_new: "n < 2 ^ 63 \<Longrightarrow> bb_wf (bb_new n)"
  by (simp add: bb_wf_def bb_new_def)

lemma bb_data_new [simp]: "bb_data (bb_new n) = []"
  by (simp add: bb_data_def bb_new_def)

lemma bb_wf_clear: "bb_wf b \<Longrightarrow> bb_wf (bb_clear b)"
  by (simp add: bb_wf_def bb_clear_def)

lemma length_bb_data: "bb_wf b \<Longrightarrow> length (bb_data b) = bb_wpos b"
  by (simp add: bb_wf_def bb_data_def)

lemma length_bb_unread: "bb_wf b \<Longrightarrow> length (bb_unread b) = bb_wpos b - bb_rpos b"
  by (simp add: length_bb_data bb_unread_def)

lemma overwrite_Nil [simp]: "overwrite pos [] xs = xs"
  by (simp add: overwrite_def)

lemma bb_extend_Nil [simp]: "bb_wf b \<Longrightarrow> bb_extend [] b = b"
  by (simp add: bb_extend_def bb_wf_def)

lemma bb_wpos_extend [simp]: "bb_wpos (bb_extend bs b) = bb_wpos b + length bs"
  by (simp add: bb_extend_def)

lemma bb_rpos_extend [simp]: "bb_rpos (bb_extend bs b) = bb_rpos b"
  by (simp add: bb_extend_def)

lemma bb_more_extend [simp]: "byte_buffer.more (bb_extend bs b) = byte_buffer.more b"
  by (simp add: bb_extend_def)

lemma overwrite_grown:
  "w \<le> length st \<Longrightarrow>
   overwrite w bs (if length st < w + length bs then vec_resize 0 (w + length bs) st else st) =
   take w st @ bs @ drop (w + length bs) st"
  by (simp add: overwrite_def vec_resize_def)

lemma bb_storage_extend:
  "bb_wf b \<Longrightarrow>
   bb_storage (bb_extend bs b) =
   take (bb_wpos b) (bb_storage b) @ bs @ drop (bb_wpos b + length bs) (bb_storage b)"
  by (simp add: bb_extend_def overwrite_grown bb_wf_def)

lemma bb_extend_data: "bb_wf b \<Longrightarrow> bb_data (bb_extend bs b) = bb_data b @ bs"
  by (simp add: bb_data_def bb_storage_extend) (simp add: bb_wf_def)

lemma bb_extend_wf: "bb_wf b \<Longrightarrow> bb_room (length bs) b \<Longrightarrow> bb_wf (bb_extend bs b)"
  by (auto simp: bb_wf_def bb_room_def bb_extend_def)

lemma bb_extend_append:
  assumes "bb_wf b" "bb_room (length xs) b"
  shows "bb_extend ys (bb_extend xs b) = bb_extend (xs @ ys) b"
proof (rule byte_buffer.equality)
  show "bb_storage (bb_extend ys (bb_extend xs b)) = bb_storage (bb_extend (xs @ ys) b)"
    using assms bb_extend_wf [OF assms]
    by (simp add: bb_storage_extend bb_wf_def ac_simps)
qed (simp_all add: add.assoc)

lemma bb_room_extend: "bb_room (length xs + n) b \<Longrightarrow> bb_room n (bb_extend xs b)"
  by (simp add: bb_room_def add.assoc)

lemma bb_append_extend:
  assumes "bb_wf b" "bb_room (length bs) b"
  shows "bb_append bs b = Some (bb_extend bs b)"
proof (cases "bs = []")
  case True
  then show ?thesis using assms by (simp add: bb_append_def)
next
  case False
  then have "bb_size b < 10000000"
    using assms(2) by (cases bs) (auto simp: bb_room_def bb_size_def)
  with False show ?thesis
    by (simp add: bb_append_def bb_extend_def Let_def)
qed

lemma bb_skip_unread: "bb_unread (bb_skip n b) = drop n (bb_unread b)"
  by (simp add: bb_unread_def bb_skip_def bb_data_def add.commute)

lemma bb_skip_wf: "bb_wf b \<Longrightarrow> n \<le> length (bb_unread b) \<Longrightarrow> bb_wf (bb_skip n b)"
  by (cases "n = 0") (auto simp: bb_wf_def bb_skip_def bb_unread_def bb_data_def)

lemma bb_skip_skip [simp]: "bb_skip m (bb_skip n b) = bb_skip (n + m) b"
  by (simp add: bb_skip_def add.assoc)

lemma bb_skip_0 [simp]: "bb_skip 0 b = b"
  by (simp add: bb_skip_def)

text \<open>The core of every fixed-width read: the next \<open>n\<close> unread bytes, decoded.\<close>

lemma bb_read_unread:
  assumes wf: "bb_wf b" and un: "bb_unread b = bs @ r" and n: "length bs = n" "0 < n"
  shows "bb_read n b = Some (le_dec bs, bb_skip n b)"
proof -
  have len: "bb_rpos b + n + length r = bb_wpos b"
    using length_bb_unread [OF wf] un n by simp
  then have sz: "szadd (bb_rpos b) n = bb_rpos b + n"
    using wf by (simp add: szadd_def bb_wf_def)
  have "segment (bb_rpos b) n (bb_storage b) = segment (bb_rpos b) n (bb_data b)"
    using len by (simp add: bb_data_def segment_take)
  also have "\<dots> = take n (bb_unread b)"
    by (simp add: segment_def bb_unread_def)
  finally have "segment (bb_rpos b) n (bb_storage b) = bs"
    using un n by simp
  then show ?thesis
    using len wf by (simp add: bb_read_def bb_read_at_def bb_size_def sz bb_wf_def bb_skip_def)
qed

section \<open>The codec interface\<close>

text \<open>
  A type that has both stream operators promises: within the assertion's bound, \<open>put\<close> appends
  exactly \<open>enc x\<close>; and when the unread bytes start with \<open>enc x\<close>, \<open>get\<close> returns \<open>x\<close>
  and skips exactly those bytes. \<open>ok\<close> are the values the wire format can carry. The header's
  container templates use nothing else of their element type.
\<close>

locale codec =
  fixes put :: "'a \<Rightarrow> 'z byte_buffer_scheme \<Rightarrow> 'z byte_buffer_scheme option"
    and get :: "'z byte_buffer_scheme \<Rightarrow> ('a \<times> 'z byte_buffer_scheme) option"
    and enc :: "'a \<Rightarrow> byte list"
    and ok :: "'a \<Rightarrow> bool"
  assumes put_extend: "bb_wf b \<Longrightarrow> ok x \<Longrightarrow> bb_room (length (enc x)) b \<Longrightarrow> put x b = Some (bb_extend (enc x) b)"
    and get_skip: "bb_wf b \<Longrightarrow> ok x \<Longrightarrow> bb_unread b = enc x @ r \<Longrightarrow> get b = Some (x, bb_skip (length (enc x)) b)"
begin

lemma put_each_extend:
  assumes "bb_wf b" "\<forall>x \<in> set xs. ok x" "bb_room (length (concat (map enc xs))) b"
  shows "bb_put_each put xs b = Some (bb_extend (concat (map enc xs)) b)"
  using assms
proof (induction xs arbitrary: b)
  case (Cons x xs)
  let ?b = "bb_extend (enc x) b"
  from Cons.prems(3) have room: "bb_room (length (enc x)) b"
    by (simp add: bb_room_def)
  from Cons.prems(3) have room': "bb_room (length (concat (map enc xs))) ?b"
    by (intro bb_room_extend) simp
  have wf: "bb_wf ?b" using Cons.prems(1) room by (rule bb_extend_wf)
  from Cons.prems room have "put x b = Some ?b" by (intro put_extend) auto
  moreover from wf room' Cons.prems(2) have "bb_put_each put xs ?b = Some (bb_extend (concat (map enc xs)) ?b)"
    by (intro Cons.IH) auto
  ultimately show ?case
    using bb_extend_append [OF Cons.prems(1) room] by simp
qed simp

lemma get_each_skip:
  assumes "bb_wf b" "\<forall>x \<in> set xs. ok x" "bb_unread b = concat (map enc xs) @ r"
  shows "bb_get_each get (length xs) b = Some (xs, bb_skip (length (concat (map enc xs))) b)"
  using assms
proof (induction xs arbitrary: b)
  case (Cons x xs)
  let ?b = "bb_skip (length (enc x)) b"
  from Cons.prems have "get b = Some (x, ?b)"
    by (intro get_skip [where r = "concat (map enc xs) @ r"]) auto
  moreover from Cons.prems have "bb_get_each get (length xs) ?b = Some (xs, bb_skip (length (concat (map enc xs))) ?b)"
    by (intro Cons.IH) (auto simp: bb_skip_unread intro!: bb_skip_wf)
  ultimately show ?case by simp
qed simp

text \<open>Writing to an empty buffer and reading it back.\<close>

lemma fresh_round_trip:
  assumes "ok x" "length (enc x) \<le> 10000000" "bb_wf b" "bb_wpos b = 0" "bb_rpos b = 0"
  shows "put x b = Some (bb_extend (enc x) b)"
    and "get (bb_extend (enc x) b) = Some (x, bb_skip (length (enc x)) (bb_extend (enc x) b))"
    and "bb_unread (bb_skip (length (enc x)) (bb_extend (enc x) b)) = []"
proof -
  let ?b = "bb_extend (enc x) b"
  have room: "bb_room (length (enc x)) b" using assms by (simp add: bb_room_def)
  show "put x b = Some ?b" using assms room by (intro put_extend)
  have data: "bb_data ?b = enc x"
    using bb_extend_data [OF assms(3)] assms(4) by (simp add: bb_data_def)
  then have un: "bb_unread ?b = enc x @ []"
    using assms(5) by (simp add: bb_unread_def)
  show "get ?b = Some (x, bb_skip (length (enc x)) ?b)"
    using bb_extend_wf [OF assms(3) room] assms(1) un by (rule get_skip)
  show "bb_unread (bb_skip (length (enc x)) ?b) = []"
    using un by (simp add: bb_skip_unread)
qed

end

section \<open>The codecs of the fixed-width types and of strings\<close>

lemma put_word_extend:
  "bb_wf b \<Longrightarrow> bb_room n b \<Longrightarrow> bb_append (le_enc n v) b = Some (bb_extend (le_enc n v) b)"
  by (simp add: bb_append_extend)

lemma read_word_skip:
  assumes "bb_wf b" "bb_unread b = le_enc n (unat w) @ r" "LENGTH('a) = 8 * n" "0 < n"
  shows "bb_read n b = Some (unat (w :: 'a::len word), bb_skip n b)"
proof -
  have "unat w < 2 ^ (8 * n)"
    using unsigned_less [of w, where ?'a = nat] assms(3) by simp
  then have "unat w mod 256 ^ n = unat w"
    by (simp add: power_mult)
  with bb_read_unread [OF assms(1,2)] assms(4) show ?thesis
    by (simp add: le_dec_enc)
qed

lemmas codec_word = put_word_extend read_word_skip

interpretation u8c: codec bb_put_u8 bb_get_u8 "\<lambda>v. le_enc 1 (unat v)" "\<lambda>_. True"
  by unfold_locales (simp_all add: bb_put_u8_def bb_get_u8_def codec_word del: One_nat_def le_enc.simps)

interpretation u16c: codec bb_put_u16 bb_get_u16 "\<lambda>v. le_enc 2 (unat v)" "\<lambda>_. True"
  by unfold_locales (simp_all add: bb_put_u16_def bb_get_u16_def codec_word del: le_enc.simps)

interpretation u32c: codec bb_put_u32 bb_get_u32 "\<lambda>v. le_enc 4 (unat v)" "\<lambda>_. True"
  by unfold_locales (simp_all add: bb_put_u32_def bb_get_u32_def codec_word del: le_enc.simps)

interpretation u64c: codec bb_put_u64 bb_get_u64 "\<lambda>v. le_enc 8 (unat v)" "\<lambda>_. True"
  by unfold_locales (simp_all add: bb_put_u64_def bb_get_u64_def codec_word del: le_enc.simps)

interpretation i8c: codec bb_put_i8 bb_get_i8 "\<lambda>v. le_enc 1 (unat v)" "\<lambda>_. True"
  by unfold_locales (simp_all add: bb_put_i8_def bb_get_i8_def codec_word del: One_nat_def le_enc.simps)

interpretation i16c: codec bb_put_i16 bb_get_i16 "\<lambda>v. le_enc 2 (unat v)" "\<lambda>_. True"
  by unfold_locales (simp_all add: bb_put_i16_def bb_get_i16_def codec_word del: le_enc.simps)

interpretation i32c: codec bb_put_i32 bb_get_i32 "\<lambda>v. le_enc 4 (unat v)" "\<lambda>_. True"
  by unfold_locales (simp_all add: bb_put_i32_def bb_get_i32_def codec_word del: le_enc.simps)

interpretation i64c: codec bb_put_i64 bb_get_i64 "\<lambda>v. le_enc 8 (unat v)" "\<lambda>_. True"
  by unfold_locales (simp_all add: bb_put_i64_def bb_get_i64_def codec_word del: le_enc.simps)

interpretation f32c: codec bb_put_f32 bb_get_f32 "\<lambda>v. le_enc 4 (unat v)" "\<lambda>_. True"
  by unfold_locales (simp_all add: bb_put_f32_def bb_get_f32_def codec_word del: le_enc.simps)

interpretation f64c: codec bb_put_f64 bb_get_f64 "\<lambda>v. le_enc 8 (unat v)" "\<lambda>_. True"
  by unfold_locales (simp_all add: bb_put_f64_def bb_get_f64_def codec_word del: le_enc.simps)

interpretation boolc: codec bb_put_bool bb_get_bool "\<lambda>v. le_enc 1 (if v then 1 else 0)" "\<lambda>_. True"
proof (unfold_locales, goal_cases)
  case (1 b x)
  then show ?case by (simp add: bb_put_bool_def put_word_extend del: One_nat_def le_enc.simps)
next
  case (2 b x r)
  have "le_enc 1 (if x then 1 else 0) = le_enc 1 (unat (if x then 1 else 0 :: 8 word))" by simp
  with 2 read_word_skip [of b 1 "if x then 1 else 0 :: 8 word" r]
  show ?case by (auto simp: bb_get_bool_def simp del: One_nat_def le_enc.simps)
qed

text \<open>Strings: the bytes and a NUL; a string with a NUL inside is not carried whole.\<close>

declare bb_get_str_loop.simps [simp del]

lemma str_loop_skip:
  assumes "bb_wf b" "bb_unread b = str_bytes s @ 0 # r" "CHR 0x00 \<notin> set s"
  shows "bb_get_str_loop acc b = Some (acc @ s, bb_skip (Suc (length s)) b)"
  using assms
proof (induction s arbitrary: acc b)
  case Nil
  then have "bb_rpos b < bb_wpos b" using length_bb_unread [OF Nil.prems(1)] by simp
  moreover have "bb_wpos b < 2 ^ 64" using Nil.prems(1) by (simp add: bb_wf_def)
  moreover have "bb_read 1 b = Some (0, bb_skip 1 b)"
    using bb_read_unread [of b "[0]" r 1] Nil.prems by (simp add: str_bytes_def)
  ultimately show ?case
    by (subst bb_get_str_loop.simps) (simp add: bb_size_def)
next
  case (Cons c s)
  then have lt: "bb_rpos b < bb_wpos b" "bb_wpos b < 2 ^ 64"
    using length_bb_unread [OF Cons.prems(1)] by (simp_all add: bb_wf_def)
  have rd: "bb_read 1 b = Some (of_char c, bb_skip 1 b)"
    using bb_read_unread [of b "[char_byte c]" "str_bytes s @ 0 # r" 1] Cons.prems by (simp add: str_bytes_def)
  have un: "bb_unread (bb_skip 1 b) = str_bytes s @ 0 # r"
    using Cons.prems by (simp add: bb_skip_unread str_bytes_def)
  have "of_char c \<noteq> (0::nat)"
    using Cons.prems(3) by auto
  moreover have "bb_get_str_loop (acc @ [c]) (bb_skip 1 b) = Some ((acc @ [c]) @ s, bb_skip (Suc (length s)) (bb_skip 1 b))"
    using Cons.prems un by (intro Cons.IH) (auto intro!: bb_skip_wf)
  ultimately show ?case
    using lt rd by (subst bb_get_str_loop.simps) (simp add: bb_size_def)
qed

interpretation strc: codec bb_put_str bb_get_str "\<lambda>s. str_bytes s @ [0]" "\<lambda>s. CHR 0x00 \<notin> set s"
proof (unfold_locales, goal_cases)
  case (1 b s)
  have room: "bb_room (length (str_bytes s)) b" "bb_room (length [0 :: byte]) (bb_extend (str_bytes s) b)"
    using 1 by (auto simp: bb_room_def)
  from 1 room show ?case
    using bb_append_extend [OF bb_extend_wf [OF 1(1) room(1)] room(2)]
      bb_extend_append [OF 1(1) room(1)]
    by (simp add: bb_put_str_def bb_append_extend)
next
  case (2 b s r)
  then show ?case using str_loop_skip [of b s r "[]"] by (simp add: bb_get_str_def)
qed

section \<open>Codecs of the containers\<close>

text \<open>The container templates turn codecs into codecs, so nested containers are covered too.\<close>

locale pair_codec = K: codec putk getk enck okk + V: codec putv getv encv okv
  for putk :: "'k \<Rightarrow> 'z byte_buffer_scheme \<Rightarrow> 'z byte_buffer_scheme option" and getk enck okk
    and putv :: "'v \<Rightarrow> 'z byte_buffer_scheme \<Rightarrow> 'z byte_buffer_scheme option" and getv encv okv
begin

lemma pair_is_codec:
  "codec (bb_put_pair putk putv) (bb_get_pair getk getv) (\<lambda>(k, v). enck k @ encv v) (\<lambda>(k, v). okk k \<and> okv v)"
proof (unfold_locales, goal_cases)
  case (1 b x)
  obtain k v where x: "x = (k, v)" by fastforce
  have room: "bb_room (length (enck k)) b" "bb_room (length (encv v)) (bb_extend (enck k) b)"
    using 1 x by (auto simp: bb_room_def)
  have "putv v (bb_extend (enck k) b) = Some (bb_extend (encv v) (bb_extend (enck k) b))"
    using 1 x room by (intro V.put_extend bb_extend_wf) auto
  then show ?case
    using 1 x room bb_extend_append [OF 1(1) room(1)] by (simp add: bb_put_pair_def K.put_extend)
next
  case (2 b x r)
  obtain k v where x: "x = (k, v)" by fastforce
  have "getk b = Some (k, bb_skip (length (enck k)) b)"
    using 2 x by (intro K.get_skip [where r = "encv v @ r"]) auto
  moreover have "getv (bb_skip (length (enck k)) b) = Some (v, bb_skip (length (encv v)) (bb_skip (length (enck k)) b))"
    using 2 x by (intro V.get_skip [where r = r] bb_skip_wf) (auto simp: bb_skip_unread)
  ultimately show ?case using x by (simp add: bb_get_pair_def)
qed

end

definition enc_vec :: "('a \<Rightarrow> byte list) \<Rightarrow> 'a list \<Rightarrow> byte list" where
  "enc_vec enc v = le_enc 4 (length v) @ concat (map enc v)"

definition ok_vec :: "('a \<Rightarrow> bool) \<Rightarrow> 'a list \<Rightarrow> bool" where
  "ok_vec ok v \<longleftrightarrow> length v < 2 ^ 32 \<and> (\<forall>x \<in> set v. ok x)"

context codec
begin

lemma counted_put:
  assumes "bb_wf b" "ok_vec ok v" "bb_room (length (enc_vec enc v)) b"
  shows "do { b \<leftarrow> bb_put_u32 (word_of_nat (length v)) b; bb_put_each put v b } = Some (bb_extend (enc_vec enc v) b)"
proof -
  let ?n = "le_enc 4 (length v)"
  have un: "unat (word_of_nat (length v) :: 32 word) = length v"
    using assms(2) by (simp add: ok_vec_def unat_of_nat)
  have room: "bb_room (length ?n) b" "bb_room (length (concat (map enc v))) (bb_extend ?n b)"
    using assms(3) by (auto simp: bb_room_def enc_vec_def)
  have "bb_put_u32 (word_of_nat (length v)) b = Some (bb_extend ?n b)"
    using u32c.put_extend [OF assms(1), of "word_of_nat (length v)"] room(1) un by simp
  moreover have "bb_put_each put v (bb_extend ?n b) = Some (bb_extend (concat (map enc v)) (bb_extend ?n b))"
    using assms room by (intro put_each_extend bb_extend_wf) (auto simp: ok_vec_def)
  ultimately show ?thesis
    using bb_extend_append [OF assms(1) room(1)] by (simp add: enc_vec_def)
qed

lemma counted_get:
  assumes "bb_wf b" "ok_vec ok v" "bb_unread b = enc_vec enc v @ r"
  shows "do { (n, b) \<leftarrow> bb_get_u32 b; bb_get_each get (unat n) b } = Some (v, bb_skip (length (enc_vec enc v)) b)"
proof -
  let ?n = "le_enc 4 (length v)"
  have un: "unat (word_of_nat (length v) :: 32 word) = length v"
    using assms(2) by (simp add: ok_vec_def unat_of_nat)
  have "bb_get_u32 b = Some (word_of_nat (length v), bb_skip (length ?n) b)"
    using u32c.get_skip [OF assms(1) TrueI, of "word_of_nat (length v)"] assms(3) un by (simp add: enc_vec_def)
  moreover have "bb_get_each get (length v) (bb_skip (length ?n) b) =
      Some (v, bb_skip (length (concat (map enc v))) (bb_skip (length ?n) b))"
    using assms by (intro get_each_skip [where r = r] bb_skip_wf) (auto simp: ok_vec_def enc_vec_def bb_skip_unread)
  ultimately show ?thesis
    by (simp add: un enc_vec_def)
qed

lemma vec_is_codec: "codec (bb_put_vec put) (bb_get_vec get) (enc_vec enc) (ok_vec ok)"
  by unfold_locales (simp_all add: bb_put_vec_def bb_get_vec_def counted_put counted_get)

lemma list_is_codec: "codec (bb_put_list put) (bb_get_list get) (enc_vec enc) (ok_vec ok)"
  by unfold_locales (simp_all add: bb_put_list_def bb_get_list_def counted_put counted_get)

end

text \<open>The pair the maps of the code are written with.\<close>

interpretation str_u32: pair_codec bb_put_str bb_get_str "\<lambda>s. str_bytes s @ [0]" "\<lambda>s. CHR 0x00 \<notin> set s"
    bb_put_u32 bb_get_u32 "\<lambda>v. le_enc 4 (unat v)" "\<lambda>_. True"
  by (intro pair_codec.intro strc.codec_axioms u32c.codec_axioms)

lemma map_is_codec:
  fixes putk :: "'k::linorder \<Rightarrow> 'z byte_buffer_scheme \<Rightarrow> 'z byte_buffer_scheme option"
  assumes "codec putk getk enck okk" "codec putv getv encv okv"
  shows "codec (bb_put_map putk putv) (bb_get_map getk getv) (enc_vec (\<lambda>(k, v). enck k @ encv v))
           (\<lambda>m. ok_vec (\<lambda>(k, v). okk k \<and> okv v) m \<and> omap_ok m)"
proof -
  have pc: "codec (bb_put_pair putk putv) (bb_get_pair getk getv)
      (\<lambda>(k, v). enck k @ encv v) (\<lambda>(k, v). okk k \<and> okv v)"
    using assms by (intro pair_codec.pair_is_codec pair_codec.intro)
  show ?thesis
  proof (unfold_locales, goal_cases)
    case (1 b m)
    then show ?case using codec.counted_put [OF pc, of b m] by (simp add: bb_put_map_def)
  next
    case (2 b m r)
    then have get: "do { (n, b) \<leftarrow> bb_get_u32 b; bb_get_each (bb_get_pair getk getv) (unat n) b } =
        Some (m, bb_skip (length (enc_vec (\<lambda>(k, v). enck k @ encv v) m)) b)"
      using codec.counted_get [OF pc, of b m r] by simp
    moreover have "fold (\<lambda>(k, v). omap_insert k v) m [] = m"
      using 2 fold_omap_insert [of "[]" m] by simp
    ultimately show ?case
      by (auto simp: bb_get_map_def split: bind_splits)
  qed
qed

lemmas vec_of_u32 = u32c.vec_is_codec
lemmas map_str_vec_u32 = map_is_codec [OF strc.codec_axioms vec_of_u32]

section \<open>Packed identifiers\<close>

fun guid_mask :: "nat \<Rightarrow> byte list \<Rightarrow> byte" where
  "guid_mask i [] = 0"
| "guid_mask i (x # xs) = or (if x \<noteq> 0 then push_bit i 1 else 0) (guid_mask (Suc i) xs)"

definition guid_pack :: "uint64 \<Rightarrow> byte list" where
  "guid_pack g = guid_mask 0 (le_enc 8 (unat g)) # filter (\<lambda>x. x \<noteq> 0) (le_enc 8 (unat g))"

text \<open>The reader a client needs: for every set bit of the mask, the next byte.\<close>

fun guid_unpack :: "nat \<Rightarrow> nat \<Rightarrow> byte \<Rightarrow> byte list \<Rightarrow> byte list" where
  "guid_unpack 0 i mk bs = []"
| "guid_unpack (Suc n) i mk bs =
     (if bit mk i then hd bs # guid_unpack n (Suc i) mk (tl bs) else 0 # guid_unpack n (Suc i) mk bs)"

lemma unat_low_byte: "unat (and (g :: uint64) 0xFF) = unat g mod 256"
proof -
  have "and g 0xFF = take_bit 8 g" by (simp add: take_bit_eq_mask mask_eq_exp_minus_1)
  then show ?thesis by (simp add: unat_mod take_bit_eq_mod)
qed

lemma low_byte: "(ucast (and (g :: uint64) 0xFF) :: byte) = of_nat (unat g mod 256)"
  using unat_low_byte [of g] by (metis of_nat_unat)

lemma low_byte_0: "and (g :: uint64) 0xFF = 0 \<longleftrightarrow> (of_nat (unat g mod 256) :: byte) = 0"
proof -
  have "unat (of_nat (unat g mod 256) :: byte) = unat g mod 256" by (simp add: unat_of_nat)
  then show ?thesis using unat_low_byte [of g] by (metis unat_eq_zero)
qed

lemma unat_next_byte: "unat (drop_bit 8 (g :: uint64)) = unat g div 256"
  by (simp add: unat_div drop_bit_eq_div)

lemma bb_extend_patch:
  assumes "bb_wf b"
  shows "(bb_extend (x # xs) b)\<lparr>bb_storage := (bb_storage (bb_extend (x # xs) b))[bb_wpos b := y]\<rparr> =
           bb_extend (y # xs) b"
    and "bb_storage (bb_extend (x # xs) b) ! bb_wpos b = x"
    and "bb_wpos b < length (bb_storage (bb_extend (x # xs) b))"
proof -
  have w: "length (take (bb_wpos b) (bb_storage b)) = bb_wpos b"
    using assms by (simp add: bb_wf_def)
  show "bb_storage (bb_extend (x # xs) b) ! bb_wpos b = x"
    using w by (simp add: bb_storage_extend [OF assms] nth_append)
  show "bb_wpos b < length (bb_storage (bb_extend (x # xs) b))"
    using w by (simp add: bb_storage_extend [OF assms])
  show "(bb_extend (x # xs) b)\<lparr>bb_storage := (bb_storage (bb_extend (x # xs) b))[bb_wpos b := y]\<rparr> =
           bb_extend (y # xs) b"
    using w by (intro byte_buffer.equality) (simp_all add: bb_storage_extend [OF assms] list_update_append)
qed

lemma guid_loop:
  assumes "bb_wf b" "bb_room (Suc (length out + n)) b"
  shows "bb_packguid_loop n i (bb_wpos b) g (bb_extend (mk # out) b) =
    Some (bb_extend (or mk (guid_mask i (le_enc n (unat g))) # out @ filter (\<lambda>x. x \<noteq> 0) (le_enc n (unat g))) b)"
  using assms(2)
proof (induction n arbitrary: i g mk out)
  case (Suc n)
  let ?x = "of_nat (unat g mod 256) :: byte" and ?g = "drop_bit 8 g"
  have bytes: "le_enc (Suc n) (unat g) = ?x # le_enc n (unat ?g)"
    by (simp add: unat_next_byte)
  have room: "bb_room (Suc (length out + n)) b" "bb_room (Suc (length (out @ [?x]) + n)) b"
    using Suc.prems by (simp_all add: bb_room_def)
  show ?case
  proof (cases "?x = 0")
    case True
    then show ?thesis
      using Suc.IH [OF room(1), of "Suc i" ?g mk] by (simp add: low_byte_0 bytes del: le_enc.simps)
  next
    case False
    let ?mk = "or mk (push_bit i 1)"
    have r1: "bb_room (length (?mk # out)) b" and r2: "bb_room (length [?x]) (bb_extend (?mk # out) b)"
      using room by (simp_all add: bb_room_def)
    have "bb_put_u8 ?x (bb_extend (?mk # out) b) = Some (bb_extend [?x] (bb_extend (?mk # out) b))"
      using bb_append_extend [OF bb_extend_wf [OF assms(1) r1] r2] by (simp add: bb_put_u8_def)
    also have "\<dots> = Some (bb_extend (?mk # out @ [?x]) b)"
      using bb_extend_append [OF assms(1) r1] by simp
    finally have put: "bb_put_u8 ?x (bb_extend (?mk # out) b) = Some (bb_extend (?mk # out @ [?x]) b)" .
    show ?thesis
      using False put Suc.IH [OF room(2), of "Suc i" ?g ?mk]
      by (simp add: low_byte_0 low_byte bb_extend_patch [OF assms(1)] bytes or.assoc del: le_enc.simps)
  qed
qed simp

lemma guid_mask_bit: "bit (guid_mask i xs) j \<longleftrightarrow> i \<le> j \<and> j < 8 \<and> j - i < length xs \<and> xs ! (j - i) \<noteq> 0"
proof (induction xs arbitrary: i)
  case (Cons x xs)
  have "bit (push_bit i 1 :: byte) j \<longleftrightarrow> j = i \<and> j < 8"
    by (auto simp: bit_simps)
  then show ?case
    by (auto simp: bit_or_iff Cons.IH nth_Cons' Suc_diff_le)
qed simp

lemma guid_unpack_mask:
  assumes "length pre = i" "i + length xs \<le> 8"
  shows "guid_unpack (length xs) i (guid_mask 0 (pre @ xs)) (filter (\<lambda>x. x \<noteq> 0) xs) = xs"
  using assms
proof (induction xs arbitrary: pre i)
  case (Cons x xs)
  have "bit (guid_mask 0 (pre @ x # xs)) i \<longleftrightarrow> x \<noteq> 0"
    using Cons.prems by (auto simp: guid_mask_bit)
  moreover have "guid_unpack (length xs) (Suc i) (guid_mask 0 ((pre @ [x]) @ xs)) (filter (\<lambda>x. x \<noteq> 0) xs) = xs"
    using Cons.prems by (intro Cons.IH) auto
  ultimately show ?case by auto
qed simp

lemma bb_read_wf:
  assumes "bb_wf b" "n \<le> 8"
  shows "bb_read n b =
    Some (if bb_rpos b + n \<le> bb_wpos b then le_dec (segment (bb_rpos b) n (bb_storage b)) else 0,
          bb_skip n b)"
proof -
  have "szadd (bb_rpos b) n = bb_rpos b + n"
    using assms by (simp add: szadd_def bb_wf_def)
  with assms show ?thesis
    by (auto simp: bb_read_def bb_read_at_def bb_size_def bb_skip_def bb_wf_def)
qed

lemma bb_read_byte:
  assumes "bb_wf b" "bb_unread b = x # xs"
  shows "bb_read 1 b = Some (unat x, bb_skip 1 b)"
  using bb_read_unread [of b "[x]" xs 1] assms by simp

lemma str_loop_wf:
  assumes "bb_wf b" "bb_unread b = us"
  shows "bb_get_str_loop acc b =
    Some (acc @ bytes_str (takeWhile (\<lambda>x. x \<noteq> 0) us),
          bb_skip (min (Suc (length (takeWhile (\<lambda>x. x \<noteq> 0) us))) (length us)) b)"
  using assms
proof (induction us arbitrary: acc b)
  case Nil
  then have "\<not> bb_rpos b < bb_wpos b" using length_bb_unread [OF Nil.prems(1)] by simp
  then show ?case by (subst bb_get_str_loop.simps) (simp add: bb_size_def bytes_str_def)
next
  case (Cons x us)
  then have lt: "bb_rpos b < bb_wpos b" "bb_wpos b < 2 ^ 64"
    using length_bb_unread [OF Cons.prems(1)] by (simp_all add: bb_wf_def)
  have rd: "bb_read 1 b = Some (unat x, bb_skip 1 b)"
    using Cons.prems by (rule bb_read_byte)
  have wf: "bb_wf (bb_skip 1 b)" using Cons.prems by (intro bb_skip_wf) auto
  have un: "bb_unread (bb_skip 1 b) = us" using Cons.prems by (simp add: bb_skip_unread)
  show ?case
  proof (cases "x = 0")
    case True
    with lt rd show ?thesis
      by (subst bb_get_str_loop.simps) (simp add: bb_size_def bytes_str_def)
  next
    case False
    then have "unat x \<noteq> 0" by (simp add: unat_eq_zero)
    with lt rd False Cons.IH [OF wf un, of "acc @ [byte_char x]"] show ?thesis
      by (subst bb_get_str_loop.simps) (simp add: bb_size_def bytes_str_def)
  qed
qed

lemma wp_opc_simps [simp]:
  "bb_wf (wp_opc opc)" "bb_wpos (wp_opc opc) = 0" "bb_rpos (wp_opc opc) = 0" "wp_opcode (wp_opc opc) = opc"
  by (simp_all add: wp_opc_def wp_new_def bb_new_def bb_wf_def byte_buffer.extend_def world_packet.fields_def)

lemma wp_opcode_extend [simp]: "wp_opcode (bb_extend bs p) = wp_opcode p"
  by (simp add: bb_extend_def)

section \<open>Properties\<close>

text \<open>
  C9: a map from strings to integer vectors, written into a fresh packet with the container
  templates' \<^verbatim>\<open><<\<close>, keeps the packet's opcode and is read back unchanged by \<^verbatim>\<open>>>\<close>, which
  consumes exactly what was written. The map is in key order, its keys hold no NUL, it and its vectors
  have fewer than 2^32 entries, and its encoding has at most 10,000,000 bytes.
\<close>

theorem packet_map_round_trip:
  fixes m :: "(string \<times> uint32 list) list"
  assumes "omap_ok m" "length m < 2 ^ 32"
    and "\<forall>(k, v) \<in> set m. CHR 0x00 \<notin> set k \<and> length v < 2 ^ 32"
    and "length (enc_vec (\<lambda>(k, v). (str_bytes k @ [0]) @ enc_vec (\<lambda>w. le_enc 4 (unat w)) v) m) \<le> 10000000"
  shows "\<exists>p p'. bb_put_map bb_put_str (bb_put_vec bb_put_u32) m (wp_opc opc) = Some p \<and> wp_opcode p = opc \<and>
           bb_get_map bb_get_str (bb_get_vec bb_get_u32) p = Some (m, p') \<and> bb_unread p' = []"
proof -
  have ok: "ok_vec (\<lambda>(k, v). CHR 0x00 \<notin> set k \<and> ok_vec (\<lambda>_. True) v) m \<and> omap_ok m"
    using assms by (auto simp: ok_vec_def)
  show ?thesis
    using codec.fresh_round_trip [OF map_str_vec_u32 ok assms(4), of "wp_opc opc"] by auto
qed

theorem packet_map_round_trip_witness:
  "\<exists>p p'. bb_put_map bb_put_str (bb_put_vec bb_put_u32) [(''a'', [7, 8]), (''b'', [])] (wp_opc 5) = Some p \<and>
     wp_opcode p = 5 \<and>
     bb_get_map bb_get_str (bb_get_vec bb_get_u32) p = Some ([(''a'', [7, 8]), (''b'', [])], p') \<and> bb_unread p' = []"
  by (rule packet_map_round_trip) (simp_all add: enc_vec_def)

text \<open>
  \<^verbatim>\<open>operator>>(std::string&)\<close> on a well-formed buffer never reads outside the storage: it
  returns the unread bytes before the first NUL, or all of them when there is none, and stops
  after that NUL or at the end of the buffer.
\<close>

theorem get_str_total:
  assumes "bb_wf b"
  shows "bb_get_str b =
    Some (bytes_str (takeWhile (\<lambda>x. x \<noteq> 0) (bb_unread b)),
          bb_skip (min (Suc (length (takeWhile (\<lambda>x. x \<noteq> 0) (bb_unread b)))) (length (bb_unread b))) b)"
  using str_loop_wf [OF assms refl, of "[]"] by (simp add: bb_get_str_def)

theorem get_str_total_witness:
  "bb_get_str (\<lparr>bb_rpos = 0, bb_wpos = 2, bb_storage = str_bytes ''Hi'' @ [7]\<rparr>) =
     Some (''Hi'', \<lparr>bb_rpos = 2, bb_wpos = 2, bb_storage = str_bytes ''Hi'' @ [7]\<rparr>)"
proof -
  have "bb_wf (\<lparr>bb_rpos = 0, bb_wpos = 2, bb_storage = str_bytes ''Hi'' @ [7]\<rparr>)"
    by (simp add: bb_wf_def)
  from get_str_total [OF this] show ?thesis
    by (simp add: bb_unread_def bb_data_def bb_skip_def str_bytes_def bytes_str_def)
qed

text \<open>
  Every fixed-width read of a well-formed buffer returns the little-endian value of the bytes
  at the read position when they all lie in the written part and zero otherwise, and advances the
  position in both cases.
\<close>

theorem read_bounds:
  assumes "bb_wf b" "n \<le> 8"
  shows "bb_read n b =
      Some (if bb_rpos b + n \<le> bb_wpos b then le_dec (segment (bb_rpos b) n (bb_storage b)) else 0,
            b\<lparr>bb_rpos := bb_rpos b + n\<rparr>)"
  using bb_read_wf [OF assms] by (simp add: bb_skip_def)

theorem read_bounds_witness:
  "bb_read 4 (\<lparr>bb_rpos = 1, bb_wpos = 3, bb_storage = [1, 2, 3]\<rparr>) =
     Some (0, \<lparr>bb_rpos = 5, bb_wpos = 3, bb_storage = [1, 2, 3]\<rparr>)"
  using read_bounds [of "\<lparr>bb_rpos = 1, bb_wpos = 3, bb_storage = [1, 2, 3]\<rparr>" 4]
  by (simp add: bb_wf_def)

text \<open>
  The position is not checked when it is set: from the top of \<^verbatim>\<open>size_t\<close> the bounds check of a
  read wraps around and the read leaves the storage.
\<close>

lemma setrpos_read_wraps:
  assumes "bb_wf b" "3 \<le> bb_wpos b"
  shows "bb_get_u32 (snd (bb_set_rpos (2 ^ 64 - 1) b)) = None"
  using assms
  by (simp add: bb_get_u32_def bb_read_def bb_read_at_def bb_set_rpos_def bb_size_def szadd_def bb_wf_def)

text \<open>The dump pads one digit too few: \<^verbatim>\<open>0x0F\<close> is printed without its zero.\<close>

lemma hexlike_pads_below_15: "hex_pad 0x0E = ''0E ''" "hex_pad 0x0F = ''F ''"
  by code_simp+

text \<open>
  \<^verbatim>\<open>appendPackGUID\<close> appends a mask byte and the non-zero bytes of the identifier, and a
  reader that follows the mask recovers the identifier.
\<close>

theorem pack_guid_round_trip:
  assumes "bb_wf b" "bb_room 9 b"
  shows "\<exists>b' mk out. bb_appendPackGUID g b = Some b' \<and> bb_wf b' \<and> bb_data b' = bb_data b @ mk # out \<and>
           out = filter (\<lambda>x. x \<noteq> 0) (le_enc 8 (unat g)) \<and> le_dec (guid_unpack 8 0 mk out) = unat g"
proof -
  let ?bs = "le_enc 8 (unat g)"
  let ?b = "bb_extend (guid_mask 0 ?bs # filter (\<lambda>x. x \<noteq> 0) ?bs) b"
  have room: "bb_room (length [0 :: byte]) b" "bb_room (Suc (length [] + 8)) b"
    using assms(2) by (simp_all add: bb_room_def)
  have put: "bb_put_u8 0 b = Some (bb_extend [0] b)"
    using bb_append_extend [OF assms(1) room(1)] by (simp add: bb_put_u8_def)
  have len: "length (filter (\<lambda>x. x \<noteq> 0) ?bs) \<le> 8"
    using length_filter_le [of _ ?bs] by (simp del: length_filter_le)
  have app: "bb_appendPackGUID g b = Some ?b"
    using put guid_loop [OF assms(1) room(2), of 0 g 0] by (simp add: bb_appendPackGUID_def)
  have wf: "bb_wf ?b"
    using assms len by (intro bb_extend_wf) (simp_all add: bb_room_def)
  have "guid_unpack 8 0 (guid_mask 0 ?bs) (filter (\<lambda>x. x \<noteq> 0) ?bs) = ?bs"
    using guid_unpack_mask [of "[]" 0 ?bs] by simp
  then have "le_dec (guid_unpack 8 0 (guid_mask 0 ?bs) (filter (\<lambda>x. x \<noteq> 0) ?bs)) = unat g"
    using unsigned_less [of g, where ?'a = nat] by (simp add: le_dec_enc)
  with app wf bb_extend_data [OF assms(1)] show ?thesis by blast
qed

theorem pack_guid_round_trip_witness:
  "\<exists>b' mk out. bb_appendPackGUID 0x0102 (bb_new 16) = Some b' \<and> bb_wf b' \<and>
     bb_data b' = mk # out \<and> out = [2, 1] \<and> le_dec (guid_unpack 8 0 mk out) = 0x0102"
proof -
  have "bb_wf (bb_new 16)" "bb_room 9 (bb_new 16)"
    by (simp add: bb_wf_new) (simp add: bb_room_def bb_new_def)
  from pack_guid_round_trip [OF this, of "0x0102"]
  have "\<exists>b' mk out. bb_appendPackGUID 0x0102 (bb_new 16) = Some b' \<and> bb_wf b' \<and>
     bb_data b' = mk # out \<and> out = filter (\<lambda>x. x \<noteq> 0) (le_enc 8 258) \<and> le_dec (guid_unpack 8 0 mk out) = 0x0102"
    by (simp only: bb_data_new append_Nil) simp
  moreover have "filter (\<lambda>x. x \<noteq> 0) (le_enc 8 258) = [2, 1]"
    by code_simp
  ultimately show ?thesis by simp
qed

end
