(* ===== verification/Socket_Buffer.thy ===== *)
theory Socket_Buffer
  imports Prelude
begin

text \<open>
  \<^verbatim>\<open>CSocketBuffer\<close> (pitayaserver/framework/SocketBuffer.h and SocketBuffer.cpp): the byte queue
  between a socket and the framing code. One heap block holds a gap of \<^verbatim>\<open>misalign\<close> consumed bytes,
  then \<^verbatim>\<open>off\<close> live bytes; appending closes the gap or doubles the block. The pointer
  \<^verbatim>\<open>buffer\<close> is its distance from \<^verbatim>\<open>orig_buffer\<close>.

  The heap is a parameter: \<open>alloc n\<close> is the block of \<open>n\<close> bytes \<^verbatim>\<open>malloc\<close>/\<^verbatim>\<open>realloc\<close> return, with
  whatever it contains, or \<^const>\<open>None\<close> when they fail. Sums of lengths stay in \<^typ>\<open>nat\<close>: the
  operands are lengths of objects in memory, below \<open>2 ^ 63\<close>; only the doubling loop can wrap.
  The locale \<open>byte_fifo\<close> states what the framing code relies on.
\<close>

section \<open>State\<close>

record sock_buffer =
  sb_mem :: "byte list option"
  sb_buf :: nat
  sb_misalign :: nat
  sb_totallen :: nat
  sb_off :: nat
  sb_initlen :: nat

type_synonym allocator = "nat \<Rightarrow> byte list option"

definition sb_BUFFER_MAX_READ :: nat where
  "sb_BUFFER_MAX_READ = 4096"

definition sb_BUFFER_INIT_LEN :: nat where
  "sb_BUFFER_INIT_LEN = 4096 * 2"

definition sb_construct :: sock_buffer where
  "sb_construct = \<lparr>sb_mem = None, sb_buf = 0, sb_misalign = 0, sb_totallen = 0, sb_off = 0,
     sb_initlen = sb_BUFFER_INIT_LEN\<rparr>"

definition sb_Clear :: "sock_buffer \<Rightarrow> sock_buffer" where
  "sb_Clear b = b\<lparr>sb_misalign := 0, sb_off := 0, sb_buf := 0\<rparr>"

definition sb_Init_buf :: "byte list option \<Rightarrow> nat \<Rightarrow> sock_buffer \<Rightarrow> sock_buffer" where
  "sb_Init_buf szBuf uLen b = b\<lparr>sb_mem := szBuf, sb_buf := 0, sb_totallen := uLen\<rparr>"

definition sb_Init :: "allocator \<Rightarrow> sock_buffer \<Rightarrow> sock_buffer" where
  "sb_Init alloc b =
     (let b = b\<lparr>sb_initlen := sb_BUFFER_INIT_LEN\<rparr>
      in sb_Init_buf (alloc (sb_initlen b)) (sb_initlen b) b)"

section \<open>Access through the pointer\<close>

text \<open>Reading or writing \<open>n\<close> bytes from \<^verbatim>\<open>buffer + pos\<close>: \<^const>\<open>None\<close> outside the block.\<close>

definition sb_load :: "nat \<Rightarrow> nat \<Rightarrow> sock_buffer \<Rightarrow> byte list option" where
  "sb_load pos n b =
     (case sb_mem b of
        None \<Rightarrow> if n = 0 then Some [] else None
      | Some m \<Rightarrow> if sb_buf b + pos + n \<le> length m then Some (segment (sb_buf b + pos) n m) else None)"

definition sb_store :: "nat \<Rightarrow> byte list \<Rightarrow> sock_buffer \<Rightarrow> sock_buffer option" where
  "sb_store pos bs b =
     (case sb_mem b of
        None \<Rightarrow> if bs = [] then Some b else None
      | Some m \<Rightarrow> if sb_buf b + pos + length bs \<le> length m
          then Some (b\<lparr>sb_mem := Some (overwrite (sb_buf b + pos) bs m)\<rparr>) else None)"

definition sb_GetSize :: "sock_buffer \<Rightarrow> nat" where
  "sb_GetSize b = sb_off b"

text \<open>\<^verbatim>\<open>GetBuffer(size)\<close>, as the bytes its callers may read through the pointer it returns.\<close>

definition sb_GetBuffer :: "sock_buffer \<Rightarrow> byte list option" where
  "sb_GetBuffer b = sb_load 0 (sb_off b) b"

section \<open>Operations\<close>

definition sb_Align :: "sock_buffer \<Rightarrow> sock_buffer option" where
  "sb_Align b =
     do { live \<leftarrow> sb_load 0 (sb_off b) b;
          b \<leftarrow> sb_store 0 live (b\<lparr>sb_buf := 0\<rparr>);
          Some (b\<lparr>sb_misalign := 0\<rparr>) }"

text \<open>
  \<^verbatim>\<open>while (length < need) length <<= 1\<close> on a \<^verbatim>\<open>size_t\<close>: past \<open>2 ^ 63\<close> the shift drops bits and the
  loop may never end.
\<close>

partial_function (option) sb_double :: "nat \<Rightarrow> nat \<Rightarrow> nat option" where
  "sb_double len need = (if len < need then sb_double ((2 * len) mod 2 ^ 64) need else Some len)"

definition sb_realloc :: "allocator \<Rightarrow> nat \<Rightarrow> sock_buffer \<Rightarrow> byte list option" where
  "sb_realloc alloc len b =
     (let old = (case sb_mem b of None \<Rightarrow> [] | Some m \<Rightarrow> m)
      in case alloc len of None \<Rightarrow> None | Some fresh \<Rightarrow> Some (take len old @ drop (length old) fresh))"

definition sb_Expand :: "allocator \<Rightarrow> nat \<Rightarrow> sock_buffer \<Rightarrow> (int \<times> sock_buffer) option" where
  "sb_Expand alloc uLen b =
     (let need = sb_misalign b + sb_off b + uLen in
      if sb_totallen b \<ge> need then Some (0, b)
      else if sb_misalign b \<ge> uLen then do { b \<leftarrow> sb_Align b; Some (0, b) }
      else do {
        len \<leftarrow> sb_double (if sb_totallen b < 256 then 256 else sb_totallen b) need;
        b \<leftarrow> (if sb_buf b \<noteq> 0 then sb_Align b else Some b);
        (case sb_realloc alloc len b of
           None \<Rightarrow> Some (-1, b)
         | Some m \<Rightarrow> Some (0, b\<lparr>sb_mem := Some m, sb_buf := 0, sb_totallen := len\<rparr>)) })"

text \<open>The guard \<^verbatim>\<open>Append\<close> and \<^verbatim>\<open>SockRead\<close> run before they write \<open>uLen\<close> bytes.\<close>

definition sb_reserve :: "allocator \<Rightarrow> nat \<Rightarrow> sock_buffer \<Rightarrow> (int \<times> sock_buffer) option" where
  "sb_reserve alloc uLen b =
     (let need = sb_misalign b + sb_off b + uLen in
      if sb_totallen b < need
      then (if sb_misalign b \<ge> uLen then do { b \<leftarrow> sb_Align b; Some (0, b) }
            else sb_Expand alloc uLen b)
      else Some (0, b))"

definition sb_Append :: "allocator \<Rightarrow> byte list \<Rightarrow> sock_buffer \<Rightarrow> (int \<times> sock_buffer) option" where
  "sb_Append alloc src b =
     (if src = [] then Some (0, b)
      else do {
        (r, b) \<leftarrow> sb_reserve alloc (length src) b;
        if r = -1 then Some (-1, b)
        else do {
          b \<leftarrow> sb_store (sb_off b) src b;
          Some (0, b\<lparr>sb_off := sb_off b + length src\<rparr>) } })"

definition sb_Appends :: "allocator \<Rightarrow> sock_buffer \<Rightarrow> sock_buffer \<Rightarrow> (int \<times> sock_buffer) option" where
  "sb_Appends alloc other b =
     (if sb_GetSize other > 0 then do { src \<leftarrow> sb_GetBuffer other; sb_Append alloc src b } else Some (0, b))"

definition sb_Erase :: "nat \<Rightarrow> sock_buffer \<Rightarrow> sock_buffer" where
  "sb_Erase uLen b =
     (if uLen \<ge> sb_off b then b\<lparr>sb_off := 0, sb_buf := 0, sb_misalign := 0\<rparr>
      else b\<lparr>sb_buf := sb_buf b + uLen, sb_misalign := sb_misalign b + uLen, sb_off := sb_off b - uLen\<rparr>)"

definition sb_Reset :: "sock_buffer \<Rightarrow> sock_buffer" where
  "sb_Reset b = sb_Erase (sb_GetSize b) b"

definition sb_BufferRead :: "nat \<Rightarrow> sock_buffer \<Rightarrow> (byte list \<times> sock_buffer) option" where
  "sb_BufferRead uLen b =
     (let nread = (if uLen \<ge> sb_off b then sb_off b else uLen)
      in do { bs \<leftarrow> sb_load 0 nread b; Some (bs, sb_Erase nread b) })"

text \<open>
  \<^verbatim>\<open>SockRead\<close>: \<open>recv n\<close> is what the system call delivers for a buffer of \<open>n\<close> bytes, \<^const>\<open>None\<close> on
  error. \<^verbatim>\<open>FIONREAD\<close> is not defined by the headers the file includes, so that branch is not compiled.
\<close>

definition sb_SockRead ::
  "allocator \<Rightarrow> (nat \<Rightarrow> byte list option) \<Rightarrow> int \<Rightarrow> sock_buffer \<Rightarrow> (int \<times> sock_buffer) option" where
  "sb_SockRead alloc recv nHowmuch b =
     (let n = int sb_BUFFER_MAX_READ;
          how = nat (if nHowmuch < 0 \<or> nHowmuch > n then n else nHowmuch)
      in do {
        (r, b) \<leftarrow> sb_reserve alloc how b;
        if r = -1 then Some (-1, sb_Reset b)
        else (case recv how of
                None \<Rightarrow> Some (-1, b)
              | Some [] \<Rightarrow> Some (0, b)
              | Some bs \<Rightarrow> do { b \<leftarrow> sb_store (sb_off b) bs b;
                              Some (int (length bs), b\<lparr>sb_off := sb_off b + length bs\<rparr>) }) })"

definition sb_Sends :: "(byte list \<Rightarrow> int) \<Rightarrow> sock_buffer \<Rightarrow> (int \<times> sock_buffer) option" where
  "sb_Sends send b =
     do { bs \<leftarrow> sb_load 0 (sb_off b) b;
          let n = send bs;
          if n < 0 then Some (-1, b) else if n = 0 then Some (0, b) else Some (n, sb_Erase (nat n) b) }"

section \<open>Invariant\<close>

definition sb_ok :: "sock_buffer \<Rightarrow> bool" where
  "sb_ok b \<longleftrightarrow> sb_buf b = sb_misalign b \<and> sb_misalign b + sb_off b \<le> sb_totallen b \<and>
     (case sb_mem b of None \<Rightarrow> sb_totallen b = 0 | Some m \<Rightarrow> length m = sb_totallen b)"

definition sb_bytes :: "sock_buffer \<Rightarrow> byte list" where
  "sb_bytes b = (case sb_mem b of None \<Rightarrow> [] | Some m \<Rightarrow> segment (sb_buf b) (sb_off b) m)"

definition alloc_ok :: "allocator \<Rightarrow> bool" where
  "alloc_ok alloc \<longleftrightarrow> (\<forall>n bs. alloc n = Some bs \<longrightarrow> length bs = n)"

named_theorems sb_simps \<open>effect of the socket buffer's operations on its bytes\<close>

lemma sb_construct_ok [sb_simps]: "sb_ok sb_construct" "sb_bytes sb_construct = []"
  by (simp_all add: sb_ok_def sb_bytes_def sb_construct_def)

lemma sb_Init_ok:
  "alloc_ok alloc \<Longrightarrow> alloc sb_BUFFER_INIT_LEN = Some m \<Longrightarrow>
   sb_ok (sb_Init alloc sb_construct) \<and> sb_bytes (sb_Init alloc sb_construct) = []"
  by (auto simp: sb_ok_def sb_bytes_def sb_construct_def sb_Init_def sb_Init_buf_def Let_def alloc_ok_def segment_def)

lemma length_sb_bytes [sb_simps]: "sb_ok b \<Longrightarrow> length (sb_bytes b) = sb_off b"
  by (auto simp: sb_ok_def sb_bytes_def split: option.splits)

lemma sb_Clear_ok [sb_simps]: "sb_ok b \<Longrightarrow> sb_ok (sb_Clear b)" "sb_bytes (sb_Clear b) = []"
  by (auto simp: sb_ok_def sb_Clear_def sb_bytes_def segment_def split: option.splits)

lemma sb_load_bytes: "sb_ok b \<Longrightarrow> n \<le> sb_off b \<Longrightarrow> sb_load 0 n b = Some (take n (sb_bytes b))"
  by (auto simp: sb_ok_def sb_load_def sb_bytes_def segment_def min_def split: option.splits)

lemma sb_GetBuffer_bytes [sb_simps]: "sb_ok b \<Longrightarrow> sb_GetBuffer b = Some (sb_bytes b)"
  by (simp add: sb_GetBuffer_def sb_load_bytes length_sb_bytes)

lemma sb_Erase_ok [sb_simps]:
  "sb_ok b \<Longrightarrow> sb_ok (sb_Erase n b)" "sb_ok b \<Longrightarrow> sb_bytes (sb_Erase n b) = drop n (sb_bytes b)"
  by (auto simp: sb_ok_def sb_Erase_def sb_bytes_def segment_def drop_take add.commute split: option.splits)

lemma sb_Reset_ok [sb_simps]: "sb_ok b \<Longrightarrow> sb_ok (sb_Reset b)" "sb_ok b \<Longrightarrow> sb_bytes (sb_Reset b) = []"
  by (simp_all add: sb_Reset_def sb_Erase_ok sb_GetSize_def length_sb_bytes)

lemma sb_Align_ok:
  assumes "sb_ok b"
  shows "\<exists>b'. sb_Align b = Some b' \<and> sb_ok b' \<and> sb_bytes b' = sb_bytes b \<and> sb_misalign b' = 0 \<and>
           sb_off b' = sb_off b \<and> sb_totallen b' = sb_totallen b"
proof (cases "sb_mem b")
  case None
  with assms show ?thesis
    by (auto simp: sb_Align_def sb_load_def sb_store_def sb_ok_def sb_bytes_def)
next
  case (Some m)
  with assms show ?thesis
    by (auto simp: sb_Align_def sb_load_def sb_store_def sb_ok_def sb_bytes_def segment_def overwrite_def)
qed

lemma sb_double_ge:
  assumes "sb_double len need = Some r"
  shows "need \<le> r \<and> (len = r \<or> len < need)"
proof (rule sb_double.raw_induct [OF _ assms])
  fix f :: "nat \<Rightarrow> nat \<Rightarrow> nat option" and len need r
  assume "\<And>len need r. f len need = Some r \<Longrightarrow> need \<le> r \<and> (len = r \<or> len < need)"
    and "(if len < need then f ((2 * len) mod 2 ^ 64) need else Some len) = Some r"
  then show "need \<le> r \<and> (len = r \<or> len < need)" by (fastforce split: if_splits)
qed

lemma sb_double_total:
  assumes "0 < len" "need \<le> 2 ^ 63"
  shows "\<exists>r. sb_double len need = Some r \<and> (r = len \<or> r < 2 * need)"
  using assms(1)
proof (induction "need - len" arbitrary: len rule: less_induct)
  case less
  show ?case
  proof (cases "len < need")
    case True
    then have m: "(2 * len) mod 2 ^ 64 = 2 * len" using assms(2) by simp
    have "need - 2 * len < need - len" using True less.prems by linarith
    then obtain r where "sb_double (2 * len) need = Some r" "r = 2 * len \<or> r < 2 * need"
      using less.hyps [of "2 * len"] less.prems by auto
    then show ?thesis using True m by (subst sb_double.simps) auto
  next
    case False
    with less.prems show ?thesis by (subst sb_double.simps) simp
  qed
qed

text \<open>After a successful \<open>sb_reserve\<close> the live bytes are unchanged and \<open>n\<close> more fit behind them.\<close>

definition sb_fits :: "nat \<Rightarrow> sock_buffer \<Rightarrow> bool" where
  "sb_fits n b \<longleftrightarrow> sb_misalign b + sb_off b + n \<le> sb_totallen b"

lemma sb_grown_ok:
  assumes "sb_ok b" "sb_buf b = 0" "length m = len" "sb_totallen b \<le> len"
    and "take (sb_totallen b) m = (case sb_mem b of None \<Rightarrow> [] | Some m \<Rightarrow> m)"
  shows "sb_ok (b\<lparr>sb_mem := Some m, sb_buf := 0, sb_totallen := len\<rparr>)"
    and "sb_bytes (b\<lparr>sb_mem := Some m, sb_buf := 0, sb_totallen := len\<rparr>) = sb_bytes b"
proof -
  show "sb_ok (b\<lparr>sb_mem := Some m, sb_buf := 0, sb_totallen := len\<rparr>)"
    using assms by (auto simp: sb_ok_def)
  have "take (sb_off b) m = take (sb_off b) (take (sb_totallen b) m)"
    using assms(1) by (simp add: sb_ok_def min_def)
  then show "sb_bytes (b\<lparr>sb_mem := Some m, sb_buf := 0, sb_totallen := len\<rparr>) = sb_bytes b"
    using assms by (auto simp: sb_bytes_def sb_ok_def split: option.splits)
qed

lemma sb_realloc_ok:
  assumes "sb_ok b" "alloc_ok alloc" "sb_realloc alloc len b = Some m" "sb_totallen b \<le> len"
  shows "length m = len" "take (sb_totallen b) m = (case sb_mem b of None \<Rightarrow> [] | Some m \<Rightarrow> m)"
  using assms by (auto simp: sb_realloc_def alloc_ok_def sb_ok_def split: option.splits)

lemma sb_Expand_ok:
  assumes ok: "sb_ok b" "alloc_ok alloc" and ex: "sb_Expand alloc n b = Some (r, b')"
  shows "sb_ok b' \<and> sb_bytes b' = sb_bytes b \<and> sb_off b' = sb_off b \<and> (r = -1 \<or> r = 0 \<and> sb_fits n b')"
proof -
  let ?need = "sb_misalign b + sb_off b + n"
  consider (fit) "?need \<le> sb_totallen b" | (gap) "sb_totallen b < ?need" "n \<le> sb_misalign b"
    | (grow) "sb_totallen b < ?need" "sb_misalign b < n" by linarith
  then show ?thesis
  proof cases
    case fit
    then show ?thesis using assms by (simp add: sb_Expand_def sb_fits_def)
  next
    case gap
    obtain b1 where "sb_Align b = Some b1" "sb_ok b1" "sb_bytes b1 = sb_bytes b" "sb_misalign b1 = 0"
        "sb_off b1 = sb_off b" "sb_totallen b1 = sb_totallen b"
      using sb_Align_ok [OF ok(1)] by auto
    with gap ex ok(1) show ?thesis by (auto simp: sb_Expand_def sb_fits_def sb_ok_def)
  next
    case grow
    let ?from = "if sb_totallen b < 256 then 256 else sb_totallen b"
    from grow ex obtain len b1 where len: "sb_double ?from ?need = Some len"
      and b1: "(if sb_buf b \<noteq> 0 then sb_Align b else Some b) = Some b1"
      and rest: "(case sb_realloc alloc len b1 of None \<Rightarrow> Some (-1, b1)
         | Some m \<Rightarrow> Some (0, b1\<lparr>sb_mem := Some m, sb_buf := 0, sb_totallen := len\<rparr>)) = Some (r, b')"
      by (auto simp: sb_Expand_def split: bind_splits)
    have ok1: "sb_ok b1" "sb_bytes b1 = sb_bytes b" "sb_misalign b1 = 0"
        "sb_off b1 = sb_off b" "sb_totallen b1 = sb_totallen b"
      using b1 sb_Align_ok [OF ok(1)] ok(1) by (auto simp: sb_ok_def split: if_splits)
    then have buf: "sb_buf b1 = 0" by (simp add: sb_ok_def)
    have le: "?need \<le> len" "sb_totallen b1 \<le> len"
      using sb_double_ge [OF len] grow ok1 by (auto split: if_splits)
    show ?thesis
    proof (cases "sb_realloc alloc len b1")
      case None
      with rest ok1 show ?thesis by simp
    next
      case (Some m)
      note re = sb_realloc_ok [OF ok1(1) ok(2) Some le(2)]
      from Some rest have "r = 0" "b' = b1\<lparr>sb_mem := Some m, sb_buf := 0, sb_totallen := len\<rparr>" by simp_all
      with sb_grown_ok [OF ok1(1) buf re(1) le(2) re(2)] ok1 le show ?thesis
        by (simp add: sb_fits_def)
    qed
  qed
qed

lemma sb_Expand_total:
  assumes "sb_ok b" "sb_misalign b + sb_off b + n \<le> 2 ^ 63"
  shows "\<exists>r b'. sb_Expand alloc n b = Some (r, b') \<and> r \<in> {0, -1} \<and> (r = -1 \<longrightarrow> (\<exists>len. alloc len = None))"
proof -
  obtain b1 where b1: "sb_Align b = Some b1"
    using sb_Align_ok [OF assms(1)] by auto
  have pos: "0 < (if sb_totallen b < 256 then 256 else sb_totallen b)" by simp
  obtain len where len: "sb_double (if sb_totallen b < 256 then 256 else sb_totallen b)
      (sb_misalign b + sb_off b + n) = Some len"
    using sb_double_total [OF pos assms(2)] by blast
  show ?thesis
  proof (cases "alloc len")
    case None
    with b1 len show ?thesis by (auto simp: sb_Expand_def sb_realloc_def Let_def)
  next
    case (Some m)
    with b1 len show ?thesis by (auto simp: sb_Expand_def sb_realloc_def Let_def)
  qed
qed

lemma sb_reserve_ok:
  assumes "sb_ok b" "alloc_ok alloc" "sb_reserve alloc n b = Some (r, b')"
  shows "sb_ok b' \<and> sb_bytes b' = sb_bytes b \<and> sb_off b' = sb_off b \<and> (r = -1 \<or> r = 0 \<and> sb_fits n b')"
proof (cases "sb_totallen b < sb_misalign b + sb_off b + n \<and> n \<le> sb_misalign b")
  case True
  obtain b1 where "sb_Align b = Some b1" "sb_ok b1" "sb_bytes b1 = sb_bytes b" "sb_misalign b1 = 0"
      "sb_off b1 = sb_off b" "sb_totallen b1 = sb_totallen b"
    using sb_Align_ok [OF assms(1)] by auto
  with True assms(1,3) show ?thesis by (auto simp: sb_reserve_def sb_fits_def sb_ok_def)
next
  case False
  then show ?thesis
    using assms sb_Expand_ok [OF assms(1,2), of n r b'] by (auto simp: sb_reserve_def Let_def sb_fits_def split: if_splits)
qed

lemma sb_reserve_total:
  assumes "sb_ok b" "sb_misalign b + sb_off b + n \<le> 2 ^ 63"
  shows "\<exists>r b'. sb_reserve alloc n b = Some (r, b') \<and> r \<in> {0, -1} \<and> (r = -1 \<longrightarrow> (\<exists>len. alloc len = None))"
proof -
  obtain b1 where "sb_Align b = Some b1" using sb_Align_ok [OF assms(1)] by auto
  with sb_Expand_total [OF assms, of alloc] show ?thesis by (auto simp: sb_reserve_def Let_def)
qed

lemma sb_store_ok:
  assumes "sb_ok b" "sb_fits (length bs) b" "bs \<noteq> []"
  shows "\<exists>b'. sb_store (sb_off b) bs b = Some b' \<and> sb_ok (b'\<lparr>sb_off := sb_off b' + length bs\<rparr>) \<and>
           sb_bytes (b'\<lparr>sb_off := sb_off b' + length bs\<rparr>) = sb_bytes b @ bs"
proof (cases "sb_mem b")
  case None
  with assms show ?thesis by (simp add: sb_ok_def sb_fits_def)
next
  case (Some m)
  then have len: "length m = sb_totallen b" "sb_buf b = sb_misalign b" "sb_buf b + sb_off b + length bs \<le> length m"
    using assms by (auto simp: sb_ok_def sb_fits_def)
  have "take (sb_off b + length bs) (drop (sb_buf b) (overwrite (sb_buf b + sb_off b) bs m)) =
      take (sb_off b) (drop (sb_buf b) m) @ bs"
    using len by (simp add: overwrite_def drop_take)
  with len Some show ?thesis
    by (auto simp: sb_store_def sb_ok_def sb_bytes_def segment_def)
qed

lemma sb_Append_ok:
  assumes "sb_ok b" "alloc_ok alloc" "sb_Append alloc bs b = Some (r, b')"
  shows "sb_ok b' \<and> (r = 0 \<and> sb_bytes b' = sb_bytes b @ bs \<or> r = -1 \<and> sb_bytes b' = sb_bytes b)"
proof (cases "bs = []")
  case False
  with assms(3) obtain r1 b1 where res: "sb_reserve alloc (length bs) b = Some (r1, b1)"
    and rest: "(if r1 = -1 then Some (-1, b1) else do { b \<leftarrow> sb_store (sb_off b1) bs b1;
        Some (0, b\<lparr>sb_off := sb_off b + length bs\<rparr>) }) = Some (r, b')"
    by (auto simp: sb_Append_def split: bind_splits)
  note ok1 = sb_reserve_ok [OF assms(1,2) res]
  show ?thesis
  proof (cases "r1 = -1")
    case True
    with rest ok1 show ?thesis by auto
  next
    case neq: False
    with ok1 have "sb_ok b1" "sb_fits (length bs) b1" by auto
    from sb_store_ok [OF this False] neq rest ok1 show ?thesis by auto
  qed
qed (use assms in \<open>simp add: sb_Append_def\<close>)

lemma sb_Append_total:
  assumes "sb_ok b" "alloc_ok alloc" "sb_misalign b + sb_off b + length bs \<le> 2 ^ 63"
  shows "\<exists>r b'. sb_Append alloc bs b = Some (r, b') \<and> (r = -1 \<longrightarrow> (\<exists>len. alloc len = None))"
proof (cases "bs = []")
  case False
  obtain r1 b1 where res: "sb_reserve alloc (length bs) b = Some (r1, b1)" "r1 = -1 \<longrightarrow> (\<exists>len. alloc len = None)"
    using sb_reserve_total [OF assms(1,3)] by blast
  have "r1 \<noteq> -1 \<Longrightarrow> \<exists>b2. sb_store (sb_off b1) bs b1 = Some b2"
    using sb_reserve_ok [OF assms(1,2) res(1)] sb_store_ok [of b1 bs] False by auto
  with res False show ?thesis by (cases "r1 = -1") (auto simp: sb_Append_def)
qed (simp add: sb_Append_def)

lemma sb_BufferRead_bytes:
  "sb_ok b \<Longrightarrow> sb_BufferRead n b = Some (take n (sb_bytes b), sb_Erase (min n (sb_off b)) b)"
  by (auto simp: sb_BufferRead_def Let_def sb_load_bytes min_def length_sb_bytes)

definition recv_ok :: "(nat \<Rightarrow> byte list option) \<Rightarrow> bool" where
  "recv_ok recv \<longleftrightarrow> (\<forall>n bs. recv n = Some bs \<longrightarrow> length bs \<le> n)"

lemma sb_SockRead_ok:
  assumes "sb_ok b" "alloc_ok alloc" "recv_ok recv" "sb_SockRead alloc recv k b = Some (r, b')"
  shows "sb_ok b' \<and> (\<exists>bs. sb_bytes b' = sb_bytes b @ bs \<and> (r = int (length bs) \<or> r = -1 \<and> bs = []) \<or>
            r = -1 \<and> sb_bytes b' = [])"
proof -
  let ?how = "nat (if k < 0 \<or> k > int sb_BUFFER_MAX_READ then int sb_BUFFER_MAX_READ else k)"
  from assms(4) obtain r1 b1 where res: "sb_reserve alloc ?how b = Some (r1, b1)"
    and rest: "(if r1 = -1 then Some (-1, sb_Reset b1) else
        (case recv ?how of None \<Rightarrow> Some (-1, b1) | Some [] \<Rightarrow> Some (0, b1)
          | Some bs \<Rightarrow> do { b \<leftarrow> sb_store (sb_off b1) bs b1;
              Some (int (length bs), b\<lparr>sb_off := sb_off b + length bs\<rparr>) })) = Some (r, b')"
    by (auto simp: sb_SockRead_def Let_def split: bind_splits)
  note ok1 = sb_reserve_ok [OF assms(1,2) res]
  consider (fail) "r1 = -1" | (none) "r1 \<noteq> -1" "recv ?how = None" | (eof) "r1 \<noteq> -1" "recv ?how = Some []"
    | (data) x xs where "r1 \<noteq> -1" "recv ?how = Some (x # xs)"
    by (metis list.exhaust option.exhaust)
  then show ?thesis
  proof cases
    case data
    then have "length (x # xs) \<le> ?how" using assms(3) by (metis recv_ok_def)
    then have "sb_fits (length (x # xs)) b1" using ok1 data by (auto simp: sb_fits_def)
    from sb_store_ok [OF _ this] ok1 data rest show ?thesis by fastforce
  qed (use ok1 rest in \<open>auto simp: sb_Reset_ok\<close>)
qed

lemma sb_Sends_bytes:
  assumes "sb_ok b"
  shows "sb_Sends send b = (let n = send (sb_bytes b) in
           Some (if n < 0 then (-1, b) else if n = 0 then (0, b) else (n, sb_Erase (nat n) b)))"
  using sb_load_bytes [OF assms order_refl] assms by (simp add: sb_Sends_def Let_def length_sb_bytes)

text \<open>How far the gap and the block can grow.\<close>

lemma sb_Align_fields: "sb_Align b = Some b' \<Longrightarrow> sb_misalign b' = 0 \<and> sb_off b' = sb_off b \<and> sb_totallen b' = sb_totallen b"
  by (auto simp: sb_Align_def sb_store_def split: bind_splits option.splits if_splits)

lemma sb_reserve_bound:
  assumes res: "sb_reserve alloc n b = Some (r, b')" and small: "sb_misalign b + sb_off b + n \<le> 2 ^ 63"
  shows "sb_misalign b' \<le> sb_misalign b \<and>
    sb_totallen b' \<le> max (max 256 (sb_totallen b)) (2 * (sb_off b + 2 * n))"
proof -
  let ?need = "sb_misalign b + sb_off b + n"
  let ?from = "if sb_totallen b < 256 then 256 else sb_totallen b"
  consider (fit) "?need \<le> sb_totallen b" | (gap) "sb_totallen b < ?need" "n \<le> sb_misalign b"
    | (grow) "sb_totallen b < ?need" "sb_misalign b < n" by linarith
  then show ?thesis
  proof cases
    case fit
    then show ?thesis using res by (auto simp: sb_reserve_def)
  next
    case gap
    then show ?thesis using res by (auto simp: sb_reserve_def dest: sb_Align_fields split: bind_splits)
  next
    case grow
    from grow res obtain len b1 where len: "sb_double ?from ?need = Some len"
      and b1: "(if sb_buf b \<noteq> 0 then sb_Align b else Some b) = Some b1"
      and rest: "(case sb_realloc alloc len b1 of None \<Rightarrow> Some (-1, b1)
         | Some m \<Rightarrow> Some (0, b1\<lparr>sb_mem := Some m, sb_buf := 0, sb_totallen := len\<rparr>)) = Some (r, b')"
      by (auto simp: sb_reserve_def sb_Expand_def split: bind_splits)
    have "0 < ?from" by simp
    from sb_double_total [OF this small] len have "len = ?from \<or> len < 2 * ?need" by auto
    moreover have "2 * ?need \<le> 2 * (sb_off b + 2 * n)" using grow by simp
    ultimately have "len \<le> max (max 256 (sb_totallen b)) (2 * (sb_off b + 2 * n))"
      by (auto simp: max_def split: if_splits)
    moreover have "sb_misalign b1 \<le> sb_misalign b" "sb_totallen b1 = sb_totallen b"
      using b1 by (auto dest: sb_Align_fields split: if_splits)
    ultimately show ?thesis using rest by (auto split: option.splits)
  qed
qed

lemma sb_store_fields: "sb_store p bs b = Some b' \<Longrightarrow> sb_misalign b' = sb_misalign b \<and> sb_totallen b' = sb_totallen b"
  by (auto simp: sb_store_def split: option.splits if_splits)

lemma sb_Append_misalign:
  assumes "sb_Append alloc bs b = Some (r, b')" "sb_misalign b + sb_off b + length bs \<le> 2 ^ 63"
  shows "sb_misalign b' \<le> sb_misalign b"
proof (cases "bs = []")
  case False
  with assms(1) obtain r1 b1 where "sb_reserve alloc (length bs) b = Some (r1, b1)"
    and "(if r1 = -1 then Some (-1, b1) else do { b \<leftarrow> sb_store (sb_off b1) bs b1;
        Some (0, b\<lparr>sb_off := sb_off b + length bs\<rparr>) }) = Some (r, b')"
    by (auto simp: sb_Append_def split: bind_splits)
  then show ?thesis
    using sb_reserve_bound [OF _ assms(2)] by (auto dest: sb_store_fields split: if_splits bind_splits)
qed (use assms in \<open>simp add: sb_Append_def\<close>)

lemma sb_SockRead_totallen:
  assumes "sb_SockRead alloc recv (-1) b = Some (r, b')" "sb_misalign b + sb_off b + 4096 \<le> 2 ^ 63"
  shows "sb_totallen b' \<le> max (max 256 (sb_totallen b)) (2 * (sb_off b + 8192))"
proof -
  from assms(1) obtain r1 b1 where res: "sb_reserve alloc 4096 b = Some (r1, b1)"
    and "(if r1 = -1 then Some (-1, sb_Reset b1) else
        (case recv 4096 of None \<Rightarrow> Some (-1, b1) | Some [] \<Rightarrow> Some (0, b1)
          | Some bs \<Rightarrow> do { b \<leftarrow> sb_store (sb_off b1) bs b1;
              Some (int (length bs), b\<lparr>sb_off := sb_off b + length bs\<rparr>) })) = Some (r, b')"
    by (auto simp: sb_SockRead_def sb_BUFFER_MAX_READ_def split: bind_splits)
  then have "sb_totallen b' = sb_totallen b1"
    by (auto simp: sb_Reset_def sb_Erase_def dest: sb_store_fields split: if_splits option.splits list.splits bind_splits)
  with sb_reserve_bound [OF res assms(2)] show ?thesis by simp
qed

text \<open>With an allocator that never fails, a read of delivered bytes appends exactly them.\<close>

definition alloc_total :: "allocator \<Rightarrow> bool" where
  "alloc_total alloc \<longleftrightarrow> (\<forall>n. \<exists>bs. alloc n = Some bs \<and> length bs = n)"

lemma alloc_total_ok: "alloc_total alloc \<Longrightarrow> alloc_ok alloc"
  unfolding alloc_total_def alloc_ok_def by (metis option.inject)

lemma alloc_total_not_None: "alloc_total alloc \<Longrightarrow> alloc n \<noteq> None"
  unfolding alloc_total_def by (metis option.distinct(1))

lemma sb_Append_appends:
  assumes "sb_ok b" "alloc_total alloc" "sb_misalign b + sb_off b + length bs \<le> 2 ^ 63"
  shows "\<exists>b'. sb_Append alloc bs b = Some (0, b') \<and> sb_ok b' \<and> sb_bytes b' = sb_bytes b @ bs \<and>
           sb_misalign b' \<le> sb_misalign b \<and> sb_off b' = sb_off b + length bs"
proof -
  note ok = alloc_total_ok [OF assms(2)]
  obtain r b' where app: "sb_Append alloc bs b = Some (r, b')" "r = -1 \<longrightarrow> (\<exists>len. alloc len = None)"
    using sb_Append_total [OF assms(1) ok assms(3)] by blast
  then have "r \<noteq> -1" using alloc_total_not_None [OF assms(2)] by blast
  with sb_Append_ok [OF assms(1) ok app(1)] have b': "r = 0" "sb_ok b'" "sb_bytes b' = sb_bytes b @ bs" by auto
  then have "sb_off b' = sb_off b + length bs"
    using length_sb_bytes assms(1) by (metis length_append)
  with b' app sb_Append_misalign [OF app(1) assms(3)] show ?thesis by simp
qed

lemma sb_SockRead_delivers:
  assumes "sb_ok b" "alloc_total alloc" "sb_misalign b + sb_off b + 4096 \<le> 2 ^ 63"
    and "recv 4096 = Some bs" "bs \<noteq> []" "length bs \<le> 4096"
  shows "\<exists>b'. sb_SockRead alloc recv (-1) b = Some (int (length bs), b') \<and> sb_ok b' \<and>
           sb_bytes b' = sb_bytes b @ bs"
proof -
  note ok = alloc_total_ok [OF assms(2)]
  obtain r1 b1 where res: "sb_reserve alloc 4096 b = Some (r1, b1)" "r1 = -1 \<longrightarrow> (\<exists>len. alloc len = None)"
    using sb_reserve_total [OF assms(1,3), of alloc] by blast
  then have "r1 \<noteq> -1" using alloc_total_not_None [OF assms(2)] by blast
  with sb_reserve_ok [OF assms(1) ok res(1)] have b1: "r1 = 0" "sb_ok b1" "sb_bytes b1 = sb_bytes b" "sb_fits 4096 b1"
    by auto
  then have "sb_fits (length bs) b1" using assms(6) by (simp add: sb_fits_def)
  from sb_store_ok [OF b1(2) this assms(5)] obtain b2 where "sb_store (sb_off b1) bs b1 = Some b2"
    "sb_ok (b2\<lparr>sb_off := sb_off b2 + length bs\<rparr>)" "sb_bytes (b2\<lparr>sb_off := sb_off b2 + length bs\<rparr>) = sb_bytes b1 @ bs"
    by blast
  with res b1 assms(4,5) show ?thesis
    by (cases bs) (auto simp: sb_SockRead_def sb_BUFFER_MAX_READ_def)
qed

section \<open>The byte queue interface\<close>

text \<open>
  What the framing code relies on: a successful \<open>app\<close> adds its bytes behind the live ones,
  \<open>rd n\<close> hands out and removes the first \<open>n\<close>. For any sequence of the two operations the bytes
  handed out, followed by the bytes left, are the initial bytes followed by the bytes accepted.
\<close>

datatype fifo_op = Fifo_Put "byte list" | Fifo_Get nat

locale byte_fifo =
  fixes inv :: "'s \<Rightarrow> bool"
    and bytes :: "'s \<Rightarrow> byte list"
    and app :: "byte list \<Rightarrow> 's \<Rightarrow> (bool \<times> 's) option"
    and rd :: "nat \<Rightarrow> 's \<Rightarrow> (byte list \<times> 's) option"
  assumes app_law: "inv s \<Longrightarrow> app bs s = Some (acc, s') \<Longrightarrow>
      inv s' \<and> bytes s' = bytes s @ (if acc then bs else [])"
    and rd_law: "inv s \<Longrightarrow> \<exists>s'. rd n s = Some (take n (bytes s), s') \<and> inv s' \<and> bytes s' = drop n (bytes s)"
begin

fun run :: "fifo_op list \<Rightarrow> 's \<Rightarrow> (byte list \<times> byte list \<times> 's) option" where
  "run [] s = Some ([], [], s)"
| "run (Fifo_Put bs # ops) s =
     do { (acc, s) \<leftarrow> app bs s; (put, got, s) \<leftarrow> run ops s; Some ((if acc then bs else []) @ put, got, s) }"
| "run (Fifo_Get n # ops) s =
     do { (bs, s) \<leftarrow> rd n s; (put, got, s) \<leftarrow> run ops s; Some (put, bs @ got, s) }"

lemma run_stream:
  "inv s \<Longrightarrow> run ops s = Some (put, got, s') \<Longrightarrow> inv s' \<and> bytes s @ put = got @ bytes s'"
proof (induction ops arbitrary: s put got)
  case (Cons p ops)
  show ?case
  proof (cases p)
    case (Fifo_Put bs)
    with Cons.prems obtain acc s1 put1 where s1: "app bs s = Some (acc, s1)"
      and rest: "run ops s1 = Some (put1, got, s')" "put = (if acc then bs else []) @ put1"
      by (auto split: bind_splits)
    from app_law [OF Cons.prems(1) s1] Cons.IH [OF _ rest(1)] rest(2) show ?thesis by auto
  next
    case (Fifo_Get n)
    with Cons.prems obtain bs s1 got1 where s1: "rd n s = Some (bs, s1)"
      and rest: "run ops s1 = Some (put, got1, s')" "got = bs @ got1"
      by (auto split: bind_splits)
    from rd_law [OF Cons.prems(1), of n] s1 have "inv s1" "bs = take n (bytes s)" "bytes s1 = drop n (bytes s)"
      by auto
    with Cons.IH [OF _ rest(1)] rest(2) have "inv s' \<and> drop n (bytes s) @ put = got1 @ bytes s'" by simp
    with rest(2) \<open>bs = take n (bytes s)\<close> show ?thesis
      by (metis append.assoc append_take_drop_id)
  qed
qed simp

end

definition sb_put :: "allocator \<Rightarrow> byte list \<Rightarrow> sock_buffer \<Rightarrow> (bool \<times> sock_buffer) option" where
  "sb_put alloc bs b = map_option (\<lambda>(r, b). (r = 0, b)) (sb_Append alloc bs b)"

interpretation sbf: byte_fifo "\<lambda>b. sb_ok b \<and> alloc_ok alloc" sb_bytes "sb_put alloc" sb_BufferRead for alloc
proof (unfold_locales, goal_cases)
  case (1 s bs acc s')
  then show ?case using sb_Append_ok [of s alloc bs] by (auto simp: sb_put_def)
next
  case (2 s n)
  then show ?case by (auto simp: sb_BufferRead_bytes sb_Erase_ok min_def length_sb_bytes)
qed

text \<open>The same run written over the buffer's own operations.\<close>

fun sb_run ::
  "allocator \<Rightarrow> fifo_op list \<Rightarrow> sock_buffer \<Rightarrow> (byte list \<times> byte list \<times> sock_buffer) option" where
  "sb_run alloc [] b = Some ([], [], b)"
| "sb_run alloc (Fifo_Put bs # ops) b =
     do { (r, b) \<leftarrow> sb_Append alloc bs b; (put, got, b) \<leftarrow> sb_run alloc ops b;
          Some ((if r = 0 then bs else []) @ put, got, b) }"
| "sb_run alloc (Fifo_Get n # ops) b =
     do { (bs, b) \<leftarrow> sb_BufferRead n b; (put, got, b) \<leftarrow> sb_run alloc ops b; Some (put, bs @ got, b) }"

lemma sb_run_fifo: "sb_run alloc ops b = sbf.run alloc ops b"
proof (induction ops arbitrary: b)
  case (Cons p ops)
  show ?case
  proof (cases p)
    case (Fifo_Put bs)
    have "sb_put alloc bs b = map_option (\<lambda>(r, b). (r = 0, b)) (sb_Append alloc bs b)"
      by (simp add: sb_put_def)
    with Fifo_Put show ?thesis using Cons.IH by (cases "sb_Append alloc bs b") auto
  next
    case (Fifo_Get n)
    then show ?thesis using Cons.IH by (cases "sb_BufferRead n b") auto
  qed
qed simp

section \<open>Properties\<close>



text \<open>
  \<^verbatim>\<open>Append\<close> on a valid buffer below the size limit always returns, without touching memory
  outside its block; it fails only when the allocator does, and then the held bytes are intact.
\<close>

theorem sock_buffer_append:
  assumes "sb_ok b" "alloc_ok alloc" "sb_misalign b + sb_off b + length bs \<le> 2 ^ 63"
  shows "\<exists>r b'. sb_Append alloc bs b = Some (r, b') \<and> sb_ok b' \<and>
           (r = 0 \<and> sb_bytes b' = sb_bytes b @ bs \<or>
            r = -1 \<and> sb_bytes b' = sb_bytes b \<and> (\<exists>n. alloc n = None))"
  using sb_Append_total [OF assms] sb_Append_ok [OF assms(1,2)] by blast

theorem sock_buffer_append_witness:
  "\<exists>r b'. sb_Append (\<lambda>n. None) [7, 8] sb_construct = Some (r, b') \<and> sb_ok b' \<and>
     (r = 0 \<and> sb_bytes b' = [] @ [7, 8] \<or> r = -1 \<and> sb_bytes b' = [] \<and> (\<exists>n :: nat. (None :: byte list option) = None))"
  using sock_buffer_append [of sb_construct "\<lambda>n. None" "[7, 8]"]
  by (simp add: sb_construct_ok alloc_ok_def) (simp add: sb_construct_def)

end
