(* ===== verification/Net_Client.thy ===== *)
theory Net_Client
  imports Byte_Buffer Socket_Buffer
begin

text \<open>
  \<^verbatim>\<open>CNetClient\<close> (pitayaserver/framework/NetClient.h and NetClient.cpp), one accepted connection:
  framing of the input stream into packets, the queue of packets to send, and the closing
  protocol. \<^verbatim>\<open>BIG_PACKET_HEADER\<close> is not defined anywhere in the build, so a header is a 16-bit size
  (header included) and a 16-bit command.

  A connection and its session are created together; \<open>nc_recv\<close> is the session's
  \<^verbatim>\<open>m_recvQueue\<close> and \<open>nc_session\<close> says whether \<^verbatim>\<open>m_pSession\<close> still points to it. Whether libevent
  accepts an event is a parameter. \<open>split_frames\<close> is the specification of the framing: the
  complete frames of a byte stream and the bytes left over.
\<close>

section \<open>State\<close>

datatype close_async_flag =
    E_CLOSE_ASYNC_FLAG_NULL
  | E_CLOSE_ASYNC_FLAG_DIRECT_CLOSE
  | E_CLOSE_ASYNC_FLAG_FLUSH_CLOSE

record net_client =
  nc_in :: sock_buffer
  nc_out :: sock_buffer
  nc_session :: bool
  nc_recv :: "world_packet list"
  nc_netid :: uint32
  nc_isclose :: bool
  nc_fd :: int
  nc_sendQueue :: "world_packet list"
  nc_remoteip :: string
  nc_flag :: close_async_flag
  nc_ev_read :: bool
  nc_ev_write :: bool

definition hdr_len :: nat where
  "hdr_len = 4"

definition nc_new :: "allocator \<Rightarrow> int \<Rightarrow> net_client" where
  "nc_new alloc fd =
     \<lparr>nc_in = sb_Init alloc sb_construct, nc_out = sb_Init alloc sb_construct, nc_session = False,
      nc_recv = [], nc_netid = 0, nc_isclose = False, nc_fd = fd, nc_sendQueue = [], nc_remoteip = [],
      nc_flag = E_CLOSE_ASYNC_FLAG_NULL, nc_ev_read = False, nc_ev_write = False\<rparr>"

section \<open>Closing\<close>

definition nc_CloseSocket :: "net_client \<Rightarrow> net_client" where
  "nc_CloseSocket c =
     (if nc_isclose c then c
      else c\<lparr>nc_isclose := True, nc_ev_read := False, nc_ev_write := False, nc_session := False\<rparr>)"

lemma CloseSocket_simps [simp]:
  "nc_isclose (nc_CloseSocket c)" "nc_flag (nc_CloseSocket c) = nc_flag c" "nc_out (nc_CloseSocket c) = nc_out c"
  "nc_CloseSocket (nc_CloseSocket c) = nc_CloseSocket c"
  by (simp_all add: nc_CloseSocket_def)

definition nc_CloseSocketAsync :: "close_async_flag \<Rightarrow> net_client \<Rightarrow> net_client" where
  "nc_CloseSocketAsync f c = c\<lparr>nc_flag := f\<rparr>"

definition nc_SetRemoteIP :: "string \<Rightarrow> net_client \<Rightarrow> net_client" where
  "nc_SetRemoteIP ip c = c\<lparr>nc_remoteip := takeWhile (\<lambda>x. x \<noteq> CHR 0x00) ip\<rparr>"

definition nc_TryAddWriteEvent :: "bool \<Rightarrow> net_client \<Rightarrow> bool \<times> net_client" where
  "nc_TryAddWriteEvent event_ok c =
     (if \<not> event_ok then (False, nc_CloseSocket c) else (True, c\<lparr>nc_ev_write := True\<rparr>))"

text \<open>\<^verbatim>\<open>OnAccept\<close>: the session is created, numbered and handed to the worker.\<close>

definition nc_OnAccept :: "uint32 \<Rightarrow> net_client \<Rightarrow> net_client" where
  "nc_OnAccept dwNetId c = c\<lparr>nc_session := True, nc_netid := dwNetId\<rparr>"

text \<open>A heap that always has room, for examples.\<close>

definition zero_alloc :: allocator where
  "zero_alloc n = Some (replicate n 0)"

lemma zero_alloc_total: "alloc_total zero_alloc"
  by (simp add: alloc_total_def zero_alloc_def)

lemma nc_new_out:
  assumes "alloc_total alloc"
  shows "sb_ok (nc_out (nc_new alloc fd))" "sb_bytes (nc_out (nc_new alloc fd)) = []"
    "sb_misalign (nc_out (nc_new alloc fd)) = 0" "sb_off (nc_out (nc_new alloc fd)) = 0"
proof -
  obtain m where m: "alloc sb_BUFFER_INIT_LEN = Some m"
    using assms by (auto simp: alloc_total_def)
  show "sb_ok (nc_out (nc_new alloc fd))" "sb_bytes (nc_out (nc_new alloc fd)) = []"
    using sb_Init_ok [OF alloc_total_ok [OF assms] m] by (simp_all add: nc_new_def)
  show "sb_misalign (nc_out (nc_new alloc fd)) = 0" "sb_off (nc_out (nc_new alloc fd)) = 0"
    by (simp_all add: nc_new_def sb_Init_def sb_Init_buf_def sb_construct_def Let_def)
qed

section \<open>Receiving\<close>

definition hdr_size :: "byte list \<Rightarrow> nat" where
  "hdr_size pData = le_dec (take 2 pData)"

definition hdr_cmd :: "byte list \<Rightarrow> nat" where
  "hdr_cmd pData = le_dec (take 2 (drop 2 pData))"

text \<open>\<^verbatim>\<open>WorldPacket packet(hdr.cmd, wRemaining)\<close>, resized and filled with the body.\<close>

definition mk_packet :: "nat \<Rightarrow> byte list \<Rightarrow> world_packet" where
  "mk_packet cmd body =
     (let p = bb_resize (length body) (wp_new (word_of_nat cmd) (length body))
      in if body \<noteq> [] then p\<lparr>bb_storage := overwrite 0 body (bb_storage p)\<rparr> else p)"

definition nc_QueuePacket :: "world_packet \<Rightarrow> net_client \<Rightarrow> net_client" where
  "nc_QueuePacket p c = (if nc_session c then c\<lparr>nc_recv := nc_recv c @ [p]\<rparr> else c)"

text \<open>The loop of \<^verbatim>\<open>OnRead\<close>; \<open>pData\<close> is what \<^verbatim>\<open>pData\<close> and \<^verbatim>\<open>buffSize\<close> describe.\<close>

function nc_read_loop :: "byte list \<Rightarrow> nat \<Rightarrow> net_client \<Rightarrow> nat \<times> net_client" where
  "nc_read_loop pData nParsed c =
     (if length pData < hdr_len then (nParsed, c)
      else
        let wLen = hdr_size pData in
        if wLen < hdr_len then (nParsed, c)
        else if wLen > length pData then (nParsed, c)
        else
          let wRemaining = wLen - hdr_len;
              packet = mk_packet (hdr_cmd pData) (take wRemaining (drop hdr_len pData))
          in nc_read_loop (drop wLen pData) (nParsed + wLen) (nc_QueuePacket packet c))"
  by pat_completeness auto
termination
  by (relation "measure (\<lambda>(pData, _, _). length pData)") (auto simp: hdr_len_def)

declare nc_read_loop.simps [simp del]

definition nc_OnRead :: "net_client \<Rightarrow> net_client option" where
  "nc_OnRead c =
     do { pData \<leftarrow> sb_GetBuffer (nc_in c);
          if length pData < hdr_len then Some c
          else
            let (nParsed, c) = nc_read_loop pData 0 c
            in Some (if nParsed > 0 then c\<lparr>nc_in := sb_Erase nParsed (nc_in c)\<rparr> else c) }"

text \<open>\<^verbatim>\<open>hexdump\<close>: three characters per byte into a buffer of 4096, nothing for more than 1024 bytes.\<close>

definition hexdump :: "byte list \<Rightarrow> string" where
  "hexdump p =
     (if length p > 1024 then []
      else concat (map (\<lambda>b. [hex_digit (unat b div 16), hex_digit (unat b mod 16), CHR '' '']) p))"

section \<open>Sending\<close>

definition nc_SendPacket :: "bool \<Rightarrow> world_packet \<Rightarrow> net_client \<Rightarrow> net_client" where
  "nc_SendPacket event_ok packet c =
     (let c = c\<lparr>nc_sendQueue := nc_sendQueue c @ [packet], nc_ev_write := False\<rparr>
      in if \<not> event_ok then nc_CloseSocket c else c\<lparr>nc_ev_write := True\<rparr>)"

definition hdr_bytes :: "world_packet \<Rightarrow> byte list" where
  "hdr_bytes p =
     le_enc 2 (unat (word_of_nat (bb_size p + hdr_len) :: uint16)) @ le_enc 2 (unat (ucast (wp_opcode p) :: uint16))"

text \<open>
  \<^verbatim>\<open>SendSinglePacket\<close>: the results of the two \<^verbatim>\<open>Append\<close> calls are ignored, as in the code. The copy
  of the first 800 bytes for the log fits its 1024-byte array. \<^verbatim>\<open>next\<close> on an empty queue waits for
  another thread; \<^verbatim>\<open>OnWrite\<close> never calls it so.
\<close>

definition nc_SendSinglePacket :: "allocator \<Rightarrow> net_client \<Rightarrow> net_client option" where
  "nc_SendSinglePacket alloc c =
     (case nc_sendQueue c of
        [] \<Rightarrow> None
      | packet # q \<Rightarrow>
          do { contents \<leftarrow> bb_contents (bb_size packet) packet;
               (_, out) \<leftarrow> sb_Append alloc (hdr_bytes packet) (nc_out c);
               (_, out) \<leftarrow> (if \<not> bb_empty packet then sb_Append alloc contents out else Some (0, out));
               Some (c\<lparr>nc_sendQueue := q, nc_out := out\<rparr>) })"

lemma nc_SendSinglePacket_shorter:
  "nc_SendSinglePacket alloc c = Some c' \<Longrightarrow> length (nc_sendQueue c') < length (nc_sendQueue c)"
  by (auto simp: nc_SendSinglePacket_def split: list.splits bind_splits if_splits)

function nc_OnWrite :: "allocator \<Rightarrow> net_client \<Rightarrow> net_client option" where
  "nc_OnWrite alloc c =
     (if nc_sendQueue c = [] then Some c
      else (case nc_SendSinglePacket alloc c of None \<Rightarrow> None | Some c' \<Rightarrow> nc_OnWrite alloc c'))"
  by pat_completeness auto
termination
  by (relation "measure (\<lambda>(_, c). length (nc_sendQueue c))") (auto dest: nc_SendSinglePacket_shorter)

declare nc_OnWrite.simps [simp del]

section \<open>Frames of a stream\<close>

function split_frames :: "byte list \<Rightarrow> (nat \<times> byte list) list \<times> byte list" where
  "split_frames bs =
     (if length bs < 4 \<or> hdr_size bs < 4 \<or> length bs < hdr_size bs then ([], bs)
      else let (fs, rest) = split_frames (drop (hdr_size bs) bs)
           in ((hdr_cmd bs, take (hdr_size bs - 4) (drop 4 bs)) # fs, rest))"
  by pat_completeness auto
termination
  by (relation "measure length") auto

declare split_frames.simps [simp del]

definition frame_bytes :: "nat \<times> byte list \<Rightarrow> byte list" where
  "frame_bytes f = le_enc 2 (length (snd f) + 4) @ le_enc 2 (fst f) @ snd f"

definition frame_ok :: "nat \<times> byte list \<Rightarrow> bool" where
  "frame_ok f \<longleftrightarrow> fst f < 2 ^ 16 \<and> length (snd f) + 4 < 2 ^ 16"

definition packet_frame :: "world_packet \<Rightarrow> nat \<times> byte list" where
  "packet_frame p = (unat (wp_opcode p), bb_data p)"

lemma split_frames_rest: "split_frames bs = (fs, rest) \<Longrightarrow> \<exists>pre. bs = pre @ rest"
proof (induction bs arbitrary: fs rest rule: split_frames.induct)
  case (1 bs)
  show ?case
  proof (cases "length bs < 4 \<or> hdr_size bs < 4 \<or> length bs < hdr_size bs")
    case True
    with "1.prems" show ?thesis by (simp add: split_frames.simps)
  next
    case False
    with "1.prems" obtain gs where "split_frames (drop (hdr_size bs) bs) = (gs, rest)"
      by (subst (asm) split_frames.simps) (auto split: prod.splits)
    from "1.IH" [OF False this] obtain pre where "drop (hdr_size bs) bs = pre @ rest" by blast
    then have "bs = (take (hdr_size bs) bs @ pre) @ rest" by (metis append.assoc append_take_drop_id)
    then show ?thesis by blast
  qed
qed

text \<open>Splitting a stream in pieces: what is left over waits for the bytes that follow.\<close>

lemma hdr_append:
  "4 \<le> length bs \<Longrightarrow> hdr_size (bs @ cs) = hdr_size bs" "4 \<le> length bs \<Longrightarrow> hdr_cmd (bs @ cs) = hdr_cmd bs"
  by (simp_all add: hdr_size_def hdr_cmd_def)

lemma split_frames_append:
  "split_frames bs = (fs, rest) \<Longrightarrow>
   split_frames (bs @ cs) = (fs @ fst (split_frames (rest @ cs)), snd (split_frames (rest @ cs)))"
proof (induction bs arbitrary: fs rest rule: split_frames.induct)
  case (1 bs)
  show ?case
  proof (cases "length bs < 4 \<or> hdr_size bs < 4 \<or> length bs < hdr_size bs")
    case True
    with "1.prems" show ?thesis by (simp add: split_frames.simps)
  next
    case False
    then obtain gs where gs: "split_frames (drop (hdr_size bs) bs) = (gs, rest)"
      and fs: "fs = (hdr_cmd bs, take (hdr_size bs - 4) (drop 4 bs)) # gs"
      using "1.prems" by (subst (asm) split_frames.simps) (auto split: prod.splits)
    note rec = "1.IH" [OF False gs]
    from False rec fs show ?thesis
      by (subst split_frames.simps) (auto simp: hdr_append case_prod_unfold Let_def)
  qed
qed

lemma hdr_frame:
  "frame_ok f \<Longrightarrow> hdr_size (frame_bytes f @ cs) = length (snd f) + 4"
  "frame_ok f \<Longrightarrow> hdr_cmd (frame_bytes f @ cs) = fst f"
  by (simp_all add: hdr_size_def hdr_cmd_def frame_bytes_def frame_ok_def le_dec_enc)

lemma length_frame_bytes [simp]: "length (frame_bytes f) = length (snd f) + 4"
  by (simp add: frame_bytes_def del: le_enc.simps)

lemma body_frame: "take (length (snd f)) (drop 4 (frame_bytes f @ cs)) = snd f"
  by (simp add: frame_bytes_def del: le_enc.simps)

lemma split_frames_frame:
  assumes "frame_ok f"
  shows "split_frames (frame_bytes f @ cs) = (f # fst (split_frames cs), snd (split_frames cs))"
proof -
  have "drop (length (snd f) + 4) (frame_bytes f @ cs) = cs" by simp
  with assms show ?thesis
    by (subst split_frames.simps) (simp add: hdr_frame body_frame case_prod_unfold Let_def del: drop_append take_append)
qed

lemma split_frames_all:
  "list_all frame_ok fs \<Longrightarrow> split_frames (concat (map frame_bytes fs)) = (fs, [])"
proof (induction fs)
  case Nil
  then show ?case by (simp add: split_frames.simps)
qed (simp add: split_frames_frame)

section \<open>OnRead implements the framing\<close>

lemma read_loop_frames:
  "split_frames bs = (fs, rest) \<Longrightarrow>
   nc_read_loop bs n c =
     (n + (length bs - length rest),
      if nc_session c then c\<lparr>nc_recv := nc_recv c @ map (\<lambda>(cmd, body). mk_packet cmd body) fs\<rparr> else c)"
proof (induction bs arbitrary: fs rest n c rule: split_frames.induct)
  case (1 bs)
  show ?case
  proof (cases "length bs < 4 \<or> hdr_size bs < 4 \<or> length bs < hdr_size bs")
    case True
    with "1.prems" show ?thesis
      by (auto simp: split_frames.simps nc_read_loop.simps hdr_len_def)
  next
    case False
    then obtain gs where gs: "split_frames (drop (hdr_size bs) bs) = (gs, rest)"
      and fs: "fs = (hdr_cmd bs, take (hdr_size bs - 4) (drop 4 bs)) # gs"
      using "1.prems" by (subst (asm) split_frames.simps) (auto split: prod.splits)
    have "length rest \<le> length (drop (hdr_size bs) bs)"
      using split_frames_rest [OF gs] by (metis length_append le_add2)
    with False fs show ?thesis
      by (subst nc_read_loop.simps)
        (auto simp: hdr_len_def Let_def "1.IH" [OF False gs] nc_QueuePacket_def)
  qed
qed

lemma split_frames_stuck: "length bs < 4 \<Longrightarrow> split_frames bs = ([], bs)"
  by (simp add: split_frames.simps)

lemma OnRead_frames:
  assumes "sb_ok (nc_in c)" "split_frames (sb_bytes (nc_in c)) = (fs, rest)"
  shows "\<exists>b. nc_OnRead c = Some (c\<lparr>nc_in := b,
             nc_recv := nc_recv c @ (if nc_session c then map (\<lambda>(cmd, body). mk_packet cmd body) fs else [])\<rparr>) \<and>
           sb_ok b \<and> sb_bytes b = rest \<and> sb_totallen b = sb_totallen (nc_in c)"
proof -
  let ?bs = "sb_bytes (nc_in c)"
  obtain pre where pre: "?bs = pre @ rest" using split_frames_rest [OF assms(2)] by blast
  let ?n = "length ?bs - length rest"
  have n: "?n = length pre" "drop ?n ?bs = rest" using pre by simp_all
  have tot: "sb_totallen (sb_Erase ?n (nc_in c)) = sb_totallen (nc_in c)" by (simp add: sb_Erase_def)
  note loop = read_loop_frames [OF assms(2), of 0 c]
  show ?thesis
  proof (cases "length ?bs < 4")
    case True
    then show ?thesis
      using assms split_frames_stuck [OF True]
      by (intro exI [of _ "nc_in c"]) (simp add: nc_OnRead_def sb_GetBuffer_bytes hdr_len_def)
  next
    case False
    show ?thesis
    proof (cases "?n = 0")
      case True
      with False n loop assms(1) show ?thesis
        by (intro exI [of _ "nc_in c"]) (auto simp: nc_OnRead_def sb_GetBuffer_bytes hdr_len_def)
    next
      case pos: False
      with False n loop assms(1) tot show ?thesis
        by (intro exI [of _ "sb_Erase ?n (nc_in c)"])
          (auto simp: nc_OnRead_def sb_GetBuffer_bytes hdr_len_def sb_Erase_ok)
    qed
  qed
qed

section \<open>OnWrite emits the frames of the queued packets\<close>

definition packet_ok :: "world_packet \<Rightarrow> bool" where
  "packet_ok p \<longleftrightarrow> bb_wf p \<and> frame_ok (packet_frame p)"

lemma contents_data: "bb_wf p \<Longrightarrow> bb_contents (bb_size p) p = Some (bb_data p)"
  by (simp add: bb_contents_def bb_size_def bb_data_def bb_wf_def)

lemma hdr_bytes_frame:
  assumes "packet_ok p"
  shows "hdr_bytes p @ bb_data p = frame_bytes (packet_frame p)"
proof -
  have len: "bb_size p = length (bb_data p)" "length (bb_data p) + 4 < 2 ^ 16" "unat (wp_opcode p) < 2 ^ 16"
    using assms by (auto simp: packet_ok_def frame_ok_def packet_frame_def length_bb_data bb_size_def)
  then have "unat (word_of_nat (bb_size p + hdr_len) :: uint16) = length (bb_data p) + 4"
    by (simp add: unat_of_nat hdr_len_def del: of_nat_add)
  moreover have "unat (ucast (wp_opcode p) :: uint16) = unat (wp_opcode p)"
    using len(3) by (simp add: unsigned_ucast_eq take_bit_nat_eq_self)
  ultimately show ?thesis
    by (simp add: hdr_bytes_def frame_bytes_def packet_frame_def del: le_enc.simps)
qed

lemma length_hdr_bytes [simp]: "length (hdr_bytes p) = 4"
  by (simp add: hdr_bytes_def del: le_enc.simps)

lemma SendSinglePacket_frame:
  assumes "sb_ok (nc_out c)" "alloc_total alloc" "nc_sendQueue c = p # q" "packet_ok p"
    and "sb_misalign (nc_out c) + sb_off (nc_out c) + length (frame_bytes (packet_frame p)) \<le> 2 ^ 63"
  shows "\<exists>b. nc_SendSinglePacket alloc c = Some (c\<lparr>nc_sendQueue := q, nc_out := b\<rparr>) \<and> sb_ok b \<and>
           sb_bytes b = sb_bytes (nc_out c) @ frame_bytes (packet_frame p) \<and>
           sb_misalign b \<le> sb_misalign (nc_out c) \<and>
           sb_off b = sb_off (nc_out c) + length (frame_bytes (packet_frame p))"
proof -
  have wf: "bb_wf p" using assms(4) by (simp add: packet_ok_def)
  then have sz: "bb_empty p \<longleftrightarrow> bb_data p = []" "length (bb_data p) = snd (0, length (snd (packet_frame p)))"
    using length_bb_data [OF wf] by (auto simp: bb_empty_def packet_frame_def)
  have "sb_misalign (nc_out c) + sb_off (nc_out c) + length (hdr_bytes p) \<le> 2 ^ 63"
    using assms(5) by simp
  from sb_Append_appends [OF assms(1,2) this] obtain b1 where
    b1: "sb_Append alloc (hdr_bytes p) (nc_out c) = Some (0, b1)" "sb_ok b1"
      "sb_bytes b1 = sb_bytes (nc_out c) @ hdr_bytes p" "sb_misalign b1 \<le> sb_misalign (nc_out c)"
      "sb_off b1 = sb_off (nc_out c) + length (hdr_bytes p)" by blast
  have "sb_misalign b1 + sb_off b1 + length (bb_data p) \<le> 2 ^ 63"
    using assms(5) b1 by (simp add: packet_frame_def)
  from sb_Append_appends [OF b1(2) assms(2) this] obtain b2 where
    b2: "sb_Append alloc (bb_data p) b1 = Some (0, b2)" "sb_ok b2" "sb_bytes b2 = sb_bytes b1 @ bb_data p"
      "sb_misalign b2 \<le> sb_misalign b1" "sb_off b2 = sb_off b1 + length (bb_data p)" by blast
  have "(if \<not> bb_empty p then sb_Append alloc (bb_data p) b1 else Some (0, b1)) =
      Some (0, if bb_empty p then b1 else b2)"
    using b2 by simp
  moreover have "bb_empty p \<Longrightarrow> b2 = b1" using sz(1) b2(1) by (simp add: sb_Append_def)
  ultimately show ?thesis
    using b1 b2 assms(3) contents_data [OF wf] hdr_bytes_frame [OF assms(4)]
    by (intro exI [of _ b2]) (auto simp: nc_SendSinglePacket_def packet_frame_def)
qed

lemma OnWrite_frames:
  assumes "sb_ok (nc_out c)" "alloc_total alloc" "list_all packet_ok (nc_sendQueue c)"
    and "sb_misalign (nc_out c) + sb_off (nc_out c) +
         length (concat (map (frame_bytes \<circ> packet_frame) (nc_sendQueue c))) \<le> 2 ^ 63"
  shows "\<exists>b. nc_OnWrite alloc c = Some (c\<lparr>nc_sendQueue := [], nc_out := b\<rparr>) \<and> sb_ok b \<and>
           sb_bytes b = sb_bytes (nc_out c) @ concat (map (frame_bytes \<circ> packet_frame) (nc_sendQueue c))"
  using assms
proof (induction "nc_sendQueue c" arbitrary: c)
  case Nil
  then show ?case by (subst nc_OnWrite.simps) (auto intro!: exI [of _ "nc_out c"])
next
  case (Cons p q)
  let ?f = "frame_bytes (packet_frame p)"
  note q = Cons.hyps(2) [symmetric]
  have "packet_ok p" "list_all packet_ok q" using Cons.prems(3) q by simp_all
  have "sb_misalign (nc_out c) + sb_off (nc_out c) + length ?f \<le> 2 ^ 63"
    using Cons.prems(4) q by simp
  from SendSinglePacket_frame [OF Cons.prems(1,2) q \<open>packet_ok p\<close> this] obtain b where
    b: "nc_SendSinglePacket alloc c = Some (c\<lparr>nc_sendQueue := q, nc_out := b\<rparr>)" "sb_ok b"
      "sb_bytes b = sb_bytes (nc_out c) @ ?f" "sb_misalign b \<le> sb_misalign (nc_out c)"
      "sb_off b = sb_off (nc_out c) + length ?f" by blast
  let ?c = "c\<lparr>nc_sendQueue := q, nc_out := b\<rparr>"
  have "\<exists>b'. nc_OnWrite alloc ?c = Some (?c\<lparr>nc_sendQueue := [], nc_out := b'\<rparr>) \<and> sb_ok b' \<and>
           sb_bytes b' = sb_bytes (nc_out ?c) @ concat (map (frame_bytes \<circ> packet_frame) (nc_sendQueue ?c))"
    using Cons.prems q b \<open>list_all packet_ok q\<close> by (intro Cons.hyps(1)) auto
  then show ?case
    using b q by (subst nc_OnWrite.simps) auto
qed

lemma mk_packet_frame:
  assumes "frame_ok (cmd, body)"
  shows "packet_frame (mk_packet cmd body) = (cmd, body)" "packet_ok (mk_packet cmd body)"
proof -
  let ?p = "mk_packet cmd body"
  have "length body < 2 ^ 16" using assms by (simp add: frame_ok_def)
  then have "bb_wf ?p" by (auto simp: mk_packet_def Let_def bb_resize_def bb_wf_def)
  moreover have "bb_data ?p = body"
    by (auto simp: mk_packet_def Let_def bb_resize_def bb_data_def overwrite_def vec_resize_def)
  moreover have "unat (wp_opcode ?p) = cmd"
    using assms by (simp add: mk_packet_def Let_def bb_resize_def wp_new_def frame_ok_def
        world_packet.fields_def byte_buffer.extend_def unat_of_nat)
  ultimately show "packet_frame ?p = (cmd, body)" "packet_ok ?p"
    using assms by (simp_all add: packet_frame_def packet_ok_def)
qed

text \<open>The log buffers are large enough: \<^verbatim>\<open>char hexdata[4096]\<close> holds the dump and its NUL.\<close>

lemma hexdump_fits: "length (hexdump p) + 1 \<le> 4096"
proof -
  have "length (concat (map (\<lambda>b. [f b, g b, h b]) p)) = 3 * length p" for f g h :: "byte \<Rightarrow> char"
    by (induction p) auto
  then show ?thesis by (simp add: hexdump_def)
qed

end
