(* ===== verification/Net_Server.thy ===== *)
theory Net_Server
  imports Net_Client
begin

text \<open>
  \<^verbatim>\<open>CServer\<close> (pitayaserver/framework/Server.h and Server.cpp): the event handlers of the
  listening side and the table of live connections.

  Connection objects are named by their address. \<open>sv_heap\<close> holds the objects, \<open>sv_clientMap\<close>
  the keys of \<^verbatim>\<open>m_clientMap\<close> in the order the map iterates, \<open>sv_sessRef\<close> the objects whose session
  still holds its \<^verbatim>\<open>CountedPtr\<close>. The map and the session are the only owners: an object dropped from
  the map lives on exactly while its session holds it, and leaves \<open>sv_heap\<close> with its last pointer, so
  that a later access is \<^const>\<open>None\<close>. What the system calls answer is a
  parameter: \<open>recv n\<close> the bytes delivered, \<open>send bs\<close> the number of bytes the kernel takes of
  \<open>bs\<close> (the buffer shrinks between calls, so a function of the bytes is as general as a sequence
  of answers), \<open>again\<close> whether \<^verbatim>\<open>errno\<close> asks to retry, \<open>event_ok\<close> whether libevent accepts an event.
\<close>

section \<open>State\<close>

record server =
  sv_heap :: "nat \<Rightarrow> net_client option"
  sv_clientMap :: "nat list"
  sv_sessRef :: "nat set"
  sv_netIdTotal :: uint32
  sv_running :: bool

definition sv_MAX_BUFFER_LEN :: nat where
  "sv_MAX_BUFFER_LEN = 1024 * 1024 * 6"

definition sv_new :: server where
  "sv_new = \<lparr>sv_heap = (\<lambda>_. None), sv_clientMap = [], sv_sessRef = {}, sv_netIdTotal = 0, sv_running = True\<rparr>"

definition sv_set :: "nat \<Rightarrow> net_client \<Rightarrow> server \<Rightarrow> server" where
  "sv_set k c sv = sv\<lparr>sv_heap := (sv_heap sv)(k \<mapsto> c)\<rparr>"

definition sv_EndServer :: "server \<Rightarrow> server" where
  "sv_EndServer sv = sv\<lparr>sv_running := False\<rparr>"

definition sv_RefClient :: "nat \<Rightarrow> server \<Rightarrow> server" where
  "sv_RefClient k sv = sv\<lparr>sv_clientMap := insort k (remove1 k (sv_clientMap sv))\<rparr>"

text \<open>The pointer in the map is gone: the object is deleted unless its session holds it.\<close>

definition sv_release :: "nat \<Rightarrow> server \<Rightarrow> server" where
  "sv_release k sv = (if k \<in> sv_sessRef sv then sv else sv\<lparr>sv_heap := (sv_heap sv)(k := None)\<rparr>)"

text \<open>\<^verbatim>\<open>DeRefClient\<close> stops the process (\<^verbatim>\<open>assert(0)\<close>) for a client that is not in the map.\<close>

definition sv_DeRefClient :: "nat \<Rightarrow> server \<Rightarrow> server option" where
  "sv_DeRefClient k sv =
     (if k \<in> set (sv_clientMap sv)
      then Some (sv_release k (sv\<lparr>sv_clientMap := filter (\<lambda>j. j \<noteq> k) (sv_clientMap sv)\<rparr>))
      else None)"

text \<open>
  The session is deleted (\<^verbatim>\<open>~CUserSession\<close>): it closes the connection and drops its pointer, the last
  one when the map has already dropped the object.
\<close>

definition sv_session_over :: "nat \<Rightarrow> server \<Rightarrow> server option" where
  "sv_session_over k sv =
     do { c \<leftarrow> sv_heap sv k;
          let sv = sv_set k (nc_CloseSocket c) sv;
          let sv = sv\<lparr>sv_sessRef := sv_sessRef sv - {k}\<rparr>;
          Some (if k \<in> set (sv_clientMap sv) then sv else sv_release k sv) }"

text \<open>The destructor closes every client that is still in the map, and drops it.\<close>

definition sv_destroy :: "server \<Rightarrow> server" where
  "sv_destroy sv =
     sv\<lparr>sv_heap := (\<lambda>k. if k \<in> set (sv_clientMap sv)
                       then (if k \<in> sv_sessRef sv then map_option nc_CloseSocket (sv_heap sv k) else None)
                       else sv_heap sv k),
        sv_clientMap := []\<rparr>"

section \<open>Handlers\<close>

text \<open>
  \<^verbatim>\<open>OnAccept\<close>: \<open>accepted\<close> is the descriptor from \<^verbatim>\<open>accept\<close>, \<open>nonblock_ok\<close> and \<open>event_ok\<close> the
  answers of libevent, \<open>k\<close> the address of the new object and \<open>ip\<close> the peer's address.
\<close>

definition sv_OnAccept ::
  "allocator \<Rightarrow> int \<Rightarrow> bool \<Rightarrow> bool \<Rightarrow> nat \<Rightarrow> string \<Rightarrow> server \<Rightarrow> server" where
  "sv_OnAccept alloc accepted nonblock_ok event_ok k ip sv =
     (if accepted = -1 then sv
      else if \<not> nonblock_ok then sv
      else
        let client = nc_new alloc accepted in
        if \<not> event_ok then sv_set k (nc_CloseSocket client) sv
        else
          let client = client\<lparr>nc_ev_read := True\<rparr>;
              sv = sv_RefClient k sv;
              client = nc_OnAccept (sv_netIdTotal sv) (nc_SetRemoteIP ip client)
          in (sv_set k client sv)\<lparr>sv_sessRef := insert k (sv_sessRef sv), sv_netIdTotal := sv_netIdTotal sv + 1\<rparr>)"

definition sv_close_deref :: "nat \<Rightarrow> net_client \<Rightarrow> server \<Rightarrow> server option" where
  "sv_close_deref k c sv = sv_DeRefClient k (sv_set k (nc_CloseSocket c) sv)"

definition sv_OnRead ::
  "allocator \<Rightarrow> (nat \<Rightarrow> byte list option) \<Rightarrow> bool \<Rightarrow> nat \<Rightarrow> server \<Rightarrow> server option" where
  "sv_OnRead alloc recv again k sv =
     do { c \<leftarrow> sv_heap sv k;
          (len, b) \<leftarrow> sb_SockRead alloc recv (-1) (nc_in c);
          let c = c\<lparr>nc_in := b\<rparr>;
          if len = 0 then sv_close_deref k c sv
          else if len < 0 \<and> \<not> again then sv_close_deref k c sv
          else do { c \<leftarrow> nc_OnRead c; Some (sv_set k c sv) } }"

lemma sb_Sends_shrinks:
  "sb_Sends send b = Some (n, b') \<Longrightarrow> 0 < n \<Longrightarrow> 0 < sb_GetSize b \<Longrightarrow> sb_GetSize b' < sb_GetSize b"
  by (auto simp: sb_Sends_def sb_Erase_def sb_GetSize_def Let_def split: bind_splits if_splits)

text \<open>
  The loop of \<^verbatim>\<open>OnWrite\<close>: send until the buffer is empty, the peer is gone (the client is closed
  and dropped, \<^const>\<open>True\<close>) or the kernel asks to wait (the write event is armed again).
\<close>

function sv_flush ::
  "(byte list \<Rightarrow> int) \<Rightarrow> bool \<Rightarrow> bool \<Rightarrow> net_client \<Rightarrow> (net_client \<times> bool) option" where
  "sv_flush send again event_ok c =
     (if sb_GetSize (nc_out c) > 0
      then (case sb_Sends send (nc_out c) of
              None \<Rightarrow> None
            | Some (len, b) \<Rightarrow>
                if len = 0 then Some (nc_CloseSocket (c\<lparr>nc_out := b\<rparr>), True)
                else if len < 0 \<and> \<not> again then Some (nc_CloseSocket (c\<lparr>nc_out := b\<rparr>), True)
                else if len < 0 then Some (snd (nc_TryAddWriteEvent event_ok (c\<lparr>nc_out := b\<rparr>)), False)
                else sv_flush send again event_ok (c\<lparr>nc_out := b\<rparr>))
      else Some (c, False))"
  by pat_completeness auto
termination
  by (relation "measure (\<lambda>(_, _, _, c). sb_GetSize (nc_out c))") (auto dest: sb_Sends_shrinks)

declare sv_flush.simps [simp del]

definition sv_OnWrite ::
  "allocator \<Rightarrow> (byte list \<Rightarrow> int) \<Rightarrow> bool \<Rightarrow> bool \<Rightarrow> nat \<Rightarrow> server \<Rightarrow> server option" where
  "sv_OnWrite alloc send again event_ok k sv =
     do { c \<leftarrow> sv_heap sv k;
          c \<leftarrow> nc_OnWrite alloc c;
          if sb_GetSize (nc_out c) = 0 then Some (sv_set k c sv)
          else if sb_GetSize (nc_out c) > sv_MAX_BUFFER_LEN then sv_close_deref k c sv
          else do {
            (c, gone) \<leftarrow> sv_flush send again event_ok c;
            if gone then sv_DeRefClient k (sv_set k c sv) else Some (sv_set k c sv) } }"

record io_env =
  io_send :: "byte list \<Rightarrow> int"
  io_again :: bool
  io_event :: bool

text \<open>
  One step of the first loop of \<^verbatim>\<open>CheckCloseSocket\<close>. The iterator is advanced before the body, and
  the body erases at most the current entry. \<^verbatim>\<open>OnWrite\<close> may drop the client from the map, and the
  code looks at the object again after it: this is undefined when the map held the last pointer.
\<close>

definition sv_check_one :: "allocator \<Rightarrow> (nat \<Rightarrow> io_env) \<Rightarrow> nat \<Rightarrow> server \<Rightarrow> server option" where
  "sv_check_one alloc env k sv =
     do { c \<leftarrow> sv_heap sv k;
          case nc_flag c of
            E_CLOSE_ASYNC_FLAG_DIRECT_CLOSE \<Rightarrow> Some (sv_set k (nc_CloseSocket c) sv)
          | E_CLOSE_ASYNC_FLAG_FLUSH_CLOSE \<Rightarrow>
              do { sv \<leftarrow> sv_OnWrite alloc (io_send (env k)) (io_again (env k)) (io_event (env k)) k sv;
                   c \<leftarrow> sv_heap sv k;
                   Some (if \<not> nc_isclose c \<and> sb_GetSize (nc_out c) = 0
                         then sv_set k (nc_CloseSocket c) sv else sv) }
          | E_CLOSE_ASYNC_FLAG_NULL \<Rightarrow> Some sv }"

fun sv_check_loop :: "allocator \<Rightarrow> (nat \<Rightarrow> io_env) \<Rightarrow> nat list \<Rightarrow> server \<Rightarrow> server option" where
  "sv_check_loop alloc env [] sv = Some sv"
| "sv_check_loop alloc env (k # ids) sv =
     do { sv \<leftarrow> sv_check_one alloc env k sv; sv_check_loop alloc env ids sv }"

definition sv_is_closed :: "server \<Rightarrow> nat \<Rightarrow> bool" where
  "sv_is_closed sv k = (case sv_heap sv k of None \<Rightarrow> False | Some c \<Rightarrow> nc_isclose c)"

definition sv_CheckCloseSocket :: "allocator \<Rightarrow> (nat \<Rightarrow> io_env) \<Rightarrow> server \<Rightarrow> server option" where
  "sv_CheckCloseSocket alloc env sv =
     do { sv \<leftarrow> sv_check_loop alloc env (sv_clientMap sv) sv;
          Some (sv\<lparr>sv_clientMap := filter (\<lambda>k. \<not> sv_is_closed sv k) (sv_clientMap sv),
                   sv_heap := (\<lambda>k. if k \<in> set (sv_clientMap sv) \<and> sv_is_closed sv k \<and> k \<notin> sv_sessRef sv
                                 then None else sv_heap sv k)\<rparr>) }"

definition sv_OnTimerStopOrDeRef :: "allocator \<Rightarrow> (nat \<Rightarrow> io_env) \<Rightarrow> bool \<Rightarrow> server \<Rightarrow> server option" where
  "sv_OnTimerStopOrDeRef alloc env stopEvent sv =
     do { sv \<leftarrow> sv_CheckCloseSocket alloc env sv; Some (if stopEvent then sv_EndServer sv else sv) }"

section \<open>Receiving a stream in pieces\<close>

fun sv_reads :: "allocator \<Rightarrow> byte list list \<Rightarrow> nat \<Rightarrow> server \<Rightarrow> server option" where
  "sv_reads alloc [] k sv = Some sv"
| "sv_reads alloc (ch # chs) k sv =
     do { sv \<leftarrow> sv_OnRead alloc (\<lambda>_. Some ch) False k sv; sv_reads alloc chs k sv }"

text \<open>After the bytes \<open>seen\<close>, the session holds the frames of \<open>seen\<close> and the buffer the rest.\<close>

definition nc_received :: "byte list \<Rightarrow> net_client \<Rightarrow> bool" where
  "nc_received seen c \<longleftrightarrow>
     nc_session c \<and> sb_ok (nc_in c) \<and> sb_totallen (nc_in c) \<le> 32768 + 4 * length seen \<and>
     nc_recv c = map (\<lambda>(cmd, body). mk_packet cmd body) (fst (split_frames seen)) \<and>
     sb_bytes (nc_in c) = snd (split_frames seen)"

lemma split_frames_rest_le: "length (snd (split_frames bs)) \<le> length bs"
  using split_frames_rest [of bs "fst (split_frames bs)" "snd (split_frames bs)"]
  by (metis length_append le_add2 prod.collapse)

lemma OnRead_received:
  assumes "sv_heap sv k = Some c" "nc_received seen c" "alloc_total alloc"
    and "ch \<noteq> []" "length ch \<le> 4096" "length seen \<le> 2 ^ 40"
  shows "\<exists>c'. sv_OnRead alloc (\<lambda>_. Some ch) False k sv = Some (sv_set k c' sv) \<and> nc_received (seen @ ch) c'"
proof -
  obtain fs rest where split: "split_frames seen = (fs, rest)" by fastforce
  from assms(2) split have c: "nc_session c" "sb_ok (nc_in c)" "sb_totallen (nc_in c) \<le> 32768 + 4 * length seen"
      "nc_recv c = map (\<lambda>(cmd, body). mk_packet cmd body) fs" "sb_bytes (nc_in c) = rest"
    by (simp_all add: nc_received_def)
  have off: "sb_off (nc_in c) \<le> length seen"
    using length_sb_bytes [OF c(2)] c(5) split_frames_rest_le [of seen] split by simp
  have used: "sb_misalign (nc_in c) + sb_off (nc_in c) \<le> sb_totallen (nc_in c)"
    using c(2) by (simp add: sb_ok_def)
  then have small: "sb_misalign (nc_in c) + sb_off (nc_in c) + 4096 \<le> 2 ^ 63"
    using c(3) assms(6) by simp
  obtain b where b: "sb_SockRead alloc (\<lambda>_. Some ch) (-1) (nc_in c) = Some (int (length ch), b)" "sb_ok b"
      "sb_bytes b = rest @ ch"
    using sb_SockRead_delivers [OF c(2) assms(3) small _ assms(4,5), of "\<lambda>_. Some ch"] c(5) by auto
  have tot: "sb_totallen b \<le> 32768 + 4 * length seen"
    using sb_SockRead_totallen [OF b(1) small] off c(3) by (simp add: max_def split: if_splits)
  let ?c = "c\<lparr>nc_in := b\<rparr>"
  obtain gs rest' where split': "split_frames (rest @ ch) = (gs, rest')" by fastforce
  then have "split_frames (sb_bytes (nc_in ?c)) = (gs, rest')" using b by simp
  from OnRead_frames [OF _ this] b c(1) obtain b' where
    b': "nc_OnRead ?c = Some (?c\<lparr>nc_in := b', nc_recv := nc_recv c @ map (\<lambda>(cmd, body). mk_packet cmd body) gs\<rparr>)"
      "sb_ok b'" "sb_bytes b' = rest'" "sb_totallen b' = sb_totallen b" by auto
  let ?c' = "?c\<lparr>nc_in := b', nc_recv := nc_recv c @ map (\<lambda>(cmd, body). mk_packet cmd body) gs\<rparr>"
  have "sv_OnRead alloc (\<lambda>_. Some ch) False k sv = Some (sv_set k ?c' sv)"
    using assms(1,4) b(1) b'(1) by (simp add: sv_OnRead_def)
  moreover have "nc_received (seen @ ch) ?c'"
    using c b' tot split' split_frames_append [OF split, of ch] by (simp add: nc_received_def)
  ultimately show ?thesis by blast
qed

lemma reads_received:
  assumes "sv_heap sv k = Some c" "nc_received seen c" "alloc_total alloc"
    and "\<forall>ch \<in> set chs. ch \<noteq> [] \<and> length ch \<le> 4096" "length (seen @ concat chs) \<le> 2 ^ 40"
  shows "\<exists>c' sv'. sv_reads alloc chs k sv = Some sv' \<and> sv_heap sv' k = Some c' \<and>
           nc_received (seen @ concat chs) c'"
  using assms
proof (induction chs arbitrary: sv c seen)
  case (Cons ch chs)
  have "length seen \<le> 2 ^ 40" "ch \<noteq> []" "length ch \<le> 4096" using Cons.prems(4,5) by auto
  then obtain c1 where c1: "sv_OnRead alloc (\<lambda>_. Some ch) False k sv = Some (sv_set k c1 sv)"
      "nc_received (seen @ ch) c1"
    using OnRead_received [OF Cons.prems(1-3)] by blast
  have "sv_heap (sv_set k c1 sv) k = Some c1" by (simp add: sv_set_def)
  from Cons.IH [OF this c1(2) Cons.prems(3)] Cons.prems(4,5) c1(1) show ?case by auto
qed simp

lemma nc_received_new:
  assumes "alloc_total alloc"
  shows "nc_received [] (nc_OnAccept n (nc_new alloc fd))"
proof -
  obtain m where m: "alloc sb_BUFFER_INIT_LEN = Some m"
    using assms by (auto simp: alloc_total_def)
  have tot: "sb_totallen (sb_Init alloc sb_construct) \<le> 32768"
    by (simp add: sb_Init_def sb_Init_buf_def Let_def sb_BUFFER_INIT_LEN_def)
  from sb_Init_ok [OF alloc_total_ok [OF assms] m] tot show ?thesis
    by (simp add: nc_received_def nc_OnAccept_def nc_new_def split_frames.simps)
qed

section \<open>The closing pass\<close>

definition client_ok :: "net_client \<Rightarrow> bool" where
  "client_ok c \<longleftrightarrow> sb_ok (nc_out c) \<and> list_all packet_ok (nc_sendQueue c) \<and>
     sb_misalign (nc_out c) + sb_off (nc_out c) +
       length (concat (map (frame_bytes \<circ> packet_frame) (nc_sendQueue c))) \<le> 2 ^ 63"

definition sv_ok :: "server \<Rightarrow> bool" where
  "sv_ok sv \<longleftrightarrow> distinct (sv_clientMap sv) \<and>
     (\<forall>k \<in> set (sv_clientMap sv). \<exists>c. sv_heap sv k = Some c \<and> client_ok c)"

text \<open>What the pass leaves of one client.\<close>

definition checked :: "net_client \<Rightarrow> net_client \<Rightarrow> bool" where
  "checked c c' \<longleftrightarrow> nc_flag c' = nc_flag c \<and>
     (case nc_flag c of
        E_CLOSE_ASYNC_FLAG_NULL \<Rightarrow> c' = c
      | E_CLOSE_ASYNC_FLAG_DIRECT_CLOSE \<Rightarrow> nc_isclose c'
      | E_CLOSE_ASYNC_FLAG_FLUSH_CLOSE \<Rightarrow> nc_isclose c' \<or> 0 < sb_GetSize (nc_out c'))"

lemma flush_checked:
  "sb_ok (nc_out c) \<Longrightarrow>
   \<exists>c' gone. sv_flush send again ev c = Some (c', gone) \<and> nc_flag c' = nc_flag c \<and>
     (gone \<longrightarrow> nc_isclose c') \<and> (0 < sb_GetSize (nc_out c') \<or> nc_isclose c' \<or> \<not> gone)"
proof (induction send again ev c rule: sv_flush.induct)
  case (1 send again ev c)
  let ?n = "send (sb_bytes (nc_out c))"
  note sends = sb_Sends_bytes [OF "1.prems", of send]
  show ?case
  proof (cases "0 < sb_GetSize (nc_out c) \<and> 0 < ?n")
    case True
    let ?c = "c\<lparr>nc_out := sb_Erase (nat ?n) (nc_out c)\<rparr>"
    have eq: "sb_Sends send (nc_out c) = Some (?n, sb_Erase (nat ?n) (nc_out c))"
      using True sends by (simp add: Let_def)
    have "sb_ok (nc_out ?c)" using "1.prems" by (simp add: sb_Erase_ok)
    then have "\<exists>c' gone. sv_flush send again ev ?c = Some (c', gone) \<and> nc_flag c' = nc_flag ?c \<and>
        (gone \<longrightarrow> nc_isclose c') \<and> (0 < sb_GetSize (nc_out c') \<or> nc_isclose c' \<or> \<not> gone)"
      using True eq by (intro "1.IH" [OF _ eq refl]) auto
    then show ?thesis
      using True eq by (subst sv_flush.simps) simp
  next
    case False
    then show ?thesis
      using sends by (subst sv_flush.simps) (auto simp: Let_def nc_TryAddWriteEvent_def)
  qed
qed

lemma check_one_checked:
  assumes "alloc_total alloc" "k \<in> set (sv_clientMap sv)" "sv_heap sv k = Some c" "client_ok c"
    and held: "nc_flag c = E_CLOSE_ASYNC_FLAG_FLUSH_CLOSE \<longrightarrow> k \<in> sv_sessRef sv"
  shows "\<exists>sv' c'. sv_check_one alloc env k sv = Some sv' \<and> checked c c' \<and> sv_sessRef sv' = sv_sessRef sv \<and>
           sv_heap sv' = (sv_heap sv)(k \<mapsto> c') \<and>
           (sv_clientMap sv' = sv_clientMap sv \<or>
            nc_isclose c' \<and> k \<in> sv_sessRef sv \<and> sv_clientMap sv' = filter (\<lambda>j. j \<noteq> k) (sv_clientMap sv))"
proof (cases "nc_flag c")
  case E_CLOSE_ASYNC_FLAG_NULL
  then show ?thesis
    using assms by (intro exI [of _ sv] exI [of _ c]) (auto simp: sv_check_one_def checked_def)
next
  case E_CLOSE_ASYNC_FLAG_DIRECT_CLOSE
  then show ?thesis
    using assms by (intro exI [of _ "sv_set k (nc_CloseSocket c) sv"] exI [of _ "nc_CloseSocket c"])
      (auto simp: sv_check_one_def checked_def sv_set_def)
next
  case E_CLOSE_ASYNC_FLAG_FLUSH_CLOSE
  let ?send = "io_send (env k)" and ?again = "io_again (env k)" and ?ev = "io_event (env k)"
  obtain b where b: "nc_OnWrite alloc c = Some (c\<lparr>nc_sendQueue := [], nc_out := b\<rparr>)" "sb_ok b"
    using OnWrite_frames [of c alloc] assms(1,4) by (auto simp: client_ok_def)
  let ?c = "c\<lparr>nc_sendQueue := [], nc_out := b\<rparr>"
  obtain c' gone where fl: "sv_flush ?send ?again ?ev ?c = Some (c', gone)" "nc_flag c' = nc_flag c"
      "gone \<longrightarrow> nc_isclose c'"
    using flush_checked [of ?c ?send ?again ?ev] b by auto
  have ref: "k \<in> sv_sessRef sv" using held E_CLOSE_ASYNC_FLAG_FLUSH_CLOSE by simp
  have "\<exists>sv1 c1. sv_OnWrite alloc ?send ?again ?ev k sv = Some sv1 \<and> nc_flag c1 = nc_flag c \<and>
      sv_sessRef sv1 = sv_sessRef sv \<and>
      sv_heap sv1 = (sv_heap sv)(k \<mapsto> c1) \<and>
      (sv_clientMap sv1 = sv_clientMap sv \<or>
       nc_isclose c1 \<and> k \<in> sv_sessRef sv \<and> sv_clientMap sv1 = filter (\<lambda>j. j \<noteq> k) (sv_clientMap sv))"
  proof (cases "sb_GetSize b = 0 \<or> sb_GetSize b > sv_MAX_BUFFER_LEN")
    case True
    then show ?thesis
      using assms b ref by (auto simp: sv_OnWrite_def sv_set_def sv_close_deref_def sv_DeRefClient_def sv_release_def
          intro: exI [of _ ?c] exI [of _ "nc_CloseSocket ?c"])
  next
    case False
    then show ?thesis
      using assms b fl ref
      by (cases gone) (auto simp: sv_OnWrite_def sv_set_def sv_DeRefClient_def sv_release_def intro: exI [of _ c'])
  qed
  then obtain sv1 c1 where w: "sv_OnWrite alloc ?send ?again ?ev k sv = Some sv1" "nc_flag c1 = nc_flag c"
      "sv_sessRef sv1 = sv_sessRef sv"
      "sv_heap sv1 = (sv_heap sv)(k \<mapsto> c1)"
      "sv_clientMap sv1 = sv_clientMap sv \<or>
       nc_isclose c1 \<and> k \<in> sv_sessRef sv \<and> sv_clientMap sv1 = filter (\<lambda>j. j \<noteq> k) (sv_clientMap sv)" by blast
  let ?c2 = "if \<not> nc_isclose c1 \<and> sb_GetSize (nc_out c1) = 0 then nc_CloseSocket c1 else c1"
  let ?sv2 = "if \<not> nc_isclose c1 \<and> sb_GetSize (nc_out c1) = 0 then sv_set k (nc_CloseSocket c1) sv1 else sv1"
  have "sv_check_one alloc env k sv = Some ?sv2"
    using E_CLOSE_ASYNC_FLAG_FLUSH_CLOSE w assms by (simp add: sv_check_one_def)
  moreover have "checked c ?c2"
    using E_CLOSE_ASYNC_FLAG_FLUSH_CLOSE w by (auto simp: checked_def sb_GetSize_def)
  ultimately show ?thesis
    using w by (intro exI [of _ ?sv2] exI [of _ ?c2]) (auto simp: sv_set_def)
qed

lemma check_loop_checked:
  assumes "alloc_total alloc" "distinct ks" "set ks \<subseteq> set (sv_clientMap sv)"
    and "\<forall>k \<in> set ks. \<exists>c. sv_heap sv k = Some c \<and> client_ok c \<and>
           (nc_flag c = E_CLOSE_ASYNC_FLAG_FLUSH_CLOSE \<longrightarrow> k \<in> sv_sessRef sv)"
  shows "\<exists>sv'. sv_check_loop alloc env ks sv = Some sv' \<and> sv_sessRef sv' = sv_sessRef sv \<and>
           (\<forall>k. k \<notin> set ks \<longrightarrow> sv_heap sv' k = sv_heap sv k) \<and>
           (\<forall>k \<in> set ks. \<exists>c c'. sv_heap sv k = Some c \<and> sv_heap sv' k = Some c' \<and> checked c c') \<and>
           set (sv_clientMap sv') \<subseteq> set (sv_clientMap sv) \<and>
           (\<forall>k \<in> set (sv_clientMap sv) - set (sv_clientMap sv'). sv_is_closed sv' k \<and> k \<in> sv_sessRef sv)"
  using assms
proof (induction ks arbitrary: sv)
  case (Cons k ks)
  then obtain c where c: "sv_heap sv k = Some c" "client_ok c"
      "nc_flag c = E_CLOSE_ASYNC_FLAG_FLUSH_CLOSE \<longrightarrow> k \<in> sv_sessRef sv" by auto
  have "k \<in> set (sv_clientMap sv)" using Cons.prems(3) by simp
  from check_one_checked [OF Cons.prems(1) this c, of env] obtain sv1 c1 where
    one: "sv_check_one alloc env k sv = Some sv1" "checked c c1" "sv_sessRef sv1 = sv_sessRef sv" "sv_heap sv1 = (sv_heap sv)(k \<mapsto> c1)"
      "sv_clientMap sv1 = sv_clientMap sv \<or>
       nc_isclose c1 \<and> k \<in> sv_sessRef sv \<and> sv_clientMap sv1 = filter (\<lambda>j. j \<noteq> k) (sv_clientMap sv)" by blast
  have "set ks \<subseteq> set (sv_clientMap sv1)" "\<forall>k \<in> set ks. \<exists>c. sv_heap sv1 k = Some c \<and> client_ok c \<and>
      (nc_flag c = E_CLOSE_ASYNC_FLAG_FLUSH_CLOSE \<longrightarrow> k \<in> sv_sessRef sv1)"
    using Cons.prems one by auto
  from Cons.IH [OF Cons.prems(1) _ this] Cons.prems(2) obtain sv' where
    rest: "sv_check_loop alloc env ks sv1 = Some sv'" "sv_sessRef sv' = sv_sessRef sv1"
      "\<forall>j. j \<notin> set ks \<longrightarrow> sv_heap sv' j = sv_heap sv1 j"
      "\<forall>j \<in> set ks. \<exists>c c'. sv_heap sv1 j = Some c \<and> sv_heap sv' j = Some c' \<and> checked c c'"
      "set (sv_clientMap sv') \<subseteq> set (sv_clientMap sv1)"
      "\<forall>j \<in> set (sv_clientMap sv1) - set (sv_clientMap sv'). sv_is_closed sv' j \<and> j \<in> sv_sessRef sv1" by auto
  have k: "sv_heap sv' k = Some c1" using rest(3) Cons.prems(2) one(4) by simp
  have "sv_is_closed sv' j \<and> j \<in> sv_sessRef sv" if "j \<in> set (sv_clientMap sv) - set (sv_clientMap sv')" for j
  proof (cases "j \<in> set (sv_clientMap sv1)")
    case False
    with that one(5) have "j = k \<and> nc_isclose c1 \<and> k \<in> sv_sessRef sv" by auto
    then show ?thesis using k by (simp add: sv_is_closed_def)
  qed (use that rest(6) one(3) in auto)
  moreover have "\<exists>c c'. sv_heap sv j = Some c \<and> sv_heap sv' j = Some c' \<and> checked c c'" if "j \<in> set (k # ks)" for j
    using that rest(4) Cons.prems(2) k c one(2,4) by (cases "j = k") auto
  ultimately show ?case using one rest by auto
qed simp

text \<open>The second loop: what it drops and what it deletes.\<close>

lemma check_pass_kept:
  assumes before: "\<forall>k \<in> M. \<exists>c c'. sv_heap sv k = Some c \<and> sv_heap sv1 k = Some c' \<and> checked c c'"
    and "set (sv_clientMap sv1) \<subseteq> M"
    and gone: "\<forall>k \<in> M - set (sv_clientMap sv1). sv_is_closed sv1 k \<and> k \<in> R"
    and m: "sv_clientMap sv' = filter (\<lambda>k. \<not> sv_is_closed sv1 k) (sv_clientMap sv1)"
    and h: "sv_heap sv' = (\<lambda>k. if k \<in> set (sv_clientMap sv1) \<and> sv_is_closed sv1 k \<and> k \<notin> R then None else sv_heap sv1 k)"
  shows "k \<in> set (sv_clientMap sv') \<Longrightarrow> \<exists>c c'. sv_heap sv k = Some c \<and> sv_heap sv' k = Some c' \<and>
      \<not> nc_isclose c' \<and> nc_flag c \<noteq> E_CLOSE_ASYNC_FLAG_DIRECT_CLOSE \<and>
      (nc_flag c = E_CLOSE_ASYNC_FLAG_FLUSH_CLOSE \<longrightarrow> 0 < sb_GetSize (nc_out c'))"
    and "k \<in> M \<Longrightarrow> sv_heap sv k = Some c \<Longrightarrow> nc_flag c = E_CLOSE_ASYNC_FLAG_NULL \<Longrightarrow> \<not> nc_isclose c \<Longrightarrow>
      k \<in> set (sv_clientMap sv') \<and> sv_heap sv' k = Some c"
    and "k \<in> M - set (sv_clientMap sv') \<Longrightarrow> sv_heap sv' k = None \<longleftrightarrow> k \<notin> R"
proof -
  assume "k \<in> set (sv_clientMap sv')"
  then have k: "k \<in> set (sv_clientMap sv1)" "\<not> sv_is_closed sv1 k" using m by auto
  with assms(2) before obtain c c' where "sv_heap sv k = Some c" "sv_heap sv1 k = Some c'" "checked c c'" by blast
  with k show "\<exists>c c'. sv_heap sv k = Some c \<and> sv_heap sv' k = Some c' \<and>
      \<not> nc_isclose c' \<and> nc_flag c \<noteq> E_CLOSE_ASYNC_FLAG_DIRECT_CLOSE \<and>
      (nc_flag c = E_CLOSE_ASYNC_FLAG_FLUSH_CLOSE \<longrightarrow> 0 < sb_GetSize (nc_out c'))"
    by (auto simp: h checked_def sv_is_closed_def split: close_async_flag.splits)
next
  assume k: "k \<in> M" "sv_heap sv k = Some c" "nc_flag c = E_CLOSE_ASYNC_FLAG_NULL" "\<not> nc_isclose c"
  then have "sv_heap sv1 k = Some c" using before by (fastforce simp: checked_def)
  moreover from this k(4) have "\<not> sv_is_closed sv1 k" by (simp add: sv_is_closed_def)
  ultimately show "k \<in> set (sv_clientMap sv') \<and> sv_heap sv' k = Some c"
    using k(1) gone m h by auto
next
  assume k: "k \<in> M - set (sv_clientMap sv')"
  then obtain c' where "sv_heap sv1 k = Some c'" using before by blast
  with k gone m show "sv_heap sv' k = None \<longleftrightarrow> k \<notin> R" by (auto simp: h)
qed

text \<open>
  A connection that was asked to flush, with no session left to hold it: when the peer is gone the write
  drops the last pointer, and the pass uses the object after that.
\<close>

lemma flush_after_last_pointer:
  assumes "alloc_total alloc" "k \<in> set (sv_clientMap sv)" "sv_heap sv k = Some c" "client_ok c"
    and "nc_flag c = E_CLOSE_ASYNC_FLAG_FLUSH_CLOSE" "k \<notin> sv_sessRef sv"
    and "nc_OnWrite alloc c = Some c1" "sb_ok (nc_out c1)" "0 < sb_GetSize (nc_out c1)"
    and "env k = \<lparr>io_send = (\<lambda>_. -1), io_again = False, io_event = ev\<rparr>"
  shows "sv_check_one alloc env k sv = None"
proof -
  have "sv_flush (\<lambda>_. -1) False ev c1 = Some (nc_CloseSocket c1, True)"
    using sb_Sends_bytes [OF assms(8), of "\<lambda>_. -1"] assms(9)
    by (subst sv_flush.simps) (auto simp: Let_def)
  then have "\<exists>sv1. sv_OnWrite alloc (\<lambda>_. -1) False ev k sv = Some sv1 \<and> sv_heap sv1 k = None"
    using assms(2,3,6,7,9)
    by (auto simp: sv_OnWrite_def sv_close_deref_def sv_DeRefClient_def sv_release_def sv_set_def)
  then show ?thesis
    using assms(3,5,10) by (auto simp: sv_check_one_def)
qed

section \<open>Properties\<close>

text \<open>
  C3: packets queued on one connection arrive on another in order and unchanged: \<^verbatim>\<open>OnWrite\<close>
  appends their frames to the output buffer, and however the byte stream is cut into non-empty pieces
  of at most 4096 bytes, \<^verbatim>\<open>SockRead\<close> and \<^verbatim>\<open>OnRead\<close> hand the session exactly these packets and leave
  no byte behind. It holds for packets whose opcode is below 65536 and whose body has at most 65531
  bytes (both are sent in 16 bits), whose frames make at most \<open>2 ^ 40\<close> bytes together with the read
  ones the output buffer still holds in front, when the allocator never fails, the output buffer of
  the sender is well formed and empty, and the receiving connection has just been accepted.
\<close>

theorem packets_cross_connection:
  assumes "alloc_total alloc" "sb_ok (nc_out s)" "sb_bytes (nc_out s) = []"
    and "list_all packet_ok (nc_sendQueue s)"
    and "sb_misalign (nc_out s) + length (concat (map (frame_bytes \<circ> packet_frame) (nc_sendQueue s))) \<le> 2 ^ 40"
    and "concat chs = concat (map (frame_bytes \<circ> packet_frame) (nc_sendQueue s))"
    and "\<forall>ch \<in> set chs. ch \<noteq> [] \<and> length ch \<le> 4096"
    and "sv_heap sv k = Some (nc_OnAccept n (nc_new alloc fd))"
  shows "\<exists>s' c' sv'. nc_OnWrite alloc s = Some s' \<and> nc_sendQueue s' = [] \<and> sb_bytes (nc_out s') = concat chs \<and>
           sv_reads alloc chs k sv = Some sv' \<and> sv_heap sv' k = Some c' \<and>
           map packet_frame (nc_recv c') = map packet_frame (nc_sendQueue s) \<and> sb_bytes (nc_in c') = []"
proof -
  let ?fs = "map packet_frame (nc_sendQueue s)"
  have off: "sb_off (nc_out s) = 0" using length_sb_bytes [OF assms(2)] assms(3) by simp
  then obtain b where w: "nc_OnWrite alloc s = Some (s\<lparr>nc_sendQueue := [], nc_out := b\<rparr>)" "sb_bytes b = concat chs"
    using OnWrite_frames [OF assms(2,1,4)] assms(3,5,6) by auto
  obtain c' sv' where r: "sv_reads alloc chs k sv = Some sv'" "sv_heap sv' k = Some c'"
      and rec: "nc_received (concat chs) c'"
    using reads_received [OF assms(8) nc_received_new [OF assms(1)] assms(1,7)] assms(5,6) by auto
  have fok: "list_all frame_ok ?fs"
    using assms(4) by (simp add: list_all_iff packet_ok_def)
  then have split: "split_frames (concat chs) = (?fs, [])"
    using split_frames_all [OF fok] assms(6) by (simp add: comp_def)
  have mk: "packet_frame ((\<lambda>(cmd, body). mk_packet cmd body) f) = f" if "f \<in> set ?fs" for f
    using that fok mk_packet_frame(1) [of "fst f" "snd f"] by (auto simp: list_all_iff case_prod_unfold)
  have "map (\<lambda>f. packet_frame ((\<lambda>(cmd, body). mk_packet cmd body) f)) ?fs = ?fs"
    by (rule map_idI) (rule mk)
  moreover have "nc_recv c' = map (\<lambda>(cmd, body). mk_packet cmd body) ?fs"
    using rec split by (simp only: nc_received_def fst_conv)
  ultimately have "map packet_frame (nc_recv c') = ?fs" by (simp add: comp_def)
  then show ?thesis
    using w r rec split by (auto simp: nc_received_def)
qed

theorem packets_cross_connection_witness:
  "\<exists>s' c' sv'. nc_OnWrite zero_alloc ((nc_new zero_alloc 3)\<lparr>nc_sendQueue := [mk_packet 7 [1, 2], mk_packet 9 []]\<rparr>) = Some s' \<and>
     nc_sendQueue s' = [] \<and> sb_bytes (nc_out s') = [6, 0, 7, 0, 1, 2, 4, 0, 9, 0] \<and>
     sv_reads zero_alloc [[6, 0, 7], [0, 1, 2, 4, 0], [9, 0]] 5
       (sv_set 5 (nc_OnAccept 0 (nc_new zero_alloc 4)) sv_new) = Some sv' \<and> sv_heap sv' 5 = Some c' \<and>
     map packet_frame (nc_recv c') = [(7, [1, 2]), (9, [])] \<and> sb_bytes (nc_in c') = []"
proof -
  let ?q = "[mk_packet 7 [1, 2], mk_packet 9 []]"
  let ?s = "(nc_new zero_alloc 3)\<lparr>nc_sendQueue := ?q\<rparr>"
  let ?sv = "sv_set 5 (nc_OnAccept 0 (nc_new zero_alloc 4)) sv_new"
  have f: "frame_ok (7, [1, 2])" "frame_ok (9, [])" by (simp_all add: frame_ok_def)
  note pk = mk_packet_frame [OF f(1)] mk_packet_frame [OF f(2)]
  have bytes: "concat (map (frame_bytes \<circ> packet_frame) ?q) = [6, 0, 7, 0, 1, 2, 4, 0, 9, 0]"
    by (simp add: pk frame_bytes_def numeral_2_eq_2)
  have out: "sb_ok (nc_out ?s)" "sb_bytes (nc_out ?s) = []" "sb_misalign (nc_out ?s) = 0" "nc_sendQueue ?s = ?q"
    by (simp_all add: nc_new_out zero_alloc_total)
  have "sb_misalign (nc_out ?s) + length (concat (map (frame_bytes \<circ> packet_frame) (nc_sendQueue ?s))) \<le> 2 ^ 40"
    "concat [[6, 0, 7], [0, 1, 2, 4, 0], [9, 0]] = concat (map (frame_bytes \<circ> packet_frame) (nc_sendQueue ?s))"
    unfolding out bytes by simp_all
  moreover have "list_all packet_ok (nc_sendQueue ?s)" using pk by simp
  moreover have "sv_heap ?sv 5 = Some (nc_OnAccept 0 (nc_new zero_alloc 4))" by (simp add: sv_set_def)
  ultimately show ?thesis
    using packets_cross_connection [OF zero_alloc_total out(1,2), of "[[6, 0, 7], [0, 1, 2, 4, 0], [9, 0]]" ?sv 5 0 4] pk
    by simp
qed

text \<open>
  C12: the periodic closing pass completes when the table is consistent, the allocator never fails and
  every connection that was asked to flush before it closes is still held by its session: no object is
  used after its last pointer is gone. Afterwards every connection left in the table is open, none of
  them was asked to close at once, one that was asked to flush still has bytes to send, and every open
  connection that was not asked to close is untouched; an entry that left the table has its object
  deleted exactly when no session holds it any more.
\<close>

theorem check_close_socket:
  assumes "sv_ok sv" "alloc_total alloc"
    and "\<forall>k \<in> set (sv_clientMap sv). \<forall>c. sv_heap sv k = Some c \<and> nc_flag c = E_CLOSE_ASYNC_FLAG_FLUSH_CLOSE \<longrightarrow>
           k \<in> sv_sessRef sv"
  shows "\<exists>sv'. sv_CheckCloseSocket alloc env sv = Some sv' \<and> set (sv_clientMap sv') \<subseteq> set (sv_clientMap sv) \<and>
           (\<forall>k \<in> set (sv_clientMap sv'). \<exists>c c'. sv_heap sv k = Some c \<and> sv_heap sv' k = Some c' \<and>
              \<not> nc_isclose c' \<and> nc_flag c \<noteq> E_CLOSE_ASYNC_FLAG_DIRECT_CLOSE \<and>
              (nc_flag c = E_CLOSE_ASYNC_FLAG_FLUSH_CLOSE \<longrightarrow> 0 < sb_GetSize (nc_out c'))) \<and>
           (\<forall>k \<in> set (sv_clientMap sv). \<forall>c. sv_heap sv k = Some c \<and> nc_flag c = E_CLOSE_ASYNC_FLAG_NULL \<and>
              \<not> nc_isclose c \<longrightarrow> k \<in> set (sv_clientMap sv') \<and> sv_heap sv' k = Some c) \<and>
           (\<forall>k \<in> set (sv_clientMap sv) - set (sv_clientMap sv'). sv_heap sv' k = None \<longleftrightarrow> k \<notin> sv_sessRef sv)"
proof -
  obtain sv1 where loop: "sv_check_loop alloc env (sv_clientMap sv) sv = Some sv1"
      "\<forall>k \<in> set (sv_clientMap sv). \<exists>c c'. sv_heap sv k = Some c \<and> sv_heap sv1 k = Some c' \<and> checked c c'"
      "set (sv_clientMap sv1) \<subseteq> set (sv_clientMap sv)"
      "\<forall>k \<in> set (sv_clientMap sv) - set (sv_clientMap sv1). sv_is_closed sv1 k \<and> k \<in> sv_sessRef sv" "sv_sessRef sv1 = sv_sessRef sv"
    using check_loop_checked [of alloc "sv_clientMap sv" sv env] assms by (fastforce simp: sv_ok_def)
  obtain sv' where pass: "sv_CheckCloseSocket alloc env sv = Some sv'"
      "sv_clientMap sv' = filter (\<lambda>k. \<not> sv_is_closed sv1 k) (sv_clientMap sv1)"
      "sv_heap sv' = (\<lambda>k. if k \<in> set (sv_clientMap sv1) \<and> sv_is_closed sv1 k \<and> k \<notin> sv_sessRef sv
                         then None else sv_heap sv1 k)"
    using loop(1,5) by (auto simp: sv_CheckCloseSocket_def)
  note kept = check_pass_kept [OF loop(2,3,4) pass(2,3)]
  show ?thesis
    using pass(1) kept loop(3) pass(2) by (intro exI [of _ sv'] conjI) auto
qed

theorem check_close_socket_witness:
  "\<exists>sv'. sv_CheckCloseSocket zero_alloc (\<lambda>_. \<lparr>io_send = (\<lambda>bs. -1), io_again = True, io_event = True\<rparr>)
       (sv_set 5 (nc_CloseSocketAsync E_CLOSE_ASYNC_FLAG_DIRECT_CLOSE (nc_new zero_alloc 8))
         (sv_set 6 (nc_new zero_alloc 9) (sv_new\<lparr>sv_clientMap := [5, 6]\<rparr>))) = Some sv' \<and>
     set (sv_clientMap sv') = {6} \<and> sv_heap sv' 5 = None \<and> sv_heap sv' 6 = Some (nc_new zero_alloc 9)"
proof -
  let ?d = "nc_CloseSocketAsync E_CLOSE_ASYNC_FLAG_DIRECT_CLOSE (nc_new zero_alloc 8)"
  let ?n = "nc_new zero_alloc 9"
  let ?sv = "sv_set 5 ?d (sv_set 6 ?n (sv_new\<lparr>sv_clientMap := [5, 6]\<rparr>))"
  let ?env = "\<lambda>_ :: nat. \<lparr>io_send = (\<lambda>bs. -1), io_again = True, io_event = True\<rparr>"
  have new: "client_ok ?d" "client_ok ?n"
    using nc_new_out [OF zero_alloc_total]
    by (simp_all add: client_ok_def nc_CloseSocketAsync_def sb_ok_def) (simp_all add: nc_new_def)
  then have ok: "sv_ok ?sv" by (simp add: sv_ok_def sv_set_def)
  have heap: "sv_heap ?sv 5 = Some ?d" "sv_heap ?sv 6 = Some ?n" "set (sv_clientMap ?sv) = {5, 6}"
    by (simp_all add: sv_set_def)
  have flags: "nc_flag ?d = E_CLOSE_ASYNC_FLAG_DIRECT_CLOSE" "nc_flag ?n = E_CLOSE_ASYNC_FLAG_NULL" "\<not> nc_isclose ?n"
    by (simp_all add: nc_CloseSocketAsync_def nc_new_def)
  have held: "\<forall>k \<in> set (sv_clientMap ?sv). \<forall>c. sv_heap ?sv k = Some c \<and> nc_flag c = E_CLOSE_ASYNC_FLAG_FLUSH_CLOSE \<longrightarrow>
      k \<in> sv_sessRef ?sv"
    unfolding heap(3) using heap(1,2) flags by auto
  from check_close_socket [OF ok zero_alloc_total held, of ?env, unfolded heap(3)] obtain sv' where
    sv': "sv_CheckCloseSocket zero_alloc ?env ?sv = Some sv'" "set (sv_clientMap sv') \<subseteq> {5, 6}"
    and left: "\<forall>k \<in> set (sv_clientMap sv'). \<exists>c c'. sv_heap ?sv k = Some c \<and> sv_heap sv' k = Some c' \<and>
        \<not> nc_isclose c' \<and> nc_flag c \<noteq> E_CLOSE_ASYNC_FLAG_DIRECT_CLOSE \<and>
        (nc_flag c = E_CLOSE_ASYNC_FLAG_FLUSH_CLOSE \<longrightarrow> 0 < sb_GetSize (nc_out c'))"
    and same: "\<forall>k \<in> {5, 6}. \<forall>c. sv_heap ?sv k = Some c \<and> nc_flag c = E_CLOSE_ASYNC_FLAG_NULL \<and> \<not> nc_isclose c \<longrightarrow>
        k \<in> set (sv_clientMap sv') \<and> sv_heap sv' k = Some c"
    and gone: "\<forall>k \<in> {5, 6} - set (sv_clientMap sv'). sv_heap sv' k = None \<longleftrightarrow> k \<notin> sv_sessRef ?sv" by blast
  have "5 \<notin> set (sv_clientMap sv')"
  proof
    assume "5 \<in> set (sv_clientMap sv')"
    with left obtain c where "sv_heap ?sv 5 = Some c" "nc_flag c \<noteq> E_CLOSE_ASYNC_FLAG_DIRECT_CLOSE" by blast
    with heap(1) flags(1) show False by simp
  qed
  moreover from this gone have "sv_heap sv' 5 = None" by (simp add: sv_set_def sv_new_def)
  moreover have "6 \<in> set (sv_clientMap sv') \<and> sv_heap sv' 6 = Some ?n" using same heap(2) flags(2,3) by blast
  ultimately show ?thesis using sv'(1,2) by (intro exI [of _ sv']) auto
qed

end
