(* ===== verification/Relay_Client.thy ===== *)
theory Relay_Client
  imports Net_Client
begin

text \<open>
  \<^verbatim>\<open>CClient\<close> (pitayaserver/framework/Client.h and Client.cpp): the outgoing connection to the relay
  server, with its reconnect timer and its own copy of the framing loop.

  The answers of the system calls during \<^verbatim>\<open>Connect\<close> are a \<open>conn_env\<close>. \<open>cl_recv\<close> is the receive
  queue of the session passed to the constructor, \<open>cl_notified\<close> counts the calls of the
  application's \<^verbatim>\<open>handlerOnConnect\<close>, which is not part of this class. The connection is a state
  machine whose events are the libevent callbacks of the network thread, one step each, and the steps of
  \<^verbatim>\<open>SendPacket\<close>, which other threads run: its test of the connection, the queue, \<^verbatim>\<open>event_del\<close> and
  \<^verbatim>\<open>event_add\<close> are steps of their own, and anything may happen between them. Any \<^verbatim>\<open>event_add\<close> or
  \<^verbatim>\<open>evtimer_add\<close> may fail. \<^verbatim>\<open>event_set\<close> on an event that is still pending is undefined in libevent
  (its documentation says so) and is \<^const>\<open>None\<close>.
\<close>

section \<open>State\<close>

text \<open>Where a call of \<^verbatim>\<open>SendPacket\<close> stands once its test has found the connection open.\<close>

datatype cl_sender =
    Sn_Checked world_packet
  | Sn_Queued
  | Sn_Deleted

record client =
  cl_in :: sock_buffer
  cl_out :: sock_buffer
  cl_recv :: "world_packet list"
  cl_connected :: bool
  cl_host :: string
  cl_port :: int
  cl_reconnect :: int
  cl_fd :: int
  cl_sendQueue :: "world_packet list"
  cl_ev_read :: bool
  cl_ev_write :: bool
  cl_timer :: bool
  cl_looping :: bool
  cl_notified :: nat
  cl_senders :: "cl_sender list"

record conn_env =
  ce_socket :: int
  ce_connect_ok :: bool
  ce_nonblock_ok :: bool
  ce_event_ok :: bool
  ce_timer_ok :: bool

definition cl_new :: "allocator \<Rightarrow> client" where
  "cl_new alloc =
     \<lparr>cl_in = sb_Init alloc sb_construct, cl_out = sb_Init alloc sb_construct, cl_recv = [], cl_connected = False,
      cl_host = [], cl_port = 0, cl_reconnect = 1, cl_fd = 0, cl_sendQueue = [], cl_ev_read = False,
      cl_ev_write = False, cl_timer = False, cl_looping = False, cl_notified = 0, cl_senders = []\<rparr>"

text \<open>The result of \<^verbatim>\<open>evtimer_add\<close> is not looked at; without it there is no timer.\<close>

definition cl_Init :: "bool \<Rightarrow> int \<Rightarrow> client \<Rightarrow> client" where
  "cl_Init timer_ok nReConnectTime c = c\<lparr>cl_timer := timer_ok, cl_reconnect := nReConnectTime\<rparr>"

definition cl_StartClient :: "client \<Rightarrow> client" where
  "cl_StartClient c = c\<lparr>cl_looping := True\<rparr>"

definition cl_EndClient :: "client \<Rightarrow> client" where
  "cl_EndClient c = c\<lparr>cl_looping := False\<rparr>"

section \<open>Connecting\<close>

definition cl_CloseClient :: "client \<Rightarrow> client" where
  "cl_CloseClient c = c\<lparr>cl_connected := False, cl_ev_read := False, cl_ev_write := False\<rparr>"

definition cl_Connect :: "conn_env \<Rightarrow> string \<Rightarrow> int \<Rightarrow> client \<Rightarrow> (bool \<times> client) option" where
  "cl_Connect e host port c =
     (let c = c\<lparr>cl_host := host, cl_port := port, cl_fd := ce_socket e\<rparr> in
      if ce_socket e < 0 then Some (False, c)
      else if cl_ev_read c \<or> cl_ev_write c then None
      else if \<not> ce_connect_ok e then Some (False, cl_CloseClient c)
      else if \<not> ce_nonblock_ok e then Some (False, cl_CloseClient c)
      else if \<not> ce_event_ok e then Some (False, cl_CloseClient c)
      else Some (True, c\<lparr>cl_ev_read := True, cl_connected := True\<rparr>))"

definition cl_ReConnect :: "conn_env \<Rightarrow> client \<Rightarrow> (bool \<times> client) option" where
  "cl_ReConnect e c = cl_Connect e (cl_host c) (cl_port c) c"

definition cl_OnTimer :: "bool \<Rightarrow> conn_env \<Rightarrow> client \<Rightarrow> client option" where
  "cl_OnTimer stopEvent e c =
     (let c = c\<lparr>cl_timer := False\<rparr> in
      if stopEvent then Some (cl_EndClient c)
      else do {
        c \<leftarrow> (if \<not> cl_connected c
              then map_option (\<lambda>(_, c). c\<lparr>cl_notified := Suc (cl_notified c)\<rparr>) (cl_ReConnect e c)
              else Some c);
        Some (c\<lparr>cl_timer := ce_timer_ok e\<rparr>) })"

section \<open>Receiving\<close>

text \<open>
  The loop of \<^verbatim>\<open>OnRead()\<close>. Unlike \<^verbatim>\<open>CNetClient\<close> it does not check that the size covers the
  header: \<^verbatim>\<open>wRemaining\<close> is then a 32-bit value just below \<open>2 ^ 32\<close>, and the copy of the body leaves
  the input buffer, which never holds that much (\<open>OnRead\<close> is called after reads of at most
  4096 bytes and the size field has 16 bits).
\<close>

function cl_read_loop :: "byte list \<Rightarrow> nat \<Rightarrow> client \<Rightarrow> (nat \<times> client) option" where
  "cl_read_loop pData nParsed c =
     (if length pData < hdr_len then Some (nParsed, c)
      else
        let wLen = hdr_size pData in
        if wLen > length pData then Some (nParsed, c)
        else
          let wRemaining = unat (word_of_nat wLen - word_of_nat hdr_len :: uint32) in
          if length pData < hdr_len + wRemaining \<or> wLen < hdr_len then None
          else
            let packet = mk_packet (hdr_cmd pData) (take wRemaining (drop hdr_len pData))
            in cl_read_loop (drop wLen pData) (nParsed + wLen) (c\<lparr>cl_recv := cl_recv c @ [packet]\<rparr>))"
  by pat_completeness auto
termination
  by (relation "measure (\<lambda>(pData, _, _). length pData)") (auto simp: hdr_len_def)

declare cl_read_loop.simps [simp del]

definition cl_OnRead_data :: "client \<Rightarrow> client option" where
  "cl_OnRead_data c =
     do { pData \<leftarrow> sb_GetBuffer (cl_in c);
          if length pData < hdr_len then Some c
          else do {
            (nParsed, c) \<leftarrow> cl_read_loop pData 0 c;
            Some (if nParsed > 0 then c\<lparr>cl_in := sb_Erase nParsed (cl_in c)\<rparr> else c) } }"

definition cl_OnRead :: "allocator \<Rightarrow> (nat \<Rightarrow> byte list option) \<Rightarrow> bool \<Rightarrow> client \<Rightarrow> client option" where
  "cl_OnRead alloc recv again c =
     do { (len, b) \<leftarrow> sb_SockRead alloc recv (-1) (cl_in c);
          let c = c\<lparr>cl_in := b\<rparr>;
          if len = 0 then Some (cl_CloseClient c)
          else if len < 0 \<and> \<not> again then Some (cl_CloseClient c)
          else cl_OnRead_data c }"

section \<open>Sending\<close>

text \<open>\<open>SendPacket\<close> when nothing comes between its steps, and the steps.\<close>

definition cl_SendPacket :: "bool \<Rightarrow> world_packet \<Rightarrow> client \<Rightarrow> client" where
  "cl_SendPacket event_ok packet c =
     (if \<not> cl_connected c then c
      else
        let c = c\<lparr>cl_sendQueue := cl_sendQueue c @ [packet], cl_ev_write := False\<rparr>
        in if \<not> event_ok then cl_CloseClient c else c\<lparr>cl_ev_write := True\<rparr>)"

definition cl_send_start :: "world_packet \<Rightarrow> client \<Rightarrow> client" where
  "cl_send_start packet c =
     (if \<not> cl_connected c then c else c\<lparr>cl_senders := cl_senders c @ [Sn_Checked packet]\<rparr>)"

definition cl_send_step :: "nat \<Rightarrow> bool \<Rightarrow> client \<Rightarrow> client" where
  "cl_send_step i event_ok c =
     (case cl_senders c ! i of
        Sn_Checked packet \<Rightarrow>
          c\<lparr>cl_sendQueue := cl_sendQueue c @ [packet], cl_senders := (cl_senders c)[i := Sn_Queued]\<rparr>
      | Sn_Queued \<Rightarrow> c\<lparr>cl_ev_write := False, cl_senders := (cl_senders c)[i := Sn_Deleted]\<rparr>
      | Sn_Deleted \<Rightarrow>
          let c = c\<lparr>cl_senders := take i (cl_senders c) @ drop (Suc i) (cl_senders c)\<rparr>
          in if \<not> event_ok then cl_CloseClient c else c\<lparr>cl_ev_write := True\<rparr>)"

lemma send_steps_undisturbed:
  assumes "cl_connected c"
  shows "cl_SendPacket ok p c =
     (let i = length (cl_senders c)
      in cl_send_step i ok (cl_send_step i ok (cl_send_step i ok (cl_send_start p c))))"
  using assms by (simp add: cl_SendPacket_def cl_send_start_def cl_send_step_def Let_def cl_CloseClient_def)

definition cl_SendSinglePacket :: "allocator \<Rightarrow> client \<Rightarrow> client option" where
  "cl_SendSinglePacket alloc c =
     (case cl_sendQueue c of
        [] \<Rightarrow> None
      | packet # q \<Rightarrow>
          do { contents \<leftarrow> bb_contents (bb_size packet) packet;
               (_, out) \<leftarrow> sb_Append alloc (hdr_bytes packet) (cl_out c);
               (_, out) \<leftarrow> (if \<not> bb_empty packet then sb_Append alloc contents out else Some (0, out));
               Some (c\<lparr>cl_sendQueue := q, cl_out := out\<rparr>) })"

lemma cl_SendSinglePacket_shorter:
  "cl_SendSinglePacket alloc c = Some c' \<Longrightarrow> length (cl_sendQueue c') < length (cl_sendQueue c)"
  by (auto simp: cl_SendSinglePacket_def split: list.splits bind_splits if_splits)

function cl_OnWrite_queue :: "allocator \<Rightarrow> client \<Rightarrow> client option" where
  "cl_OnWrite_queue alloc c =
     (if cl_sendQueue c = [] then Some c
      else (case cl_SendSinglePacket alloc c of None \<Rightarrow> None | Some c' \<Rightarrow> cl_OnWrite_queue alloc c'))"
  by pat_completeness auto
termination
  by (relation "measure (\<lambda>(_, c). length (cl_sendQueue c))") (auto dest: cl_SendSinglePacket_shorter)

declare cl_OnWrite_queue.simps [simp del]

text \<open>The write event is not persistent: libevent has removed it when the handler runs.\<close>

definition cl_OnWrite :: "allocator \<Rightarrow> (byte list \<Rightarrow> int) \<Rightarrow> bool \<Rightarrow> bool \<Rightarrow> client \<Rightarrow> client option" where
  "cl_OnWrite alloc send again event_ok c =
     do { c \<leftarrow> cl_OnWrite_queue alloc (c\<lparr>cl_ev_write := False\<rparr>);
          if sb_GetSize (cl_out c) = 0 then Some c
          else do {
            (len, b) \<leftarrow> sb_Sends send (cl_out c);
            let c = c\<lparr>cl_out := b\<rparr>;
            if len = 0 then Some (cl_CloseClient c)
            else if len < 0 \<and> \<not> again then Some (cl_CloseClient c)
            else if sb_GetSize (cl_out c) > 0
            then Some (if \<not> event_ok then cl_CloseClient c else c\<lparr>cl_ev_write := True\<rparr>)
            else Some c } }"

section \<open>The connection as a state machine\<close>

datatype cl_event =
    Cl_Connect conn_env string int
  | Cl_Timer bool conn_env
  | Cl_Readable "nat \<Rightarrow> byte list option" bool
  | Cl_Writable "byte list \<Rightarrow> int" bool bool
  | Cl_SendStart world_packet
  | Cl_SendStep nat bool

fun cl_handle :: "allocator \<Rightarrow> cl_event \<Rightarrow> client \<Rightarrow> client option" where
  "cl_handle alloc (Cl_Connect e host port) c = map_option snd (cl_Connect e host port c)"
| "cl_handle alloc (Cl_Timer stop e) c = cl_OnTimer stop e c"
| "cl_handle alloc (Cl_Readable recv again) c = cl_OnRead alloc recv again c"
| "cl_handle alloc (Cl_Writable send again ev) c = cl_OnWrite alloc send again ev c"
| "cl_handle alloc (Cl_SendStart p) c = Some (cl_send_start p c)"
| "cl_handle alloc (Cl_SendStep i ev) c = Some (cl_send_step i ev c)"

text \<open>
  libevent delivers an event only while it is armed; \<^verbatim>\<open>Connect\<close> itself runs at start-up, on a
  client that is not connected.
\<close>

fun cl_enabled :: "cl_event \<Rightarrow> client \<Rightarrow> bool" where
  "cl_enabled (Cl_Connect e host port) c = (\<not> cl_connected c)"
| "cl_enabled (Cl_Timer stop e) c = cl_timer c"
| "cl_enabled (Cl_Readable recv again) c = cl_ev_read c"
| "cl_enabled (Cl_Writable send again ev) c = cl_ev_write c"
| "cl_enabled (Cl_SendStart p) c = True"
| "cl_enabled (Cl_SendStep i ev) c = (i < length (cl_senders c))"

text \<open>
  Two assumptions a run may meet: every \<^verbatim>\<open>evtimer_add\<close> succeeds (\<open>tok\<close>), and the connection is not
  closed while a \<^verbatim>\<open>SendPacket\<close> is between its test and its \<^verbatim>\<open>event_add\<close>, nor by that (\<open>calm\<close>).
\<close>

fun cl_timer_added :: "cl_event \<Rightarrow> bool" where
  "cl_timer_added (Cl_Timer stop e) = (stop \<or> ce_timer_ok e)"
| "cl_timer_added ev = True"

definition cl_undisturbed :: "client \<Rightarrow> client \<Rightarrow> bool" where
  "cl_undisturbed c c' \<longleftrightarrow> (cl_connected c \<and> \<not> cl_connected c' \<longrightarrow> cl_senders c = [])"

inductive cl_step :: "allocator \<Rightarrow> bool \<Rightarrow> bool \<Rightarrow> client \<Rightarrow> client \<Rightarrow> bool" for alloc tok calm where
  step: "cl_enabled ev c \<Longrightarrow> cl_handle alloc ev c = Some c' \<Longrightarrow> (tok \<longrightarrow> cl_timer_added ev) \<Longrightarrow>
         (calm \<longrightarrow> cl_undisturbed c c') \<Longrightarrow> cl_step alloc tok calm c c'"

inductive cl_reach :: "allocator \<Rightarrow> int \<Rightarrow> bool \<Rightarrow> bool \<Rightarrow> client \<Rightarrow> bool" for alloc time tok calm where
  start: "(tok \<longrightarrow> timer_ok) \<Longrightarrow> cl_reach alloc time tok calm (cl_StartClient (cl_Init timer_ok time (cl_new alloc)))"
| more: "cl_reach alloc time tok calm c \<Longrightarrow> cl_step alloc tok calm c c' \<Longrightarrow> cl_reach alloc time tok calm c'"

inductive_cases cl_stepE: "cl_step alloc tok calm c c'"

definition cl_timer_inv :: "bool \<Rightarrow> client \<Rightarrow> bool" where
  "cl_timer_inv tok c \<longleftrightarrow> (cl_timer c \<longrightarrow> cl_looping c) \<and> (tok \<longrightarrow> cl_timer c = cl_looping c)"

definition cl_inv :: "client \<Rightarrow> bool" where
  "cl_inv c \<longleftrightarrow> (cl_connected c = cl_ev_read c) \<and> (cl_ev_write c \<longrightarrow> cl_connected c) \<and>
     (cl_connected c \<longrightarrow> 0 \<le> cl_fd c) \<and> (cl_senders c \<noteq> [] \<longrightarrow> cl_connected c)"

lemma cl_queue_fields:
  "cl_OnWrite_queue alloc c = Some c' \<Longrightarrow>
   cl_connected c' = cl_connected c \<and> cl_ev_read c' = cl_ev_read c \<and> cl_ev_write c' = cl_ev_write c \<and>
   cl_fd c' = cl_fd c \<and> cl_timer c' = cl_timer c \<and> cl_looping c' = cl_looping c \<and> cl_senders c' = cl_senders c"
proof (induction alloc c rule: cl_OnWrite_queue.induct)
  case (1 alloc c)
  show ?case
  proof (cases "cl_sendQueue c = []")
    case True
    with "1.prems" show ?thesis by (simp add: cl_OnWrite_queue.simps)
  next
    case False
    with "1.prems" obtain c1 where c1: "cl_SendSinglePacket alloc c = Some c1" "cl_OnWrite_queue alloc c1 = Some c'"
      by (subst (asm) cl_OnWrite_queue.simps) (auto split: option.splits)
    from c1(1) have "cl_connected c1 = cl_connected c \<and> cl_ev_read c1 = cl_ev_read c \<and> cl_ev_write c1 = cl_ev_write c \<and>
      cl_fd c1 = cl_fd c \<and> cl_timer c1 = cl_timer c \<and> cl_looping c1 = cl_looping c \<and> cl_senders c1 = cl_senders c"
      by (auto simp: cl_SendSinglePacket_def split: list.splits bind_splits if_splits)
    with "1.IH" [OF False c1] show ?thesis by simp
  qed
qed

definition bad_header :: "byte list \<Rightarrow> bool" where
  "bad_header bs \<longleftrightarrow> 4 \<le> length bs \<and> hdr_size bs < 4"

lemma hdr_size_less: "hdr_size bs < 2 ^ 16"
proof -
  have "le_dec (take 2 bs) < 256 ^ length (take 2 bs)" by (rule le_dec_bound)
  also have "\<dots> \<le> 256 ^ 2" by (rule power_increasing) auto
  finally show ?thesis by (simp add: hdr_size_def)
qed

lemma remaining: "4 \<le> hdr_size bs \<Longrightarrow> unat (word_of_nat (hdr_size bs) - word_of_nat hdr_len :: uint32) = hdr_size bs - 4"
proof -
  assume "4 \<le> hdr_size bs"
  then have "word_of_nat (hdr_size bs) - word_of_nat hdr_len = (word_of_nat (hdr_size bs - 4) :: uint32)"
    by (simp add: hdr_len_def of_nat_diff)
  then show ?thesis using hdr_size_less [of bs] by (simp add: unat_of_nat)
qed

lemma cl_loop_frames:
  "split_frames bs = (fs, rest) \<Longrightarrow>
   cl_read_loop bs n c =
     (if bad_header rest then None
      else Some (n + (length bs - length rest),
                 c\<lparr>cl_recv := cl_recv c @ map (\<lambda>(cmd, body). mk_packet cmd body) fs\<rparr>))"
proof (induction bs arbitrary: fs rest n c rule: split_frames.induct)
  case (1 bs)
  show ?case
  proof (cases "length bs < 4 \<or> hdr_size bs < 4 \<or> length bs < hdr_size bs")
    case True
    with "1.prems" show ?thesis
      by (auto simp: split_frames.simps cl_read_loop.simps hdr_len_def bad_header_def)
  next
    case False
    then obtain gs where gs: "split_frames (drop (hdr_size bs) bs) = (gs, rest)"
      and fs: "fs = (hdr_cmd bs, take (hdr_size bs - 4) (drop 4 bs)) # gs"
      using "1.prems" by (subst (asm) split_frames.simps) (auto split: prod.splits)
    have "length rest \<le> length (drop (hdr_size bs) bs)"
      using split_frames_rest [OF gs] by (metis length_append le_add2)
    moreover have "4 \<le> hdr_size bs" using False by simp
    note remaining [OF this]
    ultimately show ?thesis
      using False fs by (subst cl_read_loop.simps)
        (auto simp: hdr_len_def Let_def "1.IH" [OF False gs])
  qed
qed

lemma cl_loop_fields:
  assumes "cl_read_loop bs n c = Some (m, c')"
  shows "\<exists>q. c' = c\<lparr>cl_recv := q\<rparr>"
proof -
  obtain fs rest where "split_frames bs = (fs, rest)" by fastforce
  from cl_loop_frames [OF this, of n c] assms show ?thesis by (auto split: if_splits)
qed

lemma cl_inv_Connect:
  "cl_inv c \<Longrightarrow> \<not> cl_connected c \<Longrightarrow> cl_Connect e host port c = Some (ok, c') \<Longrightarrow> cl_inv c'"
  by (auto simp: cl_inv_def cl_Connect_def cl_CloseClient_def Let_def split: if_splits)

lemma cl_Connect_fields:
  "cl_Connect e host port c = Some (ok, c') \<Longrightarrow>
   cl_timer c' = cl_timer c \<and> cl_looping c' = cl_looping c \<and> cl_senders c' = cl_senders c \<and>
   cl_in c' = cl_in c \<and> cl_out c' = cl_out c"
  by (auto simp: cl_Connect_def cl_CloseClient_def Let_def split: if_splits)

lemma cl_inv_timer [simp]:
  "cl_inv (c\<lparr>cl_timer := b\<rparr>) = cl_inv c" "cl_inv (c\<lparr>cl_looping := b\<rparr>) = cl_inv c"
  "cl_inv (c\<lparr>cl_notified := n\<rparr>) = cl_inv c"
  by (simp_all add: cl_inv_def)

lemma cl_inv_OnTimer:
  assumes "cl_inv c" "cl_OnTimer stop e c = Some c'"
  shows "cl_inv c'"
proof (cases "stop \<or> cl_connected c")
  case True
  with assms show ?thesis by (auto simp: cl_OnTimer_def cl_EndClient_def Let_def split: if_splits)
next
  case False
  with assms(2) obtain ok c1 where
    c1: "cl_Connect e (cl_host c) (cl_port c) (c\<lparr>cl_timer := False\<rparr>) = Some (ok, c1)"
      "c' = c1\<lparr>cl_notified := Suc (cl_notified c1), cl_timer := ce_timer_ok e\<rparr>"
    by (auto simp: cl_OnTimer_def cl_ReConnect_def Let_def split: bind_splits)
  have "cl_inv c1" using cl_inv_Connect [OF _ _ c1(1)] assms(1) False by simp
  then show ?thesis using c1(2) by (auto simp: cl_inv_def)
qed

lemma cl_OnTimer_timer:
  assumes "cl_OnTimer stop e c = Some c'"
  shows "cl_timer c' = (\<not> stop \<and> ce_timer_ok e) \<and> cl_looping c' = (\<not> stop \<and> cl_looping c)"
proof (cases "stop \<or> cl_connected c")
  case True
  with assms show ?thesis by (auto simp: cl_OnTimer_def cl_EndClient_def Let_def split: if_splits)
next
  case False
  with assms show ?thesis
    by (auto simp: cl_OnTimer_def cl_ReConnect_def Let_def dest!: cl_Connect_fields split: bind_splits)
qed

lemma cl_inv_Close:
  "cl_inv c \<Longrightarrow> cl_undisturbed c0 (cl_CloseClient c) \<Longrightarrow> cl_connected c0 = cl_connected c \<Longrightarrow>
   cl_senders c0 = cl_senders c \<Longrightarrow> cl_inv (cl_CloseClient c)"
  by (auto simp: cl_inv_def cl_CloseClient_def cl_undisturbed_def)

lemma cl_OnRead_data_fields:
  "cl_OnRead_data c = Some c' \<Longrightarrow>
   cl_connected c' = cl_connected c \<and> cl_ev_read c' = cl_ev_read c \<and> cl_ev_write c' = cl_ev_write c \<and>
   cl_fd c' = cl_fd c \<and> cl_timer c' = cl_timer c \<and> cl_looping c' = cl_looping c \<and> cl_senders c' = cl_senders c"
  by (auto simp: cl_OnRead_data_def split: bind_splits if_splits dest!: cl_loop_fields)

lemma cl_inv_OnRead_data: "cl_inv c \<Longrightarrow> cl_OnRead_data c = Some c' \<Longrightarrow> cl_inv c'"
  by (drule cl_OnRead_data_fields) (auto simp: cl_inv_def)

lemma cl_OnRead_cases:
  assumes "cl_OnRead alloc recv again c = Some c'"
  obtains b where "c' = cl_CloseClient (c\<lparr>cl_in := b\<rparr>)" | b where "cl_OnRead_data (c\<lparr>cl_in := b\<rparr>) = Some c'"
  using assms by (cases "sb_SockRead alloc recv (- 1) (cl_in c)") (auto simp: cl_OnRead_def Let_def split: if_splits)

lemma cl_inv_OnRead:
  assumes "cl_inv c" "cl_OnRead alloc recv again c = Some c'" "cl_undisturbed c c'"
  shows "cl_inv c'"
proof -
  have inv: "cl_inv (c\<lparr>cl_in := b\<rparr>)" for b using assms(1) by (auto simp: cl_inv_def)
  from assms(2) show ?thesis
  proof (cases rule: cl_OnRead_cases)
    case (1 b)
    with assms(3) show ?thesis using cl_inv_Close [OF inv, of c b] by simp
  qed (use inv cl_inv_OnRead_data in blast)
qed

lemma cl_OnWrite_cases:
  assumes "cl_OnWrite alloc send again ev c = Some c'"
  obtains c1 b w where "cl_OnWrite_queue alloc (c\<lparr>cl_ev_write := False\<rparr>) = Some c1"
    "c' = c1\<lparr>cl_out := b, cl_ev_write := w\<rparr> \<or> c' = cl_CloseClient (c1\<lparr>cl_out := b\<rparr>)"
proof -
  from assms obtain c1 where c1: "cl_OnWrite_queue alloc (c\<lparr>cl_ev_write := False\<rparr>) = Some c1"
    and rest: "(if sb_GetSize (cl_out c1) = 0 then Some c1
          else do {
            (len, b) \<leftarrow> sb_Sends send (cl_out c1);
            let c = c1\<lparr>cl_out := b\<rparr>;
            if len = 0 then Some (cl_CloseClient c)
            else if len < 0 \<and> \<not> again then Some (cl_CloseClient c)
            else if sb_GetSize (cl_out c) > 0
            then Some (if \<not> ev then cl_CloseClient c else c\<lparr>cl_ev_write := True\<rparr>)
            else Some c }) = Some c'"
    by (cases "cl_OnWrite_queue alloc (c\<lparr>cl_ev_write := False\<rparr>)") (simp_all add: cl_OnWrite_def)
  have same: "c1\<lparr>cl_out := b\<rparr> = c1\<lparr>cl_out := b, cl_ev_write := cl_ev_write c1\<rparr>"
    "c1 = c1\<lparr>cl_out := cl_out c1, cl_ev_write := cl_ev_write c1\<rparr>" for b by simp_all
  have "\<exists>b w. c' = c1\<lparr>cl_out := b, cl_ev_write := w\<rparr> \<or> c' = cl_CloseClient (c1\<lparr>cl_out := b\<rparr>)"
  proof (cases "sb_GetSize (cl_out c1) = 0")
    case True
    with rest same(2) show ?thesis by (metis option.inject)
  next
    case False
    with rest obtain len b where b: "sb_Sends send (cl_out c1) = Some (len, b)"
      by (cases "sb_Sends send (cl_out c1)") auto
    with rest False consider "c' = cl_CloseClient (c1\<lparr>cl_out := b\<rparr>)" | "c' = c1\<lparr>cl_out := b, cl_ev_write := True\<rparr>"
        | "c' = c1\<lparr>cl_out := b\<rparr>" by (auto simp: Let_def split: if_splits)
    then show ?thesis using same(1) [of b] by (metis (no_types))
  qed
  then show ?thesis using c1 that by blast
qed

lemma cl_inv_OnWrite:
  assumes "cl_inv c" "cl_ev_write c" "cl_OnWrite alloc send again ev c = Some c'" "cl_undisturbed c c'"
  shows "cl_inv c'"
proof -
  from assms(3) obtain c1 b w where c1: "cl_OnWrite_queue alloc (c\<lparr>cl_ev_write := False\<rparr>) = Some c1"
    and c': "c' = c1\<lparr>cl_out := b, cl_ev_write := w\<rparr> \<or> c' = cl_CloseClient (c1\<lparr>cl_out := b\<rparr>)"
    by (rule cl_OnWrite_cases)
  note f = cl_queue_fields [OF c1]
  have inv: "cl_inv (c1\<lparr>cl_out := b\<rparr>)" "cl_inv (c1\<lparr>cl_out := b, cl_ev_write := w\<rparr>)"
    using assms(1,2) f by (auto simp: cl_inv_def)
  have "cl_connected c = cl_connected (c1\<lparr>cl_out := b\<rparr>)" "cl_senders c = cl_senders (c1\<lparr>cl_out := b\<rparr>)" using f by simp_all
  from c' cl_inv_Close [OF inv(1) _ this] inv(2) assms(4) show ?thesis by blast
qed

lemma cl_inv_send_start: "cl_inv c \<Longrightarrow> cl_inv (cl_send_start p c)"
  by (auto simp: cl_inv_def cl_send_start_def)

lemma cl_inv_send_step:
  assumes "cl_inv c" "i < length (cl_senders c)" "cl_undisturbed c (cl_send_step i ok c)"
  shows "cl_inv (cl_send_step i ok c)"
proof -
  have "cl_connected c" using assms(1,2) by (auto simp: cl_inv_def)
  with assms show ?thesis
    by (cases "cl_senders c ! i")
      (auto simp: cl_inv_def cl_send_step_def cl_undisturbed_def cl_CloseClient_def Let_def split: if_splits)
qed

lemma cl_inv_step: "cl_step alloc tok True c c' \<Longrightarrow> cl_inv c \<Longrightarrow> cl_inv c'"
proof (erule cl_stepE)
  fix ev
  assume "cl_inv c" "cl_enabled ev c" "cl_handle alloc ev c = Some c'" "True \<longrightarrow> cl_undisturbed c c'"
  then show "cl_inv c'"
    by (cases ev) (auto intro: cl_inv_Connect cl_inv_OnTimer cl_inv_OnRead cl_inv_OnWrite cl_inv_send_start cl_inv_send_step)
qed

text \<open>Only the timer's own handler touches the timer.\<close>

lemma cl_handle_timer:
  assumes "cl_handle alloc ev c = Some c'" "\<forall>stop e. ev \<noteq> Cl_Timer stop e"
  shows "cl_timer c' = cl_timer c \<and> cl_looping c' = cl_looping c"
proof (cases ev)
  case (Cl_Readable recv again)
  with assms(1) have "cl_OnRead alloc recv again c = Some c'" by simp
  then show ?thesis
    by (cases rule: cl_OnRead_cases) (auto simp: cl_CloseClient_def dest: cl_OnRead_data_fields)
next
  case (Cl_Writable send again event_ok)
  with assms(1) have "cl_OnWrite alloc send again event_ok c = Some c'" by simp
  then obtain c1 b w where c1: "cl_OnWrite_queue alloc (c\<lparr>cl_ev_write := False\<rparr>) = Some c1"
    and c': "c' = c1\<lparr>cl_out := b, cl_ev_write := w\<rparr> \<or> c' = cl_CloseClient (c1\<lparr>cl_out := b\<rparr>)"
    by (rule cl_OnWrite_cases)
  with cl_queue_fields [OF c1] show ?thesis by (auto simp: cl_CloseClient_def)
next
  case (Cl_SendStep i ok)
  with assms(1) show ?thesis
    by (auto simp: cl_send_step_def cl_CloseClient_def Let_def split: cl_sender.splits if_splits)
qed (use assms in \<open>auto simp: cl_send_start_def dest: cl_Connect_fields split: if_splits\<close>)

lemma cl_timer_inv_step: "cl_step alloc tok calm c c' \<Longrightarrow> cl_timer_inv tok c \<Longrightarrow> cl_timer_inv tok c'"
proof (erule cl_stepE)
  fix ev
  assume ev: "cl_timer_inv tok c" "cl_enabled ev c" "cl_handle alloc ev c = Some c'" "tok \<longrightarrow> cl_timer_added ev"
  show "cl_timer_inv tok c'"
  proof (cases "\<exists>stop e. ev = Cl_Timer stop e")
    case True
    with ev show ?thesis by (auto simp: cl_timer_inv_def dest!: cl_OnTimer_timer)
  next
    case False
    with ev(1) cl_handle_timer [OF ev(3)] show ?thesis by (simp add: cl_timer_inv_def)
  qed
qed

lemma cl_reach_timer: "cl_reach alloc time tok calm c \<Longrightarrow> cl_timer_inv tok c"
proof (induction rule: cl_reach.induct)
  case (start timer_ok)
  then show ?case by (auto simp: cl_timer_inv_def cl_StartClient_def cl_Init_def)
qed (rule cl_timer_inv_step)

lemma cl_reach_inv: "cl_reach alloc time tok True c \<Longrightarrow> cl_inv c"
proof (induction rule: cl_reach.induct)
  case start
  then show ?case by (simp add: cl_inv_def cl_StartClient_def cl_Init_def cl_new_def)
qed (rule cl_inv_step)

text \<open>Once an \<^verbatim>\<open>evtimer_add\<close> has failed, no later event arms the timer: the connection is never retried.\<close>

lemma timer_lost_for_good: "cl_step alloc tok calm c c' \<Longrightarrow> \<not> cl_timer c \<Longrightarrow> \<not> cl_timer c'"
proof (erule cl_stepE)
  fix ev
  assume ev: "\<not> cl_timer c" "cl_enabled ev c" "cl_handle alloc ev c = Some c'"
  then have "\<forall>stop e. ev \<noteq> Cl_Timer stop e" by auto
  with ev cl_handle_timer [OF ev(3)] show "\<not> cl_timer c'" by simp
qed

text \<open>
  A connection closed while a \<^verbatim>\<open>SendPacket\<close> is past its test leaves the write event armed on the closed
  descriptor, and the next reconnection initialises it while it is pending.
\<close>

lemma send_races_close:
  assumes "cl_connected c" "cl_senders c = []"
    and "c' = cl_send_step 0 True (cl_send_step 0 True (cl_send_step 0 True (cl_CloseClient (cl_send_start p c))))"
  shows "\<not> cl_connected c' \<and> cl_ev_write c' \<and> (0 \<le> ce_socket e \<longrightarrow> cl_OnTimer False e c' = None)"
  using assms by (simp add: cl_send_start_def cl_send_step_def cl_CloseClient_def cl_OnTimer_def cl_ReConnect_def cl_Connect_def Let_def)

section \<open>OnRead against the framing\<close>

lemma cl_OnRead_frames:
  assumes "sb_ok (cl_in c)" "split_frames (sb_bytes (cl_in c)) = (fs, rest)"
  shows "if bad_header rest then cl_OnRead_data c = None
         else \<exists>b. cl_OnRead_data c = Some (c\<lparr>cl_in := b,
                cl_recv := cl_recv c @ map (\<lambda>(cmd, body). mk_packet cmd body) fs\<rparr>) \<and>
              sb_ok b \<and> sb_bytes b = rest"
proof -
  let ?bs = "sb_bytes (cl_in c)"
  obtain pre where pre: "?bs = pre @ rest" using split_frames_rest [OF assms(2)] by blast
  let ?n = "length ?bs - length rest"
  have n: "?n = length pre" "drop ?n ?bs = rest" using pre by simp_all
  have get: "sb_GetBuffer (cl_in c) = Some ?bs" using assms(1) by (rule sb_GetBuffer_bytes)
  note loop = cl_loop_frames [OF assms(2), of 0 c]
  show ?thesis
  proof (cases "length ?bs < 4")
    case True
    then have "fs = []" "rest = ?bs" "\<not> bad_header rest"
      using assms split_frames_stuck [OF True] by (auto simp: bad_header_def)
    with True get assms(1) show ?thesis
      by (auto simp: cl_OnRead_data_def hdr_len_def intro: exI [of _ "cl_in c"])
  next
    case False
    show ?thesis
    proof (cases "bad_header rest")
      case True
      with False get loop show ?thesis by (simp add: cl_OnRead_data_def hdr_len_def)
    next
      case good: False
      show ?thesis
      proof (cases "?n = 0")
        case True
        with False good get n loop assms(1) show ?thesis
          by (auto simp: cl_OnRead_data_def hdr_len_def intro!: exI [of _ "cl_in c"])
      next
        case pos: False
        with False good get n loop assms(1) show ?thesis
          by (auto simp: cl_OnRead_data_def hdr_len_def sb_Erase_ok intro!: exI [of _ "sb_Erase ?n (cl_in c)"])
      qed
    qed
  qed
qed

text \<open>
  The buffers survive a reconnect: the first bytes of the new connection are appended to what the
  old one left, so an unfinished frame of the old connection swallows the new connection's data.
\<close>

lemma reconnect_keeps_bytes:
  "cl_OnTimer stop e c = Some c' \<Longrightarrow> cl_in c' = cl_in c \<and> cl_out c' = cl_out c"
  by (auto simp: cl_OnTimer_def cl_ReConnect_def cl_EndClient_def Let_def dest!: cl_Connect_fields
      split: bind_splits if_splits)

section \<open>Properties\<close>



text \<open>
  \<^verbatim>\<open>CClient::OnRead\<close> delivers exactly the complete frames of the input and keeps the rest; when
  the frame after them declares a size smaller than its own header it reads outside the input
  buffer instead.
\<close>

theorem relay_client_read:
  assumes "sb_ok (cl_in c)" "split_frames (sb_bytes (cl_in c)) = (fs, rest)"
  shows "if 4 \<le> length rest \<and> hdr_size rest < 4 then cl_OnRead_data c = None
         else \<exists>b. cl_OnRead_data c = Some (c\<lparr>cl_in := b,
                cl_recv := cl_recv c @ map (\<lambda>(cmd, body). mk_packet cmd body) fs\<rparr>) \<and>
              sb_ok b \<and> sb_bytes b = rest"
  using cl_OnRead_frames [OF assms] by (simp only: bad_header_def)

theorem relay_client_read_witness:
  "cl_OnRead_data ((cl_new zero_alloc)\<lparr>cl_in := \<lparr>sb_mem = Some [2, 0, 1, 0], sb_buf = 0, sb_misalign = 0,
     sb_totallen = 4, sb_off = 4, sb_initlen = 4\<rparr>\<rparr>) = None"
proof -
  let ?b = "\<lparr>sb_mem = Some [2, 0, 1, 0 :: byte], sb_buf = 0, sb_misalign = 0, sb_totallen = 4, sb_off = 4, sb_initlen = 4\<rparr>"
  have "sb_ok ?b" "sb_bytes ?b = [2, 0, 1, 0]" by (simp_all add: sb_ok_def sb_bytes_def)
  moreover have "hdr_size [2, 0, 1, 0] = 2" by code_simp
  ultimately show ?thesis
    using relay_client_read [of "(cl_new zero_alloc)\<lparr>cl_in := ?b\<rparr>" "[]" "[2, 0, 1, 0]"]
    by (simp add: split_frames.simps)
qed

end
