(* ===== verification/Stress_Client.thy ===== *)
theory Stress_Client
  imports Net_Client
begin

text \<open>
  The load generator (pitayaserver/framework/StressTestClient.c): command line, connection set-up,
  the packet it sends on every timer tick and the loop that counts the packets it receives.

  The set of connections is \<open>st_clients\<close>, keyed by address. \<^verbatim>\<open>CSocketBuffer\<close> has no member
  \<^verbatim>\<open>WriteToBuffer\<close>; what the file means by it is the parameter \<open>wtb\<close>. Random numbers, system calls
  and the clock are parameters too.
\<close>

section \<open>State\<close>

record test_client =
  st_fd :: int
  st_sendMsgs :: nat
  st_recvMsgs :: nat
  st_iBuf :: sock_buffer
  st_oBuf :: sock_buffer
  st_pkgTimer :: bool

record stress =
  st_host :: "string option"
  st_port :: int
  st_nclients :: int
  st_sendPkgTime :: int
  st_beatTime :: int
  st_pkgLength :: int
  st_daemon :: bool
  st_clients :: "(nat \<times> test_client) list"

definition st_defaults :: stress where
  "st_defaults = \<lparr>st_host = Some ''127.0.0.1'', st_port = 6666, st_nclients = 100, st_sendPkgTime = 250,
     st_beatTime = 30, st_pkgLength = 200, st_daemon = False, st_clients = []\<rparr>"

datatype 'a outcome = Returned 'a | Exited nat

section \<open>Command line\<close>

text \<open>
  \<^verbatim>\<open>parse_arg\<close> on \<^verbatim>\<open>argv[1..]\<close>: it always advances by two, also after \<^verbatim>\<open>-d\<close>, which has no value;
  \<^verbatim>\<open>atoi\<close> of the terminating null pointer crashes.
\<close>

definition st_set_opt :: "string \<Rightarrow> string option \<Rightarrow> stress \<Rightarrow> stress outcome option" where
  "st_set_opt opt val g =
     (if opt = ''-h'' then Some (Returned (g\<lparr>st_host := val\<rparr>))
      else if opt = ''-p'' then map_option (\<lambda>v. Returned (g\<lparr>st_port := c_atoi v\<rparr>)) val
      else if opt = ''-c'' then map_option (\<lambda>v. Returned (g\<lparr>st_nclients := c_atoi v\<rparr>)) val
      else if opt = ''-t'' then map_option (\<lambda>v. Returned (g\<lparr>st_sendPkgTime := c_atoi v\<rparr>)) val
      else if opt = ''-b'' then map_option (\<lambda>v. Returned (g\<lparr>st_beatTime := c_atoi v\<rparr>)) val
      else if opt = ''-l'' then map_option (\<lambda>v. Returned (g\<lparr>st_pkgLength := c_atoi v\<rparr>)) val
      else if opt = ''-d'' then Some (Returned (g\<lparr>st_daemon := True\<rparr>))
      else Some (Exited 0))"

fun st_parse_arg :: "string list \<Rightarrow> stress \<Rightarrow> stress outcome option" where
  "st_parse_arg [] g = Some (Returned g)"
| "st_parse_arg [a] g = st_set_opt a None g"
| "st_parse_arg (a # v # rest) g =
     (case st_set_opt a (Some v) g of
        Some (Returned g') \<Rightarrow> st_parse_arg rest g'
      | r \<Rightarrow> r)"

definition st_show_usage :: "string \<Rightarrow> string list" where
  "st_show_usage program =
     [''Stress Test Tools'',
      ''Usage: '' @ program @ '' [-h <host>] [-p <port>] [-c <clients>] '',
      ''-h default is '' @ the (st_host st_defaults),
      ''-p default is '' @ dec_str (nat (st_port st_defaults)),
      ''-c how many clients, default is '' @ dec_str (nat (st_nclients st_defaults)),
      ''-t the interval time between two pkgs, default is '' @ dec_str (nat (st_sendPkgTime st_defaults)) @ '' ms'',
      ''-b the interval time between two beats, default is '' @ dec_str (nat (st_beatTime st_defaults)) @ '' s'',
      ''-l the length of one pkg, default is '' @ dec_str (nat (st_pkgLength st_defaults)) @ '' bytes'',
      ''-d start as a daemon, default is false'', []]"

section \<open>Connections\<close>

definition st_close_client :: "nat \<Rightarrow> stress \<Rightarrow> stress" where
  "st_close_client k g = g\<lparr>st_clients := filter (\<lambda>(j, c). j \<noteq> k) (st_clients g), st_nclients := st_nclients g - 1\<rparr>"

definition st_put :: "nat \<Rightarrow> test_client \<Rightarrow> stress \<Rightarrow> stress" where
  "st_put k c g = g\<lparr>st_clients := omap_set k c (st_clients g)\<rparr>"

definition st_set_timer :: "test_client \<Rightarrow> test_client" where
  "st_set_timer c = c\<lparr>st_pkgTimer := True\<rparr>"

text \<open>
  \<^verbatim>\<open>unpack\<close>: \<^verbatim>\<open>remaining\<close> is local and zero at the top of every round. A header of zero erases
  nothing and the loop starts over, for ever: \<^const>\<open>None\<close>.
\<close>

partial_function (option) st_unpack :: "nat \<Rightarrow> test_client \<Rightarrow> test_client option" where
  "st_unpack remaining c =
     (if remaining = 0 \<and> sb_GetSize (st_iBuf c) < 2 then Some c
      else (case (if remaining = 0 then map_option hdr_size (sb_GetBuffer (st_iBuf c)) else Some remaining) of
              None \<Rightarrow> None
            | Some remaining \<Rightarrow>
                if sb_GetSize (st_iBuf c) < remaining then Some c
                else st_unpack 0 (c\<lparr>st_iBuf := sb_Erase remaining (st_iBuf c), st_recvMsgs := Suc (st_recvMsgs c)\<rparr>)))"

definition st_on_read ::
  "allocator \<Rightarrow> (nat \<Rightarrow> byte list option) \<Rightarrow> bool \<Rightarrow> bool \<Rightarrow> nat \<Rightarrow> stress \<Rightarrow> stress option" where
  "st_on_read alloc recv try_again ev_read k g =
     do { c \<leftarrow> map_of (st_clients g) k;
          if ev_read then do {
            (len, b) \<leftarrow> sb_SockRead alloc recv (-1) (st_iBuf c);
            let c = c\<lparr>st_iBuf := b\<rparr>;
            if len < 0 then Some (if \<not> try_again then st_close_client k g else st_put k c g)
            else if len = 0 then Some (st_close_client k g)
            else do { c \<leftarrow> st_unpack 0 c; Some (st_put k c g) } }
          else Some (st_close_client k g) }"

definition st_on_write ::
  "(byte list \<Rightarrow> int) \<Rightarrow> bool \<Rightarrow> bool \<Rightarrow> nat \<Rightarrow> stress \<Rightarrow> stress option" where
  "st_on_write send try_again ev_write k g =
     do { c \<leftarrow> map_of (st_clients g) k;
          if ev_write then
            (if sb_GetSize (st_oBuf c) = 0 then Some g
             else do {
               (len, b) \<leftarrow> sb_Sends send (st_oBuf c);
               Some (if len \<le> 0 \<and> \<not> try_again then st_close_client k g else st_put k (c\<lparr>st_oBuf := b\<rparr>) g) })
          else Some (st_close_client k g) }"

text \<open>
  \<^verbatim>\<open>timeout_cb_pkg\<close> with the two values \<^verbatim>\<open>rand()\<close> returns; a package length of zero divides by zero.
  The body is the zero-initialised static \<^verbatim>\<open>buf[512]\<close>.
\<close>

definition st_pkglen :: "nat \<Rightarrow> int \<Rightarrow> nat" where
  "st_pkglen r len = (r mod nat \<bar>len\<bar> + 1) mod 512"

definition st_timeout_cb_pkg ::
  "(byte list \<Rightarrow> sock_buffer \<Rightarrow> sock_buffer option) \<Rightarrow> nat \<Rightarrow> nat \<Rightarrow> nat \<Rightarrow> stress \<Rightarrow> stress option" where
  "st_timeout_cb_pkg wtb r1 r2 k g =
     (if st_pkgLength g = 0 then None
      else do {
        c \<leftarrow> map_of (st_clients g) k;
        let pkglen = st_pkglen r1 (st_pkgLength g);
        let head = (word_of_nat (pkglen + 2 * 2) :: uint16);
        let cmd = (word_of_nat (r2 mod 10000 + 1) :: uint16);
        let buf = replicate 512 (0 :: byte);
        b \<leftarrow> wtb (le_enc 2 (unat head)) (st_oBuf c);
        b \<leftarrow> wtb (le_enc 2 (unat cmd)) b;
        b \<leftarrow> (if pkglen \<le> length buf then wtb (take pkglen buf) b else None);
        Some (st_put k (c\<lparr>st_oBuf := b, st_sendMsgs := Suc (st_sendMsgs c), st_pkgTimer := True\<rparr>) g) })"

section \<open>Statistics\<close>

definition st_totals :: "stress \<Rightarrow> nat \<times> nat" where
  "st_totals g = (\<Sum>(k, c) \<leftarrow> st_clients g. st_sendMsgs c, \<Sum>(k, c) \<leftarrow> st_clients g. st_recvMsgs c)"

text \<open>\<^verbatim>\<open>print_status\<close> after \<open>secs\<close> seconds; the average of a run of zero seconds is not a number.\<close>

definition st_print_status :: "nat \<Rightarrow> stress \<Rightarrow> string list option" where
  "st_print_status secs g =
     (if secs = 0 then None
      else
        let (snt, rcv) = st_totals g
        in Some [''status:----------------------'',
           ''Total pkgs send: '' @ dec_str snt @ '' '',
           ''Average pkgs send: '' @ dec_str (snt div secs) @ '' /s'', [],
           ''Total pkgs recv: '' @ dec_str rcv @ '' '',
           ''Average pkgs recv: '' @ dec_str (rcv div secs) @ '' /s'', [],
           ''Current connections: '' @ dec_str (length (st_clients g)),
           ''end:-------------------------'', []])"

section \<open>Start-up\<close>

text \<open>What the system answers while the \<open>i\<close>-th connection is opened, and the address of the new object.\<close>

record st_env =
  se_addr :: nat
  se_socket :: int
  se_connect_ok :: bool
  se_nonblock_ok :: bool
  se_read_ok :: bool
  se_write_ok :: bool

definition st_open :: "allocator \<Rightarrow> st_env \<Rightarrow> stress \<Rightarrow> stress" where
  "st_open alloc e g =
     (let c = \<lparr>st_fd = se_socket e, st_sendMsgs = 0, st_recvMsgs = 0, st_iBuf = sb_Init alloc sb_construct,
               st_oBuf = sb_Init alloc sb_construct, st_pkgTimer = False\<rparr> in
      if se_socket e < 0 then g
      else if \<not> se_connect_ok e then g
      else if \<not> se_nonblock_ok e then g
      else
        let g = st_put (se_addr e) (st_set_timer c) g in
        if \<not> se_read_ok e then st_close_client (se_addr e) g
        else if \<not> se_write_ok e then st_close_client (se_addr e) g
        else g)"

text \<open>The loop reads \<^verbatim>\<open>gClients\<close> in every round, and \<^verbatim>\<open>close_client\<close> counts it down.\<close>

fun st_open_loop :: "allocator \<Rightarrow> int \<Rightarrow> st_env list \<Rightarrow> stress \<Rightarrow> stress" where
  "st_open_loop alloc i [] g = g"
| "st_open_loop alloc i (e # es) g =
     (if i < st_nclients g then st_open_loop alloc (i + 1) es (st_open alloc e g) else g)"

definition st_main :: "allocator \<Rightarrow> bool \<Rightarrow> bool \<Rightarrow> st_env list \<Rightarrow> string list \<Rightarrow> stress outcome option" where
  "st_main alloc daemon_ok rlimit_ok es argv =
     (case st_parse_arg (tl argv) st_defaults of
        Some (Returned g) \<Rightarrow>
          if st_daemon g \<and> \<not> daemon_ok then Some (Exited 1)
          else if \<not> rlimit_ok then Some (Exited 1)
          else Some (Returned (st_open_loop alloc 0 es (g\<lparr>st_clients := []\<rparr>)))
      | r \<Rightarrow> r)"

section \<open>Counting packets\<close>

text \<open>The specification of \<^verbatim>\<open>unpack\<close>: how many packets, and what is left; \<^const>\<open>None\<close> at a zero header.\<close>

function st_count :: "byte list \<Rightarrow> (nat \<times> byte list) option" where
  "st_count bs =
     (if length bs < 2 then Some (0, bs)
      else if hdr_size bs = 0 then None
      else if length bs < hdr_size bs then Some (0, bs)
      else map_option (\<lambda>(n, rest). (Suc n, rest)) (st_count (drop (hdr_size bs) bs)))"
  by pat_completeness auto
termination
  by (relation "measure length") auto

declare st_count.simps [simp del]

lemma st_count_frame:
  assumes "frame_ok f"
  shows "st_count (frame_bytes f @ cs) = map_option (\<lambda>(n, rest). (Suc n, rest)) (st_count cs)"
proof -
  have "drop (length (snd f) + 4) (frame_bytes f @ cs) = cs" by simp
  with assms show ?thesis
    by (subst st_count.simps) (simp add: hdr_frame del: drop_append)
qed

lemma st_count_all: "list_all frame_ok fs \<Longrightarrow> st_count (concat (map frame_bytes fs)) = Some (length fs, [])"
proof (induction fs)
  case Nil
  then show ?case by (simp add: st_count.simps)
qed (simp add: st_count_frame)

lemma unpack_returns_count:
  assumes "sb_ok (st_iBuf c)" "st_count (sb_bytes (st_iBuf c)) = Some (n, rest)"
  shows "\<exists>b. st_unpack 0 c = Some (c\<lparr>st_iBuf := b, st_recvMsgs := st_recvMsgs c + n\<rparr>) \<and> sb_ok b \<and> sb_bytes b = rest"
  using assms
proof (induction "sb_bytes (st_iBuf c)" arbitrary: c n rest rule: st_count.induct)
  case 1
  let ?bs = "sb_bytes (st_iBuf c)" and ?h = "hdr_size (sb_bytes (st_iBuf c))"
  have len: "sb_GetSize (st_iBuf c) = length ?bs" "sb_GetBuffer (st_iBuf c) = Some ?bs"
    using "1.prems"(1) by (simp_all add: sb_GetSize_def length_sb_bytes sb_GetBuffer_bytes)
  consider (short) "length ?bs < 2" | (part) "2 \<le> length ?bs" "length ?bs < ?h" "?h \<noteq> 0"
    | (full) "2 \<le> length ?bs" "?h \<le> length ?bs" "?h \<noteq> 0"
    using "1.prems"(2) by (subst (asm) st_count.simps) (fastforce split: if_splits)
  then show ?case
  proof cases
    case short
    with "1.prems" len show ?thesis
      by (subst st_unpack.simps) (auto simp: st_count.simps intro!: exI [of _ "st_iBuf c"])
  next
    case part
    then have "n = 0" "rest = ?bs" using "1.prems"(2) by (auto simp: st_count.simps)
    with "1.prems" len part show ?thesis
      by (subst st_unpack.simps) (auto intro!: exI [of _ "st_iBuf c"])
  next
    case full
    let ?c = "c\<lparr>st_iBuf := sb_Erase ?h (st_iBuf c), st_recvMsgs := Suc (st_recvMsgs c)\<rparr>"
    have bytes: "sb_bytes (st_iBuf ?c) = drop ?h ?bs" "sb_ok (st_iBuf ?c)"
      using "1.prems"(1) by (simp_all add: sb_Erase_ok)
    from full "1.prems"(2) obtain m where m: "n = Suc m" "st_count (drop ?h ?bs) = Some (m, rest)"
      by (subst (asm) st_count.simps) auto
    have "\<exists>b. st_unpack 0 ?c = Some (?c\<lparr>st_iBuf := b, st_recvMsgs := st_recvMsgs ?c + m\<rparr>) \<and> sb_ok b \<and> sb_bytes b = rest"
      using full m bytes by (intro "1.hyps") auto
    with full len m show ?thesis
      by (subst st_unpack.simps) auto
  qed
qed

lemma st_unpack_Some:
  assumes "st_unpack r0 c0 = Some c1"
  shows "r0 = 0 \<longrightarrow> sb_ok (st_iBuf c0) \<longrightarrow> st_count (sb_bytes (st_iBuf c0)) \<noteq> None"
proof (rule st_unpack.raw_induct [OF _ assms])
  fix f :: "nat \<Rightarrow> test_client \<Rightarrow> test_client option" and r c c'
  assume IH: "\<And>r c c'. f r c = Some c' \<Longrightarrow>
      r = 0 \<longrightarrow> sb_ok (st_iBuf c) \<longrightarrow> st_count (sb_bytes (st_iBuf c)) \<noteq> None"
    and body: "(if r = 0 \<and> sb_GetSize (st_iBuf c) < 2 then Some c
      else (case (if r = 0 then map_option hdr_size (sb_GetBuffer (st_iBuf c)) else Some r) of
              None \<Rightarrow> None
            | Some remaining \<Rightarrow>
                if sb_GetSize (st_iBuf c) < remaining then Some c
                else f 0 (c\<lparr>st_iBuf := sb_Erase remaining (st_iBuf c), st_recvMsgs := Suc (st_recvMsgs c)\<rparr>))) = Some c'"
  show "r = 0 \<longrightarrow> sb_ok (st_iBuf c) \<longrightarrow> st_count (sb_bytes (st_iBuf c)) \<noteq> None"
  proof (intro impI)
    assume r: "r = 0" and ok: "sb_ok (st_iBuf c)"
    let ?bs = "sb_bytes (st_iBuf c)" and ?h = "hdr_size (sb_bytes (st_iBuf c))"
    have len: "sb_GetSize (st_iBuf c) = length ?bs" "sb_GetBuffer (st_iBuf c) = Some ?bs"
      using ok by (simp_all add: sb_GetSize_def length_sb_bytes sb_GetBuffer_bytes)
    show "st_count ?bs \<noteq> None"
    proof (cases "length ?bs < 2 \<or> length ?bs < ?h")
      case True
      then show ?thesis by (subst st_count.simps) auto
    next
      case False
      with body r len have "f 0 (c\<lparr>st_iBuf := sb_Erase ?h (st_iBuf c), st_recvMsgs := Suc (st_recvMsgs c)\<rparr>) = Some c'"
        by simp
      from IH [OF this] ok have rest: "st_count (drop ?h ?bs) \<noteq> None" by (simp add: sb_Erase_ok)
      then have "?h \<noteq> 0"
      proof (rule contrapos_nn)
        assume "?h = 0"
        with False show "st_count (drop ?h ?bs) = None" by (subst st_count.simps) simp
      qed
      with False rest show ?thesis by (subst st_count.simps) auto
    qed
  qed
qed

section \<open>Properties\<close>

text \<open>
  \<^verbatim>\<open>unpack\<close> on a valid input buffer counts the packets that are complete and keeps the rest,
  and it fails to return exactly when it meets a header of zero.
\<close>

theorem stress_unpack:
  assumes "sb_ok (st_iBuf c)"
  shows "case st_count (sb_bytes (st_iBuf c)) of
           None \<Rightarrow> st_unpack 0 c = None
         | Some (n, rest) \<Rightarrow> \<exists>b. st_unpack 0 c = Some (c\<lparr>st_iBuf := b, st_recvMsgs := st_recvMsgs c + n\<rparr>) \<and>
             sb_ok b \<and> sb_bytes b = rest"
proof (cases "st_count (sb_bytes (st_iBuf c))")
  case None
  then have "st_unpack 0 c = None"
    using st_unpack_Some [of 0 c] assms by (cases "st_unpack 0 c") auto
  with None show ?thesis by simp
next
  case (Some p)
  then show ?thesis using unpack_returns_count [OF assms] by (cases p) auto
qed

theorem stress_unpack_witness:
  "st_unpack 0 \<lparr>st_fd = 3, st_sendMsgs = 0, st_recvMsgs = 0,
     st_iBuf = \<lparr>sb_mem = Some [4, 0, 1, 0, 0, 0], sb_buf = 0, sb_misalign = 0, sb_totallen = 6, sb_off = 6, sb_initlen = 6\<rparr>,
     st_oBuf = sb_construct, st_pkgTimer = False\<rparr> = None"
proof -
  let ?b = "\<lparr>sb_mem = Some [4, 0, 1, 0, 0, 0 :: byte], sb_buf = 0, sb_misalign = 0, sb_totallen = 6, sb_off = 6, sb_initlen = 6\<rparr>"
  have "sb_ok ?b" "sb_bytes ?b = [4, 0, 1, 0, 0, 0]" by (simp_all add: sb_ok_def sb_bytes_def)
  moreover have "st_count [4, 0, 1, 0, 0, 0] = None" by code_simp
  ultimately show ?thesis
    using stress_unpack [of "\<lparr>st_fd = 3, st_sendMsgs = 0, st_recvMsgs = 0, st_iBuf = ?b,
      st_oBuf = sb_construct, st_pkgTimer = False\<rparr>"] by simp
qed

text \<open>Well-formed frames are all counted.\<close>

lemma stress_unpack_frames:
  "sb_ok (st_iBuf c) \<Longrightarrow> list_all frame_ok fs \<Longrightarrow> sb_bytes (st_iBuf c) = concat (map frame_bytes fs) \<Longrightarrow>
   \<exists>b. st_unpack 0 c = Some (c\<lparr>st_iBuf := b, st_recvMsgs := st_recvMsgs c + length fs\<rparr>) \<and> sb_bytes b = []"
  using unpack_returns_count [of c "length fs" "[]"] st_count_all [of fs] by auto

text \<open>
  every tick of the packet timer sends one well-formed frame: its size field is the header plus
  a body of at most 511 zero bytes taken from the 512-byte array, and its command lies between 1
  and 10000; provided the buffer's write appends.
\<close>

theorem stress_sends_frame:
  assumes "st_pkgLength g \<noteq> 0" "map_of (st_clients g) k = Some c" "omap_ok (st_clients g)"
    and "\<And>bs b. sb_ok b \<Longrightarrow> \<exists>b'. wtb bs b = Some b' \<and> sb_ok b' \<and> sb_bytes b' = sb_bytes b @ bs"
    and "sb_ok (st_oBuf c)"
  shows "\<exists>g' c' f. st_timeout_cb_pkg wtb r1 r2 k g = Some g' \<and> map_of (st_clients g') k = Some c' \<and>
           sb_bytes (st_oBuf c') = sb_bytes (st_oBuf c) @ frame_bytes f \<and> frame_ok f \<and>
           1 \<le> fst f \<and> fst f \<le> 10000 \<and> length (snd f) \<le> 511 \<and> st_sendMsgs c' = Suc (st_sendMsgs c)"
proof -
  let ?n = "st_pkglen r1 (st_pkgLength g)" and ?cmd = "r2 mod 10000 + 1"
  let ?f = "(?cmd, replicate ?n (0 :: byte))"
  have n: "?n \<le> 511" by (simp add: st_pkglen_def)
  have cmd: "?cmd \<le> 10000" by (simp add: Suc_leI)
  have u: "unat (word_of_nat (?n + 2 * 2) :: uint16) = ?n + 4" "unat (word_of_nat ?cmd :: uint16) = ?cmd"
    using n cmd by (simp_all add: unat_of_nat del: of_nat_add of_nat_Suc)
  obtain b1 where b1: "wtb (le_enc 2 (?n + 4)) (st_oBuf c) = Some b1" "sb_ok b1"
      "sb_bytes b1 = sb_bytes (st_oBuf c) @ le_enc 2 (?n + 4)" using assms(4,5) by blast
  obtain b2 where b2: "wtb (le_enc 2 ?cmd) b1 = Some b2" "sb_ok b2" "sb_bytes b2 = sb_bytes b1 @ le_enc 2 ?cmd"
    using assms(4) b1(2) by blast
  obtain b3 where b3: "wtb (replicate ?n 0) b2 = Some b3" "sb_bytes b3 = sb_bytes b2 @ replicate ?n 0"
    using assms(4) b2(2) by blast
  let ?c = "c\<lparr>st_oBuf := b3, st_sendMsgs := Suc (st_sendMsgs c), st_pkgTimer := True\<rparr>"
  have "st_timeout_cb_pkg wtb r1 r2 k g = Some (st_put k ?c g)"
    using assms(1,2) u b1 b2 b3 n by (simp add: st_timeout_cb_pkg_def min_def del: of_nat_add of_nat_Suc le_enc.simps)
  moreover have "map_of (st_clients (st_put k ?c g)) k = Some ?c"
    using assms(3) by (simp add: st_put_def map_of_omap_set)
  moreover have "sb_bytes b3 = sb_bytes (st_oBuf c) @ frame_bytes ?f"
    using b1 b2 b3 by (simp add: frame_bytes_def del: le_enc.simps)
  moreover have "frame_ok ?f" using n cmd by (simp add: frame_ok_def)
  ultimately show ?thesis using n cmd by (intro exI [of _ "st_put k ?c g"] exI [of _ ?c] exI [of _ ?f]) simp
qed

theorem stress_sends_frame_witness:
  "\<exists>g' c' f. st_timeout_cb_pkg
       (\<lambda>bs b. Some \<lparr>sb_mem = Some (sb_bytes b @ bs), sb_buf = 0, sb_misalign = 0,
          sb_totallen = length (sb_bytes b @ bs), sb_off = length (sb_bytes b @ bs), sb_initlen = 0\<rparr>) 41 7 9
       (st_defaults\<lparr>st_clients := [(9, \<lparr>st_fd = 3, st_sendMsgs = 0, st_recvMsgs = 0, st_iBuf = sb_construct,
          st_oBuf = sb_construct, st_pkgTimer = True\<rparr>)]\<rparr>) = Some g' \<and> map_of (st_clients g') 9 = Some c' \<and>
     sb_bytes (st_oBuf c') = frame_bytes f \<and> frame_ok f \<and> 1 \<le> fst f \<and> fst f \<le> 10000 \<and> length (snd f) \<le> 511 \<and>
     st_sendMsgs c' = 1"
proof -
  let ?wtb = "\<lambda>bs b. Some \<lparr>sb_mem = Some (sb_bytes b @ bs), sb_buf = 0, sb_misalign = 0,
          sb_totallen = length (sb_bytes b @ bs), sb_off = length (sb_bytes b @ bs), sb_initlen = 0\<rparr>"
  let ?c = "\<lparr>st_fd = 3, st_sendMsgs = 0, st_recvMsgs = 0, st_iBuf = sb_construct, st_oBuf = sb_construct, st_pkgTimer = True\<rparr>"
  let ?g = "st_defaults\<lparr>st_clients := [(9, ?c)]\<rparr>"
  have wtb: "\<exists>b'. ?wtb bs b = Some b' \<and> sb_ok b' \<and> sb_bytes b' = sb_bytes b @ bs" for bs b
    by (simp add: sb_ok_def) (simp add: sb_bytes_def)
  have "st_pkgLength ?g \<noteq> 0" "map_of (st_clients ?g) 9 = Some ?c" "omap_ok (st_clients ?g)"
    by (simp_all add: st_defaults_def)
  moreover have "sb_ok (st_oBuf ?c)" "sb_bytes (st_oBuf ?c) = []" by (simp_all add: sb_construct_ok)
  ultimately show ?thesis
    using stress_sends_frame [of ?g 9 ?c ?wtb 41 7] wtb by auto
qed

text \<open>\<^verbatim>\<open>-d\<close> swallows the argument after it, although the usage text gives it none.\<close>

lemma daemon_flag_swallows:
  "st_parse_arg [''-d'', ''-p'', ''80''] st_defaults = Some (Exited 0)"
  "map_option (\<lambda>r. case r of Returned g \<Rightarrow> (st_daemon g, st_port g) | Exited n \<Rightarrow> (False, 0))
     (st_parse_arg [''-p'', ''80'', ''-d''] st_defaults) = Some (True, 80)"
  by code_simp+

end
