(* ===== verification/Timers.thy ===== *)
theory Timers
  imports Prelude
begin

text \<open>
  The timers of pitayaserver/framework/Timer.h. \<^verbatim>\<open>time_t\<close> values are integers; the 32-bit timers
  keep their width, and the code mixes \<^verbatim>\<open>int32\<close> and \<^verbatim>\<open>uint32\<close> so their additions wrap.
  \<open>it_advance\<close> and \<open>it_fire\<close> are the two loops every session runs over its timers.
\<close>

section \<open>IntervalTimer\<close>

record interval_timer =
  it_interval :: int
  it_current :: int

definition it_new :: interval_timer where
  "it_new = \<lparr>it_interval = 0, it_current = 0\<rparr>"

definition it_Update :: "int \<Rightarrow> interval_timer \<Rightarrow> interval_timer" where
  "it_Update diff t =
     (let c = it_current t + diff in t\<lparr>it_current := if c < 0 then 0 else c\<rparr>)"

definition it_Passed :: "interval_timer \<Rightarrow> bool" where
  "it_Passed t \<longleftrightarrow> it_current t \<ge> it_interval t"

definition it_Reset :: "interval_timer \<Rightarrow> interval_timer" where
  "it_Reset t = (if it_current t \<ge> it_interval t then t\<lparr>it_current := it_current t - it_interval t\<rparr> else t)"

definition it_SetCurrent :: "int \<Rightarrow> interval_timer \<Rightarrow> interval_timer" where
  "it_SetCurrent c t = t\<lparr>it_current := c\<rparr>"

definition it_SetInterval :: "int \<Rightarrow> interval_timer \<Rightarrow> interval_timer" where
  "it_SetInterval i t = t\<lparr>it_interval := i\<rparr>"

definition it_advance :: "int \<Rightarrow> interval_timer \<Rightarrow> interval_timer" where
  "it_advance diff t = (if it_current t \<ge> 0 then it_Update diff t else it_SetCurrent 0 t)"

definition it_fire :: "interval_timer \<Rightarrow> bool \<times> interval_timer" where
  "it_fire t = (if it_Passed t then (True, it_Reset t) else (False, t))"

text \<open>A timer driven by a sequence of updates: how often it fires, and its state afterwards.\<close>

fun it_run :: "int list \<Rightarrow> interval_timer \<Rightarrow> nat \<times> interval_timer" where
  "it_run [] t = (0, t)"
| "it_run (d # ds) t =
     (let (hit, t) = it_fire (it_advance d t);
          (n, t) = it_run ds t
      in ((if hit then 1 else 0) + n, t))"

section \<open>The other timers\<close>

record time_tracker =
  tt_expiry :: int

definition tt_new :: "int \<Rightarrow> time_tracker" where
  "tt_new expiry = \<lparr>tt_expiry = expiry\<rparr>"

definition tt_Update :: "int \<Rightarrow> time_tracker \<Rightarrow> time_tracker" where
  "tt_Update diff t = t\<lparr>tt_expiry := tt_expiry t - diff\<rparr>"

definition tt_Passed :: "time_tracker \<Rightarrow> bool" where
  "tt_Passed t \<longleftrightarrow> tt_expiry t \<le> 0"

definition tt_Reset :: "int \<Rightarrow> time_tracker \<Rightarrow> time_tracker" where
  "tt_Reset interval t = t\<lparr>tt_expiry := interval\<rparr>"

record time_tracker_small =
  ts_expiry :: "32 word"

definition ts_new :: "uint32 \<Rightarrow> time_tracker_small" where
  "ts_new expiry = \<lparr>ts_expiry = expiry\<rparr>"

definition ts_Update :: "32 word \<Rightarrow> time_tracker_small \<Rightarrow> time_tracker_small" where
  "ts_Update diff t = t\<lparr>ts_expiry := ts_expiry t - diff\<rparr>"

definition ts_Passed :: "time_tracker_small \<Rightarrow> bool" where
  "ts_Passed t \<longleftrightarrow> sint (ts_expiry t) \<le> 0"

definition ts_Reset :: "uint32 \<Rightarrow> time_tracker_small \<Rightarrow> time_tracker_small" where
  "ts_Reset interval t = t\<lparr>ts_expiry := interval\<rparr>"

record periodic_timer =
  pt_period :: "32 word"
  pt_expire :: "32 word"

definition pt_new :: "32 word \<Rightarrow> 32 word \<Rightarrow> periodic_timer" where
  "pt_new period start = \<lparr>pt_period = period, pt_expire = start\<rparr>"

definition pt_Update :: "uint32 \<Rightarrow> periodic_timer \<Rightarrow> bool \<times> periodic_timer" where
  "pt_Update diff t =
     (let e = pt_expire t - diff in
      if sint e > 0 then (False, t\<lparr>pt_expire := e\<rparr>)
      else (True, t\<lparr>pt_expire := e + (if sint (pt_period t) > sint diff then pt_period t else diff)\<rparr>))"

definition pt_SetPeriodic :: "32 word \<Rightarrow> 32 word \<Rightarrow> periodic_timer \<Rightarrow> periodic_timer" where
  "pt_SetPeriodic period start t = t\<lparr>pt_expire := start, pt_period := period\<rparr>"

definition pt_TUpdate :: "32 word \<Rightarrow> periodic_timer \<Rightarrow> periodic_timer" where
  "pt_TUpdate diff t = t\<lparr>pt_expire := pt_expire t - diff\<rparr>"

definition pt_TPassed :: "periodic_timer \<Rightarrow> bool" where
  "pt_TPassed t \<longleftrightarrow> sint (pt_expire t) \<le> 0"

definition pt_TReset :: "32 word \<Rightarrow> 32 word \<Rightarrow> periodic_timer \<Rightarrow> periodic_timer" where
  "pt_TReset diff period t =
     t\<lparr>pt_expire := pt_expire t + (if sint period > sint diff then period else diff)\<rparr>"

text \<open>
  The \<^verbatim>\<open>PROCESS_TIMER\<close> macros: two unsigned clock samples; a line is logged when at least \<open>t\<close>
  milliseconds lie between them.
\<close>

definition process_timer_end :: "uint32 \<Rightarrow> uint32 \<Rightarrow> uint32 \<Rightarrow> uint32 option" where
  "process_timer_end t before interval = (if interval - before \<ge> t then Some (interval - before) else None)"

section \<open>Lemmas\<close>

lemma it_advance_current:
  "0 \<le> it_current t \<Longrightarrow> 0 \<le> d \<Longrightarrow> it_advance d t = t\<lparr>it_current := it_current t + d\<rparr>"
  by (simp add: it_advance_def it_Update_def Let_def)

lemma it_fire_fields: "it_interval (snd (it_fire t)) = it_interval t"
  by (simp add: it_fire_def it_Reset_def)

lemma sint_word32_range: "- (2 ^ 31) \<le> sint (w :: 32 word)" "sint (w :: 32 word) < 2 ^ 31"
  using sint_ge [of w] sint_lt [of w] by simp_all

lemma sint_of_diff:
  fixes a b :: "32 word"
  assumes "- (2 ^ 31) \<le> sint a - sint b" "sint a - sint b < 2 ^ 31"
  shows "sint (a - b) = sint a - sint b"
proof -
  have "sint (a - b) = signed_take_bit 31 (sint a - sint b)"
    by (simp add: sint_word_ariths)
  also have "\<dots> = sint a - sint b"
    using assms by (intro signed_take_bit_int_eq_self) simp_all
  finally show ?thesis .
qed

lemma sint_of_sum:
  fixes a b :: "32 word"
  assumes "- (2 ^ 31) \<le> sint a + sint b" "sint a + sint b < 2 ^ 31"
  shows "sint (a + b) = sint a + sint b"
proof -
  have "sint (a + b) = signed_take_bit 31 (sint a + sint b)"
    by (simp add: sint_word_ariths)
  also have "\<dots> = sint a + sint b"
    using assms by (intro signed_take_bit_int_eq_self) simp_all
  finally show ?thesis .
qed

section \<open>Properties\<close>

text \<open>
  An interval timer that is updated with steps no longer than its interval does not drift: it
  has fired exactly as often as whole intervals have elapsed, and it keeps the remainder.
\<close>

theorem interval_timer_no_drift:
  assumes "0 < it_interval t" "0 \<le> it_current t" "it_current t < it_interval t"
    and "\<forall>d \<in> set ds. 0 \<le> d \<and> d \<le> it_interval t"
  shows "int (fst (it_run ds t)) = (it_current t + sum_list ds) div it_interval t \<and>
         snd (it_run ds t) = t\<lparr>it_current := (it_current t + sum_list ds) mod it_interval t\<rparr>"
  using assms
proof (induction ds arbitrary: t)
  case (Cons d ds)
  let ?I = "it_interval t" and ?c = "it_current t + d"
  have d: "0 \<le> d" "d \<le> ?I" "0 \<le> ?c" "?c < 2 * ?I" using Cons.prems by auto
  have adv: "it_advance d t = t\<lparr>it_current := ?c\<rparr>"
    using Cons.prems d by (simp add: it_advance_current)
  show ?case
  proof (cases "?c < ?I")
    case True
    let ?t = "t\<lparr>it_current := ?c\<rparr>"
    have "it_fire (it_advance d t) = (False, ?t)" using True adv by (simp add: it_fire_def it_Passed_def)
    moreover have "int (fst (it_run ds ?t)) = (?c + sum_list ds) div ?I \<and>
        snd (it_run ds ?t) = ?t\<lparr>it_current := (?c + sum_list ds) mod ?I\<rparr>"
      using Cons.IH [of ?t] Cons.prems d True by auto
    ultimately show ?thesis by (simp add: case_prod_unfold Let_def add.assoc)
  next
    case False
    let ?t = "t\<lparr>it_current := ?c - ?I\<rparr>"
    have "it_fire (it_advance d t) = (True, ?t)"
      using False adv by (simp add: it_fire_def it_Passed_def it_Reset_def)
    moreover have "int (fst (it_run ds ?t)) = (?c - ?I + sum_list ds) div ?I \<and>
        snd (it_run ds ?t) = ?t\<lparr>it_current := (?c - ?I + sum_list ds) mod ?I\<rparr>"
      using Cons.IH [of ?t] Cons.prems d False by auto
    moreover have "(?c - ?I + sum_list ds) div ?I = (?c + sum_list ds) div ?I - 1"
      "(?c - ?I + sum_list ds) mod ?I = (?c + sum_list ds) mod ?I"
      using Cons.prems(1) div_add_self1 [of ?I "?c - ?I + sum_list ds"] mod_add_self1 [of ?I "?c - ?I + sum_list ds"]
      by (simp_all add: algebra_simps)
    ultimately show ?thesis by (simp add: case_prod_unfold Let_def add.assoc)
  qed
qed simp

theorem interval_timer_no_drift_witness:
  "int (fst (it_run [40, 60, 99, 1] \<lparr>it_interval = 100, it_current = 50\<rparr>)) = 2 \<and>
   snd (it_run [40, 60, 99, 1] \<lparr>it_interval = 100, it_current = 50\<rparr>) = \<lparr>it_interval = 100, it_current = 50\<rparr>"
  using interval_timer_no_drift [of "\<lparr>it_interval = 100, it_current = 50\<rparr>" "[40, 60, 99, 1]"] by simp

text \<open>
  The mixed signed and unsigned arithmetic of the periodic timer is harmless in range: from an
  expiry within one period, after any step below \<open>2 ^ 31\<close> the expiry is again within one period,
  and the timer fires exactly when the step reaches the old expiry.
\<close>

theorem periodic_timer_in_period:
  assumes "0 < sint (pt_expire t)" "sint (pt_expire t) \<le> sint (pt_period t)" "0 \<le> sint d"
  shows "0 < sint (pt_expire (snd (pt_Update d t))) \<and>
         sint (pt_expire (snd (pt_Update d t))) \<le> sint (pt_period t) \<and>
         fst (pt_Update d t) = (sint (pt_expire t) \<le> sint d)"
proof -
  let ?e = "pt_expire t - d"
  let ?p = "if sint (pt_period t) > sint d then pt_period t else d"
  have e: "sint ?e = sint (pt_expire t) - sint d"
    using assms sint_word32_range [of "pt_expire t"] sint_word32_range [of d] by (intro sint_of_diff) linarith+
  have "sint ?e \<le> 0 \<Longrightarrow> sint (?e + ?p) = sint ?e + sint ?p"
    using assms e sint_word32_range [of "pt_period t"] sint_word32_range [of d] by (intro sint_of_sum) (auto split: if_splits)
  with assms e show ?thesis
    by (auto simp: pt_Update_def Let_def)
qed

theorem periodic_timer_in_period_witness:
  "0 < sint (pt_expire (snd (pt_Update 70 \<lparr>pt_period = 50, pt_expire = 20\<rparr>))) \<and>
   fst (pt_Update 70 \<lparr>pt_period = 50, pt_expire = 20\<rparr>)"
  using periodic_timer_in_period [of "\<lparr>pt_period = 50, pt_expire = 20\<rparr>" 70] by simp

end
