(* ===== verification/Sessions.thy ===== *)
theory Sessions
  imports Timers Relay_Client
begin

text \<open>
  The sessions and the world loop: \<^verbatim>\<open>CUserSession\<close>, \<^verbatim>\<open>CPlayerSession\<close>, \<^verbatim>\<open>CRelayClientSession\<close> and
  \<^verbatim>\<open>CSessCtrl\<close> (pitayaserver/framework/UserSession, PlayerSession, RelayClientSession, SessCtrl,
  with the settings of Set.cpp and the timer names of Defines.h).

  What the application does with a packet, a timer or a kick is the parameter \<open>handler_ops\<close>: a
  state and a list of effects on the session's connection (\<open>sess_effect\<close>), which are the only calls
  the handler class can make. \<open>now\<close> is the wall clock. The receive queue is filled by the
  network thread between two updates.
\<close>

section \<open>Settings and timer names\<close>

definition ClientActiveTime :: uint32 where "ClientActiveTime = 100"
definition ClientKeepAlive :: uint8 where "ClientKeepAlive = 1"
definition MaxPacketOverLoad :: uint32 where "MaxPacketOverLoad = 50"

definition TIMER_1S :: nat where "TIMER_1S = 1"
definition TIMER_3S :: nat where "TIMER_3S = 3"
definition TIMER_5S :: nat where "TIMER_5S = 5"
definition TIMER_15S :: nat where "TIMER_15S = 15"
definition TIMER_30S :: nat where "TIMER_30S = 30"
definition TIMER_1MIN :: nat where "TIMER_1MIN = 60"
definition TIMER_3MIN :: nat where "TIMER_3MIN = 180"
definition TIMER_5MIN :: nat where "TIMER_5MIN = 300"
definition TIMER_10MIN :: nat where "TIMER_10MIN = 600"
definition TIMER_30MIN :: nat where "TIMER_30MIN = 1800"

section \<open>The application handler\<close>

datatype sess_effect =
    Eff_Send bool world_packet
  | Eff_CloseSocket
  | Eff_CloseAsync close_async_flag

record 'h handler_ops =
  op_process :: "world_packet \<Rightarrow> 'h \<Rightarrow> 'h \<times> sess_effect list"
  op_timer :: "nat \<Rightarrow> 'h \<Rightarrow> 'h \<times> sess_effect list"
  op_kick :: "uint32 \<Rightarrow> 'h \<Rightarrow> 'h \<times> sess_effect list"
  op_uninit :: "'h \<Rightarrow> 'h"

section \<open>CUserSession\<close>

record 'h player_session =
  ps_client :: net_client
  ps_timers :: "interval_timer list"
  ps_active :: uint32
  ps_strIP :: string
  ps_handler :: 'h

definition us_SendPacket :: "bool \<Rightarrow> world_packet \<Rightarrow> 'h player_session \<Rightarrow> 'h player_session" where
  "us_SendPacket ev p ps =
     (if nc_isclose (ps_client ps) then ps
      else ps\<lparr>ps_client := nc_SendPacket ev p (ps_client ps)\<rparr>)"

definition us_CloseSocket :: "'h player_session \<Rightarrow> 'h player_session" where
  "us_CloseSocket ps =
     (if \<not> nc_isclose (ps_client ps) then ps\<lparr>ps_client := nc_CloseSocket (ps_client ps)\<rparr> else ps)"

definition us_GetRemoteIP :: "'h player_session \<Rightarrow> string \<times> 'h player_session" where
  "us_GetRemoteIP ps =
     (if ps_strIP ps = []
      then (if nc_isclose (ps_client ps) then ([], ps)
            else (nc_remoteip (ps_client ps), ps\<lparr>ps_strIP := nc_remoteip (ps_client ps)\<rparr>))
      else (ps_strIP ps, ps))"

text \<open>The destructor: close the socket, drop the packets that were not processed.\<close>

definition us_destroy :: "'h player_session \<Rightarrow> 'h player_session" where
  "us_destroy ps =
     (let ps = us_CloseSocket ps in ps\<lparr>ps_client := (ps_client ps)\<lparr>nc_recv := []\<rparr>\<rparr>)"

section \<open>CPlayerSession\<close>

definition ps_intervals :: "int list" where
  "ps_intervals = [1 * 1000, 3 * 1000, 5 * 1000, 30 * 1000, 1 * 60 * 1000, 3 * 60 * 1000, 5 * 60 * 1000,
     10 * 60 * 1000, 30 * 60 * 1000]"

text \<open>The argument \<^verbatim>\<open>OnTimer1s\<close> to \<^verbatim>\<open>OnTimer30min\<close> pass to the handler, in the order of \<^verbatim>\<open>UserTimers\<close>.\<close>

definition ps_timer_args :: "nat list" where
  "ps_timer_args = [TIMER_1S, TIMER_3S, TIMER_5S, TIMER_30S, TIMER_1MIN, TIMER_3MIN, TIMER_5MIN, TIMER_10MIN, TIMER_30MIN]"

definition ps_new :: "net_client \<Rightarrow> uint32 \<Rightarrow> 'h \<Rightarrow> 'h player_session" where
  "ps_new client now h =
     snd (us_GetRemoteIP
       \<lparr>ps_client = client, ps_timers = map (\<lambda>i. it_SetInterval i it_new) ps_intervals, ps_active = now,
        ps_strIP = [], ps_handler = h\<rparr>)"

definition ps_effect :: "sess_effect \<Rightarrow> 'h player_session \<Rightarrow> 'h player_session" where
  "ps_effect e ps =
     (case e of
        Eff_Send ev p \<Rightarrow> us_SendPacket ev p ps
      | Eff_CloseSocket \<Rightarrow> us_CloseSocket ps
      | Eff_CloseAsync f \<Rightarrow> ps\<lparr>ps_client := nc_CloseSocketAsync f (ps_client ps)\<rparr>)"

definition ps_call :: "('h \<Rightarrow> 'h \<times> sess_effect list) \<Rightarrow> 'h player_session \<Rightarrow> 'h player_session" where
  "ps_call f ps = (let (h, es) = f (ps_handler ps) in fold ps_effect es (ps\<lparr>ps_handler := h\<rparr>))"

definition ps_Offline :: "'h handler_ops \<Rightarrow> 'h player_session \<Rightarrow> 'h player_session" where
  "ps_Offline ops ps = ps\<lparr>ps_handler := op_uninit ops (ps_handler ps)\<rparr>"

lemma ps_effect_recv [simp]: "nc_recv (ps_client (ps_effect e ps)) = nc_recv (ps_client ps)"
  by (cases e) (simp_all add: ps_effect_def us_SendPacket_def us_CloseSocket_def nc_SendPacket_def
      nc_CloseSocket_def nc_CloseSocketAsync_def Let_def)

lemma fold_effect_recv [simp]: "nc_recv (ps_client (fold ps_effect es ps)) = nc_recv (ps_client ps)"
  by (induction es arbitrary: ps) simp_all

lemma ps_call_recv [simp]: "nc_recv (ps_client (ps_call f ps)) = nc_recv (ps_client ps)"
  by (simp add: ps_call_def case_prod_unfold Let_def)

text \<open>
  The packet loop of \<^verbatim>\<open>Update\<close>. The overload test looks at what is still queued behind the packet
  just taken; that packet is then neither processed nor freed.
\<close>

function ps_drain ::
  "'h handler_ops \<Rightarrow> uint32 \<Rightarrow> 'h player_session \<Rightarrow> bool \<times> 'h player_session" where
  "ps_drain ops now ps =
     (if \<not> nc_isclose (ps_client ps) \<and> nc_recv (ps_client ps) \<noteq> []
      then
        let packet = hd (nc_recv (ps_client ps));
            ps' = ps\<lparr>ps_client := (ps_client ps)\<lparr>nc_recv := tl (nc_recv (ps_client ps))\<rparr>, ps_active := now\<rparr>
        in if length (nc_recv (ps_client ps')) \<ge> unat MaxPacketOverLoad
           then (False, ps_Offline ops ps')
           else ps_drain ops now (ps_call (op_process ops packet) ps')
      else (True, ps))"
  by pat_completeness auto
termination
  by (relation "measure (\<lambda>(_, _, ps). length (nc_recv (ps_client ps)))") auto

declare ps_drain.simps [simp del]

definition ps_fire_one :: "'h handler_ops \<Rightarrow> nat \<Rightarrow> 'h player_session \<Rightarrow> 'h player_session" where
  "ps_fire_one ops i ps =
     (case it_fire (ps_timers ps ! i) of
        (True, t) \<Rightarrow> ps_call (op_timer ops (ps_timer_args ! i)) (ps\<lparr>ps_timers := (ps_timers ps)[i := t]\<rparr>)
      | (False, _) \<Rightarrow> ps)"

definition ps_fire_timers :: "'h handler_ops \<Rightarrow> 'h player_session \<Rightarrow> 'h player_session" where
  "ps_fire_timers ops ps = fold (ps_fire_one ops) [0..<9] ps"

definition ps_Update ::
  "'h handler_ops \<Rightarrow> uint32 \<Rightarrow> int \<Rightarrow> 'h player_session \<Rightarrow> bool \<times> 'h player_session" where
  "ps_Update ops now diff ps =
     (let (go, ps) = ps_drain ops now ps in
      if \<not> go then (False, ps)
      else
        let ps = ps_fire_timers ops (ps\<lparr>ps_timers := map (it_advance diff) (ps_timers ps)\<rparr>)
        in if nc_isclose (ps_client ps) then (False, ps_Offline ops ps) else (True, ps))"

definition ps_KickSession :: "close_async_flag \<Rightarrow> 'h player_session \<Rightarrow> 'h player_session" where
  "ps_KickSession e ps = ps\<lparr>ps_client := nc_CloseSocketAsync e (ps_client ps)\<rparr>"

definition ps_HandlerKick :: "'h handler_ops \<Rightarrow> uint32 \<Rightarrow> 'h player_session \<Rightarrow> 'h player_session" where
  "ps_HandlerKick ops type ps =
     ps_KickSession E_CLOSE_ASYNC_FLAG_FLUSH_CLOSE (ps_call (op_kick ops type) ps)"

section \<open>CRelayClientSession\<close>

record 'r relay_session =
  rs_client :: "client option"
  rs_key :: nat
  rs_timers :: "interval_timer list"
  rs_handler :: 'r

definition rs_timer_args :: "nat list" where
  "rs_timer_args = [TIMER_1S, TIMER_3S, TIMER_5S, TIMER_1MIN, TIMER_10MIN, TIMER_30MIN]"

definition rs_new :: "client option \<Rightarrow> nat \<Rightarrow> 'r \<Rightarrow> 'r relay_session" where
  "rs_new client key h =
     \<lparr>rs_client = client, rs_key = key,
      rs_timers = map (\<lambda>i. it_SetInterval i it_new) [1 * 1000, 3 * 1000, 5 * 1000, 60 * 1000, 600 * 1000, 1800 * 1000],
      rs_handler = h\<rparr>"

definition rs_SendPacket :: "bool \<Rightarrow> world_packet \<Rightarrow> 'r relay_session \<Rightarrow> 'r relay_session" where
  "rs_SendPacket ev p rs = rs\<lparr>rs_client := map_option (cl_SendPacket ev p) (rs_client rs)\<rparr>"

text \<open>The relay handler has one call on its session, \<^verbatim>\<open>SendPacket\<close>; it is given as the packets it sends.\<close>

record 'r relay_ops =
  ro_process :: "world_packet \<Rightarrow> 'r \<Rightarrow> 'r \<times> (bool \<times> world_packet) list"
  ro_timer :: "nat \<Rightarrow> 'r \<Rightarrow> 'r \<times> (bool \<times> world_packet) list"
  ro_uninit :: "'r \<Rightarrow> 'r"

definition rs_call :: "('r \<Rightarrow> 'r \<times> (bool \<times> world_packet) list) \<Rightarrow> 'r relay_session \<Rightarrow> 'r relay_session" where
  "rs_call f rs = (let (h, ps) = f (rs_handler rs) in fold (\<lambda>(ev, p). rs_SendPacket ev p) ps (rs\<lparr>rs_handler := h\<rparr>))"

definition rs_queue :: "'r relay_session \<Rightarrow> world_packet list" where
  "rs_queue rs = (case rs_client rs of None \<Rightarrow> [] | Some c \<Rightarrow> cl_recv c)"

lemma rs_send_queue: "rs_queue (rs_SendPacket ev p rs) = rs_queue rs"
  by (simp add: rs_queue_def rs_SendPacket_def cl_SendPacket_def cl_CloseClient_def Let_def split: option.splits)

lemma rs_call_queue [simp]: "rs_queue (rs_call f rs) = rs_queue rs"
proof -
  have "rs_queue (fold (\<lambda>(ev, p). rs_SendPacket ev p) ps rs) = rs_queue rs" for ps and rs :: "'a relay_session"
    by (induction ps arbitrary: rs) (auto simp: rs_send_queue)
  then show ?thesis by (simp add: rs_call_def case_prod_unfold Let_def) (simp add: rs_queue_def)
qed

function rs_drain :: "'r relay_ops \<Rightarrow> 'r relay_session \<Rightarrow> 'r relay_session" where
  "rs_drain ops rs =
     (case rs_queue rs of
        [] \<Rightarrow> rs
      | packet # q \<Rightarrow>
          rs_drain ops (rs_call (ro_process ops packet) (rs\<lparr>rs_client := map_option (\<lambda>c. c\<lparr>cl_recv := q\<rparr>) (rs_client rs)\<rparr>)))"
  by pat_completeness auto
termination
proof (relation "measure (\<lambda>(_, rs). length (rs_queue rs))", goal_cases)
  case (2 ops rs packet q)
  have "rs_queue (rs\<lparr>rs_client := map_option (\<lambda>c. c\<lparr>cl_recv := q\<rparr>) (rs_client rs)\<rparr>) = q"
    using 2 by (auto simp: rs_queue_def split: option.splits)
  with 2 show ?case by simp
qed simp

declare rs_drain.simps [simp del]

definition rs_fire_one :: "'r relay_ops \<Rightarrow> nat \<Rightarrow> 'r relay_session \<Rightarrow> 'r relay_session" where
  "rs_fire_one ops i rs =
     (case it_fire (rs_timers rs ! i) of
        (True, t) \<Rightarrow> rs_call (ro_timer ops (rs_timer_args ! i)) (rs\<lparr>rs_timers := (rs_timers rs)[i := t]\<rparr>)
      | (False, _) \<Rightarrow> rs)"

definition rs_Update :: "'r relay_ops \<Rightarrow> int \<Rightarrow> 'r relay_session \<Rightarrow> bool \<times> 'r relay_session" where
  "rs_Update ops diff rs =
     (let rs = rs_drain ops rs;
          rs = rs\<lparr>rs_timers := map (it_advance diff) (rs_timers rs)\<rparr>;
          rs = fold (rs_fire_one ops) [0..<6] rs
      in if (\<exists>c \<in> set_option (rs_client rs). \<not> cl_connected c)
         then (False, rs\<lparr>rs_handler := ro_uninit ops (rs_handler rs)\<rparr>) else (True, rs))"

section \<open>CSessCtrl\<close>

text \<open>\<open>World_Timer\<close> is a call of \<^verbatim>\<open>HandlerOntimer\<close>.\<close>

datatype world_event = World_Timer nat | World_LogFileChange | World_ReleaseFreeMemory

record ('h, 'r) sess_ctrl =
  sc_addQueue :: "(uint32 \<times> 'h player_session) list"
  sc_sessions :: "(uint32 \<times> 'h player_session) list"
  sc_dead :: "'h player_session list"
  sc_timers :: "interval_timer list"
  sc_relays :: "'r relay_session option list"
  sc_logtime :: uint32
  sc_events :: "world_event list"

definition sc_intervals :: "int list" where
  "sc_intervals = [1 * 1000, 3 * 1000, 5 * 1000, 15 * 1000, 30 * 1000, 1 * 60 * 1000, 3 * 60 * 1000, 5 * 60 * 1000,
     10 * 60 * 1000, 30 * 60 * 1000]"

definition sc_new :: "('h, 'r) sess_ctrl" where
  "sc_new = \<lparr>sc_addQueue = [], sc_sessions = [], sc_dead = [], sc_timers = replicate 10 it_new, sc_relays = [],
     sc_logtime = 0, sc_events = []\<rparr>"

definition sc_InitSettings :: "uint32 \<Rightarrow> bool \<Rightarrow> ('h, 'r) sess_ctrl \<Rightarrow> bool \<times> ('h, 'r) sess_ctrl" where
  "sc_InitSettings now handler_ok sc =
     (handler_ok, sc\<lparr>sc_timers := map2 it_SetInterval sc_intervals (sc_timers sc), sc_logtime := now\<rparr>)"

definition sc_AddSession :: "uint32 \<Rightarrow> 'h player_session \<Rightarrow> ('h, 'r) sess_ctrl \<Rightarrow> ('h, 'r) sess_ctrl" where
  "sc_AddSession netid ps sc = sc\<lparr>sc_addQueue := sc_addQueue sc @ [(netid, ps)]\<rparr>"

definition sc_add :: "uint32 \<times> 'h player_session \<Rightarrow> ('h, 'r) sess_ctrl \<Rightarrow> ('h, 'r) sess_ctrl" where
  "sc_add e sc = sc\<lparr>sc_sessions := omap_set (fst e) (snd e) (sc_sessions sc)\<rparr>"

text \<open>The loop of \<^verbatim>\<open>UpdateSessions\<close>: sessions whose \<^verbatim>\<open>Update\<close> is false leave the map and are deleted.\<close>

fun sc_update_loop ::
  "'h handler_ops \<Rightarrow> uint32 \<Rightarrow> int \<Rightarrow> (uint32 \<times> 'h player_session) list \<Rightarrow>
   (uint32 \<times> 'h player_session) list \<times> 'h player_session list" where
  "sc_update_loop ops now diff [] = ([], [])"
| "sc_update_loop ops now diff ((k, ps) # rest) =
     (let (alive, ps) = ps_Update ops now diff ps;
          (live, dead) = sc_update_loop ops now diff rest
      in if \<not> alive then (live, us_destroy ps # dead) else ((k, ps) # live, dead))"

definition sc_UpdateSessions ::
  "'h handler_ops \<Rightarrow> uint32 \<Rightarrow> int \<Rightarrow> ('h, 'r) sess_ctrl \<Rightarrow> ('h, 'r) sess_ctrl" where
  "sc_UpdateSessions ops now diff sc =
     (let sc = (fold sc_add (sc_addQueue sc) sc)\<lparr>sc_addQueue := []\<rparr>;
          (live, dead) = sc_update_loop ops now diff (sc_sessions sc)
      in sc\<lparr>sc_sessions := live, sc_dead := sc_dead sc @ dead\<rparr>)"

text \<open>\<^verbatim>\<open>UpdateRelayClient\<close> stops at the first missing relay session.\<close>

fun sc_update_relays :: "'r relay_ops \<Rightarrow> int \<Rightarrow> 'r relay_session option list \<Rightarrow> 'r relay_session option list" where
  "sc_update_relays ops diff [] = []"
| "sc_update_relays ops diff (None # rest) = None # rest"
| "sc_update_relays ops diff (Some rs # rest) = Some (snd (rs_Update ops diff rs)) # sc_update_relays ops diff rest"

definition sc_UpdateRelayClient :: "'r relay_ops \<Rightarrow> int \<Rightarrow> ('h, 'r) sess_ctrl \<Rightarrow> ('h, 'r) sess_ctrl" where
  "sc_UpdateRelayClient ops diff sc = sc\<lparr>sc_relays := sc_update_relays ops diff (sc_relays sc)\<rparr>"

definition sc_AddRelayClientSession :: "'r relay_session \<Rightarrow> ('h, 'r) sess_ctrl \<Rightarrow> ('h, 'r) sess_ctrl" where
  "sc_AddRelayClientSession rs sc =
     (let v = (if rs_key rs \<ge> length (sc_relays sc) then vec_resize None (rs_key rs + 1) (sc_relays sc) else sc_relays sc)
      in sc\<lparr>sc_relays := v[rs_key rs := Some rs]\<rparr>)"

definition sc_AllOffline :: "'h handler_ops \<Rightarrow> 'r relay_ops \<Rightarrow> ('h, 'r) sess_ctrl \<Rightarrow> ('h, 'r) sess_ctrl" where
  "sc_AllOffline ops rops sc =
     sc\<lparr>sc_sessions := map (\<lambda>(k, ps). (k, us_destroy (ps_Offline ops ps))) (sc_sessions sc),
        sc_relays := map (map_option (\<lambda>rs. rs\<lparr>rs_handler := ro_uninit rops (rs_handler rs)\<rparr>)) (sc_relays sc)\<rparr>"

definition sc_SendToRelay :: "bool \<Rightarrow> world_packet \<Rightarrow> nat \<Rightarrow> ('h, 'r) sess_ctrl \<Rightarrow> bool \<times> ('h, 'r) sess_ctrl" where
  "sc_SendToRelay ev pkg key sc =
     (if length (sc_relays sc) \<le> key then (False, sc)
      else (case sc_relays sc ! key of
              None \<Rightarrow> (False, sc)
            | Some rs \<Rightarrow> (True, sc\<lparr>sc_relays := (sc_relays sc)[key := Some (rs_SendPacket ev pkg rs)]\<rparr>)))"

definition sc_SendPkgToAll :: "(uint32 \<Rightarrow> bool) \<Rightarrow> world_packet \<Rightarrow> ('h, 'r) sess_ctrl \<Rightarrow> ('h, 'r) sess_ctrl" where
  "sc_SendPkgToAll ev pkg sc =
     sc\<lparr>sc_sessions := map (\<lambda>(k, ps). (k, us_SendPacket (ev k) pkg ps)) (sc_sessions sc)\<rparr>"

fun sc_part_loop ::
  "(uint32 \<Rightarrow> bool) \<Rightarrow> world_packet \<Rightarrow> uint32 \<Rightarrow> uint32 \<Rightarrow> uint32 \<Rightarrow> (uint32 \<times> 'h player_session) list \<Rightarrow>
   (uint32 \<times> 'h player_session) list" where
  "sc_part_loop ev pkg off number i [] = []"
| "sc_part_loop ev pkg off number i ((k, ps) # rest) =
     (k, if i \<ge> off \<and> i < off + number then us_SendPacket (ev k) pkg ps else ps) #
     sc_part_loop ev pkg off number (i + 1) rest"

definition sc_SendPkgToPart ::
  "(uint32 \<Rightarrow> bool) \<Rightarrow> world_packet \<Rightarrow> uint32 \<Rightarrow> uint32 \<Rightarrow> ('h, 'r) sess_ctrl \<Rightarrow> ('h, 'r) sess_ctrl" where
  "sc_SendPkgToPart ev pkg off number sc =
     sc\<lparr>sc_sessions := sc_part_loop ev pkg off number 0 (sc_sessions sc)\<rparr>"

definition sc_event :: "world_event \<Rightarrow> ('h, 'r) sess_ctrl \<Rightarrow> ('h, 'r) sess_ctrl" where
  "sc_event e sc = sc\<lparr>sc_events := sc_events sc @ [e]\<rparr>"

definition KICK_NOT_ALIVE :: uint32 where "KICK_NOT_ALIVE = 1001"

text \<open>\<^verbatim>\<open>GetdwActiveTime() + ClientActiveTime\<close> is a 32-bit sum, compared with a 64-bit \<^verbatim>\<open>time_t\<close>.\<close>

definition sc_Update3s :: "'h handler_ops \<Rightarrow> int \<Rightarrow> ('h, 'r) sess_ctrl \<Rightarrow> ('h, 'r) sess_ctrl" where
  "sc_Update3s ops now sc =
     (let sc = sc_event (World_Timer TIMER_3S) sc in
      if ClientKeepAlive \<noteq> 0
      then sc\<lparr>sc_sessions := map (\<lambda>(k, ps).
             (k, if uint (ps_active ps + ClientActiveTime) \<le> now then ps_HandlerKick ops KICK_NOT_ALIVE ps else ps))
             (sc_sessions sc)\<rparr>
      else sc)"

definition sc_Update10min :: "(uint32 \<Rightarrow> bool) \<Rightarrow> uint32 \<Rightarrow> ('h, 'r) sess_ctrl \<Rightarrow> ('h, 'r) sess_ctrl" where
  "sc_Update10min is_today now sc =
     sc_event (World_Timer TIMER_10MIN)
       (if \<not> is_today (sc_logtime sc) then sc_event World_LogFileChange (sc\<lparr>sc_logtime := now\<rparr>) else sc)"

definition sc_Update30min :: "('h, 'r) sess_ctrl \<Rightarrow> ('h, 'r) sess_ctrl" where
  "sc_Update30min sc = sc_event (World_Timer TIMER_30MIN) (sc_event World_ReleaseFreeMemory sc)"

definition sc_on_timer ::
  "'h handler_ops \<Rightarrow> (uint32 \<Rightarrow> bool) \<Rightarrow> int \<Rightarrow> nat \<Rightarrow> ('h, 'r) sess_ctrl \<Rightarrow> ('h, 'r) sess_ctrl" where
  "sc_on_timer ops is_today now i sc =
     (if i = 0 then sc_event (World_Timer TIMER_1S) sc
      else if i = 1 then sc_Update3s ops now sc
      else if i = 2 then sc_event (World_Timer TIMER_5S) sc
      else if i = 3 then sc_event (World_Timer TIMER_15S) sc
      else if i = 4 then sc_event (World_Timer TIMER_30S) sc
      else if i = 5 then sc_event (World_Timer TIMER_1MIN) sc
      else if i = 6 then sc_event (World_Timer TIMER_3MIN) sc
      else if i = 7 then sc_event (World_Timer TIMER_5MIN) sc
      else if i = 8 then sc_Update10min is_today (word_of_int now) sc
      else sc_Update30min sc)"

definition sc_fire_one ::
  "'h handler_ops \<Rightarrow> (uint32 \<Rightarrow> bool) \<Rightarrow> int \<Rightarrow> nat \<Rightarrow> ('h, 'r) sess_ctrl \<Rightarrow> ('h, 'r) sess_ctrl" where
  "sc_fire_one ops is_today now i sc =
     (case it_fire (sc_timers sc ! i) of
        (True, t) \<Rightarrow> sc_on_timer ops is_today now i (sc\<lparr>sc_timers := (sc_timers sc)[i := t]\<rparr>)
      | (False, _) \<Rightarrow> sc)"

definition sc_Update ::
  "'h handler_ops \<Rightarrow> 'r relay_ops \<Rightarrow> (uint32 \<Rightarrow> bool) \<Rightarrow> int \<Rightarrow> int \<Rightarrow> ('h, 'r) sess_ctrl \<Rightarrow> ('h, 'r) sess_ctrl" where
  "sc_Update ops rops is_today now diff sc =
     (let sc = sc\<lparr>sc_timers := map (it_advance diff) (sc_timers sc)\<rparr>;
          sc = fold (sc_fire_one ops is_today now) [0..<10] sc
      in sc_UpdateRelayClient rops diff (sc_UpdateSessions ops (word_of_int now) diff sc))"

definition sc_GetOnlineNum :: "('h, 'r) sess_ctrl \<Rightarrow> uint32" where
  "sc_GetOnlineNum sc = word_of_nat (length (sc_sessions sc))"

section \<open>Lemmas\<close>

lemma us_destroy_closed [simp]: "nc_isclose (ps_client (us_destroy ps))" "nc_recv (ps_client (us_destroy ps)) = []"
  by (simp_all add: us_destroy_def us_CloseSocket_def nc_CloseSocket_def Let_def)

lemma ps_fire_one_recv: "nc_recv (ps_client (ps_fire_one ops i ps)) = nc_recv (ps_client ps)"
  by (auto simp: ps_fire_one_def split: prod.splits bool.splits)

lemma fold_fire_recv: "nc_recv (ps_client (fold (ps_fire_one ops) is ps)) = nc_recv (ps_client ps)"
  by (induction "is" arbitrary: ps) (simp_all add: ps_fire_one_recv)

lemma ps_fire_timers_recv: "nc_recv (ps_client (ps_fire_timers ops ps)) = nc_recv (ps_client ps)"
  by (simp add: ps_fire_timers_def fold_fire_recv)

text \<open>A closed socket stays closed.\<close>

lemma ps_effect_closed: "nc_isclose (ps_client ps) \<Longrightarrow> nc_isclose (ps_client (ps_effect e ps))"
  by (cases e) (simp_all add: ps_effect_def us_SendPacket_def us_CloseSocket_def nc_CloseSocketAsync_def)

lemma ps_call_closed: "nc_isclose (ps_client ps) \<Longrightarrow> nc_isclose (ps_client (ps_call f ps))"
proof -
  assume closed: "nc_isclose (ps_client ps)"
  have "nc_isclose (ps_client ps) \<Longrightarrow> nc_isclose (ps_client (fold ps_effect es ps))" for es and ps :: "'a player_session"
    by (induction es arbitrary: ps) (auto simp: ps_effect_closed)
  with closed show ?thesis by (simp add: ps_call_def case_prod_unfold Let_def)
qed

lemma ps_fire_one_closed: "nc_isclose (ps_client ps) \<Longrightarrow> nc_isclose (ps_client (ps_fire_one ops i ps))"
  by (auto simp: ps_fire_one_def ps_call_closed split: prod.splits bool.splits)

lemma ps_fire_timers_closed: "nc_isclose (ps_client ps) \<Longrightarrow> nc_isclose (ps_client (ps_fire_timers ops ps))"
proof -
  assume closed: "nc_isclose (ps_client ps)"
  have "nc_isclose (ps_client ps) \<Longrightarrow> nc_isclose (ps_client (fold (ps_fire_one ops) is ps))" for "is" and ps :: "'a player_session"
    by (induction "is" arbitrary: ps) (auto simp: ps_fire_one_closed)
  with closed show ?thesis by (simp add: ps_fire_timers_def)
qed

text \<open>The packet loop either refuses at once or drains the queue unless the socket is closed on the way.\<close>

lemma ps_drain_overload:
  "\<not> nc_isclose (ps_client ps) \<Longrightarrow> unat MaxPacketOverLoad < length (nc_recv (ps_client ps)) \<Longrightarrow>
   fst (ps_drain ops now ps) = False \<and> ps_handler (snd (ps_drain ops now ps)) = op_uninit ops (ps_handler ps)"
  by (subst (1 2) ps_drain.simps) (auto simp: Let_def ps_Offline_def)

lemma ps_drain_empties:
  "length (nc_recv (ps_client ps)) \<le> unat MaxPacketOverLoad \<Longrightarrow>
   fst (ps_drain ops now ps) \<and>
   (nc_isclose (ps_client (snd (ps_drain ops now ps))) \<or> nc_recv (ps_client (snd (ps_drain ops now ps))) = [])"
proof (induction ops now ps rule: ps_drain.induct)
  case (1 ops now ps)
  let ?q = "nc_recv (ps_client ps)"
  let ?ps' = "ps\<lparr>ps_client := (ps_client ps)\<lparr>nc_recv := tl ?q\<rparr>, ps_active := now\<rparr>"
  show ?case
  proof (cases "\<not> nc_isclose (ps_client ps) \<and> ?q \<noteq> []")
    case True
    then have "length (tl ?q) < unat MaxPacketOverLoad" using "1.prems" by (cases ?q) auto
    then have less: "\<not> length (nc_recv (ps_client ?ps')) \<ge> unat MaxPacketOverLoad" by simp
    let ?next = "ps_call (op_process ops (hd ?q)) ?ps'"
    have eq: "ps_drain ops now ps = ps_drain ops now ?next"
      using True less by (subst ps_drain.simps) (simp add: Let_def)
    have "length (nc_recv (ps_client ?next)) \<le> unat MaxPacketOverLoad" using less by simp
    from "1.IH" [OF True refl refl less this] eq show ?thesis by simp
  next
    case False
    then show ?thesis by (subst (1 2 3) ps_drain.simps) auto
  qed
qed

lemma ps_drain_closed:
  "nc_isclose (ps_client ps) \<Longrightarrow> ps_drain ops now ps = (True, ps)"
  by (subst ps_drain.simps) simp

lemma ps_Update_closed: "nc_isclose (ps_client ps) \<Longrightarrow> \<not> fst (ps_Update ops now diff ps)"
  using ps_fire_timers_closed [of "ps\<lparr>ps_timers := map (it_advance diff) (ps_timers ps)\<rparr>" ops]
  by (simp add: ps_Update_def ps_drain_closed Let_def)

section \<open>Properties\<close>

text \<open>
  C15: an update of a player session with more than \<^verbatim>\<open>MaxPacketOverLoad\<close> packets queued processes
  none of them, takes the handler offline and asks for the session to be removed; with at most
  that many it never refuses for overload, and if it reports the session alive the socket is open
  and every packet has been taken from the queue.
\<close>

theorem player_update_overload:
  "(\<not> nc_isclose (ps_client ps) \<and> unat MaxPacketOverLoad < length (nc_recv (ps_client ps)) \<longrightarrow>
      \<not> fst (ps_Update ops now diff ps) \<and>
      ps_handler (snd (ps_Update ops now diff ps)) = op_uninit ops (ps_handler ps)) \<and>
   (length (nc_recv (ps_client ps)) \<le> unat MaxPacketOverLoad \<longrightarrow>
      (if fst (ps_Update ops now diff ps)
       then \<not> nc_isclose (ps_client (snd (ps_Update ops now diff ps))) \<and>
            nc_recv (ps_client (snd (ps_Update ops now diff ps))) = []
       else nc_isclose (ps_client (snd (ps_Update ops now diff ps)))))"
proof (intro conjI impI, goal_cases)
  case 1
  then have "\<not> nc_isclose (ps_client ps)" "unat MaxPacketOverLoad < length (nc_recv (ps_client ps))" by auto
  from ps_drain_overload [OF this, of ops now] show ?case
    by (cases "ps_drain ops now ps") (auto simp: ps_Update_def Let_def)
next
  case 2
  from this show ?case
    using ps_drain_overload [of ps ops now] by (cases "ps_drain ops now ps") (auto simp: ps_Update_def Let_def)
next
  case 3
  obtain ps1 where d: "ps_drain ops now ps = (True, ps1)" "nc_isclose (ps_client ps1) \<or> nc_recv (ps_client ps1) = []"
    using ps_drain_empties [OF 3, of ops now] by (cases "ps_drain ops now ps") auto
  show ?case
    using d ps_fire_timers_closed [of "ps1\<lparr>ps_timers := map (it_advance diff) (ps_timers ps1)\<rparr>" ops]
    by (auto simp: ps_Update_def Let_def ps_fire_timers_recv ps_Offline_def)
qed

theorem player_update_overload_witness:
  "\<not> fst (ps_Update \<lparr>op_process = (\<lambda>p h. (h + 1, [])), op_timer = (\<lambda>i h. (h, [])), op_kick = (\<lambda>t h. (h, [])),
       op_uninit = (\<lambda>h. 99 :: nat)\<rparr> 7 10
     (ps_new ((nc_new zero_alloc 3)\<lparr>nc_recv := replicate 60 (wp_opc 1)\<rparr>) 0 (0 :: nat))) \<and>
   ps_handler (snd (ps_Update \<lparr>op_process = (\<lambda>p h. (h + 1, [])), op_timer = (\<lambda>i h. (h, [])), op_kick = (\<lambda>t h. (h, [])),
       op_uninit = (\<lambda>h. 99 :: nat)\<rparr> 7 10
     (ps_new ((nc_new zero_alloc 3)\<lparr>nc_recv := replicate 60 (wp_opc 1)\<rparr>) 0 0))) = 99"
proof -
  let ?ops = "\<lparr>op_process = (\<lambda>p h. (h + 1, [])), op_timer = (\<lambda>i h. (h, [])), op_kick = (\<lambda>t h. (h, [])),
       op_uninit = (\<lambda>h. 99 :: nat)\<rparr>"
  let ?ps = "ps_new ((nc_new zero_alloc 3)\<lparr>nc_recv := replicate 60 (wp_opc 1)\<rparr>) 0 (0 :: nat)"
  have "\<not> nc_isclose (ps_client ?ps)" "length (nc_recv (ps_client ?ps)) = 60"
    by (simp_all add: ps_new_def us_GetRemoteIP_def nc_new_def)
  then show ?thesis
    using player_update_overload [of ?ps ?ops 7 10] by (simp add: MaxPacketOverLoad_def)
qed

lemma update_loop_spec:
  "sc_update_loop ops now diff ss =
     (map (\<lambda>(k, ps). (k, snd (ps_Update ops now diff ps))) (filter (\<lambda>(k, ps). fst (ps_Update ops now diff ps)) ss),
      map (\<lambda>(k, ps). us_destroy (snd (ps_Update ops now diff ps))) (filter (\<lambda>(k, ps). \<not> fst (ps_Update ops now diff ps)) ss))"
  by (induction ss) (auto simp: case_prod_unfold Let_def)

lemma fold_sc_add:
  "sc_sessions (fold sc_add q sc) = fold (\<lambda>e. omap_set (fst e) (snd e)) q (sc_sessions sc) \<and>
   sc_dead (fold sc_add q sc) = sc_dead sc"
  by (induction q arbitrary: sc) (simp_all add: sc_add_def)

lemma fold_omap_set_ok: "omap_ok m \<Longrightarrow> omap_ok (fold (\<lambda>e. omap_set (fst e) (snd e)) q m)"
  by (induction q arbitrary: m) (auto intro: omap_ok_set)

lemma map_of_fold_omap_set:
  "omap_ok m \<Longrightarrow> map_of (fold (\<lambda>e. omap_set (fst e) (snd e)) q m) = map_of m ++ map_of (rev q)"
proof (induction q arbitrary: m)
  case (Cons e q)
  then show ?case
    by (cases e) (auto simp: map_of_omap_set omap_ok_set fun_eq_iff map_add_def split: option.splits)
qed simp

text \<open>
  C14: one pass over the sessions first admits everything that was queued, then updates every
  session exactly once; a session stays, updated, exactly when its update reports it alive, and the
  table stays ordered by id. Each of the others, once and in the order of the ids, goes through its
  destructor after its update: it is added to the deleted sessions, with its socket closed and no
  packet left in its queue, and nothing else is. The table is ordered by id before the pass.
\<close>

theorem update_sessions_spec:
  assumes "omap_ok (sc_sessions sc)"
  shows "let all = map_of (sc_sessions sc) ++ map_of (rev (sc_addQueue sc));
             sc' = sc_UpdateSessions ops now diff sc
         in sc_addQueue sc' = [] \<and> omap_ok (sc_sessions sc') \<and>
            (\<forall>k. map_of (sc_sessions sc') k =
               (case all k of None \<Rightarrow> None
                | Some ps \<Rightarrow> if fst (ps_Update ops now diff ps) then Some (snd (ps_Update ops now diff ps)) else None)) \<and>
            (\<exists>removed. omap_ok removed \<and>
               (\<forall>k. map_of removed k =
                  (case all k of None \<Rightarrow> None
                   | Some ps \<Rightarrow> if fst (ps_Update ops now diff ps) then None else Some ps)) \<and>
               sc_dead sc' = sc_dead sc @ map (\<lambda>(k, ps). us_destroy (snd (ps_Update ops now diff ps))) removed) \<and>
            (\<forall>ps \<in> set (drop (length (sc_dead sc)) (sc_dead sc')). nc_isclose (ps_client ps) \<and> nc_recv (ps_client ps) = [])"
proof -
  let ?m = "fold (\<lambda>e. omap_set (fst e) (snd e)) (sc_addQueue sc) (sc_sessions sc)"
  let ?P = "\<lambda>(k, ps). fst (ps_Update ops now diff ps)"
  let ?N = "\<lambda>(k, ps). \<not> fst (ps_Update ops now diff ps)"
  let ?f = "\<lambda>(k, ps). (k, snd (ps_Update ops now diff ps))"
  let ?g = "\<lambda>(k, ps). us_destroy (snd (ps_Update ops now diff ps))"
  have ok: "omap_ok ?m" using assms by (rule fold_omap_set_ok)
  have keys: "map fst (map ?f xs) = map fst xs" for xs :: "(uint32 \<times> 'a player_session) list"
    by (induction xs) auto
  have ok': "omap_ok (map ?f (filter ?P ?m))"
    using ok unfolding omap_ok_def keys by (induction ?m) (auto simp: sorted_wrt_map sorted_wrt_filter)
  have lookup: "map_of (map ?f (filter ?P xs)) k =
      (case map_of xs k of None \<Rightarrow> None
       | Some ps \<Rightarrow> if fst (ps_Update ops now diff ps) then Some (snd (ps_Update ops now diff ps)) else None)"
    if "omap_ok xs" for xs k
    using that by (induction xs) (force split: option.splits dest: map_of_SomeD)+
  have okN: "omap_ok (filter ?N ?m)"
    using ok unfolding omap_ok_def by (induction ?m) (auto simp: sorted_wrt_map sorted_wrt_filter)
  have lookupN: "map_of (filter ?N xs) k =
      (case map_of xs k of None \<Rightarrow> None | Some ps \<Rightarrow> if fst (ps_Update ops now diff ps) then None else Some ps)"
    if "omap_ok xs" for xs k
    using that by (induction xs) (force split: option.splits dest: map_of_SomeD)+
  have dead: "sc_dead (sc_UpdateSessions ops now diff sc) = sc_dead sc @ map ?g (filter ?N ?m)"
    using fold_sc_add [of "sc_addQueue sc" sc] by (simp add: sc_UpdateSessions_def Let_def update_loop_spec case_prod_unfold)
  have closed: "\<forall>ps \<in> set (drop (length (sc_dead sc)) (sc_dead (sc_UpdateSessions ops now diff sc))).
      nc_isclose (ps_client ps) \<and> nc_recv (ps_client ps) = []"
    unfolding dead by auto
  have all: "map_of ?m = map_of (sc_sessions sc) ++ map_of (rev (sc_addQueue sc))"
    by (rule map_of_fold_omap_set [OF assms])
  have table: "sc_addQueue (sc_UpdateSessions ops now diff sc) = []"
    "sc_sessions (sc_UpdateSessions ops now diff sc) = map ?f (filter ?P ?m)"
    using fold_sc_add [of "sc_addQueue sc" sc] by (simp_all add: sc_UpdateSessions_def Let_def update_loop_spec)
  show ?thesis
    unfolding Let_def all [symmetric] table
    using ok' lookup [OF ok] closed dead okN lookupN [OF ok] by blast
qed

theorem update_sessions_spec_witness:
  "let ops = \<lparr>op_process = (\<lambda>p h. (h, [])), op_timer = (\<lambda>i h. (h, [])), op_kick = (\<lambda>t h. (h, [])), op_uninit = (\<lambda>h. 0 :: nat)\<rparr>;
       open = ps_new (nc_new zero_alloc 3) 0 7;
       closed = ps_new (nc_CloseSocket (nc_new zero_alloc 4)) 0 7;
       sc = (sc_new :: (nat, nat) sess_ctrl)\<lparr>sc_sessions := [(1, closed)], sc_addQueue := [(2, open)]\<rparr>;
       sc' = sc_UpdateSessions ops 5 10 sc
   in sc_addQueue sc' = [] \<and> map_of (sc_sessions sc') 1 = None \<and>
      us_destroy (snd (ps_Update ops 5 10 closed)) \<in> set (sc_dead sc') \<and>
      (\<forall>ps \<in> set (sc_dead sc'). nc_isclose (ps_client ps))"
proof -
  let ?ops = "\<lparr>op_process = (\<lambda>p h. (h, [])), op_timer = (\<lambda>i h. (h, [])), op_kick = (\<lambda>t h. (h, [])), op_uninit = (\<lambda>h. 0 :: nat)\<rparr>"
  let ?open = "ps_new (nc_new zero_alloc 3) 0 7"
  let ?closed = "ps_new (nc_CloseSocket (nc_new zero_alloc 4)) 0 7"
  let ?sc = "(sc_new :: (nat, nat) sess_ctrl)\<lparr>sc_sessions := [(1, ?closed)], sc_addQueue := [(2, ?open)]\<rparr>"
  have closed: "nc_isclose (ps_client ?closed)" by (simp add: ps_new_def us_GetRemoteIP_def)
  have dies: "\<not> fst (ps_Update ?ops 5 10 ?closed)"
    using closed by (rule ps_Update_closed)
  from update_sessions_spec [of ?sc ?ops 5 10, unfolded Let_def] obtain removed where
    removed: "\<forall>k. map_of removed k = (case (map_of (sc_sessions ?sc) ++ map_of (rev (sc_addQueue ?sc))) k of None \<Rightarrow> None
                   | Some ps \<Rightarrow> if fst (ps_Update ?ops 5 10 ps) then None else Some ps)"
      "sc_dead (sc_UpdateSessions ?ops 5 10 ?sc) =
         sc_dead ?sc @ map (\<lambda>(k, ps). us_destroy (snd (ps_Update ?ops 5 10 ps))) removed"
    by auto
  have "map_of removed 1 = Some ?closed" using removed(1) [THEN spec, of 1] dies by simp
  then have "us_destroy (snd (ps_Update ?ops 5 10 ?closed)) \<in> set (sc_dead (sc_UpdateSessions ?ops 5 10 ?sc))"
    unfolding removed(2) by (force dest: map_of_SomeD)
  then show ?thesis
    using dies update_sessions_spec [of ?sc ?ops 5 10] by (simp add: Let_def sc_new_def)
qed

lemma length_part_loop [simp]: "length (sc_part_loop ev pkg off number i ss) = length ss"
  by (induction ev pkg off number i ss rule: sc_part_loop.induct) simp_all

lemma nth_part_loop:
  "j < length ss \<Longrightarrow>
   sc_part_loop ev pkg off number i ss ! j =
     (fst (ss ! j), if i + word_of_nat j \<ge> off \<and> i + word_of_nat j < off + number
        then us_SendPacket (ev (fst (ss ! j))) pkg (snd (ss ! j)) else snd (ss ! j))"
proof (induction ev pkg off number i ss arbitrary: j rule: sc_part_loop.induct)
  case (2 ev pkg off number i k ps rest)
  then show ?case by (cases j) (simp_all add: ac_simps)
qed simp

text \<open>
  \<^verbatim>\<open>SendPkgToPart\<close> sends the packet to exactly the sessions at positions \<open>off\<close> to
  \<open>off + number - 1\<close> of the table and leaves the others alone, as long as the sum does not wrap.
\<close>

theorem send_part_window:
  assumes "length (sc_sessions sc) \<le> 2 ^ 32" "unat off + unat number < 2 ^ 32"
  shows "sc_sessions (sc_SendPkgToPart ev pkg off number sc) =
           take (unat off) (sc_sessions sc) @
           map (\<lambda>(k, ps). (k, us_SendPacket (ev k) pkg ps)) (take (unat number) (drop (unat off) (sc_sessions sc))) @
           drop (unat off + unat number) (sc_sessions sc)"
    (is "?lhs = ?rhs")
proof (rule nth_equalityI)
  show "length ?lhs = length ?rhs" by (simp add: sc_SendPkgToPart_def)
next
  fix j
  assume "j < length ?lhs"
  then have j: "j < length (sc_sessions sc)" by (simp add: sc_SendPkgToPart_def)
  then have "unat (word_of_nat j :: uint32) = j" using assms(1) by (simp add: unat_of_nat)
  moreover have "unat (off + number) = unat off + unat number"
    using assms(2) by (simp add: unat_word_ariths)
  ultimately show "?lhs ! j = ?rhs ! j"
    using j by (auto simp: sc_SendPkgToPart_def nth_part_loop word_le_nat_alt word_less_nat_alt nth_append min_def
        case_prod_unfold)
qed

theorem send_part_window_witness:
  "let s = ps_new (nc_new zero_alloc 3) 0 (1 :: nat);
       sc = (sc_new :: (nat, nat) sess_ctrl)\<lparr>sc_sessions := [(1, s), (2, s), (3, s)]\<rparr>
   in sc_sessions (sc_SendPkgToPart (\<lambda>_. True) (wp_opc 9) 1 1 sc) = [(1, s), (2, us_SendPacket True (wp_opc 9) s), (3, s)]"
  using send_part_window [of "(sc_new :: (nat, nat) sess_ctrl)\<lparr>sc_sessions := [(1, ps_new (nc_new zero_alloc 3) 0 1),
      (2, ps_new (nc_new zero_alloc 3) 0 1), (3, ps_new (nc_new zero_alloc 3) 0 1)]\<rparr>" 1 1 "\<lambda>_. True" "wp_opc 9"]
  by (simp add: Let_def)

text \<open>A window that asks for everything from a positive offset wraps around and reaches nobody.\<close>

lemma send_part_wraps:
  assumes "0 < off" "length (sc_sessions sc) < 2 ^ 32"
  shows "sc_sessions (sc_SendPkgToPart ev pkg off (2 ^ 32 - 1) sc) = sc_sessions sc"
proof (rule nth_equalityI)
  fix j
  assume "j < length (sc_sessions (sc_SendPkgToPart ev pkg off (2 ^ 32 - 1) sc))"
  then have j: "j < length (sc_sessions sc)" by (simp add: sc_SendPkgToPart_def)
  have w: "off + 4294967295 = off - 1" by simp
  have no: "\<not> (w \<ge> off \<and> w < off - 1)" for w :: uint32
    using assms(1) by unat_arith
  show "sc_sessions (sc_SendPkgToPart ev pkg off (2 ^ 32 - 1) sc) ! j = sc_sessions sc ! j"
    unfolding sc_SendPkgToPart_def using j no [of "word_of_nat j"] by (auto simp: nth_part_loop w)
qed (simp add: sc_SendPkgToPart_def)

end
