(* ===== verification/Id_Ctrl.thy ===== *)
theory Id_Ctrl
  imports Prelude
begin

text \<open>
  The identifier pool of pitayaserver/framework/IDCtrl.h and IDCtrl.cpp: \<^verbatim>\<open>CLinkedList\<close>, a doubly
  linked list with a cursor, and \<^verbatim>\<open>CObjID\<close>, which hands out the nodes after the cursor and takes
  released nodes back at the end.

  Nodes live in an explicit heap, named by addresses; \<^verbatim>\<open>NULL\<close> is \<^const>\<open>None\<close>, following a null or
  unknown pointer makes the operation \<^const>\<open>None\<close>. The abstract state of a pool is the list of nodes
  in use followed by the list of free ones; the cursor is the first free node.
\<close>

section \<open>CLinkedList\<close>

record id_node =
  in_prev :: "nat option"
  in_next :: "nat option"
  in_id :: uint32

record linked_list =
  ll_heap :: "nat \<Rightarrow> id_node option"
  ll_head :: "nat option"
  ll_tail :: "nat option"
  ll_cur :: "nat option"

definition ll_new :: linked_list where
  "ll_new = \<lparr>ll_heap = (\<lambda>_. None), ll_head = None, ll_tail = None, ll_cur = None\<rparr>"

definition ll_set_next :: "nat \<Rightarrow> nat option \<Rightarrow> linked_list \<Rightarrow> linked_list option" where
  "ll_set_next x v l =
     do { nd \<leftarrow> ll_heap l x; Some (l\<lparr>ll_heap := (ll_heap l)(x \<mapsto> nd\<lparr>in_next := v\<rparr>)\<rparr>) }"

definition ll_set_prev :: "nat \<Rightarrow> nat option \<Rightarrow> linked_list \<Rightarrow> linked_list option" where
  "ll_set_prev x v l =
     do { nd \<leftarrow> ll_heap l x; Some (l\<lparr>ll_heap := (ll_heap l)(x \<mapsto> nd\<lparr>in_prev := v\<rparr>)\<rparr>) }"

definition ll_GetNext :: "linked_list \<Rightarrow> (nat option \<times> linked_list) option" where
  "ll_GetNext l =
     (case ll_cur l of
        None \<Rightarrow> Some (None, l)
      | Some x \<Rightarrow> do { nd \<leftarrow> ll_heap l x; Some (Some x, l\<lparr>ll_cur := in_next nd\<rparr>) })"

definition ll_Append :: "nat \<Rightarrow> linked_list \<Rightarrow> linked_list option" where
  "ll_Append x l =
     do { l \<leftarrow> ll_set_prev x (ll_tail l) l;
          l \<leftarrow> ll_set_next x None l;
          l \<leftarrow> (case ll_tail l of None \<Rightarrow> Some l | Some t \<Rightarrow> ll_set_next t (Some x) l);
          let l = l\<lparr>ll_tail := Some x\<rparr>;
          let l = (if ll_head l = None then l\<lparr>ll_head := Some x\<rparr> else l);
          Some (if ll_cur l = None then l\<lparr>ll_cur := Some x\<rparr> else l) }"

definition ll_Remove :: "nat \<Rightarrow> linked_list \<Rightarrow> linked_list option" where
  "ll_Remove x l =
     do { nd \<leftarrow> ll_heap l x;
          let pPrev = in_prev nd;
          let pNext = in_next nd;
          l \<leftarrow> (case pPrev of None \<Rightarrow> Some (l\<lparr>ll_head := pNext\<rparr>) | Some p \<Rightarrow> ll_set_next p pNext l);
          l \<leftarrow> (case pNext of None \<Rightarrow> Some (l\<lparr>ll_tail := pPrev\<rparr>) | Some n \<Rightarrow> ll_set_prev n pPrev l);
          ll_Append x l }"

section \<open>CObjID\<close>

text \<open>\<open>oi_fresh\<close> is the address the next \<^verbatim>\<open>new IDNode\<close> returns; \<^verbatim>\<open>new\<close> throws rather than return null.\<close>

record obj_id =
  oi_list :: linked_list
  oi_start :: uint32
  oi_max :: uint32
  oi_step :: uint32
  oi_inc :: uint32
  oi_count :: uint32
  oi_fresh :: nat

definition oi_new_node :: "uint32 \<Rightarrow> obj_id \<Rightarrow> nat \<times> obj_id" where
  "oi_new_node i p =
     (let x = oi_fresh p; l = oi_list p
      in (x, p\<lparr>oi_list := l\<lparr>ll_heap := (ll_heap l)(x \<mapsto> \<lparr>in_prev = None, in_next = None, in_id = i\<rparr>)\<rparr>,
              oi_fresh := Suc x\<rparr>))"

definition oi_append_id :: "uint32 \<Rightarrow> obj_id \<Rightarrow> obj_id option" where
  "oi_append_id i p =
     do { let (x, p) = oi_new_node i p;
          l \<leftarrow> ll_Append x (oi_list p);
          Some (p\<lparr>oi_list := l\<rparr>) }"

partial_function (option) oi_resize_loop :: "uint32 \<Rightarrow> uint32 \<Rightarrow> uint32 \<Rightarrow> obj_id \<Rightarrow> obj_id option" where
  "oi_resize_loop dwI dwEnd dwStep p =
     (if dwI < dwEnd
      then (case oi_append_id dwI p of None \<Rightarrow> None | Some p \<Rightarrow> oi_resize_loop (dwI + dwStep) dwEnd dwStep p)
      else Some (p\<lparr>oi_start := dwI\<rparr>))"

declare oi_resize_loop.simps [code]

definition oi_Resize :: "uint32 \<Rightarrow> uint32 \<Rightarrow> obj_id \<Rightarrow> obj_id option" where
  "oi_Resize dwNum dwStep p = oi_resize_loop (oi_start p) (dwNum * dwStep + oi_start p) dwStep p"

definition oi_create :: "uint32 \<Rightarrow> uint32 \<Rightarrow> uint32 \<Rightarrow> uint32 \<Rightarrow> uint32 \<Rightarrow> obj_id option" where
  "oi_create dwIDStart dwIDEnd dwStep dwIDInitNum dwIncrease =
     do { p \<leftarrow> oi_Resize dwIDInitNum dwStep
            \<lparr>oi_list = ll_new, oi_start = dwIDStart, oi_max = dwIDEnd - dwIDStart, oi_step = dwStep,
             oi_inc = dwIncrease, oi_count = 0, oi_fresh = 0\<rparr>;
          Some (p\<lparr>oi_count := 0\<rparr>) }"

definition oi_GetNext :: "obj_id \<Rightarrow> (nat option \<times> obj_id) option" where
  "oi_GetNext p =
     do { (r, l) \<leftarrow> ll_GetNext (oi_list p);
          case r of
            Some x \<Rightarrow> Some (Some x, p\<lparr>oi_list := l, oi_count := oi_count p + 1\<rparr>)
          | None \<Rightarrow>
              if oi_count p + oi_inc p * oi_step p \<ge> oi_max p then Some (None, p)
              else do {
                p \<leftarrow> oi_Resize (oi_inc p) (oi_step p) p;
                (r, l) \<leftarrow> ll_GetNext (oi_list p);
                Some (r, if r \<noteq> None then p\<lparr>oi_list := l, oi_count := oi_count p + 1\<rparr> else p) } }"

definition oi_Remove :: "nat \<Rightarrow> obj_id \<Rightarrow> obj_id option" where
  "oi_Remove x p =
     do { l \<leftarrow> ll_Remove x (oi_list p); Some (p\<lparr>oi_list := l, oi_count := oi_count p - 1\<rparr>) }"

section \<open>CObjIDCtrl\<close>

record id_ctrl =
  ic_pet :: obj_id
  ic_item :: obj_id

definition ID_PET_BEGIN :: uint32 where "ID_PET_BEGIN = 0x00000000"
definition ID_PET_END :: uint32 where "ID_PET_END = 0x50000000"
definition ID_ITEM_BEGIN :: uint32 where "ID_ITEM_BEGIN = 0x50000001"
definition ID_ITEM_END :: uint32 where "ID_ITEM_END = 0x90000000"
definition STEP_TWO :: uint32 where "STEP_TWO = 2"
definition STEP_THREE :: uint32 where "STEP_THREE = 3"

definition ic_Init :: "id_ctrl option" where
  "ic_Init =
     do { pet \<leftarrow> oi_create ID_PET_BEGIN ID_PET_END STEP_TWO 25000 1000;
          item \<leftarrow> oi_create ID_ITEM_BEGIN ID_ITEM_END STEP_THREE 20000 1000;
          Some \<lparr>ic_pet = pet, ic_item = item\<rparr> }"

definition ic_GetCount :: "id_ctrl \<Rightarrow> uint32 \<times> uint32" where
  "ic_GetCount c = (oi_count (ic_pet c), oi_count (ic_item c))"

definition ic_GetPetID :: "id_ctrl \<Rightarrow> (nat option \<times> id_ctrl) option" where
  "ic_GetPetID c = do { (r, p) \<leftarrow> oi_GetNext (ic_pet c); Some (r, c\<lparr>ic_pet := p\<rparr>) }"

definition ic_DelPetID :: "nat \<Rightarrow> id_ctrl \<Rightarrow> id_ctrl option" where
  "ic_DelPetID x c = do { p \<leftarrow> oi_Remove x (ic_pet c); Some (c\<lparr>ic_pet := p\<rparr>) }"

definition ic_GetItemID :: "id_ctrl \<Rightarrow> (nat option \<times> id_ctrl) option" where
  "ic_GetItemID c = do { (r, p) \<leftarrow> oi_GetNext (ic_item c); Some (r, c\<lparr>ic_item := p\<rparr>) }"

definition ic_DelItemID :: "nat \<Rightarrow> id_ctrl \<Rightarrow> id_ctrl option" where
  "ic_DelItemID x c = do { p \<leftarrow> oi_Remove x (ic_item c); Some (c\<lparr>ic_item := p\<rparr>) }"

section \<open>Segments of the doubly linked list\<close>

definition first_of :: "nat list \<Rightarrow> nat option \<Rightarrow> nat option" where
  "first_of xs n = (case xs of [] \<Rightarrow> n | x # _ \<Rightarrow> Some x)"

definition last_of :: "nat option \<Rightarrow> nat list \<Rightarrow> nat option" where
  "last_of p xs = (if xs = [] then p else Some (last xs))"

text \<open>The nodes \<open>xs\<close> are linked in order, after \<open>p\<close> and before \<open>n\<close>, and carry the identifiers \<open>ids\<close>.\<close>

fun dll :: "(nat \<Rightarrow> id_node option) \<Rightarrow> nat option \<Rightarrow> nat list \<Rightarrow> nat option \<Rightarrow> bool" where
  "dll h p [] n \<longleftrightarrow> True"
| "dll h p (x # xs) n \<longleftrightarrow>
     (\<exists>nd. h x = Some nd \<and> in_prev nd = p \<and> in_next nd = first_of xs n) \<and> dll h (Some x) xs n"

lemma first_of_simps [simp]: "first_of [] n = n" "first_of (x # xs) n = Some x"
  by (simp_all add: first_of_def)

lemma last_of_simps [simp]: "last_of p [] = p" "last_of p (xs @ [x]) = Some x"
  by (simp_all add: last_of_def)

lemma last_of_Cons [simp]: "last_of p (x # xs) = last_of (Some x) xs"
  by (simp add: last_of_def)

lemma first_of_not_None: "xs \<noteq> [] \<Longrightarrow> first_of xs n \<noteq> None"
  by (cases xs) simp_all

lemma first_of_append [simp]: "first_of (xs @ ys) n = first_of xs (first_of ys n)"
  by (cases xs) simp_all

lemma last_of_append [simp]: "last_of p (xs @ ys) = last_of (last_of p xs) ys"
  by (induction xs arbitrary: p) simp_all

lemma dll_append: "dll h p (xs @ ys) n \<longleftrightarrow> dll h p xs (first_of ys n) \<and> dll h (last_of p xs) ys n"
  by (induction xs arbitrary: p) auto

lemma dll_frame: "\<forall>x \<in> set xs. h' x = h x \<Longrightarrow> dll h' p xs n = dll h p xs n"
  by (induction xs arbitrary: p) auto

lemma dll_heap: "dll h p xs n \<Longrightarrow> x \<in> set xs \<Longrightarrow> \<exists>nd. h x = Some nd"
  by (induction xs arbitrary: p) auto

text \<open>Redirecting the last node of a segment, or the first one.\<close>

lemma dll_set_next:
  assumes "dll h p (xs @ [x]) n" "distinct (xs @ [x])" "h x = Some nd"
  shows "dll (h(x \<mapsto> nd\<lparr>in_next := n'\<rparr>)) p (xs @ [x]) n'"
proof -
  have "dll (h(x \<mapsto> nd\<lparr>in_next := n'\<rparr>)) p xs (Some x) = dll h p xs (Some x)"
    using assms(2) by (intro dll_frame) auto
  with assms show ?thesis by (simp add: dll_append)
qed

lemma dll_set_prev:
  assumes "dll h p (x # xs) n" "distinct (x # xs)" "h x = Some nd"
  shows "dll (h(x \<mapsto> nd\<lparr>in_prev := p'\<rparr>)) p' (x # xs) n"
proof -
  have "dll (h(x \<mapsto> nd\<lparr>in_prev := p'\<rparr>)) (Some x) xs n = dll h (Some x) xs n"
    using assms(2) by (intro dll_frame) auto
  with assms show ?thesis by auto
qed

text \<open>A list object whose nodes are \<open>xs\<close>, in order.\<close>

definition ll_list :: "linked_list \<Rightarrow> nat list \<Rightarrow> bool" where
  "ll_list l xs \<longleftrightarrow> distinct xs \<and> dll (ll_heap l) None xs None \<and>
     ll_head l = first_of xs None \<and> ll_tail l = last_of None xs"

definition ll_ids :: "linked_list \<Rightarrow> nat \<Rightarrow> uint32" where
  "ll_ids l x = (case ll_heap l x of None \<Rightarrow> 0 | Some nd \<Rightarrow> in_id nd)"

lemma ll_ids_upd:
  "ll_heap l n = Some nd \<Longrightarrow> in_id nd' = in_id nd \<Longrightarrow> ll_ids (l\<lparr>ll_heap := (ll_heap l)(n \<mapsto> nd')\<rparr>) = ll_ids l"
  by (auto simp: ll_ids_def fun_eq_iff)

text \<open>\<open>Append\<close> of a node that is in the heap and outside the list.\<close>

lemma ll_Append_list:
  assumes rel: "ll_list l xs" and x: "x \<notin> set xs" "ll_heap l x = Some nd"
  shows "\<exists>l'. ll_Append x l = Some l' \<and> ll_list l' (xs @ [x]) \<and> ll_ids l' = ll_ids l \<and>
           dom (ll_heap l') = dom (ll_heap l) \<and> ll_cur l' = (if ll_cur l = None then Some x else ll_cur l)"
proof -
  let ?h = "ll_heap l"
  let ?h1 = "?h(x \<mapsto> nd\<lparr>in_prev := ll_tail l, in_next := None\<rparr>)"
  have dll1: "dll ?h1 None xs None"
    using rel x by (subst dll_frame [of xs ?h1 ?h]) (auto simp: ll_list_def)
  show ?thesis
  proof (cases xs rule: rev_cases)
    case Nil
    with rel x show ?thesis
      by (auto simp: ll_Append_def ll_set_prev_def ll_set_next_def ll_list_def ll_ids_def fun_eq_iff)
  next
    case (snoc ys t)
    then have t: "t \<noteq> x" "ll_tail l = Some t"
      using rel x by (auto simp: ll_list_def)
    obtain tn where tn: "?h t = Some tn"
      using dll_heap [of ?h None xs None t] rel snoc by (auto simp: ll_list_def)
    let ?h2 = "?h1(t \<mapsto> tn\<lparr>in_next := Some x\<rparr>)"
    have d2: "dll ?h2 None (ys @ [t]) (Some x)"
      using dll1 rel tn t(1) unfolding snoc by (intro dll_set_next) (auto simp: ll_list_def)
    then have d3: "dll ?h2 None (ys @ [t] @ [x]) None"
      using t by (simp only: append.assoc [symmetric] dll_append) simp
    obtain y where head: "ll_head l = Some y" "first_of (ys @ [t]) None = Some y"
      using rel snoc first_of_not_None [of "ys @ [t]" None] by (auto simp: ll_list_def)
    let ?l' = "l\<lparr>ll_heap := ?h2, ll_tail := Some x, ll_cur := if ll_cur l = None then Some x else ll_cur l\<rparr>"
    have "ll_Append x l = Some ?l'"
      using x t tn head by (simp add: ll_Append_def ll_set_prev_def ll_set_next_def Let_def)
    moreover have "ll_list ?l' (xs @ [x])"
      using d3 head rel x unfolding snoc by (auto simp: ll_list_def)
    moreover have "ll_ids ?l' = ll_ids l" "dom ?h2 = dom ?h"
      using x tn by (auto simp: ll_ids_def fun_eq_iff)
    ultimately show ?thesis by auto
  qed
qed

text \<open>\<open>Remove\<close>: the node leaves its place and goes to the end.\<close>

lemma ll_unlink:
  assumes rel: "ll_list l (xs @ x # ys)" and nd: "ll_heap l x = Some nd"
  shows "\<exists>l'. (do { l \<leftarrow> (case in_prev nd of None \<Rightarrow> Some (l\<lparr>ll_head := in_next nd\<rparr>) | Some p \<Rightarrow> ll_set_next p (in_next nd) l);
                  (case in_next nd of None \<Rightarrow> Some (l\<lparr>ll_tail := in_prev nd\<rparr>) | Some n \<Rightarrow> ll_set_prev n (in_prev nd) l) }) = Some l' \<and>
           ll_list l' (xs @ ys) \<and> ll_ids l' = ll_ids l \<and> dom (ll_heap l') = dom (ll_heap l) \<and> ll_cur l' = ll_cur l \<and>
           ll_heap l' x = Some nd"
proof -
  let ?h = "ll_heap l"
  have d: "dll ?h None xs (Some x)" "in_prev nd = last_of None xs" "in_next nd = first_of ys None"
      "dll ?h (Some x) ys None" "distinct xs" "distinct ys" "x \<notin> set xs" "x \<notin> set ys" "set xs \<inter> set ys = {}"
    using rel nd by (auto simp: ll_list_def dll_append)
  obtain l1 where l1: "(case in_prev nd of None \<Rightarrow> Some (l\<lparr>ll_head := in_next nd\<rparr>) | Some p \<Rightarrow> ll_set_next p (in_next nd) l) = Some l1"
    "dll (ll_heap l1) None xs (first_of ys None)" "dll (ll_heap l1) (Some x) ys None" "ll_head l1 = first_of (xs @ ys) None"
    "ll_tail l1 = ll_tail l" "ll_ids l1 = ll_ids l" "dom (ll_heap l1) = dom ?h" "ll_cur l1 = ll_cur l" "ll_heap l1 x = Some nd"
  proof (cases xs rule: rev_cases)
    case Nil
    with d nd that [of "l\<lparr>ll_head := in_next nd\<rparr>"] show ?thesis by (simp add: ll_ids_def fun_eq_iff)
  next
    case (snoc zs p)
    obtain pn where pn: "?h p = Some pn" using dll_heap [OF d(1), of p] snoc by auto
    let ?h1 = "?h(p \<mapsto> pn\<lparr>in_next := first_of ys None\<rparr>)"
    have "dll ?h1 None (zs @ [p]) (first_of ys None)"
      using d(1,5) pn unfolding snoc by (intro dll_set_next) auto
    moreover have "dll ?h1 (Some x) ys None"
      using d(4,9) snoc by (subst dll_frame [of ys ?h1 ?h]) auto
    moreover have "ll_head l = first_of (xs @ ys) None"
      using rel snoc first_of_not_None [of "zs @ [p]"] by (cases zs) (auto simp: ll_list_def)
    ultimately show ?thesis
      using d snoc pn nd by (intro that [of "l\<lparr>ll_heap := ?h1\<rparr>"]) (auto simp: ll_set_next_def ll_ids_def fun_eq_iff)
  qed
  show ?thesis
  proof (cases ys)
    case Nil
    with d l1 rel show ?thesis by (auto simp: ll_list_def ll_ids_def fun_eq_iff)
  next
    case (Cons n zs)
    obtain nn where nn: "ll_heap l1 n = Some nn" using dll_heap [OF l1(3), of n] Cons by auto
    let ?h2 = "(ll_heap l1)(n \<mapsto> nn\<lparr>in_prev := last_of None xs\<rparr>)"
    have "dll ?h2 (last_of None xs) (n # zs) None"
      using l1(3) d(6) nn unfolding Cons by (intro dll_set_prev) auto
    moreover have "dll ?h2 None xs (Some n)"
      using l1(2) d(9) Cons by (subst dll_frame [of xs ?h2 "ll_heap l1"]) auto
    ultimately have "ll_list (l1\<lparr>ll_heap := ?h2\<rparr>) (xs @ ys)"
      using rel l1 d unfolding Cons by (auto simp: ll_list_def dll_append)
    moreover have "ll_ids (l1\<lparr>ll_heap := ?h2\<rparr>) = ll_ids l" using ll_ids_upd [of l1 n nn] nn l1 by simp
    ultimately show ?thesis
      using d l1 nn Cons nd by (intro exI [of _ "l1\<lparr>ll_heap := ?h2\<rparr>"]) (auto simp: ll_set_prev_def)
  qed
qed

lemma ll_Remove_list:
  assumes rel: "ll_list l (xs @ x # ys)"
  shows "\<exists>l'. ll_Remove x l = Some l' \<and> ll_list l' (xs @ ys @ [x]) \<and> ll_ids l' = ll_ids l \<and>
           dom (ll_heap l') = dom (ll_heap l) \<and> ll_cur l' = (if ll_cur l = None then Some x else ll_cur l)"
proof -
  obtain nd where nd: "ll_heap l x = Some nd"
    using dll_heap [of "ll_heap l" None "xs @ x # ys" None x] rel by (auto simp: ll_list_def)
  from ll_unlink [OF rel nd] obtain l1 where
    l1: "(do { l \<leftarrow> (case in_prev nd of None \<Rightarrow> Some (l\<lparr>ll_head := in_next nd\<rparr>) | Some p \<Rightarrow> ll_set_next p (in_next nd) l);
              (case in_next nd of None \<Rightarrow> Some (l\<lparr>ll_tail := in_prev nd\<rparr>) | Some n \<Rightarrow> ll_set_prev n (in_prev nd) l) }) = Some l1"
      "ll_list l1 (xs @ ys)" "ll_ids l1 = ll_ids l" "dom (ll_heap l1) = dom (ll_heap l)" "ll_cur l1 = ll_cur l"
      "ll_heap l1 x = Some nd" by blast
  have "ll_Remove x l = ll_Append x l1"
    using nd l1(1) by (auto simp: ll_Remove_def split: bind_splits)
  moreover have "x \<notin> set (xs @ ys)" using rel by (auto simp: ll_list_def)
  ultimately show ?thesis
    using ll_Append_list [OF l1(2) _ l1(6)] l1 by auto
qed

section \<open>The pool\<close>

text \<open>
  The nodes in use and the free ones, behind each other in the list; the cursor is the first free
  node, the counter counts the nodes in use, and all identifiers are distinct and below the next
  one to be created.
\<close>

definition oi_below :: "uint32 \<Rightarrow> obj_id \<Rightarrow> nat list \<Rightarrow> nat list \<Rightarrow> bool" where
  "oi_below i p used free \<longleftrightarrow> ll_list (oi_list p) (used @ free) \<and> ll_cur (oi_list p) = first_of free None \<and>
     dom (ll_heap (oi_list p)) = {..<oi_fresh p} \<and>
     oi_count p = word_of_nat (length used) \<and>
     distinct (map (ll_ids (oi_list p)) (used @ free)) \<and>
     (\<forall>x \<in> set (used @ free). ll_ids (oi_list p) x < i)"

definition oi_rel :: "obj_id \<Rightarrow> nat list \<Rightarrow> nat list \<Rightarrow> bool" where
  "oi_rel p used free \<longleftrightarrow> oi_below (oi_start p) p used free"

lemma ll_list_dom: "ll_list l xs \<Longrightarrow> set xs \<subseteq> dom (ll_heap l)"
  using dll_heap by (fastforce simp: ll_list_def)

lemma oi_append_id_rel:
  assumes rel: "oi_below i p used free" and i: "i < i'"
  shows "\<exists>p'. oi_append_id i p = Some p' \<and> oi_below i' p' used (free @ [oi_fresh p]) \<and>
     oi_max p' = oi_max p \<and> oi_step p' = oi_step p \<and> oi_inc p' = oi_inc p \<and>
     oi_count p' = oi_count p \<and> (\<forall>x \<in> set (used @ free). ll_ids (oi_list p') x = ll_ids (oi_list p) x)"
proof -
  let ?l = "oi_list p" and ?x = "oi_fresh p" and ?nd = "\<lparr>in_prev = None, in_next = None, in_id = i\<rparr>"
  let ?l1 = "?l\<lparr>ll_heap := (ll_heap ?l)(?x \<mapsto> ?nd)\<rparr>"
  have r: "ll_list ?l (used @ free)" "ll_cur ?l = first_of free None" "dom (ll_heap ?l) = {..<?x}"
    "distinct (map (ll_ids ?l) (used @ free))" "\<forall>x \<in> set (used @ free). ll_ids ?l x < i"
    using rel by (auto simp: oi_below_def)
  have x: "?x \<notin> set (used @ free)" using ll_list_dom [OF r(1)] r(3) by auto
  have ids1: "ll_ids ?l1 y = (if y = ?x then i else ll_ids ?l y)" for y by (simp add: ll_ids_def)
  have "dll ((ll_heap ?l)(?x \<mapsto> ?nd)) None (used @ free) None"
    using r(1) x by (subst dll_frame [of "used @ free" _ "ll_heap ?l"]) (auto simp: ll_list_def)
  then have "ll_list ?l1 (used @ free)" using r(1) by (simp add: ll_list_def)
  from ll_Append_list [OF this x, of ?nd] obtain l2 where
    l2: "ll_Append ?x ?l1 = Some l2" "ll_list l2 ((used @ free) @ [?x])" "ll_ids l2 = ll_ids ?l1"
      "dom (ll_heap l2) = dom (ll_heap ?l1)" "ll_cur l2 = (if ll_cur ?l1 = None then Some ?x else ll_cur ?l1)"
    by auto
  let ?p' = "p\<lparr>oi_list := l2, oi_fresh := Suc ?x\<rparr>"
  have keep: "map (ll_ids l2) (used @ free) = map (ll_ids ?l) (used @ free)"
    using x l2(3) ids1 by (intro map_cong) auto
  have "ll_ids l2 ?x \<notin> set (map (ll_ids ?l) (used @ free))"
    using r(5) l2(3) ids1 by force
  then have "distinct (map (ll_ids l2) ((used @ free) @ [?x]))"
    using r(4) keep by (simp only: map_append [of _ "used @ free"] distinct_append) simp
  moreover have "\<forall>y \<in> set (used @ free @ [?x]). ll_ids l2 y < i'"
    using r(5) i l2(3) ids1 by (auto intro: order_less_trans)
  moreover have "ll_cur l2 = first_of (free @ [?x]) None"
    using l2(5) r(2) by (cases free) auto
  ultimately have "oi_below i' ?p' used (free @ [?x])"
    using l2 r(3) rel by (auto simp: oi_below_def)
  moreover have "oi_append_id i p = Some ?p'"
    using l2(1) by (simp add: oi_append_id_def oi_new_node_def Let_def)
  ultimately show ?thesis
    using x l2(3) ids1 by (intro exI [of _ ?p']) auto
qed

text \<open>\<open>Resize\<close> adds \<open>n\<close> fresh nodes, as long as the identifiers stay below \<open>2 ^ 32\<close>.\<close>

lemma oi_resize_rel:
  assumes "oi_below i p used free" "0 < step" "unat i + n * unat step < 2 ^ 32"
  shows "\<exists>p' new. oi_resize_loop i (i + word_of_nat n * step) step p = Some p' \<and>
     oi_rel p' used (free @ new) \<and> length new = n \<and> oi_max p' = oi_max p \<and> oi_step p' = oi_step p \<and>
     oi_inc p' = oi_inc p \<and> oi_count p' = oi_count p \<and>
     unat (oi_start p') = unat i + n * unat step \<and>
     (\<forall>x \<in> set (used @ free). ll_ids (oi_list p') x = ll_ids (oi_list p) x)"
  using assms
proof (induction n arbitrary: i p free)
  case 0
  have "oi_rel (p\<lparr>oi_start := i\<rparr>) used free" using 0 by (simp add: oi_rel_def oi_below_def)
  then show ?case
    by (subst oi_resize_loop.simps) (auto intro!: exI [of _ "p\<lparr>oi_start := i\<rparr>"])
next
  case (Suc n)
  let ?hi = "i + word_of_nat (Suc n) * step"
  have pos: "0 < unat step" using Suc.prems(2) by (simp add: unat_gt_0)
  have un: "unat (i + step) = unat i + unat step"
    using Suc.prems(3) by (simp add: unat_word_ariths)
  have less: "i < i + step" using un pos by (simp add: word_less_nat_alt)
  have "unat (word_of_nat (Suc n) * step) = Suc n * unat step"
  proof -
    have "unat (word_of_nat (Suc n) * step :: uint32) = (Suc n mod 2 ^ 32 * unat step) mod 2 ^ 32"
      by (simp add: unat_word_ariths unat_of_nat del: of_nat_Suc)
    moreover have "Suc n \<le> Suc n * unat step" using pos by (cases "unat step") auto
    ultimately show ?thesis using Suc.prems(3) by simp
  qed
  then have "unat ?hi = unat i + Suc n * unat step"
    using Suc.prems(3) by (simp add: unat_word_ariths)
  then have lt: "i < ?hi" using pos by (simp add: word_less_nat_alt)
  from oi_append_id_rel [OF Suc.prems(1) less] obtain p1 where
    p1: "oi_append_id i p = Some p1" "oi_below (i + step) p1 used (free @ [oi_fresh p])"
      "oi_max p1 = oi_max p" "oi_step p1 = oi_step p" "oi_inc p1 = oi_inc p" "oi_count p1 = oi_count p"
      "\<forall>x \<in> set (used @ free). ll_ids (oi_list p1) x = ll_ids (oi_list p) x" by blast
  have "unat (i + step) + n * unat step < 2 ^ 32" using Suc.prems(3) un by simp
  from Suc.IH [OF p1(2) Suc.prems(2) this] obtain p' new where
    p': "oi_resize_loop (i + step) (i + step + word_of_nat n * step) step p1 = Some p'"
      "oi_rel p' used ((free @ [oi_fresh p]) @ new)" "length new = n" "oi_max p' = oi_max p1"
      "oi_step p' = oi_step p1" "oi_inc p' = oi_inc p1" "oi_count p' = oi_count p1"
      "unat (oi_start p') = unat (i + step) + n * unat step"
      "\<forall>x \<in> set (used @ free @ [oi_fresh p]). ll_ids (oi_list p') x = ll_ids (oi_list p1) x" by auto
  have "i + step + word_of_nat n * step = ?hi" by (simp add: algebra_simps)
  with p'(1) lt p1(1) have "oi_resize_loop i ?hi step p = Some p'"
    by (subst oi_resize_loop.simps) simp
  with p1 p' un show ?case
    by (intro exI [of _ p'] exI [of _ "oi_fresh p # new"]) auto
qed

lemma oi_Remove_rel:
  assumes rel: "oi_rel p used free" and x: "x \<in> set used"
  shows "\<exists>p'. oi_Remove x p = Some p' \<and> oi_rel p' (remove1 x used) (free @ [x]) \<and>
     oi_start p' = oi_start p \<and> oi_max p' = oi_max p \<and> oi_step p' = oi_step p \<and> oi_inc p' = oi_inc p"
proof -
  let ?l = "oi_list p"
  have r: "ll_list ?l (used @ free)" "ll_cur ?l = first_of free None" "dom (ll_heap ?l) = {..<oi_fresh p}"
    "oi_count p = word_of_nat (length used)"
    "distinct (map (ll_ids ?l) (used @ free))" "\<forall>y \<in> set (used @ free). ll_ids ?l y < oi_start p"
    using rel by (auto simp: oi_rel_def oi_below_def)
  obtain us vs where uv: "used = us @ x # vs" using x by (meson split_list)
  have "x \<notin> set us" using r(1) uv by (auto simp: ll_list_def)
  then have rem: "remove1 x used = us @ vs" using uv by (simp add: remove1_append)
  have "ll_list ?l (us @ x # (vs @ free))" using r(1) uv by simp
  from ll_Remove_list [OF this] obtain l' where
    l': "ll_Remove x ?l = Some l'" "ll_list l' (us @ (vs @ free) @ [x])" "ll_ids l' = ll_ids ?l"
      "dom (ll_heap l') = dom (ll_heap ?l)" "ll_cur l' = (if ll_cur ?l = None then Some x else ll_cur ?l)" by blast
  have "ll_cur l' = first_of (free @ [x]) None" using l'(5) r(2) by (cases free) auto
  moreover have "word_of_nat (length used) - 1 = (word_of_nat (length (us @ vs)) :: uint32)"
    using uv by simp
  ultimately have "oi_rel (p\<lparr>oi_list := l', oi_count := oi_count p - 1\<rparr>) (us @ vs) (free @ [x])"
    using l' r uv by (auto simp: oi_rel_def oi_below_def)
  then show ?thesis
    using l'(1) rem by (auto simp: oi_Remove_def)
qed

text \<open>
  The configuration: from \<open>s0\<close>, all identifiers the limit allows fit 32 bits. The counter of the
  nodes, not of the identifiers, is what the code compares with the size of the range.
\<close>

definition oi_inv :: "nat \<Rightarrow> obj_id \<Rightarrow> nat list \<Rightarrow> nat list \<Rightarrow> bool" where
  "oi_inv s0 p used free \<longleftrightarrow> oi_rel p used free \<and> 0 < oi_step p \<and>
     unat (oi_start p) = s0 + unat (oi_step p) * (length used + length free) \<and>
     length used + length free \<le> unat (oi_max p) \<and>
     s0 + unat (oi_step p) * unat (oi_max p) < 2 ^ 32 \<and>
     unat (oi_max p) + unat (oi_inc p) * unat (oi_step p) < 2 ^ 32"

lemma oi_take_rel:
  assumes "oi_rel p used (x # fs)" "ll_GetNext (oi_list p) = Some (Some x, l)" "l = (oi_list p)\<lparr>ll_cur := first_of fs None\<rparr>"
  shows "oi_rel (p\<lparr>oi_list := l, oi_count := oi_count p + 1\<rparr>) (used @ [x]) fs"
proof -
  have "ll_ids l = ll_ids (oi_list p)" using assms(3) by (simp add: ll_ids_def fun_eq_iff)
  with assms show ?thesis by (auto simp: oi_rel_def oi_below_def ll_list_def)
qed

lemma ll_GetNext_cur:
  assumes "ll_list l (used @ free)" "ll_cur l = first_of free None"
  shows "ll_GetNext l =
    (case free of [] \<Rightarrow> Some (None, l) | x # fs \<Rightarrow> Some (Some x, l\<lparr>ll_cur := first_of fs None\<rparr>))"
  using assms by (auto simp: ll_list_def ll_GetNext_def dll_append split: list.splits)

lemma oi_GetNext_inv:
  assumes inv: "oi_inv s0 p used free"
  shows "\<exists>r p'. oi_GetNext p = Some (r, p') \<and>
     (case r of None \<Rightarrow> oi_inv s0 p' used [] | Some x \<Rightarrow> x \<notin> set used \<and> (\<exists>fs. oi_inv s0 p' (used @ [x]) fs))"
proof -
  have rel: "oi_rel p used free" using inv by (simp add: oi_inv_def)
  then have l: "ll_list (oi_list p) (used @ free)" "ll_cur (oi_list p) = first_of free None"
    by (simp_all add: oi_rel_def oi_below_def)
  note get = ll_GetNext_cur [OF l]
  show ?thesis
  proof (cases free)
    case (Cons x fs)
    let ?p' = "p\<lparr>oi_list := (oi_list p)\<lparr>ll_cur := first_of fs None\<rparr>, oi_count := oi_count p + 1\<rparr>"
    have "oi_rel ?p' (used @ [x]) fs" using oi_take_rel [of p used x fs] rel get Cons by simp
    moreover have "x \<notin> set used" using l(1) Cons by (auto simp: ll_list_def)
    ultimately show ?thesis
      using inv get Cons by (auto simp: oi_GetNext_def oi_inv_def intro!: exI [of _ fs])
  next
    case Nil
    let ?n = "length used" and ?d = "unat (oi_inc p) * unat (oi_step p)"
    have cnt: "oi_count p = word_of_nat ?n" "?n \<le> unat (oi_max p)" "unat (oi_max p) + ?d < 2 ^ 32"
      using inv Nil by (auto simp: oi_inv_def oi_rel_def oi_below_def)
    then have n32: "?n < 2 ^ 32" "?d < 2 ^ 32" by linarith+
    have "unat (oi_count p + oi_inc p * oi_step p) = ?n + ?d"
      using cnt n32 by (simp add: unat_word_ariths unat_of_nat)
    then have lim: "oi_count p + oi_inc p * oi_step p \<ge> oi_max p \<longleftrightarrow> unat (oi_max p) \<le> ?n + ?d"
      by (simp add: word_le_nat_alt)
    show ?thesis
    proof (cases "unat (oi_max p) \<le> ?n + ?d")
      case True
      then show ?thesis using get Nil lim inv by (auto simp: oi_GetNext_def)
    next
      case False
      have step: "0 < oi_step p" "1 \<le> unat (oi_step p)" using inv by (auto simp: oi_inv_def Suc_le_eq unat_gt_0)
      have "?n + unat (oi_inc p) \<le> ?n + ?d" using step(2) by simp
      then have nodes: "?n + unat (oi_inc p) \<le> unat (oi_max p)" using False by linarith
      have st: "unat (oi_start p) = s0 + unat (oi_step p) * ?n"
        "s0 + unat (oi_step p) * unat (oi_max p) < 2 ^ 32"
        using inv Nil by (auto simp: oi_inv_def)
      moreover have "unat (oi_step p) * (?n + unat (oi_inc p)) \<le> unat (oi_step p) * unat (oi_max p)"
        using nodes by (rule mult_le_mono2)
      ultimately have small: "unat (oi_start p) + unat (oi_inc p) * unat (oi_step p) < 2 ^ 32"
        by (simp add: algebra_simps)
      have below: "oi_below (oi_start p) p used []" using rel Nil by (simp add: oi_rel_def)
      from oi_resize_rel [OF below step(1) small] obtain p1 new where
        p1: "oi_Resize (oi_inc p) (oi_step p) p = Some p1" "oi_rel p1 used new" "length new = unat (oi_inc p)"
          "oi_max p1 = oi_max p" "oi_step p1 = oi_step p" "oi_inc p1 = oi_inc p"
          "unat (oi_start p1) = unat (oi_start p) + unat (oi_inc p) * unat (oi_step p)"
        by (auto simp: oi_Resize_def add.commute)
      have inv1: "oi_inv s0 p1 used new"
        using p1 inv st nodes Nil by (simp add: oi_inv_def algebra_simps)
      have l1: "ll_list (oi_list p1) (used @ new)" "ll_cur (oi_list p1) = first_of new None"
        using p1(2) by (simp_all add: oi_rel_def oi_below_def)
      note get1 = ll_GetNext_cur [OF l1]
      show ?thesis
      proof (cases new)
        case Nil: Nil
        then show ?thesis using \<open>free = []\<close> get lim False p1(1) get1 inv1 by (auto simp: oi_GetNext_def)
      next
        case (Cons x fs)
        let ?p' = "p1\<lparr>oi_list := (oi_list p1)\<lparr>ll_cur := first_of fs None\<rparr>, oi_count := oi_count p1 + 1\<rparr>"
        have "oi_rel ?p' (used @ [x]) fs" using oi_take_rel [of p1 used x fs] p1(2) get1 Cons by simp
        moreover have "x \<notin> set used" using l1(1) Cons by (auto simp: ll_list_def)
        ultimately show ?thesis
          using \<open>free = []\<close> get lim False p1(1) get1 inv1 Cons
          by (auto simp: oi_GetNext_def oi_inv_def intro!: exI [of _ fs])
      qed
    qed
  qed
qed

lemma oi_Remove_inv:
  assumes "oi_inv s0 p used free" "x \<in> set used"
  shows "\<exists>p'. oi_Remove x p = Some p' \<and> oi_inv s0 p' (remove1 x used) (free @ [x])"
proof -
  have "oi_rel p used free" using assms(1) by (simp add: oi_inv_def)
  from oi_Remove_rel [OF this assms(2)] obtain p' where p': "oi_Remove x p = Some p'"
    "oi_rel p' (remove1 x used) (free @ [x])" "oi_start p' = oi_start p" "oi_max p' = oi_max p"
    "oi_step p' = oi_step p" "oi_inc p' = oi_inc p" by blast
  have eq: "length (remove1 x used) + length (free @ [x]) = length used + length free"
    using assms(2) by (simp add: length_remove1) (metis Suc_pred length_pos_if_in_set)
  then have "oi_inv s0 p' (remove1 x used) (free @ [x])"
    using assms(1) p'(2) unfolding oi_inv_def p'(3-6) eq by blast
  with p'(1) show ?thesis by blast
qed

section \<open>The pool interface\<close>

text \<open>
  What a user of identifiers relies on: taking a node never returns one in use, a node in use can
  be given back, and the identifiers of the nodes in use differ. A user that gives back only what
  it holds then never holds two equal identifiers, whatever the order of its calls.
\<close>

datatype pool_op = Pool_Take | Pool_Give nat

locale id_pool =
  fixes inv :: "'s \<Rightarrow> nat list \<Rightarrow> nat list \<Rightarrow> bool"
    and take :: "'s \<Rightarrow> (nat option \<times> 's) option"
    and give :: "nat \<Rightarrow> 's \<Rightarrow> 's option"
    and ident :: "'s \<Rightarrow> nat \<Rightarrow> 'i"
  assumes take_law: "inv s used free \<Longrightarrow> \<exists>r s'. take s = Some (r, s') \<and>
      (case r of None \<Rightarrow> inv s' used [] | Some x \<Rightarrow> x \<notin> set used \<and> (\<exists>free'. inv s' (used @ [x]) free'))"
    and give_law: "inv s used free \<Longrightarrow> x \<in> set used \<Longrightarrow> \<exists>s'. give x s = Some s' \<and> inv s' (remove1 x used) (free @ [x])"
    and ident_law: "inv s used free \<Longrightarrow> distinct (map (ident s) used)"
begin

fun run :: "pool_op list \<Rightarrow> 's \<Rightarrow> nat list \<Rightarrow> ('s \<times> nat list) option" where
  "run [] s held = Some (s, held)"
| "run (Pool_Take # ops) s held =
     do { (r, s) \<leftarrow> take s; run ops s (case r of None \<Rightarrow> held | Some x \<Rightarrow> held @ [x]) }"
| "run (Pool_Give i # ops) s held =
     (if i < length held then do { s \<leftarrow> give (held ! i) s; run ops s (remove1 (held ! i) held) }
      else run ops s held)"

lemma run_inv: "inv s held free \<Longrightarrow> \<exists>s' held' free'. run ops s held = Some (s', held') \<and> inv s' held' free'"
proof (induction ops arbitrary: s held free)
  case (Cons p ops)
  show ?case
  proof (cases p)
    case Pool_Take
    obtain r s1 where t: "take s = Some (r, s1)" "case r of None \<Rightarrow> inv s1 held []
        | Some x \<Rightarrow> x \<notin> set held \<and> (\<exists>free'. inv s1 (held @ [x]) free')"
      using take_law [OF Cons.prems] by blast
    then obtain free1 where "inv s1 (case r of None \<Rightarrow> held | Some x \<Rightarrow> held @ [x]) free1"
      by (auto split: option.splits)
    from Cons.IH [OF this] t(1) Pool_Take show ?thesis by simp
  next
    case (Pool_Give i)
    show ?thesis
    proof (cases "i < length held")
      case True
      then have "held ! i \<in> set held" by simp
      from give_law [OF Cons.prems this] obtain s1 where
        s1: "give (held ! i) s = Some s1" "inv s1 (remove1 (held ! i) held) (free @ [held ! i])" by blast
      from Cons.IH [OF s1(2)] s1(1) True Pool_Give show ?thesis by simp
    next
      case False
      with Cons.IH [OF Cons.prems] Pool_Give show ?thesis by simp
    qed
  qed
qed auto

lemma run_distinct:
  "inv s held free \<Longrightarrow> \<exists>s' held' free'. run ops s held = Some (s', held') \<and> inv s' held' free' \<and> distinct (map (ident s') held')"
  using run_inv [of s held free ops] ident_law by blast

end

interpretation oip: id_pool "oi_inv s0" oi_GetNext oi_Remove "\<lambda>p. ll_ids (oi_list p)" for s0
proof (unfold_locales, goal_cases)
  case (1 s used free)
  then show ?case by (rule oi_GetNext_inv)
next
  case (2 s used free x)
  then show ?case by (rule oi_Remove_inv)
next
  case (3 s used free)
  then show ?case by (simp add: oi_inv_def oi_rel_def oi_below_def)
qed

text \<open>The user of the pool, over the pool's own operations.\<close>

fun oi_run :: "pool_op list \<Rightarrow> obj_id \<Rightarrow> nat list \<Rightarrow> (obj_id \<times> nat list) option" where
  "oi_run [] p held = Some (p, held)"
| "oi_run (Pool_Take # ops) p held =
     do { (r, p) \<leftarrow> oi_GetNext p; oi_run ops p (case r of None \<Rightarrow> held | Some x \<Rightarrow> held @ [x]) }"
| "oi_run (Pool_Give i # ops) p held =
     (if i < length held then do { p \<leftarrow> oi_Remove (held ! i) p; oi_run ops p (remove1 (held ! i) held) }
      else oi_run ops p held)"

lemma oi_run_pool: "oi_run ops p held = oip.run ops p held"
proof (induction ops p held rule: oi_run.induct)
  case (2 ops p held)
  then show ?case by (cases "oi_GetNext p") auto
next
  case (3 i ops p held)
  then show ?case by (cases "oi_Remove (held ! i) p") auto
qed simp

lemma oi_create_inv:
  assumes "0 < step" "unat init \<le> unat (e - s)" "unat s + unat step * unat (e - s) < 2 ^ 32"
    and "unat (e - s) + unat inc * unat step < 2 ^ 32"
  shows "\<exists>p free. oi_create s e step init inc = Some p \<and> oi_inv (unat s) p [] free"
proof -
  let ?p = "\<lparr>oi_list = ll_new, oi_start = s, oi_max = e - s, oi_step = step, oi_inc = inc, oi_count = 0, oi_fresh = 0\<rparr>"
  have below: "oi_below s ?p [] []" by (simp add: oi_below_def ll_list_def ll_new_def)
  have "unat step * unat init \<le> unat step * unat (e - s)" using assms(2) by (rule mult_le_mono2)
  moreover have "unat init * unat step = unat step * unat init" by (rule mult.commute)
  ultimately have small: "unat s + unat init * unat step < 2 ^ 32" using assms(3) by linarith
  from oi_resize_rel [OF below assms(1) small] obtain p new where
    p: "oi_Resize init step ?p = Some p" "oi_rel p [] new" "length new = unat init" "oi_max p = e - s"
      "oi_step p = step" "oi_inc p = inc" "oi_count p = 0" "unat (oi_start p) = unat s + unat init * unat step"
    by (auto simp: oi_Resize_def add.commute)
  have "p\<lparr>oi_count := 0\<rparr> = p" using p(7) by (metis obj_id.surjective obj_id.update_convs(6))
  then have "oi_create s e step init inc = Some p" using p(1) by (simp add: oi_create_def)
  moreover have "oi_inv (unat s) p [] new" using p assms by (simp add: oi_inv_def mult.commute)
  ultimately show ?thesis by blast
qed

section \<open>Properties\<close>

text \<open>
  C11: a freshly created pool whose configuration fits 32 bits serves any sequence of requests and
  releases of a user that releases only nodes it holds: no operation follows a dangling pointer,
  the identifiers held at any time are pairwise different, and the pool counts exactly the nodes
  held.
\<close>

theorem id_pool_unique:
  assumes "0 < step" "unat init \<le> unat (e - s)" "unat s + unat step * unat (e - s) < 2 ^ 32"
    and "unat (e - s) + unat inc * unat step < 2 ^ 32"
  shows "\<exists>p p' held. oi_create s e step init inc = Some p \<and> oi_run ops p [] = Some (p', held) \<and>
           distinct (map (ll_ids (oi_list p')) held) \<and> oi_count p' = word_of_nat (length held)"
proof -
  obtain p free where p: "oi_create s e step init inc = Some p" "oi_inv (unat s) p [] free"
    using oi_create_inv [OF assms] by blast
  from oip.run_distinct [OF p(2), of ops] obtain p' held free' where
    r: "oip.run ops p [] = Some (p', held)" "oi_inv (unat s) p' held free'" "distinct (map (ll_ids (oi_list p')) held)"
    by blast
  then have "oi_count p' = word_of_nat (length held)" by (simp add: oi_inv_def oi_rel_def oi_below_def)
  with p(1) r show ?thesis by (simp add: oi_run_pool)
qed

theorem id_pool_unique_witness:
  "\<exists>p p' held. oi_create ID_PET_BEGIN ID_PET_END STEP_TWO 25000 1000 = Some p \<and>
     oi_run [Pool_Take, Pool_Take, Pool_Give 0, Pool_Take] p [] = Some (p', held) \<and>
     distinct (map (ll_ids (oi_list p')) held) \<and> oi_count p' = word_of_nat (length held)"
  by (rule id_pool_unique) (simp_all add: ID_PET_BEGIN_def ID_PET_END_def STEP_TWO_def)

text \<open>
  The limit compares the number of nodes in use plus the identifiers of one increase with the size
  of the range, so with a step above one the identifiers run past the end of the range: here 15
  from a range that ends at 12.
\<close>

lemma ids_leave_range:
  "map_option (\<lambda>(p, held). map (ll_ids (oi_list p)) held)
     (do { p \<leftarrow> oi_create 0 12 3 2 2; oi_run (replicate 6 Pool_Take) p [] }) = Some [0, 3, 6, 9, 12, 15]"
  by code_simp

text \<open>Releasing a node twice loses the free nodes in front of it.\<close>

lemma double_release_leaks:
  "map_option (\<lambda>(p, held). map (ll_ids (oi_list p)) held)
     (do { p \<leftarrow> oi_create 0 100 1 3 0; (r, p) \<leftarrow> oi_GetNext p; p \<leftarrow> oi_Remove 0 p; p \<leftarrow> oi_Remove 1 p; oi_run (replicate 4 Pool_Take) p [] }) =
   Some [1]"
  by code_simp

end
