(* ===== verification/Obj_Admin.thy ===== *)
theory Obj_Admin
  imports Prelude
begin

text \<open>
  The object cache of pitayaserver/framework/ObjAdmin.h and ObjAdmin.cpp: \<^verbatim>\<open>CObjCtrl\<close> keeps at most
  \<^verbatim>\<open>m_MaxCapacity\<close> objects, a map from keys to objects and a list of the same objects in order of
  use, and writes an object back before it drops it.

  Objects live in a heap of addresses, because the map and the list share them and the caller
  changes them through the pointer it gets. Loading and saving are the pure virtual functions
  \<^verbatim>\<open>GetInnerData\<close> and \<^verbatim>\<open>SaveInnerData\<close>; they are parameters (\<open>load\<close>, \<open>save\<close>) on the state \<open>'db\<close> of
  the store behind the cache. \<open>store_ok\<close> says what a store promises.

  In \<^verbatim>\<open>GetData\<close> the reverse iterator is compared with \<^verbatim>\<open>rend()\<close> after its element was erased; the
  erased element is no longer the first one, so the comparison fails and the code goes on.
\<close>

section \<open>State\<close>

record 'd stu =
  stu_key :: uint32
  stu_timestamp :: uint32
  stu_data :: 'd

record ('d, 'db) obj_ctrl =
  oc_max :: uint32
  oc_mapData :: "(uint32 \<times> nat) list"
  oc_listIndex :: "nat list"
  oc_resident :: "uint32 list"
  oc_heap :: "nat \<Rightarrow> 'd stu option"
  oc_fresh :: nat
  oc_db :: 'db

type_synonym ('d, 'db) loader = "uint32 \<Rightarrow> 'db \<Rightarrow> 'd option \<times> 'db"
type_synonym ('d, 'db) saver = "'d stu \<Rightarrow> 'db \<Rightarrow> bool \<times> 'db"

definition MAX_ALIVE_TIME :: uint32 where "MAX_ALIVE_TIME = 21600"

text \<open>The constructor leaves the capacity as the memory had it (\<open>m\<close>) until \<open>Init\<close>.\<close>

definition oc_new :: "uint32 \<Rightarrow> 'db \<Rightarrow> ('d, 'db) obj_ctrl" where
  "oc_new m db = \<lparr>oc_max = m, oc_mapData = [], oc_listIndex = [], oc_resident = [], oc_heap = (\<lambda>_. None),
     oc_fresh = 0, oc_db = db\<rparr>"

definition oc_Init :: "uint32 \<Rightarrow> ('d, 'db) obj_ctrl \<Rightarrow> int \<times> ('d, 'db) obj_ctrl" where
  "oc_Init max_capacity oc = (if max_capacity = 0 then (-1, oc) else (0, oc\<lparr>oc_max := max_capacity\<rparr>))"

definition oc_destroy :: "('d, 'db) obj_ctrl \<Rightarrow> ('d, 'db) obj_ctrl" where
  "oc_destroy oc = oc\<lparr>oc_heap := (\<lambda>a. if a \<in> set (oc_listIndex oc) then None else oc_heap oc a)\<rparr>"

definition oc_AddResidentKey :: "uint32 \<Rightarrow> ('d, 'db) obj_ctrl \<Rightarrow> ('d, 'db) obj_ctrl" where
  "oc_AddResidentKey key oc = oc\<lparr>oc_resident := List.insert key (oc_resident oc)\<rparr>"

definition oc_ClearResidentKey :: "('d, 'db) obj_ctrl \<Rightarrow> ('d, 'db) obj_ctrl" where
  "oc_ClearResidentKey oc = oc\<lparr>oc_resident := []\<rparr>"

section \<open>Operations\<close>

definition oc_drop :: "nat \<Rightarrow> uint32 \<Rightarrow> ('d, 'db) obj_ctrl \<Rightarrow> ('d, 'db) obj_ctrl" where
  "oc_drop a key oc =
     oc\<lparr>oc_mapData := omap_erase key (oc_mapData oc), oc_listIndex := remove1 a (oc_listIndex oc),
        oc_heap := (oc_heap oc)(a := None)\<rparr>"

text \<open>
  The eviction loop, on the list in reverse: \<^const>\<open>None\<close> a dangling pointer, otherwise whether there is
  room now.
\<close>

fun oc_evict :: "('d, 'db) saver \<Rightarrow> nat list \<Rightarrow> ('d, 'db) obj_ctrl \<Rightarrow> (bool \<times> ('d, 'db) obj_ctrl) option" where
  "oc_evict save [] oc = Some (False, oc)"
| "oc_evict save (a # as) oc =
     (case oc_heap oc a of
        None \<Rightarrow> None
      | Some p \<Rightarrow>
          if stu_key p \<notin> set (oc_resident oc)
          then (let (ok, db) = save p (oc_db oc); oc = oc\<lparr>oc_db := db\<rparr>
                in if \<not> ok then Some (False, oc) else Some (True, oc_drop a (stu_key p) oc))
          else oc_evict save as oc)"

fun oc_erase_key :: "(nat \<Rightarrow> 'd stu option) \<Rightarrow> uint32 \<Rightarrow> nat list \<Rightarrow> nat list option" where
  "oc_erase_key h key [] = Some []"
| "oc_erase_key h key (a # as) =
     (case h a of
        None \<Rightarrow> None
      | Some p \<Rightarrow> if stu_key p = key then Some as else map_option ((#) a) (oc_erase_key h key as))"

definition oc_insert_new ::
  "('d, 'db) loader \<Rightarrow> uint32 \<Rightarrow> uint32 \<Rightarrow> ('d, 'db) obj_ctrl \<Rightarrow> nat option \<times> ('d, 'db) obj_ctrl" where
  "oc_insert_new load now key oc =
     (let (r, db) = load key (oc_db oc); oc = oc\<lparr>oc_db := db\<rparr>
      in case r of
           None \<Rightarrow> (None, oc)
         | Some d \<Rightarrow>
             let a = oc_fresh oc
             in (Some a, oc\<lparr>oc_heap := (oc_heap oc)(a \<mapsto> \<lparr>stu_key = key, stu_timestamp = now, stu_data = d\<rparr>),
                            oc_fresh := Suc a, oc_listIndex := a # oc_listIndex oc,
                            oc_mapData := omap_set key a (oc_mapData oc)\<rparr>))"

definition oc_GetData ::
  "('d, 'db) loader \<Rightarrow> ('d, 'db) saver \<Rightarrow> uint32 \<Rightarrow> uint32 \<Rightarrow> ('d, 'db) obj_ctrl \<Rightarrow>
   (nat option \<times> ('d, 'db) obj_ctrl) option" where
  "oc_GetData load save now key oc =
     (case map_of (oc_mapData oc) key of
        None \<Rightarrow>
          if length (oc_mapData oc) \<ge> unat (oc_max oc)
          then (case oc_evict save (rev (oc_listIndex oc)) oc of
                  None \<Rightarrow> None
                | Some (room, oc) \<Rightarrow> Some (if room then oc_insert_new load now key oc else (None, oc)))
          else Some (oc_insert_new load now key oc)
      | Some p \<Rightarrow>
          (case oc_erase_key (oc_heap oc) key (oc_listIndex oc) of
             None \<Rightarrow> None
           | Some l \<Rightarrow> Some (Some p, oc\<lparr>oc_listIndex := p # l\<rparr>)))"

fun oc_timer_loop ::
  "('d, 'db) saver \<Rightarrow> uint32 \<Rightarrow> nat list \<Rightarrow> ('d, 'db) obj_ctrl \<Rightarrow> ('d, 'db) obj_ctrl option" where
  "oc_timer_loop save t [] oc = Some oc"
| "oc_timer_loop save t (a # as) oc =
     (case oc_heap oc a of
        None \<Rightarrow> None
      | Some p \<Rightarrow>
          if stu_timestamp p + MAX_ALIVE_TIME < t \<and> stu_key p \<notin> set (oc_resident oc)
          then (let (ok, db) = save p (oc_db oc); oc = oc\<lparr>oc_db := db\<rparr>
                in if \<not> ok then Some oc else oc_timer_loop save t as (oc_drop a (stu_key p) oc))
          else oc_timer_loop save t as oc)"

definition oc_OnTimer :: "('d, 'db) saver \<Rightarrow> uint32 \<Rightarrow> ('d, 'db) obj_ctrl \<Rightarrow> ('d, 'db) obj_ctrl option" where
  "oc_OnTimer save t oc = oc_timer_loop save t (oc_listIndex oc) oc"

fun oc_save_loop :: "('d, 'db) saver \<Rightarrow> nat list \<Rightarrow> ('d, 'db) obj_ctrl \<Rightarrow> ('d, 'db) obj_ctrl option" where
  "oc_save_loop save [] oc = Some oc"
| "oc_save_loop save (a # as) oc =
     (case oc_heap oc a of
        None \<Rightarrow> None
      | Some p \<Rightarrow> oc_save_loop save as (oc\<lparr>oc_db := snd (save p (oc_db oc))\<rparr>))"

definition oc_SaveAllData :: "('d, 'db) saver \<Rightarrow> ('d, 'db) obj_ctrl \<Rightarrow> ('d, 'db) obj_ctrl option" where
  "oc_SaveAllData save oc = oc_save_loop save (oc_listIndex oc) oc"

text \<open>\<^verbatim>\<open>DataDump\<close>: the numbers it logs.\<close>

definition oc_DataDump ::
  "('d, 'db) obj_ctrl \<Rightarrow> uint32 \<times> nat \<times> (uint32 \<times> uint32) option list \<times> nat \<times> (uint32 \<times> uint32 option) list" where
  "oc_DataDump oc =
     (oc_max oc, length (oc_listIndex oc),
      map (\<lambda>a. map_option (\<lambda>p. (stu_key p, stu_timestamp p)) (oc_heap oc a)) (oc_listIndex oc),
      length (oc_mapData oc),
      map (\<lambda>(k, a). (k, map_option stu_timestamp (oc_heap oc a))) (oc_mapData oc))"

section \<open>Invariant\<close>

definition oc_keys :: "('d, 'db) obj_ctrl \<Rightarrow> uint32 list" where
  "oc_keys oc = map (\<lambda>a. stu_key (the (oc_heap oc a))) (oc_listIndex oc)"

definition oc_ok :: "('d, 'db) obj_ctrl \<Rightarrow> bool" where
  "oc_ok oc \<longleftrightarrow> distinct (oc_keys oc) \<and> distinct (oc_listIndex oc) \<and> omap_ok (oc_mapData oc) \<and>
     (\<forall>a \<in> set (oc_listIndex oc). a < oc_fresh oc \<and> oc_heap oc a \<noteq> None) \<and>
     (\<forall>k a. map_of (oc_mapData oc) k = Some a \<longleftrightarrow>
        a \<in> set (oc_listIndex oc) \<and> (\<exists>p. oc_heap oc a = Some p \<and> stu_key p = k)) \<and>
     length (oc_mapData oc) = length (oc_listIndex oc)"

text \<open>What the caller sees: the cached object, else what the store has.\<close>

definition oc_view :: "('db \<Rightarrow> uint32 \<Rightarrow> 'd option) \<Rightarrow> ('d, 'db) obj_ctrl \<Rightarrow> uint32 \<Rightarrow> 'd option" where
  "oc_view look oc k =
     (case map_of (oc_mapData oc) k of
        None \<Rightarrow> look (oc_db oc) k
      | Some a \<Rightarrow> map_option stu_data (oc_heap oc a))"

definition store_ok :: "('db \<Rightarrow> uint32 \<Rightarrow> 'd option) \<Rightarrow> ('d, 'db) loader \<Rightarrow> ('d, 'db) saver \<Rightarrow> bool" where
  "store_ok look load save \<longleftrightarrow>
     (\<forall>k db. fst (load k db) = look db k \<and> look (snd (load k db)) = look db) \<and>
     (\<forall>p db. look (snd (save p db)) = (if fst (save p db) then (look db)(stu_key p \<mapsto> stu_data p) else look db))"

lemma oc_ok_new: "oc_ok (oc_new m db)"
  by (simp add: oc_ok_def oc_new_def oc_keys_def)

lemma oc_heapD: "oc_ok oc \<Longrightarrow> a \<in> set (oc_listIndex oc) \<Longrightarrow> \<exists>p. oc_heap oc a = Some p"
  by (auto simp: oc_ok_def)

lemma oc_mapD:
  "oc_ok oc \<Longrightarrow> a \<in> set (oc_listIndex oc) \<Longrightarrow> oc_heap oc a = Some p \<Longrightarrow> map_of (oc_mapData oc) (stu_key p) = Some a"
  by (auto simp: oc_ok_def)

lemma length_omap_erase:
  "omap_ok m \<Longrightarrow> map_of m k = Some a \<Longrightarrow> length (omap_erase k m) = length m - 1"
proof -
  assume ok: "omap_ok m" and k: "map_of m k = Some a"
  have "length (filter (\<lambda>(k', v). k' \<noteq> k) m) = length m - 1"
    using ok k
  proof (induction m)
    case (Cons kv m)
    show ?case
    proof (cases "fst kv = k")
      case True
      with Cons.prems(1) have "\<forall>k' \<in> set (map fst m). k' \<noteq> k" by (cases kv) auto
      then have "filter (\<lambda>(k', v). k' \<noteq> k) m = m" by (intro filter_True) auto
      with True show ?thesis by (cases kv) simp
    next
      case False
      with Cons have "length (filter (\<lambda>(k', v). k' \<noteq> k) m) = length m - 1" "m \<noteq> []" by (cases kv; auto)+
      with False show ?thesis by (cases kv) (simp add: Suc_leI)
    qed
  qed simp
  then show ?thesis by (simp add: omap_erase_def)
qed

lemma length_omap_set: "omap_ok m \<Longrightarrow> map_of m k = None \<Longrightarrow> length (omap_set k a m) = Suc (length m)"
  by (induction k a m rule: omap_set.induct) (auto split: if_splits)

text \<open>Dropping a cached object that has been saved.\<close>

lemma oc_drop_ok:
  assumes ok: "oc_ok oc" and a: "a \<in> set (oc_listIndex oc)" "oc_heap oc a = Some p"
  shows "oc_ok (oc_drop a (stu_key p) oc)"
    and "map_of (oc_mapData (oc_drop a (stu_key p) oc)) = (map_of (oc_mapData oc))(stu_key p := None)"
    and "length (oc_mapData (oc_drop a (stu_key p) oc)) = length (oc_mapData oc) - 1"
proof -
  let ?oc = "oc_drop a (stu_key p) oc" and ?l = "oc_listIndex oc"
  have m: "map_of (oc_mapData oc) (stu_key p) = Some a" using assms by (rule oc_mapD)
  have d: "distinct ?l" "distinct (oc_keys oc)" "omap_ok (oc_mapData oc)" using ok by (auto simp: oc_ok_def)
  then have rem: "set (remove1 a ?l) = set ?l - {a}" "a \<notin> set (remove1 a ?l)" by simp_all
  show len: "length (oc_mapData ?oc) = length (oc_mapData oc) - 1"
    using length_omap_erase [OF d(3) m] by (simp add: oc_drop_def)
  show map: "map_of (oc_mapData ?oc) = (map_of (oc_mapData oc))(stu_key p := None)"
    by (simp add: oc_drop_def map_of_omap_erase)
  have keys: "oc_keys ?oc = map (\<lambda>a. stu_key (the (oc_heap oc a))) (remove1 a ?l)"
    using rem by (auto simp: oc_keys_def oc_drop_def)
  have inj: "inj_on (\<lambda>a. stu_key (the (oc_heap oc a))) (set ?l)"
    using d(2) by (simp add: oc_keys_def distinct_map)
  then have "distinct (oc_keys ?oc)"
    using keys d(1) rem(1) by (simp add: distinct_map inj_on_subset [OF inj])
  moreover have "stu_key q \<noteq> stu_key p" if "b \<in> set ?l" "b \<noteq> a" "oc_heap oc b = Some q" for b q
    using inj_onD [OF inj, of b a] that a by auto
  ultimately show "oc_ok ?oc"
    using ok rem map len a d unfolding oc_ok_def
    by (auto simp: oc_drop_def length_remove1 omap_ok_erase)
qed


text \<open>
  What every operation keeps: the invariant, the contents the caller sees, the configuration and
  the presence of resident keys.
\<close>

definition oc_safe :: "('db \<Rightarrow> uint32 \<Rightarrow> 'd option) \<Rightarrow> ('d, 'db) obj_ctrl \<Rightarrow> ('d, 'db) obj_ctrl \<Rightarrow> bool" where
  "oc_safe look oc oc' \<longleftrightarrow> oc_ok oc' \<and> oc_view look oc' = oc_view look oc \<and>
     oc_max oc' = oc_max oc \<and> oc_resident oc' = oc_resident oc \<and>
     (\<forall>k \<in> set (oc_resident oc). map_of (oc_mapData oc) k \<noteq> None \<longrightarrow> map_of (oc_mapData oc') k = map_of (oc_mapData oc) k)"

lemma oc_safe_refl: "oc_ok oc \<Longrightarrow> oc_safe look oc oc"
  by (simp add: oc_safe_def)

lemma oc_safe_trans: "oc_safe look a b \<Longrightarrow> oc_safe look b c \<Longrightarrow> oc_safe look a c"
  by (auto simp: oc_safe_def)

lemma oc_safe_okD: "oc_safe look oc oc' \<Longrightarrow> oc_ok oc'"
  by (simp add: oc_safe_def)

lemma oc_ok_db: "oc_ok (oc\<lparr>oc_db := db\<rparr>) = oc_ok oc"
  by (simp add: oc_ok_def oc_keys_def)

lemma store_okD:
  assumes "store_ok look load save"
  shows "load k db = (r, db') \<Longrightarrow> r = look db k \<and> look db' = look db"
    and "save p db = (ok, db') \<Longrightarrow> look db' = (if ok then (look db)(stu_key p \<mapsto> stu_data p) else look db)"
  using assms unfolding store_ok_def by (metis fst_conv snd_conv)+

lemma oc_write_back:
  assumes st: "store_ok look load save" and ok: "oc_ok oc" and a: "a \<in> set (oc_listIndex oc)" "oc_heap oc a = Some p"
    and sv: "save p (oc_db oc) = (b, db)"
  shows "oc_safe look oc (oc\<lparr>oc_db := db\<rparr>)"
    and "b \<Longrightarrow> stu_key p \<notin> set (oc_resident oc) \<Longrightarrow> oc_safe look oc (oc_drop a (stu_key p) (oc\<lparr>oc_db := db\<rparr>))"
proof -
  have m: "map_of (oc_mapData oc) (stu_key p) = Some a" using ok a by (rule oc_mapD)
  note look = store_okD(2) [OF st sv]
  have "oc_view look (oc\<lparr>oc_db := db\<rparr>) k = oc_view look oc k" for k
    using look m by (auto simp: oc_view_def split: option.splits)
  then have view: "oc_view look (oc\<lparr>oc_db := db\<rparr>) = oc_view look oc" ..
  then show "oc_safe look oc (oc\<lparr>oc_db := db\<rparr>)" using ok by (simp add: oc_safe_def oc_ok_db)
  assume b: b and res: "stu_key p \<notin> set (oc_resident oc)"
  let ?oc = "oc_drop a (stu_key p) (oc\<lparr>oc_db := db\<rparr>)"
  have oka: "oc_ok (oc\<lparr>oc_db := db\<rparr>)" "a \<in> set (oc_listIndex (oc\<lparr>oc_db := db\<rparr>))" "oc_heap (oc\<lparr>oc_db := db\<rparr>) a = Some p"
    using ok a by (simp_all add: oc_ok_db)
  note drop = oc_drop_ok [OF oka]
  have "oc_view look ?oc k = oc_view look oc k" for k
  proof (cases "k = stu_key p")
    case True
    then show ?thesis using look b m a(2) drop(2) by (simp add: oc_view_def) (simp add: oc_drop_def)
  next
    case False
    have heap: "oc_heap ?oc a' = oc_heap oc a'" if "map_of (oc_mapData oc) k = Some a'" for a'
      using that ok False a(2) by (auto simp: oc_ok_def oc_drop_def)
    have db: "oc_db ?oc = db" by (simp add: oc_drop_def)
    show ?thesis using False look b drop(2) heap db by (auto simp: oc_view_def split: option.splits)
  qed
  then have "oc_view look ?oc = oc_view look oc" ..
  moreover have "map_of (oc_mapData ?oc) k = map_of (oc_mapData oc) k" if "k \<in> set (oc_resident oc)" for k
    using drop(2) that res by auto
  ultimately show "oc_safe look oc ?oc"
    using drop(1) by (simp add: oc_safe_def) (simp add: oc_drop_def)
qed

lemma oc_evict_safe:
  assumes st: "store_ok look load save" and ok: "oc_ok oc"
  shows "set as \<subseteq> set (oc_listIndex oc) \<Longrightarrow>
     \<exists>b oc'. oc_evict save as oc = Some (b, oc') \<and> oc_safe look oc oc' \<and>
       length (oc_mapData oc') = (if b then length (oc_mapData oc) - 1 else length (oc_mapData oc)) \<and>
       (\<forall>k. map_of (oc_mapData oc) k = None \<longrightarrow> map_of (oc_mapData oc') k = None)"
proof (induction as)
  case Nil
  show ?case using ok by (simp add: oc_safe_refl exI [of _ False])
next
  case (Cons a as)
  then have a: "a \<in> set (oc_listIndex oc)" by simp
  then obtain p where p: "oc_heap oc a = Some p" using oc_heapD [OF ok] by blast
  show ?case
  proof (cases "stu_key p \<in> set (oc_resident oc)")
    case True
    with Cons p show ?thesis by simp
  next
    case False
    obtain b db where sv: "save p (oc_db oc) = (b, db)" by fastforce
    have ok': "oc_ok (oc\<lparr>oc_db := db\<rparr>)" "a \<in> set (oc_listIndex (oc\<lparr>oc_db := db\<rparr>))" "oc_heap (oc\<lparr>oc_db := db\<rparr>) a = Some p"
      using ok a p by (simp_all add: oc_ok_db)
    show ?thesis
      using oc_write_back [OF st ok a p sv] oc_drop_ok(2,3) [OF ok'] False p sv by (cases b) auto
  qed
qed

lemma oc_insert_new_safe:
  assumes st: "store_ok look load save" and ok: "oc_ok oc" and new: "map_of (oc_mapData oc) key = None"
    and ins: "oc_insert_new load now key oc = (r, oc')"
  shows "oc_safe look oc oc'" "r = None \<Longrightarrow> length (oc_mapData oc') = length (oc_mapData oc)"
    "r = Some a \<Longrightarrow> length (oc_mapData oc') = Suc (length (oc_mapData oc)) \<and> (\<exists>as. oc_listIndex oc' = a # as) \<and>
       (\<exists>p. oc_heap oc' a = Some p \<and> stu_key p = key \<and> oc_view look oc key = Some (stu_data p))"
    "r = None \<longleftrightarrow> oc_view look oc key = None"
proof -
  obtain r0 db where ld: "load key (oc_db oc) = (r0, db)" by fastforce
  note look = store_okD(1) [OF st ld]
  let ?c = "oc\<lparr>oc_db := db\<rparr>"
  have okc: "oc_ok ?c" using ok by (simp add: oc_ok_db)
  have view: "oc_view look ?c = oc_view look oc" using look by (auto simp: oc_view_def fun_eq_iff split: option.splits)
  have vkey: "oc_view look oc key = r0" using look new by (simp add: oc_view_def)
  have "oc_safe look oc oc' \<and> (r = None \<longrightarrow> length (oc_mapData oc') = length (oc_mapData oc)) \<and>
    (\<forall>a. r = Some a \<longrightarrow> length (oc_mapData oc') = Suc (length (oc_mapData oc)) \<and> (\<exists>as. oc_listIndex oc' = a # as) \<and>
       (\<exists>p. oc_heap oc' a = Some p \<and> stu_key p = key \<and> oc_view look oc key = Some (stu_data p))) \<and>
    (r = None \<longleftrightarrow> oc_view look oc key = None)"
  proof (cases r0)
    case None
    with ins ld vkey okc view show ?thesis by (auto simp: oc_insert_new_def oc_safe_def)
  next
    case (Some d)
    let ?f = "oc_fresh oc" and ?p = "\<lparr>stu_key = key, stu_timestamp = now, stu_data = d\<rparr>"
    have fresh: "?f \<notin> set (oc_listIndex oc)" using ok by (auto simp: oc_ok_def)
    have eq: "r = Some ?f" "oc_heap oc' = (oc_heap oc)(?f \<mapsto> ?p)" "oc_listIndex oc' = ?f # oc_listIndex oc"
      "oc_mapData oc' = omap_set key ?f (oc_mapData oc)" "oc_db oc' = db" "oc_max oc' = oc_max oc"
      "oc_resident oc' = oc_resident oc" "oc_fresh oc' = Suc ?f"
      using ins ld Some by (auto simp: oc_insert_new_def Let_def)
    have om: "omap_ok (oc_mapData oc)" using ok by (simp add: oc_ok_def)
    have map: "map_of (oc_mapData oc') = (map_of (oc_mapData oc))(key \<mapsto> ?f)"
      using om eq by (simp add: map_of_omap_set)
    have keys: "oc_keys oc' = key # oc_keys oc" using fresh eq by (auto simp: oc_keys_def)
    have nokey: "key \<notin> set (oc_keys oc)"
    proof
      assume "key \<in> set (oc_keys oc)"
      then obtain a where a: "a \<in> set (oc_listIndex oc)" "stu_key (the (oc_heap oc a)) = key" by (auto simp: oc_keys_def)
      then obtain q where "oc_heap oc a = Some q" using oc_heapD [OF ok] by blast
      with a new oc_mapD [OF ok a(1)] show False by auto
    qed
    have len: "length (oc_mapData oc') = Suc (length (oc_mapData oc))"
      using length_omap_set [OF om new] eq by simp
    have "omap_ok (oc_mapData oc')" using om eq by (simp add: omap_ok_set)
    moreover have "map_of (oc_mapData oc') k = Some a \<longleftrightarrow>
        a \<in> set (oc_listIndex oc') \<and> (\<exists>p. oc_heap oc' a = Some p \<and> stu_key p = k)" for k a
    proof (cases "a = ?f")
      case True
      have "map_of (oc_mapData oc) k \<noteq> Some ?f" using ok fresh by (auto simp: oc_ok_def)
      with True show ?thesis using map eq by auto
    next
      case False
      have "map_of (oc_mapData oc) k = Some a \<longleftrightarrow> a \<in> set (oc_listIndex oc) \<and> (\<exists>p. oc_heap oc a = Some p \<and> stu_key p = k)"
        using ok by (simp add: oc_ok_def)
      with False new show ?thesis using map eq by auto
    qed
    ultimately have ok': "oc_ok oc'"
      using ok keys nokey len eq fresh unfolding oc_ok_def by (auto simp: less_SucI)
    have "oc_view look oc' k = oc_view look oc k" for k
    proof (cases "k = key")
      case True
      then show ?thesis using map eq vkey Some by (simp add: oc_view_def)
    next
      case False
      have "a \<noteq> ?f" if "map_of (oc_mapData oc) k = Some a" for a using that ok fresh by (auto simp: oc_ok_def)
      with False show ?thesis using map eq look by (auto simp: oc_view_def split: option.splits)
    qed
    then have "oc_view look oc' = oc_view look oc" ..
    then have "oc_safe look oc oc'" using ok' eq map new by (auto simp: oc_safe_def)
    with len eq vkey Some show ?thesis by simp
  qed
  then show "oc_safe look oc oc'" "r = None \<Longrightarrow> length (oc_mapData oc') = length (oc_mapData oc)"
    "r = Some a \<Longrightarrow> length (oc_mapData oc') = Suc (length (oc_mapData oc)) \<and> (\<exists>as. oc_listIndex oc' = a # as) \<and>
       (\<exists>p. oc_heap oc' a = Some p \<and> stu_key p = key \<and> oc_view look oc key = Some (stu_data p))"
    "r = None \<longleftrightarrow> oc_view look oc key = None" by blast+
qed


lemma oc_erase_key_remove1:
  assumes inj: "inj_on (\<lambda>a. stu_key (the (h a))) (insert a (set as))"
    and h: "\<forall>x \<in> set as. \<exists>q. h x = Some q" and a: "h a = Some p" "stu_key p = key"
  shows "oc_erase_key h key as = Some (remove1 a as)"
  using inj h
proof (induction as)
  case (Cons x as)
  obtain q where q: "h x = Some q" using Cons.prems(2) by auto
  have ih: "oc_erase_key h key as = Some (remove1 a as)"
  proof (rule Cons.IH)
    show "inj_on (\<lambda>a. stu_key (the (h a))) (insert a (set as))"
      using Cons.prems(1) by (rule inj_on_subset) auto
  qed (use Cons.prems in auto)
  have "stu_key q = key \<longleftrightarrow> x = a"
    using inj_onD [OF Cons.prems(1), of x a] q a by auto
  with q ih show ?case by simp
qed simp

lemma oc_touch:
  assumes ok: "oc_ok oc" and m: "map_of (oc_mapData oc) key = Some a"
  shows "\<exists>l. oc_erase_key (oc_heap oc) key (oc_listIndex oc) = Some l \<and> oc_safe look oc (oc\<lparr>oc_listIndex := a # l\<rparr>)"
proof -
  let ?l = "oc_listIndex oc" and ?oc = "oc\<lparr>oc_listIndex := a # remove1 a (oc_listIndex oc)\<rparr>"
  obtain p where a: "a \<in> set ?l" "oc_heap oc a = Some p" "stu_key p = key"
    using ok m by (auto simp: oc_ok_def)
  have d: "distinct ?l" "inj_on (\<lambda>a. stu_key (the (oc_heap oc a))) (set ?l)"
    using ok by (auto simp: oc_ok_def oc_keys_def distinct_map)
  have er: "oc_erase_key (oc_heap oc) key ?l = Some (remove1 a ?l)"
    using d(2) a oc_heapD [OF ok] by (intro oc_erase_key_remove1) (auto simp: insert_absorb)
  have set: "set (a # remove1 a ?l) = set ?l" "length (a # remove1 a ?l) = length ?l"
    using d(1) a(1) length_pos_if_in_set [OF a(1)] by (auto simp: length_remove1)
  have "distinct (a # remove1 a ?l)" using d(1) by simp
  then have "distinct (oc_keys ?oc)"
    using d(2) set(1) by (simp only: oc_keys_def obj_ctrl.simps distinct_map) simp
  then have "oc_ok ?oc"
    using ok set \<open>distinct (a # _)\<close> unfolding oc_ok_def by simp
  then have "oc_safe look oc ?oc" by (simp add: oc_safe_def oc_view_def fun_eq_iff cong: option.case_cong)
  with er show ?thesis by blast
qed

section \<open>The operations keep the cache coherent\<close>

definition oc_fits :: "('d, 'db) obj_ctrl \<Rightarrow> bool" where
  "oc_fits oc \<longleftrightarrow> 0 < oc_max oc \<and> length (oc_mapData oc) \<le> unat (oc_max oc)"

lemma oc_GetData_ok:
  assumes st: "store_ok look load save" and ok: "oc_ok oc" and fits: "oc_fits oc"
  shows "\<exists>r oc'. oc_GetData load save now key oc = Some (r, oc') \<and> oc_safe look oc oc' \<and> oc_fits oc' \<and>
     (case r of
        None \<Rightarrow> oc_view look oc key = None \<or> length (oc_mapData oc) = unat (oc_max oc)
      | Some a \<Rightarrow> (\<exists>as. oc_listIndex oc' = a # as) \<and>
          (\<exists>p. oc_heap oc' a = Some p \<and> stu_key p = key \<and> oc_view look oc key = Some (stu_data p)))"
proof (cases "map_of (oc_mapData oc) key")
  case (Some a)
  obtain p where p: "oc_heap oc a = Some p" "stu_key p = key" using ok Some by (auto simp: oc_ok_def)
  obtain l where "oc_erase_key (oc_heap oc) key (oc_listIndex oc) = Some l" "oc_safe look oc (oc\<lparr>oc_listIndex := a # l\<rparr>)"
    using oc_touch [OF ok Some] by blast
  with Some p fits show ?thesis by (simp add: oc_GetData_def oc_fits_def oc_view_def)
next
  case None
  show ?thesis
  proof (cases "length (oc_mapData oc) \<ge> unat (oc_max oc)")
    case True
    then have len: "length (oc_mapData oc) = unat (oc_max oc)" using fits by (simp add: oc_fits_def)
    from oc_evict_safe [OF st ok, of "rev (oc_listIndex oc)"] obtain b oc1 where
      ev: "oc_evict save (rev (oc_listIndex oc)) oc = Some (b, oc1)" "oc_safe look oc oc1"
        "length (oc_mapData oc1) = (if b then length (oc_mapData oc) - 1 else length (oc_mapData oc))"
        "map_of (oc_mapData oc1) key = None" using None by auto
    have max: "oc_max oc1 = oc_max oc" "oc_view look oc1 = oc_view look oc" "0 < unat (oc_max oc)"
      using ev(2) fits by (auto simp: oc_safe_def oc_fits_def unat_gt_0)
    show ?thesis
    proof (cases b)
      case False
      then show ?thesis using None True ev len max fits by (simp add: oc_GetData_def oc_fits_def)
    next
      case b: True
      obtain r oc2 where ins: "oc_insert_new load now key oc1 = (r, oc2)" by fastforce
      note new = oc_insert_new_safe [OF st oc_safe_okD [OF ev(2)] ev(4) ins]
      have max2: "oc_max oc2 = oc_max oc" using new(1) max by (simp add: oc_safe_def)
      have "oc_fits oc2"
        using new(2,3) ev(3) b len max max2 fits by (cases r) (auto simp: oc_fits_def)
      moreover have "oc_GetData load save now key oc = Some (r, oc2)"
        using None True ev(1) b ins by (simp add: oc_GetData_def)
      ultimately show ?thesis
        using oc_safe_trans [OF ev(2) new(1)] new(3) max(2) len by (cases r) auto
    qed
  next
    case False
    obtain r oc2 where ins: "oc_insert_new load now key oc = (r, oc2)" by fastforce
    note new = oc_insert_new_safe [OF st ok None ins]
    have "oc_max oc2 = oc_max oc" using new(1) by (simp add: oc_safe_def)
    then have "oc_fits oc2" using new(2,3) False fits by (cases r) (auto simp: oc_fits_def)
    moreover have "oc_GetData load save now key oc = Some (r, oc2)"
      using None False ins by (simp add: oc_GetData_def)
    ultimately show ?thesis using new by (cases r) auto
  qed
qed

lemma oc_timer_loop_ok:
  assumes st: "store_ok look load save"
  shows "oc_ok oc \<Longrightarrow> distinct as \<Longrightarrow> set as \<subseteq> set (oc_listIndex oc) \<Longrightarrow>
     \<exists>oc'. oc_timer_loop save t as oc = Some oc' \<and> oc_safe look oc oc' \<and>
       length (oc_mapData oc') \<le> length (oc_mapData oc)"
proof (induction as arbitrary: oc)
  case Nil
  then show ?case by (simp add: oc_safe_refl)
next
  case (Cons a as)
  then have a: "a \<in> set (oc_listIndex oc)" by simp
  then obtain p where p: "oc_heap oc a = Some p" using oc_heapD [OF Cons.prems(1)] by blast
  obtain b db where sv: "save p (oc_db oc) = (b, db)" by fastforce
  note wb = oc_write_back [OF st Cons.prems(1) a p sv]
  let ?oc = "oc_drop a (stu_key p) (oc\<lparr>oc_db := db\<rparr>)"
  have ok': "oc_ok (oc\<lparr>oc_db := db\<rparr>)" "a \<in> set (oc_listIndex (oc\<lparr>oc_db := db\<rparr>))" "oc_heap (oc\<lparr>oc_db := db\<rparr>) a = Some p"
    using Cons.prems(1) a p by (simp_all add: oc_ok_db)
  have sub: "set as \<subseteq> set (oc_listIndex ?oc)"
    using Cons.prems by (auto simp: oc_drop_def oc_ok_def)
  show ?case
  proof (cases "stu_timestamp p + MAX_ALIVE_TIME < t \<and> stu_key p \<notin> set (oc_resident oc)")
    case False
    with Cons p show ?thesis by auto
  next
    case True
    show ?thesis
    proof (cases b)
      case False
      with wb p sv True show ?thesis by auto
    next
      case b: True
      with wb True have safe: "oc_safe look oc ?oc" by blast
      from Cons.IH [OF oc_safe_okD [OF safe] _ sub] Cons.prems(2) obtain oc' where
        r: "oc_timer_loop save t as ?oc = Some oc'" "oc_safe look ?oc oc'" "length (oc_mapData oc') \<le> length (oc_mapData ?oc)"
        by auto
      have "length (oc_mapData ?oc) \<le> length (oc_mapData oc)" using oc_drop_ok(3) [OF ok'] by simp
      with r oc_safe_trans [OF safe r(2)] p sv True b show ?thesis by auto
    qed
  qed
qed

lemma oc_OnTimer_ok:
  assumes "store_ok look load save" "oc_ok oc" "oc_fits oc"
  shows "\<exists>oc'. oc_OnTimer save t oc = Some oc' \<and> oc_safe look oc oc' \<and> oc_fits oc'"
  using oc_timer_loop_ok [OF assms(1,2), of "oc_listIndex oc" t] assms(2,3)
  by (auto simp: oc_OnTimer_def oc_fits_def oc_ok_def oc_safe_def)

lemma oc_save_loop_ok:
  assumes st: "store_ok look load save"
  shows "oc_ok oc \<Longrightarrow> set as \<subseteq> set (oc_listIndex oc) \<Longrightarrow>
     \<exists>oc'. oc_save_loop save as oc = Some oc' \<and> oc_safe look oc oc' \<and> oc_mapData oc' = oc_mapData oc"
proof (induction as arbitrary: oc)
  case Nil
  then show ?case by (simp add: oc_safe_refl)
next
  case (Cons a as)
  then have a: "a \<in> set (oc_listIndex oc)" by simp
  then obtain p where p: "oc_heap oc a = Some p" using oc_heapD [OF Cons.prems(1)] by blast
  obtain b db where sv: "save p (oc_db oc) = (b, db)" by fastforce
  note safe = oc_write_back(1) [OF st Cons.prems(1) a p sv]
  have "set as \<subseteq> set (oc_listIndex (oc\<lparr>oc_db := db\<rparr>))" using Cons.prems(2) by simp
  from Cons.IH [OF oc_safe_okD [OF safe] this] p sv show ?case
    using oc_safe_trans [OF safe] by auto
qed

lemma oc_SaveAllData_ok:
  assumes "store_ok look load save" "oc_ok oc" "oc_fits oc"
  shows "\<exists>oc'. oc_SaveAllData save oc = Some oc' \<and> oc_safe look oc oc' \<and> oc_fits oc'"
  using oc_save_loop_ok [OF assms(1,2), of "oc_listIndex oc"] assms(3)
  by (auto simp: oc_SaveAllData_def oc_fits_def oc_safe_def)


section \<open>A cache behind which the store cannot be told apart from a map\<close>

text \<open>
  What the server does with the cache: fetch an object and change it through the pointer, run the
  timer, save everything, pin keys. \<open>oc_exec\<close> also returns whether the fetch succeeded.
\<close>

datatype 'd oc_op =
  OC_Change uint32 uint32 "'d \<Rightarrow> 'd"
| OC_Timer uint32
| OC_SaveAll
| OC_Pin uint32
| OC_Unpin

definition oc_change :: "nat \<Rightarrow> ('d \<Rightarrow> 'd) \<Rightarrow> ('d, 'db) obj_ctrl \<Rightarrow> ('d, 'db) obj_ctrl" where
  "oc_change a f oc =
     oc\<lparr>oc_heap := (oc_heap oc)(a := map_option (\<lambda>p. p\<lparr>stu_data := f (stu_data p)\<rparr>) (oc_heap oc a))\<rparr>"

fun oc_exec ::
  "('d, 'db) loader \<Rightarrow> ('d, 'db) saver \<Rightarrow> 'd oc_op \<Rightarrow> ('d, 'db) obj_ctrl \<Rightarrow> (bool \<times> ('d, 'db) obj_ctrl) option" where
  "oc_exec load save (OC_Change now key f) oc =
     (case oc_GetData load save now key oc of
        None \<Rightarrow> None
      | Some (None, oc) \<Rightarrow> Some (False, oc)
      | Some (Some a, oc) \<Rightarrow> Some (True, oc_change a f oc))"
| "oc_exec load save (OC_Timer t) oc = map_option (Pair True) (oc_OnTimer save t oc)"
| "oc_exec load save OC_SaveAll oc = map_option (Pair True) (oc_SaveAllData save oc)"
| "oc_exec load save (OC_Pin key) oc = Some (True, oc_AddResidentKey key oc)"
| "oc_exec load save OC_Unpin oc = Some (True, oc_ClearResidentKey oc)"

fun oc_run ::
  "('d, 'db) loader \<Rightarrow> ('d, 'db) saver \<Rightarrow> 'd oc_op list \<Rightarrow> ('d, 'db) obj_ctrl \<Rightarrow>
   (bool list \<times> ('d, 'db) obj_ctrl) option" where
  "oc_run load save [] oc = Some ([], oc)"
| "oc_run load save (x # xs) oc =
     do { (b, oc) \<leftarrow> oc_exec load save x oc; (bs, oc) \<leftarrow> oc_run load save xs oc; Some (b # bs, oc) }"

text \<open>The specification: a map from keys to data, which only a successful change touches.\<close>

fun oc_spec :: "'d oc_op \<Rightarrow> bool \<Rightarrow> (uint32 \<Rightarrow> 'd option) \<Rightarrow> (uint32 \<Rightarrow> 'd option)" where
  "oc_spec (OC_Change now key f) True m = m(key := map_option f (m key))"
| "oc_spec _ _ m = m"

fun oc_spec_run :: "'d oc_op list \<Rightarrow> bool list \<Rightarrow> (uint32 \<Rightarrow> 'd option) \<Rightarrow> (uint32 \<Rightarrow> 'd option)" where
  "oc_spec_run (x # xs) (b # bs) m = oc_spec_run xs bs (oc_spec x b m)"
| "oc_spec_run _ _ m = m"

lemma oc_change_ok:
  assumes ok: "oc_ok oc" and a: "a \<in> set (oc_listIndex oc)" "oc_heap oc a = Some p"
  shows "oc_ok (oc_change a f oc)"
    and "oc_view look (oc_change a f oc) = (oc_view look oc)(stu_key p \<mapsto> f (stu_data p))"
    and "oc_fits (oc_change a f oc) = oc_fits oc"
proof -
  let ?oc = "oc_change a f oc"
  have key: "stu_key (the (oc_heap ?oc x)) = stu_key (the (oc_heap oc x))" for x
    using a by (simp add: oc_change_def)
  have ex: "(\<exists>q. oc_heap ?oc x = Some q \<and> stu_key q = k) \<longleftrightarrow> (\<exists>q. oc_heap oc x = Some q \<and> stu_key q = k)" for x k
    using a by (auto simp: oc_change_def)
  have eq: "oc_listIndex ?oc = oc_listIndex oc" "oc_mapData ?oc = oc_mapData oc" "oc_fresh ?oc = oc_fresh oc"
    "oc_db ?oc = oc_db oc" "oc_max ?oc = oc_max oc" "oc_heap ?oc x = None \<longleftrightarrow> oc_heap oc x = None" for x
    by (auto simp: oc_change_def)
  show "oc_ok ?oc" using ok by (simp add: oc_ok_def oc_keys_def key ex eq)
  show "oc_fits ?oc = oc_fits oc" by (simp add: oc_fits_def eq)
  show "oc_view look ?oc = (oc_view look oc)(stu_key p \<mapsto> f (stu_data p))"
  proof
    fix k
    have m: "map_of (oc_mapData oc) (stu_key p) = Some a" using ok a by (rule oc_mapD)
    have "x \<noteq> a" if "map_of (oc_mapData oc) k = Some x" "k \<noteq> stu_key p" for x
      using that ok a by (auto simp: oc_ok_def)
    then show "oc_view look ?oc k = ((oc_view look oc)(stu_key p \<mapsto> f (stu_data p))) k"
      using m a eq(2,4) by (auto simp: oc_view_def oc_change_def split: option.splits)
  qed
qed

lemma oc_resident_ok:
  "oc_ok oc \<Longrightarrow> oc_ok (oc\<lparr>oc_resident := rs\<rparr>)" "oc_view look (oc\<lparr>oc_resident := rs\<rparr>) = oc_view look oc"
  "oc_fits (oc\<lparr>oc_resident := rs\<rparr>) = oc_fits oc"
  by (auto simp: oc_ok_def oc_keys_def oc_view_def oc_fits_def fun_eq_iff cong: option.case_cong)

lemma oc_exec_ok:
  assumes st: "store_ok look load save" and ok: "oc_ok oc" "oc_fits oc"
  shows "\<exists>b oc'. oc_exec load save x oc = Some (b, oc') \<and> oc_ok oc' \<and> oc_fits oc' \<and>
           oc_view look oc' = oc_spec x b (oc_view look oc)"
proof (cases x)
  case (OC_Change now key f)
  from oc_GetData_ok [OF st ok, of now key] obtain r oc1 where
    g: "oc_GetData load save now key oc = Some (r, oc1)" "oc_safe look oc oc1" "oc_fits oc1"
      "\<And>a. r = Some a \<Longrightarrow> (\<exists>as. oc_listIndex oc1 = a # as) \<and>
          (\<exists>p. oc_heap oc1 a = Some p \<and> stu_key p = key \<and> oc_view look oc key = Some (stu_data p))"
    by fastforce
  have safe: "oc_ok oc1" "oc_view look oc1 = oc_view look oc" using g(2) by (simp_all add: oc_safe_def)
  show ?thesis
  proof (cases r)
    case None
    with g safe OC_Change show ?thesis by (simp add: exI [of _ False])
  next
    case (Some a)
    from g(4) [OF Some] obtain p where p: "a \<in> set (oc_listIndex oc1)" "oc_heap oc1 a = Some p" "stu_key p = key"
      "oc_view look oc key = Some (stu_data p)" by auto
    from oc_change_ok [OF safe(1) p(1,2)] g(1,3) p(3,4) safe Some OC_Change show ?thesis by (simp add: exI [of _ True])
  qed
next
  case (OC_Timer t)
  with oc_OnTimer_ok [OF st ok] show ?thesis by (force simp: oc_safe_def)
next
  case OC_SaveAll
  with oc_SaveAllData_ok [OF st ok] show ?thesis by (force simp: oc_safe_def)
next
  case (OC_Pin key)
  then show ?thesis using ok by (auto simp: oc_AddResidentKey_def oc_resident_ok)
next
  case OC_Unpin
  then show ?thesis using ok by (auto simp: oc_ClearResidentKey_def oc_resident_ok)
qed

lemma oc_run_ok:
  assumes st: "store_ok look load save"
  shows "oc_ok oc \<Longrightarrow> oc_fits oc \<Longrightarrow>
    \<exists>bs oc'. oc_run load save xs oc = Some (bs, oc') \<and> oc_ok oc' \<and> oc_fits oc' \<and>
      oc_view look oc' = oc_spec_run xs bs (oc_view look oc)"
proof (induction xs arbitrary: oc)
  case (Cons x xs)
  from oc_exec_ok [OF st Cons.prems, of x] obtain b oc1 where
    e: "oc_exec load save x oc = Some (b, oc1)" "oc_ok oc1" "oc_fits oc1" "oc_view look oc1 = oc_spec x b (oc_view look oc)"
    by blast
  from Cons.IH [OF e(2,3)] e(1,4) show ?case by fastforce
qed simp

section \<open>Properties\<close>

text \<open>
  C10: write-back coherence of the object cache. Starting empty with a positive capacity, over a
  store that keeps what it is given, any sequence of fetch-and-change, timer, save-all and pin
  operations never follows a dangling pointer, keeps at most \<open>capacity\<close> objects, and leaves exactly the contents
  a plain map would have after the successful changes: no change is lost by eviction, expiry or a
  failed save, whatever the order.
\<close>

theorem cache_refines_map:
  assumes "store_ok look load save" "0 < m"
  shows "\<exists>bs oc'. oc_run load save xs (snd (oc_Init m (oc_new g db))) = Some (bs, oc') \<and>
           length (oc_mapData oc') \<le> unat (oc_max oc') \<and> oc_view look oc' = oc_spec_run xs bs (look db)"
proof -
  let ?oc = "snd (oc_Init m (oc_new g db))"
  have eq: "?oc = oc_new m db" using assms(2) by (auto simp: oc_Init_def oc_new_def)
  have "oc_fits ?oc" "oc_view look ?oc = look db"
    using assms(2) unfolding eq by (simp_all add: oc_fits_def oc_view_def oc_new_def fun_eq_iff)
  with oc_run_ok [OF assms(1), of ?oc xs] show ?thesis
    unfolding eq by (auto simp: oc_ok_new oc_fits_def)
qed

definition oc_demo_load :: "uint32 \<Rightarrow> (uint32 \<Rightarrow> nat option) \<Rightarrow> nat option \<times> (uint32 \<Rightarrow> nat option)" where
  "oc_demo_load k db = (db k, db)"

definition oc_demo_save :: "nat stu \<Rightarrow> (uint32 \<Rightarrow> nat option) \<Rightarrow> bool \<times> (uint32 \<Rightarrow> nat option)" where
  "oc_demo_save p db = (True, db(stu_key p \<mapsto> stu_data p))"

theorem cache_refines_map_witness:
  "\<exists>bs oc'. oc_run oc_demo_load oc_demo_save
       [OC_Change 5 1 Suc, OC_Change 6 2 Suc, OC_Change 7 3 Suc, OC_Timer 30000, OC_SaveAll]
       (snd (oc_Init 2 (oc_new 0 (\<lambda>k. Some 40)))) = Some (bs, oc') \<and>
     length (oc_mapData oc') \<le> unat (oc_max oc') \<and>
     oc_view id oc' = oc_spec_run [OC_Change 5 1 Suc, OC_Change 6 2 Suc, OC_Change 7 3 Suc, OC_Timer 30000, OC_SaveAll] bs (id (\<lambda>k. Some 40))"
  by (rule cache_refines_map) (simp_all add: store_ok_def oc_demo_load_def oc_demo_save_def)

text \<open>
  What \<open>GetData\<close> returns: the object it returns is at the front of the use order, belongs to
  the key and holds its current contents; a pinned key that is cached stays cached; and a null
  result means the key does not exist or the cache was full.
\<close>

theorem get_data_result:
  assumes "store_ok look load save" "oc_ok oc" "oc_fits oc"
  shows "\<exists>r oc'. oc_GetData load save now key oc = Some (r, oc') \<and> oc_ok oc' \<and> oc_fits oc' \<and>
     (case r of
        None \<Rightarrow> oc_view look oc key = None \<or> length (oc_mapData oc) = unat (oc_max oc)
      | Some a \<Rightarrow> (\<exists>as. oc_listIndex oc' = a # as) \<and>
          (\<exists>p. oc_heap oc' a = Some p \<and> stu_key p = key \<and> oc_view look oc key = Some (stu_data p))) \<and>
     (\<forall>k \<in> set (oc_resident oc). map_of (oc_mapData oc) k \<noteq> None \<longrightarrow>
        map_of (oc_mapData oc') k = map_of (oc_mapData oc) k)"
  using oc_GetData_ok [OF assms, of now key] unfolding oc_safe_def by blast

definition oc_demo :: "(nat, uint32 \<Rightarrow> nat option) obj_ctrl" where
  "oc_demo = oc_AddResidentKey 7 (snd (oc_insert_new oc_demo_load 5 7 (oc_new 2 (\<lambda>k. Some 40))))"

lemma oc_demo_ok: "oc_ok oc_demo" "oc_fits oc_demo"
proof -
  have st: "store_ok id oc_demo_load oc_demo_save" by (simp add: store_ok_def oc_demo_load_def oc_demo_save_def)
  obtain r oc where ins: "oc_insert_new oc_demo_load 5 7 (oc_new 2 (\<lambda>k. Some (40 :: nat))) = (r, oc)" by fastforce
  have "oc_safe id (oc_new 2 (\<lambda>k. Some 40)) oc"
    by (rule oc_insert_new_safe(1) [OF st oc_ok_new _ ins]) (simp add: oc_new_def)
  then show "oc_ok oc_demo" by (simp add: oc_demo_def ins oc_AddResidentKey_def oc_resident_ok oc_safe_def)
  show "oc_fits oc_demo"
    by (simp add: oc_demo_def oc_fits_def oc_insert_new_def oc_demo_load_def oc_new_def oc_AddResidentKey_def)
qed

theorem get_data_result_witness:
  "\<exists>r oc'. oc_GetData oc_demo_load oc_demo_save 9 4 oc_demo = Some (r, oc') \<and> oc_ok oc' \<and> oc_fits oc' \<and>
     (case r of
        None \<Rightarrow> oc_view id oc_demo 4 = None \<or> length (oc_mapData oc_demo) = unat (oc_max oc_demo)
      | Some a \<Rightarrow> (\<exists>as. oc_listIndex oc' = a # as) \<and>
          (\<exists>p. oc_heap oc' a = Some p \<and> stu_key p = 4 \<and> oc_view id oc_demo 4 = Some (stu_data p))) \<and>
     (\<forall>k \<in> set (oc_resident oc_demo). map_of (oc_mapData oc_demo) k \<noteq> None \<longrightarrow>
        map_of (oc_mapData oc') k = map_of (oc_mapData oc_demo) k)"
  by (rule get_data_result [OF _ oc_demo_ok])
    (simp add: store_ok_def oc_demo_load_def oc_demo_save_def)

end
