(* ===== verification/Name_Checker.thy ===== *)
theory Name_Checker
  imports Prelude
begin

text \<open>
  The forbidden-word filter of pitayaserver/framework: \<^verbatim>\<open>Trie\<close> (Trie.h) and \<^verbatim>\<open>CNameChecker\<close>
  (NameChecker.cpp).

  The nodes of the trie are reached from the root by exactly one path, so the tree of nodes is a
  datatype. \<^verbatim>\<open>char\<close> arrays on the stack are strings of their size; what \<^verbatim>\<open>sprintf\<close> does not write is
  an argument \<open>junk\<close>.
\<close>

section \<open>Trie\<close>

datatype trie = Trie_node (isStr: bool) (tn_next: "char \<Rightarrow> trie option")

definition trie_new :: trie where
  "trie_new = Trie_node False (\<lambda>_. None)"

primrec trie_insert_chars :: "string \<Rightarrow> trie \<Rightarrow> trie" where
  "trie_insert_chars [] t = Trie_node True (tn_next t)"
| "trie_insert_chars (c # w) t =
     Trie_node (isStr t)
       ((tn_next t)(c \<mapsto> trie_insert_chars w (case tn_next t c of None \<Rightarrow> trie_new | Some u \<Rightarrow> u)))"

definition trie_insert :: "string \<Rightarrow> trie \<Rightarrow> trie" where
  "trie_insert word t = trie_insert_chars (c_str word) t"

primrec trie_search_chars :: "string \<Rightarrow> trie option \<Rightarrow> bool" where
  "trie_search_chars [] loc = (case loc of None \<Rightarrow> False | Some t \<Rightarrow> isStr t)"
| "trie_search_chars (c # w) loc =
     (case loc of None \<Rightarrow> False | Some t \<Rightarrow> trie_search_chars w (tn_next t c))"

definition trie_search :: "string \<Rightarrow> trie \<Rightarrow> bool" where
  "trie_search word t = trie_search_chars (c_str word) (Some t)"

section \<open>CNameChecker\<close>

text \<open>\<open>Init\<close>: lower-cased lines go into the trie; more than 10000 lines stop it with failure.\<close>

fun nc_load :: "nat \<Rightarrow> string list \<Rightarrow> trie \<Rightarrow> bool \<times> trie" where
  "nc_load n [] t = (True, t)"
| "nc_load n (s # ls) t =
     (let t = trie_insert (map c_tolower s) t; n = n + 1
      in if n > 10000 then (False, t) else nc_load n ls t)"

definition nc_Init :: "string option \<Rightarrow> trie \<Rightarrow> bool \<times> trie" where
  "nc_Init content t = nc_load 0 (case content of None \<Rightarrow> [] | Some s \<Rightarrow> getlines s) t"

text \<open>\<open>szBuf\<close> after \<^verbatim>\<open>sprintf(szBuf, "%s", s)\<close>.\<close>

definition nc_szBuf :: "string \<Rightarrow> string \<Rightarrow> string" where
  "nc_szBuf junk s = overwrite 0 (c_str s @ [CHR 0x00]) junk"

text \<open>The two nested loops: the first \<open>(i, j)\<close> whose characters are a word.\<close>

fun nc_find_j :: "trie \<Rightarrow> string \<Rightarrow> nat \<Rightarrow> nat list \<Rightarrow> nat option" where
  "nc_find_j t szBuf i [] = None"
| "nc_find_j t szBuf i (j # js) =
     (if trie_search (segment i (j - i + 1) szBuf) t then Some j else nc_find_j t szBuf i js)"

fun nc_find_i :: "trie \<Rightarrow> string \<Rightarrow> nat \<Rightarrow> nat list \<Rightarrow> (nat \<times> nat) option" where
  "nc_find_i t szBuf nLen [] = None"
| "nc_find_i t szBuf nLen (i # is) =
     (case nc_find_j t szBuf i [i + 1..<nLen] of
        Some j \<Rightarrow> Some (i, j)
      | None \<Rightarrow> nc_find_i t szBuf nLen is)"

definition nc_find :: "trie \<Rightarrow> string \<Rightarrow> nat \<Rightarrow> (nat \<times> nat) option" where
  "nc_find t szBuf nLen = nc_find_i t szBuf nLen [0..<nLen]"

definition nc_ReplaceStringSingle :: "trie \<Rightarrow> string \<Rightarrow> string \<Rightarrow> bool \<times> string" where
  "nc_ReplaceStringSingle t junk s =
     (if length s > 1000 then (False, s)
      else (let s = map c_tolower s; szBuf = nc_szBuf junk s; nLen = length s
            in case nc_find t szBuf nLen of
                 None \<Rightarrow> (False, s)
               | Some (nStart, nEnd) \<Rightarrow>
                   (True, c_str (segment 0 nStart szBuf) @ ''***'' @
                          (if nEnd < nLen then c_str (segment (nEnd + 1) (nLen - nEnd - 1) szBuf) else []))))"

text \<open>\<open>ReplaceString\<close>: \<open>i\<close> counts the replacements; the eighteenth ends the loop.
  \<open>junk i\<close> is the stack of round \<open>i\<close>.\<close>

function nc_replace_loop :: "trie \<Rightarrow> (nat \<Rightarrow> string) \<Rightarrow> nat \<Rightarrow> string \<Rightarrow> nat \<times> string" where
  "nc_replace_loop t junk i s =
     (let (again, s) = nc_ReplaceStringSingle t (junk i) s
      in if \<not> again then (i, s) else if i > 16 then (i + 1, s) else nc_replace_loop t junk (i + 1) s)"
  by auto
termination by (relation "measure (\<lambda>(t, junk, i, s). 18 - i)") auto

declare nc_replace_loop.simps [simp del]

definition nc_ReplaceString :: "trie \<Rightarrow> (nat \<Rightarrow> string) \<Rightarrow> string \<Rightarrow> string" where
  "nc_ReplaceString t junk s = snd (nc_replace_loop t junk 0 s)"

definition nc_IsDirtyWord :: "trie \<Rightarrow> string \<Rightarrow> string \<Rightarrow> bool \<times> string" where
  "nc_IsDirtyWord t junk s =
     (if length s > 1000 then (False, s)
      else (let s = map c_tolower s in (nc_find t (nc_szBuf junk s) (length s) \<noteq> None, s)))"

section \<open>The word set interface\<close>

text \<open>
  What the filter needs from its dictionary: a word is found exactly when it was inserted. The
  laws speak of strings as C functions see them.
\<close>

locale word_set =
  fixes mem :: "string \<Rightarrow> 's \<Rightarrow> bool" and ins :: "string \<Rightarrow> 's \<Rightarrow> 's" and none :: 's
  assumes mem_none: "\<not> mem w none"
    and mem_ins: "mem w (ins v s) \<longleftrightarrow> c_str w = c_str v \<or> mem w s"
begin

lemma mem_fold: "mem w (fold ins ws s) \<longleftrightarrow> c_str w \<in> c_str ` set ws \<or> mem w s"
  by (induction ws arbitrary: s) (auto simp: mem_ins)

lemma mem_dictionary: "mem w (fold ins ws none) \<longleftrightarrow> c_str w \<in> c_str ` set ws"
  by (simp add: mem_fold mem_none)

end

lemma trie_search_None [simp]: "\<not> trie_search_chars w None"
  by (cases w) simp_all

lemma trie_search_new: "\<not> trie_search_chars w (Some trie_new)"
  by (cases w) (simp_all add: trie_new_def)

lemma trie_search_insert_chars:
  "trie_search_chars w (Some (trie_insert_chars v t)) \<longleftrightarrow> w = v \<or> trie_search_chars w (Some t)"
proof (induction v arbitrary: w t)
  case Nil
  show ?case by (cases w) auto
next
  case (Cons c v)
  show ?case
  proof (cases w)
    case (Cons d u)
    with Cons.IH show ?thesis by (auto simp: trie_search_new split: option.splits)
  qed simp
qed

interpretation dict: word_set trie_search trie_insert trie_new
  by unfold_locales (auto simp: trie_search_def trie_insert_def trie_search_new trie_search_insert_chars)


section \<open>What the search finds\<close>

text \<open>A string has a word of \<open>D\<close>: a part of at least two characters is in \<open>D\<close>.\<close>

definition has_word :: "string set \<Rightarrow> string \<Rightarrow> bool" where
  "has_word D s \<longleftrightarrow> (\<exists>u w v. s = u @ w @ v \<and> 2 \<le> length w \<and> w \<in> D)"

definition nul_free :: "string \<Rightarrow> bool" where
  "nul_free s \<longleftrightarrow> CHR 0x00 \<notin> set s"

lemma c_str_nul_free [simp]: "nul_free s \<Longrightarrow> c_str s = s"
  unfolding c_str_def nul_free_def by (rule takeWhile_eq_all_conv [THEN iffD2]) auto

lemma nul_free_append [simp]: "nul_free (u @ v) \<longleftrightarrow> nul_free u \<and> nul_free v"
  by (auto simp: nul_free_def)

lemma c_tolower_0 [simp]: "c_tolower c = CHR 0x00 \<longleftrightarrow> c = CHR 0x00"
proof (cases "(65 :: nat) \<le> of_char c \<and> of_char c \<le> (90 :: nat)")
  case True
  then have "(of_char (c_tolower c) :: nat) \<noteq> 0" "c \<noteq> CHR 0x00" by (auto simp: c_tolower_def)
  then show ?thesis by (metis of_char_eq_0_iff)
next
  case False
  then have "c_tolower c = c" unfolding c_tolower_def by (rule if_not_P)
  then show ?thesis by simp
qed

lemma nul_free_lower [simp]: "nul_free (map c_tolower s) = nul_free s"
  using c_tolower_0 by (auto simp: nul_free_def image_iff eq_commute [of "CHR 0x00"])

lemma nc_find_j_eq: "nc_find_j t b i js = List.find (\<lambda>j. trie_search (segment i (j - i + 1) b) t) js"
  by (induction js) simp_all

lemma nc_find_i_None:
  "nc_find_i t b n is = None \<longleftrightarrow> (\<forall>i \<in> set is. \<forall>j \<in> {i + 1..<n}. \<not> trie_search (segment i (j - i + 1) b) t)"
  by (induction "is") (auto simp: nc_find_j_eq find_None_iff find_Some_iff split: option.splits)

lemma nc_find_i_Some:
  "nc_find_i t b n is = Some (i, j) \<Longrightarrow>
   i \<in> set is \<and> i < j \<and> j < n \<and> trie_search (segment i (j - i + 1) b) t"
  by (induction "is") (auto simp: nc_find_j_eq find_Some_iff split: option.splits)

lemma segment_szBuf:
  assumes "nul_free s" "length s < length junk" "i + k \<le> length s"
  shows "segment i k (nc_szBuf junk s) = segment i k s"
proof -
  have "take (length s) (nc_szBuf junk s) = s" using assms(1) by (simp add: nc_szBuf_def overwrite_def)
  then show ?thesis using segment_take [OF assms(3), of "nc_szBuf junk s"] by simp
qed

lemma nul_free_segment: "nul_free s \<Longrightarrow> nul_free (segment i k s)"
  unfolding nul_free_def segment_def by (meson in_set_takeD in_set_dropD)

lemma split_segment: "i + k \<le> length s \<Longrightarrow> s = segment 0 i s @ segment i k s @ segment (i + k) (length s - (i + k)) s"
  by (simp add: segment_def) (metis add.commute append_take_drop_id drop_drop)

text \<open>\<open>t\<close> holds the words of \<open>D\<close>, as C strings.\<close>

definition holds_words :: "trie \<Rightarrow> string set \<Rightarrow> bool" where
  "holds_words t D \<longleftrightarrow> (\<forall>w. trie_search w t \<longleftrightarrow> c_str w \<in> D)"

lemma holds_words_fold: "holds_words (fold trie_insert ws trie_new) (c_str ` set ws)"
  by (simp add: holds_words_def dict.mem_dictionary)

lemma nc_load_eq:
  "n \<le> 10000 \<Longrightarrow> nc_load n ls t =
     (n + length ls \<le> 10000, fold trie_insert (map (map c_tolower) (take (10001 - n) ls)) t)"
proof (induction ls arbitrary: n t)
  case (Cons s ls)
  have "10001 - n = Suc (10000 - n)" using Cons.prems by simp
  with Cons show ?case by (cases "n < 10000") (simp_all add: Let_def)
qed simp

lemma nc_Init_words:
  "nc_Init (Some content) trie_new = (b, t) \<Longrightarrow>
   holds_words t ((\<lambda>l. c_str (map c_tolower l)) ` set (take 10001 (getlines content))) \<and>
   b = (length (getlines content) \<le> 10000)"
  using holds_words_fold [of "map (map c_tolower) (take 10001 (getlines content))"]
  by (auto simp: nc_Init_def nc_load_eq image_image)

lemma nc_find_None:
  assumes "holds_words t D" "nul_free s" "length s < length junk"
  shows "nc_find t (nc_szBuf junk s) (length s) = None \<longleftrightarrow> \<not> has_word D s"
proof -
  have hit: "trie_search (segment i (j - i + 1) (nc_szBuf junk s)) t \<longleftrightarrow> segment i (j - i + 1) s \<in> D"
    if "i < j" "j < length s" for i j
    using assms that by (simp add: segment_szBuf holds_words_def nul_free_segment)
  have "has_word D s \<longleftrightarrow> (\<exists>i j. i < j \<and> j < length s \<and> segment i (j - i + 1) s \<in> D)"
  proof
    assume "has_word D s"
    then obtain u w v where w: "s = u @ w @ v" "2 \<le> length w" "w \<in> D" by (auto simp: has_word_def)
    then have "segment (length u) (length u + length w - 1 - length u + 1) s \<in> D" by (simp add: segment_def)
    with w show "\<exists>i j. i < j \<and> j < length s \<and> segment i (j - i + 1) s \<in> D"
      by (intro exI [of _ "length u"] exI [of _ "length u + length w - 1"]) auto
  next
    assume "\<exists>i j. i < j \<and> j < length s \<and> segment i (j - i + 1) s \<in> D"
    then obtain i j where ij: "i < j" "j < length s" "segment i (j - i + 1) s \<in> D" by blast
    have "i + (j - i + 1) \<le> length s" using ij by simp
    moreover have "2 \<le> length (segment i (j - i + 1) s)" using ij by simp
    ultimately show "has_word D s" unfolding has_word_def using split_segment ij(3) by blast
  qed
  then show ?thesis using hit by (auto simp: nc_find_def nc_find_i_None)
qed


lemma nc_find_Some:
  assumes "holds_words t D" "nul_free s" "length s < length junk" "nc_find t (nc_szBuf junk s) (length s) = Some (i, j)"
  shows "i < j" "j < length s" "segment i (j - i + 1) s \<in> D"
proof -
  have ij: "i < j \<and> j < length s \<and> trie_search (segment i (j - i + 1) (nc_szBuf junk s)) t"
    using nc_find_i_Some assms(4) unfolding nc_find_def by blast
  then show "i < j" "j < length s" by simp_all
  then have "segment i (j - i + 1) (nc_szBuf junk s) = segment i (j - i + 1) s"
    using assms(2,3) by (intro segment_szBuf) simp_all
  then show "segment i (j - i + 1) s \<in> D"
    using ij assms(1,2) nul_free_segment [of s] by (simp add: holds_words_def)
qed

lemma replace_single:
  assumes D: "holds_words t D" and s: "nul_free s" "length s \<le> 1000" and junk: "length junk = 1024"
  obtains (clean) "nc_ReplaceStringSingle t junk s = (False, map c_tolower s)" "\<not> has_word D (map c_tolower s)"
  | (hit) u w v where "nc_ReplaceStringSingle t junk s = (True, u @ ''***'' @ v)"
      "map c_tolower s = u @ w @ v" "2 \<le> length w" "w \<in> D"
proof -
  let ?s = "map c_tolower s"
  have l: "nul_free ?s" "length ?s < length junk" using s junk by simp_all
  show thesis
  proof (cases "nc_find t (nc_szBuf junk ?s) (length ?s)")
    case None
    then have "nc_ReplaceStringSingle t junk s = (False, ?s)"
      using s(2) by (simp add: nc_ReplaceStringSingle_def Let_def)
    with None nc_find_None [OF D l] clean show thesis by blast
  next
    case (Some ij)
    obtain i j where ij: "ij = (i, j)" by fastforce
    note f = nc_find_Some [OF D l Some [unfolded ij]]
    let ?v = "segment (i + (j - i + 1)) (length ?s - (i + (j - i + 1))) ?s"
    have nf: "nul_free (segment 0 i ?s)" "nul_free ?v" using l(1) by (rule nul_free_segment)+
    have b: "segment 0 i (nc_szBuf junk ?s) = segment 0 i ?s" "segment (j + 1) (length ?s - j - 1) (nc_szBuf junk ?s) = ?v"
      using f(1,2) segment_szBuf [OF l] by (simp_all del: segment_0)
    have "nc_ReplaceStringSingle t junk s = (True, segment 0 i ?s @ ''***'' @ ?v)"
      using s(2) Some ij f b nf by (simp add: nc_ReplaceStringSingle_def Let_def)
    moreover have "?s = segment 0 i ?s @ segment i (j - i + 1) ?s @ ?v" using f by (intro split_segment) simp
    moreover have "2 \<le> length (segment i (j - i + 1) ?s)" using f by simp
    ultimately show thesis using hit f(3) by blast
  qed
qed

lemma replace_loop:
  assumes D: "holds_words t D" and junk: "\<forall>i. length (junk i) = 1024"
  shows "nul_free s \<Longrightarrow> i \<le> 17 \<Longrightarrow> length s + (18 - i) \<le> 1000 \<Longrightarrow> nc_replace_loop t junk i s = (n, r) \<Longrightarrow>
     nul_free r \<and> n \<le> 18 \<and> length r + i \<le> length s + n \<and> (n = 18 \<or> \<not> has_word D r)"
proof (induction "18 - i" arbitrary: i s)
  case (Suc k)
  note loop = Suc.prems(4)
  have len: "length s \<le> 1000" "length (junk i) = 1024" using Suc.prems(3) junk by simp_all
  show ?case
  proof (rule replace_single [OF D Suc.prems(1) len])
    assume "nc_ReplaceStringSingle t (junk i) s = (False, map c_tolower s)" "\<not> has_word D (map c_tolower s)"
    with loop Suc.prems show ?thesis by (subst (asm) nc_replace_loop.simps) auto
  next
    fix u w v
    assume h: "nc_ReplaceStringSingle t (junk i) s = (True, u @ ''***'' @ v)" "map c_tolower s = u @ w @ v"
      "2 \<le> length w"
    have "nul_free (u @ w @ v)" "length (u @ w @ v) = length s" using Suc.prems(1) h(2) by (metis nul_free_lower, metis length_map)
    then have s': "nul_free (u @ ''***'' @ v)" "length (u @ ''***'' @ v) \<le> length s + 1"
      using h(3) by (simp_all add: nul_free_def)
    show ?thesis
    proof (cases "i = 17")
      case True
      with loop h s' show ?thesis by (subst (asm) nc_replace_loop.simps) auto
    next
      case False
      then have i: "k = 18 - (i + 1)" "i + 1 \<le> 17" "length (u @ ''***'' @ v) + (18 - (i + 1)) \<le> 1000"
        using Suc.hyps(2) Suc.prems(2,3) s'(2) by linarith+
      have "nc_replace_loop t junk (i + 1) (u @ ''***'' @ v) = (n, r)"
        using loop h(1) i(2) by (subst (asm) nc_replace_loop.simps) simp
      from Suc.hyps(1) [OF i(1) s'(1) i(2,3) this] s'(2) show ?thesis by linarith
    qed
  qed
qed simp

section \<open>Properties\<close>

text \<open>The words of a word file: its lower-cased lines, up to a null character, at most the first 10001.\<close>

definition file_words :: "string \<Rightarrow> string set" where
  "file_words content = (\<lambda>l. c_str (map c_tolower l)) ` set (take 10001 (getlines content))"

text \<open>
  C17: the filter is exact, whatever the stack held before. For a name without null
  characters, \<open>IsDirtyWord\<close> answers true exactly when the name has at most 1000 characters and its
  lower-case form contains a part of two or more characters that is a line of the word file
  (a one-character word is never found: the inner loop starts at the second character).
\<close>

theorem is_dirty_word:
  assumes "nc_Init (Some content) trie_new = (b, t)" "nul_free s" "length junk = 1024"
  shows "fst (nc_IsDirtyWord t junk s) \<longleftrightarrow> length s \<le> 1000 \<and> has_word (file_words content) (map c_tolower s)"
proof -
  have "holds_words t (file_words content)" using nc_Init_words [OF assms(1)] by (simp add: file_words_def)
  from nc_find_None [OF this, of "map c_tolower s" junk] assms show ?thesis
    by (auto simp: nc_IsDirtyWord_def Let_def)
qed

definition nc_demo_file :: string where
  "nc_demo_file = ''Dirty'' @ [CHR 0x0A] @ ''bad'' @ [CHR 0x0A] @ ''x''"

theorem is_dirty_word_witness:
  "fst (nc_IsDirtyWord (snd (nc_Init (Some nc_demo_file) trie_new)) (replicate 1024 CHR ''?'') ''xBAd'') \<longleftrightarrow>
   length ''xBAd'' \<le> 1000 \<and> has_word (file_words nc_demo_file) (map c_tolower ''xBAd'')"
  by (rule is_dirty_word [OF prod.collapse [symmetric]]) (simp_all add: nul_free_def)



end
