(* ===== verification/Callbacks.thy ===== *)
theory Callbacks
  imports Prelude
begin

text \<open>
  The callback objects of pitayaserver/transition/Callback.h. The templates are specialised by the
  number of bound parameters; here the bound parameters are one value of type \<open>'p\<close> (a tuple, or
  \<^typ>\<open>unit\<close> when there are none), and a method is a function of its object, the parameters and
  the program state \<open>'s\<close>. A query callback's first parameter is the result, \<^const>\<open>None\<close> for \<^verbatim>\<open>NULL\<close>.

  Through the interface \<^verbatim>\<open>IQueryCallback\<close> the types of the object and of the other parameters are
  not visible: \<open>iquery_callback\<close> keeps the result slot and what \<^verbatim>\<open>Execute\<close> does with it.
\<close>

section \<open>Base classes\<close>

record ('o, 'p, 's) callback =
  cb_object :: 'o
  cb_method :: "'o \<Rightarrow> 'p \<Rightarrow> 's \<Rightarrow> 's"
  cb_params :: 'p

definition cb_new :: "'o \<Rightarrow> ('o \<Rightarrow> 'p \<Rightarrow> 's \<Rightarrow> 's) \<Rightarrow> 'p \<Rightarrow> ('o, 'p, 's) callback" where
  "cb_new ob m ps = \<lparr>cb_object = ob, cb_method = m, cb_params = ps\<rparr>"

definition cb_execute :: "('o, 'p, 's) callback \<Rightarrow> 's \<Rightarrow> 's" where
  "cb_execute cb = cb_method cb (cb_object cb) (cb_params cb)"

record ('p, 's) scallback =
  scb_method :: "'p \<Rightarrow> 's \<Rightarrow> 's"
  scb_params :: 'p

definition scb_new :: "('p \<Rightarrow> 's \<Rightarrow> 's) \<Rightarrow> 'p \<Rightarrow> ('p, 's) scallback" where
  "scb_new m ps = \<lparr>scb_method = m, scb_params = ps\<rparr>"

definition scb_execute :: "('p, 's) scallback \<Rightarrow> 's \<Rightarrow> 's" where
  "scb_execute cb = scb_method cb (scb_params cb)"

section \<open>Generic callbacks\<close>

type_synonym 's icallback = "'s \<Rightarrow> 's"

definition icb_Callback :: "'o \<Rightarrow> ('o \<Rightarrow> 'p \<Rightarrow> 's \<Rightarrow> 's) \<Rightarrow> 'p \<Rightarrow> 's icallback" where
  "icb_Callback ob m ps = cb_execute (cb_new ob m ps)"

section \<open>Query callbacks\<close>

record ('r, 's) iquery_callback =
  iq_param1 :: "'r option"
  iq_execute :: "'r option \<Rightarrow> 's \<Rightarrow> 's"

definition iq_Execute :: "('r, 's) iquery_callback \<Rightarrow> 's \<Rightarrow> 's" where
  "iq_Execute q = iq_execute q (iq_param1 q)"

definition iq_SetResult :: "'r option \<Rightarrow> ('r, 's) iquery_callback \<Rightarrow> ('r, 's) iquery_callback" where
  "iq_SetResult r q = q\<lparr>iq_param1 := r\<rparr>"

definition iq_GetResult :: "('r, 's) iquery_callback \<Rightarrow> 'r option" where
  "iq_GetResult q = iq_param1 q"

text \<open>\<^verbatim>\<open>_IQueryCallback<CB>\<close> over a member or a static callback whose first parameter is the result.\<close>

definition iq_of_callback :: "('o, 'r option \<times> 'p, 's) callback \<Rightarrow> ('r, 's) iquery_callback" where
  "iq_of_callback cb =
     \<lparr>iq_param1 = fst (cb_params cb),
      iq_execute = (\<lambda>r. cb_execute (cb\<lparr>cb_params := (r, snd (cb_params cb))\<rparr>))\<rparr>"

definition iq_of_scallback :: "('r option \<times> 'p, 's) scallback \<Rightarrow> ('r, 's) iquery_callback" where
  "iq_of_scallback cb =
     \<lparr>iq_param1 = fst (scb_params cb),
      iq_execute = (\<lambda>r. scb_execute (cb\<lparr>scb_params := (r, snd (scb_params cb))\<rparr>))\<rparr>"

definition QueryCallback ::
  "'o \<Rightarrow> ('o \<Rightarrow> 'r option \<times> 'p \<Rightarrow> 's \<Rightarrow> 's) \<Rightarrow> 'r option \<Rightarrow> 'p \<Rightarrow> ('r, 's) iquery_callback" where
  "QueryCallback ob m r ps = iq_of_callback (cb_new ob m (r, ps))"

definition SQueryCallback :: "('r option \<times> 'p \<Rightarrow> 's \<Rightarrow> 's) \<Rightarrow> 'r option \<Rightarrow> 'p \<Rightarrow> ('r, 's) iquery_callback" where
  "SQueryCallback m r ps = iq_of_scallback (scb_new m (r, ps))"

named_theorems callback_simps \<open>what executing a callback does\<close>

lemma iq_Execute_QueryCallback [callback_simps]: "iq_Execute (QueryCallback ob m r ps) = m ob (r, ps)"
  by (simp add: iq_Execute_def QueryCallback_def iq_of_callback_def cb_execute_def cb_new_def)

lemma iq_Execute_SQueryCallback [callback_simps]: "iq_Execute (SQueryCallback m r ps) = m (r, ps)"
  by (simp add: iq_Execute_def SQueryCallback_def iq_of_scallback_def scb_execute_def scb_new_def)

lemma iq_SetResult_QueryCallback [callback_simps]:
  "iq_SetResult r' (QueryCallback ob m r ps) = QueryCallback ob m r' ps"
  by (simp add: iq_SetResult_def QueryCallback_def iq_of_callback_def cb_execute_def cb_new_def)

lemma iq_SetResult_SQueryCallback [callback_simps]:
  "iq_SetResult r' (SQueryCallback m r ps) = SQueryCallback m r' ps"
  by (simp add: iq_SetResult_def SQueryCallback_def iq_of_scallback_def scb_execute_def scb_new_def)

lemma iq_GetResult_SetResult [callback_simps]: "iq_GetResult (iq_SetResult r q) = r"
  by (simp add: iq_GetResult_def iq_SetResult_def)

end
