(* ===== verification/Sql_Database.thy ===== *)
theory Sql_Database
  imports Callbacks
begin

text \<open>
  The database access layer of pitayaserver/transition/database: operations (SqlOperation.h and
  SqlOperation.cpp), the delay thread (SqlDelayThread.cpp), and \<^verbatim>\<open>Database\<close> (Database.h, Database.cpp,
  DatabaseImpl.h).

  The MySQL client is a parameter: \<open>sql_connection\<close> has the virtual functions of \<^verbatim>\<open>SqlConnection\<close>
  as functions on the state \<open>'c\<close> of the server, for the synchronous and the asynchronous connection.
  \<open>'r\<close> are query results, \<^const>\<open>None\<close> for \<^verbatim>\<open>NULL\<close>.

  A batch belongs to its operation from \<^verbatim>\<open>DelayQueryBatch\<close> on. Its callback holds the pointer to the
  batch and runs after the delay thread has stored the results, so the callback of a batch is a
  function of the batch's contents.

  The delay thread and the caller interleave: both queues are locked and each operation holds the
  lock of its connection while it runs, so a step of the thread is one operation.
\<close>

section \<open>Connections\<close>

datatype conn_id = SyncConn | AsyncConn

record ('c, 'r) sql_connection =
  sc_Query :: "conn_id \<Rightarrow> string \<Rightarrow> 'c \<Rightarrow> 'r option \<times> 'c"
  sc_Execute :: "conn_id \<Rightarrow> string \<Rightarrow> 'c \<Rightarrow> bool \<times> 'c"
  sc_BeginTransaction :: "conn_id \<Rightarrow> 'c \<Rightarrow> bool \<times> 'c"
  sc_CommitTransaction :: "conn_id \<Rightarrow> 'c \<Rightarrow> bool \<times> 'c"
  sc_RollbackTransaction :: "conn_id \<Rightarrow> 'c \<Rightarrow> bool \<times> 'c"
  sc_Ping :: "conn_id \<Rightarrow> 'c \<Rightarrow> 'c"
  sc_Initialize :: "conn_id \<Rightarrow> string \<Rightarrow> 'c \<Rightarrow> bool \<times> 'c"

text \<open>\<^verbatim>\<open>SqlConnection\<close>'s own transaction functions, for a database without transactions.\<close>

definition sc_default_BeginTransaction :: "conn_id \<Rightarrow> 'c \<Rightarrow> bool \<times> 'c" where
  "sc_default_BeginTransaction k c = (True, c)"

definition sc_default_CommitTransaction :: "conn_id \<Rightarrow> 'c \<Rightarrow> bool \<times> 'c" where
  "sc_default_CommitTransaction k c = (True, c)"

definition sc_default_RollbackTransaction :: "conn_id \<Rightarrow> 'c \<Rightarrow> bool \<times> 'c" where
  "sc_default_RollbackTransaction k c = (False, c)"

section \<open>Query batches\<close>

type_synonym 'r query_batch = "(string option \<times> 'r option) list"

definition MAX_QUERY_LEN :: nat where "MAX_QUERY_LEN = 64 * 1024"

text \<open>
  What \<^verbatim>\<open>vsnprintf(szQuery, MAX_QUERY_LEN, ...)\<close> leaves in \<^verbatim>\<open>szQuery\<close>; \<^const>\<open>None\<close> for the result -1,
  which is an encoding error. A longer text is cut and the result is its length, not -1.
\<close>

definition format_query :: "string option \<Rightarrow> string option" where
  "format_query out = map_option (take (MAX_QUERY_LEN - 1)) out"

definition qb_new :: "'r query_batch" where "qb_new = []"

definition qb_PushQuery :: "string \<Rightarrow> 'r query_batch \<Rightarrow> bool \<times> 'r query_batch" where
  "qb_PushQuery sql qs = (True, qs @ [(Some sql, None)])"

definition qb_PushPQuery :: "string option option \<Rightarrow> 'r query_batch \<Rightarrow> bool \<times> 'r query_batch" where
  "qb_PushPQuery fmt qs =
     (case fmt of
        None \<Rightarrow> (False, qs)
      | Some out \<Rightarrow> (case format_query out of None \<Rightarrow> (False, qs) | Some sql \<Rightarrow> qb_PushQuery sql qs))"

definition qb_GetSize :: "'r query_batch \<Rightarrow> nat" where
  "qb_GetSize qs = length qs"

definition qb_GetResult :: "nat \<Rightarrow> 'r query_batch \<Rightarrow> 'r option \<times> 'r query_batch" where
  "qb_GetResult i qs = (if i < length qs then (snd (qs ! i), qs[i := (None, snd (qs ! i))]) else (None, qs))"

definition qb_SetResult :: "nat \<Rightarrow> 'r option \<Rightarrow> 'r query_batch \<Rightarrow> 'r query_batch" where
  "qb_SetResult i r qs = (if i < length qs then qs[i := (fst (qs ! i), r)] else qs)"

text \<open>The loop of \<^verbatim>\<open>SqlQueryBatchOperation::Execute\<close>.\<close>

fun qb_run ::
  "('c, 'r) sql_connection \<Rightarrow> conn_id \<Rightarrow> nat list \<Rightarrow> 'r query_batch \<Rightarrow> 'c \<Rightarrow> 'r query_batch \<times> 'c" where
  "qb_run C k [] qs c = (qs, c)"
| "qb_run C k (i # is) qs c =
     (case fst (qs ! i) of
        None \<Rightarrow> qb_run C k is qs c
      | Some sql \<Rightarrow> (let (r, c) = sc_Query C k sql c in qb_run C k is (qb_SetResult i r qs) c))"

section \<open>Operations\<close>

text \<open>The flag of the last two is whether the operation has a result queue.\<close>

datatype ('r, 'a) sql_operation =
  SqlPlainRequest string
| SqlTransaction "('r, 'a) sql_operation list"
| SqlQuery string "('r, 'a) iquery_callback option" bool
| SqlQueryBatchOperation "'r query_batch option" "('r query_batch \<Rightarrow> ('r, 'a) iquery_callback) option" bool

text \<open>
  \<^verbatim>\<open>Execute\<close>: its result, the server after it, and the callbacks added to the result queue.
\<close>

fun op_Execute ::
    "('c, 'r) sql_connection \<Rightarrow> conn_id \<Rightarrow> ('r, 'a) sql_operation \<Rightarrow> 'c \<Rightarrow> bool \<times> 'c \<times> ('r, 'a) iquery_callback list"
  and op_items ::
    "('c, 'r) sql_connection \<Rightarrow> conn_id \<Rightarrow> ('r, 'a) sql_operation list \<Rightarrow> 'c \<Rightarrow> bool \<times> 'c \<times> ('r, 'a) iquery_callback list"
where
  "op_Execute C k (SqlPlainRequest sql) c = (let (ok, c) = sc_Execute C k sql c in (ok, c, []))"
| "op_Execute C k (SqlTransaction q) c =
     (if q = [] then (True, c, []) else op_items C k q (snd (sc_BeginTransaction C k c)))"
| "op_Execute C k (SqlQuery sql cb queue) c =
     (case cb of
        None \<Rightarrow> (False, c, [])
      | Some cb \<Rightarrow>
          if \<not> queue then (False, c, [])
          else (let (r, c) = sc_Query C k sql c in (True, c, [iq_SetResult r cb])))"
| "op_Execute C k (SqlQueryBatchOperation batch cb queue) c =
     (case (batch, cb) of
        (Some qs, Some cb) \<Rightarrow>
          if \<not> queue then (False, c, [])
          else (let c = snd (sc_BeginTransaction C k c);
                    (qs, c) = qb_run C k [0..<length qs] qs c;
                    c = snd (sc_CommitTransaction C k c)
                in (True, c, [cb qs]))
      | _ \<Rightarrow> (False, c, []))"
| "op_items C k [] c = (let (ok, c) = sc_CommitTransaction C k c in (ok, c, []))"
| "op_items C k (x # xs) c =
     (let (ok, c, cbs) = op_Execute C k x c
      in if \<not> ok then (False, snd (sc_RollbackTransaction C k c), cbs)
         else (let (ok, c, cbs') = op_items C k xs c in (ok, c, cbs @ cbs')))"

definition tr_DelayExecute :: "('r, 'a) sql_operation \<Rightarrow> ('r, 'a) sql_operation list \<Rightarrow> ('r, 'a) sql_operation list" where
  "tr_DelayExecute x q = q @ [x]"

section \<open>Database\<close>

text \<open>
  A pointer that is null or not is a truth value; \<open>db_thread\<close> is the queue of the delay thread,
  \<open>db_results\<close> the result queue, \<open>db_trans\<close> the calling thread's transaction.
\<close>

record ('c, 'r, 'a) database =
  db_server :: 'c
  db_syncConn :: bool
  db_asyncConn :: bool
  db_results :: "('r, 'a) iquery_callback list option"
  db_thread :: "('r, 'a) sql_operation list option"
  db_trans :: "('r, 'a) sql_operation list option"
  db_allowAsync :: bool
  db_pingInterval :: uint32

definition db_new :: "'c \<Rightarrow> ('c, 'r, 'a) database" where
  "db_new c = \<lparr>db_server = c, db_syncConn = False, db_asyncConn = False, db_results = None, db_thread = None,
     db_trans = None, db_allowAsync = False, db_pingInterval = 0\<rparr>"

subsection \<open>The delay thread\<close>

definition dt_Delay :: "('r, 'a) sql_operation \<Rightarrow> ('c, 'r, 'a) database \<Rightarrow> ('c, 'r, 'a) database option" where
  "dt_Delay x db = map_option (\<lambda>q. db\<lparr>db_thread := Some (q @ [x])\<rparr>) (db_thread db)"

text \<open>One operation of \<^verbatim>\<open>ProcessRequests\<close>.\<close>

definition dt_step :: "('c, 'r) sql_connection \<Rightarrow> ('c, 'r, 'a) database \<Rightarrow> ('c, 'r, 'a) database" where
  "dt_step C db =
     (case db_thread db of
        Some (x # q) \<Rightarrow>
          (let (ok, c, cbs) = op_Execute C AsyncConn x (db_server db)
           in db\<lparr>db_server := c, db_thread := Some q, db_results := map_option (\<lambda>rs. rs @ cbs) (db_results db)\<rparr>)
      | _ \<Rightarrow> db)"

definition dt_ProcessRequests :: "('c, 'r) sql_connection \<Rightarrow> ('c, 'r, 'a) database \<Rightarrow> ('c, 'r, 'a) database" where
  "dt_ProcessRequests C db =
     (dt_step C ^^ (case db_thread db of None \<Rightarrow> 0 | Some q \<Rightarrow> length q)) db"

definition db_Ping :: "('c, 'r) sql_connection \<Rightarrow> ('c, 'r, 'a) database \<Rightarrow> ('c, 'r, 'a) database" where
  "db_Ping C db = db\<lparr>db_server := sc_Ping C SyncConn (sc_Ping C AsyncConn (db_server db))\<rparr>"

text \<open>One turn of \<^verbatim>\<open>run\<close>: \<open>n\<close> is \<^verbatim>\<open>loopCounter\<close>.\<close>

definition dt_turn ::
  "('c, 'r) sql_connection \<Rightarrow> uint32 \<times> ('c, 'r, 'a) database \<Rightarrow> uint32 \<times> ('c, 'r, 'a) database" where
  "dt_turn C = (\<lambda>(n, db).
     let pingEveryLoop = db_pingInterval db div 20; db = dt_ProcessRequests C db
     in if n \<ge> pingEveryLoop then (0, db_Ping C db) else (n + 1, db))"

subsection \<open>Set-up and shut-down\<close>

definition db_InitDelayThread :: "('c, 'r, 'a) database \<Rightarrow> ('c, 'r, 'a) database option" where
  "db_InitDelayThread db =
     (if db_thread db \<noteq> None \<or> \<not> db_asyncConn db then None else Some (db\<lparr>db_thread := Some []\<rparr>))"

definition db_Initialize ::
  "('c, 'r) sql_connection \<Rightarrow> uint32 \<Rightarrow> string \<Rightarrow> ('c, 'r, 'a) database \<Rightarrow> (bool \<times> ('c, 'r, 'a) database) option" where
  "db_Initialize C interval infoString db =
     (let db = db\<lparr>db_pingInterval := interval * 1000, db_syncConn := True\<rparr>;
          (ok, c) = sc_Initialize C SyncConn infoString (db_server db); db = db\<lparr>db_server := c\<rparr>
      in if \<not> ok then Some (False, db)
         else (let db = db\<lparr>db_asyncConn := True\<rparr>;
                   (ok, c) = sc_Initialize C AsyncConn infoString (db_server db); db = db\<lparr>db_server := c\<rparr>
               in if \<not> ok then Some (False, db)
                  else map_option (Pair True) (db_InitDelayThread (db\<lparr>db_results := Some []\<rparr>))))"

definition db_HaltDelayThread :: "('c, 'r) sql_connection \<Rightarrow> ('c, 'r, 'a) database \<Rightarrow> ('c, 'r, 'a) database" where
  "db_HaltDelayThread C db =
     (if db_thread db = None then db else (dt_ProcessRequests C db)\<lparr>db_thread := None\<rparr>)"

definition db_StopServer :: "('c, 'r) sql_connection \<Rightarrow> ('c, 'r, 'a) database \<Rightarrow> ('c, 'r, 'a) database" where
  "db_StopServer C db =
     (db_HaltDelayThread C db)\<lparr>db_results := None, db_syncConn := False, db_asyncConn := False\<rparr>"

definition db_AllowAsyncTransactions :: "('c, 'r, 'a) database \<Rightarrow> ('c, 'r, 'a) database" where
  "db_AllowAsyncTransactions db = db\<lparr>db_allowAsync := True\<rparr>"

subsection \<open>Transactions of the calling thread\<close>

definition th_init :: "('c, 'r, 'a) database \<Rightarrow> ('c, 'r, 'a) database option" where
  "th_init db = (if db_trans db \<noteq> None then None else Some (db\<lparr>db_trans := Some []\<rparr>))"

definition th_detach :: "('c, 'r, 'a) database \<Rightarrow> ('r, 'a) sql_operation list option \<times> ('c, 'r, 'a) database" where
  "th_detach db = (db_trans db, db\<lparr>db_trans := None\<rparr>)"

definition th_reset :: "('c, 'r, 'a) database \<Rightarrow> ('c, 'r, 'a) database" where
  "th_reset db = db\<lparr>db_trans := None\<rparr>"

definition db_BeginTransaction :: "('c, 'r, 'a) database \<Rightarrow> (bool \<times> ('c, 'r, 'a) database) option" where
  "db_BeginTransaction db = map_option (Pair True) (th_init db)"

text \<open>A transaction that is not empty locks the connection; a null one is dereferenced there.\<close>

definition db_CommitTransactionDirect ::
  "('c, 'r) sql_connection \<Rightarrow> ('c, 'r, 'a) database \<Rightarrow> (bool \<times> ('c, 'r, 'a) database) option" where
  "db_CommitTransactionDirect C db =
     (case th_detach db of
        (None, _) \<Rightarrow> Some (False, db)
      | (Some q, db) \<Rightarrow>
          if q \<noteq> [] \<and> \<not> db_syncConn db then None
          else
            (let (ok, c, cbs) = op_Execute C SyncConn (SqlTransaction q) (db_server db)
             in Some (True, db\<lparr>db_server := c, db_results := map_option (\<lambda>rs. rs @ cbs) (db_results db)\<rparr>)))"

definition db_CommitTransaction ::
  "('c, 'r) sql_connection \<Rightarrow> ('c, 'r, 'a) database \<Rightarrow> (bool \<times> ('c, 'r, 'a) database) option" where
  "db_CommitTransaction C db =
     (if db_trans db = None then Some (False, db)
      else if \<not> db_allowAsync db then db_CommitTransactionDirect C db
      else (case th_detach db of
              (None, db) \<Rightarrow> None
            | (Some q, db) \<Rightarrow> map_option (Pair True) (dt_Delay (SqlTransaction q) db)))"

definition db_RollbackTransaction :: "('c, 'r, 'a) database \<Rightarrow> bool \<times> ('c, 'r, 'a) database" where
  "db_RollbackTransaction db = (if db_trans db = None then (False, db) else (True, th_reset db))"

subsection \<open>Synchronous requests\<close>

text \<open>\<open>fmt\<close> is the format argument: \<^const>\<open>None\<close> for a null format, otherwise what \<^verbatim>\<open>vsnprintf\<close> makes of it.\<close>

definition db_Query ::
  "('c, 'r) sql_connection \<Rightarrow> string \<Rightarrow> ('c, 'r, 'a) database \<Rightarrow> ('r option \<times> ('c, 'r, 'a) database) option" where
  "db_Query C sql db =
     (if \<not> db_syncConn db then None
      else (let (r, c) = sc_Query C SyncConn sql (db_server db) in Some (r, db\<lparr>db_server := c\<rparr>)))"

text \<open>
  \<^verbatim>\<open>SqlQueryBatch::ExecuteDirect\<close>: every statement through \<^verbatim>\<open>Database::Query\<close>, which is undefined without a
  synchronous connection.
\<close>

fun qb_direct_loop ::
  "('c, 'r) sql_connection \<Rightarrow> nat list \<Rightarrow> 'r query_batch \<Rightarrow> ('c, 'r, 'a) database \<Rightarrow>
   ('r query_batch \<times> ('c, 'r, 'a) database) option" where
  "qb_direct_loop C [] qs db = Some (qs, db)"
| "qb_direct_loop C (i # is) qs db =
     (case fst (qs ! i) of
        None \<Rightarrow> qb_direct_loop C is qs db
      | Some sql \<Rightarrow> do { (r, db) \<leftarrow> db_Query C sql db; qb_direct_loop C is (qb_SetResult i r qs) db })"

definition qb_ExecuteDirect ::
  "('c, 'r) sql_connection \<Rightarrow> 'r query_batch \<Rightarrow> ('c, 'r, 'a) database \<Rightarrow>
   (bool \<times> 'r query_batch \<times> ('c, 'r, 'a) database) option" where
  "qb_ExecuteDirect C qs db = map_option (Pair True) (qb_direct_loop C [0..<length qs] qs db)"

lemma qb_direct_loop_sync:
  "db_syncConn db \<Longrightarrow> qb_direct_loop C is qs db =
     Some (fst (qb_run C SyncConn is qs (db_server db)), db\<lparr>db_server := snd (qb_run C SyncConn is qs (db_server db))\<rparr>)"
  by (induction C SyncConn "is" qs "db_server db" arbitrary: db rule: qb_run.induct)
    (auto simp: db_Query_def split_beta split: option.splits)

lemma qb_ExecuteDirect_sync:
  "db_syncConn db \<Longrightarrow> qb_ExecuteDirect C qs db =
     Some (True, fst (qb_run C SyncConn [0..<length qs] qs (db_server db)),
       db\<lparr>db_server := snd (qb_run C SyncConn [0..<length qs] qs (db_server db))\<rparr>)"
  by (simp add: qb_ExecuteDirect_def qb_direct_loop_sync)

lemma qb_ExecuteDirect_null:
  assumes "\<not> db_syncConn db" "i < length qs" "fst (qs ! i) \<noteq> None"
  shows "qb_ExecuteDirect C qs db = None"
proof -
  have "(\<exists>j \<in> set is. fst (qs ! j) \<noteq> None) \<Longrightarrow> qb_direct_loop C is qs db = None" for "is"
    using assms(1) by (induction "is") (auto simp: db_Query_def split: option.splits)
  with assms(2,3) show ?thesis by (force simp: qb_ExecuteDirect_def)
qed

definition db_PQuery ::
  "('c, 'r) sql_connection \<Rightarrow> string option option \<Rightarrow> ('c, 'r, 'a) database \<Rightarrow>
   ('r option \<times> ('c, 'r, 'a) database) option" where
  "db_PQuery C fmt db =
     (case fmt of
        None \<Rightarrow> Some (None, db)
      | Some out \<Rightarrow> (case format_query out of None \<Rightarrow> Some (None, db) | Some sql \<Rightarrow> db_Query C sql db))"

definition db_DirectExecute ::
  "('c, 'r) sql_connection \<Rightarrow> string \<Rightarrow> ('c, 'r, 'a) database \<Rightarrow> bool \<times> ('c, 'r, 'a) database" where
  "db_DirectExecute C sql db =
     (if \<not> db_syncConn db then (False, db)
      else (let (ok, c) = sc_Execute C SyncConn sql (db_server db) in (ok, db\<lparr>db_server := c\<rparr>)))"

definition db_DirectPExecute ::
  "('c, 'r) sql_connection \<Rightarrow> string option option \<Rightarrow> ('c, 'r, 'a) database \<Rightarrow> bool \<times> ('c, 'r, 'a) database" where
  "db_DirectPExecute C fmt db =
     (case fmt of
        None \<Rightarrow> (False, db)
      | Some out \<Rightarrow> (case format_query out of None \<Rightarrow> (False, db) | Some sql \<Rightarrow> db_DirectExecute C sql db))"

subsection \<open>Asynchronous requests\<close>

definition db_Execute ::
  "('c, 'r) sql_connection \<Rightarrow> string \<Rightarrow> ('c, 'r, 'a) database \<Rightarrow> (bool \<times> ('c, 'r, 'a) database) option" where
  "db_Execute C sql db =
     (if \<not> db_asyncConn db then Some (False, db)
      else (case db_trans db of
              Some q \<Rightarrow> Some (True, db\<lparr>db_trans := Some (tr_DelayExecute (SqlPlainRequest sql) q)\<rparr>)
            | None \<Rightarrow>
                if \<not> db_allowAsync db then Some (db_DirectExecute C sql db)
                else map_option (Pair True) (dt_Delay (SqlPlainRequest sql) db)))"

definition db_PExecute ::
  "('c, 'r) sql_connection \<Rightarrow> string option option \<Rightarrow> ('c, 'r, 'a) database \<Rightarrow>
   (bool \<times> ('c, 'r, 'a) database) option" where
  "db_PExecute C fmt db =
     (case fmt of
        None \<Rightarrow> Some (False, db)
      | Some out \<Rightarrow> (case format_query out of None \<Rightarrow> Some (False, db) | Some sql \<Rightarrow> db_Execute C sql db))"

definition db_AsyncQuery ::
  "string option \<Rightarrow> ('r, 'a) iquery_callback \<Rightarrow> ('c, 'r, 'a) database \<Rightarrow> (bool \<times> ('c, 'r, 'a) database) option" where
  "db_AsyncQuery sql cb db =
     (case (sql, db_results db) of
        (Some sql, Some _) \<Rightarrow> map_option (Pair True) (dt_Delay (SqlQuery sql (Some cb) True) db)
      | _ \<Rightarrow> Some (False, db))"

definition db_AsyncPQuery ::
  "string option option \<Rightarrow> ('r, 'a) iquery_callback \<Rightarrow> ('c, 'r, 'a) database \<Rightarrow>
   (bool \<times> ('c, 'r, 'a) database) option" where
  "db_AsyncPQuery fmt cb db =
     (case fmt of
        None \<Rightarrow> Some (False, db)
      | Some out \<Rightarrow> (case format_query out of None \<Rightarrow> Some (False, db) | Some sql \<Rightarrow> db_AsyncQuery (Some sql) cb db))"

text \<open>\<^verbatim>\<open>SqlQueryBatch::Execute\<close> and \<^verbatim>\<open>DelayQueryBatch\<close>.\<close>

definition qb_Execute ::
  "'r query_batch \<Rightarrow> ('r query_batch \<Rightarrow> ('r, 'a) iquery_callback) \<Rightarrow> ('c, 'r, 'a) database \<Rightarrow>
   (bool \<times> ('c, 'r, 'a) database)" where
  "qb_Execute qs cb db =
     (case (db_thread db, db_results db) of
        (Some _, Some _) \<Rightarrow>
          (case dt_Delay (SqlQueryBatchOperation (Some qs) (Some cb) True) db of
             None \<Rightarrow> (False, db)
           | Some db \<Rightarrow> (True, db))
      | _ \<Rightarrow> (False, db))"

definition db_DelayQueryBatch ::
  "'r query_batch option \<Rightarrow> ('r query_batch \<Rightarrow> ('r, 'a) iquery_callback) \<Rightarrow> ('c, 'r, 'a) database \<Rightarrow>
   bool \<times> ('c, 'r, 'a) database" where
  "db_DelayQueryBatch batch cb db =
     (case (batch, db_results db) of
        (Some qs, Some _) \<Rightarrow> qb_Execute qs cb db
      | _ \<Rightarrow> (False, db))"

subsection \<open>Results\<close>

text \<open>\<^verbatim>\<open>SqlResultQueue::Update\<close> runs and deletes the callbacks in the order of the queue.\<close>

definition rq_Update :: "('r, 'a) iquery_callback list \<Rightarrow> 'a \<Rightarrow> 'a" where
  "rq_Update cbs = fold iq_Execute cbs"

definition db_ProcessResultQueue :: "('c, 'r, 'a) database \<Rightarrow> 'a \<Rightarrow> ('c, 'r, 'a) database \<times> 'a" where
  "db_ProcessResultQueue db app =
     (case db_results db of
        None \<Rightarrow> (db, app)
      | Some cbs \<Rightarrow> (db\<lparr>db_results := Some []\<rparr>, rq_Update cbs app))"

section \<open>Interleavings\<close>

text \<open>What the game thread asks for, what the delay thread does.\<close>

datatype ('r, 'a) db_event =
  DE_Execute string
| DE_Begin
| DE_Commit
| DE_Rollback
| DE_AsyncQuery string "('r, 'a) iquery_callback"
| DE_Batch "'r query_batch" "'r query_batch \<Rightarrow> ('r, 'a) iquery_callback"
| DE_Process
| DE_Work

fun db_do ::
  "('c, 'r) sql_connection \<Rightarrow> ('r, 'a) db_event \<Rightarrow> ('c, 'r, 'a) database \<times> 'a \<Rightarrow> (('c, 'r, 'a) database \<times> 'a) option" where
  "db_do C (DE_Execute sql) (db, app) = map_option (\<lambda>(_, db). (db, app)) (db_Execute C sql db)"
| "db_do C DE_Begin (db, app) = map_option (\<lambda>(_, db). (db, app)) (db_BeginTransaction db)"
| "db_do C DE_Commit (db, app) = map_option (\<lambda>(_, db). (db, app)) (db_CommitTransaction C db)"
| "db_do C DE_Rollback (db, app) = Some (snd (db_RollbackTransaction db), app)"
| "db_do C (DE_AsyncQuery sql cb) (db, app) = map_option (\<lambda>(_, db). (db, app)) (db_AsyncQuery (Some sql) cb db)"
| "db_do C (DE_Batch qs cb) (db, app) = Some (snd (db_DelayQueryBatch (Some qs) cb db), app)"
| "db_do C DE_Process (db, app) = Some (db_ProcessResultQueue db app)"
| "db_do C DE_Work (db, app) = Some (dt_step C db, app)"

fun db_events ::
  "('c, 'r) sql_connection \<Rightarrow> ('r, 'a) db_event list \<Rightarrow> ('c, 'r, 'a) database \<times> 'a \<Rightarrow> (('c, 'r, 'a) database \<times> 'a) option" where
  "db_events C [] s = Some s"
| "db_events C (e # es) s = (case db_do C e s of None \<Rightarrow> None | Some s \<Rightarrow> db_events C es s)"

text \<open>
  The specification: the requests in the order the game thread made them, a transaction being one
  request at its commit; and their effect, one after the other.
\<close>

fun submitted :: "('r, 'a) sql_operation list option \<Rightarrow> ('r, 'a) db_event list \<Rightarrow> ('r, 'a) sql_operation list" where
  "submitted tr [] = []"
| "submitted None (DE_Execute sql # es) = SqlPlainRequest sql # submitted None es"
| "submitted (Some q) (DE_Execute sql # es) = submitted (Some (q @ [SqlPlainRequest sql])) es"
| "submitted tr (DE_Begin # es) = submitted (Some []) es"
| "submitted None (DE_Commit # es) = submitted None es"
| "submitted (Some q) (DE_Commit # es) = SqlTransaction q # submitted None es"
| "submitted tr (DE_Rollback # es) = submitted None es"
| "submitted tr (DE_AsyncQuery sql cb # es) = SqlQuery sql (Some cb) True # submitted tr es"
| "submitted tr (DE_Batch qs cb # es) = SqlQueryBatchOperation (Some qs) (Some cb) True # submitted tr es"
| "submitted tr (DE_Process # es) = submitted tr es"
| "submitted tr (DE_Work # es) = submitted tr es"

fun ops_effect ::
  "('c, 'r) sql_connection \<Rightarrow> ('r, 'a) sql_operation list \<Rightarrow> 'c \<Rightarrow> 'c \<times> ('r, 'a) iquery_callback list" where
  "ops_effect C [] c = (c, [])"
| "ops_effect C (x # xs) c =
     (let (_, c, cbs) = op_Execute C AsyncConn x c; (c, cbs') = ops_effect C xs c in (c, cbs @ cbs'))"

lemma ops_effect_append:
  "ops_effect C (xs @ ys) c =
     (let (c1, cbs1) = ops_effect C xs c; (c2, cbs2) = ops_effect C ys c1 in (c2, cbs1 @ cbs2))"
  by (induction xs arbitrary: c) (auto simp: Let_def split: prod.splits)

text \<open>
  The state when the queue \<open>q\<close> and the result queue \<open>rs\<close> have been worked off: the server and the
  application.
\<close>

definition db_settled ::
  "('c, 'r) sql_connection \<Rightarrow> ('r, 'a) sql_operation list \<Rightarrow> ('r, 'a) iquery_callback list \<Rightarrow> 'c \<Rightarrow> 'a \<Rightarrow> 'c \<times> 'a" where
  "db_settled C q rs c app = (let (c, cbs) = ops_effect C q c in (c, rq_Update (rs @ cbs) app))"

definition db_running :: "('c, 'r, 'a) database \<Rightarrow> bool" where
  "db_running db \<longleftrightarrow> db_asyncConn db \<and> db_allowAsync db \<and> db_thread db \<noteq> None \<and> db_results db \<noteq> None"


lemma rq_Update_append: "rq_Update (xs @ ys) app = rq_Update ys (rq_Update xs app)"
  by (simp add: rq_Update_def)

lemma rq_Update_Nil [simp]: "rq_Update [] app = app"
  by (simp add: rq_Update_def)

lemma submitted_step:
  assumes "db_running db" "db_thread db = Some q" "db_results db = Some rs" "db_do C e (db, app) = Some (db', app')"
  shows "db_running db' \<and> (\<exists>q' rs'. db_thread db' = Some q' \<and> db_results db' = Some rs' \<and>
     db_settled C (q' @ submitted (db_trans db') es) rs' (db_server db') app' =
     db_settled C (q @ submitted (db_trans db) (e # es)) rs (db_server db) app)"
proof (cases e)
  case (DE_Execute sql)
  with assms show ?thesis
    by (cases "db_trans db") (auto simp: db_running_def db_Execute_def dt_Delay_def tr_DelayExecute_def)
next
  case DE_Begin
  with assms show ?thesis
    by (auto simp: db_running_def db_BeginTransaction_def th_init_def split: if_splits)
next
  case DE_Commit
  with assms show ?thesis
    by (cases "db_trans db") (auto simp: db_running_def db_CommitTransaction_def th_detach_def dt_Delay_def)
next
  case DE_Rollback
  with assms show ?thesis
    by (cases "db_trans db") (auto simp: db_running_def db_RollbackTransaction_def th_reset_def)
next
  case (DE_AsyncQuery sql cb)
  with assms show ?thesis by (auto simp: db_running_def db_AsyncQuery_def dt_Delay_def)
next
  case (DE_Batch qs cb)
  with assms show ?thesis by (auto simp: db_running_def db_DelayQueryBatch_def qb_Execute_def dt_Delay_def)
next
  case DE_Process
  with assms show ?thesis
    by (auto simp: db_running_def db_ProcessResultQueue_def db_settled_def rq_Update_append split: prod.splits)
next
  case DE_Work
  show ?thesis
  proof (cases q)
    case Nil
    with DE_Work assms show ?thesis by (auto simp: dt_step_def)
  next
    case (Cons x q')
    with DE_Work assms show ?thesis
      by (auto simp: db_running_def dt_step_def db_settled_def Let_def rq_Update_append split: prod.splits)
  qed
qed

lemma submitted_steps:
  assumes "db_running db" "db_thread db = Some q" "db_results db = Some rs" "db_events C es (db, app) = Some (db', app')"
  shows "\<exists>q' rs'. db_running db' \<and> db_thread db' = Some q' \<and> db_results db' = Some rs' \<and>
     db_settled C q' rs' (db_server db') app' = db_settled C (q @ submitted (db_trans db) es) rs (db_server db) app"
  using assms
proof (induction es arbitrary: db q rs app)
  case (Cons e es)
  then obtain db1 app1 where e: "db_do C e (db, app) = Some (db1, app1)" "db_events C es (db1, app1) = Some (db', app')"
    by (auto split: option.splits)
  from submitted_step [OF Cons.prems(1-3) e(1), of es] obtain q1 rs1 where
    s: "db_running db1" "db_thread db1 = Some q1" "db_results db1 = Some rs1"
      "db_settled C (q1 @ submitted (db_trans db1) es) rs1 (db_server db1) app1 =
       db_settled C (q @ submitted (db_trans db) (e # es)) rs (db_server db) app" by blast
  from Cons.IH [OF s(1-3) e(2)] s(4) show ?case by metis
qed simp

text \<open>Working the queue off reaches the settled state.\<close>

lemma dt_steps_settle:
  "db_thread db = Some q \<Longrightarrow> db_results db = Some rs \<Longrightarrow>
   (dt_step C ^^ length q) db =
     db\<lparr>db_thread := Some [], db_server := fst (ops_effect C q (db_server db)),
        db_results := Some (rs @ snd (ops_effect C q (db_server db)))\<rparr>"
proof (induction q arbitrary: db rs)
  case (Cons x q)
  obtain ok c cbs where x: "op_Execute C AsyncConn x (db_server db) = (ok, c, cbs)" by (metis prod_cases3)
  let ?db = "db\<lparr>db_server := c, db_thread := Some q, db_results := Some (rs @ cbs)\<rparr>"
  have "dt_step C db = ?db" using Cons.prems x by (simp add: dt_step_def)
  then have "(dt_step C ^^ length (x # q)) db = (dt_step C ^^ length q) ?db"
    by (simp add: funpow_Suc_right del: funpow.simps)
  also have "\<dots> = ?db\<lparr>db_thread := Some [], db_server := fst (ops_effect C q c), db_results := Some ((rs @ cbs) @ snd (ops_effect C q c))\<rparr>"
    using Cons.IH [of ?db "rs @ cbs"] by simp
  finally show ?case using x by (simp add: split_beta)
qed simp

section \<open>Properties\<close>

text \<open>
  C2: asynchronous requests take effect in the order they were made, whatever the interleaving.
  Start the database and allow asynchronous work; then, for any interleaving of requests,
  transactions, result processing and steps of the delay thread, once the delay thread has worked
  off its queue and the game thread has processed the results, the server is in the state that the
  requests executed one by one in order give (a transaction at the place of its commit, a rolled
  back one not at all), and every callback has run exactly once, in order, with its own result.
\<close>

theorem async_requests_in_order:
  assumes "db_Initialize C interval info (db_new c) = Some (True, db0)"
    and "db_events C es (db_AllowAsyncTransactions db0, app) = Some (db1, app1)"
    and "db_ProcessResultQueue (dt_ProcessRequests C db1) app1 = (db2, app2)"
  shows "db_server db2 = fst (ops_effect C (submitted None es) (db_server db0)) \<and>
         app2 = rq_Update (snd (ops_effect C (submitted None es) (db_server db0))) app"
proof -
  have db0: "db_asyncConn db0" "db_thread db0 = Some []" "db_results db0 = Some []" "db_trans db0 = None"
    using assms(1) by (auto simp: db_Initialize_def db_new_def db_InitDelayThread_def Let_def split: prod.splits if_splits)
  let ?db = "db_AllowAsyncTransactions db0"
  have run: "db_running ?db" "db_thread ?db = Some []" "db_results ?db = Some []" "db_trans ?db = None"
    "db_server ?db = db_server db0"
    using db0 by (simp_all add: db_running_def db_AllowAsyncTransactions_def)
  from submitted_steps [OF run(1-3) assms(2)] obtain q rs where
    q: "db_thread db1 = Some q" "db_results db1 = Some rs"
      "db_settled C q rs (db_server db1) app1 = db_settled C (submitted None es) [] (db_server db0) app"
    using run(4,5) by auto
  have "db_server db2 = fst (ops_effect C q (db_server db1)) \<and>
    app2 = rq_Update (rs @ snd (ops_effect C q (db_server db1))) app1"
    using assms(3) dt_steps_settle [OF q(1,2)] q(1)
    by (auto simp: dt_ProcessRequests_def db_ProcessResultQueue_def)
  then show ?thesis using q(3) by (auto simp: db_settled_def split: prod.splits)
qed


text \<open>A server that keeps a stack of logs: a transaction works on a copy.\<close>

definition demo_conn :: "(string list list, nat) sql_connection" where
  "demo_conn =
     \<lparr>sc_Query = (\<lambda>k sql c. (Some (length sql), case c of [] \<Rightarrow> [] | d # st \<Rightarrow> (d @ [sql]) # st)),
      sc_Execute = (\<lambda>k sql c. (sql \<noteq> ''bad'', case c of [] \<Rightarrow> [] | d # st \<Rightarrow> (d @ [sql]) # st)),
      sc_BeginTransaction = (\<lambda>k c. (True, case c of [] \<Rightarrow> [] | d # st \<Rightarrow> d # d # st)),
      sc_CommitTransaction = (\<lambda>k c. (True, case c of d # _ # st \<Rightarrow> d # st | _ \<Rightarrow> c)),
      sc_RollbackTransaction = (\<lambda>k c. (True, tl c)),
      sc_Ping = (\<lambda>k c. c),
      sc_Initialize = (\<lambda>k info c. (True, c))\<rparr>"

definition demo_events :: "(nat, nat option list) db_event list" where
  "demo_events =
     [DE_Execute ''a'', DE_Begin, DE_Work, DE_Execute ''b'', DE_AsyncQuery ''sel'' (SQueryCallback (\<lambda>(r, _) l. l @ [r]) None ()),
      DE_Execute ''bad'', DE_Work, DE_Commit, DE_Process, DE_Execute ''c'', DE_Work]"

lemmas demo_db_simps =
  db_Initialize_def db_new_def db_InitDelayThread_def db_AllowAsyncTransactions_def db_Execute_def dt_Delay_def
  db_BeginTransaction_def th_init_def dt_step_def db_AsyncQuery_def tr_DelayExecute_def db_CommitTransaction_def th_detach_def
  db_ProcessResultQueue_def demo_conn_def demo_events_def

theorem async_requests_in_order_witness:
  "\<exists>db0 db1 app1 db2 app2. db_Initialize demo_conn 300 ''host'' (db_new [[]]) = Some (True, db0) \<and>
     db_events demo_conn demo_events (db_AllowAsyncTransactions db0, []) = Some (db1, app1) \<and>
     db_ProcessResultQueue (dt_ProcessRequests demo_conn db1) app1 = (db2, app2) \<and>
     db_server db2 = fst (ops_effect demo_conn (submitted None demo_events) (db_server db0)) \<and>
     app2 = rq_Update (snd (ops_effect demo_conn (submitted None demo_events) (db_server db0))) []"
proof -
  obtain db0 where db0: "db_Initialize demo_conn 300 ''host'' (db_new [[]]) = Some (True, db0 :: (string list list, nat, nat option list) database)"
    by (simp add: demo_db_simps)
  then have "\<exists>db1 app1. db_events demo_conn demo_events (db_AllowAsyncTransactions db0, []) = Some (db1, app1)"
    by (auto simp: demo_db_simps)
  then obtain db1 app1 where db1: "db_events demo_conn demo_events (db_AllowAsyncTransactions db0, []) = Some (db1, app1)"
    by blast
  obtain db2 app2 where db2: "db_ProcessResultQueue (dt_ProcessRequests demo_conn db1) app1 = (db2, app2)" by fastforce
  from async_requests_in_order [OF db0 db1 db2] db0 db1 db2 show ?thesis by blast
qed

text \<open>The statements of a transaction up to the first that fails.\<close>

fun exec_until :: "('c, 'r) sql_connection \<Rightarrow> conn_id \<Rightarrow> string list \<Rightarrow> 'c \<Rightarrow> bool \<times> 'c" where
  "exec_until C k [] c = (True, c)"
| "exec_until C k (sql # sqls) c =
     (let (ok, c) = sc_Execute C k sql c in if ok then exec_until C k sqls c else (False, c))"

lemma op_items_plain:
  "op_items C k (map SqlPlainRequest sqls) c =
     (let (ok, c) = exec_until C k sqls c
      in if ok then (fst (sc_CommitTransaction C k c), snd (sc_CommitTransaction C k c), [])
         else (False, snd (sc_RollbackTransaction C k c), []))"
  by (induction sqls arbitrary: c) (auto simp: Let_def split: prod.splits)

end
