(* ===== verification/Cache_Mgr.thy ===== *)
theory Cache_Mgr
  imports Sql_Database
begin

text \<open>
  The reference-counted object cache of pitayaserver/transition/CacheMgr.h, over the database layer
  of \<open>Sql_Database\<close>: objects are attached through shared pointers, persisted asynchronously and
  removed from the cache when nobody has used them for a while.

  Objects live in a heap of addresses: the map, the shared pointers and the pending database
  callbacks refer to them. A \<^verbatim>\<open>CachePtr\<close> is the address, its deleter is \<open>cm_AutoRelease\<close>. The virtual
  functions of the cached class are arguments: \<open>ex\<close> is \<^verbatim>\<open>Exist\<close>, \<open>ld\<close> is \<^verbatim>\<open>LoadData\<close> (its result, whether it called the
  base function, which alone can set the private filter, and the new data), \<open>sv\<close> is \<^verbatim>\<open>SaveData\<close>.
  \<open>cm_clock\<close> is what \<^verbatim>\<open>time(NULL)\<close> returns. A failed \<^verbatim>\<open>ASSERT\<close> and a dangling pointer are \<^const>\<open>None\<close>.
\<close>

section \<open>State\<close>

record 'd cache_object =
  co_cacheId :: uint32
  co_data :: 'd
  co_loaded :: "bool list"
  co_useCount :: uint32
  co_dirty :: bool
  co_inPersistence :: bool
  co_persistenceTime :: int

record 'd cache_mgr =
  cm_cacheMap :: "(uint32 \<times> nat) list"
  cm_heap :: "nat \<Rightarrow> 'd cache_object option"
  cm_fresh :: nat
  cm_dbUpdateAuto :: bool
  cm_persistenceInterval :: uint32
  cm_removeFromCacheDelay :: uint32
  cm_clock :: int

type_synonym ('c, 'r, 'd) cache_db = "('c, 'r, 'd cache_mgr option) database"
type_synonym 'd loader = "nat \<Rightarrow> 'd \<Rightarrow> bool \<times> bool \<times> 'd"
type_synonym ('d, 'r) saver = "nat \<Rightarrow> 'd \<Rightarrow> 'r query_batch \<Rightarrow> 'r query_batch"

definition filter_size :: nat where "filter_size = 16"

definition co_new :: "uint32 \<Rightarrow> 'd \<Rightarrow> 'd cache_object" where
  "co_new key d =
     \<lparr>co_cacheId = key, co_data = d, co_loaded = replicate filter_size False, co_useCount = 0, co_dirty = False,
      co_inPersistence = False, co_persistenceTime = 0\<rparr>"

text \<open>\<^verbatim>\<open>CacheObject::LoadData\<close>.\<close>

definition co_LoadData :: "nat \<Rightarrow> 'd cache_object \<Rightarrow> bool \<times> 'd cache_object" where
  "co_LoadData filterIdx ob = (True, ob\<lparr>co_loaded := (co_loaded ob)[filterIdx := True]\<rparr>)"

definition cm_new :: "uint32 \<Rightarrow> uint32 \<Rightarrow> bool \<Rightarrow> int \<Rightarrow> 'd cache_mgr" where
  "cm_new interval delay dbUpdateAuto clock =
     \<lparr>cm_cacheMap = [], cm_heap = (\<lambda>_. None), cm_fresh = 0, cm_dbUpdateAuto = dbUpdateAuto,
      cm_persistenceInterval = interval, cm_removeFromCacheDelay = delay, cm_clock = clock\<rparr>"

definition cm_destroy :: "'d cache_mgr \<Rightarrow> unit option" where
  "cm_destroy cm = (if cm_cacheMap cm = [] then Some () else None)"

definition cm_set :: "nat \<Rightarrow> 'd cache_object \<Rightarrow> 'd cache_mgr \<Rightarrow> 'd cache_mgr" where
  "cm_set a ob cm = cm\<lparr>cm_heap := (cm_heap cm)(a \<mapsto> ob)\<rparr>"

definition cm_delete :: "nat \<Rightarrow> 'd cache_mgr \<Rightarrow> 'd cache_mgr" where
  "cm_delete a cm = cm\<lparr>cm_heap := (cm_heap cm)(a := None)\<rparr>"

section \<open>Attaching\<close>

text \<open>\<^verbatim>\<open>LoadData\<close> of the cached class, over the part of the object it can write.\<close>

definition cm_load :: "'d loader \<Rightarrow> nat \<Rightarrow> 'd cache_object \<Rightarrow> bool \<times> 'd cache_object" where
  "cm_load ld idx ob =
     (let (ok, base, d) = ld idx (co_data ob); ob = ob\<lparr>co_data := d\<rparr>
      in (ok, if base then snd (co_LoadData idx ob) else ob))"

fun cm_PrepareData :: "'d loader \<Rightarrow> bool list \<Rightarrow> nat list \<Rightarrow> 'd cache_object \<Rightarrow> bool \<times> 'd cache_object" where
  "cm_PrepareData ld dataFilter [] ob = (True, ob)"
| "cm_PrepareData ld dataFilter (idx # is) ob =
     (if dataFilter ! idx \<and> \<not> co_loaded ob ! idx
      then (let (ok, ob) = cm_load ld idx ob
            in if \<not> ok then (False, ob\<lparr>co_loaded := (co_loaded ob)[idx := False]\<rparr>)
               else cm_PrepareData ld dataFilter is ob)
      else cm_PrepareData ld dataFilter is ob)"

definition cm_Attach ::
  "(bool \<Rightarrow> uint32 \<Rightarrow> bool \<times> 'd) \<Rightarrow> 'd loader \<Rightarrow> uint32 \<Rightarrow> bool list \<Rightarrow> bool \<Rightarrow> 'd cache_mgr \<Rightarrow>
   (nat option \<times> 'd cache_mgr) option" where
  "cm_Attach ex ld key dataFilter autoCreate cm =
     do { let it = map_of (cm_cacheMap cm) key;
          let (found, data, cm) =
            (case it of
               Some a \<Rightarrow> (True, a, cm)
             | None \<Rightarrow>
                 let (e, d) = ex autoCreate key; a = cm_fresh cm
                 in (e, a, if e then (cm_set a (co_new key d) cm)\<lparr>cm_fresh := Suc a\<rparr> else cm));
          if \<not> found then Some (None, cm)
          else do {
            ob \<leftarrow> cm_heap cm data;
            let (ok, ob) = cm_PrepareData ld dataFilter [0..<length dataFilter] ob;
            if \<not> ok
            then Some (None, if it = None then cm_delete data cm else cm_set data ob cm)
            else (let cm = cm_set data (ob\<lparr>co_persistenceTime := cm_clock cm, co_useCount := co_useCount ob + 1\<rparr>) cm
                  in Some (Some data, cm\<lparr>cm_cacheMap := omap_insert key data (cm_cacheMap cm)\<rparr>)) } }"

definition cm_FindInCache :: "uint32 \<Rightarrow> 'd cache_mgr \<Rightarrow> (nat option \<times> 'd cache_mgr) option" where
  "cm_FindInCache key cm =
     (case map_of (cm_cacheMap cm) key of
        None \<Rightarrow> Some (None, cm)
      | Some a \<Rightarrow>
          do { ob \<leftarrow> cm_heap cm a;
               Some (Some a, cm_set a (ob\<lparr>co_useCount := co_useCount ob + 1\<rparr>) cm) })"

definition cm_AutoRelease :: "nat \<Rightarrow> 'd cache_mgr \<Rightarrow> 'd cache_mgr option" where
  "cm_AutoRelease a cm =
     do { ob \<leftarrow> cm_heap cm a;
          if co_useCount ob = 0 then None
          else Some (cm_set a (ob\<lparr>co_dirty := True, co_useCount := co_useCount ob - 1\<rparr>) cm) }"

text \<open>\<^verbatim>\<open>Detach\<close> of the last shared pointer to the attachment; a null pointer is \<^const>\<open>None\<close>.\<close>

definition cm_Detach :: "nat option \<Rightarrow> bool \<Rightarrow> 'd cache_mgr \<Rightarrow> 'd cache_mgr option" where
  "cm_Detach cache modified cm = (case cache of None \<Rightarrow> Some cm | Some a \<Rightarrow> cm_AutoRelease a cm)"

section \<open>Persistence\<close>

definition cm_MakeSQL :: "('d, 'r) saver \<Rightarrow> 'd cache_object \<Rightarrow> 'r query_batch" where
  "cm_MakeSQL sv ob =
     fold (\<lambda>idx batch. if co_loaded ob ! idx then sv idx (co_data ob) batch else batch) [0..<length (co_loaded ob)] qb_new"

definition cm_OnPersistenceComp :: "'r option \<Rightarrow> 'r query_batch \<Rightarrow> uint32 \<Rightarrow> 'd cache_mgr \<Rightarrow> 'd cache_mgr option" where
  "cm_OnPersistenceComp result batch key cm =
     do { a \<leftarrow> map_of (cm_cacheMap cm) key;
          ob \<leftarrow> cm_heap cm a;
          Some (cm_set a (ob\<lparr>co_inPersistence := False, co_persistenceTime := cm_clock cm\<rparr>) cm) }"

text \<open>The callback \<^verbatim>\<open>DelayQueryBatch\<close> builds.\<close>

definition cm_callback :: "uint32 \<Rightarrow> 'r query_batch \<Rightarrow> ('r, 'd cache_mgr option) iquery_callback" where
  "cm_callback key batch =
     QueryCallback () (\<lambda>_ (result, batch, key) s. Option.bind s (cm_OnPersistenceComp result batch key)) None (batch, key)"

definition cm_Persistence :: "('d, 'r) saver \<Rightarrow> 'd cache_object \<Rightarrow> ('c, 'r, 'd) cache_db \<Rightarrow> ('c, 'r, 'd) cache_db" where
  "cm_Persistence sv ob db = snd (db_DelayQueryBatch (Some (cm_MakeSQL sv ob)) (cm_callback (co_cacheId ob)) db)"

definition cm_save_due :: "'d cache_mgr \<Rightarrow> 'd cache_object \<Rightarrow> bool" where
  "cm_save_due cm ob \<longleftrightarrow> (co_useCount ob > 0 \<or> co_dirty ob) \<and> \<not> co_inPersistence ob \<and>
     cm_clock cm > co_persistenceTime ob + uint (cm_persistenceInterval cm)"

definition cm_remove_due :: "'d cache_mgr \<Rightarrow> 'd cache_object \<Rightarrow> bool" where
  "cm_remove_due cm ob \<longleftrightarrow> co_useCount ob = 0 \<and> \<not> co_dirty ob \<and> \<not> co_inPersistence ob \<and>
     cm_clock cm > co_persistenceTime ob + uint (cm_removeFromCacheDelay cm)"

fun cm_update_loop ::
  "('d, 'r) saver \<Rightarrow> (uint32 \<times> nat) list \<Rightarrow> ('c, 'r, 'd) cache_db \<Rightarrow> 'd cache_mgr \<Rightarrow>
   (('c, 'r, 'd) cache_db \<times> 'd cache_mgr) option" where
  "cm_update_loop sv [] db cm = Some (db, cm)"
| "cm_update_loop sv ((key, a) # its) db cm =
     do { ob \<leftarrow> cm_heap cm a;
          let save = cm_save_due cm ob;
          let ob = (if save then ob\<lparr>co_dirty := False, co_inPersistence := True\<rparr> else ob);
          let db = (if save then cm_Persistence sv ob db else db);
          let cm = cm_set a ob cm;
          let cm = (if cm_remove_due cm ob then (cm_delete a cm)\<lparr>cm_cacheMap := omap_erase key (cm_cacheMap cm)\<rparr> else cm);
          cm_update_loop sv its db cm }"

definition cm_results :: "('c, 'r, 'd) cache_db \<Rightarrow> 'd cache_mgr \<Rightarrow> (('c, 'r, 'd) cache_db \<times> 'd cache_mgr) option" where
  "cm_results db cm = (case db_ProcessResultQueue db (Some cm) of (db, s) \<Rightarrow> map_option (Pair db) s)"

definition cm_Update :: "('d, 'r) saver \<Rightarrow> ('c, 'r, 'd) cache_db \<Rightarrow> 'd cache_mgr \<Rightarrow> (('c, 'r, 'd) cache_db \<times> 'd cache_mgr) option" where
  "cm_Update sv db cm =
     do { (db, cm) \<leftarrow> (if cm_dbUpdateAuto cm then cm_results db cm else Some (db, cm));
          cm_update_loop sv (cm_cacheMap cm) db cm }"

fun cm_shutdown_loop ::
  "('c, 'r) sql_connection \<Rightarrow> ('d, 'r) saver \<Rightarrow> (uint32 \<times> nat) list \<Rightarrow> ('c, 'r, 'd) cache_db \<Rightarrow> 'd cache_mgr \<Rightarrow>
   (('c, 'r, 'd) cache_db \<times> 'd cache_mgr) option" where
  "cm_shutdown_loop C sv [] db cm = Some (db, cm)"
| "cm_shutdown_loop C sv ((key, a) # its) db cm =
     do { ob \<leftarrow> cm_heap cm a;
          if co_useCount ob \<noteq> 0 then None
          else do {
            db \<leftarrow> (if co_dirty ob then map_option (snd \<circ> snd) (qb_ExecuteDirect C (cm_MakeSQL sv ob) db) else Some db);
            cm_shutdown_loop C sv its db (cm_delete a cm) } }"

definition cm_Shutdown ::
  "('c, 'r) sql_connection \<Rightarrow> ('d, 'r) saver \<Rightarrow> ('c, 'r, 'd) cache_db \<Rightarrow> 'd cache_mgr \<Rightarrow>
   (('c, 'r, 'd) cache_db \<times> 'd cache_mgr) option" where
  "cm_Shutdown C sv db cm =
     do { (db, cm) \<leftarrow> cm_results db cm;
          (db, cm) \<leftarrow> cm_shutdown_loop C sv (cm_cacheMap cm) db cm;
          Some (db, cm\<lparr>cm_cacheMap := []\<rparr>) }"

section \<open>Invariant\<close>

text \<open>
  \<open>H\<close> are the shared pointers outside, one entry per attachment; \<open>P\<close> the keys of the
  batches whose completion has not been processed.
\<close>

definition cm_ok :: "'d cache_mgr \<Rightarrow> nat list \<Rightarrow> uint32 list \<Rightarrow> bool" where
  "cm_ok cm H P \<longleftrightarrow> omap_ok (cm_cacheMap cm) \<and>
     (\<forall>k a. map_of (cm_cacheMap cm) k = Some a \<longrightarrow> (\<exists>ob. cm_heap cm a = Some ob \<and> co_cacheId ob = k)) \<and>
     (\<forall>a ob. cm_heap cm a = Some ob \<longrightarrow>
        map_of (cm_cacheMap cm) (co_cacheId ob) = Some a \<and> a < cm_fresh cm \<and>
        unat (co_useCount ob) = count_list H a \<and> (co_inPersistence ob \<longleftrightarrow> co_cacheId ob \<in> set P)) \<and>
     (\<forall>a \<in> set H. cm_heap cm a \<noteq> None) \<and> distinct P \<and> set P \<subseteq> dom (map_of (cm_cacheMap cm))"

definition cm_obj :: "'d cache_mgr \<Rightarrow> uint32 \<Rightarrow> 'd cache_object option" where
  "cm_obj cm k = Option.bind (map_of (cm_cacheMap cm) k) (cm_heap cm)"

lemma cm_ok_new: "cm_ok (cm_new i d u c) [] []"
  by (simp add: cm_ok_def cm_new_def)

lemma cm_ok_map: "cm_ok cm H P \<Longrightarrow> map_of (cm_cacheMap cm) k = Some a \<Longrightarrow> \<exists>ob. cm_heap cm a = Some ob \<and> co_cacheId ob = k"
  by (simp add: cm_ok_def)

lemma cm_ok_heap:
  "cm_ok cm H P \<Longrightarrow> cm_heap cm a = Some ob \<Longrightarrow>
   map_of (cm_cacheMap cm) (co_cacheId ob) = Some a \<and> a < cm_fresh cm \<and> unat (co_useCount ob) = count_list H a \<and>
   (co_inPersistence ob \<longleftrightarrow> co_cacheId ob \<in> set P)"
  by (simp add: cm_ok_def)

lemma cm_ok_handle: "cm_ok cm H P \<Longrightarrow> a \<in> set H \<Longrightarrow> \<exists>ob. cm_heap cm a = Some ob"
  by (auto simp: cm_ok_def)

lemma cm_obj_heap: "cm_ok cm H P \<Longrightarrow> cm_heap cm a = Some ob \<Longrightarrow> cm_obj cm (co_cacheId ob) = Some ob"
  using cm_ok_heap [of cm H P a ob] by (simp add: cm_obj_def)

text \<open>Writing an object that is in the cache.\<close>

lemma cm_ok_set:
  assumes ok: "cm_ok cm H P" and a: "cm_heap cm a = Some ob" and key: "co_cacheId ob' = co_cacheId ob"
    and use: "unat (co_useCount ob') = count_list H' a" and H: "\<forall>b. b \<noteq> a \<longrightarrow> count_list H' b = count_list H b"
    and pers: "co_inPersistence ob' \<longleftrightarrow> co_cacheId ob \<in> set P'" and P: "distinct P'" "set P' - {co_cacheId ob} = set P - {co_cacheId ob}"
  shows "cm_ok (cm_set a ob' cm) H' P'"
    and "cm_obj (cm_set a ob' cm) = (cm_obj cm)(co_cacheId ob \<mapsto> ob')"
proof -
  have m: "map_of (cm_cacheMap cm) (co_cacheId ob) = Some a" using cm_ok_heap [OF ok a] by simp
  have H': "set H' \<subseteq> insert a (set H)"
  proof
    fix b assume "b \<in> set H'"
    then have "count_list H' b \<noteq> 0" by (simp add: count_list_0_iff)
    then show "b \<in> insert a (set H)" using H by (cases "b = a") (auto simp: count_list_0_iff)
  qed
  have other: "b = a" if "map_of (cm_cacheMap cm) k = Some b" "k = co_cacheId ob" for b k using that m by simp
  have keys: "co_cacheId ob2 \<noteq> co_cacheId ob" if "cm_heap cm b = Some ob2" "b \<noteq> a" for b ob2
    using cm_ok_heap [OF ok that(1)] that(2) m by auto
  show "cm_ok (cm_set a ob' cm) H' P'"
    unfolding cm_ok_def
  proof (intro conjI allI ballI impI)
    show "omap_ok (cm_cacheMap (cm_set a ob' cm))" using ok by (simp add: cm_ok_def cm_set_def)
    show "distinct P'" by (rule P)
    have "set P' \<subseteq> insert (co_cacheId ob) (set P)" using P(2) by blast
    moreover have "set P \<subseteq> dom (map_of (cm_cacheMap cm))" using ok by (simp add: cm_ok_def)
    ultimately show "set P' \<subseteq> dom (map_of (cm_cacheMap (cm_set a ob' cm)))"
      using m by (auto simp: cm_set_def)
  next
    fix k b assume "map_of (cm_cacheMap (cm_set a ob' cm)) k = Some b"
    then show "\<exists>ob. cm_heap (cm_set a ob' cm) b = Some ob \<and> co_cacheId ob = k"
      using cm_ok_map [OF ok, of k b] a key by (auto simp: cm_set_def)
  next
    fix b assume "b \<in> set H'"
    then show "cm_heap (cm_set a ob' cm) b \<noteq> None"
      using H' cm_ok_handle [OF ok, of b] by (auto simp: cm_set_def)
  next
    fix b ob2 assume b: "cm_heap (cm_set a ob' cm) b = Some ob2"
    consider "b = a" "ob2 = ob'" | "b \<noteq> a" "cm_heap cm b = Some ob2"
      using b by (auto simp: cm_set_def split: if_splits)
    then have "map_of (cm_cacheMap cm) (co_cacheId ob2) = Some b \<and> b < cm_fresh cm \<and>
        unat (co_useCount ob2) = count_list H' b \<and> (co_inPersistence ob2 \<longleftrightarrow> co_cacheId ob2 \<in> set P')"
    proof cases
      case 1
      then show ?thesis using m key use pers cm_ok_heap [OF ok a] by simp
    next
      case 2
      have "co_cacheId ob2 \<in> set P' \<longleftrightarrow> co_cacheId ob2 \<in> set P" using P(2) keys [OF 2(2,1)] by blast
      then show ?thesis using 2 H cm_ok_heap [OF ok 2(2)] by simp
    qed
    then show "map_of (cm_cacheMap (cm_set a ob' cm)) (co_cacheId ob2) = Some b" "b < cm_fresh (cm_set a ob' cm)"
      "unat (co_useCount ob2) = count_list H' b" "co_inPersistence ob2 = (co_cacheId ob2 \<in> set P')"
      by (simp_all add: cm_set_def)
  qed
  show "cm_obj (cm_set a ob' cm) = (cm_obj cm)(co_cacheId ob \<mapsto> ob')"
  proof
    fix k
    have "b = a \<longleftrightarrow> k = co_cacheId ob" if "map_of (cm_cacheMap cm) k = Some b" for b
      using cm_ok_map [OF ok that] a m that by auto
    then show "cm_obj (cm_set a ob' cm) k = ((cm_obj cm)(co_cacheId ob \<mapsto> ob')) k"
      using m by (cases "map_of (cm_cacheMap cm) k") (auto simp: cm_obj_def cm_set_def)
  qed
qed

text \<open>Removing an object nobody uses.\<close>

lemma cm_ok_remove:
  assumes ok: "cm_ok cm H P" and a: "cm_heap cm a = Some ob" "co_useCount ob = 0" "\<not> co_inPersistence ob"
  shows "cm_ok ((cm_delete a cm)\<lparr>cm_cacheMap := omap_erase (co_cacheId ob) (cm_cacheMap cm)\<rparr>) H P"
    and "cm_obj ((cm_delete a cm)\<lparr>cm_cacheMap := omap_erase (co_cacheId ob) (cm_cacheMap cm)\<rparr>) = (cm_obj cm)(co_cacheId ob := None)"
proof -
  let ?cm = "(cm_delete a cm)\<lparr>cm_cacheMap := omap_erase (co_cacheId ob) (cm_cacheMap cm)\<rparr>"
  have m: "map_of (cm_cacheMap cm) (co_cacheId ob) = Some a" "count_list H a = 0" "co_cacheId ob \<notin> set P"
    using cm_ok_heap [OF ok a(1)] a(2,3) by auto
  have map: "map_of (cm_cacheMap ?cm) = (map_of (cm_cacheMap cm))(co_cacheId ob := None)" by (simp add: map_of_omap_erase)
  have heap: "cm_heap ?cm = (cm_heap cm)(a := None)" by (simp add: cm_delete_def)
  have "b \<noteq> a" if "map_of (cm_cacheMap cm) k = Some b" "k \<noteq> co_cacheId ob" for k b
    using cm_ok_map [OF ok that(1)] that(2) a(1) by auto
  then have mp: "\<forall>k b. map_of (cm_cacheMap ?cm) k = Some b \<longrightarrow> (\<exists>ob. cm_heap ?cm b = Some ob \<and> co_cacheId ob = k)"
    using cm_ok_map [OF ok] unfolding map heap by (auto split: if_splits)
  have keys: "co_cacheId ob2 \<noteq> co_cacheId ob" if "cm_heap cm b = Some ob2" "b \<noteq> a" for b ob2
    using cm_ok_heap [OF ok that(1)] that(2) m by auto
  have hp: "\<forall>b ob2. cm_heap ?cm b = Some ob2 \<longrightarrow> map_of (cm_cacheMap ?cm) (co_cacheId ob2) = Some b \<and> b < cm_fresh ?cm \<and>
      unat (co_useCount ob2) = count_list H b \<and> (co_inPersistence ob2 \<longleftrightarrow> co_cacheId ob2 \<in> set P)"
    using cm_ok_heap [OF ok] keys unfolding map heap by (auto simp: cm_delete_def split: if_splits)
  have hd: "\<forall>b \<in> set H. cm_heap ?cm b \<noteq> None"
    using cm_ok_handle [OF ok] m(2) unfolding heap by (auto simp: count_list_0_iff)
  have "omap_ok (cm_cacheMap ?cm)" "distinct P" "set P \<subseteq> dom (map_of (cm_cacheMap ?cm))"
    using ok m(3) unfolding map by (auto simp: cm_ok_def)
  then show "cm_ok ?cm H P" using mp hp hd by (simp only: cm_ok_def)
  show "cm_obj ?cm = (cm_obj cm)(co_cacheId ob := None)"
  proof
    fix k
    have "b \<noteq> a" if "map_of (cm_cacheMap cm) k = Some b" "k \<noteq> co_cacheId ob" for b
      using cm_ok_map [OF ok that(1)] that(2) a(1) by auto
    then show "cm_obj ?cm k = ((cm_obj cm)(co_cacheId ob := None)) k"
      unfolding cm_obj_def map heap by (cases "map_of (cm_cacheMap cm) k") auto
  qed
qed


text \<open>A new object under a key that is not cached.\<close>

lemma cm_ok_add:
  assumes ok: "cm_ok cm H P" and new: "map_of (cm_cacheMap cm) key = None" and ob: "co_cacheId ob = key" "co_useCount ob = 1"
    "\<not> co_inPersistence ob" and heap: "cm_heap cm' = (cm_heap cm)(cm_fresh cm \<mapsto> ob)" "cm_fresh cm' = Suc (cm_fresh cm)"
    "cm_cacheMap cm' = omap_insert key (cm_fresh cm) (cm_cacheMap cm)"
  shows "cm_ok cm' (H @ [cm_fresh cm]) P" and "cm_obj cm' = (cm_obj cm)(key \<mapsto> ob)"
proof -
  let ?a = "cm_fresh cm"
  have om: "omap_ok (cm_cacheMap cm)" using ok by (simp add: cm_ok_def)
  have map: "map_of (cm_cacheMap cm') = (map_of (cm_cacheMap cm))(key \<mapsto> ?a)"
    using om new heap(3) by (auto simp: map_of_omap_insert)
  have fr: "cm_heap cm ?a = None" using cm_ok_heap [OF ok, of ?a] by (cases "cm_heap cm ?a") auto
  have ne: "b \<noteq> ?a" if "map_of (cm_cacheMap cm) k = Some b" for k b using cm_ok_map [OF ok that] fr by auto
  have cnt: "count_list H ?a = 0" using cm_ok_handle [OF ok, of ?a] fr by (auto simp: count_list_0_iff)
  have keys: "co_cacheId ob2 \<noteq> key" if "cm_heap cm b = Some ob2" for b ob2
    using cm_ok_heap [OF ok that] new by auto
  have P: "key \<notin> set P" "distinct P" "set P \<subseteq> dom (map_of (cm_cacheMap cm))" using ok new by (auto simp: cm_ok_def)
  have mp: "\<forall>k b. map_of (cm_cacheMap cm') k = Some b \<longrightarrow> (\<exists>ob. cm_heap cm' b = Some ob \<and> co_cacheId ob = k)"
    using cm_ok_map [OF ok] ne ob(1) unfolding map heap(1) by (auto split: if_splits)
  have hp: "\<forall>b ob2. cm_heap cm' b = Some ob2 \<longrightarrow> map_of (cm_cacheMap cm') (co_cacheId ob2) = Some b \<and> b < cm_fresh cm' \<and>
      unat (co_useCount ob2) = count_list (H @ [?a]) b \<and> (co_inPersistence ob2 \<longleftrightarrow> co_cacheId ob2 \<in> set P)"
    using cm_ok_heap [OF ok] keys ob P(1) cnt fr unfolding map heap(1,2)
    by (auto split: if_splits intro: less_SucI)
  have hd: "\<forall>b \<in> set (H @ [?a]). cm_heap cm' b \<noteq> None" using cm_ok_handle [OF ok] heap(1) by auto
  have "omap_ok (cm_cacheMap cm')" "set P \<subseteq> dom (map_of (cm_cacheMap cm'))"
    using om heap(3) P(3) unfolding map by auto
  then show "cm_ok cm' (H @ [?a]) P" using mp hp hd P(2) by (simp only: cm_ok_def)
  show "cm_obj cm' = (cm_obj cm)(key \<mapsto> ob)"
  proof
    fix k
    show "cm_obj cm' k = ((cm_obj cm)(key \<mapsto> ob)) k"
      using ne new unfolding cm_obj_def map heap(1) by (cases "map_of (cm_cacheMap cm) k") auto
  qed
qed

lemma cm_PrepareData_fields:
  "cm_PrepareData ld df is ob = (ok, ob') \<Longrightarrow> co_cacheId ob' = co_cacheId ob \<and> co_useCount ob' = co_useCount ob \<and>
     co_dirty ob' = co_dirty ob \<and> co_inPersistence ob' = co_inPersistence ob"
  by (induction ld df "is" ob rule: cm_PrepareData.induct)
    (auto simp: cm_load_def co_LoadData_def Let_def split: if_splits prod.splits)

lemma count_snoc: "count_list (H @ [a]) b = (if b = a then Suc (count_list H b) else count_list H b)"
  by simp

text \<open>The attachments: what they do to the invariant and to the objects.\<close>

lemma cm_Attach_ok:
  assumes ok: "cm_ok cm H P" and small: "Suc (length H) < 2 ^ 32"
  shows "\<exists>r cm'. cm_Attach ex ld key df ac cm = Some (r, cm') \<and> cm_ok cm' (case r of None \<Rightarrow> H | Some a \<Rightarrow> H @ [a]) P \<and>
     (\<forall>k. case cm_obj cm k of None \<Rightarrow> True | Some ob \<Rightarrow> \<exists>ob'. cm_obj cm' k = Some ob' \<and> co_dirty ob' = co_dirty ob \<and>
        (co_useCount ob > 0 \<longrightarrow> co_useCount ob' > 0))"
proof (cases "map_of (cm_cacheMap cm) key")
  case (Some a)
  obtain ob where ob: "cm_heap cm a = Some ob" "co_cacheId ob = key" using cm_ok_map [OF ok Some] by blast
  note h = cm_ok_heap [OF ok ob(1)]
  obtain b ob1 where prep: "cm_PrepareData ld df [0..<length df] ob = (b, ob1)" by fastforce
  note f = cm_PrepareData_fields [OF prep]
  have obj: "cm_obj cm key = Some ob" using cm_obj_heap [OF ok ob(1)] ob(2) by simp
  show ?thesis
  proof (cases b)
    case False
    have "cm_Attach ex ld key df ac cm = Some (None, cm_set a ob1 cm)"
      using Some ob(1) prep False by (simp add: cm_Attach_def Let_def)
    moreover have "cm_ok (cm_set a ob1 cm) H P" "cm_obj (cm_set a ob1 cm) = (cm_obj cm)(key \<mapsto> ob1)"
      using cm_ok_set [OF ok ob(1), of ob1 H P] f h ok ob(2) by (auto simp: cm_ok_def)
    ultimately show ?thesis using f obj by (auto split: option.splits)
  next
    case True
    let ?ob = "ob1\<lparr>co_persistenceTime := cm_clock cm, co_useCount := co_useCount ob1 + 1\<rparr>"
    have "unat (co_useCount ob) \<le> length H" using h by (simp add: count_le_length)
    then have use: "unat (co_useCount ob1 + 1) = Suc (unat (co_useCount ob))"
      using small f by (simp add: unat_word_ariths)
    have "omap_insert key a (cm_cacheMap cm) = cm_cacheMap cm" using Some by (simp add: omap_insert_def)
    then have "cm_Attach ex ld key df ac cm = Some (Some a, cm_set a ?ob cm)"
      using Some ob(1) prep True by (simp add: cm_Attach_def Let_def cm_set_def)
    moreover have "cm_ok (cm_set a ?ob cm) (H @ [a]) P" "cm_obj (cm_set a ?ob cm) = (cm_obj cm)(key \<mapsto> ?ob)"
      using cm_ok_set [OF ok ob(1), of ?ob "H @ [a]" P] f h use ok ob(2) by (auto simp: cm_ok_def)
    moreover have "0 < co_useCount ?ob" using use by (simp add: word_less_nat_alt)
    ultimately show ?thesis using f obj by (auto split: option.splits)
  qed
next
  case None
  obtain e d where e: "ex ac key = (e, d)" by fastforce
  have obj: "cm_obj cm key = None" using None by (simp add: cm_obj_def)
  let ?a = "cm_fresh cm"
  have fr: "cm_heap cm ?a = None" using cm_ok_heap [OF ok, of ?a] by (cases "cm_heap cm ?a") auto
  obtain b ob1 where prep: "cm_PrepareData ld df [0..<length df] (co_new key d) = (b, ob1)" by fastforce
  note f = cm_PrepareData_fields [OF prep]
  consider "\<not> e" | "e" "\<not> b" | "e" "b" by blast
  then show ?thesis
  proof cases
    case 1
    with e None ok show ?thesis by (auto simp: cm_Attach_def Let_def split: option.splits)
  next
    case 2
    let ?cm = "cm_delete ?a ((cm_set ?a (co_new key d) cm)\<lparr>cm_fresh := Suc ?a\<rparr>)"
    have "cm_Attach ex ld key df ac cm = Some (None, ?cm)"
      using 2 e None prep by (simp add: cm_Attach_def Let_def cm_set_def)
    moreover have "cm_heap ?cm = cm_heap cm" using fr by (auto simp: cm_delete_def cm_set_def)
    moreover have "cm_cacheMap ?cm = cm_cacheMap cm" "cm_fresh ?cm = Suc ?a" by (simp_all add: cm_delete_def cm_set_def)
    ultimately show ?thesis using ok by (auto simp: cm_ok_def cm_obj_def less_SucI split: option.splits)
  next
    case 3
    let ?ob = "ob1\<lparr>co_persistenceTime := cm_clock cm, co_useCount := co_useCount ob1 + 1\<rparr>"
    let ?cm = "(cm_set ?a ?ob (cm_set ?a (co_new key d) cm\<lparr>cm_fresh := Suc ?a\<rparr>))\<lparr>cm_cacheMap := omap_insert key ?a (cm_cacheMap cm)\<rparr>"
    have at: "cm_Attach ex ld key df ac cm = Some (Some ?a, ?cm)"
      using 3 e None prep by (simp add: cm_Attach_def Let_def cm_set_def)
    have "cm_ok ?cm (H @ [?a]) P" "cm_obj ?cm = (cm_obj cm)(key \<mapsto> ?ob)"
      using f by (intro cm_ok_add [OF ok None, of ?ob]; simp add: co_new_def cm_set_def)+
    with at obj show ?thesis by (auto split: option.splits)
  qed
qed

lemma cm_FindInCache_ok:
  assumes ok: "cm_ok cm H P" and small: "Suc (length H) < 2 ^ 32"
  shows "\<exists>r cm'. cm_FindInCache key cm = Some (r, cm') \<and> cm_ok cm' (case r of None \<Rightarrow> H | Some a \<Rightarrow> H @ [a]) P \<and>
     (\<forall>k. case cm_obj cm k of None \<Rightarrow> True | Some ob \<Rightarrow> \<exists>ob'. cm_obj cm' k = Some ob' \<and> co_dirty ob' = co_dirty ob \<and>
        (co_useCount ob > 0 \<longrightarrow> co_useCount ob' > 0))"
proof (cases "map_of (cm_cacheMap cm) key")
  case None
  with ok show ?thesis by (auto simp: cm_FindInCache_def split: option.splits)
next
  case (Some a)
  obtain ob where ob: "cm_heap cm a = Some ob" "co_cacheId ob = key" using cm_ok_map [OF ok Some] by blast
  note h = cm_ok_heap [OF ok ob(1)]
  let ?ob = "ob\<lparr>co_useCount := co_useCount ob + 1\<rparr>"
  have "unat (co_useCount ob) \<le> length H" using h by (simp add: count_le_length)
  then have use: "unat (co_useCount ob + 1) = Suc (unat (co_useCount ob))"
    using small by (simp add: unat_word_ariths)
  have "cm_FindInCache key cm = Some (Some a, cm_set a ?ob cm)" using Some ob(1) by (simp add: cm_FindInCache_def)
  moreover have "cm_ok (cm_set a ?ob cm) (H @ [a]) P" "cm_obj (cm_set a ?ob cm) = (cm_obj cm)(key \<mapsto> ?ob)"
    using cm_ok_set [OF ok ob(1), of ?ob "H @ [a]" P] h use ok ob(2) by (auto simp: cm_ok_def)
  moreover have "0 < co_useCount ?ob" using use by (simp add: word_less_nat_alt)
  moreover have "cm_obj cm key = Some ob" using cm_obj_heap [OF ok ob(1)] ob(2) by simp
  ultimately show ?thesis by (auto split: option.splits)
qed


lemma cm_AutoRelease_ok:
  assumes ok: "cm_ok cm H P" and a: "a \<in> set H"
  shows "\<exists>cm'. cm_Detach (Some a) modified cm = Some cm' \<and> cm_ok cm' (remove1 a H) P \<and>
     (\<forall>k. case cm_obj cm k of None \<Rightarrow> True | Some ob \<Rightarrow> \<exists>ob'. cm_obj cm' k = Some ob' \<and>
        (co_dirty ob \<longrightarrow> co_dirty ob') \<and> (co_useCount ob > 0 \<longrightarrow> co_useCount ob' > 0 \<or> co_dirty ob'))"
proof -
  obtain ob where ob: "cm_heap cm a = Some ob" using cm_ok_handle [OF ok a] by blast
  note h = cm_ok_heap [OF ok ob]
  have pos: "unat (co_useCount ob) \<noteq> 0" using h a by (auto simp: count_list_0_iff)
  then have nz: "co_useCount ob \<noteq> 0" by (simp add: unat_eq_0)
  let ?ob = "ob\<lparr>co_dirty := True, co_useCount := co_useCount ob - 1\<rparr>"
  have cnt: "count_list (remove1 a H) b = (if b = a then count_list H a - 1 else count_list H b)" for b
    by (induction H) auto
  have use: "unat (co_useCount ob - 1) = unat (co_useCount ob) - 1"
    using nz by (rule unat_minus_one)
  have "cm_Detach (Some a) modified cm = Some (cm_set a ?ob cm)"
    using ob nz by (simp add: cm_Detach_def cm_AutoRelease_def)
  moreover have "cm_ok (cm_set a ?ob cm) (remove1 a H) P" "cm_obj (cm_set a ?ob cm) = (cm_obj cm)(co_cacheId ob \<mapsto> ?ob)"
    using cm_ok_set [OF ok ob, of ?ob "remove1 a H" P] h use cnt ok by (auto simp: cm_ok_def)
  moreover have "cm_obj cm (co_cacheId ob) = Some ob" using cm_obj_heap [OF ok ob] .
  ultimately show ?thesis by (auto split: option.splits)
qed

section \<open>Pending batches\<close>

definition cm_op :: "uint32 \<times> 'r query_batch \<Rightarrow> ('r, 'd cache_mgr option) sql_operation" where
  "cm_op = (\<lambda>(k, qs). SqlQueryBatchOperation (Some qs) (Some (cm_callback k)) True)"

definition cm_done :: "uint32 \<times> 'r query_batch \<Rightarrow> ('r, 'd cache_mgr option) iquery_callback" where
  "cm_done = (\<lambda>(k, qs). cm_callback k qs)"

text \<open>\<open>p1\<close> has been executed, \<open>p2\<close> is with the delay thread.\<close>

definition cm_pending :: "('c, 'r, 'd) cache_db \<Rightarrow> (uint32 \<times> 'r query_batch) list \<Rightarrow> (uint32 \<times> 'r query_batch) list \<Rightarrow> bool" where
  "cm_pending db p1 p2 \<longleftrightarrow> db_results db = Some (map cm_done p1) \<and> db_thread db = Some (map cm_op p2)"

lemma cm_callback_Execute: "iq_Execute (cm_callback k qs) (Some cm) = cm_OnPersistenceComp None qs k cm"
  by (simp add: cm_callback_def callback_simps)

lemma cm_results_fold:
  "cm_ok cm H (map fst p1 @ P) \<Longrightarrow>
   \<exists>cm'. rq_Update (map cm_done p1) (Some cm) = Some cm' \<and> cm_ok cm' H P \<and>
     cm_persistenceInterval cm' = cm_persistenceInterval cm \<and> cm_cacheMap cm' = cm_cacheMap cm \<and>
     (\<forall>k. cm_obj cm' k = map_option (\<lambda>ob. if k \<in> set (map fst p1)
        then ob\<lparr>co_inPersistence := False, co_persistenceTime := cm_clock cm\<rparr> else ob) (cm_obj cm k))"
proof (induction p1 arbitrary: cm)
  case Nil
  then show ?case by (simp add: option.map_ident)
next
  case (Cons x p1)
  obtain k qs where x: "x = (k, qs)" by fastforce
  have ok: "cm_ok cm H (k # map fst p1 @ P)" using Cons.prems x by simp
  then obtain a where a: "map_of (cm_cacheMap cm) k = Some a" by (auto simp: cm_ok_def)
  obtain ob where ob: "cm_heap cm a = Some ob" "co_cacheId ob = k" using cm_ok_map [OF ok a] by blast
  let ?ob = "ob\<lparr>co_inPersistence := False, co_persistenceTime := cm_clock cm\<rparr>" and ?P = "map fst p1 @ P"
  let ?cm = "cm_set a ?ob cm"
  have dist: "k \<notin> set ?P" "distinct ?P" using ok by (auto simp: cm_ok_def)
  have set: "cm_ok ?cm H ?P" "cm_obj ?cm = (cm_obj cm)(k \<mapsto> ?ob)"
    using cm_ok_set [OF ok ob(1), of ?ob H ?P] cm_ok_heap [OF ok ob(1)] dist ob(2) by auto
  from Cons.IH [OF set(1)] obtain cm' where
    r: "rq_Update (map cm_done p1) (Some ?cm) = Some cm'" "cm_ok cm' H P"
      "cm_persistenceInterval cm' = cm_persistenceInterval ?cm" "cm_cacheMap cm' = cm_cacheMap ?cm"
      "\<forall>k. cm_obj cm' k = map_option (\<lambda>ob. if k \<in> set (map fst p1)
        then ob\<lparr>co_inPersistence := False, co_persistenceTime := cm_clock ?cm\<rparr> else ob) (cm_obj ?cm k)" by blast
  have f: "cm_clock ?cm = cm_clock cm" "cm_persistenceInterval ?cm = cm_persistenceInterval cm" "cm_cacheMap ?cm = cm_cacheMap cm"
    by (simp_all add: cm_set_def)
  have "iq_Execute (cm_done x) (Some cm) = Some ?cm"
    using a ob x by (simp add: cm_done_def cm_callback_Execute cm_OnPersistenceComp_def)
  then have run: "rq_Update (map cm_done (x # p1)) (Some cm) = Some cm'" using r(1) by (simp add: rq_Update_def)
  have obj: "cm_obj cm k = Some ob" using cm_obj_heap [OF ok ob(1)] ob(2) by simp
  have "cm_obj cm' j = map_option (\<lambda>ob. if j \<in> set (map fst (x # p1))
        then ob\<lparr>co_inPersistence := False, co_persistenceTime := cm_clock cm\<rparr> else ob) (cm_obj cm j)" for j
    using r(5) set(2) obj x unfolding f by (cases "j = k") auto
  then show ?case using run r(2-4) unfolding f by blast
qed

lemma cm_results_ok:
  assumes ok: "cm_ok cm H (map fst (p1 @ p2))" and p: "cm_pending db p1 p2"
  shows "\<exists>db' cm'. cm_results db cm = Some (db', cm') \<and> cm_ok cm' H (map fst p2) \<and> cm_pending db' [] p2 \<and>
     cm_cacheMap cm' = cm_cacheMap cm \<and>
     (\<forall>k. cm_obj cm' k = map_option (\<lambda>ob. if k \<in> set (map fst p1)
        then ob\<lparr>co_inPersistence := False, co_persistenceTime := cm_clock cm\<rparr> else ob) (cm_obj cm k))"
proof -
  have ok': "cm_ok cm H (map fst p1 @ map fst p2)" using ok by simp
  from cm_results_fold [OF ok'] p show ?thesis
    by (fastforce simp: cm_results_def db_ProcessResultQueue_def cm_pending_def)
qed

lemma dt_step_pending:
  fixes db :: "('c, 'r, 'd) cache_db"
  assumes "cm_pending db p1 p2"
  shows "\<exists>q1 q2. cm_pending (dt_step C db) q1 q2 \<and> map fst (q1 @ q2) = map fst (p1 @ p2)"
proof (cases p2)
  case Nil
  with assms show ?thesis by (auto simp: dt_step_def cm_pending_def)
next
  case (Cons x q2)
  obtain k qs where x: "x = (k, qs)" by fastforce
  obtain qs' c where run: "op_Execute C AsyncConn (cm_op x) (db_server db) = (True, c, [cm_done (k, qs') :: ('r, 'd cache_mgr option) iquery_callback])"
    using x by (auto simp: cm_op_def cm_done_def Let_def split_beta)
  then have "cm_pending (dt_step C db) (p1 @ [(k, qs')]) q2"
    using assms Cons by (simp add: dt_step_def cm_pending_def)
  with Cons x show ?thesis by (intro exI [of _ "p1 @ [(k, qs')]"] exI [of _ q2]) simp
qed


section \<open>Update and Shutdown\<close>

text \<open>What one pass makes of an object.\<close>

definition cm_pass :: "'d cache_mgr \<Rightarrow> 'd cache_object \<Rightarrow> 'd cache_object option" where
  "cm_pass cm ob =
     (if cm_save_due cm ob then Some (ob\<lparr>co_dirty := False, co_inPersistence := True\<rparr>)
      else if cm_remove_due cm ob then None else Some ob)"

text \<open>The batches one pass submits.\<close>

fun cm_submits :: "('d, 'r) saver \<Rightarrow> 'd cache_mgr \<Rightarrow> uint32 list \<Rightarrow> (uint32 \<times> 'r query_batch) list" where
  "cm_submits sv cm [] = []"
| "cm_submits sv cm (k # ks) =
     (case cm_obj cm k of
        None \<Rightarrow> cm_submits sv cm ks
      | Some ob \<Rightarrow> if cm_save_due cm ob then (k, cm_MakeSQL sv ob) # cm_submits sv cm ks else cm_submits sv cm ks)"

lemma cm_due_cong:
  "cm_clock cm' = cm_clock cm \<Longrightarrow> cm_persistenceInterval cm' = cm_persistenceInterval cm \<Longrightarrow>
   cm_save_due cm' = cm_save_due cm"
  "cm_clock cm' = cm_clock cm \<Longrightarrow> cm_removeFromCacheDelay cm' = cm_removeFromCacheDelay cm \<Longrightarrow>
   cm_remove_due cm' = cm_remove_due cm"
  by (simp_all add: fun_eq_iff cm_save_due_def cm_remove_due_def)

lemma cm_submits_cong:
  "\<forall>k \<in> set ks. cm_obj cm' k = cm_obj cm k \<Longrightarrow> cm_save_due cm' = cm_save_due cm \<Longrightarrow> cm_submits sv cm' ks = cm_submits sv cm ks"
  by (induction ks) (auto split: option.splits)

lemma cm_pass_step:
  assumes ok: "cm_ok cm H (map fst (p1 @ p2))" and p: "cm_pending db p1 p2" and a: "map_of (cm_cacheMap cm) k = Some a"
  shows "\<exists>db1 cm1. (\<forall>its. cm_update_loop sv ((k, a) # its) db cm = cm_update_loop sv its db1 cm1) \<and>
     cm_ok cm1 H (map fst (p1 @ p2 @ cm_submits sv cm [k])) \<and> cm_pending db1 p1 (p2 @ cm_submits sv cm [k]) \<and>
     cm_obj cm1 = (cm_obj cm)(k := Option.bind (cm_obj cm k) (cm_pass cm)) \<and>
     cm_clock cm1 = cm_clock cm \<and> cm_persistenceInterval cm1 = cm_persistenceInterval cm \<and>
     cm_removeFromCacheDelay cm1 = cm_removeFromCacheDelay cm \<and>
     (\<forall>k' \<noteq> k. map_of (cm_cacheMap cm1) k' = map_of (cm_cacheMap cm) k')"
proof -
  let ?P = "map fst (p1 @ p2)"
  obtain ob where ob: "cm_heap cm a = Some ob" "co_cacheId ob = k" using cm_ok_map [OF ok a] by blast
  have obj: "cm_obj cm k = Some ob" using cm_obj_heap [OF ok ob(1)] ob(2) by simp
  note h = cm_ok_heap [OF ok ob(1)]
  consider (save) "cm_save_due cm ob" | (drop) "\<not> cm_save_due cm ob" "cm_remove_due cm ob"
    | (keep) "\<not> cm_save_due cm ob" "\<not> cm_remove_due cm ob" by blast
  then show ?thesis
  proof cases
    case save
    let ?ob = "ob\<lparr>co_dirty := False, co_inPersistence := True\<rparr>" and ?x = "(k, cm_MakeSQL sv ob)"
    let ?cm = "cm_set a ?ob cm" and ?db = "cm_Persistence sv ob db"
    have "k \<notin> set ?P" using save h ob(2) by (auto simp: cm_save_due_def)
    then have "distinct (?P @ [k])" using ok by (auto simp: cm_ok_def)
    then have "cm_ok ?cm H (?P @ [k])" "cm_obj ?cm = (cm_obj cm)(k \<mapsto> ?ob)"
      using cm_ok_set [OF ok ob(1), of ?ob H "?P @ [k]"] h ob(2) by auto
    moreover have "cm_pending ?db p1 (p2 @ [?x])"
      using p ob(2) by (simp add: cm_pending_def cm_Persistence_def db_DelayQueryBatch_def qb_Execute_def dt_Delay_def cm_op_def)
    moreover have "\<forall>its. cm_update_loop sv ((k, a) # its) db cm = cm_update_loop sv its ?db ?cm"
    proof -
      have "\<not> cm_remove_due ?cm ?ob" by (simp add: cm_remove_due_def)
      moreover have "cm_Persistence sv ?ob db = cm_Persistence sv ob db" by (simp add: cm_Persistence_def cm_MakeSQL_def cong: if_cong)
      ultimately show ?thesis using save ob(1) by (simp add: Let_def)
    qed
    ultimately show ?thesis
      using save obj by (intro exI [of _ ?db] exI [of _ ?cm]) (simp add: cm_pass_def, simp add: cm_set_def)
  next
    case drop
    let ?cm = "(cm_delete a cm)\<lparr>cm_cacheMap := omap_erase k (cm_cacheMap cm)\<rparr>"
    have use: "co_useCount ob = 0" "\<not> co_inPersistence ob" using drop(2) by (auto simp: cm_remove_due_def)
    have "cm_set a ob cm = cm" using ob(1) by (simp add: cm_set_def fun_upd_idem)
    then have "\<forall>its. cm_update_loop sv ((k, a) # its) db cm = cm_update_loop sv its db ?cm"
      using drop ob(1) by (simp add: Let_def)
    moreover note cm_ok_remove [OF ok ob(1) use]
    ultimately show ?thesis
      using drop obj p ob(2) by (intro exI [of _ db] exI [of _ ?cm])
        (simp add: cm_pass_def, simp add: cm_delete_def map_of_omap_erase)
  next
    case keep
    have "cm_set a ob cm = cm" using ob(1) by (simp add: cm_set_def fun_upd_idem)
    then have "\<forall>its. cm_update_loop sv ((k, a) # its) db cm = cm_update_loop sv its db cm"
      using keep ob(1) by (simp add: Let_def)
    then show ?thesis
      using keep obj p ok by (intro exI [of _ db] exI [of _ cm]) (simp add: cm_pass_def fun_upd_idem)
  qed
qed

lemma cm_update_loop_ok:
  "cm_ok cm H (map fst (p1 @ p2)) \<Longrightarrow> cm_pending db p1 p2 \<Longrightarrow> distinct (map fst its) \<Longrightarrow>
   \<forall>(k, a) \<in> set its. map_of (cm_cacheMap cm) k = Some a \<Longrightarrow>
   \<exists>db' cm'. cm_update_loop sv its db cm = Some (db', cm') \<and>
     cm_ok cm' H (map fst (p1 @ p2 @ cm_submits sv cm (map fst its))) \<and>
     cm_pending db' p1 (p2 @ cm_submits sv cm (map fst its)) \<and>
     (\<forall>k. cm_obj cm' k = (if k \<in> fst ` set its then Option.bind (cm_obj cm k) (cm_pass cm) else cm_obj cm k))"
proof (induction its arbitrary: cm db p2)
  case Nil
  then show ?case by simp
next
  case (Cons x its)
  obtain k a where x: "x = (k, a)" by fastforce
  have a: "map_of (cm_cacheMap cm) k = Some a" using Cons.prems(4) x by auto
  from cm_pass_step [OF Cons.prems(1,2) a, of sv] obtain db1 cm1 where
    s: "\<forall>its. cm_update_loop sv ((k, a) # its) db cm = cm_update_loop sv its db1 cm1"
      "cm_ok cm1 H (map fst (p1 @ p2 @ cm_submits sv cm [k]))" "cm_pending db1 p1 (p2 @ cm_submits sv cm [k])"
      "cm_obj cm1 = (cm_obj cm)(k := Option.bind (cm_obj cm k) (cm_pass cm))"
      "cm_clock cm1 = cm_clock cm" "cm_persistenceInterval cm1 = cm_persistenceInterval cm"
      "cm_removeFromCacheDelay cm1 = cm_removeFromCacheDelay cm"
      "\<forall>k' \<noteq> k. map_of (cm_cacheMap cm1) k' = map_of (cm_cacheMap cm) k'" by blast
  have nk: "k \<notin> fst ` set its" "distinct (map fst its)" using Cons.prems(3) x by auto
  have its: "\<forall>(k', a) \<in> set its. map_of (cm_cacheMap cm1) k' = Some a"
  proof clarify
    fix k' a' assume i: "(k', a') \<in> set its"
    then have "k' \<noteq> k" using nk(1) by force
    then show "map_of (cm_cacheMap cm1) k' = Some a'" using s(8) Cons.prems(4) i by auto
  qed
  have due: "cm_save_due cm1 = cm_save_due cm" "cm_remove_due cm1 = cm_remove_due cm"
    using s(5-7) cm_due_cong by blast+
  then have pass: "cm_pass cm1 = cm_pass cm" by (simp add: fun_eq_iff cm_pass_def)
  have sub: "cm_submits sv cm1 (map fst its) = cm_submits sv cm (map fst its)"
    using nk(1) s(4) due(1) by (intro cm_submits_cong) (auto simp: image_iff)
  have split: "cm_submits sv cm (map fst (x # its)) = cm_submits sv cm [k] @ cm_submits sv cm (map fst its)"
    using x by (simp split: option.splits)
  from Cons.IH [OF _ s(3) nk(2) its] s(2) obtain db' cm' where
    r: "cm_update_loop sv its db1 cm1 = Some (db', cm')"
      "cm_ok cm' H (map fst (p1 @ (p2 @ cm_submits sv cm [k]) @ cm_submits sv cm1 (map fst its)))"
      "cm_pending db' p1 ((p2 @ cm_submits sv cm [k]) @ cm_submits sv cm1 (map fst its))"
      "\<forall>k. cm_obj cm' k = (if k \<in> fst ` set its then Option.bind (cm_obj cm1 k) (cm_pass cm1) else cm_obj cm1 k)"
    by (metis append.assoc)
  have "cm_update_loop sv (x # its) db cm = Some (db', cm')" using s(1) r(1) x by simp
  moreover have "\<forall>j. cm_obj cm' j = (if j \<in> fst ` set (x # its) then Option.bind (cm_obj cm j) (cm_pass cm) else cm_obj cm j)"
    using r(4) s(4) pass nk(1) x by auto
  ultimately show ?case using r(2,3) unfolding sub split by (metis append.assoc)
qed


lemma cm_submits_keys:
  "fst ` set (cm_submits sv cm ks) = {k \<in> set ks. \<exists>ob. cm_obj cm k = Some ob \<and> cm_save_due cm ob}"
  by (induction ks) (auto split: option.splits)

lemma cm_obj_dom: "cm_ok cm H P \<Longrightarrow> cm_obj cm k \<noteq> None \<longleftrightarrow> k \<in> fst ` set (cm_cacheMap cm)"
proof (cases "map_of (cm_cacheMap cm) k")
  case None
  then have "k \<notin> fst ` set (cm_cacheMap cm)" by (simp add: map_of_eq_None_iff)
  with None show ?thesis by (simp add: cm_obj_def)
next
  case (Some a)
  assume "cm_ok cm H P"
  from cm_ok_map [OF this Some] Some show ?thesis
    by (force simp: cm_obj_def dest: map_of_SomeD)
qed

lemma cm_map_entries: "cm_ok cm H P \<Longrightarrow> distinct (map fst (cm_cacheMap cm)) \<and> (\<forall>(k, a) \<in> set (cm_cacheMap cm). map_of (cm_cacheMap cm) k = Some a)"
  by (auto simp: cm_ok_def omap_ok_distinct)

section \<open>The server's use of the cache\<close>

text \<open>
  The server attaches and looks up objects, changes them through a shared pointer it holds, releases
  pointers, runs \<open>Update\<close> from its main loop; the delay thread works, and time passes. \<open>w_unsaved\<close>
  are the keys of objects changed since the last batch with their contents was submitted.
\<close>

record ('c, 'r, 'd) cm_world =
  w_cm :: "'d cache_mgr"
  w_db :: "('c, 'r, 'd) cache_db"
  w_handles :: "nat list"
  w_unsaved :: "uint32 set"

datatype 'd cm_event =
  CE_Attach uint32 "bool list" bool "bool \<Rightarrow> uint32 \<Rightarrow> bool \<times> 'd" "'d loader"
| CE_Find uint32
| CE_Change nat "'d \<Rightarrow> 'd"
| CE_Release nat
| CE_Update
| CE_Work
| CE_Time int

definition cm_hold :: "('c, 'r, 'd) cm_world \<Rightarrow> nat option \<times> 'd cache_mgr \<Rightarrow> ('c, 'r, 'd) cm_world" where
  "cm_hold w = (\<lambda>(r, cm). w\<lparr>w_cm := cm, w_handles := (case r of None \<Rightarrow> w_handles w | Some a \<Rightarrow> w_handles w @ [a])\<rparr>)"

fun cm_exec ::
  "('c, 'r) sql_connection \<Rightarrow> ('d, 'r) saver \<Rightarrow> 'd cm_event \<Rightarrow> ('c, 'r, 'd) cm_world \<Rightarrow> ('c, 'r, 'd) cm_world option" where
  "cm_exec C sv (CE_Attach key df ac ex ld) w = map_option (cm_hold w) (cm_Attach ex ld key df ac (w_cm w))"
| "cm_exec C sv (CE_Find key) w = map_option (cm_hold w) (cm_FindInCache key (w_cm w))"
| "cm_exec C sv (CE_Change i f) w =
     (if i < length (w_handles w)
      then do { let a = w_handles w ! i;
                ob \<leftarrow> cm_heap (w_cm w) a;
                Some (w\<lparr>w_cm := cm_set a (ob\<lparr>co_data := f (co_data ob)\<rparr>) (w_cm w),
                        w_unsaved := insert (co_cacheId ob) (w_unsaved w)\<rparr>) }
      else Some w)"
| "cm_exec C sv (CE_Release i) w =
     (if i < length (w_handles w)
      then do { cm \<leftarrow> cm_Detach (Some (w_handles w ! i)) True (w_cm w);
                Some (w\<lparr>w_cm := cm, w_handles := remove1 (w_handles w ! i) (w_handles w)\<rparr>) }
      else Some w)"
| "cm_exec C sv CE_Update w =
     do { (db1, cm1) \<leftarrow> (if cm_dbUpdateAuto (w_cm w) then cm_results (w_db w) (w_cm w) else Some (w_db w, w_cm w));
          (db2, cm2) \<leftarrow> cm_Update sv (w_db w) (w_cm w);
          Some (w\<lparr>w_cm := cm2, w_db := db2,
                  w_unsaved := w_unsaved w - fst ` set (cm_submits sv cm1 (map fst (cm_cacheMap cm1)))\<rparr>) }"
| "cm_exec C sv CE_Work w = Some (w\<lparr>w_db := dt_step C (w_db w)\<rparr>)"
| "cm_exec C sv (CE_Time t) w = Some (w\<lparr>w_cm := (w_cm w)\<lparr>cm_clock := t\<rparr>\<rparr>)"

fun cm_run ::
  "('c, 'r) sql_connection \<Rightarrow> ('d, 'r) saver \<Rightarrow> 'd cm_event list \<Rightarrow> ('c, 'r, 'd) cm_world \<Rightarrow> ('c, 'r, 'd) cm_world option" where
  "cm_run C sv [] w = Some w"
| "cm_run C sv (e # es) w = Option.bind (cm_exec C sv e w) (cm_run C sv es)"

definition cm_guarded :: "'d cache_mgr \<Rightarrow> uint32 set \<Rightarrow> bool" where
  "cm_guarded cm U \<longleftrightarrow> (\<forall>k \<in> U. \<exists>ob. cm_obj cm k = Some ob \<and> (co_useCount ob > 0 \<or> co_dirty ob))"

definition w_ok :: "('c, 'r, 'd) cm_world \<Rightarrow> bool" where
  "w_ok w \<longleftrightarrow> (\<exists>p1 p2. cm_ok (w_cm w) (w_handles w) (map fst (p1 @ p2)) \<and> cm_pending (w_db w) p1 p2) \<and>
     cm_guarded (w_cm w) (w_unsaved w)"

lemma cm_guarded_mono:
  assumes "cm_guarded cm U"
    and "\<forall>k. case cm_obj cm k of None \<Rightarrow> True | Some ob \<Rightarrow> \<exists>ob'. cm_obj cm' k = Some ob' \<and>
        (co_dirty ob \<longrightarrow> co_dirty ob') \<and> (co_useCount ob > 0 \<longrightarrow> co_useCount ob' > 0 \<or> co_dirty ob')"
  shows "cm_guarded cm' U"
  using assms unfolding cm_guarded_def by (fastforce split: option.splits)

lemma w_ok_hold:
  assumes "w_ok w" "\<And>P. cm_ok (w_cm w) (w_handles w) P \<Longrightarrow>
     \<exists>r cm'. act = Some (r, cm') \<and> cm_ok cm' (case r of None \<Rightarrow> w_handles w | Some a \<Rightarrow> w_handles w @ [a]) P \<and>
     (\<forall>k. case cm_obj (w_cm w) k of None \<Rightarrow> True | Some ob \<Rightarrow> \<exists>ob'. cm_obj cm' k = Some ob' \<and> co_dirty ob' = co_dirty ob \<and>
        (co_useCount ob > 0 \<longrightarrow> co_useCount ob' > 0))"
  shows "\<exists>w'. map_option (cm_hold w) act = Some w' \<and> w_ok w' \<and> length (w_handles w') \<le> Suc (length (w_handles w))"
proof -
  obtain p1 p2 where p: "cm_ok (w_cm w) (w_handles w) (map fst (p1 @ p2))" "cm_pending (w_db w) p1 p2"
    "cm_guarded (w_cm w) (w_unsaved w)" using assms(1) by (auto simp: w_ok_def)
  from assms(2) [OF p(1)] obtain r cm' where r: "act = Some (r, cm')"
    "cm_ok cm' (case r of None \<Rightarrow> w_handles w | Some a \<Rightarrow> w_handles w @ [a]) (map fst (p1 @ p2))"
    "\<forall>k. case cm_obj (w_cm w) k of None \<Rightarrow> True | Some ob \<Rightarrow> \<exists>ob'. cm_obj cm' k = Some ob' \<and> co_dirty ob' = co_dirty ob \<and>
        (co_useCount ob > 0 \<longrightarrow> co_useCount ob' > 0)" by blast
  have "cm_guarded cm' (w_unsaved w)"
    by (rule cm_guarded_mono [OF p(3)]) (use r(3) in \<open>fastforce split: option.splits\<close>)
  then have "w_ok (cm_hold w (r, cm'))" using r(2) p(2) by (auto simp: w_ok_def cm_hold_def)
  moreover have "length (w_handles (cm_hold w (r, cm'))) \<le> Suc (length (w_handles w))"
    by (cases r) (auto simp: cm_hold_def)
  ultimately show ?thesis using r(1) by simp
qed

lemma w_ok_Change:
  assumes "w_ok w" "i < length (w_handles w)"
  shows "\<exists>w'. cm_exec C sv (CE_Change i f) w = Some w' \<and> w_ok w' \<and> w_handles w' = w_handles w"
proof -
  obtain p1 p2 where p: "cm_ok (w_cm w) (w_handles w) (map fst (p1 @ p2))" "cm_pending (w_db w) p1 p2"
    "cm_guarded (w_cm w) (w_unsaved w)" using assms(1) by (auto simp: w_ok_def)
  let ?a = "w_handles w ! i" and ?H = "w_handles w" and ?P = "map fst (p1 @ p2)"
  have a: "?a \<in> set ?H" using assms(2) by simp
  then obtain ob where ob: "cm_heap (w_cm w) ?a = Some ob" using cm_ok_handle [OF p(1)] by blast
  note h = cm_ok_heap [OF p(1) ob]
  let ?ob = "ob\<lparr>co_data := f (co_data ob)\<rparr>"
  have set: "cm_ok (cm_set ?a ?ob (w_cm w)) ?H ?P" "cm_obj (cm_set ?a ?ob (w_cm w)) = (cm_obj (w_cm w))(co_cacheId ob \<mapsto> ?ob)"
    using cm_ok_set [OF p(1) ob, of ?ob ?H ?P] h p(1) by (auto simp: cm_ok_def)
  have "unat (co_useCount ob) \<noteq> 0" using h a by (auto simp: count_list_0_iff)
  then have "co_useCount ob > 0" by (simp add: word_less_nat_alt)
  then have "cm_guarded (cm_set ?a ?ob (w_cm w)) (insert (co_cacheId ob) (w_unsaved w))"
    using p(3) set(2) by (auto simp: cm_guarded_def)
  then show ?thesis using assms(2) ob set(1) p(2) by (auto simp: w_ok_def Let_def)
qed

lemma w_ok_Release:
  assumes "w_ok w" "i < length (w_handles w)"
  shows "\<exists>w'. cm_exec C sv (CE_Release i) w = Some w' \<and> w_ok w' \<and> length (w_handles w') \<le> length (w_handles w)"
proof -
  obtain p1 p2 where p: "cm_ok (w_cm w) (w_handles w) (map fst (p1 @ p2))" "cm_pending (w_db w) p1 p2"
    "cm_guarded (w_cm w) (w_unsaved w)" using assms(1) by (auto simp: w_ok_def)
  have "w_handles w ! i \<in> set (w_handles w)" using assms(2) by simp
  from cm_AutoRelease_ok [OF p(1) this, of True] obtain cm' where
    r: "cm_Detach (Some (w_handles w ! i)) True (w_cm w) = Some cm'" "cm_ok cm' (remove1 (w_handles w ! i) (w_handles w)) (map fst (p1 @ p2))"
      "\<forall>k. case cm_obj (w_cm w) k of None \<Rightarrow> True | Some ob \<Rightarrow> \<exists>ob'. cm_obj cm' k = Some ob' \<and>
        (co_dirty ob \<longrightarrow> co_dirty ob') \<and> (co_useCount ob > 0 \<longrightarrow> co_useCount ob' > 0 \<or> co_dirty ob')" by blast
  have "cm_guarded cm' (w_unsaved w)" by (rule cm_guarded_mono [OF p(3) r(3)])
  then show ?thesis using assms(2) r(1,2) p(2) by (auto simp: w_ok_def length_remove1)
qed


lemma w_ok_Update:
  assumes "w_ok w"
  shows "\<exists>w'. cm_exec C sv CE_Update w = Some w' \<and> w_ok w' \<and> w_handles w' = w_handles w"
proof -
  obtain p1 p2 where p: "cm_ok (w_cm w) (w_handles w) (map fst (p1 @ p2))" "cm_pending (w_db w) p1 p2"
    "cm_guarded (w_cm w) (w_unsaved w)" using assms by (auto simp: w_ok_def)
  let ?H = "w_handles w"
  obtain db1 cm1 q1 q2 where c: "(if cm_dbUpdateAuto (w_cm w) then cm_results (w_db w) (w_cm w) else Some (w_db w, w_cm w)) = Some (db1, cm1)"
    "cm_ok cm1 ?H (map fst (q1 @ q2))" "cm_pending db1 q1 q2" "cm_guarded cm1 (w_unsaved w)"
  proof (cases "cm_dbUpdateAuto (w_cm w)")
    case True
    from cm_results_ok [OF p(1,2)] obtain db1 cm1 where
      r: "cm_results (w_db w) (w_cm w) = Some (db1, cm1)" "cm_ok cm1 ?H (map fst p2)" "cm_pending db1 [] p2"
        "\<forall>k. cm_obj cm1 k = map_option (\<lambda>ob. if k \<in> set (map fst p1)
        then ob\<lparr>co_inPersistence := False, co_persistenceTime := cm_clock (w_cm w)\<rparr> else ob) (cm_obj (w_cm w) k)" by blast
    have "cm_guarded cm1 (w_unsaved w)"
      by (rule cm_guarded_mono [OF p(3)]) (use r(4) in \<open>auto split: option.splits\<close>)
    then show thesis using that [of db1 cm1 "[]" p2] r True by simp
  next
    case False
    then show thesis using that [of "w_db w" "w_cm w" p1 p2] p by simp
  qed
  note e = cm_map_entries [OF c(2)]
  let ?ks = "map fst (cm_cacheMap cm1)"
  from cm_update_loop_ok [OF c(2,3) conjunct1 [OF e] conjunct2 [OF e], of sv] obtain db2 cm2 where
    l: "cm_update_loop sv (cm_cacheMap cm1) db1 cm1 = Some (db2, cm2)"
      "cm_ok cm2 ?H (map fst (q1 @ q2 @ cm_submits sv cm1 ?ks))" "cm_pending db2 q1 (q2 @ cm_submits sv cm1 ?ks)"
      "\<forall>k. cm_obj cm2 k = (if k \<in> fst ` set (cm_cacheMap cm1) then Option.bind (cm_obj cm1 k) (cm_pass cm1) else cm_obj cm1 k)"
    by blast
  let ?U = "w_unsaved w - fst ` set (cm_submits sv cm1 ?ks)"
  have "cm_guarded cm2 ?U"
    unfolding cm_guarded_def
  proof
    fix k assume k: "k \<in> ?U"
    then obtain ob where ob: "cm_obj cm1 k = Some ob" "co_useCount ob > 0 \<or> co_dirty ob"
      using c(4) by (auto simp: cm_guarded_def)
    have dom: "k \<in> fst ` set (cm_cacheMap cm1)" using cm_obj_dom [OF c(2), of k] ob(1) by simp
    then have "\<not> cm_save_due cm1 ob" using k ob(1) by (auto simp: cm_submits_keys)
    moreover have "\<not> cm_remove_due cm1 ob" using ob(2) by (auto simp: cm_remove_due_def)
    ultimately have "cm_obj cm2 k = Some ob" using l(4) dom ob(1) by (simp add: cm_pass_def)
    then show "\<exists>ob. cm_obj cm2 k = Some ob \<and> (co_useCount ob > 0 \<or> co_dirty ob)" using ob(2) by blast
  qed
  moreover have "cm_exec C sv CE_Update w = Some (w\<lparr>w_cm := cm2, w_db := db2, w_unsaved := ?U\<rparr>)"
    using c(1) l(1) by (simp add: cm_Update_def)
  moreover have "w_ok (w\<lparr>w_cm := cm2, w_db := db2, w_unsaved := ?U\<rparr>)" if "cm_guarded cm2 ?U"
    using l(2,3) that unfolding w_ok_def
    by (intro conjI exI [of _ q1] exI [of _ "q2 @ cm_submits sv cm1 ?ks"]) simp_all
  ultimately show ?thesis by (intro exI [of _ "w\<lparr>w_cm := cm2, w_db := db2, w_unsaved := ?U\<rparr>"]) simp
qed

lemma w_ok_exec:
  assumes ok: "w_ok w" and small: "Suc (length (w_handles w)) < 2 ^ 32"
  shows "\<exists>w'. cm_exec C sv e w = Some w' \<and> w_ok w' \<and> length (w_handles w') \<le> Suc (length (w_handles w))"
proof (cases e)
  case (CE_Attach key df ac ex ld)
  with w_ok_hold [OF ok cm_Attach_ok [OF _ small]] show ?thesis by simp
next
  case (CE_Find key)
  with w_ok_hold [OF ok cm_FindInCache_ok [OF _ small]] show ?thesis by simp
next
  case (CE_Change i f)
  with w_ok_Change [OF ok, of i C sv f] ok show ?thesis by (cases "i < length (w_handles w)") auto
next
  case (CE_Release i)
  with w_ok_Release [OF ok, of i C sv] ok show ?thesis by (cases "i < length (w_handles w)") (auto intro: le_SucI)
next
  case CE_Update
  obtain w' where "cm_exec C sv CE_Update w = Some w'" "w_ok w'" "w_handles w' = w_handles w"
    using w_ok_Update [OF ok] by blast
  with CE_Update show ?thesis by (intro exI [of _ w']) simp
next
  case CE_Work
  obtain p1 p2 where p: "cm_ok (w_cm w) (w_handles w) (map fst (p1 @ p2))" "cm_pending (w_db w) p1 p2"
    "cm_guarded (w_cm w) (w_unsaved w)" using ok by (auto simp: w_ok_def)
  from dt_step_pending [OF p(2)] obtain q1 q2 where
    q: "cm_pending (dt_step C (w_db w)) q1 q2" "map fst (q1 @ q2) = map fst (p1 @ p2)" by blast
  have "w_ok (w\<lparr>w_db := dt_step C (w_db w)\<rparr>)"
    using p(1,3) q(1) unfolding w_ok_def q(2) [symmetric] by auto
  with CE_Work show ?thesis by simp
next
  case (CE_Time t)
  have "cm_ok ((w_cm w)\<lparr>cm_clock := t\<rparr>) H P = cm_ok (w_cm w) H P" "cm_obj ((w_cm w)\<lparr>cm_clock := t\<rparr>) = cm_obj (w_cm w)" for H P
    by (simp_all add: cm_ok_def cm_obj_def fun_eq_iff)
  with CE_Time ok show ?thesis by (simp add: w_ok_def cm_guarded_def)
qed

lemma w_ok_run:
  "w_ok w \<Longrightarrow> length (w_handles w) + length es < 2 ^ 32 \<Longrightarrow> \<exists>w'. cm_run C sv es w = Some w' \<and> w_ok w'"
proof (induction es arbitrary: w)
  case (Cons e es)
  have "Suc (length (w_handles w)) < 2 ^ 32" using Cons.prems(2) by simp
  from w_ok_exec [OF Cons.prems(1) this, of C sv e] obtain w1 where
    w1: "cm_exec C sv e w = Some w1" "w_ok w1" "length (w_handles w1) \<le> Suc (length (w_handles w))" by blast
  have "length (w_handles w1) + length es < 2 ^ 32" using w1(3) Cons.prems(2) by simp
  from Cons.IH [OF w1(2) this] w1(1) show ?case by simp
qed simp

text \<open>The server after the statements of a batch, run one after the other on the synchronous connection.\<close>

definition cm_saved :: "('c, 'r) sql_connection \<Rightarrow> 'r query_batch \<Rightarrow> 'c \<Rightarrow> 'c" where
  "cm_saved C qs c = snd (qb_run C SyncConn [0..<length qs] qs c)"

text \<open>Nothing in a run touches the synchronous connection.\<close>

lemma db_DelayQueryBatch_sync: "db_syncConn (snd (db_DelayQueryBatch b cb db)) = db_syncConn db"
  by (auto simp: db_DelayQueryBatch_def qb_Execute_def dt_Delay_def split: option.splits)

lemma cm_update_loop_sync: "cm_update_loop sv its db cm = Some (db', cm') \<Longrightarrow> db_syncConn db' = db_syncConn db"
  by (induction sv its db cm rule: cm_update_loop.induct)
    (auto simp: Let_def cm_Persistence_def db_DelayQueryBatch_sync split: Option.bind_splits if_splits)

lemma cm_results_sync: "cm_results db cm = Some (db', cm') \<Longrightarrow> db_syncConn db' = db_syncConn db"
  by (auto simp: cm_results_def db_ProcessResultQueue_def split: option.splits)

lemma cm_exec_sync: "cm_exec C sv e w = Some w' \<Longrightarrow> db_syncConn (w_db w') = db_syncConn (w_db w)"
proof (cases e)
  case CE_Update
  assume "cm_exec C sv e w = Some w'"
  with CE_Update show ?thesis
    by (auto simp: cm_Update_def split: Option.bind_splits if_splits dest!: cm_results_sync cm_update_loop_sync)
qed (auto simp: cm_hold_def dt_step_def split_beta Let_def split: Option.bind_splits if_splits option.splits list.splits)

lemma cm_run_sync: "cm_run C sv es w = Some w' \<Longrightarrow> db_syncConn (w_db w') = db_syncConn (w_db w)"
  by (induction es arbitrary: w) (auto dest!: cm_exec_sync split: Option.bind_splits)

lemma cm_shutdown_loop_ok:
  "db_syncConn db \<Longrightarrow> cm_ok cm [] P \<Longrightarrow> set its \<subseteq> set (cm_cacheMap cm) \<Longrightarrow> distinct (map fst its) \<Longrightarrow> h = cm_heap cm \<Longrightarrow>
   cm_heap cm' = (\<lambda>a. if \<exists>k. (k, a) \<in> set its then h a else None) \<Longrightarrow> cm_cacheMap cm' = cm_cacheMap cm \<Longrightarrow>
   \<exists>cm''. cm_shutdown_loop C sv its db cm' =
     Some (db\<lparr>db_server := fold (cm_saved C)
                 [cm_MakeSQL sv ob. (k, a) \<leftarrow> its, ob \<leftarrow> (case h a of None \<Rightarrow> [] | Some ob \<Rightarrow> [ob]), co_dirty ob] (db_server db)\<rparr>, cm'') \<and>
     cm_heap cm'' = (\<lambda>_. None)"
proof (induction its arbitrary: cm' db)
  case Nil
  then show ?case by simp
next
  case (Cons x its)
  obtain k a where x: "x = (k, a)" by fastforce
  have m: "map_of (cm_cacheMap cm) k = Some a"
    using Cons.prems(2,3) x by (auto simp: cm_ok_def omap_ok_distinct)
  obtain ob where ob: "h a = Some ob" "co_cacheId ob = k" using cm_ok_map [OF Cons.prems(2) m] Cons.prems(5) by blast
  have use: "co_useCount ob = 0" using cm_ok_heap [OF Cons.prems(2), of a ob] ob(1) Cons.prems(5) by (simp add: unat_eq_0)
  have no: "\<not> (\<exists>k'. (k', a) \<in> set its)"
  proof clarify
    fix k' assume i: "(k', a) \<in> set its"
    then have "map_of (cm_cacheMap cm) k' = Some a" using Cons.prems(2,3) by (auto simp: cm_ok_def omap_ok_distinct)
    then have "k' = k" using cm_ok_map [OF Cons.prems(2), of k' a] ob Cons.prems(5) by auto
    then show False using i Cons.prems(4) x by force
  qed
  let ?db = "if co_dirty ob then db\<lparr>db_server := cm_saved C (cm_MakeSQL sv ob) (db_server db)\<rparr> else db"
  have "cm_heap cm' a = Some ob" using Cons.prems(6) ob(1) x by auto
  then have step: "cm_shutdown_loop C sv (x # its) db cm' = cm_shutdown_loop C sv its ?db (cm_delete a cm')"
    using use x Cons.prems(1) by (simp add: qb_ExecuteDirect_sync cm_saved_def)
  have sync: "db_syncConn ?db" using Cons.prems(1) by simp
  have "cm_heap (cm_delete a cm') = (\<lambda>b. if \<exists>k. (k, b) \<in> set its then h b else None)"
    using Cons.prems(6) no x by (auto simp: cm_delete_def fun_eq_iff)
  from Cons.IH [OF sync Cons.prems(2) _ _ Cons.prems(5) this] Cons.prems(3,4,7) obtain cm'' where
    r: "cm_shutdown_loop C sv its ?db (cm_delete a cm') =
     Some (?db\<lparr>db_server := fold (cm_saved C)
                 [cm_MakeSQL sv ob. (k, a) \<leftarrow> its, ob \<leftarrow> (case h a of None \<Rightarrow> [] | Some ob \<Rightarrow> [ob]), co_dirty ob] (db_server ?db)\<rparr>, cm'')"
    "cm_heap cm'' = (\<lambda>_. None)" by (auto simp: cm_delete_def)
  show ?case using r ob x unfolding step by (cases "co_dirty ob") auto
qed


section \<open>Properties\<close>

definition w_init :: "uint32 \<Rightarrow> uint32 \<Rightarrow> bool \<Rightarrow> int \<Rightarrow> ('c, 'r, 'd) cache_db \<Rightarrow> ('c, 'r, 'd) cm_world" where
  "w_init interval delay dbUpdateAuto clock db =
     \<lparr>w_cm = cm_new interval delay dbUpdateAuto clock, w_db = db, w_handles = [], w_unsaved = {}\<rparr>"

lemma w_ok_init: "db_results db = Some [] \<Longrightarrow> db_thread db = Some [] \<Longrightarrow> w_ok (w_init i d u c db)"
  using cm_ok_new [of i d u c] unfolding w_ok_def w_init_def
  by (auto simp: cm_pending_def cm_guarded_def intro!: exI [of _ "[]"])

text \<open>
  C1: the cache never loses an object in use. Over an idle, started database, whatever sequence of
  attachments, look-ups, changes, releases, updates and steps of the delay thread (fewer than
  2^32): no assertion fails and no freed object is touched, every shared pointer still points to the object
  that is cached under its key, with the number of its pointers as use count, and an object changed since its last submitted
  batch is in the cache, in use or marked dirty, so that a later update or the shutdown saves it.
\<close>

theorem cache_keeps_objects:
  assumes "db_results db = Some []" "db_thread db = Some []" "length es < 2 ^ 32"
  shows "\<exists>w. cm_run C sv es (w_init interval delay auto clock db) = Some w \<and>
     (\<forall>a \<in> set (w_handles w). \<exists>ob. cm_heap (w_cm w) a = Some ob \<and>
        cm_obj (w_cm w) (co_cacheId ob) = Some ob \<and> unat (co_useCount ob) = count_list (w_handles w) a) \<and>
     (\<forall>k \<in> w_unsaved w. \<exists>ob. cm_obj (w_cm w) k = Some ob \<and> (co_useCount ob > 0 \<or> co_dirty ob))"
proof -
  have "length (w_handles (w_init interval delay auto clock db)) + length es < 2 ^ 32"
    using assms(3) by (simp add: w_init_def)
  from w_ok_run [OF w_ok_init [OF assms(1,2)] this] obtain w where
    w: "cm_run C sv es (w_init interval delay auto clock db) = Some w" "w_ok w" by blast
  then obtain P where ok: "cm_ok (w_cm w) (w_handles w) P" "cm_guarded (w_cm w) (w_unsaved w)" by (auto simp: w_ok_def)
  have "\<exists>ob. cm_heap (w_cm w) a = Some ob \<and> cm_obj (w_cm w) (co_cacheId ob) = Some ob \<and>
      unat (co_useCount ob) = count_list (w_handles w) a" if "a \<in> set (w_handles w)" for a
    using cm_ok_handle [OF ok(1) that] cm_obj_heap [OF ok(1)] cm_ok_heap [OF ok(1)] by blast
  with w(1) ok(2) show ?thesis by (auto simp: cm_guarded_def)
qed

text \<open>
  Without the synchronous connection (before \<^verbatim>\<open>Initialize\<close>, after \<^verbatim>\<open>StopServer\<close>) the first dirty object that has a
  statement to save stops the shutdown: \<^verbatim>\<open>Database::Query\<close> dereferences the null connection.
\<close>

lemma shutdown_without_connection:
  assumes "cm_heap cm a = Some ob" "co_useCount ob = 0" "co_dirty ob" "\<not> db_syncConn db"
    and "i < length (cm_MakeSQL sv ob)" "fst (cm_MakeSQL sv ob ! i) \<noteq> None"
  shows "cm_shutdown_loop C sv ((key, a) # its) db cm = None"
  using assms qb_ExecuteDirect_null [OF assms(4-6)] by simp

text \<open>
  C19: shutdown. Over an idle, started database whose synchronous connection exists, when every shared
  pointer has been released after such a run (fewer than 2^32 events), \<open>Shutdown\<close> completes: it saves
  the dirty objects synchronously in key order, the statements of each one after the other, every object
  with unsaved changes among them, frees all objects and leaves the
  cache empty, as its destructor asserts.
\<close>

theorem cache_shutdown:
  assumes "db_results db = Some []" "db_thread db = Some []" "length es < 2 ^ 32" "db_syncConn db"
    and "cm_run C sv es (w_init interval delay auto clock db) = Some w" "w_handles w = []"
  shows "\<exists>db1 cm1 db2 cm2. cm_results (w_db w) (w_cm w) = Some (db1, cm1) \<and> cm_Shutdown C sv (w_db w) (w_cm w) = Some (db2, cm2) \<and>
     db_server db2 = fold (cm_saved C)
       [cm_MakeSQL sv ob. k \<leftarrow> map fst (cm_cacheMap cm1), ob \<leftarrow> (case cm_obj cm1 k of None \<Rightarrow> [] | Some ob \<Rightarrow> [ob]), co_dirty ob] (db_server db1) \<and>
     (\<forall>k \<in> w_unsaved w. \<exists>ob. cm_obj cm1 k = Some ob \<and> co_dirty ob) \<and>
     cm_heap cm2 = (\<lambda>_. None) \<and> cm_destroy cm2 = Some ()"
proof -
  note prems = assms(1-3,5,6)
  have "length (w_handles (w_init interval delay auto clock db)) + length es < 2 ^ 32"
    using prems(3) by (simp add: w_init_def)
  from w_ok_run [OF w_ok_init [OF prems(1,2)] this] prems(4) have "w_ok w" by (metis option.inject)
  then obtain p1 p2 where p: "cm_ok (w_cm w) [] (map fst (p1 @ p2))" "cm_pending (w_db w) p1 p2"
    "cm_guarded (w_cm w) (w_unsaved w)" using prems(5) by (auto simp: w_ok_def)
  from cm_results_ok [OF p(1,2)] obtain db1 cm1 where
    r: "cm_results (w_db w) (w_cm w) = Some (db1, cm1)" "cm_ok cm1 [] (map fst p2)"
      "\<forall>k. cm_obj cm1 k = map_option (\<lambda>ob. if k \<in> set (map fst p1)
        then ob\<lparr>co_inPersistence := False, co_persistenceTime := cm_clock (w_cm w)\<rparr> else ob) (cm_obj (w_cm w) k)" by blast
  have unsaved: "\<exists>ob. cm_obj cm1 k = Some ob \<and> co_dirty ob" if "k \<in> w_unsaved w" for k
  proof -
    obtain ob where ob: "cm_obj (w_cm w) k = Some ob" "co_useCount ob > 0 \<or> co_dirty ob"
      using p(3) \<open>k \<in> w_unsaved w\<close> by (auto simp: cm_guarded_def)
    then obtain a where "cm_heap (w_cm w) a = Some ob" by (auto simp: cm_obj_def split: Option.bind_splits)
    from cm_ok_heap [OF p(1) this] have "unat (co_useCount ob) = 0" by simp
    then have "co_dirty ob" using ob(2) by (simp add: unat_eq_0)
    then show ?thesis using r(3) ob(1) by simp
  qed
  let ?m = "cm_cacheMap cm1" and ?h = "cm_heap cm1"
  have ent: "map_of ?m k = Some a" if "(k, a) \<in> set ?m" for k a using cm_map_entries [OF r(2)] that by auto
  have heap: "?h = (\<lambda>a. if \<exists>k. (k, a) \<in> set ?m then ?h a else None)"
  proof
    fix a
    show "?h a = (if \<exists>k. (k, a) \<in> set ?m then ?h a else None)"
      using cm_ok_heap [OF r(2), of a] by (cases "?h a") (auto dest: map_of_SomeD)
  qed
  have sync: "db_syncConn db1"
    using cm_results_sync [OF r(1)] cm_run_sync [OF prems(4)] assms(4) by (simp add: w_init_def)
  from cm_shutdown_loop_ok [OF sync r(2) order_refl conjunct1 [OF cm_map_entries [OF r(2)]] refl heap refl, of C sv] obtain cm2 where
    sd: "cm_shutdown_loop C sv ?m db1 cm1 =
     Some (db1\<lparr>db_server := fold (cm_saved C)
                 [cm_MakeSQL sv ob. (k, a) \<leftarrow> ?m, ob \<leftarrow> (case ?h a of None \<Rightarrow> [] | Some ob \<Rightarrow> [ob]), co_dirty ob] (db_server db1)\<rparr>, cm2)"
    "cm_heap cm2 = (\<lambda>_. None)" by blast
  have "[cm_MakeSQL sv ob. k \<leftarrow> map fst ?m, ob \<leftarrow> (case cm_obj cm1 k of None \<Rightarrow> [] | Some ob \<Rightarrow> [ob]), co_dirty ob] =
    [cm_MakeSQL sv ob. (k, a) \<leftarrow> ?m, ob \<leftarrow> (case ?h a of None \<Rightarrow> [] | Some ob \<Rightarrow> [ob]), co_dirty ob]"
    using ent by (auto simp: cm_obj_def intro!: arg_cong [where f = concat])
  with r(1) sd unsaved show ?thesis by (auto simp: cm_Shutdown_def cm_destroy_def)
qed

text \<open>A cached class whose data is a number, saved as one statement.\<close>

definition cm_demo_sv :: "(nat, nat) saver" where
  "cm_demo_sv idx d batch = snd (qb_PushQuery (dec_str d) batch)"

definition cm_demo_db :: "(string list list, nat, nat) cache_db" where
  "cm_demo_db = (db_new [[]])\<lparr>db_results := Some [], db_thread := Some [], db_syncConn := True, db_asyncConn := True\<rparr>"

definition cm_demo_events :: "nat cm_event list" where
  "cm_demo_events =
     [CE_Attach 7 [True] True (\<lambda>c k. (True, 0)) (\<lambda>i d. (True, True, d + 5)), CE_Change 0 (\<lambda>d. d + 1), CE_Find 7,
      CE_Time 500, CE_Update, CE_Work, CE_Change 0 (\<lambda>d. d * 2), CE_Release 0, CE_Update, CE_Release 0]"

theorem cache_keeps_objects_witness:
  "\<exists>w. cm_run demo_conn cm_demo_sv cm_demo_events (w_init 180 120 True 10 cm_demo_db) = Some w \<and>
     (\<forall>a \<in> set (w_handles w). \<exists>ob. cm_heap (w_cm w) a = Some ob \<and>
        cm_obj (w_cm w) (co_cacheId ob) = Some ob \<and> unat (co_useCount ob) = count_list (w_handles w) a) \<and>
     (\<forall>k \<in> w_unsaved w. \<exists>ob. cm_obj (w_cm w) k = Some ob \<and> (co_useCount ob > 0 \<or> co_dirty ob))"
  by (rule cache_keeps_objects) (simp_all add: cm_demo_db_def cm_demo_events_def)

lemma cm_demo_run:
  "map_option w_handles (cm_run demo_conn cm_demo_sv cm_demo_events (w_init 180 120 True 10 cm_demo_db)) = Some []"
  by code_simp

theorem cache_shutdown_witness:
  "\<exists>w db1 cm1 db2 cm2. cm_run demo_conn cm_demo_sv cm_demo_events (w_init 180 120 True 10 cm_demo_db) = Some w \<and>
     cm_results (w_db w) (w_cm w) = Some (db1, cm1) \<and> cm_Shutdown demo_conn cm_demo_sv (w_db w) (w_cm w) = Some (db2, cm2) \<and>
     db_server db2 = fold (cm_saved demo_conn)
       [cm_MakeSQL cm_demo_sv ob. k \<leftarrow> map fst (cm_cacheMap cm1), ob \<leftarrow> (case cm_obj cm1 k of None \<Rightarrow> [] | Some ob \<Rightarrow> [ob]), co_dirty ob] (db_server db1) \<and>
     (\<forall>k \<in> w_unsaved w. \<exists>ob. cm_obj cm1 k = Some ob \<and> co_dirty ob) \<and>
     cm_heap cm2 = (\<lambda>_. None) \<and> cm_destroy cm2 = Some ()"
proof -
  obtain w where w: "cm_run demo_conn cm_demo_sv cm_demo_events (w_init 180 120 True 10 cm_demo_db) = Some w" "w_handles w = []"
    using cm_demo_run by auto
  have "length cm_demo_events < 2 ^ 32" by (simp add: cm_demo_events_def)
  from cache_shutdown [OF _ _ this _ w] w(1) show ?thesis by (auto simp: cm_demo_db_def)
qed

end
