(* ===== verification/Any_Type.thy ===== *)
theory Any_Type
  imports Byte_Buffer
begin

text \<open>
  The dynamically typed values of pitayaserver/framework: \<^verbatim>\<open>AnyType\<close> (AnyType.h, AnyType.cpp) and its
  stream operators (DynamicStruct.h).

  An \<^verbatim>\<open>AnyType\<close> is a type tag and an eight-byte union; the model is a datatype with one
  constructor per tag, its scalar in the union's field for that tag. Objects are owned and
  copied with the value, so they are part of the datatype; \<^const>\<open>None\<close> is the null pointer that
  \<open>clear\<close> leaves. Floating-point numbers are their bits.
\<close>

section \<open>AnyType\<close>

datatype any_type =
  AT_Int8 "8 word" | AT_UInt8 uint8 | AT_Int16 "16 word" | AT_UInt16 uint16
| AT_Int32 "32 word" | AT_UInt32 uint32 | AT_Int64 "64 word" | AT_UInt64 uint64
| AT_Float "32 word" | AT_Double "64 word"
| AT_PString "64 word" | AT_PVoid "64 word"
| AT_String "string option"
| AT_Vector "any_type list option"
| AT_Map1A "(uint8 \<times> any_type) list option"
| AT_MapAA "(any_type \<times> any_type) list option"
| AT_Unknown "64 word"

fun at_type :: "any_type \<Rightarrow> uint8" where
  "at_type (AT_Int8 _) = 0x01" | "at_type (AT_UInt8 _) = 0x02"
| "at_type (AT_Int16 _) = 0x03" | "at_type (AT_UInt16 _) = 0x04"
| "at_type (AT_Int32 _) = 0x05" | "at_type (AT_UInt32 _) = 0x06"
| "at_type (AT_Int64 _) = 0x07" | "at_type (AT_UInt64 _) = 0x08"
| "at_type (AT_Float _) = 0x21" | "at_type (AT_Double _) = 0x22"
| "at_type (AT_PString _) = 0x41" | "at_type (AT_PVoid _) = 0x42"
| "at_type (AT_String _) = 0x61" | "at_type (AT_Vector _) = 0x62"
| "at_type (AT_Map1A _) = 0x63" | "at_type (AT_MapAA _) = 0x64"
| "at_type (AT_Unknown _) = 0x80"

definition eAnyTypeMask :: uint8 where "eAnyTypeMask = 0xe0"

unbundle bit_operations_syntax

definition isAnyTypeInteger :: "uint8 \<Rightarrow> bool" where
  "isAnyTypeInteger e \<longleftrightarrow> e AND eAnyTypeMask = 0x00"

definition isAnyTypeRealNumber :: "uint8 \<Rightarrow> bool" where
  "isAnyTypeRealNumber e \<longleftrightarrow> e AND eAnyTypeMask = 0x20"

definition isAnyTypePointer :: "uint8 \<Rightarrow> bool" where
  "isAnyTypePointer e \<longleftrightarrow> e AND eAnyTypeMask = 0x40"

definition isAnyTypeObject :: "uint8 \<Rightarrow> bool" where
  "isAnyTypeObject e \<longleftrightarrow> e AND eAnyTypeMask = 0x60"

definition isAnyTypeUnknown :: "uint8 \<Rightarrow> bool" where
  "isAnyTypeUnknown e \<longleftrightarrow> e AND eAnyTypeMask = 0x80"

definition at_new :: any_type where
  "at_new = AT_PVoid 0"

text \<open>
  \<open>clear\<close> deletes an object and leaves the tag; \<open>set\<close> of another value clears and copies, so
  the result is that value whatever was there. \<open>del\<close> frees what a pointer points to.
\<close>

definition at_clear :: "any_type \<Rightarrow> any_type" where
  "at_clear a =
     (if isAnyTypeObject (at_type a)
      then (case a of AT_String _ \<Rightarrow> AT_String None | AT_Vector _ \<Rightarrow> AT_Vector None
            | AT_Map1A _ \<Rightarrow> AT_Map1A None | AT_MapAA _ \<Rightarrow> AT_MapAA None | _ \<Rightarrow> a)
      else a)"

definition at_set :: "any_type \<Rightarrow> any_type \<Rightarrow> any_type" where
  "at_set a rhs = rhs"

definition at_del :: "any_type \<Rightarrow> any_type" where
  "at_del a =
     (if isAnyTypePointer (at_type a)
      then (case a of AT_PString _ \<Rightarrow> AT_PString 0 | AT_PVoid _ \<Rightarrow> AT_PVoid 0 | _ \<Rightarrow> a) else a)"

text \<open>IEEE 754 equality of two doubles, on their bits.\<close>

definition f64_nan :: "64 word \<Rightarrow> bool" where
  "f64_nan x \<longleftrightarrow> x AND 0x7fffffffffffffff > 0x7ff0000000000000"

definition f64_eq :: "64 word \<Rightarrow> 64 word \<Rightarrow> bool" where
  "f64_eq x y \<longleftrightarrow> \<not> f64_nan x \<and> \<not> f64_nan y \<and>
     (x = y \<or> x AND 0x7fffffffffffffff = 0 \<and> y AND 0x7fffffffffffffff = 0)"

text \<open>
  \<open>operator==\<close>, and \<open>isObjectEqual\<close> on two distinct objects. What is not of 8, 16 or 64 bits or a
  double is compared in \<^verbatim>\<open>m_int32\<close>: floats by their bits, pointers by their low 32 bits.
\<close>

lemma at_size_elem: "x \<in> set xs \<Longrightarrow> size x < Suc (Suc (size_list size xs))"
  using size_list_estimation' [of x xs "size x" size] by simp

lemma at_size_snd: "(a, b) \<in> set ps \<Longrightarrow> size b < Suc (Suc (size_list (size_prod f size) ps))"
  using size_list_estimation' [OF _ order_refl, of "(a, b)" ps "size_prod f size"] by simp

lemma at_size_fst: "(a, b) \<in> set ps \<Longrightarrow> size a < Suc (Suc (size_list (size_prod size f) ps))"
  using size_list_estimation' [OF _ order_refl, of "(a, b)" ps "size_prod size f"] by simp

function at_eq :: "any_type \<Rightarrow> any_type \<Rightarrow> bool" where
  "at_eq (AT_Int8 x) b = (case b of AT_Int8 y \<Rightarrow> x = y | _ \<Rightarrow> False)"
| "at_eq (AT_UInt8 x) b = (case b of AT_UInt8 y \<Rightarrow> x = y | _ \<Rightarrow> False)"
| "at_eq (AT_Int16 x) b = (case b of AT_Int16 y \<Rightarrow> x = y | _ \<Rightarrow> False)"
| "at_eq (AT_UInt16 x) b = (case b of AT_UInt16 y \<Rightarrow> x = y | _ \<Rightarrow> False)"
| "at_eq (AT_Int32 x) b = (case b of AT_Int32 y \<Rightarrow> x = y | _ \<Rightarrow> False)"
| "at_eq (AT_UInt32 x) b = (case b of AT_UInt32 y \<Rightarrow> x = y | _ \<Rightarrow> False)"
| "at_eq (AT_Int64 x) b = (case b of AT_Int64 y \<Rightarrow> x = y | _ \<Rightarrow> False)"
| "at_eq (AT_UInt64 x) b = (case b of AT_UInt64 y \<Rightarrow> x = y | _ \<Rightarrow> False)"
| "at_eq (AT_Float x) b = (case b of AT_Float y \<Rightarrow> x = y | _ \<Rightarrow> False)"
| "at_eq (AT_Double x) b = (case b of AT_Double y \<Rightarrow> f64_eq x y | _ \<Rightarrow> False)"
| "at_eq (AT_PString x) b = (case b of AT_PString y \<Rightarrow> (ucast x :: 32 word) = ucast y | _ \<Rightarrow> False)"
| "at_eq (AT_PVoid x) b = (case b of AT_PVoid y \<Rightarrow> (ucast x :: 32 word) = ucast y | _ \<Rightarrow> False)"
| "at_eq (AT_Unknown x) b = (case b of AT_Unknown y \<Rightarrow> (ucast x :: 32 word) = ucast y | _ \<Rightarrow> False)"
| "at_eq (AT_String x) b =
     (case b of
        AT_String y \<Rightarrow>
          (case (x, y) of (None, None) \<Rightarrow> True | (Some xs, Some ys) \<Rightarrow> xs = ys | _ \<Rightarrow> False)
      | _ \<Rightarrow> False)"
| "at_eq (AT_Vector x) b =
     (case b of
        AT_Vector y \<Rightarrow>
          (case (x, y) of (None, None) \<Rightarrow> True | (Some xs, Some ys) \<Rightarrow> list_all2 at_eq xs ys | _ \<Rightarrow> False)
      | _ \<Rightarrow> False)"
| "at_eq (AT_Map1A x) b =
     (case b of
        AT_Map1A y \<Rightarrow>
          (case (x, y) of (None, None) \<Rightarrow> True | (Some xs, Some ys) \<Rightarrow> list_all2 (\<lambda>p q. fst p = fst q \<and> at_eq (snd p) (snd q)) xs ys | _ \<Rightarrow> False)
      | _ \<Rightarrow> False)"
| "at_eq (AT_MapAA x) b =
     (case b of
        AT_MapAA y \<Rightarrow>
          (case (x, y) of (None, None) \<Rightarrow> True | (Some xs, Some ys) \<Rightarrow> list_all2 (\<lambda>p q. at_eq (fst p) (fst q) \<and> at_eq (snd p) (snd q)) xs ys | _ \<Rightarrow> False)
      | _ \<Rightarrow> False)"
  by pat_completeness auto
termination
  by (relation "measure (\<lambda>(x, y). size x)") (auto simp: at_size_elem at_size_snd at_size_fst)

section \<open>The stream operators\<close>

text \<open>
  Reading follows the tag and leaves \<open>rhs\<close> as it is for a tag it does not know (the map from
  \<^verbatim>\<open>AnyType\<close> to \<^verbatim>\<open>AnyType\<close> and pointers among them); elements are read into default values.
  \<open>dec\<close> is the recursive call; the depth of the recursion is that of the nested containers.
\<close>

type_synonym 'z at_reader = "any_type \<Rightarrow> 'z byte_buffer_scheme \<Rightarrow> (any_type \<times> 'z byte_buffer_scheme) option"

definition at_read_with :: "'z at_reader \<Rightarrow> 'z at_reader" where
  "at_read_with dec rhs b =
     do { (ty, b) \<leftarrow> bb_get_u8 b;
          if ty = 0x01 then do { (v, b) \<leftarrow> bb_get_i8 b; Some (at_set rhs (AT_Int8 v), b) }
          else if ty = 0x03 then do { (v, b) \<leftarrow> bb_get_i16 b; Some (at_set rhs (AT_Int16 v), b) }
          else if ty = 0x05 then do { (v, b) \<leftarrow> bb_get_i32 b; Some (at_set rhs (AT_Int32 v), b) }
          else if ty = 0x02 then do { (v, b) \<leftarrow> bb_get_u8 b; Some (at_set rhs (AT_UInt8 v), b) }
          else if ty = 0x04 then do { (v, b) \<leftarrow> bb_get_u16 b; Some (at_set rhs (AT_UInt16 v), b) }
          else if ty = 0x06 then do { (v, b) \<leftarrow> bb_get_u32 b; Some (at_set rhs (AT_UInt32 v), b) }
          else if ty = 0x21 then do { (v, b) \<leftarrow> bb_get_f32 b; Some (at_set rhs (AT_Float v), b) }
          else if ty = 0x22 then do { (v, b) \<leftarrow> bb_get_f64 b; Some (at_set rhs (AT_Double v), b) }
          else if ty = 0x61 then do { (v, b) \<leftarrow> bb_get_str b; Some (at_set rhs (AT_String (Some v)), b) }
          else if ty = 0x62 then do { (v, b) \<leftarrow> bb_get_vec (dec at_new) b; Some (at_set rhs (AT_Vector (Some v)), b) }
          else if ty = 0x63 then do { (v, b) \<leftarrow> bb_get_map bb_get_u8 (dec at_new) b; Some (at_set rhs (AT_Map1A (Some v)), b) }
          else if ty = 0x07 then do { (v, b) \<leftarrow> bb_get_i64 b; Some (at_set rhs (AT_Int64 v), b) }
          else if ty = 0x08 then do { (v, b) \<leftarrow> bb_get_u64 b; Some (at_set rhs (AT_UInt64 v), b) }
          else Some (rhs, b) }"

lemma bind_pair_mono:
  assumes "mono_option B" "\<And>x y. mono_option (\<lambda>f. C x y f)"
  shows "mono_option (\<lambda>f. Option.bind (B f) (\<lambda>(x, y). C x y f))"
proof -
  have "mono_option (\<lambda>f. case p of (x, y) \<Rightarrow> C x y f)" for p
    using assms(2) by (cases p) simp
  then show ?thesis by (rule bind_mono [OF assms(1)])
qed

lemma bb_get_each_mono:
  assumes "\<And>b. mono_option (\<lambda>f. get f b)"
  shows "mono_option (\<lambda>f. bb_get_each (get f) n b)"
proof (induction n arbitrary: b)
  case 0
  show ?case by (simp add: partial_function_mono)
next
  case (Suc n)
  show ?case
    unfolding bb_get_each.simps
    by (intro bind_pair_mono assms Suc.IH) (simp add: partial_function_mono)
qed

lemma bb_get_vec_mono:
  assumes "\<And>b. mono_option (\<lambda>f. get f b)"
  shows "mono_option (\<lambda>f. bb_get_vec (get f) b)"
  unfolding bb_get_vec_def
  by (intro bind_pair_mono bb_get_each_mono assms) (simp add: partial_function_mono)

lemma bb_get_map_mono:
  assumes "\<And>b. mono_option (\<lambda>f. getv f b)"
  shows "mono_option (\<lambda>f. bb_get_map getk (getv f) b)"
proof -
  have "mono_option (\<lambda>f. bb_get_pair getk (getv f) b)" for b
    unfolding bb_get_pair_def by (intro bind_pair_mono assms) (simp_all add: partial_function_mono)
  then show ?thesis
    unfolding bb_get_map_def by (intro bind_pair_mono bb_get_each_mono) (simp_all add: partial_function_mono)
qed

lemma at_read_with_mono [partial_function_mono]:
  assumes "\<And>r b. mono_option (\<lambda>f. dec f r b)"
  shows "mono_option (\<lambda>f. at_read_with (dec f) rhs b)"
  unfolding at_read_with_def
  by (intro bind_pair_mono if_mono bb_get_vec_mono bb_get_map_mono assms) (simp_all add: partial_function_mono)

partial_function (option) at_read :: "'z at_reader" where
  "at_read rhs b = at_read_with at_read rhs b"


text \<open>Writing: the tag, then the value for the tags that have one; a null object is dereferenced.\<close>

lemma bb_put_each_cong:
  "xs = ys \<Longrightarrow> (\<And>x b. x \<in> set ys \<Longrightarrow> put x b = put' x b) \<Longrightarrow> bb_put_each put xs b = bb_put_each put' ys b"
proof (induction ys arbitrary: xs b)
  case (Cons y ys)
  then have "put y = put' y" "bb_put_each put ys = bb_put_each put' ys" by auto
  with Cons.prems(1) show ?case by simp
qed simp

lemma bb_put_vec_cong [fundef_cong]:
  assumes "xs = ys" "\<And>x b. x \<in> set ys \<Longrightarrow> put x b = put' x b" "b = b'"
  shows "bb_put_vec put xs b = bb_put_vec put' ys b'"
proof -
  have "bb_put_each put xs = bb_put_each put' ys" using assms by (intro ext bb_put_each_cong)
  with assms show ?thesis by (simp add: bb_put_vec_def)
qed

lemma bb_put_map_cong [fundef_cong]:
  assumes "putk = putk'" "m = m'" "\<And>x b. x \<in> snd ` set m' \<Longrightarrow> put x b = put' x b" "b = b'"
  shows "bb_put_map putk put m b = bb_put_map putk' put' m' b'"
proof -
  have "bb_put_each (bb_put_pair putk put) m = bb_put_each (bb_put_pair putk' put') m'"
    using assms by (intro ext bb_put_each_cong) (auto simp: bb_put_pair_def)
  with assms show ?thesis by (simp add: bb_put_map_def)
qed

function at_put :: "any_type \<Rightarrow> 'z byte_buffer_scheme \<Rightarrow> 'z byte_buffer_scheme option" where
  "at_put rhs b =
     do { b \<leftarrow> bb_put_u8 (at_type rhs) b;
          case rhs of
            AT_Int8 v \<Rightarrow> bb_put_i8 v b
          | AT_Int16 v \<Rightarrow> bb_put_i16 v b
          | AT_Int32 v \<Rightarrow> bb_put_i32 v b
          | AT_UInt8 v \<Rightarrow> bb_put_u8 v b
          | AT_UInt16 v \<Rightarrow> bb_put_u16 v b
          | AT_UInt32 v \<Rightarrow> bb_put_u32 v b
          | AT_Float v \<Rightarrow> bb_put_f32 v b
          | AT_Double v \<Rightarrow> bb_put_f64 v b
          | AT_String v \<Rightarrow> (case v of None \<Rightarrow> None | Some s \<Rightarrow> bb_put_str s b)
          | AT_Vector v \<Rightarrow> (case v of None \<Rightarrow> None | Some xs \<Rightarrow> bb_put_vec at_put xs b)
          | AT_Map1A v \<Rightarrow> (case v of None \<Rightarrow> None | Some m \<Rightarrow> bb_put_map bb_put_u8 at_put m b)
          | AT_Int64 v \<Rightarrow> bb_put_i64 v b
          | AT_UInt64 v \<Rightarrow> bb_put_u64 v b
          | _ \<Rightarrow> Some b }"
  by pat_completeness auto
termination
  by (relation "measure (\<lambda>(x, b). size x)") (auto simp: at_size_elem at_size_snd)

section \<open>Round trip\<close>

lemma enc_vec_cong [fundef_cong]:
  "xs = ys \<Longrightarrow> (\<And>x. x \<in> set ys \<Longrightarrow> enc x = enc' x) \<Longrightarrow> enc_vec enc xs = enc_vec enc' ys"
  by (simp add: enc_vec_def cong: map_cong)

text \<open>The bytes of a value, the values the format carries, and the depth of nesting.\<close>

function at_enc :: "any_type \<Rightarrow> byte list" where
  "at_enc a = at_type a #
     (case a of
        AT_Int8 v \<Rightarrow> le_enc 1 (unat v) | AT_UInt8 v \<Rightarrow> le_enc 1 (unat v)
      | AT_Int16 v \<Rightarrow> le_enc 2 (unat v) | AT_UInt16 v \<Rightarrow> le_enc 2 (unat v)
      | AT_Int32 v \<Rightarrow> le_enc 4 (unat v) | AT_UInt32 v \<Rightarrow> le_enc 4 (unat v)
      | AT_Int64 v \<Rightarrow> le_enc 8 (unat v) | AT_UInt64 v \<Rightarrow> le_enc 8 (unat v)
      | AT_Float v \<Rightarrow> le_enc 4 (unat v) | AT_Double v \<Rightarrow> le_enc 8 (unat v)
      | AT_String (Some s) \<Rightarrow> str_bytes s @ [0]
      | AT_Vector (Some xs) \<Rightarrow> enc_vec at_enc xs
      | AT_Map1A (Some m) \<Rightarrow> enc_vec (\<lambda>p. le_enc 1 (unat (fst p)) @ at_enc (snd p)) m
      | _ \<Rightarrow> [])"
  by pat_completeness auto
termination
  by (relation "measure size") (auto simp: at_size_elem at_size_snd)


fun at_ok :: "nat \<Rightarrow> any_type \<Rightarrow> bool" where
  "at_ok 0 a = False"
| "at_ok (Suc n) a =
     (case a of
        AT_PString _ \<Rightarrow> False | AT_PVoid _ \<Rightarrow> False | AT_Unknown _ \<Rightarrow> False | AT_MapAA _ \<Rightarrow> False
      | AT_String None \<Rightarrow> False | AT_String (Some s) \<Rightarrow> CHR 0x00 \<notin> set s
      | AT_Vector None \<Rightarrow> False | AT_Vector (Some xs) \<Rightarrow> ok_vec (at_ok n) xs
      | AT_Map1A None \<Rightarrow> False
      | AT_Map1A (Some m) \<Rightarrow> omap_ok m \<and> ok_vec (\<lambda>p. at_ok n (snd p)) m
      | _ \<Rightarrow> True)"

declare at_put.simps [simp del] at_enc.simps [simp del]


lemma tag_put:
  assumes "codec put get enc ok" "bb_wf b" "ok v" "bb_room (length (t # enc v)) b"
  shows "do { b \<leftarrow> bb_put_u8 t b; put v b } = Some (bb_extend (t # enc v) b)"
proof -
  have room: "bb_room (length [t]) b" "bb_room (length (enc v)) (bb_extend [t] b)"
    using assms(4) by (auto simp: bb_room_def)
  have "bb_put_u8 t b = Some (bb_extend [t] b)"
    using u8c.put_extend [OF assms(2) TrueI, of t] room(1) by simp
  moreover have "put v (bb_extend [t] b) = Some (bb_extend (enc v) (bb_extend [t] b))"
    using codec.put_extend [OF assms(1) bb_extend_wf [OF assms(2) room(1)] assms(3) room(2)] .
  ultimately show ?thesis using bb_extend_append [OF assms(2) room(1)] by simp
qed

lemma tag_get:
  assumes "codec put get enc ok" "bb_wf b" "ok v" "bb_unread b = (t # enc v) @ r"
  shows "bb_get_u8 b = Some (t, bb_skip 1 b)" "get (bb_skip 1 b) = Some (v, bb_skip (length (t # enc v)) b)"
proof -
  show "bb_get_u8 b = Some (t, bb_skip 1 b)"
    using u8c.get_skip [OF assms(2) TrueI, of t "enc v @ r"] assms(4) by simp
  have "bb_wf (bb_skip 1 b)" using assms(2,4) by (intro bb_skip_wf) auto
  from codec.get_skip [OF assms(1) this assms(3), of r] assms(4)
  show "get (bb_skip 1 b) = Some (v, bb_skip (length (t # enc v)) b)" by (simp add: bb_skip_unread)
qed

lemmas at_map_codec = map_is_codec [OF u8c.codec_axioms, unfolded split_def]

lemmas at_put_case =
  at_put.simps [of "AT_Int8 v" b for v b, simplified]
  at_put.simps [of "AT_UInt8 v" b for v b, simplified]
  at_put.simps [of "AT_Int16 v" b for v b, simplified]
  at_put.simps [of "AT_UInt16 v" b for v b, simplified]
  at_put.simps [of "AT_Int32 v" b for v b, simplified]
  at_put.simps [of "AT_UInt32 v" b for v b, simplified]
  at_put.simps [of "AT_Int64 v" b for v b, simplified]
  at_put.simps [of "AT_UInt64 v" b for v b, simplified]
  at_put.simps [of "AT_Float v" b for v b, simplified]
  at_put.simps [of "AT_Double v" b for v b, simplified]
  at_put.simps [of "AT_String (Some v)" b for v b, simplified]
  at_put.simps [of "AT_Vector (Some v)" b for v b, simplified]
  at_put.simps [of "AT_Map1A (Some v)" b for v b, simplified]

lemmas at_enc_case =
  at_enc.simps [of "AT_Int8 v" for v, simplified any_type.case at_type.simps]
  at_enc.simps [of "AT_UInt8 v" for v, simplified any_type.case at_type.simps]
  at_enc.simps [of "AT_Int16 v" for v, simplified any_type.case at_type.simps]
  at_enc.simps [of "AT_UInt16 v" for v, simplified any_type.case at_type.simps]
  at_enc.simps [of "AT_Int32 v" for v, simplified any_type.case at_type.simps]
  at_enc.simps [of "AT_UInt32 v" for v, simplified any_type.case at_type.simps]
  at_enc.simps [of "AT_Int64 v" for v, simplified any_type.case at_type.simps]
  at_enc.simps [of "AT_UInt64 v" for v, simplified any_type.case at_type.simps]
  at_enc.simps [of "AT_Float v" for v, simplified any_type.case at_type.simps]
  at_enc.simps [of "AT_Double v" for v, simplified any_type.case at_type.simps]
  at_enc.simps [of "AT_String (Some v)" for v, simplified any_type.case at_type.simps option.case]
  at_enc.simps [of "AT_Vector (Some v)" for v, simplified any_type.case at_type.simps option.case]
  at_enc.simps [of "AT_Map1A (Some v)" for v, simplified any_type.case at_type.simps option.case]

lemma at_codec: "codec at_put (at_read rhs) at_enc (at_ok n)"
proof (induction n arbitrary: rhs)
  case 0
  show ?case by unfold_locales simp_all
next
  case (Suc n)
  note vec = codec.vec_is_codec [OF Suc.IH] and mp = at_map_codec [OF Suc.IH]
  show ?case
  proof (unfold_locales, goal_cases)
  case (1 b a)
  show ?case
  proof (cases a)
    case (AT_Int8 v)
    with tag_put [OF i8c.codec_axioms 1(1) TrueI, of _ v] 1(3) show ?thesis by (simp only: at_put_case at_enc_case)
  next
    case (AT_UInt8 v)
    with tag_put [OF u8c.codec_axioms 1(1) TrueI, of _ v] 1(3) show ?thesis by (simp only: at_put_case at_enc_case)
  next
    case (AT_Int16 v)
    with tag_put [OF i16c.codec_axioms 1(1) TrueI, of _ v] 1(3) show ?thesis by (simp only: at_put_case at_enc_case)
  next
    case (AT_UInt16 v)
    with tag_put [OF u16c.codec_axioms 1(1) TrueI, of _ v] 1(3) show ?thesis by (simp only: at_put_case at_enc_case)
  next
    case (AT_Int32 v)
    with tag_put [OF i32c.codec_axioms 1(1) TrueI, of _ v] 1(3) show ?thesis by (simp only: at_put_case at_enc_case)
  next
    case (AT_UInt32 v)
    with tag_put [OF u32c.codec_axioms 1(1) TrueI, of _ v] 1(3) show ?thesis by (simp only: at_put_case at_enc_case)
  next
    case (AT_Int64 v)
    with tag_put [OF i64c.codec_axioms 1(1) TrueI, of _ v] 1(3) show ?thesis by (simp only: at_put_case at_enc_case)
  next
    case (AT_UInt64 v)
    with tag_put [OF u64c.codec_axioms 1(1) TrueI, of _ v] 1(3) show ?thesis by (simp only: at_put_case at_enc_case)
  next
    case (AT_Float v)
    with tag_put [OF f32c.codec_axioms 1(1) TrueI, of _ v] 1(3) show ?thesis by (simp only: at_put_case at_enc_case)
  next
    case (AT_Double v)
    with tag_put [OF f64c.codec_axioms 1(1) TrueI, of _ v] 1(3) show ?thesis by (simp only: at_put_case at_enc_case)
  next
    case (AT_String ob)
    with 1(2) obtain v where v: "a = AT_String (Some v)" by (cases ob) auto
    show ?thesis using tag_put [OF strc.codec_axioms 1(1), of v] 1(2,3) unfolding v by (simp add: at_put_case at_enc_case del: le_enc.simps One_nat_def)
  next
    case (AT_Vector ob)
    with 1(2) obtain v where v: "a = AT_Vector (Some v)" by (cases ob) auto
    show ?thesis using tag_put [OF vec 1(1), of v] 1(2,3) unfolding v by (simp add: at_put_case at_enc_case del: le_enc.simps One_nat_def)
  next
    case (AT_Map1A ob)
    with 1(2) obtain v where v: "a = AT_Map1A (Some v)" by (cases ob) auto
    show ?thesis using tag_put [OF mp 1(1), of v] 1(2,3) unfolding v by (simp add: at_put_case at_enc_case del: le_enc.simps One_nat_def)
  qed (use 1(2) in simp_all)
  next
  case (2 b a r)
  show ?case
  proof (cases a)
    case (AT_Int8 v)
    with tag_get [OF i8c.codec_axioms 2(1) TrueI, of _ v r] 2(3) show ?thesis by (simp add: at_read.simps at_read_with_def at_set_def at_enc_case del: le_enc.simps One_nat_def)
  next
    case (AT_UInt8 v)
    with tag_get [OF u8c.codec_axioms 2(1) TrueI, of _ v r] 2(3) show ?thesis by (simp add: at_read.simps at_read_with_def at_set_def at_enc_case del: le_enc.simps One_nat_def)
  next
    case (AT_Int16 v)
    with tag_get [OF i16c.codec_axioms 2(1) TrueI, of _ v r] 2(3) show ?thesis by (simp add: at_read.simps at_read_with_def at_set_def at_enc_case del: le_enc.simps One_nat_def)
  next
    case (AT_UInt16 v)
    with tag_get [OF u16c.codec_axioms 2(1) TrueI, of _ v r] 2(3) show ?thesis by (simp add: at_read.simps at_read_with_def at_set_def at_enc_case del: le_enc.simps One_nat_def)
  next
    case (AT_Int32 v)
    with tag_get [OF i32c.codec_axioms 2(1) TrueI, of _ v r] 2(3) show ?thesis by (simp add: at_read.simps at_read_with_def at_set_def at_enc_case del: le_enc.simps One_nat_def)
  next
    case (AT_UInt32 v)
    with tag_get [OF u32c.codec_axioms 2(1) TrueI, of _ v r] 2(3) show ?thesis by (simp add: at_read.simps at_read_with_def at_set_def at_enc_case del: le_enc.simps One_nat_def)
  next
    case (AT_Int64 v)
    with tag_get [OF i64c.codec_axioms 2(1) TrueI, of _ v r] 2(3) show ?thesis by (simp add: at_read.simps at_read_with_def at_set_def at_enc_case del: le_enc.simps One_nat_def)
  next
    case (AT_UInt64 v)
    with tag_get [OF u64c.codec_axioms 2(1) TrueI, of _ v r] 2(3) show ?thesis by (simp add: at_read.simps at_read_with_def at_set_def at_enc_case del: le_enc.simps One_nat_def)
  next
    case (AT_Float v)
    with tag_get [OF f32c.codec_axioms 2(1) TrueI, of _ v r] 2(3) show ?thesis by (simp add: at_read.simps at_read_with_def at_set_def at_enc_case del: le_enc.simps One_nat_def)
  next
    case (AT_Double v)
    with tag_get [OF f64c.codec_axioms 2(1) TrueI, of _ v r] 2(3) show ?thesis by (simp add: at_read.simps at_read_with_def at_set_def at_enc_case del: le_enc.simps One_nat_def)
  next
    case (AT_String ob)
    with 2(2) obtain v where v: "a = AT_String (Some v)" by (cases ob) auto
    show ?thesis using tag_get [OF strc.codec_axioms 2(1), of v _ r] 2(2,3) unfolding v
      by (subst at_read.simps) (simp add: at_read_with_def at_set_def at_enc_case del: le_enc.simps One_nat_def)
  next
    case (AT_Vector ob)
    with 2(2) obtain v where v: "a = AT_Vector (Some v)" by (cases ob) auto
    show ?thesis using tag_get [OF vec 2(1), of v _ r] 2(2,3) unfolding v
      by (subst at_read.simps) (simp add: at_read_with_def at_set_def at_enc_case del: le_enc.simps One_nat_def)
  next
    case (AT_Map1A ob)
    with 2(2) obtain v where v: "a = AT_Map1A (Some v)" by (cases ob) auto
    show ?thesis using tag_get [OF mp 2(1), of v _ r] 2(2,3) unfolding v
      by (subst at_read.simps) (simp add: at_read_with_def at_set_def at_enc_case del: le_enc.simps One_nat_def)
  qed (use 2(2) in simp_all)
  qed
qed

section \<open>Types of what is read\<close>

text \<open>
  A value that owns its objects: no object is a null pointer, at any depth, and the keys of a map
  are in order. Reading keeps this, so that \<open>get\<close> of a value that was read dereferences an object.
\<close>

function at_wf :: "any_type \<Rightarrow> bool" where
  "at_wf a =
     (case a of
        AT_String ob \<Rightarrow> ob \<noteq> None
      | AT_Vector ob \<Rightarrow> (case ob of None \<Rightarrow> False | Some xs \<Rightarrow> \<forall>x \<in> set xs. at_wf x)
      | AT_Map1A ob \<Rightarrow> (case ob of None \<Rightarrow> False | Some m \<Rightarrow> omap_ok m \<and> (\<forall>p \<in> set m. at_wf (snd p)))
      | AT_MapAA ob \<Rightarrow> (case ob of None \<Rightarrow> False | Some m \<Rightarrow> \<forall>p \<in> set m. at_wf (fst p) \<and> at_wf (snd p))
      | _ \<Rightarrow> True)"
  by pat_completeness auto
termination
  by (relation "measure size") (auto simp: at_size_elem at_size_snd at_size_fst)

declare at_wf.simps [simp del]

lemma at_wf_simps [simp]:
  "at_wf (AT_Int8 i8)" "at_wf (AT_UInt8 u8)" "at_wf (AT_Int16 i16)" "at_wf (AT_UInt16 u16)"
  "at_wf (AT_Int32 i32)" "at_wf (AT_UInt32 u32)" "at_wf (AT_Int64 i64)" "at_wf (AT_UInt64 u64)"
  "at_wf (AT_Float f)" "at_wf (AT_Double d)" "at_wf (AT_String (Some s))"
  "at_wf (AT_Vector (Some xs)) \<longleftrightarrow> (\<forall>x \<in> set xs. at_wf x)"
  "at_wf (AT_Map1A (Some m)) \<longleftrightarrow> omap_ok m \<and> (\<forall>p \<in> set m. at_wf (snd p))"
  "at_wf at_new"
  by (subst at_wf.simps, simp add: at_new_def)+

definition at_tags :: "uint8 list" where
  "at_tags = [1, 2, 3, 4, 5, 6, 7, 8, 0x21, 0x22, 0x61, 0x62, 0x63]"

lemma get_each_all:
  assumes "\<And>b x b'. get b = Some (x, b') \<Longrightarrow> P x"
  shows "bb_get_each get n b = Some (xs, b') \<Longrightarrow> \<forall>x \<in> set xs. P x"
  by (induction n arbitrary: b xs) (auto simp: bind_eq_Some_conv dest: assms)

lemma get_vec_all:
  assumes "\<And>b x b'. get b = Some (x, b') \<Longrightarrow> P x" "bb_get_vec get b = Some (xs, b')"
  shows "\<forall>x \<in> set xs. P x"
  using assms(2) get_each_all [of get P, OF assms(1)] by (auto simp: bb_get_vec_def bind_eq_Some_conv)

lemma set_omap_set_snd: "p \<in> set (omap_set k v m) \<Longrightarrow> p = (k, v) \<or> p \<in> set m"
  by (induction k v m rule: omap_set.induct) (auto split: if_splits)

lemma fold_insert_all:
  "\<lbrakk>\<forall>p \<in> set kvs. P (snd p); omap_ok m; \<forall>p \<in> set m. P (snd p)\<rbrakk> \<Longrightarrow>
   omap_ok (fold (\<lambda>(k, v). omap_insert k v) kvs m) \<and> (\<forall>p \<in> set (fold (\<lambda>(k, v). omap_insert k v) kvs m). P (snd p))"
proof (induction kvs arbitrary: m)
  case (Cons kv kvs)
  obtain k v where kv: "kv = (k, v)" by fastforce
  have "\<forall>p \<in> set (omap_insert k v m). P (snd p)"
    using Cons.prems kv by (auto simp: omap_insert_def dest: set_omap_set_snd split: option.splits)
  moreover have "omap_ok (omap_insert k v m)" using Cons.prems(2) by (rule omap_ok_insert)
  ultimately show ?case using Cons.IH [of "omap_insert k v m"] Cons.prems(1) kv by simp
qed simp

lemma get_map_all:
  assumes "\<And>b x b'. getv b = Some (x, b') \<Longrightarrow> P x" "bb_get_map getk getv b = Some (m, b')"
  shows "omap_ok m \<and> (\<forall>p \<in> set m. P (snd p))"
proof -
  have pair: "P (snd x)" if "bb_get_pair getk getv b = Some (x, b')" for b x b'
    using that assms(1) by (auto simp: bb_get_pair_def bind_eq_Some_conv)
  from assms(2) obtain n b1 kvs where "bb_get_each (bb_get_pair getk getv) n b1 = Some (kvs, b')"
    and m: "m = fold (\<lambda>(k, v). omap_insert k v) kvs []"
    by (auto simp: bb_get_map_def bind_eq_Some_conv)
  then have "\<forall>p \<in> set kvs. P (snd p)" using get_each_all [of "bb_get_pair getk getv" "\<lambda>p. P (snd p)"] pair by blast
  then show ?thesis unfolding m by (intro fold_insert_all) simp_all
qed

lemma at_read_with_wf:
  assumes "\<And>b v b'. dec at_new b = Some (v, b') \<Longrightarrow> at_wf v" "at_wf rhs"
    and "at_read_with dec rhs b = Some (v, b')"
  shows "at_wf v"
proof -
  have vec: "\<forall>x \<in> set xs. at_wf x" if "bb_get_vec (dec at_new) b = Some (xs, b')" for b xs b'
    by (rule get_vec_all [OF _ that]) (rule assms(1))
  have mp: "omap_ok m \<and> (\<forall>p \<in> set m. at_wf (snd p))"
    if "bb_get_map bb_get_u8 (dec at_new) b = Some (m, b')" for b m b'
    by (rule get_map_all [OF _ that]) (rule assms(1))
  show ?thesis using assms(3,2)
    by (auto simp: at_read_with_def bind_eq_Some_conv at_set_def split: if_splits dest: vec mp)
qed

lemma at_read_wf:
  assumes "at_read rhs b = Some r"
  shows "at_wf rhs \<longrightarrow> at_wf (fst r)"
proof (rule at_read.raw_induct [where P = "\<lambda>rhs b r. at_wf rhs \<longrightarrow> at_wf (fst r)", OF _ assms])
  fix dec :: "'a at_reader" and rhs b r
  assume IH: "\<And>rhs b r. dec rhs b = Some r \<Longrightarrow> at_wf rhs \<longrightarrow> at_wf (fst r)"
    and "at_read_with dec rhs b = Some r"
  then show "at_wf rhs \<longrightarrow> at_wf (fst r)"
    using at_read_with_wf [of dec rhs b "fst r" "snd r"] IH by fastforce
qed

lemma at_read_type:
  assumes "at_read rhs b = Some (v, b')"
  shows "\<exists>ty b1. bb_get_u8 b = Some (ty, b1) \<and> at_type v = (if ty \<in> set at_tags then ty else at_type rhs)"
proof -
  have r: "at_read_with at_read rhs b = Some (v, b')" using assms by (subst (asm) at_read.simps)
  then obtain ty b1 where ty: "bb_get_u8 b = Some (ty, b1)" by (auto simp: at_read_with_def bind_eq_Some_conv)
  have "at_type v = (if ty \<in> set at_tags then ty else at_type rhs)"
    using r ty by (auto simp: at_read_with_def bind_eq_Some_conv at_set_def at_tags_def split: if_splits)
  with ty show ?thesis by blast
qed

text \<open>
  C24: reading a dynamic value is well typed: the value's tag is the tag byte when that is one of
  the thirteen kinds the stream carries, otherwise the value keeps its old tag, and no object in
  it, at any depth, is a null pointer if none was before.
\<close>

theorem read_any_typed:
  assumes "at_read rhs b = Some (v, b')" "at_wf rhs"
  shows "at_wf v \<and>
    (\<exists>ty b1. bb_get_u8 b = Some (ty, b1) \<and> at_type v = (if ty \<in> set at_tags then ty else at_type rhs))"
  using at_read_wf [OF assms(1)] at_read_type [OF assms(1)] assms(2) by simp

definition at_demo :: any_type where
  "at_demo = AT_Vector (Some [AT_UInt8 3])"

definition at_demo_buf :: byte_buffer where
  "at_demo_buf = bb_new 16\<lparr>bb_wpos := 8, bb_storage := [0x62, 1, 0, 0, 0, 2, 3, 9]\<rparr>"

lemma at_demo_read: "at_read at_new at_demo_buf = Some (at_demo, bb_skip (length (at_enc at_demo)) at_demo_buf)"
proof (rule codec.get_skip [OF at_codec [of at_new "Suc (Suc 0)"]])
  show "bb_wf at_demo_buf" by (simp add: at_demo_buf_def bb_new_def bb_wf_def)
  show "at_ok (Suc (Suc 0)) at_demo" by (simp add: at_demo_def ok_vec_def)
  show "bb_unread at_demo_buf = at_enc at_demo @ [9]" by code_simp
qed

theorem read_any_typed_witness:
  "at_wf at_demo \<and>
    (\<exists>ty b1. bb_get_u8 at_demo_buf = Some (ty, b1) \<and>
       at_type at_demo = (if ty \<in> set at_tags then ty else at_type at_new))"
  by (rule read_any_typed [OF at_demo_read]) simp

end
