(* ===== verification/Dynamic_Struct.thy ===== *)
theory Dynamic_Struct
  imports Any_Type
begin

text \<open>
  \<^verbatim>\<open>CDynamicStruct\<close> (pitayaserver/framework/DynamicStruct.h): properties by one-byte keys, with the
  set of changed keys, and its wire formats. The map and the set are in key order.
\<close>

section \<open>The structure\<close>

record dyn_struct =
  ds_data :: "(uint8 \<times> any_type) list"
  ds_dirty :: "uint8 list"

definition ds_new :: dyn_struct where
  "ds_new = \<lparr>ds_data = [], ds_dirty = []\<rparr>"

text \<open>\<^verbatim>\<open>_data[key]\<close> makes a default value for a key that is not there.\<close>

definition ds_at :: "uint8 \<Rightarrow> (uint8 \<times> any_type) list \<Rightarrow> any_type" where
  "ds_at key m = (case map_of m key of None \<Rightarrow> at_new | Some v \<Rightarrow> v)"

definition ds_read_at ::
  "uint8 \<Rightarrow> 'z byte_buffer_scheme \<Rightarrow> dyn_struct \<Rightarrow> (dyn_struct \<times> 'z byte_buffer_scheme) option" where
  "ds_read_at key b s =
     do { (v, b) \<leftarrow> at_read (ds_at key (ds_data s)) b; Some (s\<lparr>ds_data := omap_set key v (ds_data s)\<rparr>, b) }"

section \<open>Loading and saving\<close>

fun ds_load_keys ::
  "uint8 list \<Rightarrow> 'z byte_buffer_scheme \<Rightarrow> dyn_struct \<Rightarrow> (dyn_struct \<times> 'z byte_buffer_scheme) option" where
  "ds_load_keys [] b s = Some (s, b)"
| "ds_load_keys (i # is) b s = do { (s, b) \<leftarrow> ds_read_at i b s; ds_load_keys is b s }"

definition ds_loadDataCompact ::
  "'z byte_buffer_scheme \<Rightarrow> dyn_struct \<Rightarrow> (dyn_struct \<times> 'z byte_buffer_scheme) option" where
  "ds_loadDataCompact b s =
     do { (count, b) \<leftarrow> bb_get_u8 b; ds_load_keys (map word_of_nat [0..<unat count]) b s }"

fun ds_load_loose ::
  "nat \<Rightarrow> 'z byte_buffer_scheme \<Rightarrow> dyn_struct \<Rightarrow> (dyn_struct \<times> 'z byte_buffer_scheme) option" where
  "ds_load_loose 0 b s = Some (s, b)"
| "ds_load_loose (Suc n) b s =
     do { (key, b) \<leftarrow> bb_get_u8 b; (s, b) \<leftarrow> ds_read_at key b s; ds_load_loose n b s }"

definition ds_loadDataLoose ::
  "'z byte_buffer_scheme \<Rightarrow> dyn_struct \<Rightarrow> (dyn_struct \<times> 'z byte_buffer_scheme) option" where
  "ds_loadDataLoose b s = do { (count, b) \<leftarrow> bb_get_u8 b; ds_load_loose (unat count) b s }"

text \<open>
  The check of \<^verbatim>\<open>saveDataCompact\<close>: \<open>i\<close> is one byte, \<open>count\<close> is not. With 256 properties \<open>i\<close> never
  reaches \<open>count\<close> and the loop does not end, which is \<^const>\<open>None\<close>.
\<close>

partial_function (option) ds_contiguous :: "(uint8 \<times> any_type) list \<Rightarrow> nat \<Rightarrow> uint8 \<Rightarrow> bool option" where
  "ds_contiguous m count i =
     (if unat i < count
      then (if map_of m i = None then Some False else ds_contiguous m count (i + 1))
      else Some True)"

declare ds_contiguous.simps [code]

definition ds_saveDataCompact ::
  "'z byte_buffer_scheme \<Rightarrow> dyn_struct \<Rightarrow> (bool \<times> 'z byte_buffer_scheme) option" where
  "ds_saveDataCompact b s =
     do { let count = length (ds_data s);
          c \<leftarrow> ds_contiguous (ds_data s) count 0;
          if \<not> c then Some (False, b)
          else do { b \<leftarrow> bb_put_u8 (word_of_nat count) b;
                    b \<leftarrow> bb_put_each (\<lambda>kv. at_put (snd kv)) (ds_data s) b;
                    Some (True, b) } }"

definition ds_put_entry :: "uint8 \<times> any_type \<Rightarrow> 'z byte_buffer_scheme \<Rightarrow> 'z byte_buffer_scheme option" where
  "ds_put_entry kv b = do { b \<leftarrow> bb_put_u8 (fst kv) b; at_put (snd kv) b }"

definition ds_saveDataLoose :: "'z byte_buffer_scheme \<Rightarrow> dyn_struct \<Rightarrow> 'z byte_buffer_scheme option" where
  "ds_saveDataLoose b s =
     do { b \<leftarrow> bb_put_u8 (word_of_nat (length (ds_data s))) b; bb_put_each ds_put_entry (ds_data s) b }"

definition ds_saveDataDirty :: "'z byte_buffer_scheme \<Rightarrow> dyn_struct \<Rightarrow> 'z byte_buffer_scheme option" where
  "ds_saveDataDirty b s =
     do { b \<leftarrow> bb_put_u8 (word_of_nat (length (ds_dirty s))) b;
          bb_put_each (\<lambda>k b. do { v \<leftarrow> map_of (ds_data s) k; ds_put_entry (k, v) b }) (ds_dirty s) b }"

text \<open>\<^verbatim>\<open>saveDataNeed\<close>: an unknown key clears the whole buffer and ends the loop.\<close>

fun ds_need_loop ::
  "(uint8 \<times> any_type) list \<Rightarrow> uint8 list \<Rightarrow> 'z byte_buffer_scheme \<Rightarrow> 'z byte_buffer_scheme option" where
  "ds_need_loop m [] b = Some b"
| "ds_need_loop m (k # ks) b =
     (case map_of m k of
        None \<Rightarrow> Some (bb_clear b)
      | Some v \<Rightarrow> do { b \<leftarrow> ds_put_entry (k, v) b; ds_need_loop m ks b })"

definition ds_saveDataNeed :: "uint8 list \<Rightarrow> 'z byte_buffer_scheme \<Rightarrow> dyn_struct \<Rightarrow> 'z byte_buffer_scheme option" where
  "ds_saveDataNeed vecEnums b s =
     do { b \<leftarrow> bb_put_u8 (word_of_nat (length vecEnums)) b; ds_need_loop (ds_data s) vecEnums b }"

section \<open>Properties of the structure\<close>

definition ds_getProperty :: "uint8 \<Rightarrow> dyn_struct \<Rightarrow> any_type \<times> dyn_struct" where
  "ds_getProperty key s = (ds_at key (ds_data s), s\<lparr>ds_data := omap_insert key at_new (ds_data s)\<rparr>)"

fun ds_mark :: "uint8 \<Rightarrow> uint8 list \<Rightarrow> uint8 list" where
  "ds_mark k [] = [k]"
| "ds_mark k (d # ds) = (if k < d then k # d # ds else if k = d then d # ds else d # ds_mark k ds)"

definition ds_setProperty :: "uint8 \<Rightarrow> any_type \<Rightarrow> dyn_struct \<Rightarrow> dyn_struct" where
  "ds_setProperty key value s =
     (case map_of (ds_data s) key of
        None \<Rightarrow> s\<lparr>ds_data := omap_insert key value (ds_data s), ds_dirty := ds_mark key (ds_dirty s)\<rparr>
      | Some old \<Rightarrow>
          if \<not> at_eq old value
          then s\<lparr>ds_data := omap_set key (at_set old value) (ds_data s), ds_dirty := ds_mark key (ds_dirty s)\<rparr>
          else s)"

definition ds_clear :: "dyn_struct \<Rightarrow> dyn_struct" where
  "ds_clear s = s\<lparr>ds_data := []\<rparr>"

definition ds_clearDirtyFlag :: "dyn_struct \<Rightarrow> dyn_struct" where
  "ds_clearDirtyFlag s = s\<lparr>ds_dirty := []\<rparr>"

definition ds_countDirty :: "dyn_struct \<Rightarrow> uint8" where
  "ds_countDirty s = word_of_nat (length (ds_dirty s))"

section \<open>Reading back what was written\<close>

definition enc_entry :: "uint8 \<times> any_type \<Rightarrow> byte list" where
  "enc_entry kv = fst kv # at_enc (snd kv)"

lemma entry_codec: "codec ds_put_entry (bb_get_pair bb_get_u8 (at_read at_new)) enc_entry (\<lambda>kv. at_ok n (snd kv))"
  using pair_codec.pair_is_codec [OF pair_codec.intro [OF u8c.codec_axioms at_codec [of at_new n]]]
  by (simp add: ds_put_entry_def [abs_def] bb_put_pair_def [abs_def] enc_entry_def [abs_def] split_def)

text \<open>Loading the entries \<open>kvs\<close> over a structure sets them one after the other.\<close>

lemma load_loose_entries:
  "bb_wf b \<Longrightarrow> \<forall>kv \<in> set kvs. at_ok n (snd kv) \<Longrightarrow> bb_unread b = concat (map enc_entry kvs) @ r \<Longrightarrow>
   ds_load_loose (length kvs) b s =
     Some (s\<lparr>ds_data := fold (\<lambda>(k, v). omap_set k v) kvs (ds_data s)\<rparr>, bb_skip (length (concat (map enc_entry kvs))) b)"
proof (induction kvs arbitrary: b s)
  case Nil
  then show ?case by simp
next
  case (Cons kv kvs)
  obtain k v where kv: "kv = (k, v)" by fastforce
  have un: "bb_unread b = (k # at_enc v) @ concat (map enc_entry kvs) @ r"
    using Cons.prems(3) kv by (simp add: enc_entry_def [of "(k, v)"])
  have ok: "at_ok n v" using Cons.prems(2) kv by simp
  note g = tag_get [OF at_codec Cons.prems(1) ok un]
  let ?b = "bb_skip (length (k # at_enc v)) b"
  have rd: "ds_read_at k (bb_skip 1 b) s = Some (s\<lparr>ds_data := omap_set k v (ds_data s)\<rparr>, ?b)"
    using g(2) by (simp add: ds_read_at_def)
  have e: "enc_entry (k, v) = k # at_enc v" by (simp add: enc_entry_def)
  have "bb_wf ?b" using Cons.prems(1) un by (intro bb_skip_wf) auto
  from Cons.IH [OF this, of "s\<lparr>ds_data := omap_set k v (ds_data s)\<rparr>"] Cons.prems(2) un kv g(1) rd
  show ?case by (simp add: bb_skip_unread e add.commute)
qed


section \<open>Sending the changes\<close>

text \<open>
  The entries \<open>saveDataDirty\<close> writes, and that a receiver who loads them makes its data agree with
  the sender's on those keys.
\<close>

definition dirty_entries :: "dyn_struct \<Rightarrow> (uint8 \<times> any_type) list" where
  "dirty_entries s = map (\<lambda>k. (k, the (map_of (ds_data s) k))) (ds_dirty s)"

definition ds_ok :: "nat \<Rightarrow> dyn_struct \<Rightarrow> bool" where
  "ds_ok n s \<longleftrightarrow> omap_ok (ds_data s) \<and> distinct (ds_dirty s) \<and> set (ds_dirty s) \<subseteq> dom (map_of (ds_data s)) \<and>
     (\<forall>v \<in> ran (map_of (ds_data s)). at_ok n v)"

lemma set_ds_mark [simp]: "set (ds_mark k ds) = insert k (set ds)"
  by (induction ds) auto

lemma distinct_ds_mark: "sorted_wrt (<) ds \<Longrightarrow> sorted_wrt (<) (ds_mark k ds)"
  by (induction ds) auto

lemma map_of_fold_set:
  "omap_ok m \<Longrightarrow> map_of (fold (\<lambda>(k, v). omap_set k v) kvs m) = map_of m ++ map_of (rev kvs)"
proof (induction kvs arbitrary: m)
  case (Cons kv kvs)
  obtain k v where kv: "kv = (k, v)" by fastforce
  have "(map_of m)(k \<mapsto> v) = map_of m ++ [k \<mapsto> v]" by simp
  moreover have "omap_ok (omap_set k v m)" using Cons.prems by (rule omap_ok_set)
  ultimately show ?case
    using Cons.IH [of "omap_set k v m"] Cons.prems kv by (simp add: map_of_omap_set map_add_assoc del: map_add_upd)
qed simp

lemma put_dirty_entries:
  "set ks \<subseteq> dom m \<Longrightarrow>
   bb_put_each (\<lambda>k b. do { v \<leftarrow> m k; ds_put_entry (k, v) b }) ks = bb_put_each ds_put_entry (map (\<lambda>k. (k, the (m k))) ks)"
proof (induction ks)
  case (Cons k ks)
  then obtain v where "m k = Some v" by auto
  with Cons show ?case by (intro ext) simp
qed (intro ext, simp)

lemma put_entries_extend:
  assumes "bb_wf b" "\<forall>kv \<in> set kvs. at_ok n (snd kv)" "length kvs < 256"
    and "bb_room (Suc (length (concat (map enc_entry kvs)))) b"
  shows "do { b \<leftarrow> bb_put_u8 (word_of_nat (length kvs)) b; bb_put_each ds_put_entry kvs b } =
    Some (bb_extend (word_of_nat (length kvs) # concat (map enc_entry kvs)) b)"
proof -
  let ?c = "[word_of_nat (length kvs)] :: byte list"
  have room: "bb_room (length ?c) b" "bb_room (length (concat (map enc_entry kvs))) (bb_extend ?c b)"
    using assms(4) by (auto simp: bb_room_def)
  have "bb_put_u8 (word_of_nat (length kvs)) b = Some (bb_extend ?c b)"
    using u8c.put_extend [OF assms(1) TrueI, of "word_of_nat (length kvs)"] room(1) by simp
  moreover have "bb_put_each ds_put_entry kvs (bb_extend ?c b) = Some (bb_extend (concat (map enc_entry kvs)) (bb_extend ?c b))"
    using codec.put_each_extend [OF entry_codec bb_extend_wf [OF assms(1) room(1)] assms(2) room(2)] .
  ultimately show ?thesis using bb_extend_append [OF assms(1) room(1)] by simp
qed

lemma loose_load_entries:
  assumes "bb_wf b" "\<forall>kv \<in> set kvs. at_ok n (snd kv)" "length kvs < 256"
    and "bb_unread b = (word_of_nat (length kvs) # concat (map enc_entry kvs)) @ r"
  shows "\<exists>b'. ds_loadDataLoose b s = Some (s\<lparr>ds_data := fold (\<lambda>(k, v). omap_set k v) kvs (ds_data s)\<rparr>, b') \<and> bb_unread b' = r"
proof -
  have g: "bb_get_u8 b = Some (word_of_nat (length kvs), bb_skip 1 b)"
    using u8c.get_skip [OF assms(1) TrueI, of "word_of_nat (length kvs)"] assms(4) by simp
  have "bb_wf (bb_skip 1 b)" using assms(1,4) by (intro bb_skip_wf) auto
  moreover have "bb_unread (bb_skip 1 b) = concat (map enc_entry kvs) @ r" using assms(4) by (simp add: bb_skip_unread)
  moreover have "unat (word_of_nat (length kvs) :: 8 word) = length kvs" using assms(3) by (simp add: unat_of_nat)
  ultimately show ?thesis
    using load_loose_entries [OF _ assms(2), of "bb_skip 1 b" r s] g assms(4)
    by (auto simp: ds_loadDataLoose_def bb_skip_unread intro!: exI)
qed

section \<open>The receiver follows the sender\<close>

datatype ds_op = DS_Set uint8 any_type

fun ds_sets :: "ds_op list \<Rightarrow> dyn_struct \<Rightarrow> dyn_struct" where
  "ds_sets [] s = s"
| "ds_sets (DS_Set k v # xs) s = ds_sets xs (ds_setProperty k v s)"

text \<open>Outside the dirty keys nothing has changed since \<open>base\<close>.\<close>

definition ds_track :: "nat \<Rightarrow> (uint8 \<Rightarrow> any_type option) \<Rightarrow> dyn_struct \<Rightarrow> bool" where
  "ds_track n base s \<longleftrightarrow> ds_ok n s \<and> sorted_wrt (<) (ds_dirty s) \<and>
     (\<forall>k. k \<notin> set (ds_dirty s) \<longrightarrow> map_of (ds_data s) k = base k) \<and> dom base \<subseteq> dom (map_of (ds_data s))"

lemma ds_track_set:
  assumes "ds_track n base s" "at_ok n v"
  shows "ds_track n base (ds_setProperty k v s)"
proof -
  have om: "omap_ok (ds_data s)" using assms(1) by (simp add: ds_track_def ds_ok_def)
  have mark: "sorted_wrt (<) (ds_mark k (ds_dirty s))" "distinct (ds_mark k (ds_dirty s))"
    using assms(1) distinct_ds_mark [of "ds_dirty s" k] strict_sorted_iff by (auto simp: ds_track_def)
  show ?thesis
  proof (cases "map_of (ds_data s) k")
    case None
    with assms om mark show ?thesis
      by (auto simp: ds_track_def ds_ok_def ds_setProperty_def omap_simps ran_def)
  next
    case (Some old)
    with assms om mark show ?thesis
      by (auto simp: ds_track_def ds_ok_def ds_setProperty_def omap_simps ran_def at_set_def)
  qed
qed

lemma ds_track_sets:
  "ds_track n base s \<Longrightarrow> \<forall>x \<in> set xs. case x of DS_Set k v \<Rightarrow> at_ok n v \<Longrightarrow> ds_track n base (ds_sets xs s)"
  by (induction xs s rule: ds_sets.induct) (auto intro: ds_track_set)

text \<open>
  C23: sending only the changes keeps a copy up to date. When a structure's dirty flags are clear
  and the receiver holds the same properties, then after any sequence of \<open>setProperty\<close> calls with values the
  format carries, fewer than 256 of them dirty, \<open>saveDataDirty\<close> appends to the buffer bytes from which
  the receiver's \<open>loadDataLoose\<close> makes exactly the sender's properties, whatever follows them in the
  buffer it reads from, which it leaves unread. The values carried have no pointers, no unknown type and no map from
  values to values, no null string, vector or map, no NUL in a string, fewer than 2^32 elements each and
  bounded nesting; the buffer written to is well formed and has room: it does not grow past 10,000,000 bytes.
\<close>

theorem dirty_sync:
  assumes "omap_ok (ds_data s)" "ds_dirty s = []" "\<forall>v \<in> ran (map_of (ds_data s)). at_ok n v"
    and "\<forall>x \<in> set xs. case x of DS_Set k v \<Rightarrow> at_ok n v"
    and "omap_ok (ds_data recv)" "map_of (ds_data recv) = map_of (ds_data s)"
    and "length (ds_dirty (ds_sets xs s)) < 256" "bb_wf b"
    and "bb_room (Suc (length (concat (map enc_entry (dirty_entries (ds_sets xs s)))))) b"
  shows "\<exists>b1 payload. ds_saveDataDirty b (ds_sets xs s) = Some b1 \<and> bb_data b1 = bb_data b @ payload \<and>
     length payload = Suc (length (concat (map enc_entry (dirty_entries (ds_sets xs s))))) \<and>
     (\<forall>rb rest. bb_wf rb \<and> bb_unread rb = payload @ rest \<longrightarrow>
        (\<exists>recv' b2. ds_loadDataLoose (rb :: byte_buffer) recv = Some (recv', b2) \<and>
           map_of (ds_data recv') = map_of (ds_data (ds_sets xs s)) \<and> bb_unread b2 = rest))"
proof -
  let ?s = "ds_sets xs s"
  let ?e = "dirty_entries ?s"
  have "ds_track n (map_of (ds_data s)) s" using assms(1-3) by (simp add: ds_track_def ds_ok_def)
  from ds_track_sets [OF this assms(4)] have tr: "ds_track n (map_of (ds_data s)) ?s" .
  then have sub: "set (ds_dirty ?s) \<subseteq> dom (map_of (ds_data ?s))" and dist: "distinct (ds_dirty ?s)"
    by (auto simp: ds_track_def ds_ok_def)
  have len: "length ?e < 256" using assms(7) by (simp add: dirty_entries_def)
  have ok: "\<forall>kv \<in> set ?e. at_ok n (snd kv)"
  proof
    fix kv assume "kv \<in> set ?e"
    then obtain k v where "kv = (k, v)" "map_of (ds_data ?s) k = Some v" using sub by (auto simp: dirty_entries_def)
    with tr show "at_ok n (snd kv)" by (auto simp: ds_track_def ds_ok_def intro: ranI)
  qed
  let ?b = "bb_extend (word_of_nat (length ?e) # concat (map enc_entry ?e)) b"
  have save: "ds_saveDataDirty b ?s = Some ?b"
    using put_entries_extend [OF assms(8) ok len assms(9)]
    by (simp add: ds_saveDataDirty_def dirty_entries_def put_dirty_entries [OF sub])
  have data: "bb_data ?b = bb_data b @ (word_of_nat (length ?e) # concat (map enc_entry ?e))"
    using bb_extend_data [OF assms(8)] by simp
  have keys: "fst ` set ?e = set (ds_dirty ?s)" by (force simp: dirty_entries_def)
  have look: "map_of (rev ?e) k = map_of (ds_data ?s) k" if k: "k \<in> set (ds_dirty ?s)" for k
  proof -
    have "(k, the (map_of (ds_data ?s) k)) \<in> set (rev ?e)" using k by (auto simp: dirty_entries_def)
    moreover have "distinct (map fst (rev ?e))" using dist by (simp add: dirty_entries_def comp_def rev_map [symmetric])
    ultimately have "map_of (rev ?e) k = Some (the (map_of (ds_data ?s) k))" by (rule map_of_is_SomeI [rotated])
    with k sub show ?thesis by auto
  qed
  have "(map_of (ds_data recv) ++ map_of (rev ?e)) k = map_of (ds_data ?s) k" for k
  proof (cases "k \<in> set (ds_dirty ?s)")
    case True
    with look sub show ?thesis by (auto simp: map_add_def split: option.splits)
  next
    case False
    then have "map_of (rev ?e) k = None" using keys by (simp add: map_of_eq_None_iff)
    with False tr assms(6) show ?thesis by (simp add: ds_track_def map_add_def)
  qed
  then have "map_of (fold (\<lambda>(k, v). omap_set k v) ?e (ds_data recv)) = map_of (ds_data ?s)"
    using map_of_fold_set [OF assms(5), of ?e] by (simp add: fun_eq_iff)
  then have "\<exists>recv' b2. ds_loadDataLoose (rb :: byte_buffer) recv = Some (recv', b2) \<and>
      map_of (ds_data recv') = map_of (ds_data ?s) \<and> bb_unread b2 = rest"
    if "bb_wf rb" "bb_unread rb = (word_of_nat (length ?e) # concat (map enc_entry ?e)) @ rest" for rb rest
    using loose_load_entries [OF that(1) ok len that(2), of recv] by auto
  with save data show ?thesis
    by (intro exI [of _ ?b] exI [of _ "word_of_nat (length ?e) # concat (map enc_entry ?e)"]) simp
qed


definition ds_demo :: dyn_struct where
  "ds_demo = \<lparr>ds_data = [(1, AT_Int32 7), (4, AT_String (Some ''name''))], ds_dirty = []\<rparr>"

definition ds_demo_sets :: "ds_op list" where
  "ds_demo_sets =
     [DS_Set 4 (AT_String (Some ''new'')), DS_Set 9 (AT_Vector (Some [AT_UInt8 3, AT_Map1A (Some [(2, AT_Double 5)])])),
      DS_Set 1 (AT_Int32 7)]"

lemma ds_demo_eval:
  "ds_dirty (ds_sets ds_demo_sets ds_demo) = [4, 9]"
  "length (concat (map enc_entry (dirty_entries (ds_sets ds_demo_sets ds_demo)))) = 29"
  by code_simp+

lemma ds_demo_ok:
  "omap_ok (ds_data ds_demo)" "ds_dirty ds_demo = []"
  "\<forall>v \<in> ran (map_of (ds_data ds_demo)). at_ok 3 v"
  "\<forall>x \<in> set ds_demo_sets. case x of DS_Set k v \<Rightarrow> at_ok 3 v"
proof -
  show "omap_ok (ds_data ds_demo)" "ds_dirty ds_demo = []" by (simp_all add: ds_demo_def)
  have "\<forall>v \<in> snd ` set (ds_data ds_demo). at_ok 3 v" by (simp add: ds_demo_def numeral_3_eq_3)
  moreover have "distinct (map fst (ds_data ds_demo))" by (simp add: ds_demo_def)
  ultimately show "\<forall>v \<in> ran (map_of (ds_data ds_demo)). at_ok 3 v" by (simp only: ran_distinct)
  show "\<forall>x \<in> set ds_demo_sets. case x of DS_Set k v \<Rightarrow> at_ok 3 v"
    by (simp add: ds_demo_sets_def numeral_3_eq_3 ok_vec_def)
qed

text \<open>Two dirty properties of three; one more byte, 99, follows them.\<close>

theorem dirty_sync_witness:
  "\<exists>b1 payload recv' b2. ds_saveDataDirty bb_default (ds_sets ds_demo_sets ds_demo) = Some b1 \<and> bb_data b1 = payload \<and>
     ds_loadDataLoose (bb_extend (payload @ [99]) bb_default) ds_demo = Some (recv', b2) \<and>
     map_of (ds_data recv') = map_of (ds_data (ds_sets ds_demo_sets ds_demo)) \<and> bb_unread b2 = [99]"
proof -
  have room: "bb_room (Suc (length (concat (map enc_entry (dirty_entries (ds_sets ds_demo_sets ds_demo)))))) bb_default"
    unfolding ds_demo_eval by (simp add: bb_room_def bb_default_def bb_new_def)
  have len: "length (ds_dirty (ds_sets ds_demo_sets ds_demo)) < 256" unfolding ds_demo_eval by simp
  have wf: "bb_wf bb_default" and empty: "bb_data bb_default = []"
    by (simp_all add: bb_default_def bb_new_def bb_wf_def bb_data_def)
  from dirty_sync [OF ds_demo_ok(1,2,3,4,1) refl len wf room] obtain b1 payload where
    p: "ds_saveDataDirty bb_default (ds_sets ds_demo_sets ds_demo) = Some b1" "bb_data b1 = payload"
    and load: "\<forall>rb rest. bb_wf rb \<and> bb_unread rb = payload @ rest \<longrightarrow>
        (\<exists>recv' b2. ds_loadDataLoose (rb :: byte_buffer) ds_demo = Some (recv', b2) \<and>
           map_of (ds_data recv') = map_of (ds_data (ds_sets ds_demo_sets ds_demo)) \<and> bb_unread b2 = rest)"
    and len: "length payload = 30" unfolding ds_demo_eval empty by auto
  then have "bb_room (length (payload @ [99])) bb_default" by (simp add: bb_room_def bb_default_def bb_new_def)
  then have "bb_wf (bb_extend (payload @ [99]) bb_default)" by (rule bb_extend_wf [OF wf])
  moreover have "bb_unread (bb_extend (payload @ [99]) bb_default) = payload @ [99]"
    using bb_extend_data [OF wf, of "payload @ [99]"] empty by (simp add: bb_unread_def bb_default_def bb_new_def)
  ultimately show ?thesis using load p by blast
qed

text \<open>With 256 properties \<open>saveDataCompact\<close> does not end: \<open>i\<close> runs through all bytes for ever.\<close>

lemma contiguous_returns:
  assumes "ds_contiguous m n i = Some r"
  shows "n = 256 \<longrightarrow> (\<exists>k. map_of m k = None)"
proof (rule ds_contiguous.raw_induct
    [where P = "\<lambda>m n i r. n = 256 \<longrightarrow> (\<exists>k. map_of m k = None)", OF _ assms])
  fix dec and m :: "(uint8 \<times> any_type) list" and n and i :: uint8 and r
  assume IH: "\<And>m n i r. dec m n i = Some r \<Longrightarrow> n = 256 \<longrightarrow> (\<exists>k. map_of (m :: (uint8 \<times> any_type) list) k = None)"
    and body: "(if unat i < n then if map_of m i = None then Some False else dec m n (i + 1) else Some True) = Some r"
  have "unat i < 256" using unsigned_less [of i, where 'a = nat] by simp
  then have "map_of m i = None \<or> dec m n (i + 1) = Some r" if "n = 256"
    using that body by (auto split: if_splits)
  then show "n = 256 \<longrightarrow> (\<exists>k. map_of m k = None)" using IH by blast
qed

lemma contiguous_stuck:
  assumes "\<forall>k. map_of m k \<noteq> None"
  shows "ds_contiguous m 256 i = None"
  using contiguous_returns [of m 256 i] assms by (cases "ds_contiguous m 256 i") auto

end
