(* ===== verification/Util.thy ===== *)
theory Util
  imports Prelude
begin

text \<open>
  \<^verbatim>\<open>CUtil\<close> (pitayaserver/framework/Util.h, Util.cpp): splitting and joining of strings, random
  choices, calendar and formula helpers.

  The C library's \<^verbatim>\<open>rand\<close> is the parameter \<open>rand\<close>, a step of a generator's state; its value is not
  negative. \<^verbatim>\<open>localtime_r\<close>, \<^verbatim>\<open>mktime\<close> and the clock are parameters of the calendar functions. The
  overloads over \<^verbatim>\<open>float\<close> and \<^verbatim>\<open>double\<close> and the process functions (\<^verbatim>\<open>DaemonInit\<close>, \<^verbatim>\<open>SetRLimit\<close>,
  \<^verbatim>\<open>CreatePidFile\<close>) are not modelled.
\<close>

section \<open>Numbers of the C library\<close>

text \<open>
  \<^verbatim>\<open>atol\<close> is \<^verbatim>\<open>strtol\<close> in base 10, which stops at the range of the 64-bit \<^verbatim>\<open>long\<close>; \<^verbatim>\<open>atoi\<close> is its
  conversion to \<^verbatim>\<open>int\<close>.
\<close>

definition c_atol :: "string \<Rightarrow> int" where
  "c_atol s = max (- (2 ^ 63)) (min (2 ^ 63 - 1) (c_atoi (c_str s)))"

definition c_atoi_int :: "string \<Rightarrow> int" where
  "c_atoi_int s = sint (word_of_int (c_atol s) :: 32 word)"

definition in_int :: "int \<Rightarrow> bool" where
  "in_int x \<longleftrightarrow> - (2 ^ 31) \<le> x \<and> x < 2 ^ 31"

definition in_int_opt :: "int \<Rightarrow> int option" where
  "in_int_opt x = (if in_int x then Some x else None)"

section \<open>Splitting and joining\<close>

text \<open>The overloads of \<open>StrSplit\<close> are one loop; \<open>conv\<close> is what they do with a piece.\<close>

fun split_loop :: "(string \<Rightarrow> 'a) \<Rightarrow> string \<Rightarrow> string \<Rightarrow> string \<Rightarrow> 'a list" where
  "split_loop conv sep s [] = (if s \<noteq> [] then [conv s] else [])"
| "split_loop conv sep s (c # cs) =
     (if c \<in> set sep
      then (if s \<noteq> [] then conv s # split_loop conv sep [] cs else split_loop conv sep [] cs)
      else split_loop conv sep (s @ [c]) cs)"

definition StrSplit :: "string \<Rightarrow> string \<Rightarrow> string list" where
  "StrSplit src sep = split_loop (\<lambda>s. s) sep [] src"

definition StrSplit_u32 :: "string \<Rightarrow> string \<Rightarrow> uint32 list" where
  "StrSplit_u32 src sep = split_loop (\<lambda>s. word_of_int (c_atol s)) sep [] src"

definition StrSplit_u64 :: "string \<Rightarrow> string \<Rightarrow> uint64 list" where
  "StrSplit_u64 src sep = split_loop (\<lambda>s. word_of_int (c_atol s)) sep [] src"

text \<open>The overload for \<^verbatim>\<open>std::set\<close>: the values in increasing order, once each.\<close>

definition StrSplit_set :: "string \<Rightarrow> string \<Rightarrow> uint32 list" where
  "StrSplit_set src sep = sort (remdups (split_loop (\<lambda>s. word_of_int (c_atol s)) sep [] src))"

fun merge_loop :: "('a \<Rightarrow> string) \<Rightarrow> string \<Rightarrow> string \<Rightarrow> 'a list \<Rightarrow> string" where
  "merge_loop fmt sep src [] = src"
| "merge_loop fmt sep src (x # xs) = merge_loop fmt sep (src @ sep @ fmt x) xs"

definition merge_with :: "('a \<Rightarrow> string) \<Rightarrow> string \<Rightarrow> 'a list \<Rightarrow> string" where
  "merge_with fmt sep xs = (case xs of [] \<Rightarrow> [] | x # r \<Rightarrow> merge_loop fmt sep (fmt x) r)"

definition StrMerge :: "string \<Rightarrow> string list \<Rightarrow> string" where
  "StrMerge sep xs = merge_with (\<lambda>s. s) sep xs"

definition StrMerge_u32 :: "string \<Rightarrow> uint32 list \<Rightarrow> string" where
  "StrMerge_u32 sep xs = merge_with (\<lambda>v. dec_str (unat v)) sep xs"

definition StrMerge_u64 :: "string \<Rightarrow> uint64 list \<Rightarrow> string" where
  "StrMerge_u64 sep xs = merge_with (\<lambda>v. dec_str (unat v)) sep xs"

definition StrVecSplit :: "string \<Rightarrow> string \<Rightarrow> string \<Rightarrow> string list list" where
  "StrVecSplit src sep1 sep2 = filter (\<lambda>v. v \<noteq> []) (map (\<lambda>s. StrSplit s sep2) (StrSplit src sep1))"

definition StrVecSplit_u32 :: "string \<Rightarrow> string \<Rightarrow> string \<Rightarrow> uint32 list list" where
  "StrVecSplit_u32 src sep1 sep2 = filter (\<lambda>v. v \<noteq> []) (map (\<lambda>s. StrSplit_u32 s sep2) (StrSplit src sep1))"

text \<open>\<open>Uint32ToString\<close> and \<open>Uint64ToString\<close>: the digits from the lowest, reversed.\<close>

fun to_string_loop :: "nat \<Rightarrow> string" where
  "to_string_loop n = (if n = 0 then [] else digit_char (n mod 10) # to_string_loop (n div 10))"

declare to_string_loop.simps [simp del]

definition Uint32ToString :: "uint32 \<Rightarrow> string" where
  "Uint32ToString n = (if n = 0 then ''0'' else rev (to_string_loop (unat n)))"

definition Uint64ToString :: "uint64 \<Rightarrow> string" where
  "Uint64ToString n = (if n = 0 then ''0'' else rev (to_string_loop (unat n)))"

definition IsDigit :: "char \<Rightarrow> bool" where
  "IsDigit c \<longleftrightarrow> is_digit c"

section \<open>Replacing\<close>

text \<open>\<^verbatim>\<open>std::string::find\<close>: the first position of a pattern, from a given one.\<close>

fun find_sub :: "string \<Rightarrow> string \<Rightarrow> nat option" where
  "find_sub pat [] = (if pat = [] then Some 0 else None)"
| "find_sub pat (c # cs) =
     (if take (length pat) (c # cs) = pat then Some 0 else map_option Suc (find_sub pat cs))"

definition find_at :: "string \<Rightarrow> nat \<Rightarrow> string \<Rightarrow> nat option" where
  "find_at pat pos s = (if pos \<le> length s then map_option ((+) pos) (find_sub pat (drop pos s)) else None)"

definition str_replace :: "nat \<Rightarrow> nat \<Rightarrow> string \<Rightarrow> string \<Rightarrow> string" where
  "str_replace pos n new s = take pos s @ new @ drop (pos + n) s"

definition StrReplace_one :: "string \<Rightarrow> string \<Rightarrow> string \<Rightarrow> string" where
  "StrReplace_one src seek str =
     (case find_at seek 0 src of None \<Rightarrow> src | Some pos \<Rightarrow> str_replace pos (length seek) str src)"

text \<open>
  \<open>StrReplace\<close> searches again one character after the start of the text it inserted, and
  \<open>replace_all\<close> from the beginning, so either may run for ever; \<^const>\<open>None\<close> is that.
\<close>

partial_function (option) replace_arg :: "string \<Rightarrow> string \<Rightarrow> nat \<Rightarrow> string \<Rightarrow> string option" where
  "replace_arg pat arg from_pos s =
     (case find_at pat from_pos s of
        None \<Rightarrow> Some s
      | Some pos \<Rightarrow> replace_arg pat arg (pos + 1) (str_replace pos (length pat) arg s))"

fun StrReplace_loop :: "nat \<Rightarrow> string list \<Rightarrow> string \<Rightarrow> string option" where
  "StrReplace_loop i [] s = Some s"
| "StrReplace_loop i (a # args) s =
     do { s \<leftarrow> replace_arg (take 15 (''{'' @ dec_str i @ ''}'')) a 0 s; StrReplace_loop (Suc i) args s }"

definition StrReplace :: "string list \<Rightarrow> string \<Rightarrow> string option" where
  "StrReplace args s = StrReplace_loop 0 args s"

partial_function (option) replace_all :: "string \<Rightarrow> string \<Rightarrow> string \<Rightarrow> string option" where
  "replace_all strold strnew s =
     (case find_at strold 0 s of
        None \<Rightarrow> Some s
      | Some pos \<Rightarrow> replace_all strold strnew (str_replace pos (length strold) strnew s))"

declare replace_arg.simps [code] replace_all.simps [code]

section \<open>Random choices\<close>

text \<open>
  \<open>RandFactor\<close> on \<^verbatim>\<open>uint16\<close> weights adds them as 32-bit words; the overloads on \<^verbatim>\<open>int\<close> may overflow,
  which is \<^const>\<open>None\<close>. A remainder by a negative number is one by its absolute value, because
  \<^verbatim>\<open>rand\<close> is not negative.
\<close>

type_synonym 'r rand_src = "'r \<Rightarrow> nat \<times> 'r"

fun pick_u32 :: "uint32 \<Rightarrow> uint32 \<Rightarrow> nat \<Rightarrow> uint16 list \<Rightarrow> nat option" where
  "pick_u32 randValue hi i [] = None"
| "pick_u32 randValue hi i (v # vs) =
     (let lo = hi; hi = hi + ucast v in
      if lo \<le> randValue \<and> randValue < hi then Some i else pick_u32 randValue hi (Suc i) vs)"

definition RandFactor_u16 :: "'r rand_src \<Rightarrow> uint16 list \<Rightarrow> 'r \<Rightarrow> int \<times> 'r" where
  "RandFactor_u16 rand value g =
     (let sum = foldl (\<lambda>s v. s + ucast v) (0 :: uint32) value in
      if sum = 0 then (0, g)
      else let (r, g) = rand g in
           (case pick_u32 (word_of_nat r mod sum) 0 0 value of Some i \<Rightarrow> int i | None \<Rightarrow> -1, g))"

fun sum_int :: "int \<Rightarrow> int list \<Rightarrow> int option" where
  "sum_int s [] = Some s"
| "sum_int s (v # vs) = do { s \<leftarrow> in_int_opt (s + v); sum_int s vs }"

fun pick_int :: "int \<Rightarrow> int \<Rightarrow> nat \<Rightarrow> int list \<Rightarrow> int option" where
  "pick_int randValue hi i [] = Some (-1)"
| "pick_int randValue hi i (v # vs) =
     do { let lo = hi;
          hi \<leftarrow> in_int_opt (hi + v);
          if lo \<le> randValue \<and> randValue < hi then Some (int i) else pick_int randValue hi (Suc i) vs }"

definition RandFactor :: "'r rand_src \<Rightarrow> int list \<Rightarrow> 'r \<Rightarrow> (int \<times> 'r) option" where
  "RandFactor rand value g =
     do { sum \<leftarrow> sum_int 0 value;
          if sum = 0 then Some (0, g)
          else do { let (r, g) = rand g;
                    i \<leftarrow> pick_int (int r mod \<bar>sum\<bar>) 0 0 value;
                    Some (i, g) } }"

definition list_erase :: "nat \<Rightarrow> 'a list \<Rightarrow> 'a list" where
  "list_erase i xs = take i xs @ drop (Suc i) xs"

text \<open>\<open>RandFactorMulti\<close>: a choice of -1 passes the test and indexes before the vector.\<close>

fun RandFactorMulti_loop ::
  "'r rand_src \<Rightarrow> nat \<Rightarrow> int list \<Rightarrow> int list \<Rightarrow> int list \<Rightarrow> 'r \<Rightarrow> (int list \<times> 'r) option" where
  "RandFactorMulti_loop rand 0 temp vecIndex vecResult g = Some (vecResult, g)"
| "RandFactorMulti_loop rand (Suc n) temp vecIndex vecResult g =
     do { (result, g) \<leftarrow> RandFactor rand temp g;
          if result < int (length vecIndex)
          then (if result < 0 then None
                else RandFactorMulti_loop rand n (list_erase (nat result) temp) (list_erase (nat result) vecIndex)
                       (vecResult @ [vecIndex ! nat result]) g)
          else RandFactorMulti_loop rand n temp vecIndex vecResult g }"

definition RandFactorMulti :: "'r rand_src \<Rightarrow> int list \<Rightarrow> int \<Rightarrow> 'r \<Rightarrow> (int list \<times> 'r) option" where
  "RandFactorMulti rand value number g =
     RandFactorMulti_loop rand (nat number) value (map int [0..<length value]) [] g"

text \<open>The overload on a range of the vector; \<open>nBegin\<close> is not negative.\<close>

definition RandFactor_range :: "'r rand_src \<Rightarrow> int list \<Rightarrow> nat \<Rightarrow> nat \<Rightarrow> 'r \<Rightarrow> (int \<times> 'r) option" where
  "RandFactor_range rand value nBegin nEnd g =
     do { let nEnd = min nEnd (length value);
          let part = take (nEnd - nBegin) (drop nBegin value);
          sum \<leftarrow> sum_int 0 part;
          if sum = 0 then Some (0, g)
          else do { let (r, g) = rand g;
                    i \<leftarrow> pick_int (int r mod \<bar>sum\<bar>) 0 nBegin part;
                    Some (i, g) } }"

definition RandEither :: "'r rand_src \<Rightarrow> uint16 \<Rightarrow> uint16 \<Rightarrow> 'r \<Rightarrow> bool \<times> 'r" where
  "RandEither rand value valueMax g =
     (if value = 0 then (False, g)
      else if value \<ge> valueMax then (True, g)
      else let (r, g) = rand g in (r mod unat valueMax < unat value, g))"

definition RandByRange :: "'r rand_src \<Rightarrow> int \<Rightarrow> int \<Rightarrow> 'r \<Rightarrow> (int \<times> 'r) option" where
  "RandByRange rand nBegin nEnd g =
     do { e \<leftarrow> in_int_opt (nEnd - 1);
          if nBegin = e then Some (nBegin, g)
          else if nBegin = nEnd then Some (nEnd, g)
          else do { let (lo, hi) = (if nBegin > nEnd then (nEnd, nBegin) else (nBegin, nEnd));
                    n \<leftarrow> in_int_opt (hi - lo);
                    let (r, g) = rand g;
                    Some (int r mod n + lo, g) } }"

definition list_swap :: "nat \<Rightarrow> nat \<Rightarrow> 'a list \<Rightarrow> 'a list" where
  "list_swap i j xs = xs[i := xs ! j, j := xs ! i]"

text \<open>\<open>RandByRangeMulti\<close>: \<open>vecAll\<close> holds what is left in its first \<open>nRandLen\<close> places.\<close>

fun RandByRangeMulti_loop ::
  "'r rand_src \<Rightarrow> int \<Rightarrow> nat \<Rightarrow> nat \<Rightarrow> int list \<Rightarrow> int list \<Rightarrow> 'r \<Rightarrow> (int list \<times> 'r) option" where
  "RandByRangeMulti_loop rand nBegin 0 nRandLen vecAll vecRand g = Some (vecRand, g)"
| "RandByRangeMulti_loop rand nBegin (Suc n) nRandLen vecAll vecRand g =
     do { (RandNum, g) \<leftarrow> RandByRange rand 0 (int nRandLen) g;
          if RandNum < 0 \<or> RandNum \<ge> int (length vecAll) then None
          else RandByRangeMulti_loop rand nBegin n (nRandLen - 1)
                 (list_swap (nat RandNum) (nRandLen - 1) vecAll)
                 (vecRand @ [nBegin + vecAll ! nat RandNum]) g }"

definition RandByRangeMulti :: "'r rand_src \<Rightarrow> int \<Rightarrow> int \<Rightarrow> int \<Rightarrow> 'r \<Rightarrow> (int list \<times> 'r) option" where
  "RandByRangeMulti rand nBegin nEnd nNum g =
     (if nBegin = nEnd then Some ([], g)
      else do { let (lo, hi) = (if nBegin > nEnd then (nEnd, nBegin) else (nBegin, nEnd));
                n \<leftarrow> in_int_opt (hi - lo);
                if nNum \<ge> n then Some (map (\<lambda>i. lo + int i) [0..<nat n], g)
                else RandByRangeMulti_loop rand lo (nat nNum) (nat n) (map int [0..<nat n]) [] g })"

text \<open>
  \<open>GetRandSequence\<close> exchanges the bounds when they are in order, so its loop has nothing to add.
\<close>

fun shuffle_loop :: "'r rand_src \<Rightarrow> nat \<Rightarrow> nat \<Rightarrow> int list \<Rightarrow> 'r \<Rightarrow> int list \<times> 'r" where
  "shuffle_loop rand i 0 xs g = (xs, g)"
| "shuffle_loop rand i (Suc n) xs g =
     (let (r, g) = rand g; nRand = r mod length xs;
          xs = (if i \<noteq> nRand then list_swap i nRand xs else xs)
      in shuffle_loop rand (Suc i) n xs g)"

definition GetRandSequence :: "'r rand_src \<Rightarrow> int \<Rightarrow> int \<Rightarrow> 'r \<Rightarrow> int list \<times> 'r" where
  "GetRandSequence rand nBegin nEnd g =
     (let (lo, hi) = (if nBegin < nEnd then (nEnd, nBegin) else (nBegin, nEnd));
          vecSeq = map (\<lambda>i. lo + int i) [0..<nat (hi - lo)]
      in shuffle_loop rand 0 (length vecSeq) vecSeq g)"

definition rand_char :: "'r rand_src \<Rightarrow> 'r \<Rightarrow> char \<times> 'r" where
  "rand_char rand g =
     (let (r1, g) = rand g; (r2, g) = rand g in
      (if odd r1 then char_of (r2 mod 26 + 97) else char_of (r2 mod 10 + 48), g))"

fun rand_chars :: "'r rand_src \<Rightarrow> nat \<Rightarrow> 'r \<Rightarrow> string \<times> 'r" where
  "rand_chars rand 0 g = ([], g)"
| "rand_chars rand (Suc n) g =
     (let (c, g) = rand_char rand g; (cs, g) = rand_chars rand n g in (c # cs, g))"

text \<open>\<open>CreateHashString\<close> makes sixteen characters, whatever length is asked for.\<close>

definition CreateHashString :: "'r rand_src \<Rightarrow> uint32 \<Rightarrow> 'r \<Rightarrow> string \<times> 'r" where
  "CreateHashString rand dwLength g = rand_chars rand 16 g"

fun GetRandString :: "'r rand_src \<Rightarrow> string \<Rightarrow> nat \<Rightarrow> 'r \<Rightarrow> string \<times> 'r" where
  "GetRandString rand pre 0 g = (pre, g)"
| "GetRandString rand pre (Suc n) g =
     (let src = ''0123456789abcdefghijklmnopqrstuvwsyz''; (r, g) = rand g
      in GetRandString rand (pre @ [src ! (r mod length src)]) n g)"

text \<open>\<open>RandByRanges\<close> and \<open>RandByDiffRateChoice\<close> (at \<^verbatim>\<open>uint32\<close>).\<close>

definition RandByRanges :: "'r rand_src \<Rightarrow> uint32 \<Rightarrow> uint32 \<Rightarrow> 'r \<Rightarrow> uint32 \<times> 'r" where
  "RandByRanges rand nBegin nEnd g =
     (if nBegin = nEnd - 1 then (nBegin, g)
      else if nBegin = nEnd then (nEnd, g)
      else let num = sint (if nEnd > nBegin then nEnd - nBegin else nBegin - nEnd);
               (r, g) = rand g
           in (word_of_int (int r mod \<bar>num\<bar>) + nBegin, g))"

fun rate_choice :: "uint32 \<Rightarrow> uint32 \<Rightarrow> (uint32 \<times> uint32) list \<Rightarrow> uint32" where
  "rate_choice randVal hi [] = 0"
| "rate_choice randVal hi ((k, v) # m) =
     (let lo = hi; hi = hi + v in
      if lo \<le> randVal \<and> randVal < hi then k else rate_choice randVal hi m)"

definition RandByDiffRateChoice :: "'r rand_src \<Rightarrow> (uint32 \<times> uint32) list \<Rightarrow> 'r \<Rightarrow> uint32 \<times> 'r" where
  "RandByDiffRateChoice rand m g =
     (if m = [] then (0, g)
      else let rateTotal = foldl (\<lambda>s kv. s + snd kv) 0 m; (randVal, g) = RandByRanges rand 0 rateTotal g
           in (rate_choice randVal 0 m, g))"

section \<open>Numbers and strings\<close>

fun pow_loop :: "uint32 \<Rightarrow> nat \<Rightarrow> uint32 \<Rightarrow> uint32" where
  "pow_loop x 0 res = res"
| "pow_loop x (Suc n) res = pow_loop x n (res * x)"

definition PowUint32 :: "uint32 \<Rightarrow> uint32 \<Rightarrow> uint32" where
  "PowUint32 x y = (if y = 0 then 1 else pow_loop x (unat y - 1) x)"

text \<open>
  \<open>GetUTF8StringLength\<close> counts characters, an ASCII letter or digit for one half; the count is kept
  in halves (the source's \<^verbatim>\<open>float\<close> is exact below \<open>2 ^ 23\<close> characters).
\<close>

fun utf8_halves :: "string \<Rightarrow> nat" where
  "utf8_halves [] = 0"
| "utf8_halves (c # cs) =
     (let n = (of_char c :: nat) in
      (if n div 64 \<noteq> 2
       then (if 97 \<le> n \<and> n \<le> 122 \<or> 65 \<le> n \<and> n \<le> 90 \<or> 48 \<le> n \<and> n \<le> 57 then 1 else 2)
       else 0)) + utf8_halves cs"

definition GetUTF8StringLength :: "string \<Rightarrow> nat" where
  "GetUTF8StringLength str = utf8_halves str div 2"

record time_section =
  ts_startTime :: uint32
  ts_endTime :: uint32

text \<open>\<open>StrSplitTime\<close> collects the sections in a local vector and never assigns \<open>section\<close>.\<close>

definition StrSplitTime :: "string \<Rightarrow> time_section list \<Rightarrow> string \<Rightarrow> string \<Rightarrow> int \<times> time_section list" where
  "StrSplitTime str section_list firstSeq secondSeq =
     (let parts = map (\<lambda>p. StrSplit_u32 p secondSeq) (StrSplit str firstSeq) in
      (if list_ex (\<lambda>v. length v \<noteq> 2) parts \<or> parts = [] then -1 else 0, section_list))"

definition IsInSection :: "uint32 \<Rightarrow> time_section list \<Rightarrow> bool" where
  "IsInSection t section_list \<longleftrightarrow> (\<exists>s \<in> set section_list. ts_startTime s \<le> t \<and> t \<le> ts_endTime s)"

definition CalcEnergyMax :: "uint8 \<Rightarrow> uint32" where
  "CalcEnergyMax byCastleLv = ucast byCastleLv + 30"

definition CalcCurePointMax :: "uint8 \<Rightarrow> uint32" where
  "CalcCurePointMax byHealthLv = ucast byHealthLv * 150"

definition CalcFrdAtkPlus :: "uint16 \<Rightarrow> uint16" where
  "CalcFrdAtkPlus wFrdCnt = (let wAtkPlus = wFrdCnt div 5 in if wAtkPlus > 20 then 20 else wAtkPlus)"

definition CalcArenaRewCoin :: "uint8 \<Rightarrow> uint8 \<Rightarrow> uint32" where
  "CalcArenaRewCoin byRank byCastleLv =
     word_of_int (10000 - 500 * (int (unat byRank) - 1)) * word_of_nat (unat byCastleLv div 10)"

definition JoinNameAndUserId :: "string \<Rightarrow> uint32 \<Rightarrow> string" where
  "JoinNameAndUserId strName dwUserId = strName @ ''(ID:'' @ dec_str (unat dwUserId) @ '')''"

section \<open>Calendar\<close>

text \<open>
  \<^verbatim>\<open>struct tm\<close> and the functions of the C library on it, which depend on the time zone: \<open>lt\<close> is
  \<^verbatim>\<open>localtime_r\<close>, \<open>mk\<close> is \<^verbatim>\<open>mktime\<close>; \<open>now\<close> is what \<^verbatim>\<open>time(NULL)\<close> returns.
\<close>

record tm =
  tm_sec :: int
  tm_min :: int
  tm_hour :: int
  tm_mday :: int
  tm_mon :: int
  tm_year :: int
  tm_wday :: int
  tm_yday :: int

type_synonym localtime = "int \<Rightarrow> tm"
type_synonym mktime = "tm \<Rightarrow> int"

definition tm_zero :: tm where
  "tm_zero = \<lparr>tm_sec = 0, tm_min = 0, tm_hour = 0, tm_mday = 0, tm_mon = 0, tm_year = 0, tm_wday = 0, tm_yday = 0\<rparr>"

definition GetDateTime :: "localtime \<Rightarrow> uint32 \<Rightarrow> uint32" where
  "GetDateTime lt dwTime =
     (let t = lt (uint dwTime) in word_of_int ((tm_year t + 1900) * 10000 + (tm_mon t + 1) * 100 + tm_mday t))"

definition GetDayTime :: "localtime \<Rightarrow> uint32 \<Rightarrow> uint32" where
  "GetDayTime lt dwTime =
     (let t = lt (uint dwTime) in word_of_int (tm_hour t * 3600 + tm_min t * 60 + tm_sec t))"

definition GetFirstWeekday :: "localtime \<Rightarrow> mktime \<Rightarrow> uint32 \<Rightarrow> uint8 \<Rightarrow> uint32" where
  "GetFirstWeekday lt mk dwDate byOffset =
     (let t1 = tm_zero\<lparr>tm_year := uint (dwDate div 10000) - 1900, tm_mon := uint ((dwDate div 100) mod 100) - 1,
                        tm_mday := uint (dwDate mod 100)\<rparr>;
          tTime = mk t1;
          day = (tm_wday (lt tTime) + uint byOffset) mod 7
      in word_of_int (tTime - day * 24 * 3600))"

definition GetWeekDay :: "localtime \<Rightarrow> uint32 \<Rightarrow> int" where
  "GetWeekDay lt dwTime = (let t = lt (uint dwTime) in if tm_wday t = 0 then 7 else tm_wday t)"

definition get0day :: "localtime \<Rightarrow> mktime \<Rightarrow> uint32 \<Rightarrow> uint32" where
  "get0day lt mk date = word_of_int (mk ((lt (uint date))\<lparr>tm_min := 0, tm_hour := 0, tm_sec := 0\<rparr>))"

definition GetBetweenDay :: "localtime \<Rightarrow> mktime \<Rightarrow> uint32 \<Rightarrow> uint32 \<Rightarrow> int" where
  "GetBetweenDay lt mk firstTime secondTime =
     (let a = get0day lt mk firstTime; b = get0day lt mk secondTime;
          v = (if a > b then a - b else b - a)
      in uint (v div (24 * 3600)))"

definition IsSameHour :: "localtime \<Rightarrow> uint32 \<Rightarrow> uint32 \<Rightarrow> bool" where
  "IsSameHour lt cur prev =
     (let t1 = lt (uint cur); t2 = lt (uint prev) in tm_wday t1 = tm_wday t2 \<and> tm_hour t1 = tm_hour t2)"

definition GetTime :: "int \<Rightarrow> int \<Rightarrow> uint32" where
  "GetTime timeOff now = word_of_int (timeOff + now)"

definition same_day :: "tm \<Rightarrow> tm \<Rightarrow> bool" where
  "same_day a b \<longleftrightarrow> tm_year a = tm_year b \<and> tm_yday a = tm_yday b"

definition IsToday :: "localtime \<Rightarrow> int \<Rightarrow> int \<Rightarrow> uint32 \<Rightarrow> bool" where
  "IsToday lt timeOff now dwTime = same_day (lt (uint dwTime)) (lt (uint (GetTime timeOff now)))"

definition IsToday6AM :: "localtime \<Rightarrow> int \<Rightarrow> uint32 \<Rightarrow> bool" where
  "IsToday6AM lt now dwTime = same_day (lt (uint dwTime - 3600 * 6)) (lt (now - 3600 * 6))"

definition IsTodayOffset :: "localtime \<Rightarrow> int \<Rightarrow> uint32 \<Rightarrow> int \<Rightarrow> bool" where
  "IsTodayOffset lt now dwTime nOffset = same_day (lt (uint dwTime - nOffset)) (lt (now - nOffset))"

definition GetSecondClock :: "localtime \<Rightarrow> mktime \<Rightarrow> uint8 \<Rightarrow> uint32 \<Rightarrow> uint32" where
  "GetSecondClock lt mk c t = word_of_int (mk ((lt (uint t))\<lparr>tm_hour := uint c, tm_sec := 0, tm_min := 0\<rparr>))"

definition GetSecondFrom0Clock :: "localtime \<Rightarrow> int \<Rightarrow> uint32" where
  "GetSecondFrom0Clock lt now =
     (let t = lt now in word_of_int (tm_hour t * 3600 + tm_min t * 60 + tm_sec t))"

definition GetSecondFrom0Clock_of :: "localtime \<Rightarrow> uint32 \<Rightarrow> uint32 \<times> uint32" where
  "GetSecondFrom0Clock_of lt t =
     (let s = lt (uint t); remain = word_of_int (tm_hour s * 3600 + tm_min s * 60 + tm_sec s) in (t - remain, remain))"

definition GetCurHour :: "localtime \<Rightarrow> uint32 \<Rightarrow> uint8" where
  "GetCurHour lt dwTime = word_of_int (tm_hour (lt (uint dwTime)))"

definition GetCurMin :: "localtime \<Rightarrow> uint32 \<Rightarrow> uint8" where
  "GetCurMin lt dwTime = word_of_int (tm_min (lt (uint dwTime)))"

definition GetCurWeekDay :: "localtime \<Rightarrow> uint32 \<Rightarrow> uint8" where
  "GetCurWeekDay lt dwTime = word_of_int (tm_wday (lt (uint dwTime)))"

definition GetCurMDay :: "localtime \<Rightarrow> uint32 \<Rightarrow> uint8" where
  "GetCurMDay lt dwTime = word_of_int (tm_mday (lt (uint dwTime)))"

definition GetCurMon :: "localtime \<Rightarrow> uint32 \<Rightarrow> uint8" where
  "GetCurMon lt dwTime = word_of_int (tm_mon (lt (uint dwTime)))"

definition SharpDayT :: "localtime \<Rightarrow> mktime \<Rightarrow> uint32 \<Rightarrow> uint32" where
  "SharpDayT lt mk dwTime = word_of_int (mk ((lt (uint dwTime))\<lparr>tm_hour := 0, tm_min := 0, tm_sec := 0\<rparr>))"

definition SharpWeek :: "localtime \<Rightarrow> mktime \<Rightarrow> uint32 \<Rightarrow> uint32" where
  "SharpWeek lt mk dwTime =
     (let t = uint dwTime; wd = tm_wday (lt t); wd = (if wd = 0 then 7 else wd)
      in SharpDayT lt mk (word_of_int (t + (1 - wd) * 86400)))"

text \<open>\<open>str2Time\<close>: \<open>parse\<close> is \<^verbatim>\<open>strptime\<close> with the format, on a zeroed \<^verbatim>\<open>tm\<close>.\<close>

definition str2Time :: "(string \<Rightarrow> string \<Rightarrow> tm \<Rightarrow> tm option) \<Rightarrow> mktime \<Rightarrow> string \<Rightarrow> string option \<Rightarrow> uint32" where
  "str2Time parse mk str format =
     (case parse str (case format of None \<Rightarrow> ''%Y:%m:%d-%H:%M:%S'' | Some f \<Rightarrow> f) tm_zero of
        None \<Rightarrow> 0
      | Some tm1 \<Rightarrow> let t = sint (word_of_int (mk tm1) :: 32 word) in if t = -1 then 0 else word_of_int t)"

section \<open>Splitting what was joined\<close>

lemma split_loop_piece:
  "\<forall>c \<in> set p. c \<notin> set sep \<Longrightarrow> split_loop conv sep s (p @ r) = split_loop conv sep (s @ p) r"
  by (induction p arbitrary: s) auto

lemma split_loop_sep:
  "\<forall>c \<in> set q. c \<in> set sep \<Longrightarrow> q \<noteq> [] \<Longrightarrow> s \<noteq> [] \<Longrightarrow>
   split_loop conv sep s (q @ r) = conv s # split_loop conv sep [] r"
proof (induction q arbitrary: s)
  case (Cons c q)
  have skip: "split_loop conv sep [] (q @ r) = split_loop conv sep [] r" if "\<forall>c \<in> set q. c \<in> set sep" for q
    using that by (induction q) auto
  show ?case using Cons.prems skip [of q] by simp
qed simp

lemma merge_loop_append: "merge_loop fmt sep src xs = src @ concat (map (\<lambda>x. sep @ fmt x) xs)"
  by (induction xs arbitrary: src) auto

text \<open>
  Whatever the pieces are converted with, joining pieces that are not empty and contain no
  separator and splitting the result gives them back.
\<close>

lemma split_merge:
  assumes "\<forall>x \<in> set xs. fmt x \<noteq> [] \<and> (\<forall>c \<in> set (fmt x). c \<notin> set sep)" "sep \<noteq> []"
  shows "split_loop conv sep [] (merge_with fmt sep xs) = map (\<lambda>x. conv (fmt x)) xs"
proof (cases xs)
  case (Cons x r)
  have "split_loop conv sep (fmt x) (concat (map (\<lambda>x. sep @ fmt x) r)) = map (\<lambda>x. conv (fmt x)) (x # r)"
    using assms(1) unfolding Cons
  proof (induction r arbitrary: x)
    case (Cons y r)
    have "split_loop conv sep (fmt x) (sep @ fmt y @ concat (map (\<lambda>x. sep @ fmt x) r)) =
      conv (fmt x) # split_loop conv sep [] (fmt y @ concat (map (\<lambda>x. sep @ fmt x) r))"
      using Cons.prems assms(2) by (intro split_loop_sep) auto
    also have "split_loop conv sep [] (fmt y @ concat (map (\<lambda>x. sep @ fmt x) r)) =
      split_loop conv sep (fmt y) (concat (map (\<lambda>x. sep @ fmt x) r))"
      using Cons.prems split_loop_piece [of "fmt y" sep conv "[]"] by simp
    finally show ?case using Cons.IH [of y] Cons.prems by simp
  qed simp
  moreover have "split_loop conv sep [] (fmt x @ t) = split_loop conv sep (fmt x) t" for t
    using assms(1) Cons split_loop_piece [of "fmt x" sep conv "[]"] by simp
  ultimately show ?thesis using Cons by (simp add: merge_with_def merge_loop_append)
qed (simp add: merge_with_def)

lemma c_str_dec_str [simp]: "c_str (dec_str n) = dec_str n"
proof -
  have "\<forall>c \<in> set (dec_str n). c \<noteq> CHR 0x00" using dec_str_digits [of n] by (auto simp: is_digit_def)
  then show ?thesis unfolding c_str_def by (intro takeWhile_eq_all_conv [THEN iffD2])
qed

lemma c_atol_dec_str: "n < 2 ^ 63 \<Longrightarrow> c_atol (dec_str n) = int n"
  by (simp add: c_atol_def max_def min_def)

text \<open>
  a list of numbers joined with a separator that has no digits is split into the same list
  again, for 32-bit numbers and for 64-bit numbers below \<open>2 ^ 63\<close> (\<^verbatim>\<open>atol\<close> stops there).
\<close>

theorem split_numbers_joined:
  assumes "sep \<noteq> []" "\<forall>c \<in> set sep. \<not> is_digit c" "\<forall>v \<in> set ws. unat v < 2 ^ 63"
  shows "StrSplit_u32 (StrMerge_u32 sep vs) sep = vs \<and> StrSplit_u64 (StrMerge_u64 sep ws) sep = ws"
proof -
  have piece: "dec_str n \<noteq> [] \<and> (\<forall>c \<in> set (dec_str n). c \<notin> set sep)" for n
    using dec_str_digits [of n] assms(2) by auto
  have "unat (v :: uint32) < 2 ^ 63" for v
    using unsigned_less [of v, where 'a = nat] by (rule order_less_le_trans) simp
  then have u32: "word_of_int (c_atol (dec_str (unat v))) = v" for v :: uint32
    by (simp add: c_atol_dec_str)
  have u64: "word_of_int (c_atol (dec_str (unat v))) = v" if "v \<in> set ws" for v
    using that assms(3) by (simp add: c_atol_dec_str)
  have vs: "map (\<lambda>v. word_of_int (c_atol (dec_str (unat v)))) vs = vs" by (rule map_idI) (rule u32)
  have ws: "map (\<lambda>v. word_of_int (c_atol (dec_str (unat v)))) ws = ws" by (rule map_idI) (rule u64)
  show ?thesis
    unfolding StrSplit_u32_def StrMerge_u32_def StrSplit_u64_def StrMerge_u64_def
    using piece assms(1) by (simp add: split_merge vs ws)
qed

theorem split_numbers_joined_witness:
  "StrSplit_u32 (StrMerge_u32 ''|'' [7, 0, 4294967295]) ''|'' = [7, 0, 4294967295] \<and>
   StrSplit_u64 (StrMerge_u64 ''|'' [9223372036854775807]) ''|'' = [9223372036854775807]"
  by (rule split_numbers_joined) (simp_all add: is_digit_def)

section \<open>Drawing without repetition\<close>

lemma RandByRange_0:
  assumes "0 < m" "in_int (int m)"
  shows "\<exists>k g'. RandByRange rand 0 (int m) g = Some (int k, g') \<and> k < m"
proof (cases "m = 1")
  case False
  have "in_int (int m - 1)" using assms by (simp add: in_int_def)
  moreover have "0 \<noteq> int m - 1" "\<not> 0 > int m" "(0 :: int) \<noteq> int m" using assms(1) False by auto
  ultimately have "RandByRange rand 0 (int m) g = Some (int (fst (rand g) mod m), snd (rand g))"
    using assms(2) by (cases "rand g") (simp add: RandByRange_def in_int_opt_def zmod_int)
  moreover have "fst (rand g) mod m < m" using assms(1) by simp
  ultimately show ?thesis by blast
next
  case True
  then have "RandByRange rand 0 (int m) g = Some (int 0, g)"
    by (simp add: RandByRange_def in_int_opt_def in_int_def)
  with True show ?thesis by (intro exI [of _ 0]) auto
qed

lemma list_swap_window:
  assumes "distinct xs" "m < length xs" "k \<le> m"
  shows "distinct (list_swap k m xs)" "length (list_swap k m xs) = length xs"
    and "set (take m (list_swap k m xs)) \<subseteq> set (take (Suc m) xs) - {xs ! k}"
proof -
  show "distinct (list_swap k m xs)" "length (list_swap k m xs) = length xs"
    using assms by (simp_all add: list_swap_def distinct_swap)
  show "set (take m (list_swap k m xs)) \<subseteq> set (take (Suc m) xs) - {xs ! k}"
  proof
    fix y assume "y \<in> set (take m (list_swap k m xs))"
    then obtain i where i: "i < m" "y = list_swap k m xs ! i" by (auto simp: in_set_conv_nth)
    obtain j where j: "j \<le> m" "j \<noteq> k" "y = xs ! j"
      using i assms by (cases "i = k") (auto simp: list_swap_def nth_list_update intro: that [of m] that [of i])
    have "y \<in> set (take (Suc m) xs)" using j assms(2) by (auto simp: in_set_conv_nth intro!: exI [of _ j])
    moreover have "y \<noteq> xs ! k" using j assms by (simp add: nth_eq_iff_index_eq)
    ultimately show "y \<in> set (take (Suc m) xs) - {xs ! k}" by simp
  qed
qed

lemma RandByRangeMulti_loop_draws:
  assumes "distinct vecAll" "m \<le> length vecAll" "n \<le> m" "in_int (int m)"
    and "\<forall>v \<in> set vecAll. 0 \<le> v"
  shows "\<exists>ys g'. RandByRangeMulti_loop rand nBegin n m vecAll vecRand g = Some (vecRand @ map (\<lambda>v. nBegin + v) ys, g') \<and>
    length ys = n \<and> distinct ys \<and> set ys \<subseteq> set (take m vecAll)"
  using assms
proof (induction n arbitrary: m vecAll vecRand g)
  case (Suc n)
  then obtain m' where m: "m = Suc m'" by (cases m) auto
  obtain k g1 where k: "RandByRange rand 0 (int m) g = Some (int k, g1)" "k < m"
    using RandByRange_0 [of m rand g] Suc.prems(4) m by auto
  let ?xs = "list_swap k m' vecAll"
  have sw: "distinct ?xs" "length ?xs = length vecAll" "set (take m' ?xs) \<subseteq> set (take m vecAll) - {vecAll ! k}"
    using list_swap_window [of vecAll m' k] Suc.prems(1,2) k(2) m by auto
  have "set ?xs = set vecAll" using Suc.prems(2) k(2) m by (simp add: list_swap_def)
  then have nonneg: "\<forall>v \<in> set ?xs. 0 \<le> v" using Suc.prems(5) by simp
  have "in_int (int m')" using Suc.prems(4) m by (simp add: in_int_def)
  with Suc.IH [of ?xs m' "vecRand @ [nBegin + vecAll ! k]" g1] sw(1,2) Suc.prems(2,3) m nonneg
  obtain ys g2 where ys:
    "RandByRangeMulti_loop rand nBegin n m' ?xs (vecRand @ [nBegin + vecAll ! k]) g1 =
       Some (vecRand @ [nBegin + vecAll ! k] @ map (\<lambda>v. nBegin + v) ys, g2)"
    "length ys = n" "distinct ys" "set ys \<subseteq> set (take m' ?xs)"
    by auto
  have "vecAll ! k \<in> set (take m vecAll)" using k(2) Suc.prems(2) by (auto simp: in_set_conv_nth)
  moreover have "k < length vecAll" using k(2) Suc.prems(2) by simp
  ultimately show ?case
    using ys k sw(3) m by (intro exI [of _ "vecAll ! k # ys"]) auto
qed simp

text \<open>
  C34: \<open>RandByRangeMulti\<close>, whatever numbers \<^verbatim>\<open>rand\<close> gives, returns \<open>nNum\<close> different values of
  \<open>[nBegin, nEnd)\<close>, and every value of the range when it has no more than \<open>nNum\<close>. The bounds differ,
  their distance is an \<^verbatim>\<open>int\<close> and \<open>nNum\<close> is not negative; the larger bound may come first.
\<close>

theorem draw_distinct:
  assumes "nBegin \<noteq> nEnd" "in_int \<bar>nEnd - nBegin\<bar>" "0 \<le> nNum"
  shows "\<exists>ys g'. RandByRangeMulti rand nBegin nEnd nNum g = Some (ys, g') \<and> distinct ys \<and>
    int (length ys) = min nNum \<bar>nEnd - nBegin\<bar> \<and> set ys \<subseteq> {min nBegin nEnd..<max nBegin nEnd}"
proof -
  define lo where "lo = min nBegin nEnd"
  define n where "n = nat \<bar>nEnd - nBegin\<bar>"
  have n: "int n = \<bar>nEnd - nBegin\<bar>" "max nBegin nEnd = lo + int n" by (auto simp: n_def lo_def)
  have run: "RandByRangeMulti rand nBegin nEnd nNum g =
    (if nNum \<ge> int n then Some (map (\<lambda>i. lo + int i) [0..<n], g)
     else RandByRangeMulti_loop rand lo (nat nNum) n (map int [0..<n]) [] g)"
    using assms by (auto simp: RandByRangeMulti_def in_int_opt_def n_def lo_def min_def)
  show ?thesis
  proof (cases "nNum \<ge> int n")
    case True
    then show ?thesis using run n
      by (auto simp: distinct_map inj_on_def lo_def [symmetric])
  next
    case False
    have "nat nNum \<le> n" using False by simp
    moreover have "distinct (map int [0..<n])" by (simp add: distinct_map)
    ultimately
    obtain ys g' where ys: "RandByRangeMulti_loop rand lo (nat nNum) n (map int [0..<n]) [] g = Some (map (\<lambda>v. lo + v) ys, g')"
      "length ys = nat nNum" "distinct ys" "set ys \<subseteq> set (map int [0..<n])"
      using RandByRangeMulti_loop_draws [of "map int [0..<n]" n "nat nNum" rand lo "[]" g] assms(2)
      by (auto simp: n)
    have "set (map (\<lambda>v. lo + v) ys) \<subseteq> {lo..<lo + int n}" using ys(4) by auto
    then show ?thesis using run False ys(1-3) n assms(3)
      by (auto simp: distinct_map inj_on_def lo_def [symmetric])
  qed
qed

theorem draw_distinct_witness:
  "\<exists>ys g'. RandByRangeMulti (\<lambda>g. (g, 7 * g + 3)) 10 4 3 (5 :: nat) = Some (ys, g') \<and> distinct ys \<and>
    int (length ys) = min 3 \<bar>4 - 10\<bar> \<and> set ys \<subseteq> {min 10 4..<max 10 4}"
  by (rule draw_distinct) (simp_all add: in_int_def)

section \<open>Replacing every occurrence\<close>

lemma find_sub_Some:
  "find_sub pat s = Some pos \<Longrightarrow> pos + length pat \<le> length s \<and> take (length pat) (drop pos s) = pat"
proof (induction s arbitrary: pos)
  case (Cons c cs)
  show ?case
  proof (cases "take (length pat) (c # cs) = pat")
    case True
    then have "length pat \<le> length (c # cs)" by (metis length_take min.cobounded1)
    with True Cons.prems show ?thesis by simp
  next
    case False
    with Cons.prems obtain p where "find_sub pat cs = Some p" "pos = Suc p" by auto
    with Cons.IH [of p] show ?thesis by simp
  qed
qed (auto split: if_splits)

text \<open>
  \<open>replace_all\<close> returns when the new text is shorter than the old one, and the old text is then
  nowhere in the result. (It runs for ever when the new text contains the old one.)
\<close>

lemma replace_all_returns:
  assumes "length strnew < length strold"
  shows "\<exists>r. replace_all strold strnew s = Some r \<and> find_sub strold r = None"
proof (induction "length s" arbitrary: s rule: less_induct)
  case less
  show ?case
  proof (cases "find_at strold 0 s")
    case None
    then show ?thesis by (subst replace_all.simps) (simp add: find_at_def)
  next
    case (Some pos)
    then have "pos + length strold \<le> length s" using find_sub_Some [of strold s pos] by (simp add: find_at_def)
    then have "length (str_replace pos (length strold) strnew s) < length s"
      using assms by (simp add: str_replace_def)
    from less [OF this] Some show ?thesis by (subst replace_all.simps) simp
  qed
qed

lemma GetRandSequence_empty: "fst (GetRandSequence rand nBegin nEnd g) = []"
  by (auto simp: GetRandSequence_def Let_def)

lemma PowUint32_power: "PowUint32 x y = x ^ unat y"
proof -
  have loop: "pow_loop x n res = res * x ^ n" for n res
    by (induction n arbitrary: res) (simp_all add: ac_simps)
  show ?thesis
  proof (cases "unat y")
    case 0
    then show ?thesis by (simp add: PowUint32_def unat_eq_zero)
  next
    case (Suc n)
    then have "y \<noteq> 0" by auto
    with Suc show ?thesis by (simp add: PowUint32_def loop)
  qed
qed

end
