(* ===== verification/Mysql_Client.thy ===== *)
theory Mysql_Client
  imports Util
begin

text \<open>
  The synchronous MySQL access of pitayaserver/framework: \<^verbatim>\<open>Field\<close> (Field.h, Field.cpp),
  \<^verbatim>\<open>QueryResultMysql\<close> (QueryResultMysql.cpp) and \<^verbatim>\<open>DatabaseMysql\<close> (DatabaseMysql.h,
  DatabaseMysql.cpp).

  The MySQL client library and its server are the parameter \<^verbatim>\<open>api\<close>: what a statement is answered,
  what is connected to, and how text is escaped. A statement that fails, one that changes rows
  and one that returns rows are the three replies. A read the source leaves undefined (a null
  \<^verbatim>\<open>char*\<close> as \<^verbatim>\<open>std::string\<close>, a column that is not there, a \<^verbatim>\<open>%llu\<close> that matches nothing) is
  \<^const>\<open>None\<close>.
\<close>

section \<open>Fields\<close>

datatype field_type = DB_TYPE_UNKNOWN | DB_TYPE_STRING | DB_TYPE_INTEGER | DB_TYPE_FLOAT | DB_TYPE_BLOB

record field =
  fd_value :: "string option"
  fd_type :: field_type
  fd_length :: uint32

text \<open>
  \<open>SetValue\<close> copies a text up to its NUL and a blob as it is. A blob has no NUL at its end, so its
  use as a C string is undefined.
\<close>

definition fd_SetValue :: "string option \<Rightarrow> field \<Rightarrow> field" where
  "fd_SetValue v f =
     f\<lparr>fd_value := (if fd_type f = DB_TYPE_BLOB then v else map_option c_str v)\<rparr>"

definition fd_SetLength :: "uint32 \<Rightarrow> field \<Rightarrow> field" where
  "fd_SetLength n f = f\<lparr>fd_length := n\<rparr>"

definition fd_cstring :: "field \<Rightarrow> string option option" where
  "fd_cstring f =
     (case fd_value f of None \<Rightarrow> Some None
      | Some v \<Rightarrow> if fd_type f = DB_TYPE_BLOB then None else Some (Some v))"

definition fd_GetString :: "field \<Rightarrow> string option" where
  "fd_GetString f = do { s \<leftarrow> fd_cstring f; s }"

definition fd_GetCppString :: "field \<Rightarrow> string option" where
  "fd_GetCppString f = do { s \<leftarrow> fd_cstring f; Some (case s of None \<Rightarrow> [] | Some v \<Rightarrow> v) }"

definition fd_GetTextString :: "field \<Rightarrow> string option" where
  "fd_GetTextString f =
     (case fd_value f of None \<Rightarrow> if fd_length f = 0 then Some [] else None
      | Some v \<Rightarrow> if unat (fd_length f) \<le> length v then Some (take (unat (fd_length f)) v) else None)"

definition fd_num :: "field \<Rightarrow> int option" where
  "fd_num f = do { s \<leftarrow> fd_cstring f; Some (case s of None \<Rightarrow> 0 | Some v \<Rightarrow> c_atol v) }"

definition fd_GetBool :: "field \<Rightarrow> bool option" where
  "fd_GetBool f = do { s \<leftarrow> fd_cstring f; Some (case s of None \<Rightarrow> False | Some v \<Rightarrow> c_atoi_int v > 0) }"

definition fd_GetInt32 :: "field \<Rightarrow> 32 word option" where
  "fd_GetInt32 f = do { n \<leftarrow> fd_num f; Some (word_of_int n) }"

definition fd_GetUInt8 :: "field \<Rightarrow> uint8 option" where
  "fd_GetUInt8 f = do { n \<leftarrow> fd_num f; Some (word_of_int n) }"

definition fd_GetUInt16 :: "field \<Rightarrow> uint16 option" where
  "fd_GetUInt16 f = do { n \<leftarrow> fd_num f; Some (word_of_int n) }"

definition fd_GetInt16 :: "field \<Rightarrow> 16 word option" where
  "fd_GetInt16 f = do { n \<leftarrow> fd_num f; Some (word_of_int n) }"

definition fd_GetUInt32 :: "field \<Rightarrow> uint32 option" where
  "fd_GetUInt32 f = do { n \<leftarrow> fd_num f; Some (word_of_int n) }"

text \<open>
  \<^verbatim>\<open>sscanf("%llu")\<close>: white space, a sign, digits; what is out of range becomes the largest value,
  a minus sign negates modulo \<open>2 ^ 64\<close>, and without a digit nothing is stored.
\<close>

definition c_strtoull :: "string \<Rightarrow> uint64 option" where
  "c_strtoull s =
     (let s = dropWhile c_isspace s;
          neg = (s \<noteq> [] \<and> hd s = CHR ''-'');
          s = (if s \<noteq> [] \<and> (hd s = CHR ''-'' \<or> hd s = CHR ''+'') then tl s else s);
          ds = takeWhile is_digit s;
          n = dec_val ds
      in if ds = [] then None
         else if n \<ge> 2 ^ 64 then Some (-1)
         else Some (if neg then - word_of_nat n else word_of_nat n))"

definition fd_GetUInt64 :: "field \<Rightarrow> uint64 option" where
  "fd_GetUInt64 f = do { s \<leftarrow> fd_cstring f; case s of None \<Rightarrow> Some 0 | Some v \<Rightarrow> c_strtoull v }"

section \<open>Query results\<close>

type_synonym my_row = "string option list"

text \<open>A native column type is its number in the client library.\<close>

definition ConvertNativeType :: "nat \<Rightarrow> field_type" where
  "ConvertNativeType t =
     (if t = 252 then DB_TYPE_BLOB
      else if t \<in> {7, 10, 11, 12, 13, 254, 253, 248, 6} then DB_TYPE_STRING
      else if t \<in> {1, 2, 3, 9, 8, 247} then DB_TYPE_INTEGER
      else if t \<in> {0, 4, 5} then DB_TYPE_FLOAT
      else DB_TYPE_UNKNOWN)"

text \<open>\<open>qr_current\<close> is \<^const>\<open>None\<close> once the last row has been passed (\<open>EndQuery\<close>).\<close>

record query_result =
  qr_current :: "field list option"
  qr_fieldCount :: nat
  qr_rowCount :: nat
  qr_rest :: "my_row list option"

definition qr_new :: "nat list \<Rightarrow> my_row list \<Rightarrow> query_result" where
  "qr_new types rows =
     \<lparr>qr_current = Some (map (\<lambda>t. \<lparr>fd_value = None, fd_type = ConvertNativeType t, fd_length = 0\<rparr>) types),
      qr_fieldCount = length types, qr_rowCount = length rows, qr_rest = Some rows\<rparr>"

definition qr_EndQuery :: "query_result \<Rightarrow> query_result" where
  "qr_EndQuery q = q\<lparr>qr_current := None, qr_rest := None\<rparr>"

definition fd_load :: "field \<Rightarrow> string option \<Rightarrow> field" where
  "fd_load f v = fd_SetLength (word_of_nat (case v of None \<Rightarrow> 0 | Some s \<Rightarrow> length s)) (fd_SetValue v f)"

definition qr_NextRow :: "query_result \<Rightarrow> bool \<times> query_result" where
  "qr_NextRow q =
     (case qr_rest q of
        None \<Rightarrow> (False, q)
      | Some [] \<Rightarrow> (False, qr_EndQuery q)
      | Some (row # rows) \<Rightarrow>
          (True, q\<lparr>qr_current := map_option (\<lambda>fs. map2 fd_load fs row) (qr_current q), qr_rest := Some rows\<rparr>))"

text \<open>\<open>Fetch()[i]\<close>, and the loop the callers run over all rows.\<close>

definition qr_field :: "nat \<Rightarrow> query_result \<Rightarrow> field option" where
  "qr_field i q = do { fs \<leftarrow> qr_current q; if i < length fs then Some (fs ! i) else None }"

definition row_get :: "(field \<Rightarrow> 'a option) \<Rightarrow> nat \<Rightarrow> query_result \<Rightarrow> 'a option" where
  "row_get get i q = do { f \<leftarrow> qr_field i q; get f }"

fun qr_rows_loop :: "(query_result \<Rightarrow> 's \<Rightarrow> 's option) \<Rightarrow> nat \<Rightarrow> query_result \<Rightarrow> 's \<Rightarrow> 's option" where
  "qr_rows_loop body 0 q s = Some s"
| "qr_rows_loop body (Suc n) q s = do { s \<leftarrow> body q s; qr_rows_loop body n (snd (qr_NextRow q)) s }"

definition qr_each :: "(query_result \<Rightarrow> 's \<Rightarrow> 's option) \<Rightarrow> query_result \<Rightarrow> 's \<Rightarrow> 's option" where
  "qr_each body q s = qr_rows_loop body (qr_rowCount q) q s"

section \<open>The connection\<close>

datatype my_reply = My_Error | My_Done nat | My_Rows "nat list" "my_row list"

record 'c mysql_api =
  my_query :: "string \<Rightarrow> 'c \<Rightarrow> my_reply \<times> 'c"
  my_connect :: "string \<Rightarrow> string \<Rightarrow> string \<Rightarrow> string \<Rightarrow> int \<Rightarrow> string option \<Rightarrow> 'c option"
  my_escape :: "string \<Rightarrow> string"

record 'c database_mysql =
  dm_mysql :: "'c option"
  dm_strInfoString :: string
  dm_strDbName :: string

definition dm_new :: "'c database_mysql" where
  "dm_new = \<lparr>dm_mysql = None, dm_strInfoString = [], dm_strDbName = []\<rparr>"

definition dm_Initialize :: "'c mysql_api \<Rightarrow> string \<Rightarrow> 'c database_mysql \<Rightarrow> bool \<times> 'c database_mysql" where
  "dm_Initialize api infoString d =
     (let d = d\<lparr>dm_strInfoString := infoString\<rparr>;
          vecData = StrSplit infoString [CHR 0x27]
      in if length vecData \<noteq> 5 \<and> length vecData \<noteq> 4 then (False, d)
         else let host = vecData ! 0; port_or_socket = vecData ! 1; user = vecData ! 2; password = vecData ! 3;
                  database = (if length vecData = 5 then vecData ! 4 else []);
                  d = d\<lparr>dm_strDbName := database\<rparr>;
                  conn = (if host = ''.''
                          then my_connect api ''localhost'' user password database 0 (Some port_or_socket)
                          else my_connect api host user password database (c_atoi_int port_or_socket) None)
              in (conn \<noteq> None, d\<lparr>dm_mysql := conn\<rparr>))"

definition dm_ReConnect :: "'c mysql_api \<Rightarrow> 'c database_mysql \<Rightarrow> bool \<times> 'c database_mysql" where
  "dm_ReConnect api d = dm_Initialize api (dm_strInfoString d) d"

text \<open>\<open>Query\<close> has no result when the statement fails and when no row is returned.\<close>

definition dm_QueryStrict ::
  "'c mysql_api \<Rightarrow> string \<Rightarrow> 'c database_mysql \<Rightarrow> query_result option \<times> 'c database_mysql" where
  "dm_QueryStrict api sql d =
     (case dm_mysql d of
        None \<Rightarrow> (None, d)
      | Some c \<Rightarrow>
          let (r, c) = my_query api sql c; d = d\<lparr>dm_mysql := Some c\<rparr> in
          (case r of My_Rows types rows \<Rightarrow> (Some (snd (qr_NextRow (qr_new types rows))), d) | _ \<Rightarrow> (None, d)))"

definition dm_Query ::
  "'c mysql_api \<Rightarrow> string \<Rightarrow> 'c database_mysql \<Rightarrow> query_result option \<times> 'c database_mysql" where
  "dm_Query api sql d =
     (case dm_mysql d of
        None \<Rightarrow> (None, d)
      | Some c \<Rightarrow>
          let (r, c) = my_query api sql c; d = d\<lparr>dm_mysql := Some c\<rparr> in
          (case r of
             My_Rows types rows \<Rightarrow> if rows = [] then (None, d) else (Some (snd (qr_NextRow (qr_new types rows))), d)
           | _ \<Rightarrow> (None, d)))"

text \<open>
  \<open>DirectExecute\<close> also fails when no row was affected. Before its rows are stored, a statement that
  returns rows has \<^verbatim>\<open>(my_ulonglong)-1\<close> affected rows.
\<close>

definition dm_DirectExecute :: "'c mysql_api \<Rightarrow> string \<Rightarrow> 'c database_mysql \<Rightarrow> bool \<times> 'c database_mysql" where
  "dm_DirectExecute api sql d =
     (case dm_mysql d of
        None \<Rightarrow> (False, d)
      | Some c \<Rightarrow>
          let (r, c) = my_query api sql c; d = d\<lparr>dm_mysql := Some c\<rparr> in
          (case r of My_Error \<Rightarrow> False | My_Done n \<Rightarrow> n \<noteq> 0 | My_Rows types rows \<Rightarrow> True, d))"

definition dm_escape_string :: "'c mysql_api \<Rightarrow> string \<Rightarrow> 'c database_mysql \<Rightarrow> string option" where
  "dm_escape_string api str d =
     (if str = [] then Some []
      else if dm_mysql d = None then None
      else Some (c_str (my_escape api str)))"

section \<open>Formatted statements\<close>

text \<open>
  The formats are those of the source, with \<^verbatim>\<open>%q\<close> for a \<^verbatim>\<open>%s\<close> in single quotes. An argument for
  \<^verbatim>\<open>%u\<close>, \<^verbatim>\<open>%d\<close> or \<^verbatim>\<open>%llu\<close> is its number. The buffer has two megabytes; \<^verbatim>\<open>vsnprintf\<close> cuts what does
  not fit and does not return -1, so the rest of a longer statement is lost.
\<close>

datatype sql_arg = QS string | QN int

definition QU :: "'a::len word \<Rightarrow> sql_arg" where
  "QU w = QN (uint w)"

definition int_str :: "int \<Rightarrow> string" where
  "int_str i = (if i < 0 then CHR ''-'' # dec_str (nat (- i)) else dec_str (nat i))"

definition arg_text :: "char \<Rightarrow> sql_arg \<Rightarrow> string" where
  "arg_text k a =
     (case a of QS s \<Rightarrow> if k = CHR ''q'' then [CHR 0x27] @ c_str s @ [CHR 0x27] else c_str s
      | QN i \<Rightarrow> int_str i)"

fun sql_fmt :: "string \<Rightarrow> sql_arg list \<Rightarrow> string" where
  "sql_fmt [] as = []"
| "sql_fmt (c # f) as =
     (if c \<noteq> CHR ''%'' then c # sql_fmt f as
      else case f of [] \<Rightarrow> []
        | k # f' \<Rightarrow>
            if k = CHR ''%'' then k # sql_fmt f' as
            else case as of [] \<Rightarrow> []
              | a # as' \<Rightarrow> arg_text k a @ sql_fmt (if k = CHR ''l'' then drop 2 f' else f') as')"

definition DM_MAX_QUERY_LEN :: int where "DM_MAX_QUERY_LEN = 2 * 1024 * 1024"

definition sql_text :: "string \<Rightarrow> sql_arg list \<Rightarrow> string" where
  "sql_text f as =
     (let s = sql_fmt f as in if int (length s) < DM_MAX_QUERY_LEN then s else take (nat (DM_MAX_QUERY_LEN - 1)) s)"

definition dm_PQuery ::
  "'c mysql_api \<Rightarrow> string \<Rightarrow> sql_arg list \<Rightarrow> 'c database_mysql \<Rightarrow> query_result option \<times> 'c database_mysql" where
  "dm_PQuery api f as d = dm_Query api (sql_text f as) d"

definition dm_PQueryStrict ::
  "'c mysql_api \<Rightarrow> string \<Rightarrow> sql_arg list \<Rightarrow> 'c database_mysql \<Rightarrow> query_result option \<times> 'c database_mysql" where
  "dm_PQueryStrict api f as d = dm_QueryStrict api (sql_text f as) d"

definition dm_PExecute ::
  "'c mysql_api \<Rightarrow> string \<Rightarrow> sql_arg list \<Rightarrow> 'c database_mysql \<Rightarrow> bool \<times> 'c database_mysql" where
  "dm_PExecute api f as d = dm_DirectExecute api (sql_text f as) d"

definition dm_StartTransaction :: "'c mysql_api \<Rightarrow> 'c database_mysql \<Rightarrow> 'c database_mysql" where
  "dm_StartTransaction api d = snd (dm_DirectExecute api ''START TRANSACTION'' d)"

definition dm_EndCommit :: "'c mysql_api \<Rightarrow> 'c database_mysql \<Rightarrow> 'c database_mysql" where
  "dm_EndCommit api d = snd (dm_DirectExecute api ''COMMIT'' d)"

definition dm_EndRollback :: "'c mysql_api \<Rightarrow> 'c database_mysql \<Rightarrow> 'c database_mysql" where
  "dm_EndRollback api d = snd (dm_DirectExecute api ''ROLLBACK'' d)"

end
