(* ===== verification/Center_Db.thy ===== *)
theory Center_Db
  imports Mysql_Client
begin

text \<open>
  \<^verbatim>\<open>CenterDBCtrl\<close> (pitayaserver/util/CenterDBCtrl.h, CenterDBCtrl.cpp): passports, roles, servers,
  charges, notices, gift codes and goods in the central database. Every operation sends the
  statements of the source to the database and reads their rows; GM commands are in the theory
  \<open>Gm_Command\<close>.

  The static members are the record \<open>center_db\<close>. A call before \<open>InitCenterDB\<close> dereferences a null
  \<^verbatim>\<open>m_db\<close>, which is \<^const>\<open>None\<close>. Log output is left out.
\<close>

section \<open>State and access\<close>

record 'c center_db =
  cd_db :: "'c database_mysql option"
  cd_byLoginServerId :: uint8
  cd_maxPassportAutoInc :: uint32
  cd_maxRoleAutoInc :: uint32
  cd_bReadOnly :: bool

type_synonym ('c, 'z, 'a) cdb_fn = "('c, 'z) center_db_scheme \<Rightarrow> ('a \<times> ('c, 'z) center_db_scheme) option"

definition cd_PQuery :: "'c mysql_api \<Rightarrow> string \<Rightarrow> sql_arg list \<Rightarrow> ('c, 'z, query_result option) cdb_fn" where
  "cd_PQuery api f as s =
     do { d \<leftarrow> cd_db s; let (r, d) = dm_PQuery api f as d; Some (r, s\<lparr>cd_db := Some d\<rparr>) }"

definition cd_PExecute :: "'c mysql_api \<Rightarrow> string \<Rightarrow> sql_arg list \<Rightarrow> ('c, 'z, bool) cdb_fn" where
  "cd_PExecute api f as s =
     do { d \<leftarrow> cd_db s; let (r, d) = dm_PExecute api f as d; Some (r, s\<lparr>cd_db := Some d\<rparr>) }"

definition cd_escape :: "'c mysql_api \<Rightarrow> string \<Rightarrow> ('c, 'z) center_db_scheme \<Rightarrow> string option" where
  "cd_escape api str s = do { d \<leftarrow> cd_db s; dm_escape_string api str d }"

text \<open>The two shapes most readers have: is there a row, and the first column of the first row.\<close>

definition cd_exists :: "'c mysql_api \<Rightarrow> string \<Rightarrow> sql_arg list \<Rightarrow> ('c, 'z, bool) cdb_fn" where
  "cd_exists api f as s = do { (r, s) \<leftarrow> cd_PQuery api f as s; Some (r \<noteq> None, s) }"

definition cd_lookup ::
  "'c mysql_api \<Rightarrow> (field \<Rightarrow> 'a option) \<Rightarrow> 'a \<Rightarrow> string \<Rightarrow> sql_arg list \<Rightarrow> ('c, 'z, 'a) cdb_fn" where
  "cd_lookup api get dflt f as s =
     do { (r, s) \<leftarrow> cd_PQuery api f as s;
          case r of None \<Rightarrow> Some (dflt, s) | Some q \<Rightarrow> do { v \<leftarrow> row_get get 0 q; Some (v, s) } }"

section \<open>Initialisation and identifiers\<close>

definition ExistsIndex :: "'c mysql_api \<Rightarrow> string \<Rightarrow> string \<Rightarrow> ('c, 'z, bool) cdb_fn" where
  "ExistsIndex api table index_name s =
     do { d \<leftarrow> cd_db s;
          cd_exists api ''select * from information_schema.statistics where table_schema=%q and table_name=%q and index_name=%q''
            [QS (dm_strDbName d), QS table, QS index_name] s }"

definition ExistsColumn :: "'c mysql_api \<Rightarrow> string \<Rightarrow> string \<Rightarrow> ('c, 'z, bool) cdb_fn" where
  "ExistsColumn api table column s =
     do { d \<leftarrow> cd_db s;
          cd_exists api ''select * from information_schema.columns where table_schema=%q and table_name=%q and column_name=%q''
            [QS (dm_strDbName d), QS table, QS column] s }"

definition ExistsTable :: "'c mysql_api \<Rightarrow> string \<Rightarrow> ('c, 'z, bool) cdb_fn" where
  "ExistsTable api table s =
     do { d \<leftarrow> cd_db s;
          cd_exists api ''select * from information_schema.tables where table_schema=%q and table_name=%q''
            [QS (dm_strDbName d), QS table] s }"

definition ExistsServer :: "'c mysql_api \<Rightarrow> uint32 \<Rightarrow> ('c, 'z, bool) cdb_fn" where
  "ExistsServer api dwServerId s = cd_exists api ''select 1 from gameserver_info where server_id=%u'' [QU dwServerId] s"

unbundle bit_operations_syntax

definition NextRoleId :: "('c, 'z) center_db_scheme \<Rightarrow> uint32 \<times> ('c, 'z) center_db_scheme" where
  "NextRoleId s =
     (let s = s\<lparr>cd_maxRoleAutoInc := cd_maxRoleAutoInc s + 1\<rparr>
      in (push_bit 4 (cd_maxRoleAutoInc s) OR push_bit 1 (ucast (cd_byLoginServerId s)), s))"

definition NextPassportId :: "uint32 \<Rightarrow> ('c, 'z) center_db_scheme \<Rightarrow> uint64 \<times> ('c, 'z) center_db_scheme" where
  "NextPassportId dwPlatformId s =
     (let s = s\<lparr>cd_maxPassportAutoInc := cd_maxPassportAutoInc s + 1\<rparr>
      in (push_bit 32 (ucast (cd_maxPassportAutoInc s)) OR push_bit 29 (ucast (cd_byLoginServerId s)) OR ucast dwPlatformId, s))"

text \<open>
  \<open>InitCenterDB\<close>: its guards, the statements that create the tables (their texts, each with the
  column it is conditional on, are the argument \<open>ddl\<close>), and the two counters. The server id that is
  checked is the one of the static member, before the argument is assigned.
\<close>

type_synonym ddl_step = "(string \<times> string) option \<times> string"

definition cd_init_guard :: "'c database_mysql option \<Rightarrow> uint8 \<Rightarrow> ('c, 'z) center_db_scheme \<Rightarrow> bool \<times> ('c, 'z) center_db_scheme" where
  "cd_init_guard db byLoginServerId s =
     (if db = None then (False, s)
      else if cd_db s \<noteq> None then (False, s)
      else if cd_byLoginServerId s \<ge> 8 then (False, s)
      else (True, s\<lparr>cd_bReadOnly := False, cd_db := db, cd_byLoginServerId := byLoginServerId\<rparr>))"

fun cd_init_tables :: "'c mysql_api \<Rightarrow> ddl_step list \<Rightarrow> ('c, 'z) center_db_scheme \<Rightarrow> ('c, 'z) center_db_scheme option" where
  "cd_init_tables api [] s = Some s"
| "cd_init_tables api ((cond, sql) # steps) s =
     do { (skip, s) \<leftarrow> (case cond of None \<Rightarrow> Some (False, s) | Some (table, column) \<Rightarrow> ExistsColumn api table column s);
          (r, s) \<leftarrow> (if skip then Some (True, s) else cd_PExecute api sql [] s);
          cd_init_tables api steps s }"

definition cd_init_counters :: "'c mysql_api \<Rightarrow> ('c, 'z, bool) cdb_fn" where
  "cd_init_counters api s =
     do { (r, s) \<leftarrow> cd_PQuery api ''select MAX(passport_id) from passport_info'' [] s;
          case r of
            None \<Rightarrow> Some (False, s)
          | Some q \<Rightarrow>
              do { maxPassportId \<leftarrow> row_get fd_GetUInt64 0 q;
                   let s = s\<lparr>cd_maxPassportAutoInc := ucast (drop_bit 32 maxPassportId)\<rparr>;
                   (r, s) \<leftarrow> cd_PQuery api ''select MAX(role_id) from re_passport_player where mod(role_id >> 1, 128)=%u''
                     [QU (cd_byLoginServerId s)] s;
                   case r of
                     None \<Rightarrow> Some (False, s)
                   | Some q \<Rightarrow>
                       do { maxRoleId \<leftarrow> row_get fd_GetUInt32 0 q;
                            Some (True, s\<lparr>cd_maxRoleAutoInc := max (drop_bit 4 maxRoleId) 100000\<rparr>) } } }"

definition InitCenterDB ::
  "'c mysql_api \<Rightarrow> ddl_step list \<Rightarrow> 'c database_mysql option \<Rightarrow> uint8 \<Rightarrow> ('c, 'z, bool) cdb_fn" where
  "InitCenterDB api ddl db byLoginServerId s =
     (case cd_init_guard db byLoginServerId s of
        (False, s) \<Rightarrow> Some (False, s)
      | (True, s) \<Rightarrow> do { s \<leftarrow> cd_init_tables api ddl s; cd_init_counters api s })"

definition InitCenterDB_readonly :: "'c mysql_api \<Rightarrow> ddl_step list \<Rightarrow> 'c database_mysql option \<Rightarrow> ('c, 'z, bool) cdb_fn" where
  "InitCenterDB_readonly api ddl db s =
     do { (ok, s) \<leftarrow> InitCenterDB api ddl db 0 s;
          if \<not> ok then Some (False, s) else Some (True, s\<lparr>cd_bReadOnly := True\<rparr>) }"

definition GetDBTime :: "'c mysql_api \<Rightarrow> ('c, 'z, uint32) cdb_fn" where
  "GetDBTime api s = cd_lookup api fd_GetUInt32 0 ''select unix_timestamp()'' [] s"

section \<open>Passports\<close>

definition E_LOGIN_AUTH_TYPE_ACCOUNT :: uint8 where "E_LOGIN_AUTH_TYPE_ACCOUNT = 0"
definition E_LOGIN_AUTH_TYPE_PLATFORM :: uint8 where "E_LOGIN_AUTH_TYPE_PLATFORM = 1"
definition E_LOGIN_AUTH_TYPE_FAST :: uint8 where "E_LOGIN_AUTH_TYPE_FAST = 2"

definition E_CDK_STATE_NO_NEED_VERIFY :: uint8 where "E_CDK_STATE_NO_NEED_VERIFY = 0"
definition E_CDK_STATE_NOT_VERIFIED :: uint8 where "E_CDK_STATE_NOT_VERIFIED = 2"

datatype login_result =
  E_LOGIN_RESULT_TYPE_OK | E_LOGIN_RESULT_TYPE_NOT_FOUND | E_LOGIN_RESULT_TYPE_WRONG_PWD
| E_LOGIN_RESULT_ERROR | E_LOGIN_RESULT_VERIFY_ERROR

fun login_result_code :: "login_result \<Rightarrow> uint8" where
  "login_result_code E_LOGIN_RESULT_TYPE_OK = 0"
| "login_result_code E_LOGIN_RESULT_TYPE_NOT_FOUND = 1"
| "login_result_code E_LOGIN_RESULT_TYPE_WRONG_PWD = 2"
| "login_result_code E_LOGIN_RESULT_ERROR = 3"
| "login_result_code E_LOGIN_RESULT_VERIFY_ERROR = 4"

definition ExistsPassport_id :: "'c mysql_api \<Rightarrow> uint64 \<Rightarrow> ('c, 'z, bool) cdb_fn" where
  "ExistsPassport_id api dwPassport s =
     cd_exists api ''select passport_id from passport_info where passport_id=%llu'' [QU dwPassport] s"

definition ExistsPassport :: "'c mysql_api \<Rightarrow> string \<Rightarrow> uint8 \<Rightarrow> uint32 \<Rightarrow> ('c, 'z, bool) cdb_fn" where
  "ExistsPassport api strPassport byAuthType dwPlatform s =
     do { strPassport \<leftarrow> cd_escape api strPassport s;
          cd_exists api ''select passport_id from passport_info where passport=%q and platform=%u and auth_type=%u''
            [QS strPassport, QU dwPlatform, QU byAuthType] s }"

definition IsPassportRegistered :: "'c mysql_api \<Rightarrow> string \<Rightarrow> ('c, 'z, bool) cdb_fn" where
  "IsPassportRegistered api strPassport s =
     do { strPassport \<leftarrow> cd_escape api strPassport s;
          cd_exists api ''select passport from passport_info where passport=%s'' [QS strPassport] s }"

definition ValidateAuthAccount ::
  "'c mysql_api \<Rightarrow> string \<Rightarrow> string \<Rightarrow> uint32 \<Rightarrow> uint64 \<Rightarrow> ('c, 'z, login_result \<times> uint64) cdb_fn" where
  "ValidateAuthAccount api strPassport strPwd dwPlatform odwPassportId s =
     do { strPassport \<leftarrow> cd_escape api strPassport s;
          (r, s) \<leftarrow> cd_PQuery api
            ''select passport_id, pwd from passport_info where passport=%q and platform=%u and auth_type=%u''
            [QS strPassport, QU dwPlatform, QU E_LOGIN_AUTH_TYPE_ACCOUNT] s;
          case r of
            None \<Rightarrow> Some ((E_LOGIN_RESULT_TYPE_NOT_FOUND, odwPassportId), s)
          | Some q \<Rightarrow>
              do { dwPassportId \<leftarrow> row_get fd_GetUInt64 0 q;
                   strTruePwd \<leftarrow> row_get fd_GetString 1 q;
                   if strPwd = strTruePwd then Some ((E_LOGIN_RESULT_TYPE_OK, dwPassportId), s)
                   else Some ((E_LOGIN_RESULT_TYPE_WRONG_PWD, odwPassportId), s) } }"

definition InsertPassportInfo ::
  "'c mysql_api \<Rightarrow> string \<Rightarrow> string \<Rightarrow> string \<Rightarrow> string \<Rightarrow> string \<Rightarrow> uint32 \<Rightarrow> uint8 \<Rightarrow> uint32 \<Rightarrow> uint8 \<Rightarrow>
   string \<Rightarrow> string \<Rightarrow> string \<Rightarrow> string \<Rightarrow> string \<Rightarrow> uint64 \<Rightarrow> uint8 \<Rightarrow> ('c, 'z, bool \<times> uint64) cdb_fn" where
  "InsertPassportInfo api strPassport strPwd strMail strUid strToken dwPlatform byAuthType dwCreateTime byGmAuth
     strCreateIp strCreateDevice strCreateDeviceType strOpenUdid strAppleUdid odwPassportId byCDKStatus s =
     (if cd_bReadOnly s then Some ((False, odwPassportId), s)
      else do { strPassport \<leftarrow> cd_escape api strPassport s;
                strPwd \<leftarrow> cd_escape api strPwd s;
                strMail \<leftarrow> cd_escape api strMail s;
                strUid \<leftarrow> cd_escape api strUid s;
                strToken \<leftarrow> cd_escape api strToken s;
                strCreateIp \<leftarrow> cd_escape api strCreateIp s;
                strCreateDevice \<leftarrow> cd_escape api strCreateDevice s;
                strCreateDeviceType \<leftarrow> cd_escape api strCreateDeviceType s;
                let (odwPassportId, s) = NextPassportId dwPlatform s;
                (ret, s) \<leftarrow> cd_PExecute api
                  (''insert into passport_info(passport_id,passport,pwd,mail,uid,token,platform,auth_type,create_time,gm_auth,reg_ip,reg_device,reg_device_type,open_udid,apple_udid,cdk_status) '' @
                   ''values(%llu,%q,%q,%q,%q,%q,%u,%u,%u,%u,%q,%q,%q,%q,%q,%q)'')
                  [QU odwPassportId, QS strPassport, QS strPwd, QS strMail, QS strUid, QS strToken,
                   QU dwPlatform, QU byAuthType, QU dwCreateTime, QU byGmAuth, QS strCreateIp,
                   QS strCreateDevice, QS strCreateDeviceType, QS strOpenUdid, QS strAppleUdid, QS (dec_str (unat byCDKStatus))] s;
                Some ((ret, odwPassportId), s) })"

definition ValidateAuthPlatform ::
  "'c mysql_api \<Rightarrow> string \<Rightarrow> string \<Rightarrow> string \<Rightarrow> uint32 \<Rightarrow> string \<Rightarrow> string \<Rightarrow> string \<Rightarrow> string \<Rightarrow> string \<Rightarrow> uint64 \<Rightarrow>
   ('c, 'z, login_result \<times> uint64) cdb_fn" where
  "ValidateAuthPlatform api strPlatformToken strUid strDeviceToken dwPlatform strRegIp strRegDevice strRegDeviceType
     strOpenUdid strAppleUdid odwPassportId s =
     do { strPlatformToken \<leftarrow> cd_escape api strPlatformToken s;
          strUid \<leftarrow> cd_escape api strUid s;
          strDeviceToken \<leftarrow> cd_escape api strDeviceToken s;
          (r, s) \<leftarrow> cd_PQuery api ''select passport_id from passport_info where passport=%q and platform=%u and auth_type=%u''
            [QS strPlatformToken, QU dwPlatform, QU E_LOGIN_AUTH_TYPE_PLATFORM] s;
          case r of
            Some q \<Rightarrow> do { dwPassportId \<leftarrow> row_get fd_GetUInt64 0 q; Some ((E_LOGIN_RESULT_TYPE_OK, dwPassportId), s) }
          | None \<Rightarrow>
              do { strRegIp \<leftarrow> cd_escape api strRegIp s;
                   strRegDevice \<leftarrow> cd_escape api strRegDevice s;
                   strRegDeviceType \<leftarrow> cd_escape api strRegDeviceType s;
                   (now, s) \<leftarrow> GetDBTime api s;
                   ((ok, pid), s) \<leftarrow> InsertPassportInfo api strPlatformToken [] [] strUid strDeviceToken dwPlatform
                     E_LOGIN_AUTH_TYPE_PLATFORM now 0 (c_str strRegIp) (c_str strRegDevice) strRegDeviceType
                     strOpenUdid strAppleUdid odwPassportId E_CDK_STATE_NO_NEED_VERIFY s;
                   Some ((if ok then E_LOGIN_RESULT_TYPE_OK else E_LOGIN_RESULT_ERROR, pid), s) } }"

text \<open>\<open>ValidateAuthFast\<close>: a passport is looked for by its \<^verbatim>\<open>open_udid\<close> only, which is not escaped.\<close>

definition ValidateAuthFast ::
  "'c mysql_api \<Rightarrow> string \<Rightarrow> string \<Rightarrow> string \<Rightarrow> uint8 \<Rightarrow> string \<Rightarrow> uint32 \<Rightarrow> string \<Rightarrow> string \<Rightarrow> string \<Rightarrow> uint64 \<Rightarrow> uint8 \<Rightarrow>
   ('c, 'z, login_result \<times> uint64) cdb_fn" where
  "ValidateAuthFast api strUid strOpenUdid strAppleUdid byIOSVersion strDeviceToken dwPlatform strRegIp strRegDevice
     strRegDeviceType odwPassportId byCDKStatus s =
     do { strUid \<leftarrow> cd_escape api strUid s;
          strDeviceToken \<leftarrow> cd_escape api strDeviceToken s;
          (r, s) \<leftarrow> (if strOpenUdid \<noteq> []
             then cd_PQuery api ''select passport_id from passport_info where open_udid=%q and platform=%u and auth_type=%u''
                    [QS strOpenUdid, QU dwPlatform, QU E_LOGIN_AUTH_TYPE_FAST] s
             else Some (None, s));
          case r of
            Some q \<Rightarrow>
              do { dwPassport \<leftarrow> row_get fd_GetUInt64 0 q;
                   (_, s) \<leftarrow> (if strOpenUdid \<noteq> []
                      then cd_PExecute api ''update passport_info set open_udid=%q where passport_id=%llu'' [QS strOpenUdid, QU dwPassport] s
                      else Some (True, s));
                   (_, s) \<leftarrow> (if strAppleUdid \<noteq> []
                      then cd_PExecute api ''update passport_info set apple_udid=%q where passport_id=%llu'' [QS strAppleUdid, QU dwPassport] s
                      else Some (True, s));
                   Some ((E_LOGIN_RESULT_TYPE_OK, dwPassport), s) }
          | None \<Rightarrow>
              do { (now, s) \<leftarrow> GetDBTime api s;
                   ((ok, pid), s) \<leftarrow> InsertPassportInfo api strUid [] [] strUid strDeviceToken dwPlatform
                     E_LOGIN_AUTH_TYPE_FAST now 0 strRegIp strRegDevice strRegDeviceType strOpenUdid strAppleUdid odwPassportId
                     (if byCDKStatus = 0 then E_CDK_STATE_NO_NEED_VERIFY else E_CDK_STATE_NOT_VERIFIED) s;
                   Some ((if ok then E_LOGIN_RESULT_TYPE_OK else E_LOGIN_RESULT_ERROR, pid), s) } }"

definition RegisterPassport ::
  "'c mysql_api \<Rightarrow> string \<Rightarrow> string \<Rightarrow> string \<Rightarrow> string \<Rightarrow> string \<Rightarrow> uint32 \<Rightarrow> string \<Rightarrow> string \<Rightarrow> string \<Rightarrow> string \<Rightarrow> string \<Rightarrow>
   uint8 \<Rightarrow> ('c, 'z, bool) cdb_fn" where
  "RegisterPassport api strPassport strPwd strMail strUid strToken dwPlatform strRegIp strRegDevice strRegDeviceType
     strOpenUdid strAppleUdid byCDKStatus s =
     do { strPassport \<leftarrow> cd_escape api strPassport s;
          (r, s) \<leftarrow> cd_PQuery api ''select passport_id from passport_info where passport=%q and platform=%u and auth_type=%u''
            [QS strPassport, QU dwPlatform, QU E_LOGIN_AUTH_TYPE_ACCOUNT] s;
          if r \<noteq> None then Some (False, s)
          else do { strPwd \<leftarrow> cd_escape api strPwd s;
                    strMail \<leftarrow> cd_escape api strMail s;
                    strUid \<leftarrow> cd_escape api strUid s;
                    strToken \<leftarrow> cd_escape api strToken s;
                    strRegIp \<leftarrow> cd_escape api strRegIp s;
                    strRegDevice \<leftarrow> cd_escape api strRegDevice s;
                    strRegDeviceType \<leftarrow> cd_escape api strRegDeviceType s;
                    (now, s) \<leftarrow> GetDBTime api s;
                    ((ok, _), s) \<leftarrow> InsertPassportInfo api strPassport strPwd strMail strUid strToken dwPlatform
                      E_LOGIN_AUTH_TYPE_ACCOUNT now 0 strRegIp strRegDevice strRegDeviceType strOpenUdid strAppleUdid 0
                      (if byCDKStatus = 0 then E_CDK_STATE_NO_NEED_VERIFY else E_CDK_STATE_NOT_VERIFIED) s;
                    Some (ok, s) } }"

definition ModifyPassportAndPassword :: "'c mysql_api \<Rightarrow> uint64 \<Rightarrow> string \<Rightarrow> string \<Rightarrow> ('c, 'z, bool) cdb_fn" where
  "ModifyPassportAndPassword api dwPassportId dwPassport strPwd s =
     do { dwPassport \<leftarrow> cd_escape api dwPassport s;
          strPwd \<leftarrow> cd_escape api strPwd s;
          cd_PExecute api ''update passport_info set passport=%s, pwd=%s, auth_type=%u where passport_id=%llu''
            [QS dwPassport, QS strPwd, QU E_LOGIN_AUTH_TYPE_ACCOUNT, QU dwPassportId] s }"

definition ModifyPassword :: "'c mysql_api \<Rightarrow> uint64 \<Rightarrow> string \<Rightarrow> ('c, 'z, bool) cdb_fn" where
  "ModifyPassword api dwPassportId strNewPwd s =
     do { strNewPwd \<leftarrow> cd_escape api strNewPwd s;
          cd_PExecute api ''update passport_info set pwd=%q where passport_id=%llu and auth_type=%u''
            [QS strNewPwd, QU dwPassportId, QU E_LOGIN_AUTH_TYPE_ACCOUNT] s }"

definition GetPassportId :: "'c mysql_api \<Rightarrow> uint32 \<Rightarrow> ('c, 'z, uint64) cdb_fn" where
  "GetPassportId api dwRoleId s =
     cd_lookup api fd_GetUInt64 0 ''select passport_id from re_passport_player where role_id=%u'' [QU dwRoleId] s"

definition ModifyPassword_role :: "'c mysql_api \<Rightarrow> uint32 \<Rightarrow> string \<Rightarrow> string \<Rightarrow> ('c, 'z, bool) cdb_fn" where
  "ModifyPassword_role api dwRoleId strOldPwd strNewPwd s =
     do { strOldPwd \<leftarrow> cd_escape api strOldPwd s;
          strNewPwd \<leftarrow> cd_escape api strNewPwd s;
          (dwPassportId, s) \<leftarrow> GetPassportId api dwRoleId s;
          if dwPassportId = 0 then Some (False, s)
          else do { (r, s) \<leftarrow> cd_PQuery api ''select pwd, auth_type from passport_info where passport_id=%llu'' [QU dwPassportId] s;
                    case r of
                      None \<Rightarrow> Some (False, s)
                    | Some q \<Rightarrow>
                        do { strPwd \<leftarrow> row_get fd_GetString 0 q;
                             byAuthType \<leftarrow> row_get fd_GetUInt8 1 q;
                             if byAuthType \<noteq> E_LOGIN_AUTH_TYPE_ACCOUNT then Some (False, s)
                             else if strPwd \<noteq> strOldPwd then Some (False, s)
                             else cd_PExecute api ''update passport_info set pwd=%q where passport_id=%llu''
                                    [QS strNewPwd, QU dwPassportId] s } } }"

definition UpdateCDKStatus :: "'c mysql_api \<Rightarrow> uint64 \<Rightarrow> uint8 \<Rightarrow> ('c, 'z, bool) cdb_fn" where
  "UpdateCDKStatus api dwPassportId byCDKStatus s =
     cd_PExecute api ''update passport_info set cdk_status=%q where passport_id=%llu''
       [QS (dec_str (unat byCDKStatus)), QU dwPassportId] s"

record passport_info =
  pi_ddwPassportId :: uint64
  pi_strPassport :: string
  pi_strPwd :: string
  pi_strMail :: string
  pi_strUid :: string
  pi_strToken :: string
  pi_dwPlatform :: uint32
  pi_byAuthType :: uint8
  pi_dwCreateTime :: uint32
  pi_byGmAuth :: uint8
  pi_strCreateIp :: string
  pi_strCreateDevice :: string
  pi_strCreateDeviceType :: string
  pi_dwLastLoginTime :: uint32
  pi_dwLastLoginServerId :: uint32
  pi_strOpenUdid :: string
  pi_strAppleUdid :: string
  pi_strTokenIp :: string
  pi_dwTokenTime :: uint32
  pi_byCDKStatus :: uint8

definition pi_new :: passport_info where
  "pi_new =
     \<lparr>pi_ddwPassportId = 0, pi_strPassport = [], pi_strPwd = [], pi_strMail = [], pi_strUid = [], pi_strToken = [],
      pi_dwPlatform = 0, pi_byAuthType = 0, pi_dwCreateTime = 0, pi_byGmAuth = 0, pi_strCreateIp = [],
      pi_strCreateDevice = [], pi_strCreateDeviceType = [], pi_dwLastLoginTime = 0, pi_dwLastLoginServerId = 0,
      pi_strOpenUdid = [], pi_strAppleUdid = [], pi_strTokenIp = [], pi_dwTokenTime = 0, pi_byCDKStatus = 0\<rparr>"

definition read_passport_info :: "uint64 \<Rightarrow> query_result \<Rightarrow> passport_info option" where
  "read_passport_info dwPassportId q =
     do { strPassport \<leftarrow> row_get fd_GetString 0 q;
          strPwd \<leftarrow> row_get fd_GetString 1 q;
          strMail \<leftarrow> row_get fd_GetString 2 q;
          strUid \<leftarrow> row_get fd_GetString 3 q;
          strToken \<leftarrow> row_get fd_GetString 4 q;
          dwPlatform \<leftarrow> row_get fd_GetUInt32 5 q;
          byAuthType \<leftarrow> row_get fd_GetUInt8 6 q;
          dwCreateTime \<leftarrow> row_get fd_GetUInt32 7 q;
          byGmAuth \<leftarrow> row_get fd_GetUInt8 8 q;
          strCreateIp \<leftarrow> row_get fd_GetString 9 q;
          strCreateDevice \<leftarrow> row_get fd_GetString 10 q;
          strCreateDeviceType \<leftarrow> row_get fd_GetString 11 q;
          dwLastLoginTime \<leftarrow> row_get fd_GetUInt32 12 q;
          dwLastLoginServerId \<leftarrow> row_get fd_GetUInt32 13 q;
          strOpenUdid \<leftarrow> row_get fd_GetString 14 q;
          strAppleUdid \<leftarrow> row_get fd_GetString 15 q;
          strTokenIp \<leftarrow> row_get fd_GetString 16 q;
          dwTokenTime \<leftarrow> row_get fd_GetUInt32 17 q;
          byCDKStatus \<leftarrow> row_get fd_GetUInt8 18 q;
          Some \<lparr>pi_ddwPassportId = dwPassportId, pi_strPassport = strPassport, pi_strPwd = strPwd, pi_strMail = strMail,
                pi_strUid = strUid, pi_strToken = strToken, pi_dwPlatform = dwPlatform, pi_byAuthType = byAuthType,
                pi_dwCreateTime = dwCreateTime, pi_byGmAuth = byGmAuth, pi_strCreateIp = strCreateIp,
                pi_strCreateDevice = strCreateDevice, pi_strCreateDeviceType = strCreateDeviceType,
                pi_dwLastLoginTime = dwLastLoginTime, pi_dwLastLoginServerId = dwLastLoginServerId,
                pi_strOpenUdid = strOpenUdid, pi_strAppleUdid = strAppleUdid, pi_strTokenIp = strTokenIp,
                pi_dwTokenTime = dwTokenTime, pi_byCDKStatus = byCDKStatus\<rparr> }"

definition GetPassportInfo :: "'c mysql_api \<Rightarrow> uint64 \<Rightarrow> passport_info \<Rightarrow> ('c, 'z, bool \<times> passport_info) cdb_fn" where
  "GetPassportInfo api dwPassportId stcInfo s =
     do { (r, s) \<leftarrow> cd_PQuery api
            (''select passport, pwd, mail, uid, token, platform, auth_type, create_time, gm_auth, reg_ip, reg_device, reg_device_type, '' @
             ''last_login_time, last_login_server, open_udid, apple_udid, token_ip, token_time, cdk_status from passport_info where passport_id=%llu'')
            [QU dwPassportId] s;
          case r of
            None \<Rightarrow> Some ((False, stcInfo), s)
          | Some q \<Rightarrow> do { info \<leftarrow> read_passport_info dwPassportId q; Some ((True, info), s) } }"

definition UpdatePassportGmAuth :: "'c mysql_api \<Rightarrow> uint64 \<Rightarrow> uint8 \<Rightarrow> ('c, 'z, bool) cdb_fn" where
  "UpdatePassportGmAuth api dwPassportId byGmAuth s =
     cd_PExecute api ''update passport_info set gm_auth=%u where passport_id=%llu'' [QU byGmAuth, QU dwPassportId] s"

definition SetLastLoginServer :: "'c mysql_api \<Rightarrow> uint64 \<Rightarrow> uint16 \<Rightarrow> ('c, 'z, bool) cdb_fn" where
  "SetLastLoginServer api dwPassportId wServerId s =
     cd_PExecute api ''update passport_info set last_login_server=%u where passport_id=%llu'' [QU wServerId, QU dwPassportId] s"

definition UpdateRoleToken :: "'c mysql_api \<Rightarrow> uint32 \<Rightarrow> string \<Rightarrow> ('c, 'z, uint64) cdb_fn" where
  "UpdateRoleToken api dwRoleId strToken s =
     do { strToken \<leftarrow> cd_escape api strToken s;
          (r, s) \<leftarrow> cd_PQuery api ''select passport_id from re_passport_player where role_id=%u'' [QU dwRoleId] s;
          case r of
            None \<Rightarrow> Some (0, s)
          | Some q \<Rightarrow>
              do { ret \<leftarrow> row_get fd_GetUInt64 0 q;
                   (_, s) \<leftarrow> cd_PExecute api ''update passport_info set token=%q where passport_id=%llu'' [QS strToken, QU ret] s;
                   Some (ret, s) } }"

text \<open>\<open>BindPassport\<close> binds the passport of a role to an account name or to a platform account.\<close>

definition E_LOGIN_BIND_SUCC :: uint8 where "E_LOGIN_BIND_SUCC = 0"
definition E_LOGIN_BIND_EMPTY_PASSPORT :: uint8 where "E_LOGIN_BIND_EMPTY_PASSPORT = 1"
definition E_LOGIN_BIND_INVALID_PWD_OR_MAIL :: uint8 where "E_LOGIN_BIND_INVALID_PWD_OR_MAIL = 2"
definition E_LOGIN_BIND_PASSPORT_NOT_EXIST :: uint8 where "E_LOGIN_BIND_PASSPORT_NOT_EXIST = 3"
definition E_LOGIN_BIND_DUPLICATE_PASSPORT :: uint8 where "E_LOGIN_BIND_DUPLICATE_PASSPORT = 4"
definition E_LOGIN_BIND_INVALID_AUTH_TYPE :: uint8 where "E_LOGIN_BIND_INVALID_AUTH_TYPE = 5"

definition BindPassport :: "'c mysql_api \<Rightarrow> uint32 \<Rightarrow> uint8 \<Rightarrow> string \<Rightarrow> string \<Rightarrow> string \<Rightarrow> ('c, 'z, uint8) cdb_fn" where
  "BindPassport api dwRoleId eAuthType strPassport strPassword strMail s =
     (if strPassport = [] then Some (E_LOGIN_BIND_EMPTY_PASSPORT, s)
      else if eAuthType = E_LOGIN_AUTH_TYPE_ACCOUNT \<and> (length strPassword < 6 \<or> strMail = [])
      then Some (E_LOGIN_BIND_INVALID_PWD_OR_MAIL, s)
      else do { (dwPassportId, s) \<leftarrow> GetPassportId api dwRoleId s;
                if dwPassportId = 0 then Some (E_LOGIN_BIND_PASSPORT_NOT_EXIST, s)
                else do { ((_, stcInfo), s) \<leftarrow> GetPassportInfo api dwPassportId pi_new s;
                          strPassport \<leftarrow> cd_escape api strPassport s;
                          strMail \<leftarrow> cd_escape api strMail s;
                          (r, s) \<leftarrow> cd_PQuery api ''select passport_id from passport_info where auth_type=%u and platform=%u and passport=%q''
                            [QU eAuthType, QU (pi_dwPlatform stcInfo), QS strPassport] s;
                          case r of
                            Some q \<Rightarrow>
                              do { other \<leftarrow> row_get fd_GetUInt64 0 q;
                                   Some (if other \<noteq> dwPassportId then E_LOGIN_BIND_DUPLICATE_PASSPORT else E_LOGIN_BIND_SUCC, s) }
                          | None \<Rightarrow>
                              if eAuthType = E_LOGIN_AUTH_TYPE_ACCOUNT
                              then do { (_, s) \<leftarrow> cd_PExecute api
                                          ''update passport_info set passport=%q, pwd=%q, mail=%q, auth_type=%u where passport_id=%llu''
                                          [QS strPassport, QS strPassword, QS strMail, QU eAuthType, QU dwPassportId] s;
                                        Some (E_LOGIN_BIND_SUCC, s) }
                              else if eAuthType = E_LOGIN_AUTH_TYPE_PLATFORM
                              then do { (_, s) \<leftarrow> cd_PExecute api
                                          ''update passport_info set passport=%q, auth_type=%u where passport_id=%llu''
                                          [QS strPassport, QU eAuthType, QU dwPassportId] s;
                                        Some (E_LOGIN_BIND_SUCC, s) }
                              else Some (E_LOGIN_BIND_INVALID_AUTH_TYPE, s) } })"

section \<open>Login tokens\<close>

definition CreateLoginToken :: "'c mysql_api \<Rightarrow> uint64 \<Rightarrow> string \<Rightarrow> bool \<Rightarrow> ('c, 'z, unit) cdb_fn" where
  "CreateLoginToken api ddwPassportId strIp bIsShadowLogin s =
     do { (now, s) \<leftarrow> GetDBTime api s;
          (_, s) \<leftarrow> cd_PExecute api
            ''update passport_info set token_ip=%q, token_time=%u, shadow_login=%u where passport_id=%llu''
            [QS strIp, QU now, QN (if bIsShadowLogin then 1 else 0), QU ddwPassportId] s;
          Some ((), s) }"

definition ClearLoginToken :: "'c mysql_api \<Rightarrow> uint32 \<Rightarrow> ('c, 'z, unit) cdb_fn" where
  "ClearLoginToken api dwRoleId s =
     do { (pid, s) \<leftarrow> GetPassportId api dwRoleId s;
          (_, s) \<leftarrow> cd_PExecute api ''update passport_info set token_ip=%q, token_time=0 where passport_id=%llu'' [QS [], QU pid] s;
          Some ((), s) }"

text \<open>\<open>CheckIp\<close>: four parts, each a number, a range or a star.\<close>

definition ip_part_ok :: "string \<Rightarrow> string \<Rightarrow> bool" where
  "ip_part_ok t p =
     (if p = ''*'' then True
      else if CHR ''-'' \<in> set p
      then (let r = StrSplit p ''-'' in
            if length r \<noteq> 2 then False
            else let a = c_atoi_int t; lo = c_atoi_int (r ! 0); hi = c_atoi_int (r ! 1);
                     (lo, hi) = (if lo > hi then (hi, lo) else (lo, hi))
                 in \<not> (a < lo \<or> a > hi))
      else c_atoi_int t = c_atoi_int p)"

definition CheckIp :: "string \<Rightarrow> string \<Rightarrow> bool" where
  "CheckIp strIp strPattern =
     (let vTarget = StrSplit strIp ''.''; vPattern = StrSplit strPattern ''.'' in
      length vTarget = 4 \<and> length vPattern = 4 \<and> list_all2 ip_part_ok vTarget vPattern)"

definition DAY :: uint32 where "DAY = 86400"

text \<open>The white list is only asked once the token is a day old.\<close>

definition ip_in_white :: "string \<Rightarrow> query_result \<Rightarrow> bool \<Rightarrow> bool option" where
  "ip_in_white strIp q found =
     (if found then Some True else do { p \<leftarrow> row_get fd_GetString 0 q; Some (CheckIp strIp p) })"

definition CheckLoginToken :: "'c mysql_api \<Rightarrow> uint32 \<Rightarrow> string \<Rightarrow> bool \<Rightarrow> ('c, 'z, bool \<times> bool) cdb_fn" where
  "CheckLoginToken api dwRoleId strIp bIsShadowLogin s =
     do { (pid, s) \<leftarrow> GetPassportId api dwRoleId s;
          if pid = 0 then Some ((False, bIsShadowLogin), s)
          else do { (r, s) \<leftarrow> cd_PQuery api ''select token_ip, token_time,shadow_login from passport_info where passport_id=%llu'' [QU pid] s;
                    case r of
                      None \<Rightarrow> Some ((False, bIsShadowLogin), s)
                    | Some q \<Rightarrow>
                        do { _ \<leftarrow> row_get fd_GetString 0 q;
                             dwLoginTime \<leftarrow> row_get fd_GetUInt32 1 q;
                             shadow \<leftarrow> row_get fd_GetUInt8 2 q;
                             let bIsShadowLogin = (shadow \<noteq> 0);
                             (now, s) \<leftarrow> GetDBTime api s;
                             if now < dwLoginTime + DAY then Some ((True, bIsShadowLogin), s)
                             else do { (r, s) \<leftarrow> cd_PQuery api ''select value from login_strategy where strategy_id=255 and type=%u'' [QN 2] s;
                                       case r of
                                         None \<Rightarrow> Some ((False, bIsShadowLogin), s)
                                       | Some q \<Rightarrow> do { white \<leftarrow> qr_each (ip_in_white strIp) q False;
                                                        Some ((white, bIsShadowLogin), s) } } } } }"

section \<open>Servers\<close>

record server_status =
  ss_dwServerId :: uint32
  ss_strServerName :: string
  ss_strIp :: string
  ss_strLocalIp :: string
  ss_dwPort :: uint32
  ss_strVersion :: string
  ss_strClientVer :: string
  ss_strClientResVer :: string
  ss_strResVer :: string
  ss_strResServerAddr :: string
  ss_dwOnlineNum :: uint32
  ss_byCanLogin :: uint8
  ss_byStatus :: uint8
  ss_dwLoginStrategy :: uint32
  ss_dwLastUpdateTime :: uint32
  ss_bIsAlive :: bool
  ss_bIsTest :: bool
  ss_byActivateReq :: uint8
  ss_byServerIdentify :: uint8
  ss_strDbName :: string

definition UpdateGameServerInfo ::
  "'c mysql_api \<Rightarrow> server_status \<Rightarrow> uint8 \<Rightarrow> ('c, 'z, bool) cdb_fn" where
  "UpdateGameServerInfo api p byIsTest s =
     do { strIp \<leftarrow> cd_escape api (ss_strIp p) s;
          strServerName \<leftarrow> cd_escape api (ss_strServerName p) s;
          strVersion \<leftarrow> cd_escape api (ss_strVersion p) s;
          strClientVersion \<leftarrow> cd_escape api (ss_strClientVer p) s;
          strResVersion \<leftarrow> cd_escape api (ss_strResVer p) s;
          strLocalIp \<leftarrow> cd_escape api (ss_strLocalIp p) s;
          strResServerAddr \<leftarrow> cd_escape api (ss_strResServerAddr p) s;
          strDbName \<leftarrow> cd_escape api (ss_strDbName p) s;
          (t2, s) \<leftarrow> GetDBTime api s;
          (t1, s) \<leftarrow> GetDBTime api s;
          cd_PExecute api
            (''insert into gameserver_info '' @
             ''(server_id, server_name, ip, local_ip, port, version, res_version, res_version_config, online_num, can_login, status, login_strategy_id, res_server_ip, update_time, server_identify,is_test,db_name) '' @
             ''values(%u, %q, %q, %q, %u, %q, %q, %q, %u, %u, %u, %u, %q, %u, %u,%u,%q) on duplicate key update '' @
             ''server_name=%q, ip=%q,local_ip=%q, port=%u, version=%q, res_version=%q, res_version_config=%q, '' @
             ''online_num=%u, can_login=%u, status=%u, login_strategy_id=%u, res_server_ip=%q, update_time=%u, server_identify=%u, is_test=%u, db_name=%q'')
            ([QU (ss_dwServerId p)] @
             [QS strServerName, QS strIp, QS strLocalIp, QU (ss_dwPort p), QS strVersion, QS strClientVersion, QS strResVersion,
              QU (ss_dwOnlineNum p), QU (ss_byCanLogin p), QU (ss_byStatus p), QU (ss_dwLoginStrategy p), QS strResServerAddr,
              QU t1, QU (ss_byServerIdentify p), QU byIsTest, QS strDbName] @
             [QS strServerName, QS strIp, QS strLocalIp, QU (ss_dwPort p), QS strVersion, QS strClientVersion, QS strResVersion,
              QU (ss_dwOnlineNum p), QU (ss_byCanLogin p), QU (ss_byStatus p), QU (ss_dwLoginStrategy p), QS strResServerAddr,
              QU t2, QU (ss_byServerIdentify p), QU byIsTest, QS strDbName]) s }"

definition UpdateRelayServerInfo :: "'c mysql_api \<Rightarrow> uint32 \<Rightarrow> uint8 \<Rightarrow> uint32 \<Rightarrow> uint32 \<Rightarrow> ('c, 'z, bool) cdb_fn" where
  "UpdateRelayServerInfo api dwServerId byType dwGroup dwDBTime s =
     cd_PExecute api
       (''insert into relayserver_info (relay_type, relay_group, server_id, update_time) '' @
        ''values(%u,%u,%u,%u) on duplicate key update server_id=%u, update_time=%u'')
       [QU byType, QU dwGroup, QU dwServerId, QU dwDBTime, QU dwServerId, QU dwDBTime] s"

definition UpdateBattleserverInfo :: "'c mysql_api \<Rightarrow> uint32 \<Rightarrow> uint32 \<Rightarrow> uint32 \<Rightarrow> uint32 \<Rightarrow> ('c, 'z, bool) cdb_fn" where
  "UpdateBattleserverInfo api dwRelayId dwTotal dwRunning dwPlayerNum s =
     cd_PExecute api
       (''insert into battleserver_info (relay_id, connect_num, running_battle, player_num) '' @
        ''values(%u, %u,%u,%u) on duplicate key update relay_id=%u, connect_num=%u,running_battle=%u,player_num=%u'')
       [QU dwRelayId, QU dwTotal, QU dwRunning, QU dwPlayerNum, QU dwRelayId, QU dwTotal, QU dwRunning, QU dwPlayerNum] s"

definition DelBattleServer :: "'c mysql_api \<Rightarrow> string \<Rightarrow> uint32 \<Rightarrow> ('c, 'z, bool) cdb_fn" where
  "DelBattleServer api ip dwPort s =
     cd_PExecute api ''delete from battleserver_list where server_ip =%q and server_port = %u'' [QS ip, QU dwPort] s"

definition GetServerMergeLog :: "'c mysql_api \<Rightarrow> (uint32 \<times> uint32) list \<Rightarrow> ('c, 'z, (uint32 \<times> uint32) list) cdb_fn" where
  "GetServerMergeLog api mapMergeTable s =
     do { (r, s) \<leftarrow> cd_PQuery api ''select server_id_origin,server_id_merged from gameserver_merge_log'' [] s;
          case r of
            None \<Rightarrow> Some (mapMergeTable, s)
          | Some q \<Rightarrow>
              do { m \<leftarrow> qr_each (\<lambda>q m. do { origin \<leftarrow> row_get fd_GetUInt32 0 q; target \<leftarrow> row_get fd_GetUInt32 1 q;
                                              Some (omap_set origin target m) }) q mapMergeTable;
                   Some (m, s) } }"

definition GetMergedRoleIds :: "'c mysql_api \<Rightarrow> (uint32 \<times> uint32) list \<Rightarrow> uint32 \<Rightarrow> ('c, 'z, (uint32 \<times> uint32) list) cdb_fn" where
  "GetMergedRoleIds api mapRoleOriginSID dwServerId s =
     do { (r, s) \<leftarrow> cd_PQuery api
            (''select role_id,server_id_origin from re_passport_info '' @ '' where server_id=%u server_id_origin!=server_id'')
            [QU dwServerId] s;
          case r of
            None \<Rightarrow> Some (mapRoleOriginSID, s)
          | Some q \<Rightarrow>
              do { m \<leftarrow> qr_each (\<lambda>q m. do { role \<leftarrow> row_get fd_GetUInt32 0 q; origin \<leftarrow> row_get fd_GetUInt32 1 q;
                                              Some (omap_set role origin m) }) q mapRoleOriginSID;
                   Some (m, s) } }"

text \<open>
  \<open>GetServerIdMerged\<close> asks the database for the server a server was merged into until there is none;
  it need not end when merges go round in a circle.
\<close>

lemma cd_PQuery_mono [partial_function_mono]:
  assumes "\<And>r s'. mono_option (\<lambda>f. C r s' f)"
  shows "mono_option (\<lambda>f. Option.bind (cd_PQuery api q as s) (\<lambda>(r, s'). C r s' f))"
proof -
  have "mono_option (\<lambda>f. case p of (r, s') \<Rightarrow> C r s' f)" for p
    using assms by (cases p) simp
  then show ?thesis by (intro bind_mono) (simp_all add: partial_function_mono)
qed

partial_function (option) merged_loop :: "'c mysql_api \<Rightarrow> uint32 \<Rightarrow> ('c, 'z, uint32) cdb_fn" where
  "merged_loop api dwId s =
     Option.bind (cd_PQuery api ''select server_id_merged from gameserver_merge_log where server_id_origin = %u'' [QU dwId] s)
       (\<lambda>(r, s). case r of None \<Rightarrow> Some (dwId, s)
          | Some q \<Rightarrow> Option.bind (row_get fd_GetUInt32 0 q) (\<lambda>dwId. merged_loop api dwId s))"

declare merged_loop.simps [code]

definition GetServerIdMerged :: "'c mysql_api \<Rightarrow> uint32 \<Rightarrow> ('c, 'z, uint32) cdb_fn" where
  "GetServerIdMerged api dwServerIdOrigin s = merged_loop api dwServerIdOrigin s"

record server_merge =
  sm_originid :: uint32
  sm_mergeid :: uint32
  sm_mergetype :: uint32

definition read_merge :: "query_result \<Rightarrow> (uint32 \<times> server_merge) list \<Rightarrow> (uint32 \<times> server_merge) list option" where
  "read_merge q m =
     do { originid \<leftarrow> row_get fd_GetUInt32 0 q;
          mergeid \<leftarrow> row_get fd_GetUInt32 1 q;
          mergetype \<leftarrow> row_get fd_GetUInt32 2 q;
          Some (omap_set originid \<lparr>sm_originid = originid, sm_mergeid = mergeid, sm_mergetype = mergetype\<rparr> m) }"

text \<open>A chain of merges is followed to its end; on a circle the loop does not end.\<close>

partial_function (option) follow_merge :: "(uint32 \<times> server_merge) list \<Rightarrow> server_merge \<Rightarrow> server_merge option" where
  "follow_merge m stc =
     (case map_of m (sm_mergeid stc) of
        None \<Rightarrow> Some stc
      | Some nxt \<Rightarrow> follow_merge m (stc\<lparr>sm_mergeid := sm_mergeid nxt, sm_mergetype := sm_mergetype nxt\<rparr>))"

declare follow_merge.simps [code]

fun resolve_merges ::
  "(uint32 \<times> server_merge) list \<Rightarrow> (uint32 \<times> server_merge) list \<Rightarrow> (uint32 \<times> server_merge) list \<Rightarrow>
   (uint32 \<times> server_merge) list option" where
  "resolve_merges m [] out = Some out"
| "resolve_merges m ((k, stc) # r) out =
     do { stc \<leftarrow> follow_merge m stc; resolve_merges m r (omap_set k stc out) }"

definition GetMergedListInfo ::
  "'c mysql_api \<Rightarrow> (uint32 \<times> server_merge) list \<Rightarrow> ('c, 'z, bool \<times> (uint32 \<times> server_merge) list) cdb_fn" where
  "GetMergedListInfo api out s =
     do { (r, s) \<leftarrow> cd_PQuery api ''SELECT `server_id_origin`,`server_id_merged`,merge_type FROM `gameserver_merge_log`;'' [] s;
          case r of
            None \<Rightarrow> Some ((False, out), s)
          | Some q \<Rightarrow>
              do { id2MergeMap \<leftarrow> qr_each read_merge q [];
                   out \<leftarrow> resolve_merges id2MergeMap id2MergeMap [];
                   Some ((True, out), s) } }"

definition GetServerIdOriginByRoleId :: "'c mysql_api \<Rightarrow> uint32 \<Rightarrow> ('c, 'z, uint32) cdb_fn" where
  "GetServerIdOriginByRoleId api roleId s =
     cd_lookup api fd_GetUInt32 0 ''select server_id_origin from re_passport_player where role_id = %u'' [QU roleId] s"

definition UpdateClosedGameServer :: "'c mysql_api \<Rightarrow> uint32 \<Rightarrow> ('c, 'z, bool) cdb_fn" where
  "UpdateClosedGameServer api dwServerId s =
     do { (r, s) \<leftarrow> cd_PQuery api ''select online_num from gameserver_info where server_id=%u'' [QU dwServerId] s;
          case r of
            None \<Rightarrow> Some (False, s)
          | Some q \<Rightarrow>
              do { wOnlineNum \<leftarrow> row_get fd_GetUInt16 0 q;
                   (_, s) \<leftarrow> (if wOnlineNum \<noteq> 0
                      then cd_PExecute api ''update gameserver_info set online_num=%u where server_id=%u'' [QN 0, QU dwServerId] s
                      else Some (True, s));
                   Some (True, s) } }"

definition read_server_status :: "query_result \<Rightarrow> server_status option" where
  "read_server_status q =
     do { wServerId \<leftarrow> row_get fd_GetUInt16 0 q;
          strServerName \<leftarrow> row_get fd_GetString 1 q;
          strIp \<leftarrow> row_get fd_GetString 2 q;
          strLocalIp \<leftarrow> row_get fd_GetString 3 q;
          dwPort \<leftarrow> row_get fd_GetUInt32 4 q;
          strVersion \<leftarrow> row_get fd_GetString 5 q;
          strClientVer \<leftarrow> row_get fd_GetString 6 q;
          strResVer \<leftarrow> row_get fd_GetString 7 q;
          dwOnlineNum \<leftarrow> row_get fd_GetUInt32 8 q;
          byCanLogin \<leftarrow> row_get fd_GetUInt8 9 q;
          byStatus \<leftarrow> row_get fd_GetUInt8 10 q;
          dwLoginStrategy \<leftarrow> row_get fd_GetUInt32 11 q;
          strResServerAddr \<leftarrow> row_get fd_GetString 12 q;
          dwLastUpdateTime \<leftarrow> row_get fd_GetUInt32 13 q;
          bIsTest \<leftarrow> row_get fd_GetBool 14 q;
          byActivateReq \<leftarrow> row_get fd_GetUInt8 15 q;
          byServerIdentify \<leftarrow> row_get fd_GetUInt8 16 q;
          strDbName \<leftarrow> row_get fd_GetString 17 q;
          let vs = StrSplit strClientVer ''-'';
          Some \<lparr>ss_dwServerId = ucast wServerId, ss_strServerName = strServerName, ss_strIp = strIp, ss_strLocalIp = strLocalIp,
                ss_dwPort = dwPort, ss_strVersion = strVersion,
                ss_strClientVer = (if length vs \<ge> 1 then vs ! 0 else strClientVer),
                ss_strClientResVer = (if length vs \<ge> 2 then vs ! 1 else []),
                ss_strResVer = strResVer, ss_strResServerAddr = strResServerAddr, ss_dwOnlineNum = dwOnlineNum,
                ss_byCanLogin = byCanLogin, ss_byStatus = byStatus, ss_dwLoginStrategy = dwLoginStrategy,
                ss_dwLastUpdateTime = dwLastUpdateTime, ss_bIsAlive = False, ss_bIsTest = bIsTest,
                ss_byActivateReq = byActivateReq, ss_byServerIdentify = byServerIdentify, ss_strDbName = strDbName\<rparr> }"

type_synonym server_map = "(uint32 \<times> server_status) list"

text \<open>
  One row of the poll: a server that is known is alive when its update time has changed; a new one
  is not alive yet.
\<close>

definition poll_server :: "'c mysql_api \<Rightarrow> query_result \<Rightarrow> server_map \<times> ('c, 'z) center_db_scheme \<Rightarrow>
    (server_map \<times> ('c, 'z) center_db_scheme) option" where
  "poll_server api q ms =
     do { let (m, s) = ms;
          stcServer \<leftarrow> read_server_status q;
          let k = ss_dwServerId stcServer;
          case map_of m k of
            Some old \<Rightarrow>
              do { let alive = (ss_dwLastUpdateTime old \<noteq> ss_dwLastUpdateTime stcServer);
                   let m = omap_set k (stcServer\<lparr>ss_bIsAlive := alive\<rparr>) m;
                   (_, s) \<leftarrow> (if \<not> alive then UpdateClosedGameServer api k s else Some (True, s));
                   Some (m, s) }
          | None \<Rightarrow> Some (omap_insert k stcServer m, s) }"

text \<open>A server that is not alive and was merged takes over what its master has.\<close>

definition copy_master :: "uint32 \<Rightarrow> server_status \<Rightarrow> server_status \<Rightarrow> server_status" where
  "copy_master dwMergedType master it =
     it\<lparr>ss_strIp := ss_strIp master, ss_dwPort := ss_dwPort master, ss_strVersion := ss_strVersion master,
        ss_strClientVer := ss_strClientVer master, ss_strResVer := ss_strResVer master, ss_dwOnlineNum := 0,
        ss_byCanLogin := ss_byCanLogin master, ss_byStatus := ss_byStatus master,
        ss_dwLoginStrategy := (if dwMergedType = 0 then ss_dwLoginStrategy master else ss_dwLoginStrategy it),
        ss_strResServerAddr := ss_strResServerAddr master, ss_bIsAlive := ss_bIsAlive master,
        ss_bIsTest := ss_bIsTest master, ss_byActivateReq := ss_byActivateReq master,
        ss_byServerIdentify := ss_byServerIdentify master, ss_strDbName := ss_strDbName master\<rparr>"

definition take_over :: "server_merge option \<Rightarrow> server_map \<Rightarrow> server_status \<Rightarrow> server_status" where
  "take_over mg m it =
     (let dwServerIdMerged = (case mg of None \<Rightarrow> ss_dwServerId it | Some stc \<Rightarrow> sm_mergeid stc);
          dwMergedType = (case mg of None \<Rightarrow> 0 | Some stc \<Rightarrow> sm_mergetype stc) in
      if ss_bIsAlive it \<or> dwServerIdMerged = ss_dwServerId it then it
      else case map_of m dwServerIdMerged of
             None \<Rightarrow> it
           | Some master \<Rightarrow> copy_master dwMergedType master it)"

fun take_over_all :: "(uint32 \<times> server_merge) list \<Rightarrow> uint32 list \<Rightarrow> server_map \<Rightarrow> server_map" where
  "take_over_all merges [] m = m"
| "take_over_all merges (k # ks) m =
     (case map_of m k of
        None \<Rightarrow> take_over_all merges ks m
      | Some it \<Rightarrow> take_over_all merges ks (omap_set k (take_over (map_of merges (ss_dwServerId it)) m it) m))"

definition server_list_sql :: string where
  "server_list_sql =
     ''select server_id, server_name, ip,local_ip,port,version,res_version,res_version_config,online_num,can_login,status,'' @
     ''login_strategy_id, res_server_ip, update_time, is_test, activate_req, server_identify, db_name from gameserver_info''"

definition GetOrUpdateGameServerStatus :: "'c mysql_api \<Rightarrow> server_map \<Rightarrow> ('c, 'z, server_map) cdb_fn" where
  "GetOrUpdateGameServerStatus api mapServer s =
     do { let m = map (\<lambda>(k, st). (k, st\<lparr>ss_bIsAlive := False\<rparr>)) mapServer;
          (r, s) \<leftarrow> cd_PQuery api server_list_sql [] s;
          case r of
            None \<Rightarrow> Some (m, s)
          | Some q \<Rightarrow>
              do { (m, s) \<leftarrow> qr_each (poll_server api) q (m, s);
                   ((_, merges), s) \<leftarrow> GetMergedListInfo api [] s;
                   Some (take_over_all merges (map fst m) m, s) } }"

definition IsTestServer :: "'c mysql_api \<Rightarrow> uint32 \<Rightarrow> ('c, 'z, bool) cdb_fn" where
  "IsTestServer api dwServerId s =
     do { (v, s) \<leftarrow> cd_lookup api fd_GetUInt8 0 ''select is_test from gameserver_info where server_id=%u'' [QU dwServerId] s;
          Some (v \<noteq> 0, s) }"

definition cd_server_string :: "'c mysql_api \<Rightarrow> string \<Rightarrow> uint32 \<Rightarrow> string \<Rightarrow> ('c, 'z, bool \<times> string) cdb_fn" where
  "cd_server_string api column dwServerId out s =
     do { (r, s) \<leftarrow> cd_PQuery api (''select '' @ column @ '' from gameserver_info where server_id=%u'') [QU dwServerId] s;
          case r of None \<Rightarrow> Some ((False, out), s) | Some q \<Rightarrow> do { v \<leftarrow> row_get fd_GetString 0 q; Some ((True, v), s) } }"

definition GetServerName :: "'c mysql_api \<Rightarrow> uint32 \<Rightarrow> string \<Rightarrow> ('c, 'z, bool \<times> string) cdb_fn" where
  "GetServerName api dwServerId out s = cd_server_string api ''server_name'' dwServerId out s"

definition GetServerLocalIp :: "'c mysql_api \<Rightarrow> uint32 \<Rightarrow> string \<Rightarrow> ('c, 'z, bool \<times> string) cdb_fn" where
  "GetServerLocalIp api dwServerId out s = cd_server_string api ''local_ip'' dwServerId out s"

definition GetServerDbName :: "'c mysql_api \<Rightarrow> uint32 \<Rightarrow> string \<Rightarrow> ('c, 'z, bool \<times> string) cdb_fn" where
  "GetServerDbName api dwServerId out s = cd_server_string api ''db_name'' dwServerId out s"

definition UpdateServerIsTest :: "'c mysql_api \<Rightarrow> uint32 \<Rightarrow> uint32 \<Rightarrow> ('c, 'z, bool) cdb_fn" where
  "UpdateServerIsTest api dwServerId dwIsTest s =
     cd_PExecute api ''update gameserver_info set is_test = %u where server_id = %u'' [QU dwIsTest, QU dwServerId] s"

text \<open>
  Relay servers, by type and group. \<open>bIsAlive\<close> of a new entry is not initialised in the source;
  here it is the argument \<open>junk\<close>. The loop over merge groups looks up the entry it started from, so
  it always stops there and keeps the server id.
\<close>

record relay_status =
  rs_dwServerId :: uint32
  rs_byType :: uint8
  rs_dwGroup :: uint32
  rs_byMergeGroup :: uint8
  rs_dwUpdateTime :: uint32
  rs_bIsAlive :: bool

type_synonym relay_map = "((uint8 \<times> uint32) \<times> relay_status) list"

fun relay_set :: "uint8 \<times> uint32 \<Rightarrow> relay_status \<Rightarrow> relay_map \<Rightarrow> relay_map" where
  "relay_set k v [] = [(k, v)]"
| "relay_set k v ((k', v') # m) =
     (if k = k' then (k, v) # m
      else if fst k < fst k' \<or> fst k = fst k' \<and> snd k < snd k' then (k, v) # (k', v') # m
      else (k', v') # relay_set k v m)"

definition read_relay_status :: "bool \<Rightarrow> query_result \<Rightarrow> relay_status option" where
  "read_relay_status junk q =
     do { byType \<leftarrow> row_get fd_GetUInt8 0 q;
          dwGroup \<leftarrow> row_get fd_GetUInt32 1 q;
          wServerId \<leftarrow> row_get fd_GetUInt16 2 q;
          dwUpdateTime \<leftarrow> row_get fd_GetUInt32 3 q;
          byMergeGroup \<leftarrow> row_get fd_GetUInt8 4 q;
          Some \<lparr>rs_dwServerId = ucast wServerId, rs_byType = byType, rs_dwGroup = dwGroup, rs_byMergeGroup = byMergeGroup,
                rs_dwUpdateTime = dwUpdateTime, rs_bIsAlive = junk\<rparr> }"

definition poll_relay :: "'c mysql_api \<Rightarrow> bool \<Rightarrow> query_result \<Rightarrow> relay_map \<times> ('c, 'z) center_db_scheme \<Rightarrow>
    (relay_map \<times> ('c, 'z) center_db_scheme) option" where
  "poll_relay api junk q ms =
     do { let (m, s) = ms;
          stcServer \<leftarrow> read_relay_status junk q;
          let k = (rs_byType stcServer, rs_dwGroup stcServer);
          case map_of m k of
            Some old \<Rightarrow>
              do { let alive = (rs_dwUpdateTime old \<noteq> rs_dwUpdateTime stcServer);
                   let m = relay_set k (stcServer\<lparr>rs_bIsAlive := alive\<rparr>) m;
                   (_, s) \<leftarrow> (if \<not> alive then UpdateClosedGameServer api (rs_dwServerId stcServer) s else Some (True, s));
                   Some (m, s) }
          | None \<Rightarrow> Some (relay_set k stcServer m, s) }"

definition GetOrUpdateRelayServerStatus :: "'c mysql_api \<Rightarrow> bool \<Rightarrow> relay_map \<Rightarrow> ('c, 'z, relay_map) cdb_fn" where
  "GetOrUpdateRelayServerStatus api junk mapRelayServer s =
     do { (r, s) \<leftarrow> cd_PQuery api ''select relay_type, relay_group, server_id, update_time, merge_group from relayserver_info'' [] s;
          case r of None \<Rightarrow> Some (mapRelayServer, s) | Some q \<Rightarrow> qr_each (poll_relay api junk) q (mapRelayServer, s) }"

section \<open>Login strategies\<close>

record strategy_condition =
  sc_byType :: uint8
  sc_strValue :: string
  sc_bIsNot :: bool

text \<open>
  The rows come ordered by \<^verbatim>\<open>condition_id\<close>; each change of it opens a new group. A strategy is the
  conjunction of its groups, a group the disjunction of its conditions.
\<close>

definition read_condition :: "query_result \<Rightarrow> int \<times> strategy_condition list list \<Rightarrow> (int \<times> strategy_condition list list) option" where
  "read_condition q st =
     do { let (cond, vv) = st;
          cid \<leftarrow> row_get fd_GetUInt8 0 q;
          byType \<leftarrow> row_get fd_GetUInt8 1 q;
          strValue \<leftarrow> row_get fd_GetString 2 q;
          bIsNot \<leftarrow> row_get fd_GetBool 3 q;
          let vv = (if uint cid \<noteq> cond then vv @ [[]] else vv);
          Some (uint cid, butlast vv @ [last vv @ [\<lparr>sc_byType = byType, sc_strValue = strValue, sc_bIsNot = bIsNot\<rparr>]]) }"

definition GetLoginStrategy ::
  "'c mysql_api \<Rightarrow> uint32 \<Rightarrow> strategy_condition list list \<Rightarrow> ('c, 'z, bool \<times> strategy_condition list list) cdb_fn" where
  "GetLoginStrategy api dwStrategyId oStrategy s =
     do { (r, s) \<leftarrow> cd_PQuery api
            ''select condition_id, type, value, is_not from login_strategy where strategy_id=%u order by condition_id'' [QU dwStrategyId] s;
          case r of
            None \<Rightarrow> Some ((False, oStrategy), s)
          | Some q \<Rightarrow> do { (_, vv) \<leftarrow> qr_each read_condition q (-1, []); Some ((True, vv), s) } }"

section \<open>Roles\<close>

definition ExistsRole :: "'c mysql_api \<Rightarrow> uint32 \<Rightarrow> ('c, 'z, bool) cdb_fn" where
  "ExistsRole api dwRoleId s = cd_exists api ''select role_id from player_info where role_id=%u'' [QU dwRoleId] s"

definition GetRoleId :: "'c mysql_api \<Rightarrow> uint64 \<Rightarrow> uint32 \<Rightarrow> ('c, 'z, uint32) cdb_fn" where
  "GetRoleId api dwPassportId dwServerIdOrigin s =
     cd_lookup api fd_GetUInt32 0 ''select role_id from re_passport_player where passport_id=%llu and server_id_origin=%u''
       [QU dwPassportId, QU dwServerIdOrigin] s"

definition GetOrInsertRoleId :: "'c mysql_api \<Rightarrow> uint64 \<Rightarrow> uint32 \<Rightarrow> ('c, 'z, uint32) cdb_fn" where
  "GetOrInsertRoleId api dwPassportId dwServerIdOrigin s =
     do { (dwRoleId, s) \<leftarrow> GetRoleId api dwPassportId dwServerIdOrigin s;
          if dwRoleId \<noteq> 0 then Some (dwRoleId, s)
          else do { let (dwRoleId, s) = NextRoleId s;
                    (now, s) \<leftarrow> GetDBTime api s;
                    (merged, s) \<leftarrow> GetServerIdMerged api dwServerIdOrigin s;
                    (ok, s) \<leftarrow> cd_PExecute api
                      ''insert into re_passport_player(role_id, passport_id, server_id, server_id_origin, create_time) values(%u, %llu, %u, %u, %u)''
                      [QU dwRoleId, QU dwPassportId, QU merged, QU dwServerIdOrigin, QU now] s;
                    Some (if ok then dwRoleId else 0, s) } }"

definition GetRoleStatus :: "'c mysql_api \<Rightarrow> uint32 \<Rightarrow> ('c, 'z, uint8) cdb_fn" where
  "GetRoleStatus api dwRoleId s = cd_lookup api fd_GetUInt8 0 ''select status from player_info where role_id=%u'' [QU dwRoleId] s"

definition SetRoleStatus :: "'c mysql_api \<Rightarrow> uint32 \<Rightarrow> uint8 \<Rightarrow> ('c, 'z, bool) cdb_fn" where
  "SetRoleStatus api dwRoleId byStatus s =
     cd_PExecute api ''update player_info set status=%u where role_id=%u'' [QU byStatus, QU dwRoleId] s"

definition E_ROLE_STATUS_FORBID :: uint8 where "E_ROLE_STATUS_FORBID = 1"

definition IsRoleForbid :: "'c mysql_api \<Rightarrow> uint32 \<Rightarrow> ('c, 'z, bool) cdb_fn" where
  "IsRoleForbid api dwRole s = do { (st, s) \<leftarrow> GetRoleStatus api dwRole s; Some (st = E_ROLE_STATUS_FORBID, s) }"

text \<open>The numbers of \<open>InsertOrUpdateRoleInfo\<close> from the progress to the paid diamonds are one list.\<close>

definition InsertOrUpdateRoleInfo ::
  "'c mysql_api \<Rightarrow> uint32 \<Rightarrow> string \<Rightarrow> uint8 \<Rightarrow> uint32 list \<Rightarrow> uint32 \<Rightarrow> ('c, 'z, bool) cdb_fn" where
  "InsertOrUpdateRoleInfo api dwRoleId strRoleName byGmAuth nums dwCreateTime s =
     (if dwRoleId AND 1 \<noteq> 0 then Some (True, s)
      else do { strRoleName \<leftarrow> cd_escape api strRoleName s;
                cd_PExecute api
                  (''insert into player_info( role_id, name, gm_auth, status, progress, level, '' @
                   ''gold, diamond, cur_stage, cur_train, vip_level, vip_exp, stamina, energy, quest, diamond_pay,create_time ) '' @
                   ''values( %u, %q, %u, %u, %u, %u, %u, %u, %u, %u, %u, %u, %u, %u, %u, %u ,%u) on duplicate key update '' @
                   ''name=%q, progress=%u, level=%u, gold=%u, diamond=%u, cur_stage=%u, cur_train=%u, vip_level=%u, '' @
                   ''vip_exp=%u, stamina=%u, energy=%u, quest=%u, diamond_pay=%u,create_time=%u'')
                  ([QU dwRoleId, QS strRoleName, QU byGmAuth, QN 0] @ map QU nums @ [QU dwCreateTime] @
                   [QS strRoleName] @ map QU nums @ [QU dwCreateTime]) s })"

definition InsertLoginInfo :: "'c mysql_api \<Rightarrow> uint32 \<Rightarrow> string \<Rightarrow> string \<Rightarrow> string \<Rightarrow> ('c, 'z, uint32) cdb_fn" where
  "InsertLoginInfo api dwRoleId strLoginIp strLoginDevice strLoginDeviceType s =
     (if dwRoleId AND 1 \<noteq> 0 then Some (0, s)
      else do { strLoginIp \<leftarrow> cd_escape api strLoginIp s;
                strLoginDevice \<leftarrow> cd_escape api strLoginDevice s;
                strLoginDeviceType \<leftarrow> cd_escape api strLoginDeviceType s;
                (dwTime, s) \<leftarrow> GetDBTime api s;
                (_, s) \<leftarrow> cd_PExecute api
                  ''insert into player_info(role_id, last_login_time) values(%u, %u) on duplicate key update last_login_time=%u''
                  [QU dwRoleId, QU dwTime, QU dwTime] s;
                (_, s) \<leftarrow> cd_PExecute api
                  ''update passport_info a inner join re_passport_player b on (a.passport_id=b.passport_id) set a.last_login_time=%u where b.role_id=%u''
                  [QU dwTime, QU dwRoleId] s;
                (now, s) \<leftarrow> GetDBTime api s;
                (_, s) \<leftarrow> cd_PExecute api
                  (''insert into role_login_info(role_id, login_time, logout_time, login_ip, login_device, login_device_type) '' @
                   ''values(%u, %u, %u, %q, %q, %q)'')
                  [QU dwRoleId, QU now, QN 0, QS strLoginIp, QS strLoginDevice, QS strLoginDeviceType] s;
                cd_lookup api fd_GetUInt32 0 ''select LAST_INSERT_ID()'' [] s })"

definition InsertLogoutInfo :: "'c mysql_api \<Rightarrow> uint32 \<Rightarrow> ('c, 'z, bool) cdb_fn" where
  "InsertLogoutInfo api dwAutoId s =
     (if dwAutoId = 0 then Some (False, s)
      else do { (now, s) \<leftarrow> GetDBTime api s;
                cd_PExecute api ''update role_login_info set logout_time=%u where auto_id=%u'' [QU now, QU dwAutoId] s })"

definition UpdateRoleGmAuth :: "'c mysql_api \<Rightarrow> uint32 \<Rightarrow> uint8 \<Rightarrow> ('c, 'z, bool) cdb_fn" where
  "UpdateRoleGmAuth api dwRoleId byGmAuth s =
     cd_PExecute api ''update player_info set gm_auth=%u where role_id=%u'' [QU byGmAuth, QU dwRoleId] s"

definition GetGmAuthByPassportId :: "'c mysql_api \<Rightarrow> uint64 \<Rightarrow> ('c, 'z, uint8) cdb_fn" where
  "GetGmAuthByPassportId api ddwPassportId s =
     cd_lookup api fd_GetUInt8 0 ''select gm_auth from passport_info where passport_id=%llu'' [QU ddwPassportId] s"

definition GetGmAuth :: "'c mysql_api \<Rightarrow> uint32 \<Rightarrow> ('c, 'z, uint8) cdb_fn" where
  "GetGmAuth api dwRoleId s =
     do { (byAuthRole, s) \<leftarrow> cd_lookup api fd_GetUInt8 0 ''select gm_auth from player_info where role_id=%u'' [QU dwRoleId] s;
          (byAuthPassport, s) \<leftarrow> cd_lookup api fd_GetUInt8 0
            (''select gm_auth from passport_info where passport_id='' @ ''(select passport_id from re_passport_player where role_id=%u)'')
            [QU dwRoleId] s;
          Some (max byAuthRole byAuthPassport, s) }"

definition GetPlatformId :: "'c mysql_api \<Rightarrow> uint32 \<Rightarrow> ('c, 'z, uint32) cdb_fn" where
  "GetPlatformId api dwRoleId s =
     cd_lookup api fd_GetUInt32 0
       (''select platform from passport_info where passport_id='' @ ''(select passport_id from re_passport_player where role_id=%u)'')
       [QU dwRoleId] s"

definition GetRoleCreateTime :: "'c mysql_api \<Rightarrow> uint32 \<Rightarrow> ('c, 'z, uint32) cdb_fn" where
  "GetRoleCreateTime api dwRoleId s =
     cd_lookup api fd_GetUInt32 0 ''select create_time from re_passport_player where role_id=%u'' [QU dwRoleId] s"

definition GetRoleName :: "'c mysql_api \<Rightarrow> uint32 \<Rightarrow> ('c, 'z, string) cdb_fn" where
  "GetRoleName api dwRoleId s = cd_lookup api fd_GetString [] ''select name from player_info where role_id=%u'' [QU dwRoleId] s"

definition GetRoleServerId :: "'c mysql_api \<Rightarrow> uint32 \<Rightarrow> ('c, 'z, uint16) cdb_fn" where
  "GetRoleServerId api dwRoleId s =
     cd_lookup api fd_GetUInt16 0 ''select server_id from re_passport_player where role_id=%u'' [QU dwRoleId] s"

definition GetRoleServerIdOrigin :: "'c mysql_api \<Rightarrow> uint32 \<Rightarrow> ('c, 'z, uint16) cdb_fn" where
  "GetRoleServerIdOrigin api dwRoleId s =
     cd_lookup api fd_GetUInt16 0 ''select server_id_origin from re_passport_player where role_id=%u'' [QU dwRoleId] s"

definition GetRolePlatform :: "'c mysql_api \<Rightarrow> uint32 \<Rightarrow> ('c, 'z, int) cdb_fn" where
  "GetRolePlatform api dwRoleId s =
     cd_lookup api (\<lambda>f. map_option uint (fd_GetUInt16 f)) (-1)
       ''select b.platform from re_passport_player a inner join passport_info b on (a.passport_id = b.passport_id) where role_id=%u''
       [QU dwRoleId] s"

definition SetRoleLevel :: "'c mysql_api \<Rightarrow> uint32 \<Rightarrow> uint16 \<Rightarrow> ('c, 'z, bool) cdb_fn" where
  "SetRoleLevel api dwRoleId wLevel s =
     cd_PExecute api ''update re_passport_player set role_level=%u where role_id=%u'' [QU wLevel, QU dwRoleId] s"

definition GetRoleLevel :: "'c mysql_api \<Rightarrow> uint64 \<Rightarrow> (uint32 \<times> uint32) list \<Rightarrow> ('c, 'z, (uint32 \<times> uint32) list) cdb_fn" where
  "GetRoleLevel api dwPassportId mapServerLevel s =
     do { (r, s) \<leftarrow> cd_PQuery api ''select server_id_origin,role_level from re_passport_player where passport_id=%llu'' [QU dwPassportId] s;
          case r of
            None \<Rightarrow> Some (mapServerLevel, s)
          | Some q \<Rightarrow>
              do { m \<leftarrow> qr_each (\<lambda>q m. do { server_id \<leftarrow> row_get fd_GetUInt32 0 q; level \<leftarrow> row_get fd_GetUInt32 1 q;
                                              Some (omap_set server_id level m) }) q mapServerLevel;
                   Some (m, s) } }"

text \<open>A role id above \<open>2 ^ 31\<close> is printed as a negative number by \<^verbatim>\<open>%d\<close>.\<close>

definition GetPtrCount :: "'c mysql_api \<Rightarrow> uint32 \<Rightarrow> ('c, 'z, uint32) cdb_fn" where
  "GetPtrCount api dwRoleId s =
     cd_lookup api fd_GetUInt32 0 ''select count(*) from passport_info where passport like %q''
       [QS (''p'' @ int_str (sint dwRoleId) @ ''%'')] s"

section \<open>Charges and purchases\<close>

definition E_CHARGE_STATE_PAYED :: uint8 where "E_CHARGE_STATE_PAYED = 1"
definition E_CHARGE_STATE_DISTRIBUTED :: uint8 where "E_CHARGE_STATE_DISTRIBUTED = 2"

record charge_info =
  ci_dwAutoId :: uint32
  ci_dwRoleId :: uint32
  ci_dwGoodsId :: uint32
  ci_dwGoodsQuantity :: uint32
  ci_strAddition2 :: string
  ci_dwPlatform :: uint32
  ci_strAddition5 :: string

definition read_charge :: "query_result \<Rightarrow> charge_info list \<Rightarrow> charge_info list option" where
  "read_charge q cs =
     do { a \<leftarrow> row_get fd_GetUInt32 0 q; r \<leftarrow> row_get fd_GetUInt32 1 q; g \<leftarrow> row_get fd_GetUInt32 2 q;
          n \<leftarrow> row_get fd_GetUInt32 3 q; x2 \<leftarrow> row_get fd_GetString 4 q; p \<leftarrow> row_get fd_GetUInt32 5 q;
          x5 \<leftarrow> row_get fd_GetString 6 q;
          Some (cs @ [\<lparr>ci_dwAutoId = a, ci_dwRoleId = r, ci_dwGoodsId = g, ci_dwGoodsQuantity = n, ci_strAddition2 = x2,
                       ci_dwPlatform = p, ci_strAddition5 = x5\<rparr>]) }"

definition GetUnhandledCharge :: "'c mysql_api \<Rightarrow> ('c, 'z, charge_info list) cdb_fn" where
  "GetUnhandledCharge api s =
     do { (r, s) \<leftarrow> cd_PQuery api
            ''select auto_id, role_id, goods_id, goods_quantity, addition2, platform, addition5 from charge_info where state=%u''
            [QU E_CHARGE_STATE_PAYED] s;
          case r of None \<Rightarrow> Some ([], s) | Some q \<Rightarrow> do { cs \<leftarrow> qr_each read_charge q []; Some (cs, s) } }"

definition ChargeHandled ::
  "'c mysql_api \<Rightarrow> uint32 \<Rightarrow> uint32 \<Rightarrow> string \<Rightarrow> string \<Rightarrow> string \<Rightarrow> string \<Rightarrow> uint32 \<Rightarrow> ('c, 'z, bool) cdb_fn" where
  "ChargeHandled api dwAutoId dwDiamondValue strIp strDevice strDeviceType strDeviceUid dwDiamondPay s =
     do { strIp \<leftarrow> cd_escape api strIp s;
          strDevice \<leftarrow> cd_escape api strDevice s;
          strDeviceType \<leftarrow> cd_escape api strDeviceType s;
          strDeviceUid \<leftarrow> cd_escape api strDeviceUid s;
          (now, s) \<leftarrow> GetDBTime api s;
          cd_PExecute api
            (''update charge_info set virtual_value=%u, state=%u, distribute_time=%u, payment_ip=%q,'' @
             ''payment_device=%q, payment_device_type=%q, payment_device_uid=%q, diamond_pay=%u where auto_id=%u'')
            [QU dwDiamondValue, QU E_CHARGE_STATE_DISTRIBUTED, QU now, QS strIp, QS strDevice, QS strDeviceType,
             QS strDeviceUid, QU dwDiamondPay, QU dwAutoId] s }"

definition CreateCharge ::
  "'c mysql_api \<Rightarrow> uint32 \<Rightarrow> uint32 \<Rightarrow> uint32 \<Rightarrow> string \<Rightarrow> uint32 \<Rightarrow> string \<Rightarrow> string \<Rightarrow> string \<Rightarrow> uint32 \<Rightarrow> uint16 \<Rightarrow> uint32 \<Rightarrow>
   string \<Rightarrow> ('c, 'z, uint32) cdb_fn" where
  "CreateCharge api dwRoleId dwGoodsId dwGoodsQty strCurrency dwValue strInnerOrderId strPlatformOrderId strPlatformAccount
     dwPlatform wPaymentType dwPaymentTime strClientOrderId s =
     do { strCurrency \<leftarrow> cd_escape api strCurrency s;
          strInnerOrderId \<leftarrow> cd_escape api strInnerOrderId s;
          strPlatformOrderId \<leftarrow> cd_escape api strPlatformOrderId s;
          strPlatformAccount \<leftarrow> cd_escape api strPlatformAccount s;
          strClientOrderId \<leftarrow> cd_escape api strClientOrderId s;
          (succ, s) \<leftarrow> cd_PExecute api
            (''insert into charge_info(role_id, goods_id, goods_quantity, currency, value, type, inner_order_id,'' @
             ''platform_order_id, platform_account_id, platform, platform_payment_type, payment_time, client_order_id) '' @
             ''values(%u, %u, %u, %q, %u, 0, %q, %q, %q, %u, %u, %u, %q)'')
            [QU dwRoleId, QU dwGoodsId, QU dwGoodsQty, QS strCurrency, QU dwValue, QS strInnerOrderId, QS strPlatformOrderId,
             QS strPlatformAccount, QU dwPlatform, QU wPaymentType, QU dwPaymentTime, QS strClientOrderId] s;
          if succ then cd_lookup api fd_GetUInt32 0 ''select LAST_INSERT_ID()'' [] s else Some (0, s) }"

definition HasCharge :: "'c mysql_api \<Rightarrow> uint32 \<Rightarrow> string \<Rightarrow> ('c, 'z, bool) cdb_fn" where
  "HasCharge api dwPlatform strPlatformOrderId s =
     do { strPlatformOrderId \<leftarrow> cd_escape api strPlatformOrderId s;
          cd_exists api ''select auto_id from charge_info where platform=%u and platform_order_id=%q''
            [QU dwPlatform, QS strPlatformOrderId] s }"

definition InsertPurchaseInfo ::
  "'c mysql_api \<Rightarrow> uint32 \<Rightarrow> uint32 \<Rightarrow> uint32 \<Rightarrow> uint32 \<Rightarrow> uint32 \<Rightarrow> uint32 \<Rightarrow> ('c, 'z, uint32) cdb_fn" where
  "InsertPurchaseInfo api dwRoleId dwGoodsId dwGoodsQuantity dwValue dwDiamondPaidUse dwTime s =
     do { (ok, s) \<leftarrow> cd_PExecute api
            (''insert into purchase_info(role_id, goods_id, goods_quantity, value, diamond_paid_use, time) '' @
             ''values(%u, %u, %u, %u, %u, %u)'')
            [QU dwRoleId, QU dwGoodsId, QU dwGoodsQuantity, QU dwValue, QU dwDiamondPaidUse, QU dwTime] s;
          Some (if ok then 1 else 0, s) }"

fun SetChargeStatus_loop :: "'c mysql_api \<Rightarrow> uint32 list \<Rightarrow> uint32 \<Rightarrow> uint32 \<Rightarrow> string \<Rightarrow> ('c, 'z, string) cdb_fn" where
  "SetChargeStatus_loop api [] dwStartTime dwEndTime strErrMsg s = Some (strErrMsg, s)"
| "SetChargeStatus_loop api (r # rs) dwStartTime dwEndTime strErrMsg s =
     do { (ret, s) \<leftarrow> cd_PExecute api
            ''update charge_info set state=%u where role_id=%u AND state = %u and distribute_time >= %u and distribute_time <= %u''
            [QU E_CHARGE_STATE_PAYED, QU r, QU E_CHARGE_STATE_DISTRIBUTED, QU dwStartTime, QU dwEndTime] s;
          SetChargeStatus_loop api rs dwStartTime dwEndTime
            (if ret then strErrMsg else ''<'' @ dec_str (unat r) @ ''>'') s }"

definition SetChargeStatus :: "'c mysql_api \<Rightarrow> uint32 list \<Rightarrow> uint32 \<Rightarrow> uint32 \<Rightarrow> string \<Rightarrow> ('c, 'z, bool \<times> string) cdb_fn" where
  "SetChargeStatus api vecRoleId dwStartTime dwEndTime strErrMsg s =
     (if dwEndTime < dwStartTime then Some ((False, ''Time Error''), s)
      else do { (msg, s) \<leftarrow> SetChargeStatus_loop api vecRoleId dwStartTime dwEndTime strErrMsg s; Some ((True, msg), s) })"

section \<open>Notices and guilds\<close>

definition notice_row :: "uint32 \<Rightarrow> query_result \<Rightarrow> string \<Rightarrow> string option" where
  "notice_row now q ret =
     do { content \<leftarrow> row_get fd_GetString 0 q;
          dwStartTs \<leftarrow> row_get fd_GetUInt32 1 q;
          dwEndTs \<leftarrow> row_get fd_GetUInt32 2 q;
          Some (if (dwStartTs = 0 \<or> now \<ge> dwStartTs) \<and> (dwEndTs = 0 \<or> now \<le> dwEndTs) then ret @ content else ret) }"

definition GetNotice :: "'c mysql_api \<Rightarrow> uint8 \<Rightarrow> uint8 \<Rightarrow> uint32 \<Rightarrow> ('c, 'z, string) cdb_fn" where
  "GetNotice api eUseType eCondType dwCondValue s =
     do { (r, s) \<leftarrow> cd_PQuery api
            ''select content, start_time, end_time from notice_info_v2 where use_type=%u and condition_type=%u and condition_value=%u''
            [QU eUseType, QU eCondType, QU dwCondValue] s;
          (now, s) \<leftarrow> GetDBTime api s;
          case r of None \<Rightarrow> Some ([], s) | Some q \<Rightarrow> do { ret \<leftarrow> qr_each (notice_row now) q []; Some (ret, s) } }"

record notice_info =
  ni_bIsPlateForm :: bool
  ni_dwPlateFormId :: uint32
  ni_dwAutoId :: uint32
  ni_dwStartTs :: uint32
  ni_dwEndTs :: uint32
  ni_strContent :: string

definition read_notice :: "query_result \<Rightarrow> notice_info list \<Rightarrow> notice_info list option" where
  "read_notice q ns =
     do { content \<leftarrow> row_get fd_GetString 0 q; a \<leftarrow> row_get fd_GetUInt32 1 q; b \<leftarrow> row_get fd_GetUInt32 2 q;
          dwCondType \<leftarrow> row_get fd_GetUInt32 3 q; p \<leftarrow> row_get fd_GetUInt32 4 q; i \<leftarrow> row_get fd_GetUInt32 5 q;
          Some (ns @ [\<lparr>ni_bIsPlateForm = (dwCondType \<noteq> 2), ni_dwPlateFormId = p, ni_dwAutoId = i, ni_dwStartTs = a,
                       ni_dwEndTs = b, ni_strContent = content\<rparr>]) }"

definition GetGameNotice :: "'c mysql_api \<Rightarrow> uint32 \<Rightarrow> notice_info list \<Rightarrow> ('c, 'z, bool \<times> notice_info list) cdb_fn" where
  "GetGameNotice api dwServId vecNotice s =
     do { (r, s) \<leftarrow> cd_PQuery api
            (''select content, start_time, end_time, condition_type, condition_value, auto_id from notice_info_v2 '' @
             '' where (end_time=0 or end_time>unix_timestamp()) and use_type=%u and (condition_type=%u and condition_value=%u)  order by auto_id'')
            [QN 2, QN 2, QU dwServId] s;
          (r, s) \<leftarrow> (if r = None then cd_PQuery api
              (''select content, start_time, end_time, condition_type, condition_value, auto_id from notice_info_v2 '' @
               '' where (end_time=0 or end_time>unix_timestamp()) and  use_type=%u and condition_type=%u  order by auto_id'')
              [QN 2, QN 1] s
            else Some (r, s));
          case r of
            None \<Rightarrow> Some ((False, vecNotice), s)
          | Some q \<Rightarrow> do { ns \<leftarrow> qr_each read_notice q vecNotice; Some ((True, ns), s) } }"

definition RegisterGuild :: "'c mysql_api \<Rightarrow> uint32 \<Rightarrow> ('c, 'z, uint32) cdb_fn" where
  "RegisterGuild api dwRoleId s =
     do { (now, s) \<leftarrow> GetDBTime api s;
          (ok, s) \<leftarrow> cd_PExecute api ''insert into guild_reg( role_id, create_time ) values( %u, %u )'' [QU dwRoleId, QU now] s;
          if ok then cd_lookup api fd_GetUInt32 0 ''select LAST_INSERT_ID()'' [] s else Some (0, s) }"

section \<open>Gift codes and goods\<close>

record gift_code_info =
  gc_dwParam1 :: uint32
  gc_dwParam2 :: uint32
  gc_dwParam3 :: uint32
  gc_strReward :: string
  gc_strServers :: string
  gc_strPlatform :: string
  gc_dwDeadTime :: uint32
  gc_dwMaxUse :: uint32
  gc_dwEveryUse :: uint32

definition GetGiftCodeInfo :: "'c mysql_api \<Rightarrow> uint32 \<Rightarrow> gift_code_info \<Rightarrow> ('c, 'z, bool \<times> gift_code_info) cdb_fn" where
  "GetGiftCodeInfo api dwId out s =
     do { (r, s) \<leftarrow> cd_PQuery api
            ''select param1, param2, param3, reward, server, platform, dead_time, use_max, use_every from gift_box_config where id=%u''
            [QU dwId] s;
          case r of
            None \<Rightarrow> Some ((False, out), s)
          | Some q \<Rightarrow>
              do { p1 \<leftarrow> row_get fd_GetUInt32 0 q; p2 \<leftarrow> row_get fd_GetUInt32 1 q; p3 \<leftarrow> row_get fd_GetUInt32 2 q;
                   reward \<leftarrow> row_get fd_GetString 3 q; servers \<leftarrow> row_get fd_GetString 4 q; platform \<leftarrow> row_get fd_GetString 5 q;
                   dead \<leftarrow> row_get fd_GetUInt32 6 q; mx \<leftarrow> row_get fd_GetUInt32 7 q; ev \<leftarrow> row_get fd_GetUInt32 8 q;
                   Some ((True, \<lparr>gc_dwParam1 = p1, gc_dwParam2 = p2, gc_dwParam3 = p3, gc_strReward = reward, gc_strServers = servers,
                                 gc_strPlatform = platform, gc_dwDeadTime = dead, gc_dwMaxUse = mx, gc_dwEveryUse = ev\<rparr>), s) } }"

definition GetGiftCodeUsed :: "'c mysql_api \<Rightarrow> uint32 \<Rightarrow> uint32 \<Rightarrow> ('c, 'z, uint32) cdb_fn" where
  "GetGiftCodeUsed api dwId dwIdx s =
     cd_lookup api fd_GetUInt32 0 ''select count(1) from gift_box where id=%u and idx=%u'' [QU dwId, QU dwIdx] s"

definition GetGiftCodeUsed_role :: "'c mysql_api \<Rightarrow> uint64 \<Rightarrow> uint32 \<Rightarrow> uint32 \<Rightarrow> ('c, 'z, uint32) cdb_fn" where
  "GetGiftCodeUsed_role api ddwRoleId dwId dwIdx s =
     do { (e, s) \<leftarrow> cd_exists api ''select * from gift_box where id=%u and idx=%u and role_id=%llu'' [QU dwId, QU dwIdx, QU ddwRoleId] s;
          Some (if e then 1 else 0, s) }"

definition GetGiftCodeSameTypeUsed :: "'c mysql_api \<Rightarrow> uint64 \<Rightarrow> uint32 \<Rightarrow> ('c, 'z, uint32) cdb_fn" where
  "GetGiftCodeSameTypeUsed api dwRoleId dwId s =
     do { (r, s) \<leftarrow> cd_PQuery api ''select * from gift_box where id=%u and role_id=%llu'' [QU dwId, QU dwRoleId] s;
          Some (case r of None \<Rightarrow> 0 | Some q \<Rightarrow> word_of_nat (qr_rowCount q), s) }"

definition InsertGiftCodeUse :: "'c mysql_api \<Rightarrow> uint64 \<Rightarrow> uint32 \<Rightarrow> uint32 \<Rightarrow> ('c, 'z, bool) cdb_fn" where
  "InsertGiftCodeUse api dwRoleId dwId dwIdx s =
     do { (now, s) \<leftarrow> GetDBTime api s;
          cd_PExecute api ''insert into gift_box( id, idx, role_id, use_time ) values( %u, %u, %llu, %u )''
            [QU dwId, QU dwIdx, QU dwRoleId, QU now] s }"

record goods_info =
  go_dwGoodsId :: uint32
  go_byShopType :: uint8
  go_dwBuyTypeId :: uint32
  go_dwBuyContentId :: uint32
  go_dwBuyCount :: uint32
  go_dwCostTypeId :: uint32
  go_dwCostContentId :: uint32
  go_dwCostCount :: uint32
  go_dwCostCountOld :: uint32
  go_byStatus :: uint8
  go_dwLimitDay :: uint32
  go_dwSortIdx :: uint32
  go_strIcon :: string
  go_strName :: string
  go_strDescription :: string
  go_strPlatformGoodsId :: string
  go_dwPlatformType :: uint32
  go_dwDiscount :: uint32
  go_wRoleLvReq :: uint16
  go_dwBonusBuyCount :: uint32
  go_dwBonusLimit :: uint32
  go_byBonusResetType :: uint8
  go_dwDiamondPay :: uint32

definition read_goods :: "query_result \<Rightarrow> (uint32 \<times> goods_info) list \<Rightarrow> (uint32 \<times> goods_info) list option" where
  "read_goods q m =
     do { g0 \<leftarrow> row_get fd_GetUInt32 0 q; g1 \<leftarrow> row_get fd_GetUInt8 1 q; g2 \<leftarrow> row_get fd_GetUInt32 2 q;
          g3 \<leftarrow> row_get fd_GetUInt32 3 q; g4 \<leftarrow> row_get fd_GetUInt32 4 q; g5 \<leftarrow> row_get fd_GetUInt32 5 q;
          g6 \<leftarrow> row_get fd_GetUInt32 6 q; g7 \<leftarrow> row_get fd_GetUInt32 7 q; g8 \<leftarrow> row_get fd_GetUInt32 8 q;
          g9 \<leftarrow> row_get fd_GetUInt8 9 q; g10 \<leftarrow> row_get fd_GetUInt32 10 q; g11 \<leftarrow> row_get fd_GetUInt32 11 q;
          g12 \<leftarrow> row_get fd_GetString 12 q; g13 \<leftarrow> row_get fd_GetString 13 q; g14 \<leftarrow> row_get fd_GetString 14 q;
          g15 \<leftarrow> row_get fd_GetString 15 q; g16 \<leftarrow> row_get fd_GetUInt32 16 q; g17 \<leftarrow> row_get fd_GetUInt32 17 q;
          g18 \<leftarrow> row_get fd_GetInt16 18 q; g19 \<leftarrow> row_get fd_GetUInt32 19 q; g20 \<leftarrow> row_get fd_GetUInt32 20 q;
          g21 \<leftarrow> row_get fd_GetUInt8 21 q; g22 \<leftarrow> row_get fd_GetUInt32 22 q;
          Some (omap_insert g0
            \<lparr>go_dwGoodsId = g0, go_byShopType = g1, go_dwBuyTypeId = g2, go_dwBuyContentId = g3, go_dwBuyCount = g4,
             go_dwCostTypeId = g5, go_dwCostContentId = g6, go_dwCostCount = g7, go_dwCostCountOld = g8, go_byStatus = g9,
             go_dwLimitDay = g10, go_dwSortIdx = g11, go_strIcon = g12, go_strName = g13, go_strDescription = g14,
             go_strPlatformGoodsId = g15, go_dwPlatformType = g16, go_dwDiscount = g17, go_wRoleLvReq = g18,
             go_dwBonusBuyCount = g19, go_dwBonusLimit = g20, go_byBonusResetType = g21, go_dwDiamondPay = g22\<rparr> m) }"

definition GetGoodsInfoOfGameServer :: "'c mysql_api \<Rightarrow> uint32 \<Rightarrow> ('c, 'z, (uint32 \<times> goods_info) list) cdb_fn" where
  "GetGoodsInfoOfGameServer api dwGameServerId s =
     do { (r, s) \<leftarrow> cd_PQuery api
            (''select goods_id, shop_type, buy_type_id, buy_content_id, buy_count, cost_type_id, cost_content_id, cost_count, cost_count_old,'' @
             ''status, limit_day, sort_idx, icon_id, goods_name, description, platform_goods_id, platform_type, discount, role_lv_req,'' @
             ''bonus_buy_count, bonus_limit, bonus_reset_type, diamond_pay from goods_info where server_id=%u'') [QU dwGameServerId] s;
          case r of None \<Rightarrow> Some ([], s) | Some q \<Rightarrow> do { m \<leftarrow> qr_each read_goods q []; Some (m, s) } }"

definition goods_args :: "uint32 \<Rightarrow> goods_info \<Rightarrow> sql_arg list" where
  "goods_args server g =
     [QU server, QU (go_dwGoodsId g), QU (go_byShopType g), QU (go_dwBuyTypeId g), QU (go_dwBuyContentId g),
      QU (go_dwBuyCount g), QU (go_dwCostTypeId g), QU (go_dwCostContentId g), QU (go_dwCostCount g),
      QU (go_dwCostCountOld g), QU (go_byStatus g), QU (go_dwLimitDay g), QU (go_dwSortIdx g)]"

text \<open>
  The arguments of \<open>InsertOrUpdateGoodsInfo\<close> are the thirteen values twice, although the part after
  \<^verbatim>\<open>on duplicate key update\<close> has no server and goods id: its columns get shifted values.
\<close>

definition InsertOrUpdateGoodsInfo :: "'c mysql_api \<Rightarrow> goods_info \<Rightarrow> uint32 \<Rightarrow> ('c, 'z, unit) cdb_fn" where
  "InsertOrUpdateGoodsInfo api stcGood dwGameServerId s =
     do { (_, s) \<leftarrow> cd_PExecute api
            (''insert into goods_info(server_id, goods_id, shop_type, buy_type_id, '' @
             ''buy_content_id, buy_count, cost_type_id, cost_content_id, cost_count, cost_count_old, '' @
             ''status, limit_day, sort_idx ) values (%u, %u, %u, %u, %u, %u, %u, %u, %u, %u, %u, %u, %u)  '' @
             '' on duplicate key update shop_type=%u, buy_type_id=%u,buy_content_id=%u,buy_count=%u,'' @
             ''cost_type_id=%u,cost_content_id=%u, cost_count=%u, cost_count_old=%u, status=%u,limit_day=%u,sort_idx=%u  '')
            (goods_args dwGameServerId stcGood @ goods_args dwGameServerId stcGood) s;
          Some ((), s) }"

fun UpdateGoodsInfoOfGameServer :: "'c mysql_api \<Rightarrow> (uint32 \<times> goods_info) list \<Rightarrow> uint32 \<Rightarrow> ('c, 'z, unit) cdb_fn" where
  "UpdateGoodsInfoOfGameServer api [] dwGameServerId s = Some ((), s)"
| "UpdateGoodsInfoOfGameServer api ((_, g) # m) dwGameServerId s =
     do { (_, s) \<leftarrow> cd_PExecute api
            (''insert into goods_info(server_id, goods_id, shop_type, buy_type_id, '' @
             ''buy_content_id, buy_count, cost_type_id, cost_content_id, cost_count, cost_count_old, '' @
             ''status, limit_day, sort_idx, icon_id, goods_name, description, platform_goods_id, platform_type,'' @
             ''discount, role_lv_req, bonus_buy_count, bonus_limit, bonus_reset_type, diamond_pay ) '' @
             ''values(%u, %u, %u, %u, %u, %u, %u, %u, %u, %u, %u, %u, %u, %q, %q, %q, %q, %u, %u, %u, %u, %u, %u, %u)'')
            (goods_args dwGameServerId g @
             [QS (go_strIcon g), QS (go_strName g), QS (go_strDescription g), QS (go_strPlatformGoodsId g),
              QU (go_dwPlatformType g), QU (go_dwDiscount g), QU (go_wRoleLvReq g), QU (go_dwBonusBuyCount g),
              QU (go_dwBonusLimit g), QU (go_byBonusResetType g), QU (go_dwDiamondPay g)]) s;
          UpdateGoodsInfoOfGameServer api m dwGameServerId s }"

definition UpdateGoodsInfoOfGameServerAll :: "'c mysql_api \<Rightarrow> (uint32 \<times> goods_info) list \<Rightarrow> uint32 \<Rightarrow> ('c, 'z, unit) cdb_fn" where
  "UpdateGoodsInfoOfGameServerAll api vGoods dwGameServerId s =
     do { (_, s) \<leftarrow> cd_PExecute api ''delete from goods_info where server_id=%u'' [QU dwGameServerId] s;
          UpdateGoodsInfoOfGameServer api vGoods dwGameServerId s }"

end
