(* ===== verification/Center_Ids.thy ===== *)
theory Center_Ids
  imports Center_Db
begin

text \<open>
  Properties of the central database's client: the identifiers it gives out, the resolution of
  server merges and the poll of the server list.
\<close>

section \<open>Identifiers\<close>

unbundle bit_operations_syntax

lemma take_bit_unat_less: "unat (w :: 'a::len word) < 2 ^ k \<Longrightarrow> take_bit k w = w"
  by (metis take_bit_nat_eq_self_iff unsigned_take_bit_eq unsigned_word_eqI)

lemma bit_unat_less: "unat (w :: 'a::len word) < 2 ^ k \<Longrightarrow> bit w n \<Longrightarrow> n < k"
  by (metis bit_take_bit_iff take_bit_unat_less)

fun role_ids :: "nat \<Rightarrow> ('c, 'z) center_db_scheme \<Rightarrow> uint32 list" where
  "role_ids 0 s = []"
| "role_ids (Suc n) s = (let (i, s) = NextRoleId s in i # role_ids n s)"

fun passport_ids :: "uint32 list \<Rightarrow> ('c, 'z) center_db_scheme \<Rightarrow> uint64 list" where
  "passport_ids [] s = []"
| "passport_ids (p # ps) s = (let (i, s) = NextPassportId p s in i # passport_ids ps s)"

lemma role_id_fields:
  assumes "unat (inc :: uint32) < 2 ^ 28" "unat (srv :: uint8) < 8"
  defines "i \<equiv> push_bit 4 inc OR push_bit 1 (ucast srv)"
  shows "drop_bit 4 i = inc" "take_bit 3 (drop_bit 1 i) = ucast srv" "i AND 1 = 0"
proof -
  have inc: "n < 28" if "bit inc n" for n using bit_unat_less [OF assms(1) that] .
  have srv: "n < 3" if "bit srv n" for n using bit_unat_less [of srv 3 n] assms(2) that by simp
  define q where "q = push_bit 1 (ucast srv :: uint32)"
  have q: "bit q n \<longleftrightarrow> 1 \<le> n \<and> n < 32 \<and> bit srv (n - 1)" for n
    unfolding q_def by (simp only: bit_push_bit_iff bit_unsigned_iff possible_bit_word) (auto dest: srv)
  have i: "i = push_bit 4 inc OR q" by (simp only: i_def q_def)
  show "drop_bit 4 i = inc"
    by (rule bit_eqI) (auto simp: i bit_simps q dest: inc srv)
  show "take_bit 3 (drop_bit 1 i) = ucast srv"
    by (rule bit_eqI) (auto simp: i bit_simps q dest: srv)
  show "i AND 1 = 0"
    by (rule bit_eqI) (auto simp: i bit_simps q)
qed

lemma passport_id_fields:
  fixes inc :: uint32
  assumes "unat (srv :: uint8) < 8" "unat (p :: uint32) < 2 ^ 29"
  defines "i \<equiv> push_bit 32 (ucast inc) OR push_bit 29 (ucast srv) OR ucast p :: uint64"
  shows "(ucast (drop_bit 32 i) :: uint32) = inc" "take_bit 29 i = ucast p"
proof -
  have srv: "n < 3" if "bit srv n" for n using bit_unat_less [of srv 3 n] assms(1) that by simp
  have p: "n < 29" if "bit p n" for n using bit_unat_less [OF assms(2) that] .
  show "(ucast (drop_bit 32 i) :: uint32) = inc"
    by (rule bit_eqI) (auto simp: i_def bit_simps dest: srv p)
  show "take_bit 29 i = ucast p"
    by (rule bit_eqI) (auto simp: i_def bit_simps dest: p)
qed

lemma role_ids_map:
  "role_ids n s =
     map (\<lambda>k. push_bit 4 (cd_maxRoleAutoInc s + word_of_nat (Suc k)) OR push_bit 1 (ucast (cd_byLoginServerId s))) [0..<n]"
proof (induction n arbitrary: s)
  case (Suc n)
  have "map f [0..<Suc n] = f 0 # map (\<lambda>k. f (Suc k)) [0..<n]" for f :: "nat \<Rightarrow> uint32"
    by (simp add: map_upt_Suc del: upt_Suc)
  then show ?case using Suc [of "snd (NextRoleId s)"] by (simp add: NextRoleId_def Let_def ac_simps del: upt_Suc)
qed simp

lemma passport_ids_map:
  "passport_ids ps s =
     map2 (\<lambda>k p. push_bit 32 (ucast (cd_maxPassportAutoInc s + word_of_nat (Suc k))) OR
                 push_bit 29 (ucast (cd_byLoginServerId s)) OR ucast p) [0..<length ps] ps"
proof (induction ps arbitrary: s)
  case (Cons p ps)
  have "[0..<length (p # ps)] = 0 # map Suc [0..<length ps]" by (simp add: map_Suc_upt upt_conv_Cons del: upt_Suc)
  then show ?case using Cons [of "snd (NextPassportId p s)"]
    by (simp add: NextPassportId_def Let_def zip_map1 comp_def split_def ac_simps del: upt_Suc)
qed simp

lemma add_nat_inj:
  "(a :: 'a::len word) + word_of_nat j = a + word_of_nat k \<Longrightarrow> j < 2 ^ LENGTH('a) \<Longrightarrow> k < 2 ^ LENGTH('a) \<Longrightarrow> j = k"
proof -
  assume eq: "a + word_of_nat j = a + word_of_nat k" and less: "j < 2 ^ LENGTH('a)" "k < 2 ^ LENGTH('a)"
  from eq have "unat (word_of_nat j :: 'a word) = unat (word_of_nat k :: 'a word)" by simp
  then show "j = k" using less by (simp only: unsigned_of_nat take_bit_nat_eq_self of_nat_id)
qed

text \<open>
  C33: as long as the counters do not run over (28 bits for roles, 32 for passports), the role ids
  and the passport ids a login server gives out are all different; a role id is even, and a login
  server below 8 and the platform of a passport can be read off the ids, so that different login
  servers never give out the same role id.
\<close>

theorem next_ids_distinct:
  assumes "unat (cd_byLoginServerId s) < 8" "unat (cd_maxRoleAutoInc s) + n < 2 ^ 28"
    and "unat (cd_maxPassportAutoInc s) + length ps < 2 ^ 32" "\<forall>p \<in> set ps. unat p < 2 ^ 29"
  shows "distinct (role_ids n s) \<and>
    (\<forall>i \<in> set (role_ids n s). i AND 1 = 0 \<and> take_bit 3 (drop_bit 1 i) = ucast (cd_byLoginServerId s)) \<and>
    distinct (passport_ids ps s) \<and> map (take_bit 29) (passport_ids ps s) = map ucast ps"
proof -
  let ?inc = "\<lambda>k. cd_maxRoleAutoInc s + word_of_nat (Suc k)"
  let ?id = "\<lambda>k. push_bit 4 (?inc k) OR push_bit 1 (ucast (cd_byLoginServerId s))"
  have small: "unat (?inc k) < 2 ^ 28" if "k < n" for k
  proof -
    have "unat (word_of_nat (Suc k) :: uint32) = Suc k"
      using that assms(2) by (subst unsigned_of_nat, subst take_bit_nat_eq_self) simp_all
    then have "unat (?inc k) \<le> unat (cd_maxRoleAutoInc s) + Suc k" by (metis unat_word_ariths(1) mod_less_eq_dividend)
    with that assms(2) show ?thesis by simp
  qed
  have "inj_on ?id {0..<n}"
  proof (rule inj_onI)
    fix j k assume jk: "j \<in> {0..<n}" "k \<in> {0..<n}" "?id j = ?id k"
    then have "?inc j = ?inc k"
      using role_id_fields(1) [OF small assms(1), of j] role_id_fields(1) [OF small assms(1), of k] by simp
    then have "Suc j = Suc k" by (rule add_nat_inj) (use jk assms(2) in simp_all)
    then show "j = k" by simp
  qed
  then have roles: "distinct (role_ids n s)" by (simp add: role_ids_map distinct_map)
  have parts: "\<forall>i \<in> set (role_ids n s). i AND 1 = 0 \<and> take_bit 3 (drop_bit 1 i) = ucast (cd_byLoginServerId s)"
    using role_id_fields(2,3) [OF small assms(1)] by (auto simp: role_ids_map)
  let ?pinc = "\<lambda>k. cd_maxPassportAutoInc s + word_of_nat (Suc k)"
  let ?pid = "\<lambda>k. push_bit 32 (ucast (?pinc k)) OR push_bit 29 (ucast (cd_byLoginServerId s)) OR ucast (ps ! k) :: uint64"
  have pmap: "passport_ids ps s = map ?pid [0..<length ps]"
    unfolding passport_ids_map by (rule nth_equalityI) simp_all
  have p29: "unat (ps ! k) < 2 ^ 29" if "k < length ps" for k using assms(4) that by simp
  have "inj_on ?pid {0..<length ps}"
  proof (rule inj_onI)
    fix j k assume jk: "j \<in> {0..<length ps}" "k \<in> {0..<length ps}" "?pid j = ?pid k"
    then have "?pinc j = ?pinc k"
      using passport_id_fields(1) [OF assms(1) p29, of j "?pinc j"] passport_id_fields(1) [OF assms(1) p29, of k "?pinc k"] by simp
    then have "Suc j = Suc k" by (rule add_nat_inj) (use jk assms(3) in simp_all)
    then show "j = k" by simp
  qed
  then have pd: "distinct (passport_ids ps s)" by (simp add: pmap distinct_map)
  have "map (take_bit 29) (passport_ids ps s) = map ucast ps"
    using passport_id_fields(2) [OF assms(1) p29] by (auto simp: pmap intro!: nth_equalityI)
  with roles parts pd show ?thesis by blast
qed

definition cd_demo :: "unit center_db" where
  "cd_demo = \<lparr>cd_db = None, cd_byLoginServerId = 5, cd_maxPassportAutoInc = 41, cd_maxRoleAutoInc = 100000, cd_bReadOnly = False\<rparr>"

theorem next_ids_distinct_witness:
  "distinct (role_ids 3 cd_demo) \<and> list_all (\<lambda>i. i AND 1 = 0 \<and> take_bit 3 (drop_bit 1 i) = ucast (cd_byLoginServerId cd_demo)) (role_ids 3 cd_demo) \<and>
    distinct (passport_ids [900, 900] cd_demo) \<and> map (take_bit 29) (passport_ids [900, 900] cd_demo) = map ucast [900, 900 :: uint32]"
  unfolding list_all_iff by (rule next_ids_distinct) (simp_all add: cd_demo_def)

text \<open>
  At a restart the role counter is read back with \<^verbatim>\<open>mod(role_id >> 1, 128)\<close>, which compares seven bits
  although the login server has three: only every sixteenth id is looked at, so a counter that
  ended at 100005 starts at 100000 again and gives out the same ids.
\<close>

definition max_role_query :: "uint8 \<Rightarrow> uint32 list \<Rightarrow> uint32" where
  "max_role_query srv ids = foldr max (filter (\<lambda>i. drop_bit 1 i mod 128 = ucast srv) ids) 0"

lemma role_id_reused:
  "max (drop_bit 4 (max_role_query 5 (role_ids 5 cd_demo))) 100000 = (100000 :: uint32)"
  by code_simp

section \<open>Merged servers\<close>

text \<open>One merge, from a server to the one it was merged into.\<close>

definition merge_step :: "(uint32 \<times> server_merge) list \<Rightarrow> (uint32 \<times> uint32) set" where
  "merge_step m = {(a, b). \<exists>stc. map_of m a = Some stc \<and> b = sm_mergeid stc}"

definition merges_ranked :: "(uint32 \<Rightarrow> nat) \<Rightarrow> (uint32 \<times> server_merge) list \<Rightarrow> bool" where
  "merges_ranked rank m \<longleftrightarrow> (\<forall>(a, stc) \<in> set m. rank (sm_mergeid stc) < rank a)"

lemma follow_merge_ends:
  assumes "merges_ranked rank m"
  shows "\<exists>r. follow_merge m stc = Some r \<and> map_of m (sm_mergeid r) = None \<and> sm_originid r = sm_originid stc \<and>
    (sm_mergeid stc, sm_mergeid r) \<in> (merge_step m)\<^sup>*"
proof (induction "rank (sm_mergeid stc)" arbitrary: stc rule: less_induct)
  case less
  show ?case
  proof (cases "map_of m (sm_mergeid stc)")
    case None
    then show ?thesis by (subst follow_merge.simps) simp
  next
    case (Some nxt)
    let ?s = "stc\<lparr>sm_mergeid := sm_mergeid nxt, sm_mergetype := sm_mergetype nxt\<rparr>"
    have "(sm_mergeid stc, nxt) \<in> set m" using Some by (rule map_of_SomeD)
    then have "rank (sm_mergeid ?s) < rank (sm_mergeid stc)" using assms by (auto simp: merges_ranked_def)
    from less [OF this] obtain r where r: "follow_merge m ?s = Some r" "map_of m (sm_mergeid r) = None"
      "sm_originid r = sm_originid stc" "(sm_mergeid nxt, sm_mergeid r) \<in> (merge_step m)\<^sup>*" by auto
    have "(sm_mergeid stc, sm_mergeid nxt) \<in> merge_step m" using Some by (auto simp: merge_step_def)
    with r Some show ?thesis by (subst follow_merge.simps) (auto intro: converse_rtrancl_into_rtrancl)
  qed
qed

lemma resolve_merges_spec:
  assumes "merges_ranked rank m" "omap_ok out" "distinct (map fst r)"
  shows "\<exists>out'. resolve_merges m r out = Some out' \<and> omap_ok out' \<and>
    (\<forall>k. map_of out' k = (case map_of r k of None \<Rightarrow> map_of out k | Some stc \<Rightarrow> follow_merge m stc))"
  using assms(2,3)
proof (induction r arbitrary: out)
  case (Cons kv r)
  obtain k stc where kv: "kv = (k, stc)" by fastforce
  obtain s where s: "follow_merge m stc = Some s" using follow_merge_ends [OF assms(1)] by blast
  obtain out' where out': "resolve_merges m r (omap_set k s out) = Some out'" "omap_ok out'"
    "\<forall>j. map_of out' j = (case map_of r j of None \<Rightarrow> map_of (omap_set k s out) j | Some stc \<Rightarrow> follow_merge m stc)"
    using Cons.IH [of "omap_set k s out"] Cons.prems by auto
  have "map_of r k = None" using Cons.prems(2) kv by (auto simp: map_of_eq_None_iff)
  then have "map_of out' j = (case map_of (kv # r) j of None \<Rightarrow> map_of out j | Some stc \<Rightarrow> follow_merge m stc)" for j
    using out'(3) s Cons.prems(1) kv by (simp add: map_of_omap_set split: option.split)
  with out'(1,2) s kv show ?case by auto
qed simp

lemma qr_rows_loop_inv:
  "qr_rows_loop body n q s = Some s' \<Longrightarrow> P s \<Longrightarrow> (\<And>q s s'. body q s = Some s' \<Longrightarrow> P s \<Longrightarrow> P s') \<Longrightarrow> P s'"
  by (induction n arbitrary: q s) (auto simp: bind_eq_Some_conv)

lemma read_merges_ok: "qr_each read_merge q [] = Some m \<Longrightarrow> omap_ok m"
  unfolding qr_each_def
  by (erule qr_rows_loop_inv [where P = omap_ok]) (auto simp: read_merge_def bind_eq_Some_conv)

text \<open>
  \<open>GetMergedListInfo\<close> follows every merge to its end. When its statement returns rows and the merges in
  them have no circle, it returns, lists exactly the servers that were merged, and gives for each the
  server at the end of its chain of merges, one that was itself not merged any further. (The statement
  names a column no statement of the repository creates; where it fails, or the log is empty, the list
  is left as it was.)
\<close>

lemma merged_list_resolved:
  assumes "cd_PQuery api ''SELECT `server_id_origin`,`server_id_merged`,merge_type FROM `gameserver_merge_log`;'' [] s = Some (Some q, s1)"
    and "qr_each read_merge q [] = Some m" "merges_ranked rank m"
  shows "\<exists>merges. GetMergedListInfo api out s = Some ((True, merges), s1) \<and> dom (map_of merges) = dom (map_of m) \<and>
    (\<forall>k stc. map_of merges k = Some stc \<longrightarrow> (k, sm_mergeid stc) \<in> (merge_step m)\<^sup>+ \<and> sm_mergeid stc \<notin> dom (map_of m))"
proof -
  have ok: "omap_ok m" using assms(2) by (rule read_merges_ok)
  obtain merges where r: "resolve_merges m m [] = Some merges"
    and mk: "\<forall>k. map_of merges k = (case map_of m k of None \<Rightarrow> None | Some stc \<Rightarrow> follow_merge m stc)"
    using resolve_merges_spec [OF assms(3), of "[]" m] omap_ok_distinct [OF ok] by (auto cong: option.case_cong)
  have run: "GetMergedListInfo api out s = Some ((True, merges), s1)"
    using assms(1,2) r by (simp add: GetMergedListInfo_def)
  have chain: "(k, sm_mergeid stc) \<in> (merge_step m)\<^sup>+ \<and> sm_mergeid stc \<notin> dom (map_of m)" if "map_of merges k = Some stc" for k stc
  proof -
    from that mk obtain o1 where o1: "map_of m k = Some o1" "follow_merge m o1 = Some stc"
      by (cases "map_of m k") auto
    with follow_merge_ends [OF assms(3), of o1]
    have "(sm_mergeid o1, sm_mergeid stc) \<in> (merge_step m)\<^sup>*" "map_of m (sm_mergeid stc) = None" by auto
    moreover have "(k, sm_mergeid o1) \<in> merge_step m" using o1 by (auto simp: merge_step_def)
    ultimately show ?thesis by (auto intro: rtrancl_into_trancl2)
  qed
  have "dom (map_of merges) = dom (map_of m)"
  proof -
    have "map_of merges k = None \<longleftrightarrow> map_of m k = None" for k
    proof (cases "map_of m k")
      case (Some stc)
      with mk follow_merge_ends [OF assms(3), of stc] show ?thesis by auto
    qed (simp add: mk)
    then show ?thesis by (simp add: dom_def)
  qed
  with run chain show ?thesis by blast
qed

definition poll_conn :: "unit database_mysql" where
  "poll_conn = \<lparr>dm_mysql = Some (), dm_strInfoString = [], dm_strDbName = ''center''\<rparr>"

section \<open>The poll of the game servers\<close>

fun qr_decode :: "(query_result \<Rightarrow> 'a option) \<Rightarrow> nat \<Rightarrow> query_result \<Rightarrow> 'a list option" where
  "qr_decode get 0 q = Some []"
| "qr_decode get (Suc n) q =
     do { x \<leftarrow> get q; xs \<leftarrow> qr_decode get n (snd (qr_NextRow q)); Some (x # xs) }"

text \<open>The rows of a poll, and what one of them makes of the entry that was there.\<close>

definition polled_rows :: "query_result \<Rightarrow> server_status list option" where
  "polled_rows q = qr_decode read_server_status (qr_rowCount q) q"

definition heartbeat :: "server_status option \<Rightarrow> server_status \<Rightarrow> server_status" where
  "heartbeat old st =
     st\<lparr>ss_bIsAlive := (case old of None \<Rightarrow> False | Some o1 \<Rightarrow> ss_dwLastUpdateTime o1 \<noteq> ss_dwLastUpdateTime st)\<rparr>"

lemma read_server_status_dead: "read_server_status q = Some st \<Longrightarrow> ss_bIsAlive st = False"
  by (auto simp: read_server_status_def bind_eq_Some_conv Let_def)

lemma heartbeat_new: "ss_bIsAlive st = False \<Longrightarrow> heartbeat None st = st"
  by (simp add: heartbeat_def)

lemma poll_server_step:
  assumes "poll_server api q (m, s) = Some (m', s')" "read_server_status q = Some st" "omap_ok m"
  shows "omap_ok m' \<and> map_of m' = (map_of m)(ss_dwServerId st \<mapsto> heartbeat (map_of m (ss_dwServerId st)) st)"
proof (cases "map_of m (ss_dwServerId st)")
  case None
  with assms have "m' = omap_insert (ss_dwServerId st) st m" by (auto simp: poll_server_def)
  moreover have "heartbeat None st = st" using read_server_status_dead [OF assms(2)] by (rule heartbeat_new)
  ultimately show ?thesis using None assms(3) by (auto simp: map_of_omap_insert)
next
  case (Some old)
  with assms have "m' = omap_set (ss_dwServerId st) (heartbeat (Some old) st) m"
    by (auto simp: poll_server_def heartbeat_def bind_eq_Some_conv Let_def)
  with Some assms(3) show ?thesis by (simp add: map_of_omap_set omap_ok_set)
qed

lemma poll_all_servers:
  assumes "qr_rows_loop (poll_server api) n q (m, s) = Some (m', s')" "qr_decode read_server_status n q = Some sts"
    and "omap_ok m" "distinct (map ss_dwServerId sts)"
  shows "omap_ok m' \<and> (\<forall>k. map_of m' k =
    (case map_of (map (\<lambda>st. (ss_dwServerId st, st)) sts) k of None \<Rightarrow> map_of m k | Some st \<Rightarrow> Some (heartbeat (map_of m k) st)))"
  using assms
proof (induction n arbitrary: q m s sts)
  case (Suc n)
  from Suc.prems(2) obtain st r where st: "read_server_status q = Some st"
    "qr_decode read_server_status n (snd (qr_NextRow q)) = Some r" "sts = st # r"
    by (auto simp: bind_eq_Some_conv)
  from Suc.prems(1) obtain m1 s1 where m1: "poll_server api q (m, s) = Some (m1, s1)"
    "qr_rows_loop (poll_server api) n (snd (qr_NextRow q)) (m1, s1) = Some (m', s')"
    by (auto simp: bind_eq_Some_conv)
  note step = poll_server_step [OF m1(1) st(1) Suc.prems(3)]
  have "map_of (map (\<lambda>st. (ss_dwServerId st, st)) r) (ss_dwServerId st) = None"
    using Suc.prems(4) st(3) by (auto simp: map_of_eq_None_iff comp_def)
  with Suc.IH [OF m1(2) st(2)] step Suc.prems(4) st(3) show ?case
    by (auto split: option.splits)
qed simp

definition server_ids_ok :: "server_map \<Rightarrow> bool" where
  "server_ids_ok m \<longleftrightarrow> (\<forall>j st. map_of m j = Some st \<longrightarrow> ss_dwServerId st = j)"

lemma server_ids_okD: "server_ids_ok m \<Longrightarrow> map_of m j = Some st \<Longrightarrow> ss_dwServerId st = j"
  by (simp add: server_ids_ok_def)

lemma take_over_none: "take_over None m it = it"
  by (simp add: take_over_def)

lemma take_over_id: "ss_dwServerId (take_over mg m it) = ss_dwServerId it"
proof -
  have "ss_dwServerId (copy_master ty master it) = ss_dwServerId it" for ty master by (simp add: copy_master_def)
  then show ?thesis by (auto simp: take_over_def Let_def split: option.split)
qed

lemma take_over_all_other:
  assumes "map_of merges k = None" "server_ids_ok m" "omap_ok m"
  shows "map_of (take_over_all merges ks m) k = map_of m k"
  using assms(2,3)
proof (induction ks arbitrary: m)
  case (Cons j ks)
  show ?case
  proof (cases "map_of m j")
    case None
    then show ?thesis using Cons by simp
  next
    case (Some it)
    have j: "ss_dwServerId it = j" using server_ids_okD [OF Cons.prems(1) Some] .
    define t where "t = take_over (map_of merges (ss_dwServerId it)) m it"
    have tj: "ss_dwServerId t = j" using j by (simp add: take_over_id t_def)
    have look: "map_of (omap_set j t m) = (map_of m)(j \<mapsto> t)" using Cons.prems(2) by (rule map_of_omap_set)
    have "map_of (omap_set j t m) k = map_of m k"
    proof (cases "k = j")
      case True
      then have "t = it" using assms(1) j by (simp add: take_over_none t_def)
      then show ?thesis using look True Some by simp
    qed (simp add: look)
    moreover have "server_ids_ok (omap_set j t m)"
      unfolding server_ids_ok_def look using tj server_ids_okD [OF Cons.prems(1)] by simp
    moreover have "omap_ok (omap_set j t m)" using Cons.prems(2) by (rule omap_ok_set)
    ultimately have "map_of (take_over_all merges ks (omap_set j t m)) k = map_of m k" using Cons.IH by simp
    with Some show ?thesis by (simp add: t_def)
  qed
qed simp

text \<open>
  C35: the poll of the game servers: a server that is in the merge log nowhere as merged away is
  afterwards listed with what its row says, alive exactly when it was listed before and its update
  time has changed since; a server without a row stays listed and is not alive.
\<close>

theorem server_alive_by_heartbeat:
  fixes s :: "('c, 'z) center_db_scheme"
  assumes "GetOrUpdateGameServerStatus api servers s = Some (servers', s')"
    and "cd_PQuery api server_list_sql [] s = Some (Some q, s1)" "polled_rows q = Some sts"
    and "distinct (map ss_dwServerId sts)" "omap_ok servers" "server_ids_ok servers"
    and "\<And>(s2 :: ('c, 'z) center_db_scheme) b merges s3.
           GetMergedListInfo api [] s2 = Some ((b, merges), s3) \<Longrightarrow> map_of merges k = None"
  shows "map_of servers' k =
    (case map_of (map (\<lambda>st. (ss_dwServerId st, st)) sts) k of
       Some st \<Rightarrow> Some (heartbeat (map_of servers k) st)
     | None \<Rightarrow> map_option (\<lambda>st. st\<lparr>ss_bIsAlive := False\<rparr>) (map_of servers k))"
proof -
  define m0 where "m0 = map (\<lambda>(k, st). (k, st\<lparr>ss_bIsAlive := False\<rparr>)) servers"
  have m0: "map_of m0 j = map_option (\<lambda>st. st\<lparr>ss_bIsAlive := False\<rparr>) (map_of servers j)" for j
    unfolding m0_def by (simp add: map_of_map)
  have ok0: "omap_ok m0" using assms(5) by (simp add: omap_ok_def comp_def split_def m0_def)
  from assms(1,2) obtain m1 s2 b merges s3 where
    loop: "qr_rows_loop (poll_server api) (qr_rowCount q) q (m0, s1) = Some (m1, s2)"
    and mg: "GetMergedListInfo api [] s2 = Some ((b, merges), s3)"
    and fin: "servers' = take_over_all merges (map fst m1) m1"
    by (auto simp: GetOrUpdateGameServerStatus_def qr_each_def bind_eq_Some_conv m0_def)
  note m1 = poll_all_servers [OF loop assms(3) [unfolded polled_rows_def] ok0 assms(4)]
  have "server_ids_ok m1"
    unfolding server_ids_ok_def
  proof (intro allI impI)
    fix j st assume st: "map_of m1 j = Some st"
    show "ss_dwServerId st = j"
    proof (cases "map_of (map (\<lambda>st. (ss_dwServerId st, st)) sts) j")
      case None
      with st m1 m0 [of j] obtain st0 where "map_of servers j = Some st0" "st = st0\<lparr>ss_bIsAlive := False\<rparr>" by auto
      with server_ids_okD [OF assms(6)] show ?thesis by simp
    next
      case (Some st1)
      then have "ss_dwServerId st1 = j" by (auto dest: map_of_SomeD)
      with Some st m1 show ?thesis by (auto simp: heartbeat_def)
    qed
  qed
  then have "map_of servers' k = map_of m1 k"
    unfolding fin using assms(7) [OF mg] m1 by (intro take_over_all_other) auto
  moreover have "heartbeat (map_of m0 k) st = heartbeat (map_of servers k) st" for st
    by (simp add: m0 heartbeat_def split: option.split)
  ultimately show ?thesis using m1 m0 by (simp split: option.split)
qed

definition poll_row :: my_row where
  "poll_row = [Some ''7'', Some ''one'', Some ''10.0.0.1'', Some ''192.168.0.1'', Some ''8000'', Some ''1.2.3'', Some ''1.2-9'', Some ''r'',
               Some ''12'', Some ''1'', Some ''0'', Some ''0'', Some ''res'', Some ''5000'', Some ''0'', Some ''0'', Some ''3'', Some ''game7'']"

definition poll_types :: "nat list" where "poll_types = replicate 18 253"

definition poll_api :: "unit mysql_api" where
  "poll_api =
     \<lparr>my_query = (\<lambda>sql c. if sql = sql_text server_list_sql [] then (My_Rows poll_types [poll_row], c) else (My_Error, c)),
      my_connect = (\<lambda>_ _ _ _ _ _. None), my_escape = (\<lambda>s. s)\<rparr>"

definition poll_status :: server_status where
  "poll_status =
     \<lparr>ss_dwServerId = 7, ss_strServerName = ''one'', ss_strIp = ''10.0.0.1'', ss_strLocalIp = ''192.168.0.1'', ss_dwPort = 8000,
      ss_strVersion = ''1.2.3'', ss_strClientVer = ''1.2'', ss_strClientResVer = ''9'', ss_strResVer = ''r'', ss_strResServerAddr = ''res'',
      ss_dwOnlineNum = 12, ss_byCanLogin = 1, ss_byStatus = 0, ss_dwLoginStrategy = 0, ss_dwLastUpdateTime = 5000, ss_bIsAlive = False,
      ss_bIsTest = False, ss_byActivateReq = 0, ss_byServerIdentify = 3, ss_strDbName = ''game7''\<rparr>"

definition poll_old :: server_map where
  "poll_old = [(7, poll_status\<lparr>ss_dwLastUpdateTime := 4990\<rparr>)]"

definition poll_result :: query_result where
  "poll_result = snd (qr_NextRow (qr_new poll_types [poll_row]))"

abbreviation poll_state :: "unit center_db" where
  "poll_state \<equiv> cd_demo\<lparr>cd_db := Some poll_conn\<rparr>"

lemma poll_demo:
  "GetOrUpdateGameServerStatus poll_api poll_old poll_state = Some ([(7, poll_status\<lparr>ss_bIsAlive := True\<rparr>)], poll_state)"
  "cd_PQuery poll_api server_list_sql [] poll_state = Some (Some poll_result, poll_state)"
  "polled_rows poll_result = Some [poll_status]"
  by code_simp+

lemma poll_no_merges:
  fixes s :: "(unit, 'z) center_db_scheme"
  assumes "GetMergedListInfo poll_api [] s = Some ((b, merges), s')"
  shows "map_of merges k = None"
proof -
  have "sql_text ''SELECT `server_id_origin`,`server_id_merged`,merge_type FROM `gameserver_merge_log`;'' [] \<noteq> sql_text server_list_sql []"
    by code_simp
  with assms show ?thesis
    by (auto simp: GetMergedListInfo_def cd_PQuery_def dm_PQuery_def dm_Query_def poll_api_def bind_eq_Some_conv
        split: option.splits)
qed

theorem server_alive_by_heartbeat_witness:
  "map_of [(7, poll_status\<lparr>ss_bIsAlive := True\<rparr>)] (7 :: uint32) =
    (case map_of (map (\<lambda>st. (ss_dwServerId st, st)) [poll_status]) 7 of
       Some st \<Rightarrow> Some (heartbeat (map_of poll_old 7) st)
     | None \<Rightarrow> map_option (\<lambda>st. st\<lparr>ss_bIsAlive := False\<rparr>) (map_of poll_old 7))"
proof (rule server_alive_by_heartbeat [OF poll_demo])
  show "distinct (map ss_dwServerId [poll_status])" by simp
  show "omap_ok poll_old" "server_ids_ok poll_old"
    by (auto simp: poll_old_def server_ids_ok_def poll_status_def split: if_splits)
qed (rule poll_no_merges)

end
