(* ===== verification/Gm_Command.thy ===== *)
theory Gm_Command
  imports Center_Db
begin

text \<open>
  GM commands: \<^verbatim>\<open>GmCommand\<close> and its factory (pitayaserver/util/GmCommand.h, GmCommand.cpp), the command
  functions of \<^verbatim>\<open>CenterDBCtrl\<close> (CenterDBCtrl.cpp from \<open>InitGmCommand\<close> to \<open>RemoveGmCommand\<close>) and the
  commands of the login server (loginserver/GmCommandExt.h, GmCommandExt.cpp).

  The members a subclass adds are the type \<open>'x\<close>; the functions a subclass overrides and the two
  functions a server registers with the factory are the record \<open>gm_class\<close>, whose laws are the locale
  \<open>gm_hooks\<close>. A command is known by its key in \<^verbatim>\<open>m_mapGmCommandAll\<close>, so that a command can change
  another one while the map is iterated over. Deleting a command whose key is not its id leaves a
  dangling entry and is \<^const>\<open>None\<close>, as is reading a member that was not initialised.
\<close>

section \<open>Commands\<close>

definition E_GM_COMMAND_TARGET_TYPE_SERVER :: uint8 where "E_GM_COMMAND_TARGET_TYPE_SERVER = 1"
definition E_GM_COMMAND_TARGET_TYPE_ROLE :: uint8 where "E_GM_COMMAND_TARGET_TYPE_ROLE = 2"
definition E_GM_COMMAND_TARGET_TYPE_PASSPORT :: uint8 where "E_GM_COMMAND_TARGET_TYPE_PASSPORT = 3"

definition E_GM_COMMAND_STATUS_NEW :: uint8 where "E_GM_COMMAND_STATUS_NEW = 0"
definition E_GM_COMMAND_STATUS_PENDING :: uint8 where "E_GM_COMMAND_STATUS_PENDING = 1"
definition E_GM_COMMAND_STATUS_RUNNING :: uint8 where "E_GM_COMMAND_STATUS_RUNNING = 2"
definition E_GM_COMMAND_STATUS_COMPLETE :: uint8 where "E_GM_COMMAND_STATUS_COMPLETE = 3"
definition E_GM_COMMAND_STATUS_CANCEL :: uint8 where "E_GM_COMMAND_STATUS_CANCEL = 4"
definition E_GM_COMMAND_STATUS_CANCELED :: uint8 where "E_GM_COMMAND_STATUS_CANCELED = 5"
definition E_GM_COMMAND_STATUS_ERROR :: uint8 where "E_GM_COMMAND_STATUS_ERROR = 6"

lemmas gm_status_defs =
  E_GM_COMMAND_STATUS_NEW_def E_GM_COMMAND_STATUS_PENDING_def E_GM_COMMAND_STATUS_RUNNING_def
  E_GM_COMMAND_STATUS_COMPLETE_def E_GM_COMMAND_STATUS_CANCEL_def E_GM_COMMAND_STATUS_CANCELED_def
  E_GM_COMMAND_STATUS_ERROR_def

record 'x gm_command =
  gc_dwAutoId :: uint32
  gc_strOpr :: string
  gc_eTargetType :: uint8
  gc_dwTargetId :: uint64
  gc_dwStartTime :: uint32
  gc_dwEndTime :: uint32
  gc_strBackup :: string
  gc_eStatus :: uint8
  gc_strParams :: string
  gc_strErrorMsg :: string
  gc_bDirty :: bool
  gc_member :: 'x

definition gc_new :: "'x \<Rightarrow> 'x gm_command" where
  "gc_new x =
     \<lparr>gc_dwAutoId = 0, gc_strOpr = [], gc_eTargetType = E_GM_COMMAND_TARGET_TYPE_SERVER, gc_dwTargetId = 0,
      gc_dwStartTime = 0, gc_dwEndTime = 0, gc_strBackup = [], gc_eStatus = E_GM_COMMAND_STATUS_NEW,
      gc_strParams = [], gc_strErrorMsg = [], gc_bDirty = False, gc_member = x\<rparr>"

text \<open>The setters of \<^verbatim>\<open>COMMAND_PROPERTY\<close> mark the command dirty.\<close>

definition gc_SetStartTime :: "uint32 \<Rightarrow> 'x gm_command \<Rightarrow> 'x gm_command" where
  "gc_SetStartTime t c = c\<lparr>gc_dwStartTime := t, gc_bDirty := True\<rparr>"

definition gc_SetEndTime :: "uint32 \<Rightarrow> 'x gm_command \<Rightarrow> 'x gm_command" where
  "gc_SetEndTime t c = c\<lparr>gc_dwEndTime := t, gc_bDirty := True\<rparr>"

definition gc_SetStatus :: "uint8 \<Rightarrow> 'x gm_command \<Rightarrow> 'x gm_command" where
  "gc_SetStatus st c = c\<lparr>gc_eStatus := st, gc_bDirty := True\<rparr>"

definition gc_SetErrorMsg :: "string \<Rightarrow> 'x gm_command \<Rightarrow> 'x gm_command" where
  "gc_SetErrorMsg m c = c\<lparr>gc_strErrorMsg := m, gc_bDirty := True\<rparr>"

definition gc_Reset :: "'x gm_command \<Rightarrow> 'x gm_command" where
  "gc_Reset c = c\<lparr>gc_bDirty := False\<rparr>"

record ('c, 'x) gm_db = "'c center_db" +
  gm_dwMaxHandledGmCommandId :: uint32
  gm_dwMaxRunningGmCommandTime :: uint32
  gm_mapGmCommandAll :: "(uint32 \<times> 'x gm_command) list"

type_synonym ('c, 'x, 'a) gm_fn = "('c, 'x) gm_db \<Rightarrow> ('a \<times> ('c, 'x) gm_db) option"

definition gm_get :: "uint32 \<Rightarrow> ('c, 'x) gm_db \<Rightarrow> 'x gm_command option" where
  "gm_get k s = map_of (gm_mapGmCommandAll s) k"

definition gm_upd :: "uint32 \<Rightarrow> ('x gm_command \<Rightarrow> 'x gm_command) \<Rightarrow> ('c, 'x) gm_db \<Rightarrow> ('c, 'x) gm_db" where
  "gm_upd k f s =
     s\<lparr>gm_mapGmCommandAll := map (\<lambda>(k', c). (k', if k' = k then f c else c)) (gm_mapGmCommandAll s)\<rparr>"

text \<open>
  What a server adds: \<open>gcl_Create\<close> and \<open>gcl_CheckTargetType\<close> are registered with
  \<^verbatim>\<open>GmCommandFactory::RegisterFunc\<close>, the others are the virtual functions of the subclasses.
\<close>

record ('c, 'x) gm_class =
  gcl_Create :: "string \<Rightarrow> 'x option"
  gcl_CheckTargetType :: "uint8 \<Rightarrow> uint64 \<Rightarrow> bool"
  gcl_Validate :: "uint32 \<Rightarrow> ('c, 'x, bool) gm_fn"
  gcl_Trigger :: "uint32 \<Rightarrow> ('c, 'x, bool) gm_fn"
  gcl_Complete :: "uint32 \<Rightarrow> ('c, 'x, bool) gm_fn"
  gcl_Tick :: "uint32 \<Rightarrow> ('c, 'x, unit) gm_fn"

text \<open>\<open>GmCommandFactory\<close>: without registered functions nothing is created and no target is accepted.\<close>

definition gf_Create ::
  "('c, 'x) gm_class option \<Rightarrow> uint32 \<Rightarrow> string \<Rightarrow> uint8 \<Rightarrow> uint64 \<Rightarrow> uint32 \<Rightarrow> uint32 \<Rightarrow> string \<Rightarrow> uint8 \<Rightarrow> string \<Rightarrow>
   'x gm_command option" where
  "gf_Create cls dwAutoId strOpr eTargetType dwTargetId dwStartTime dwEndTime strBackup eStatus strParams =
     do { cls \<leftarrow> cls;
          x \<leftarrow> gcl_Create cls strOpr;
          Some ((gc_new x)\<lparr>gc_dwAutoId := dwAutoId, gc_strOpr := strOpr, gc_eTargetType := eTargetType,
                 gc_dwTargetId := dwTargetId, gc_dwStartTime := dwStartTime, gc_dwEndTime := dwEndTime,
                 gc_strBackup := strBackup, gc_eStatus := eStatus, gc_strParams := strParams, gc_bDirty := True\<rparr>) }"

definition gf_CheckTargetType :: "('c, 'x) gm_class option \<Rightarrow> uint8 \<Rightarrow> uint64 \<Rightarrow> bool" where
  "gf_CheckTargetType cls byTargetType dwTargetId =
     (case cls of None \<Rightarrow> False | Some cls \<Rightarrow> gcl_CheckTargetType cls byTargetType dwTargetId)"

text \<open>\<open>Cancel\<close>; \<open>complete\<close> is the virtual function of the command.\<close>

definition gc_Cancel :: "(uint32 \<Rightarrow> ('c, 'x, bool) gm_fn) \<Rightarrow> uint32 \<Rightarrow> ('c, 'x, bool) gm_fn" where
  "gc_Cancel complete k s =
     do { c \<leftarrow> gm_get k s;
          if gc_eStatus c = E_GM_COMMAND_STATUS_NEW \<or> gc_eStatus c = E_GM_COMMAND_STATUS_PENDING
          then Some (True, gm_upd k (gc_SetStatus E_GM_COMMAND_STATUS_CANCELED) s)
          else if gc_eStatus c = E_GM_COMMAND_STATUS_RUNNING
          then do { (ok, s) \<leftarrow> complete k s;
                    if ok then Some (True, gm_upd k (gc_SetStatus E_GM_COMMAND_STATUS_CANCELED) s) else Some (False, s) }
          else Some (False, s) }"

section \<open>Reading and storing commands\<close>

definition AppendGmCommand :: "'x gm_command \<Rightarrow> ('c, 'x) gm_db \<Rightarrow> ('c, 'x) gm_db" where
  "AppendGmCommand c s = s\<lparr>gm_mapGmCommandAll := omap_insert (gc_dwAutoId c) c (gm_mapGmCommandAll s)\<rparr>"

definition RemoveGmCommand :: "uint32 \<Rightarrow> ('c, 'x) gm_db \<Rightarrow> ('c, 'x) gm_db option" where
  "RemoveGmCommand k s =
     do { c \<leftarrow> gm_get k s;
          if gc_dwAutoId c \<noteq> k then None
          else Some (s\<lparr>gm_mapGmCommandAll := omap_erase k (gm_mapGmCommandAll s)\<rparr>) }"

definition read_command ::
  "'c mysql_api \<Rightarrow> ('c, 'x) gm_class option \<Rightarrow> query_result \<Rightarrow> ('c, 'x) gm_db \<Rightarrow> ('c, 'x) gm_db option" where
  "read_command api cls q s =
     do { dwAutoId \<leftarrow> row_get fd_GetUInt32 0 q;
          strOpr \<leftarrow> row_get fd_GetString 1 q;
          byTargetType \<leftarrow> row_get fd_GetUInt8 2 q;
          dwTargetId \<leftarrow> row_get fd_GetUInt64 3 q;
          dwStartTime \<leftarrow> row_get fd_GetUInt32 4 q;
          dwEndTime \<leftarrow> row_get fd_GetUInt32 5 q;
          strBackup \<leftarrow> row_get fd_GetString 6 q;
          byStatus \<leftarrow> row_get fd_GetUInt8 7 q;
          strParams \<leftarrow> row_get fd_GetTextString 8 q;
          let s = s\<lparr>gm_dwMaxHandledGmCommandId := max (gm_dwMaxHandledGmCommandId s) dwAutoId\<rparr>;
          if \<not> gf_CheckTargetType cls byTargetType dwTargetId then Some s
          else case gf_Create cls dwAutoId strOpr byTargetType dwTargetId dwStartTime dwEndTime strBackup byStatus strParams of
                 Some cmd \<Rightarrow> Some (AppendGmCommand cmd s)
               | None \<Rightarrow>
                   do { (_, s) \<leftarrow> cd_PExecute api ''update gm_cmd set status=%u, error_msg=%q where auto_id=%u''
                          [QU E_GM_COMMAND_STATUS_ERROR, QS ''Operation Not Support'', QU dwAutoId] s;
                        Some s } }"

definition ReadCommands ::
  "'c mysql_api \<Rightarrow> ('c, 'x) gm_class option \<Rightarrow> query_result \<Rightarrow> ('c, 'x) gm_db \<Rightarrow> ('c, 'x) gm_db option" where
  "ReadCommands api cls q s = qr_each (read_command api cls) q s"

definition gm_cmd_columns :: string where
  "gm_cmd_columns =
     ''select auto_id, opr, target_type, target_id, start_time, end_time, backup_value, status, params from gm_cmd''"

definition InitGmCommand :: "'c mysql_api \<Rightarrow> ('c, 'x) gm_class option \<Rightarrow> ('c, 'x, bool) gm_fn" where
  "InitGmCommand api cls s =
     do { (r, s) \<leftarrow> cd_PQuery api (gm_cmd_columns @ '' where status = %u or status = %u or status = %u'')
            [QU E_GM_COMMAND_STATUS_NEW, QU E_GM_COMMAND_STATUS_PENDING, QU E_GM_COMMAND_STATUS_RUNNING] s;
          case r of
            Some q \<Rightarrow> do { s \<leftarrow> ReadCommands api cls q s; Some (True, s) }
          | None \<Rightarrow> Some (True, s\<lparr>gm_dwMaxHandledGmCommandId := 0\<rparr>) }"

definition ReadNewGmCommand :: "'c mysql_api \<Rightarrow> ('c, 'x) gm_class option \<Rightarrow> ('c, 'x, bool) gm_fn" where
  "ReadNewGmCommand api cls s =
     do { (r, s) \<leftarrow> cd_PQuery api (gm_cmd_columns @ '' where auto_id > %u and status = %u'')
            [QU (gm_dwMaxHandledGmCommandId s), QU E_GM_COMMAND_STATUS_NEW] s;
          case r of
            Some q \<Rightarrow> do { s \<leftarrow> ReadCommands api cls q s; Some (True, s) }
          | None \<Rightarrow> Some (True, s) }"

definition HasGmCommand :: "uint32 \<Rightarrow> ('c, 'x) gm_db \<Rightarrow> bool" where
  "HasGmCommand dwGmCommandId s = (gm_get dwGmCommandId s \<noteq> None)"

definition CancelGmCommand :: "(uint32 \<Rightarrow> ('c, 'x, bool) gm_fn) \<Rightarrow> uint32 \<Rightarrow> ('c, 'x, bool) gm_fn" where
  "CancelGmCommand complete dwGmCommandId s =
     (if gm_get dwGmCommandId s \<noteq> None then gc_Cancel complete dwGmCommandId s else Some (False, s))"

definition GetGmCommand :: "uint32 \<Rightarrow> ('c, 'x) gm_db \<Rightarrow> 'x gm_command option" where
  "GetGmCommand dwGmCommandId s = gm_get dwGmCommandId s"

definition CreateSysGmCommand ::
  "'c mysql_api \<Rightarrow> string \<Rightarrow> string \<Rightarrow> uint8 \<Rightarrow> uint32 \<Rightarrow> uint32 \<Rightarrow> uint32 \<Rightarrow> ('c, 'z, uint32) cdb_fn" where
  "CreateSysGmCommand api strOpr strParams byTargetType dwTargetId dwStartTime dwEndTime s =
     do { strOpr \<leftarrow> cd_escape api strOpr s;
          strParams \<leftarrow> cd_escape api strParams s;
          (now, s) \<leftarrow> GetDBTime api s;
          (res, s) \<leftarrow> cd_PExecute api
            (''insert into gm_cmd (opr, params, target_type, target_id, start_time, end_time, backup_value,'' @
             ''status, error_msg, create_time, author) values( %q, %q, %u, %u, %u, %u, %q, %u, %q, %u, %q )'')
            [QS strOpr, QS strParams, QU byTargetType, QU dwTargetId, QU dwStartTime, QU dwEndTime, QS [], QN 0, QS [],
             QU now, QS ''sys''] s;
          if res then cd_lookup api fd_GetUInt32 0 ''select LAST_INSERT_ID()'' [] s else Some (0, s) }"

section \<open>Running commands\<close>

text \<open>The three blocks of the first loop of \<open>UpdateGmCommand\<close>; the flag is false after a \<^verbatim>\<open>break\<close>.\<close>

definition gm_stage_new :: "('c, 'x) gm_class \<Rightarrow> uint32 \<Rightarrow> ('c, 'x, bool) gm_fn" where
  "gm_stage_new cls k s =
     do { c \<leftarrow> gm_get k s;
          if gc_eStatus c = E_GM_COMMAND_STATUS_NEW
          then do { (ok, s) \<leftarrow> gcl_Validate cls k s;
                    if \<not> ok then Some (False, gm_upd k (gc_SetStatus E_GM_COMMAND_STATUS_ERROR) s)
                    else Some (True, gm_upd k (gc_SetStatus E_GM_COMMAND_STATUS_PENDING) s) }
          else Some (True, s) }"

definition gm_stage_pending :: "('c, 'x) gm_class \<Rightarrow> uint32 \<Rightarrow> uint32 \<Rightarrow> ('c, 'x, bool) gm_fn" where
  "gm_stage_pending cls dwTime k s =
     do { c \<leftarrow> gm_get k s;
          if gc_eStatus c = E_GM_COMMAND_STATUS_PENDING \<and> (gc_dwStartTime c = 0 \<or> gc_dwStartTime c < dwTime)
          then do { (ok, s) \<leftarrow> gcl_Trigger cls k (gm_upd k (gc_SetStartTime dwTime) s);
                    if \<not> ok then Some (False, gm_upd k (gc_SetStatus E_GM_COMMAND_STATUS_ERROR) s)
                    else Some (True, gm_upd k (gc_SetStatus E_GM_COMMAND_STATUS_RUNNING) s) }
          else Some (True, s) }"

definition gm_stage_running :: "('c, 'x) gm_class \<Rightarrow> uint32 \<Rightarrow> uint32 \<Rightarrow> ('c, 'x) gm_db \<Rightarrow> ('c, 'x) gm_db option" where
  "gm_stage_running cls dwTime k s =
     do { c \<leftarrow> gm_get k s;
          if gc_eStatus c = E_GM_COMMAND_STATUS_RUNNING
          then do { (_, s) \<leftarrow> gcl_Tick cls k s;
                    c \<leftarrow> gm_get k s;
                    if gc_dwEndTime c = 0 \<or> gc_dwEndTime c < dwTime
                    then do { (ok, s) \<leftarrow> gcl_Complete cls k s;
                              if \<not> ok then Some (gm_upd k (gc_SetStatus E_GM_COMMAND_STATUS_ERROR) s)
                              else Some (gm_upd k (gc_SetStatus E_GM_COMMAND_STATUS_COMPLETE) s) }
                    else Some s }
          else Some s }"

definition gm_times :: "uint32 \<Rightarrow> 'x gm_command \<Rightarrow> 'x gm_command" where
  "gm_times dwTime c =
     (let c = (if gc_dwStartTime c = 0 then gc_SetStartTime dwTime c else c)
      in if gc_dwEndTime c < gc_dwStartTime c then gc_SetEndTime (gc_dwStartTime c) c else c)"

definition gm_run_one :: "('c, 'x) gm_class \<Rightarrow> uint32 \<Rightarrow> uint32 \<Rightarrow> ('c, 'x) gm_db \<Rightarrow> ('c, 'x) gm_db option" where
  "gm_run_one cls dwTime k s =
     do { (go, s) \<leftarrow> gm_stage_new cls k (gm_upd k (gm_times dwTime) s);
          if \<not> go then Some s
          else do { (go, s) \<leftarrow> gm_stage_pending cls dwTime k s;
                    if \<not> go then Some s else gm_stage_running cls dwTime k s } }"

fun gm_run_all :: "('c, 'x) gm_class \<Rightarrow> uint32 \<Rightarrow> uint32 list \<Rightarrow> ('c, 'x) gm_db \<Rightarrow> ('c, 'x) gm_db option" where
  "gm_run_all cls dwTime [] s = Some s"
| "gm_run_all cls dwTime (k # ks) s = do { s \<leftarrow> gm_run_one cls dwTime k s; gm_run_all cls dwTime ks s }"

definition gm_finished :: "uint8 \<Rightarrow> bool" where
  "gm_finished st \<longleftrightarrow>
     st = E_GM_COMMAND_STATUS_COMPLETE \<or> st = E_GM_COMMAND_STATUS_ERROR \<or> st = E_GM_COMMAND_STATUS_CANCELED"

text \<open>The second loop writes the dirty commands back and collects the finished ones.\<close>

definition gm_store_one :: "'c mysql_api \<Rightarrow> uint32 \<Rightarrow> ('c, 'x) gm_db \<Rightarrow> ('c, 'x) gm_db option" where
  "gm_store_one api k s =
     do { c \<leftarrow> gm_get k s;
          s \<leftarrow> (if gc_bDirty c
                then do { (_, s) \<leftarrow> cd_PExecute api
                            (''update gm_cmd set opr=%q, target_type=%u, target_id=%llu, start_time=%u, end_time=%u, '' @
                             ''backup_value=%q, status=%u where auto_id=%u'')
                            [QS (gc_strOpr c), QU (gc_eTargetType c), QU (gc_dwTargetId c), QU (gc_dwStartTime c),
                             QU (gc_dwEndTime c), QS (gc_strBackup c), QU (gc_eStatus c), QU (gc_dwAutoId c)] s;
                          strErrorMsg \<leftarrow> cd_escape api (gc_strErrorMsg c) s;
                          (_, s) \<leftarrow> cd_PExecute api ''update gm_cmd set error_msg=%q where auto_id=%u''
                            [QS strErrorMsg, QU (gc_dwAutoId c)] s;
                          Some s }
                else Some s);
          Some (gm_upd k gc_Reset s) }"

fun gm_store_all ::
  "'c mysql_api \<Rightarrow> uint32 list \<Rightarrow> uint32 list \<Rightarrow> ('c, 'x) gm_db \<Rightarrow> (uint32 list \<times> ('c, 'x) gm_db) option" where
  "gm_store_all api [] vRemove s = Some (vRemove, s)"
| "gm_store_all api (k # ks) vRemove s =
     do { s \<leftarrow> gm_store_one api k s;
          c \<leftarrow> gm_get k s;
          gm_store_all api ks (if gm_finished (gc_eStatus c) then vRemove @ [k] else vRemove) s }"

fun gm_remove_all :: "uint32 list \<Rightarrow> ('c, 'x) gm_db \<Rightarrow> ('c, 'x) gm_db option" where
  "gm_remove_all [] s = Some s"
| "gm_remove_all (k # ks) s = do { s \<leftarrow> RemoveGmCommand k s; gm_remove_all ks s }"

definition UpdateGmCommand :: "'c mysql_api \<Rightarrow> ('c, 'x) gm_class \<Rightarrow> ('c, 'x, bool) gm_fn" where
  "UpdateGmCommand api cls s =
     do { (dwTime, s) \<leftarrow> GetDBTime api s;
          if dwTime \<le> gm_dwMaxRunningGmCommandTime s then Some (False, s)
          else do { s \<leftarrow> gm_run_all cls dwTime (map fst (gm_mapGmCommandAll s)) s;
                    (vRemoveCmd, s) \<leftarrow> gm_store_all api (map fst (gm_mapGmCommandAll s)) [] s;
                    s \<leftarrow> gm_remove_all vRemoveCmd s;
                    Some (True, s\<lparr>gm_dwMaxRunningGmCommandTime := dwTime\<rparr>) } }"

text \<open>A role is given to every running command that started after its last visit; \<open>handle\<close> is \<open>HandleRole\<close>.\<close>

definition gm_due :: "uint32 \<Rightarrow> 'x gm_command \<Rightarrow> bool" where
  "gm_due dwLastCmdTime c \<longleftrightarrow> gc_eStatus c = E_GM_COMMAND_STATUS_RUNNING \<and> dwLastCmdTime < gc_dwStartTime c"

definition HandlerGmCommandRole ::
  "('x gm_command \<Rightarrow> 'r \<Rightarrow> 'r) \<Rightarrow> 'r \<Rightarrow> uint32 \<Rightarrow> ('c, 'x) gm_db \<Rightarrow> uint32 \<times> 'r" where
  "HandlerGmCommandRole handle role dwLastCmdTime s =
     (if gm_dwMaxRunningGmCommandTime s \<le> dwLastCmdTime then (dwLastCmdTime, role)
      else (gm_dwMaxRunningGmCommandTime s,
            fold (\<lambda>(k, c) r. if gm_due dwLastCmdTime c then handle c r else r) (gm_mapGmCommandAll s) role))"

section \<open>The commands of the login server\<close>

text \<open>The members are not initialised before \<open>Validate\<close>, which only a new command runs.\<close>

datatype login_command = SetGmAuthCommand (m_byGmAuth: "uint8 option") | CancelCommand (m_dwGmAutoId: "uint32 option")

definition lg_Create :: "string \<Rightarrow> login_command option" where
  "lg_Create strOpr =
     (if strOpr = ''set_gm_auth'' then Some (SetGmAuthCommand None)
      else if strOpr = ''cancel_gm_command'' then Some (CancelCommand None)
      else None)"

definition lg_CheckTargetType :: "uint8 \<Rightarrow> uint64 \<Rightarrow> bool" where
  "lg_CheckTargetType byTargetType dwTargetId = (byTargetType = E_GM_COMMAND_TARGET_TYPE_PASSPORT)"

text \<open>\<open>RETURN_FALSE_IF_PARAMS_SIZE_INVALID( ==, 1 )\<close>: the parameters, or the error message.\<close>

definition gc_one_param :: "'x gm_command \<Rightarrow> string + string" where
  "gc_one_param c =
     (let vParam = StrSplit (gc_strParams c) ''|'' in
      if length vParam = 1 then Inr (vParam ! 0)
      else Inl (sql_fmt ''Param Count Error, count=%d, require == %d'' [QN (int (length vParam)), QN 1]))"

definition lg_fail :: "string \<Rightarrow> uint32 \<Rightarrow> ('c, 'x, bool) gm_fn" where
  "lg_fail msg k s = Some (False, gm_upd k (gc_SetErrorMsg msg) s)"

definition SetGmAuthCommand_Validate :: "'c mysql_api \<Rightarrow> uint32 \<Rightarrow> ('c, login_command, bool) gm_fn" where
  "SetGmAuthCommand_Validate api k s =
     do { c \<leftarrow> gm_get k s;
          case gc_one_param c of
            Inl msg \<Rightarrow> lg_fail msg k s
          | Inr p \<Rightarrow>
              do { let s = gm_upd k (\<lambda>c. c\<lparr>gc_member := SetGmAuthCommand (Some (word_of_int (c_atoi_int p)))\<rparr>) s;
                   (found, s) \<leftarrow> ExistsPassport_id api (gc_dwTargetId c) s;
                   if \<not> found then lg_fail (sql_fmt ''Passport Not Exists, passportId=%llu'' [QU (gc_dwTargetId c)]) k s
                   else Some (True, s) } }"

definition SetGmAuthCommand_Trigger :: "'c mysql_api \<Rightarrow> uint32 \<Rightarrow> ('c, login_command, bool) gm_fn" where
  "SetGmAuthCommand_Trigger api k s =
     do { c \<leftarrow> gm_get k s;
          byGmAuth \<leftarrow> (case gc_member c of SetGmAuthCommand a \<Rightarrow> a | CancelCommand _ \<Rightarrow> None);
          (ok, s) \<leftarrow> UpdatePassportGmAuth api (gc_dwTargetId c) byGmAuth s;
          if \<not> ok then lg_fail (sql_fmt ''Update Passport Fail, passportId=%llu'' [QU (gc_dwTargetId c)]) k s
          else Some (True, s) }"

definition lg_Complete :: "uint32 \<Rightarrow> ('c, login_command, bool) gm_fn" where
  "lg_Complete k s = Some (True, s)"

definition CancelCommand_Validate :: "uint32 \<Rightarrow> ('c, login_command, bool) gm_fn" where
  "CancelCommand_Validate k s =
     do { c \<leftarrow> gm_get k s;
          if gc_eTargetType c = E_GM_COMMAND_TARGET_TYPE_PASSPORT then lg_fail ''Target Type [Passport] Not Support'' k s
          else if gc_eTargetType c = E_GM_COMMAND_TARGET_TYPE_ROLE then lg_fail ''Target Type [Role] Not Support'' k s
          else case gc_one_param c of
                 Inl msg \<Rightarrow> lg_fail msg k s
               | Inr p \<Rightarrow>
                   do { let i = word_of_int (c_atoi_int p);
                        let s = gm_upd k (\<lambda>c. c\<lparr>gc_member := CancelCommand (Some i)\<rparr>) s;
                        if i = gc_dwAutoId c \<or> \<not> HasGmCommand i s then lg_fail ''Command Not Found'' k s
                        else Some (True, s) } }"

definition CancelCommand_Trigger :: "uint32 \<Rightarrow> ('c, login_command, bool) gm_fn" where
  "CancelCommand_Trigger k s =
     do { c \<leftarrow> gm_get k s;
          i \<leftarrow> (case gc_member c of CancelCommand i \<Rightarrow> i | SetGmAuthCommand _ \<Rightarrow> None);
          CancelGmCommand lg_Complete i s }"

definition lg_Validate :: "'c mysql_api \<Rightarrow> uint32 \<Rightarrow> ('c, login_command, bool) gm_fn" where
  "lg_Validate api k s =
     do { c \<leftarrow> gm_get k s;
          case gc_member c of SetGmAuthCommand _ \<Rightarrow> SetGmAuthCommand_Validate api k s
          | CancelCommand _ \<Rightarrow> CancelCommand_Validate k s }"

definition lg_Trigger :: "'c mysql_api \<Rightarrow> uint32 \<Rightarrow> ('c, login_command, bool) gm_fn" where
  "lg_Trigger api k s =
     do { c \<leftarrow> gm_get k s;
          case gc_member c of SetGmAuthCommand _ \<Rightarrow> SetGmAuthCommand_Trigger api k s
          | CancelCommand _ \<Rightarrow> CancelCommand_Trigger k s }"

definition login_class :: "'c mysql_api \<Rightarrow> ('c, login_command) gm_class" where
  "login_class api =
     \<lparr>gcl_Create = lg_Create, gcl_CheckTargetType = lg_CheckTargetType, gcl_Validate = lg_Validate api,
      gcl_Trigger = lg_Trigger api, gcl_Complete = lg_Complete, gcl_Tick = (\<lambda>k s. Some ((), s))\<rparr>"

end
