(* ===== verification/Gm_Run.thy ===== *)
theory Gm_Run
  imports Gm_Command
begin

text \<open>
  What a pass of \<open>UpdateGmCommand\<close> does to the commands. The locale \<open>gm_hooks\<close> states what the functions
  of a subclass may do to the command map: nothing but cancel commands that are not finished, and
  change members that do not belong to the life cycle. The pass is proved to settle every command
  under these laws, and the commands of the login server are shown to keep them.
\<close>

section \<open>What a command may do\<close>

definition gm_active :: "uint8 \<Rightarrow> bool" where
  "gm_active st \<longleftrightarrow> st = E_GM_COMMAND_STATUS_NEW \<or> st = E_GM_COMMAND_STATUS_PENDING \<or> st = E_GM_COMMAND_STATUS_RUNNING"

text \<open>
  What a pass writes of a command, and that a command which differs in it is marked dirty (and stays so).
\<close>

definition gc_stored :: "'x gm_command \<Rightarrow>
    uint32 \<times> string \<times> uint8 \<times> uint64 \<times> uint32 \<times> uint32 \<times> string \<times> uint8 \<times> string" where
  "gc_stored c =
     (gc_dwAutoId c, gc_strOpr c, gc_eTargetType c, gc_dwTargetId c, gc_dwStartTime c, gc_dwEndTime c, gc_strBackup c,
      gc_eStatus c, gc_strErrorMsg c)"

definition gm_marked :: "'x gm_command \<Rightarrow> 'x gm_command \<Rightarrow> bool" where
  "gm_marked c c' \<longleftrightarrow> (gc_bDirty c \<longrightarrow> gc_bDirty c') \<and> (gc_bDirty c' \<or> gc_stored c' = gc_stored c)"

definition gm_kept :: "'x gm_command \<Rightarrow> 'x gm_command \<Rightarrow> bool" where
  "gm_kept c c' \<longleftrightarrow>
     gc_dwAutoId c' = gc_dwAutoId c \<and> gc_dwStartTime c' = gc_dwStartTime c \<and> gc_dwEndTime c' = gc_dwEndTime c \<and>
     (gc_eStatus c' = gc_eStatus c \<or> gm_active (gc_eStatus c) \<and> gc_eStatus c' = E_GM_COMMAND_STATUS_CANCELED) \<and>
     gm_marked c c'"

definition gm_online :: "('c, 'z) center_db_scheme \<Rightarrow> bool" where
  "gm_online s \<longleftrightarrow> (case cd_db s of None \<Rightarrow> False | Some d \<Rightarrow> dm_mysql d \<noteq> None)"

definition gm_frame :: "uint32 set \<Rightarrow> ('c, 'x) gm_db \<Rightarrow> ('c, 'x) gm_db \<Rightarrow> bool" where
  "gm_frame K s s' \<longleftrightarrow>
     map fst (gm_mapGmCommandAll s') = map fst (gm_mapGmCommandAll s) \<and>
     gm_dwMaxRunningGmCommandTime s' = gm_dwMaxRunningGmCommandTime s \<and>
     (gm_online s \<longrightarrow> gm_online s') \<and>
     (\<forall>j. j \<notin> K \<longrightarrow> rel_option gm_kept (gm_get j s) (gm_get j s'))"

lemmas gm_status_simps = gm_active_def gm_finished_def gm_status_defs

lemma gm_marked_refl [simp]: "gm_marked c c"
  by (simp add: gm_marked_def)

lemma gm_marked_trans: "gm_marked c c1 \<Longrightarrow> gm_marked c1 c2 \<Longrightarrow> gm_marked c c2"
  by (auto simp: gm_marked_def)

lemma gm_marked_dirty: "gc_bDirty c' \<Longrightarrow> gm_marked c c'"
  by (simp add: gm_marked_def)

lemma gm_marked_times [simp]: "gm_marked c (gm_times t c)"
  by (simp add: gm_marked_def gm_times_def Let_def gc_SetStartTime_def gc_SetEndTime_def)

lemma gm_kept_status:
  "st1 = st \<or> gm_active st \<and> st1 = E_GM_COMMAND_STATUS_CANCELED \<Longrightarrow> st2 = st1 \<or> gm_active st1 \<and> st2 = E_GM_COMMAND_STATUS_CANCELED \<Longrightarrow>
   st2 = st \<or> gm_active st \<and> st2 = E_GM_COMMAND_STATUS_CANCELED"
  by (auto simp: gm_status_simps)

lemma gm_kept_refl [simp]: "gm_kept c c"
  by (simp add: gm_kept_def)

lemma gm_kept_trans:
  assumes "gm_kept c c1" "gm_kept c1 c2"
  shows "gm_kept c c2"
  using assms gm_marked_trans [of c c1 c2] gm_kept_status [of "gc_eStatus c1" "gc_eStatus c" "gc_eStatus c2"]
  unfolding gm_kept_def by presburger

lemma gm_frame_refl [simp]: "gm_frame K s s"
  by (simp add: gm_frame_def option.rel_refl)

lemma rel_kept_trans: "rel_option gm_kept a b \<Longrightarrow> rel_option gm_kept b d \<Longrightarrow> rel_option gm_kept a d"
  by (cases a; cases b; cases d) (auto intro: gm_kept_trans)

lemma gm_frame_trans: "gm_frame K s s1 \<Longrightarrow> gm_frame K s1 s2 \<Longrightarrow> gm_frame K s s2"
  by (auto simp: gm_frame_def intro: rel_kept_trans)

lemma gm_frame_mono: "gm_frame K s s' \<Longrightarrow> K \<subseteq> K' \<Longrightarrow> gm_frame K' s s'"
  by (auto simp: gm_frame_def)

lemma map_of_upd: "map_of (map (\<lambda>(k', c). (k', if k' = k then f c else c)) m) j = map_option (if j = k then f else id) (map_of m j)"
  by (induction m) auto

lemma gm_get_upd [simp]: "gm_get j (gm_upd k f s) = map_option (if j = k then f else id) (gm_get j s)"
  by (simp add: gm_get_def gm_upd_def map_of_upd)

lemma gm_upd_fields [simp]:
  "map fst (gm_mapGmCommandAll (gm_upd k f s)) = map fst (gm_mapGmCommandAll s)"
  "gm_dwMaxRunningGmCommandTime (gm_upd k f s) = gm_dwMaxRunningGmCommandTime s"
  "cd_db (gm_upd k f s) = cd_db s" "gm_online (gm_upd k f s) = gm_online s"
  by (simp_all add: gm_upd_def comp_def case_prod_unfold gm_online_def)

lemma gm_frame_upd: "k \<in> K \<Longrightarrow> gm_frame K s (gm_upd k f s)"
  by (auto simp: gm_frame_def option.map_id intro: option.rel_refl)

lemma gm_frame_upd_kept: "(\<And>c. gm_get k s = Some c \<Longrightarrow> gm_kept c (f c)) \<Longrightarrow> gm_frame K s (gm_upd k f s)"
  by (auto simp: gm_frame_def option.map_id option.rel_map intro!: option.rel_refl_strong)

lemma gm_frame_getD: "gm_frame {} s s' \<Longrightarrow> gm_get k s = Some c \<Longrightarrow> \<exists>c'. gm_get k s' = Some c' \<and> gm_kept c c'"
  by (auto simp: gm_frame_def option_rel_Some1 dest!: spec [of _ k])

text \<open>A statement leaves the commands alone.\<close>

lemma cd_PExecute_gm: "cd_PExecute api f as s = Some (r, s') \<Longrightarrow>
    gm_mapGmCommandAll s' = gm_mapGmCommandAll s \<and> gm_dwMaxRunningGmCommandTime s' = gm_dwMaxRunningGmCommandTime s \<and>
    (gm_online s \<longrightarrow> gm_online s')"
  for s :: "('c, 'x) gm_db"
  by (auto simp: cd_PExecute_def dm_PExecute_def dm_DirectExecute_def gm_online_def bind_eq_Some_conv Let_def case_prod_unfold
      split: option.splits)

lemma dm_PQuery_mysql: "dm_mysql (snd (dm_PQuery api f as d)) = None \<longleftrightarrow> dm_mysql d = None"
proof (cases "dm_mysql d")
  case (Some c)
  then show ?thesis
    by (cases "fst (my_query api (sql_text f as) c)") (simp_all add: dm_PQuery_def dm_Query_def Let_def case_prod_unfold)
qed (simp add: dm_PQuery_def dm_Query_def)

lemma cd_PQuery_gm: "cd_PQuery api f as s = Some (r, s') \<Longrightarrow>
    gm_mapGmCommandAll s' = gm_mapGmCommandAll s \<and> gm_dwMaxRunningGmCommandTime s' = gm_dwMaxRunningGmCommandTime s \<and>
    (gm_online s \<longrightarrow> gm_online s')"
  for s :: "('c, 'x) gm_db"
  by (auto simp: cd_PQuery_def gm_online_def bind_eq_Some_conv Let_def case_prod_unfold dm_PQuery_mysql)

lemma gm_frame_same: "gm_mapGmCommandAll s' = gm_mapGmCommandAll s \<Longrightarrow>
    gm_dwMaxRunningGmCommandTime s' = gm_dwMaxRunningGmCommandTime s \<Longrightarrow>
    (gm_online s \<longrightarrow> gm_online s') \<Longrightarrow> gm_frame K s s'"
  by (simp add: gm_frame_def gm_get_def option.rel_refl)

lemma cd_lookup_gm: "cd_lookup api get d f as s = Some (r, s') \<Longrightarrow>
    gm_mapGmCommandAll s' = gm_mapGmCommandAll s \<and> gm_dwMaxRunningGmCommandTime s' = gm_dwMaxRunningGmCommandTime s"
  for s :: "('c, 'x) gm_db"
  by (auto simp: cd_lookup_def bind_eq_Some_conv split: option.splits dest!: cd_PQuery_gm)

lemma cd_lookup_online: "cd_lookup api get d f as s = Some (r, s') \<Longrightarrow> gm_online s \<longrightarrow> gm_online s'"
  for s :: "('c, 'x) gm_db"
  by (auto simp: cd_lookup_def bind_eq_Some_conv split: option.splits dest!: cd_PQuery_gm)

section \<open>The interface of a subclass\<close>

locale gm_hooks =
  fixes cls :: "('c, 'x) gm_class"
  assumes validate: "gcl_Validate cls k s = Some (r, s') \<Longrightarrow> gm_frame {} s s'"
    and trigger: "gcl_Trigger cls k s = Some (r, s') \<Longrightarrow> gm_frame {} s s'"
    and complete: "gcl_Complete cls k s = Some (r, s') \<Longrightarrow> gm_frame {} s s'"
    and tick: "gcl_Tick cls k s = Some (u, s') \<Longrightarrow> gm_frame {} s s'"

text \<open>What a pass at the time \<open>now\<close> makes of a command.\<close>

definition gm_result :: "uint32 \<Rightarrow> 'x gm_command \<Rightarrow> 'x gm_command \<Rightarrow> bool" where
  "gm_result now c c' \<longleftrightarrow> gc_dwAutoId c' = gc_dwAutoId c \<and>
     (gm_finished (gc_eStatus c')
      \<or> gc_eStatus c' = E_GM_COMMAND_STATUS_PENDING \<and> gm_active (gc_eStatus c) \<and> gc_eStatus c \<noteq> E_GM_COMMAND_STATUS_RUNNING \<and>
          gc_dwStartTime c' = gc_dwStartTime (gm_times now c) \<and> now \<le> gc_dwStartTime c'
      \<or> gc_eStatus c' = E_GM_COMMAND_STATUS_RUNNING \<and> gm_active (gc_eStatus c) \<and>
          gc_dwStartTime c' = (if gc_eStatus c = E_GM_COMMAND_STATUS_RUNNING then gc_dwStartTime (gm_times now c) else now) \<and>
          gc_dwEndTime c' = gc_dwEndTime (gm_times now c) \<and> now \<le> gc_dwEndTime c'
      \<or> gc_eStatus c' = gc_eStatus c \<and> \<not> gm_active (gc_eStatus c))"

lemma gm_times_cong: "gc_dwStartTime c' = gc_dwStartTime c \<Longrightarrow> gc_dwEndTime c' = gc_dwEndTime c \<Longrightarrow>
    gc_dwStartTime (gm_times t c') = gc_dwStartTime (gm_times t c) \<and> gc_dwEndTime (gm_times t c') = gc_dwEndTime (gm_times t c)"
  by (simp add: gm_times_def Let_def gc_SetStartTime_def gc_SetEndTime_def)

lemma gm_times_fields [simp]: "gc_eStatus (gm_times t c) = gc_eStatus c" "gc_dwAutoId (gm_times t c) = gc_dwAutoId c"
  by (simp_all add: gm_times_def Let_def gc_SetStartTime_def gc_SetEndTime_def)

lemma gm_result_after: "gm_result now c c1 \<Longrightarrow> gm_kept c1 c2 \<Longrightarrow> gm_result now c c2"
  by (auto simp: gm_result_def gm_kept_def gm_status_simps)

lemma gm_result_before:
  assumes "gm_kept c c1" "gm_result now c1 c2"
  shows "gm_result now c c2"
proof (cases "gc_eStatus c1 = gc_eStatus c")
  case True
  with assms gm_times_cong [of c1 c now] show ?thesis by (auto simp: gm_kept_def gm_result_def split: if_splits)
next
  case False
  with assms have "gc_eStatus c1 = E_GM_COMMAND_STATUS_CANCELED" by (simp add: gm_kept_def)
  with assms show ?thesis by (auto simp: gm_kept_def gm_result_def gm_status_simps)
qed

text \<open>The same with the marks.\<close>

definition gm_pass :: "uint32 \<Rightarrow> 'x gm_command \<Rightarrow> 'x gm_command \<Rightarrow> bool" where
  "gm_pass now c c' \<longleftrightarrow> gm_result now c c' \<and> gm_marked c c'"

lemma gm_pass_after: "gm_pass now c c1 \<Longrightarrow> gm_kept c1 c2 \<Longrightarrow> gm_pass now c c2"
  using gm_result_after [of now c c1 c2] gm_marked_trans [of c c1 c2] by (simp add: gm_pass_def gm_kept_def)

lemma gm_pass_before: "gm_kept c c1 \<Longrightarrow> gm_pass now c1 c2 \<Longrightarrow> gm_pass now c c2"
  using gm_result_before [of c c1 now c2] gm_marked_trans [of c c1 c2] by (simp add: gm_pass_def gm_kept_def)

context gm_hooks
begin

lemma stage_new:
  assumes "gm_stage_new cls k s = Some (go, s')" "gm_get k s = Some c"
  shows "gm_frame {k} s s' \<and> (\<exists>c'. gm_get k s' = Some c' \<and> gm_marked c c' \<and> gc_dwAutoId c' = gc_dwAutoId c \<and>
    gc_dwStartTime c' = gc_dwStartTime c \<and> gc_dwEndTime c' = gc_dwEndTime c \<and>
    (if gc_eStatus c = E_GM_COMMAND_STATUS_NEW
     then gc_eStatus c' = (if go then E_GM_COMMAND_STATUS_PENDING else E_GM_COMMAND_STATUS_ERROR)
     else go \<and> gc_eStatus c' = gc_eStatus c))"
proof (cases "gc_eStatus c = E_GM_COMMAND_STATUS_NEW")
  case True
  with assms obtain ok s1 where v: "gcl_Validate cls k s = Some (ok, s1)"
    and s': "go = ok" "s' = gm_upd k (gc_SetStatus (if ok then E_GM_COMMAND_STATUS_PENDING else E_GM_COMMAND_STATUS_ERROR)) s1"
    by (auto simp: gm_stage_new_def bind_eq_Some_conv split: if_splits)
  have f: "gm_frame {} s s1" by (rule validate [OF v])
  then obtain c1 where c1: "gm_get k s1 = Some c1" "gm_kept c c1" using gm_frame_getD assms(2) by blast
  have "gm_frame {k} s s'"
    unfolding s'(2) by (rule gm_frame_trans [OF gm_frame_mono [OF f] gm_frame_upd]) simp_all
  with c1 True s' show ?thesis by (auto simp: gc_SetStatus_def gm_kept_def gm_marked_dirty)
next
  case False
  with assms show ?thesis by (auto simp: gm_stage_new_def)
qed

lemma stage_pending:
  assumes "gm_stage_pending cls now k s = Some (go, s')" "gm_get k s = Some c"
  shows "gm_frame {k} s s' \<and> (\<exists>c'. gm_get k s' = Some c' \<and> gm_marked c c' \<and>
    gc_dwAutoId c' = gc_dwAutoId c \<and> gc_dwEndTime c' = gc_dwEndTime c \<and>
    (if gc_eStatus c = E_GM_COMMAND_STATUS_PENDING \<and> (gc_dwStartTime c = 0 \<or> gc_dwStartTime c < now)
     then gc_dwStartTime c' = now \<and> gc_eStatus c' = (if go then E_GM_COMMAND_STATUS_RUNNING else E_GM_COMMAND_STATUS_ERROR)
     else go \<and> gc_eStatus c' = gc_eStatus c \<and> gc_dwStartTime c' = gc_dwStartTime c))"
proof (cases "gc_eStatus c = E_GM_COMMAND_STATUS_PENDING \<and> (gc_dwStartTime c = 0 \<or> gc_dwStartTime c < now)")
  case True
  with assms obtain ok s1 where v: "gcl_Trigger cls k (gm_upd k (gc_SetStartTime now) s) = Some (ok, s1)"
    and s': "go = ok" "s' = gm_upd k (gc_SetStatus (if ok then E_GM_COMMAND_STATUS_RUNNING else E_GM_COMMAND_STATUS_ERROR)) s1"
    by (auto simp: gm_stage_pending_def bind_eq_Some_conv split: if_splits)
  have f: "gm_frame {} (gm_upd k (gc_SetStartTime now) s) s1" by (rule trigger [OF v])
  moreover have "gm_get k (gm_upd k (gc_SetStartTime now) s) = Some (gc_SetStartTime now c)" using assms(2) by simp
  ultimately obtain c1 where c1: "gm_get k s1 = Some c1" "gm_kept (gc_SetStartTime now c) c1" using gm_frame_getD by blast
  have "gm_frame {k} (gm_upd k (gc_SetStartTime now) s) s'"
    unfolding s'(2) by (rule gm_frame_trans [OF gm_frame_mono [OF f] gm_frame_upd]) simp_all
  then have "gm_frame {k} s s'" by (rule gm_frame_trans [OF gm_frame_upd, rotated]) simp
  with c1 True s' show ?thesis by (auto simp: gc_SetStatus_def gc_SetStartTime_def gm_kept_def gm_marked_dirty)
next
  case False
  with assms show ?thesis by (auto simp: gm_stage_pending_def)
qed

lemma stage_running:
  assumes "gm_stage_running cls now k s = Some s'" "gm_get k s = Some c"
  shows "gm_frame {k} s s' \<and> (\<exists>c'. gm_get k s' = Some c' \<and> gm_marked c c' \<and> gc_dwAutoId c' = gc_dwAutoId c \<and>
    (if gc_eStatus c = E_GM_COMMAND_STATUS_RUNNING
     then gm_finished (gc_eStatus c') \<or>
       gc_eStatus c' = E_GM_COMMAND_STATUS_RUNNING \<and> gc_dwStartTime c' = gc_dwStartTime c \<and>
       gc_dwEndTime c' = gc_dwEndTime c \<and> now \<le> gc_dwEndTime c
     else c' = c))"
proof (cases "gc_eStatus c = E_GM_COMMAND_STATUS_RUNNING")
  case True
  with assms obtain u s1 c1 where t: "gcl_Tick cls k s = Some (u, s1)" and c1: "gm_get k s1 = Some c1"
    and rest: "(if gc_dwEndTime c1 = 0 \<or> gc_dwEndTime c1 < now
       then do { (ok, s) \<leftarrow> gcl_Complete cls k s1;
                 if \<not> ok then Some (gm_upd k (gc_SetStatus E_GM_COMMAND_STATUS_ERROR) s)
                 else Some (gm_upd k (gc_SetStatus E_GM_COMMAND_STATUS_COMPLETE) s) }
       else Some s1) = Some s'"
    by (auto simp: gm_stage_running_def bind_eq_Some_conv)
  have f: "gm_frame {} s s1" by (rule tick [OF t])
  with assms(2) c1 have k1: "gm_kept c c1" using gm_frame_getD by fastforce
  show ?thesis
  proof (cases "gc_dwEndTime c1 = 0 \<or> gc_dwEndTime c1 < now")
    case True
    with rest obtain ok s2 where cp: "gcl_Complete cls k s1 = Some (ok, s2)"
      and s': "s' = gm_upd k (gc_SetStatus (if ok then E_GM_COMMAND_STATUS_COMPLETE else E_GM_COMMAND_STATUS_ERROR)) s2"
      by (auto simp: bind_eq_Some_conv split: if_splits)
    have f2: "gm_frame {} s s2" by (rule gm_frame_trans [OF f complete [OF cp]])
    then obtain c2 where c2: "gm_get k s2 = Some c2" "gm_kept c c2" using gm_frame_getD assms(2) by blast
    have "gm_frame {k} s s'"
      unfolding s' by (rule gm_frame_trans [OF gm_frame_mono [OF f2] gm_frame_upd]) simp_all
    with c2 s' \<open>gc_eStatus c = _\<close> show ?thesis by (auto simp: gc_SetStatus_def gm_kept_def gm_finished_def gm_marked_dirty)
  next
    case False
    with rest have "s' = s1" by simp
    with f c1 k1 False \<open>gc_eStatus c = _\<close> show ?thesis
      by (auto simp: gm_kept_def gm_finished_def intro: gm_frame_mono)
  qed
next
  case False
  with assms show ?thesis by (auto simp: gm_stage_running_def)
qed

text \<open>One command: the three blocks in turn.\<close>

lemma run_one:
  assumes "gm_run_one cls now k s = Some s'" "gm_get k s = Some c"
  shows "gm_frame {k} s s' \<and> (\<exists>c'. gm_get k s' = Some c' \<and> gm_result now c c' \<and> gm_marked c c')"
proof -
  let ?s0 = "gm_upd k (gm_times now) s"
  have c0: "gm_get k ?s0 = Some (gm_times now c)" using assms(2) by simp
  have f0: "gm_frame {k} s ?s0" by (rule gm_frame_upd) simp
  from assms(1) obtain go1 s1 where n: "gm_stage_new cls k ?s0 = Some (go1, s1)"
    and rest1: "\<not> go1 \<and> s' = s1 \<or> go1 \<and> (\<exists>go2 s2. gm_stage_pending cls now k s1 = Some (go2, s2) \<and>
      (\<not> go2 \<and> s' = s2 \<or> go2 \<and> gm_stage_running cls now k s2 = Some s'))"
    by (auto simp: gm_run_one_def bind_eq_Some_conv split: if_splits)
  note new = stage_new [OF n c0]
  then have m1: "gm_marked c c1" if "gm_get k s1 = Some c1" for c1
    using that gm_marked_trans [OF gm_marked_times] by auto
  from new obtain c1 where c1: "gm_get k s1 = Some c1" by blast
  from new have f1: "gm_frame {k} s s1" using gm_frame_trans [OF f0] by blast
  show ?thesis
  proof (cases go1)
    case False
    with rest1 new f1 m1 show ?thesis by (auto simp: gm_result_def gm_finished_def split: if_splits)
  next
    case True
    with rest1 obtain go2 s2 where p: "gm_stage_pending cls now k s1 = Some (go2, s2)"
      and rest2: "\<not> go2 \<and> s' = s2 \<or> go2 \<and> gm_stage_running cls now k s2 = Some s'" by blast
    note pend = stage_pending [OF p c1]
    then have m2: "gm_marked c c2" if "gm_get k s2 = Some c2" for c2
      using that gm_marked_trans [OF m1 [OF c1]] by auto
    from pend obtain c2 where c2: "gm_get k s2 = Some c2" by blast
    from pend have f2: "gm_frame {k} s s2" using gm_frame_trans [OF f1] by blast
    show ?thesis
    proof (cases go2)
      case False
      with rest2 pend new c1 f2 m2 show ?thesis by (auto simp: gm_result_def gm_finished_def split: if_splits)
    next
      case go2: True
      with rest2 have r: "gm_stage_running cls now k s2 = Some s'" by blast
      note run = stage_running [OF r c2]
      then have f: "gm_frame {k} s s'" using gm_frame_trans [OF f2] by blast
      have m: "gc_eStatus c1 = (if gc_eStatus c = E_GM_COMMAND_STATUS_NEW then E_GM_COMMAND_STATUS_PENDING else gc_eStatus c)"
        "gc_dwAutoId c1 = gc_dwAutoId c"
        "gc_dwStartTime c1 = gc_dwStartTime (gm_times now c)" "gc_dwEndTime c1 = gc_dwEndTime (gm_times now c)"
        using new c1 True by (auto split: if_splits)
      have e: "gc_dwEndTime c2 = gc_dwEndTime c1" "gc_dwAutoId c2 = gc_dwAutoId c1" using pend c2 by auto
      have q: "if gc_eStatus c1 = E_GM_COMMAND_STATUS_PENDING \<and> (gc_dwStartTime c1 = 0 \<or> gc_dwStartTime c1 < now)
          then gc_dwStartTime c2 = now \<and> gc_eStatus c2 = E_GM_COMMAND_STATUS_RUNNING
          else gc_eStatus c2 = gc_eStatus c1 \<and> gc_dwStartTime c2 = gc_dwStartTime c1"
        using pend c2 go2 by (auto split: if_splits)
      from run obtain c' where c': "gm_get k s' = Some c'" "gc_dwAutoId c' = gc_dwAutoId c2"
        "if gc_eStatus c2 = E_GM_COMMAND_STATUS_RUNNING
         then gm_finished (gc_eStatus c') \<or> gc_eStatus c' = E_GM_COMMAND_STATUS_RUNNING \<and> gc_dwStartTime c' = gc_dwStartTime c2 \<and>
           gc_dwEndTime c' = gc_dwEndTime c2 \<and> now \<le> gc_dwEndTime c2
         else c' = c2" and m3: "gm_marked c2 c'" by blast
      have "gm_result now c c'"
        using m e q c'(2,3) by (auto simp: gm_result_def gm_status_simps split: if_splits)
      with f c'(1) gm_marked_trans [OF m2 [OF c2] m3] show ?thesis by blast
    qed
  qed
qed

lemma run_all:
  assumes "gm_run_all cls now ks s = Some s'" "distinct ks" "set ks \<subseteq> set (map fst (gm_mapGmCommandAll s))"
  shows "gm_frame (set ks) s s' \<and> (\<forall>k \<in> set ks. rel_option (gm_pass now) (gm_get k s) (gm_get k s'))"
  using assms
proof (induction ks arbitrary: s)
  case Nil
  then show ?case by simp
next
  case (Cons k ks)
  then obtain s1 where one: "gm_run_one cls now k s = Some s1" and rest: "gm_run_all cls now ks s1 = Some s'"
    by (auto simp: bind_eq_Some_conv)
  from Cons.prems(3) obtain c where c: "gm_get k s = Some c"
    by (auto simp: gm_get_def dom_def dest!: weak_map_of_SomeI)
  from run_one [OF one c] obtain c1 where f1: "gm_frame {k} s s1" and c1: "gm_get k s1 = Some c1" "gm_pass now c c1" by (auto simp: gm_pass_def)
  have "map fst (gm_mapGmCommandAll s1) = map fst (gm_mapGmCommandAll s)" using f1 by (simp add: gm_frame_def)
  with Cons.IH [OF rest] Cons.prems have f: "gm_frame (set ks) s1 s'"
    and r: "\<forall>j \<in> set ks. rel_option (gm_pass now) (gm_get j s1) (gm_get j s')" by auto
  have "rel_option (gm_pass now) (gm_get k s) (gm_get k s')"
  proof -
    from f Cons.prems(2) c1(1) obtain c2 where "gm_get k s' = Some c2" "gm_kept c1 c2"
      by (auto simp: gm_frame_def option_rel_Some1 dest!: spec [of _ k])
    with c gm_pass_after [OF c1(2)] show ?thesis by simp
  qed
  moreover have "rel_option (gm_pass now) (gm_get j s) (gm_get j s')" if "j \<in> set ks" for j
  proof -
    from f1 that Cons.prems(2) have "rel_option gm_kept (gm_get j s) (gm_get j s1)" by (auto simp: gm_frame_def)
    with r that show ?thesis
      by (cases "gm_get j s"; cases "gm_get j s1"; cases "gm_get j s'") (auto dest!: bspec intro: gm_pass_before)
  qed
  moreover have "gm_frame (insert k (set ks)) s s'"
    by (rule gm_frame_trans [OF gm_frame_mono [OF f1] gm_frame_mono [OF f]]) auto
  ultimately show ?case by simp
qed

end

section \<open>Storing and removing\<close>

text \<open>A connection that keeps the statements it got, and the ones the second loop sends for a dirty command.\<close>

definition gm_records :: "('c \<Rightarrow> string list) \<Rightarrow> 'c mysql_api \<Rightarrow> bool" where
  "gm_records view api \<longleftrightarrow> (\<forall>sql c. view (snd (my_query api sql c)) = view c @ [sql])"

definition gm_sent :: "('c \<Rightarrow> string list) \<Rightarrow> ('c, 'z) center_db_scheme \<Rightarrow> string list" where
  "gm_sent view s =
     (case cd_db s of None \<Rightarrow> [] | Some d \<Rightarrow> (case dm_mysql d of None \<Rightarrow> [] | Some c \<Rightarrow> view c))"

definition gm_writes :: "'c mysql_api \<Rightarrow> 'x gm_command \<Rightarrow> string list" where
  "gm_writes api c =
     (if gc_bDirty c
      then [sql_text (''update gm_cmd set opr=%q, target_type=%u, target_id=%llu, start_time=%u, end_time=%u, '' @
                      ''backup_value=%q, status=%u where auto_id=%u'')
              [QS (gc_strOpr c), QU (gc_eTargetType c), QU (gc_dwTargetId c), QU (gc_dwStartTime c),
               QU (gc_dwEndTime c), QS (gc_strBackup c), QU (gc_eStatus c), QU (gc_dwAutoId c)],
            sql_text ''update gm_cmd set error_msg=%q where auto_id=%u''
              [QS (if gc_strErrorMsg c = [] then [] else c_str (my_escape api (gc_strErrorMsg c))), QU (gc_dwAutoId c)]]
      else [])"

lemma cd_PExecute_sent:
  assumes "gm_records view api" "gm_online s" "cd_PExecute api f as s = Some (r, s')"
  shows "gm_sent view s' = gm_sent view s @ [sql_text f as] \<and> gm_online s'"
proof -
  obtain d c where d: "cd_db s = Some d" "dm_mysql d = Some c"
    using assms(2) by (auto simp: gm_online_def split: option.splits)
  have "view (snd (my_query api (sql_text f as) c)) = view c @ [sql_text f as]" using assms(1) by (simp add: gm_records_def)
  with assms(3) d show ?thesis
    by (auto simp: cd_PExecute_def dm_PExecute_def dm_DirectExecute_def gm_sent_def gm_online_def case_prod_unfold Let_def)
qed

lemma store_one_sent:
  assumes "gm_records view api" "gm_online s" "gm_store_one api k s = Some s'" "gm_get k s = Some c"
  shows "gm_sent view s' = gm_sent view s @ gm_writes api c \<and> gm_online s'"
proof (cases "gc_bDirty c")
  case False
  with assms(2-4) show ?thesis by (auto simp: gm_store_one_def gm_writes_def gm_sent_def)
next
  case True
  with assms(3,4) obtain r1 s1 m r2 s2 where
      1: "cd_PExecute api (''update gm_cmd set opr=%q, target_type=%u, target_id=%llu, start_time=%u, end_time=%u, '' @
                      ''backup_value=%q, status=%u where auto_id=%u'')
              [QS (gc_strOpr c), QU (gc_eTargetType c), QU (gc_dwTargetId c), QU (gc_dwStartTime c),
               QU (gc_dwEndTime c), QS (gc_strBackup c), QU (gc_eStatus c), QU (gc_dwAutoId c)] s = Some (r1, s1)"
    and m: "cd_escape api (gc_strErrorMsg c) s1 = Some m"
    and 2: "cd_PExecute api ''update gm_cmd set error_msg=%q where auto_id=%u'' [QS m, QU (gc_dwAutoId c)] s1 = Some (r2, s2)"
    and s': "s' = gm_upd k gc_Reset s2"
    by (auto simp only: gm_store_one_def bind_eq_Some_conv if_True split_paired_all prod.case option.inject)
  note p1 = cd_PExecute_sent [OF assms(1,2) 1]
  from cd_PExecute_sent [OF assms(1) conjunct2 [OF p1] 2] p1 m s' True show ?thesis
    by (auto simp: gm_writes_def gm_sent_def cd_escape_def dm_escape_string_def bind_eq_Some_conv split: if_splits)
qed

lemma store_one:
  assumes "gm_store_one api k s = Some s'"
  shows "gm_mapGmCommandAll s' = map (\<lambda>(k', c). (k', if k' = k then gc_Reset c else c)) (gm_mapGmCommandAll s) \<and>
    gm_dwMaxRunningGmCommandTime s' = gm_dwMaxRunningGmCommandTime s"
  using assms
  by (auto simp: gm_store_one_def bind_eq_Some_conv gm_upd_def split: if_splits dest!: cd_PExecute_gm)

lemma gc_Reset_status [simp]: "gc_eStatus (gc_Reset c) = gc_eStatus c" "gc_dwAutoId (gc_Reset c) = gc_dwAutoId c"
  "gc_dwStartTime (gc_Reset c) = gc_dwStartTime c" "gc_dwEndTime (gc_Reset c) = gc_dwEndTime c" "\<not> gc_bDirty (gc_Reset c)"
  by (simp_all add: gc_Reset_def)

lemma store_all:
  assumes "gm_store_all api ks vRemove s = Some (vr, s')"
  shows "gm_mapGmCommandAll s' = map (\<lambda>(k', c). (k', if k' \<in> set ks then gc_Reset c else c)) (gm_mapGmCommandAll s) \<and>
    gm_dwMaxRunningGmCommandTime s' = gm_dwMaxRunningGmCommandTime s \<and>
    vr = vRemove @ filter (\<lambda>k. \<exists>c. gm_get k s = Some c \<and> gm_finished (gc_eStatus c)) ks"
  using assms
proof (induction ks arbitrary: vRemove s)
  case Nil
  then show ?case by simp
next
  case (Cons k ks)
  then obtain s1 c where one: "gm_store_one api k s = Some s1" and c: "gm_get k s1 = Some c"
    and rest: "gm_store_all api ks (if gm_finished (gc_eStatus c) then vRemove @ [k] else vRemove) s1 = Some (vr, s')"
    by (auto simp: bind_eq_Some_conv)
  note s1 = store_one [OF one]
  then have get: "gm_get j s1 = map_option (if j = k then gc_Reset else id) (gm_get j s)" for j
    by (simp add: gm_get_def map_of_upd)
  have fin: "(\<exists>c. gm_get j s1 = Some c \<and> gm_finished (gc_eStatus c)) \<longleftrightarrow> (\<exists>c. gm_get j s = Some c \<and> gm_finished (gc_eStatus c))" for j
    by (auto simp: get)
  from c have "gm_finished (gc_eStatus c) \<longleftrightarrow> (\<exists>c. gm_get k s = Some c \<and> gm_finished (gc_eStatus c))" by (auto simp: get)
  with Cons.IH [OF rest] s1 show ?case by (auto simp: fin comp_def case_prod_unfold gc_Reset_def)
qed

lemma store_all_sent:
  assumes "gm_records view api" "gm_online s" "gm_store_all api ks vRemove s = Some (vr, s')" "distinct ks"
  shows "gm_sent view s' = gm_sent view s @ concat (map (\<lambda>k. case gm_get k s of None \<Rightarrow> [] | Some c \<Rightarrow> gm_writes api c) ks)"
  using assms
proof (induction ks arbitrary: vRemove s)
  case Nil
  then show ?case by simp
next
  case (Cons k ks)
  then obtain s1 c where one: "gm_store_one api k s = Some s1" and c: "gm_get k s1 = Some c"
    and rest: "gm_store_all api ks (if gm_finished (gc_eStatus c) then vRemove @ [k] else vRemove) s1 = Some (vr, s')"
    by (auto simp: bind_eq_Some_conv)
  have get: "gm_get j s1 = map_option (if j = k then gc_Reset else id) (gm_get j s)" for j
    using store_one [OF one] by (simp add: gm_get_def map_of_upd)
  with c obtain c0 where c0: "gm_get k s = Some c0" by auto
  have "map (\<lambda>k. case gm_get k s1 of None \<Rightarrow> [] | Some c \<Rightarrow> gm_writes api c) ks =
      map (\<lambda>k. case gm_get k s of None \<Rightarrow> [] | Some c \<Rightarrow> gm_writes api c) ks"
    using Cons.prems(4) by (auto simp: get split: option.splits)
  with Cons.IH [OF Cons.prems(1) _ rest] store_one_sent [OF Cons.prems(1,2) one c0] Cons.prems(4) c0 show ?case by simp
qed

lemma remove_all:
  assumes "gm_remove_all ks s = Some s'"
  shows "gm_mapGmCommandAll s' = filter (\<lambda>(k, c). k \<notin> set ks) (gm_mapGmCommandAll s) \<and> cd_db s' = cd_db s"
  using assms
proof (induction ks arbitrary: s)
  case Nil
  then show ?case by simp
next
  case (Cons k ks)
  then show ?case
    by (auto simp: bind_eq_Some_conv RemoveGmCommand_def omap_erase_def split: if_splits intro!: filter_cong)
qed

section \<open>A pass\<close>

lemma GetDBTime_online: "GetDBTime api s = Some (now, s') \<Longrightarrow> now \<noteq> 0 \<Longrightarrow> gm_online s'"
  for s :: "('c, 'x) gm_db"
proof -
  assume t: "GetDBTime api s = Some (now, s')" "now \<noteq> 0"
  then obtain d where d: "cd_db s = Some d" by (auto simp: GetDBTime_def cd_lookup_def cd_PQuery_def bind_eq_Some_conv)
  have "gm_online s"
  proof (rule ccontr)
    assume "\<not> gm_online s"
    with d have "dm_mysql d = None" by (simp add: gm_online_def)
    with t d show False by (simp add: GetDBTime_def cd_lookup_def cd_PQuery_def dm_PQuery_def dm_Query_def)
  qed
  with cd_lookup_online [OF t(1) [unfolded GetDBTime_def]] show "gm_online s'" by blast
qed

text \<open>
  A running command has started before the time given. The invariant has the time of the last pass
  there, which is 0 when the server has just started and running commands have been read.
\<close>

definition gm_ready :: "uint32 \<Rightarrow> ('c, 'x) gm_db \<Rightarrow> bool" where
  "gm_ready now s \<longleftrightarrow> omap_ok (gm_mapGmCommandAll s) \<and>
     (\<forall>k c. gm_get k s = Some c \<longrightarrow> gc_dwAutoId c = k \<and>
       (gc_eStatus c = E_GM_COMMAND_STATUS_RUNNING \<longrightarrow> gc_dwStartTime c \<le> now))"

definition gm_inv :: "('c, 'x) gm_db \<Rightarrow> bool" where
  "gm_inv s \<longleftrightarrow> omap_ok (gm_mapGmCommandAll s) \<and>
     (\<forall>k c. gm_get k s = Some c \<longrightarrow> gc_dwAutoId c = k \<and>
       (gc_eStatus c = E_GM_COMMAND_STATUS_RUNNING \<longrightarrow> 0 < gc_dwStartTime c \<and> gc_dwStartTime c \<le> gm_dwMaxRunningGmCommandTime s))"

text \<open>
  What is left of a command in the map, and when it may be left there: it waits for its start, or it
  runs and its end is not over.
\<close>

definition gm_waits :: "uint32 \<Rightarrow> 'x gm_command \<Rightarrow> 'x gm_command \<Rightarrow> bool" where
  "gm_waits now c c' \<longleftrightarrow> gm_result now c c' \<and> \<not> gm_finished (gc_eStatus c') \<and> \<not> gc_bDirty c'"

lemma filter_get: "distinct (map fst m) \<Longrightarrow> map_of (filter (\<lambda>(k, c). P k) m) k = (if P k then map_of m k else None)"
  by (induction m) auto

lemma omap_ok_filter: "omap_ok m \<Longrightarrow> omap_ok (filter P m)"
  by (auto simp: omap_ok_def sorted_wrt_map sorted_wrt_filter)

lemma map_of_map_snd: "map_of (map (\<lambda>(k, c). (k, f c)) m) k = map_option f (map_of m k)"
  by (induction m) auto

text \<open>The map after the first loop is \<open>cs\<close>: the second loop writes it, the third takes the finished ones out.\<close>

definition gm_ran :: "uint32 \<Rightarrow> ('c, 'x) gm_db \<Rightarrow> (uint32 \<times> 'x gm_command) list \<Rightarrow> bool" where
  "gm_ran now s cs \<longleftrightarrow> map fst cs = map fst (gm_mapGmCommandAll s) \<and>
     list_all (\<lambda>(k, c'). case gm_get k s of None \<Rightarrow> False | Some c \<Rightarrow> gm_pass now c c') cs"

context gm_hooks
begin

lemma update_run:
  assumes "UpdateGmCommand api cls s = Some (True, s')" "omap_ok (gm_mapGmCommandAll s)"
  shows "gm_dwMaxRunningGmCommandTime s < gm_dwMaxRunningGmCommandTime s' \<and>
    (\<exists>cs before. gm_ran (gm_dwMaxRunningGmCommandTime s') s cs \<and>
       gm_mapGmCommandAll s' = map (\<lambda>(k, c). (k, gc_Reset c)) (filter (\<lambda>(k, c). \<not> gm_finished (gc_eStatus c)) cs) \<and>
       (gm_records view api \<longrightarrow> gm_sent view s' = before @ concat (map (\<lambda>(k, c). gm_writes api c) cs)))"
proof -
  from assms(1) obtain now s0 s1 vr s2 s3 where t: "GetDBTime api s = Some (now, s0)"
    and lt: "gm_dwMaxRunningGmCommandTime s0 < now"
    and run: "gm_run_all cls now (map fst (gm_mapGmCommandAll s0)) s0 = Some s1"
    and store: "gm_store_all api (map fst (gm_mapGmCommandAll s1)) [] s1 = Some (vr, s2)"
    and rm: "gm_remove_all vr s2 = Some s3" and s': "s' = s3\<lparr>gm_dwMaxRunningGmCommandTime := now\<rparr>"
    by (auto simp: UpdateGmCommand_def bind_eq_Some_conv not_le split: if_splits)
  from t have s0: "gm_mapGmCommandAll s0 = gm_mapGmCommandAll s"
    "gm_dwMaxRunningGmCommandTime s0 = gm_dwMaxRunningGmCommandTime s"
    by (auto simp: GetDBTime_def dest: cd_lookup_gm)
  let ?ks = "map fst (gm_mapGmCommandAll s)" and ?cs = "gm_mapGmCommandAll s1"
  have d: "distinct ?ks" using assms(2) by (rule omap_ok_distinct)
  have r: "gm_frame (set ?ks) s0 s1 \<and> (\<forall>k \<in> set ?ks. rel_option (gm_pass now) (gm_get k s0) (gm_get k s1))"
    by (rule run_all [OF run [unfolded s0]]) (use d s0 in simp_all)
  then have keys: "map fst ?cs = ?ks" by (simp add: gm_frame_def s0)
  have get1: "gm_get k s1 = Some c" if "(k, c) \<in> set ?cs" for k c
    using that d keys by (simp add: gm_get_def)
  have cs: "gm_ran now s ?cs"
    unfolding gm_ran_def list_all_iff
  proof (intro conjI ballI, rule keys, clarify)
    fix k c assume kc: "(k, c) \<in> set ?cs"
    then have "k \<in> set ?ks" unfolding keys [symmetric] by force
    with r have "rel_option (gm_pass now) (gm_get k s0) (gm_get k s1)" by blast
    moreover have "gm_get k s0 = gm_get k s" by (simp add: gm_get_def s0)
    ultimately show "case gm_get k s of None \<Rightarrow> False | Some c' \<Rightarrow> gm_pass now c' c"
      using get1 [OF kc] by (cases "gm_get k s") auto
  qed
  note st = store_all [OF store [unfolded keys]]
  have s2: "gm_mapGmCommandAll s2 = map (\<lambda>(k, c). (k, gc_Reset c)) ?cs"
    using st keys by (auto intro!: map_cong, metis (no_types, lifting) image_eqI list.set_map fst_conv)
  have vr: "set vr = {k \<in> set ?ks. \<exists>c. gm_get k s1 = Some c \<and> gm_finished (gc_eStatus c)}" using st by auto
  have "gm_mapGmCommandAll s' = filter (\<lambda>(k, c). k \<notin> set vr) (map (\<lambda>(k, c). (k, gc_Reset c)) ?cs)"
    using remove_all [OF rm] s' s2 by simp
  also have "\<dots> = map (\<lambda>(k, c). (k, gc_Reset c)) (filter (\<lambda>(k, c). k \<notin> set vr) ?cs)"
    by (simp add: filter_map comp_def case_prod_unfold)
  also have "filter (\<lambda>(k, c). k \<notin> set vr) ?cs = filter (\<lambda>(k, c). \<not> gm_finished (gc_eStatus c)) ?cs"
  proof (rule filter_cong [OF refl], clarify)
    fix k c assume kc: "(k, c) \<in> set ?cs"
    then have "k \<in> set ?ks" unfolding keys [symmetric] by force
    then show "(k \<notin> set vr) = (\<not> gm_finished (gc_eStatus c))" by (simp add: vr get1 [OF kc])
  qed
  finally have kept: "gm_mapGmCommandAll s' = map (\<lambda>(k, c). (k, gc_Reset c)) (filter (\<lambda>(k, c). \<not> gm_finished (gc_eStatus c)) ?cs)" .
  have "gm_sent view s' = gm_sent view s1 @ concat (map (\<lambda>(k, c). gm_writes api c) ?cs)" if rec: "gm_records view api"
  proof -
    have "now \<noteq> 0" using lt by auto
    with r GetDBTime_online [OF t] have "gm_online s1" by (simp add: gm_frame_def)
    from store_all_sent [OF rec this store] d have "gm_sent view s2 =
        gm_sent view s1 @ concat (map (\<lambda>k. case gm_get k s1 of None \<Rightarrow> [] | Some c \<Rightarrow> gm_writes api c) (map fst ?cs))"
      by (simp add: keys)
    also have "map (\<lambda>k. case gm_get k s1 of None \<Rightarrow> [] | Some c \<Rightarrow> gm_writes api c) (map fst ?cs) = map (\<lambda>(k, c). gm_writes api c) ?cs"
      using get1 by auto
    finally show ?thesis using remove_all [OF rm] s' by (simp add: gm_sent_def)
  qed
  with cs kept lt s' s0 show ?thesis by auto
qed

lemma update:
  assumes "UpdateGmCommand api cls s = Some (True, s')" "omap_ok (gm_mapGmCommandAll s)"
  shows "omap_ok (gm_mapGmCommandAll s') \<and> gm_dwMaxRunningGmCommandTime s < gm_dwMaxRunningGmCommandTime s' \<and>
    (\<forall>k c'. gm_get k s' = Some c' \<longrightarrow> (\<exists>c. gm_get k s = Some c \<and> gm_waits (gm_dwMaxRunningGmCommandTime s') c c'))"
proof -
  let ?now = "gm_dwMaxRunningGmCommandTime s'" and ?keep = "filter (\<lambda>(k, c). \<not> gm_finished (gc_eStatus c))"
  from update_run [OF assms, of "\<lambda>_. []"] obtain cs where lt: "gm_dwMaxRunningGmCommandTime s < ?now"
    and cs: "gm_ran ?now s cs" and s': "gm_mapGmCommandAll s' = map (\<lambda>(k, c). (k, gc_Reset c)) (?keep cs)" by blast
  have "omap_ok cs" using cs assms(2) by (simp add: gm_ran_def omap_ok_def)
  then have "omap_ok (?keep cs)" by (rule omap_ok_filter)
  then have ok: "omap_ok (gm_mapGmCommandAll s')" by (simp add: s' omap_ok_def comp_def case_prod_unfold)
  have "\<exists>c. gm_get k s = Some c \<and> gm_waits ?now c c'" if "gm_get k s' = Some c'" for k c'
  proof -
    from that obtain c1 where c1: "(k, c1) \<in> set cs" "\<not> gm_finished (gc_eStatus c1)" "c' = gc_Reset c1"
      by (auto simp: gm_get_def s' dest!: map_of_SomeD)
    with cs show ?thesis
      by (fastforce simp: gm_ran_def list_all_iff gm_pass_def gm_waits_def gm_result_def split: option.splits)
  qed
  with ok lt show ?thesis by blast
qed

lemma update_ready:
  assumes "UpdateGmCommand api cls s = Some (True, s')" "gm_ready (gm_dwMaxRunningGmCommandTime s') s"
  shows "gm_inv s'"
proof -
  note u = update [OF assms(1)]
  have ok: "omap_ok (gm_mapGmCommandAll s)" using assms(2) by (simp add: gm_ready_def)
  have "gc_dwAutoId c' = k \<and> (gc_eStatus c' = E_GM_COMMAND_STATUS_RUNNING \<longrightarrow>
      0 < gc_dwStartTime c' \<and> gc_dwStartTime c' \<le> gm_dwMaxRunningGmCommandTime s')" if g: "gm_get k s' = Some c'" for k c'
  proof -
    from u [OF ok] g obtain c where c: "gm_get k s = Some c" "gm_waits (gm_dwMaxRunningGmCommandTime s') c c'"
      and lt: "gm_dwMaxRunningGmCommandTime s < gm_dwMaxRunningGmCommandTime s'" by blast
    from assms(2) c(1) have i: "gc_dwAutoId c = k" "gc_eStatus c = E_GM_COMMAND_STATUS_RUNNING \<longrightarrow>
        gc_dwStartTime c \<le> gm_dwMaxRunningGmCommandTime s'" by (auto simp: gm_ready_def)
    have pos: "0 < gm_dwMaxRunningGmCommandTime s'" using lt by (metis word_gt_0 word_not_simps(1))
    have t: "gc_dwStartTime (gm_times now c) = (if gc_dwStartTime c = 0 then now else gc_dwStartTime c)" for now
      by (auto simp: gm_times_def Let_def gc_SetEndTime_def gc_SetStartTime_def)
    from c(2) i t pos show ?thesis by (auto simp: gm_waits_def gm_result_def gm_status_simps word_gt_0 split: if_splits)
  qed
  with u [OF ok] show ?thesis by (auto simp: gm_inv_def)
qed

end

section \<open>The login server\<close>

lemma gm_kept_member: "gm_kept c (c\<lparr>gc_member := m\<rparr>)" "gm_kept c (gc_SetErrorMsg msg c)"
  by (simp_all add: gm_kept_def gc_SetErrorMsg_def gm_marked_def gc_stored_def)

lemma lg_fail_frame: "lg_fail msg k s = Some (r, s') \<Longrightarrow> gm_frame {} s s'"
  by (auto simp: lg_fail_def gm_kept_member intro: gm_frame_upd_kept)

lemma ExistsPassport_frame: "ExistsPassport_id api p s = Some (r, s') \<Longrightarrow> gm_frame K s s'"
  for s :: "('c, 'x) gm_db"
  by (auto simp: ExistsPassport_id_def cd_exists_def bind_eq_Some_conv dest!: cd_PQuery_gm intro: gm_frame_same)

lemma UpdatePassportGmAuth_frame: "UpdatePassportGmAuth api p a s = Some (r, s') \<Longrightarrow> gm_frame K s s'"
  for s :: "('c, 'x) gm_db"
  by (auto simp: UpdatePassportGmAuth_def dest!: cd_PExecute_gm intro: gm_frame_same)

lemma get_of_bind: "Option.bind (gm_get k s) f = Some r \<Longrightarrow> \<exists>c. gm_get k s = Some c \<and> f c = Some r"
  by (simp add: bind_eq_Some_conv)

lemma gm_frame_set_member [simp]: "gm_frame {} s (gm_upd k (\<lambda>c. c\<lparr>gc_member := m\<rparr>) s)"
  by (rule gm_frame_upd_kept) (simp add: gm_kept_member)

lemma gm_frame_member:
  "gm_frame {} (gm_upd k (\<lambda>c. c\<lparr>gc_member := m\<rparr>) s) s' \<Longrightarrow> gm_frame {} s s'"
  by (rule gm_frame_trans [OF gm_frame_upd_kept]) (simp_all add: gm_kept_member)

lemma SetGmAuth_Validate_frame:
  assumes "SetGmAuthCommand_Validate api k s = Some (r, s')"
  shows "gm_frame {} s s'"
proof -
  obtain c where c: "gm_get k s = Some c"
    using get_of_bind [OF assms [unfolded SetGmAuthCommand_Validate_def]] by blast
  show ?thesis
  proof (cases "gc_one_param c")
    case (Inl msg)
    with c assms show ?thesis by (auto simp: SetGmAuthCommand_Validate_def dest: lg_fail_frame)
  next
    case (Inr p)
    with c assms show ?thesis
      by (auto simp: SetGmAuthCommand_Validate_def bind_eq_Some_conv simp del: sql_fmt.simps split: if_splits
          dest!: lg_fail_frame ExistsPassport_frame [where K = "{}"] intro!: gm_frame_member [where s = s] intro: gm_frame_trans)
  qed
qed

lemma SetGmAuth_Trigger_frame:
  assumes "SetGmAuthCommand_Trigger api k s = Some (r, s')"
  shows "gm_frame {} s s'"
proof -
  obtain c where c: "gm_get k s = Some c"
    using get_of_bind [OF assms [unfolded SetGmAuthCommand_Trigger_def]] by blast
  with assms show ?thesis
    by (cases "gc_member c") (auto simp: SetGmAuthCommand_Trigger_def bind_eq_Some_conv simp del: sql_fmt.simps split: if_splits
        dest!: lg_fail_frame UpdatePassportGmAuth_frame [where K = "{}"] intro: gm_frame_trans)
qed

lemma Cancel_Validate_frame:
  assumes "CancelCommand_Validate k s = Some (r, s')"
  shows "gm_frame {} s s'"
proof -
  obtain c where c: "gm_get k s = Some c"
    using get_of_bind [OF assms [unfolded CancelCommand_Validate_def]] by blast
  show ?thesis
  proof (cases "gc_one_param c")
    case (Inl msg)
    with c assms show ?thesis by (auto simp: CancelCommand_Validate_def split: if_splits dest: lg_fail_frame)
  next
    case (Inr p)
    with c assms show ?thesis
      by (auto simp: CancelCommand_Validate_def Let_def split: if_splits dest!: lg_fail_frame intro: gm_frame_member)
  qed
qed

lemma gc_Cancel_frame: "gc_Cancel lg_Complete k s = Some (r, s') \<Longrightarrow> gm_frame {} s s'"
  by (auto simp: gc_Cancel_def lg_Complete_def bind_eq_Some_conv gm_kept_def gc_SetStatus_def gm_active_def gm_marked_dirty
      split: if_splits intro!: gm_frame_upd_kept)

lemma Cancel_Trigger_frame:
  assumes "CancelCommand_Trigger k s = Some (r, s')"
  shows "gm_frame {} s s'"
proof -
  obtain c where c: "gm_get k s = Some c"
    using get_of_bind [OF assms [unfolded CancelCommand_Trigger_def]] by blast
  with assms show ?thesis
    by (cases "gc_member c") (auto simp: CancelCommand_Trigger_def CancelGmCommand_def bind_eq_Some_conv
        split: if_splits dest: gc_Cancel_frame)
qed

lemma lg_frames:
  "lg_Validate api k s = Some (r, s') \<Longrightarrow> gm_frame {} s s'" "lg_Trigger api k s = Some (r, s') \<Longrightarrow> gm_frame {} s s'"
proof -
  show "gm_frame {} s s'" if v: "lg_Validate api k s = Some (r, s')"
  proof -
    obtain c where "gm_get k s = Some c" using get_of_bind [OF v [unfolded lg_Validate_def]] by blast
    with v show ?thesis
      by (cases "gc_member c") (auto simp: lg_Validate_def dest: SetGmAuth_Validate_frame Cancel_Validate_frame)
  qed
  show "gm_frame {} s s'" if v: "lg_Trigger api k s = Some (r, s')"
  proof -
    obtain c where "gm_get k s = Some c" using get_of_bind [OF v [unfolded lg_Trigger_def]] by blast
    with v show ?thesis
      by (cases "gc_member c") (auto simp: lg_Trigger_def dest: SetGmAuth_Trigger_frame Cancel_Trigger_frame)
  qed
qed

interpretation login: gm_hooks "login_class api" for api :: "'c mysql_api"
  by unfold_locales (auto simp: login_class_def lg_Complete_def intro: lg_frames)

text \<open>
  The login server takes commands for passports only, and \<open>CancelCommand\<close> refuses those: no command
  can be cancelled there.
\<close>

lemma cancel_always_refused:
  assumes "gm_get k s = Some c" "lg_CheckTargetType (gc_eTargetType c) (gc_dwTargetId c)"
  shows "\<exists>s'. CancelCommand_Validate k s = Some (False, s')"
  using assms by (auto simp: CancelCommand_Validate_def lg_CheckTargetType_def lg_fail_def)

text \<open>
  C36: a pass of \<open>UpdateGmCommand\<close> on the login server that returns true settles every command. The
  commands are in order of their ids, and the running ones have started at or before the time of the
  pass (so too right after a restart, when \<^verbatim>\<open>m_dwMaxRunningGmCommandTime\<close> is 0). The time of the pass is
  later than that of the last one; no command appears. After the first loop each command is what the
  pass makes of it: finished; or waiting with a start that is not over; or running with an end that is
  not over, and with the time of the pass as its start if it was triggered; or, with a status the code
  does not know, as it was. A command whose stored fields differ is marked dirty. The statements sent
  end with the two updates of each dirty command, finished or not, with its new values, in the order of
  ids (whatever they return); then the finished commands are taken out of the map and the others are
  clean. So a command whose start and end are over is gone, whether it was new, waiting or running.
  After the pass a running command has started at or before it.
\<close>

theorem gm_pass_settles:
  fixes s :: "('c, login_command) gm_db"
  assumes "UpdateGmCommand api (login_class api) s = Some (True, s')"
    and "gm_ready (gm_dwMaxRunningGmCommandTime s') s" "gm_records view api"
  shows "gm_inv s' \<and> gm_dwMaxRunningGmCommandTime s < gm_dwMaxRunningGmCommandTime s' \<and>
    (\<exists>cs before. gm_ran (gm_dwMaxRunningGmCommandTime s') s cs \<and>
       gm_sent view s' = before @ concat (map (\<lambda>(k, c). gm_writes api c) cs) \<and>
       gm_mapGmCommandAll s' = map (\<lambda>(k, c). (k, gc_Reset c)) (filter (\<lambda>(k, c). \<not> gm_finished (gc_eStatus c)) cs)) \<and>
    (\<forall>k c. gm_get k s = Some c \<and> gm_active (gc_eStatus c) \<and> 0 < gc_dwStartTime c \<and>
       gc_dwStartTime c < gm_dwMaxRunningGmCommandTime s' \<and> gc_dwEndTime c < gm_dwMaxRunningGmCommandTime s' \<longrightarrow> gm_get k s' = None)"
proof -
  have ok: "omap_ok (gm_mapGmCommandAll s)" using assms(2) by (simp add: gm_ready_def)
  note u = login.update [OF assms(1) ok]
  have gone: "gm_get k s' = None" if c: "gm_get k s = Some c" "gm_active (gc_eStatus c)" "0 < gc_dwStartTime c"
    "gc_dwStartTime c < gm_dwMaxRunningGmCommandTime s'" "gc_dwEndTime c < gm_dwMaxRunningGmCommandTime s'" for k c
  proof (rule ccontr)
    assume "gm_get k s' \<noteq> None"
    with u c(1) obtain c' where w: "gm_waits (gm_dwMaxRunningGmCommandTime s') c c'" by fastforce
    have t: "gc_dwStartTime (gm_times n c) = gc_dwStartTime c" "gc_dwEndTime (gm_times n c) = max (gc_dwEndTime c) (gc_dwStartTime c)" for n
      using c(3) by (auto simp: gm_times_def Let_def gc_SetEndTime_def max_def)
    from w c t show False by (auto simp: gm_waits_def gm_result_def max_def split: if_splits)
  qed
  from login.update_run [OF assms(1) ok, of view] assms(3) have "\<exists>cs before. gm_ran (gm_dwMaxRunningGmCommandTime s') s cs \<and>
       gm_sent view s' = before @ concat (map (\<lambda>(k, c). gm_writes api c) cs) \<and>
       gm_mapGmCommandAll s' = map (\<lambda>(k, c). (k, gc_Reset c)) (filter (\<lambda>(k, c). \<not> gm_finished (gc_eStatus c)) cs)" by blast
  with u gone login.update_ready [OF assms(1,2)] show ?thesis by blast
qed

text \<open>A role is given to each command once.\<close>

lemma fold_filtered: "fold (\<lambda>(k, c) r. if P c then h c r else r) m r = fold (\<lambda>(k, c). h c) (filter (\<lambda>(k, c). P c) m) r"
  by (induction m arbitrary: r) auto

text \<open>
  C37: a role that has been seen by the commands after one pass is, after the next, handed to exactly
  those commands that the pass has started and that still run, each once; asking again before another
  pass hands it to none.
\<close>

theorem gm_role_handled_once:
  fixes s :: "('c, login_command) gm_db"
  assumes "UpdateGmCommand api (login_class api) s = Some (True, s')" "gm_inv s"
  shows "HandlerGmCommandRole handle role (gm_dwMaxRunningGmCommandTime s) s' =
      (gm_dwMaxRunningGmCommandTime s',
       fold (\<lambda>(k, c). handle c) (filter (\<lambda>(k, c). gc_eStatus c = E_GM_COMMAND_STATUS_RUNNING \<and>
         map_option gc_eStatus (gm_get k s) \<noteq> Some E_GM_COMMAND_STATUS_RUNNING) (gm_mapGmCommandAll s')) role) \<and>
    HandlerGmCommandRole handle role (gm_dwMaxRunningGmCommandTime s') s' = (gm_dwMaxRunningGmCommandTime s', role)"
proof -
  have ok: "omap_ok (gm_mapGmCommandAll s)" using assms(2) by (simp add: gm_inv_def)
  note u = login.update [OF assms(1) ok]
  have due: "gm_due (gm_dwMaxRunningGmCommandTime s) c' \<longleftrightarrow> gc_eStatus c' = E_GM_COMMAND_STATUS_RUNNING \<and>
      map_option gc_eStatus (gm_get k s) \<noteq> Some E_GM_COMMAND_STATUS_RUNNING" if "(k, c') \<in> set (gm_mapGmCommandAll s')" for k c'
  proof -
    from that u have "gm_get k s' = Some c'" by (auto simp: gm_get_def omap_ok_distinct)
    with u obtain c where c: "gm_get k s = Some c" "gm_waits (gm_dwMaxRunningGmCommandTime s') c c'" by blast
    from assms(2) c(1) have r: "gc_eStatus c = E_GM_COMMAND_STATUS_RUNNING \<longrightarrow>
        0 < gc_dwStartTime c \<and> gc_dwStartTime c \<le> gm_dwMaxRunningGmCommandTime s" by (auto simp: gm_inv_def)
    then have t: "gc_eStatus c = E_GM_COMMAND_STATUS_RUNNING \<longrightarrow> gc_dwStartTime (gm_times n c) = gc_dwStartTime c" for n
      by (auto simp: gm_times_def Let_def gc_SetEndTime_def)
    from c r t u show ?thesis by (auto simp: gm_due_def gm_waits_def gm_result_def gm_status_simps split: if_splits)
  qed
  have "filter (\<lambda>(k, c). gm_due (gm_dwMaxRunningGmCommandTime s) c) (gm_mapGmCommandAll s') =
      filter (\<lambda>(k, c). gc_eStatus c = E_GM_COMMAND_STATUS_RUNNING \<and>
        map_option gc_eStatus (gm_get k s) \<noteq> Some E_GM_COMMAND_STATUS_RUNNING) (gm_mapGmCommandAll s')"
    by (rule filter_cong) (use due in auto)
  moreover have "\<not> gm_dwMaxRunningGmCommandTime s' \<le> gm_dwMaxRunningGmCommandTime s" using u by (simp only: not_le)
  ultimately show ?thesis by (simp add: HandlerGmCommandRole_def fold_filtered)
qed

text \<open>
  Three commands at time 500: one to start and run on, one whose time is over, one that is to wait.
\<close>

definition gm_demo_api :: "string list mysql_api" where
  "gm_demo_api =
     \<lparr>my_query = (\<lambda>sql c. (if take 6 sql = ''select'' then My_Rows [254] [[Some ''500'']] else My_Done 1, c @ [sql])),
      my_connect = (\<lambda>_ _ _ _ _ _. None), my_escape = (\<lambda>s. s)\<rparr>"

definition gm_demo_command :: "uint32 \<Rightarrow> uint32 \<Rightarrow> uint32 \<Rightarrow> uint8 \<Rightarrow> uint32 \<times> login_command gm_command" where
  "gm_demo_command k t0 t1 st =
     (k, (gc_new (SetGmAuthCommand (Some 3)))\<lparr>gc_dwAutoId := k, gc_strParams := ''3'', gc_dwStartTime := t0, gc_dwEndTime := t1,
           gc_eStatus := st\<rparr>)"

definition gm_demo :: "(string list, login_command) gm_db" where
  "gm_demo =
     \<lparr>cd_db = Some (dm_new\<lparr>dm_mysql := Some []\<rparr>), cd_byLoginServerId = 1, cd_maxPassportAutoInc = 0, cd_maxRoleAutoInc = 0,
      cd_bReadOnly = False, gm_dwMaxHandledGmCommandId = 9, gm_dwMaxRunningGmCommandTime = 490,
      gm_mapGmCommandAll = [gm_demo_command 3 100 900 0, gm_demo_command 5 200 300 2, gm_demo_command 9 600 900 0]\<rparr>"

text \<open>The statements of the pass.\<close>

definition gm_demo_stored :: "string \<Rightarrow> string \<Rightarrow> string \<Rightarrow> string \<Rightarrow> string list" where
  "gm_demo_stored k t0 t1 st =
     [''update gm_cmd set opr='' @ [CHR 0x27, CHR 0x27] @ '', target_type=1, target_id=0, start_time='' @ t0 @ '', end_time='' @ t1 @
        '', backup_value='' @ [CHR 0x27, CHR 0x27] @ '', status='' @ st @ '' where auto_id='' @ k,
      ''update gm_cmd set error_msg='' @ [CHR 0x27, CHR 0x27] @ '' where auto_id='' @ k]"

definition gm_demo_log :: "string list" where
  "gm_demo_log =
     [''select unix_timestamp()'', ''select passport_id from passport_info where passport_id=0'',
      ''update passport_info set gm_auth=3 where passport_id=0'', ''select passport_id from passport_info where passport_id=0''] @
     gm_demo_stored ''3'' ''500'' ''900'' ''2'' @ gm_demo_stored ''5'' ''200'' ''300'' ''3'' @ gm_demo_stored ''9'' ''600'' ''900'' ''1''"

definition gm_demo_after :: "(string list, login_command) gm_db" where
  "gm_demo_after = gm_demo\<lparr>cd_db := Some (dm_new\<lparr>dm_mysql := Some gm_demo_log\<rparr>), gm_dwMaxRunningGmCommandTime := 500,
     gm_mapGmCommandAll := [gm_demo_command 3 500 900 2, gm_demo_command 9 600 900 1]\<rparr>"

lemma gm_demo_run: "UpdateGmCommand gm_demo_api (login_class gm_demo_api) gm_demo = Some (True, gm_demo_after)"
  by code_simp

lemma gm_demo_inv: "gm_inv gm_demo"
  by (simp add: gm_inv_def gm_get_def gm_demo_def gm_demo_command_def gm_status_defs gc_new_def)

lemma gm_demo_ready: "gm_ready (gm_dwMaxRunningGmCommandTime gm_demo_after) gm_demo" "gm_records (\<lambda>log. log) gm_demo_api"
  by (simp_all add: gm_ready_def omap_ok_def gm_get_def gm_demo_after_def gm_demo_def gm_demo_command_def gm_status_defs
      gc_new_def gm_records_def gm_demo_api_def)

theorem gm_pass_settles_witness:
  "gm_inv gm_demo_after \<and> gm_get 5 gm_demo_after = None \<and>
   (\<exists>(cs :: (uint32 \<times> login_command gm_command) list) before. map fst cs = [3, 5, 9] \<and> gm_demo_log = before @ concat (map (\<lambda>(k, c). gm_writes gm_demo_api c) cs))"
proof -
  note t = gm_pass_settles [OF gm_demo_run gm_demo_ready]
  obtain cs before where cs: "gm_ran (gm_dwMaxRunningGmCommandTime gm_demo_after) gm_demo cs"
    and log: "gm_sent (\<lambda>log. log) gm_demo_after = before @ concat (map (\<lambda>(k, c). gm_writes gm_demo_api c) cs)"
    using conjunct1 [OF conjunct2 [OF conjunct2 [OF t]]] by (elim exE conjE) (rule that)
  have "map fst cs = [3, 5, 9]" using cs by (simp add: gm_ran_def gm_demo_def gm_demo_command_def)
  moreover have "gm_sent (\<lambda>log. log) gm_demo_after = gm_demo_log" by (simp add: gm_demo_after_def gm_sent_def)
  ultimately have e: "\<exists>(cs :: (uint32 \<times> login_command gm_command) list) before. map fst cs = [3, 5, 9] \<and> gm_demo_log = before @ concat (map (\<lambda>(k, c). gm_writes gm_demo_api c) cs)"
    using log by (intro exI [of _ cs] exI [of _ before] conjI) simp_all
  let ?c = "snd (gm_demo_command 5 200 300 2)"
  have "gm_get 5 gm_demo = Some ?c \<and> gm_active (gc_eStatus ?c) \<and> 0 < gc_dwStartTime ?c \<and>
      gc_dwStartTime ?c < gm_dwMaxRunningGmCommandTime gm_demo_after \<and> gc_dwEndTime ?c < gm_dwMaxRunningGmCommandTime gm_demo_after"
    by (simp add: gm_demo_def gm_demo_after_def gm_get_def gm_demo_command_def gm_active_def gm_status_defs)
  with spec [OF spec [OF conjunct2 [OF conjunct2 [OF conjunct2 [OF t]]]], of 5 ?c] have "gm_get 5 gm_demo_after = None" by (rule mp)
  with e conjunct1 [OF t] show ?thesis by (intro conjI)
qed

theorem gm_role_handled_once_witness:
  "HandlerGmCommandRole (\<lambda>c r. r @ [gc_dwAutoId c]) [] 490 gm_demo_after = (500, [3])"
  using conjunct1 [OF gm_role_handled_once [OF gm_demo_run gm_demo_inv, of "\<lambda>c r. r @ [gc_dwAutoId c]" "[]"]]
  by (simp add: gm_demo_def gm_demo_after_def gm_demo_command_def gm_get_def gm_status_defs gc_new_def)

end
