(* ===== verification/Login_Handler.thy ===== *)
theory Login_Handler
  imports Gm_Command Sessions
begin

text \<open>
  The login server: its session handler \<^verbatim>\<open>CHandlerPlayersession\<close> (loginserver/Handler.h, Handler.cpp) and
  its server list \<^verbatim>\<open>CLoginGroup\<close> (loginserver/LoginGroup.h, LoginGroup.cpp).

  The handler is written against a version of \<^verbatim>\<open>CenterDBCtrl\<close> that the repository does not have, and
  against \<^verbatim>\<open>CmdDefine.h\<close>, which is not in it either: the functions, overloads, fields and numbers that
  are missing are the record \<open>login_env\<close>. What it calls and the repository has is called here too.
  \<open>ls_out\<close> are the packets handed to \<^verbatim>\<open>m_pPlayer\<close>. A member the constructor leaves uninitialised is
  \<^const>\<open>None\<close> until it is set. The reply \<^verbatim>\<open>pckNew\<close>, which is filled and never sent, is left out, the
  database call made for it is not.
\<close>

section \<open>Sessions\<close>

datatype user_status = E_STATUS_CONNECTED | E_STATUS_AUTHED

record login_session =
  ls_strIp :: string
  ls_eUserStatus :: user_status
  ls_dwAccountId :: "uint64 option"
  ls_strClientVersion :: string
  ls_strClientSvnVersion :: string
  ls_strDevice :: string
  ls_wPlatformId :: "uint16 option"
  ls_dwRegTime :: "uint32 option"
  ls_strUid :: string
  ls_bNoPacket :: bool
  ls_dwLastGetServerListTime :: uint32
  ls_out :: "world_packet list"

definition ls_new :: login_session where
  "ls_new =
     \<lparr>ls_strIp = [], ls_eUserStatus = E_STATUS_CONNECTED, ls_dwAccountId = None, ls_strClientVersion = [],
      ls_strClientSvnVersion = [], ls_strDevice = [], ls_wPlatformId = None, ls_dwRegTime = None, ls_strUid = [],
      ls_bNoPacket = True, ls_dwLastGetServerListTime = 0, ls_out = []\<rparr>"

definition SetstrIp :: "string \<Rightarrow> login_session \<Rightarrow> login_session" where
  "SetstrIp ip ls = ls\<lparr>ls_strIp := ip\<rparr>"

definition SetAccountId :: "uint64 \<Rightarrow> login_session \<Rightarrow> login_session" where
  "SetAccountId dwAccountId ls = ls\<lparr>ls_eUserStatus := E_STATUS_AUTHED, ls_dwAccountId := Some dwAccountId\<rparr>"

definition ls_SendPacket :: "world_packet \<Rightarrow> login_session \<Rightarrow> login_session" where
  "ls_SendPacket p ls = ls\<lparr>ls_out := ls_out ls @ [p]\<rparr>"

definition E_REGISTER_RESULT_OK :: uint8 where "E_REGISTER_RESULT_OK = 0"
definition E_REGISTER_RESULT_DEPLICATE :: uint8 where "E_REGISTER_RESULT_DEPLICATE = 1"
definition E_REGISTER_RESULT_INVALID :: uint8 where "E_REGISTER_RESULT_INVALID = 2"

definition E_CHOOSE_SERVER_RESULT_OK :: uint8 where "E_CHOOSE_SERVER_RESULT_OK = 0"
definition E_CHOOSE_SERVER_RESULT_NOT_FOUND :: uint8 where "E_CHOOSE_SERVER_RESULT_NOT_FOUND = 1"
definition E_CHOOSE_SERVER_RESULT_VERSION :: uint8 where "E_CHOOSE_SERVER_RESULT_VERSION = 2"
definition E_CHOOSE_SERVER_RESULT_FORBID :: uint8 where "E_CHOOSE_SERVER_RESULT_FORBID = 3"
definition E_CHOOSE_SERVER_RESULT_ERROR :: uint8 where "E_CHOOSE_SERVER_RESULT_ERROR = 4"
definition E_CHOOSE_SERVER_RESULT_NEW_ACCOUNT_FORBID :: uint8 where "E_CHOOSE_SERVER_RESULT_NEW_ACCOUNT_FORBID = 5"

definition E_SERVER_STATUS_NORMAL :: uint8 where "E_SERVER_STATUS_NORMAL = 0"
definition E_SERVER_STATUS_MAINTAIN :: uint8 where "E_SERVER_STATUS_MAINTAIN = 3"

definition E_LOGIN_STRATEGY_TYPE_PLATFORM :: uint8 where "E_LOGIN_STRATEGY_TYPE_PLATFORM = 1"
definition E_LOGIN_STRATEGY_TYPE_IP :: uint8 where "E_LOGIN_STRATEGY_TYPE_IP = 2"
definition E_LOGIN_STRATEGY_TYPE_AUTH :: uint8 where "E_LOGIN_STRATEGY_TYPE_AUTH = 3"
definition E_LOGIN_STRATEGY_TYPE_VERSION :: uint8 where "E_LOGIN_STRATEGY_TYPE_VERSION = 4"
definition E_LOGIN_STRATEGY_TYPE_DEVICE :: uint8 where "E_LOGIN_STRATEGY_TYPE_DEVICE = 5"
definition E_LOGIN_STRATEGY_TYPE_REG_TIME :: uint8 where "E_LOGIN_STRATEGY_TYPE_REG_TIME = 6"

definition E_NOTICE_USE_TYPE_LOGIN :: uint8 where "E_NOTICE_USE_TYPE_LOGIN = 1"
definition E_NOTICE_USE_TYPE_UPDATE_ADDR :: uint8 where "E_NOTICE_USE_TYPE_UPDATE_ADDR = 5"
definition E_NOTICE_CONDITION_TYPE_PLATFORM :: uint8 where "E_NOTICE_CONDITION_TYPE_PLATFORM = 1"

definition E_IOS_VERSION_5 :: uint8 where "E_IOS_VERSION_5 = 5"

section \<open>What the repository does not have\<close>

record login_cmds =
  CMD_LOGIN_CS_ACCOUNT_LOGIN :: uint16
  CMD_LOGIN_CS_PLATFORM_LOGIN :: uint16
  CMD_LOGIN_CS_FAST_LOGIN :: uint16
  CMD_LOGIN_CS_GET_SERVER :: uint16
  CMD_LOGIN_CS_CHOOSE_SERVER :: uint16
  CMD_LOGIN_CS_REGISTER :: uint16
  CMD_LOGIN_CS_MODIFY_PWD :: uint16
  CMD_LOGIN_CS_PASSPORT_EXIST :: uint16
  CMD_LOGIN_SC_LOGIN_RESULT :: uint32
  CMD_LOGIN_SC_REGISTER_RESULT :: uint32
  CMD_LOGIN_SC_MODIFY_PWD_RESULT :: uint32
  CMD_LOGIN_SC_SERVER_LIST :: uint32
  CMD_LOGIN_SC_CHOOSE_RESULT :: uint32
  CMD_LOGIN_SC_PASSPORT_EXIST :: uint32

text \<open>\<open>le_time\<close> is \<^verbatim>\<open>time(NULL)\<close>, by the number of the call; the rest is what the comment above says.\<close>

record ('c, 'z) login_env =
  le_cmds :: login_cmds
  le_time :: "nat \<Rightarrow> int"
  le_mktime :: mktime
  le_GetDevice :: "uint64 \<Rightarrow> ('c, 'z, string) cdb_fn"
  le_GetPassportRegTime :: "uint64 \<Rightarrow> ('c, 'z, uint32) cdb_fn"
  le_GetPassportInfo :: "uint64 \<Rightarrow> ('c, 'z, (uint16 \<times> string \<times> uint8) option) cdb_fn"
  le_GetNoticeTimeRange :: "uint8 \<Rightarrow> uint8 \<Rightarrow> uint32 \<Rightarrow> uint32 \<times> uint32 \<Rightarrow> ('c, 'z, uint32 \<times> uint32) cdb_fn"
  le_GetLastLoginServer :: "uint64 \<Rightarrow> ('c, 'z, uint16) cdb_fn"
  le_GetOrInsertRoleId :: "uint64 \<Rightarrow> uint32 \<Rightarrow> uint32 \<Rightarrow> ('c, 'z, int \<times> uint32) cdb_fn"
  le_ValidateAuthFast ::
    "string \<Rightarrow> string \<Rightarrow> string \<Rightarrow> uint8 \<Rightarrow> string \<Rightarrow> uint32 \<Rightarrow> string \<Rightarrow> string \<Rightarrow> string \<Rightarrow> uint64 \<Rightarrow>
     ('c, 'z, login_result \<times> uint64) cdb_fn"
  le_RegisterPassport ::
    "string \<Rightarrow> string \<Rightarrow> string \<Rightarrow> string \<Rightarrow> string \<Rightarrow> uint32 \<Rightarrow> string \<Rightarrow> string \<Rightarrow> string \<Rightarrow> string \<Rightarrow> string \<Rightarrow> ('c, 'z, bool) cdb_fn"
  le_dwCanRegister :: "server_status \<Rightarrow> uint32"
  le_strResVersionFull :: "server_status \<Rightarrow> string"
  E_SERVER_STATUS_INTERNAL :: uint8
  E_NOTICE_USE_TYPE_LOGIN_TIME_RANGE :: uint8
  E_LOGIN_STRATEGY_TYPE_SVN_VERSION :: uint8
  E_LOGIN_STRATEGY_TYPE_SVN_VERSION_BLACK_LIST :: uint8
  E_LOGIN_STRATEGY_TYPE_DEVICE_NUMBER :: uint8

type_synonym ('c, 'z) lh_fn =
  "login_session \<Rightarrow> ('c, 'z) center_db_scheme \<Rightarrow> (login_session \<times> ('c, 'z) center_db_scheme) option"

section \<open>Answers\<close>

definition lh_code :: "uint32 \<Rightarrow> uint8 \<Rightarrow> login_session \<Rightarrow> login_session option" where
  "lh_code opcode byResult ls = do { pck \<leftarrow> bb_put_u8 byResult (wp_opc opcode); Some (ls_SendPacket pck ls) }"

definition SendLoginResult :: "login_cmds \<Rightarrow> uint8 \<Rightarrow> login_session \<Rightarrow> login_session option" where
  "SendLoginResult cmds byResult ls = lh_code (CMD_LOGIN_SC_LOGIN_RESULT cmds) byResult ls"

definition SendRegisterResult :: "login_cmds \<Rightarrow> uint8 \<Rightarrow> login_session \<Rightarrow> login_session option" where
  "SendRegisterResult cmds byResult ls = lh_code (CMD_LOGIN_SC_REGISTER_RESULT cmds) byResult ls"

definition SendModifyPwdResult :: "login_cmds \<Rightarrow> uint8 \<Rightarrow> login_session \<Rightarrow> login_session option" where
  "SendModifyPwdResult cmds byResult ls = lh_code (CMD_LOGIN_SC_MODIFY_PWD_RESULT cmds) byResult ls"

section \<open>Login strategies\<close>

text \<open>\<open>CHandlerPlayersession::CheckIp\<close>: the loop over the four parts, which stops at the first mismatch.\<close>

fun lh_ip_loop :: "string list \<Rightarrow> string list \<Rightarrow> bool" where
  "lh_ip_loop (t # ts) (p # ps) =
     (if p = ''*'' then lh_ip_loop ts ps
      else if CHR ''-'' \<in> set p
      then (let vRange = StrSplit p ''-'' in
            if length vRange \<noteq> 2 then False
            else let a = c_atoi_int t; low = c_atoi_int (vRange ! 0); high = c_atoi_int (vRange ! 1);
                     (low, high) = (if low > high then (high, low) else (low, high))
                 in if a < low \<or> a > high then False else lh_ip_loop ts ps)
      else if c_atoi_int t \<noteq> c_atoi_int p then False else lh_ip_loop ts ps)"
| "lh_ip_loop _ _ = True"

definition lh_CheckIp :: "string \<Rightarrow> string \<Rightarrow> bool" where
  "lh_CheckIp strIp strPattern =
     (let vTarget = StrSplit strIp ''.'' in
      if length vTarget \<noteq> 4 then False
      else let vPattern = StrSplit strPattern ''.'' in
           if length vPattern \<noteq> 4 then False else lh_ip_loop vTarget vPattern)"

text \<open>
  One condition; \<open>bIsNot\<close> is not looked at. The members of \<^verbatim>\<open>struct tm\<close> that are not set are left at 0
  here: \<^verbatim>\<open>mktime\<close> reads \<^verbatim>\<open>tm_isdst\<close> among them.
\<close>

definition lh_reg_time :: "mktime \<Rightarrow> uint32 option \<Rightarrow> string \<Rightarrow> bool option" where
  "lh_reg_time mk dwRegTime strValue =
     (let v = StrSplit strValue ''-''; n = (\<lambda>i. if length v \<ge> Suc i then c_atoi_int (v ! i) else 0) in
      if length v < 3 then Some False
      else do { r \<leftarrow> dwRegTime;
                Some (uint r \<le> mk (tm_zero\<lparr>tm_year := n 0 - 1900, tm_mon := n 1 - 1, tm_mday := n 2,
                                           tm_hour := n 3, tm_min := n 4, tm_sec := n 5\<rparr>)) })"

definition lh_condition ::
  "('c, 'z) login_env \<Rightarrow> login_session \<Rightarrow> uint16 \<Rightarrow> uint8 \<Rightarrow> strategy_condition \<Rightarrow> bool option" where
  "lh_condition e ls wPlatform byGmAuth it =
     (let t = sc_byType it; v = sc_strValue it in
      if t = E_LOGIN_STRATEGY_TYPE_PLATFORM then Some (uint wPlatform = c_atoi_int v)
      else if t = E_LOGIN_STRATEGY_TYPE_IP then Some (lh_CheckIp (ls_strIp ls) v)
      else if t = E_LOGIN_STRATEGY_TYPE_AUTH then Some (uint byGmAuth \<ge> c_atoi_int v)
      else if t = E_LOGIN_STRATEGY_TYPE_VERSION
      then Some (ls_strClientSvnVersion ls = [] \<or> ls_strClientSvnVersion ls = v)
      else if t = E_LOGIN_STRATEGY_TYPE_DEVICE
      then Some (ls_strDevice ls \<noteq> [] \<and> v \<noteq> [] \<and> c_tolower (hd (ls_strDevice ls)) = c_tolower (hd v))
      else if t = E_LOGIN_STRATEGY_TYPE_REG_TIME then lh_reg_time (le_mktime e) (ls_dwRegTime ls) v
      else if t = E_LOGIN_STRATEGY_TYPE_SVN_VERSION e then Some (ls_strClientSvnVersion ls = v)
      else if t = E_LOGIN_STRATEGY_TYPE_SVN_VERSION_BLACK_LIST e then Some (ls_strClientSvnVersion ls \<noteq> v)
      else if t = E_LOGIN_STRATEGY_TYPE_DEVICE_NUMBER e then Some (ls_strUid ls \<in> set (StrSplit v '',''))
      else Some False)"

fun lh_any :: "('a \<Rightarrow> bool option) \<Rightarrow> 'a list \<Rightarrow> bool option" where
  "lh_any f [] = Some False"
| "lh_any f (x # xs) = do { b \<leftarrow> f x; if b then Some True else lh_any f xs }"

fun lh_all :: "('a \<Rightarrow> bool option) \<Rightarrow> 'a list \<Rightarrow> bool option" where
  "lh_all f [] = Some True"
| "lh_all f (x # xs) = do { b \<leftarrow> f x; if b then lh_all f xs else Some False }"

definition ServerAccessable ::
  "'c mysql_api \<Rightarrow> ('c, 'z) login_env \<Rightarrow> login_session \<Rightarrow> server_status \<Rightarrow> uint16 \<Rightarrow> uint8 \<Rightarrow> ('c, 'z, bool) cdb_fn" where
  "ServerAccessable api e ls server wPlatform byGmAuth s =
     (if ss_dwLoginStrategy server = 0 then Some (True, s)
      else do { ((ok, vv), s) \<leftarrow> GetLoginStrategy api (ss_dwLoginStrategy server) [] s;
                if \<not> ok then Some (False, s)
                else do { ret \<leftarrow> lh_all (lh_any (lh_condition e ls wPlatform byGmAuth)) vv; Some (ret, s) } })"

text \<open>\<open>GetServerListAfterFilter\<close>, with its two hard-wired client versions.\<close>

fun lh_filter_loop ::
  "'c mysql_api \<Rightarrow> ('c, 'z) login_env \<Rightarrow> login_session \<Rightarrow> uint16 \<Rightarrow> uint8 \<Rightarrow> server_map \<Rightarrow> server_map \<Rightarrow> ('c, 'z, server_map) cdb_fn" where
  "lh_filter_loop api e ls wPlatform byGmAuth [] oServers s = Some (oServers, s)"
| "lh_filter_loop api e ls wPlatform byGmAuth ((k, st) # servers) oServers s =
     (if ls_strClientSvnVersion ls = ''2.0.0.7423'' \<and> ss_dwServerId st = 252 then Some ([(ss_dwServerId st, st)], s)
      else if ls_strClientSvnVersion ls = ''1.7.1.8972'' \<and> ss_dwServerId st = 243 then Some ([(ss_dwServerId st, st)], s)
      else do { (acc, s) \<leftarrow> (if ss_dwLoginStrategy st = 0 then Some (True, s)
                             else ServerAccessable api e ls st wPlatform byGmAuth s);
                lh_filter_loop api e ls wPlatform byGmAuth servers
                  (if acc then omap_insert (ss_dwServerId st) st oServers else oServers) s })"

definition GetServerListAfterFilter ::
  "'c mysql_api \<Rightarrow> ('c, 'z) login_env \<Rightarrow> server_map \<Rightarrow> login_session \<Rightarrow> ('c, 'z, server_map) cdb_fn" where
  "GetServerListAfterFilter api e servers ls s =
     do { account \<leftarrow> ls_dwAccountId ls;
          (info, s) \<leftarrow> le_GetPassportInfo e account s;
          case info of
            None \<Rightarrow> Some ([], s)
          | Some (wPlatform, strPlatformId, byGmAuth) \<Rightarrow> lh_filter_loop api e ls wPlatform byGmAuth servers [] s }"

section \<open>Login\<close>

definition bb_more :: "'z byte_buffer_scheme \<Rightarrow> bool" where
  "bb_more b \<longleftrightarrow> bb_rpos b < bb_size b"

definition lh_authed ::
  "('c, 'z) login_env \<Rightarrow> uint64 \<Rightarrow> string \<Rightarrow> uint16 \<Rightarrow> login_session \<Rightarrow> ('c, 'z, login_session) cdb_fn" where
  "lh_authed e dwAccountId strDevice wPlatform ls s =
     do { (dwRegTime, s) \<leftarrow> le_GetPassportRegTime e dwAccountId s;
          Some ((SetAccountId dwAccountId ls)\<lparr>ls_strDevice := strDevice, ls_wPlatformId := Some wPlatform,
                                             ls_dwRegTime := Some dwRegTime\<rparr>, s) }"

definition HandlerAccountLogin :: "'c mysql_api \<Rightarrow> ('c, 'z) login_env \<Rightarrow> world_packet \<Rightarrow> ('c, 'z) lh_fn" where
  "HandlerAccountLogin api e packet ls s =
     do { (strAccount, packet) \<leftarrow> bb_get_str packet;
          (strPwd, packet) \<leftarrow> bb_get_str packet;
          (wPlatform, packet) \<leftarrow> bb_get_u16 packet;
          ((result, dwAccountId), s) \<leftarrow> ValidateAuthAccount api strAccount strPwd (ucast wPlatform) 0 s;
          case result of
            E_LOGIN_RESULT_TYPE_OK \<Rightarrow>
              do { (strDevice, s) \<leftarrow> le_GetDevice e dwAccountId s;
                   (ls, s) \<leftarrow> lh_authed e dwAccountId strDevice wPlatform ls s;
                   ls \<leftarrow> SendLoginResult (le_cmds e) (login_result_code result) ls;
                   Some (ls, s) }
          | E_LOGIN_RESULT_VERIFY_ERROR \<Rightarrow> Some (ls, s)
          | _ \<Rightarrow> do { ls \<leftarrow> SendLoginResult (le_cmds e) (login_result_code result) ls; Some (ls, s) } }"

text \<open>\<^verbatim>\<open>rfind( "fb" )\<close> is at the end of the text when it ends in these two characters.\<close>

definition strip_fb :: "string \<Rightarrow> string" where
  "strip_fb strToken =
     (if length strToken \<ge> 2 \<and> drop (length strToken - 2) strToken = ''fb'' then take (length strToken - 2) strToken else strToken)"

text \<open>The account id handed over is not initialised; \<open>ValidateAuthPlatform\<close> only writes it.\<close>

definition HandlerPlatformLogin :: "'c mysql_api \<Rightarrow> ('c, 'z) login_env \<Rightarrow> world_packet \<Rightarrow> ('c, 'z) lh_fn" where
  "HandlerPlatformLogin api e packet ls s =
     do { (strUid, packet) \<leftarrow> bb_get_str packet;
          (strToken, packet) \<leftarrow> bb_get_str packet;
          (wPlatform, packet) \<leftarrow> bb_get_u16 packet;
          (strDevice, packet) \<leftarrow> bb_get_str packet;
          (strDeviceType, packet) \<leftarrow> bb_get_str packet;
          (strOpenUdid, strAppleUid) \<leftarrow>
            (if bb_more packet
             then do { (a, packet) \<leftarrow> bb_get_str packet; (b, packet) \<leftarrow> bb_get_str packet; Some (a, b) }
             else Some ([], []));
          let strToken = (if wPlatform = 900 \<and> strDevice = ''ios'' then strip_fb strToken else strToken);
          ((result, dwAccountId), s) \<leftarrow> ValidateAuthPlatform api strToken strUid [] (ucast wPlatform) (ls_strIp ls) strDevice
            strDeviceType strOpenUdid strAppleUid 0 s;
          if result = E_LOGIN_RESULT_TYPE_OK
          then do { (ls, s) \<leftarrow> lh_authed e dwAccountId strDevice wPlatform ls s;
                    ls \<leftarrow> SendLoginResult (le_cmds e) (login_result_code result) (ls\<lparr>ls_strUid := strUid\<rparr>);
                    Some (ls, s) }
          else do { ls \<leftarrow> SendLoginResult (le_cmds e) (login_result_code result) ls; Some (ls, s) } }"

definition HandlerFastLogin :: "('c, 'z) login_env \<Rightarrow> world_packet \<Rightarrow> ('c, 'z) lh_fn" where
  "HandlerFastLogin e packet ls s =
     do { (strUid, packet) \<leftarrow> bb_get_str packet;
          (wPlatform, packet) \<leftarrow> bb_get_u16 packet;
          (strDevice, packet) \<leftarrow> bb_get_str packet;
          (strDeviceType, packet) \<leftarrow> bb_get_str packet;
          (strOpenUdid, strAppleUdid, byIosVersion) \<leftarrow>
            (if bb_more packet
             then do { (a, packet) \<leftarrow> bb_get_str packet; (b, packet) \<leftarrow> bb_get_str packet; (v, packet) \<leftarrow> bb_get_u8 packet;
                       Some (a, b, v) }
             else Some ([], [], E_IOS_VERSION_5));
          if wPlatform = 111 \<or> wPlatform = 115 then Some (ls, s)
          else do { ((result, dwAccountId), s) \<leftarrow> le_ValidateAuthFast e strUid strOpenUdid strAppleUdid byIosVersion []
                      (ucast wPlatform) (ls_strIp ls) strDevice strDeviceType 0 s;
                    if result = E_LOGIN_RESULT_TYPE_OK
                    then do { (ls, s) \<leftarrow> lh_authed e dwAccountId strDevice wPlatform ls s;
                              ls \<leftarrow> SendLoginResult (le_cmds e) (login_result_code result) ls;
                              Some (ls, s) }
                    else do { ls \<leftarrow> SendLoginResult (le_cmds e) (login_result_code result) ls; Some (ls, s) } } }"

section \<open>The server list and the choice of a server\<close>

definition shown_status :: "('c, 'z) login_env \<Rightarrow> string \<Rightarrow> server_status \<Rightarrow> uint8" where
  "shown_status e strIp st =
     (let server_status = ss_byStatus st;
          server_status = (if server_status = E_SERVER_STATUS_INTERNAL e
                           then (if strIp = ''180.168.54.62'' then E_SERVER_STATUS_NORMAL else E_SERVER_STATUS_MAINTAIN)
                           else server_status)
      in if ss_bIsAlive st \<and> ss_byCanLogin st \<noteq> 0 then server_status else E_SERVER_STATUS_MAINTAIN)"

fun put_servers :: "('c, 'z) login_env \<Rightarrow> string \<Rightarrow> server_status list \<Rightarrow> world_packet \<Rightarrow> world_packet option" where
  "put_servers e strIp [] pck = Some pck"
| "put_servers e strIp (st # sts) pck =
     do { pck \<leftarrow> bb_put_u16 (ucast (ss_dwServerId st)) pck;
          pck \<leftarrow> bb_put_str (ss_strServerName st) pck;
          pck \<leftarrow> bb_put_bool True pck;
          pck \<leftarrow> bb_put_u8 (shown_status e strIp st) pck;
          put_servers e strIp sts pck }"

definition last_server :: "server_status list \<Rightarrow> uint32" where
  "last_server sts = (case dropWhile (\<lambda>st. ss_dwServerId st = 0) sts of [] \<Rightarrow> 0 | st # _ \<Rightarrow> ss_dwServerId st)"

definition get_list_options :: "world_packet \<Rightarrow> (string \<times> string \<times> uint8) option" where
  "get_list_options packet =
     do { (ver, packet) \<leftarrow> (if bb_more packet then bb_get_str packet else Some ([], packet));
          (svn, packet) \<leftarrow> (if bb_more packet then bb_get_str packet else Some ([], packet));
          (big, packet) \<leftarrow> (if bb_more packet then bb_get_u8 packet else Some (0, packet));
          Some (ver, svn, big) }"

definition login_notice :: "'c mysql_api \<Rightarrow> ('c, 'z) login_env \<Rightarrow> uint16 \<Rightarrow> ('c, 'z, string) cdb_fn" where
  "login_notice api e wPlatformId s =
     do { let dwNow = (word_of_int (le_time e 1) :: uint32);
          ((dwStartTime, dwEndTime), s) \<leftarrow> le_GetNoticeTimeRange e (E_NOTICE_USE_TYPE_LOGIN_TIME_RANGE e)
            E_NOTICE_CONDITION_TYPE_PLATFORM (ucast wPlatformId) (0, 0) s;
          GetNotice api (if dwNow \<ge> dwStartTime \<and> dwNow \<le> dwEndTime then E_NOTICE_USE_TYPE_LOGIN_TIME_RANGE e
                         else E_NOTICE_USE_TYPE_LOGIN) E_NOTICE_CONDITION_TYPE_PLATFORM (ucast wPlatformId) s }"

definition HandlerGetServerList ::
  "'c mysql_api \<Rightarrow> ('c, 'z) login_env \<Rightarrow> server_map \<Rightarrow> world_packet \<Rightarrow> ('c, 'z) lh_fn" where
  "HandlerGetServerList api e servers packet ls s =
     (if le_time e 0 < uint (ls_dwLastGetServerListTime ls + 3) then Some (ls, s)
      else do { (ver, svn, isBigServerSize) \<leftarrow> get_list_options packet;
                let ls = ls\<lparr>ls_strClientVersion := ver, ls_strClientSvnVersion := svn\<rparr>;
                (shown, s) \<leftarrow> GetServerListAfterFilter api e servers ls s;
                let sts = rev (map snd shown);
                let pck = wp_opc (CMD_LOGIN_SC_SERVER_LIST (le_cmds e));
                pck \<leftarrow> (if isBigServerSize = 0 then bb_put_u8 (word_of_nat (length shown)) pck
                        else bb_put_u16 (word_of_nat (length shown)) pck);
                pck \<leftarrow> put_servers e (ls_strIp ls) sts pck;
                wPlatformId \<leftarrow> ls_wPlatformId ls;
                (strLoginNotice, s) \<leftarrow> login_notice api e wPlatformId s;
                pck \<leftarrow> bb_put_str strLoginNotice pck;
                account \<leftarrow> ls_dwAccountId ls;
                (serverid, s) \<leftarrow> le_GetLastLoginServer e account s;
                pck \<leftarrow> bb_put_u16 (if serverid = 0 then ucast (last_server sts) else serverid) pck;
                (_, s) \<leftarrow> le_GetLastLoginServer e account s;
                Some ((ls_SendPacket pck ls)\<lparr>ls_dwLastGetServerListTime := word_of_int (le_time e 2)\<rparr>, s) })"

text \<open>The version a client has told with the server list, against the version of the server.\<close>

definition version_ok :: "string \<Rightarrow> string \<Rightarrow> bool" where
  "version_ok client server =
     (let cv = StrSplit_u32 client ''.''; sv = StrSplit_u32 server ''.'' in
      if length cv > 0
      then if length cv < 3 \<or> length sv < 3 then False
           else \<not> (cv ! 0 \<noteq> sv ! 0 \<or> cv ! 1 \<noteq> sv ! 1 \<or> sv ! 2 > cv ! 2)
      else True)"

definition choose_role ::
  "'c mysql_api \<Rightarrow> ('c, 'z) login_env \<Rightarrow> uint16 \<Rightarrow> server_status \<Rightarrow> login_session \<Rightarrow> world_packet \<Rightarrow> ('c, 'z, world_packet) cdb_fn" where
  "choose_role api e wServerId st ls pck s =
     do { account \<leftarrow> ls_dwAccountId ls;
          ((ret, dwRoleId), s) \<leftarrow> le_GetOrInsertRoleId e account (ucast wServerId) (le_dwCanRegister e st) s;
          if ret = 0
          then do { (forbid, s) \<leftarrow> IsRoleForbid api dwRoleId s;
                    if forbid
                    then do { pck \<leftarrow> bb_put_u8 E_CHOOSE_SERVER_RESULT_FORBID pck; Some (pck, s) }
                    else do { pck \<leftarrow> bb_put_u8 E_CHOOSE_SERVER_RESULT_OK pck;
                              pck \<leftarrow> bb_put_str (ss_strIp st) pck;
                              pck \<leftarrow> bb_put_u32 (ss_dwPort st) pck;
                              pck \<leftarrow> bb_put_u32 dwRoleId pck;
                              pck \<leftarrow> bb_put_str (ss_strResServerAddr st) pck;
                              pck \<leftarrow> bb_put_str (le_strResVersionFull e st) pck;
                              (_, s) \<leftarrow> SetLastLoginServer api account wServerId s;
                              (_, s) \<leftarrow> CreateLoginToken api account (ls_strIp ls) False s;
                              Some (pck, s) } }
          else do { pck \<leftarrow> bb_put_u8 (if ret = 1 then E_CHOOSE_SERVER_RESULT_NEW_ACCOUNT_FORBID else E_CHOOSE_SERVER_RESULT_ERROR) pck;
                    Some (pck, s) } }"

definition HandlerChooseServer ::
  "'c mysql_api \<Rightarrow> ('c, 'z) login_env \<Rightarrow> server_map \<Rightarrow> world_packet \<Rightarrow> ('c, 'z) lh_fn" where
  "HandlerChooseServer api e servers packet ls s =
     do { (wServerId, packet) \<leftarrow> bb_get_u16 packet;
          (strClientVersion, packet) \<leftarrow> bb_get_str packet;
          (merged, s) \<leftarrow> GetServerIdMerged api (ucast wServerId) s;
          let wServerIdMerged = (ucast merged :: uint16);
          let pck = wp_opc (CMD_LOGIN_SC_CHOOSE_RESULT (le_cmds e));
          (pck, s) \<leftarrow>
            (case map_of servers (ucast wServerIdMerged) of
               None \<Rightarrow> do { pck \<leftarrow> bb_put_u8 E_CHOOSE_SERVER_RESULT_NOT_FOUND pck; Some (pck, s) }
             | Some st \<Rightarrow>
                 if ss_byCanLogin st = 0 \<or> \<not> ss_bIsAlive st
                 then do { pck \<leftarrow> bb_put_u8 E_CHOOSE_SERVER_RESULT_NOT_FOUND pck; Some (pck, s) }
                 else if \<not> version_ok (ls_strClientSvnVersion ls) (ss_strVersion st)
                 then do { pck \<leftarrow> bb_put_u8 E_CHOOSE_SERVER_RESULT_VERSION pck;
                           pck \<leftarrow> bb_put_str (ss_strVersion st) pck;
                           wPlatformId \<leftarrow> ls_wPlatformId ls;
                           (addr, s) \<leftarrow> GetNotice api E_NOTICE_USE_TYPE_UPDATE_ADDR E_NOTICE_CONDITION_TYPE_PLATFORM
                             (ucast wPlatformId) s;
                           pck \<leftarrow> bb_put_str addr pck;
                           Some (pck, s) }
                 else choose_role api e wServerId st ls pck s);
          Some (ls_SendPacket pck ls, s) }"

section \<open>Accounts\<close>

definition HandlerRegister :: "('c, 'z) login_env \<Rightarrow> world_packet \<Rightarrow> ('c, 'z) lh_fn" where
  "HandlerRegister e packet ls s =
     do { (strUid, packet) \<leftarrow> bb_get_str packet;
          (strAccount, packet) \<leftarrow> bb_get_str packet;
          (strPwd, packet) \<leftarrow> bb_get_str packet;
          (strMail, packet) \<leftarrow> bb_get_str packet;
          (wPlarform, packet) \<leftarrow> bb_get_u16 packet;
          (strDevice, packet) \<leftarrow> bb_get_str packet;
          (strDeviceType, packet) \<leftarrow> bb_get_str packet;
          (strOpenUdid, strAppleUdid) \<leftarrow>
            (if bb_more packet
             then do { (a, packet) \<leftarrow> bb_get_str packet; (b, packet) \<leftarrow> bb_get_str packet; Some (a, b) }
             else Some ([], []));
          if strAccount = [] \<or> strPwd = [] \<or> strMail = []
          then do { ls \<leftarrow> SendRegisterResult (le_cmds e) E_REGISTER_RESULT_INVALID ls; Some (ls, s) }
          else do { (ok, s) \<leftarrow> le_RegisterPassport e strAccount strPwd strMail strUid [] (ucast wPlarform) (ls_strIp ls) strDevice
                      strDeviceType strOpenUdid strAppleUdid s;
                    ls \<leftarrow> SendRegisterResult (le_cmds e) (if ok then E_REGISTER_RESULT_OK else E_REGISTER_RESULT_DEPLICATE) ls;
                    Some (ls, s) } }"

definition HandlerModifyPwd :: "'c mysql_api \<Rightarrow> ('c, 'z) login_env \<Rightarrow> world_packet \<Rightarrow> ('c, 'z) lh_fn" where
  "HandlerModifyPwd api e packet ls s =
     do { (strNewPwd, packet) \<leftarrow> bb_get_str packet;
          if ls_eUserStatus ls \<noteq> E_STATUS_AUTHED
          then do { ls \<leftarrow> SendModifyPwdResult (le_cmds e) 1 ls; Some (ls, s) }
          else do { account \<leftarrow> ls_dwAccountId ls;
                    (ok, s) \<leftarrow> ModifyPassword api account strNewPwd s;
                    ls \<leftarrow> SendModifyPwdResult (le_cmds e) (if ok then 0 else 2) ls;
                    Some (ls, s) } }"

definition HandlerExistPassport :: "'c mysql_api \<Rightarrow> ('c, 'z) login_env \<Rightarrow> world_packet \<Rightarrow> ('c, 'z) lh_fn" where
  "HandlerExistPassport api e packet ls s =
     do { (strPassport, packet) \<leftarrow> bb_get_str packet;
          (byAuthType, packet) \<leftarrow> bb_get_u8 packet;
          (wPlatform, packet) \<leftarrow> bb_get_u16 packet;
          (found, s) \<leftarrow> ExistsPassport api strPassport byAuthType (ucast wPlatform) s;
          ls \<leftarrow> lh_code (CMD_LOGIN_SC_PASSPORT_EXIST (le_cmds e)) (if found then 1 else 0) ls;
          Some (ls, s) }"

section \<open>Packets\<close>

text \<open>The table of \<open>InitOpcodeHandler\<close>: later entries replace earlier ones of the same number.\<close>

definition lh_table :: "'c mysql_api \<Rightarrow> ('c, 'z) login_env \<Rightarrow> server_map \<Rightarrow> (uint16 \<times> (world_packet \<Rightarrow> ('c, 'z) lh_fn)) list" where
  "lh_table api e servers =
     (let cmds = le_cmds e in
      fold (\<lambda>(k, f). omap_set k f)
        [(CMD_LOGIN_CS_ACCOUNT_LOGIN cmds, HandlerAccountLogin api e), (CMD_LOGIN_CS_PLATFORM_LOGIN cmds, HandlerPlatformLogin api e),
         (CMD_LOGIN_CS_FAST_LOGIN cmds, HandlerFastLogin e), (CMD_LOGIN_CS_GET_SERVER cmds, HandlerGetServerList api e servers),
         (CMD_LOGIN_CS_CHOOSE_SERVER cmds, HandlerChooseServer api e servers), (CMD_LOGIN_CS_REGISTER cmds, HandlerRegister e),
         (CMD_LOGIN_CS_MODIFY_PWD cmds, HandlerModifyPwd api e), (CMD_LOGIN_CS_PASSPORT_EXIST cmds, HandlerExistPassport api e)] [])"

definition lh_guarded :: "login_cmds \<Rightarrow> uint16 \<Rightarrow> bool" where
  "lh_guarded cmds opcode \<longleftrightarrow> opcode = CMD_LOGIN_CS_GET_SERVER cmds \<or> opcode = CMD_LOGIN_CS_CHOOSE_SERVER cmds \<or>
     opcode = CMD_LOGIN_CS_MODIFY_PWD cmds"

text \<open>
  The catch of \<^verbatim>\<open>std::exception\<close> around the handler is left out: the reads of the packet do not throw, a
  read past its end gives zero.
\<close>

definition lh_Process :: "'c mysql_api \<Rightarrow> ('c, 'z) login_env \<Rightarrow> server_map \<Rightarrow> world_packet \<Rightarrow> ('c, 'z) lh_fn" where
  "lh_Process api e servers packet ls s =
     (let ls = ls\<lparr>ls_bNoPacket := False\<rparr>; opcode = ucast (wp_opcode packet) in
      if ls_eUserStatus ls \<noteq> E_STATUS_AUTHED \<and> lh_guarded (le_cmds e) opcode then Some (ls, s)
      else case map_of (lh_table api e servers) opcode of
             Some f \<Rightarrow> f packet ls s
           | None \<Rightarrow> Some (ls, s))"

section \<open>The login group\<close>

record login_group =
  lg_mapServerStatus :: server_map
  lg_ClearGmTime :: uint32

definition LOGIN_CLEAR_GM_TIME :: uint32 where "LOGIN_CLEAR_GM_TIME = 3600"

definition lg_new :: login_group where
  "lg_new = \<lparr>lg_mapServerStatus = [], lg_ClearGmTime = 0\<rparr>"

definition InitLoginDB ::
  "'c mysql_api \<Rightarrow> ddl_step list \<Rightarrow> 'c database_mysql option \<Rightarrow> uint8 \<Rightarrow> ('c, login_command, bool) gm_fn" where
  "InitLoginDB api ddl loginDatabase g_serverId s =
     do { (ret, s) \<leftarrow> InitCenterDB api ddl loginDatabase g_serverId s;
          if ret then do { (_, s) \<leftarrow> InitGmCommand api (Some (login_class api)) s; Some (True, s) } else Some (False, s) }"

definition lg_OnTimer15s :: "'c mysql_api \<Rightarrow> login_group \<Rightarrow> ('c, 'z, login_group) cdb_fn" where
  "lg_OnTimer15s api lg s =
     do { (m, s) \<leftarrow> GetOrUpdateGameServerStatus api (lg_mapServerStatus lg) s; Some (lg\<lparr>lg_mapServerStatus := m\<rparr>, s) }"

definition InitSettings ::
  "'c mysql_api \<Rightarrow> ddl_step list \<Rightarrow> 'c database_mysql option \<Rightarrow> uint8 \<Rightarrow> login_group \<Rightarrow> ('c, login_command, bool \<times> login_group) gm_fn" where
  "InitSettings api ddl loginDatabase g_serverId lg s =
     do { (_, s) \<leftarrow> InitLoginDB api ddl loginDatabase g_serverId s;
          (lg, s) \<leftarrow> lg_OnTimer15s api lg s;
          Some ((True, lg), s) }"

definition lg_OnTimer5s :: "'c mysql_api \<Rightarrow> ('c, login_command) gm_db \<Rightarrow> ('c, login_command) gm_db option" where
  "lg_OnTimer5s api s =
     do { (_, s) \<leftarrow> ReadNewGmCommand api (Some (login_class api)) s;
          (_, s) \<leftarrow> UpdateGmCommand api (login_class api) s;
          Some s }"

text \<open>What it is to clear is commented out; what is left notes that the day has had its turn.\<close>

definition OnCheckClearGmAuth :: "localtime \<Rightarrow> int \<Rightarrow> int \<Rightarrow> login_group \<Rightarrow> login_group" where
  "OnCheckClearGmAuth lt timeOff now lg =
     (let dwSecond = GetSecondFrom0Clock lt now in
      if dwSecond \<ge> LOGIN_CLEAR_GM_TIME \<and> dwSecond \<le> LOGIN_CLEAR_GM_TIME + 600 \<and>
         \<not> IsToday lt timeOff now (lg_ClearGmTime lg)
      then lg\<lparr>lg_ClearGmTime := word_of_int now\<rparr> else lg)"

text \<open>\<open>HandlerOntimer\<close>; \<open>ping\<close> is \<^verbatim>\<open>mysql_ping\<close>. The other intervals do nothing.\<close>

definition HandlerOntimer ::
  "'c mysql_api \<Rightarrow> ('c \<Rightarrow> 'c) \<Rightarrow> localtime \<Rightarrow> int \<Rightarrow> int \<Rightarrow> nat \<Rightarrow> login_group \<times> ('c, login_command) gm_db \<Rightarrow>
   (login_group \<times> ('c, login_command) gm_db) option" where
  "HandlerOntimer api ping lt timeOff now interval st =
     (let (lg, s) = st in
      if interval = TIMER_5S then do { s \<leftarrow> lg_OnTimer5s api s; Some (lg, s) }
      else if interval = TIMER_15S then lg_OnTimer15s api lg s
      else if interval = TIMER_5MIN
      then Some (OnCheckClearGmAuth lt timeOff now lg,
                 s\<lparr>cd_db := map_option (\<lambda>d. d\<lparr>dm_mysql := map_option ping (dm_mysql d)\<rparr>) (cd_db s)\<rparr>)
      else Some (lg, s))"

text \<open>\<open>HandlerInit\<close> reads the ini file, a function from sections and keys to texts.\<close>

type_synonym ini = "string \<Rightarrow> (string \<Rightarrow> string option) option"

definition StartDB :: "'c mysql_api \<Rightarrow> ini \<Rightarrow> 'c database_mysql \<Rightarrow> bool \<times> 'c database_mysql" where
  "StartDB api ini loginDatabase =
     (case ini ''other'' of
        None \<Rightarrow> (False, loginDatabase)
      | Some database \<Rightarrow>
          case database ''logindatabase'' of
            None \<Rightarrow> (False, loginDatabase)
          | Some dbstring \<Rightarrow> dm_Initialize api dbstring loginDatabase)"

definition MainThreadInitServer :: "(string \<Rightarrow> int option) \<Rightarrow> ini \<Rightarrow> uint8 \<Rightarrow> bool \<times> uint8" where
  "MainThreadInitServer read_int ini g_serverId =
     (case ini ''other'' of
        None \<Rightarrow> (False, g_serverId)
      | Some server \<Rightarrow>
          case Option.bind (server ''server_id'') read_int of
            None \<Rightarrow> (False, g_serverId)
          | Some server_id \<Rightarrow> (True, word_of_int server_id))"

definition HandlerInit_main ::
  "'c mysql_api \<Rightarrow> (string \<Rightarrow> int option) \<Rightarrow> ini \<Rightarrow> uint8 \<times> 'c database_mysql \<Rightarrow> bool \<times> uint8 \<times> 'c database_mysql" where
  "HandlerInit_main api read_int ini st =
     (let (g_serverId, loginDatabase) = st; (ok, g_serverId) = MainThreadInitServer read_int ini g_serverId in
      if \<not> ok then (False, g_serverId, loginDatabase)
      else let (ok, loginDatabase) = StartDB api ini loginDatabase in (ok, g_serverId, loginDatabase))"

definition HandlerInit_world ::
  "'c mysql_api \<Rightarrow> ddl_step list \<Rightarrow> 'c database_mysql option \<Rightarrow> uint8 \<Rightarrow> login_group \<Rightarrow> ('c, login_command, bool \<times> login_group) gm_fn" where
  "HandlerInit_world api ddl loginDatabase g_serverId lg s =
     do { ((_, lg), s) \<leftarrow> InitSettings api ddl loginDatabase g_serverId lg s; Some ((True, lg), s) }"

end
