(* ===== verification/Login_Safe.thy ===== *)
theory Login_Safe
  imports Login_Handler
begin

text \<open>
  What a client can get out of the login server: nothing that needs a login before one has succeeded,
  a code for every failed login, and an address only for a server that can be entered.
\<close>

section \<open>Packets that are written\<close>

lemma bb_append_opcode: "bb_append src p = Some p' \<Longrightarrow> wp_opcode p' = wp_opcode p"
  by (auto simp: bb_append_def Let_def split: if_splits)

lemma bb_append_data:
  assumes "bb_append src b = Some b'" "bb_wpos b \<le> length (bb_storage b)"
  shows "bb_data b' = bb_data b @ src \<and> bb_wpos b' \<le> length (bb_storage b')"
  using assms by (auto simp: bb_append_def bb_data_def Let_def overwrite_grown overwrite_def vec_resize_def split: if_splits)

definition pkt :: "uint32 \<Rightarrow> byte list \<Rightarrow> world_packet \<Rightarrow> bool" where
  "pkt opcode bs p \<longleftrightarrow> wp_opcode p = opcode \<and> bb_data p = bs \<and> bb_wpos p \<le> length (bb_storage p)"

lemma pkt_new [simp]: "pkt opcode [] (wp_opc opcode)"
  using wp_opc_simps [of opcode] by (simp add: pkt_def bb_wf_def bb_data_def)

lemma pkt_append: "bb_append src p = Some p' \<Longrightarrow> pkt opcode bs p \<Longrightarrow> pkt opcode (bs @ src) p'"
  by (auto simp: pkt_def dest: bb_append_opcode bb_append_data)

lemma le_enc_byte: "le_enc (Suc 0) (unat (c :: uint8)) = [c]"
  by simp

lemma pkt_put:
  "bb_put_u8 c p = Some p' \<Longrightarrow> pkt opcode bs p \<Longrightarrow> pkt opcode (bs @ [c]) p'"
  "bb_put_u16 w p = Some p' \<Longrightarrow> pkt opcode bs p \<Longrightarrow> pkt opcode (bs @ le_enc 2 (unat w)) p'"
  "bb_put_u32 d p = Some p' \<Longrightarrow> pkt opcode bs p \<Longrightarrow> pkt opcode (bs @ le_enc 4 (unat d)) p'"
  "bb_put_bool b p = Some p' \<Longrightarrow> pkt opcode bs p \<Longrightarrow> pkt opcode (bs @ le_enc 1 (if b then 1 else 0)) p'"
  "bb_put_str s p = Some p' \<Longrightarrow> pkt opcode bs p \<Longrightarrow> pkt opcode (bs @ str_bytes s @ [0]) p'"
  using pkt_append [of "[c]" p p' opcode bs]
  by (auto simp: bb_put_u8_def bb_put_u16_def bb_put_u32_def bb_put_bool_def bb_put_str_def le_enc_byte bind_eq_Some_conv
      simp del: le_enc.simps dest!: pkt_append) 

lemma bb_put_u8_fresh: "\<exists>p. bb_put_u8 c (wp_opc opcode) = Some p \<and> pkt opcode [c] p"
proof -
  have "bb_put_u8 c (wp_opc opcode) = Some (bb_extend (le_enc 1 (unat c)) (wp_opc opcode))"
    by (rule u8c.put_extend) (simp_all add: bb_room_def)
  then show ?thesis using pkt_put(1) [OF _ pkt_new] by fastforce
qed

lemma lh_code_pkt: "\<exists>p. lh_code opcode c ls = Some (ls_SendPacket p ls) \<and> pkt opcode [c] p"
  using bb_put_u8_fresh [of c opcode] by (auto simp: lh_code_def)

lemma lh_code_Some: "lh_code opcode c ls = Some ls' \<Longrightarrow> \<exists>p. ls' = ls_SendPacket p ls \<and> pkt opcode [c] p"
  using lh_code_pkt [of opcode c ls] by auto

section \<open>Nothing without a login\<close>

definition needs_login :: "login_cmds \<Rightarrow> world_packet \<Rightarrow> bool" where
  "needs_login cmds p \<longleftrightarrow> wp_opcode p \<in> {CMD_LOGIN_SC_SERVER_LIST cmds, CMD_LOGIN_SC_CHOOSE_RESULT cmds,
     CMD_LOGIN_SC_MODIFY_PWD_RESULT cmds}"

definition login_ok :: "login_cmds \<Rightarrow> world_packet \<Rightarrow> bool" where
  "login_ok cmds p \<longleftrightarrow> wp_opcode p = CMD_LOGIN_SC_LOGIN_RESULT cmds \<and> bb_data p = [0]"

definition reply_codes_differ :: "login_cmds \<Rightarrow> bool" where
  "reply_codes_differ cmds \<longleftrightarrow> distinct [CMD_LOGIN_SC_LOGIN_RESULT cmds, CMD_LOGIN_SC_REGISTER_RESULT cmds,
     CMD_LOGIN_SC_MODIFY_PWD_RESULT cmds, CMD_LOGIN_SC_SERVER_LIST cmds, CMD_LOGIN_SC_CHOOSE_RESULT cmds,
     CMD_LOGIN_SC_PASSPORT_EXIST cmds]"

text \<open>What one packet of a client may do to a session.\<close>

definition lh_step :: "login_cmds \<Rightarrow> login_session \<Rightarrow> login_session \<Rightarrow> bool" where
  "lh_step cmds ls ls' \<longleftrightarrow>
     ls_out ls' = ls_out ls \<and> ls_eUserStatus ls' = ls_eUserStatus ls \<and> ls_dwAccountId ls' = ls_dwAccountId ls
     \<or> (\<exists>p. ls_out ls' = ls_out ls @ [p] \<and>
         (ls_eUserStatus ls' = ls_eUserStatus ls \<and> ls_dwAccountId ls' = ls_dwAccountId ls \<or>
          login_ok cmds p \<and> ls_eUserStatus ls' = E_STATUS_AUTHED \<and> ls_dwAccountId ls' \<noteq> None) \<and>
         (needs_login cmds p \<longrightarrow> ls_eUserStatus ls = E_STATUS_AUTHED))"

lemma lh_step_same: "lh_step cmds ls ls"
  by (simp add: lh_step_def)

lemma lh_step_code:
  assumes "lh_code opcode c ls = Some ls'"
    and "opcode \<in> {CMD_LOGIN_SC_SERVER_LIST cmds, CMD_LOGIN_SC_CHOOSE_RESULT cmds, CMD_LOGIN_SC_MODIFY_PWD_RESULT cmds} \<Longrightarrow>
      ls_eUserStatus ls = E_STATUS_AUTHED"
  shows "lh_step cmds ls ls'"
  using lh_code_Some [OF assms(1)] assms(2) by (auto simp: lh_step_def ls_SendPacket_def pkt_def needs_login_def)

lemma lh_step_login_failed:
  "reply_codes_differ cmds \<Longrightarrow> SendLoginResult cmds c ls = Some ls' \<Longrightarrow> lh_step cmds ls ls'"
  by (rule lh_step_code) (auto simp: SendLoginResult_def reply_codes_differ_def)

lemma lh_step_login:
  assumes "lh_authed e pid dev plat ls s = Some (ls1, s1)" "reply_codes_differ (le_cmds e)"
    and "SendLoginResult (le_cmds e) (login_result_code E_LOGIN_RESULT_TYPE_OK) (f ls1) = Some ls'"
    and "\<And>l. ls_out (f l) = ls_out l \<and> ls_eUserStatus (f l) = ls_eUserStatus l \<and> ls_dwAccountId (f l) = ls_dwAccountId l"
  shows "lh_step (le_cmds e) ls ls'"
  using lh_code_Some [OF assms(3) [unfolded SendLoginResult_def]] assms(1,2,4)
  by (auto simp: lh_step_def lh_authed_def SetAccountId_def ls_SendPacket_def login_ok_def needs_login_def pkt_def
      reply_codes_differ_def bind_eq_Some_conv)

lemma lh_step_login_plain:
  "lh_authed e pid dev plat ls s = Some (ls1, s1) \<Longrightarrow> reply_codes_differ (le_cmds e) \<Longrightarrow>
   SendLoginResult (le_cmds e) 0 ls1 = Some ls' \<Longrightarrow> lh_step (le_cmds e) ls ls'"
  by (rule lh_step_login [where f = "\<lambda>l. l"]) simp_all

lemma lh_step_login_uid:
  "lh_authed e pid dev plat ls s = Some (ls1, s1) \<Longrightarrow> reply_codes_differ (le_cmds e) \<Longrightarrow>
   SendLoginResult (le_cmds e) 0 (ls1\<lparr>ls_strUid := u\<rparr>) = Some ls' \<Longrightarrow> lh_step (le_cmds e) ls ls'"
  by (rule lh_step_login [where f = "\<lambda>l. l\<lparr>ls_strUid := u\<rparr>"]) simp_all

lemma lh_step_register:
  "reply_codes_differ cmds \<Longrightarrow> SendRegisterResult cmds c ls = Some ls' \<Longrightarrow> lh_step cmds ls ls'"
  by (rule lh_step_code) (auto simp: SendRegisterResult_def reply_codes_differ_def)

lemma lh_step_exists:
  "reply_codes_differ cmds \<Longrightarrow> lh_code (CMD_LOGIN_SC_PASSPORT_EXIST cmds) c ls = Some ls' \<Longrightarrow> lh_step cmds ls ls'"
  by (rule lh_step_code) (auto simp: reply_codes_differ_def)

lemma lh_step_send:
  "ls_eUserStatus ls = E_STATUS_AUTHED \<Longrightarrow> ls_out ls' = ls_out ls @ [p] \<Longrightarrow> ls_eUserStatus ls' = ls_eUserStatus ls \<Longrightarrow>
   ls_dwAccountId ls' = ls_dwAccountId ls \<Longrightarrow> lh_step cmds ls ls'"
  by (simp add: lh_step_def)

lemmas lh_steps = lh_step_same lh_step_login_failed lh_step_login_plain lh_step_login_uid lh_step_register lh_step_exists

text \<open>The handlers.\<close>

lemma AccountLogin_step:
  assumes "HandlerAccountLogin api e packet ls s = Some (ls', s')" "reply_codes_differ (le_cmds e)"
  shows "lh_step (le_cmds e) ls ls'"
  using assms
  by (auto simp: HandlerAccountLogin_def elim!: bind_SomeE split: login_result.splits) (blast intro: lh_steps)+

lemma PlatformLogin_step:
  assumes "HandlerPlatformLogin api e packet ls s = Some (ls', s')" "reply_codes_differ (le_cmds e)"
  shows "lh_step (le_cmds e) ls ls'"
  using assms
  by (auto simp: HandlerPlatformLogin_def Let_def elim!: bind_SomeE split: if_splits) (blast intro: lh_steps)+

lemma FastLogin_step:
  assumes "HandlerFastLogin e packet ls s = Some (ls', s')" "reply_codes_differ (le_cmds e)"
  shows "lh_step (le_cmds e) ls ls'"
  using assms
  by (auto simp: HandlerFastLogin_def elim!: bind_SomeE split: if_splits) (blast intro: lh_steps)+

lemma Register_step:
  assumes "HandlerRegister e packet ls s = Some (ls', s')" "reply_codes_differ (le_cmds e)"
  shows "lh_step (le_cmds e) ls ls'"
  using assms
  by (auto simp: HandlerRegister_def elim!: bind_SomeE split: if_splits) (blast intro: lh_steps)+

lemma ExistPassport_step:
  assumes "HandlerExistPassport api e packet ls s = Some (ls', s')" "reply_codes_differ (le_cmds e)"
  shows "lh_step (le_cmds e) ls ls'"
  using assms
  by (auto simp: HandlerExistPassport_def elim!: bind_SomeE) (blast intro: lh_steps)+

text \<open>The guarded handlers answer a session that is authenticated.\<close>

lemma ModifyPwd_step:
  assumes "HandlerModifyPwd api e packet ls s = Some (ls', s')" "ls_eUserStatus ls = E_STATUS_AUTHED"
  shows "lh_step (le_cmds e) ls ls'"
  using assms
  by (auto simp: HandlerModifyPwd_def SendModifyPwdResult_def elim!: bind_SomeE) (blast intro: lh_step_code)+

lemma ChooseServer_step:
  assumes "HandlerChooseServer api e servers packet ls s = Some (ls', s')" "ls_eUserStatus ls = E_STATUS_AUTHED"
  shows "lh_step (le_cmds e) ls ls'"
  using assms by (auto simp: HandlerChooseServer_def Let_def lh_step_def ls_SendPacket_def elim!: bind_SomeE)

lemma GetServerList_step:
  assumes "HandlerGetServerList api e servers packet ls s = Some (ls', s')" "ls_eUserStatus ls = E_STATUS_AUTHED"
  shows "lh_step (le_cmds e) ls ls'"
  using assms
  by (auto simp: HandlerGetServerList_def Let_def lh_step_def ls_SendPacket_def elim!: bind_SomeE split: if_splits)

text \<open>The table: a number leads to one of the handlers, to a guarded one only if it is guarded.\<close>

lemma fold_set_cases:
  "map_of (fold (\<lambda>(k, f). omap_set k f) xs m) op = Some f \<Longrightarrow> omap_ok m \<Longrightarrow> (op, f) \<in> set xs \<or> map_of m op = Some f"
proof (induction xs arbitrary: m)
  case (Cons x xs)
  obtain k g where x: "x = (k, g)" by force
  with Cons.IH [of "omap_set k g m"] Cons.prems show ?case
    by (auto simp: omap_simps omap_ok_set split: if_splits)
qed simp

lemma Process_step:
  assumes "lh_Process api e servers packet ls s = Some (ls', s')" "reply_codes_differ (le_cmds e)"
  shows "lh_step (le_cmds e) ls ls'"
proof -
  let ?ls = "ls\<lparr>ls_bNoPacket := False\<rparr>" and ?op = "ucast (wp_opcode packet) :: uint16"
  have same: "lh_step (le_cmds e) ?ls ls' \<Longrightarrow> lh_step (le_cmds e) ls ls'" by (simp add: lh_step_def)
  consider "ls' = ?ls" | f where "map_of (lh_table api e servers) ?op = Some f" "f packet ?ls s = Some (ls', s')"
      "lh_guarded (le_cmds e) ?op \<longrightarrow> ls_eUserStatus ?ls = E_STATUS_AUTHED"
    using assms(1) by (auto simp: lh_Process_def Let_def split: if_splits option.splits)
  then show ?thesis
  proof cases
    case 1
    then show ?thesis by (simp add: lh_step_def)
  next
    case 2
    note f = 2(2)
    have "(?op, f) \<in> set [(CMD_LOGIN_CS_ACCOUNT_LOGIN (le_cmds e), HandlerAccountLogin api e), (CMD_LOGIN_CS_PLATFORM_LOGIN (le_cmds e), HandlerPlatformLogin api e),
         (CMD_LOGIN_CS_FAST_LOGIN (le_cmds e), HandlerFastLogin e), (CMD_LOGIN_CS_GET_SERVER (le_cmds e), HandlerGetServerList api e servers),
         (CMD_LOGIN_CS_CHOOSE_SERVER (le_cmds e), HandlerChooseServer api e servers), (CMD_LOGIN_CS_REGISTER (le_cmds e), HandlerRegister e),
         (CMD_LOGIN_CS_MODIFY_PWD (le_cmds e), HandlerModifyPwd api e), (CMD_LOGIN_CS_PASSPORT_EXIST (le_cmds e), HandlerExistPassport api e)]"
      using fold_set_cases [OF 2(1) [unfolded lh_table_def Let_def]] by simp
    then consider "f = HandlerAccountLogin api e" | "f = HandlerPlatformLogin api e" | "f = HandlerFastLogin e"
      | "f = HandlerGetServerList api e servers" "lh_guarded (le_cmds e) ?op"
      | "f = HandlerChooseServer api e servers" "lh_guarded (le_cmds e) ?op" | "f = HandlerRegister e"
      | "f = HandlerModifyPwd api e" "lh_guarded (le_cmds e) ?op" | "f = HandlerExistPassport api e"
      by (auto simp: lh_guarded_def)
    then show ?thesis
      by (rule same, cases) (use f 2(3) assms(2) in \<open>blast intro: AccountLogin_step PlatformLogin_step FastLogin_step
        Register_step ExistPassport_step ModifyPwd_step ChooseServer_step GetServerList_step\<close>)+
  qed
qed

section \<open>A connection\<close>

text \<open>The packets of a connection, each with the environment and the server list of its moment.\<close>

type_synonym ('c, 'z) lh_event = "('c, 'z) login_env \<times> server_map \<times> world_packet"

fun lh_run :: "'c mysql_api \<Rightarrow> ('c, 'z) lh_event list \<Rightarrow> ('c, 'z) lh_fn" where
  "lh_run api [] ls s = Some (ls, s)"
| "lh_run api ((e, servers, packet) # evs) ls s =
     do { (ls, s) \<leftarrow> lh_Process api e servers packet ls s; lh_run api evs ls s }"

definition answered_after_login :: "login_cmds \<Rightarrow> world_packet list \<Rightarrow> bool" where
  "answered_after_login cmds out \<longleftrightarrow>
     (\<forall>i < length out. needs_login cmds (out ! i) \<longrightarrow> (\<exists>j < i. login_ok cmds (out ! j)))"

definition session_inv :: "login_cmds \<Rightarrow> login_session \<Rightarrow> bool" where
  "session_inv cmds ls \<longleftrightarrow> answered_after_login cmds (ls_out ls) \<and>
     (ls_eUserStatus ls = E_STATUS_AUTHED \<longrightarrow> ls_dwAccountId ls \<noteq> None \<and> (\<exists>p \<in> set (ls_out ls). login_ok cmds p))"

lemma answered_append:
  assumes "answered_after_login cmds out" "needs_login cmds p \<Longrightarrow> \<exists>q \<in> set out. login_ok cmds q"
  shows "answered_after_login cmds (out @ [p])"
  unfolding answered_after_login_def
proof (intro allI impI)
  fix i assume i: "i < length (out @ [p])" "needs_login cmds ((out @ [p]) ! i)"
  show "\<exists>j < i. login_ok cmds ((out @ [p]) ! j)"
  proof (cases "i < length out")
    case True
    with assms(1) i obtain j where "j < i" "login_ok cmds (out ! j)" by (auto simp: answered_after_login_def nth_append)
    with True have "j < i \<and> login_ok cmds ((out @ [p]) ! j)" by (simp add: nth_append)
    then show ?thesis by blast
  next
    case False
    with i have "i = length out" by simp
    with i assms(2) obtain q where "q \<in> set out" "login_ok cmds q" by auto
    then obtain j where "j < length out" "login_ok cmds (out ! j)" by (auto simp: in_set_conv_nth)
    with \<open>i = length out\<close> have "j < i \<and> login_ok cmds ((out @ [p]) ! j)" by (simp add: nth_append)
    then show ?thesis by blast
  qed
qed

lemma session_inv_step: "lh_step cmds ls ls' \<Longrightarrow> session_inv cmds ls \<Longrightarrow> session_inv cmds ls'"
  unfolding lh_step_def
proof (elim disjE exE conjE, goal_cases)
  case (1)
  then show ?case by (simp add: session_inv_def)
next
  case (2 p)
  have "answered_after_login cmds (ls_out ls @ [p])"
    using 2 by (intro answered_append) (auto simp: session_inv_def)
  with 2 show ?case by (auto simp: session_inv_def)
next
  case (3 p)
  have "answered_after_login cmds (ls_out ls @ [p])"
    using 3 by (intro answered_append) (auto simp: session_inv_def)
  with 3 show ?case by (auto simp: session_inv_def)
qed

lemma session_inv_run:
  assumes "lh_run api evs ls s = Some (ls', s')" "list_all (\<lambda>(e, _). le_cmds e = cmds) evs" "reply_codes_differ cmds"
    and "session_inv cmds ls"
  shows "session_inv cmds ls'"
  using assms
proof (induction evs arbitrary: ls s)
  case (Cons ev evs)
  obtain e servers packet where ev: "ev = (e, servers, packet)" by (cases ev)
  from Cons.prems(1) ev obtain ls1 s1 where p: "lh_Process api e servers packet ls s = Some (ls1, s1)"
    and rest: "lh_run api evs ls1 s1 = Some (ls', s')" by (auto elim!: bind_SomeE)
  have "le_cmds e = cmds" using Cons.prems(2) ev by simp
  with Process_step [OF p] Cons.prems(3,4) have "session_inv cmds ls1" by (auto intro: session_inv_step)
  with Cons.IH [OF rest] Cons.prems(2,3) show ?case by simp
qed simp

text \<open>
  C38: on a connection to the login server, whatever packets the client sends, every server list,
  every answer to a choice of a server and every answer to a change of the password comes after an
  answer that a login has succeeded; a session counts as authenticated only after such an answer, and
  then has an account.
\<close>

theorem replies_need_login:
  assumes "lh_run api evs (SetstrIp ip ls_new) s = Some (ls', s')"
    and "list_all (\<lambda>(e, _). le_cmds e = cmds) evs" "reply_codes_differ cmds"
  shows "(\<forall>i < length (ls_out ls'). needs_login cmds (ls_out ls' ! i) \<longrightarrow> (\<exists>j < i. login_ok cmds (ls_out ls' ! j))) \<and>
    (ls_eUserStatus ls' = E_STATUS_AUTHED \<longrightarrow> ls_dwAccountId ls' \<noteq> None \<and> (\<exists>p \<in> set (ls_out ls'). login_ok cmds p))"
proof -
  have "session_inv cmds (SetstrIp ip ls_new)"
    by (simp add: session_inv_def answered_after_login_def SetstrIp_def ls_new_def)
  with session_inv_run [OF assms] show ?thesis by (simp add: session_inv_def answered_after_login_def)
qed

section \<open>Failed logins\<close>

definition account_sql :: string where
  "account_sql = ''select passport_id, pwd from passport_info where passport=%q and platform=%u and auth_type=%u''"

text \<open>
  C39: a login with an account name and a password, against the row the database has for the name. If
  there is none the answer is 1 (not found), if its password is another one 2 (wrong password), and
  nothing else of the session or of the database changes: a session that was not authenticated is not
  now.
\<close>

theorem account_login_errors:
  assumes "bb_get_str packet = Some (strAccount, p1)" "bb_get_str p1 = Some (strPwd, p2)" "bb_get_u16 p2 = Some (wPlatform, p3)"
    and "cd_escape api strAccount s = Some name"
    and "cd_PQuery api account_sql [QS name, QU (ucast wPlatform :: uint32), QU E_LOGIN_AUTH_TYPE_ACCOUNT] s = Some (r, s1)"
    and "case r of None \<Rightarrow> code = 1
      | Some q \<Rightarrow> code = 2 \<and> (\<exists>pid pwd. row_get fd_GetUInt64 0 q = Some pid \<and> row_get fd_GetString 1 q = Some pwd \<and> pwd \<noteq> strPwd)"
  shows "\<exists>p. HandlerAccountLogin api e packet ls s = Some (ls\<lparr>ls_out := ls_out ls @ [p]\<rparr>, s1) \<and>
    wp_opcode p = CMD_LOGIN_SC_LOGIN_RESULT (le_cmds e) \<and> bb_data p = [code]"
proof -
  obtain res where v: "ValidateAuthAccount api strAccount strPwd (ucast wPlatform) 0 s = Some ((res, 0), s1)"
    and res: "res = E_LOGIN_RESULT_TYPE_NOT_FOUND \<or> res = E_LOGIN_RESULT_TYPE_WRONG_PWD" "login_result_code res = code"
    using assms(4-6) by (cases r) (auto simp: ValidateAuthAccount_def account_sql_def)
  obtain p where p: "lh_code (CMD_LOGIN_SC_LOGIN_RESULT (le_cmds e)) code ls = Some (ls_SendPacket p ls)"
      "pkt (CMD_LOGIN_SC_LOGIN_RESULT (le_cmds e)) [code] p"
    using lh_code_pkt by blast
  with res v assms(1-3) have "HandlerAccountLogin api e packet ls s = Some (ls_SendPacket p ls, s1)"
    by (auto simp: HandlerAccountLogin_def SendLoginResult_def)
  with p(2) show ?thesis by (auto simp: ls_SendPacket_def pkt_def)
qed

section \<open>The choice of a server\<close>

definition can_enter :: "server_status option \<Rightarrow> bool" where
  "can_enter st \<longleftrightarrow> (\<exists>x. st = Some x \<and> ss_byCanLogin x \<noteq> 0 \<and> ss_bIsAlive x)"

text \<open>The bytes of an address: the server, the role, and where the resources are.\<close>

definition address_bytes :: "('c, 'z) login_env \<Rightarrow> server_status \<Rightarrow> uint32 \<Rightarrow> byte list" where
  "address_bytes e st role =
     (str_bytes (ss_strIp st) @ [0]) @ le_enc 4 (unat (ss_dwPort st)) @ le_enc 4 (unat role) @
     (str_bytes (ss_strResServerAddr st) @ [0]) @ str_bytes (le_strResVersionFull e st) @ [0]"

text \<open>The account has, or gets, a role on the server, and the role is not forbidden.\<close>

definition may_play ::
  "'c mysql_api \<Rightarrow> ('c, 'z) login_env \<Rightarrow> uint16 \<Rightarrow> server_status \<Rightarrow> login_session \<Rightarrow> ('c, 'z) center_db_scheme \<Rightarrow> uint32 \<Rightarrow> bool" where
  "may_play api e wServerId st ls s role \<longleftrightarrow>
     (\<exists>account s1 s2. ls_dwAccountId ls = Some account \<and>
        le_GetOrInsertRoleId e account (ucast wServerId) (le_dwCanRegister e st) s = Some ((0, role), s1) \<and>
        IsRoleForbid api role s1 = Some (False, s2))"

text \<open>The answer to the search for the role: its first value, or what its second one is with the role's flag.\<close>

definition role_answer ::
  "'c mysql_api \<Rightarrow> ('c, 'z) login_env \<Rightarrow> uint16 \<Rightarrow> server_status \<Rightarrow> login_session \<Rightarrow> ('c, 'z) center_db_scheme \<Rightarrow> uint8 \<Rightarrow> bool" where
  "role_answer api e wServerId st ls s code \<longleftrightarrow>
     (\<exists>account ret role s1. ls_dwAccountId ls = Some account \<and>
        le_GetOrInsertRoleId e account (ucast wServerId) (le_dwCanRegister e st) s = Some ((ret, role), s1) \<and>
        code = (if ret = 0 then if (\<exists>s2. IsRoleForbid api role s1 = Some (True, s2)) then 3 else 0 else if ret = 1 then 5 else 4))"

text \<open>The address a client of the wrong version gets: the version of the server and the notice of its platform.\<close>

definition update_bytes ::
  "'c mysql_api \<Rightarrow> server_status \<Rightarrow> login_session \<Rightarrow> ('c, 'z) center_db_scheme \<Rightarrow> byte list \<Rightarrow> bool" where
  "update_bytes api st ls s bs \<longleftrightarrow>
     (\<exists>platform addr s1. ls_wPlatformId ls = Some platform \<and>
        GetNotice api E_NOTICE_USE_TYPE_UPDATE_ADDR E_NOTICE_CONDITION_TYPE_PLATFORM (ucast platform) s = Some (addr, s1) \<and>
        bs = (str_bytes (ss_strVersion st) @ [0]) @ str_bytes addr @ [0])"

lemma choose_role_answer:
  assumes "choose_role api e wServerId st ls pck s = Some (p, s')" "pkt opcode [] pck"
  shows "\<exists>code rest. pkt opcode (code # rest) p \<and> code \<in> {0, 3, 4, 5} \<and>
    role_answer api e wServerId st ls s code \<and> (code \<noteq> 0 \<longrightarrow> rest = []) \<and>
    (code = 0 \<longleftrightarrow> (\<exists>role. may_play api e wServerId st ls s role)) \<and>
    (code = 0 \<longrightarrow> (\<exists>role. may_play api e wServerId st ls s role \<and> rest = address_bytes e st role))"
proof -
  from assms(1) obtain account ret role s1 where a: "ls_dwAccountId ls = Some account"
    and g: "le_GetOrInsertRoleId e account (ucast wServerId) (le_dwCanRegister e st) s = Some ((ret, role), s1)"
    by (auto simp: choose_role_def elim!: bind_SomeE)
  show ?thesis
  proof (cases "ret = 0")
    case False
    with assms a g obtain code where "bb_put_u8 code pck = Some p" "code = (if ret = 1 then 5 else 4)"
      by (auto simp: choose_role_def E_CHOOSE_SERVER_RESULT_ERROR_def E_CHOOSE_SERVER_RESULT_NEW_ACCOUNT_FORBID_def
          elim!: bind_SomeE split: if_splits)
    with pkt_put(1) [OF this(1) assms(2)] False a g show ?thesis
      by (intro exI [of _ code] exI [of _ "[]"]) (auto simp: may_play_def role_answer_def)
  next
    case True
    with assms(1) a g obtain forbid s2 where f: "IsRoleForbid api role s1 = Some (forbid, s2)"
      by (auto simp: choose_role_def elim!: bind_SomeE)
    show ?thesis
    proof (cases forbid)
      case forbidden: True
      with assms a g f True have "bb_put_u8 3 pck = Some p"
        by (auto simp: choose_role_def E_CHOOSE_SERVER_RESULT_FORBID_def elim!: bind_SomeE)
      from pkt_put(1) [OF this assms(2)] a g f True forbidden show ?thesis
        by (intro exI [of _ 3] exI [of _ "[]"]) (simp add: may_play_def role_answer_def)
    next
      case False
      with assms(1) a g f True obtain b1 b2 b3 b4 b5 where b: "bb_put_u8 0 pck = Some b1" "bb_put_str (ss_strIp st) b1 = Some b2"
        "bb_put_u32 (ss_dwPort st) b2 = Some b3" "bb_put_u32 role b3 = Some b4"
        "bb_put_str (ss_strResServerAddr st) b4 = Some b5" "bb_put_str (le_strResVersionFull e st) b5 = Some p"
        by (auto simp: choose_role_def E_CHOOSE_SERVER_RESULT_OK_def elim!: bind_SomeE)
      have "pkt opcode (0 # address_bytes e st role) p"
        using pkt_put(5) [OF b(6) pkt_put(5) [OF b(5) pkt_put(3) [OF b(4) pkt_put(3) [OF b(3) pkt_put(5) [OF b(2) pkt_put(1) [OF b(1) assms(2)]]]]]]
        by (simp add: address_bytes_def del: le_enc.simps)
      moreover have "may_play api e wServerId st ls s role" "role_answer api e wServerId st ls s 0"
        using a g f True False by (simp_all add: may_play_def role_answer_def)
      ultimately show ?thesis by (intro exI [of _ 0] exI [of _ "address_bytes e st role"]) auto
    qed
  qed
qed

text \<open>
  C40: the answer to the choice of a server. It is one packet, and its first byte says: 1, exactly when
  the server the choice leads to after merges is not known, not alive or closed; 2, exactly when it can
  be entered and the version the client has told does not fit; otherwise what the search for the role
  says: 0, exactly when the account has a role there that is not forbidden, 3 for a forbidden role, 5 when
  no new account is taken, 4 for any other failure. After a 0, and only then, it holds the address of the
  server and the id of the role; after a 2 the version of the server and the address for updates of the
  client's platform; after any other code nothing.
\<close>

theorem choose_server_answer:
  assumes "HandlerChooseServer api e servers packet ls s = Some (ls', s')" "bb_get_u16 packet = Some (wServerId, p1)"
    and "GetServerIdMerged api (ucast wServerId) s = Some (merged, s1)"
    and "st = map_of servers (ucast (ucast merged :: uint16))"
  shows "\<exists>p code rest. ls' = ls\<lparr>ls_out := ls_out ls @ [p]\<rparr> \<and> wp_opcode p = CMD_LOGIN_SC_CHOOSE_RESULT (le_cmds e) \<and>
    bb_data p = code # rest \<and> code \<in> {0, 1, 2, 3, 4, 5} \<and>
    (code = 1 \<longleftrightarrow> \<not> can_enter st) \<and>
    (code = 2 \<longleftrightarrow> can_enter st \<and> \<not> version_ok (ls_strClientSvnVersion ls) (ss_strVersion (the st))) \<and>
    (code = 0 \<longleftrightarrow> can_enter st \<and> version_ok (ls_strClientSvnVersion ls) (ss_strVersion (the st)) \<and>
       (\<exists>role. may_play api e wServerId (the st) ls s1 role)) \<and>
    (code \<in> {0, 3, 4, 5} \<longrightarrow> role_answer api e wServerId (the st) ls s1 code) \<and>
    (code = 0 \<longrightarrow> (\<exists>role. may_play api e wServerId (the st) ls s1 role \<and> rest = address_bytes e (the st) role)) \<and>
    (code = 2 \<longrightarrow> update_bytes api (the st) ls s1 rest) \<and>
    (code \<in> {1, 3, 4, 5} \<longrightarrow> rest = [])"
proof -
  let ?op = "CMD_LOGIN_SC_CHOOSE_RESULT (le_cmds e)"
  define ans where "ans = (\<lambda>code rest. code \<in> {0, 1, 2, 3, 4, 5} \<and>
    (code = 1 \<longleftrightarrow> \<not> can_enter st) \<and>
    (code = 2 \<longleftrightarrow> can_enter st \<and> \<not> version_ok (ls_strClientSvnVersion ls) (ss_strVersion (the st))) \<and>
    (code = 0 \<longleftrightarrow> can_enter st \<and> version_ok (ls_strClientSvnVersion ls) (ss_strVersion (the st)) \<and>
       (\<exists>role. may_play api e wServerId (the st) ls s1 role)) \<and>
    ((code :: uint8) \<in> {0, 3, 4, 5} \<longrightarrow> role_answer api e wServerId (the st) ls s1 code) \<and>
    (code = 0 \<longrightarrow> (\<exists>role. may_play api e wServerId (the st) ls s1 role \<and> rest = address_bytes e (the st) role)) \<and>
    (code = 2 \<longrightarrow> update_bytes api (the st) ls s1 rest) \<and>
    (code \<in> {1, 3, 4, 5} \<longrightarrow> rest = []))"
  have sent: ?thesis if "ls' = ls_SendPacket p ls" "pkt ?op (code # rest) p" "ans code rest" for p code rest
    using that unfolding ans_def pkt_def ls_SendPacket_def
    by (intro exI [of _ p] exI [of _ code] exI [of _ rest]) (elim conjE, intro conjI; assumption)
  show ?thesis
  proof (cases "can_enter st")
    case False
    with assms obtain p where p: "ls' = ls_SendPacket p ls" "bb_put_u8 1 (wp_opc ?op) = Some p"
      by (auto simp: HandlerChooseServer_def can_enter_def Let_def E_CHOOSE_SERVER_RESULT_NOT_FOUND_def elim!: bind_SomeE
          split: option.splits if_splits)
    have "ans 1 []" using False by (simp add: ans_def)
    with sent [OF p(1)] pkt_put(1) [OF p(2) pkt_new] show ?thesis by simp
  next
    case True
    then obtain x where x: "st = Some x" "ss_byCanLogin x \<noteq> 0" "ss_bIsAlive x" by (auto simp: can_enter_def)
    with assms(4) have m: "map_of servers (ucast (ucast merged :: uint16)) = Some x" by simp
    show ?thesis
    proof (cases "version_ok (ls_strClientSvnVersion ls) (ss_strVersion x)")
      case False
      with assms(1-3) m x(2,3) obtain p b1 b2 platform addr s2 where b: "ls' = ls_SendPacket p ls" "bb_put_u8 2 (wp_opc ?op) = Some b1"
        "bb_put_str (ss_strVersion x) b1 = Some b2" "bb_put_str addr b2 = Some p"
        "ls_wPlatformId ls = Some platform"
        "GetNotice api E_NOTICE_USE_TYPE_UPDATE_ADDR E_NOTICE_CONDITION_TYPE_PLATFORM (ucast platform) s1 = Some (addr, s2)"
        by (auto simp: HandlerChooseServer_def Let_def E_CHOOSE_SERVER_RESULT_VERSION_def elim!: bind_SomeE)
      have "ans 2 ((str_bytes (ss_strVersion x) @ [0]) @ str_bytes addr @ [0])"
        using True False x(1) b(5,6) by (auto simp: ans_def update_bytes_def)
      with sent [OF b(1)] pkt_put(5) [OF b(4) pkt_put(5) [OF b(3) pkt_put(1) [OF b(2) pkt_new]]] show ?thesis by simp
    next
      case ok: True
      with assms(1-3) m x(2,3) obtain p s2 where l: "ls' = ls_SendPacket p ls"
        and c: "choose_role api e wServerId x ls (wp_opc ?op) s1 = Some (p, s2)"
        by (auto simp: HandlerChooseServer_def Let_def elim!: bind_SomeE)
      from choose_role_answer [OF c pkt_new] obtain code rest where a: "pkt ?op (code # rest) p" "code \<in> {0, 3, 4, 5}"
        "role_answer api e wServerId x ls s1 code" "code \<noteq> 0 \<longrightarrow> rest = []"
        "code = 0 \<longleftrightarrow> (\<exists>role. may_play api e wServerId x ls s1 role)"
        "code = 0 \<longrightarrow> (\<exists>role. may_play api e wServerId x ls s1 role \<and> rest = address_bytes e x role)" by blast
      then have "code \<noteq> 1" "code \<noteq> 2" by auto
      with a True ok x(1) have "ans code rest" by (auto simp: ans_def)
      with sent [OF l a(1)] show ?thesis by simp
    qed
  qed
qed

section \<open>The two copies of \<open>CheckIp\<close>\<close>

lemma lh_ip_loop_all: "length ts = length ps \<Longrightarrow> lh_ip_loop ts ps = list_all2 ip_part_ok ts ps"
proof (induction ts ps rule: list_induct2)
  case (Cons t ts p ps)
  show ?case by (simp add: ip_part_ok_def Let_def Cons.IH)
qed simp

text \<open>The copy of the login server and that of \<^verbatim>\<open>CenterDBCtrl\<close> accept the same addresses.\<close>

lemma check_ip_copies_agree: "lh_CheckIp strIp strPattern = CheckIp strIp strPattern"
  by (simp add: lh_CheckIp_def CheckIp_def Let_def lh_ip_loop_all)

section \<open>Examples\<close>

text \<open>A database that knows one account, and a client that logs in and chooses the one server there is.\<close>

definition login_demo_api :: "unit mysql_api" where
  "login_demo_api =
     \<lparr>my_query = (\<lambda>sql c. (if take 19 sql = ''select passport_id,'' then My_Rows [253, 253] [[Some ''7'', Some ''pw'']]
                          else if take 6 sql = ''select'' then My_Rows [] [] else My_Done 1, c)),
      my_connect = (\<lambda>_ _ _ _ _ _. None), my_escape = (\<lambda>s. s)\<rparr>"

definition login_demo_cmds :: login_cmds where
  "login_demo_cmds =
     \<lparr>CMD_LOGIN_CS_ACCOUNT_LOGIN = 1, CMD_LOGIN_CS_PLATFORM_LOGIN = 2, CMD_LOGIN_CS_FAST_LOGIN = 3, CMD_LOGIN_CS_GET_SERVER = 4,
      CMD_LOGIN_CS_CHOOSE_SERVER = 5, CMD_LOGIN_CS_REGISTER = 6, CMD_LOGIN_CS_MODIFY_PWD = 7, CMD_LOGIN_CS_PASSPORT_EXIST = 8,
      CMD_LOGIN_SC_LOGIN_RESULT = 101, CMD_LOGIN_SC_REGISTER_RESULT = 102, CMD_LOGIN_SC_MODIFY_PWD_RESULT = 103,
      CMD_LOGIN_SC_SERVER_LIST = 104, CMD_LOGIN_SC_CHOOSE_RESULT = 105, CMD_LOGIN_SC_PASSPORT_EXIST = 106\<rparr>"

definition login_demo_env :: "(unit, unit) login_env" where
  "login_demo_env =
     \<lparr>le_cmds = login_demo_cmds, le_time = (\<lambda>i. 1000), le_mktime = (\<lambda>t. 0),
      le_GetDevice = (\<lambda>a s. Some (''ios'', s)), le_GetPassportRegTime = (\<lambda>a s. Some (5, s)),
      le_GetPassportInfo = (\<lambda>a s. Some (Some (1, [], 0), s)), le_GetNoticeTimeRange = (\<lambda>u c v r s. Some (r, s)),
      le_GetLastLoginServer = (\<lambda>a s. Some (3, s)), le_GetOrInsertRoleId = (\<lambda>a i c s. Some ((0, 77), s)),
      le_ValidateAuthFast = (\<lambda>a b c d e f g h i p s. Some ((E_LOGIN_RESULT_ERROR, p), s)),
      le_RegisterPassport = (\<lambda>a b c d e f g h i j k s. Some (False, s)), le_dwCanRegister = (\<lambda>st. 1),
      le_strResVersionFull = (\<lambda>st. ''9''), E_SERVER_STATUS_INTERNAL = 9, E_NOTICE_USE_TYPE_LOGIN_TIME_RANGE = 8,
      E_LOGIN_STRATEGY_TYPE_SVN_VERSION = 7, E_LOGIN_STRATEGY_TYPE_SVN_VERSION_BLACK_LIST = 9,
      E_LOGIN_STRATEGY_TYPE_DEVICE_NUMBER = 10\<rparr>"

definition login_demo_db :: "unit center_db" where
  "login_demo_db =
     \<lparr>cd_db = Some (dm_new\<lparr>dm_mysql := Some ()\<rparr>), cd_byLoginServerId = 1, cd_maxPassportAutoInc = 0, cd_maxRoleAutoInc = 0,
      cd_bReadOnly = False\<rparr>"

definition login_demo_server :: server_status where
  "login_demo_server =
     \<lparr>ss_dwServerId = 3, ss_strServerName = ''A'', ss_strIp = ''h'', ss_strLocalIp = [], ss_dwPort = 80, ss_strVersion = ''1.2.3'',
      ss_strClientVer = [], ss_strClientResVer = [], ss_strResVer = [], ss_strResServerAddr = ''r'', ss_dwOnlineNum = 0,
      ss_byCanLogin = 1, ss_byStatus = 0, ss_dwLoginStrategy = 0, ss_dwLastUpdateTime = 0, ss_bIsAlive = True, ss_bIsTest = False,
      ss_byActivateReq = 0, ss_byServerIdentify = 0, ss_strDbName = []\<rparr>"

definition wire :: "uint32 \<Rightarrow> byte list \<Rightarrow> world_packet" where
  "wire opcode bs = bb_extend bs (wp_opc opcode)"

lemma wire_wf: "length bs \<le> 1000 \<Longrightarrow> bb_wf (wire opcode bs)"
  unfolding wire_def by (rule bb_extend_wf) (simp_all add: bb_room_def)

lemma wire_simps [simp]: "wp_opcode (wire opcode bs) = opcode" "bb_data (wire opcode bs) = bs" "bb_unread (wire opcode bs) = bs"
  using pkt_new [of opcode] bb_extend_data [of "wp_opc opcode" bs]
  by (simp_all add: wire_def bb_unread_def pkt_def)

lemma wire_new: "bb_append bs (wp_opc opcode) = Some (wire opcode bs)" if "length bs \<le> 1000"
  unfolding wire_def by (rule bb_append_extend) (use that in \<open>simp_all add: bb_room_def\<close>)

lemma wire_append: "length bs + length xs \<le> 1000 \<Longrightarrow> bb_append xs (wire opcode bs) = Some (wire opcode (bs @ xs))"
  using wire_wf [of bs opcode] bb_append_extend [of "wire opcode bs" xs] bb_extend_append [of "wp_opc opcode" bs xs]
  by (simp add: bb_room_def wire_def)

lemma wire_str:
  assumes "length (pre @ str_bytes x @ 0 # r) \<le> 1000" "CHR 0x00 \<notin> set x"
  shows "bb_get_str (bb_skip (length pre) (wire opcode (pre @ str_bytes x @ 0 # r))) =
    Some (x, bb_skip (length (pre @ str_bytes x @ [0])) (wire opcode (pre @ str_bytes x @ 0 # r)))"
proof -
  let ?b = "bb_skip (length pre) (wire opcode (pre @ str_bytes x @ 0 # r))"
  have "bb_get_str ?b = Some (x, bb_skip (length (str_bytes x @ [0])) ?b)"
    using assms wire_wf [OF assms(1), of opcode] by (intro strc.get_skip [where r = r]) (simp_all add: bb_skip_unread bb_skip_wf)
  then show ?thesis by (simp add: add.assoc)
qed

lemma wire_u16:
  assumes "length (pre @ le_enc 2 (unat (w :: uint16)) @ r) \<le> 1000"
  shows "bb_get_u16 (bb_skip (length pre) (wire opcode (pre @ le_enc 2 (unat w) @ r))) =
    Some (w, bb_skip (length pre + 2) (wire opcode (pre @ le_enc 2 (unat w) @ r)))"
proof -
  let ?b = "bb_skip (length pre) (wire opcode (pre @ le_enc 2 (unat w) @ r))"
  have "bb_get_u16 ?b = Some (w, bb_skip (length (le_enc 2 (unat w))) ?b)"
    using assms wire_wf [OF assms(1), of opcode] by (intro u16c.get_skip [where r = r]) (simp_all add: bb_skip_unread bb_skip_wf del: le_enc.simps)
  then show ?thesis by (simp del: le_enc.simps)
qed

text \<open>The name \<open>ann\<close> with a password; the server 3.\<close>

definition login_packet :: "string \<Rightarrow> world_packet" where
  "login_packet pwd = wire 1 (str_bytes ''ann'' @ 0 # str_bytes pwd @ 0 # le_enc 2 (unat (1 :: uint16)))"

definition choose_packet :: world_packet where
  "choose_packet = wire 5 (le_enc 2 (unat (3 :: uint16)) @ str_bytes [] @ [0])"

lemma login_packet_reads:
  assumes "length pwd \<le> 100" "CHR 0x00 \<notin> set pwd"
  shows "\<exists>p1 p2 p3. bb_get_str (login_packet pwd) = Some (''ann'', p1) \<and> bb_get_str p1 = Some (pwd, p2) \<and> bb_get_u16 p2 = Some (1, p3)"
proof -
  have n: "length (str_bytes ''ann'') = 3" "length (str_bytes pwd) \<le> 100" using assms(1) by simp_all
  have "bb_get_str (login_packet pwd) = Some (''ann'', bb_skip (length (str_bytes ''ann'' @ [0])) (login_packet pwd))"
    using wire_str [of "[]" "''ann''" "str_bytes pwd @ 0 # le_enc 2 (unat (1 :: uint16))" 1] n
    by (simp add: login_packet_def del: le_enc.simps)
  moreover have "bb_get_str (bb_skip (length (str_bytes ''ann'' @ [0])) (login_packet pwd)) =
      Some (pwd, bb_skip (length (str_bytes ''ann'' @ 0 # str_bytes pwd @ [0])) (login_packet pwd))"
    using wire_str [of "str_bytes ''ann'' @ [0]" pwd "le_enc 2 (unat (1 :: uint16))" 1] n assms(2)
    by (simp add: login_packet_def del: le_enc.simps)
  moreover have "bb_get_u16 (bb_skip (length (str_bytes ''ann'' @ 0 # str_bytes pwd @ [0])) (login_packet pwd)) =
      Some (1, bb_skip (length (str_bytes ''ann'' @ 0 # str_bytes pwd @ [0]) + 2) (login_packet pwd))"
    using wire_u16 [of "str_bytes ''ann'' @ 0 # str_bytes pwd @ [0]" 1 "[]" 1] n
    by (simp add: login_packet_def del: le_enc.simps)
  ultimately show ?thesis by blast
qed

lemma choose_packet_reads: "\<exists>p1 p2. bb_get_u16 choose_packet = Some (3, p1) \<and> bb_get_str p1 = Some ([], p2)"
proof -
  have "bb_get_u16 choose_packet = Some (3, bb_skip (Suc (Suc 0)) choose_packet)"
    using wire_u16 [of "[]" 3 "[0]" 5] by (simp add: choose_packet_def str_bytes_def numeral_2_eq_2 del: le_enc.simps)
  moreover have "bb_get_str (bb_skip (Suc (Suc 0)) choose_packet) = Some ([], bb_skip (Suc (Suc (Suc 0))) choose_packet)"
    using wire_str [of "le_enc 2 (unat (3 :: uint16))" "[]" "[]" 5]
    by (simp add: choose_packet_def str_bytes_def numeral_2_eq_2 numeral_3_eq_3 del: le_enc.simps)
  ultimately show ?thesis by blast
qed

text \<open>What the database answers.\<close>

definition demo_row :: query_result where
  "demo_row = snd (qr_NextRow (qr_new [253, 253] [[Some ''7'', Some ''pw'']]))"

lemma demo_c_str: "c_str ''7'' = ''7''" "c_str ''pw'' = ''pw''"
  by code_simp+

lemma demo_row_fields: "row_get fd_GetUInt64 0 demo_row = Some 7" "row_get fd_GetString 1 demo_row = Some ''pw''"
  using demo_c_str
  by (simp_all add: demo_row_def row_get_def qr_field_def qr_NextRow_def qr_new_def fd_load_def fd_SetValue_def fd_SetLength_def
      ConvertNativeType_def fd_GetUInt64_def fd_GetString_def fd_cstring_def c_strtoull_def Let_def c_isspace_def dec_val_def is_digit_def)

lemma demo_account:
  "cd_PQuery login_demo_api account_sql [QS ''ann'', QU (1 :: uint32), QU E_LOGIN_AUTH_TYPE_ACCOUNT] login_demo_db =
   Some (Some demo_row, login_demo_db)"
  by code_simp

lemma demo_escape: "cd_escape login_demo_api ''ann'' login_demo_db = Some ''ann''"
  by code_simp

lemma demo_validate:
  "ValidateAuthAccount login_demo_api ''ann'' ''pw'' 1 0 login_demo_db = Some ((E_LOGIN_RESULT_TYPE_OK, 7), login_demo_db)"
  using demo_account demo_escape demo_row_fields by (simp add: ValidateAuthAccount_def account_sql_def)

lemma demo_no_merge:
  "cd_PQuery login_demo_api ''select server_id_merged from gameserver_merge_log where server_id_origin = %u'' [QU (3 :: uint32)]
     login_demo_db = Some (None, login_demo_db)"
  by code_simp

lemma demo_merged: "GetServerIdMerged login_demo_api 3 login_demo_db = Some (3, login_demo_db)"
  using demo_no_merge by (simp add: GetServerIdMerged_def merged_loop.simps)

lemma demo_forbid: "IsRoleForbid login_demo_api 77 login_demo_db = Some (False, login_demo_db)"
  by code_simp

lemma demo_last: "SetLastLoginServer login_demo_api 7 3 login_demo_db = Some (True, login_demo_db)"
  by code_simp

lemma demo_token: "CreateLoginToken login_demo_api 7 ''1.2.3.4'' False login_demo_db = Some ((), login_demo_db)"
  by code_simp

lemma demo_version: "version_ok [] ''1.2.3''"
  by code_simp

text \<open>The two packets, and what the theorems make of them.\<close>

lemma demo_env_cmds: "le_cmds login_demo_env = login_demo_cmds"
  by (simp add: login_demo_env_def)

lemma demo_table:
  "map_of (lh_table login_demo_api login_demo_env servers) 1 = Some (HandlerAccountLogin login_demo_api login_demo_env)"
  "map_of (lh_table login_demo_api login_demo_env servers) 5 = Some (HandlerChooseServer login_demo_api login_demo_env servers)"
  by (simp_all add: lh_table_def Let_def demo_env_cmds login_demo_cmds_def)

lemma demo_login:
  assumes "ls_eUserStatus ls = E_STATUS_CONNECTED"
  shows "\<exists>ls' p. lh_Process login_demo_api login_demo_env servers (login_packet ''pw'') ls login_demo_db = Some (ls', login_demo_db) \<and>
    ls_out ls' = ls_out ls @ [p] \<and> ls_eUserStatus ls' = E_STATUS_AUTHED \<and> ls_dwAccountId ls' = Some 7 \<and>
    ls_strClientSvnVersion ls' = ls_strClientSvnVersion ls \<and> ls_strIp ls' = ls_strIp ls"
proof -
  obtain p1 p2 p3 where r: "bb_get_str (login_packet ''pw'') = Some (''ann'', p1)" "bb_get_str p1 = Some (''pw'', p2)"
    "bb_get_u16 p2 = Some (1, p3)" using login_packet_reads [of "''pw''"] by auto
  have o: "wp_opcode (login_packet ''pw'') = 1" by (simp add: login_packet_def)
  let ?ls = "(SetAccountId 7 (ls\<lparr>ls_bNoPacket := False\<rparr>))\<lparr>ls_strDevice := ''ios'', ls_wPlatformId := Some 1, ls_dwRegTime := Some 5\<rparr>"
  obtain p where p: "lh_code 101 0 ?ls = Some (ls_SendPacket p ?ls)" using lh_code_pkt by blast
  have "HandlerAccountLogin login_demo_api login_demo_env (login_packet ''pw'') (ls\<lparr>ls_bNoPacket := False\<rparr>) login_demo_db =
      Some (ls_SendPacket p ?ls, login_demo_db)"
    using r p demo_validate
    by (simp add: HandlerAccountLogin_def lh_authed_def SendLoginResult_def login_demo_env_def login_demo_cmds_def)
  then have "lh_Process login_demo_api login_demo_env servers (login_packet ''pw'') ls login_demo_db =
      Some (ls_SendPacket p ?ls, login_demo_db)"
    using demo_table(1) o assms by (simp add: lh_Process_def lh_guarded_def demo_env_cmds login_demo_cmds_def)
  then show ?thesis by (simp add: ls_SendPacket_def SetAccountId_def)
qed

lemma demo_choose:
  assumes "ls_dwAccountId ls = Some 7" "ls_strClientSvnVersion ls = []" "ls_strIp ls = ''1.2.3.4''"
  shows "\<exists>p. HandlerChooseServer login_demo_api login_demo_env [(3, login_demo_server)] choose_packet ls login_demo_db =
    Some (ls_SendPacket p ls, login_demo_db) \<and> wp_opcode p = 105"
proof -
  obtain p1 p2 where r: "bb_get_u16 choose_packet = Some (3, p1)" "bb_get_str p1 = Some ([], p2)" using choose_packet_reads by blast
  have "\<exists>p. choose_role login_demo_api login_demo_env 3 login_demo_server ls (wp_opc 105) login_demo_db = Some (p, login_demo_db) \<and>
      wp_opcode p = 105"
    using assms demo_forbid demo_last demo_token
    by (simp add: choose_role_def login_demo_env_def login_demo_server_def bb_put_u8_def bb_put_str_def bb_put_u32_def str_bytes_def
        wire_new wire_append length_le_enc del: le_enc.simps)
  with r assms demo_merged demo_version show ?thesis
    by (auto simp: HandlerChooseServer_def Let_def login_demo_env_def login_demo_cmds_def login_demo_server_def)
qed

theorem replies_need_login_witness:
  "\<exists>ls. lh_run login_demo_api [(login_demo_env, [], login_packet ''pw''), (login_demo_env, [(3, login_demo_server)], choose_packet)]
      (SetstrIp ''1.2.3.4'' ls_new) login_demo_db = Some (ls, login_demo_db) \<and>
    needs_login login_demo_cmds (ls_out ls ! 1) \<and> login_ok login_demo_cmds (ls_out ls ! 0)"
proof -
  let ?ls0 = "SetstrIp ''1.2.3.4'' ls_new"
  have ls0: "ls_eUserStatus ?ls0 = E_STATUS_CONNECTED" "ls_out ?ls0 = []" "ls_strClientSvnVersion ?ls0 = []" "ls_strIp ?ls0 = ''1.2.3.4''"
    by (simp_all add: SetstrIp_def ls_new_def)
  obtain ls1 p where l: "lh_Process login_demo_api login_demo_env [] (login_packet ''pw'') ?ls0 login_demo_db = Some (ls1, login_demo_db)"
    "ls_out ls1 = [p]" "ls_eUserStatus ls1 = E_STATUS_AUTHED" "ls_dwAccountId ls1 = Some 7" "ls_strClientSvnVersion ls1 = []"
    "ls_strIp ls1 = ''1.2.3.4''"
    using demo_login [OF ls0(1), of "[]"] ls0(2-4) by auto
  obtain q where q: "HandlerChooseServer login_demo_api login_demo_env [(3, login_demo_server)] choose_packet (ls1\<lparr>ls_bNoPacket := False\<rparr>)
      login_demo_db = Some (ls_SendPacket q (ls1\<lparr>ls_bNoPacket := False\<rparr>), login_demo_db)" "wp_opcode q = 105"
    using demo_choose [of "ls1\<lparr>ls_bNoPacket := False\<rparr>"] l by auto
  let ?ls2 = "ls_SendPacket q (ls1\<lparr>ls_bNoPacket := False\<rparr>)"
  have run: "lh_run login_demo_api [(login_demo_env, [], login_packet ''pw''), (login_demo_env, [(3, login_demo_server)], choose_packet)]
      ?ls0 login_demo_db = Some (?ls2, login_demo_db)"
    using l q demo_table(2) wire_simps(1) [of 5] by (simp add: lh_Process_def choose_packet_def)
  have out: "ls_out ?ls2 = [p, q]" using l(2) by (simp add: ls_SendPacket_def)
  have c: "list_all (\<lambda>(e, _). le_cmds e = login_demo_cmds)
      [(login_demo_env, [] :: server_map, login_packet ''pw''), (login_demo_env, [(3, login_demo_server)], choose_packet)]"
    "reply_codes_differ login_demo_cmds" by (simp_all add: login_demo_env_def reply_codes_differ_def login_demo_cmds_def)
  have need: "needs_login login_demo_cmds (ls_out ?ls2 ! 1)" using out q by (simp add: needs_login_def login_demo_cmds_def)
  from replies_need_login [OF run c] need out have "login_ok login_demo_cmds (ls_out ?ls2 ! 0)" by fastforce
  with run need show ?thesis by blast
qed

theorem account_login_errors_witness:
  "\<exists>p. HandlerAccountLogin login_demo_api login_demo_env (login_packet ''no'') ls_new login_demo_db =
      Some (ls_new\<lparr>ls_out := ls_out ls_new @ [p]\<rparr>, login_demo_db) \<and>
    wp_opcode p = CMD_LOGIN_SC_LOGIN_RESULT (le_cmds login_demo_env) \<and> bb_data p = [2]"
proof -
  obtain p1 p2 p3 where r: "bb_get_str (login_packet ''no'') = Some (''ann'', p1)" "bb_get_str p1 = Some (''no'', p2)"
    "bb_get_u16 p2 = Some (1, p3)" using login_packet_reads [of "''no''"] by auto
  show ?thesis
  proof (rule account_login_errors [OF r demo_escape])
    show "cd_PQuery login_demo_api account_sql [QS ''ann'', QU (ucast (1 :: uint16) :: uint32), QU E_LOGIN_AUTH_TYPE_ACCOUNT] login_demo_db =
        Some (Some demo_row, login_demo_db)" using demo_account by simp
    have "\<exists>pid pwd. row_get fd_GetUInt64 0 demo_row = Some pid \<and> row_get fd_GetString 1 demo_row = Some pwd \<and> pwd \<noteq> ''no''"
      using demo_row_fields by simp
    then show "case Some demo_row of None \<Rightarrow> (2 :: uint8) = 1 | Some q \<Rightarrow> 2 = (2 :: uint8) \<and>
        (\<exists>pid pwd. row_get fd_GetUInt64 0 q = Some pid \<and> row_get fd_GetString 1 q = Some pwd \<and> pwd \<noteq> ''no'')" by (simp only: option.case simp_thms)
  qed
qed

theorem choose_server_answer_witness:
  "\<exists>p rest role. HandlerChooseServer login_demo_api login_demo_env [(3, login_demo_server)] choose_packet
      (SetAccountId 7 (SetstrIp ''1.2.3.4'' ls_new)) login_demo_db =
      Some ((SetAccountId 7 (SetstrIp ''1.2.3.4'' ls_new))\<lparr>ls_out := [p]\<rparr>, login_demo_db) \<and>
    bb_data p = 0 # address_bytes login_demo_env login_demo_server role"
proof -
  let ?ls = "SetAccountId 7 (SetstrIp ''1.2.3.4'' ls_new)"
  have ls: "ls_dwAccountId ?ls = Some 7" "ls_strClientSvnVersion ?ls = []" "ls_strIp ?ls = ''1.2.3.4''" "ls_out ?ls = []"
    by (simp_all add: SetAccountId_def SetstrIp_def ls_new_def)
  obtain p1 p2 where r: "bb_get_u16 choose_packet = Some (3, p1)" "bb_get_str p1 = Some ([], p2)" using choose_packet_reads by blast
  from demo_choose [OF ls(1-3)] obtain q where
    h: "HandlerChooseServer login_demo_api login_demo_env [(3, login_demo_server)] choose_packet ?ls login_demo_db =
      Some (ls_SendPacket q ?ls, login_demo_db)" by blast
  have m: "GetServerIdMerged login_demo_api (ucast (3 :: uint16)) login_demo_db = Some (3, login_demo_db)" using demo_merged by simp
  have st: "Some login_demo_server = map_of [(3, login_demo_server)] (ucast (ucast (3 :: uint32) :: uint16) :: uint32)" by simp
  have e: "can_enter (Some login_demo_server)" by (simp add: can_enter_def login_demo_server_def)
  have v: "version_ok (ls_strClientSvnVersion ?ls) (ss_strVersion (the (Some login_demo_server)))"
    using demo_version ls by (simp add: login_demo_server_def)
  have w: "may_play login_demo_api login_demo_env 3 (the (Some login_demo_server)) ?ls login_demo_db 77"
    using demo_forbid ls by (simp add: may_play_def login_demo_env_def)
  obtain p code rest where p: "ls_SendPacket q ?ls = ?ls\<lparr>ls_out := ls_out ?ls @ [p]\<rparr>" "bb_data p = code # rest" "code = 0"
    "\<exists>role. rest = address_bytes login_demo_env (the (Some login_demo_server)) role"
    using choose_server_answer [OF h r(1) m st] e v w by blast
  with h ls(4) show ?thesis by auto
qed

end
