(* ===== verification/Mysql_Connection.thy ===== *)
theory Mysql_Connection
  imports Mysql_Client Sql_Database
begin

text \<open>
  The MySQL implementation behind the database access layer, pitayaserver/transition/database:
  \<^verbatim>\<open>Field\<close> (Field.h), \<^verbatim>\<open>QueryResultMysql\<close> (QueryResult.h, QueryResultMysql.h, QueryResultMysql.cpp),
  \<^verbatim>\<open>MySQLConnection\<close> and \<^verbatim>\<open>DatabaseMysql\<close> (DatabaseMysql.h, DatabaseMysql.cpp).

  The client library and the servers behind it are the parameter \<open>lib\<close> over a state \<open>'w\<close>; a
  \<^verbatim>\<open>MYSQL*\<close> is a handle. The splitting function \<^verbatim>\<open>Util::StrSplit\<close> is not in the repository and is
  the parameter \<open>split\<close>. \<^verbatim>\<open>std::abort\<close>, a use of a null or closed handle and a retry that never ends
  are \<^const>\<open>None\<close>. The sleeps between retries are left out.
\<close>

section \<open>Fields and results\<close>

datatype tf_type = TF_UNKNOWN | TF_STRING | TF_INTEGER | TF_FLOAT | TF_BOOL

record tfield =
  tf_mValue :: "string option"
  tf_mType :: tf_type
  tf_length :: uint32

definition tf_new :: tfield where
  "tf_new = \<lparr>tf_mValue = None, tf_mType = TF_UNKNOWN, tf_length = 0\<rparr>"

definition tf_GetCppString :: "tfield \<Rightarrow> string" where
  "tf_GetCppString f = (case tf_mValue f of None \<Rightarrow> [] | Some v \<Rightarrow> c_str v)"

definition tf_num :: "tfield \<Rightarrow> int" where
  "tf_num f = (case tf_mValue f of None \<Rightarrow> 0 | Some v \<Rightarrow> c_atol v)"

definition tf_GetBool :: "tfield \<Rightarrow> bool" where
  "tf_GetBool f = (case tf_mValue f of None \<Rightarrow> False | Some v \<Rightarrow> c_atoi_int v > 0)"

definition tf_GetInt32 :: "tfield \<Rightarrow> 32 word" where
  "tf_GetInt32 f = word_of_int (tf_num f)"

definition tf_GetUInt8 :: "tfield \<Rightarrow> uint8" where
  "tf_GetUInt8 f = word_of_int (tf_num f)"

definition tf_GetUInt16 :: "tfield \<Rightarrow> uint16" where
  "tf_GetUInt16 f = word_of_int (tf_num f)"

definition tf_GetInt16 :: "tfield \<Rightarrow> 16 word" where
  "tf_GetInt16 f = word_of_int (tf_num f)"

definition tf_GetUInt32 :: "tfield \<Rightarrow> uint32" where
  "tf_GetUInt32 f = word_of_int (tf_num f)"

text \<open>Here \<open>value\<close> is initialised, so a text without digits is 0.\<close>

definition tf_GetUInt64 :: "tfield \<Rightarrow> uint64" where
  "tf_GetUInt64 f =
     (case tf_mValue f of None \<Rightarrow> 0 | Some v \<Rightarrow> (case c_strtoull (c_str v) of None \<Rightarrow> 0 | Some n \<Rightarrow> n))"

definition tf_GetTextString :: "tfield \<Rightarrow> string option" where
  "tf_GetTextString f =
     (case tf_mValue f of None \<Rightarrow> if tf_length f = 0 then Some [] else None
      | Some v \<Rightarrow> if unat (tf_length f) \<le> length v then Some (take (unat (tf_length f)) v) else None)"

definition tq_ConvertNativeType :: "nat \<Rightarrow> tf_type" where
  "tq_ConvertNativeType t =
     (if t \<in> {7, 10, 11, 12, 13, 254, 253, 252, 248, 6} then TF_STRING
      else if t \<in> {1, 2, 3, 9, 8, 247} then TF_INTEGER
      else if t \<in> {0, 4, 5} then TF_FLOAT
      else TF_UNKNOWN)"

record tquery_result =
  tq_mCurrentRow :: "tfield list option"
  tq_mFieldCount :: nat
  tq_mRowCount :: nat
  tq_mResult :: "my_row list option"

definition tq_new :: "nat list \<Rightarrow> my_row list \<Rightarrow> tquery_result" where
  "tq_new types rows =
     \<lparr>tq_mCurrentRow = Some (map (\<lambda>t. tf_new\<lparr>tf_mType := tq_ConvertNativeType t\<rparr>) types),
      tq_mFieldCount = length types, tq_mRowCount = length rows, tq_mResult = Some rows\<rparr>"

definition tq_EndQuery :: "tquery_result \<Rightarrow> tquery_result" where
  "tq_EndQuery q = q\<lparr>tq_mCurrentRow := None, tq_mResult := None\<rparr>"

definition tf_load :: "tfield \<Rightarrow> string option \<Rightarrow> tfield" where
  "tf_load f v = f\<lparr>tf_mValue := v, tf_length := word_of_nat (case v of None \<Rightarrow> 0 | Some s \<Rightarrow> length s)\<rparr>"

definition tq_NextRow :: "tquery_result \<Rightarrow> bool \<times> tquery_result" where
  "tq_NextRow q =
     (case tq_mResult q of
        None \<Rightarrow> (False, q)
      | Some [] \<Rightarrow> (False, tq_EndQuery q)
      | Some (row # rows) \<Rightarrow>
          (True, q\<lparr>tq_mCurrentRow := map_option (\<lambda>fs. map2 tf_load fs row) (tq_mCurrentRow q), tq_mResult := Some rows\<rparr>))"

definition tq_field :: "nat \<Rightarrow> tquery_result \<Rightarrow> tfield option" where
  "tq_field i q = do { fs \<leftarrow> tq_mCurrentRow q; if i < length fs then Some (fs ! i) else None }"

section \<open>The connection\<close>

datatype mc_reply = MC_Error uint32 | MC_Done | MC_Rows "nat list" "my_row list"

record 'w mysql_lib =
  lib_init :: "'w \<Rightarrow> bool \<times> 'w"
  lib_connect :: "string \<Rightarrow> string \<Rightarrow> string \<Rightarrow> string \<Rightarrow> int \<Rightarrow> string option \<Rightarrow> 'w \<Rightarrow> nat option \<times> 'w"
  lib_close :: "nat \<Rightarrow> 'w \<Rightarrow> 'w"
  lib_query :: "nat \<Rightarrow> string \<Rightarrow> 'w \<Rightarrow> mc_reply \<times> 'w"
  lib_ping :: "nat \<Rightarrow> 'w \<Rightarrow> 'w"
  lib_escape :: "nat \<Rightarrow> string \<Rightarrow> string"

record mysql_connection =
  mc_mMysql :: "nat option"
  mc_mReconnecting :: bool
  mc_mHost :: string
  mc_mPortOrSocket :: string
  mc_mUser :: string
  mc_mPassword :: string
  mc_mDatabase :: string

definition mc_new :: mysql_connection where
  "mc_new = \<lparr>mc_mMysql = None, mc_mReconnecting = False, mc_mHost = [], mc_mPortOrSocket = [], mc_mUser = [],
     mc_mPassword = [], mc_mDatabase = []\<rparr>"

text \<open>\<open>_Open\<close>: a failure of \<^verbatim>\<open>mysql_init\<close> leaves \<open>mMysql\<close>, one of \<^verbatim>\<open>mysql_real_connect\<close> makes it null.\<close>

definition mc_Open :: "'w mysql_lib \<Rightarrow> mysql_connection \<times> 'w \<Rightarrow> bool \<times> mysql_connection \<times> 'w" where
  "mc_Open lib = (\<lambda>(c, w).
     let (ok, w) = lib_init lib w in
     if \<not> ok then (False, c, w)
     else
       let (c, port, unix_socket) =
             (if mc_mHost c = ''.'' then (c\<lparr>mc_mHost := ''localhost''\<rparr>, 0, Some (mc_mPortOrSocket c))
              else (c, c_atoi_int (mc_mPortOrSocket c), None));
           (h, w) = lib_connect lib (mc_mHost c) (mc_mUser c) (mc_mPassword c) (mc_mDatabase c) port unix_socket w
       in (h \<noteq> None, c\<lparr>mc_mMysql := h\<rparr>, w))"

definition mc_set_info :: "string list \<Rightarrow> mysql_connection \<Rightarrow> mysql_connection" where
  "mc_set_info tokens c =
     (let c = (if 0 < length tokens then c\<lparr>mc_mHost := tokens ! 0\<rparr> else c);
          c = (if 1 < length tokens then c\<lparr>mc_mPortOrSocket := tokens ! 1\<rparr> else c);
          c = (if 2 < length tokens then c\<lparr>mc_mUser := tokens ! 2\<rparr> else c);
          c = (if 3 < length tokens then c\<lparr>mc_mPassword := tokens ! 3\<rparr> else c)
      in (if 4 < length tokens then c\<lparr>mc_mDatabase := tokens ! 4\<rparr> else c))"

definition mc_Initialize :: "(string \<Rightarrow> string \<Rightarrow> string list) \<Rightarrow> 'w mysql_lib \<Rightarrow> string \<Rightarrow> mysql_connection \<times> 'w \<Rightarrow>
    bool \<times> mysql_connection \<times> 'w" where
  "mc_Initialize split lib infoString = (\<lambda>(c, w). mc_Open lib (mc_set_info (split infoString [CHR 0x27]) c, w))"

text \<open>The error numbers of the client and of the server.\<close>

definition CR_LOST :: "uint32 \<Rightarrow> bool" where
  "CR_LOST e \<longleftrightarrow> e = 2006 \<or> e = 2013 \<or> e = 2048 \<or> e = 2055"

definition ER_FATAL :: "uint32 \<Rightarrow> bool" where
  "ER_FATAL e \<longleftrightarrow> e = 1054 \<or> e = 1146 \<or> e = 1064"

text \<open>
  \<open>_HandleMySQLErrno\<close>. When the connection cannot be opened again, \<open>mMysql\<close> is null or closed and
  \<^verbatim>\<open>mysql_errno(mMysql)\<close> is undefined.
\<close>

definition mc_HandleMySQLErrno :: "'w mysql_lib \<Rightarrow> uint32 \<Rightarrow> mysql_connection \<times> 'w \<Rightarrow>
    (bool \<times> mysql_connection \<times> 'w) option" where
  "mc_HandleMySQLErrno lib dwError = (\<lambda>(c, w).
     if CR_LOST dwError then
       do { h \<leftarrow> mc_mMysql c;
            let (ok, c, w) = mc_Open lib (c\<lparr>mc_mReconnecting := True\<rparr>, lib_close lib h w);
            if ok then Some (True, c\<lparr>mc_mReconnecting := False\<rparr>, w) else None }
     else if ER_FATAL dwError then None
     else Some (False, c, w))"

text \<open>One attempt of a statement: its reply, or that it is to be tried again.\<close>

definition mc_ready :: "'w mysql_lib \<Rightarrow> mysql_connection \<times> 'w \<Rightarrow> bool \<times> mysql_connection \<times> 'w" where
  "mc_ready lib s = (if mc_mMysql (fst s) = None then mc_Open lib s else (True, s))"

partial_function (option) mc_Execute :: "'w mysql_lib \<Rightarrow> string \<Rightarrow> mysql_connection \<times> 'w \<Rightarrow>
    (bool \<times> mysql_connection \<times> 'w) option" where
  "mc_Execute lib sql s =
     (let (ok, c, w) = mc_ready lib s in
      if \<not> ok then Some (False, c, w)
      else
        do { h \<leftarrow> mc_mMysql c;
             let (r, w) = lib_query lib h (c_str sql) w;
             case r of
               MC_Error e \<Rightarrow>
                 do { (again, c, w) \<leftarrow> mc_HandleMySQLErrno lib e (c, w);
                      if again then mc_Execute lib sql (c, w) else Some (False, c, w) }
             | _ \<Rightarrow> Some (True, c, w) })"

partial_function (option) mc_Query :: "'w mysql_lib \<Rightarrow> string \<Rightarrow> mysql_connection \<times> 'w \<Rightarrow>
    (tquery_result option \<times> mysql_connection \<times> 'w) option" where
  "mc_Query lib sql s =
     (let (ok, c, w) = mc_ready lib s in
      if \<not> ok then Some (None, c, w)
      else
        do { h \<leftarrow> mc_mMysql c;
             let (r, w) = lib_query lib h (c_str sql) w;
             case r of
               MC_Error e \<Rightarrow>
                 do { (again, c, w) \<leftarrow> mc_HandleMySQLErrno lib e (c, w);
                      if again then mc_Query lib sql (c, w) else Some (None, c, w) }
             | MC_Done \<Rightarrow> Some (None, c, w)
             | MC_Rows types rows \<Rightarrow>
                 Some ((if rows = [] then None else Some (snd (tq_NextRow (tq_new types rows)))), c, w) })"

declare mc_Execute.simps [code] mc_Query.simps [code]

definition mc_BeginTransaction :: "'w mysql_lib \<Rightarrow> mysql_connection \<times> 'w \<Rightarrow> (bool \<times> mysql_connection \<times> 'w) option" where
  "mc_BeginTransaction lib = mc_Execute lib ''START TRANSACTION''"

definition mc_CommitTransaction :: "'w mysql_lib \<Rightarrow> mysql_connection \<times> 'w \<Rightarrow> (bool \<times> mysql_connection \<times> 'w) option" where
  "mc_CommitTransaction lib = mc_Execute lib ''COMMIT''"

definition mc_RollbackTransaction :: "'w mysql_lib \<Rightarrow> mysql_connection \<times> 'w \<Rightarrow> (bool \<times> mysql_connection \<times> 'w) option" where
  "mc_RollbackTransaction lib = mc_Execute lib ''ROLLBACK''"

text \<open>The destructor; \<^verbatim>\<open>mysql_close(NULL)\<close> does nothing.\<close>

definition mc_destroy :: "'w mysql_lib \<Rightarrow> mysql_connection \<times> 'w \<Rightarrow> 'w" where
  "mc_destroy lib = (\<lambda>(c, w). case mc_mMysql c of None \<Rightarrow> w | Some h \<Rightarrow> lib_close lib h w)"

definition mc_Ping :: "'w mysql_lib \<Rightarrow> mysql_connection \<times> 'w \<Rightarrow> mysql_connection \<times> 'w" where
  "mc_Ping lib = (\<lambda>(c, w). (c, case mc_mMysql c of None \<Rightarrow> w | Some h \<Rightarrow> lib_ping lib h w))"

text \<open>
  \<open>escape_string(std::string&)\<close>: without a connection the buffer is not written and is read as a C
  string.
\<close>

definition mc_escape_string :: "'w mysql_lib \<Rightarrow> mysql_connection \<Rightarrow> string \<Rightarrow> string option" where
  "mc_escape_string lib c str =
     (if str = [] then Some []
      else do { h \<leftarrow> mc_mMysql c; Some (c_str (lib_escape lib h str)) })"

section \<open>DatabaseMysql\<close>

text \<open>
  The two connections of a \<^verbatim>\<open>Database\<close> and the servers, as the state of the virtual functions the
  database layer calls. After undefined behaviour the state is \<^const>\<open>None\<close>.
\<close>

record 'w mysql_pair =
  mp_sync :: mysql_connection
  mp_async :: mysql_connection
  mp_world :: 'w

definition mp_get :: "conn_id \<Rightarrow> 'w mysql_pair \<Rightarrow> mysql_connection \<times> 'w" where
  "mp_get k p = ((case k of SyncConn \<Rightarrow> mp_sync p | AsyncConn \<Rightarrow> mp_async p), mp_world p)"

definition mp_put :: "conn_id \<Rightarrow> mysql_connection \<times> 'w \<Rightarrow> 'w mysql_pair \<Rightarrow> 'w mysql_pair" where
  "mp_put k s p =
     (case k of SyncConn \<Rightarrow> p\<lparr>mp_sync := fst s, mp_world := snd s\<rparr>
      | AsyncConn \<Rightarrow> p\<lparr>mp_async := fst s, mp_world := snd s\<rparr>)"

definition mp_call :: "'r \<Rightarrow> (mysql_connection \<times> 'w \<Rightarrow> ('r \<times> mysql_connection \<times> 'w) option) \<Rightarrow> conn_id \<Rightarrow>
    'w mysql_pair option \<Rightarrow> 'r \<times> 'w mysql_pair option" where
  "mp_call dflt f k po =
     (case po of
        None \<Rightarrow> (dflt, None)
      | Some p \<Rightarrow> (case f (mp_get k p) of None \<Rightarrow> (dflt, None) | Some (r, s) \<Rightarrow> (r, Some (mp_put k s p))))"

definition mysql_sql_connection :: "(string \<Rightarrow> string \<Rightarrow> string list) \<Rightarrow> 'w mysql_lib \<Rightarrow>
    ('w mysql_pair option, tquery_result) sql_connection" where
  "mysql_sql_connection split lib =
     \<lparr>sc_Query = (\<lambda>k sql. mp_call None (mc_Query lib sql) k),
      sc_Execute = (\<lambda>k sql. mp_call False (mc_Execute lib sql) k),
      sc_BeginTransaction = mp_call False (mc_BeginTransaction lib),
      sc_CommitTransaction = mp_call False (mc_CommitTransaction lib),
      sc_RollbackTransaction = mp_call False (mc_RollbackTransaction lib),
      sc_Ping = (\<lambda>k po. snd (mp_call () (\<lambda>s. Some ((), mc_Ping lib s)) k po)),
      sc_Initialize = (\<lambda>k info. mp_call False (\<lambda>s. Some (mc_Initialize split lib info s)) k)\<rparr>"

definition dbm_GetDbName :: "mysql_connection option \<Rightarrow> string option" where
  "dbm_GetDbName sync = map_option (\<lambda>c. c_str (mc_mDatabase c)) sync"

text \<open>The library is initialised with the first object and ended with the last.\<close>

definition dbm_construct :: "bool \<Rightarrow> nat \<Rightarrow> (bool \<times> nat) option" where
  "dbm_construct thread_safe db_count =
     (if db_count = 0 then (if thread_safe then Some (True, 1) else None) else Some (False, db_count + 1))"

definition dbm_destruct :: "nat \<Rightarrow> bool \<times> nat" where
  "dbm_destruct db_count = (db_count - 1 = 0, db_count - 1)"

section \<open>Retries\<close>

text \<open>What the library answers when the connection of a host is opened: a handle, or a refusal.\<close>

definition my_opens :: "'w mysql_lib \<Rightarrow> mysql_connection \<Rightarrow> 'w \<Rightarrow> nat \<Rightarrow> 'w \<Rightarrow> bool" where
  "my_opens lib c w h w' \<longleftrightarrow> fst (lib_init lib w) \<and>
     lib_connect lib (mc_mHost c) (mc_mUser c) (mc_mPassword c) (mc_mDatabase c) (c_atoi_int (mc_mPortOrSocket c)) None
       (snd (lib_init lib w)) = (Some h, w')"

definition my_refuses :: "'w mysql_lib \<Rightarrow> mysql_connection \<Rightarrow> 'w \<Rightarrow> bool" where
  "my_refuses lib c w \<longleftrightarrow> \<not> fst (lib_init lib w) \<or>
     fst (lib_connect lib (mc_mHost c) (mc_mUser c) (mc_mPassword c) (mc_mDatabase c) (c_atoi_int (mc_mPortOrSocket c)) None
       (snd (lib_init lib w))) = None"

lemma Open_opens:
  "mc_mHost c \<noteq> ''.'' \<Longrightarrow> my_opens lib c w h w' \<Longrightarrow> mc_Open lib (c, w) = (True, c\<lparr>mc_mMysql := Some h\<rparr>, w')"
  by (auto simp: my_opens_def mc_Open_def Let_def split: prod.splits)

lemma Open_refuses: "mc_mHost c \<noteq> ''.'' \<Longrightarrow> my_refuses lib c w \<Longrightarrow> \<not> fst (mc_Open lib (c, w))"
  by (auto simp: my_refuses_def mc_Open_def Let_def split: prod.splits)

lemma my_opens_same [simp]:
  "my_opens lib (c\<lparr>mc_mMysql := x\<rparr>) w h w' = my_opens lib c w h w'"
  "my_opens lib (c\<lparr>mc_mMysql := x, mc_mReconnecting := b\<rparr>) w h w' = my_opens lib c w h w'"
  "my_refuses lib (c\<lparr>mc_mMysql := x, mc_mReconnecting := b\<rparr>) w = my_refuses lib c w"
  by (simp_all add: my_opens_def my_refuses_def)

text \<open>One attempt on an open connection.\<close>

lemma Execute_lost:
  assumes "mc_mHost c \<noteq> ''.''" "\<not> mc_mReconnecting c" "mc_mMysql c = Some h"
    and "lib_query lib h (c_str sql) w = (MC_Error e, u)" "CR_LOST e" "my_opens lib c (lib_close lib h u) h' w'"
  shows "mc_Execute lib sql (c, w) = mc_Execute lib sql (c\<lparr>mc_mMysql := Some h'\<rparr>, w')"
proof -
  have "mc_Open lib (c\<lparr>mc_mReconnecting := True\<rparr>, lib_close lib h u) =
      (True, c\<lparr>mc_mReconnecting := True, mc_mMysql := Some h'\<rparr>, w')"
    using Open_opens [of "c\<lparr>mc_mReconnecting := True\<rparr>" lib "lib_close lib h u" h' w'] assms(1,6) by (simp add: my_opens_def)
  then have again: "mc_Execute lib sql (c, w) = mc_Execute lib sql (c\<lparr>mc_mMysql := Some h', mc_mReconnecting := False\<rparr>, w')"
    using assms by (simp add: mc_Execute.simps [of lib sql "(c, w)"] mc_ready_def mc_HandleMySQLErrno_def)
  have same: "c\<lparr>mc_mMysql := Some h', mc_mReconnecting := False\<rparr> = c\<lparr>mc_mMysql := Some h'\<rparr>" using assms(2) by (cases c) simp
  show ?thesis unfolding again same ..
qed

lemma Execute_answer:
  assumes "mc_mHost c \<noteq> ''.''" "mc_mMysql c = Some h" "lib_query lib h (c_str sql) w = (r, w')"
    and "\<And>e. r = MC_Error e \<Longrightarrow> CR_LOST e \<Longrightarrow> my_refuses lib c (lib_close lib h w')"
  shows "mc_Execute lib sql (c, w) =
     (case r of MC_Error e \<Rightarrow> if CR_LOST e \<or> ER_FATAL e then None else Some (False, c, w') | _ \<Rightarrow> Some (True, c, w'))"
proof (cases "\<exists>e. r = MC_Error e \<and> CR_LOST e")
  case True
  then obtain e where e: "r = MC_Error e" "CR_LOST e" by blast
  have "\<not> fst (mc_Open lib (c\<lparr>mc_mReconnecting := True\<rparr>, lib_close lib h w'))"
    using Open_refuses [of "c\<lparr>mc_mReconnecting := True\<rparr>" lib "lib_close lib h w'"] assms(1) assms(4) [OF e]
    by (simp add: my_refuses_def)
  then show ?thesis
    using e assms(2,3) by (auto simp: mc_Execute.simps [of lib sql "(c, w)"] mc_ready_def mc_HandleMySQLErrno_def split: prod.splits)
next
  case False
  then show ?thesis
    using assms(2,3) by (cases r) (auto simp: mc_Execute.simps [of lib sql "(c, w)"] mc_ready_def mc_HandleMySQLErrno_def)
qed

lemma Execute_losses:
  assumes "mc_mHost c \<noteq> ''.''" "\<not> mc_mReconnecting c"
    and "\<forall>i < n. \<exists>e u. lib_query lib (h i) (c_str sql) (w i) = (MC_Error e, u) \<and> CR_LOST e \<and>
           my_opens lib c (lib_close lib (h i) u) (h (Suc i)) (w (Suc i))"
  shows "mc_Execute lib sql (c\<lparr>mc_mMysql := Some (h 0)\<rparr>, w 0) = mc_Execute lib sql (c\<lparr>mc_mMysql := Some (h n)\<rparr>, w n)"
  using assms(3)
proof (induction n)
  case (Suc n)
  then obtain e u where "lib_query lib (h n) (c_str sql) (w n) = (MC_Error e, u)" "CR_LOST e"
    "my_opens lib c (lib_close lib (h n) u) (h (Suc n)) (w (Suc n))" by blast
  then have "mc_Execute lib sql (c\<lparr>mc_mMysql := Some (h n)\<rparr>, w n) =
      mc_Execute lib sql (c\<lparr>mc_mMysql := Some (h n), mc_mMysql := Some (h (Suc n))\<rparr>, w (Suc n))"
    using assms(1,2) by (intro Execute_lost) simp_all
  with Suc show ?case by simp
qed simp

text \<open>A statement on a connection that is not open and cannot be opened fails without being sent.\<close>

lemma Execute_no_connection:
  assumes "mc_mHost c \<noteq> ''.''" "mc_mMysql c = None" "my_refuses lib c w"
  shows "\<exists>w'. mc_Execute lib sql (c, w) = Some (False, c, w')"
proof -
  obtain ok c' w' where o: "mc_Open lib (c, w) = (ok, c', w')" by (metis prod_cases3)
  have "\<not> ok" using Open_refuses [OF assms(1,3)] o by simp
  moreover have "c' = c"
    using o assms by (cases c) (auto simp: mc_Open_def my_refuses_def Let_def split: prod.splits if_splits)
  ultimately show ?thesis using o assms(2) by (simp add: mc_Execute.simps [of lib sql "(c, w)"] mc_ready_def)
qed

section \<open>A server for examples\<close>

text \<open>
  A server with stored statements, the statements of the open transaction, and the attempts that
  will lose the connection. A lost connection ends its transaction without storing it. The statement
  \<^verbatim>\<open>bad\<close> is refused as a duplicate.
\<close>

record demo_world =
  dw_stored :: "string list"
  dw_open :: "string list option"
  dw_losses :: "bool list"

definition demo_query :: "nat \<Rightarrow> string \<Rightarrow> demo_world \<Rightarrow> mc_reply \<times> demo_world" where
  "demo_query h sql w =
     (case dw_losses w of
        True # r \<Rightarrow> (MC_Error 2006, w\<lparr>dw_open := None, dw_losses := r\<rparr>)
      | _ \<Rightarrow>
          (let w = w\<lparr>dw_losses := tl (dw_losses w)\<rparr> in
           if sql = ''bad'' then (MC_Error 1062, w)
           else
           (MC_Done,
            if sql = ''START TRANSACTION'' then w\<lparr>dw_open := Some []\<rparr>
            else if sql = ''COMMIT'' then w\<lparr>dw_stored := dw_stored w @ (case dw_open w of None \<Rightarrow> [] | Some q \<Rightarrow> q), dw_open := None\<rparr>
            else if sql = ''ROLLBACK'' then w\<lparr>dw_open := None\<rparr>
            else (case dw_open w of
                    None \<Rightarrow> w\<lparr>dw_stored := dw_stored w @ [sql]\<rparr>
                  | Some q \<Rightarrow> w\<lparr>dw_open := Some (q @ [sql])\<rparr>))))"

definition demo_lib :: "demo_world mysql_lib" where
  "demo_lib =
     \<lparr>lib_init = (\<lambda>w. (True, w)), lib_connect = (\<lambda>a b c d e f w. (Some 1, w)), lib_close = (\<lambda>h w. w),
      lib_query = demo_query, lib_ping = (\<lambda>h w. w), lib_escape = (\<lambda>h s. s)\<rparr>"

section \<open>Properties\<close>



text \<open>
  The statements sent one by one on a handle, up to the first that the server refuses.
\<close>

fun server_exec :: "'w mysql_lib \<Rightarrow> nat \<Rightarrow> string list \<Rightarrow> 'w \<Rightarrow> bool \<times> 'w" where
  "server_exec lib h [] w = (True, w)"
| "server_exec lib h (sql # sqls) w =
     (case lib_query lib h (c_str sql) w of
        (MC_Error e, w) \<Rightarrow> (False, w)
      | (_, w) \<Rightarrow> server_exec lib h sqls w)"

definition never_lost :: "'w mysql_lib \<Rightarrow> nat \<Rightarrow> bool" where
  "never_lost lib h \<longleftrightarrow> (\<forall>sql w e w'. lib_query lib h sql w = (MC_Error e, w') \<longrightarrow> \<not> CR_LOST e \<and> \<not> ER_FATAL e)"

lemma Execute_never_lost:
  assumes "mc_mMysql c = Some h" "never_lost lib h"
  shows "mc_Execute lib sql (c, w) = Some (fst (server_exec lib h [sql] w), c, snd (server_exec lib h [sql] w))"
proof -
  obtain r w' where q: "lib_query lib h (c_str sql) w = (r, w')" by fastforce
  with assms show ?thesis
    by (cases r) (auto simp: mc_Execute.simps [of lib sql "(c, w)"] mc_ready_def mc_HandleMySQLErrno_def never_lost_def)
qed

lemma mp_same: "mp_get k p = (c, w) \<Longrightarrow> mp_put k (c, w') p = p\<lparr>mp_world := w'\<rparr>"
  by (cases p; cases k) (auto simp: mp_get_def mp_put_def)

lemma mp_get_world: "mp_get k p = (c, w) \<Longrightarrow> mp_get k (p\<lparr>mp_world := w'\<rparr>) = (c, w')"
  by (cases k) (auto simp: mp_get_def)

lemma mp_call_Execute:
  assumes "mp_get k p = (c, w)" "mc_mMysql c = Some h" "never_lost lib h"
  shows "mp_call False (mc_Execute lib sql) k (Some p) =
     (fst (server_exec lib h [sql] w), Some (p\<lparr>mp_world := snd (server_exec lib h [sql] w)\<rparr>))"
  using assms Execute_never_lost [OF assms(2,3)] by (simp add: mp_call_def mp_same)

lemma exec_until_server:
  assumes "mp_get k p = (c, w)" "mc_mMysql c = Some h" "never_lost lib h"
  shows "exec_until (mysql_sql_connection split lib) k sqls (Some p) =
     (fst (server_exec lib h sqls w), Some (p\<lparr>mp_world := snd (server_exec lib h sqls w)\<rparr>))"
  using assms(1)
proof (induction sqls arbitrary: p w)
  case Nil
  then show ?case by (cases k; cases p) (auto simp: mp_get_def)
next
  case (Cons sql sqls)
  obtain r w' where q: "lib_query lib h (c_str sql) w = (r, w')" by fastforce
  note call = mp_call_Execute [OF Cons.prems assms(2,3), of sql]
  show ?case
  proof (cases "\<exists>e. r = MC_Error e")
    case True
    with q call show ?thesis by (auto simp: mysql_sql_connection_def)
  next
    case False
    then have one: "server_exec lib h [sql] w = (True, w')" and all: "server_exec lib h (sql # sqls) w = server_exec lib h sqls w'"
      using q by (cases r; simp)+
    have "exec_until (mysql_sql_connection split lib) k (sql # sqls) (Some p) =
        exec_until (mysql_sql_connection split lib) k sqls (Some (p\<lparr>mp_world := w'\<rparr>))"
      using call one by (simp add: mysql_sql_connection_def)
    also have "\<dots> = (fst (server_exec lib h sqls w'), Some (p\<lparr>mp_world := w', mp_world := snd (server_exec lib h sqls w')\<rparr>))"
      by (rule Cons.IH [OF mp_get_world [OF Cons.prems]])
    finally show ?thesis unfolding all by simp
  qed
qed

text \<open>
  C20: what a transaction of plain statements sends to MySQL. On an open connection whose handle the
  library never reports lost (nor a statement as structurally wrong, which ends the process), an empty
  transaction sends nothing and succeeds. Any other sends \<^verbatim>\<open>START TRANSACTION\<close>, then the statements in
  order up to the first that the server refuses, then \<^verbatim>\<open>COMMIT\<close> when there was none and \<^verbatim>\<open>ROLLBACK\<close> when
  there was one, and nothing else; it succeeds exactly when no statement and not the commit was refused.
\<close>

theorem transaction_statements:
  assumes "mp_get k p = (c, w)" "mc_mMysql c = Some h" "never_lost lib h"
  shows "op_Execute (mysql_sql_connection split lib) k (SqlTransaction (map SqlPlainRequest sqls)) (Some p) =
     (if sqls = [] then (True, Some p, [])
      else
        (let (_, w1) = server_exec lib h [''START TRANSACTION''] w;
             (ok, w2) = server_exec lib h sqls w1;
             (ended, w3) = server_exec lib h [if ok then ''COMMIT'' else ''ROLLBACK''] w2
         in (ok \<and> ended, Some (p\<lparr>mp_world := w3\<rparr>), [])))"
proof (cases "sqls = []")
  case False
  let ?C = "mysql_sql_connection split lib"
  obtain b w1 where w1: "server_exec lib h [''START TRANSACTION''] w = (b, w1)" by fastforce
  obtain ok w2 where w2: "server_exec lib h sqls w1 = (ok, w2)" by fastforce
  note get1 = mp_get_world [OF assms(1)]
  have 1: "snd (sc_BeginTransaction ?C k (Some p)) = Some (p\<lparr>mp_world := w1\<rparr>)"
    using mp_call_Execute [OF assms, of "''START TRANSACTION''"] w1 by (simp add: mysql_sql_connection_def mc_BeginTransaction_def)
  have 2: "exec_until ?C k sqls (Some (p\<lparr>mp_world := w1\<rparr>)) = (ok, Some (p\<lparr>mp_world := w2\<rparr>))"
    using exec_until_server [OF get1 [of w1] assms(2,3), where split = split and sqls = sqls] w2 by simp
  have 3: "mp_call False (mc_Execute lib sql) k (Some (p\<lparr>mp_world := w2\<rparr>)) =
      (fst (server_exec lib h [sql] w2), Some (p\<lparr>mp_world := snd (server_exec lib h [sql] w2)\<rparr>))" for sql
    using mp_call_Execute [OF get1 [of w2] assms(2,3), of sql] by simp
  have ends: "sc_CommitTransaction ?C k = mp_call False (mc_Execute lib ''COMMIT'') k"
    "sc_RollbackTransaction ?C k = mp_call False (mc_Execute lib ''ROLLBACK'') k"
    by (simp_all add: mysql_sql_connection_def mc_CommitTransaction_def mc_RollbackTransaction_def)
  show ?thesis
    using False 1 2 w1 w2 by (cases ok) (simp_all add: op_items_plain ends 3 split_beta del: server_exec.simps)
qed simp

text \<open>The second of three statements is refused: the first is undone and the third is not sent.\<close>

theorem transaction_statements_witness:
  "op_Execute (mysql_sql_connection (\<lambda>s sep. [s]) (demo_lib\<lparr>lib_query := (\<lambda>h sql w. demo_query h sql (w\<lparr>dw_losses := []\<rparr>))\<rparr>)) AsyncConn
     (SqlTransaction (map SqlPlainRequest [''a'', ''bad'', ''b'']))
     (Some \<lparr>mp_sync = mc_new, mp_async = mc_new\<lparr>mc_mMysql := Some 1\<rparr>,
            mp_world = \<lparr>dw_stored = [''z''], dw_open = None, dw_losses = []\<rparr>\<rparr>) =
   (False, Some \<lparr>mp_sync = mc_new, mp_async = mc_new\<lparr>mc_mMysql := Some 1\<rparr>,
            mp_world = \<lparr>dw_stored = [''z''], dw_open = None, dw_losses = []\<rparr>\<rparr>, [])"
proof -
  let ?lib = "demo_lib\<lparr>lib_query := (\<lambda>h sql w. demo_query h sql (w\<lparr>dw_losses := []\<rparr>))\<rparr>"
  have "never_lost ?lib 1"
    by (auto simp: never_lost_def demo_lib_def demo_query_def CR_LOST_def ER_FATAL_def Let_def split: if_splits)
  then show ?thesis
    by (subst transaction_statements [where h = 1 and c = "mc_new\<lparr>mc_mMysql := Some 1\<rparr>"
          and w = "\<lparr>dw_stored = [''z''], dw_open = None, dw_losses = []\<rparr>"])
      (simp_all add: mp_get_def demo_lib_def demo_query_def c_str_def Let_def)
qed

section \<open>A transaction across a lost connection\<close>

definition demo_pair :: "bool list \<Rightarrow> demo_world mysql_pair" where
  "demo_pair losses =
     \<lparr>mp_sync = mc_new\<lparr>mc_mMysql := Some 1\<rparr>, mp_async = mc_new\<lparr>mc_mMysql := Some 1\<rparr>,
      mp_world = \<lparr>dw_stored = [], dw_open = None, dw_losses = losses\<rparr>\<rparr>"

text \<open>
  The connection is lost at the second statement of a transaction: the first is undone by the
  server, the rest is repeated on the new connection outside any transaction, and the operation
  reports success.
\<close>

lemma lost_transaction_not_atomic:
  "op_Execute (mysql_sql_connection split demo_lib) AsyncConn
     (SqlTransaction [SqlPlainRequest ''take'', SqlPlainRequest ''give'']) (Some (demo_pair [False, False, True])) =
   (True, Some (demo_pair []\<lparr>mp_world := \<lparr>dw_stored = [''give''], dw_open = None, dw_losses = []\<rparr>\<rparr>), [])"
  by (simp add: mysql_sql_connection_def mp_call_def mc_BeginTransaction_def mc_CommitTransaction_def mc_Execute.simps
      mc_ready_def demo_pair_def demo_lib_def demo_query_def mp_get_def mp_put_def c_str_def mc_HandleMySQLErrno_def
      CR_LOST_def mc_Open_def mc_new_def Let_def)

text \<open>
  After a connection through a socket (host \<^verbatim>\<open>.\<close>) the host is \<^verbatim>\<open>localhost\<close>, and opening it again no
  longer names the socket.
\<close>

lemma socket_forgotten:
  assumes "mc_mHost c = ''.''" "mc_Open lib (c, w) = (True, c', w')" "lib_init lib w' = (True, w'')"
  shows "\<exists>h w3. lib_connect lib ''localhost'' (mc_mUser c) (mc_mPassword c) (mc_mDatabase c)
             (c_atoi_int (mc_mPortOrSocket c)) None w'' = (h, w3) \<and>
           mc_Open lib (c', w') = (h \<noteq> None, c'\<lparr>mc_mMysql := h\<rparr>, w3)"
  using assms by (auto simp: mc_Open_def Let_def split: prod.splits if_splits)

end
