(* ===== verification/Log_File.thy ===== *)
theory Log_File
  imports Mysql_Client
begin

text \<open>
  The log of the servers, \<^verbatim>\<open>Log\<close> (pitayaserver/framework/Log.h, Log.cpp): the standard streams, the
  log files, their daily change, and the colours.

  The object carries what it writes: the text of the two streams, and the file system as the names
  of the files with the numbers of their contents. Time, the local calendar and whether a file can
  be opened are the parameter \<^verbatim>\<open>env\<close>. A message is its format (\<^const>\<open>None\<close> for a null pointer) and
  the text the C library makes of it. \<open>outDB\<close> is commented out in the source and has no effect.
\<close>

section \<open>State\<close>

record log_env =
  lv_time :: int
  lv_localtime :: "int \<Rightarrow> tm"
  lv_can_open :: "string \<Rightarrow> bool"

record ime_log =
  lg_logfile :: "nat option"
  lg_gmLogfile :: "nat option"
  lg_charLogfile :: "nat option"
  lg_chatLogfile :: "nat option"
  lg_logsDir :: string
  lg_logsTimestamp :: string
  lg_gmlog_per_account :: bool
  lg_gmlog_filename_format :: string
  lg_enableLogDB :: bool
  lg_realm :: uint32
  lg_colored :: bool
  lg_colors :: "nat list"
  lg_dbLogLevel :: uint8
  lg_logLevel :: uint8
  lg_logFileLevel :: uint8
  lg_dbChar :: bool
  lg_dbGM :: bool
  lg_dbChat :: bool
  lg_DebugLogMask :: uint32
  lg_stdout :: string
  lg_stderr :: string
  lg_names :: "(string \<times> nat) list"
  lg_contents :: "nat \<Rightarrow> string"
  lg_fresh :: nat

definition LOGL_NORMAL :: uint8 where "LOGL_NORMAL = 0"
definition LOGL_BASIC :: uint8 where "LOGL_BASIC = 1"
definition LOGL_DETAIL :: uint8 where "LOGL_DETAIL = 2"
definition LOGL_DEBUG :: uint8 where "LOGL_DEBUG = 3"

definition LogLevels :: nat where "LogLevels = 4"
definition Colors :: nat where "Colors = 15"
definition LRED :: nat where "LRED = 9"
definition LOG_FILTER_ALL :: uint32 where "LOG_FILTER_ALL = 0xffffffff"

section \<open>Files\<close>

text \<open>\<^verbatim>\<open>fopen(path, "a")\<close>, \<^verbatim>\<open>rename\<close> and appending to an open file.\<close>

definition lg_fopen :: "log_env \<Rightarrow> string \<Rightarrow> ime_log \<Rightarrow> nat option \<times> ime_log" where
  "lg_fopen e path L =
     (if \<not> lv_can_open e path then (None, L)
      else case map_of (lg_names L) path of
        Some h \<Rightarrow> (Some h, L)
      | None \<Rightarrow>
          (Some (lg_fresh L),
           L\<lparr>lg_names := omap_set path (lg_fresh L) (lg_names L), lg_contents := (lg_contents L)(lg_fresh L := []),
             lg_fresh := lg_fresh L + 1\<rparr>))"

definition lg_rename :: "string \<Rightarrow> string \<Rightarrow> ime_log \<Rightarrow> ime_log" where
  "lg_rename old new L =
     (case map_of (lg_names L) old of
        None \<Rightarrow> L
      | Some h \<Rightarrow> L\<lparr>lg_names := omap_set new h (omap_erase old (lg_names L))\<rparr>)"

definition lg_fprintf :: "nat \<Rightarrow> string \<Rightarrow> ime_log \<Rightarrow> ime_log" where
  "lg_fprintf h s L = L\<lparr>lg_contents := (lg_contents L)(h := lg_contents L h @ s)\<rparr>"

definition lg_print :: "bool \<Rightarrow> string \<Rightarrow> ime_log \<Rightarrow> ime_log" where
  "lg_print stdout_stream s L =
     (if stdout_stream then L\<lparr>lg_stdout := lg_stdout L @ s\<rparr> else L\<lparr>lg_stderr := lg_stderr L @ s\<rparr>)"

section \<open>Time stamps\<close>

text \<open>\<^verbatim>\<open>%02d\<close>, \<^verbatim>\<open>%04d\<close> and \<^verbatim>\<open>%-4d\<close>.\<close>

definition fmt_0d :: "nat \<Rightarrow> int \<Rightarrow> string" where
  "fmt_0d w i =
     (let s = dec_str (nat \<bar>i\<bar>) in
      if i < 0 then CHR ''-'' # replicate (w - 1 - length s) CHR ''0'' @ s
      else replicate (w - length s) CHR ''0'' @ s)"

definition fmt_left :: "nat \<Rightarrow> int \<Rightarrow> string" where
  "fmt_left w i = (let s = int_str i in s @ replicate (w - length s) CHR '' '')"

definition timestamp_text :: "log_env \<Rightarrow> string \<Rightarrow> string" where
  "timestamp_text e seq =
     (let t = lv_localtime e (lv_time e) in
      fmt_left 4 (tm_year t + 1900) @ ''-'' @ fmt_0d 2 (tm_mon t + 1) @ ''-'' @ fmt_0d 2 (tm_mday t) @ '' '' @
      fmt_0d 2 (tm_hour t) @ '':'' @ fmt_0d 2 (tm_min t) @ '':'' @ fmt_0d 2 (tm_sec t) @ seq)"

definition outTimestampBySeq :: "log_env \<Rightarrow> nat \<Rightarrow> string \<Rightarrow> ime_log \<Rightarrow> ime_log" where
  "outTimestampBySeq e h seq L = lg_fprintf h (timestamp_text e seq) L"

definition outTimestamp :: "log_env \<Rightarrow> nat \<Rightarrow> ime_log \<Rightarrow> ime_log" where
  "outTimestamp e h L = outTimestampBySeq e h '','' L"

definition GetTimestampStr_t :: "log_env \<Rightarrow> int \<Rightarrow> string" where
  "GetTimestampStr_t e t =
     (let t = lv_localtime e t in
      take 19 (fmt_0d 4 (tm_year t + 1900) @ ''-'' @ fmt_0d 2 (tm_mon t + 1) @ ''-'' @ fmt_0d 2 (tm_mday t) @ ''_'' @
        fmt_0d 2 (tm_hour t) @ ''-'' @ fmt_0d 2 (tm_min t) @ ''-'' @ fmt_0d 2 (tm_sec t)))"

definition GetTimestampStr :: "log_env \<Rightarrow> string" where
  "GetTimestampStr e = GetTimestampStr_t e (lv_time e)"

section \<open>Colours\<close>

text \<open>\<open>ss >> color[i]\<close>: white space, a sign, digits; no digit or a number outside \<^verbatim>\<open>int\<close> fails.\<close>

definition ss_int :: "string \<Rightarrow> (int \<times> string) option" where
  "ss_int s =
     (let s = dropWhile c_isspace s;
          neg = (s \<noteq> [] \<and> hd s = CHR ''-'');
          s = (if s \<noteq> [] \<and> (hd s = CHR ''-'' \<or> hd s = CHR ''+'') then tl s else s);
          ds = takeWhile is_digit s;
          n = (if neg then - int (dec_val ds) else int (dec_val ds))
      in if ds = [] \<or> \<not> in_int n then None else Some (n, dropWhile is_digit s))"

fun read_colors :: "nat \<Rightarrow> string \<Rightarrow> nat list option" where
  "read_colors 0 s = Some []"
| "read_colors (Suc n) s =
     do { (c, s) \<leftarrow> ss_int s;
          if c < 0 \<or> int Colors \<le> c then None
          else do { cs \<leftarrow> read_colors n s; Some (nat c # cs) } }"

definition InitColors :: "string \<Rightarrow> ime_log \<Rightarrow> ime_log" where
  "InitColors str L =
     (if str = [] then L\<lparr>lg_colored := False\<rparr>
      else case read_colors LogLevels str of
        None \<Rightarrow> L
      | Some cs \<Rightarrow> L\<lparr>lg_colors := cs, lg_colored := True\<rparr>)"

definition UnixColorFG :: "nat list" where
  "UnixColorFG = [30, 31, 32, 33, 34, 35, 36, 37, 38, 31, 32, 34, 35, 36, 37]"

definition SetColor :: "bool \<Rightarrow> nat \<Rightarrow> ime_log \<Rightarrow> ime_log" where
  "SetColor out color L =
     lg_print out ([CHR 0x1B] @ ''['' @ dec_str (UnixColorFG ! color) @
       (if 8 \<le> color \<and> color < Colors then '';1'' else []) @ ''m'') L"

definition ResetColor :: "bool \<Rightarrow> ime_log \<Rightarrow> ime_log" where
  "ResetColor out L = lg_print out ([CHR 0x1B] @ ''[0m'') L"

section \<open>Writing\<close>

text \<open>A line on a stream and a line in a file, the blocks all the functions share.\<close>

definition stream_line :: "bool \<Rightarrow> nat \<Rightarrow> string \<Rightarrow> ime_log \<Rightarrow> ime_log" where
  "stream_line out color text L =
     (let L = (if lg_colored L then SetColor out color L else L);
          L = lg_print out text L;
          L = (if lg_colored L then ResetColor out L else L)
      in lg_print out [CHR 0x0A] L)"

definition file_line :: "log_env \<Rightarrow> nat option \<Rightarrow> string \<Rightarrow> string \<Rightarrow> ime_log \<Rightarrow> ime_log" where
  "file_line e file seq text L =
     (case file of
        None \<Rightarrow> L
      | Some h \<Rightarrow> lg_fprintf h (text @ [CHR 0x0A]) (outTimestampBySeq e h seq L))"

definition level_color :: "uint8 \<Rightarrow> ime_log \<Rightarrow> nat" where
  "level_color l L = lg_colors L ! unat l"

definition outString :: "log_env \<Rightarrow> string option \<Rightarrow> string \<Rightarrow> ime_log \<Rightarrow> ime_log" where
  "outString e fmt text L =
     (case fmt of
        None \<Rightarrow> L
      | Some s \<Rightarrow>
          if lg_enableLogDB L \<and> (s = [] \<or> s = '' '') then L
          else let L = stream_line True (level_color LOGL_NORMAL L) text L in file_line e (lg_logfile L) '','' text L)"

definition outError :: "log_env \<Rightarrow> string option \<Rightarrow> string \<Rightarrow> ime_log \<Rightarrow> ime_log" where
  "outError e fmt text L =
     (if fmt = None then L
      else let L = stream_line False LRED text L in file_line e (lg_logfile L) '','' text L)"

text \<open>\<open>outBasic\<close>, \<open>outDetail\<close> and \<open>outDebug\<close> write above a level.\<close>

definition out_above :: "uint8 \<Rightarrow> uint8 \<Rightarrow> log_env \<Rightarrow> string option \<Rightarrow> string \<Rightarrow> ime_log \<Rightarrow> ime_log" where
  "out_above level color e fmt text L =
     (if fmt = None then L
      else if lg_logLevel L > level
      then let L = stream_line True (level_color color L) text L in file_line e (lg_logfile L) '','' text L
      else L)"

definition outBasic :: "log_env \<Rightarrow> string option \<Rightarrow> string \<Rightarrow> ime_log \<Rightarrow> ime_log" where
  "outBasic = out_above LOGL_NORMAL LOGL_BASIC"

definition outDetail :: "log_env \<Rightarrow> string option \<Rightarrow> string \<Rightarrow> ime_log \<Rightarrow> ime_log" where
  "outDetail = out_above LOGL_BASIC LOGL_DETAIL"

definition outDebug :: "log_env \<Rightarrow> uint32 \<Rightarrow> string option \<Rightarrow> string \<Rightarrow> ime_log \<Rightarrow> ime_log" where
  "outDebug e f fmt text L =
     (if and (lg_DebugLogMask L) f = 0 then L else out_above LOGL_DETAIL LOGL_DEBUG e fmt text L)"

definition outCharBySeq :: "log_env \<Rightarrow> string \<Rightarrow> string option \<Rightarrow> string \<Rightarrow> ime_log \<Rightarrow> ime_log" where
  "outCharBySeq e seq fmt text L =
     (if fmt = None then L
      else let L = stream_line True (level_color LOGL_NORMAL L) text L in file_line e (lg_charLogfile L) seq text L)"

definition outChar :: "log_env \<Rightarrow> string option \<Rightarrow> string \<Rightarrow> ime_log \<Rightarrow> ime_log" where
  "outChar e fmt text L = outCharBySeq e '','' fmt text L"

definition outChat :: "log_env \<Rightarrow> string option \<Rightarrow> string \<Rightarrow> ime_log \<Rightarrow> ime_log" where
  "outChat e fmt text L =
     (if fmt = None then L
      else let L = stream_line True (level_color LOGL_NORMAL L) text L in file_line e (lg_chatLogfile L) '','' text L)"

definition openGmlogPerAccount :: "log_env \<Rightarrow> (string \<Rightarrow> uint32 \<Rightarrow> string) \<Rightarrow> uint32 \<Rightarrow> ime_log \<Rightarrow> nat option \<times> ime_log" where
  "openGmlogPerAccount e fmt account L =
     (if lg_gmlog_filename_format L = [] then (None, L)
      else lg_fopen e (take 255 (fmt (lg_gmlog_filename_format L) account)) L)"

text \<open>\<open>strlv\<close> is the prefix as printed; \<open>snprintf\<close> of the file name is the parameter \<open>fmtname\<close>.\<close>

definition outGmSystem :: "log_env \<Rightarrow> (string \<Rightarrow> uint32 \<Rightarrow> string) \<Rightarrow> string \<Rightarrow> string option \<Rightarrow> string \<Rightarrow> ime_log \<Rightarrow> ime_log" where
  "outGmSystem e fmtname strlv fmt text L =
     (if fmt = None then L
      else if lg_gmlog_per_account L
      then let (file, L) = openGmlogPerAccount e fmtname 0 L in file_line e file '','' (strlv @ text) L
      else file_line e (lg_gmLogfile L) '','' text L)"

definition outOtherFile :: "log_env \<Rightarrow> string \<Rightarrow> nat option \<Rightarrow> string option \<Rightarrow> string \<Rightarrow> ime_log \<Rightarrow> ime_log" where
  "outOtherFile e key pfile fmt text L = (if fmt = None then L else file_line e pfile '','' (key @ text) L)"

text \<open>The functions the scripts log with.\<close>

definition script_text :: "uint8 \<Rightarrow> string \<Rightarrow> string \<Rightarrow> string \<Rightarrow> int \<Rightarrow> string \<Rightarrow> string" where
  "script_text level name content filename line func =
     dec_str (unat level) @ '',0,'' @ name @ '','' @ c_str filename @ '':'' @ int_str line @ '':'' @ c_str func @
     '',desc='' @ c_str content"

definition ime_log_script :: "log_env \<Rightarrow> string \<Rightarrow> string \<Rightarrow> int \<Rightarrow> string \<Rightarrow> ime_log \<Rightarrow> ime_log" where
  "ime_log_script e content filename line func =
     outBasic e (Some ''%u,0,NORMAL,%s:%d:%s,desc=%s'') (script_text LOGL_BASIC ''NORMAL'' content filename line func)"

definition ime_detail_script :: "log_env \<Rightarrow> string \<Rightarrow> string \<Rightarrow> int \<Rightarrow> string \<Rightarrow> ime_log \<Rightarrow> ime_log" where
  "ime_detail_script e content filename line func =
     outDetail e (Some ''%u,0,DETAIL,%s:%d:%s,desc=%s'') (script_text LOGL_DETAIL ''DETAIL'' content filename line func)"

definition ime_debug_script :: "log_env \<Rightarrow> string \<Rightarrow> string \<Rightarrow> int \<Rightarrow> string \<Rightarrow> ime_log \<Rightarrow> ime_log" where
  "ime_debug_script e content filename line func =
     outDebug e LOG_FILTER_ALL (Some ''%u,0,DEBUG,%s:%d:%s,desc=%s'')
       (script_text LOGL_DEBUG ''DEBUG'' content filename line func)"

definition ime_error_script :: "log_env \<Rightarrow> string \<Rightarrow> string \<Rightarrow> int \<Rightarrow> string \<Rightarrow> ime_log \<Rightarrow> ime_log" where
  "ime_error_script e content filename line func =
     outError e (Some ''%u,0,ERROR,%s:%d:%s,desc=%s'') (script_text LOGL_NORMAL ''ERROR'' content filename line func)"

definition ime_warn_script :: "log_env \<Rightarrow> string \<Rightarrow> string \<Rightarrow> int \<Rightarrow> string \<Rightarrow> ime_log \<Rightarrow> ime_log" where
  "ime_warn_script e content filename line func =
     outError e (Some ''%u,0,WARN,%s:%d:%s,desc=%s'') (script_text LOGL_NORMAL ''WARN'' content filename line func)"

section \<open>Levels\<close>

text \<open>The levels are bytes: a number above 255 loses its high bits.\<close>

definition level_of_text :: "string \<Rightarrow> uint8" where
  "level_of_text s = (let n = c_atoi_int (c_str s) in if n < 0 then 0 else word_of_int n)"

definition SetLogLevel :: "log_env \<Rightarrow> string \<Rightarrow> ime_log \<Rightarrow> ime_log" where
  "SetLogLevel e s L =
     (let L = L\<lparr>lg_logLevel := level_of_text s\<rparr> in
      outString e (Some ''LogLevel is %u'') (''LogLevel is '' @ dec_str (unat (lg_logLevel L))) L)"

definition SetLogFileLevel :: "log_env \<Rightarrow> string \<Rightarrow> ime_log \<Rightarrow> ime_log" where
  "SetLogFileLevel e s L =
     (let L = L\<lparr>lg_logFileLevel := level_of_text s\<rparr> in
      outString e (Some ''LogFileLevel is %u'') (''LogFileLevel is '' @ dec_str (unat (lg_logFileLevel L))) L)"

definition SetDBLogLevel :: "log_env \<Rightarrow> string \<Rightarrow> ime_log \<Rightarrow> ime_log" where
  "SetDBLogLevel e s L =
     (let L = L\<lparr>lg_dbLogLevel := level_of_text s\<rparr> in
      outString e (Some ''DBLogLevel is %u'') (''DBLogLevel is '' @ dec_str (unat (lg_dbLogLevel L))) L)"

definition SetDebugLogMask :: "log_env \<Rightarrow> uint32 \<Rightarrow> ime_log \<Rightarrow> ime_log" where
  "SetDebugLogMask e m L =
     (let L = L\<lparr>lg_DebugLogMask := m\<rparr> in
      outString e (Some ''debug log mask is %u'') (''debug log mask is '' @ dec_str (unat m)) L)"

definition SetRealmID :: "uint32 \<Rightarrow> ime_log \<Rightarrow> ime_log" where
  "SetRealmID realm L = L\<lparr>lg_realm := realm\<rparr>"

definition SetLogDB :: "bool \<Rightarrow> ime_log \<Rightarrow> ime_log" where
  "SetLogDB enable L = L\<lparr>lg_enableLogDB := enable\<rparr>"

definition IsOutDebug :: "ime_log \<Rightarrow> bool" where
  "IsOutDebug L \<longleftrightarrow> lg_logLevel L > 2 \<or> (lg_logFileLevel L > 2 \<and> lg_logfile L \<noteq> None)"

section \<open>Opening and changing the files\<close>

text \<open>The position of the last dot of a file name.\<close>

definition last_dot :: "string \<Rightarrow> nat option" where
  "last_dot s = (if CHR ''.'' \<in> set s then Some (length s - 1 - length (takeWhile (\<lambda>c. c \<noteq> CHR ''.'') (rev s))) else None)"

definition openLogFile :: "log_env \<Rightarrow> string \<Rightarrow> bool \<Rightarrow> ime_log \<Rightarrow> nat option \<times> ime_log" where
  "openLogFile e configFileName stamped L =
     (if configFileName = [] then (None, L)
      else
        let logfn = (if stamped
                     then (case last_dot configFileName of
                             Some p \<Rightarrow> take p configFileName @ lg_logsTimestamp L @ drop p configFileName
                           | None \<Rightarrow> configFileName @ lg_logsTimestamp L)
                     else configFileName)
        in lg_fopen e (lg_logsDir L @ logfn) L)"

definition ChangeLogFile :: "log_env \<Rightarrow> string \<Rightarrow> ime_log \<Rightarrow> ime_log" where
  "ChangeLogFile e name L =
     lg_rename (lg_logsDir L @ name) (lg_logsDir L @ name @ ''.'' @ GetTimestampStr_t e (lv_time e - 24 * 3600)) L"

definition LogFileChange :: "log_env \<Rightarrow> ime_log \<Rightarrow> ime_log" where
  "LogFileChange e L =
     (let L = ChangeLogFile e ''LogFile'' L;
          L = ChangeLogFile e ''CharLogFile'' L;
          (f, L) = openLogFile e ''LogFile'' False L;
          L = L\<lparr>lg_logfile := f\<rparr>;
          (f, L) = openLogFile e ''CharLogFile'' False L
      in L\<lparr>lg_charLogfile := f\<rparr>)"

text \<open>
  \<open>Initialize\<close>. The last statement assigns a \<^verbatim>\<open>time_t\<close> to a \<^verbatim>\<open>std::string\<close>, which keeps one character
  of it. The format of the GM log is empty, so the code that completes it is not reached.
\<close>

definition Log_Initialize :: "log_env \<Rightarrow> ime_log \<Rightarrow> ime_log" where
  "Log_Initialize e L =
     (let L = L\<lparr>lg_dbChar := False, lg_dbGM := False, lg_dbChat := False, lg_realm := 0, lg_logsDir := ''log/'',
                lg_logsTimestamp := ''_'' @ GetTimestampStr e\<rparr>;
          (f, L) = openLogFile e ''LogFile'' False L;
          L = InitColors ''2 11 5 4'' (L\<lparr>lg_logfile := f\<rparr>);
          L = L\<lparr>lg_gmlog_per_account := False, lg_gmlog_filename_format := []\<rparr>;
          (f, L) = openLogFile e ''CharLogFile'' False L
      in L\<lparr>lg_charLogfile := f, lg_logLevel := LOGL_DEBUG, lg_logFileLevel := LOGL_DEBUG, lg_dbLogLevel := LOGL_DEBUG,
           lg_DebugLogMask := LOG_FILTER_ALL, lg_logsTimestamp := [char_of (nat (lv_time e mod 256))]\<rparr>)"

text \<open>A new object in a file system with the given names, contents and next number.\<close>

definition Log_new :: "log_env \<Rightarrow> (string \<times> nat) list \<Rightarrow> (nat \<Rightarrow> string) \<Rightarrow> nat \<Rightarrow> ime_log" where
  "Log_new e names contents fresh =
     Log_Initialize e
       \<lparr>lg_logfile = None, lg_gmLogfile = None, lg_charLogfile = None, lg_chatLogfile = None, lg_logsDir = [],
        lg_logsTimestamp = [], lg_gmlog_per_account = False, lg_gmlog_filename_format = [], lg_enableLogDB = False,
        lg_realm = 0, lg_colored = False, lg_colors = replicate 4 0, lg_dbLogLevel = 0, lg_logLevel = 0,
        lg_logFileLevel = 0, lg_dbChar = False, lg_dbGM = False, lg_dbChat = False, lg_DebugLogMask = 0,
        lg_stdout = [], lg_stderr = [], lg_names = names, lg_contents = contents, lg_fresh = fresh\<rparr>"

text \<open>The one object of the process, made at its first use.\<close>

definition Log_Instance :: "log_env \<Rightarrow> (string \<times> nat) list \<Rightarrow> (nat \<Rightarrow> string) \<Rightarrow> nat \<Rightarrow> ime_log option \<Rightarrow> ime_log" where
  "Log_Instance e names contents fresh inst = (case inst of None \<Rightarrow> Log_new e names contents fresh | Some L \<Rightarrow> L)"

text \<open>The destructor closes the files.\<close>

definition Log_destroy :: "ime_log \<Rightarrow> ime_log" where
  "Log_destroy L = L\<lparr>lg_logfile := None, lg_gmLogfile := None, lg_charLogfile := None, lg_chatLogfile := None\<rparr>"

end
