(* ===== verification/Log_Change.thy ===== *)
theory Log_Change
  imports Log_File
begin

text \<open>
  The daily change of the log files: no line of the log is lost. A run is a sequence of log calls
  and changes; the lemmas follow the names of the files and the contents behind them.
\<close>

section \<open>Runs\<close>

datatype log_op =
    LogString "string option" string
  | LogError "string option" string
  | LogBasic "string option" string
  | LogDetail "string option" string
  | LogDebug uint32 "string option" string
  | LogChar string "string option" string
  | LogChat "string option" string
  | LogChange

fun log_apply :: "log_env \<times> log_op \<Rightarrow> ime_log \<Rightarrow> ime_log" where
  "log_apply (e, LogString fmt text) L = outString e fmt text L"
| "log_apply (e, LogError fmt text) L = outError e fmt text L"
| "log_apply (e, LogBasic fmt text) L = outBasic e fmt text L"
| "log_apply (e, LogDetail fmt text) L = outDetail e fmt text L"
| "log_apply (e, LogDebug f fmt text) L = outDebug e f fmt text L"
| "log_apply (e, LogChar seq fmt text) L = outCharBySeq e seq fmt text L"
| "log_apply (e, LogChat fmt text) L = outChat e fmt text L"
| "log_apply (e, LogChange) L = LogFileChange e L"

definition log_run :: "(log_env \<times> log_op) list \<Rightarrow> ime_log \<Rightarrow> ime_log" where
  "log_run evs L = fold log_apply evs L"

text \<open>The line a call adds to the log file, from its level, filter and format.\<close>

definition line_text :: "log_env \<Rightarrow> string \<Rightarrow> string \<Rightarrow> string" where
  "line_text e seq text = timestamp_text e seq @ text @ [CHR 0x0A]"

fun log_writes :: "log_op \<Rightarrow> ime_log \<Rightarrow> string option" where
  "log_writes (LogString fmt text) L =
     (case fmt of None \<Rightarrow> None
      | Some s \<Rightarrow> if lg_enableLogDB L \<and> (s = [] \<or> s = '' '') then None else Some text)"
| "log_writes (LogError fmt text) L = (if fmt = None then None else Some text)"
| "log_writes (LogBasic fmt text) L = (if fmt = None \<or> \<not> lg_logLevel L > 0 then None else Some text)"
| "log_writes (LogDetail fmt text) L = (if fmt = None \<or> \<not> lg_logLevel L > 1 then None else Some text)"
| "log_writes (LogDebug f fmt text) L =
     (if and (lg_DebugLogMask L) f = 0 \<or> fmt = None \<or> \<not> lg_logLevel L > 2 then None else Some text)"
| "log_writes _ L = None"

definition log_line :: "log_env \<times> log_op \<Rightarrow> ime_log \<Rightarrow> string" where
  "log_line ev L = (case log_writes (snd ev) L of None \<Rightarrow> [] | Some text \<Rightarrow> line_text (fst ev) '','' text)"

text \<open>The lines of a run; no call changes what they depend on.\<close>

definition log_lines :: "(log_env \<times> log_op) list \<Rightarrow> ime_log \<Rightarrow> string" where
  "log_lines evs L = concat (map (\<lambda>ev. log_line ev L) evs)"

definition stored_name :: "log_env \<Rightarrow> string \<Rightarrow> string" where
  "stored_name e name = ''log/'' @ name @ ''.'' @ GetTimestampStr_t e (lv_time e - 24 * 3600)"

text \<open>
  A change finds the two new names unused and can open the files again.
\<close>

fun change_ok :: "log_env \<times> log_op \<Rightarrow> ime_log \<Rightarrow> bool" where
  "change_ok (e, LogChange) L \<longleftrightarrow>
     map_of (lg_names L) (stored_name e ''LogFile'') = None \<and> map_of (lg_names L) (stored_name e ''CharLogFile'') = None \<and>
     lv_can_open e ''log/LogFile'' \<and> lv_can_open e ''log/CharLogFile''"
| "change_ok ev L \<longleftrightarrow> True"

fun changes_ok :: "(log_env \<times> log_op) list \<Rightarrow> ime_log \<Rightarrow> bool" where
  "changes_ok [] L \<longleftrightarrow> True"
| "changes_ok (ev # evs) L \<longleftrightarrow> change_ok ev L \<and> changes_ok evs (log_apply ev L)"

fun change_names :: "(log_env \<times> log_op) list \<Rightarrow> string list" where
  "change_names [] = []"
| "change_names ((e, LogChange) # evs) = stored_name e ''LogFile'' # change_names evs"
| "change_names (_ # evs) = change_names evs"

definition file_text :: "ime_log \<Rightarrow> string \<Rightarrow> string" where
  "file_text L path = (case map_of (lg_names L) path of None \<Rightarrow> [] | Some h \<Rightarrow> lg_contents L h)"

section \<open>The invariant\<close>

text \<open>
  A content has one name, the open files are the ones of their names, and the chat and GM files
  are never opened.
\<close>

definition log_ok :: "ime_log \<Rightarrow> bool" where
  "log_ok L \<longleftrightarrow>
     omap_ok (lg_names L) \<and>
     (\<forall>p q. map_of (lg_names L) p = map_of (lg_names L) q \<longrightarrow> map_of (lg_names L) p \<noteq> None \<longrightarrow> p = q) \<and>
     (\<forall>p h. map_of (lg_names L) p = Some h \<longrightarrow> h < lg_fresh L) \<and>
     lg_logsDir L = ''log/'' \<and>
     (\<exists>h. lg_logfile L = Some h \<and> map_of (lg_names L) ''log/LogFile'' = Some h) \<and>
     (\<exists>c. lg_charLogfile L = Some c \<and> map_of (lg_names L) ''log/CharLogFile'' = Some c) \<and>
     lg_chatLogfile L = None \<and> lg_gmLogfile L = None"

text \<open>What a call leaves alone.\<close>

definition log_frame :: "ime_log \<Rightarrow> ime_log \<Rightarrow> bool" where
  "log_frame L L' \<longleftrightarrow>
     lg_names L' = lg_names L \<and> lg_fresh L' = lg_fresh L \<and> lg_logsDir L' = lg_logsDir L \<and>
     lg_logfile L' = lg_logfile L \<and> lg_charLogfile L' = lg_charLogfile L \<and>
     lg_chatLogfile L' = lg_chatLogfile L \<and> lg_gmLogfile L' = lg_gmLogfile L"

definition log_settings :: "ime_log \<Rightarrow> bool \<times> uint8 \<times> uint32" where
  "log_settings L = (lg_enableLogDB L, lg_logLevel L, lg_DebugLogMask L)"

named_theorems log_simps \<open>what the streams and files of the log leave alone\<close>

lemma lg_print_simps [log_simps]:
  "log_frame L (lg_print out s L)" "lg_contents (lg_print out s L) = lg_contents L"
  "log_settings (lg_print out s L) = log_settings L"
  by (auto simp: lg_print_def log_frame_def log_settings_def)

lemma log_frame_trans: "log_frame L M \<Longrightarrow> log_frame M N \<Longrightarrow> log_frame L N"
  by (simp add: log_frame_def)

lemma stream_line_simps [log_simps]:
  "log_frame L (stream_line out c text L)" "lg_contents (stream_line out c text L) = lg_contents L"
  "log_settings (stream_line out c text L) = log_settings L"
  by (auto simp: stream_line_def SetColor_def ResetColor_def Let_def lg_print_def log_frame_def log_settings_def)

lemma file_line_simps [log_simps]:
  "log_frame L (file_line e f seq text L)" "log_settings (file_line e f seq text L) = log_settings L"
  by (auto simp: file_line_def outTimestampBySeq_def lg_fprintf_def log_frame_def log_settings_def split: option.split)

lemma file_line_contents:
  "lg_contents (file_line e f seq text L) h =
   lg_contents L h @ (if f = Some h then line_text e seq text else [])"
  by (auto simp: file_line_def outTimestampBySeq_def lg_fprintf_def line_text_def split: option.split)

lemma frame_logfile: "log_frame L L' \<Longrightarrow> lg_logfile L' = lg_logfile L \<and> lg_charLogfile L' = lg_charLogfile L \<and> lg_chatLogfile L' = lg_chatLogfile L"
  by (simp add: log_frame_def)

lemma write_simps:
  assumes "snd ev \<noteq> LogChange"
  shows "log_frame L (log_apply ev L)" and "log_settings (log_apply ev L) = log_settings L"
    and "lg_logfile L = Some h \<Longrightarrow> lg_charLogfile L \<noteq> Some h \<Longrightarrow> lg_chatLogfile L = None \<Longrightarrow>
           lg_contents (log_apply ev L) h = lg_contents L h @ log_line ev L"
    and "lg_logfile L \<noteq> Some h \<Longrightarrow> lg_charLogfile L \<noteq> Some h \<Longrightarrow> lg_chatLogfile L = None \<Longrightarrow>
           lg_contents (log_apply ev L) h = lg_contents L h"
proof -
  note defs = outString_def outError_def outBasic_def outDetail_def outDebug_def out_above_def outCharBySeq_def
    outChat_def Let_def
  obtain e op where ev: "ev = (e, op)" by fastforce
  have f: "log_frame L (file_line e g s t (stream_line out c u L))" for g s t out c u
    by (rule log_frame_trans [OF stream_line_simps(1) file_line_simps(1)])
  have "log_frame L L" by (simp add: log_frame_def)
  with assms f show "log_frame L (log_apply ev L)"
    by (cases op) (auto simp: ev defs split: option.split)
  from assms show "log_settings (log_apply ev L) = log_settings L"
    by (cases op) (auto simp: ev defs log_simps split: option.split)
  have g: "lg_logfile (stream_line out c u L) = lg_logfile L" "lg_charLogfile (stream_line out c u L) = lg_charLogfile L"
    "lg_chatLogfile (stream_line out c u L) = lg_chatLogfile L" for out c u
    using frame_logfile [OF stream_line_simps(1)] by blast+
  show "lg_contents (log_apply ev L) h = lg_contents L h @ log_line ev L"
    if "lg_logfile L = Some h" "lg_charLogfile L \<noteq> Some h" "lg_chatLogfile L = None"
    using assms that
    by (cases op) (auto simp: ev defs log_simps file_line_contents g log_line_def LOGL_NORMAL_def LOGL_BASIC_def
        LOGL_DETAIL_def LOGL_DEBUG_def split: option.split)
  show "lg_contents (log_apply ev L) h = lg_contents L h"
    if "lg_logfile L \<noteq> Some h" "lg_charLogfile L \<noteq> Some h" "lg_chatLogfile L = None"
    using assms that
    by (cases op) (auto simp: ev defs log_simps file_line_contents g split: option.split)
qed

lemma frame_ok: "log_ok L \<Longrightarrow> log_frame L L' \<Longrightarrow> log_ok L'"
  by (auto simp: log_ok_def log_frame_def)


section \<open>The change\<close>

lemma rename_names:
  "omap_ok (lg_names L) \<Longrightarrow> map_of (lg_names L) old = Some h \<Longrightarrow>
   map_of (lg_names (lg_rename old new L)) = (map_of (lg_names L))(old := None, new \<mapsto> h) \<and>
   omap_ok (lg_names (lg_rename old new L))"
  by (simp add: lg_rename_def omap_simps)

lemma rename_frame:
  "lg_contents (lg_rename old new L) = lg_contents L" "lg_fresh (lg_rename old new L) = lg_fresh L"
  "lg_logsDir (lg_rename old new L) = lg_logsDir L" "log_settings (lg_rename old new L) = log_settings L"
  "lg_chatLogfile (lg_rename old new L) = lg_chatLogfile L" "lg_gmLogfile (lg_rename old new L) = lg_gmLogfile L"
  by (auto simp: lg_rename_def log_settings_def split: option.split)

text \<open>A change as one step on the names and contents.\<close>

lemma LogFileChange_step:
  assumes ok: "log_ok L" and ch: "change_ok (e, LogChange) L"
  shows "\<exists>h c. lg_logfile L = Some h \<and> lg_charLogfile L = Some c \<and>
    map_of (lg_names (LogFileChange e L)) =
      (map_of (lg_names L))(stored_name e ''LogFile'' \<mapsto> h, stored_name e ''CharLogFile'' \<mapsto> c,
         ''log/LogFile'' \<mapsto> lg_fresh L, ''log/CharLogFile'' \<mapsto> lg_fresh L + 1) \<and>
    omap_ok (lg_names (LogFileChange e L)) \<and>
    lg_contents (LogFileChange e L) = (lg_contents L)(lg_fresh L := [], lg_fresh L + 1 := []) \<and>
    lg_fresh (LogFileChange e L) = lg_fresh L + 2 \<and>
    lg_logfile (LogFileChange e L) = Some (lg_fresh L) \<and> lg_charLogfile (LogFileChange e L) = Some (lg_fresh L + 1) \<and>
    lg_logsDir (LogFileChange e L) = ''log/'' \<and> lg_chatLogfile (LogFileChange e L) = None \<and>
    lg_gmLogfile (LogFileChange e L) = None \<and> log_settings (LogFileChange e L) = log_settings L"
proof -
  let ?d = "''log/LogFile''" and ?c = "''log/CharLogFile''"
  let ?s = "stored_name e ''LogFile''" and ?t = "stored_name e ''CharLogFile''"
  from ok obtain h c where h: "map_of (lg_names L) ?d = Some h" "lg_logfile L = Some h"
    and c: "map_of (lg_names L) ?c = Some c" "lg_charLogfile L = Some c" by (auto simp: log_ok_def)
  have ne: "?s \<noteq> ?d" "?s \<noteq> ?c" "?t \<noteq> ?d" "?t \<noteq> ?c" "?s \<noteq> ?t" by (simp_all add: stored_name_def)
  let ?L1 = "lg_rename ?d ?s L"
  let ?L2 = "lg_rename ?c ?t ?L1"
  have dir: "lg_logsDir L = ''log/''" and om: "omap_ok (lg_names L)" using ok by (simp_all add: log_ok_def)
  have n1: "map_of (lg_names ?L1) = (map_of (lg_names L))(?d := None, ?s \<mapsto> h)" "omap_ok (lg_names ?L1)"
    using rename_names [OF om h(1)] by simp_all
  have c1: "map_of (lg_names ?L1) ?c = Some c" using n1(1) c(1) ne by simp
  have n2: "map_of (lg_names ?L2) = (map_of (lg_names ?L1))(?c := None, ?t \<mapsto> c)" "omap_ok (lg_names ?L2)"
    using rename_names [OF n1(2) c1] by simp_all
  have fresh: "lg_fresh ?L2 = lg_fresh L" and cont: "lg_contents ?L2 = lg_contents L" by (simp_all add: rename_frame)
  have open1: "map_of (lg_names ?L2) ?d = None" and open2: "map_of (lg_names ?L2) ?c = None"
    using n1(1) n2(1) ne by simp_all
  define L3 where "L3 = ?L2\<lparr>lg_names := omap_set ?d (lg_fresh L) (lg_names ?L2),
      lg_contents := (lg_contents L)(lg_fresh L := []), lg_fresh := lg_fresh L + 1, lg_logfile := Some (lg_fresh L)\<rparr>"
  have c3: "map_of (lg_names L3) ?c = None"
    using open2 n2(2) by (simp add: L3_def map_of_omap_set)
  define L4 where "L4 = L3\<lparr>lg_names := omap_set ?c (lg_fresh L + 1) (lg_names L3),
      lg_contents := (lg_contents L3)(lg_fresh L + 1 := []), lg_fresh := lg_fresh L + 2,
      lg_charLogfile := Some (lg_fresh L + 1)\<rparr>"
  have cf: "ChangeLogFile e ''CharLogFile'' (ChangeLogFile e ''LogFile'' L) = ?L2"
    by (simp add: ChangeLogFile_def dir rename_frame stored_name_def)
  have op1: "openLogFile e ''LogFile'' False ?L2 =
      (Some (lg_fresh L), ?L2\<lparr>lg_names := omap_set ?d (lg_fresh L) (lg_names ?L2),
         lg_contents := (lg_contents L)(lg_fresh L := []), lg_fresh := lg_fresh L + 1\<rparr>)"
    using ch open1 by (simp add: openLogFile_def lg_fopen_def rename_frame dir fresh cont Let_def)
  have fr3: "lg_fresh L3 = lg_fresh L + 1" "lg_logsDir L3 = ''log/''" by (simp_all add: L3_def rename_frame dir)
  have op2: "openLogFile e ''CharLogFile'' False L3 =
      (Some (lg_fresh L + 1), L3\<lparr>lg_names := omap_set ?c (lg_fresh L + 1) (lg_names L3),
         lg_contents := (lg_contents L3)(lg_fresh L + 1 := []), lg_fresh := lg_fresh L + 2\<rparr>)"
    using ch c3 by (simp add: openLogFile_def lg_fopen_def fr3 Let_def)
  have change: "LogFileChange e L = L4"
    by (simp only: LogFileChange_def cf op1 Let_def prod.case L3_def [symmetric] op2 L4_def)
  have m3: "map_of (lg_names L3) = (map_of (lg_names ?L2))(?d \<mapsto> lg_fresh L)" "omap_ok (lg_names L3)"
    using n2(2) by (simp_all add: L3_def map_of_omap_set omap_ok_set)
  have m4: "map_of (lg_names L4) = (map_of (lg_names L3))(?c \<mapsto> lg_fresh L + 1)" "omap_ok (lg_names L4)"
    using m3(2) by (simp_all add: L4_def map_of_omap_set omap_ok_set)
  have "map_of (lg_names L4) = (map_of (lg_names L))(?s \<mapsto> h, ?t \<mapsto> c, ?d \<mapsto> lg_fresh L, ?c \<mapsto> lg_fresh L + 1)"
    unfolding m4(1) m3(1) n2(1) n1(1) using ne by (auto simp: fun_eq_iff)
  moreover have "lg_contents L4 = (lg_contents L)(lg_fresh L := [], lg_fresh L + 1 := [])"
    by (simp add: L4_def L3_def)
  ultimately show ?thesis
    using h(2) c(2) m4(2) ok unfolding change
    by (simp add: L4_def L3_def rename_frame dir log_ok_def) (simp add: log_settings_def lg_rename_def split: option.split)
qed


lemma stored_ne:
  "stored_name e ''LogFile'' \<noteq> ''log/LogFile''" "stored_name e ''LogFile'' \<noteq> ''log/CharLogFile''"
  "stored_name e ''CharLogFile'' \<noteq> ''log/LogFile''" "stored_name e ''CharLogFile'' \<noteq> ''log/CharLogFile''"
  "stored_name e ''LogFile'' \<noteq> stored_name e' ''CharLogFile''"
  by (simp_all add: stored_name_def)

lemma change_keeps_ok:
  assumes ok: "log_ok L" and ch: "change_ok (e, LogChange) L"
  shows "log_ok (LogFileChange e L)"
proof -
  obtain h c where h: "lg_logfile L = Some h" "lg_charLogfile L = Some c"
    and s: "map_of (lg_names (LogFileChange e L)) =
      (map_of (lg_names L))(stored_name e ''LogFile'' \<mapsto> h, stored_name e ''CharLogFile'' \<mapsto> c,
         ''log/LogFile'' \<mapsto> lg_fresh L, ''log/CharLogFile'' \<mapsto> lg_fresh L + 1)"
    "omap_ok (lg_names (LogFileChange e L))" "lg_fresh (LogFileChange e L) = lg_fresh L + 2"
    "lg_logfile (LogFileChange e L) = Some (lg_fresh L)" "lg_charLogfile (LogFileChange e L) = Some (lg_fresh L + 1)"
    "lg_logsDir (LogFileChange e L) = ''log/''" "lg_chatLogfile (LogFileChange e L) = None"
    "lg_gmLogfile (LogFileChange e L) = None"
    using LogFileChange_step [OF ok ch] by blast
  let ?m = "map_of (lg_names L)"
  have hm: "?m ''log/LogFile'' = Some h" "?m ''log/CharLogFile'' = Some c" using ok h by (auto simp: log_ok_def)
  have bound: "n < lg_fresh L" if "?m p = Some n" for p n using ok that by (auto simp: log_ok_def)
  have inj: "p = q" if "?m p = Some n" "?m q = Some n" for p q n using ok that by (simp add: log_ok_def)
  have hb: "h < lg_fresh L" "c < lg_fresh L" "h \<noteq> c" using bound hm inj [OF hm(1)] by auto
  show ?thesis
    unfolding log_ok_def s
  proof (intro conjI allI impI, goal_cases)
    case (2 p q)
    then show ?case
      using hb inj hm by (auto split: if_splits dest: bound)
  next
    case (3 p n)
    then show ?case using hb by (auto split: if_splits dest: bound)
  qed (use stored_ne s(2) in auto)
qed

section \<open>Properties\<close>

text \<open>
  Along a run, the stored files of earlier changes and the current file hold the earlier text and
  the lines of the run.
\<close>

lemma log_line_settings: "log_settings L' = log_settings L \<Longrightarrow> log_line ev L' = log_line ev L"
  by (cases ev; cases "snd ev") (auto simp: log_line_def log_settings_def split: option.split)

lemma log_lines_settings: "log_settings L' = log_settings L \<Longrightarrow> log_lines evs L' = log_lines evs L"
  unfolding log_lines_def using log_line_settings [of L' L] by simp

lemma file_text_write:
  assumes ok: "log_ok L" and ev: "snd ev \<noteq> LogChange" and p: "p \<noteq> ''log/CharLogFile''"
  shows "file_text (log_apply ev L) p = file_text L p @ (if p = ''log/LogFile'' then log_line ev L else [])"
proof -
  obtain h c where h: "lg_logfile L = Some h" "map_of (lg_names L) ''log/LogFile'' = Some h"
    and c: "lg_charLogfile L = Some c" "map_of (lg_names L) ''log/CharLogFile'' = Some c"
    and chat: "lg_chatLogfile L = None" using ok by (auto simp: log_ok_def)
  have inj: "p = q" if "map_of (lg_names L) p = Some n" "map_of (lg_names L) q = Some n" for p q n
    using ok that by (simp add: log_ok_def)
  have names: "lg_names (log_apply ev L) = lg_names L"
    using write_simps(1) [OF ev, of L] by (simp add: log_frame_def)
  show ?thesis
  proof (cases "map_of (lg_names L) p")
    case None
    with h show ?thesis by (auto simp: file_text_def names)
  next
    case (Some n)
    have nc: "lg_charLogfile L \<noteq> Some n" using inj [OF Some] c p by auto
    show ?thesis
    proof (cases "p = ''log/LogFile''")
      case True
      with Some h have "n = h" by simp
      with write_simps(3) [OF ev, of L h] nc chat h Some True show ?thesis by (simp add: file_text_def names)
    next
      case False
      then have "lg_logfile L \<noteq> Some n" using inj [OF Some] h by auto
      with write_simps(4) [OF ev, of L n] nc chat Some False show ?thesis by (simp add: file_text_def names)
    qed
  qed
qed

lemma file_text_change:
  assumes ok: "log_ok L" and ch: "change_ok (e, LogChange) L"
  shows "file_text (LogFileChange e L) (stored_name e ''LogFile'') = file_text L ''log/LogFile''"
    and "file_text (LogFileChange e L) ''log/LogFile'' = []"
    and "map_of (lg_names L) p \<noteq> None \<Longrightarrow> p \<noteq> ''log/LogFile'' \<Longrightarrow> p \<noteq> ''log/CharLogFile'' \<Longrightarrow>
           file_text (LogFileChange e L) p = file_text L p"
    and "map_of (lg_names L) p \<noteq> None \<Longrightarrow> map_of (lg_names (LogFileChange e L)) p \<noteq> None"
    and "map_of (lg_names (LogFileChange e L)) (stored_name e ''LogFile'') \<noteq> None"
proof -
  obtain h c where h: "lg_logfile L = Some h" "lg_charLogfile L = Some c"
    and s: "map_of (lg_names (LogFileChange e L)) =
      (map_of (lg_names L))(stored_name e ''LogFile'' \<mapsto> h, stored_name e ''CharLogFile'' \<mapsto> c,
         ''log/LogFile'' \<mapsto> lg_fresh L, ''log/CharLogFile'' \<mapsto> lg_fresh L + 1)"
    "lg_contents (LogFileChange e L) = (lg_contents L)(lg_fresh L := [], lg_fresh L + 1 := [])"
    using LogFileChange_step [OF ok ch] by blast
  have hm: "map_of (lg_names L) ''log/LogFile'' = Some h" using ok h by (auto simp: log_ok_def)
  have bound: "n < lg_fresh L" if "map_of (lg_names L) p = Some n" for p n using ok that by (auto simp: log_ok_def)
  have unused: "map_of (lg_names L) (stored_name e ''LogFile'') = None"
    "map_of (lg_names L) (stored_name e ''CharLogFile'') = None" using ch by simp_all
  show "file_text (LogFileChange e L) (stored_name e ''LogFile'') = file_text L ''log/LogFile''"
    using bound [OF hm] stored_ne by (simp add: file_text_def s hm)
  show "file_text (LogFileChange e L) ''log/LogFile'' = []" by (simp add: file_text_def s)
  show "file_text (LogFileChange e L) p = file_text L p"
    if "map_of (lg_names L) p \<noteq> None" "p \<noteq> ''log/LogFile''" "p \<noteq> ''log/CharLogFile''"
    using that unused bound by (fastforce simp: file_text_def s)
  show "map_of (lg_names (LogFileChange e L)) p \<noteq> None" if "map_of (lg_names L) p \<noteq> None"
    using that by (simp add: s)
  show "map_of (lg_names (LogFileChange e L)) (stored_name e ''LogFile'') \<noteq> None" by (simp add: s)
qed

lemma log_run_step:
  "log_ok L \<Longrightarrow> changes_ok evs L \<Longrightarrow> list_all (\<lambda>p. map_of (lg_names L) p \<noteq> None \<and> p \<noteq> ''log/LogFile'' \<and> p \<noteq> ''log/CharLogFile'') arch \<Longrightarrow>
   let L' = log_run evs L; ps = arch @ change_names evs in
     list_all (\<lambda>p. map_of (lg_names L') p \<noteq> None) ps \<and>
     concat (map (file_text L') ps) @ file_text L' ''log/LogFile'' =
     concat (map (file_text L) arch) @ file_text L ''log/LogFile'' @ log_lines evs L"
proof (induction evs arbitrary: L arch)
  case Nil
  then show ?case by (auto simp: log_run_def log_lines_def list_all_iff)
next
  case (Cons ev evs)
  obtain e op where ev: "ev = (e, op)" by fastforce
  let ?M = "log_apply ev L"
  have run: "log_run (ev # evs) L = log_run evs ?M" by (simp add: log_run_def)
  from Cons.prems have ch: "change_ok ev L" "changes_ok evs ?M" by simp_all
  show ?case
  proof (cases "op = LogChange")
    case False
    then have w: "snd ev \<noteq> LogChange" by (simp add: ev)
    have ok: "log_ok ?M" by (rule frame_ok [OF Cons.prems(1) write_simps(1) [OF w]])
    have names: "lg_names ?M = lg_names L" using write_simps(1) [OF w, of L] by (simp add: log_frame_def)
    have cn: "change_names (ev # evs) = change_names evs" using False by (cases op) (simp_all add: ev)
    have lines: "log_lines evs ?M = log_lines evs L"
      by (rule log_lines_settings [OF write_simps(2) [OF w]])
    have at: "concat (map (file_text ?M) arch) = concat (map (file_text L) arch)"
      using Cons.prems(3) file_text_write [OF Cons.prems(1) w]
      by (intro arg_cong [where f = concat] map_cong) (auto simp: list_all_iff)
    have cur: "file_text ?M ''log/LogFile'' = file_text L ''log/LogFile'' @ log_line ev L"
      using file_text_write [OF Cons.prems(1) w, of "''log/LogFile''"] by simp
    have "list_all (\<lambda>p. map_of (lg_names ?M) p \<noteq> None \<and> p \<noteq> ''log/LogFile'' \<and> p \<noteq> ''log/CharLogFile'') arch"
      using Cons.prems(3) names by simp
    from Cons.IH [OF ok ch(2) this] show ?thesis
      unfolding run cn Let_def lines at cur by (simp add: log_lines_def)
  next
    case True
    note change = ch(1) [unfolded ev True]
    have M: "?M = LogFileChange e L" by (simp add: ev True)
    have ok: "log_ok ?M" unfolding M by (rule change_keeps_ok [OF Cons.prems(1) change])
    note ft = file_text_change [OF Cons.prems(1) change]
    let ?s = "stored_name e ''LogFile''"
    have lines: "log_lines evs ?M = log_lines evs L"
      unfolding M using LogFileChange_step [OF Cons.prems(1) change] by (intro log_lines_settings) blast
    have arch: "list_all (\<lambda>p. map_of (lg_names ?M) p \<noteq> None \<and> p \<noteq> ''log/LogFile'' \<and> p \<noteq> ''log/CharLogFile'') (arch @ [?s])"
      using Cons.prems(3) ft(4,5) stored_ne unfolding M by (auto simp: list_all_iff)
    have at: "concat (map (file_text ?M) arch) = concat (map (file_text L) arch)"
      using Cons.prems(3) ft(3) unfolding M
      by (intro arg_cong [where f = concat] map_cong) (auto simp: list_all_iff)
    have none: "log_line ev L = []" by (simp add: log_line_def ev True)
    from Cons.IH [OF ok ch(2) arch] show ?thesis
      unfolding run Let_def lines using at ft(1,2) none by (simp add: M ev True log_lines_def)
  qed
qed

text \<open>
  C25: no line of the log file is lost or repeated by the daily changes. After any run of log calls
  and changes, the stored files in the order of the changes followed by the current file hold what
  the file held before and the lines of the run, in order. A change must find its new names unused
  (they have seconds) and the files must open again.
\<close>

theorem log_change_keeps_lines:
  assumes "log_ok L" and "changes_ok evs L"
  shows "concat (map (file_text (log_run evs L)) (change_names evs)) @ file_text (log_run evs L) ''log/LogFile'' =
         file_text L ''log/LogFile'' @ log_lines evs L"
  using log_run_step [OF assms, of "[]"] by (simp add: Let_def)

definition log_demo_env :: "int \<Rightarrow> log_env" where
  "log_demo_env t = \<lparr>lv_time = t, lv_localtime = (\<lambda>t. tm_zero\<lparr>tm_sec := t mod 60, tm_mday := t div 86400\<rparr>), lv_can_open = (\<lambda>_. True)\<rparr>"

definition log_demo :: ime_log where
  "log_demo = Log_new (log_demo_env 90000) [] (\<lambda>_. []) 0"

definition log_demo_run :: "(log_env \<times> log_op) list" where
  "log_demo_run =
     [(log_demo_env 90001, LogBasic (Some ''a'') ''a''), (log_demo_env 172800, LogChange),
      (log_demo_env 172801, LogError (Some ''b'') ''b'')]"


text \<open>A new log in an empty directory is one the property applies to.\<close>

lemma InitColors_frame: "log_frame L (InitColors str L)" "lg_contents (InitColors str L) = lg_contents L"
  by (auto simp: InitColors_def log_frame_def split: option.split)

lemma Log_new_files:
  assumes "lv_can_open e ''log/LogFile''" "lv_can_open e ''log/CharLogFile''"
  shows "lg_names (Log_new e [] contents n) = [(''log/CharLogFile'', n + 1), (''log/LogFile'', n)] \<and>
         lg_logfile (Log_new e [] contents n) = Some n \<and> lg_charLogfile (Log_new e [] contents n) = Some (n + 1) \<and>
         lg_fresh (Log_new e [] contents n) = n + 2 \<and> lg_logsDir (Log_new e [] contents n) = ''log/'' \<and>
         lg_chatLogfile (Log_new e [] contents n) = None \<and> lg_gmLogfile (Log_new e [] contents n) = None"
proof -
  have c: "lg_names (InitColors s L) = lg_names L" "lg_fresh (InitColors s L) = lg_fresh L"
    "lg_logsDir (InitColors s L) = lg_logsDir L" "lg_logfile (InitColors s L) = lg_logfile L"
    "lg_chatLogfile (InitColors s L) = lg_chatLogfile L" "lg_gmLogfile (InitColors s L) = lg_gmLogfile L" for s L
    using InitColors_frame(1) [of L s] by (simp_all add: log_frame_def)
  from assms show ?thesis
    by (simp add: Log_new_def Log_Initialize_def openLogFile_def lg_fopen_def Let_def c)
qed

lemma Log_new_ok:
  "lv_can_open e ''log/LogFile'' \<Longrightarrow> lv_can_open e ''log/CharLogFile'' \<Longrightarrow> log_ok (Log_new e [] contents n)"
  using Log_new_files [of e contents n] by (auto simp: log_ok_def split: if_splits)

theorem log_change_keeps_lines_witness:
  "concat (map (file_text (log_run log_demo_run log_demo)) (change_names log_demo_run)) @
     file_text (log_run log_demo_run log_demo) ''log/LogFile'' =
   file_text log_demo ''log/LogFile'' @ log_lines log_demo_run log_demo"
proof (rule log_change_keeps_lines)
  show "log_ok log_demo" unfolding log_demo_def by (rule Log_new_ok) (simp_all add: log_demo_env_def)
  have n: "lg_names log_demo = [(''log/CharLogFile'', 1), (''log/LogFile'', 0)]"
    using Log_new_files [of "log_demo_env 90000" "\<lambda>_. []" 0] by (simp add: log_demo_def log_demo_env_def)
  have "lg_names (outBasic (log_demo_env 90001) (Some ''a'') ''a'' log_demo) = lg_names log_demo"
    using write_simps(1) [of "(log_demo_env 90001, LogBasic (Some ''a'') ''a'')" log_demo] by (simp add: log_frame_def)
  then show "changes_ok log_demo_run log_demo"
    by (simp add: log_demo_run_def n stored_name_def log_demo_env_def)
qed

text \<open>Nothing opens the file of the chat log: \<open>outChat\<close> writes to the standard output only.\<close>

lemma chat_not_stored:
  "log_ok L \<Longrightarrow> lg_contents (outChat e fmt text L) = lg_contents L"
  by (auto simp: log_ok_def outChat_def file_line_def Let_def log_simps frame_logfile [OF stream_line_simps(1)])

text \<open>A level above 255 is taken modulo 256.\<close>

lemma level_wraps: "level_of_text ''256'' = 0"
  by code_simp

end
