(* ===== verification/I18n_String.thy ===== *)
theory I18n_String
  imports Byte_Buffer Util
begin

text \<open>
  Translated texts, \<^verbatim>\<open>I18nString\<close> and its subclasses (pitayaserver/transition/I18nString.h,
  I18nString.cpp): a constant, a format with arguments that are texts themselves, or one text per
  language. The dynamic class of an object is its constructor; a \<^verbatim>\<open>shared_ptr\<close> is an option. Texts
  are serialised as a tree behind a type byte.

  Parameters: the factory function a client registers (\<open>m_f1\<close>), and the matches of boost's regular
  expression iterator over a text with language tags.
\<close>

section \<open>Texts\<close>

datatype i18n =
    I18nConst string
  | I18nFormat "i18n option" "i18n option list"
  | I18nTag "(string \<times> string) list"

definition E_TYPE_I18STRING_TYPE_CONST :: uint8 where "E_TYPE_I18STRING_TYPE_CONST = 0"
definition E_TYPE_I18STRING_TYPE_CONFIG :: uint8 where "E_TYPE_I18STRING_TYPE_CONFIG = 1"
definition E_TYPE_I18STRING_TYPE_FORMAT :: uint8 where "E_TYPE_I18STRING_TYPE_FORMAT = 2"
definition E_TYPE_I18STRING_TYPE_TAG :: uint8 where "E_TYPE_I18STRING_TYPE_TAG = 3"

lemmas i18n_types = E_TYPE_I18STRING_TYPE_CONST_def E_TYPE_I18STRING_TYPE_CONFIG_def
  E_TYPE_I18STRING_TYPE_FORMAT_def E_TYPE_I18STRING_TYPE_TAG_def

text \<open>\<open>I18nTagString::strDefaultLang\<close> is a static variable, the parameter \<open>lang0\<close> of what reads it.\<close>

definition strDefaultLang_init :: string where
  "strDefaultLang_init = ''en''"

definition tag_Default :: "string \<Rightarrow> (string \<times> string) list \<Rightarrow> string" where
  "tag_Default lang0 m =
     (case map_of m lang0 of
        Some s \<Rightarrow> s
      | None \<Rightarrow> (case m of kv # _ \<Rightarrow> snd kv | [] \<Rightarrow> []))"

definition tag_Get :: "string \<Rightarrow> string \<Rightarrow> (string \<times> string) list \<Rightarrow> string" where
  "tag_Get lang0 lang m = (case map_of m lang of None \<Rightarrow> tag_Default lang0 m | Some s \<Rightarrow> s)"

text \<open>A null pointer in a format is dereferenced, \<^const>\<open>None\<close>.\<close>

fun i18n_Get :: "string \<Rightarrow> string \<Rightarrow> i18n \<Rightarrow> string option"
  and i18n_Get_args :: "string \<Rightarrow> string \<Rightarrow> i18n option list \<Rightarrow> string list option" where
  "i18n_Get lang0 lang (I18nConst s) = Some s"
| "i18n_Get lang0 lang (I18nFormat None args) = None"
| "i18n_Get lang0 lang (I18nFormat (Some f) args) =
     do { format \<leftarrow> i18n_Get lang0 lang f;
          vs \<leftarrow> i18n_Get_args lang0 lang args;
          StrReplace vs format }"
| "i18n_Get lang0 lang (I18nTag m) = Some (tag_Get lang0 lang m)"
| "i18n_Get_args lang0 lang [] = Some []"
| "i18n_Get_args lang0 lang (None # r) = None"
| "i18n_Get_args lang0 lang (Some a # r) =
     do { v \<leftarrow> i18n_Get lang0 lang a; vs \<leftarrow> i18n_Get_args lang0 lang r; Some (v # vs) }"

fun i18n_Default :: "string \<Rightarrow> i18n \<Rightarrow> string option"
  and i18n_Default_args :: "string \<Rightarrow> i18n option list \<Rightarrow> string list option" where
  "i18n_Default lang0 (I18nConst s) = Some s"
| "i18n_Default lang0 (I18nFormat None args) = None"
| "i18n_Default lang0 (I18nFormat (Some f) args) =
     do { format \<leftarrow> i18n_Default lang0 f;
          vs \<leftarrow> i18n_Default_args lang0 args;
          StrReplace vs format }"
| "i18n_Default lang0 (I18nTag m) = Some (tag_Default lang0 m)"
| "i18n_Default_args lang0 [] = Some []"
| "i18n_Default_args lang0 (None # r) = None"
| "i18n_Default_args lang0 (Some a # r) =
     do { v \<leftarrow> i18n_Default lang0 a; vs \<leftarrow> i18n_Default_args lang0 r; Some (v # vs) }"

fun i18n_IsNull :: "i18n \<Rightarrow> bool" where
  "i18n_IsNull (I18nConst s) \<longleftrightarrow> s = []"
| "i18n_IsNull (I18nFormat f args) \<longleftrightarrow> f = None"
| "i18n_IsNull (I18nTag m) \<longleftrightarrow> m = []"

text \<open>
  The constructor from a text such as \<^verbatim>\<open>@@zh@@... @@en@@...\<close>. The matches are (start, end, language);
  \<open>p\<close> is where the text of the current language starts.
\<close>

fun tag_parse :: "string \<Rightarrow> nat option \<Rightarrow> string \<Rightarrow> (nat \<times> nat \<times> string) list \<Rightarrow> (string \<times> string) list \<Rightarrow>
    (string \<times> string) list" where
  "tag_parse content None lang [] m = omap_insert [] content m"
| "tag_parse content (Some p) lang [] m = omap_insert lang (drop p content) m"
| "tag_parse content None lang ((st, ed, w) # r) m = tag_parse content (Some ed) w r m"
| "tag_parse content (Some p) lang ((st, ed, w) # r) m =
     tag_parse content (Some ed) w r (omap_insert lang (segment p (st - p) content) m)"

definition I18nTagString_new :: "(string \<Rightarrow> (nat \<times> nat \<times> string) list) \<Rightarrow> string \<Rightarrow> i18n" where
  "I18nTagString_new matches content = I18nTag (tag_parse content None [] (matches content) [])"

definition I18nConstString_Create :: "string \<Rightarrow> i18n option" where
  "I18nConstString_Create content = Some (I18nConst content)"

definition I18nFormatString_Create :: "i18n option \<Rightarrow> i18n option list \<Rightarrow> i18n option" where
  "I18nFormatString_Create pFormat vArgs = Some (I18nFormat pFormat vArgs)"

section \<open>Serialisation\<close>

fun i18n_Serialize :: "string \<Rightarrow> i18n \<Rightarrow> 'z byte_buffer_scheme \<Rightarrow> 'z byte_buffer_scheme option"
  and i18n_Serialize_args :: "string \<Rightarrow> i18n option list \<Rightarrow> 'z byte_buffer_scheme \<Rightarrow> 'z byte_buffer_scheme option" where
  "i18n_Serialize lang0 (I18nConst s) b =
     do { b \<leftarrow> bb_put_u8 E_TYPE_I18STRING_TYPE_CONST b; bb_put_str s b }"
| "i18n_Serialize lang0 (I18nFormat None args) b = None"
| "i18n_Serialize lang0 (I18nFormat (Some f) args) b =
     do { b \<leftarrow> bb_put_u8 E_TYPE_I18STRING_TYPE_FORMAT b;
          b \<leftarrow> i18n_Serialize lang0 f b;
          b \<leftarrow> bb_put_u32 (word_of_nat (length args)) b;
          i18n_Serialize_args lang0 args b }"
| "i18n_Serialize lang0 (I18nTag m) b =
     do { b \<leftarrow> bb_put_u8 E_TYPE_I18STRING_TYPE_TAG b;
          b \<leftarrow> bb_put_str lang0 b;
          bb_put_map bb_put_str bb_put_str m b }"
| "i18n_Serialize_args lang0 [] b = Some b"
| "i18n_Serialize_args lang0 (None # r) b = i18n_Serialize_args lang0 r b"
| "i18n_Serialize_args lang0 (Some a # r) b =
     do { b \<leftarrow> i18n_Serialize lang0 a b; i18n_Serialize_args lang0 r b }"

text \<open>
  Reading returns the object, the new value of \<open>strDefaultLang\<close> and the buffer. \<open>create\<close> is
  \<open>I18nStringFactory::Create\<close>, which the format calls for its parts.
\<close>

type_synonym 'z i18n_reader =
  "string \<Rightarrow> 'z byte_buffer_scheme \<Rightarrow> (i18n option \<times> string \<times> 'z byte_buffer_scheme) option"

fun i18n_read_args :: "'z i18n_reader \<Rightarrow> nat \<Rightarrow> string \<Rightarrow> 'z byte_buffer_scheme \<Rightarrow>
    (i18n option list \<times> string \<times> 'z byte_buffer_scheme) option" where
  "i18n_read_args create 0 lang0 b = Some ([], lang0, b)"
| "i18n_read_args create (Suc n) lang0 b =
     do { (p, lang0, b) \<leftarrow> create lang0 b;
          (ps, lang0, b) \<leftarrow> i18n_read_args create n lang0 b;
          Some (p # ps, lang0, b) }"

fun i18n_Deserialize :: "'z i18n_reader \<Rightarrow> i18n \<Rightarrow> string \<Rightarrow> 'z byte_buffer_scheme \<Rightarrow>
    (i18n \<times> string \<times> 'z byte_buffer_scheme) option" where
  "i18n_Deserialize create (I18nConst s) lang0 b =
     do { (s, b) \<leftarrow> bb_get_str b; Some (I18nConst s, lang0, b) }"
| "i18n_Deserialize create (I18nFormat f args) lang0 b =
     do { (f, lang0, b) \<leftarrow> create lang0 b;
          (dwSize, b) \<leftarrow> bb_get_u32 b;
          (ps, lang0, b) \<leftarrow> i18n_read_args create (unat dwSize) lang0 b;
          Some (I18nFormat f (args @ ps), lang0, b) }"
| "i18n_Deserialize create (I18nTag m) lang0 b =
     do { (lang0, b) \<leftarrow> bb_get_str b;
          (m, b) \<leftarrow> bb_get_map bb_get_str bb_get_str b;
          Some (I18nTag m, lang0, b) }"

text \<open>
  \<open>I18nStringFactory::Create(ByteBuffer&)\<close>. A text may nest as deep as the bytes say; \<open>fuel\<close> bounds
  the depth of the recursion.
\<close>

primrec i18n_Create :: "(uint8 \<Rightarrow> i18n option) option \<Rightarrow> nat \<Rightarrow> 'z i18n_reader" where
  "i18n_Create f1 0 = (\<lambda>lang0 b. None)"
| "i18n_Create f1 (Suc fuel) =
     (\<lambda>lang0 b.
        case f1 of
          None \<Rightarrow> Some (None, lang0, b)
        | Some f \<Rightarrow>
            do { (byType, b) \<leftarrow> bb_get_u8 b;
                 case f byType of
                   None \<Rightarrow> Some (None, lang0, b)
                 | Some t \<Rightarrow>
                     do { (t, lang0, b) \<leftarrow> i18n_Deserialize (i18n_Create f1 fuel) t lang0 b;
                          Some (Some t, lang0, b) } })"

text \<open>
  What the reading relies on of the factory function a client registers: for the type bytes of the three
  classes it returns an object of that class, a format without arguments.
\<close>

definition i18n_factory_ok :: "(uint8 \<Rightarrow> i18n option) \<Rightarrow> bool" where
  "i18n_factory_ok f \<longleftrightarrow>
     (case f E_TYPE_I18STRING_TYPE_CONST of Some (I18nConst _) \<Rightarrow> True | _ \<Rightarrow> False) \<and>
     (case f E_TYPE_I18STRING_TYPE_FORMAT of Some (I18nFormat _ args) \<Rightarrow> args = [] | _ \<Rightarrow> False) \<and>
     (case f E_TYPE_I18STRING_TYPE_TAG of Some (I18nTag _) \<Rightarrow> True | _ \<Rightarrow> False)"

section \<open>The wire format\<close>

definition str_enc :: "string \<Rightarrow> byte list" where
  "str_enc s = str_bytes s @ [0]"

definition map_enc :: "(string \<times> string) list \<Rightarrow> byte list" where
  "map_enc m = enc_vec (\<lambda>(k, v). (str_bytes k @ [0]) @ (str_bytes v @ [0])) m"

fun i18n_enc :: "string \<Rightarrow> i18n \<Rightarrow> byte list"
  and i18n_enc_args :: "string \<Rightarrow> i18n option list \<Rightarrow> byte list" where
  "i18n_enc lang0 (I18nConst s) = [0] @ str_enc s"
| "i18n_enc lang0 (I18nFormat None args) = []"
| "i18n_enc lang0 (I18nFormat (Some f) args) =
     [2] @ i18n_enc lang0 f @ le_enc 4 (length args) @ i18n_enc_args lang0 args"
| "i18n_enc lang0 (I18nTag m) = [3] @ str_enc lang0 @ map_enc m"
| "i18n_enc_args lang0 [] = []"
| "i18n_enc_args lang0 (None # r) = i18n_enc_args lang0 r"
| "i18n_enc_args lang0 (Some a # r) = i18n_enc lang0 a @ i18n_enc_args lang0 r"

definition str_ok :: "string \<Rightarrow> bool" where
  "str_ok s \<longleftrightarrow> CHR 0x00 \<notin> set s"

definition map_ok :: "(string \<times> string) list \<Rightarrow> bool" where
  "map_ok m \<longleftrightarrow> ok_vec (\<lambda>(k, v). CHR 0x00 \<notin> set k \<and> CHR 0x00 \<notin> set v) m \<and> omap_ok m"

text \<open>Texts the format can carry: no null pointer, no NUL in a string, a map in key order.\<close>

fun i18n_ok :: "i18n \<Rightarrow> bool" and i18n_ok_args :: "i18n option list \<Rightarrow> bool" where
  "i18n_ok (I18nConst s) \<longleftrightarrow> str_ok s"
| "i18n_ok (I18nFormat None args) \<longleftrightarrow> False"
| "i18n_ok (I18nFormat (Some f) args) \<longleftrightarrow> i18n_ok f \<and> length args < 2 ^ 32 \<and> i18n_ok_args args"
| "i18n_ok (I18nTag m) \<longleftrightarrow> map_ok m"
| "i18n_ok_args [] \<longleftrightarrow> True"
| "i18n_ok_args (None # r) \<longleftrightarrow> False"
| "i18n_ok_args (Some a # r) \<longleftrightarrow> i18n_ok a \<and> i18n_ok_args r"

fun i18n_depth :: "i18n \<Rightarrow> nat" and i18n_depth_args :: "i18n option list \<Rightarrow> nat" where
  "i18n_depth (I18nConst s) = 0"
| "i18n_depth (I18nFormat None args) = 0"
| "i18n_depth (I18nFormat (Some f) args) = Suc (max (i18n_depth f) (i18n_depth_args args))"
| "i18n_depth (I18nTag m) = 0"
| "i18n_depth_args [] = 0"
| "i18n_depth_args (None # r) = i18n_depth_args r"
| "i18n_depth_args (Some a # r) = max (i18n_depth a) (i18n_depth_args r)"

text \<open>The last language a reader sees, when there is a text with tags.\<close>

fun i18n_has_tag :: "i18n \<Rightarrow> bool" and i18n_has_tag_args :: "i18n option list \<Rightarrow> bool" where
  "i18n_has_tag (I18nConst s) \<longleftrightarrow> False"
| "i18n_has_tag (I18nFormat None args) \<longleftrightarrow> False"
| "i18n_has_tag (I18nFormat (Some f) args) \<longleftrightarrow> i18n_has_tag f \<or> i18n_has_tag_args args"
| "i18n_has_tag (I18nTag m) \<longleftrightarrow> True"
| "i18n_has_tag_args [] \<longleftrightarrow> False"
| "i18n_has_tag_args (None # r) \<longleftrightarrow> i18n_has_tag_args r"
| "i18n_has_tag_args (Some a # r) \<longleftrightarrow> i18n_has_tag a \<or> i18n_has_tag_args r"

section \<open>Writing appends the wire format\<close>

lemma put_str_ext:
  "bb_wf b \<Longrightarrow> str_ok s \<Longrightarrow> bb_room (length (str_enc s)) b \<Longrightarrow> bb_put_str s b = Some (bb_extend (str_enc s) b)"
  using strc.put_extend [of b s] by (simp add: str_enc_def str_ok_def)

lemma put_map_ext:
  "bb_wf b \<Longrightarrow> map_ok m \<Longrightarrow> bb_room (length (map_enc m)) b \<Longrightarrow>
   bb_put_map bb_put_str bb_put_str m b = Some (bb_extend (map_enc m) b)"
  using codec.put_extend [OF map_is_codec [OF strc.codec_axioms strc.codec_axioms], of b m]
  by (simp add: map_enc_def map_ok_def)

lemma put_type_ext:
  "bb_wf b \<Longrightarrow> bb_room (length [w]) b \<Longrightarrow> bb_put_u8 w b = Some (bb_extend [w] b)"
  using u8c.put_extend [of b w] by simp

lemma put_count_ext:
  "bb_wf b \<Longrightarrow> n < 2 ^ 32 \<Longrightarrow> bb_room (length (le_enc 4 n)) b \<Longrightarrow>
   bb_put_u32 (word_of_nat n) b = Some (bb_extend (le_enc 4 n) b)"
  using u32c.put_extend [of b "word_of_nat n"] by (simp add: unat_of_nat del: le_enc.simps)

lemma room_split: "bb_room (length (xs @ ys)) b \<Longrightarrow> bb_room (length xs) b \<and> bb_room (length ys) (bb_extend xs b)"
  by (simp add: bb_room_def)

lemma Serialize_extend:
  "bb_wf b \<Longrightarrow> str_ok lang0 \<Longrightarrow> i18n_ok t \<Longrightarrow> bb_room (length (i18n_enc lang0 t)) b \<Longrightarrow>
     i18n_Serialize lang0 t b = Some (bb_extend (i18n_enc lang0 t) b)"
  "bb_wf b \<Longrightarrow> str_ok lang0 \<Longrightarrow> i18n_ok_args args \<Longrightarrow> bb_room (length (i18n_enc_args lang0 args)) b \<Longrightarrow>
     i18n_Serialize_args lang0 args b = Some (bb_extend (i18n_enc_args lang0 args) b)"
  for b :: "'z byte_buffer_scheme"
proof (induction lang0 t b and lang0 args b rule: i18n_Serialize_i18n_Serialize_args.induct)
  case (1 lang0 s b)
  note r = room_split [OF 1(4) [unfolded i18n_enc.simps]]
  from 1 r show ?case
    by (simp add: i18n_types put_type_ext put_str_ext bb_extend_wf bb_extend_append [OF 1(1) conjunct1 [OF r]]
        del: length_Cons)
next
  case (3 lang0 f args b)
  let ?b1 = "bb_extend [2] b"
  let ?b2 = "bb_extend (i18n_enc lang0 f) ?b1"
  let ?b3 = "bb_extend (le_enc 4 (length args)) ?b2"
  from "3.prems" have ok: "i18n_ok f" "length args < 2 ^ 32" "i18n_ok_args args" by simp_all
  note r1 = room_split [OF "3.prems"(4) [unfolded i18n_enc.simps]]
  note w1 = bb_extend_wf [OF "3.prems"(1) conjunct1 [OF r1]]
  note r2 = room_split [OF conjunct2 [OF r1]]
  note w2 = bb_extend_wf [OF w1 conjunct1 [OF r2]]
  note r3 = room_split [OF conjunct2 [OF r2]]
  note w3 = bb_extend_wf [OF w2 conjunct1 [OF r3]]
  have p1: "bb_put_u8 2 b = Some ?b1" using "3.prems"(1) r1 by (intro put_type_ext) simp_all
  have p2: "i18n_Serialize lang0 f ?b1 = Some ?b2"
    using "3.IH"(1) [of ?b1] p1 w1 "3.prems"(2) ok(1) r2 by (simp add: i18n_types)
  have p3: "bb_put_u32 (word_of_nat (length args)) ?b2 = Some ?b3"
    using w2 ok(2) r3 by (intro put_count_ext) (simp_all del: length_le_enc)
  have "i18n_Serialize_args lang0 args ?b3 = Some (bb_extend (i18n_enc_args lang0 args) ?b3)"
    using "3.IH"(2) [of ?b1 ?b2 ?b3] p1 p2 p3 w3 "3.prems"(2) ok(3) r3 by (simp add: i18n_types)
  then show ?case
    using p1 p2 p3 bb_extend_append [OF w2 conjunct1 [OF r3]] bb_extend_append [OF w1 conjunct1 [OF r2]]
      bb_extend_append [OF "3.prems"(1) conjunct1 [OF r1]]
    by (simp add: i18n_types del: le_enc.simps)
next
  case (4 lang0 m b)
  note r1 = room_split [OF "4.prems"(4) [unfolded i18n_enc.simps]]
  note w1 = bb_extend_wf [OF "4.prems"(1) conjunct1 [OF r1]]
  note r2 = room_split [OF conjunct2 [OF r1]]
  note w2 = bb_extend_wf [OF w1 conjunct1 [OF r2]]
  from 4 r1 r2 w1 w2 show ?case
    using bb_extend_append [OF w1 conjunct1 [OF r2]] bb_extend_append [OF "4.prems"(1) conjunct1 [OF r1]]
    by (simp add: i18n_types put_type_ext put_str_ext put_map_ext del: length_Cons)
next
  case (7 lang0 a r b)
  note r1 = room_split [OF "7.prems"(4) [unfolded i18n_enc_args.simps]]
  note w1 = bb_extend_wf [OF "7.prems"(1) conjunct1 [OF r1]]
  from "7.prems" have ok: "i18n_ok a" "i18n_ok_args r" by simp_all
  have p: "i18n_Serialize lang0 a b = Some (bb_extend (i18n_enc lang0 a) b)"
    using "7.IH"(1) "7.prems" ok r1 by simp
  show ?case
    using p "7.IH"(2) [OF p w1 "7.prems"(2) ok(2)] r1 bb_extend_append [OF "7.prems"(1) conjunct1 [OF r1]] by simp
qed simp_all


section \<open>Reading the wire format\<close>

lemma get_str_skip:
  "bb_wf b \<Longrightarrow> str_ok s \<Longrightarrow> bb_unread b = str_enc s @ r \<Longrightarrow> bb_get_str b = Some (s, bb_skip (length (str_enc s)) b)"
  using strc.get_skip [of b s r] by (simp add: str_enc_def str_ok_def)

lemma get_map_skip:
  "bb_wf b \<Longrightarrow> map_ok m \<Longrightarrow> bb_unread b = map_enc m @ r \<Longrightarrow>
   bb_get_map bb_get_str bb_get_str b = Some (m, bb_skip (length (map_enc m)) b)"
  using codec.get_skip [OF map_is_codec [OF strc.codec_axioms strc.codec_axioms], of b m r]
  by (simp add: map_enc_def map_ok_def)

lemma get_type_skip:
  "bb_wf b \<Longrightarrow> bb_unread b = w # r \<Longrightarrow> bb_get_u8 b = Some (w, bb_skip 1 b)"
  using u8c.get_skip [of b w r] by simp

lemma get_count_skip:
  "bb_wf b \<Longrightarrow> n < 2 ^ 32 \<Longrightarrow> bb_unread b = le_enc 4 n @ r \<Longrightarrow>
   bb_get_u32 b = Some (word_of_nat n, bb_skip 4 b)"
  using u32c.get_skip [of b "word_of_nat n" r] by (simp add: unat_of_nat del: le_enc.simps)

lemma skip_rest:
  "bb_wf b \<Longrightarrow> bb_unread b = xs @ r \<Longrightarrow> bb_wf (bb_skip (length xs) b) \<and> bb_unread (bb_skip (length xs) b) = r"
  by (simp add: bb_skip_unread bb_skip_wf)

text \<open>
  With fuel above the depth, reading the wire format of a text gives the text and skips it.
  \<open>strDefaultLang\<close> becomes the writer's when there is a text with tags.
\<close>

lemma Create_skip:
  fixes b :: "'z byte_buffer_scheme"
  assumes f: "f 0 = Some (I18nConst c0)" "f 2 = Some (I18nFormat g0 [])" "f 3 = Some (I18nTag m0)"
    and lang0: "str_ok lang0"
  shows "bb_wf b \<Longrightarrow> i18n_ok t \<Longrightarrow> bb_unread b = i18n_enc lang0 t @ r \<Longrightarrow> i18n_depth t < fuel \<Longrightarrow>
           i18n_Create (Some f) fuel lang b =
           Some (Some t, (if i18n_has_tag t then lang0 else lang), bb_skip (length (i18n_enc lang0 t)) b)"
    and "bb_wf b \<Longrightarrow> i18n_ok_args args \<Longrightarrow> bb_unread b = i18n_enc_args lang0 args @ r \<Longrightarrow>
           i18n_depth_args args < fuel \<Longrightarrow>
           i18n_read_args (i18n_Create (Some f) fuel) (length args) lang b =
           Some (args, (if i18n_has_tag_args args then lang0 else lang),
                 bb_skip (length (i18n_enc_args lang0 args)) b)"
proof (induction t and args arbitrary: fuel lang b r and fuel lang b r
    rule: i18n_depth_i18n_depth_args.induct)
  case (1 s)
  obtain k where k: "fuel = Suc k" using 1(4) by (cases fuel) auto
  have un: "bb_unread b = [0] @ (str_enc s @ r)" using 1 by simp
  note sk = skip_rest [OF 1(1) un]
  have "bb_get_u8 b = Some (0, bb_skip 1 b)" using 1(1) un by (intro get_type_skip) simp_all
  moreover have "bb_get_str (bb_skip 1 b) = Some (s, bb_skip (length (str_enc s)) (bb_skip 1 b))"
    using sk 1 by (intro get_str_skip) simp_all
  ultimately show ?case by (simp add: k f)
next
  case (3 g args)
  obtain k where k: "fuel = Suc k" using "3.prems"(4) by (cases fuel) auto
  from "3.prems" k have ok: "i18n_ok g" "length args < 2 ^ 32" "i18n_ok_args args"
    "i18n_depth g < k" "i18n_depth_args args < k" by simp_all
  have un: "bb_unread b = [2] @ (i18n_enc lang0 g @ (le_enc 4 (length args) @ (i18n_enc_args lang0 args @ r)))"
    using "3.prems" by (simp del: le_enc.simps)
  note s1 = skip_rest [OF "3.prems"(1) un]
  note s2 = skip_rest [OF conjunct1 [OF s1] conjunct2 [OF s1]]
  note s3 = skip_rest [OF conjunct1 [OF s2] conjunct2 [OF s2]]
  have g1: "bb_get_u8 b = Some (2, bb_skip 1 b)" using "3.prems"(1) un by (intro get_type_skip) simp_all
  have g2: "i18n_Create (Some f) k lang (bb_skip 1 b) =
      Some (Some g, (if i18n_has_tag g then lang0 else lang), bb_skip (length (i18n_enc lang0 g)) (bb_skip 1 b))"
    using s1 ok by (intro "3.IH"(1)) simp_all
  have g3: "bb_get_u32 (bb_skip (length (i18n_enc lang0 g)) (bb_skip 1 b)) =
      Some (word_of_nat (length args), bb_skip 4 (bb_skip (length (i18n_enc lang0 g)) (bb_skip 1 b)))"
    using s2 ok by (intro get_count_skip) (simp_all del: bb_skip_skip)
  have g4: "i18n_read_args (i18n_Create (Some f) k) (length args) l
        (bb_skip 4 (bb_skip (length (i18n_enc lang0 g)) (bb_skip 1 b))) =
      Some (args, (if i18n_has_tag_args args then lang0 else l), bb_skip (length (i18n_enc_args lang0 args))
        (bb_skip 4 (bb_skip (length (i18n_enc lang0 g)) (bb_skip 1 b))))" for l
    using s3 ok by (intro "3.IH"(2)) (simp_all del: bb_skip_skip)
  have n: "unat (word_of_nat (length args) :: 32 word) = length args"
    using ok(2) by (simp add: unat_of_nat)
  show ?case
    using g1 g2 g3 g4 n by (simp add: k f add.assoc del: le_enc.simps)
next
  case (4 m)
  obtain k where k: "fuel = Suc k" using 4(4) by (cases fuel) auto
  have un: "bb_unread b = [3] @ (str_enc lang0 @ (map_enc m @ r))" using 4 by simp
  note s1 = skip_rest [OF 4(1) un]
  note s2 = skip_rest [OF conjunct1 [OF s1] conjunct2 [OF s1]]
  have "bb_get_u8 b = Some (3, bb_skip 1 b)" using 4(1) un by (intro get_type_skip) simp_all
  moreover have "bb_get_str (bb_skip 1 b) = Some (lang0, bb_skip (length (str_enc lang0)) (bb_skip 1 b))"
    using s1 lang0 by (intro get_str_skip) simp_all
  moreover have "bb_get_map bb_get_str bb_get_str (bb_skip (length (str_enc lang0)) (bb_skip 1 b)) =
      Some (m, bb_skip (length (map_enc m)) (bb_skip (length (str_enc lang0)) (bb_skip 1 b)))"
    using s2 4 by (intro get_map_skip) (simp_all del: bb_skip_skip)
  ultimately show ?case by (simp add: k f)
next
  case (7 a r' fuel lang b r)
  from "7.prems" have ok: "i18n_ok a" "i18n_ok_args r'" "i18n_depth a < fuel" "i18n_depth_args r' < fuel"
    by simp_all
  have un: "bb_unread b = i18n_enc lang0 a @ (i18n_enc_args lang0 r' @ r)" using "7.prems" by simp
  note s1 = skip_rest [OF "7.prems"(1) un]
  have "i18n_Create (Some f) fuel lang b =
      Some (Some a, (if i18n_has_tag a then lang0 else lang), bb_skip (length (i18n_enc lang0 a)) b)"
    using "7.prems"(1) ok un by (intro "7.IH"(1))
  moreover have "i18n_read_args (i18n_Create (Some f) fuel) (length r') l (bb_skip (length (i18n_enc lang0 a)) b) =
      Some (r', (if i18n_has_tag_args r' then lang0 else l),
        bb_skip (length (i18n_enc_args lang0 r')) (bb_skip (length (i18n_enc lang0 a)) b))" for l
    using s1 ok by (intro "7.IH"(2)) simp_all
  ultimately show ?case by simp
qed simp_all

section \<open>Properties\<close>

text \<open>
  C26: Round trip. A client has registered a factory function that returns an object of the class each of
  the three type bytes names (a format without arguments); the function itself is not in the repository.
  Take a text whose formats have no null format and no null argument and fewer than 2^32 arguments, whose
  strings (and the default language) have no NUL and whose language maps are in key order with fewer than
  2^32 entries, nested to any depth, whose serialised form has at most 10,000,000 bytes. Serialised into a
  fresh buffer it is created again by \<open>I18nStringFactory::Create\<close> from the same bytes, to the last one,
  for every amount of fuel above its depth. Reading a text with language tags leaves the writer's default
  language in the reader's static \<open>strDefaultLang\<close>, another text leaves it alone.
\<close>

theorem i18n_round_trip:
  assumes "i18n_ok t" and "str_ok lang0" and "length (i18n_enc lang0 t) \<le> 10000000" and "i18n_depth t < fuel"
    and "i18n_factory_ok f"
  shows "\<exists>b b'. i18n_Serialize lang0 t bb_default = Some b \<and>
           i18n_Create (Some f) fuel lang b =
             Some (Some t, (if i18n_has_tag t then lang0 else lang), b') \<and>
           bb_unread b' = []"
proof -
  let ?b = "bb_extend (i18n_enc lang0 t) bb_default"
  have wf: "bb_wf bb_default" and data: "bb_data bb_default = []"
    by (simp_all add: bb_default_def bb_wf_new)
  have room: "bb_room (length (i18n_enc lang0 t)) bb_default"
    using assms(3) by (simp add: bb_room_def bb_default_def bb_new_def)
  have put: "i18n_Serialize lang0 t bb_default = Some ?b"
    using wf assms(1,2) room by (intro Serialize_extend)
  have un: "bb_unread ?b = i18n_enc lang0 t @ []"
    using bb_extend_data [OF wf] data by (simp add: bb_unread_def) (simp add: bb_default_def bb_new_def)
  obtain c0 g0 m0 where f: "f 0 = Some (I18nConst c0)" "f 2 = Some (I18nFormat g0 [])" "f 3 = Some (I18nTag m0)"
    using assms(5) by (auto simp: i18n_factory_ok_def i18n_types split: option.splits i18n.splits)
  have "i18n_Create (Some f) fuel lang ?b =
      Some (Some t, (if i18n_has_tag t then lang0 else lang), bb_skip (length (i18n_enc lang0 t)) ?b)"
    using bb_extend_wf [OF wf room] assms un
    by (intro Create_skip(1) [OF f]) simp_all
  moreover have "bb_unread (bb_skip (length (i18n_enc lang0 t)) ?b) = []"
    using un by (simp add: bb_skip_unread)
  ultimately show ?thesis using put by blast
qed

text \<open>A function such as a client registers, for the example.\<close>

definition i18n_demo_factory :: "uint8 \<Rightarrow> i18n option" where
  "i18n_demo_factory t =
     (if t = 0 then Some (I18nConst []) else if t = 2 then Some (I18nFormat None [])
      else if t = 3 then Some (I18nTag []) else None)"

definition i18n_demo :: i18n where
  "i18n_demo = I18nFormat (Some (I18nTag [(''en'', ''hi {0}''), (''zh'', ''ni hao {0}'')])) [Some (I18nConst ''Bob'')]"

lemma i18n_round_trip_witness:
  "\<exists>b b'. i18n_Serialize ''en'' i18n_demo bb_default = Some b \<and>
     i18n_Create (Some i18n_demo_factory) 2 ''zh'' b = Some (Some i18n_demo, ''en'', b') \<and> bb_unread b' = []"
proof -
  have "i18n_ok i18n_demo" "str_ok ''en''" "length (i18n_enc ''en'' i18n_demo) \<le> 10000000" "i18n_depth i18n_demo < 2"
    "i18n_has_tag i18n_demo"
    by (simp_all add: i18n_demo_def str_ok_def map_ok_def ok_vec_def str_enc_def map_enc_def enc_vec_def)
  moreover have "i18n_factory_ok i18n_demo_factory"
    by (simp add: i18n_factory_ok_def i18n_demo_factory_def i18n_types)
  ultimately show ?thesis using i18n_round_trip [of i18n_demo "''en''" 2 i18n_demo_factory "''zh''"] by simp
qed

text \<open>A null argument is counted but not written, so a reader takes later bytes for it.\<close>

lemma null_argument_shifts:
  "i18n_enc lang0 (I18nFormat (Some f) [None, Some (I18nConst s)]) =
   [2] @ i18n_enc lang0 f @ le_enc 4 2 @ [0] @ str_enc s"
  by (simp add: numeral_2_eq_2)

end
