(* ===== verification/Md5.thy ===== *)
theory Md5
  imports Prelude
begin

text \<open>
  The class \<^verbatim>\<open>MD5\<close> (pitayaserver/framework/md5.h, md5.cpp): the message digest over pieces of input.

  The object is a record with the source's fields; the constructors leave \<open>_buffer\<close> and \<open>_digest\<close>
  as they are in memory, so a new object takes them as arguments. \<open>md5_ref\<close> is the reference the
  pieces are compared with: padding to whole blocks, then one pass over the blocks.
\<close>

section \<open>The basic functions\<close>

definition md5_S11 :: nat where "md5_S11 = 7"
definition md5_S12 :: nat where "md5_S12 = 12"
definition md5_S13 :: nat where "md5_S13 = 17"
definition md5_S14 :: nat where "md5_S14 = 22"
definition md5_S21 :: nat where "md5_S21 = 5"
definition md5_S22 :: nat where "md5_S22 = 9"
definition md5_S23 :: nat where "md5_S23 = 14"
definition md5_S24 :: nat where "md5_S24 = 20"
definition md5_S31 :: nat where "md5_S31 = 4"
definition md5_S32 :: nat where "md5_S32 = 11"
definition md5_S33 :: nat where "md5_S33 = 16"
definition md5_S34 :: nat where "md5_S34 = 23"
definition md5_S41 :: nat where "md5_S41 = 6"
definition md5_S42 :: nat where "md5_S42 = 10"
definition md5_S43 :: nat where "md5_S43 = 15"
definition md5_S44 :: nat where "md5_S44 = 21"

lemmas md5_shifts = md5_S11_def md5_S12_def md5_S13_def md5_S14_def md5_S21_def md5_S22_def md5_S23_def
  md5_S24_def md5_S31_def md5_S32_def md5_S33_def md5_S34_def md5_S41_def md5_S42_def md5_S43_def md5_S44_def

definition md5_F :: "uint32 \<Rightarrow> uint32 \<Rightarrow> uint32 \<Rightarrow> uint32" where
  "md5_F x y z = or (and x y) (and (not x) z)"

definition md5_G :: "uint32 \<Rightarrow> uint32 \<Rightarrow> uint32 \<Rightarrow> uint32" where
  "md5_G x y z = or (and x z) (and y (not z))"

definition md5_H :: "uint32 \<Rightarrow> uint32 \<Rightarrow> uint32 \<Rightarrow> uint32" where
  "md5_H x y z = xor (xor x y) z"

definition md5_I :: "uint32 \<Rightarrow> uint32 \<Rightarrow> uint32 \<Rightarrow> uint32" where
  "md5_I x y z = xor y (or x (not z))"

definition ROTATE_LEFT :: "uint32 \<Rightarrow> nat \<Rightarrow> uint32" where
  "ROTATE_LEFT x n = or (push_bit n x) (drop_bit (32 - n) x)"

text \<open>The value the macros leave in their first argument.\<close>

definition md5_FF :: "uint32 \<Rightarrow> uint32 \<Rightarrow> uint32 \<Rightarrow> uint32 \<Rightarrow> uint32 \<Rightarrow> nat \<Rightarrow> uint32 \<Rightarrow> uint32" where
  "md5_FF a b c d x s ac = ROTATE_LEFT (a + (md5_F b c d + x + ac)) s + b"

definition md5_GG :: "uint32 \<Rightarrow> uint32 \<Rightarrow> uint32 \<Rightarrow> uint32 \<Rightarrow> uint32 \<Rightarrow> nat \<Rightarrow> uint32 \<Rightarrow> uint32" where
  "md5_GG a b c d x s ac = ROTATE_LEFT (a + (md5_G b c d + x + ac)) s + b"

definition md5_HH :: "uint32 \<Rightarrow> uint32 \<Rightarrow> uint32 \<Rightarrow> uint32 \<Rightarrow> uint32 \<Rightarrow> nat \<Rightarrow> uint32 \<Rightarrow> uint32" where
  "md5_HH a b c d x s ac = ROTATE_LEFT (a + (md5_H b c d + x + ac)) s + b"

definition md5_II :: "uint32 \<Rightarrow> uint32 \<Rightarrow> uint32 \<Rightarrow> uint32 \<Rightarrow> uint32 \<Rightarrow> nat \<Rightarrow> uint32 \<Rightarrow> uint32" where
  "md5_II a b c d x s ac = ROTATE_LEFT (a + (md5_I b c d + x + ac)) s + b"

section \<open>Words and bytes\<close>

text \<open>\<open>encode\<close> and \<open>decode\<close>, four bytes a word; the lengths the code passes are those of the arrays.\<close>

fun md5_encode :: "uint32 list \<Rightarrow> byte list" where
  "md5_encode [] = []"
| "md5_encode (w # ws) =
     ucast (and w 0xff) # ucast (and (drop_bit 8 w) 0xff) # ucast (and (drop_bit 16 w) 0xff)
     # ucast (and (drop_bit 24 w) 0xff) # md5_encode ws"

fun md5_decode :: "byte list \<Rightarrow> uint32 list" where
  "md5_decode (b0 # b1 # b2 # b3 # r) =
     or (or (or (ucast b0) (push_bit 8 (ucast b1))) (push_bit 16 (ucast b2))) (push_bit 24 (ucast b3))
     # md5_decode r"
| "md5_decode _ = []"

definition md5_HEX :: string where
  "md5_HEX = ''0123456789abcdef''"

definition bytesToHexString :: "byte list \<Rightarrow> string" where
  "bytesToHexString input = concat (map (\<lambda>t. [md5_HEX ! (unat t div 16), md5_HEX ! (unat t mod 16)]) input)"

section \<open>The block transformation\<close>

definition md5_transform :: "byte list \<Rightarrow> uint32 list \<Rightarrow> uint32 list" where
  "md5_transform block state = (
     let x = md5_decode block;
     a = state ! 0; b = state ! 1; c = state ! 2; d = state ! 3;
     a = md5_FF a b c d (x ! 0) md5_S11 0xd76aa478;
     d = md5_FF d a b c (x ! 1) md5_S12 0xe8c7b756;
     c = md5_FF c d a b (x ! 2) md5_S13 0x242070db;
     b = md5_FF b c d a (x ! 3) md5_S14 0xc1bdceee;
     a = md5_FF a b c d (x ! 4) md5_S11 0xf57c0faf;
     d = md5_FF d a b c (x ! 5) md5_S12 0x4787c62a;
     c = md5_FF c d a b (x ! 6) md5_S13 0xa8304613;
     b = md5_FF b c d a (x ! 7) md5_S14 0xfd469501;
     a = md5_FF a b c d (x ! 8) md5_S11 0x698098d8;
     d = md5_FF d a b c (x ! 9) md5_S12 0x8b44f7af;
     c = md5_FF c d a b (x ! 10) md5_S13 0xffff5bb1;
     b = md5_FF b c d a (x ! 11) md5_S14 0x895cd7be;
     a = md5_FF a b c d (x ! 12) md5_S11 0x6b901122;
     d = md5_FF d a b c (x ! 13) md5_S12 0xfd987193;
     c = md5_FF c d a b (x ! 14) md5_S13 0xa679438e;
     b = md5_FF b c d a (x ! 15) md5_S14 0x49b40821;
     a = md5_GG a b c d (x ! 1) md5_S21 0xf61e2562;
     d = md5_GG d a b c (x ! 6) md5_S22 0xc040b340;
     c = md5_GG c d a b (x ! 11) md5_S23 0x265e5a51;
     b = md5_GG b c d a (x ! 0) md5_S24 0xe9b6c7aa;
     a = md5_GG a b c d (x ! 5) md5_S21 0xd62f105d;
     d = md5_GG d a b c (x ! 10) md5_S22 0x2441453;
     c = md5_GG c d a b (x ! 15) md5_S23 0xd8a1e681;
     b = md5_GG b c d a (x ! 4) md5_S24 0xe7d3fbc8;
     a = md5_GG a b c d (x ! 9) md5_S21 0x21e1cde6;
     d = md5_GG d a b c (x ! 14) md5_S22 0xc33707d6;
     c = md5_GG c d a b (x ! 3) md5_S23 0xf4d50d87;
     b = md5_GG b c d a (x ! 8) md5_S24 0x455a14ed;
     a = md5_GG a b c d (x ! 13) md5_S21 0xa9e3e905;
     d = md5_GG d a b c (x ! 2) md5_S22 0xfcefa3f8;
     c = md5_GG c d a b (x ! 7) md5_S23 0x676f02d9;
     b = md5_GG b c d a (x ! 12) md5_S24 0x8d2a4c8a;
     a = md5_HH a b c d (x ! 5) md5_S31 0xfffa3942;
     d = md5_HH d a b c (x ! 8) md5_S32 0x8771f681;
     c = md5_HH c d a b (x ! 11) md5_S33 0x6d9d6122;
     b = md5_HH b c d a (x ! 14) md5_S34 0xfde5380c;
     a = md5_HH a b c d (x ! 1) md5_S31 0xa4beea44;
     d = md5_HH d a b c (x ! 4) md5_S32 0x4bdecfa9;
     c = md5_HH c d a b (x ! 7) md5_S33 0xf6bb4b60;
     b = md5_HH b c d a (x ! 10) md5_S34 0xbebfbc70;
     a = md5_HH a b c d (x ! 13) md5_S31 0x289b7ec6;
     d = md5_HH d a b c (x ! 0) md5_S32 0xeaa127fa;
     c = md5_HH c d a b (x ! 3) md5_S33 0xd4ef3085;
     b = md5_HH b c d a (x ! 6) md5_S34 0x4881d05;
     a = md5_HH a b c d (x ! 9) md5_S31 0xd9d4d039;
     d = md5_HH d a b c (x ! 12) md5_S32 0xe6db99e5;
     c = md5_HH c d a b (x ! 15) md5_S33 0x1fa27cf8;
     b = md5_HH b c d a (x ! 2) md5_S34 0xc4ac5665;
     a = md5_II a b c d (x ! 0) md5_S41 0xf4292244;
     d = md5_II d a b c (x ! 7) md5_S42 0x432aff97;
     c = md5_II c d a b (x ! 14) md5_S43 0xab9423a7;
     b = md5_II b c d a (x ! 5) md5_S44 0xfc93a039;
     a = md5_II a b c d (x ! 12) md5_S41 0x655b59c3;
     d = md5_II d a b c (x ! 3) md5_S42 0x8f0ccc92;
     c = md5_II c d a b (x ! 10) md5_S43 0xffeff47d;
     b = md5_II b c d a (x ! 1) md5_S44 0x85845dd1;
     a = md5_II a b c d (x ! 8) md5_S41 0x6fa87e4f;
     d = md5_II d a b c (x ! 15) md5_S42 0xfe2ce6e0;
     c = md5_II c d a b (x ! 6) md5_S43 0xa3014314;
     b = md5_II b c d a (x ! 13) md5_S44 0x4e0811a1;
     a = md5_II a b c d (x ! 4) md5_S41 0xf7537e82;
     d = md5_II d a b c (x ! 11) md5_S42 0xbd3af235;
     c = md5_II c d a b (x ! 2) md5_S43 0x2ad7d2bb;
     b = md5_II b c d a (x ! 9) md5_S44 0xeb86d391
     in [state ! 0 + a, state ! 1 + b, state ! 2 + c, state ! 3 + d])"

section \<open>The object\<close>

record md5 =
  md_state :: "uint32 list"
  md_count0 :: uint32
  md_count1 :: uint32
  md_buffer :: "byte list"
  md_digest :: "byte list"
  md_finished :: bool

definition md5_PADDING :: "byte list" where
  "md5_PADDING = 0x80 # replicate 63 0"

definition md5_IV :: "uint32 list" where
  "md5_IV = [0x67452301, 0xefcdab89, 0x98badcfe, 0x10325476]"

definition MD5_reset :: "md5 \<Rightarrow> md5" where
  "MD5_reset s = s\<lparr>md_finished := False, md_count0 := 0, md_count1 := 0, md_state := md5_IV\<rparr>"

definition MD5_new :: "byte list \<Rightarrow> byte list \<Rightarrow> md5" where
  "MD5_new buf dig =
     MD5_reset \<lparr>md_state = replicate 4 0, md_count0 = 0, md_count1 = 0, md_buffer = buf, md_digest = dig,
                md_finished = False\<rparr>"

text \<open>
  The loop \<open>for (i = partLen; i + 63 < length; i += 64) transform(&input[i])\<close>. \<open>i\<close> is a 32-bit
  word and \<open>length\<close> a machine size, so \<open>i + 63\<close> may wrap: a block past the end is \<^const>\<open>None\<close>.
\<close>

partial_function (option) md5_blocks :: "uint32 \<Rightarrow> byte list \<Rightarrow> uint32 list \<Rightarrow> (uint32 \<times> uint32 list) option" where
  "md5_blocks i input st =
     (if unat (i + 63) < length input then
        (if unat i + 64 \<le> length input
         then md5_blocks (i + 64) input (md5_transform (segment (unat i) 64 input) st)
         else None)
      else Some (i, st))"

declare md5_blocks.simps [code]

text \<open>\<open>update\<close>: the byte count, the blocks, and the rest into the buffer.\<close>

definition MD5_index :: "md5 \<Rightarrow> nat" where
  "MD5_index s = unat (and (drop_bit 3 (md_count0 s)) 0x3f)"

definition MD5_count :: "byte list \<Rightarrow> md5 \<Rightarrow> md5" where
  "MD5_count input s =
     (let len = word_of_nat (length input) :: uint32;
          c0 = md_count0 s + push_bit 3 len;
          c1 = (if c0 < push_bit 3 len then md_count1 s + 1 else md_count1 s) + drop_bit 29 len
      in s\<lparr>md_count0 := c0, md_count1 := c1\<rparr>)"

definition MD5_update :: "byte list \<Rightarrow> md5 \<Rightarrow> md5 option" where
  "MD5_update input s =
     do { let index = MD5_index s;
          let s = MD5_count input (s\<lparr>md_finished := False\<rparr>);
          let partLen = 64 - index;
          if partLen \<le> length input
          then do {
            let s = s\<lparr>md_buffer := overwrite index (take partLen input) (md_buffer s)\<rparr>;
            (i, st) \<leftarrow> md5_blocks (word_of_nat partLen) input (md5_transform (md_buffer s) (md_state s));
            let s = s\<lparr>md_state := st\<rparr>;
            if unat i \<le> length input \<and> length input - unat i \<le> 64
            then Some (s\<lparr>md_buffer := overwrite 0 (drop (unat i) input) (md_buffer s)\<rparr>)
            else None }
          else Some (s\<lparr>md_buffer := overwrite index input (md_buffer s)\<rparr>) }"

definition MD5_update_str :: "string \<Rightarrow> md5 \<Rightarrow> md5 option" where
  "MD5_update_str str = MD5_update (str_bytes str)"

definition MD5_final :: "md5 \<Rightarrow> md5 option" where
  "MD5_final s =
     do { let oldState = md_state s;
          let oldCount0 = md_count0 s;
          let oldCount1 = md_count1 s;
          let bits = md5_encode [md_count0 s, md_count1 s];
          let index = MD5_index s;
          let padLen = (if index < 56 then 56 - index else 120 - index);
          s \<leftarrow> MD5_update (take padLen md5_PADDING) s;
          s \<leftarrow> MD5_update bits s;
          let s = s\<lparr>md_digest := md5_encode (md_state s)\<rparr>;
          Some (s\<lparr>md_state := oldState, md_count0 := oldCount0, md_count1 := oldCount1\<rparr>) }"

text \<open>\<open>digest()\<close> returns the object's \<open>_digest\<close> array.\<close>

definition MD5_digest :: "md5 \<Rightarrow> (byte list \<times> md5) option" where
  "MD5_digest s =
     (if \<not> md_finished s then do { s \<leftarrow> MD5_final (s\<lparr>md_finished := True\<rparr>); Some (md_digest s, s) }
      else Some (md_digest s, s))"

definition MD5_toString :: "md5 \<Rightarrow> (string \<times> md5) option" where
  "MD5_toString s = do { (d, s) \<leftarrow> MD5_digest s; Some (bytesToHexString d, s) }"

text \<open>
  \<open>update(std::ifstream&)\<close>: the chunks \<open>read\<close> delivers from the content of the file, \<^const>\<open>None\<close>
  for a stream in a failed state. The rest of the last chunk is not full.
\<close>

definition md5_BUFFER_SIZE :: nat where
  "md5_BUFFER_SIZE = 1024"

function MD5_update_chunks :: "byte list \<Rightarrow> md5 \<Rightarrow> md5 option" where
  "MD5_update_chunks content s =
     (let buffer = take md5_BUFFER_SIZE content in
      do { s \<leftarrow> (if 0 < length buffer then MD5_update buffer s else Some s);
           if length buffer < md5_BUFFER_SIZE then Some s
           else MD5_update_chunks (drop md5_BUFFER_SIZE content) s })"
  by auto
termination
  by (relation "measure (\<lambda>(content, s). length content)") (auto simp: md5_BUFFER_SIZE_def)

declare MD5_update_chunks.simps [simp del]

definition MD5_update_file :: "byte list option \<Rightarrow> md5 \<Rightarrow> md5 option" where
  "MD5_update_file file s = (case file of None \<Rightarrow> Some s | Some content \<Rightarrow> MD5_update_chunks content s)"

text \<open>The constructors with input.\<close>

definition MD5_of_bytes :: "byte list \<Rightarrow> byte list \<Rightarrow> byte list \<Rightarrow> md5 option" where
  "MD5_of_bytes buf dig input = MD5_update input (MD5_new buf dig)"

definition MD5_of_str :: "byte list \<Rightarrow> byte list \<Rightarrow> string \<Rightarrow> md5 option" where
  "MD5_of_str buf dig str = MD5_update_str str (MD5_new buf dig)"

definition MD5_of_file :: "byte list \<Rightarrow> byte list \<Rightarrow> byte list option \<Rightarrow> md5 option" where
  "MD5_of_file buf dig file = MD5_update_file file (MD5_new buf dig)"

section \<open>The reference\<close>

function md5_absorb :: "byte list \<Rightarrow> uint32 list \<Rightarrow> uint32 list" where
  "md5_absorb m st = (if length m < 64 then st else md5_absorb (drop 64 m) (md5_transform (take 64 m) st))"
  by auto
termination
  by (relation "measure (\<lambda>(m, st). length m)") auto

declare md5_absorb.simps [simp del]

definition md5_tail :: "byte list \<Rightarrow> byte list" where
  "md5_tail m = drop (64 * (length m div 64)) m"

definition md5_pad :: "byte list \<Rightarrow> byte list" where
  "md5_pad m =
     m @ [0x80] @ replicate ((119 - length m mod 64) mod 64) 0 @ le_enc 8 (8 * length m)"

definition md5_ref :: "byte list \<Rightarrow> byte list" where
  "md5_ref m = md5_encode (md5_absorb (md5_pad m) md5_IV)"

text \<open>The object holds a message: its blocks are in the state, its tail in the buffer.\<close>

definition md5_holds :: "byte list \<Rightarrow> md5 \<Rightarrow> bool" where
  "md5_holds m s \<longleftrightarrow>
     md_state s = md5_absorb m md5_IV \<and> length (md_buffer s) = 64 \<and>
     take (length m mod 64) (md_buffer s) = md5_tail m \<and>
     unat (md_count0 s) = 8 * length m mod 2 ^ 32 \<and>
     unat (md_count1 s) = 8 * length m div 2 ^ 32 mod 2 ^ 32"

section \<open>Blocks\<close>

lemma md5_tail_length [simp]: "length (md5_tail m) = length m mod 64"
  by (simp add: md5_tail_def minus_mult_div_eq_mod)

lemma md5_tail_short: "length m < 64 \<Longrightarrow> md5_tail m = m"
  by (simp add: md5_tail_def)

lemma md5_tail_drop: "64 \<le> length m \<Longrightarrow> md5_tail (drop 64 m) = md5_tail m"
proof -
  assume "64 \<le> length m"
  then have "length m div 64 = Suc ((length m - 64) div 64)" by (simp add: le_div_geq)
  then show ?thesis by (simp add: md5_tail_def add.commute)
qed

lemma md5_absorb_append: "md5_absorb (m @ x) st = md5_absorb (md5_tail m @ x) (md5_absorb m st)"
proof (induction m st rule: md5_absorb.induct)
  case (1 m st)
  show ?case
  proof (cases "length m < 64")
    case True
    then show ?thesis by (simp add: md5_tail_short md5_absorb.simps [of m])
  next
    case False
    then show ?thesis
      using 1 by (simp add: md5_absorb.simps [of "m @ x"] md5_absorb.simps [of m] md5_tail_drop)
  qed
qed

lemma md5_tail_append: "md5_tail (m @ x) = md5_tail (md5_tail m @ x)"
proof (induction m rule: measure_induct_rule [of length])
  case (less m)
  show ?case
  proof (cases "length m < 64")
    case True
    then show ?thesis by (simp add: md5_tail_short)
  next
    case False
    then show ?thesis using less [of "drop 64 m"] md5_tail_drop [of "m @ x"] by (simp add: md5_tail_drop)
  qed
qed

lemma md5_blocks_absorb:
  assumes "length input < 2 ^ 32 - 64" and "unat i \<le> length input"
  shows "\<exists>i'. md5_blocks i input st = Some (i', md5_absorb (drop (unat i) input) st) \<and>
              unat i' \<le> length input \<and> drop (unat i') input = md5_tail (drop (unat i) input)"
  using assms(2)
proof (induction "length input - unat i" arbitrary: i st rule: less_induct)
  case less
  have i63: "unat (i + 63) = unat i + 63" and i64: "unat (i + 64) = unat i + 64"
    using less.prems assms(1) by (simp_all add: unat_word_ariths(1))
  show ?case
  proof (cases "unat i + 63 < length input")
    case True
    have "\<exists>i'. md5_blocks (i + 64) input (md5_transform (segment (unat i) 64 input) st) =
        Some (i', md5_absorb (drop (unat (i + 64)) input) (md5_transform (segment (unat i) 64 input) st)) \<and>
        unat i' \<le> length input \<and> drop (unat i') input = md5_tail (drop (unat (i + 64)) input)"
      using True by (intro less.hyps) (simp_all add: i64)
    moreover have "md5_absorb (drop (unat i) input) st =
        md5_absorb (drop (unat (i + 64)) input) (md5_transform (segment (unat i) 64 input) st)"
    proof -
      have "\<not> length (drop (unat i) input) < 64" using True by simp
      then show ?thesis
        by (subst md5_absorb.simps) (simp add: i64 segment_def add.commute del: length_drop)
    qed
    moreover have "md5_tail (drop (unat (i + 64)) input) = md5_tail (drop (unat i) input)"
      using md5_tail_drop [of "drop (unat i) input"] True by (simp add: i64 add.commute)
    ultimately show ?thesis
      using True by (subst md5_blocks.simps) (simp add: i63)
  next
    case False
    then have "length input - unat i < 64" by simp
    with False less.prems show ?thesis
      by (subst md5_blocks.simps) (simp add: i63 md5_tail_short md5_absorb.simps [of "drop (unat i) input" st])
  qed
qed

section \<open>The counter\<close>

text \<open>Two 32-bit words and a carry are a 64-bit counter.\<close>

lemma div_below_twice: "x < 2 * M \<Longrightarrow> x div M = (if M \<le> x then 1 else 0 :: nat)"
  by (auto intro: div_nat_eqI)

lemma div_add_carry:
  fixes a b M :: nat
  assumes "0 < M"
  shows "(a + b) div M = a div M + b div M + (if M \<le> a mod M + b mod M then 1 else 0)"
proof -
  have "a mod M + b mod M < 2 * M"
    using mod_less_divisor [OF assms, of a] mod_less_divisor [OF assms, of b] by linarith
  from div_below_twice [OF this] show ?thesis by (simp only: div_add1_eq [of a b M])
qed

lemma mod_above: "M \<le> x \<Longrightarrow> x < 2 * M \<Longrightarrow> x mod M = x - M" for x M :: nat
  by (simp add: le_mod_geq)

lemma counter_add:
  fixes c0 c1 p d :: uint32
  assumes M: "M = 2 ^ 32"
    and c: "unat c0 = A mod M" "unat c1 = A div M mod M" and p: "unat p = B mod M" and d: "unat d = B div M"
  shows "unat (c0 + p) = (A + B) mod M"
    and "unat ((if c0 + p < p then c1 + 1 else c1) + d) = (A + B) div M mod M"
proof -
  have add: "unat (v + w) = (unat v + unat w) mod M" for v w :: uint32
    by (simp add: unat_word_ariths(1) M)
  have pos: "0 < M" by (simp add: M)
  let ?s = "A mod M + B mod M"
  show "unat (c0 + p) = (A + B) mod M" by (simp add: add c p mod_add_eq)
  have "?s < 2 * M"
    using mod_less_divisor [OF pos, of A] mod_less_divisor [OF pos, of B] by linarith
  then have carry: "c0 + p < p \<longleftrightarrow> M \<le> ?s"
    using mod_less_divisor [OF pos, of A] mod_less_divisor [OF pos, of B]
    unfolding word_less_nat_alt add c p
    by (cases "M \<le> ?s") (simp_all only: mod_less not_le mod_above simp_thms, linarith+)
  have "unat ((if c0 + p < p then c1 + 1 else c1) + d) =
      (A div M + B div M + (if M \<le> ?s then 1 else 0)) mod M"
    unfolding carry by (simp add: add c d mod_simps ac_simps)
  then show "unat ((if c0 + p < p then c1 + 1 else c1) + d) = (A + B) div M mod M"
    by (simp only: div_add_carry [OF pos])
qed

lemma MD5_index_holds: "md5_holds m s \<Longrightarrow> MD5_index s = length m mod 64"
proof -
  assume h: "md5_holds m s"
  have "and (drop_bit 3 (md_count0 s)) 0x3f = take_bit 6 (drop_bit 3 (md_count0 s))"
    by (simp add: take_bit_eq_mask mask_eq_exp_minus_1)
  then have "MD5_index s = unat (md_count0 s) div 8 mod 64"
    by (simp add: MD5_index_def unat_div unat_mod take_bit_eq_mod drop_bit_eq_div)
  also have "unat (md_count0 s) = 8 * length m mod (8 * 2 ^ 29)"
    using h by (simp add: md5_holds_def)
  also have "\<dots> = 8 * (length m mod 2 ^ 29)" by (rule mult_mod_right [symmetric])
  also have "8 * (length m mod 2 ^ 29) div 8 mod 64 = length m mod 64"
    using mod_mod_cancel [of 64 "2 ^ 29 :: nat" "length m"] by simp
  finally show ?thesis .
qed

lemma MD5_count_holds:
  assumes c: "unat (md_count0 s) = 8 * L mod 2 ^ 32" "unat (md_count1 s) = 8 * L div 2 ^ 32 mod 2 ^ 32"
    and n: "length input < 2 ^ 32"
  shows "unat (md_count0 (MD5_count input s)) = 8 * (L + length input) mod 2 ^ 32"
    and "unat (md_count1 (MD5_count input s)) = 8 * (L + length input) div 2 ^ 32 mod 2 ^ 32"
proof -
  let ?n = "length input"
  have un: "unat (word_of_nat ?n :: uint32) = ?n" using n by (simp add: unat_of_nat)
  have p: "unat (push_bit 3 (word_of_nat ?n :: uint32)) = 8 * ?n mod 2 ^ 32"
    by (simp add: push_bit_eq_mult un unat_word_ariths(2) mult.commute)
  have d: "unat (drop_bit 29 (word_of_nat ?n :: uint32)) = 8 * ?n div 2 ^ 32"
    using div_mult_mult1 [of 8 ?n "2 ^ 29"] by (simp add: unat_div un drop_bit_eq_div)
  note r = counter_add [OF refl c p d]
  show "unat (md_count0 (MD5_count input s)) = 8 * (L + ?n) mod 2 ^ 32"
    using r(1) by (simp add: MD5_count_def Let_def distrib_left)
  show "unat (md_count1 (MD5_count input s)) = 8 * (L + ?n) div 2 ^ 32 mod 2 ^ 32"
    using r(2) by (simp add: MD5_count_def Let_def distrib_left)
qed

section \<open>Pieces of input\<close>

lemma take_overwrite_le: "n \<le> pos \<Longrightarrow> pos \<le> length xs \<Longrightarrow> take n (overwrite pos bs xs) = take n xs"
  by (simp add: overwrite_def)

lemma md5_tail_buffer: "md5_holds m s \<Longrightarrow> take (length m mod 64) (md_buffer s) = md5_tail m"
  by (simp add: md5_holds_def)

lemma MD5_update_holds:
  assumes h: "md5_holds m s" and n: "length input < 2 ^ 32 - 64"
  shows "\<exists>s'. MD5_update input s = Some s' \<and> md5_holds (m @ input) s' \<and> md_digest s' = md_digest s \<and>
              \<not> md_finished s' \<and>
              (length m mod 64 + length input \<le> 64 \<longrightarrow>
                 md_buffer s' = overwrite (length m mod 64) input (md_buffer s))"
proof -
  let ?k = "length m mod 64" and ?n = "length input"
  let ?s = "MD5_count input (s\<lparr>md_finished := False\<rparr>)"
  from h have st: "md_state s = md5_absorb m md5_IV" and buf: "length (md_buffer s) = 64"
    and tl: "take ?k (md_buffer s) = md5_tail m" by (simp_all add: md5_holds_def)
  have idx: "MD5_index s = ?k" using h by (rule MD5_index_holds)
  have same: "md_state ?s = md_state s" "md_buffer ?s = md_buffer s" "md_digest ?s = md_digest s" "\<not> md_finished ?s"
    by (simp_all add: MD5_count_def Let_def)
  have cnt: "unat (md_count0 ?s) = 8 * length (m @ input) mod 2 ^ 32"
    "unat (md_count1 ?s) = 8 * length (m @ input) div 2 ^ 32 mod 2 ^ 32"
    using MD5_count_holds [of "s\<lparr>md_finished := False\<rparr>" "length m" input] h n
    by (simp_all add: md5_holds_def)
  have k: "?k < 64" by simp
  have tail: "md5_tail (m @ input) = md5_tail (md5_tail m @ input)" by (rule md5_tail_append)
  have absorb: "md5_absorb (m @ input) md5_IV = md5_absorb (md5_tail m @ input) (md_state s)"
    by (simp add: md5_absorb_append [of m] st)
  show ?thesis
  proof (cases "64 - ?k \<le> ?n")
    case False
    let ?t = "?s\<lparr>md_buffer := overwrite ?k input (md_buffer s)\<rparr>"
    have short: "length (md5_tail m @ input) < 64" using False by simp
    have upd: "MD5_update input s = Some ?t"
      using False by (simp add: MD5_update_def idx same Let_def)
    have mod: "length (m @ input) mod 64 = ?k + ?n"
      using False by (simp add: mod_add_left_eq [of "length m" 64 ?n, symmetric] del: mod_add_left_eq)
    have "md5_holds (m @ input) ?t"
      unfolding md5_holds_def
    proof (intro conjI)
      show "md_state ?t = md5_absorb (m @ input) md5_IV"
        using short by (simp add: same absorb md5_absorb.simps [of "md5_tail m @ input"])
      show "length (md_buffer ?t) = 64" using False by (simp add: buf)
      show "take (length (m @ input) mod 64) (md_buffer ?t) = md5_tail (m @ input)"
        using tl short unfolding mod by (simp add: take_overwrite buf tail md5_tail_short)
    qed (use cnt in simp_all)
    then show ?thesis using upd same by simp
  next
    case True
    let ?p = "64 - ?k"
    let ?blk = "overwrite ?k (take ?p input) (md_buffer s)"
    have blk: "?blk = md5_tail m @ take ?p input"
      using True tl buf by (simp add: overwrite_def)
    have i: "unat (word_of_nat ?p :: uint32) = ?p" by (simp only: unat_of_nat) (simp add: less_imp_diff_less)
    have split: "md5_tail m @ input = ?blk @ drop ?p input" by (simp add: blk)
    have blen: "length ?blk = 64" using True by (simp add: blk)
    obtain i' where bl: "md5_blocks (word_of_nat ?p) input (md5_transform ?blk (md_state s)) =
        Some (i', md5_absorb (drop ?p input) (md5_transform ?blk (md_state s)))"
      and i': "unat i' \<le> ?n" "drop (unat i') input = md5_tail (drop ?p input)"
      using md5_blocks_absorb [OF n, of "word_of_nat ?p" "md5_transform ?blk (md_state s)"] True
      unfolding i by blast
    have rest: "?n - unat i' < 64"
      using arg_cong [OF i'(2), of length] by simp
    let ?t = "?s\<lparr>md_buffer := ?blk, md_state := md5_absorb (drop ?p input) (md5_transform ?blk (md_state s)),
        md_buffer := overwrite 0 (drop (unat i') input) ?blk\<rparr>"
    have upd: "MD5_update input s = Some ?t"
      using True bl i' rest by (simp add: MD5_update_def idx same Let_def)
    have tl': "md5_tail (m @ input) = drop (unat i') input"
      using md5_tail_drop [of "?blk @ drop ?p input"] blen by (simp add: tail split i')
    have mod: "length (m @ input) mod 64 = ?n - unat i'"
      using arg_cong [OF tl', of length] by simp
    have "md5_holds (m @ input) ?t"
      unfolding md5_holds_def
    proof (intro conjI)
      show "md_state ?t = md5_absorb (m @ input) md5_IV"
        unfolding absorb split by (subst (2) md5_absorb.simps) (simp add: blen)
      show "length (md_buffer ?t) = 64" using rest blen by simp
      show "take (length (m @ input) mod 64) (md_buffer ?t) = md5_tail (m @ input)"
        unfolding mod tl' by (simp add: overwrite_def)
    qed (use cnt in simp_all)
    moreover have "md_buffer ?t = overwrite ?k input (md_buffer s)" if "?k + ?n \<le> 64"
    proof -
      have "?n = ?p" using that True by simp
      with i'(2) have "drop (unat i') input = []" by (simp add: md5_tail_def)
      with \<open>?n = ?p\<close> show ?thesis by (simp add: overwrite_def)
    qed
    ultimately show ?thesis using upd same by simp
  qed
qed

section \<open>The digest\<close>

lemma encode_byte: "ucast (and (drop_bit n (w :: uint32)) 0xff) = (of_nat (unat w div 2 ^ n mod 256) :: byte)"
proof -
  have a: "and (drop_bit n w) 0xff = take_bit 8 (drop_bit n w)"
    by (simp add: take_bit_eq_mask mask_eq_exp_minus_1)
  have u: "unat (take_bit 8 (drop_bit n w)) = unat w div 2 ^ n mod 256"
    using unsigned_less [of w, where ?'a = nat]
    unfolding unsigned_take_bit_eq unsigned_drop_bit_eq by (simp add: take_bit_eq_mod drop_bit_eq_div)
  have "ucast (take_bit 8 (drop_bit n w)) = (of_nat (unat (take_bit 8 (drop_bit n w))) :: byte)"
    by (rule of_nat_unat [symmetric])
  then show ?thesis by (simp only: a u)
qed

lemma le_enc_4:
  "le_enc 4 v = [of_nat (v mod 256), of_nat (v div 256 mod 256), of_nat (v div 256 div 256 mod 256),
                 of_nat (v div 256 div 256 div 256 mod 256)]"
proof -
  have four: "(4 :: nat) = Suc (Suc (Suc (Suc 0)))" by simp
  show ?thesis by (simp only: four le_enc.simps)
qed

lemma md5_encode_word: "md5_encode [w] = le_enc 4 (unat w)"
  using encode_byte [of 0 w] encode_byte [of 8 w] encode_byte [of 16 w] encode_byte [of 24 w]
  by (simp add: le_enc_4 flip: div_mult2_eq)

lemma le_enc_split: "le_enc (m + n) v = le_enc m v @ le_enc n (v div 256 ^ m)"
  by (induction m arbitrary: v) (auto simp: div_mult2_eq)

lemma le_enc_mod: "le_enc n (v mod 256 ^ n) = le_enc n v"
proof (induction n arbitrary: v)
  case (Suc n)
  have "v mod (256 * 256 ^ n) div 256 = v div 256 mod 256 ^ n"
    by (simp add: mod_mult2_eq)
  moreover have "v mod (256 * 256 ^ n) mod 256 = v mod 256" by (simp add: mod_mult2_eq)
  ultimately show ?case using Suc by simp
qed simp

lemma md5_encode_count:
  assumes "unat c0 = v mod 2 ^ 32" "unat c1 = v div 2 ^ 32 mod 2 ^ 32"
  shows "md5_encode [c0, c1] = le_enc 8 v"
proof -
  have "md5_encode [c0, c1] = md5_encode [c0] @ md5_encode [c1]" by simp
  also have "\<dots> = le_enc 4 (v mod 256 ^ 4) @ le_enc 4 (v div 256 ^ 4 mod 256 ^ 4)"
    unfolding md5_encode_word assms by (simp only: power_numeral_even) simp
  also have "\<dots> = le_enc 8 v"
    using le_enc_split [of 4 4 v] by (simp only: le_enc_mod) simp
  finally show ?thesis .
qed

lemma MD5_final_holds:
  assumes h: "md5_holds m s"
  shows "\<exists>s'. MD5_final s = Some s' \<and> md_digest s' = md5_ref m \<and> \<not> md_finished s' \<and>
              (length m mod 64 < 56 \<longrightarrow> md5_holds m s')"
proof -
  let ?k = "length m mod 64"
  let ?pl = "if ?k < 56 then 56 - ?k else 120 - ?k"
  let ?pad = "take ?pl md5_PADDING"
  have idx: "MD5_index s = ?k" using h by (rule MD5_index_holds)
  have k: "?k < 64" by simp
  have pad: "?pad = 0x80 # replicate ((119 - ?k) mod 64) 0"
  proof (cases "?k < 56")
    case True
    have e: "119 - ?k = (55 - ?k) + 64" using True by simp
    have "(119 - ?k) mod 64 = 55 - ?k" unfolding e mod_add_self2 by simp
    moreover have "56 - ?k = Suc (55 - ?k)" using True by simp
    moreover have "55 - ?k \<le> 63" by (rule order_trans [OF diff_le_self]) simp
    ultimately show ?thesis using True by (simp add: md5_PADDING_def min_def)
  next
    case False
    then have "(119 - ?k) mod 64 = 119 - ?k" using k by simp
    moreover have "120 - ?k = Suc (119 - ?k)" using k by simp
    ultimately show ?thesis using False k by (simp add: md5_PADDING_def min_def)
  qed
  obtain s1 where s1: "MD5_update ?pad s = Some s1" "md5_holds (m @ ?pad) s1"
    "?k + length ?pad \<le> 64 \<longrightarrow> md_buffer s1 = overwrite ?k ?pad (md_buffer s)"
  proof -
    have "length ?pad \<le> length md5_PADDING" by simp
    then have "length ?pad < 2 ^ 32 - 64" by (simp add: md5_PADDING_def)
    from MD5_update_holds [OF h this] that show thesis by blast
  qed
  define bits where "bits = md5_encode [md_count0 s, md_count1 s]"
  have bits: "bits = le_enc 8 (8 * length m)"
    unfolding bits_def by (rule md5_encode_count) (use h in \<open>simp_all only: md5_holds_def\<close>)
  have "length bits < 2 ^ 32 - 64" by (simp add: bits)
  then obtain s2 where s2: "MD5_update bits s1 = Some s2" "md5_holds ((m @ ?pad) @ bits) s2" "\<not> md_finished s2"
    "length (m @ ?pad) mod 64 + length bits \<le> 64 \<longrightarrow> md_buffer s2 = overwrite (length (m @ ?pad) mod 64) bits (md_buffer s1)"
    using MD5_update_holds [OF s1(2), of bits] by blast
  have all: "(m @ ?pad) @ bits = md5_pad m" unfolding pad bits by (simp add: md5_pad_def)
  let ?t = "s2\<lparr>md_digest := md5_encode (md_state s2), md_state := md_state s, md_count0 := md_count0 s,
      md_count1 := md_count1 s\<rparr>"
  have fin: "MD5_final s = Some ?t"
    using s1(1) s2(1) by (simp add: MD5_final_def idx bits_def Let_def)
  have "md_digest ?t = md5_ref m"
    using s2(2) all by (simp add: md5_ref_def md5_holds_def)
  moreover have "md5_holds m ?t" if lt: "?k < 56"
  proof -
    have pl: "?pl = 56 - ?k" using lt by simp
    have len: "length ?pad = 56 - ?k" unfolding pl by (simp add: md5_PADDING_def)
    have "length (m @ ?pad) mod 64 = 56"
    proof -
      have "length m + (56 - ?k) = 64 * (length m div 64) + 56"
        using lt mult_div_mod_eq [of 64 "length m"] by linarith
      then have "length (m @ ?pad) = 56 + 64 * (length m div 64)" by (simp only: length_append len add.commute)
      then show ?thesis by (simp only: mod_mult_self2) simp
    qed
    then have "md_buffer s2 = overwrite 56 bits (overwrite ?k ?pad (md_buffer s))"
      using s1(3) s2(4) len lt by (simp add: bits)
    then have "take ?k (md_buffer s2) = take ?k (md_buffer s)" and "length (md_buffer s2) = 64"
      using h lt len by (auto simp: take_overwrite_le bits md5_holds_def)
    with h show ?thesis by (simp add: md5_holds_def)
  qed
  ultimately show ?thesis using fin s2(3) by simp
qed

lemma md5_holds_new: "length buf = 64 \<Longrightarrow> md5_holds [] (MD5_new buf dig)"
  by (simp add: md5_holds_def MD5_new_def MD5_reset_def md5_absorb.simps md5_tail_def)

fun MD5_updates :: "byte list list \<Rightarrow> md5 \<Rightarrow> md5 option" where
  "MD5_updates [] s = Some s"
| "MD5_updates (p # ps) s = do { s \<leftarrow> MD5_update p s; MD5_updates ps s }"

lemma MD5_updates_holds:
  "md5_holds m s \<Longrightarrow> \<not> md_finished s \<Longrightarrow> list_all (\<lambda>p. length p < 2 ^ 32 - 64) ps \<Longrightarrow>
   \<exists>s'. MD5_updates ps s = Some s' \<and> md5_holds (m @ concat ps) s' \<and> \<not> md_finished s'"
proof (induction ps arbitrary: m s)
  case (Cons p ps)
  then obtain s1 where s1: "MD5_update p s = Some s1" "md5_holds (m @ p) s1" "\<not> md_finished s1"
    using MD5_update_holds [of m s p] by auto
  with Cons show ?case by (auto dest: Cons.IH [of "m @ p" s1])
qed simp

lemma MD5_digest_holds:
  "md5_holds m s \<Longrightarrow> \<not> md_finished s \<Longrightarrow>
   \<exists>s'. MD5_digest s = Some (md5_ref m, s') \<and> \<not> md_finished s' \<and> (length m mod 64 < 56 \<longrightarrow> md5_holds m s')"
proof -
  assume "md5_holds m s" and fin: "\<not> md_finished s"
  then have "md5_holds m (s\<lparr>md_finished := True\<rparr>)" by (simp add: md5_holds_def)
  from MD5_final_holds [OF this] fin show ?thesis by (auto simp: MD5_digest_def)
qed

section \<open>Files\<close>

lemma MD5_update_chunks_holds:
  "md5_holds m s \<Longrightarrow> \<not> md_finished s \<Longrightarrow>
   \<exists>s'. MD5_update_chunks content s = Some s' \<and> md5_holds (m @ content) s' \<and> \<not> md_finished s'"
proof (induction content arbitrary: m s rule: measure_induct_rule [of length])
  case (less content m s)
  let ?p = "take 1024 content"
  obtain s1 where s1: "(if content = [] then Some s else MD5_update ?p s) = Some s1" "md5_holds (m @ ?p) s1"
    "\<not> md_finished s1"
  proof (cases "content = []")
    case False
    have "length ?p < 2 ^ 32 - 64" by (simp add: min_def)
    with MD5_update_holds [OF less.prems(1), of ?p] False that show thesis by auto
  qed (use less.prems that in auto)
  show ?case
  proof (cases "length content < 1024")
    case True
    then show ?thesis
      using s1 by (subst MD5_update_chunks.simps) (auto simp: md5_BUFFER_SIZE_def split: if_splits)
  next
    case False
    then obtain s2 where "MD5_update_chunks (drop 1024 content) s1 = Some s2"
      "md5_holds ((m @ ?p) @ drop 1024 content) s2" "\<not> md_finished s2"
      using less.IH [of "drop 1024 content" "m @ ?p" s1] s1 by fastforce
    then show ?thesis
      using s1 False
      by (subst MD5_update_chunks.simps) (auto simp: md5_BUFFER_SIZE_def Let_def)
  qed
qed

section \<open>Properties\<close>

text \<open>
  C27: Equivalence: the digest of a new object after any sequence of \<open>update\<close> calls is the
  reference digest of the concatenated input, whatever its cut into pieces; so is the digest of a
  file read in chunks. A piece is shorter than \<^verbatim>\<open>2^32 - 64\<close> bytes, because the loop counter is 32 bits
  wide; the length of the whole input is not bounded.
\<close>

theorem md5_pieces:
  assumes "length buf = 64" and "list_all (\<lambda>p. length p < 2 ^ 32 - 64) pieces"
  shows "\<exists>s s' f f'. MD5_updates pieces (MD5_new buf dig) = Some s \<and>
           MD5_digest s = Some (md5_ref (concat pieces), s') \<and>
           MD5_of_file buf dig (Some (concat pieces)) = Some f \<and>
           MD5_digest f = Some (md5_ref (concat pieces), f')"
proof -
  have new: "md5_holds [] (MD5_new buf dig)" "\<not> md_finished (MD5_new buf dig)"
    using md5_holds_new [OF assms(1)] by (simp_all) (simp add: MD5_new_def MD5_reset_def)
  obtain s where s: "MD5_updates pieces (MD5_new buf dig) = Some s" "md5_holds ([] @ concat pieces) s" "\<not> md_finished s"
    using MD5_updates_holds [OF new assms(2)] by blast
  obtain f where f: "MD5_of_file buf dig (Some (concat pieces)) = Some f" "md5_holds ([] @ concat pieces) f" "\<not> md_finished f"
    using MD5_update_chunks_holds [OF new, of "concat pieces"] by (auto simp: MD5_of_file_def MD5_update_file_def)
  from MD5_digest_holds [OF s(2,3)] MD5_digest_holds [OF f(2,3)] s(1) f(1) show ?thesis by auto
qed

theorem md5_pieces_witness:
  "\<exists>s s' f f'. MD5_updates [str_bytes ''a'', str_bytes ''bc''] (MD5_new (replicate 64 7) []) = Some s \<and>
     MD5_digest s = Some (md5_ref (str_bytes ''abc''), s') \<and>
     MD5_of_file (replicate 64 7) [] (Some (str_bytes ''abc'')) = Some f \<and>
     MD5_digest f = Some (md5_ref (str_bytes ''abc''), f')"
  using md5_pieces [of "replicate 64 7" "[str_bytes ''a'', str_bytes ''bc'']" "[]"] by (simp add: str_bytes_def)

text \<open>The reference on a test vector of RFC 1321, evaluated by rewriting.\<close>

lemma md5_ref_abc: "bytesToHexString (md5_ref (str_bytes ''abc'')) = ''900150983cd24fb0d6963f7d28e17f72''"
  by code_simp

text \<open>
  \<open>digest\<close> sets \<open>_finished\<close> and then calls \<open>final\<close>, whose updates clear it: the flag is never seen
  set, and a second \<open>digest\<close> computes again, over a buffer the padding may have overwritten.
\<close>

lemma digest_not_finished: "md5_holds m s \<Longrightarrow> \<not> md_finished s \<Longrightarrow> \<exists>d s'. MD5_digest s = Some (d, s') \<and> \<not> md_finished s'"
  using MD5_digest_holds by blast

end
