(* ===== verification/Csv_Reader.thy ===== *)
theory Csv_Reader
  imports Util
begin

text \<open>
  \<^verbatim>\<open>CCsvReader\<close> (pitayaserver/framework/CsvReader.h, CsvReader.cpp) and the configuration tables
  built on it, \<^verbatim>\<open>ConfigBase\<close> (pitayaserver/transition/ConfigBase.h, ConfigBase.cpp).

  A stream is its content; \<open>getlines\<close> are the lines \<^verbatim>\<open>getline\<close> delivers. \<^verbatim>\<open>CUtil::FormatError\<close>
  prints into a static buffer of 1024 bytes with \<^verbatim>\<open>vsprintf\<close>: a longer message is undefined
  behaviour, \<^const>\<open>None\<close>. The last section proves that a table printed with every cell in quotes is
  read back.
\<close>

section \<open>The reader\<close>

abbreviation chQ :: char where "chQ \<equiv> CHR 0x22"
abbreviation chLF :: char where "chLF \<equiv> CHR 0x0A"
abbreviation chCR :: char where "chCR \<equiv> CHR 0x0D"
abbreviation chComma :: char where "chComma \<equiv> CHR 0x2C"
abbreviation chHash :: char where "chHash \<equiv> CHR 0x23"

record csv_reader =
  csv_m_table :: "string list list"
  csv_m_ErrorStr :: string

definition FormatError :: "string \<Rightarrow> string option" where
  "FormatError msg = (if length msg < 1024 then Some msg else None)"

text \<open>The loop of \<open>ReadCell\<close>: the result code, the number of characters used, and the cell.\<close>

fun ReadCell_loop :: "nat \<Rightarrow> string \<Rightarrow> nat \<Rightarrow> string \<Rightarrow> nat \<times> nat \<times> string" where
  "ReadCell_loop quote_count cell len [] = (if odd quote_count then 2 else 1, len, cell)"
| "ReadCell_loop quote_count cell len (c # cs) =
     (if c = chQ then
        (case cs of
           d # ds \<Rightarrow> if d = chQ then ReadCell_loop quote_count (cell @ [chQ]) (len + 2) ds
                     else ReadCell_loop (quote_count + 1) cell (len + 1) cs
         | [] \<Rightarrow> ReadCell_loop (quote_count + 1) cell (len + 1) cs)
      else if c = chComma then
        (if odd quote_count then ReadCell_loop quote_count (cell @ [c]) (len + 1) cs
         else (0, len + 1, cell))
      else ReadCell_loop quote_count (cell @ [c]) (len + 1) cs)"

definition ReadCell :: "string \<Rightarrow> nat \<times> string \<times> string" where
  "ReadCell line =
     (case ReadCell_loop 0 [] 0 line of
        (ret, len, cell) \<Rightarrow> (ret, (if ret = 2 then line else drop len line), cell))"

lemma ReadCell_loop_len:
  "ReadCell_loop q cell len s = (ret, len', cell') \<Longrightarrow>
   len \<le> len' \<and> (ret = 0 \<longrightarrow> len < len' \<and> s \<noteq> []) \<and> ret \<le> 2"
  by (induction q cell len s rule: ReadCell_loop.induct) (auto split: if_splits list.splits)

lemma ReadCell_shorter: "ReadCell line = (0, line', cell) \<Longrightarrow> length line' < length line"
  by (auto simp: ReadCell_def split: prod.splits if_splits dest!: ReadCell_loop_len)

text \<open>
  The variables of the loop of \<open>Init\<close> over the lines: \<open>line\<close>, \<open>one\<close> (the text not yet read),
  \<open>oneline\<close> (the cells of the row read so far), \<open>ret\<close> and the table.
\<close>

record csv_loop =
  cl_line :: string
  cl_one :: string
  cl_oneline :: "string list"
  cl_ret :: nat
  cl_table :: "string list list"

function read_cells :: "csv_loop \<Rightarrow> csv_loop" where
  "read_cells s =
     (case ReadCell (cl_one s) of
        (ret, line, cell) \<Rightarrow>
          if ret = 0 then
            read_cells (s\<lparr>cl_one := line, cl_oneline := cl_oneline s @ [cell], cl_ret := ret\<rparr>)
          else if ret = 1 then
            s\<lparr>cl_one := [], cl_oneline := [], cl_ret := ret,
              cl_table := cl_table s @ [cl_oneline s @ [cell]]\<rparr>
          else s\<lparr>cl_one := line, cl_ret := ret\<rparr>)"
  by auto
termination
  by (relation "measure (\<lambda>s. length (cl_one s))") (auto dest: ReadCell_shorter [OF sym])

declare read_cells.simps [simp del]

definition chop_cr :: "string \<Rightarrow> string" where
  "chop_cr line = (if line \<noteq> [] \<and> line ! (length line - 1) = chCR then take (length line - 1) line else line)"

definition csv_line :: "string \<Rightarrow> csv_loop \<Rightarrow> csv_loop" where
  "csv_line raw s =
     (if take 1 raw = [chHash] then s\<lparr>cl_line := raw\<rparr>
      else
        let line = chop_cr raw; s = s\<lparr>cl_line := line\<rparr> in
        if cl_ret s = 1 then
          if line = [] then s else read_cells (s\<lparr>cl_one := cl_one s @ line\<rparr>)
        else read_cells (s\<lparr>cl_one := cl_one s @ [chLF] @ line\<rparr>))"

definition csv_lines :: "string list \<Rightarrow> csv_loop \<Rightarrow> csv_loop" where
  "csv_lines ls s = fold csv_line ls s"

definition csv_start :: csv_loop where
  "csv_start = \<lparr>cl_line = [], cl_one = [], cl_oneline = [], cl_ret = 1, cl_table = []\<rparr>"

text \<open>
  The \<^verbatim>\<open>getline\<close> that ends the loop empties \<open>line\<close>, except after a last line without a line feed,
  where the stream is at its end already.
\<close>

definition line_at_end :: "string \<Rightarrow> csv_loop \<Rightarrow> string" where
  "line_at_end content s = (if content = [] \<or> last content = chLF then [] else cl_line s)"

definition CCsvReader_Init :: "string \<Rightarrow> (bool \<times> csv_reader) option" where
  "CCsvReader_Init content =
     (let s = csv_lines (getlines content) csv_start in
      if cl_ret s \<noteq> 1 then
        do { e \<leftarrow> FormatError (''near line '' @ c_str (line_at_end content s) @ '' format error'');
             Some (False, \<lparr>csv_m_table = cl_table s, csv_m_ErrorStr = c_str e\<rparr>) }
      else Some (True, \<lparr>csv_m_table = cl_table s, csv_m_ErrorStr = []\<rparr>))"

text \<open>\<open>InitByFile\<close> on the content of the file, \<^const>\<open>None\<close> when it cannot be opened.\<close>

definition CCsvReader_InitByFile :: "string option \<Rightarrow> (bool \<times> csv_reader) option" where
  "CCsvReader_InitByFile file =
     (case file of
        None \<Rightarrow> Some (False, \<lparr>csv_m_table = [], csv_m_ErrorStr = []\<rparr>)
      | Some content \<Rightarrow> CCsvReader_Init content)"

text \<open>A line or row number is an \<^verbatim>\<open>int\<close>, compared and printed as unsigned.\<close>

definition u32_str :: "int \<Rightarrow> string" where
  "u32_str i = dec_str (unat (word_of_int i :: uint32))"

definition csv_GetCell :: "csv_reader \<Rightarrow> int \<Rightarrow> int \<Rightarrow> string \<times> csv_reader" where
  "csv_GetCell r line row =
     (if 0 \<le> line \<and> nat line < length (csv_m_table r) \<and> 0 \<le> row \<and> nat row < length (csv_m_table r ! nat line)
      then (csv_m_table r ! nat line ! nat row, r)
      else ([], r\<lparr>csv_m_ErrorStr := ''unvalid line '' @ u32_str line @ '' row '' @ u32_str row\<rparr>))"

definition csv_GetLine :: "csv_reader \<Rightarrow> int \<Rightarrow> string list option \<times> csv_reader" where
  "csv_GetLine r line =
     (if 0 \<le> line \<and> nat line < length (csv_m_table r) then (Some (csv_m_table r ! nat line), r)
      else (None, r\<lparr>csv_m_ErrorStr := ''unvalid line '' @ u32_str line\<rparr>))"

definition csv_GetErrorStr :: "csv_reader \<Rightarrow> string" where
  "csv_GetErrorStr r = csv_m_ErrorStr r"

definition csv_GetLineCount :: "csv_reader \<Rightarrow> int" where
  "csv_GetLineCount r = int (length (csv_m_table r))"

definition csv_GetRowCount :: "csv_reader \<Rightarrow> int" where
  "csv_GetRowCount r = (case csv_m_table r of [] \<Rightarrow> 0 | row # _ \<Rightarrow> int (length row))"

text \<open>What \<open>Dump\<close> prints.\<close>

definition csv_Dump :: "csv_reader \<Rightarrow> string list" where
  "csv_Dump r =
     concat (map (\<lambda>i. (''=====row '' @ dec_str i @ ''======'')
                      # map (\<lambda>cell. ''cell is ['' @ c_str cell @ '']'') (csv_m_table r ! i))
               [0..<length (csv_m_table r)])"

section \<open>Reading in pieces\<close>

lemma ReadCell_loop_append:
  "ReadCell_loop q cell len s = (0, len', cell') \<Longrightarrow> ReadCell_loop q cell len (s @ b) = (0, len', cell')"
  by (induction q cell len s rule: ReadCell_loop.induct) (auto split: if_splits list.splits)

lemma ReadCell_loop_len_le:
  "ReadCell_loop q cell len s = (ret, len', cell') \<Longrightarrow> len' \<le> len + length s"
  by (induction q cell len s rule: ReadCell_loop.induct) (auto split: if_splits list.splits)

lemma ReadCell_append:
  assumes "ReadCell a = (0, a', cell)"
  shows "ReadCell (a @ b) = (0, a' @ b, cell)"
proof -
  obtain ret len cell0 where l: "ReadCell_loop 0 [] 0 a = (ret, len, cell0)" by (metis prod_cases3)
  with assms have l0: "ReadCell_loop 0 [] 0 a = (0, len, cell)" and a': "a' = drop len a"
    by (auto simp: ReadCell_def split: if_splits)
  from ReadCell_loop_len_le [OF l0] a' ReadCell_loop_append [OF l0, of b] show ?thesis
    by (simp add: ReadCell_def)
qed

text \<open>
  A text that ends inside quotes is left in \<open>one\<close> with its complete cells in \<open>oneline\<close>, and reading
  on from there is reading the whole text at once.
\<close>

lemma read_cells_append:
  assumes "cl_ret (read_cells s) = 2"
  shows "read_cells (read_cells s\<lparr>cl_line := l, cl_one := cl_one (read_cells s) @ b\<rparr>) =
         read_cells (s\<lparr>cl_line := l, cl_one := cl_one s @ b\<rparr>)"
  using assms
proof (induction s rule: read_cells.induct)
  case (1 s)
  obtain ret line cell where rc: "ReadCell (cl_one s) = (ret, line, cell)" by (metis prod_cases3)
  consider "ret = 0" | "ret = 1" | "ret \<noteq> 0" "ret \<noteq> 1" by blast
  then show ?case
  proof cases
    case 1
    note rc0 = rc [unfolded 1]
    have eq: "read_cells s = read_cells (s\<lparr>cl_one := line, cl_oneline := cl_oneline s @ [cell], cl_ret := 0\<rparr>)"
      by (subst read_cells.simps) (simp add: rc0)
    have eq': "read_cells (s\<lparr>cl_line := l, cl_one := cl_one s @ b\<rparr>) =
        read_cells (s\<lparr>cl_line := l, cl_one := line @ b, cl_oneline := cl_oneline s @ [cell], cl_ret := 0\<rparr>)"
      by (subst read_cells.simps) (simp add: ReadCell_append [OF rc0])
    have comm: "s\<lparr>cl_oneline := x, cl_ret := 0, cl_line := l, cl_one := z\<rparr> =
        s\<lparr>cl_line := l, cl_one := z, cl_oneline := x, cl_ret := 0\<rparr>" for x z
      by (cases s) simp
    show ?thesis
      using "1.IH" [OF rc [symmetric] refl 1] "1.prems" 1 by (simp add: eq eq' comm)
  next
    case 2
    then show ?thesis using "1.prems" by (simp add: read_cells.simps [of s] rc)
  next
    case 3
    then have eq: "read_cells s = s\<lparr>cl_one := line, cl_ret := ret\<rparr>"
      by (subst read_cells.simps) (simp add: rc)
    from rc 3 have "line = cl_one s"
      by (auto simp: ReadCell_def split: prod.splits if_splits dest: ReadCell_loop_len)
    then show ?thesis
      by (simp add: eq) (subst (1 2) read_cells.simps, simp split: prod.split)
  qed
qed


section \<open>Printing\<close>

text \<open>
  The text of a table: every cell that is not empty in quotes, quotes in it doubled, one row a line.
  The reader drops lines that begin with \<^verbatim>\<open>#\<close> and carriage returns at the end of lines before it
  looks at quotes, and takes two adjacent quotes as one wherever they stand; \<open>csv_cell_ok\<close> excludes
  the cells that meet this.
\<close>

fun csv_double :: "string \<Rightarrow> string" where
  "csv_double [] = []"
| "csv_double (c # cs) = (if c = chQ then chQ # chQ # csv_double cs else c # csv_double cs)"

definition csv_cell :: "string \<Rightarrow> string" where
  "csv_cell c = (if c = [] then [] else [chQ] @ csv_double c @ [chQ])"

fun csv_row :: "string list \<Rightarrow> string" where
  "csv_row [] = []"
| "csv_row [c] = csv_cell c"
| "csv_row (c # d # r) = csv_cell c @ [chComma] @ csv_row (d # r)"

definition csv_text :: "string list list \<Rightarrow> string" where
  "csv_text rows = concat (map (\<lambda>r. csv_row r @ [chLF]) rows)"

definition csv_adjacent :: "char \<Rightarrow> char \<Rightarrow> bool" where
  "csv_adjacent a b \<longleftrightarrow> \<not> (a = chCR \<and> b = chLF) \<and> \<not> (a = chLF \<and> b = chHash)"

definition csv_cell_ok :: "string \<Rightarrow> bool" where
  "csv_cell_ok c \<longleftrightarrow> c = [] \<or> list_ex (\<lambda>x. x \<noteq> chQ) c \<and> successively csv_adjacent c"

definition csv_row_ok :: "string list \<Rightarrow> bool" where
  "csv_row_ok r \<longleftrightarrow> r \<noteq> [] \<and> r \<noteq> [[]] \<and> list_all csv_cell_ok r"

section \<open>Reading a printed row\<close>

lemma csv_double_append [simp]: "csv_double (a @ b) = csv_double a @ csv_double b"
  by (induction a) auto

lemma csv_double_quotes [simp]: "csv_double (replicate k chQ) = replicate (2 * k) chQ"
  by (induction k) auto

lemma csv_double_Nil [simp]: "csv_double c = [] \<longleftrightarrow> c = []"
  by (cases c) auto

lemma hd_csv_double [simp]: "hd (csv_double c) = hd c"
  by (cases c) auto

text \<open>Inside the quotes, and before them.\<close>

lemma ReadCell_loop_inside:
  "odd q \<Longrightarrow> ReadCell_loop q cell len (csv_double p @ rest) =
             ReadCell_loop q (cell @ p) (len + length (csv_double p)) rest"
  by (induction p arbitrary: cell len) auto

lemma ReadCell_loop_quotes:
  "take 1 rest \<noteq> [chQ] \<Longrightarrow>
   ReadCell_loop q cell len (replicate (2 * k + 1) chQ @ rest) =
   ReadCell_loop (q + 1) (cell @ replicate k chQ) (len + 2 * k + 1) rest"
proof (induction k arbitrary: cell len)
  case 0
  then show ?case by (cases rest) auto
next
  case (Suc k)
  show ?case using Suc.IH [of "cell @ [chQ]" "len + 2"] Suc.prems by simp
qed

lemma quotes_prefix:
  obtains k p where "c = replicate k chQ @ p" "take 1 p \<noteq> [chQ]"
proof -
  have "c = takeWhile (\<lambda>x. x = chQ) c @ dropWhile (\<lambda>x. x = chQ) c" by simp
  moreover have "takeWhile (\<lambda>x. x = chQ) c = replicate (length (takeWhile (\<lambda>x. x = chQ) c)) chQ"
    by (metis (full_types) replicate_length_same set_takeWhileD)
  moreover have "take 1 (dropWhile (\<lambda>x. x = chQ) c) \<noteq> [chQ]"
    by (metis (mono_tags, lifting) dropWhile_eq_Nil_conv hd_dropWhile list.distinct(1) list.sel(1) take_eq_Nil2
        take_Suc One_nat_def)
  ultimately show thesis using that by metis
qed

lemma ReadCell_loop_open:
  assumes "rest = [] \<or> c \<noteq> [] \<and> list_ex (\<lambda>x. x \<noteq> chQ) c"
  shows "ReadCell_loop 0 [] 0 ([chQ] @ csv_double c @ rest) =
         ReadCell_loop 1 c (Suc (length (csv_double c))) rest"
proof -
  obtain k p where c: "c = replicate k chQ @ p" and p: "take 1 p \<noteq> [chQ]" by (rule quotes_prefix)
  have first: "take 1 (csv_double p @ rest) \<noteq> [chQ]"
  proof (cases p)
    case Nil
    then have "\<not> list_ex (\<lambda>x. x \<noteq> chQ) c" by (simp add: c list_ex_iff)
    with assms show ?thesis by (auto simp: Nil)
  next
    case (Cons x xs)
    with p show ?thesis by auto
  qed
  have "[chQ] @ csv_double c @ rest = replicate (2 * k + 1) chQ @ (csv_double p @ rest)"
    by (simp add: c)
  also have "ReadCell_loop 0 [] 0 \<dots> = ReadCell_loop 1 (replicate k chQ) (2 * k + 1) (csv_double p @ rest)"
    using ReadCell_loop_quotes [OF first, of 0 "[]" 0 k] by simp
  also have "\<dots> = ReadCell_loop 1 c (Suc (length (csv_double c))) rest"
    by (subst ReadCell_loop_inside) (simp_all add: c)
  finally show ?thesis .
qed

lemma ReadCell_comma:
  assumes "csv_cell_ok c"
  shows "ReadCell (csv_cell c @ [chComma] @ rest) = (0, rest, c)"
proof (cases "c = []")
  case True
  then show ?thesis by (simp add: ReadCell_def csv_cell_def)
next
  case False
  with assms have "c \<noteq> [] \<and> list_ex (\<lambda>x. x \<noteq> chQ) c" by (simp add: csv_cell_ok_def)
  then show ?thesis
    using ReadCell_loop_open [of "chQ # chComma # rest" c] False by (simp add: ReadCell_def csv_cell_def)
qed

lemma ReadCell_end:
  assumes "csv_cell_ok c"
  shows "ReadCell (csv_cell c) = (1, [], c)"
proof (cases "c = []")
  case True
  then show ?thesis by (simp add: ReadCell_def csv_cell_def)
next
  case False
  with assms have "c \<noteq> [] \<and> list_ex (\<lambda>x. x \<noteq> chQ) c" by (simp add: csv_cell_ok_def)
  then show ?thesis
    using ReadCell_loop_open [of "[chQ]" c] False by (simp add: ReadCell_def csv_cell_def)
qed

lemma ReadCell_unfinished: "ReadCell ([chQ] @ csv_double p) = (2, [chQ] @ csv_double p, p)"
  using ReadCell_loop_open [of "[]" p] by (simp add: ReadCell_def)

lemma read_cells_row:
  assumes "list_all csv_cell_ok r" and "r \<noteq> []" and "cl_one s = csv_row r"
  shows "read_cells s = s\<lparr>cl_one := [], cl_oneline := [], cl_ret := 1, cl_table := cl_table s @ [cl_oneline s @ r]\<rparr>"
  using assms
proof (induction r arbitrary: s rule: csv_row.induct)
  case (2 c)
  then show ?case by (subst read_cells.simps) (simp add: ReadCell_end)
next
  case (3 c d r)
  then have one: "cl_one s = csv_cell c @ [chComma] @ csv_row (d # r)" and c: "csv_cell_ok c" by simp_all
  let ?s = "s\<lparr>cl_one := csv_row (d # r), cl_oneline := cl_oneline s @ [c], cl_ret := 0\<rparr>"
  have "read_cells s = read_cells ?s"
    by (subst read_cells.simps) (simp only: one ReadCell_comma [OF c] prod.case simp_thms if_True)
  also have "\<dots> = ?s\<lparr>cl_one := [], cl_oneline := [], cl_ret := 1, cl_table := cl_table ?s @ [cl_oneline ?s @ d # r]\<rparr>"
    using "3.prems" by (intro "3.IH") simp_all
  finally show ?case by simp
qed simp

text \<open>A part of a row that ends at a line feed ends inside quotes.\<close>

lemma csv_double_LF:
  "csv_double c = p @ chLF # b \<Longrightarrow> \<exists>c'. p = csv_double c'"
proof (induction c arbitrary: p)
  case (Cons x c)
  show ?case
  proof (cases "x = chQ")
    case True
    with Cons.prems obtain p' where "p = chQ # chQ # p'" "csv_double c = p' @ chLF # b"
      by (cases p; cases "tl p") auto
    then show ?thesis using Cons.IH by (metis csv_double.simps(2))
  next
    case False
    show ?thesis
    proof (cases p)
      case Nil
      then show ?thesis by (metis csv_double.simps(1))
    next
      case p: (Cons y p')
      with Cons.prems False have "csv_double c = p' @ chLF # b" "y = x" by auto
      then show ?thesis using Cons.IH p False by (metis csv_double.simps(2))
    qed
  qed
qed simp

lemma csv_cell_LF:
  assumes "csv_cell c = p @ chLF # b"
  shows "\<exists>c'. p = [chQ] @ csv_double c'"
proof -
  from assms obtain p' where p: "p = chQ # p'" and "csv_double c @ [chQ] = p' @ chLF # b"
    by (cases p) (auto simp: csv_cell_def split: if_splits)
  then obtain b' where "csv_double c = p' @ chLF # b'"
    by (cases b rule: rev_cases) auto
  with csv_double_LF p show ?thesis by auto
qed

lemma read_cells_unfinished:
  assumes "list_all csv_cell_ok r" and "csv_row r = p @ chLF # b" and "cl_one s = p"
  shows "cl_ret (read_cells s) = 2"
  using assms
proof (induction r arbitrary: s p rule: csv_row.induct)
  case (2 c)
  then obtain c' where "p = [chQ] @ csv_double c'" using csv_cell_LF by fastforce
  with 2 ReadCell_unfinished [of c'] show ?case by (subst read_cells.simps) simp
next
  case (3 c d r)
  from "3.prems" have c: "csv_cell_ok c" by simp
  from "3.prems"(2) have eq: "csv_cell c @ chComma # csv_row (d # r) = p @ chLF # b" by simp
  show ?case
  proof (cases "length p < length (csv_cell c)")
    case True
    then obtain b' where "csv_cell c = p @ chLF # b'"
      using eq by (auto simp: append_eq_append_conv2 append_eq_Cons_conv Cons_eq_append_conv)
    then obtain c' where "p = [chQ] @ csv_double c'" using csv_cell_LF by blast
    with "3.prems"(3) ReadCell_unfinished [of c'] show ?thesis by (subst read_cells.simps) simp
  next
    case False
    then obtain p' where p: "p = csv_cell c @ [chComma] @ p'" and rest: "csv_row (d # r) = p' @ chLF # b"
      using eq by (auto simp: append_eq_append_conv2 append_eq_Cons_conv Cons_eq_append_conv)
    let ?s = "s\<lparr>cl_one := p', cl_oneline := cl_oneline s @ [c], cl_ret := 0\<rparr>"
    have "read_cells s = read_cells ?s"
      by (subst read_cells.simps) (simp only: "3.prems"(3) p ReadCell_comma [OF c] prod.case simp_thms if_True)
    moreover have "cl_ret (read_cells ?s) = 2"
      using "3.prems"(1) rest by (intro "3.IH" [of p']) simp_all
    ultimately show ?thesis by simp
  qed
qed simp


section \<open>Rows over several lines\<close>

fun phys_lines :: "string \<Rightarrow> string list" where
  "phys_lines [] = [[]]"
| "phys_lines (c # cs) =
     (if c = chLF then [] # phys_lines cs else (c # hd (phys_lines cs)) # tl (phys_lines cs))"

definition join_lines :: "string \<Rightarrow> string list \<Rightarrow> string" where
  "join_lines l ls = l @ concat (map (\<lambda>x. chLF # x) ls)"

lemma phys_lines_not_Nil [simp]: "phys_lines s \<noteq> []"
  by (cases s) auto

lemma join_phys_lines: "join_lines (hd (phys_lines s)) (tl (phys_lines s)) = s"
proof (induction s)
  case (Cons c s)
  then show ?case
    by (cases "phys_lines s") (auto simp: join_lines_def)
qed (simp add: join_lines_def)

lemma split_lines_phys:
  "split_lines acc (s @ chLF # rest) = (rev acc @ hd (phys_lines s)) # tl (phys_lines s) @ split_lines [] rest"
proof (induction s arbitrary: acc)
  case (Cons c s)
  show ?case using Cons.IH [of "[]"] Cons.IH [of "c # acc"] by (cases "phys_lines s") auto
qed simp

lemma phys_lines_collapse: "hd (phys_lines s) # tl (phys_lines s) @ ys = phys_lines s @ ys"
  by (cases "phys_lines s") auto

lemma getlines_text: "getlines (csv_text rows) = concat (map (\<lambda>r. phys_lines (csv_row r)) rows)"
  by (induction rows)
    (simp_all add: csv_text_def getlines_def split_lines_phys phys_lines_collapse del: list.collapse)

text \<open>Lines the reader takes as they are.\<close>

definition csv_line_ok :: "string \<Rightarrow> bool" where
  "csv_line_ok l \<longleftrightarrow> take 1 l \<noteq> [chHash] \<and> chop_cr l = l"

lemma csv_line_okI: "l = [] \<or> hd l \<noteq> chHash \<Longrightarrow> l = [] \<or> last l \<noteq> chCR \<Longrightarrow> csv_line_ok l"
  by (cases l) (auto simp: csv_line_ok_def chop_cr_def last_conv_nth simp del: last.simps)

lemma hd_phys_lines: "hd (phys_lines s) = takeWhile (\<lambda>c. c \<noteq> chLF) s"
  by (induction s) auto

lemma phys_lines_hash:
  "successively csv_adjacent s \<Longrightarrow> \<forall>l \<in> set (tl (phys_lines s)). l = [] \<or> hd l \<noteq> chHash"
proof (induction s)
  case (Cons c s)
  then have IH: "\<forall>l \<in> set (tl (phys_lines s)). l = [] \<or> hd l \<noteq> chHash"
    and adj: "s \<noteq> [] \<Longrightarrow> csv_adjacent c (hd s)" by (auto simp: successively_Cons)
  have "hd (phys_lines s) = [] \<or> hd (hd (phys_lines s)) \<noteq> chHash" if "c = chLF"
    using adj that by (cases s) (auto simp: hd_phys_lines csv_adjacent_def)
  with IH show ?case by (cases "phys_lines s") auto
qed simp

lemma phys_lines_cr:
  "successively csv_adjacent s \<Longrightarrow> s = [] \<or> last s \<noteq> chCR \<Longrightarrow>
   \<forall>l \<in> set (phys_lines s). l = [] \<or> last l \<noteq> chCR"
proof (induction s)
  case (Cons c s)
  then have IH: "\<forall>l \<in> set (phys_lines s). l = [] \<or> last l \<noteq> chCR"
    and adj: "s \<noteq> [] \<Longrightarrow> csv_adjacent c (hd s)" and cr: "s = [] \<Longrightarrow> c \<noteq> chCR"
    by (auto simp: successively_Cons split: if_splits)
  have "c \<noteq> chCR" if "hd (phys_lines s) = []"
    using adj cr that by (cases s) (auto simp: hd_phys_lines csv_adjacent_def split: if_splits)
  with IH show ?case by (cases "phys_lines s") auto
qed simp

lemma csv_lines_joined:
  assumes init: "cl_ret s = 1" "cl_one s = []" "cl_oneline s = []"
    and l: "l \<noteq> []" and ok: "list_all csv_line_ok (l # ls)"
    and two: "\<And>ls1 ls2 t. ls = ls1 @ ls2 \<Longrightarrow> ls2 \<noteq> [] \<Longrightarrow> cl_one t = join_lines l ls1 \<Longrightarrow>
                cl_ret (read_cells t) = 2"
  shows "csv_lines (l # ls) s = read_cells (s\<lparr>cl_line := last (l # ls), cl_one := join_lines l ls\<rparr>)"
  using ok two
proof (induction ls rule: rev_induct)
  case Nil
  then show ?case
    using init l by (simp add: csv_lines_def csv_line_def csv_line_ok_def join_lines_def Let_def)
next
  case (snoc x ls)
  let ?A = "s\<lparr>cl_line := last (l # ls), cl_one := join_lines l ls\<rparr>"
  have IH: "csv_lines (l # ls) s = read_cells ?A"
    using snoc.prems by (intro snoc.IH) auto
  have ret: "cl_ret (read_cells ?A) = 2" by (rule snoc.prems(2) [of ls "[x]"]) simp_all
  have "csv_lines (l # ls @ [x]) s = csv_line x (read_cells ?A)"
    using IH by (simp add: csv_lines_def)
  also have "\<dots> = read_cells (read_cells ?A\<lparr>cl_line := x, cl_one := cl_one (read_cells ?A) @ [chLF] @ x\<rparr>)"
    using snoc.prems(1) ret by (simp add: csv_line_def csv_line_ok_def Let_def)
  also have "\<dots> = read_cells (s\<lparr>cl_line := x, cl_one := join_lines l (ls @ [x])\<rparr>)"
    by (subst read_cells_append [OF ret]) (simp add: join_lines_def)
  finally show ?case by simp
qed

lemma csv_adjacent_quote [simp]:
  "csv_adjacent chQ x" "csv_adjacent x chQ" "csv_adjacent chComma x" "csv_adjacent x chComma"
  by (simp_all add: csv_adjacent_def)

lemma successively_csv_double: "successively csv_adjacent c \<Longrightarrow> successively csv_adjacent (csv_double c)"
  by (induction c) (auto simp: successively_Cons)

lemma successively_csv_cell: "csv_cell_ok c \<Longrightarrow> successively csv_adjacent (csv_cell c)"
  by (auto simp: csv_cell_def csv_cell_ok_def successively_append_iff successively_Cons csv_adjacent_quote
      intro!: successively_csv_double)

lemma successively_csv_row: "list_all csv_cell_ok r \<Longrightarrow> successively csv_adjacent (csv_row r)"
  by (induction r rule: csv_row.induct)
    (auto simp: successively_csv_cell successively_append_iff successively_Cons csv_adjacent_quote)

lemma csv_row_ends: "csv_row r = [] \<or> hd (csv_row r) \<in> {chQ, chComma} \<and> last (csv_row r) \<in> {chQ, chComma}"
  by (induction r rule: csv_row.induct) (auto simp: csv_cell_def)

lemma csv_row_Nil: "r \<noteq> [] \<Longrightarrow> csv_row r = [] \<longleftrightarrow> r = [[]]"
  by (cases r rule: csv_row.cases) (auto simp: csv_cell_def)

lemma csv_lines_row:
  assumes r: "csv_row_ok r" and init: "cl_ret s = 1" "cl_one s = []" "cl_oneline s = []"
  shows "csv_lines (phys_lines (csv_row r)) s =
         s\<lparr>cl_line := last (phys_lines (csv_row r)), cl_one := [], cl_oneline := [], cl_ret := 1,
           cl_table := cl_table s @ [r]\<rparr>"
proof -
  obtain l ls where pl: "phys_lines (csv_row r) = l # ls" by (cases "phys_lines (csv_row r)") auto
  have join: "join_lines l ls = csv_row r" using join_phys_lines [of "csv_row r"] pl by simp
  from r have cells: "list_all csv_cell_ok r" and ne: "r \<noteq> []" "csv_row r \<noteq> []"
    by (auto simp: csv_row_ok_def csv_row_Nil)
  have ends: "hd (csv_row r) \<in> {chQ, chComma}" "last (csv_row r) \<in> {chQ, chComma}"
    using csv_row_ends [of r] ne by simp_all
  obtain x xs where x: "csv_row r = x # xs" using ne by (cases "csv_row r") auto
  have hd_l: "l = takeWhile (\<lambda>c. c \<noteq> chLF) (csv_row r)" using hd_phys_lines [of "csv_row r"] pl by simp
  have l: "l \<noteq> []" and hash: "hd l \<noteq> chHash"
    using ends(1) by (auto simp: hd_l x)
  have "last (csv_row r) \<noteq> chCR" using ends(2) by auto
  then have ok: "list_all csv_line_ok (l # ls)"
    using phys_lines_cr [OF successively_csv_row [OF cells]] phys_lines_hash [OF successively_csv_row [OF cells]]
      hash pl by (auto simp: list_all_iff intro!: csv_line_okI)
  have two: "cl_ret (read_cells t) = 2"
    if "ls = ls1 @ ls2" "ls2 \<noteq> []" "cl_one t = join_lines l ls1" for ls1 ls2 t
  proof (rule read_cells_unfinished [OF cells _ that(3)])
    show "csv_row r = join_lines l ls1 @ chLF # join_lines (hd ls2) (tl ls2)"
      using join that(1,2) by (cases ls2) (auto simp: join_lines_def)
  qed
  have comm: "s\<lparr>cl_one := [], cl_oneline := [], cl_ret := 1, cl_table := x, cl_line := y\<rparr> =
    s\<lparr>cl_line := y, cl_one := [], cl_oneline := [], cl_ret := 1, cl_table := x\<rparr>" for x y by (cases s) simp
  have "csv_lines (l # ls) s = read_cells (s\<lparr>cl_line := last (l # ls), cl_one := csv_row r\<rparr>)"
    using csv_lines_joined [OF init l ok] two join by simp
  also have "\<dots> = s\<lparr>cl_line := last (l # ls), cl_one := [], cl_oneline := [], cl_ret := 1,
       cl_table := cl_table s @ [r]\<rparr>"
    using read_cells_row [OF cells ne(1)] init by simp
  finally show ?thesis by (simp add: pl)
qed

lemma csv_lines_rows:
  assumes "list_all csv_row_ok rows" and "cl_ret s = 1" "cl_one s = []" "cl_oneline s = []"
  shows "\<exists>l. csv_lines (concat (map (\<lambda>r. phys_lines (csv_row r)) rows)) s =
         s\<lparr>cl_line := l, cl_one := [], cl_oneline := [], cl_ret := 1, cl_table := cl_table s @ rows\<rparr>"
  using assms
proof (induction rows arbitrary: s)
  case Nil
  then show ?case by (intro exI [of _ "cl_line s"]) (simp add: csv_lines_def)
next
  case (Cons r rows)
  let ?l = "last (phys_lines (csv_row r))"
  let ?s = "s\<lparr>cl_line := ?l, cl_one := [], cl_oneline := [], cl_ret := 1, cl_table := cl_table s @ [r]\<rparr>"
  have "csv_lines (phys_lines (csv_row r)) s = ?s"
    using Cons.prems by (intro csv_lines_row) simp_all
  then have eq: "csv_lines (concat (map (\<lambda>r. phys_lines (csv_row r)) (r # rows))) s =
      csv_lines (concat (map (\<lambda>r. phys_lines (csv_row r)) rows)) ?s"
    by (simp add: csv_lines_def)
  obtain l where "csv_lines (concat (map (\<lambda>r. phys_lines (csv_row r)) rows)) ?s =
      ?s\<lparr>cl_line := l, cl_one := [], cl_oneline := [], cl_ret := 1, cl_table := cl_table ?s @ rows\<rparr>"
    using Cons.IH [of ?s] Cons.prems by auto
  then show ?case by (intro exI [of _ l], subst eq) (cases s, simp)
qed

text \<open>
  C28: Round trip: a table of rows printed with every non-empty cell in quotes and inner quotes
  doubled is read by \<open>CCsvReader::Init\<close> as the same table, without an error; cells may hold commas,
  quotes and line feeds. Excluded are what the reader changes: a row that prints as an empty line, a
  cell of quotes only, a cell with a line feed before \<^verbatim>\<open>#\<close> or after a carriage return.
\<close>

theorem csv_round_trip:
  assumes "list_all csv_row_ok rows"
  shows "CCsvReader_Init (csv_text rows) = Some (True, \<lparr>csv_m_table = rows, csv_m_ErrorStr = []\<rparr>)"
proof -
  obtain l where "csv_lines (getlines (csv_text rows)) csv_start =
      csv_start\<lparr>cl_line := l, cl_one := [], cl_oneline := [], cl_ret := 1, cl_table := cl_table csv_start @ rows\<rparr>"
    using csv_lines_rows [OF assms, of csv_start] by (auto simp: getlines_text csv_start_def)
  then show ?thesis by (simp add: CCsvReader_Init_def csv_start_def)
qed

definition csv_demo :: "string list list" where
  "csv_demo = [[''id'', ''name''], [''1'', ''a,'' @ [chQ] @ ''b'' @ [chLF] @ ''c''], [[], ''x'']]"

lemma csv_round_trip_witness:
  "list_all csv_row_ok csv_demo \<and>
   CCsvReader_Init (csv_text csv_demo) = Some (True, \<lparr>csv_m_table = csv_demo, csv_m_ErrorStr = []\<rparr>)"
proof -
  have "list_all csv_row_ok csv_demo"
    by (simp add: csv_demo_def csv_row_ok_def csv_cell_ok_def csv_adjacent_def)
  with csv_round_trip [of csv_demo] show ?thesis by simp
qed

end
