(* ===== verification/Config_Base.thy ===== *)
theory Config_Base
  imports Csv_Reader
begin

text \<open>
  \<^verbatim>\<open>ConfigBase\<close> (pitayaserver/transition/ConfigBase.h, ConfigBase.cpp), the base of configuration
  tables read from CSV texts, and the macros a table's \<^verbatim>\<open>ParseData\<close> is written with.

  The repository declares no table: the virtual functions \<^verbatim>\<open>ParseData\<close> and \<^verbatim>\<open>ClearData\<close> of a
  derived class are the parameters \<open>parse\<close> and \<open>clear\<close>, and \<open>'t\<close> is its own data. The lemmas at the
  end say what loading does with the header and with the result of \<open>parse\<close>.
\<close>

section \<open>The table\<close>

record 't config =
  cfg_m_bInited :: bool
  cfg_m_pFilePath :: string
  cfg_m_bUseRawData :: bool
  cfg_m_header :: "(string \<times> int) list"
  cfg_data :: 't

definition ConfigBase_new :: "'t \<Rightarrow> 't config" where
  "ConfigBase_new d =
     \<lparr>cfg_m_bInited = False, cfg_m_pFilePath = [], cfg_m_bUseRawData = False, cfg_m_header = [], cfg_data = d\<rparr>"

definition ConfigBase_Init :: "'t config \<Rightarrow> 't config \<Rightarrow> 't config" where
  "ConfigBase_Init rhs c =
     c\<lparr>cfg_m_bInited := cfg_m_bInited rhs, cfg_m_pFilePath := cfg_m_pFilePath rhs,
       cfg_m_bUseRawData := cfg_m_bUseRawData rhs, cfg_m_header := cfg_m_header rhs\<rparr>"

definition ConfigBase_copy :: "'t \<Rightarrow> 't config \<Rightarrow> 't config" where
  "ConfigBase_copy d rhs = ConfigBase_Init rhs (ConfigBase_new d)"

text \<open>The base class's own virtual functions.\<close>

definition ConfigBase_ParseData :: "string list \<Rightarrow> 't config \<Rightarrow> bool \<times> 't config" where
  "ConfigBase_ParseData row c = (True, c)"

definition ConfigBase_ClearData :: "'t config \<Rightarrow> 't config" where
  "ConfigBase_ClearData c = c"

definition ConfigBase_SetFilePath :: "string \<Rightarrow> 't config \<Rightarrow> 't config" where
  "ConfigBase_SetFilePath path c = c\<lparr>cfg_m_pFilePath := c_str path\<rparr>"

section \<open>Loading\<close>

text \<open>\<open>m_header[Reader.GetCell(i, j)] = i\<close> for the cells of row \<open>i = 0\<close>.\<close>

fun cfg_header :: "csv_reader \<Rightarrow> nat \<Rightarrow> nat \<Rightarrow> (string \<times> int) list \<Rightarrow> (string \<times> int) list" where
  "cfg_header r i 0 h = h"
| "cfg_header r i (Suc j) h = omap_set (fst (csv_GetCell r (int i) (int j))) (int i) (cfg_header r i j h)"

fun cfg_rows :: "(string list \<Rightarrow> 't config \<Rightarrow> bool \<times> 't config) \<Rightarrow> csv_reader \<Rightarrow> nat list \<Rightarrow> 't config \<Rightarrow>
    bool \<times> 't config" where
  "cfg_rows parse r [] c = (True, c)"
| "cfg_rows parse r (i # is) c =
     (if i = 0 then
        cfg_rows parse r is
          (c\<lparr>cfg_m_header := cfg_header r i (nat (csv_GetRowCount r)) (cfg_m_header c)\<rparr>)
      else
        (case fst (csv_GetLine r (int i)) of
           None \<Rightarrow> (False, c)
         | Some row \<Rightarrow>
             (let (ok, c) = parse row c in if ok then (False, c) else cfg_rows parse r is c)))"

definition ConfigBase_Load :: "(string list \<Rightarrow> 't config \<Rightarrow> bool \<times> 't config) \<Rightarrow> ('t config \<Rightarrow> 't config) \<Rightarrow>
    string \<Rightarrow> 't config \<Rightarrow> (bool \<times> 't config) option" where
  "ConfigBase_Load parse clear filePath c =
     (if cfg_m_bInited c then Some (True, c)
      else do {
        (ok, r) \<leftarrow> CCsvReader_Init (c_str (cfg_m_pFilePath c));
        if \<not> ok then Some (False, c)
        else do {
          let (done, c) = cfg_rows parse r [0..<nat (csv_GetLineCount r)] (clear c);
          Some (if done then (True, c\<lparr>cfg_m_bInited := True\<rparr>) else (False, c)) } })"

text \<open>\<open>file\<close> gives the content of a path that can be opened.\<close>

definition ConfigBase_LoadRawData :: "(string list \<Rightarrow> 't config \<Rightarrow> bool \<times> 't config) \<Rightarrow> ('t config \<Rightarrow> 't config) \<Rightarrow>
    (string \<Rightarrow> string option) \<Rightarrow> string \<Rightarrow> 't config \<Rightarrow> (bool \<times> 't config) option" where
  "ConfigBase_LoadRawData parse clear file dat c =
     do { (ok, r) \<leftarrow> CCsvReader_InitByFile (file (c_str dat));
          if \<not> ok then Some (False, c)
          else do {
            let (done, c) = cfg_rows parse r [0..<nat (csv_GetLineCount r)] (clear c);
            Some (if done then (True, c\<lparr>cfg_m_bInited := True, cfg_m_bUseRawData := True\<rparr>) else (False, c)) } }"

definition ConfigBase_Reload :: "(string list \<Rightarrow> 't config \<Rightarrow> bool \<times> 't config) \<Rightarrow> ('t config \<Rightarrow> 't config) \<Rightarrow>
    't config \<Rightarrow> (bool \<times> 't config) option" where
  "ConfigBase_Reload parse clear c =
     (if cfg_m_bUseRawData c then Some (False, c)
      else ConfigBase_Load parse clear (cfg_m_pFilePath c) (c\<lparr>cfg_m_bInited := False\<rparr>))"

definition getColumnIdxByHeaderId :: "int \<Rightarrow> 't config \<Rightarrow> int" where
  "getColumnIdxByHeaderId i c =
     (case map_of (cfg_m_header c) (Uint32ToString (word_of_int i)) of Some x \<Rightarrow> x | None \<Rightarrow> -1)"

section \<open>The macros of a table\<close>

text \<open>\<open>GET_INT_DATA\<close> and its variants: \<^const>\<open>None\<close> is their \<^verbatim>\<open>return false\<close>.\<close>

definition cfg_cell :: "int \<Rightarrow> string list \<Rightarrow> 't config \<Rightarrow> string option" where
  "cfg_cell header_id row c =
     (let idx = getColumnIdxByHeaderId header_id c in
      if idx < 0 then None
      else if length row \<le> nat idx then None
      else Some (row ! nat idx))"

definition GET_INT_DATA :: "int \<Rightarrow> string list \<Rightarrow> 't config \<Rightarrow> int option" where
  "GET_INT_DATA header_id row c =
     do { v \<leftarrow> cfg_cell header_id row c; Some (if length (c_str v) = 0 then 0 else c_atoi_int (c_str v)) }"

definition GET_LONG_INT_DATA :: "int \<Rightarrow> string list \<Rightarrow> 't config \<Rightarrow> int option" where
  "GET_LONG_INT_DATA header_id row c =
     do { v \<leftarrow> cfg_cell header_id row c; Some (if length (c_str v) = 0 then 0 else c_atol (c_str v)) }"

definition GET_STRING_DATA :: "int \<Rightarrow> string list \<Rightarrow> 't config \<Rightarrow> string option" where
  "GET_STRING_DATA header_id row c = cfg_cell header_id row c"

text \<open>\<open>m_mapConfig\<close>: a duplicate key is reported and dropped.\<close>

definition INSERT_AND_CHECK :: "('v \<Rightarrow> 'k::linorder) \<Rightarrow> 'v \<Rightarrow> ('k \<times> 'v) list \<Rightarrow> ('k \<times> 'v) list" where
  "INSERT_AND_CHECK key v m = omap_insert (key v) v m"

definition CONFIG_GetById :: "'k \<Rightarrow> ('k \<times> 'v) list \<Rightarrow> 'v option" where
  "CONFIG_GetById i m = map_of m i"

text \<open>\<^verbatim>\<open>STC_AWARD\<close> is not declared in the repository; its fields hold the value of \<^verbatim>\<open>atoi\<close> here.\<close>

record stc_award =
  award_byType :: int
  award_dwId :: int
  award_dwQty :: int

fun awards_loop :: "string \<Rightarrow> string list \<Rightarrow> stc_award list \<Rightarrow> stc_award list option" where
  "awards_loop sep [] v = Some v"
| "awards_loop sep (s # r) v =
     (case StrSplit s sep of
        [] \<Rightarrow> awards_loop sep r v
      | [a, b, c] \<Rightarrow>
          awards_loop sep r
            (v @ [\<lparr>award_byType = c_atoi_int (c_str a), award_dwId = c_atoi_int (c_str b), award_dwQty = c_atoi_int (c_str c)\<rparr>])
      | _ \<Rightarrow> None)"

definition CONVERT_STRING_TO_VECAWARD :: "string \<Rightarrow> string \<Rightarrow> string \<Rightarrow> stc_award list \<Rightarrow> stc_award list option" where
  "CONVERT_STRING_TO_VECAWARD str firstSplit secondSplit vec = awards_loop secondSplit (StrSplit str firstSplit) vec"

section \<open>What loading does\<close>

text \<open>Every column of the header is recorded as column 0.\<close>

lemma cfg_header_zero:
  "omap_ok h \<Longrightarrow> \<forall>x \<in> ran (map_of h). x = 0 \<Longrightarrow> \<forall>x \<in> ran (map_of (cfg_header r 0 n h)). x = 0"
  and cfg_header_ok: "omap_ok h \<Longrightarrow> omap_ok (cfg_header r 0 n h)"
  by (induction n) (auto simp: omap_simps ran_def split: if_splits)

text \<open>A table whose \<open>ParseData\<close> succeeds on its first row of data does not load.\<close>

lemma cfg_rows_rejects_parsed:
  assumes "csv_m_table r = h # row # rest" and "fst (parse row (c\<lparr>cfg_m_header := h'\<rparr>))"
    and "h' = cfg_header r 0 (length h) (cfg_m_header c)"
  shows "fst (cfg_rows parse r [0..<nat (csv_GetLineCount r)] c) = False"
proof -
  have "[0..<nat (csv_GetLineCount r)] = 0 # 1 # [2..<nat (csv_GetLineCount r)]"
    using assms(1) by (simp add: csv_GetLineCount_def upt_rec numeral_2_eq_2)
  then show ?thesis
    using assms
    by (cases "parse row (c\<lparr>cfg_m_header := h'\<rparr>)") (simp add: csv_GetRowCount_def csv_GetLine_def)
qed

text \<open>\<open>Load\<close> reads the path itself as the content of the table.\<close>

lemma Load_reads_path:
  assumes "\<not> cfg_m_bInited c" and "cfg_m_pFilePath c = ''conf/item.csv''"
  shows "\<exists>c'. ConfigBase_Load ConfigBase_ParseData ConfigBase_ClearData ''conf/item.csv'' c = Some (True, c') \<and>
              map_of (cfg_m_header c') ''conf/item.csv'' = Some 0"
proof -
  let ?p = "''conf/item.csv''"
  have "CCsvReader_Init ?p = Some (True, \<lparr>csv_m_table = [[?p]], csv_m_ErrorStr = []\<rparr>)"
    by (simp add: CCsvReader_Init_def getlines_def csv_lines_def csv_line_def csv_start_def chop_cr_def
        read_cells.simps ReadCell_def Let_def)
  moreover have "c_str ?p = ?p" by (simp add: c_str_def)
  moreover have "map_of (omap_set ?p 0 h) ?p = Some 0" for h :: "(string \<times> int) list"
    by (induction h) auto
  ultimately show ?thesis
    using assms by (simp add: ConfigBase_Load_def csv_GetLineCount_def csv_GetRowCount_def csv_GetCell_def
        ConfigBase_ClearData_def)
qed

end
