(* ===== verification/Gift_Code.thy ===== *)
theory Gift_Code
  imports Prelude
begin

unbundle bit_operations_syntax

text \<open>
  Gift codes (pitayaserver/transition/GiftCode.h, GiftCode.cpp): the text of a code from the number
  of a gift and of one of its codes, and the reading of a code a player typed. Codes are written in
  base 34, without the digit 0 and the letter O.
\<close>

section \<open>Making a code\<close>

definition gift_digit :: string where
  "gift_digit = ''123456789ABCDEFGHIJKLMNPQRSTUVWXYZ''"

text \<open>\<open>NumToCode\<close> collects the digits from the lowest, with a dash after every fourth, and turns them round.\<close>

function num_code_loop :: "nat \<Rightarrow> uint64 \<Rightarrow> uint32 \<Rightarrow> string" where
  "num_code_loop t num shift =
     (if num = 0 then []
      else gift_digit ! unat ((num + ucast shift) mod 34) #
        (if (t + 1) mod 4 = 0 then ''-'' else []) @ num_code_loop (t + 1) (num div 34) shift)"
  by auto
termination
proof (relation "measure (\<lambda>(t, num, shift). unat num)")
  fix t :: nat and num :: uint64 and shift :: uint32
  assume "num \<noteq> 0"
  then have "0 < unat num" by (simp add: unat_gt_0)
  then show "((t + 1, num div 34, shift), (t, num, shift)) \<in> measure (\<lambda>(t, num, shift). unat num)"
    by (simp add: unat_div)
qed simp

declare num_code_loop.simps [simp del]

definition NumToCode :: "uint64 \<Rightarrow> uint32 \<Rightarrow> string" where
  "NumToCode num shift = rev (num_code_loop 0 num shift)"

text \<open>The checksum: the two numbers and the three parameters of the gift.\<close>

definition gift_base :: "uint32 \<Rightarrow> uint32 \<Rightarrow> uint32 \<Rightarrow> uint64" where
  "gift_base dwId dwIdx dwParam1 = (ucast dwIdx * 1003 + ucast dwId) * ucast (dwParam1 mod 109 + 1)"

definition gift_spread :: "nat \<Rightarrow> uint64 \<Rightarrow> uint64" where
  "gift_spread s t = push_bit s t OR t"

definition gift_seed :: "uint32 \<Rightarrow> uint64" where
  "gift_seed dwParam2 = ucast (dwParam2 mod 100003 + 99881)"

definition gift_mask :: "uint32 \<Rightarrow> uint64" where
  "gift_mask dwParam2 = fold gift_spread [8, 7, 6] (gift_seed dwParam2)"

definition gift_prefix :: "uint32 \<Rightarrow> string" where
  "gift_prefix dwId =
     (let v = (7 * 26 + 3 + unat (dwId div 100)) mod (26 * 26) in [char_of (v div 26 + 65), char_of (v mod 26 + 65)])"

definition gift_02u :: "nat \<Rightarrow> string" where
  "gift_02u n = (if n < 10 then ''0'' else []) @ dec_str n"

definition gift_pad :: "string \<Rightarrow> string" where
  "gift_pad s = replicate (4 - length s) CHR ''0'' @ s"

definition CalcGiftCode :: "uint32 \<Rightarrow> uint32 \<Rightarrow> uint32 \<Rightarrow> uint32 \<Rightarrow> uint32 \<Rightarrow> string" where
  "CalcGiftCode dwId dwIdx dwParam1 dwParam2 dwParam3 =
     (if dwId \<ge> 26 * 26 * 100 \<or> dwIdx > 1336335 then ''Error''
      else
        let sum = gift_base dwId dwIdx dwParam1 XOR gift_mask dwParam2 in
        gift_prefix dwId @ gift_02u (unat (dwId mod 100)) @ ''-'' @ gift_pad (NumToCode (ucast dwIdx) 0) @
        NumToCode sum ((dwIdx XOR dwParam3) mod 34 + 1))"

section \<open>Reading a code\<close>

definition ch :: "char \<Rightarrow> nat" where
  "ch c = of_char c"

definition ch_between :: "char \<Rightarrow> char \<Rightarrow> char \<Rightarrow> bool" where
  "ch_between lo hi c \<longleftrightarrow> ch lo \<le> ch c \<and> ch c \<le> ch hi"

text \<open>The pass over the sixteen characters from position \<open>i\<close>: it stops at a wrong one.\<close>

fun gift_scan :: "nat \<Rightarrow> bool \<Rightarrow> string \<Rightarrow> bool \<times> string" where
  "gift_scan i bFlag [] = (True, [])"
| "gift_scan i bFlag (c # cs) =
     (let c' = (if ch_between CHR ''1'' CHR ''9'' c then c
                else if ch_between CHR ''a'' CHR ''z'' c then char_of (ch c - 97 + 65)
                else c) in
      if \<not> (ch_between CHR ''1'' CHR ''9'' c \<or> ch_between CHR ''a'' CHR ''z'' c \<or> ch_between CHR ''A'' CHR ''Z'' c)
         \<and> (c \<noteq> CHR ''0'' \<or> bFlag)
      then (False, c # cs)
      else if c' = CHR ''O'' then (False, c' # cs)
      else let (ok, r) = gift_scan (i + 1) (bFlag \<or> (4 \<le> i \<and> c' \<noteq> CHR ''0'')) cs in (ok, c' # r))"

definition gift_value :: "char \<Rightarrow> nat" where
  "gift_value c =
     (if ch_between CHR ''1'' CHR ''9'' c then ch c - 49
      else if ch_between CHR ''A'' CHR ''N'' c then ch c - 65 + 9
      else ch c - 65 + 8)"

fun gift_index :: "uint32 \<Rightarrow> string \<Rightarrow> uint32" where
  "gift_index idx [] = idx"
| "gift_index idx (c # cs) =
     gift_index (if c = CHR ''0'' then idx else idx * 34 + word_of_nat (gift_value c)) cs"

definition gift_id_high :: "string \<Rightarrow> uint32" where
  "gift_id_high s =
     (let v1 = word_of_nat ((ch (s ! 0) - 65) * 26 + (ch (s ! 1) - 65)) :: uint32; v2 = word_of_nat (7 * 26 + 3)
      in (if v1 \<ge> v2 then v1 - v2 else v1 + 26 * 26 - v2) * 100)"

text \<open>The result with the text as it was rewritten and the two output numbers.\<close>

definition FilterGiftCodeFormat :: "string \<Rightarrow> uint32 \<Rightarrow> uint32 \<Rightarrow> bool \<times> string \<times> uint32 \<times> uint32" where
  "FilterGiftCodeFormat strCode odwId odwIdx =
     (let s = (if take 2 strCode \<noteq> ''HD'' \<and> take 2 strCode \<noteq> ''hd'' \<and> take 2 strCode \<noteq> ''hD'' \<and> take 2 strCode \<noteq> ''Hd''
               then ''HD'' @ strCode else strCode);
          s = filter (\<lambda>c. c \<noteq> CHR ''-'') s in
      if length s \<noteq> 16 then (False, s, odwId, odwIdx)
      else
        let (ok, s) = gift_scan 0 False s in
        if \<not> ok then (False, s, odwId, odwIdx)
        else if \<not> (ch_between CHR ''A'' CHR ''Z'' (s ! 0) \<and> ch_between CHR ''A'' CHR ''Z'' (s ! 1))
        then (False, s, odwId, odwIdx)
        else
          let odwId = gift_id_high s in
          if \<not> (ch_between CHR ''0'' CHR ''9'' (s ! 2) \<and> ch_between CHR ''0'' CHR ''9'' (s ! 3))
          then (False, s, odwId, odwIdx)
          else (True, s, odwId + word_of_nat ((ch (s ! 2) - 48) * 10 + (ch (s ! 3) - 48)),
                gift_index 0 (take 4 (drop 4 s))))"

section \<open>Digits\<close>

text \<open>The digits of a number from the lowest, without the dashes.\<close>

fun digits34 :: "nat \<Rightarrow> nat list" where
  "digits34 n = (if n = 0 then [] else n mod 34 # digits34 (n div 34))"

declare digits34.simps [simp del]

definition val34 :: "nat list \<Rightarrow> nat" where
  "val34 ds = foldr (\<lambda>d n. d + 34 * n) ds 0"

lemma val34_simps [simp]: "val34 [] = 0" "val34 (d # ds) = d + 34 * val34 ds"
  by (simp_all add: val34_def)

lemma val34_digits34 [simp]: "val34 (digits34 n) = n"
  by (induction n rule: digits34.induct) (subst digits34.simps, simp)

lemma length_digits34: "0 < n \<Longrightarrow> 34 ^ k \<le> n \<Longrightarrow> n < 34 ^ Suc k \<Longrightarrow> length (digits34 n) = Suc k"
proof (induction k arbitrary: n)
  case 0
  then show ?case by (subst digits34.simps) (simp add: digits34.simps [of 0])
next
  case (Suc k)
  have "34 ^ k \<le> n div 34" using Suc.prems(2) by (simp add: less_eq_div_iff_mult_less_eq mult.commute)
  moreover have "n div 34 < 34 ^ Suc k" using Suc.prems(3) by (simp add: less_mult_imp_div_less mult.commute)
  moreover have "0 < n div 34" using calculation(1) by (metis less_le_trans zero_less_numeral zero_less_power)
  ultimately have "length (digits34 (n div 34)) = Suc k" by (rule Suc.IH [rotated 1])
  with Suc.prems(1) show ?case by (subst digits34.simps) simp
qed

lemma digits34_less: "d \<in> set (digits34 n) \<Longrightarrow> d < 34"
proof (induction n rule: digits34.induct)
  case (1 n)
  then show ?case by (subst (asm) digits34.simps) (auto split: if_splits)
qed


lemma gift_digit_facts:
  "d < 34 \<Longrightarrow>
   gift_value (gift_digit ! d) = d \<and> gift_digit ! d \<noteq> CHR ''0'' \<and> gift_digit ! d \<noteq> CHR ''O'' \<and>
   gift_digit ! d \<noteq> CHR ''-'' \<and>
   (ch_between CHR ''1'' CHR ''9'' (gift_digit ! d) \<or> ch_between CHR ''A'' CHR ''Z'' (gift_digit ! d)) \<and>
   \<not> ch_between CHR ''a'' CHR ''z'' (gift_digit ! d)"
proof -
  have "list_all (\<lambda>d. gift_value (gift_digit ! d) = d \<and> gift_digit ! d \<noteq> CHR ''0'' \<and> gift_digit ! d \<noteq> CHR ''O'' \<and>
    gift_digit ! d \<noteq> CHR ''-'' \<and>
    (ch_between CHR ''1'' CHR ''9'' (gift_digit ! d) \<or> ch_between CHR ''A'' CHR ''Z'' (gift_digit ! d)) \<and>
    \<not> ch_between CHR ''a'' CHR ''z'' (gift_digit ! d)) [0..<34]"
    by code_simp
  then show "d < 34 \<Longrightarrow> ?thesis" by (auto simp: list_all_iff)
qed

abbreviation no_dash :: "string \<Rightarrow> string" where
  "no_dash s \<equiv> filter (\<lambda>c. c \<noteq> CHR ''-'') s"

lemma unat_ucast_32_64: "unat (ucast (x :: uint32) :: uint64) = unat x"
proof -
  have "unat x < 2 ^ 64" by (rule less_trans [OF unsigned_less]) simp
  then show ?thesis by (simp add: unsigned_ucast_eq take_bit_nat_eq_self)
qed

lemma num_code_digits:
  assumes "unat num < 2 ^ 63"
  shows "no_dash (num_code_loop t num shift) =
         map (\<lambda>d. gift_digit ! ((d + unat shift) mod 34)) (digits34 (unat num))"
  using assms
proof (induction t num shift rule: num_code_loop.induct)
  case (1 t num shift)
  show ?case
  proof (cases "num = 0")
    case True
    then show ?thesis by (simp add: num_code_loop.simps digits34.simps)
  next
    case False
    have u: "unat (ucast shift :: uint64) = unat shift" by (rule unat_ucast_32_64)
    have "unat shift < 2 ^ 63" by (rule less_trans [OF unsigned_less]) simp
    with 1(2) have "unat num + unat shift < 2 ^ LENGTH(64)" by simp
    with u have "unat (num + ucast shift) = unat num + unat shift"
      by (simp only: unat_add_lem [THEN iffD1])
    then have m: "unat ((num + ucast shift) mod 34) = (unat num mod 34 + unat shift) mod 34"
      by (simp add: unat_mod mod_simps)
    have d: "unat (num div 34) = unat num div 34" by (simp add: unat_div)
    have "unat num div 34 < 2 ^ 63" using 1(2) div_le_dividend [of "unat num" 34] by linarith
    with 1(1) [OF False] d have IH: "no_dash (num_code_loop (t + 1) (num div 34) shift) =
        map (\<lambda>d. gift_digit ! ((d + unat shift) mod 34)) (digits34 (unat num div 34))" by simp
    have "0 < unat num" using False by (simp add: unat_gt_0)
    moreover have "gift_digit ! unat ((num + ucast shift) mod 34) \<noteq> CHR ''-''"
      using gift_digit_facts [of "(unat num mod 34 + unat shift) mod 34"] m by simp
    ultimately show ?thesis
      by (subst num_code_loop.simps, subst digits34.simps) (use IH m False in simp)
  qed
qed

lemma num_code_short:
  "unat num < 2 ^ 63 \<Longrightarrow> t + length (digits34 (unat num)) < 4 \<Longrightarrow> no_dash (num_code_loop t num shift) = num_code_loop t num shift"
proof (induction t num shift rule: num_code_loop.induct)
  case (1 t num shift)
  show ?case
  proof (cases "num = 0")
    case True
    then show ?thesis by (simp add: num_code_loop.simps)
  next
    case False
    then have n: "0 < unat num" by (simp add: unat_gt_0)
    have d: "unat (num div 34) = unat num div 34" by (simp add: unat_div)
    have "unat num div 34 < 2 ^ 63" using 1(2) div_le_dividend [of "unat num" 34] by linarith
    moreover have "length (digits34 (unat num)) = Suc (length (digits34 (unat num div 34)))"
      using n by (subst digits34.simps) simp
    ultimately have IH: "no_dash (num_code_loop (t + 1) (num div 34) shift) = num_code_loop (t + 1) (num div 34) shift"
      using 1(1) [OF False] 1(3) d by simp
    have "t + 1 < 4" using 1(3) n by (subst (asm) digits34.simps) simp
    moreover have "gift_digit ! unat ((num + ucast shift) mod 34) \<noteq> CHR ''-''"
    proof -
      have "unat ((num + ucast shift) mod 34) < 34" by (simp add: unat_mod)
      then show ?thesis using gift_digit_facts by blast
    qed
    ultimately show ?thesis
      by (subst (1 2) num_code_loop.simps) (use IH False in simp)
  qed
qed


text \<open>The index in a code: its digits from the highest, padded to four characters.\<close>

lemma digits34_map0 [simp]: "map (\<lambda>d. gift_digit ! (d mod 34)) (digits34 n) = map (\<lambda>d. gift_digit ! d) (digits34 n)"
  by (simp add: digits34_less)

lemma length_digits34_le:
  assumes "n < 34 ^ k"
  shows "length (digits34 n) \<le> k"
  using assms
proof (induction k arbitrary: n)
  case 0
  then show ?case by (simp add: digits34.simps)
next
  case (Suc k)
  have "n div 34 < 34 ^ k" using Suc.prems by (simp add: less_mult_imp_div_less mult.commute)
  from Suc.IH [OF this] show ?case by (subst digits34.simps) simp
qed

definition idx_text :: "nat \<Rightarrow> string" where
  "idx_text n = replicate (4 - length (digits34 n)) CHR ''0'' @ rev (map (\<lambda>d. gift_digit ! d) (digits34 n))"

lemma idx_padded:
  assumes "(dwIdx :: uint32) \<le> 1336335"
  shows "no_dash (gift_pad (NumToCode (ucast dwIdx) 0)) = idx_text (unat dwIdx)"
proof -
  let ?n = "unat dwIdx" and ?c = "NumToCode (ucast dwIdx) 0"
  have u: "unat (ucast dwIdx :: uint64) = ?n" by (rule unat_ucast_32_64)
  have small: "?n < 34 ^ 4" using assms by (simp add: word_le_nat_alt)
  then have "?n < 2 ^ 63" by (rule less_le_trans) simp
  with u have n63: "unat (ucast dwIdx :: uint64) < 2 ^ 63" by simp
  have d: "no_dash ?c = rev (map (\<lambda>d. gift_digit ! d) (digits34 ?n))"
    using num_code_digits [OF n63, of 0 0] u by (simp add: NumToCode_def flip: rev_filter)
  have len: "length (no_dash ?c) = length (digits34 ?n)" using d by simp
  show ?thesis
  proof (cases "length (digits34 ?n) < 4")
    case True
    then have "no_dash ?c = ?c" using num_code_short [OF n63, of 0 0] u by (simp add: NumToCode_def flip: rev_filter)
    with len d show ?thesis by (simp add: gift_pad_def idx_text_def)
  next
    case False
    moreover have "length (no_dash ?c) \<le> length ?c" by simp
    ultimately show ?thesis using len d by (simp add: gift_pad_def idx_text_def)
  qed
qed

lemma length_idx_text: "n < 34 ^ 4 \<Longrightarrow> length (idx_text n) = 4"
  using length_digits34_le [of n 4] by (simp add: idx_text_def)

lemma gift_index_zeros [simp]: "gift_index i (replicate k CHR ''0'' @ s) = gift_index i s"
  by (induction k) auto

lemma gift_index_append: "gift_index i (s @ [c]) =
   (if c = CHR ''0'' then gift_index i s else gift_index i s * 34 + word_of_nat (gift_value c))"
  by (induction s arbitrary: i) auto

lemma gift_index_digits:
  "(\<forall>d \<in> set ds. d < 34) \<Longrightarrow> gift_index 0 (rev (map (\<lambda>d. gift_digit ! d) ds)) = word_of_nat (val34 ds)"
proof (induction ds)
  case (Cons d ds)
  then have "gift_value (gift_digit ! d) = d" "gift_digit ! d \<noteq> CHR ''0''" using gift_digit_facts by simp_all
  with Cons show ?case by (simp add: gift_index_append)
qed simp

lemma gift_index_idx_text: "gift_index 0 (idx_text n) = word_of_nat n"
  by (simp add: idx_text_def gift_index_digits digits34_less)

text \<open>The pass over a well-formed code changes nothing.\<close>

definition gift_good :: "char \<Rightarrow> bool" where
  "gift_good c \<longleftrightarrow> (ch_between CHR ''1'' CHR ''9'' c \<or> ch_between CHR ''A'' CHR ''Z'' c) \<and>
     \<not> ch_between CHR ''a'' CHR ''z'' c \<and> c \<noteq> CHR ''O'' \<and> c \<noteq> CHR ''0''"

lemma gift_good_digit: "d < 34 \<Longrightarrow> gift_good (gift_digit ! d)"
  using gift_digit_facts [of d] by (simp add: gift_good_def)

lemma gift_good_HD: "gift_good CHR ''H''" "gift_good CHR ''D''"
  by (simp_all add: gift_good_def ch_between_def ch_def)

lemma scan_good: "\<forall>c \<in> set cs. gift_good c \<Longrightarrow> gift_scan i f cs = (True, cs)"
  by (induction cs arbitrary: i f) (auto simp: gift_good_def Let_def)

lemma scan_zeros: "gift_scan i False (replicate k CHR ''0'' @ cs) =
   (let (ok, r) = gift_scan (i + k) False cs in (ok, replicate k CHR ''0'' @ r))"
  by (induction k arbitrary: i) (auto simp: Let_def ch_between_def ch_def split: prod.splits)

lemma scan_head:
  "gift_good c \<or> c = CHR ''0'' \<Longrightarrow> i < 4 \<Longrightarrow>
   gift_scan i False (c # cs) = (let (ok, r) = gift_scan (i + 1) False cs in (ok, c # r))"
  by (auto simp: gift_good_def Let_def ch_between_def ch_def)

lemma scan_heads:
  "\<forall>c \<in> set hs. gift_good c \<or> c = CHR ''0'' \<Longrightarrow> i + length hs \<le> 4 \<Longrightarrow>
   gift_scan i False (hs @ cs) = (let (ok, r) = gift_scan (i + length hs) False cs in (ok, hs @ r))"
proof (induction hs arbitrary: i)
  case (Cons c hs)
  then have h: "gift_scan i False (c # (hs @ cs)) = (let (ok, r) = gift_scan (i + 1) False (hs @ cs) in (ok, c # r))"
    by (intro scan_head) simp_all
  have "gift_scan (i + 1) False (hs @ cs) = (let (ok, r) = gift_scan (i + 1 + length hs) False cs in (ok, hs @ r))"
    using Cons by simp
  with h show ?case by (simp del: gift_scan.simps split: prod.splits)
qed simp

lemma scan_code:
  assumes "\<forall>c \<in> set hs. gift_good c \<or> c = CHR ''0''" "length hs = 4" "\<forall>c \<in> set cs. gift_good c"
  shows "gift_scan 0 False (hs @ replicate k CHR ''0'' @ cs) = (True, hs @ replicate k CHR ''0'' @ cs)"
  using scan_heads [OF assms(1), of 0 "replicate k CHR ''0'' @ cs"] assms(2,3) by (simp add: scan_zeros scan_good)

section \<open>The checksum has eight digits\<close>

lemma bit_le: "bit (m :: nat) k \<Longrightarrow> 2 ^ k \<le> m"
proof (rule ccontr)
  assume "bit m k" "\<not> 2 ^ k \<le> m"
  then show False by (simp add: bit_iff_odd)
qed

lemma xor_top:
  assumes "(x :: nat) < 2 ^ k" "bit y k" "y < 2 ^ Suc k"
  shows "2 ^ k \<le> x XOR y" and "x XOR y < 2 ^ Suc k"
proof -
  have "\<not> bit x k" using bit_le [of x k] assms(1) by (auto simp: not_le)
  with assms(2) have "bit (x XOR y) k" by (simp add: bit_simps)
  then show "2 ^ k \<le> x XOR y" by (rule bit_le)
  have x: "x < 2 ^ Suc k" using assms(1) by (rule less_trans) simp
  have "take_bit (Suc k) (x XOR y) = take_bit (Suc k) x XOR take_bit (Suc k) y" by (rule take_bit_xor)
  also have "\<dots> = x XOR y" using x assms(3) by (simp only: take_bit_nat_eq_self)
  finally show "x XOR y < 2 ^ Suc k" by (simp only: take_bit_nat_eq_self_iff)
qed

lemma spread_top:
  assumes "bit (unat t) k" "unat t < 2 ^ Suc k" "s + Suc k \<le> 64"
  shows "bit (unat (gift_spread s t)) (s + k) \<and> unat (gift_spread s t) < 2 ^ Suc (s + k)"
proof -
  have p: "push_bit s (unat t) < 2 ^ Suc (s + k)"
    using assms(2) by (simp add: push_bit_eq_mult power_add mult.commute)
  have "(2 :: nat) ^ Suc (s + k) \<le> 2 ^ 64" using assms(3) by (intro power_increasing) simp_all
  with p have "push_bit s (unat t) < 2 ^ 64" by (rule less_le_trans)
  then have u: "unat (gift_spread s t) = push_bit s (unat t) OR unat t"
    by (simp add: gift_spread_def unsigned_or_eq unsigned_push_bit_eq take_bit_nat_eq_self)
  have b: "bit (push_bit s (unat t) OR unat t) (s + k)" using assms(1) by (simp add: bit_simps)
  have t: "unat t < 2 ^ Suc (s + k)" using assms(2) by (rule less_le_trans) (simp add: power_increasing)
  have "take_bit (Suc (s + k)) (push_bit s (unat t) OR unat t) =
    take_bit (Suc (s + k)) (push_bit s (unat t)) OR take_bit (Suc (s + k)) (unat t)" by (rule take_bit_or)
  also have "\<dots> = push_bit s (unat t) OR unat t" using p t by (simp only: take_bit_nat_eq_self)
  finally have "push_bit s (unat t) OR unat t < 2 ^ Suc (s + k)" by (simp only: take_bit_nat_eq_self_iff)
  with u b show ?thesis by simp
qed


lemma mask_top:
  assumes "bit (unat (gift_seed p)) k" "unat (gift_seed p) < 2 ^ Suc k" "k \<le> 17"
  shows "bit (unat (gift_mask p)) (21 + k)" and "unat (gift_mask p) < 2 ^ Suc (21 + k)"
proof -
  let ?t = "gift_seed p"
  have 1: "bit (unat (gift_spread 8 ?t)) (8 + k) \<and> unat (gift_spread 8 ?t) < 2 ^ Suc (8 + k)"
    by (rule spread_top) (use assms in auto)
  then have 2: "bit (unat (gift_spread 7 (gift_spread 8 ?t))) (7 + (8 + k)) \<and>
      unat (gift_spread 7 (gift_spread 8 ?t)) < 2 ^ Suc (7 + (8 + k))"
    by (intro spread_top) (use assms(3) in auto)
  then have 3: "bit (unat (gift_spread 6 (gift_spread 7 (gift_spread 8 ?t)))) (6 + (7 + (8 + k))) \<and>
      unat (gift_spread 6 (gift_spread 7 (gift_spread 8 ?t))) < 2 ^ Suc (6 + (7 + (8 + k)))"
    by (intro spread_top) (use assms(3) in auto)
  have k: "6 + (7 + (8 + k)) = 21 + k" by simp
  from 3 show "bit (unat (gift_mask p)) (21 + k)" "unat (gift_mask p) < 2 ^ Suc (21 + k)"
    unfolding k by (simp_all add: gift_mask_def)
qed

lemma seed_range: "2 ^ 16 \<le> unat (gift_seed p) \<and> unat (gift_seed p) < 2 ^ 18"
proof -
  have m: "unat (p mod 100003) = unat p mod 100003" by (simp add: unat_mod)
  have "unat p mod 100003 < 100003" by simp
  then have "unat (p mod 100003 + 99881) = unat p mod 100003 + 99881"
    using m by (subst unat_add_lem [THEN iffD1]) simp_all
  moreover have "unat (gift_seed p) = unat (p mod 100003 + 99881)"
    unfolding gift_seed_def by (rule unat_ucast_32_64)
  ultimately show ?thesis using \<open>unat p mod 100003 < 100003\<close> by simp
qed

lemma bit_of_range: "2 ^ k \<le> (m :: nat) \<Longrightarrow> m < 2 ^ Suc k \<Longrightarrow> bit m k"
proof -
  assume "2 ^ k \<le> m" "m < 2 ^ Suc k"
  then have "m div 2 ^ k = 1" by (intro div_nat_eqI) simp_all
  then show ?thesis by (simp add: bit_iff_odd)
qed

lemma unat_plus_le: "unat (a + b) \<le> unat a + unat b"
  unfolding unat_word_ariths by (rule mod_less_eq_dividend)

lemma unat_times_le: "unat (a * b) \<le> unat a * unat b"
  unfolding unat_word_ariths by (rule mod_less_eq_dividend)

lemma base_bound:
  assumes "dwId < 67600" "dwIdx \<le> 1336335"
  shows "unat (gift_base dwId dwIdx p) < 2 ^ 38"
proof -
  have i: "unat dwId < 67600" using assms(1) by (simp add: word_less_nat_alt)
  have x: "unat dwIdx \<le> 1336335" using assms(2) by (simp add: word_le_nat_alt)
  have p: "unat (p mod 109 + 1) \<le> 109"
  proof -
    have m: "unat (p mod 109) < 109" by (simp add: unat_mod)
    then have "unat (p mod 109 + 1) = unat (p mod 109) + 1" by (subst unat_add_lem [THEN iffD1]) simp_all
    with m show ?thesis by simp
  qed
  have "unat (gift_base dwId dwIdx p) \<le> unat (ucast dwIdx * 1003 + ucast dwId :: uint64) * unat (p mod 109 + 1)"
    unfolding gift_base_def using unat_times_le [of _ "ucast (p mod 109 + 1) :: uint64"] by (simp only: unat_ucast_32_64)
  also have "\<dots> \<le> (unat (ucast dwIdx * 1003 :: uint64) + unat dwId) * unat (p mod 109 + 1)"
    using unat_plus_le [of _ "ucast dwId :: uint64"] by (intro mult_le_mono1) (simp only: unat_ucast_32_64)
  also have "\<dots> \<le> (unat dwIdx * 1003 + unat dwId) * unat (p mod 109 + 1)"
    using unat_times_le [of "ucast dwIdx :: uint64" 1003] by (intro mult_le_mono1 add_le_mono1) (simp add: unat_ucast_32_64)
  also have "\<dots> \<le> (1336335 * 1003 + 67600) * 109"
    using i x p by (intro mult_le_mono) simp_all
  finally show ?thesis by simp
qed

definition checksum :: "uint32 \<Rightarrow> uint32 \<Rightarrow> uint32 \<Rightarrow> uint32 \<Rightarrow> uint64" where
  "checksum dwId dwIdx p1 p2 = gift_base dwId dwIdx p1 XOR gift_mask p2"

lemma checksum_range:
  assumes "dwId < 67600" "dwIdx \<le> 1336335" "unat (gift_base dwId dwIdx p1) < 2 ^ 37 \<or> 2 ^ 17 \<le> unat (gift_seed p2)"
  shows "34 ^ 7 \<le> unat (checksum dwId dwIdx p1 p2)" and "unat (checksum dwId dwIdx p1 p2) < 34 ^ 8"
proof -
  let ?b = "unat (gift_base dwId dwIdx p1)" and ?m = "unat (gift_mask p2)"
  have u: "unat (checksum dwId dwIdx p1 p2) = ?b XOR ?m" by (simp add: checksum_def unsigned_xor_eq)
  have r: "2 ^ 37 \<le> ?b XOR ?m \<and> ?b XOR ?m < 2 ^ 39"
  proof (cases "2 ^ 17 \<le> unat (gift_seed p2)")
    case True
    then have "bit (unat (gift_seed p2)) 17" "unat (gift_seed p2) < 2 ^ Suc 17"
      using seed_range [of p2] by (simp_all add: bit_of_range)
    then have m: "bit ?m 38" "?m < 2 ^ Suc 38" using mask_top [of p2 17] by simp_all
    have "?b < 2 ^ 38" using assms(1,2) by (rule base_bound)
    from xor_top [OF this m] show ?thesis by simp
  next
    case False
    then have b: "?b < 2 ^ 37" using assms(3) by simp
    from False have "bit (unat (gift_seed p2)) 16" "unat (gift_seed p2) < 2 ^ Suc 16"
      using seed_range [of p2] by (simp_all add: bit_of_range)
    then have m: "bit ?m 37" "?m < 2 ^ Suc 37" using mask_top [of p2 16] by simp_all
    from xor_top [OF b m] show ?thesis by simp
  qed
  have "(34 :: nat) ^ 7 \<le> 2 ^ 37" "(2 :: nat) ^ 39 \<le> 34 ^ 8" by simp_all
  with r show "34 ^ 7 \<le> unat (checksum dwId dwIdx p1 p2)" "unat (checksum dwId dwIdx p1 p2) < 34 ^ 8"
    unfolding u by linarith+
qed


lemma code_digits:
  assumes "34 ^ 7 \<le> unat num" "unat num < 34 ^ 8"
  shows "length (no_dash (NumToCode num shift)) = 8" and "\<forall>c \<in> set (no_dash (NumToCode num shift)). gift_good c"
proof -
  have "(34 :: nat) ^ 8 \<le> 2 ^ 63" by simp
  with assms(2) have "unat num < 2 ^ 63" by (rule less_le_trans)
  then have d: "no_dash (NumToCode num shift) =
      rev (map (\<lambda>d. gift_digit ! ((d + unat shift) mod 34)) (digits34 (unat num)))"
    by (simp add: NumToCode_def num_code_digits flip: rev_filter)
  have "0 < unat num" using assms(1) by (rule less_le_trans [rotated]) simp
  then have "length (digits34 (unat num)) = Suc 7" by (rule length_digits34) (use assms in simp_all)
  with d show "length (no_dash (NumToCode num shift)) = 8" by simp
  from d show "\<forall>c \<in> set (no_dash (NumToCode num shift)). gift_good c" by (auto intro!: gift_good_digit)
qed

section \<open>Prefix and number\<close>

definition two_digits_ok :: "nat \<Rightarrow> bool" where
  "two_digits_ok n \<longleftrightarrow>
     (case gift_02u n of
        [a, b] \<Rightarrow> (gift_good a \<or> a = CHR ''0'') \<and> (gift_good b \<or> b = CHR ''0'') \<and> a \<noteq> CHR ''-'' \<and> b \<noteq> CHR ''-'' \<and>
          ch_between CHR ''0'' CHR ''9'' a \<and> ch_between CHR ''0'' CHR ''9'' b \<and> (ch a - 48) * 10 + (ch b - 48) = n
      | _ \<Rightarrow> False)"

lemma two_digits: "n < 100 \<Longrightarrow> two_digits_ok n"
proof -
  have "list_all two_digits_ok [0..<100]" by code_simp
  then show "n < 100 \<Longrightarrow> ?thesis" by (auto simp: list_all_iff)
qed

definition prefix_ok :: "nat \<Rightarrow> bool" where
  "prefix_ok v \<longleftrightarrow>
     (let s = [char_of (v div 26 + 65), char_of (v mod 26 + 65)] :: string in
      s \<noteq> ''hd'' \<and> s \<noteq> ''hD'' \<and> s \<noteq> ''Hd'' \<and> (s = ''HD'' \<longleftrightarrow> v = 185) \<and> CHR ''-'' \<notin> set s)"

definition letter_ok :: "nat \<Rightarrow> bool" where
  "letter_ok d \<longleftrightarrow>
     (let c = char_of (d + 65) :: char in
      (c = CHR ''H'' \<longleftrightarrow> d = 7) \<and> (c = CHR ''D'' \<longleftrightarrow> d = 3) \<and> c \<noteq> CHR ''h'' \<and> c \<noteq> CHR ''d'' \<and> c \<noteq> CHR ''-'')"

lemma letters: "d < 26 \<Longrightarrow> letter_ok d"
proof -
  have "list_all letter_ok [0..<26]" by code_simp
  then show "d < 26 \<Longrightarrow> ?thesis" by (auto simp: list_all_iff)
qed

lemma prefix_letters: "v < 676 \<Longrightarrow> prefix_ok v"
proof -
  assume v: "v < 676"
  define q r where "q = v div 26" and "r = v mod 26"
  have "q < 26" "r < 26" and e: "v = 26 * q + r" using v by (simp_all add: q_def r_def div_less_iff_less_mult)
  then have "letter_ok q" "letter_ok r" by (simp_all add: letters)
  moreover have "v = 185 \<longleftrightarrow> q = 7 \<and> r = 3" using \<open>r < 26\<close> e by presburger
  moreover define a b where "a = (char_of (q + 65) :: char)" and "b = (char_of (r + 65) :: char)"
  ultimately show ?thesis
    unfolding prefix_ok_def letter_ok_def Let_def q_def [symmetric] r_def [symmetric] a_def [symmetric] b_def [symmetric]
    by auto
qed

section \<open>Properties\<close>

lemma gift_prefix_ok:
  obtains v where "v = (7 * 26 + 3 + unat (dwId div 100)) mod (26 * 26)" "prefix_ok v"
    "gift_prefix dwId = [char_of (v div 26 + 65), char_of (v mod 26 + 65)]"
proof -
  define v where "v = (7 * 26 + 3 + unat (dwId div 100)) mod (26 * 26)"
  have "v < 676" unfolding v_def by simp
  then have "prefix_ok v" by (rule prefix_letters)
  moreover have "gift_prefix dwId = [char_of (v div 26 + 65), char_of (v mod 26 + 65)]"
    unfolding gift_prefix_def Let_def v_def by (rule refl)
  ultimately show thesis using that v_def by blast
qed

lemma prefix_no_dash: "no_dash (gift_prefix dwId) = gift_prefix dwId"
proof -
  obtain v where v: "prefix_ok v" "gift_prefix dwId = [char_of (v div 26 + 65), char_of (v mod 26 + 65)]"
    by (rule gift_prefix_ok)
  then have "CHR ''-'' \<notin> set (gift_prefix dwId)" by (simp add: prefix_ok_def Let_def)
  then show ?thesis by (auto simp: filter_id_conv)
qed

lemma no_dash_code:
  assumes "dwId < 67600" "dwIdx \<le> 1336335"
  shows "no_dash (CalcGiftCode dwId dwIdx p1 p2 p3) =
     gift_prefix dwId @ gift_02u (unat (dwId mod 100)) @ idx_text (unat dwIdx) @
     no_dash (NumToCode (checksum dwId dwIdx p1 p2) ((dwIdx XOR p3) mod 34 + 1))"
proof -
  let ?n = "unat (dwId mod 100)"
  have "?n < 100" by (simp add: unat_mod)
  then have d2: "no_dash (gift_02u ?n) = gift_02u ?n"
    using two_digits [of ?n] by (auto simp: two_digits_ok_def split: list.splits)
  have pre: "no_dash (gift_prefix dwId) = gift_prefix dwId" by (rule prefix_no_dash)
  have "\<not> (26 * 26 * 100 \<le> dwId \<or> 1336335 < dwIdx)" using assms by (simp add: not_le not_less)
  then have "CalcGiftCode dwId dwIdx p1 p2 p3 = gift_prefix dwId @ gift_02u ?n @ ''-'' @
      gift_pad (NumToCode (ucast dwIdx) 0) @ NumToCode (checksum dwId dwIdx p1 p2) ((dwIdx XOR p3) mod 34 + 1)"
    by (simp add: CalcGiftCode_def checksum_def Let_def)
  with d2 pre idx_padded [OF assms(2)] show ?thesis by simp
qed

lemma prefix_of_id:
  assumes "dwId < 67600"
  shows "length (gift_prefix dwId) = 2" and "gift_prefix dwId = ''HD'' \<longleftrightarrow> dwId < 100"
    and "gift_prefix dwId \<notin> {''hd'', ''hD'', ''Hd''}"
proof -
  let ?q = "unat (dwId div 100)"
  obtain v where v: "v = (7 * 26 + 3 + ?q) mod (26 * 26)" "prefix_ok v"
    "gift_prefix dwId = [char_of (v div 26 + 65), char_of (v mod 26 + 65)]"
    by (rule gift_prefix_ok)
  have "unat dwId < 67600" using assms by (simp add: word_less_nat_alt)
  then have q: "?q < 676" by (simp add: unat_div)
  have p: "gift_prefix dwId \<notin> {''hd'', ''hD'', ''Hd''}" "gift_prefix dwId = ''HD'' \<longleftrightarrow> v = 185"
    using v(2) unfolding v(3) prefix_ok_def Let_def by blast+
  have "v = 185 \<longleftrightarrow> ?q = 0"
  proof (cases "?q < 491")
    case False
    then have "v = ?q - 491" unfolding v(1) using q by (simp add: mod_if)
    with False q show ?thesis by linarith
  next
    case True
    then have "v = 185 + ?q" unfolding v(1) by simp
    then show ?thesis by simp
  qed
  moreover have "?q = 0 \<longleftrightarrow> dwId < 100" by (simp add: unat_div word_less_nat_alt div_eq_0_iff)
  ultimately show "gift_prefix dwId = ''HD'' \<longleftrightarrow> dwId < 100" using p(2) by simp
  show "gift_prefix dwId \<notin> {''hd'', ''hD'', ''Hd''}" by (rule p(1))
  show "length (gift_prefix dwId) = 2" using v(3) by simp
qed


lemma id_split: "(dwId :: uint32) < 100 \<Longrightarrow> dwId mod 100 = dwId"
  by (rule word_unat_eq_iff [THEN iffD2]) (simp add: unat_mod word_less_nat_alt)

text \<open>
  C29: A code made for gift \<open>dwId\<close> and index \<open>dwIdx\<close> is read back as these two numbers, whatever the
  parameters of the gift, when the gift's number is below 100: exactly then the code starts with
  \<^verbatim>\<open>HD\<close>. For a gift from 100 on the reader puts \<^verbatim>\<open>HD\<close> before the code and rejects it for its length.
  The condition on the checksum says that it has eight digits.
\<close>

theorem gift_code_round_trip:
  assumes "dwId < 67600" "dwIdx \<le> 1336335"
    and "unat (gift_base dwId dwIdx p1) < 2 ^ 37 \<or> 2 ^ 17 \<le> unat (gift_seed p2)"
  shows "FilterGiftCodeFormat (CalcGiftCode dwId dwIdx p1 p2 p3) odwId odwIdx =
     (if dwId < 100
      then (True, filter (\<lambda>c. c \<noteq> CHR ''-'') (CalcGiftCode dwId dwIdx p1 p2 p3), dwId, dwIdx)
      else (False, ''HD'' @ filter (\<lambda>c. c \<noteq> CHR ''-'') (CalcGiftCode dwId dwIdx p1 p2 p3), odwId, odwIdx))"
proof -
  let ?code = "CalcGiftCode dwId dwIdx p1 p2 p3" and ?n = "unat (dwId mod 100)"
  let ?i = "idx_text (unat dwIdx)"
  let ?c = "no_dash (NumToCode (checksum dwId dwIdx p1 p2) ((dwIdx XOR p3) mod 34 + 1))"
  note range = checksum_range [OF assms]
  note c = code_digits [OF range, of "(dwIdx XOR p3) mod 34 + 1"]
  have "unat dwIdx < 34 ^ 4" using assms(2) by (simp add: word_le_nat_alt)
  then have i: "length ?i = 4" by (rule length_idx_text)
  have "?n < 100" by (simp add: unat_mod)
  then obtain a b where ab: "gift_02u ?n = [a, b]" "gift_good a \<or> a = CHR ''0''" "gift_good b \<or> b = CHR ''0''"
    "ch_between CHR ''0'' CHR ''9'' a" "ch_between CHR ''0'' CHR ''9'' b" "(ch a - 48) * 10 + (ch b - 48) = ?n"
    using two_digits [of ?n] by (auto simp: two_digits_ok_def split: list.splits)
  have code: "no_dash ?code = gift_prefix dwId @ [a, b] @ ?i @ ?c"
    using no_dash_code [OF assms(1,2)] ab(1) by simp
  have "\<not> (26 * 26 * 100 \<le> dwId \<or> 1336335 < dwIdx)" using assms(1,2) by (simp add: not_le not_less)
  then have take: "take 2 ?code = gift_prefix dwId"
    using prefix_of_id(1) [OF assms(1)] by (simp add: CalcGiftCode_def Let_def)
  show ?thesis
  proof (cases "dwId < 100")
    case True
    then have pre: "gift_prefix dwId = ''HD''" using prefix_of_id(2) [OF assms(1)] by simp
    let ?ds = "rev (map (\<lambda>d. gift_digit ! d) (digits34 (unat dwIdx)))"
    have hs: "\<forall>c \<in> set (''HD'' @ [a, b]). gift_good c \<or> c = CHR ''0''"
      using ab(2,3) gift_good_HD by auto
    have cs: "\<forall>c \<in> set (?ds @ ?c). gift_good c"
      using c(2) by (auto intro: gift_good_digit dest: digits34_less)
    have "gift_scan 0 False ((''HD'' @ [a, b]) @ replicate (4 - length (digits34 (unat dwIdx))) CHR ''0'' @ ?ds @ ?c) =
        (True, (''HD'' @ [a, b]) @ replicate (4 - length (digits34 (unat dwIdx))) CHR ''0'' @ ?ds @ ?c)"
      by (rule scan_code [OF hs _ cs]) simp
    then have "gift_scan 0 False (''HD'' @ [a, b] @ ?i @ ?c) = (True, ''HD'' @ [a, b] @ ?i @ ?c)"
      unfolding idx_text_def append_assoc .
    moreover have "gift_id_high (''HD'' @ [a, b] @ ?i @ ?c) = 0" by (simp add: gift_id_high_def ch_def)
    moreover have "take 4 (drop 4 (''HD'' @ [a, b] @ ?i @ ?c)) = ?i" using i by simp
    ultimately show ?thesis
      using True take code pre c(1) i ab(4-6)
      by (simp add: FilterGiftCodeFormat_def gift_index_idx_text id_split ch_between_def ch_def del: gift_scan.simps)
  next
    case False
    then have "gift_prefix dwId \<notin> {''HD'', ''hd'', ''hD'', ''Hd''}" using prefix_of_id [OF assms(1)] by auto
    moreover have "length (no_dash ?code) = 16"
      using code prefix_of_id(1) [OF assms(1)] i c(1) by simp
    ultimately show ?thesis
      using False take by (simp add: FilterGiftCodeFormat_def)
  qed
qed


theorem gift_code_round_trip_witness:
  "FilterGiftCodeFormat (CalcGiftCode 42 1234 7 11 5) 0 0 =
     (True, filter (\<lambda>c. c \<noteq> CHR ''-'') (CalcGiftCode 42 1234 7 11 5), 42, 1234) \<and>
   \<not> fst (FilterGiftCodeFormat (CalcGiftCode 142 1234 7 11 5) 0 0)"
proof -
  have "unat (gift_base 42 1234 7) < 2 ^ 37" "unat (gift_base 142 1234 7) < 2 ^ 37" by (simp_all add: gift_base_def)
  with gift_code_round_trip [of 42 1234 7 11 5 0 0] gift_code_round_trip [of 142 1234 7 11 5 0 0]
  show ?thesis by simp
qed

text \<open>Numbers out of range make the word \<open>Error\<close>, which the reader rejects.\<close>

lemma gift_code_out_of_range:
  assumes "67600 \<le> dwId \<or> 1336335 < dwIdx"
  shows "CalcGiftCode dwId dwIdx p1 p2 p3 = ''Error''" and
    "\<not> fst (FilterGiftCodeFormat (CalcGiftCode dwId dwIdx p1 p2 p3) i j)"
  using assms by (simp_all add: CalcGiftCode_def FilterGiftCodeFormat_def)

end
