(* ===== verification/Config_Reader.thy ===== *)
theory Config_Reader
  imports Csv_Reader
begin

text \<open>
  The second reader of comma-separated tables, \<^verbatim>\<open>CConfigReader\<close> (pitayaserver/framework/ConfigReader.h,
  ConfigReader.cpp).

  A file is the list of its characters. \<^verbatim>\<open>fgetc\<close> is assigned to a \<^verbatim>\<open>char\<close>, so the end of the file and a
  byte 255 are the same character, \<open>chEOF\<close>. A file that cannot be opened is \<^const>\<open>None\<close>.
\<close>

section \<open>Reading\<close>

abbreviation chEOF :: char where "chEOF \<equiv> CHR 0xFF"

fun cr_getc :: "string \<Rightarrow> char \<times> string" where
  "cr_getc [] = (chEOF, [])"
| "cr_getc (c # s) = (c, s)"

text \<open>The first loop of \<open>readCell\<close> passes over line ends.\<close>

fun cr_skip :: "string \<Rightarrow> char \<times> string" where
  "cr_skip [] = (chEOF, [])"
| "cr_skip (c # s) = (if c \<noteq> chEOF \<and> (c = chCR \<or> c = chLF) then cr_skip s else (c, s))"

text \<open>The second loop, with the number of quotes seen, the current character and the cell so far.\<close>

function cr_cell :: "nat \<Rightarrow> char \<Rightarrow> string \<Rightarrow> string \<Rightarrow> char \<times> string \<times> string" where
  "cr_cell quote_count c pCell s =
     (if c = chQ
      then cr_cell (quote_count + 1) (fst (cr_getc s)) (if odd (quote_count + 1) then pCell @ [c] else pCell) (snd (cr_getc s))
      else if c = chComma then
        (if odd quote_count then cr_cell quote_count (fst (cr_getc s)) (pCell @ [c]) (snd (cr_getc s)) else (c, pCell, s))
      else if c = chLF \<or> c = chCR \<or> c = chEOF then (c, pCell, s)
      else cr_cell quote_count (fst (cr_getc s)) (pCell @ [c]) (snd (cr_getc s)))"
  by auto
termination
proof (relation "measure (\<lambda>(q, c, cell, s). if c = chEOF then 0 else Suc (length s))", goal_cases)
  case (2 q c cell s)
  then show ?case by (cases s) auto
next
  case (3 q c cell s)
  then show ?case by (cases s) auto
next
  case (4 q c cell s)
  then show ?case by (cases s) auto
qed simp

declare cr_cell.simps [simp del]

definition readCell :: "string \<Rightarrow> char \<times> string \<times> string" where
  "readCell fp =
     (let (c, fp) = cr_skip fp in
      if c = chEOF then (c, [], fp)
      else if c = chQ then (let (c, fp) = cr_getc fp in cr_cell 1 c [] fp)
      else cr_cell 0 c [] fp)"

lemma cr_skip_length: "cr_skip s = (c, s') \<Longrightarrow> length s' \<le> length s \<and> (c \<noteq> chEOF \<longrightarrow> length s' < length s)"
  by (induction s) (auto split: if_splits)

lemma cr_getc_length: "length (snd (cr_getc s)) \<le> length s"
  by (cases s) auto

lemma cr_cell_length: "length (snd (snd (cr_cell q c cell s))) \<le> length s"
proof (induction q c cell s rule: cr_cell.induct)
  case (1 q c cell s)
  note g = cr_getc_length [of s]
  from 1 show ?case
    by (subst cr_cell.simps) (auto intro: order_trans [OF _ g])
qed

lemma readCell_length:
  "readCell s = (c, cell, s') \<Longrightarrow> length s' \<le> length s \<and> (c \<noteq> chEOF \<or> cell \<noteq> [] \<longrightarrow> length s' < length s)"
proof -
  assume r: "readCell s = (c, cell, s')"
  obtain d t where d: "cr_skip s = (d, t)" by fastforce
  note k = cr_skip_length [OF d]
  show ?thesis
  proof (cases "d = chEOF")
    case True
    with r d k show ?thesis by (simp add: readCell_def)
  next
    case False
    moreover have "length s' \<le> length t"
      using r d False cr_cell_length [of 0 d "[]" t] cr_cell_length [of 1 "fst (cr_getc t)" "[]" "snd (cr_getc t)"]
        cr_getc_length [of t] by (auto simp: readCell_def split: if_splits prod.splits)
    ultimately show ?thesis using k by auto
  qed
qed

text \<open>\<open>readRow\<close> and the loop of \<open>init\<close>. A row without cells ends the file.\<close>

function readRow :: "string \<Rightarrow> string list \<Rightarrow> string list \<times> string" where
  "readRow fp pRow =
     (let (c, cell, fp') = readCell fp; pRow = (if cell \<noteq> [] \<or> c \<noteq> chEOF then pRow @ [cell] else pRow) in
      if c = CHR '','' then readRow fp' pRow else (pRow, fp'))"
  by auto
termination
proof (relation "measure (\<lambda>(s, r). length s)", goal_cases)
  case (2 fp pRow x c y cell fp' pr)
  then have "readCell fp = (c, cell, fp')" "c \<noteq> chEOF" by simp_all
  then show ?case using readCell_length by simp
qed simp

declare readRow.simps [simp del]

lemma readRow_length: "readRow s r = (r', s') \<Longrightarrow> length s' \<le> length s \<and> (length s' < length s \<or> r' = r)"
proof (induction s r arbitrary: r' s' rule: readRow.induct)
  case (1 s r)
  obtain c cell t where c: "readCell s = (c, cell, t)" by (cases "readCell s") auto
  note k = readCell_length [OF c]
  show ?case
  proof (cases "c = chComma")
    case True
    then have "length t < length s" using k by simp
    moreover have "length s' \<le> length t"
      using "1.IH" [OF c [symmetric] refl refl refl True] "1.prems" c True by (subst (asm) readRow.simps) auto
    ultimately show ?thesis by simp
  next
    case False
    with 1(2) c k show ?thesis
      by (subst (asm) readRow.simps) (auto split: if_splits)
  qed
qed

function cr_rows :: "string \<Rightarrow> string list list" where
  "cr_rows fp = (let (row, fp') = readRow fp [] in if row = [] then [] else row # cr_rows fp')"
  by auto
termination by (relation "measure length") (auto dest!: readRow_length [OF sym])

declare cr_rows.simps [simp del]

record config_reader =
  cr_table :: "string list list"
  cr_initialized :: bool
  cr_error :: bool

definition config_reader_new :: config_reader where
  "config_reader_new = \<lparr>cr_table = [], cr_initialized = False, cr_error = False\<rparr>"

definition cr_init :: "string option \<Rightarrow> config_reader \<Rightarrow> bool \<times> config_reader" where
  "cr_init file R =
     (if cr_initialized R then (False, R)
      else case file of
        None \<Rightarrow> (False, R)
      | Some fp \<Rightarrow> (True, R\<lparr>cr_table := cr_table R @ cr_rows fp, cr_initialized := True\<rparr>))"

section \<open>Access\<close>

text \<open>Every access that fails sets the error flag, and \<open>is_error\<close> reads and clears it.\<close>

definition cr_rowCount :: "config_reader \<Rightarrow> nat" where
  "cr_rowCount R = length (cr_table R)"

definition cr_fail :: "config_reader \<Rightarrow> config_reader" where
  "cr_fail R = R\<lparr>cr_error := True\<rparr>"

definition cr_colCount :: "config_reader \<Rightarrow> nat \<times> config_reader" where
  "cr_colCount R =
     (if \<not> cr_initialized R then (0, cr_fail R)
      else if cr_table R = [] then (0, cr_fail R)
      else (length (cr_table R ! 0), R))"

definition cr_colCount_row :: "int \<Rightarrow> config_reader \<Rightarrow> nat \<times> config_reader" where
  "cr_colCount_row nRow R =
     (if \<not> cr_initialized R then (0, cr_fail R)
      else if nRow < 0 \<or> int (length (cr_table R)) \<le> nRow then (0, cr_fail R)
      else (length (cr_table R ! nat nRow), R))"

definition cr_row :: "nat \<Rightarrow> config_reader \<Rightarrow> string list \<times> config_reader" where
  "cr_row r R = (if length (cr_table R) \<le> r then ([], cr_fail R) else (cr_table R ! r, R))"

definition cr_cell_at :: "nat \<Rightarrow> nat \<Rightarrow> config_reader \<Rightarrow> string \<times> config_reader" where
  "cr_cell_at r c R =
     (let (current_row, R) = cr_row r R in
      if length current_row \<le> c then ([], cr_fail R) else (current_row ! c, R))"

definition cr_is_error :: "config_reader \<Rightarrow> bool \<times> config_reader" where
  "cr_is_error R = (cr_error R, R\<lparr>cr_error := False\<rparr>)"

section \<open>Reading a printed table\<close>

text \<open>Every cell in quotes, quotes in it doubled, one row a line.\<close>

definition cr_cell_text :: "string \<Rightarrow> string" where
  "cr_cell_text c = [chQ] @ csv_double c @ [chQ]"

fun cr_row_text :: "string list \<Rightarrow> string" where
  "cr_row_text [] = []"
| "cr_row_text [c] = cr_cell_text c @ [chLF]"
| "cr_row_text (c # d # r) = cr_cell_text c @ [chComma] @ cr_row_text (d # r)"

definition cr_cell_ok :: "string \<Rightarrow> bool" where
  "cr_cell_ok c \<longleftrightarrow> chLF \<notin> set c \<and> chCR \<notin> set c \<and> chEOF \<notin> set c"

lemma cr_cell_quote:
  "cr_cell q chQ cell s = cr_cell (Suc q) (fst (cr_getc s)) (if even q then cell @ [chQ] else cell) (snd (cr_getc s))"
  by (subst cr_cell.simps) simp

lemma cr_cell_take:
  "odd q \<Longrightarrow> c \<noteq> chQ \<Longrightarrow> c \<noteq> chLF \<Longrightarrow> c \<noteq> chCR \<Longrightarrow> c \<noteq> chEOF \<Longrightarrow>
   cr_cell q c cell s = cr_cell q (fst (cr_getc s)) (cell @ [c]) (snd (cr_getc s))"
  by (subst cr_cell.simps) simp

lemma cr_cell_stop: "e = chComma \<or> e = chLF \<Longrightarrow> even q \<Longrightarrow> cr_cell q e cell s = (e, cell, s)"
  by (subst cr_cell.simps) auto

lemma cr_cell_quoted:
  "cr_cell_ok s \<Longrightarrow> odd q \<Longrightarrow> e = chComma \<or> e = chLF \<Longrightarrow>
   cr_cell q (fst (cr_getc (csv_double s @ chQ # e # r))) cell (snd (cr_getc (csv_double s @ chQ # e # r))) = (e, cell @ s, r)"
proof (induction s arbitrary: q cell)
  case Nil
  then show ?case by (simp add: cr_cell_quote cr_cell_stop)
next
  case (Cons c s)
  then have ok: "cr_cell_ok s" and c: "c \<noteq> chLF" "c \<noteq> chCR" "c \<noteq> chEOF" by (auto simp: cr_cell_ok_def)
  note IH = Cons.IH [OF ok _ Cons.prems(3)]
  show ?case
  proof (cases "c = chQ")
    case True
    then show ?thesis using IH [of "Suc (Suc q)" "cell @ [chQ]"] Cons.prems(2) by (simp add: cr_cell_quote)
  next
    case False
    then show ?thesis using IH [of q "cell @ [c]"] Cons.prems(2) c by (simp add: cr_cell_take)
  qed
qed

lemma readCell_quoted:
  "cr_cell_ok s \<Longrightarrow> e = chComma \<or> e = chLF \<Longrightarrow> readCell (cr_cell_text s @ e # r) = (e, s, r)"
  using cr_cell_quoted [of s 1 e r "[]"] by (auto simp: readCell_def cr_cell_text_def split: prod.splits)

lemma readRow_text:
  "cs \<noteq> [] \<Longrightarrow> list_all cr_cell_ok cs \<Longrightarrow> readRow (cr_row_text cs @ s) pre = (pre @ cs, s)"
proof (induction cs arbitrary: pre rule: cr_row_text.induct)
  case (2 c)
  then show ?case using readCell_quoted [of c chLF s] by (subst readRow.simps) (simp add: cr_cell_text_def)
next
  case (3 c d r)
  then show ?case
    using readCell_quoted [of c chComma "cr_row_text (d # r) @ s"] by (subst readRow.simps) (simp add: cr_cell_text_def)
qed simp

text \<open>
  A table printed with every cell in quotes and inner quotes doubled is read back, for all rows with
  cells and all cells without line ends and without the byte 255. Empty cells are kept, which
  \<^verbatim>\<open>CCsvReader\<close> reads as a quote.
\<close>

lemma config_round_trip:
  assumes "list_all (\<lambda>r. r \<noteq> [] \<and> list_all cr_cell_ok r) rows"
  shows "cr_init (Some (concat (map cr_row_text rows))) config_reader_new =
    (True, \<lparr>cr_table = rows, cr_initialized = True, cr_error = False\<rparr>)"
proof -
  have "cr_rows (concat (map cr_row_text rows)) = rows"
    using assms
  proof (induction rows)
    case Nil
    then show ?case by (simp add: cr_rows.simps readRow.simps readCell_def)
  next
    case (Cons r rows)
    then show ?case by (subst cr_rows.simps) (simp add: readRow_text)
  qed
  then show ?thesis by (simp add: cr_init_def config_reader_new_def)
qed

text \<open>
  Without quotes an empty cell at the end of a line is lost and the next line continues the row:
  \<open>readCell\<close> passes over line ends before a cell.
\<close>

lemma empty_last_cell_joins_rows:
  "cr_rows (''a,'' @ [chLF] @ ''b'' @ [chLF]) = [[''a'', ''b'']]"
  by (simp add: cr_rows.simps readRow.simps readCell_def cr_cell.simps)

end
