(* ===== verification/Sharding.thy ===== *)
theory Sharding
  imports Mysql_Client
begin

text \<open>
  The databases of a sharded world: \<^verbatim>\<open>CShardingDB\<close> (pitayaserver/framework/ShardingDB.h,
  ShardingDB.cpp) takes the shard number modulo the number of connections, \<^verbatim>\<open>CWorldDb\<close> (WorldDb.h,
  WorldDb.cpp) gives every connection a range of the hundred shards. A failed \<^verbatim>\<open>assert\<close> and an index
  out of range are \<^const>\<open>None\<close>.
\<close>

section \<open>Connecting\<close>

text \<open>The loop of both \<open>Init\<close> functions: it stops at the first connection that fails and keeps the others.\<close>

fun connect_all :: "'c mysql_api \<Rightarrow> string list \<Rightarrow> 'c database_mysql list \<Rightarrow> bool \<times> 'c database_mysql list" where
  "connect_all api [] dbs = (True, dbs)"
| "connect_all api (info # infos) dbs =
     (let (ok, db) = dm_Initialize api (c_str info) dm_new in
      if ok then connect_all api infos (dbs @ [db]) else (False, dbs))"

lemma dm_Initialize_connected: "dm_Initialize api i d = (True, d') \<Longrightarrow> dm_mysql d' \<noteq> None"
  by (auto simp: dm_Initialize_def Let_def split: if_splits)

lemma connect_all_keeps:
  "connect_all api infos dbs = (ok, dbs') \<Longrightarrow>
   \<exists>new. dbs' = dbs @ new \<and> length new \<le> length infos \<and> (ok \<longleftrightarrow> length new = length infos) \<and>
     (\<forall>db \<in> set new. dm_mysql db \<noteq> None)"
proof (induction infos arbitrary: dbs)
  case (Cons info infos)
  obtain b db where i: "dm_Initialize api (c_str info) dm_new = (b, db)" by fastforce
  show ?case
  proof (cases b)
    case True
    with Cons.prems i have "connect_all api infos (dbs @ [db]) = (ok, dbs')" by simp
    from Cons.IH [OF this] obtain new where
      "dbs' = (dbs @ [db]) @ new" "length new \<le> length infos" "ok \<longleftrightarrow> length new = length infos"
      "\<forall>db \<in> set new. dm_mysql db \<noteq> None" by blast
    with i True dm_Initialize_connected [of api "c_str info" dm_new db] show ?thesis
      by (intro exI [of _ "db # new"]) simp
  next
    case False
    with Cons.prems i show ?thesis by auto
  qed
qed simp

text \<open>\<^verbatim>\<open>Ping\<close> of every connection; \<^verbatim>\<open>mysql_ping\<close> of a null handle is undefined.\<close>

definition dm_Ping :: "('c \<Rightarrow> 'c) \<Rightarrow> 'c database_mysql \<Rightarrow> 'c database_mysql option" where
  "dm_Ping ping db = do { h \<leftarrow> dm_mysql db; Some (db\<lparr>dm_mysql := Some (ping h)\<rparr>) }"

fun ping_all :: "('c \<Rightarrow> 'c) \<Rightarrow> 'c database_mysql list \<Rightarrow> 'c database_mysql list option" where
  "ping_all ping [] = Some []"
| "ping_all ping (db # dbs) = do { db \<leftarrow> dm_Ping ping db; dbs \<leftarrow> ping_all ping dbs; Some (db # dbs) }"

lemma ping_all_connected:
  "\<forall>db \<in> set dbs. dm_mysql db \<noteq> None \<Longrightarrow> \<exists>dbs'. ping_all ping dbs = Some dbs' \<and> length dbs' = length dbs"
  by (induction dbs) (auto simp: dm_Ping_def)

section \<open>CShardingDB\<close>

record 'c sharding_db =
  sd_num :: int
  sd_dbs :: "'c database_mysql list"

definition sharding_new :: "'c sharding_db" where
  "sharding_new = \<lparr>sd_num = 0, sd_dbs = []\<rparr>"

definition sd_Init :: "'c mysql_api \<Rightarrow> int \<Rightarrow> string list \<Rightarrow> 'c sharding_db \<Rightarrow> (bool \<times> 'c sharding_db) option" where
  "sd_Init api n infos S =
     (if \<not> (0 < n \<and> n < 100) then None
      else let S = S\<lparr>sd_num := n\<rparr> in
        if int (length infos) \<noteq> n then Some (False, S)
        else let (ok, dbs) = connect_all api infos (sd_dbs S) in Some (ok, S\<lparr>sd_dbs := dbs\<rparr>))"

definition sd_GetDBConnection :: "uint32 \<Rightarrow> 'c sharding_db \<Rightarrow> 'c database_mysql option" where
  "sd_GetDBConnection uShardingId S =
     (if \<not> 0 < sd_num S then None
      else let nDBLink = unat uShardingId mod nat (sd_num S) in
        if nDBLink < length (sd_dbs S) then Some (sd_dbs S ! nDBLink) else None)"

definition sd_Ping :: "('c \<Rightarrow> 'c) \<Rightarrow> 'c sharding_db \<Rightarrow> 'c sharding_db option" where
  "sd_Ping ping S = do { dbs \<leftarrow> ping_all ping (sd_dbs S); Some (S\<lparr>sd_dbs := dbs\<rparr>) }"

definition sd_GetDBConnections :: "'c sharding_db \<Rightarrow> 'c database_mysql list" where
  "sd_GetDBConnections S = sd_dbs S"

definition sd_GetDBIdx :: "uint32 \<Rightarrow> uint32" where
  "sd_GetDBIdx dwAccountId = 0"

definition sd_GetTable10Idx :: "uint32 \<Rightarrow> uint32" where
  "sd_GetTable10Idx dwAccountId = dwAccountId div 100 mod 10"

definition sd_GetTable100Idx :: "uint32 \<Rightarrow> uint32" where
  "sd_GetTable100Idx dwAccountId = dwAccountId div 100 mod 100"

text \<open>After a successful \<open>Init\<close> of a new object every shard has an open connection.\<close>

lemma sharding_total:
  assumes "sd_Init api n infos sharding_new = Some (True, S)"
  shows "\<exists>db. sd_GetDBConnection u S = Some db \<and> dm_mysql db \<noteq> None \<and> db \<in> set (sd_dbs S)"
proof -
  obtain dbs where c: "connect_all api infos [] = (True, dbs)" and n: "0 < n" "int (length infos) = n"
    and S: "S = \<lparr>sd_num = n, sd_dbs = dbs\<rparr>"
    using assms by (auto simp: sd_Init_def sharding_new_def Let_def split: if_splits prod.splits)
  from connect_all_keeps [OF c] have l: "length dbs = nat n" "\<forall>db \<in> set dbs. dm_mysql db \<noteq> None" using n by auto
  have "unat u mod nat n < nat n" using n by simp
  with l S n show ?thesis by (auto simp: sd_GetDBConnection_def Let_def)
qed

text \<open>A connection that fails leaves the number of shards set and fewer connections than shards.\<close>

lemma sharding_after_failure:
  assumes "sd_Init api n infos sharding_new = Some (False, S)"
  shows "\<exists>u. sd_GetDBConnection u S = None"
proof -
  have n: "0 < n" "n < 100" "sd_num S = n" and l: "length (sd_dbs S) < nat n \<or> sd_dbs S = []"
    using assms connect_all_keeps [of api infos "[]"]
    by (auto simp: sd_Init_def sharding_new_def Let_def split: if_splits prod.splits)
  let ?u = "word_of_nat (length (sd_dbs S)) :: uint32"
  have "length (sd_dbs S) < 100" using n l by auto
  then have "unat ?u = length (sd_dbs S)" by (simp add: unat_of_nat)
  then have "sd_GetDBConnection ?u S = None"
    using n l by (auto simp: sd_GetDBConnection_def Let_def)
  then show ?thesis by blast
qed

section \<open>CWorldDb\<close>

record 'c world_db =
  wd_num :: int
  wd_per :: int
  wd_dbs :: "'c database_mysql list"

text \<open>The constructor leaves the size of a range undefined; \<open>per\<close> is that value.\<close>

definition world_db_new :: "int \<Rightarrow> 'c world_db" where
  "world_db_new per = \<lparr>wd_num = 0, wd_per = per, wd_dbs = []\<rparr>"

definition wd_Init :: "'c mysql_api \<Rightarrow> int \<Rightarrow> string list \<Rightarrow> 'c world_db \<Rightarrow> (bool \<times> 'c world_db) option" where
  "wd_Init api n infos W =
     (if \<not> (0 < n \<and> n \<le> 100 \<and> 100 mod n = 0) then None
      else let W = W\<lparr>wd_num := n\<rparr> in
        if int (length infos) \<noteq> n then Some (False, W)
        else let W = W\<lparr>wd_per := 100 div n\<rparr> in
          if wd_per W = 0 then Some (False, W)
          else let (ok, dbs) = connect_all api infos (wd_dbs W) in Some (ok, W\<lparr>wd_dbs := dbs\<rparr>))"

definition wd_GetDBConnection :: "uint32 \<Rightarrow> 'c world_db \<Rightarrow> 'c database_mysql option" where
  "wd_GetDBConnection uShardingId W =
     (if \<not> 0 < wd_num W \<or> wd_per W = 0 then None
      else let nDBLink = nat (int (unat uShardingId mod 100) div wd_per W) in
        if nDBLink < length (wd_dbs W) then Some (wd_dbs W ! nDBLink) else None)"

definition wd_Ping :: "('c \<Rightarrow> 'c) \<Rightarrow> 'c world_db \<Rightarrow> 'c world_db option" where
  "wd_Ping ping W = do { dbs \<leftarrow> ping_all ping (wd_dbs W); Some (W\<lparr>wd_dbs := dbs\<rparr>) }"

definition wd_GetDBIdx :: "uint32 \<Rightarrow> uint32" where
  "wd_GetDBIdx dwAccountId = dwAccountId mod 10"

definition wd_GetTable10Idx :: "uint32 \<Rightarrow> uint32" where
  "wd_GetTable10Idx dwAccountId = dwAccountId div 100 mod 10"

definition wd_GetTable100Idx :: "uint32 \<Rightarrow> uint32" where
  "wd_GetTable100Idx dwAccountId = dwAccountId div 100 mod 10"

text \<open>
  After a successful \<open>Init\<close> the hundred shards are spread evenly: connection \<open>k\<close> serves exactly the
  shards from \<open>k * per\<close> to below \<open>(k + 1) * per\<close>, every shard has a connection, and no assertion fails.
\<close>

lemma world_db_spread:
  assumes "wd_Init api n infos (world_db_new per0) = Some (True, W)"
  shows "length (wd_dbs W) * nat (wd_per W) = 100" and
    "\<exists>k < length (wd_dbs W). wd_GetDBConnection u W = Some (wd_dbs W ! k) \<and> dm_mysql (wd_dbs W ! k) \<noteq> None \<and>
       k * nat (wd_per W) \<le> unat u mod 100 \<and> unat u mod 100 < (k + 1) * nat (wd_per W)"
proof -
  obtain dbs where c: "connect_all api infos [] = (True, dbs)" and n: "0 < n" "n \<le> 100" "100 mod n = 0" "int (length infos) = n"
    and W: "W = \<lparr>wd_num = n, wd_per = 100 div n, wd_dbs = dbs\<rparr>"
    using assms by (auto simp: wd_Init_def world_db_new_def Let_def split: if_splits prod.splits)
  from connect_all_keeps [OF c] have l: "length dbs = nat n" "\<forall>db \<in> set dbs. dm_mysql db \<noteq> None" using n by auto
  define m where "m = nat n"
  have nm: "n = int m" using n(1) by (simp add: m_def)
  have m100: "100 mod m = 0"
  proof -
    have "int (100 mod m) = 100 mod int m" by (simp only: zmod_int of_nat_numeral)
    also have "\<dots> = 0" using n(3) nm by (simp only:)
    finally show ?thesis by (simp only: of_nat_eq_0_iff)
  qed
  have m: "0 < m" "m \<le> 100" using n(1,2) nm by linarith+
  define p where "p = 100 div m"
  have pi: "100 div n = int p" unfolding p_def nm by (simp only: zdiv_int of_nat_numeral)
  then have p: "nat (100 div n) = p" by (simp only: nat_int)
  have mp: "m * p = 100" unfolding p_def using mult_div_mod_eq [of m 100] unfolding m100 by (simp only: add_0_right)
  then have "0 < p" by (cases p) simp_all
  show "length (wd_dbs W) * nat (wd_per W) = 100" using W l(1) p mp by (simp add: m_def)
  let ?r = "unat u mod 100"
  have r: "?r < m * p" using mp by simp
  then have k: "?r div p < m" by (simp add: less_mult_imp_div_less)
  have "nat (int ?r div int p) = ?r div p" by (metis nat_int zdiv_int)
  then have "wd_GetDBConnection u W = Some (wd_dbs W ! (?r div p))"
    using W n(1) k l(1) pi \<open>0 < p\<close> by (simp add: wd_GetDBConnection_def m_def Let_def)
  moreover have "?r div p * p \<le> ?r" "?r < (?r div p + 1) * p"
    using \<open>0 < p\<close> by (simp_all add: div_times_less_eq_dividend dividend_less_div_times)
  ultimately show "\<exists>k < length (wd_dbs W). wd_GetDBConnection u W = Some (wd_dbs W ! k) \<and> dm_mysql (wd_dbs W ! k) \<noteq> None \<and>
       k * nat (wd_per W) \<le> ?r \<and> ?r < (k + 1) * nat (wd_per W)"
    using W l k p by (intro exI [of _ "?r div p"]) (simp add: m_def)
qed

end
