(* ===== verification/Dispatch.thy ===== *)
theory Dispatch
  imports Byte_Buffer
begin

text \<open>
  Dispatching of packets to handlers by number: \<^verbatim>\<open>EventDispatcher\<close>
  (pitayaserver/util/server_eventdispatcher.h), \<^verbatim>\<open>PacketDispatcher_T\<close> over it (logic_packetdispatcher.h),
  and \<^verbatim>\<open>ProtocolDispatcher\<close> (pitayaserver/transition/ProtocolDispatcher.h).

  A handler is a function of the number, the event and the state of the program; it may change both.
  A handler bound to an object is the method with the object as first argument. Handlers do not
  change the dispatcher that calls them. Parsing a message is the protobuf library's: the parameter
  \<open>parse\<close>; its log lines are left out.
\<close>

section \<open>EventDispatcher\<close>

type_synonym ('e, 's) event_handler = "uint32 \<Rightarrow> 'e \<times> 's \<Rightarrow> 'e \<times> 's"

record ('e, 's) event_dispatcher =
  ed_EventFilter :: "('e, 's) event_handler list"
  ed_handlers :: "uint32 \<rightharpoonup> ('e, 's) event_handler list"
  ed_UnhandledEvent :: "('e, 's) event_handler list"

definition ed_new :: "('e, 's) event_dispatcher" where
  "ed_new = \<lparr>ed_EventFilter = [], ed_handlers = Map.empty, ed_UnhandledEvent = []\<rparr>"

text \<open>A signal calls its slots in the order of connection.\<close>

definition call_all :: "('e, 's) event_handler list \<Rightarrow> ('e, 's) event_handler" where
  "call_all hs i x = fold (\<lambda>h. h i) hs x"

definition DispatchEvent :: "('e, 's) event_dispatcher \<Rightarrow> uint32 \<Rightarrow> 'e \<times> 's \<Rightarrow> bool \<times> 'e \<times> 's" where
  "DispatchEvent D i x =
     (let x = call_all (ed_EventFilter D) i x in
      case ed_handlers D i of
        None \<Rightarrow> (False, call_all (ed_UnhandledEvent D) i x)
      | Some hs \<Rightarrow>
          if hs = [] then (False, call_all (ed_UnhandledEvent D) i x)
          else (True, call_all hs i x))"

definition AddEventHandler :: "uint32 \<Rightarrow> ('e, 's) event_handler \<Rightarrow> ('e, 's) event_dispatcher \<Rightarrow> ('e, 's) event_dispatcher" where
  "AddEventHandler i h D =
     D\<lparr>ed_handlers := (ed_handlers D)(i \<mapsto> (case ed_handlers D i of None \<Rightarrow> [] | Some hs \<Rightarrow> hs) @ [h])\<rparr>"

definition AddEventHandler_obj :: "'o \<Rightarrow> uint32 \<Rightarrow> ('o \<Rightarrow> ('e, 's) event_handler) \<Rightarrow>
    ('e, 's) event_dispatcher \<Rightarrow> ('e, 's) event_dispatcher" where
  "AddEventHandler_obj pObj i h = AddEventHandler i (h pObj)"

definition AddUnhandledEventHandler :: "('e, 's) event_handler \<Rightarrow> ('e, 's) event_dispatcher \<Rightarrow> ('e, 's) event_dispatcher" where
  "AddUnhandledEventHandler h D = D\<lparr>ed_UnhandledEvent := ed_UnhandledEvent D @ [h]\<rparr>"

definition AddUnhandledEventHandler_obj :: "'o \<Rightarrow> ('o \<Rightarrow> ('e, 's) event_handler) \<Rightarrow>
    ('e, 's) event_dispatcher \<Rightarrow> ('e, 's) event_dispatcher" where
  "AddUnhandledEventHandler_obj pObj h = AddUnhandledEventHandler (h pObj)"

definition AddEventFilter :: "('e, 's) event_handler \<Rightarrow> ('e, 's) event_dispatcher \<Rightarrow> ('e, 's) event_dispatcher" where
  "AddEventFilter h D = D\<lparr>ed_EventFilter := ed_EventFilter D @ [h]\<rparr>"

definition AddEventFilter_obj :: "'o \<Rightarrow> ('o \<Rightarrow> ('e, 's) event_handler) \<Rightarrow>
    ('e, 's) event_dispatcher \<Rightarrow> ('e, 's) event_dispatcher" where
  "AddEventFilter_obj pObj h = AddEventFilter (h pObj)"

definition ed_Clear :: "('e, 's) event_dispatcher \<Rightarrow> ('e, 's) event_dispatcher" where
  "ed_Clear D =
     (let D = (if ed_EventFilter D \<noteq> [] then D\<lparr>ed_EventFilter := []\<rparr> else D);
          D = D\<lparr>ed_handlers := Map.empty\<rparr>
      in if ed_UnhandledEvent D \<noteq> [] then D\<lparr>ed_UnhandledEvent := []\<rparr> else D)"

section \<open>PacketDispatcher_T\<close>

text \<open>\<open>Wrapper::handle\<close>: a packet whose body does not parse is dropped.\<close>

definition wrapper_handle :: "(byte list \<Rightarrow> 'm option) \<Rightarrow> ('o \<Rightarrow> 'm \<Rightarrow> 's \<Rightarrow> 's) \<Rightarrow> 'o \<Rightarrow> (world_packet, 's) event_handler" where
  "wrapper_handle parse pF ph i = (\<lambda>(b, s).
     (b, case bb_contents (bb_size b) b of
           None \<Rightarrow> s
         | Some bytes \<Rightarrow> (case parse bytes of None \<Rightarrow> s | Some m \<Rightarrow> pF ph m s)))"

definition AddHandler_Packet :: "(byte list \<Rightarrow> 'm option) \<Rightarrow> 'o \<Rightarrow> uint32 \<Rightarrow> ('o \<Rightarrow> 'm \<Rightarrow> 's \<Rightarrow> 's) \<Rightarrow>
    (world_packet, 's) event_dispatcher \<Rightarrow> (world_packet, 's) event_dispatcher" where
  "AddHandler_Packet parse pObj i m = AddEventHandler i (wrapper_handle parse m pObj)"

definition ProtocolID :: "world_packet \<Rightarrow> uint32" where
  "ProtocolID buffer = wp_opcode buffer"

definition DispatchPacket :: "(world_packet, 's) event_dispatcher \<Rightarrow> world_packet \<times> 's \<Rightarrow> bool \<times> world_packet \<times> 's" where
  "DispatchPacket D x = DispatchEvent D (ProtocolID (fst x)) x"

section \<open>ProtocolDispatcher\<close>

type_synonym 's proto_handler = "world_packet \<Rightarrow> 's \<Rightarrow> 's"

definition handler_Call :: "(byte list \<Rightarrow> 'm option) \<Rightarrow> ('m \<Rightarrow> 's \<Rightarrow> 's) \<Rightarrow> 's proto_handler" where
  "handler_Call parse f pck s =
     (case bb_contents (bb_size pck) pck of
        None \<Rightarrow> s
      | Some bytes \<Rightarrow> (case parse bytes of None \<Rightarrow> s | Some m \<Rightarrow> f m s))"

type_synonym 's protocol_dispatcher = "(uint32 \<times> 's proto_handler) list"

definition pd_AddHandler :: "uint32 \<Rightarrow> (byte list \<Rightarrow> 'm option) \<Rightarrow> 'o \<Rightarrow> ('o \<Rightarrow> 'm \<Rightarrow> 's \<Rightarrow> 's) \<Rightarrow>
    's protocol_dispatcher \<Rightarrow> bool \<times> 's protocol_dispatcher" where
  "pd_AddHandler cmd_id parse pObj func P =
     (if map_of P cmd_id \<noteq> None then (False, P) else (True, omap_insert cmd_id (handler_Call parse (func pObj)) P))"

definition pd_Dispatch :: "'s protocol_dispatcher \<Rightarrow> world_packet \<Rightarrow> 's \<Rightarrow> int \<times> 's" where
  "pd_Dispatch P pck s = (case map_of P (wp_opcode pck) of None \<Rightarrow> (-1, s) | Some h \<Rightarrow> (0, h pck s))"

section \<open>What a dispatcher runs\<close>

text \<open>The registrations a program makes, in their order.\<close>

datatype ('e, 's) ed_op =
    EdHandler uint32 "('e, 's) event_handler"
  | EdUnhandled "('e, 's) event_handler"
  | EdFilter "('e, 's) event_handler"
  | EdClear

fun ed_apply :: "('e, 's) ed_op \<Rightarrow> ('e, 's) event_dispatcher \<Rightarrow> ('e, 's) event_dispatcher" where
  "ed_apply (EdHandler i h) D = AddEventHandler i h D"
| "ed_apply (EdUnhandled h) D = AddUnhandledEventHandler h D"
| "ed_apply (EdFilter h) D = AddEventFilter h D"
| "ed_apply EdClear D = ed_Clear D"

definition ed_run :: "('e, 's) ed_op list \<Rightarrow> ('e, 's) event_dispatcher" where
  "ed_run ops = fold ed_apply ops ed_new"

text \<open>The registrations since the last \<open>Clear\<close>, and what they are for one number.\<close>

fun since_clear :: "('e, 's) ed_op list \<Rightarrow> ('e, 's) ed_op list" where
  "since_clear [] = []"
| "since_clear (p # ops) = (if EdClear \<in> set ops then since_clear ops else if p = EdClear then ops else p # ops)"

fun op_handler :: "uint32 \<Rightarrow> ('e, 's) ed_op \<Rightarrow> ('e, 's) event_handler list" where
  "op_handler i (EdHandler j h) = (if i = j then [h] else [])"
| "op_handler i _ = []"

fun op_unhandled :: "('e, 's) ed_op \<Rightarrow> ('e, 's) event_handler list" where
  "op_unhandled (EdUnhandled h) = [h]"
| "op_unhandled _ = []"

fun op_filter :: "('e, 's) ed_op \<Rightarrow> ('e, 's) event_handler list" where
  "op_filter (EdFilter h) = [h]"
| "op_filter _ = []"

definition ed_of :: "('e, 's) ed_op list \<Rightarrow> ('e, 's) event_dispatcher \<Rightarrow> bool" where
  "ed_of ops D \<longleftrightarrow>
     ed_EventFilter D = concat (map op_filter ops) \<and> ed_UnhandledEvent D = concat (map op_unhandled ops) \<and>
     (\<forall>i. (case ed_handlers D i of None \<Rightarrow> [] | Some hs \<Rightarrow> hs) = concat (map (op_handler i) ops))"

lemma ed_of_apply: "ed_of ops D \<Longrightarrow> p \<noteq> EdClear \<Longrightarrow> ed_of (ops @ [p]) (ed_apply p D)"
  by (cases p) (auto simp: ed_of_def AddEventHandler_def AddUnhandledEventHandler_def AddEventFilter_def)

lemma ed_of_clear: "ed_of [] (ed_apply EdClear D)"
  by (simp add: ed_of_def ed_Clear_def Let_def)

lemma since_clear_append:
  "since_clear (ops @ [p]) = (if p = EdClear then [] else since_clear ops @ [p])"
  by (induction ops) auto

lemma ed_of_run: "ed_of (since_clear ops) (ed_run ops)"
proof (induction ops rule: rev_induct)
  case Nil
  then show ?case by (simp add: ed_run_def ed_new_def ed_of_def)
next
  case (snoc p ops)
  then show ?case
    by (cases "p = EdClear") (simp_all add: since_clear_append ed_run_def ed_of_apply ed_of_clear del: ed_apply.simps)
qed

text \<open>
  C22: After any sequence of registrations an event runs every filter added since the last \<open>Clear\<close>, then
  every handler added for its number since then, each in the order they were added; an event without
  a handler runs the handlers of unhandled events instead and reports false.
\<close>

theorem dispatch_runs_registered:
  "DispatchEvent (ed_run ops) i x =
   (let live = since_clear ops; hs = concat (map (op_handler i) live);
        x' = call_all (concat (map op_filter live)) i x
    in if hs = [] then (False, call_all (concat (map op_unhandled live)) i x') else (True, call_all hs i x'))"
proof -
  let ?hs = "concat (map (op_handler i) (since_clear ops))"
  have "(case ed_handlers (ed_run ops) i of None \<Rightarrow> [] | Some hs \<Rightarrow> hs) = ?hs"
    using ed_of_run [of ops] by (simp add: ed_of_def)
  then have h: "ed_handlers (ed_run ops) i = None \<and> ?hs = [] \<or> ed_handlers (ed_run ops) i = Some ?hs"
    by (cases "ed_handlers (ed_run ops) i") simp_all
  have "ed_EventFilter (ed_run ops) = concat (map op_filter (since_clear ops))"
    "ed_UnhandledEvent (ed_run ops) = concat (map op_unhandled (since_clear ops))"
    using ed_of_run [of ops] by (simp_all add: ed_of_def)
  with h show ?thesis by (elim disjE conjE) (simp_all add: DispatchEvent_def Let_def del: concat_eq_Nil_conv)
qed

text \<open>A packet is dispatched to the handlers of its opcode with the message its body parses to.\<close>

lemma dispatch_packet:
  assumes "bb_contents (bb_size p) p = Some bytes" "parse bytes = Some m"
  shows "DispatchPacket (AddHandler_Packet parse ob (wp_opcode p) f ed_new) (p, s) = (True, p, f ob m s)"
  using assms
  by (simp add: DispatchPacket_def DispatchEvent_def AddHandler_Packet_def AddEventHandler_def ed_new_def ProtocolID_def
      wrapper_handle_def call_all_def)

text \<open>In a \<^verbatim>\<open>ProtocolDispatcher\<close> the first handler of a number stays; a second is refused.\<close>

lemma protocol_first_handler:
  assumes "omap_ok P" "map_of P i = None" "pd_AddHandler i parse ob f P = (ok, P')"
  shows "ok" and "wp_opcode p = i \<Longrightarrow> pd_Dispatch P' p s = (0, handler_Call parse (f ob) p s)"
    and "wp_opcode p \<noteq> i \<Longrightarrow> pd_Dispatch P' p s = pd_Dispatch P p s"
    and "pd_AddHandler i parse' ob' f' P' = (False, P')"
  using assms by (auto simp: pd_AddHandler_def pd_Dispatch_def omap_insert_def omap_simps split: if_splits)

end
