(* ===== verification/Center_Schema.thy ===== *)
theory Center_Schema
  imports Center_Db
begin

text \<open>
  The tables of the central database: the statements \<open>InitCenterDB\<close> sends to create and to extend them
  (pitayaserver/util/CenterDBCtrl.cpp, lines 125 to 610), as data, with their texts and with what they
  do to the tables and columns of a database, and the proof that the columns the other statements of
  \<^verbatim>\<open>CenterDBCtrl\<close> name exist afterwards.

  White space in the texts is one blank, the texts of comments are left out, and back quotes around
  names are not printed. \<open>CREATE TABLE IF NOT EXISTS\<close> leaves a table that exists alone; a statement
  with a wrong syntax changes nothing, and so does one the server refuses. Which statements a server
  accepts is a parameter: a key column with \<^verbatim>\<open>DEFAULT NULL\<close> (\<^verbatim>\<open>logindevicelevel_info\<close>) and a \<^verbatim>\<open>TEXT\<close> column
  with a default (\<^verbatim>\<open>gm_cmd\<close>) are refused by some versions and modes of MySQL, and \<open>InitCenterDB\<close> looks
  at no result.
\<close>

section \<open>Statements\<close>

datatype col_attr =
    UNSIGNED | NOT_NULL | AUTO_INCREMENT | CHARSET_UTF8 | DEFAULT_NULL | DEFAULT_TEXT string | DEFAULT_NUM string
  | COMMENT_TEXT

datatype column = Column (c_name: string) (c_type: string) (c_attrs: "col_attr list")

datatype table_key = PrimaryKey "string list" | IndexKey string "string list"

text \<open>The last argument of \<open>AddColumn\<close> says that a comma follows the column, which is an error.\<close>

datatype schema_stmt =
    CreateTable string "column list" "table_key list" "nat option"
  | AddColumn string column bool

definition sql_quote :: "string \<Rightarrow> string" where
  "sql_quote s = [CHR 0x27] @ s @ [CHR 0x27]"

fun attr_sql :: "col_attr \<Rightarrow> string" where
  "attr_sql UNSIGNED = ''UNSIGNED''"
| "attr_sql NOT_NULL = ''NOT NULL''"
| "attr_sql AUTO_INCREMENT = ''AUTO_INCREMENT''"
| "attr_sql CHARSET_UTF8 = ''CHARACTER SET utf8''"
| "attr_sql DEFAULT_NULL = ''DEFAULT NULL''"
| "attr_sql (DEFAULT_TEXT s) = ''DEFAULT '' @ sql_quote s"
| "attr_sql (DEFAULT_NUM s) = ''DEFAULT '' @ s"
| "attr_sql COMMENT_TEXT = ''COMMENT '' @ sql_quote []"

fun comma_sep :: "string list \<Rightarrow> string" where
  "comma_sep [] = []"
| "comma_sep [s] = s"
| "comma_sep (s # t # r) = s @ '','' @ comma_sep (t # r)"

definition column_sql :: "column \<Rightarrow> string" where
  "column_sql c = c_name c @ '' '' @ c_type c @ concat (map (\<lambda>a. '' '' @ attr_sql a) (c_attrs c))"

fun key_sql :: "table_key \<Rightarrow> string" where
  "key_sql (PrimaryKey cs) = ''PRIMARY KEY ('' @ comma_sep cs @ '')''"
| "key_sql (IndexKey n cs) = ''INDEX '' @ n @ '' ('' @ comma_sep cs @ '')''"

fun stmt_sql :: "schema_stmt \<Rightarrow> string" where
  "stmt_sql (CreateTable t cols keys start) =
     ''CREATE TABLE IF NOT EXISTS '' @ t @ '' ('' @ comma_sep (map column_sql cols @ map key_sql keys) @
     '') ENGINE=InnoDB DEFAULT CHARSET=utf8'' @
     (case start of None \<Rightarrow> [] | Some n \<Rightarrow> '' AUTO_INCREMENT='' @ dec_str n) @ '';''"
| "stmt_sql (AddColumn t c comma) = ''ALTER TABLE '' @ t @ '' ADD COLUMN '' @ column_sql c @ (if comma then '','' else [])"

text \<open>An \<open>ALTER TABLE\<close> is sent when \<open>ExistsColumn\<close> does not find its column.\<close>

fun stmt_cond :: "schema_stmt \<Rightarrow> (string \<times> string) option" where
  "stmt_cond (CreateTable t cols keys start) = None"
| "stmt_cond (AddColumn t c comma) = Some (t, c_name c)"

section \<open>The tables\<close>

definition tbl_gift_generate_record :: schema_stmt where
  "tbl_gift_generate_record = CreateTable ''gift_generate_record''
     [Column ''id'' ''INT'' [UNSIGNED, NOT_NULL],
      Column ''idx'' ''INT'' [UNSIGNED, NOT_NULL],
      Column ''gen_start'' ''INT'' [UNSIGNED, NOT_NULL],
      Column ''gen_end'' ''INT'' [UNSIGNED, NOT_NULL],
      Column ''gen_use'' ''VARCHAR(512)'' [CHARSET_UTF8, NOT_NULL, DEFAULT_TEXT []],
      Column ''create_time'' ''INT'' [UNSIGNED, NOT_NULL],
      Column ''creator'' ''VARCHAR(32)'' [CHARSET_UTF8, NOT_NULL, DEFAULT_TEXT []]]
     [PrimaryKey [''id'', ''idx'']] None"

definition tbl_gift_generate_record_backup :: schema_stmt where
  "tbl_gift_generate_record_backup = CreateTable ''gift_generate_record_backup''
     [Column ''id'' ''INT'' [UNSIGNED, NOT_NULL],
      Column ''idx'' ''INT'' [UNSIGNED, NOT_NULL],
      Column ''gen_start'' ''INT'' [UNSIGNED, NOT_NULL],
      Column ''gen_end'' ''INT'' [UNSIGNED, NOT_NULL],
      Column ''gen_use'' ''VARCHAR(512)'' [CHARSET_UTF8, NOT_NULL, DEFAULT_TEXT []],
      Column ''create_time'' ''INT'' [UNSIGNED, NOT_NULL],
      Column ''creator'' ''VARCHAR(32)'' [CHARSET_UTF8, NOT_NULL, DEFAULT_TEXT []],
      Column ''backup_time'' ''INT'' [UNSIGNED, NOT_NULL]]
     [PrimaryKey [''id'', ''idx'']] None"

definition tbl_login_strategy_backup :: schema_stmt where
  "tbl_login_strategy_backup = CreateTable ''login_strategy_backup''
     [Column ''idx'' ''INT'' [UNSIGNED, NOT_NULL, AUTO_INCREMENT],
      Column ''auto_id'' ''INT'' [UNSIGNED, NOT_NULL, DEFAULT_TEXT ''0''],
      Column ''strategy_id'' ''INT'' [UNSIGNED, NOT_NULL],
      Column ''condition_id'' ''TINYINT'' [UNSIGNED, NOT_NULL],
      Column ''type'' ''TINYINT'' [UNSIGNED, NOT_NULL],
      Column ''value'' ''VARCHAR(64)'' [CHARSET_UTF8, DEFAULT_NULL, COMMENT_TEXT],
      Column ''creator'' ''VARCHAR(32)'' [CHARSET_UTF8, DEFAULT_NULL, COMMENT_TEXT],
      Column ''remark'' ''VARCHAR(100)'' [DEFAULT_NULL, COMMENT_TEXT],
      Column ''backup_time'' ''INT'' [UNSIGNED, NOT_NULL, DEFAULT_TEXT ''0'', COMMENT_TEXT],
      Column ''is_not'' ''TINYINT'' [UNSIGNED, NOT_NULL, DEFAULT_TEXT ''0'']]
     [PrimaryKey [''idx'']] None"

definition tbl_logindevicelevel_info :: schema_stmt where
  "tbl_logindevicelevel_info = CreateTable ''logindevicelevel_info''
     [Column ''summarydate'' ''DATE'' [NOT_NULL, COMMENT_TEXT],
      Column ''server_id'' ''INT'' [UNSIGNED, NOT_NULL, COMMENT_TEXT],
      Column ''platform'' ''INT'' [UNSIGNED, NOT_NULL, COMMENT_TEXT],
      Column ''uid'' ''VARCHAR(128)'' [CHARSET_UTF8, DEFAULT_NULL, COMMENT_TEXT],
      Column ''passport_id'' ''BIGINT'' [UNSIGNED, NOT_NULL, COMMENT_TEXT],
      Column ''role_id'' ''INT'' [UNSIGNED, NOT_NULL, COMMENT_TEXT],
      Column ''level'' ''INT'' [UNSIGNED, NOT_NULL, COMMENT_TEXT],
      Column ''vip_level'' ''INT'' [UNSIGNED, NOT_NULL, COMMENT_TEXT],
      Column ''vip_exp'' ''INT'' [UNSIGNED, NOT_NULL, COMMENT_TEXT],
      Column ''reg_device'' ''VARCHAR(32)'' [CHARSET_UTF8, DEFAULT_NULL, COMMENT_TEXT],
      Column ''player_icon'' ''INT'' [UNSIGNED, NOT_NULL, COMMENT_TEXT],
      Column ''role_last_login_time'' ''INT'' [UNSIGNED, NOT_NULL, COMMENT_TEXT],
      Column ''morrowloginflag'' ''INT'' [UNSIGNED, NOT_NULL, COMMENT_TEXT],
      Column ''create_time'' ''INT'' [UNSIGNED, NOT_NULL, COMMENT_TEXT],
      Column ''role_create_time'' ''INT'' [UNSIGNED, NOT_NULL, COMMENT_TEXT]]
     [PrimaryKey [''summarydate'', ''server_id'', ''platform'', ''uid'', ''role_id'', ''passport_id'']] None"

definition tbl_relayserver_info :: schema_stmt where
  "tbl_relayserver_info = CreateTable ''relayserver_info''
     [Column ''relay_type'' ''TINYINT'' [UNSIGNED, NOT_NULL],
      Column ''relay_group'' ''INT'' [UNSIGNED, NOT_NULL],
      Column ''server_id'' ''SMALLINT'' [UNSIGNED, NOT_NULL],
      Column ''update_time'' ''INT'' [UNSIGNED, NOT_NULL],
      Column ''merge_group'' ''TINYINT'' [UNSIGNED, NOT_NULL]]
     [PrimaryKey [''relay_type'', ''relay_group'']] None"

definition tbl_battleserver_info :: schema_stmt where
  "tbl_battleserver_info = CreateTable ''battleserver_info''
     [Column ''relay_id'' ''INT'' [UNSIGNED, NOT_NULL],
      Column ''connect_num'' ''INT'' [UNSIGNED, NOT_NULL],
      Column ''running_battle'' ''INT'' [UNSIGNED, NOT_NULL],
      Column ''player_num'' ''INT'' [UNSIGNED, NOT_NULL]]
     [PrimaryKey [''relay_id'']] None"

definition add_battleserver_info_player_num :: schema_stmt where
  "add_battleserver_info_player_num = AddColumn ''battleserver_info'' (Column ''player_num'' ''INT'' [UNSIGNED, NOT_NULL]) False"

definition tbl_battleserver_list :: schema_stmt where
  "tbl_battleserver_list = CreateTable ''battleserver_list''
     [Column ''relay_id'' ''INT'' [UNSIGNED, NOT_NULL],
      Column ''server_ip'' ''VARCHAR(64)'' [CHARSET_UTF8, NOT_NULL],
      Column ''server_port'' ''INT'' [UNSIGNED, NOT_NULL],
      Column ''battle_id'' ''VARCHAR(128)'' [CHARSET_UTF8, NOT_NULL],
      Column ''last_update_time'' ''INT'' [UNSIGNED, NOT_NULL],
      Column ''player_num'' ''INT'' [UNSIGNED, NOT_NULL]]
     [PrimaryKey [''server_ip'', ''server_port'']] None"

definition add_battleserver_list_player_num :: schema_stmt where
  "add_battleserver_list_player_num = AddColumn ''battleserver_list'' (Column ''player_num'' ''INT'' [UNSIGNED, NOT_NULL]) False"

definition tbl_gameserver_info :: schema_stmt where
  "tbl_gameserver_info = CreateTable ''gameserver_info''
     [Column ''server_id'' ''SMALLINT'' [UNSIGNED, NOT_NULL],
      Column ''server_name'' ''VARCHAR(32)'' [CHARSET_UTF8, NOT_NULL],
      Column ''ip'' ''VARCHAR(64)'' [CHARSET_UTF8, NOT_NULL],
      Column ''local_ip'' ''VARCHAR(64)'' [CHARSET_UTF8, NOT_NULL],
      Column ''port'' ''SMALLINT'' [UNSIGNED, NOT_NULL],
      Column ''version'' ''VARCHAR(20)'' [CHARSET_UTF8, NOT_NULL],
      Column ''res_version'' ''VARCHAR(200)'' [CHARSET_UTF8, NOT_NULL],
      Column ''res_version_config'' ''VARCHAR(200)'' [CHARSET_UTF8, NOT_NULL],
      Column ''res_server_ip'' ''VARCHAR(64)'' [CHARSET_UTF8, NOT_NULL],
      Column ''online_num'' ''MEDIUMINT'' [UNSIGNED, NOT_NULL],
      Column ''can_login'' ''TINYINT'' [UNSIGNED, NOT_NULL],
      Column ''status'' ''TINYINT'' [UNSIGNED, NOT_NULL],
      Column ''update_time'' ''INT'' [UNSIGNED, NOT_NULL],
      Column ''login_strategy_id'' ''INT'' [UNSIGNED, NOT_NULL],
      Column ''is_test'' ''TINYINT'' [UNSIGNED, NOT_NULL, DEFAULT_TEXT ''0''],
      Column ''activate_req'' ''TINYINT'' [UNSIGNED, NOT_NULL],
      Column ''server_identify'' ''TINYINT'' [UNSIGNED, NOT_NULL],
      Column ''db_name'' ''VARCHAR(32)'' [CHARSET_UTF8, NOT_NULL]]
     [PrimaryKey [''server_id'']] None"

definition add_gameserver_info_server_identify :: schema_stmt where
  "add_gameserver_info_server_identify = AddColumn ''gameserver_info'' (Column ''server_identify'' ''TINYINT'' [UNSIGNED, NOT_NULL]) False"

definition add_gameserver_info_activate_req :: schema_stmt where
  "add_gameserver_info_activate_req = AddColumn ''gameserver_info'' (Column ''activate_req'' ''TINYINT'' [UNSIGNED, NOT_NULL]) False"

definition add_gameserver_info_db_name :: schema_stmt where
  "add_gameserver_info_db_name = AddColumn ''gameserver_info'' (Column ''db_name'' ''VARCHAR(20)'' [CHARSET_UTF8, NOT_NULL]) False"

definition tbl_player_info :: schema_stmt where
  "tbl_player_info = CreateTable ''player_info''
     [Column ''role_id'' ''INT'' [UNSIGNED, NOT_NULL],
      Column ''name'' ''VARCHAR(32)'' [CHARSET_UTF8, NOT_NULL],
      Column ''gm_auth'' ''TINYINT'' [UNSIGNED, NOT_NULL],
      Column ''status'' ''TINYINT'' [UNSIGNED, NOT_NULL],
      Column ''progress'' ''INT'' [UNSIGNED, NOT_NULL],
      Column ''level'' ''INT'' [UNSIGNED, NOT_NULL],
      Column ''gold'' ''INT'' [UNSIGNED, NOT_NULL],
      Column ''diamond'' ''INT'' [UNSIGNED, NOT_NULL],
      Column ''cur_stage'' ''INT'' [UNSIGNED, NOT_NULL],
      Column ''cur_train'' ''INT'' [UNSIGNED, NOT_NULL],
      Column ''vip_level'' ''INT'' [UNSIGNED, NOT_NULL],
      Column ''vip_exp'' ''INT'' [UNSIGNED, NOT_NULL],
      Column ''stamina'' ''INT'' [UNSIGNED, NOT_NULL],
      Column ''energy'' ''INT'' [UNSIGNED, NOT_NULL],
      Column ''quest'' ''INT'' [UNSIGNED, NOT_NULL],
      Column ''last_login_time'' ''INT'' [UNSIGNED, NOT_NULL],
      Column ''create_time'' ''INT'' [UNSIGNED, NOT_NULL, DEFAULT_TEXT ''0''],
      Column ''diamond_pay'' ''INT'' [UNSIGNED, NOT_NULL, DEFAULT_TEXT ''0'']]
     [PrimaryKey [''role_id'']] None"

definition add_player_info_create_time :: schema_stmt where
  "add_player_info_create_time = AddColumn ''player_info'' (Column ''create_time'' ''INT'' [UNSIGNED, NOT_NULL, DEFAULT_TEXT ''0'']) False"

definition tbl_passport_info :: schema_stmt where
  "tbl_passport_info = CreateTable ''passport_info''
     [Column ''passport_id'' ''BIGINT'' [UNSIGNED, NOT_NULL],
      Column ''passport'' ''VARCHAR(128)'' [CHARSET_UTF8, NOT_NULL],
      Column ''pwd'' ''VARCHAR(64)'' [CHARSET_UTF8, NOT_NULL],
      Column ''mail'' ''VARCHAR(64)'' [CHARSET_UTF8, NOT_NULL],
      Column ''uid'' ''VARCHAR(128)'' [CHARSET_UTF8, NOT_NULL],
      Column ''token'' ''VARCHAR(128)'' [CHARSET_UTF8, NOT_NULL],
      Column ''platform'' ''INT'' [UNSIGNED, NOT_NULL],
      Column ''auth_type'' ''TINYINT'' [UNSIGNED, NOT_NULL],
      Column ''create_time'' ''INT'' [UNSIGNED, NOT_NULL],
      Column ''gm_auth'' ''TINYINT'' [UNSIGNED, NOT_NULL],
      Column ''reg_ip'' ''VARCHAR(64)'' [CHARSET_UTF8, NOT_NULL],
      Column ''reg_device'' ''VARCHAR(32)'' [CHARSET_UTF8, NOT_NULL],
      Column ''reg_device_type'' ''VARCHAR(64)'' [CHARSET_UTF8, NOT_NULL],
      Column ''last_login_time'' ''INT'' [UNSIGNED, NOT_NULL],
      Column ''last_login_server'' ''SMALLINT'' [UNSIGNED, NOT_NULL, DEFAULT_TEXT ''0''],
      Column ''open_udid'' ''VARCHAR(128)'' [CHARSET_UTF8, NOT_NULL, DEFAULT_TEXT []],
      Column ''apple_udid'' ''VARCHAR(128)'' [CHARSET_UTF8, NOT_NULL, DEFAULT_TEXT []],
      Column ''token_ip'' ''VARCHAR(32)'' [CHARSET_UTF8, NOT_NULL],
      Column ''token_time'' ''INT'' [UNSIGNED, NOT_NULL],
      Column ''cdk_status'' ''TINYINT'' [UNSIGNED, NOT_NULL],
      Column ''shadow_login'' ''TINYINT'' [UNSIGNED, NOT_NULL]]
     [PrimaryKey [''passport_id'']] None"

definition add_passport_info_shadow_login :: schema_stmt where
  "add_passport_info_shadow_login = AddColumn ''passport_info'' (Column ''shadow_login'' ''TINYINT'' [UNSIGNED, NOT_NULL]) False"

definition add_passport_info_cdk_status :: schema_stmt where
  "add_passport_info_cdk_status = AddColumn ''passport_info'' (Column ''cdk_status'' ''TINYINT'' [UNSIGNED, NOT_NULL]) False"

definition tbl_login_strategy :: schema_stmt where
  "tbl_login_strategy = CreateTable ''login_strategy''
     [Column ''auto_id'' ''INT'' [UNSIGNED, NOT_NULL, AUTO_INCREMENT],
      Column ''strategy_id'' ''INT'' [UNSIGNED, NOT_NULL],
      Column ''condition_id'' ''TINYINT'' [UNSIGNED, NOT_NULL],
      Column ''type'' ''TINYINT'' [UNSIGNED, NOT_NULL],
      Column ''value'' ''VARCHAR(64)'' [CHARSET_UTF8, NOT_NULL],
      Column ''is_not'' ''TINYINT'' [UNSIGNED, NOT_NULL, DEFAULT_TEXT ''0'']]
     [PrimaryKey [''auto_id'']] None"

definition add_login_strategy_is_not :: schema_stmt where
  "add_login_strategy_is_not = AddColumn ''login_strategy'' (Column ''is_not'' ''TINYINT'' [UNSIGNED, NOT_NULL, DEFAULT_TEXT ''0'']) False"

definition add_login_strategy_remark :: schema_stmt where
  "add_login_strategy_remark = AddColumn ''login_strategy'' (Column ''remark'' ''varchar(100)'' [DEFAULT_NULL, COMMENT_TEXT]) False"

definition tbl_login_strategy_backup_again :: schema_stmt where
  "tbl_login_strategy_backup_again = CreateTable ''login_strategy_backup''
     [Column ''idx'' ''INT'' [UNSIGNED, NOT_NULL, AUTO_INCREMENT],
      Column ''auto_id'' ''INT'' [UNSIGNED, NOT_NULL, DEFAULT_TEXT ''0''],
      Column ''strategy_id'' ''INT'' [UNSIGNED, NOT_NULL],
      Column ''condition_id'' ''TINYINT'' [UNSIGNED, NOT_NULL],
      Column ''type'' ''TINYINT'' [UNSIGNED, NOT_NULL],
      Column ''value'' ''VARCHAR(64)'' [CHARSET_UTF8, DEFAULT_NULL, COMMENT_TEXT],
      Column ''creator'' ''VARCHAR(32)'' [CHARSET_UTF8, DEFAULT_NULL, COMMENT_TEXT],
      Column ''remark'' ''varchar(100)'' [DEFAULT_NULL, COMMENT_TEXT],
      Column ''backup_time'' ''INT'' [UNSIGNED, NOT_NULL, DEFAULT_TEXT ''0'', COMMENT_TEXT],
      Column ''is_not'' ''TINYINT'' [UNSIGNED, NOT_NULL, DEFAULT_TEXT ''0'']]
     [PrimaryKey [''idx'']] None"

definition add_login_strategy_backup_remark :: schema_stmt where
  "add_login_strategy_backup_remark = AddColumn ''login_strategy_backup'' (Column ''remark'' ''varchar(100)'' [DEFAULT_NULL, COMMENT_TEXT]) True"

definition add_login_strategy_backup_is_not :: schema_stmt where
  "add_login_strategy_backup_is_not = AddColumn ''login_strategy_backup'' (Column ''is_not'' ''TINYINT'' [UNSIGNED, NOT_NULL, DEFAULT_TEXT ''0'']) False"

definition tbl_re_passport_player :: schema_stmt where
  "tbl_re_passport_player = CreateTable ''re_passport_player''
     [Column ''role_id'' ''INT'' [UNSIGNED, NOT_NULL],
      Column ''passport_id'' ''BIGINT'' [UNSIGNED, NOT_NULL],
      Column ''server_id'' ''SMALLINT'' [UNSIGNED, NOT_NULL],
      Column ''server_id_origin'' ''SMALLINT'' [UNSIGNED, NOT_NULL],
      Column ''create_time'' ''INT'' [UNSIGNED, NOT_NULL],
      Column ''role_level'' ''INT'' [UNSIGNED, NOT_NULL]]
     [IndexKey ''index_passport'' [''passport_id'', ''server_id_origin''], PrimaryKey [''role_id'']] None"

definition add_re_passport_player_role_level :: schema_stmt where
  "add_re_passport_player_role_level = AddColumn ''re_passport_player'' (Column ''role_level'' ''INT'' [UNSIGNED, NOT_NULL, DEFAULT_TEXT ''0'']) False"

definition tbl_role_login_info :: schema_stmt where
  "tbl_role_login_info = CreateTable ''role_login_info''
     [Column ''auto_id'' ''INT'' [UNSIGNED, NOT_NULL, AUTO_INCREMENT],
      Column ''role_id'' ''INT'' [UNSIGNED, NOT_NULL],
      Column ''login_time'' ''INT'' [UNSIGNED, NOT_NULL],
      Column ''logout_time'' ''INT'' [UNSIGNED, NOT_NULL],
      Column ''login_ip'' ''VARCHAR(64)'' [CHARSET_UTF8, NOT_NULL],
      Column ''login_device'' ''VARCHAR(32)'' [CHARSET_UTF8, NOT_NULL],
      Column ''login_device_type'' ''VARCHAR(64)'' [CHARSET_UTF8, NOT_NULL]]
     [PrimaryKey [''auto_id'']] None"

definition tbl_notice_info_v2 :: schema_stmt where
  "tbl_notice_info_v2 = CreateTable ''notice_info_v2''
     [Column ''auto_id'' ''INT'' [UNSIGNED, NOT_NULL, AUTO_INCREMENT],
      Column ''use_type'' ''TINYINT'' [UNSIGNED, NOT_NULL],
      Column ''condition_type'' ''TINYINT'' [UNSIGNED, NOT_NULL],
      Column ''condition_value'' ''MEDIUMINT'' [UNSIGNED, NOT_NULL],
      Column ''content'' ''VARCHAR(1024)'' [CHARSET_UTF8, NOT_NULL],
      Column ''start_time'' ''INT'' [UNSIGNED, NOT_NULL, DEFAULT_TEXT ''0''],
      Column ''end_time'' ''INT'' [UNSIGNED, NOT_NULL, DEFAULT_TEXT ''0'']]
     [PrimaryKey [''auto_id'']] None"

definition add_notice_info_v2_start_time :: schema_stmt where
  "add_notice_info_v2_start_time = AddColumn ''notice_info_v2'' (Column ''start_time'' ''INT'' [UNSIGNED, NOT_NULL]) False"

definition add_notice_info_v2_end_time :: schema_stmt where
  "add_notice_info_v2_end_time = AddColumn ''notice_info_v2'' (Column ''end_time'' ''INT'' [UNSIGNED, NOT_NULL]) False"

definition tbl_charge_info :: schema_stmt where
  "tbl_charge_info = CreateTable ''charge_info''
     [Column ''auto_id'' ''INT'' [UNSIGNED, NOT_NULL, AUTO_INCREMENT],
      Column ''role_id'' ''INT'' [UNSIGNED, NOT_NULL],
      Column ''goods_id'' ''INT'' [UNSIGNED, NOT_NULL],
      Column ''goods_quantity'' ''INT'' [UNSIGNED, NOT_NULL],
      Column ''currency'' ''VARCHAR(16)'' [CHARSET_UTF8, NOT_NULL],
      Column ''value'' ''INT'' [UNSIGNED, NOT_NULL],
      Column ''virtual_value'' ''INT'' [UNSIGNED, NOT_NULL, DEFAULT_TEXT ''0''],
      Column ''type'' ''INT'' [UNSIGNED, NOT_NULL],
      Column ''inner_order_id'' ''VARCHAR(128)'' [CHARSET_UTF8, NOT_NULL],
      Column ''platform'' ''INT'' [UNSIGNED, NOT_NULL],
      Column ''platform_order_id'' ''VARCHAR(128)'' [CHARSET_UTF8, NOT_NULL],
      Column ''platform_account_id'' ''VARCHAR(128)'' [CHARSET_UTF8, NOT_NULL],
      Column ''platform_payment_type'' ''TINYINT'' [UNSIGNED, NOT_NULL],
      Column ''state'' ''TINYINT'' [UNSIGNED, NOT_NULL],
      Column ''payment_time'' ''INT'' [UNSIGNED, NOT_NULL, DEFAULT_TEXT ''0''],
      Column ''distribute_time'' ''INT'' [UNSIGNED, NOT_NULL, DEFAULT_TEXT ''0''],
      Column ''payment_ip'' ''VARCHAR(64)'' [CHARSET_UTF8, NOT_NULL, DEFAULT_TEXT []],
      Column ''payment_device'' ''VARCHAR(32)'' [CHARSET_UTF8, NOT_NULL, DEFAULT_TEXT []],
      Column ''payment_device_type'' ''VARCHAR(64)'' [CHARSET_UTF8, NOT_NULL, DEFAULT_TEXT []],
      Column ''payment_device_uid'' ''VARCHAR(128)'' [CHARSET_UTF8, NOT_NULL, DEFAULT_TEXT []],
      Column ''client_order_id'' ''VARCHAR(128)'' [CHARSET_UTF8, NOT_NULL, DEFAULT_TEXT []],
      Column ''addition1'' ''VARCHAR(128)'' [CHARSET_UTF8, NOT_NULL, DEFAULT_TEXT []],
      Column ''addition2'' ''VARCHAR(128)'' [CHARSET_UTF8, NOT_NULL, DEFAULT_TEXT []],
      Column ''addition3'' ''VARCHAR(128)'' [CHARSET_UTF8, NOT_NULL, DEFAULT_TEXT []],
      Column ''addition4'' ''VARCHAR(128)'' [CHARSET_UTF8, NOT_NULL, DEFAULT_TEXT []],
      Column ''addition5'' ''VARCHAR(128)'' [CHARSET_UTF8, NOT_NULL, DEFAULT_TEXT []],
      Column ''diamond_pay'' ''INT'' [UNSIGNED, NOT_NULL, DEFAULT_TEXT ''0'']]
     [PrimaryKey [''auto_id''], IndexKey ''index_client_order_id'' [''client_order_id'']] None"

definition add_charge_info_diamond_pay :: schema_stmt where
  "add_charge_info_diamond_pay = AddColumn ''charge_info'' (Column ''diamond_pay'' ''int(10)'' [UNSIGNED, NOT_NULL, DEFAULT_NUM ''0'', COMMENT_TEXT]) False"

definition tbl_purchase_info :: schema_stmt where
  "tbl_purchase_info = CreateTable ''purchase_info''
     [Column ''auto_id'' ''INT'' [UNSIGNED, NOT_NULL, AUTO_INCREMENT],
      Column ''role_id'' ''INT'' [UNSIGNED, NOT_NULL],
      Column ''goods_id'' ''INT'' [UNSIGNED, NOT_NULL],
      Column ''goods_quantity'' ''INT'' [UNSIGNED, NOT_NULL],
      Column ''value'' ''INT'' [UNSIGNED, NOT_NULL],
      Column ''diamond_paid_use'' ''INT'' [UNSIGNED, NOT_NULL],
      Column ''time'' ''INT'' [UNSIGNED, NOT_NULL]]
     [PrimaryKey [''auto_id'']] None"

definition tbl_gm_cmd :: schema_stmt where
  "tbl_gm_cmd = CreateTable ''gm_cmd''
     [Column ''auto_id'' ''INT'' [UNSIGNED, NOT_NULL, AUTO_INCREMENT],
      Column ''opr'' ''VARCHAR(32)'' [CHARSET_UTF8, NOT_NULL],
      Column ''params'' ''TEXT'' [NOT_NULL, DEFAULT_TEXT []],
      Column ''target_type'' ''TINYINT'' [UNSIGNED, NOT_NULL],
      Column ''target_id'' ''BIGINT'' [UNSIGNED, NOT_NULL],
      Column ''start_time'' ''INT'' [UNSIGNED, NOT_NULL, DEFAULT_TEXT ''0''],
      Column ''end_time'' ''INT'' [UNSIGNED, NOT_NULL, DEFAULT_TEXT ''0''],
      Column ''backup_value'' ''VARCHAR(128)'' [CHARSET_UTF8, NOT_NULL, DEFAULT_TEXT []],
      Column ''status'' ''TINYINT'' [UNSIGNED, NOT_NULL, DEFAULT_TEXT ''0''],
      Column ''sortserial'' ''INT(3)'' [UNSIGNED, NOT_NULL, DEFAULT_TEXT ''100''],
      Column ''error_msg'' ''VARCHAR(256)'' [CHARSET_UTF8, NOT_NULL, DEFAULT_TEXT []],
      Column ''create_time'' ''INT'' [UNSIGNED, NOT_NULL, DEFAULT_TEXT ''0''],
      Column ''author'' ''VARCHAR(32)'' [CHARSET_UTF8, NOT_NULL, DEFAULT_TEXT []]]
     [PrimaryKey [''auto_id'']] None"

definition add_gm_cmd_sortserial :: schema_stmt where
  "add_gm_cmd_sortserial = AddColumn ''gm_cmd'' (Column ''sortserial'' ''INT'' [UNSIGNED, NOT_NULL, DEFAULT_TEXT ''100'']) False"

definition tbl_gameserver_merge_log :: schema_stmt where
  "tbl_gameserver_merge_log = CreateTable ''gameserver_merge_log''
     [Column ''auto_id'' ''INT'' [UNSIGNED, NOT_NULL, AUTO_INCREMENT],
      Column ''server_id_origin'' ''INT'' [UNSIGNED, NOT_NULL, DEFAULT_NUM ''0''],
      Column ''server_id_merged'' ''INT'' [UNSIGNED, NOT_NULL, DEFAULT_NUM ''0''],
      Column ''merge_time'' ''INT'' [UNSIGNED, NOT_NULL, DEFAULT_NUM ''0'']]
     [PrimaryKey [''auto_id'']] None"

definition tbl_player_detail :: schema_stmt where
  "tbl_player_detail = CreateTable ''player_detail''
     [Column ''role_id'' ''INT'' [UNSIGNED, NOT_NULL],
      Column ''diamond_pay'' ''INT'' [UNSIGNED, NOT_NULL, DEFAULT_TEXT ''0''],
      Column ''last_op'' ''INT'' [UNSIGNED, NOT_NULL, DEFAULT_TEXT ''0'']]
     [PrimaryKey [''role_id'']] None"

definition tbl_gift_box :: schema_stmt where
  "tbl_gift_box = CreateTable ''gift_box''
     [Column ''id'' ''INT'' [UNSIGNED, NOT_NULL],
      Column ''idx'' ''INT'' [UNSIGNED, NOT_NULL],
      Column ''role_id'' ''BIGINT'' [UNSIGNED, NOT_NULL],
      Column ''use_time'' ''INT'' [UNSIGNED, NOT_NULL]]
     [PrimaryKey [''id'', ''idx'', ''role_id'']] None"

definition tbl_gift_box_backup :: schema_stmt where
  "tbl_gift_box_backup = CreateTable ''gift_box_backup''
     [Column ''id'' ''INT'' [UNSIGNED, NOT_NULL],
      Column ''idx'' ''INT'' [UNSIGNED, NOT_NULL],
      Column ''role_id'' ''BIGINT'' [UNSIGNED, NOT_NULL],
      Column ''backup_time'' ''INT'' [UNSIGNED, NOT_NULL]]
     [PrimaryKey [''id'', ''idx'', ''role_id'']] None"

definition tbl_gift_box_config :: schema_stmt where
  "tbl_gift_box_config = CreateTable ''gift_box_config''
     [Column ''id'' ''INT'' [UNSIGNED, NOT_NULL],
      Column ''param1'' ''INT'' [UNSIGNED, NOT_NULL],
      Column ''param2'' ''INT'' [UNSIGNED, NOT_NULL],
      Column ''param3'' ''INT'' [UNSIGNED, NOT_NULL],
      Column ''reward'' ''VARCHAR(512)'' [CHARSET_UTF8, NOT_NULL, DEFAULT_TEXT []],
      Column ''server'' ''VARCHAR(512)'' [CHARSET_UTF8, NOT_NULL, DEFAULT_TEXT []],
      Column ''dead_time'' ''INT'' [UNSIGNED, NOT_NULL],
      Column ''use_max'' ''INT'' [UNSIGNED, NOT_NULL],
      Column ''platform'' ''VARCHAR(512)'' [CHARSET_UTF8, NOT_NULL, DEFAULT_TEXT ''0''],
      Column ''use_every'' ''INT'' [UNSIGNED, NOT_NULL, DEFAULT_TEXT ''1'']]
     [PrimaryKey [''id'']] None"

definition add_gift_box_config_use_every :: schema_stmt where
  "add_gift_box_config_use_every = AddColumn ''gift_box_config'' (Column ''use_every'' ''INT'' [UNSIGNED, NOT_NULL, DEFAULT_TEXT ''1'']) False"

definition tbl_gift_box_config_backup :: schema_stmt where
  "tbl_gift_box_config_backup = CreateTable ''gift_box_config_backup''
     [Column ''id'' ''INT'' [UNSIGNED, NOT_NULL],
      Column ''param1'' ''INT'' [UNSIGNED, NOT_NULL],
      Column ''param2'' ''INT'' [UNSIGNED, NOT_NULL],
      Column ''param3'' ''INT'' [UNSIGNED, NOT_NULL],
      Column ''reward'' ''VARCHAR(512)'' [CHARSET_UTF8, NOT_NULL, DEFAULT_TEXT []],
      Column ''server'' ''VARCHAR(512)'' [CHARSET_UTF8, NOT_NULL, DEFAULT_TEXT []],
      Column ''dead_time'' ''INT'' [UNSIGNED, NOT_NULL],
      Column ''use_max'' ''INT'' [UNSIGNED, NOT_NULL],
      Column ''platform'' ''VARCHAR(512)'' [CHARSET_UTF8, NOT_NULL, DEFAULT_TEXT ''0''],
      Column ''backup_time'' ''INT'' [UNSIGNED, NOT_NULL],
      Column ''use_every'' ''INT'' [UNSIGNED, NOT_NULL, DEFAULT_TEXT ''1'']]
     [PrimaryKey [''id'']] None"

definition tbl_goods_info :: schema_stmt where
  "tbl_goods_info = CreateTable ''goods_info''
     [Column ''server_id'' ''SMALLINT'' [UNSIGNED, NOT_NULL],
      Column ''goods_id'' ''INT'' [UNSIGNED, NOT_NULL],
      Column ''shop_type'' ''INT'' [UNSIGNED, NOT_NULL],
      Column ''buy_type_id'' ''INT'' [UNSIGNED, NOT_NULL],
      Column ''buy_content_id'' ''INT'' [UNSIGNED, NOT_NULL],
      Column ''buy_count'' ''INT'' [UNSIGNED, NOT_NULL],
      Column ''cost_type_id'' ''INT'' [UNSIGNED, NOT_NULL],
      Column ''cost_content_id'' ''INT'' [UNSIGNED, NOT_NULL],
      Column ''cost_count'' ''INT'' [UNSIGNED, NOT_NULL],
      Column ''cost_count_old'' ''INT'' [UNSIGNED, NOT_NULL],
      Column ''status'' ''TINYINT'' [UNSIGNED, NOT_NULL],
      Column ''limit_day'' ''INT'' [UNSIGNED, NOT_NULL],
      Column ''sort_idx'' ''INT'' [UNSIGNED, NOT_NULL],
      Column ''icon_id'' ''VARCHAR(64)'' [CHARSET_UTF8, NOT_NULL],
      Column ''goods_name'' ''VARCHAR(64)'' [CHARSET_UTF8, NOT_NULL],
      Column ''description'' ''VARCHAR(256)'' [CHARSET_UTF8, NOT_NULL],
      Column ''platform_goods_id'' ''VARCHAR(64)'' [CHARSET_UTF8, NOT_NULL],
      Column ''platform_type'' ''INT'' [UNSIGNED, NOT_NULL],
      Column ''discount'' ''INT'' [UNSIGNED, NOT_NULL],
      Column ''role_lv_req'' ''INT'' [UNSIGNED, NOT_NULL],
      Column ''bonus_buy_count'' ''INT'' [UNSIGNED, NOT_NULL],
      Column ''bonus_limit'' ''INT'' [UNSIGNED, NOT_NULL],
      Column ''bonus_reset_type'' ''TINYINT'' [UNSIGNED, NOT_NULL],
      Column ''diamond_pay'' ''INT'' [UNSIGNED, NOT_NULL]]
     [PrimaryKey [''server_id'', ''goods_id'']] None"

definition add_goods_info_bonus_buy_count :: schema_stmt where
  "add_goods_info_bonus_buy_count = AddColumn ''goods_info'' (Column ''bonus_buy_count'' ''INT'' [UNSIGNED, NOT_NULL]) False"

definition add_goods_info_bonus_limit :: schema_stmt where
  "add_goods_info_bonus_limit = AddColumn ''goods_info'' (Column ''bonus_limit'' ''INT'' [UNSIGNED, NOT_NULL]) False"

definition add_goods_info_bonus_reset_type :: schema_stmt where
  "add_goods_info_bonus_reset_type = AddColumn ''goods_info'' (Column ''bonus_reset_type'' ''TINYINT'' [UNSIGNED, NOT_NULL]) False"

definition add_goods_info_diamond_pay :: schema_stmt where
  "add_goods_info_diamond_pay = AddColumn ''goods_info'' (Column ''diamond_pay'' ''INT'' [UNSIGNED, NOT_NULL]) False"

definition tbl_guild_reg :: schema_stmt where
  "tbl_guild_reg = CreateTable ''guild_reg''
     [Column ''guild_id'' ''INT'' [UNSIGNED, NOT_NULL, AUTO_INCREMENT],
      Column ''role_id'' ''INT'' [UNSIGNED, NOT_NULL],
      Column ''create_time'' ''INT'' [UNSIGNED, NOT_NULL]]
     [PrimaryKey [''guild_id'']] (Some 10000)"

section \<open>The sequence\<close>

definition center_plan :: "schema_stmt list" where
  "center_plan =
     [tbl_gift_generate_record, tbl_gift_generate_record_backup, tbl_login_strategy_backup,
      tbl_logindevicelevel_info, tbl_relayserver_info, tbl_battleserver_info,
      add_battleserver_info_player_num, tbl_battleserver_list, add_battleserver_list_player_num,
      tbl_gameserver_info, add_gameserver_info_server_identify, add_gameserver_info_activate_req,
      add_gameserver_info_db_name, tbl_player_info, add_player_info_create_time, tbl_passport_info,
      add_passport_info_shadow_login, add_passport_info_cdk_status, tbl_login_strategy,
      add_login_strategy_is_not, add_login_strategy_remark, tbl_login_strategy_backup_again,
      add_login_strategy_backup_remark, add_login_strategy_backup_is_not, tbl_re_passport_player,
      add_re_passport_player_role_level, tbl_role_login_info, tbl_notice_info_v2,
      add_notice_info_v2_start_time, add_notice_info_v2_end_time, tbl_charge_info,
      add_charge_info_diamond_pay, tbl_purchase_info, tbl_gm_cmd, add_gm_cmd_sortserial,
      tbl_gameserver_merge_log, tbl_player_detail, tbl_gift_box, tbl_gift_box_backup, tbl_gift_box_config,
      add_gift_box_config_use_every, tbl_gift_box_config_backup, tbl_goods_info,
      add_goods_info_bonus_buy_count, add_goods_info_bonus_limit, add_goods_info_bonus_reset_type,
      add_goods_info_diamond_pay, tbl_guild_reg]"

definition center_ddl :: "ddl_step list" where
  "center_ddl = map (\<lambda>p. (stmt_cond p, stmt_sql p)) center_plan"

section \<open>What the statements do\<close>

type_synonym schema = "string \<rightharpoonup> string list"

fun schema_step :: "schema_stmt \<Rightarrow> schema \<Rightarrow> schema" where
  "schema_step (CreateTable t cols keys start) S = (if S t = None then S(t \<mapsto> map c_name cols) else S)"
| "schema_step (AddColumn t c comma) S =
     (case S t of
        None \<Rightarrow> S
      | Some cs \<Rightarrow> if comma \<or> c_name c \<in> set cs then S else S(t \<mapsto> cs @ [c_name c]))"

definition schema_run :: "schema_stmt list \<Rightarrow> schema \<Rightarrow> schema" where
  "schema_run ps S = fold schema_step ps S"

text \<open>The statements of \<open>InitCenterDB\<close> on a server that accepts the ones in \<open>ok\<close> and refuses the others.\<close>

definition center_schema :: "(schema_stmt \<Rightarrow> bool) \<Rightarrow> schema \<Rightarrow> schema" where
  "center_schema ok = schema_run (filter ok center_plan)"

text \<open>
  The columns the statements of \<^verbatim>\<open>CenterDBCtrl\<close> after \<open>InitCenterDB\<close> name, by table (the statements that
  are commented out aside).
\<close>

definition center_used :: "(string \<times> string list) list" where
  "center_used =
     [(''battleserver_info'', [''connect_num'', ''player_num'', ''relay_id'', ''running_battle'']),
      (''battleserver_list'', [''server_ip'', ''server_port'']),
      (''charge_info'', [''addition2'', ''addition5'', ''auto_id'', ''client_order_id'', ''currency'', ''diamond_pay'',
        ''distribute_time'', ''goods_id'', ''goods_quantity'', ''inner_order_id'', ''payment_device'',
        ''payment_device_type'', ''payment_device_uid'', ''payment_ip'', ''payment_time'',
        ''platform'', ''platform_account_id'', ''platform_order_id'', ''platform_payment_type'',
        ''role_id'', ''state'', ''type'', ''value'', ''virtual_value'']),
      (''gameserver_info'', [''activate_req'', ''can_login'', ''db_name'', ''ip'', ''is_test'', ''local_ip'',
        ''login_strategy_id'', ''online_num'', ''port'', ''res_server_ip'', ''res_version'',
        ''res_version_config'', ''server_id'', ''server_identify'', ''server_name'', ''status'',
        ''update_time'', ''version'']),
      (''gameserver_merge_log'', [''merge_type'', ''server_id_merged'', ''server_id_origin'']),
      (''gift_box'', [''id'', ''idx'', ''role_id'', ''use_time'']),
      (''gift_box_config'', [''dead_time'', ''id'', ''param1'', ''param2'', ''param3'', ''platform'', ''reward'',
        ''server'', ''use_every'', ''use_max'']),
      (''gm_cmd'', [''author'', ''auto_id'', ''backup_value'', ''create_time'', ''end_time'', ''error_msg'',
        ''opr'', ''params'', ''start_time'', ''status'', ''target_id'', ''target_type'']),
      (''goods_info'', [''bonus_buy_count'', ''bonus_limit'', ''bonus_reset_type'', ''buy_content_id'', ''buy_count'',
        ''buy_type_id'', ''cost_content_id'', ''cost_count'', ''cost_count_old'', ''cost_type_id'',
        ''description'', ''diamond_pay'', ''discount'', ''goods_id'', ''goods_name'', ''icon_id'',
        ''limit_day'', ''platform_goods_id'', ''platform_type'', ''role_lv_req'', ''server_id'',
        ''shop_type'', ''sort_idx'', ''status'']),
      (''guild_reg'', [''create_time'', ''role_id'']),
      (''login_strategy'', [''condition_id'', ''is_not'', ''strategy_id'', ''type'', ''value'']),
      (''notice_info_v2'', [''auto_id'', ''condition_type'', ''condition_value'', ''content'', ''end_time'',
        ''start_time'', ''use_type'']),
      (''passport_info'', [''apple_udid'', ''auth_type'', ''cdk_status'', ''create_time'', ''gm_auth'',
        ''last_login_server'', ''last_login_time'', ''mail'', ''open_udid'', ''passport'',
        ''passport_id'', ''platform'', ''pwd'', ''reg_device'', ''reg_device_type'', ''reg_ip'',
        ''shadow_login'', ''token'', ''token_ip'', ''token_time'', ''uid'']),
      (''player_info'', [''create_time'', ''cur_stage'', ''cur_train'', ''diamond'', ''diamond_pay'', ''energy'',
        ''gm_auth'', ''gold'', ''last_login_time'', ''level'', ''name'', ''progress'', ''quest'',
        ''role_id'', ''stamina'', ''status'', ''vip_exp'', ''vip_level'']),
      (''purchase_info'', [''diamond_paid_use'', ''goods_id'', ''goods_quantity'', ''role_id'', ''time'', ''value'']),
      (''re_passport_info'', [''role_id'', ''server_id'', ''server_id_origin'']),
      (''re_passport_player'', [''create_time'', ''passport_id'', ''role_id'', ''role_level'', ''server_id'',
        ''server_id_origin'']),
      (''relayserver_info'', [''merge_group'', ''relay_group'', ''relay_type'', ''server_id'', ''update_time'']),
      (''role_login_info'', [''auto_id'', ''login_device'', ''login_device_type'', ''login_ip'', ''login_time'',
        ''logout_time'', ''role_id''])]"

text \<open>
  Four of them are nowhere created: \<open>GetMergedRoleIds\<close> reads a table \<^verbatim>\<open>re_passport_info\<close> and
  \<open>GetMergedListInfo\<close> a column \<^verbatim>\<open>merge_type\<close>.
\<close>

definition center_not_created :: "(string \<times> string) list" where
  "center_not_created =
     [(''gameserver_merge_log'', ''merge_type''), (''re_passport_info'', ''role_id''),
      (''re_passport_info'', ''server_id''), (''re_passport_info'', ''server_id_origin'')]"

definition has_column :: "schema \<Rightarrow> string \<Rightarrow> string \<Rightarrow> bool" where
  "has_column S t c = (case S t of None \<Rightarrow> False | Some cs \<Rightarrow> c \<in> set cs)"


section \<open>Tables and columns are only added\<close>

lemma schema_run_simps [simp]:
  "schema_run [] S = S" "schema_run (p # ps) S = schema_run ps (schema_step p S)"
  "schema_run (ps @ qs) S = schema_run qs (schema_run ps S)"
  by (simp_all add: schema_run_def)

lemma schema_step_keeps: "S t = Some cs \<Longrightarrow> \<exists>new. schema_step p S t = Some (cs @ new)"
  by (cases p) (auto split: option.splits)

lemma schema_run_keeps: "S t = Some cs \<Longrightarrow> \<exists>new. schema_run ps S t = Some (cs @ new)"
proof (induction ps arbitrary: S cs)
  case (Cons p ps)
  from schema_step_keeps [of S t cs p, OF Cons.prems] obtain n1 where "schema_step p S t = Some (cs @ n1)" by blast
  from Cons.IH [of "schema_step p S", OF this] show ?case by auto
qed simp

text \<open>The table, and the names of the columns, a statement creates or adds.\<close>

fun stmt_table :: "schema_stmt \<Rightarrow> string" where
  "stmt_table (CreateTable t cols keys start) = t"
| "stmt_table (AddColumn t c comma) = t"

fun stmt_creates :: "schema_stmt \<Rightarrow> bool" where
  "stmt_creates (CreateTable t cols keys start) = True"
| "stmt_creates (AddColumn t c comma) = False"

fun stmt_columns :: "schema_stmt \<Rightarrow> string list" where
  "stmt_columns (CreateTable t cols keys start) = map c_name cols"
| "stmt_columns (AddColumn t c comma) = (if comma then [] else [c_name c])"

text \<open>The columns a sequence gives a table that does not exist, and the ones it adds to one that does.\<close>

fun created_columns :: "schema_stmt list \<Rightarrow> string \<Rightarrow> string list" where
  "created_columns [] t = []"
| "created_columns (p # ps) t = (if stmt_creates p \<and> stmt_table p = t then stmt_columns p else created_columns ps t)"

fun creates :: "schema_stmt list \<Rightarrow> string \<Rightarrow> bool" where
  "creates [] t = False"
| "creates (p # ps) t = (stmt_creates p \<and> stmt_table p = t \<or> creates ps t)"

fun added_columns :: "schema_stmt list \<Rightarrow> string \<Rightarrow> string list" where
  "added_columns [] t = []"
| "added_columns (p # ps) t =
     (if \<not> stmt_creates p \<and> stmt_table p = t then stmt_columns p @ added_columns ps t else added_columns ps t)"

text \<open>The first statement about a table creates it.\<close>

fun adds_after_create :: "string \<Rightarrow> schema_stmt list \<Rightarrow> bool" where
  "adds_after_create t [] = True"
| "adds_after_create t (p # ps) = (if stmt_table p = t then stmt_creates p else adds_after_create t ps)"

lemma run_adds:
  "S t = Some cs \<Longrightarrow> c \<in> set (added_columns ps t) \<Longrightarrow> \<exists>cs'. schema_run ps S t = Some cs' \<and> c \<in> set cs'"
proof (induction ps arbitrary: S cs)
  case (Cons p ps)
  from schema_step_keeps [of S t cs p, OF Cons.prems(1)] obtain n1 where n1: "schema_step p S t = Some (cs @ n1)" by blast
  show ?case
  proof (cases "c \<in> set (added_columns ps t)")
    case True
    from Cons.IH [of "schema_step p S", OF n1 this] show ?thesis by simp
  next
    case False
    then obtain col where p: "p = AddColumn t col False" "c = c_name col"
      using Cons.prems(2) by (cases p) (auto split: if_splits)
    then have "c \<in> set (cs @ n1)" using n1 Cons.prems(1) by (auto split: if_splits)
    with schema_run_keeps [of "schema_step p S" t "cs @ n1" ps] n1 show ?thesis by auto
  qed
qed simp

lemma run_creates:
  "S t = None \<Longrightarrow> creates ps t \<Longrightarrow> adds_after_create t ps \<Longrightarrow>
   \<exists>cs'. schema_run ps S t = Some cs' \<and> set (created_columns ps t) \<subseteq> set cs' \<and> set (added_columns ps t) \<subseteq> set cs'"
proof (induction ps arbitrary: S)
  case (Cons p ps)
  show ?case
  proof (cases p)
    case (CreateTable u cols keys start)
    show ?thesis
    proof (cases "u = t")
      case True
      then have s: "schema_step p S t = Some (map c_name cols)" using Cons.prems(1) CreateTable by simp
      from schema_run_keeps [of "schema_step p S" t _ ps, OF s] obtain new where
        "schema_run ps (schema_step p S) t = Some (map c_name cols @ new)" by blast
      with run_adds [of "schema_step p S" t _ _ ps, OF s] True CreateTable show ?thesis by fastforce
    next
      case False
      with Cons CreateTable show ?thesis by auto
    qed
  next
    case (AddColumn u c comma)
    with Cons.prems have "schema_step p S t = None" "u \<noteq> t" by (auto split: option.split if_splits)
    with Cons AddColumn show ?thesis by auto
  qed
qed simp

text \<open>
  The columns a table must have when it exists already: the ones of its creation that no statement
  adds.
\<close>

definition base_columns :: "schema_stmt list \<Rightarrow> string \<Rightarrow> string list" where
  "base_columns ps t = (let added = added_columns ps t in filter (\<lambda>c. c \<notin> set added) (created_columns ps t))"

definition has_base :: "schema_stmt list \<Rightarrow> schema \<Rightarrow> string \<Rightarrow> bool" where
  "has_base ps S t \<longleftrightarrow> (case S t of None \<Rightarrow> True | Some cs \<Rightarrow> set (base_columns ps t) \<subseteq> set cs)"

lemma run_complete:
  assumes "has_base ps S t" "creates ps t" "adds_after_create t ps"
  shows "\<exists>cs'. schema_run ps S t = Some cs' \<and> set (base_columns ps t) \<union> set (added_columns ps t) \<subseteq> set cs'"
proof (cases "S t")
  case None
  from run_creates [of S t ps, OF None assms(2,3)] show ?thesis by (auto simp: base_columns_def Let_def)
next
  case (Some cs)
  from schema_run_keeps [of S t cs ps, OF Some] obtain new where "schema_run ps S t = Some (cs @ new)" by blast
  with run_adds [of S t cs _ ps, OF Some] assms(1) Some show ?thesis by (fastforce simp: has_base_def)
qed

text \<open>The statements of the plan by table and columns.\<close>

lemmas plan_stmt_defs =
  tbl_gift_generate_record_def tbl_gift_generate_record_backup_def tbl_login_strategy_backup_def
  tbl_logindevicelevel_info_def tbl_relayserver_info_def tbl_battleserver_info_def
  add_battleserver_info_player_num_def tbl_battleserver_list_def add_battleserver_list_player_num_def
  tbl_gameserver_info_def add_gameserver_info_server_identify_def add_gameserver_info_activate_req_def
  add_gameserver_info_db_name_def tbl_player_info_def add_player_info_create_time_def tbl_passport_info_def
  add_passport_info_shadow_login_def add_passport_info_cdk_status_def tbl_login_strategy_def
  add_login_strategy_is_not_def add_login_strategy_remark_def tbl_login_strategy_backup_again_def
  add_login_strategy_backup_remark_def add_login_strategy_backup_is_not_def tbl_re_passport_player_def
  add_re_passport_player_role_level_def tbl_role_login_info_def tbl_notice_info_v2_def
  add_notice_info_v2_start_time_def add_notice_info_v2_end_time_def tbl_charge_info_def
  add_charge_info_diamond_pay_def tbl_purchase_info_def tbl_gm_cmd_def add_gm_cmd_sortserial_def
  tbl_gameserver_merge_log_def tbl_player_detail_def tbl_gift_box_def tbl_gift_box_backup_def
  tbl_gift_box_config_def add_gift_box_config_use_every_def tbl_gift_box_config_backup_def tbl_goods_info_def
  add_goods_info_bonus_buy_count_def add_goods_info_bonus_limit_def add_goods_info_bonus_reset_type_def
  add_goods_info_diamond_pay_def tbl_guild_reg_def

lemma plan_tables:
  "stmt_table tbl_gift_generate_record = ''gift_generate_record''" "stmt_creates tbl_gift_generate_record = True"
  "stmt_table tbl_gift_generate_record_backup = ''gift_generate_record_backup''" "stmt_creates tbl_gift_generate_record_backup = True"
  "stmt_table tbl_login_strategy_backup = ''login_strategy_backup''" "stmt_creates tbl_login_strategy_backup = True"
  "stmt_table tbl_logindevicelevel_info = ''logindevicelevel_info''" "stmt_creates tbl_logindevicelevel_info = True"
  "stmt_table tbl_relayserver_info = ''relayserver_info''" "stmt_creates tbl_relayserver_info = True"
  "stmt_table tbl_battleserver_info = ''battleserver_info''" "stmt_creates tbl_battleserver_info = True"
  "stmt_table add_battleserver_info_player_num = ''battleserver_info''" "stmt_creates add_battleserver_info_player_num = False"
  "stmt_table tbl_battleserver_list = ''battleserver_list''" "stmt_creates tbl_battleserver_list = True"
  "stmt_table add_battleserver_list_player_num = ''battleserver_list''" "stmt_creates add_battleserver_list_player_num = False"
  "stmt_table tbl_gameserver_info = ''gameserver_info''" "stmt_creates tbl_gameserver_info = True"
  "stmt_table add_gameserver_info_server_identify = ''gameserver_info''" "stmt_creates add_gameserver_info_server_identify = False"
  "stmt_table add_gameserver_info_activate_req = ''gameserver_info''" "stmt_creates add_gameserver_info_activate_req = False"
  "stmt_table add_gameserver_info_db_name = ''gameserver_info''" "stmt_creates add_gameserver_info_db_name = False"
  "stmt_table tbl_player_info = ''player_info''" "stmt_creates tbl_player_info = True"
  "stmt_table add_player_info_create_time = ''player_info''" "stmt_creates add_player_info_create_time = False"
  "stmt_table tbl_passport_info = ''passport_info''" "stmt_creates tbl_passport_info = True"
  "stmt_table add_passport_info_shadow_login = ''passport_info''" "stmt_creates add_passport_info_shadow_login = False"
  "stmt_table add_passport_info_cdk_status = ''passport_info''" "stmt_creates add_passport_info_cdk_status = False"
  "stmt_table tbl_login_strategy = ''login_strategy''" "stmt_creates tbl_login_strategy = True"
  "stmt_table add_login_strategy_is_not = ''login_strategy''" "stmt_creates add_login_strategy_is_not = False"
  "stmt_table add_login_strategy_remark = ''login_strategy''" "stmt_creates add_login_strategy_remark = False"
  "stmt_table tbl_login_strategy_backup_again = ''login_strategy_backup''" "stmt_creates tbl_login_strategy_backup_again = True"
  "stmt_table add_login_strategy_backup_remark = ''login_strategy_backup''" "stmt_creates add_login_strategy_backup_remark = False"
  "stmt_table add_login_strategy_backup_is_not = ''login_strategy_backup''" "stmt_creates add_login_strategy_backup_is_not = False"
  "stmt_table tbl_re_passport_player = ''re_passport_player''" "stmt_creates tbl_re_passport_player = True"
  "stmt_table add_re_passport_player_role_level = ''re_passport_player''" "stmt_creates add_re_passport_player_role_level = False"
  "stmt_table tbl_role_login_info = ''role_login_info''" "stmt_creates tbl_role_login_info = True"
  "stmt_table tbl_notice_info_v2 = ''notice_info_v2''" "stmt_creates tbl_notice_info_v2 = True"
  "stmt_table add_notice_info_v2_start_time = ''notice_info_v2''" "stmt_creates add_notice_info_v2_start_time = False"
  "stmt_table add_notice_info_v2_end_time = ''notice_info_v2''" "stmt_creates add_notice_info_v2_end_time = False"
  "stmt_table tbl_charge_info = ''charge_info''" "stmt_creates tbl_charge_info = True"
  "stmt_table add_charge_info_diamond_pay = ''charge_info''" "stmt_creates add_charge_info_diamond_pay = False"
  "stmt_table tbl_purchase_info = ''purchase_info''" "stmt_creates tbl_purchase_info = True"
  "stmt_table tbl_gm_cmd = ''gm_cmd''" "stmt_creates tbl_gm_cmd = True"
  "stmt_table add_gm_cmd_sortserial = ''gm_cmd''" "stmt_creates add_gm_cmd_sortserial = False"
  "stmt_table tbl_gameserver_merge_log = ''gameserver_merge_log''" "stmt_creates tbl_gameserver_merge_log = True"
  "stmt_table tbl_player_detail = ''player_detail''" "stmt_creates tbl_player_detail = True"
  "stmt_table tbl_gift_box = ''gift_box''" "stmt_creates tbl_gift_box = True"
  "stmt_table tbl_gift_box_backup = ''gift_box_backup''" "stmt_creates tbl_gift_box_backup = True"
  "stmt_table tbl_gift_box_config = ''gift_box_config''" "stmt_creates tbl_gift_box_config = True"
  "stmt_table add_gift_box_config_use_every = ''gift_box_config''" "stmt_creates add_gift_box_config_use_every = False"
  "stmt_table tbl_gift_box_config_backup = ''gift_box_config_backup''" "stmt_creates tbl_gift_box_config_backup = True"
  "stmt_table tbl_goods_info = ''goods_info''" "stmt_creates tbl_goods_info = True"
  "stmt_table add_goods_info_bonus_buy_count = ''goods_info''" "stmt_creates add_goods_info_bonus_buy_count = False"
  "stmt_table add_goods_info_bonus_limit = ''goods_info''" "stmt_creates add_goods_info_bonus_limit = False"
  "stmt_table add_goods_info_bonus_reset_type = ''goods_info''" "stmt_creates add_goods_info_bonus_reset_type = False"
  "stmt_table add_goods_info_diamond_pay = ''goods_info''" "stmt_creates add_goods_info_diamond_pay = False"
  "stmt_table tbl_guild_reg = ''guild_reg''" "stmt_creates tbl_guild_reg = True"
  by (simp_all add: plan_stmt_defs)

lemma plan_columns:
  "stmt_columns tbl_gift_generate_record =
     [''id'', ''idx'', ''gen_start'', ''gen_end'', ''gen_use'', ''create_time'', ''creator'']"
  "stmt_columns tbl_gift_generate_record_backup =
     [''id'', ''idx'', ''gen_start'', ''gen_end'', ''gen_use'', ''create_time'', ''creator'',
      ''backup_time'']"
  "stmt_columns tbl_login_strategy_backup =
     [''idx'', ''auto_id'', ''strategy_id'', ''condition_id'', ''type'', ''value'', ''creator'',
      ''remark'', ''backup_time'', ''is_not'']"
  "stmt_columns tbl_logindevicelevel_info =
     [''summarydate'', ''server_id'', ''platform'', ''uid'', ''passport_id'', ''role_id'', ''level'',
      ''vip_level'', ''vip_exp'', ''reg_device'', ''player_icon'', ''role_last_login_time'',
      ''morrowloginflag'', ''create_time'', ''role_create_time'']"
  "stmt_columns tbl_relayserver_info =
     [''relay_type'', ''relay_group'', ''server_id'', ''update_time'', ''merge_group'']"
  "stmt_columns tbl_battleserver_info =
     [''relay_id'', ''connect_num'', ''running_battle'', ''player_num'']"
  "stmt_columns add_battleserver_info_player_num =
     [''player_num'']"
  "stmt_columns tbl_battleserver_list =
     [''relay_id'', ''server_ip'', ''server_port'', ''battle_id'', ''last_update_time'', ''player_num'']"
  "stmt_columns add_battleserver_list_player_num =
     [''player_num'']"
  "stmt_columns tbl_gameserver_info =
     [''server_id'', ''server_name'', ''ip'', ''local_ip'', ''port'', ''version'', ''res_version'',
      ''res_version_config'', ''res_server_ip'', ''online_num'', ''can_login'', ''status'',
      ''update_time'', ''login_strategy_id'', ''is_test'', ''activate_req'', ''server_identify'',
      ''db_name'']"
  "stmt_columns add_gameserver_info_server_identify =
     [''server_identify'']"
  "stmt_columns add_gameserver_info_activate_req =
     [''activate_req'']"
  "stmt_columns add_gameserver_info_db_name =
     [''db_name'']"
  "stmt_columns tbl_player_info =
     [''role_id'', ''name'', ''gm_auth'', ''status'', ''progress'', ''level'', ''gold'', ''diamond'',
      ''cur_stage'', ''cur_train'', ''vip_level'', ''vip_exp'', ''stamina'', ''energy'', ''quest'',
      ''last_login_time'', ''create_time'', ''diamond_pay'']"
  "stmt_columns add_player_info_create_time =
     [''create_time'']"
  "stmt_columns tbl_passport_info =
     [''passport_id'', ''passport'', ''pwd'', ''mail'', ''uid'', ''token'', ''platform'', ''auth_type'',
      ''create_time'', ''gm_auth'', ''reg_ip'', ''reg_device'', ''reg_device_type'', ''last_login_time'',
      ''last_login_server'', ''open_udid'', ''apple_udid'', ''token_ip'', ''token_time'', ''cdk_status'',
      ''shadow_login'']"
  "stmt_columns add_passport_info_shadow_login =
     [''shadow_login'']"
  "stmt_columns add_passport_info_cdk_status =
     [''cdk_status'']"
  "stmt_columns tbl_login_strategy =
     [''auto_id'', ''strategy_id'', ''condition_id'', ''type'', ''value'', ''is_not'']"
  "stmt_columns add_login_strategy_is_not =
     [''is_not'']"
  "stmt_columns add_login_strategy_remark =
     [''remark'']"
  "stmt_columns tbl_login_strategy_backup_again =
     [''idx'', ''auto_id'', ''strategy_id'', ''condition_id'', ''type'', ''value'', ''creator'',
      ''remark'', ''backup_time'', ''is_not'']"
  "stmt_columns add_login_strategy_backup_remark =
     []"
  "stmt_columns add_login_strategy_backup_is_not =
     [''is_not'']"
  "stmt_columns tbl_re_passport_player =
     [''role_id'', ''passport_id'', ''server_id'', ''server_id_origin'', ''create_time'', ''role_level'']"
  "stmt_columns add_re_passport_player_role_level =
     [''role_level'']"
  "stmt_columns tbl_role_login_info =
     [''auto_id'', ''role_id'', ''login_time'', ''logout_time'', ''login_ip'', ''login_device'',
      ''login_device_type'']"
  "stmt_columns tbl_notice_info_v2 =
     [''auto_id'', ''use_type'', ''condition_type'', ''condition_value'', ''content'', ''start_time'',
      ''end_time'']"
  "stmt_columns add_notice_info_v2_start_time =
     [''start_time'']"
  "stmt_columns add_notice_info_v2_end_time =
     [''end_time'']"
  "stmt_columns tbl_charge_info =
     [''auto_id'', ''role_id'', ''goods_id'', ''goods_quantity'', ''currency'', ''value'',
      ''virtual_value'', ''type'', ''inner_order_id'', ''platform'', ''platform_order_id'',
      ''platform_account_id'', ''platform_payment_type'', ''state'', ''payment_time'',
      ''distribute_time'', ''payment_ip'', ''payment_device'', ''payment_device_type'',
      ''payment_device_uid'', ''client_order_id'', ''addition1'', ''addition2'', ''addition3'',
      ''addition4'', ''addition5'', ''diamond_pay'']"
  "stmt_columns add_charge_info_diamond_pay =
     [''diamond_pay'']"
  "stmt_columns tbl_purchase_info =
     [''auto_id'', ''role_id'', ''goods_id'', ''goods_quantity'', ''value'', ''diamond_paid_use'',
      ''time'']"
  "stmt_columns tbl_gm_cmd =
     [''auto_id'', ''opr'', ''params'', ''target_type'', ''target_id'', ''start_time'', ''end_time'',
      ''backup_value'', ''status'', ''sortserial'', ''error_msg'', ''create_time'', ''author'']"
  "stmt_columns add_gm_cmd_sortserial =
     [''sortserial'']"
  "stmt_columns tbl_gameserver_merge_log =
     [''auto_id'', ''server_id_origin'', ''server_id_merged'', ''merge_time'']"
  "stmt_columns tbl_player_detail =
     [''role_id'', ''diamond_pay'', ''last_op'']"
  "stmt_columns tbl_gift_box =
     [''id'', ''idx'', ''role_id'', ''use_time'']"
  "stmt_columns tbl_gift_box_backup =
     [''id'', ''idx'', ''role_id'', ''backup_time'']"
  "stmt_columns tbl_gift_box_config =
     [''id'', ''param1'', ''param2'', ''param3'', ''reward'', ''server'', ''dead_time'', ''use_max'',
      ''platform'', ''use_every'']"
  "stmt_columns add_gift_box_config_use_every =
     [''use_every'']"
  "stmt_columns tbl_gift_box_config_backup =
     [''id'', ''param1'', ''param2'', ''param3'', ''reward'', ''server'', ''dead_time'', ''use_max'',
      ''platform'', ''backup_time'', ''use_every'']"
  "stmt_columns tbl_goods_info =
     [''server_id'', ''goods_id'', ''shop_type'', ''buy_type_id'', ''buy_content_id'', ''buy_count'',
      ''cost_type_id'', ''cost_content_id'', ''cost_count'', ''cost_count_old'', ''status'',
      ''limit_day'', ''sort_idx'', ''icon_id'', ''goods_name'', ''description'', ''platform_goods_id'',
      ''platform_type'', ''discount'', ''role_lv_req'', ''bonus_buy_count'', ''bonus_limit'',
      ''bonus_reset_type'', ''diamond_pay'']"
  "stmt_columns add_goods_info_bonus_buy_count =
     [''bonus_buy_count'']"
  "stmt_columns add_goods_info_bonus_limit =
     [''bonus_limit'']"
  "stmt_columns add_goods_info_bonus_reset_type =
     [''bonus_reset_type'']"
  "stmt_columns add_goods_info_diamond_pay =
     [''diamond_pay'']"
  "stmt_columns tbl_guild_reg =
     [''guild_id'', ''role_id'', ''create_time'']"
  by (simp_all add: plan_stmt_defs)

text \<open>Statements about other tables do not change a table, and only the ones about it give it columns.\<close>

lemma schema_step_other: "stmt_table p \<noteq> t \<Longrightarrow> schema_step p S t = S t"
  by (cases p) (auto split: option.splits)

lemma schema_step_cong: "S t = S' t \<Longrightarrow> schema_step p S t = schema_step p S' t"
  by (cases p; cases "stmt_table p = t"; cases "S t") (auto simp: schema_step_other split: option.splits)

lemma schema_run_accepted:
  "(\<And>p. p \<in> set ps \<Longrightarrow> stmt_table p = t \<Longrightarrow> ok p) \<Longrightarrow> S t = S' t \<Longrightarrow> schema_run (filter ok ps) S t = schema_run ps S' t"
proof (induction ps arbitrary: S S')
  case (Cons p ps)
  have IH: "U t = U' t \<Longrightarrow> schema_run (filter ok ps) U t = schema_run ps U' t" for U U'
    using Cons.IH Cons.prems(1) by simp
  show ?case
  proof (cases "ok p")
    case True
    with IH [of "schema_step p S" "schema_step p S'"] schema_step_cong [of S t S' p] Cons.prems(2) show ?thesis by simp
  next
    case False
    with Cons.prems(1) have "stmt_table p \<noteq> t" by auto
    with False IH [of S "schema_step p S'"] Cons.prems(2) show ?thesis by (simp add: schema_step_other)
  qed
qed simp

lemma schema_step_columns:
  "has_column (schema_step p S) t c \<Longrightarrow> has_column S t c \<or> stmt_table p = t \<and> c \<in> set (stmt_columns p)"
  by (cases p) (auto simp: has_column_def split: option.splits if_splits)

lemma schema_run_columns:
  "has_column (schema_run ps S) t c \<Longrightarrow> has_column S t c \<or> (\<exists>p \<in> set ps. stmt_table p = t \<and> c \<in> set (stmt_columns p))"
proof (induction ps arbitrary: S)
  case (Cons p ps)
  from Cons.IH [of "schema_step p S"] Cons.prems schema_step_columns [of p S t c] show ?case by auto
qed simp

text \<open>Each column the statements name is created by the plan, or no statement of the plan has it.\<close>

definition used_ok :: "schema_stmt list \<Rightarrow> string \<Rightarrow> string \<Rightarrow> bool" where
  "used_ok ps t c \<longleftrightarrow>
     creates ps t \<and> adds_after_create t ps \<and> c \<in> set (created_columns ps t) \<union> set (added_columns ps t)"

definition unused_ok :: "schema_stmt list \<Rightarrow> string \<Rightarrow> string \<Rightarrow> bool" where
  "unused_ok ps t c \<longleftrightarrow> list_all (\<lambda>p. stmt_table p \<noteq> t \<or> c \<notin> set (stmt_columns p)) ps"

lemma used_columns_ok:
  assumes "(t, cs) \<in> set center_used" "c \<in> set cs" "(t, c) \<notin> set center_not_created"
  shows "used_ok center_plan t c"
proof -
  have "list_all (\<lambda>(t, cs). list_all (\<lambda>c. (t, c) \<in> set center_not_created \<or> used_ok center_plan t c) cs) center_used"
    by (simp add: center_used_def center_not_created_def used_ok_def center_plan_def plan_tables plan_columns)
  with assms show ?thesis by (fastforce simp: list_all_iff)
qed

lemma not_created_ok: "(t, c) \<in> set center_not_created \<Longrightarrow> unused_ok center_plan t c"
proof -
  have "list_all (\<lambda>(t, c). unused_ok center_plan t c) center_not_created"
    by (simp add: center_not_created_def unused_ok_def center_plan_def plan_tables plan_columns)
  then show "(t, c) \<in> set center_not_created \<Longrightarrow> ?thesis" by (auto simp: list_all_iff)
qed

section \<open>Properties\<close>

text \<open>
  C32: The columns the statements of \<^verbatim>\<open>CenterDBCtrl\<close> name, after the statements of \<open>InitCenterDB\<close>. The
  server may refuse statements about other tables, but accepts the ones about the table; the table does
  not exist, or has at least the columns of its creation that no later statement adds (a database of an
  earlier version). Then every named column exists, but for four: \<^verbatim>\<open>merge_type\<close> of
  \<^verbatim>\<open>gameserver_merge_log\<close> and the three of the table \<^verbatim>\<open>re_passport_info\<close> exist only where they existed before,
  as no statement creates them. And no column of a table that existed is lost.
\<close>

theorem center_schema_complete:
  assumes "(t, cs) \<in> set center_used" "c \<in> set cs"
    and "\<And>p. p \<in> set center_plan \<Longrightarrow> stmt_table p = t \<Longrightarrow> ok p"
    and "has_base center_plan S t"
  shows "(has_column (center_schema ok S) t c \<longleftrightarrow> (t, c) \<notin> set center_not_created \<or> has_column S t c) \<and>
     (case S t of None \<Rightarrow> True | Some old \<Rightarrow> map_option (take (length old)) (center_schema ok S t) = Some old)"
proof -
  have run: "center_schema ok S t = schema_run center_plan S t"
    unfolding center_schema_def using assms(3) by (intro schema_run_accepted) auto
  have keep: "\<exists>new. center_schema ok S t = Some (old @ new)" if "S t = Some old" for old
    using schema_run_keeps [of S t old center_plan, OF that] run by simp
  have "has_column (center_schema ok S) t c \<longleftrightarrow> (t, c) \<notin> set center_not_created \<or> has_column S t c"
  proof (cases "(t, c) \<in> set center_not_created")
    case True
    have "\<not> (\<exists>p \<in> set center_plan. stmt_table p = t \<and> c \<in> set (stmt_columns p))"
      using not_created_ok [OF True] by (auto simp: unused_ok_def list_all_iff)
    with schema_run_columns [of center_plan S t c] True keep run show ?thesis
      by (auto simp: has_column_def split: option.splits)
  next
    case False
    from used_columns_ok [OF assms(1,2) False] have u: "creates center_plan t" "adds_after_create t center_plan"
      "c \<in> set (created_columns center_plan t) \<union> set (added_columns center_plan t)" by (simp_all add: used_ok_def)
    from run_complete [OF assms(4) u(1,2)] obtain cols where "center_schema ok S t = Some cols"
      "set (base_columns center_plan t) \<union> set (added_columns center_plan t) \<subseteq> set cols" using run by auto
    moreover have "c \<in> set (base_columns center_plan t) \<union> set (added_columns center_plan t)"
      using u(3) by (auto simp: base_columns_def Let_def)
    ultimately show ?thesis using False by (auto simp: has_column_def)
  qed
  moreover have "case S t of None \<Rightarrow> True | Some old \<Rightarrow> map_option (take (length old)) (center_schema ok S t) = Some old"
    using keep by (auto split: option.splits)
  ultimately show ?thesis by blast
qed

theorem center_schema_complete_witness:
  "has_column (center_schema (\<lambda>p. stmt_table p \<noteq> ''gm_cmd'') [''player_info'' \<mapsto> [''role_id'', ''name'', ''gm_auth'', ''status'',
       ''progress'', ''level'', ''gold'', ''diamond'', ''cur_stage'', ''cur_train'', ''vip_level'', ''vip_exp'', ''stamina'', ''energy'',
       ''quest'', ''last_login_time'', ''diamond_pay'']]) ''player_info'' ''create_time''"
proof -
  let ?S = "[''player_info'' \<mapsto> [''role_id'', ''name'', ''gm_auth'', ''status'', ''progress'', ''level'', ''gold'',
       ''diamond'', ''cur_stage'', ''cur_train'', ''vip_level'', ''vip_exp'', ''stamina'', ''energy'', ''quest'',
       ''last_login_time'', ''diamond_pay'']] :: schema"
  have base: "has_base center_plan ?S ''player_info''"
    by (simp add: has_base_def base_columns_def Let_def center_plan_def plan_tables plan_columns)
  have used: "(''player_info'', snd (center_used ! 13)) \<in> set center_used" "''create_time'' \<in> set (snd (center_used ! 13))"
    by (simp_all add: center_used_def)
  from center_schema_complete [of _ _ _ "\<lambda>p. stmt_table p \<noteq> ''gm_cmd''" ?S, OF used _ base] show ?thesis
    by (simp add: center_not_created_def)
qed

text \<open>The statements can be sent again: a second start on a server that accepts them changes nothing.\<close>

lemma schema_run_id: "\<forall>p \<in> set ps. schema_step p S = S \<Longrightarrow> schema_run ps S = S"
  by (induction ps) simp_all

lemma plan_ordered: "p \<in> set center_plan \<Longrightarrow> creates center_plan (stmt_table p) \<and> adds_after_create (stmt_table p) center_plan"
proof -
  have "list_all (\<lambda>p. creates center_plan (stmt_table p) \<and> adds_after_create (stmt_table p) center_plan) center_plan"
    by (simp add: center_plan_def plan_tables)
  then show "p \<in> set center_plan \<Longrightarrow> ?thesis" by (simp add: list_all_iff)
qed

lemma added_in: "AddColumn t c False \<in> set ps \<Longrightarrow> c_name c \<in> set (added_columns ps t)"
  by (induction ps) auto

lemma center_schema_all: "center_schema (\<lambda>p. True) = schema_run center_plan"
  by (simp add: center_schema_def)

lemma center_schema_again: "center_schema (\<lambda>p. True) (center_schema (\<lambda>p. True) S) = center_schema (\<lambda>p. True) S"
proof -
  let ?cs = "schema_run center_plan"
  have "schema_step p (?cs S) = ?cs S" if p: "p \<in> set center_plan" for p
  proof -
    let ?t = "stmt_table p"
    have o: "creates center_plan ?t" "adds_after_create ?t center_plan" using plan_ordered [OF p] by simp_all
    have "\<exists>cols. ?cs S ?t = Some cols \<and> set (added_columns center_plan ?t) \<subseteq> set cols"
    proof (cases "S ?t")
      case None
      from run_creates [of S ?t center_plan, OF None o] show ?thesis by auto
    next
      case (Some cs)
      from schema_run_keeps [of S ?t cs center_plan, OF Some] run_adds [of S ?t cs _ center_plan, OF Some]
      show ?thesis by fastforce
    qed
    then obtain cols where c: "?cs S ?t = Some cols" "set (added_columns center_plan ?t) \<subseteq> set cols" by blast
    show ?thesis
    proof (cases p)
      case (CreateTable t cs keys start)
      with c show ?thesis by simp
    next
      case (AddColumn t col comma)
      with c p added_in [of t col center_plan] show ?thesis by (cases comma) auto
    qed
  qed
  then show ?thesis unfolding center_schema_all by (intro schema_run_id) blast
qed

text \<open>
  The comma after the column makes the statement for \<^verbatim>\<open>remark\<close> of \<^verbatim>\<open>login_strategy_backup\<close> an error: a
  table of an earlier version never gets the column. And two columns the code reads are nowhere
  created.
\<close>

lemma remark_never_added: "''remark'' \<notin> set (added_columns center_plan ''login_strategy_backup'')"
  by (simp add: center_plan_def plan_tables plan_columns)

lemma merge_type_missing:
  "center_schema (\<lambda>p. True) Map.empty ''gameserver_merge_log'' =
     Some [''auto_id'', ''server_id_origin'', ''server_id_merged'', ''merge_time'']"
  by (simp add: center_schema_def center_plan_def plan_stmt_defs)

text \<open>A server that refuses the default of a \<^verbatim>\<open>TEXT\<close> column leaves the commands without a table.\<close>

lemma gm_cmd_refused: "center_schema (\<lambda>p. stmt_table p \<noteq> ''gm_cmd'') Map.empty ''gm_cmd'' = None"
proof -
  have "schema_run (filter (\<lambda>p. stmt_table p \<noteq> t) ps) S t = S t" for ps t S
    by (induction ps arbitrary: S) (simp_all add: schema_step_other)
  then show ?thesis by (simp add: center_schema_def)
qed

section \<open>The statements through the client\<close>

text \<open>
  A server whose tables and columns are \<open>view\<close> and which accepts the statements in \<open>ok\<close>: it does what
  these say, nothing for the others, and answers the question whether a column exists.
\<close>

definition schema_server :: "(schema_stmt \<Rightarrow> bool) \<Rightarrow> 'c mysql_api \<Rightarrow> string \<Rightarrow> ('c \<Rightarrow> schema) \<Rightarrow> bool" where
  "schema_server ok api db view \<longleftrightarrow>
     (\<forall>p \<in> set center_plan. \<forall>c. view (snd (my_query api (sql_text (stmt_sql p) []) c)) = (if ok p then schema_step p (view c) else view c)) \<and>
     (\<forall>t col c r c'. my_query api (sql_text ''select * from information_schema.columns where table_schema=%q and table_name=%q and column_name=%q''
          [QS db, QS t, QS col]) c = (r, c') \<longrightarrow>
        view c' = view c \<and> ((\<exists>types row rows. r = My_Rows types (row # rows)) \<longleftrightarrow> (\<exists>cs. view c t = Some cs \<and> col \<in> set cs)))"

definition connected :: "('c, 'z) center_db_scheme \<Rightarrow> string \<Rightarrow> 'c \<Rightarrow> bool" where
  "connected s db c \<longleftrightarrow> (\<exists>d. cd_db s = Some d \<and> dm_strDbName d = db \<and> dm_mysql d = Some c)"

lemma ExistsColumn_server:
  assumes "schema_server ok api db view" "connected s db c"
  shows "\<exists>s' c'. ExistsColumn api t col s = Some (\<exists>cs. view c t = Some cs \<and> col \<in> set cs, s') \<and> connected s' db c' \<and> view c' = view c"
proof -
  obtain d where d: "cd_db s = Some d" "dm_strDbName d = db" "dm_mysql d = Some c"
    using assms(2) by (auto simp: connected_def)
  let ?q = "sql_text ''select * from information_schema.columns where table_schema=%q and table_name=%q and column_name=%q''
          [QS db, QS t, QS col]"
  obtain r c' where q: "my_query api ?q c = (r, c')" by fastforce
  with assms(1) have v: "view c' = view c"
    "(\<exists>types row rows. r = My_Rows types (row # rows)) \<longleftrightarrow> (\<exists>cs. view c t = Some cs \<and> col \<in> set cs)"
    by (auto simp: schema_server_def)
  note defs = ExistsColumn_def cd_exists_def cd_PQuery_def dm_PQuery_def dm_Query_def connected_def
  show ?thesis
  proof (cases r)
    case (My_Rows types rows)
    then show ?thesis using d q v by (cases rows) (auto simp: defs)
  qed (use d q v in \<open>auto simp: defs\<close>)
qed

lemma PExecute_server:
  assumes "schema_server ok api db view" "connected s db c" "p \<in> set center_plan"
  shows "\<exists>r s' c'. cd_PExecute api (stmt_sql p) [] s = Some (r, s') \<and> connected s' db c' \<and>
     view c' = (if ok p then schema_step p (view c) else view c)"
proof -
  obtain d where d: "cd_db s = Some d" "dm_strDbName d = db" "dm_mysql d = Some c"
    using assms(2) by (auto simp: connected_def)
  obtain r c' where q: "my_query api (sql_text (stmt_sql p) []) c = (r, c')" by fastforce
  with assms(1,3) have "view c' = (if ok p then schema_step p (view c) else view c)" unfolding schema_server_def by (metis snd_conv)
  with d q show ?thesis
    by (auto simp: cd_PExecute_def dm_PExecute_def dm_DirectExecute_def connected_def)
qed

lemma init_center_tables:
  assumes "schema_server ok api db view" "connected s db c"
  shows "\<exists>s' c'. cd_init_tables api center_ddl s = Some s' \<and> connected s' db c' \<and> view c' = center_schema ok (view c)"
proof -
  have "\<exists>s' c'. cd_init_tables api (map (\<lambda>p. (stmt_cond p, stmt_sql p)) ps) s = Some s' \<and> connected s' db c' \<and>
      view c' = schema_run (filter ok ps) (view c)" if "set ps \<subseteq> set center_plan" "connected s db c" for ps s c
    using that
  proof (induction ps arbitrary: s c)
    case (Cons p ps)
    then have p: "p \<in> set center_plan" by simp
    from Cons.prems(1) have "set ps \<subseteq> set center_plan" by simp
    note IH = Cons.IH [OF this]
    have run: "schema_run (filter ok (p # ps)) S = schema_run (filter ok ps) (if ok p then schema_step p S else S)" for S
      by simp
    show ?case
    proof (cases p)
      case (CreateTable t cols keys start)
      obtain r s1 c1 where 1: "cd_PExecute api (stmt_sql p) [] s = Some (r, s1)" "connected s1 db c1"
        "view c1 = (if ok p then schema_step p (view c) else view c)" using PExecute_server [OF assms(1) Cons.prems(2) p] by blast
      with IH [OF 1(2)] CreateTable show ?thesis unfolding run by (auto simp del: stmt_sql.simps schema_step.simps)
    next
      case (AddColumn t col comma)
      let ?e = "\<exists>cs. view c t = Some cs \<and> c_name col \<in> set cs"
      obtain s1 c1 where 1: "ExistsColumn api t (c_name col) s = Some (?e, s1)" "connected s1 db c1" "view c1 = view c"
        using ExistsColumn_server [OF assms(1) Cons.prems(2)] by blast
      show ?thesis
      proof (cases ?e)
        case True
        then have "schema_step p (view c) = view c" using AddColumn by auto
        with IH [OF 1(2)] 1 AddColumn True show ?thesis
          unfolding run by (auto simp del: stmt_sql.simps schema_step.simps)
      next
        case False
        obtain r s2 c2 where 2: "cd_PExecute api (stmt_sql p) [] s1 = Some (r, s2)" "connected s2 db c2"
          "view c2 = (if ok p then schema_step p (view c1) else view c1)" using PExecute_server [OF assms(1) 1(2) p] by blast
        with IH [OF 2(2)] 1 AddColumn False show ?thesis
          unfolding run by (auto simp del: stmt_sql.simps schema_step.simps)
      qed
    qed
  next
    case (Nil s c)
    then show ?case by auto
  qed
  from this [OF subset_refl assms(2)] show ?thesis unfolding center_ddl_def center_schema_def .
qed

end
