(* ===== verification/World_Loop.thy ===== *)
theory World_Loop
  imports Sessions
begin

text \<open>
  The world thread, \<^verbatim>\<open>CWorldRunnable::run\<close> (pitayaserver/framework/WorldRunnable.cpp): settings, the loop
  that updates the sessions about every 100 ms until \<^verbatim>\<open>g_stopEvent\<close>, and the end.

  Every pass of the loop reads the clocks; the readings of a run are a list of inputs, one for each
  pass. Times are \<^typ>\<open>int\<close>, milliseconds of the monotonic clock far below the limits of \<^verbatim>\<open>time_t\<close>.
\<close>

section \<open>The loop\<close>

definition WORLD_SLEEP_CONST :: int where "WORLD_SLEEP_CONST = 100"

record world_input =
  wi_ms :: int
  wi_now :: int
  wi_is_today :: "uint32 \<Rightarrow> bool"

text \<open>\<open>0xFFFFFFFFFFFFFFFF - (prev - curr)\<close> is unsigned and comes back as the negative \<open>time_t\<close>.\<close>

definition world_diff :: "int \<Rightarrow> int \<Rightarrow> int" where
  "world_diff realPrevTime realCurrTime =
     (if realPrevTime > realCurrTime then - 1 - (realPrevTime - realCurrTime) else realCurrTime - realPrevTime)"

text \<open>The new \<open>prevSleepTime\<close>, which is what the thread sleeps.\<close>

definition world_sleep :: "int \<Rightarrow> int \<Rightarrow> int" where
  "world_sleep diff prevSleepTime =
     (if diff \<le> WORLD_SLEEP_CONST + prevSleepTime then WORLD_SLEEP_CONST + prevSleepTime - diff else 0)"

fun world_loop :: "'h handler_ops \<Rightarrow> 'r relay_ops \<Rightarrow> world_input list \<Rightarrow> int \<Rightarrow> int \<Rightarrow> ('h, 'r) sess_ctrl \<Rightarrow>
    ('h, 'r) sess_ctrl \<times> int list" where
  "world_loop ops rops [] realPrevTime prevSleepTime sc = (sc, [])"
| "world_loop ops rops (w # ins) realPrevTime prevSleepTime sc =
     (let diff = world_diff realPrevTime (wi_ms w);
          sc = sc_Update ops rops (wi_is_today w) (wi_now w) diff sc;
          prevSleepTime = world_sleep diff prevSleepTime;
          (sc, sleeps) = world_loop ops rops ins (wi_ms w) prevSleepTime sc
      in (sc, prevSleepTime # sleeps))"

text \<open>
  The thread: \<open>start\<close> is the clock before the settings. The result says whether the loop ran, which
  is also whether \<^verbatim>\<open>g_stopEvent2\<close> is set at the end.
\<close>

definition world_run :: "'h handler_ops \<Rightarrow> 'r relay_ops \<Rightarrow> int \<Rightarrow> uint32 \<Rightarrow> bool \<Rightarrow> world_input list \<Rightarrow>
    ('h, 'r) sess_ctrl \<Rightarrow> bool \<times> ('h, 'r) sess_ctrl \<times> int list" where
  "world_run ops rops start now handler_ok ins sc =
     (let (ok, sc) = sc_InitSettings now handler_ok sc in
      if \<not> ok then (False, sc, [])
      else let (sc, sleeps) = world_loop ops rops ins start 0 sc in (True, sc_AllOffline ops rops sc, sleeps))"

section \<open>Pace\<close>

lemma length_sleeps [simp]: "length (snd (world_loop ops rops ins p s sc)) = length ins"
  by (induction ins arbitrary: p s sc) (simp_all add: Let_def split_beta)

lemma sleeps_step:
  "Suc k < length ins \<Longrightarrow>
   snd (world_loop ops rops ins p s sc) ! Suc k =
     world_sleep (world_diff (wi_ms (ins ! k)) (wi_ms (ins ! Suc k))) (snd (world_loop ops rops ins p s sc) ! k)"
proof (induction ins arbitrary: p s sc k)
  case (Cons w ins)
  show ?case
  proof (cases k)
    case 0
    with Cons.prems obtain w' r where "ins = w' # r" by (cases ins) auto
    with 0 show ?thesis by (simp add: Let_def split_beta)
  next
    case (Suc j)
    with Cons show ?thesis by (simp add: Let_def split_beta)
  qed
qed simp

text \<open>Each pass sleeps what the previous update left of the 100 ms.\<close>

lemma sleep_compensates:
  assumes "0 \<le> u" "u \<le> 100" "0 \<le> s"
  shows "world_sleep (world_diff t (t + u + s)) s = 100 - u"
  using assms by (simp add: world_sleep_def world_diff_def WORLD_SLEEP_CONST_def)

lemma sleep_nonneg: "0 \<le> world_sleep d s"
  by (simp add: world_sleep_def)

lemma sleeps_nonneg: "s \<in> set (snd (world_loop ops rops ins p s0 sc)) \<Longrightarrow> 0 \<le> s"
  by (induction ins arbitrary: p s0 sc) (auto simp: Let_def split_beta sleep_nonneg)

text \<open>From the second pass on; the first sleep also makes up for the settings.\<close>

lemma world_loop_pace:
  assumes "\<forall>k < n. wi_ms (ins ! Suc k) = wi_ms (ins ! k) + u k + snd (world_loop ops rops ins start 0 sc) ! k"
    and "\<forall>k < n. 0 \<le> u k \<and> u k \<le> 100" and "0 < n" "n < length ins"
  shows "wi_ms (ins ! n) = wi_ms (ins ! 1) + 100 * (int n - 1) + u (n - 1) - u 0"
  using assms
proof (induction n)
  case (Suc n)
  let ?s = "snd (world_loop ops rops ins start 0 sc)"
  show ?case
  proof (cases "n = 0")
    case False
    then obtain m where m: "n = Suc m" by (cases n) auto
    have IH: "wi_ms (ins ! n) = wi_ms (ins ! 1) + 100 * (int n - 1) + u (n - 1) - u 0"
      using Suc False by (intro Suc.IH) simp_all
    have "m < length ?s" using Suc.prems(4) m by simp
    then have "0 \<le> ?s ! m" using sleeps_nonneg nth_mem by blast
    moreover have "wi_ms (ins ! Suc m) = wi_ms (ins ! m) + u m + ?s ! m" "0 \<le> u m" "u m \<le> 100"
      using Suc.prems(1,2) m by auto
    ultimately have "?s ! Suc m = 100 - u m"
      using sleeps_step [of m ins ops rops start 0 sc] Suc.prems(4) m sleep_compensates by simp
    with Suc.prems(1) IH m show ?thesis by simp
  qed simp
qed simp

lemma first_sleep:
  assumes "ins \<noteq> []" "start \<le> wi_ms (ins ! 0)"
  shows "snd (world_loop ops rops ins start 0 sc) ! 0 = 100 - min 100 (wi_ms (ins ! 0) - start)"
  using assms by (cases ins) (simp_all add: Let_def split_beta world_sleep_def world_diff_def WORLD_SLEEP_CONST_def)

text \<open>
  C16: When the update of pass \<open>k\<close> takes \<open>u k\<close> milliseconds, at most 100, a sleep takes what is asked and
  the clock does not run back over the settings, the loop does not drift: pass \<open>n + 1\<close> starts 100 ms
  times \<open>n\<close> after the first pass, plus the time of the last update, less the time the settings took
  before the first pass (100 ms at most), however long the server has been running.
\<close>

theorem world_loop_no_drift:
  assumes "\<forall>k < n. wi_ms (ins ! Suc k) = wi_ms (ins ! k) + u k + snd (world_loop ops rops ins start 0 sc) ! k"
    and "\<forall>k < n. 0 \<le> u k \<and> u k \<le> 100" and "0 < n" "n < length ins" "start \<le> wi_ms (ins ! 0)"
  shows "wi_ms (ins ! n) = wi_ms (ins ! 0) + 100 * int n + u (n - 1) - min 100 (wi_ms (ins ! 0) - start)"
proof -
  have "ins \<noteq> []" using assms(4) by auto
  then have "wi_ms (ins ! 1) = wi_ms (ins ! 0) + u 0 + (100 - min 100 (wi_ms (ins ! 0) - start))"
    using assms(1,3) first_sleep [of ins start ops rops sc] assms(5) by simp
  with world_loop_pace [OF assms(1-4)] show ?thesis by simp
qed

text \<open>The clock readings of a run whose updates take 30, 50 and 20 ms.\<close>

theorem world_loop_no_drift_witness:
  "let ins = map (\<lambda>t. \<lparr>wi_ms = t, wi_now = 0, wi_is_today = (\<lambda>x. True)\<rparr>) [1000, 1120, 1240, 1310];
       u = (\<lambda>k. [30, 50, 20] ! k) in
   wi_ms (ins ! 3) = wi_ms (ins ! 0) + 100 * int 3 + u 2 - min 100 (wi_ms (ins ! 0) - 990)"
proof -
  let ?ins = "map (\<lambda>t. \<lparr>wi_ms = t, wi_now = 0, wi_is_today = (\<lambda>x. True)\<rparr>) [1000, 1120, 1240, 1310] :: world_input list"
  let ?u = "\<lambda>k. [30, 50, 20] ! k :: int"
  let ?ops = "undefined :: nat handler_ops" and ?rops = "undefined :: nat relay_ops" and ?sc = "sc_new :: (nat, nat) sess_ctrl"
  have s: "snd (world_loop ?ops ?rops ?ins 990 0 ?sc) = [90, 70, 50, 80]"
    by (simp add: Let_def split_beta world_sleep_def world_diff_def WORLD_SLEEP_CONST_def)
  have "wi_ms (?ins ! 3) = wi_ms (?ins ! 0) + 100 * int 3 + ?u (3 - 1) - min 100 (wi_ms (?ins ! 0) - 990)"
    by (rule world_loop_no_drift [of 3 ?ins ?u ?ops ?rops 990 ?sc])
      (unfold s, auto simp: numeral_3_eq_3 less_Suc_eq)
  then show ?thesis by (simp add: Let_def)
qed

text \<open>The time the updates are told adds up to the time that has passed.\<close>

fun world_diffs :: "world_input list \<Rightarrow> int \<Rightarrow> int list" where
  "world_diffs [] p = []"
| "world_diffs (w # ins) p = world_diff p (wi_ms w) # world_diffs ins (wi_ms w)"

lemma world_time_accounted:
  "sorted (start # map wi_ms ins) \<Longrightarrow> ins \<noteq> [] \<Longrightarrow> sum_list (world_diffs ins start) = wi_ms (last ins) - start"
proof (induction ins arbitrary: start)
  case (Cons w ins)
  then show ?case by (cases ins) (auto simp: world_diff_def)
qed simp

end
