(* ===== verification/Ini_Search.thy ===== *)
theory Ini_Search
  imports Prelude
begin

text \<open>
  The configuration reader kept in the repository, part one: the settings (dep/src/miniini/globals.cpp), the
  sorted arrays and their search (dep/include/miniini/util.h) and the reading of integers
  (dep/include/miniini/parse.h).

  A pointer into text that ends with a zero byte is the rest of the text from there, without the
  zero; the end of the list reads as the zero byte.
\<close>

section \<open>Settings\<close>

record ini_globals =
  ig_comment :: char
  ig_namevalsep :: char

definition ini_globals_init :: ini_globals where
  "ini_globals_init = \<lparr>ig_comment = CHR '';'', ig_namevalsep = CHR ''=''\<rparr>"

definition ini_blank :: "char \<Rightarrow> bool" where
  "ini_blank c \<longleftrightarrow> c = CHR '' '' \<or> c = CHR 0x09"

definition ini_newline :: "char \<Rightarrow> bool" where
  "ini_newline c \<longleftrightarrow> c = CHR 0x0A \<or> c = CHR 0x0D"

definition ini_reserved :: "char \<Rightarrow> bool" where
  "ini_reserved c \<longleftrightarrow> ini_blank c \<or> ini_newline c \<or> c = CHR ''['' \<or> c = CHR '']'' \<or> c = CHR 0x00"

definition INISetComment :: "char \<Rightarrow> ini_globals \<Rightarrow> bool \<times> ini_globals" where
  "INISetComment commentchar g =
     (if ini_reserved commentchar \<or> commentchar = ig_namevalsep g then (False, g)
      else (True, g\<lparr>ig_comment := commentchar\<rparr>))"

definition INISetSeparator :: "char \<Rightarrow> ini_globals \<Rightarrow> bool \<times> ini_globals" where
  "INISetSeparator sep g =
     (if ini_reserved sep \<or> sep = ig_comment g then (False, g) else (True, g\<lparr>ig_namevalsep := sep\<rparr>))"

text \<open>What the settings keep: the two characters differ and neither has another meaning.\<close>

definition ini_globals_ok :: "ini_globals \<Rightarrow> bool" where
  "ini_globals_ok g \<longleftrightarrow>
     \<not> ini_reserved (ig_comment g) \<and> \<not> ini_reserved (ig_namevalsep g) \<and> ig_comment g \<noteq> ig_namevalsep g"

lemma ini_globals_ok_init: "ini_globals_ok ini_globals_init"
  by (simp add: ini_globals_ok_def ini_globals_init_def ini_reserved_def ini_blank_def ini_newline_def)

lemma ini_globals_ok_set:
  assumes "ini_globals_ok g"
  shows "ini_globals_ok (snd (INISetComment c g))" "ini_globals_ok (snd (INISetSeparator c g))"
  using assms by (auto simp: ini_globals_ok_def INISetComment_def INISetSeparator_def)

section \<open>Comparison of names\<close>

text \<open>\<^verbatim>\<open>char\<close> is signed. The loop over both texts ends at the first difference or at the end of the first.\<close>

definition schar :: "char \<Rightarrow> int" where
  "schar c = (let n = of_char c :: nat in if n < 128 then int n else int n - 256)"

fun name_diff :: "string \<Rightarrow> string \<Rightarrow> char \<times> char" where
  "name_diff [] [] = (CHR 0x00, CHR 0x00)"
| "name_diff [] (b # bs) = (CHR 0x00, b)"
| "name_diff (a # as) [] = (a, CHR 0x00)"
| "name_diff (a # as) (b # bs) = (if a \<noteq> CHR 0x00 \<and> a = b then name_diff as bs else (a, b))"

definition name_greater :: "string \<Rightarrow> string \<Rightarrow> bool" where
  "name_greater s t = (let (c1, c2) = name_diff s t in schar c1 > schar c2)"

definition name_less :: "string \<Rightarrow> string \<Rightarrow> bool" where
  "name_less s t = (let (c1, c2) = name_diff s t in schar c1 < schar c2)"

text \<open>The order this is: lexicographic on the signed characters with the final zero.\<close>

definition name_key :: "string \<Rightarrow> int list" where
  "name_key s = map schar (c_str s) @ [0]"

lemma of_char_inject [simp]: "(of_char a :: nat) = of_char b \<longleftrightarrow> a = b"
  using inj_of_char by (metis char_of_char)

lemma schar_inject [simp]: "schar a = schar b \<longleftrightarrow> a = b"
proof
  assume "schar a = schar b"
  moreover have "int (of_char a) < 256" "int (of_char b) < 256"
    using of_char_less_256 [of a] of_char_less_256 [of b] by linarith+
  ultimately have "(of_char a :: nat) = of_char b"
    by (simp add: schar_def Let_def split: if_splits; linarith)
  then show "a = b" by simp
qed simp

lemma schar_0 [simp]: "schar (CHR 0x00) = 0"
  by (simp add: schar_def)

lemma schar_eq_0 [simp]: "schar c = 0 \<longleftrightarrow> c = CHR 0x00"
  using schar_inject [of c "CHR 0x00"] by simp

lemma schar_sym: "0 = schar c \<longleftrightarrow> c = CHR 0x00"
  using schar_eq_0 [of c] by auto

lemma name_key_simps [simp]:
  "name_key [] = [0]"
  "name_key (c # s) = (if c = CHR 0x00 then [0] else schar c # name_key s)"
  by (simp_all add: name_key_def c_str_def)

lemma name_key_not_Nil [simp]: "name_key s \<noteq> []"
  by (simp add: name_key_def)

lemma name_diff_key:
  "name_less s t \<longleftrightarrow> ord_class.lexordp (name_key s) (name_key t)"
  "name_greater s t \<longleftrightarrow> ord_class.lexordp (name_key t) (name_key s)"
proof -
  have "name_less s t = ord_class.lexordp (name_key s) (name_key t) \<and>
      name_greater s t = ord_class.lexordp (name_key t) (name_key s)"
    by (induction s t rule: name_diff.induct) (auto simp: name_less_def name_greater_def Let_def not_less order_le_less schar_sym split: if_splits)
  then show "name_less s t \<longleftrightarrow> ord_class.lexordp (name_key s) (name_key t)"
    "name_greater s t \<longleftrightarrow> ord_class.lexordp (name_key t) (name_key s)" by simp_all
qed

lemma map_schar_inject: "map schar s = map schar t \<longleftrightarrow> s = t"
  by (rule inj_map_eq_map) (simp add: inj_def)

lemma name_key_eq: "name_key s = name_key t \<longleftrightarrow> c_str s = c_str t"
  by (simp add: name_key_def map_schar_inject)

section \<open>Sorted arrays\<close>

text \<open>
  \<open>Insert\<close> and \<open>BinarySearch\<close> are templates over elements whose name \<open>nm\<close> gives. \<open>Insert\<close> puts the new
  element before the ones of the same name.
\<close>

function insert_pos :: "('a \<Rightarrow> string) \<Rightarrow> 'a list \<Rightarrow> 'a \<Rightarrow> nat \<Rightarrow> nat \<Rightarrow> nat" where
  "insert_pos nm arr el lo hi =
     (if lo < hi then
        let mid = (hi + lo) div 2 in
        if name_greater (nm el) (nm (arr ! mid)) then insert_pos nm arr el (mid + 1) hi
        else insert_pos nm arr el lo mid
      else lo)"
  by auto
termination by (relation "measure (\<lambda>(nm, arr, el, lo, hi). hi - lo)") auto

declare insert_pos.simps [simp del]

definition Insert :: "('a \<Rightarrow> string) \<Rightarrow> 'a list \<Rightarrow> 'a \<Rightarrow> 'a list" where
  "Insert nm arr el = (let lo = insert_pos nm arr el 0 (length arr) in take lo arr @ el # drop lo arr)"

function binary_search :: "('a \<Rightarrow> string) \<Rightarrow> 'a list \<Rightarrow> string \<Rightarrow> int \<Rightarrow> int \<Rightarrow> int" where
  "binary_search nm arr name lo hi =
     (if lo \<le> hi then
        let mid = (hi + lo) div 2 in
        if name_greater name (nm (arr ! nat mid)) then binary_search nm arr name (mid + 1) hi
        else if name_less name (nm (arr ! nat mid)) then binary_search nm arr name lo (mid - 1)
        else mid
      else - 1)"
  by auto
termination by (relation "measure (\<lambda>(nm, arr, name, lo, hi). nat (hi - lo + 1))") auto

declare binary_search.simps [simp del]

definition BinarySearch :: "('a \<Rightarrow> string) \<Rightarrow> 'a list \<Rightarrow> string \<Rightarrow> int" where
  "BinarySearch nm arr name = binary_search nm arr name 0 (int (length arr) - 1)"

definition name_sorted :: "('a \<Rightarrow> string) \<Rightarrow> 'a list \<Rightarrow> bool" where
  "name_sorted nm arr \<longleftrightarrow> (\<forall>i j. i < j \<longrightarrow> j < length arr \<longrightarrow> \<not> name_greater (nm (arr ! i)) (nm (arr ! j)))"

lemma name_greater_trans: "name_greater r s \<Longrightarrow> name_greater s t \<Longrightarrow> name_greater r t"
  unfolding name_diff_key by (rule lexordp_trans)

lemma name_greater_irrefl [simp]: "\<not> name_greater s s"
  unfolding name_diff_key by (rule lexordp_irreflexive')

lemma name_greater_total: "name_greater s t \<or> c_str s = c_str t \<or> name_greater t s"
  unfolding name_diff_key name_key_eq [symmetric] using lexordp_linear by blast

lemma name_less_greater: "name_less s t \<longleftrightarrow> name_greater t s"
  by (simp add: name_diff_key)

lemma not_greater_trans: "\<not> name_greater r s \<Longrightarrow> \<not> name_greater s t \<Longrightarrow> \<not> name_greater r t"
  by (metis name_diff_key(2) name_greater_total name_greater_trans name_key_eq)

lemma insert_pos_step:
  "lo < hi \<Longrightarrow> name_greater (nm el) (nm (arr ! ((hi + lo) div 2))) \<Longrightarrow>
    insert_pos nm arr el lo hi = insert_pos nm arr el ((hi + lo) div 2 + 1) hi"
  "lo < hi \<Longrightarrow> \<not> name_greater (nm el) (nm (arr ! ((hi + lo) div 2))) \<Longrightarrow>
    insert_pos nm arr el lo hi = insert_pos nm arr el lo ((hi + lo) div 2)"
  "\<not> lo < hi \<Longrightarrow> insert_pos nm arr el lo hi = lo"
  by (subst insert_pos.simps, simp add: Let_def)+

lemma insert_pos_bounds: "lo \<le> hi \<Longrightarrow> lo \<le> insert_pos nm arr el lo hi \<and> insert_pos nm arr el lo hi \<le> hi"
proof (induction nm arr el lo hi rule: insert_pos.induct)
  case (1 nm arr el lo hi)
  let ?mid = "(hi + lo) div 2"
  show ?case
  proof (cases "lo < hi")
    case True
    then have mid: "lo \<le> ?mid" "?mid + 1 \<le> hi" "?mid \<le> hi" by auto
    show ?thesis
    proof (cases "name_greater (nm el) (nm (arr ! ?mid))")
      case g: True
      from "1.IH"(1) [OF True refl g mid(2)] mid show ?thesis unfolding insert_pos_step(1) [OF True g] by linarith
    next
      case g: False
      from "1.IH"(2) [OF True refl g mid(1)] mid show ?thesis unfolding insert_pos_step(2) [OF True g] by linarith
    qed
  next
    case False
    with "1.prems" show ?thesis unfolding insert_pos_step(3) [OF False] by linarith
  qed
qed

text \<open>Everything before the position is smaller than the new element, nothing from there on is.\<close>

definition split_at :: "('a \<Rightarrow> string) \<Rightarrow> 'a list \<Rightarrow> string \<Rightarrow> nat \<Rightarrow> nat \<Rightarrow> bool" where
  "split_at nm arr x lo hi \<longleftrightarrow>
     (\<forall>i < lo. name_greater x (nm (arr ! i))) \<and> (\<forall>i. hi \<le> i \<longrightarrow> i < length arr \<longrightarrow> \<not> name_greater x (nm (arr ! i)))"

lemma split_at_up:
  assumes "name_sorted nm arr" "split_at nm arr x lo hi" "mid < length arr" "name_greater x (nm (arr ! mid))"
  shows "split_at nm arr x (mid + 1) hi"
  unfolding split_at_def
proof (intro conjI allI impI)
  fix i assume "i < mid + 1"
  then consider "i = mid" | "i < mid" by linarith
  then show "name_greater x (nm (arr ! i))"
  proof cases
    case 2
    with assms(1,3) have "\<not> name_greater (nm (arr ! i)) (nm (arr ! mid))" by (simp add: name_sorted_def)
    with assms(4) not_greater_trans show ?thesis by blast
  qed (use assms(4) in simp)
qed (use assms(2) in \<open>simp add: split_at_def\<close>)

lemma split_at_down:
  assumes "name_sorted nm arr" "split_at nm arr x lo hi" "\<not> name_greater x (nm (arr ! mid))"
  shows "split_at nm arr x lo mid"
  unfolding split_at_def
proof (intro conjI allI impI)
  fix i assume i: "mid \<le> i" "i < length arr"
  then consider "i = mid" | "mid < i" by linarith
  then show "\<not> name_greater x (nm (arr ! i))"
  proof cases
    case 2
    with assms(1) i have "\<not> name_greater (nm (arr ! mid)) (nm (arr ! i))" by (simp add: name_sorted_def)
    with assms(3) not_greater_trans show ?thesis by blast
  qed (use assms(3) in simp)
qed (use assms(2) in \<open>simp add: split_at_def\<close>)

lemma insert_pos_sorted:
  assumes "name_sorted nm arr" "lo \<le> hi" "hi \<le> length arr" "split_at nm arr (nm el) lo hi"
  shows "split_at nm arr (nm el) (insert_pos nm arr el lo hi) (insert_pos nm arr el lo hi)"
  using assms
proof (induction nm arr el lo hi rule: insert_pos.induct)
  case (1 nm arr el lo hi)
  let ?mid = "(hi + lo) div 2"
  note p = "1.prems"
  show ?case
  proof (cases "lo < hi")
    case True
    then have mid: "lo \<le> ?mid" "?mid + 1 \<le> hi" "?mid \<le> hi" by auto
    with p(3) have m: "?mid < length arr" "?mid \<le> length arr" by linarith+
    show ?thesis
    proof (cases "name_greater (nm el) (nm (arr ! ?mid))")
      case g: True
      show ?thesis unfolding insert_pos_step(1) [OF True g]
        by (rule "1.IH"(1) [OF True refl g p(1) mid(2) p(3) split_at_up [OF p(1,4) m(1) g]])
    next
      case g: False
      show ?thesis unfolding insert_pos_step(2) [OF True g]
        by (rule "1.IH"(2) [OF True refl g p(1) mid(1) m(2) split_at_down [OF p(1,4) g]])
    qed
  next
    case False
    with p(2) have "lo = hi" by simp
    with p(4) show ?thesis unfolding insert_pos_step(3) [OF False] by simp
  qed
qed

text \<open>The array stays sorted, and holds the element once more.\<close>

lemma split_at_start: "split_at nm arr x 0 (length arr)"
  by (simp add: split_at_def)

lemma not_greater_sym: "name_greater s t \<Longrightarrow> \<not> name_greater t s"
  using name_greater_trans name_greater_irrefl by blast

lemma Insert_sorted:
  assumes "name_sorted nm arr"
  shows "name_sorted nm (Insert nm arr el)"
proof -
  define p where "p = insert_pos nm arr el 0 (length arr)"
  have p: "p \<le> length arr" using insert_pos_bounds [of 0 "length arr" nm arr el] by (simp add: p_def)
  have s: "split_at nm arr (nm el) p p"
    unfolding p_def by (rule insert_pos_sorted [OF assms _ _ split_at_start]) simp_all
  have nth: "(take p arr @ el # drop p arr) ! i = (if i < p then arr ! i else if i = p then el else arr ! (i - 1))"
    if "i < Suc (length arr)" for i
    using p that by (auto simp: nth_append nth_Cons' min_absorb2)
  show ?thesis
    unfolding Insert_def Let_def p_def [symmetric] name_sorted_def
  proof (intro allI impI)
    fix i j assume ij: "i < j" "j < length (take p arr @ el # drop p arr)"
    then have j: "j < Suc (length arr)" using p by simp
    with ij have i: "i < Suc (length arr)" by simp
    consider "j < p" | "j = p" | "i < p" "p < j" | "i = p" "p < j" | "p < i" using ij(1) by linarith
    then show "\<not> name_greater (nm ((take p arr @ el # drop p arr) ! i)) (nm ((take p arr @ el # drop p arr) ! j))"
    proof cases
      case 1
      with assms ij p show ?thesis by (simp add: nth [OF i] nth [OF j] name_sorted_def)
    next
      case 2
      with s ij have "name_greater (nm el) (nm (arr ! i))" by (simp add: split_at_def)
      with 2 ij p show ?thesis by (simp add: nth [OF i] nth [of p] not_greater_sym)
    next
      case 3
      with ij j have "i < j - 1 \<or> i = j - 1" "j - 1 < length arr" by linarith+
      with assms have "\<not> name_greater (nm (arr ! i)) (nm (arr ! (j - 1)))" by (auto simp: name_sorted_def)
      with 3 show ?thesis by (simp add: nth [OF i] nth [OF j])
    next
      case 4
      with s j have "\<not> name_greater (nm el) (nm (arr ! (j - 1)))" by (simp add: split_at_def)
      with 4 p show ?thesis by (simp add: nth [of p] nth [OF j])
    next
      case 5
      with ij j have "i - 1 < j - 1" "j - 1 < length arr" by linarith+
      with assms have "\<not> name_greater (nm (arr ! (i - 1))) (nm (arr ! (j - 1)))" by (simp add: name_sorted_def)
      with 5 ij show ?thesis by (simp add: nth [OF i] nth [OF j])
    qed
  qed
qed

lemma set_Insert [simp]: "set (Insert nm arr el) = insert el (set arr)"
proof -
  have "set (take p arr) \<union> set (drop p arr) = set arr" for p
    by (metis append_take_drop_id set_append)
  then show ?thesis by (auto simp: Insert_def Let_def)
qed

lemma length_Insert [simp]: "length (Insert nm arr el) = Suc (length arr)"
  using insert_pos_bounds [of 0 "length arr" nm arr el] by (simp add: Insert_def Let_def min_absorb2)

lemma name_sorted_Nil [simp]: "name_sorted nm []"
  by (simp add: name_sorted_def)

section \<open>Search\<close>

lemma binary_search_step:
  "lo \<le> hi \<Longrightarrow> name_greater x (nm (arr ! nat ((hi + lo) div 2))) \<Longrightarrow>
    binary_search nm arr x lo hi = binary_search nm arr x ((hi + lo) div 2 + 1) hi"
  "lo \<le> hi \<Longrightarrow> name_less x (nm (arr ! nat ((hi + lo) div 2))) \<Longrightarrow>
    binary_search nm arr x lo hi = binary_search nm arr x lo ((hi + lo) div 2 - 1)"
  "lo \<le> hi \<Longrightarrow> \<not> name_greater x (nm (arr ! nat ((hi + lo) div 2))) \<Longrightarrow> \<not> name_less x (nm (arr ! nat ((hi + lo) div 2))) \<Longrightarrow>
    binary_search nm arr x lo hi = (hi + lo) div 2"
  "\<not> lo \<le> hi \<Longrightarrow> binary_search nm arr x lo hi = - 1"
  by (subst binary_search.simps, simp add: Let_def name_less_greater not_greater_sym)+

lemma binary_search_sound:
  assumes "0 \<le> lo" "hi < int (length arr)"
  shows "binary_search nm arr x lo hi = - 1 \<or>
    (0 \<le> binary_search nm arr x lo hi \<and> binary_search nm arr x lo hi < int (length arr) \<and>
     c_str (nm (arr ! nat (binary_search nm arr x lo hi))) = c_str x)"
  using assms
proof (induction nm arr x lo hi rule: binary_search.induct)
  case (1 nm arr x lo hi)
  let ?mid = "(hi + lo) div 2"
  note p = "1.prems"
  show ?case
  proof (cases "lo \<le> hi")
    case True
    then have mid: "0 \<le> ?mid + 1" "?mid - 1 < int (length arr)" "0 \<le> ?mid" "?mid < int (length arr)" using p by linarith+
    consider (g) "name_greater x (nm (arr ! nat ?mid))" | (l) "\<not> name_greater x (nm (arr ! nat ?mid))" "name_less x (nm (arr ! nat ?mid))"
      | (e) "\<not> name_greater x (nm (arr ! nat ?mid))" "\<not> name_less x (nm (arr ! nat ?mid))" by blast
    then show ?thesis
    proof cases
      case g
      show ?thesis unfolding binary_search_step(1) [where nm = nm and arr = arr and x = x, OF True g] by (rule "1.IH"(1) [OF True refl g mid(1) p(2)])
    next
      case l
      show ?thesis unfolding binary_search_step(2) [where nm = nm and arr = arr and x = x, OF True l(2)] by (rule "1.IH"(2) [OF True refl l p(1) mid(2)])
    next
      case e
      then have "c_str (nm (arr ! nat ?mid)) = c_str x" using name_greater_total [of x "nm (arr ! nat ?mid)"] by (auto simp: name_less_greater)
      then show ?thesis unfolding binary_search_step(3) [where nm = nm and arr = arr and x = x, OF True e] using mid by simp
    qed
  next
    case False
    show ?thesis unfolding binary_search_step(4) [where nm = nm and arr = arr and x = x, OF False] by simp
  qed
qed

text \<open>A name between the bounds is found.\<close>

lemma binary_search_complete:
  assumes "name_sorted nm arr" "0 \<le> lo" "hi < int (length arr)" "lo \<le> int k" "int k \<le> hi" "c_str (nm (arr ! k)) = c_str x"
  shows "0 \<le> binary_search nm arr x lo hi"
  using assms
proof (induction nm arr x lo hi rule: binary_search.induct)
  case (1 nm arr x lo hi)
  let ?mid = "(hi + lo) div 2"
  note p = "1.prems"
  have True: "lo \<le> hi" using p by linarith
  then have mid: "0 \<le> ?mid" "?mid < int (length arr)" "0 \<le> ?mid + 1" "?mid - 1 < int (length arr)" using p by linarith+
  have k: "k < length arr" using p by linarith
  have gx: "name_greater x t = name_greater (nm (arr ! k)) t" "name_greater t x = name_greater t (nm (arr ! k))" for t
    using p(6) by (simp_all add: name_diff_key name_key_eq [symmetric])
  have sorted: "\<not> name_greater (nm (arr ! i)) (nm (arr ! j))" if "i \<le> j" "j < length arr" for i j
    using p(1) that by (cases "i = j") (simp_all add: name_sorted_def)
  consider (g) "name_greater x (nm (arr ! nat ?mid))" | (l) "\<not> name_greater x (nm (arr ! nat ?mid))" "name_less x (nm (arr ! nat ?mid))"
    | (e) "\<not> name_greater x (nm (arr ! nat ?mid))" "\<not> name_less x (nm (arr ! nat ?mid))" by blast
  then show ?case
  proof cases
    case g
    have "\<not> k \<le> nat ?mid"
    proof
      assume "k \<le> nat ?mid"
      then have "\<not> name_greater (nm (arr ! k)) (nm (arr ! nat ?mid))" using sorted [of k "nat ?mid"] mid by linarith
      with g gx show False by blast
    qed
    then have "?mid + 1 \<le> int k" using mid by linarith
    then show ?thesis unfolding binary_search_step(1) [where nm = nm and arr = arr and x = x, OF True g]
      by (intro "1.IH"(1) [OF True refl g p(1) mid(3) p(3) _ p(5,6)])
  next
    case l
    have "\<not> nat ?mid \<le> k"
    proof
      assume "nat ?mid \<le> k"
      then have "\<not> name_greater (nm (arr ! nat ?mid)) (nm (arr ! k))" using sorted [of "nat ?mid" k] k by linarith
      with l(2) gx show False by (simp add: name_less_greater)
    qed
    then have "int k \<le> ?mid - 1" using mid by linarith
    then show ?thesis unfolding binary_search_step(2) [where nm = nm and arr = arr and x = x, OF True l(2)]
      by (intro "1.IH"(2) [OF True refl l p(1,2) mid(4) p(4) _ p(6)])
  next
    case e
    show ?thesis unfolding binary_search_step(3) [where nm = nm and arr = arr and x = x, OF True e] using mid by simp
  qed
qed

text \<open>The search of a sorted array: an element of the name, when there is one.\<close>

lemma BinarySearch_found:
  assumes "0 \<le> BinarySearch nm arr x"
  shows "nat (BinarySearch nm arr x) < length arr" "c_str (nm (arr ! nat (BinarySearch nm arr x))) = c_str x"
  using binary_search_sound [of 0 "int (length arr) - 1" arr nm x] assms by (auto simp: BinarySearch_def)

lemma BinarySearch_finds:
  assumes "name_sorted nm arr"
  shows "0 \<le> BinarySearch nm arr x \<longleftrightarrow> (\<exists>el \<in> set arr. c_str (nm el) = c_str x)"
proof
  assume "0 \<le> BinarySearch nm arr x"
  then show "\<exists>el \<in> set arr. c_str (nm el) = c_str x" using BinarySearch_found [of nm arr x] nth_mem by blast
next
  assume "\<exists>el \<in> set arr. c_str (nm el) = c_str x"
  then obtain k where "k < length arr" "c_str (nm (arr ! k)) = c_str x" by (auto simp: in_set_conv_nth)
  then show "0 \<le> BinarySearch nm arr x"
    unfolding BinarySearch_def by (intro binary_search_complete [OF assms, of 0 _ k]) simp_all
qed

end
