(* ===== verification/Ini_Number.thy ===== *)
theory Ini_Number
  imports Ini_Search
begin

text \<open>
  The configuration reader, part two: integers and truth values (dep/include/miniini/parse.h,
  dep/include/miniini/inisectionutil.h), without the warnings of the debug build.
\<close>

section \<open>ParseInt\<close>

datatype conv_status = CONV_OK | CONV_WAR_OVERFLOW | CONV_ERR_TYPE

text \<open>The sign, the digits without leading zeros, of which at most ten are kept, and their sum.\<close>

definition parse_sign :: "string \<Rightarrow> int \<times> string" where
  "parse_sign s =
     (case s of [] \<Rightarrow> (1, s)
      | c # r \<Rightarrow> if c = CHR ''-'' then (- 1, r) else if c = CHR ''+'' then (1, r) else (1, s))"

fun read_digits :: "nat \<Rightarrow> string \<Rightarrow> int list \<times> string" where
  "read_digits 0 s = ([], s)"
| "read_digits (Suc n) [] = ([], [])"
| "read_digits (Suc n) (c # s) =
     (if is_digit c then let (ds, r) = read_digits n s in ((int (of_char c) - 48) # ds, r) else ([], c # s))"

definition digit_sum :: "int list \<Rightarrow> int" where
  "digit_sum ds = fold (\<lambda>d temp. temp + ds ! d * 10 ^ (length ds - d - 1)) [0..<length ds] 0"

definition INT_MAX :: int where "INT_MAX = 2147483647"
definition INT_MIN :: int where "INT_MIN = - 2147483648"

definition ParseInt :: "string \<Rightarrow> conv_status \<times> int option" where
  "ParseInt s =
     (let (sign, s) = parse_sign s;
          zero = (s \<noteq> [] \<and> hd s = CHR ''0'');
          s = dropWhile (\<lambda>c. c = CHR ''0'') s;
          (digits, s) = read_digits 10 s
      in if length digits = 10 \<and> s \<noteq> [] \<and> is_digit (hd s)
         then (CONV_WAR_OVERFLOW, Some (if sign = 1 then INT_MAX else INT_MIN))
         else if digits = [] then (if zero then (CONV_OK, Some 0) else (CONV_ERR_TYPE, None))
         else
           let temp = digit_sum digits * sign in
           if temp > INT_MAX then (CONV_WAR_OVERFLOW, Some INT_MAX)
           else if temp < INT_MIN then (CONV_WAR_OVERFLOW, Some INT_MIN)
           else (CONV_OK, Some temp))"

text \<open>The first character of a text decides its truth value.\<close>

definition parse_bool :: "string \<Rightarrow> bool option" where
  "parse_bool s =
     (case s of [] \<Rightarrow> None
      | c # _ \<Rightarrow>
          if c \<in> {CHR ''t'', CHR ''T'', CHR ''y'', CHR ''Y'', CHR ''1''} then Some True
          else if c \<in> {CHR ''f'', CHR ''F'', CHR ''n'', CHR ''N'', CHR ''0''} then Some False
          else None)"

text \<open>Lists are read up to the first text that is not of the type.\<close>

fun ParseInts :: "string list \<Rightarrow> int list" where
  "ParseInts [] = []"
| "ParseInts (s # ss) = (case snd (ParseInt s) of None \<Rightarrow> [] | Some v \<Rightarrow> v # ParseInts ss)"

fun ParseBools :: "string list \<Rightarrow> bool list" where
  "ParseBools [] = []"
| "ParseBools (s # ss) = (case parse_bool s of None \<Rightarrow> [] | Some v \<Rightarrow> v # ParseBools ss)"

section \<open>What is parsed\<close>

lemma read_digits_takeWhile:
  "read_digits n s = (map (\<lambda>c. int (of_char c) - 48) (take n (takeWhile is_digit s)), drop (length (take n (takeWhile is_digit s))) s)"
  by (induction n s rule: read_digits.induct) (auto simp: Let_def)

lemma dec_val_simps [simp]: "dec_val [] = 0" "dec_val (s @ [c]) = 10 * dec_val s + (of_char c - 48)"
  by (simp_all add: dec_val_def)

lemma dec_val_Cons: "dec_val (c # s) = (of_char c - 48) * 10 ^ length s + dec_val s"
  by (induction s rule: rev_induct) (simp_all add: dec_val_def algebra_simps flip: append_Cons)

lemma dec_val_zeros: "dec_val (dropWhile (\<lambda>c. c = CHR ''0'') s) = dec_val s"
  by (induction s) (simp_all add: dec_val_Cons)

lemma dec_val_bound: "\<forall>c \<in> set s. is_digit c \<Longrightarrow> dec_val s < 10 ^ length s"
proof (induction s rule: rev_induct)
  case (snoc c s)
  then have "(of_char c :: nat) - 48 \<le> 9" "dec_val s + 1 \<le> 10 ^ length s" by (auto simp: is_digit_def Suc_le_eq)
  then show ?case by simp
qed simp

lemma digit_sum_alt: "digit_sum ds = (\<Sum>i < length ds. ds ! i * 10 ^ (length ds - i - 1))"
proof -
  have "fold (\<lambda>i t. t + f i) xs a = a + sum_list (map f xs)" for f and xs :: "nat list" and a :: int
    by (induction xs arbitrary: a) simp_all
  then show ?thesis
    unfolding digit_sum_def by (simp add: interv_sum_list_conv_sum_set_nat lessThan_atLeast0)
qed

lemma digit_sum_Cons: "digit_sum (d # ds) = d * 10 ^ length ds + digit_sum ds"
  unfolding digit_sum_alt by (simp add: sum.lessThan_Suc_shift del: sum.lessThan_Suc)

lemma digit_sum_dec_val:
  "\<forall>c \<in> set s. is_digit c \<Longrightarrow> digit_sum (map (\<lambda>c. int (of_char c) - 48) s) = int (dec_val s)"
proof (induction s)
  case (Cons c s)
  then have "48 \<le> (of_char c :: nat)" by (simp add: is_digit_def)
  with Cons show ?case by (simp add: digit_sum_Cons dec_val_Cons of_nat_diff)
qed (simp add: digit_sum_def)

definition clamp :: "int \<Rightarrow> int" where
  "clamp v = (if v > INT_MAX then INT_MAX else if v < INT_MIN then INT_MIN else v)"

definition all_digits :: "string \<Rightarrow> bool" where
  "all_digits s \<longleftrightarrow> (\<forall>c \<in> set s. is_digit c)"

text \<open>The eleventh digit is seen when there are more than ten.\<close>

lemma eleventh_digit:
  assumes "all_digits ds" "w = [] \<or> \<not> is_digit (hd w)"
  shows "(length (take 10 ds) = 10 \<and> drop (length (take 10 ds)) (ds @ w) \<noteq> [] \<and> is_digit (hd (drop (length (take 10 ds)) (ds @ w))))
    \<longleftrightarrow> 10 < length ds"
proof (cases "10 < length ds")
  case True
  then have "drop 10 ds \<noteq> []" by simp
  then have "is_digit (hd (drop 10 ds))" using assms(1) unfolding all_digits_def by (meson hd_in_set in_set_dropD)
  with True show ?thesis by simp
next
  case False
  then have "drop (length (take 10 ds)) (ds @ w) = w" "length (take 10 ds) = length ds" by simp_all
  with assms(2) False show ?thesis by auto
qed

lemma long_number:
  assumes "all_digits ds" "10 < length ds" "hd ds \<noteq> CHR ''0''"
  shows "INT_MAX + 1 < int (dec_val ds)"
proof -
  obtain c t where ct: "ds = c # t" using assms(2) by (cases ds) auto
  from assms(1) ct have "is_digit c" by (simp add: all_digits_def)
  moreover have "(of_char c :: nat) \<noteq> of_char CHR ''0''" unfolding of_char_inject using assms(3) ct by simp
  ultimately have "1 \<le> (of_char c :: nat) - 48" by (simp add: is_digit_def, arith)
  then have "1 * 10 ^ length t \<le> ((of_char c :: nat) - 48) * 10 ^ length t" by (rule mult_le_mono1)
  moreover have "(10 :: nat) ^ 10 \<le> 10 ^ length t" using assms(2) ct by (intro power_increasing) simp_all
  ultimately have "10 ^ 10 \<le> dec_val ds" unfolding ct dec_val_Cons by linarith
  then have "int (10 ^ 10) \<le> int (dec_val ds)" by (simp only: of_nat_le_iff)
  then show ?thesis by (simp add: INT_MAX_def)
qed

text \<open>
  The digits after an optional sign, as many as there are, give the number; out of range it is the
  nearest number of the type and a warning. Without a digit it is an error. What follows the digits
  is not looked at.
\<close>

lemma ParseInt_spec:
  "ParseInt s =
     (let (sign, r) = parse_sign s; ds = takeWhile is_digit r; v = sign * int (dec_val ds) in
      if ds = [] then (CONV_ERR_TYPE, None) else (if clamp v = v then CONV_OK else CONV_WAR_OVERFLOW, Some (clamp v)))"
proof -
  obtain sign r where sr: "parse_sign s = (sign, r)" by fastforce
  then have sign: "sign = 1 \<or> sign = - 1" by (auto simp: parse_sign_def split: list.splits if_splits)
  define z where "z = dropWhile (\<lambda>c. c = CHR ''0'') r"
  define ds where "ds = takeWhile is_digit z"
  define w where "w = dropWhile is_digit z"
  have zd: "is_digit CHR ''0''" by (simp add: is_digit_def)
  have tz: "dropWhile (\<lambda>c. c = CHR ''0'') (takeWhile is_digit r) = ds"
    unfolding ds_def z_def using zd by (induction r) auto
  have val: "dec_val (takeWhile is_digit r) = dec_val ds" using dec_val_zeros [of "takeWhile is_digit r"] tz by simp
  have dig: "all_digits ds" by (auto simp: ds_def all_digits_def dest: set_takeWhileD)
  have zw: "z = ds @ w" by (simp add: ds_def w_def)
  have w: "w = [] \<or> \<not> is_digit (hd w)" unfolding w_def by (metis hd_dropWhile)
  have rd: "read_digits 10 z = (map (\<lambda>c. int (of_char c) - 48) (take 10 ds), drop (length (take 10 ds)) (ds @ w))"
    unfolding read_digits_takeWhile ds_def [symmetric] by (simp only: zw)
  have empty: "takeWhile is_digit r = [] \<longleftrightarrow> ds = [] \<and> \<not> (r \<noteq> [] \<and> hd r = CHR ''0'')"
    using tz zd by (cases r) (auto split: if_splits)
  have P: "ParseInt s =
     (if 10 < length ds then (CONV_WAR_OVERFLOW, Some (if sign = 1 then INT_MAX else INT_MIN))
      else if ds = [] then (if r \<noteq> [] \<and> hd r = CHR ''0'' then (CONV_OK, Some 0) else (CONV_ERR_TYPE, None))
      else let temp = digit_sum (map (\<lambda>c. int (of_char c) - 48) (take 10 ds)) * sign in
           if temp > INT_MAX then (CONV_WAR_OVERFLOW, Some INT_MAX)
           else if temp < INT_MIN then (CONV_WAR_OVERFLOW, Some INT_MIN)
           else (CONV_OK, Some temp))"
    unfolding ParseInt_def Let_def sr prod.case z_def [symmetric] rd
    using eleventh_digit [OF dig w] by simp
  consider "10 < length ds" | "ds = []" | "ds \<noteq> []" "length ds \<le> 10" by fastforce
  then show ?thesis
  proof cases
    case 1
    have "hd (dropWhile (\<lambda>c. c = CHR ''0'') xs) \<noteq> CHR ''0''" if "dropWhile (\<lambda>c. c = CHR ''0'') xs \<noteq> []" for xs
      using hd_dropWhile [OF that] .
    from this [of "takeWhile is_digit r"] 1 have "hd ds \<noteq> CHR ''0''" unfolding tz by fastforce
    from long_number [OF dig 1 this] sign 1 empty show ?thesis
      unfolding P by (auto simp: sr Let_def val clamp_def INT_MAX_def INT_MIN_def)
  next
    case 2
    then have "dec_val ds = 0" by simp
    with 2 empty show ?thesis unfolding P by (auto simp: sr Let_def val clamp_def INT_MAX_def INT_MIN_def)
  next
    case 3
    then have "digit_sum (map (\<lambda>c. int (of_char c) - 48) (take 10 ds)) = int (dec_val ds)"
      using digit_sum_dec_val [of ds] dig by (simp add: all_digits_def)
    with 3 empty show ?thesis
      unfolding P by (auto simp: sr Let_def val clamp_def INT_MAX_def INT_MIN_def mult.commute)
  qed
qed

text \<open>The decimal text of a number in range is read as the number.\<close>

lemma ParseInt_dec_str: "int n \<le> INT_MAX \<Longrightarrow> ParseInt (dec_str n) = (CONV_OK, Some (int n))"
proof -
  assume n: "int n \<le> INT_MAX"
  obtain c r where cr: "dec_str n = c # r" by (cases "dec_str n") simp_all
  then have "is_digit c" using dec_str_digits [of n] by simp
  then have "c \<noteq> CHR ''-''" "c \<noteq> CHR ''+''" by (auto simp: is_digit_def)
  then have "parse_sign (dec_str n) = (1, dec_str n)" by (simp add: parse_sign_def cr)
  moreover have "takeWhile is_digit (dec_str n) = dec_str n" using dec_str_digits [of n] by (simp only: takeWhile_eq_all_conv)
  ultimately show ?thesis using n by (simp add: ParseInt_spec Let_def clamp_def INT_MIN_def del: takeWhile_eq_all_conv)
qed

end
