(* ===== verification/Ini_File.thy ===== *)
theory Ini_File
  imports Ini_Number
begin

text \<open>
  The configuration reader, part three: lines, sections and files (dep/include/miniini/inisectionutil.h,
  inifileutil.h, inisection.h, inifile.h, dep/src/miniini/inisection.cpp, inifile.cpp).

  The temporary buffers \<open>tagbuf\<close> and \<open>headername\<close> are kept with their capacity, and a write past it is
  \<^const>\<open>None\<close>, as is a failed assertion. The array \<open>temptags\<close>, the array of sections and the blocks the
  texts are copied to grow as needed (\<open>Ini_Memory\<close> has the blocks). Log lines are left out.
\<close>

section \<open>Lines\<close>

definition NextLine :: "string \<Rightarrow> string" where
  "NextLine s = dropWhile ini_newline (dropWhile (\<lambda>c. \<not> ini_newline c) s)"

datatype line_token = LT_NAME | LT_VAL | LT_HEADER

text \<open>A buffer is its capacity and what was written to it.\<close>

type_synonym char_buf = "nat \<times> string"

definition buf_grow :: "nat \<Rightarrow> char_buf \<Rightarrow> char_buf" where
  "buf_grow n b = (if fst b < length (snd b) + n then (fst b * 2, snd b) else b)"

definition buf_write :: "char \<Rightarrow> char_buf \<Rightarrow> char_buf option" where
  "buf_write c b = (if length (snd b) < fst b then Some (fst b, snd b @ [c]) else None)"

text \<open>\<open>TagName\<close>: the loop is unrolled four times and looks at the capacity before every fourth character.\<close>

fun TagName :: "ini_globals \<Rightarrow> nat \<Rightarrow> string \<Rightarrow> char_buf \<Rightarrow> (line_token \<times> string \<times> char_buf) option" where
  "TagName g k [] b = Some (LT_NAME, [], if k mod 4 = 0 then buf_grow 7 b else b)"
| "TagName g k (ch # s) b =
     (let b = (if k mod 4 = 0 then buf_grow 7 b else b) in
      if ini_blank ch then TagName g (Suc k) s b
      else if ini_newline ch then Some (LT_NAME, NextLine (ch # s), b)
      else if ch = CHR ''['' then Some (LT_HEADER, ch # s, b)
      else if ch = ig_namevalsep g then
        (if snd b \<noteq> [] then do { b \<leftarrow> buf_write (CHR 0x00) b; Some (LT_VAL, s, b) }
         else Some (LT_NAME, NextLine (ch # s), b))
      else if ch = ig_comment g then Some (LT_NAME, NextLine (ch # s), b)
      else do { b \<leftarrow> buf_write ch b; TagName g (Suc k) s b })"

text \<open>\<open>TagValue\<close>: a comma ends one value and begins the next.\<close>

fun TagValue :: "ini_globals \<Rightarrow> string \<Rightarrow> char_buf \<Rightarrow> (string \<times> char_buf) option" where
  "TagValue g [] b = Some ([], b)"
| "TagValue g (ch # s) b =
     (if ini_blank ch then TagValue g s b
      else if ini_newline ch then Some (NextLine (ch # s), b)
      else if ch = CHR '','' then do { b \<leftarrow> buf_write (CHR 0x00) (buf_grow 3 b); TagValue g s b }
      else if ch = ig_comment g then Some (NextLine (ch # s), b)
      else do { b \<leftarrow> buf_write ch (buf_grow 3 b); TagValue g s b })"

text \<open>
  \<open>INISection::Header\<close> looks for the closing bracket from the opening one on. The number of characters
  it then compares with zero counts the opening bracket, so an empty header counts as one.
\<close>

fun header_close :: "ini_globals \<Rightarrow> string \<Rightarrow> string option" where
  "header_close g [] = Some []"
| "header_close g (ch # s) =
     (if ini_newline ch then Some (NextLine (ch # s))
      else if ch = CHR '']'' then None
      else if ch = ig_comment g then Some (NextLine (ch # s))
      else header_close g s)"

definition section_Header :: "ini_globals \<Rightarrow> string \<Rightarrow> bool \<times> string" where
  "section_Header g s = (case header_close g (drop 1 s) of None \<Rightarrow> (True, s) | Some r \<Rightarrow> (False, r))"

text \<open>\<open>INIFile::Header\<close>: what is before the opening bracket is passed over; the result is the name, or nothing.\<close>

fun find_open :: "ini_globals \<Rightarrow> string \<Rightarrow> string + string" where
  "find_open g [] = Inl []"
| "find_open g (ch # s) =
     (if ini_blank ch then find_open g s
      else if ini_newline ch then Inl (NextLine (ch # s))
      else if ch = CHR ''['' then Inr s
      else if ch = ig_comment g then Inl (NextLine (ch # s))
      else find_open g s)"

fun read_header :: "ini_globals \<Rightarrow> string \<Rightarrow> char_buf \<Rightarrow> (string \<times> string \<times> nat) option" where
  "read_header g [] b = Some ([], [], fst b)"
| "read_header g (ch # s) b =
     (if ini_blank ch then read_header g s b
      else if ini_newline ch then Some ([], NextLine (ch # s), fst b)
      else if ch = CHR '']'' then do { _ \<leftarrow> buf_write (CHR 0x00) b; Some (snd b, NextLine (ch # s), fst b) }
      else if ch = ig_comment g then Some ([], NextLine (ch # s), fst b)
      else do { b \<leftarrow> buf_write ch (buf_grow 2 b); read_header g s b })"

definition file_Header :: "ini_globals \<Rightarrow> string \<Rightarrow> nat \<Rightarrow> (string \<times> string \<times> nat) option" where
  "file_Header g s headercap =
     (case find_open g s of Inl r \<Rightarrow> Some ([], r, headercap) | Inr r \<Rightarrow> read_header g r (headercap, []))"

section \<open>Progress\<close>

lemma length_dropWhile_less: "s \<noteq> [] \<Longrightarrow> P (hd s) \<Longrightarrow> length (dropWhile P s) < length s"
  by (cases s) (simp_all add: less_Suc_eq_le length_dropWhile_le)

lemma NextLine_shorter: "length (NextLine (c # s)) < length (c # s)"
proof (cases "ini_newline c")
  case True
  then have "NextLine (c # s) = dropWhile ini_newline s" by (simp add: NextLine_def)
  then show ?thesis by (simp add: less_Suc_eq_le length_dropWhile_le)
next
  case False
  then have "NextLine (c # s) = NextLine s" by (simp add: NextLine_def)
  moreover have "length (NextLine s) \<le> length s"
    unfolding NextLine_def by (meson length_dropWhile_le le_trans)
  ultimately show ?thesis by simp
qed

lemmas NextLine_le = NextLine_shorter [THEN less_imp_le, simplified]

lemma TagName_shorter:
  "TagName g k s b = Some (t, r, b') \<Longrightarrow>
    length r \<le> length s \<and> (s \<noteq> [] \<longrightarrow> t \<noteq> LT_HEADER \<longrightarrow> length r < length s) \<and> (t = LT_HEADER \<longrightarrow> r \<noteq> [])"
proof (induction s arbitrary: k b)
  case (Cons ch s)
  show ?case
    using Cons.prems NextLine_shorter [of ch s]
    by (auto simp: Let_def less_Suc_eq_le split: if_splits elim!: bind_SomeE dest!: Cons.IH)
qed simp

lemma TagValue_shorter: "TagValue g s b = Some (r, b') \<Longrightarrow> length r \<le> length s"
proof (induction s arbitrary: b)
  case (Cons ch s)
  show ?case
    using Cons.prems NextLine_shorter [of ch s]
    by (auto split: if_splits elim!: bind_SomeE dest!: Cons.IH)
qed simp

lemma header_close_shorter: "header_close g s = Some r \<Longrightarrow> length r \<le> length s"
proof (induction s)
  case (Cons ch s)
  then show ?case using NextLine_shorter [of ch s] by (auto split: if_splits)
qed simp

lemma section_Header_shorter:
  "section_Header g s = (found, r) \<Longrightarrow> s \<noteq> [] \<Longrightarrow> (if found then r = s else length r < length s)"
  by (cases s) (auto simp: section_Header_def less_Suc_eq_le split: option.splits dest!: header_close_shorter)

lemma find_open_shorter:
  "s \<noteq> [] \<Longrightarrow> case find_open g s of Inl r \<Rightarrow> length r < length s | Inr r \<Rightarrow> length r < length s"
proof (induction s)
  case (Cons ch s)
  then show ?case using NextLine_shorter [of ch s] by (cases "s = []") (auto split: sum.splits)
qed simp

lemma read_header_shorter: "read_header g s b = Some (h, r, cap) \<Longrightarrow> length r \<le> length s"
proof (induction s arbitrary: b)
  case (Cons ch s)
  show ?case
    using Cons.prems NextLine_shorter [of ch s]
    by (auto split: if_splits elim!: bind_SomeE dest!: Cons.IH)
qed simp

lemma file_Header_shorter: "file_Header g s c = Some (h, r, c') \<Longrightarrow> s \<noteq> [] \<Longrightarrow> length r < length s"
  using find_open_shorter [of s g]
  by (auto simp: file_Header_def split: sum.splits dest!: read_header_shorter)

section \<open>Sections\<close>

text \<open>
  A tag is its name and its values in one buffer, each followed by a zero byte and the last by two.
  \<open>section_line\<close> is one pass of the loop of \<open>Init\<close>: the tag of the line, if it is one, whether the section
  ends there, the rest of the text and the capacity of the buffer.
\<close>

definition section_line :: "ini_globals \<Rightarrow> string \<Rightarrow> nat \<Rightarrow> (string option \<times> bool \<times> string \<times> nat) option" where
  "section_line g s cap =
     do { (token, s, b) \<leftarrow> TagName g 0 s (cap, []);
          case token of
            LT_VAL \<Rightarrow>
              do { (s, b') \<leftarrow> TagValue g s b;
                   if length (snd b) = length (snd b') then Some (None, False, s, fst b')
                   else do { b' \<leftarrow> buf_write (CHR 0x00) b';
                             b' \<leftarrow> buf_write (CHR 0x00) b';
                             Some (Some (snd b'), False, s, fst b') } }
          | LT_HEADER \<Rightarrow> (let (found, s) = section_Header g s in Some (None, found, s, fst b))
          | LT_NAME \<Rightarrow> Some (None, False, s, fst b) }"

lemma section_line_shorter:
  assumes "section_line g s cap = Some (tag, stop, r, cap')"
  shows "length r \<le> length s" "s \<noteq> [] \<Longrightarrow> \<not> stop \<Longrightarrow> length r < length s"
proof -
  obtain token s1 b where T: "TagName g 0 s (cap, []) = Some (token, s1, b)"
    using assms by (auto simp: section_line_def elim!: bind_SomeE)
  note le = TagName_shorter [OF T]
  have "length r \<le> length s \<and> (s \<noteq> [] \<longrightarrow> \<not> stop \<longrightarrow> length r < length s)"
  proof (cases token)
    case LT_NAME
    with assms T le show ?thesis by (simp add: section_line_def)
  next
    case LT_HEADER
    with assms T have "section_Header g s1 = (stop, r)" by (auto simp: section_line_def split: prod.splits)
    from section_Header_shorter [OF this] LT_HEADER le show ?thesis by (auto split: if_splits)
  next
    case LT_VAL
    then obtain b' where "TagValue g s1 b = Some (r, b')"
      using assms T by (auto simp: section_line_def split: if_splits elim!: bind_SomeE)
    from TagValue_shorter [OF this] LT_VAL le show ?thesis by auto
  qed
  then show "length r \<le> length s" "s \<noteq> [] \<Longrightarrow> \<not> stop \<Longrightarrow> length r < length s" by auto
qed

function section_load :: "ini_globals \<Rightarrow> string \<Rightarrow> nat \<Rightarrow> string list \<Rightarrow> (string \<times> nat \<times> string list) option" where
  "section_load g s cap tags =
     (if s = [] then Some ([], cap, tags)
      else case section_line g s cap of
        None \<Rightarrow> None
      | Some (tag, stop, s', cap') \<Rightarrow>
          if stop then Some (s', cap', tags)
          else section_load g s' cap' (case tag of None \<Rightarrow> tags | Some t \<Rightarrow> Insert (\<lambda>t. t) tags t))"
  by auto
termination by (relation "measure (\<lambda>(g, s, cap, tags). length s)") (auto dest: section_line_shorter)

declare section_load.simps [simp del]

record ini_section_data =
  is_Name :: string
  is_Tags :: "string list"
  is_Iter :: int

definition section_Init :: "ini_globals \<Rightarrow> string \<Rightarrow> string \<Rightarrow> nat \<Rightarrow> (ini_section_data \<times> string \<times> nat) option" where
  "section_Init g sectionname s cap =
     (if sectionname = [] then None
      else do { (s, cap, tags) \<leftarrow> section_load g s cap [];
                Some (\<lparr>is_Name = sectionname, is_Tags = tags, is_Iter = - 1\<rparr>, s, cap) })"

lemma section_load_shorter: "section_load g s cap tags = Some (r, cap', tags') \<Longrightarrow> length r \<le> length s"
proof (induction g s cap tags rule: section_load.induct)
  case (1 g s cap tags)
  note p = "1.prems" [unfolded section_load.simps [of g s cap tags]]
  show ?case
  proof (cases "s = []")
    case False
    with p obtain tag stop s' c where L: "section_line g s cap = Some (tag, stop, s', c)"
      by (auto split: option.splits)
    show ?thesis
    proof (cases stop)
      case True
      with p L False section_line_shorter(1) [OF L] show ?thesis by simp
    next
      case stop: False
      with p L False have "section_load g s' c (case tag of None \<Rightarrow> tags | Some t \<Rightarrow> Insert (\<lambda>t. t) tags t) = Some (r, cap', tags')"
        by simp
      from "1.IH" [OF False L refl refl refl stop this] section_line_shorter(1) [OF L] show ?thesis by simp
    qed
  qed (use p in simp)
qed

section \<open>Files\<close>

record ini_file_data =
  if_Sections :: "ini_section_data list"
  if_Iter :: int

definition INIFile_new :: ini_file_data where
  "INIFile_new = \<lparr>if_Sections = [], if_Iter = - 1\<rparr>"

definition if_IsValid :: "ini_file_data \<Rightarrow> bool" where
  "if_IsValid F \<longleftrightarrow> if_Sections F \<noteq> []"

function load_sections :: "ini_globals \<Rightarrow> string \<Rightarrow> nat \<Rightarrow> nat \<Rightarrow> ini_section_data list \<Rightarrow> ini_section_data list option" where
  "load_sections g s headercap tagcap secs =
     (if s = [] then Some secs
      else case file_Header g s headercap of
        None \<Rightarrow> None
      | Some (headername, s', headercap') \<Rightarrow>
          if headername = [] then load_sections g s' headercap' tagcap secs
          else (case section_Init g headername s' tagcap of
                  None \<Rightarrow> None
                | Some (newsection, s'', tagcap') \<Rightarrow>
                    load_sections g s'' headercap' tagcap' (Insert is_Name secs newsection)))"
  by auto
termination
  by (relation "measure (\<lambda>(g, s, h, t, secs). length s)")
    (auto simp: section_Init_def split: if_splits elim!: bind_SomeE
      dest!: file_Header_shorter section_load_shorter)

declare load_sections.simps [simp del]

text \<open>\<open>LoadBuffer\<close> reads up to the first zero byte; it always reports success.\<close>

definition LoadBuffer :: "ini_globals \<Rightarrow> string \<Rightarrow> ini_file_data \<Rightarrow> ini_file_data option" where
  "LoadBuffer g buf F =
     (if if_IsValid F then None
      else do { (newsection, s, tagcap) \<leftarrow> section_Init g ''[DEFAULT]'' (c_str buf) 64;
                secs \<leftarrow> load_sections g s 64 tagcap (Insert is_Name [] newsection);
                Some (F\<lparr>if_Sections := secs\<rparr>) })"

text \<open>
  \<open>OpenFile\<close>: \<^const>\<open>None\<close> is a file that cannot be opened or measured. \<^verbatim>\<open>fread\<close> of one block of size 0 reads no
  block, so an empty file is an error.
\<close>

definition OpenFile :: "ini_globals \<Rightarrow> string option \<Rightarrow> ini_file_data \<Rightarrow> (bool \<times> ini_file_data) option" where
  "OpenFile g file F =
     (if if_IsValid F then None
      else case file of
        None \<Rightarrow> Some (False, F)
      | Some content \<Rightarrow>
          if content = [] then Some (False, F)
          else map_option (\<lambda>F. (True, F)) (LoadBuffer g (content @ [CHR 0x00]) F))"

text \<open>\<open>GetSection\<close>; the empty name is the section of the iteration, which must be in range.\<close>

definition GetSection :: "string \<Rightarrow> ini_file_data \<Rightarrow> ini_section_data option option" where
  "GetSection name F =
     (if c_str name = []
      then (if 0 \<le> if_Iter F \<and> if_Iter F < int (length (if_Sections F)) then Some (Some (if_Sections F ! nat (if_Iter F)))
            else None)
      else let sectionidx = BinarySearch is_Name (if_Sections F) name in
           Some (if sectionidx \<ge> 0 then Some (if_Sections F ! nat sectionidx) else None))"

definition if_Reset :: "ini_file_data \<Rightarrow> ini_file_data" where
  "if_Reset F = F\<lparr>if_Iter := - 1\<rparr>"

definition if_Next :: "ini_file_data \<Rightarrow> bool \<times> ini_file_data" where
  "if_Next F =
     (if if_Iter F < int (length (if_Sections F)) - 1 then (True, F\<lparr>if_Iter := if_Iter F + 1\<rparr>) else (False, F))"

definition is_Reset :: "ini_section_data \<Rightarrow> ini_section_data" where
  "is_Reset S = S\<lparr>is_Iter := - 1\<rparr>"

definition is_Next :: "ini_section_data \<Rightarrow> bool \<times> ini_section_data" where
  "is_Next S =
     (if is_Iter S < int (length (is_Tags S)) - 1 then (True, S\<lparr>is_Iter := is_Iter S + 1\<rparr>) else (False, S))"

definition CurrentTag :: "ini_section_data \<Rightarrow> string option" where
  "CurrentTag S =
     (if 0 \<le> is_Iter S \<and> is_Iter S < int (length (is_Tags S)) then Some (c_str (is_Tags S ! nat (is_Iter S))) else None)"

end
