(* ===== verification/Ini_Read.thy ===== *)
theory Ini_Read
  imports Ini_File
begin

text \<open>
  The configuration reader, part four: the values of a section (dep/src/miniini/inisection.cpp). A call that
  fails an assertion is \<^const>\<open>None\<close>. The versions for \<^verbatim>\<open>std::vector\<close> append to the vector; floating-point
  values are not modelled.
\<close>

section \<open>One value\<close>

text \<open>The tag of a name, or with the empty name the tag of the iteration.\<close>

definition tag_pos :: "string \<Rightarrow> ini_section_data \<Rightarrow> int option" where
  "tag_pos name S =
     (if c_str name = []
      then (if 0 \<le> is_Iter S \<and> is_Iter S < int (length (is_Tags S)) then Some (is_Iter S) else None)
      else Some (BinarySearch (\<lambda>t. t) (is_Tags S) name))"

definition after_zero :: "string \<Rightarrow> string" where
  "after_zero t = drop (length (c_str t) + 1) t"

definition is_ReadString :: "string \<Rightarrow> ini_section_data \<Rightarrow> string option option" where
  "is_ReadString name S =
     do { pos \<leftarrow> tag_pos name S;
          Some (if pos \<ge> 0 then Some (c_str (after_zero (is_Tags S ! nat pos))) else None) }"

definition is_ReadInt :: "string \<Rightarrow> ini_section_data \<Rightarrow> int option option" where
  "is_ReadInt name S =
     do { v \<leftarrow> is_ReadString name S;
          Some (case v of None \<Rightarrow> None | Some valstr \<Rightarrow> snd (ParseInt valstr)) }"

definition is_ReadBool :: "string \<Rightarrow> ini_section_data \<Rightarrow> bool option option" where
  "is_ReadBool name S =
     do { v \<leftarrow> is_ReadString name S;
          Some (case v of None \<Rightarrow> None | Some valstr \<Rightarrow> parse_bool valstr) }"

section \<open>Several values\<close>

lemma after_zero_shorter: "c_str t \<noteq> [] \<Longrightarrow> length (after_zero t) < length t"
  by (cases t) (auto simp: after_zero_def c_str_def)

function value_count :: "string \<Rightarrow> nat" where
  "value_count t = (if c_str t = [] then 0 else 1 + value_count (after_zero t))"
  by auto
termination by (relation "measure length") (auto dest: after_zero_shorter)

function value_list :: "string \<Rightarrow> nat \<Rightarrow> string list" where
  "value_list t cap =
     (if c_str t = [] then [] else if cap = 0 then [] else c_str t # value_list (after_zero t) (cap - 1))"
  by auto
termination by (relation "measure (\<lambda>(t, cap). length t)") (auto dest: after_zero_shorter)

declare value_count.simps [simp del] value_list.simps [simp del]

definition MultiValSize :: "string \<Rightarrow> ini_section_data \<Rightarrow> nat option" where
  "MultiValSize name S =
     do { pos \<leftarrow> tag_pos name S;
          Some (if pos \<ge> 0 then value_count (after_zero (is_Tags S ! nat pos)) else 0) }"

definition ReadMultiString :: "string \<Rightarrow> nat \<Rightarrow> ini_section_data \<Rightarrow> string list option" where
  "ReadMultiString name cap S =
     do { pos \<leftarrow> tag_pos name S;
          Some (if pos \<ge> 0 then value_list (after_zero (is_Tags S ! nat pos)) cap else []) }"

definition ReadMultiInt :: "string \<Rightarrow> nat \<Rightarrow> ini_section_data \<Rightarrow> int list option" where
  "ReadMultiInt name cap S = map_option ParseInts (ReadMultiString name cap S)"

definition ReadMultiBool :: "string \<Rightarrow> nat \<Rightarrow> ini_section_data \<Rightarrow> bool list option" where
  "ReadMultiBool name cap S = map_option ParseBools (ReadMultiString name cap S)"

definition ReadMultiString_vec :: "string \<Rightarrow> string list \<Rightarrow> ini_section_data \<Rightarrow> (nat \<times> string list) option" where
  "ReadMultiString_vec name out S =
     do { numelems \<leftarrow> MultiValSize name S; vs \<leftarrow> ReadMultiString name numelems S; Some (length vs, out @ vs) }"

definition ReadMultiInt_vec :: "string \<Rightarrow> int list \<Rightarrow> ini_section_data \<Rightarrow> (nat \<times> int list) option" where
  "ReadMultiInt_vec name out S =
     do { numelems \<leftarrow> MultiValSize name S; vs \<leftarrow> ReadMultiInt name numelems S; Some (length vs, out @ vs) }"

definition ReadMultiBool_vec :: "string \<Rightarrow> bool list \<Rightarrow> ini_section_data \<Rightarrow> (nat \<times> bool list) option" where
  "ReadMultiBool_vec name out S =
     do { numelems \<leftarrow> MultiValSize name S; vs \<leftarrow> ReadMultiBool name numelems S; Some (length vs, out @ vs) }"

section \<open>Arrays\<close>

text \<open>
  The tags \<open>name1\<close>, \<open>name2\<close> and so on. The number after the name is what \<open>ParseInt\<close> reads there, when it is
  in range. An index that would be below zero is a very large unsigned number, which no count reaches.
\<close>

definition element_index :: "string \<Rightarrow> string \<Rightarrow> int option" where
  "element_index name tag =
     (if take (length name) (c_str tag) = name
      then (case ParseInt (drop (length name) (c_str tag)) of (CONV_OK, Some elemidx) \<Rightarrow> Some elemidx | _ \<Rightarrow> None)
      else None)"

definition count_pass :: "int list \<Rightarrow> nat \<Rightarrow> nat" where
  "count_pass indices elems = fold (\<lambda>i e. if i = int e then e + 1 else e) indices elems"

lemma count_pass_ge: "e \<le> count_pass is e"
  unfolding count_pass_def by (induction "is" arbitrary: e) (auto intro: Suc_leD)

lemma count_pass_mem: "count_pass is e \<noteq> e \<Longrightarrow> int e \<in> set is"
proof (induction "is" arbitrary: e)
  case (Cons a "is")
  then show ?case by (cases "a = int e") (auto simp: count_pass_def)
qed (simp add: count_pass_def)

function count_indices :: "int list \<Rightarrow> nat \<Rightarrow> nat" where
  "count_indices indices elems =
     (if count_pass indices elems = elems then elems else count_indices indices (count_pass indices elems))"
  by auto
termination
proof (relation "measure (\<lambda>(is, e). card {i \<in> set is. int e \<le> i})")
  fix "is" e assume ne: "count_pass is e \<noteq> e"
  with count_pass_ge [of e "is"] have "e < count_pass is e" by simp
  then have "{i \<in> set is. int (count_pass is e) \<le> i} \<subseteq> {i \<in> set is. int e \<le> i}"
    "int e \<notin> {i \<in> set is. int (count_pass is e) \<le> i}" by auto
  moreover have "int e \<in> {i \<in> set is. int e \<le> i}" using count_pass_mem [OF ne] by simp
  ultimately have "{i \<in> set is. int (count_pass is e) \<le> i} \<subset> {i \<in> set is. int e \<le> i}" by blast
  then have "card {i \<in> set is. int (count_pass is e) \<le> i} < card {i \<in> set is. int e \<le> i}"
    by (rule psubset_card_mono [rotated]) simp
  then show "((is, count_pass is e), is, e) \<in> measure (\<lambda>(is, e). card {i \<in> set is. int e \<le> i})" by simp
qed simp

declare count_indices.simps [simp del]

definition ArraySize :: "string \<Rightarrow> ini_section_data \<Rightarrow> nat" where
  "ArraySize name S =
     count_indices (map (\<lambda>i. i - 1) (List.map_filter (element_index (c_str name)) (is_Tags S))) 0"

fun array_fill :: "string \<Rightarrow> nat \<Rightarrow> string list \<Rightarrow> string option list \<Rightarrow> string option list" where
  "array_fill name cap [] out = out"
| "array_fill name cap (tag # tags) out =
     array_fill name cap tags
       (case element_index name tag of
          Some elemidx \<Rightarrow>
            if 0 < elemidx \<and> elemidx \<le> int cap then out[nat elemidx - 1 := Some (c_str (after_zero tag))] else out
        | None \<Rightarrow> out)"

definition is_ReadStrings :: "string \<Rightarrow> nat \<Rightarrow> ini_section_data \<Rightarrow> string list" where
  "is_ReadStrings name cap S =
     map the (takeWhile (\<lambda>v. v \<noteq> None) (array_fill (c_str name) cap (is_Tags S) (replicate cap None)))"

definition is_ReadInts :: "string \<Rightarrow> nat \<Rightarrow> ini_section_data \<Rightarrow> int list" where
  "is_ReadInts name cap S = ParseInts (is_ReadStrings name cap S)"

definition is_ReadBools :: "string \<Rightarrow> nat \<Rightarrow> ini_section_data \<Rightarrow> bool list" where
  "is_ReadBools name cap S = ParseBools (is_ReadStrings name cap S)"

definition ReadStrings_vec :: "string \<Rightarrow> string list \<Rightarrow> ini_section_data \<Rightarrow> nat \<times> string list" where
  "ReadStrings_vec name out S = (let vs = is_ReadStrings name (ArraySize name S) S in (length vs, out @ vs))"

definition ReadInts_vec :: "string \<Rightarrow> int list \<Rightarrow> ini_section_data \<Rightarrow> nat \<times> int list" where
  "ReadInts_vec name out S = (let vs = is_ReadInts name (ArraySize name S) S in (length vs, out @ vs))"

definition ReadBools_vec :: "string \<Rightarrow> bool list \<Rightarrow> ini_section_data \<Rightarrow> nat \<times> bool list" where
  "ReadBools_vec name out S = (let vs = is_ReadBools name (ArraySize name S) S in (length vs, out @ vs))"

lemma value_list_count: "length (value_list t (value_count t)) = value_count t"
  by (induction t rule: value_count.induct) (subst value_count.simps, subst value_list.simps, simp add: value_count.simps)

end
