(* ===== verification/Ini_Round.thy ===== *)
theory Ini_Round
  imports Ini_Read
begin

text \<open>
  What the configuration reader guarantees: it never writes past a buffer, it always ends with a
  loaded file, and the values of a file written section by section are what the look-ups return.
\<close>

section \<open>The buffers are large enough\<close>

definition buf_ok :: "char_buf \<Rightarrow> bool" where
  "buf_ok b \<longleftrightarrow> 7 \<le> fst b \<and> length (snd b) \<le> fst b"

text \<open>Between two looks at the capacity there is room for the characters still to come and one more.\<close>

definition name_room :: "nat \<Rightarrow> char_buf \<Rightarrow> bool" where
  "name_room k b \<longleftrightarrow> buf_ok b \<and> (k mod 4 \<noteq> 0 \<longrightarrow> length (snd b) + 7 \<le> fst b + k mod 4)"

lemma name_room_start: "7 \<le> cap \<Longrightarrow> name_room 0 (cap, [])"
  by (simp add: name_room_def buf_ok_def)

lemma name_room_grow:
  assumes "name_room k b" "b' = (if k mod 4 = 0 then buf_grow 7 b else b)"
  shows "length (snd b) + 7 \<le> fst b' + k mod 4" "snd b' = snd b" "buf_ok b'"
  using assms by (auto simp: name_room_def buf_ok_def buf_grow_def)

lemma name_room_write:
  assumes "length (snd b) + 7 \<le> fst b + k mod 4"
  shows "\<exists>b'. buf_write c b = Some b' \<and> snd b' = snd b @ [c] \<and> fst b' = fst b \<and> length (snd b') + 6 \<le> fst b' + k mod 4"
proof -
  have "k mod 4 < 4" by simp
  with assms have "length (snd b) < fst b" by linarith
  with assms show ?thesis by (auto simp: buf_write_def)
qed

lemma name_room_Suc:
  assumes "length (snd b) + 6 \<le> fst b + k mod 4" "7 \<le> fst b"
  shows "name_room (Suc k) b"
proof -
  have "k mod 4 < 4" by simp
  then show ?thesis using assms by (auto simp: name_room_def buf_ok_def mod_Suc)
qed

lemma name_room_skip: "length (snd b) + 7 \<le> fst b + k mod 4 \<Longrightarrow> 7 \<le> fst b \<Longrightarrow> name_room (Suc k) b"
  by (rule name_room_Suc) simp_all

lemma TagName_ok: "name_room k b \<Longrightarrow> \<exists>t r b'. TagName g k s b = Some (t, r, b') \<and> buf_ok b'"
proof (induction s arbitrary: k b)
  case Nil
  then show ?case by (auto simp: name_room_def buf_ok_def buf_grow_def)
next
  case (Cons ch s)
  define b1 where "b1 = (if k mod 4 = 0 then buf_grow 7 b else b)"
  note b1 = name_room_grow [OF Cons.prems b1_def]
  have room: "length (snd b1) + 7 \<le> fst b1 + k mod 4" using b1 by simp
  have cap: "7 \<le> fst b1" using b1(3) by (simp add: buf_ok_def)
  obtain b2 where b2: "buf_write ch b1 = Some b2" "name_room (Suc k) b2"
    using name_room_write [OF room, of ch] name_room_Suc [of _ k] cap by metis
  obtain b3 where b3: "buf_write (CHR 0x00) b1 = Some b3" "buf_ok b3"
    using name_room_write [OF room, of "CHR 0x00"] name_room_Suc [of _ k] cap unfolding name_room_def by metis
  from Cons.IH [OF b2(2)] Cons.IH [OF name_room_skip [OF room cap]] b2(1) b3 b1(3) show ?case
    by (auto simp: Let_def simp del: split_paired_Ex simp flip: b1_def)
qed

lemma value_write:
  assumes "buf_ok b"
  obtains b1 where "buf_write c (buf_grow 3 b) = Some b1" "snd b1 = snd b @ [c]" "buf_ok b1" "length (snd b1) + 2 \<le> fst b1"
proof
  let ?b = "buf_grow 3 b"
  have g: "snd ?b = snd b" "length (snd b) + 3 \<le> fst ?b" "7 \<le> fst ?b"
    using assms by (auto simp: buf_ok_def buf_grow_def)
  then show "buf_write c ?b = Some (fst ?b, snd b @ [c])" by (simp add: buf_write_def)
  from g show "buf_ok (fst ?b, snd b @ [c])" "length (snd (fst ?b, snd b @ [c])) + 2 \<le> fst (fst ?b, snd b @ [c])"
    by (simp_all add: buf_ok_def)
qed simp

definition value_room :: "char_buf \<Rightarrow> char_buf \<Rightarrow> bool" where
  "value_room b b' \<longleftrightarrow> buf_ok b' \<and> fst b \<le> fst b' \<and> length (snd b) \<le> length (snd b') \<and>
     (length (snd b) < length (snd b') \<longrightarrow> length (snd b') + 2 \<le> fst b')"

lemma value_room_write:
  assumes "snd b1 = snd b @ [c]" "fst b \<le> fst b1" "length (snd b1) + 2 \<le> fst b1" "value_room b1 b'"
  shows "value_room b b'"
  using assms by (auto simp: value_room_def le_less)

lemma TagValue_ok: "buf_ok b \<Longrightarrow> \<exists>r b'. TagValue g s b = Some (r, b') \<and> value_room b b'"
proof (induction s arbitrary: b)
  case Nil
  then show ?case by (auto simp: value_room_def)
next
  case (Cons ch s)
  have w: "\<exists>b1 r b'. buf_write c (buf_grow 3 b) = Some b1 \<and> TagValue g s b1 = Some (r, b') \<and> value_room b b'" for c
  proof -
    obtain b1 where b1: "buf_write c (buf_grow 3 b) = Some b1" "snd b1 = snd b @ [c]" "buf_ok b1" "length (snd b1) + 2 \<le> fst b1"
      by (rule value_write [OF Cons.prems])
    then have "fst b \<le> fst b1" by (auto simp: buf_write_def buf_grow_def split: if_splits)
    with Cons.IH [OF b1(3)] b1 value_room_write [OF b1(2) _ b1(4)] show ?thesis by blast
  qed
  have same: "value_room b b" using Cons.prems by (simp add: value_room_def)
  show ?case
  proof (cases "ini_blank ch \<or> ini_newline ch")
    case True
    then show ?thesis using Cons.IH [OF Cons.prems] same by (auto simp del: split_paired_Ex)
  next
    case False
    show ?thesis
      using False w [of ch] w [of "CHR 0x00"] same
      by (cases "ch = CHR '',''"; cases "ch = ig_comment g") (auto simp del: split_paired_Ex)
  qed
qed

lemma section_line_ok:
  assumes "7 \<le> cap"
  shows "\<exists>tag stop r cap'. section_line g s cap = Some (tag, stop, r, cap') \<and> 7 \<le> cap'"
proof -
  obtain token s1 b where T: "TagName g 0 s (cap, []) = Some (token, s1, b)" "buf_ok b"
    using TagName_ok [OF name_room_start [OF assms]] by blast
  show ?thesis
  proof (cases token)
    case LT_VAL
    from TagValue_ok [OF T(2)] obtain r b' where V: "TagValue g s1 b = Some (r, b')" "value_room b b'" by blast
    then show ?thesis using T(1) LT_VAL by (auto simp: section_line_def buf_write_def value_room_def buf_ok_def)
  qed (use T in \<open>auto simp: section_line_def buf_ok_def split: prod.split\<close>)
qed

lemma section_load_ok: "7 \<le> cap \<Longrightarrow> \<exists>r cap' tags'. section_load g s cap tags = Some (r, cap', tags') \<and> 7 \<le> cap'"
proof (induction g s cap tags rule: section_load.induct)
  case (1 g s cap tags)
  show ?case
  proof (cases "s = []")
    case False
    obtain tag stop s' c where L: "section_line g s cap = Some (tag, stop, s', c)" "7 \<le> c"
      using section_line_ok [OF "1.prems"] by blast
    show ?thesis
    proof (cases stop)
      case True
      with L False show ?thesis by (subst section_load.simps) simp
    next
      case stop: False
      from "1.IH" [OF False L(1) refl refl refl stop L(2)] show ?thesis
        using L False stop by (subst section_load.simps) simp
    qed
  qed (use "1.prems" in \<open>simp add: section_load.simps\<close>)
qed

lemma read_header_ok:
  "length (snd b) < fst b \<Longrightarrow> \<exists>h r cap. read_header g s b = Some (h, r, cap) \<and> fst b \<le> cap"
proof (induction s arbitrary: b)
  case (Cons ch s)
  have w: "\<exists>b1. buf_write ch (buf_grow 2 b) = Some b1 \<and> length (snd b1) < fst b1 \<and> fst b \<le> fst b1"
    using Cons.prems by (auto simp: buf_write_def buf_grow_def)
  then obtain b1 where b1: "buf_write ch (buf_grow 2 b) = Some b1" "length (snd b1) < fst b1" "fst b \<le> fst b1" by blast
  obtain b2 where "buf_write (CHR 0x00) b = Some b2" using Cons.prems by (auto simp: buf_write_def)
  with b1 Cons.IH [OF Cons.prems] Cons.IH [OF b1(2)] show ?case by (auto intro: le_trans)
qed simp

lemma file_Header_ok: "0 < cap \<Longrightarrow> \<exists>h r cap'. file_Header g s cap = Some (h, r, cap') \<and> 0 < cap'"
  using read_header_ok [of "(cap, [])"] by (fastforce simp: file_Header_def split: sum.split)

lemma load_sections_ok: "0 < hcap \<Longrightarrow> 7 \<le> tcap \<Longrightarrow> \<exists>secs'. load_sections g s hcap tcap secs = Some secs' \<and> set secs \<subseteq> set secs'"
proof (induction g s hcap tcap secs rule: load_sections.induct)
  case (1 g s hcap tcap secs)
  show ?case
  proof (cases "s = []")
    case False
    obtain h s' hc where H: "file_Header g s hcap = Some (h, s', hc)" "0 < hc" using file_Header_ok [OF "1.prems"(1)] by blast
    show ?thesis
    proof (cases "h = []")
      case True
      from "1.IH"(1) [OF False H(1) refl refl True H(2) "1.prems"(2)] show ?thesis
        using H False True by (subst load_sections.simps) simp
    next
      case h: False
      obtain r c tags where L: "section_load g s' tcap [] = Some (r, c, tags)" "7 \<le> c" using section_load_ok [OF "1.prems"(2)] by blast
      let ?S = "\<lparr>is_Name = h, is_Tags = tags, is_Iter = - 1\<rparr>"
      have I: "section_Init g h s' tcap = Some (?S, r, c)" using L h by (simp add: section_Init_def)
      from "1.IH"(2) [OF False H(1) refl refl h I refl refl H(2) L(2)] show ?thesis
        using H False h I by (subst load_sections.simps) auto
    qed
  qed (simp add: load_sections.simps)
qed

text \<open>Whatever is in the buffer, a file that was not loaded is loaded afterwards.\<close>

lemma LoadBuffer_total: "LoadBuffer g buf F = None \<longleftrightarrow> if_IsValid F"
proof (cases "if_IsValid F")
  case False
  obtain r c tags where L: "section_load g (c_str buf) 64 [] = Some (r, c, tags)" "7 \<le> c"
    using section_load_ok [of 64 g "c_str buf" "[]"] by auto
  obtain secs where "load_sections g r 64 c (Insert is_Name [] \<lparr>is_Name = ''[DEFAULT]'', is_Tags = tags, is_Iter = - 1\<rparr>) = Some secs"
    using load_sections_ok [of 64 c g r] L(2) by fastforce
  with L False show ?thesis by (simp add: LoadBuffer_def section_Init_def)
qed (simp add: LoadBuffer_def)

lemma LoadBuffer_valid:
  assumes "LoadBuffer g buf F = Some F'"
  shows "if_IsValid F'"
proof -
  obtain S s c secs where 1: "section_Init g ''[DEFAULT]'' (c_str buf) 64 = Some (S, s, c)"
    "load_sections g s 64 c (Insert is_Name [] S) = Some secs" "F' = F\<lparr>if_Sections := secs\<rparr>"
    using assms by (auto simp: LoadBuffer_def split: if_splits elim!: bind_SomeE)
  then have "7 \<le> c" using section_load_ok [of 64 g "c_str buf" "[]"] by (auto simp: section_Init_def)
  from load_sections_ok [OF _ this, of 64 g s "Insert is_Name [] S"] 1 show ?thesis by (auto simp: if_IsValid_def)
qed

section \<open>A file and its text\<close>

text \<open>A file as sections of tags with their values, and its text, one line for each header and tag.\<close>

type_synonym ini_tag = "string \<times> string list"
type_synonym ini_doc = "(string \<times> ini_tag list) list"

fun comma_join :: "string list \<Rightarrow> string" where
  "comma_join [] = []"
| "comma_join [v] = v"
| "comma_join (v # w # vs) = v @ CHR '','' # comma_join (w # vs)"

definition tag_text :: "ini_globals \<Rightarrow> ini_tag \<Rightarrow> string" where
  "tag_text g t = fst t @ ig_namevalsep g # comma_join (snd t) @ [CHR 0x0A]"

definition section_text :: "ini_globals \<Rightarrow> string \<times> ini_tag list \<Rightarrow> string" where
  "section_text g sec = CHR ''['' # fst sec @ [CHR '']'', CHR 0x0A] @ concat (map (tag_text g) (snd sec))"

definition ini_text :: "ini_globals \<Rightarrow> ini_doc \<Rightarrow> string" where
  "ini_text g secs = concat (map (section_text g) secs)"

definition name_char :: "ini_globals \<Rightarrow> char \<Rightarrow> bool" where
  "name_char g c \<longleftrightarrow> \<not> ini_reserved c \<and> c \<noteq> ig_comment g \<and> c \<noteq> ig_namevalsep g"

definition value_char :: "ini_globals \<Rightarrow> char \<Rightarrow> bool" where
  "value_char g c \<longleftrightarrow> \<not> ini_blank c \<and> \<not> ini_newline c \<and> c \<noteq> CHR 0x00 \<and> c \<noteq> CHR '','' \<and> c \<noteq> ig_comment g"

definition name_ok :: "ini_globals \<Rightarrow> string \<Rightarrow> bool" where
  "name_ok g s \<longleftrightarrow> s \<noteq> [] \<and> list_all (name_char g) s"

definition tag_ok :: "ini_globals \<Rightarrow> ini_tag \<Rightarrow> bool" where
  "tag_ok g t \<longleftrightarrow> name_ok g (fst t) \<and> snd t \<noteq> [] \<and> list_all (\<lambda>v. v \<noteq> [] \<and> list_all (value_char g) v) (snd t)"

definition ini_doc_ok :: "ini_globals \<Rightarrow> ini_doc \<Rightarrow> bool" where
  "ini_doc_ok g secs \<longleftrightarrow> distinct (map fst secs) \<and>
     list_all (\<lambda>sec. name_ok g (fst sec) \<and> list_all (tag_ok g) (snd sec) \<and> distinct (map fst (snd sec))) secs"

lemma name_charD:
  assumes "name_char g c"
  shows "\<not> ini_blank c" "\<not> ini_newline c" "c \<noteq> CHR ''[''" "c \<noteq> CHR '']''" "c \<noteq> CHR 0x00" "c \<noteq> ig_comment g"
    "c \<noteq> ig_namevalsep g"
  using assms by (auto simp: name_char_def ini_reserved_def)

text \<open>A line that begins after a line feed.\<close>

definition line_start :: "string \<Rightarrow> bool" where
  "line_start s \<longleftrightarrow> s = [] \<or> \<not> ini_newline (hd s)"

lemma ini_newline_LF [simp]: "ini_newline (CHR 0x0A)" "\<not> ini_blank (CHR 0x0A)"
  by (simp_all add: ini_newline_def ini_blank_def)

lemma NextLine_LF: "line_start r \<Longrightarrow> NextLine (CHR 0x0A # r) = r"
  by (cases r) (simp_all add: NextLine_def line_start_def)

lemma line_start_name: "name_ok g s \<Longrightarrow> line_start (s @ r)"
  by (cases s) (auto simp: name_ok_def line_start_def dest: name_charD)

lemma line_start_tags: "list_all (tag_ok g) ts \<Longrightarrow> line_start r \<Longrightarrow> line_start (concat (map (tag_text g) ts) @ r)"
  by (cases ts) (auto simp: tag_text_def tag_ok_def intro: line_start_name)

lemma line_start_open [simp]: "line_start (CHR ''['' # s)"
  by (simp add: line_start_def ini_newline_def)

lemma line_start_text: "line_start (ini_text g secs)"
  by (cases secs) (simp_all add: ini_text_def section_text_def, simp add: line_start_def)

section \<open>Reading a line that was written\<close>

lemma TagName_name:
  assumes "ini_globals_ok g" "list_all (name_char g) ks" "name_room k b" "snd b @ ks \<noteq> []"
  shows "\<exists>b'. TagName g k (ks @ ig_namevalsep g # r) b = Some (LT_VAL, r, b') \<and> buf_ok b' \<and> snd b' = snd b @ ks @ [CHR 0x00]"
  using assms(2-)
proof (induction ks arbitrary: k b)
  case Nil
  define b1 where "b1 = (if k mod 4 = 0 then buf_grow 7 b else b)"
  note b1 = name_room_grow [OF Nil.prems(2) b1_def]
  have room: "length (snd b1) + 7 \<le> fst b1 + k mod 4" using b1 by simp
  have sep: "\<not> ini_blank (ig_namevalsep g)" "\<not> ini_newline (ig_namevalsep g)" "ig_namevalsep g \<noteq> CHR ''[''"
    using assms(1) by (auto simp: ini_globals_ok_def ini_reserved_def)
  obtain b3 where b3: "buf_write (CHR 0x00) b1 = Some b3" "buf_ok b3" "snd b3 = snd b @ [CHR 0x00]"
    using name_room_write [OF room, of "CHR 0x00"] name_room_Suc [of _ k] b1 unfolding name_room_def buf_ok_def by metis
  show ?case using Nil.prems(3) sep b1 b3 by (simp add: Let_def del: split_paired_Ex flip: b1_def)
next
  case (Cons c ks)
  define b1 where "b1 = (if k mod 4 = 0 then buf_grow 7 b else b)"
  note b1 = name_room_grow [OF Cons.prems(2) b1_def]
  have room: "length (snd b1) + 7 \<le> fst b1 + k mod 4" using b1 by simp
  have c: "name_char g c" "list_all (name_char g) ks" using Cons.prems(1) by simp_all
  obtain b2 where b2: "buf_write c b1 = Some b2" "name_room (Suc k) b2" "snd b2 = snd b @ [c]"
    using name_room_write [OF room, of c] name_room_Suc [of _ k] b1 unfolding buf_ok_def by metis
  have "snd b2 @ ks \<noteq> []" using b2(3) by simp
  from Cons.IH [OF c(2) b2(2) this] b2 show ?case
    by (simp add: Let_def name_charD [OF c(1)] del: split_paired_Ex flip: b1_def)
qed

definition zero_comma :: "char \<Rightarrow> char" where
  "zero_comma c = (if c = CHR '','' then CHR 0x00 else c)"

lemma TagValue_text:
  assumes "line_start r"
  shows "list_all (\<lambda>c. value_char g c \<or> c = CHR '','') vs \<Longrightarrow> buf_ok b \<Longrightarrow>
    \<exists>b'. TagValue g (vs @ CHR 0x0A # r) b = Some (r, b') \<and> snd b' = snd b @ map zero_comma vs"
proof (induction vs arbitrary: b)
  case Nil
  then show ?case using NextLine_LF [OF assms] by simp
next
  case (Cons c vs)
  obtain b1 where b1: "buf_write (zero_comma c) (buf_grow 3 b) = Some b1" "snd b1 = snd b @ [zero_comma c]" "buf_ok b1"
    using value_write [OF Cons.prems(2)] by metis
  have "list_all (\<lambda>c. value_char g c \<or> c = CHR '','') vs" using Cons.prems(1) by simp
  from Cons.IH [OF this b1(3)] obtain b' where b': "TagValue g (vs @ CHR 0x0A # r) b1 = Some (r, b')"
    "snd b' = snd b1 @ map zero_comma vs" by blast
  show ?case
  proof (cases "c = CHR '',''")
    case True
    then have "\<not> ini_blank c" "\<not> ini_newline c" by (simp_all add: ini_blank_def ini_newline_def)
    with True b1 b' show ?thesis by (simp add: zero_comma_def)
  next
    case False
    with Cons.prems(1) have "value_char g c" by simp
    with False b1 b' show ?thesis by (simp add: zero_comma_def value_char_def)
  qed
qed

text \<open>What a tag is stored as.\<close>

definition tag_buf :: "ini_tag \<Rightarrow> string" where
  "tag_buf t = fst t @ CHR 0x00 # concat (map (\<lambda>v. v @ [CHR 0x00]) (snd t)) @ [CHR 0x00]"

lemma comma_join_chars:
  "list_all (\<lambda>v. v \<noteq> [] \<and> list_all (value_char g) v) vs \<Longrightarrow> list_all (\<lambda>c. value_char g c \<or> c = CHR '','') (comma_join vs)"
  by (induction vs rule: comma_join.induct) (auto simp: list_all_iff)

lemma map_zero_comma_value: "list_all (value_char g) v \<Longrightarrow> map zero_comma v = v"
  by (induction v) (auto simp: zero_comma_def value_char_def)

lemma comma_join_zero:
  "list_all (\<lambda>v. v \<noteq> [] \<and> list_all (value_char g) v) vs \<Longrightarrow> vs \<noteq> [] \<Longrightarrow>
    map zero_comma (comma_join vs) @ [CHR 0x00] = concat (map (\<lambda>v. v @ [CHR 0x00]) vs)"
  by (induction vs rule: comma_join.induct) (auto simp: map_zero_comma_value, simp add: zero_comma_def)

lemma comma_join_Nil [simp]: "list_all (\<lambda>v. v \<noteq> [] \<and> P v) vs \<Longrightarrow> comma_join vs = [] \<longleftrightarrow> vs = []"
  by (cases vs rule: comma_join.cases) simp_all

lemma section_line_tag:
  assumes "ini_globals_ok g" "tag_ok g t" "line_start r" "7 \<le> cap"
  shows "\<exists>cap'. section_line g (tag_text g t @ r) cap = Some (Some (tag_buf t), False, r, cap') \<and> 7 \<le> cap'"
proof -
  have ks: "list_all (name_char g) (fst t)" "snd (cap, []) @ fst t \<noteq> []"
    and vs: "list_all (\<lambda>v. v \<noteq> [] \<and> list_all (value_char g) v) (snd t)" "snd t \<noteq> []"
    using assms(2) by (auto simp: tag_ok_def name_ok_def)
  obtain b where T: "TagName g 0 (tag_text g t @ r) (cap, []) = Some (LT_VAL, comma_join (snd t) @ CHR 0x0A # r, b)"
    "buf_ok b" "snd b = fst t @ [CHR 0x00]"
    using TagName_name [OF assms(1) ks(1) name_room_start [OF assms(4)] ks(2)] by (fastforce simp: tag_text_def)
  obtain b' where V: "TagValue g (comma_join (snd t) @ CHR 0x0A # r) b = Some (r, b')" "snd b' = snd b @ map zero_comma (comma_join (snd t))"
    using TagValue_text [OF assms(3) comma_join_chars [OF vs(1)] T(2)] by blast
  have room: "value_room b b'"
    using TagValue_ok [OF T(2), of g "comma_join (snd t) @ CHR 0x0A # r"] V(1) by auto
  have ne: "comma_join (snd t) \<noteq> []" using vs by simp
  then have len: "length (snd b) < length (snd b')" using V(2) by simp
  with room have "length (snd b') + 2 \<le> fst b'" "7 \<le> fst b'" by (auto simp: value_room_def buf_ok_def)
  moreover have "snd b' @ [CHR 0x00, CHR 0x00] = tag_buf t"
    using V(2) T(3) comma_join_zero [OF vs] by (simp add: tag_buf_def)
  ultimately show ?thesis using T(1) V(1) len by (simp add: section_line_def buf_write_def)
qed

lemma header_close_name:
  "list_all (name_char g) ks \<Longrightarrow> header_close g (ks @ CHR '']'' # r) = None"
proof (induction ks)
  case (Cons c ks)
  then have "name_char g c" by simp
  with Cons show ?case by (simp add: name_charD [of g c])
qed (simp add: ini_newline_def)

lemma section_line_header:
  assumes "list_all (name_char g) ks" "7 \<le> cap"
  shows "\<exists>cap'. section_line g (CHR ''['' # ks @ CHR '']'' # r) cap = Some (None, True, CHR ''['' # ks @ CHR '']'' # r, cap') \<and> 7 \<le> cap'"
proof -
  have "\<not> ini_blank (CHR ''['')" "\<not> ini_newline (CHR ''['')" by (simp_all add: ini_blank_def ini_newline_def)
  then show ?thesis using assms header_close_name [OF assms(1)]
    by (auto simp: section_line_def Let_def section_Header_def buf_grow_def)
qed

section \<open>Reading a section\<close>

text \<open>The rest after the tags of a section: nothing or the next header.\<close>

definition section_end :: "ini_globals \<Rightarrow> string \<Rightarrow> bool" where
  "section_end g r \<longleftrightarrow> r = [] \<or> (\<exists>ks r'. list_all (name_char g) ks \<and> r = CHR ''['' # ks @ CHR '']'' # r')"

lemma section_end_line: "section_end g r \<Longrightarrow> line_start r"
  by (auto simp: section_end_def) (simp add: line_start_def)

lemma section_end_text: "list_all (\<lambda>sec. name_ok g (fst sec)) secs \<Longrightarrow> section_end g (ini_text g secs)"
  by (cases secs) (auto simp: section_end_def ini_text_def section_text_def name_ok_def)

lemma section_load_tags:
  assumes "ini_globals_ok g" "section_end g r"
  shows "list_all (tag_ok g) ts \<Longrightarrow> 7 \<le> cap \<Longrightarrow>
    \<exists>cap'. section_load g (concat (map (tag_text g) ts) @ r) cap tags =
        Some (r, cap', fold (\<lambda>t tags. Insert (\<lambda>x. x) tags (tag_buf t)) ts tags) \<and> 7 \<le> cap'"
proof (induction ts arbitrary: cap tags)
  case Nil
  show ?case
  proof (cases "r = []")
    case True
    with Nil show ?thesis by (simp add: section_load.simps)
  next
    case False
    with assms(2) obtain ks r' where r: "list_all (name_char g) ks" "r = CHR ''['' # ks @ CHR '']'' # r'"
      by (auto simp: section_end_def)
    from section_line_header [OF r(1) Nil(2), of r'] r(2) show ?thesis by (subst section_load.simps) auto
  qed
next
  case (Cons t ts)
  have t: "tag_ok g t" "list_all (tag_ok g) ts" using Cons.prems(1) by simp_all
  have ls: "line_start (concat (map (tag_text g) ts) @ r)"
    by (rule line_start_tags [OF t(2) section_end_line [OF assms(2)]])
  obtain cap1 where L: "section_line g (tag_text g t @ concat (map (tag_text g) ts) @ r) cap =
      Some (Some (tag_buf t), False, concat (map (tag_text g) ts) @ r, cap1)" "7 \<le> cap1"
    using section_line_tag [OF assms(1) t(1) ls Cons.prems(2)] by blast
  have ne: "tag_text g t \<noteq> []" by (simp add: tag_text_def)
  from Cons.IH [OF t(2) L(2), of "Insert (\<lambda>x. x) tags (tag_buf t)"] L(1) ne show ?case
    by (subst section_load.simps) simp
qed

text \<open>The section a written one is read as, and the sections of a file.\<close>

definition read_section :: "string \<times> ini_tag list \<Rightarrow> ini_section_data" where
  "read_section sec =
     \<lparr>is_Name = fst sec, is_Tags = fold (\<lambda>t tags. Insert (\<lambda>x. x) tags (tag_buf t)) (snd sec) [], is_Iter = - 1\<rparr>"

lemma read_header_name:
  "list_all (name_char g) ks \<Longrightarrow> length (snd b) < fst b \<Longrightarrow> line_start r \<Longrightarrow>
    \<exists>cap. read_header g (ks @ CHR '']'' # CHR 0x0A # r) b = Some (snd b @ ks, r, cap) \<and> 0 < cap"
proof (induction ks arbitrary: b)
  case Nil
  have "\<not> ini_blank (CHR '']'')" "\<not> ini_newline (CHR '']'')" by (simp_all add: ini_blank_def ini_newline_def)
  moreover have "NextLine (CHR '']'' # CHR 0x0A # r) = r"
    using NextLine_LF [OF Nil.prems(3)] by (simp add: NextLine_def ini_newline_def)
  ultimately show ?case using Nil.prems by (simp add: buf_write_def)
next
  case (Cons c ks)
  have c: "name_char g c" "list_all (name_char g) ks" using Cons.prems(1) by simp_all
  define b1 where "b1 = (fst (buf_grow 2 b), snd b @ [c])"
  have b1: "buf_write c (buf_grow 2 b) = Some b1" "length (snd b1) < fst b1" "snd b1 = snd b @ [c]"
    using Cons.prems(2) by (auto simp: buf_write_def buf_grow_def b1_def)
  from Cons.IH [OF c(2) b1(2) Cons.prems(3)] b1 show ?case by (simp add: name_charD [OF c(1)])
qed

lemma load_sections_text:
  assumes "ini_globals_ok g"
  shows "list_all (\<lambda>sec. name_ok g (fst sec) \<and> list_all (tag_ok g) (snd sec)) docs \<Longrightarrow> 0 < hcap \<Longrightarrow> 7 \<le> tcap \<Longrightarrow>
    load_sections g (ini_text g docs) hcap tcap secs = Some (fold (\<lambda>d secs. Insert is_Name secs (read_section d)) docs secs)"
proof (induction docs arbitrary: hcap tcap secs)
  case Nil
  then show ?case by (simp add: ini_text_def load_sections.simps)
next
  case (Cons d docs)
  let ?tags = "concat (map (tag_text g) (snd d))"
  have d: "name_ok g (fst d)" "list_all (tag_ok g) (snd d)"
    and docs: "list_all (\<lambda>sec. name_ok g (fst sec) \<and> list_all (tag_ok g) (snd sec)) docs" using Cons.prems(1) by simp_all
  have tx: "ini_text g (d # docs) = CHR ''['' # fst d @ CHR '']'' # CHR 0x0A # ?tags @ ini_text g docs"
    by (simp add: ini_text_def section_text_def)
  have se: "section_end g (ini_text g docs)" by (rule section_end_text) (use docs in \<open>auto simp: list_all_iff\<close>)
  have ls: "line_start (?tags @ ini_text g docs)" by (rule line_start_tags [OF d(2) section_end_line [OF se]])
  have "find_open g (CHR ''['' # s) = Inr s" for s by (simp add: ini_blank_def ini_newline_def)
  then obtain hc where H: "file_Header g (ini_text g (d # docs)) hcap = Some (fst d, ?tags @ ini_text g docs, hc)" "0 < hc"
    using read_header_name [OF _ _ ls, of g "fst d" "(hcap, [])"] d(1) Cons.prems(2)
    by (auto simp: file_Header_def tx name_ok_def)
  obtain c where L: "section_load g (?tags @ ini_text g docs) tcap [] =
      Some (ini_text g docs, c, fold (\<lambda>t tags. Insert (\<lambda>x. x) tags (tag_buf t)) (snd d) [])" "7 \<le> c"
    using section_load_tags [OF assms se d(2) Cons.prems(3)] by blast
  have "fst d \<noteq> []" "ini_text g (d # docs) \<noteq> []" using d(1) by (simp_all add: name_ok_def tx)
  with H(1) L(1) have "load_sections g (ini_text g (d # docs)) hcap tcap secs =
      load_sections g (ini_text g docs) hc c (Insert is_Name secs (read_section d))"
    by (subst load_sections.simps) (simp add: section_Init_def read_section_def)
  with Cons.IH [OF docs H(2) L(2)] show ?case by simp
qed

section \<open>Looking up what was written\<close>

lemma fold_Insert:
  assumes "name_sorted nm xs"
  shows "name_sorted nm (fold (\<lambda>y xs. Insert nm xs (f y)) ys xs)"
    "set (fold (\<lambda>y xs. Insert nm xs (f y)) ys xs) = f ` set ys \<union> set xs"
proof -
  have "name_sorted nm (fold (\<lambda>y xs. Insert nm xs (f y)) ys xs) \<and>
      set (fold (\<lambda>y xs. Insert nm xs (f y)) ys xs) = f ` set ys \<union> set xs"
    using assms by (induction ys arbitrary: xs) (auto simp: Insert_sorted)
  then show "name_sorted nm (fold (\<lambda>y xs. Insert nm xs (f y)) ys xs)"
    "set (fold (\<lambda>y xs. Insert nm xs (f y)) ys xs) = f ` set ys \<union> set xs" by auto
qed

text \<open>In a sorted array with different names the search finds the element of the name.\<close>

lemma BinarySearch_map:
  assumes "name_sorted nm arr" "set arr = f ` set ys" "\<forall>y \<in> set ys. c_str (nm (f y)) = fst y" "distinct (map fst ys)"
  shows "if 0 \<le> BinarySearch nm arr x
    then \<exists>y. map_of ys (c_str x) = Some y \<and> arr ! nat (BinarySearch nm arr x) = f (c_str x, y)
    else map_of ys (c_str x) = None"
proof (cases "0 \<le> BinarySearch nm arr x")
  case True
  note B = BinarySearch_found [OF True]
  from B(1) assms(2) obtain a y where y: "(a, y) \<in> set ys" "arr ! nat (BinarySearch nm arr x) = f (a, y)"
    by (metis imageE nth_mem prod.collapse)
  with B(2) assms(3) have "a = c_str x" by fastforce
  with y assms(4) True show ?thesis by (simp add: map_of_eq_Some_iff)
next
  case False
  then have "\<forall>el \<in> set arr. c_str (nm el) \<noteq> c_str x" using BinarySearch_finds [OF assms(1)] by blast
  then have "c_str x \<notin> fst ` set ys" using assms(2,3) by force
  with False show ?thesis by (simp add: map_of_eq_None_iff)
qed

lemma name_ok_c_str: "name_ok g s \<Longrightarrow> c_str (s @ CHR 0x00 # r) = s" "name_ok g s \<Longrightarrow> c_str s = s"
proof -
  assume n: "name_ok g s"
  then have "\<forall>c \<in> set s. c \<noteq> CHR 0x00" by (auto simp: name_ok_def list_all_iff dest: name_charD)
  then show "c_str (s @ CHR 0x00 # r) = s" "c_str s = s" by (simp_all add: c_str_def takeWhile_append2 takeWhile_eq_all_conv)
qed

definition value_buf :: "string list \<Rightarrow> string" where
  "value_buf vs = concat (map (\<lambda>v. v @ [CHR 0x00]) vs) @ [CHR 0x00]"

definition values_ok :: "string list \<Rightarrow> bool" where
  "values_ok vs \<longleftrightarrow> (\<forall>v \<in> set vs. v \<noteq> [] \<and> CHR 0x00 \<notin> set v)"

lemma tag_ok_values: "tag_ok g t \<Longrightarrow> values_ok (snd t)"
  by (auto simp: tag_ok_def values_ok_def list_all_iff value_char_def)

lemma tag_buf_name: "tag_ok g t \<Longrightarrow> c_str (tag_buf t) = fst t"
  by (simp add: tag_ok_def tag_buf_def name_ok_c_str(1) [of g])

lemma after_zero_tag_buf: "tag_ok g t \<Longrightarrow> after_zero (tag_buf t) = value_buf (snd t)"
  using tag_buf_name [of g t] by (simp add: after_zero_def) (simp add: tag_buf_def value_buf_def)

lemma c_str_no_zero: "CHR 0x00 \<notin> set v \<Longrightarrow> c_str (v @ CHR 0x00 # r) = v"
  by (induction v) (auto simp: c_str_def)

lemma value_buf_simps:
  "c_str (value_buf []) = []"
  "CHR 0x00 \<notin> set v \<Longrightarrow> c_str (value_buf (v # vs)) = v"
  "CHR 0x00 \<notin> set v \<Longrightarrow> after_zero (value_buf (v # vs)) = value_buf vs"
proof -
  show "c_str (value_buf []) = []" by (simp add: value_buf_def c_str_def)
  have e: "value_buf (v # vs) = v @ CHR 0x00 # value_buf vs" by (simp add: value_buf_def)
  assume v: "CHR 0x00 \<notin> set v"
  then show "c_str (value_buf (v # vs)) = v" by (simp add: e c_str_no_zero)
  with v show "after_zero (value_buf (v # vs)) = value_buf vs" by (simp add: after_zero_def) (simp add: e)
qed

lemma value_count_buf: "values_ok vs \<Longrightarrow> value_count (value_buf vs) = length vs"
proof (induction vs)
  case (Cons v vs)
  then show ?case by (subst value_count.simps) (simp add: values_ok_def value_buf_simps)
qed (simp add: value_count.simps value_buf_simps)

lemma value_list_buf: "values_ok vs \<Longrightarrow> value_list (value_buf vs) cap = take cap vs"
proof (induction vs arbitrary: cap)
  case (Cons v vs)
  then show ?case by (cases cap) (subst value_list.simps, simp add: values_ok_def value_buf_simps)+
qed (simp add: value_list.simps value_buf_simps)

text \<open>The look-up of a program: the section, then the values of the tag; nothing is the empty list.\<close>

definition ini_values :: "string \<Rightarrow> string \<Rightarrow> ini_file_data \<Rightarrow> string list option" where
  "ini_values n k F =
     do { sec \<leftarrow> GetSection n F;
          case sec of None \<Rightarrow> Some [] | Some S \<Rightarrow> map_option snd (ReadMultiString_vec k [] S) }"

definition doc_values :: "string \<Rightarrow> string \<Rightarrow> ini_doc \<Rightarrow> string list" where
  "doc_values n k docs =
     (case map_of docs n of None \<Rightarrow> [] | Some tags \<Rightarrow> (case map_of tags k of None \<Rightarrow> [] | Some vs \<Rightarrow> vs))"

lemma section_values:
  assumes "list_all (tag_ok g) (snd sec)" "distinct (map fst (snd sec))" "c_str k \<noteq> []"
  shows "map_option snd (ReadMultiString_vec k [] (read_section sec)) =
    Some (case map_of (snd sec) (c_str k) of None \<Rightarrow> [] | Some vs \<Rightarrow> vs)"
    and "is_ReadString k (read_section sec) =
      Some (case map_of (snd sec) (c_str k) of None \<Rightarrow> None | Some vs \<Rightarrow> Some (hd vs))"
proof -
  let ?arr = "is_Tags (read_section sec)"
  let ?i = "BinarySearch (\<lambda>t. t) ?arr k"
  have arr: "name_sorted (\<lambda>t. t) ?arr" "set ?arr = tag_buf ` set (snd sec)"
    unfolding read_section_def using fold_Insert [of "\<lambda>t. t" "[]" tag_buf "snd sec"] by simp_all
  have ok: "tag_ok g t" if "t \<in> set (snd sec)" for t using assms(1) that by (simp add: list_all_iff)
  then have names: "\<forall>t \<in> set (snd sec). c_str (tag_buf t) = fst t" using tag_buf_name by blast
  note B = BinarySearch_map [OF arr names assms(2), of k]
  have pos: "tag_pos k (read_section sec) = Some ?i" using assms(3) by (simp add: tag_pos_def)
  have found: "\<exists>vs. map_of (snd sec) (c_str k) = Some vs \<and> after_zero (?arr ! nat ?i) = value_buf vs \<and> values_ok vs \<and> vs \<noteq> []"
    if i: "0 \<le> ?i"
  proof -
    from B i obtain vs where vs: "map_of (snd sec) (c_str k) = Some vs" "?arr ! nat ?i = tag_buf (c_str k, vs)" by auto
    then have t: "tag_ok g (c_str k, vs)" using ok map_of_SomeD by fast
    from after_zero_tag_buf [OF t] tag_ok_values [OF t] vs t show ?thesis by (simp add: tag_ok_def)
  qed
  show "map_option snd (ReadMultiString_vec k [] (read_section sec)) =
      Some (case map_of (snd sec) (c_str k) of None \<Rightarrow> [] | Some vs \<Rightarrow> vs)"
  proof (cases "0 \<le> ?i")
    case True
    from found [OF True] True show ?thesis
      by (auto simp: ReadMultiString_vec_def MultiValSize_def ReadMultiString_def pos value_count_buf value_list_buf)
  next
    case False
    with B show ?thesis by (simp add: ReadMultiString_vec_def MultiValSize_def ReadMultiString_def pos)
  qed
  show "is_ReadString k (read_section sec) =
      Some (case map_of (snd sec) (c_str k) of None \<Rightarrow> None | Some vs \<Rightarrow> Some (hd vs))"
  proof (cases "0 \<le> ?i")
    case True
    from found [OF True] obtain v vs where v: "map_of (snd sec) (c_str k) = Some (v # vs)"
      "after_zero (?arr ! nat ?i) = value_buf (v # vs)" "values_ok (v # vs)"
      by (metis neq_Nil_conv)
    then have "c_str (value_buf (v # vs)) = v" by (simp add: values_ok_def value_buf_simps)
    with v True show ?thesis by (simp add: is_ReadString_def pos)
  next
    case False
    with B show ?thesis by (simp add: is_ReadString_def pos)
  qed
qed

text \<open>The section of the tags before the first header.\<close>

definition default_section :: "string \<times> ini_tag list" where
  "default_section = (''[DEFAULT]'', [])"

lemma comma_join_no_zero: "values_ok vs \<Longrightarrow> CHR 0x00 \<notin> set (comma_join vs)"
  by (induction vs rule: comma_join.induct) (auto simp: values_ok_def)

lemma name_ok_no_zero: "name_ok g s \<Longrightarrow> CHR 0x00 \<notin> set s"
  by (auto simp: name_ok_def list_all_iff dest: name_charD(5))

lemma tag_text_no_zero:
  assumes "ini_globals_ok g" "tag_ok g t"
  shows "CHR 0x00 \<notin> set (tag_text g t)"
proof -
  have "ig_namevalsep g \<noteq> CHR 0x00" using assms(1) by (auto simp: ini_globals_ok_def ini_reserved_def)
  moreover have "CHR 0x00 \<notin> set (fst t)" using assms(2) name_ok_no_zero [of g "fst t"] by (simp add: tag_ok_def)
  ultimately show ?thesis using comma_join_no_zero [OF tag_ok_values [OF assms(2)]] by (auto simp: tag_text_def)
qed

lemma ini_text_no_zero:
  assumes "ini_globals_ok g" "list_all (\<lambda>sec. name_ok g (fst sec) \<and> list_all (tag_ok g) (snd sec)) docs"
  shows "CHR 0x00 \<notin> set (ini_text g docs)"
  using assms(2)
proof (induction docs)
  case (Cons d docs)
  then have "CHR 0x00 \<notin> set (fst d)" using name_ok_no_zero [of g "fst d"] by simp
  moreover have "\<forall>t \<in> set (snd d). CHR 0x00 \<notin> set (tag_text g t)"
    using Cons.prems tag_text_no_zero [OF assms(1)] by (simp add: list_all_iff)
  ultimately show ?case using Cons by (auto simp: ini_text_def section_text_def)
qed (simp add: ini_text_def)

lemma LoadBuffer_text:
  assumes "ini_globals_ok g" "ini_doc_ok g docs"
  shows "\<exists>F. LoadBuffer g (ini_text g docs) INIFile_new = Some F \<and> name_sorted is_Name (if_Sections F) \<and>
    set (if_Sections F) = read_section ` set (default_section # docs)"
proof -
  have docs: "list_all (\<lambda>sec. name_ok g (fst sec) \<and> list_all (tag_ok g) (snd sec)) docs"
    using assms(2) by (auto simp: ini_doc_ok_def list_all_iff)
  have "CHR 0x00 \<notin> set (ini_text g docs)" by (rule ini_text_no_zero [OF assms(1) docs])
  then have c: "c_str (ini_text g docs) = ini_text g docs" by (auto simp: c_str_def takeWhile_eq_all_conv)
  have se: "section_end g (ini_text g docs)" by (rule section_end_text) (use docs in \<open>auto simp: list_all_iff\<close>)
  obtain cap where L: "section_load g (ini_text g docs) 64 [] = Some (ini_text g docs, cap, [])" "7 \<le> cap"
    using section_load_tags [OF assms(1) se, of "[]" 64 "[]"] by auto
  let ?secs = "fold (\<lambda>d secs. Insert is_Name secs (read_section d)) (default_section # docs) []"
  have "LoadBuffer g (ini_text g docs) INIFile_new = Some (INIFile_new\<lparr>if_Sections := ?secs\<rparr>)"
    using load_sections_text [OF assms(1) docs, of 64 cap "Insert is_Name [] (read_section default_section)"] L c
    by (simp add: LoadBuffer_def section_Init_def if_IsValid_def INIFile_new_def read_section_def default_section_def)
  with fold_Insert [of is_Name "[]" read_section "default_section # docs"] show ?thesis by simp
qed

lemma GetSection_text:
  assumes "ini_doc_ok g docs" "c_str n \<noteq> []"
    "name_sorted is_Name (if_Sections F)" "set (if_Sections F) = read_section ` set (default_section # docs)"
  shows "GetSection n F = Some (map_option (\<lambda>ts. read_section (c_str n, ts)) (map_of (default_section # docs) (c_str n)))"
    and "map_of (default_section # docs) (c_str n) = Some ts \<Longrightarrow>
      list_all (tag_ok g) ts \<and> distinct (map fst ts) \<and> ts = (case map_of docs (c_str n) of None \<Rightarrow> [] | Some ts \<Rightarrow> ts)"
proof -
  let ?i = "BinarySearch is_Name (if_Sections F) n"
  have n: "name_ok g (fst d)" if "d \<in> set docs" for d using assms(1) that by (auto simp: ini_doc_ok_def list_all_iff)
  have dn: "''[DEFAULT]'' \<notin> fst ` set docs"
  proof
    assume "''[DEFAULT]'' \<in> fst ` set docs"
    then have "name_ok g ''[DEFAULT]''" using n by force
    then show False by (auto simp: name_ok_def dest: name_charD)
  qed
  have names: "\<forall>d \<in> set (default_section # docs). c_str (is_Name (read_section d)) = fst d"
    using n name_ok_c_str(2) by (auto simp: read_section_def default_section_def) (simp add: c_str_def)
  have dist: "distinct (map fst (default_section # docs))"
    using assms(1) dn by (simp add: ini_doc_ok_def default_section_def)
  note B = BinarySearch_map [OF assms(3,4) names dist, of n]
  then show "GetSection n F = Some (map_option (\<lambda>ts. read_section (c_str n, ts)) (map_of (default_section # docs) (c_str n)))"
    using assms(2) by (auto simp: GetSection_def Let_def split: if_splits)
  assume ts: "map_of (default_section # docs) (c_str n) = Some ts"
  show "list_all (tag_ok g) ts \<and> distinct (map fst ts) \<and> ts = (case map_of docs (c_str n) of None \<Rightarrow> [] | Some ts \<Rightarrow> ts)"
  proof (cases "c_str n = ''[DEFAULT]''")
    case True
    with ts dn have "ts = []" "map_of docs (c_str n) = None" by (auto simp: default_section_def map_of_eq_None_iff)
    then show ?thesis by simp
  next
    case False
    with ts have m: "map_of docs (c_str n) = Some ts" by (simp add: default_section_def)
    then have "(c_str n, ts) \<in> set docs" by (rule map_of_SomeD)
    with assms(1) m show ?thesis by (auto simp: ini_doc_ok_def list_all_iff)
  qed
qed

lemma ini_values_text:
  assumes "ini_doc_ok g docs" "c_str n \<noteq> []" "c_str k \<noteq> []"
    "name_sorted is_Name (if_Sections F)" "set (if_Sections F) = read_section ` set (default_section # docs)"
  shows "ini_values n k F = Some (doc_values (c_str n) (c_str k) docs)"
proof -
  note G = GetSection_text [OF assms(1,2,4,5)]
  show ?thesis
  proof (cases "map_of (default_section # docs) (c_str n)")
    case None
    with G(1) show ?thesis by (auto simp: ini_values_def doc_values_def default_section_def split: if_splits)
  next
    case (Some ts)
    from G(1) have "GetSection n F = Some (Some (read_section (c_str n, ts)))" unfolding Some by simp
    with section_values(1) [of g "(c_str n, ts)" k] G(2) [OF Some] assms(3) show ?thesis
      by (auto simp: ini_values_def doc_values_def split: option.splits)
  qed
qed

text \<open>
  C30: A configuration file written section by section is loaded into an empty \<^verbatim>\<open>INIFile\<close>, and looking up a
  section and a tag, by names that are not empty, gives the values written there, all of them in their
  order, and nothing for a section or a tag that was not written. The file is one line for each header and
  tag, the values of a tag behind the separator with commas between them, where: the section names are
  distinct, and so are the tag names of each section; names are not empty and have no blank, tab, end of
  line, bracket, NUL, separator or comment character; every tag has a value, and values are not empty and
  have no blank, tab, end of line, NUL, comma or comment character (the reader drops blanks, and a list
  ends at its first empty value). The separator and the comment character are different and are none of
  the blanks, ends of line, brackets and NUL.
\<close>

theorem ini_round_trip:
  assumes "ini_globals_ok g" "ini_doc_ok g docs"
  shows "\<exists>F. LoadBuffer g (ini_text g docs) INIFile_new = Some F \<and>
    (\<forall>n k. c_str n \<noteq> [] \<and> c_str k \<noteq> [] \<longrightarrow> ini_values n k F = Some (doc_values (c_str n) (c_str k) docs))"
  using LoadBuffer_text [OF assms] ini_values_text [OF assms(2)] by blast

text \<open>The file of a server with two relay servers.\<close>

definition demo_doc :: ini_doc where
  "demo_doc =
     [(''server'', [(''listen_port'', [''8000''])]),
      (''relayserver'', [(''relayserver_host1'', [''10.0.0.1'']), (''relayserver_port1'', [''9000'']), (''groups'', [''a'', ''b''])])]"

lemma demo_doc_ok: "ini_doc_ok ini_globals_init demo_doc"
  by (simp add: demo_doc_def ini_doc_ok_def name_ok_def tag_ok_def name_char_def value_char_def ini_reserved_def
      ini_blank_def ini_newline_def ini_globals_init_def)

theorem ini_round_trip_witness:
  "\<exists>F. LoadBuffer ini_globals_init (ini_text ini_globals_init demo_doc) INIFile_new = Some F \<and>
     ini_values ''relayserver'' ''groups'' F = Some [''a'', ''b''] \<and> ini_values ''server'' ''groups'' F = Some []"
proof -
  obtain F where F: "LoadBuffer ini_globals_init (ini_text ini_globals_init demo_doc) INIFile_new = Some F"
    "\<forall>n k. c_str n \<noteq> [] \<and> c_str k \<noteq> [] \<longrightarrow> ini_values n k F = Some (doc_values (c_str n) (c_str k) demo_doc)"
    using ini_round_trip [OF ini_globals_ok_init demo_doc_ok] by blast
  then have "ini_values ''relayserver'' ''groups'' F = Some [''a'', ''b'']" "ini_values ''server'' ''groups'' F = Some []"
    by (simp_all add: c_str_def doc_values_def demo_doc_def)
  with F(1) show ?thesis by blast
qed

section \<open>Arrays\<close>

lemma count_pass_step: "\<forall>j. e \<le> j \<longrightarrow> j < count_pass is e \<longrightarrow> int j \<in> set is"
proof (induction "is" arbitrary: e)
  case (Cons i "is")
  show ?case
  proof (cases "i = int e")
    case True
    then have c: "count_pass (i # is) e = count_pass is (e + 1)" by (simp add: count_pass_def)
    have "int j \<in> set (i # is)" if "e \<le> j" "j < count_pass is (e + 1)" for j
      using Cons.IH [of "e + 1"] that True by (cases "j = e") simp_all
    with c show ?thesis by simp
  next
    case False
    then have "count_pass (i # is) e = count_pass is e" by (simp add: count_pass_def)
    with Cons.IH [of e] show ?thesis by simp
  qed
qed (simp add: count_pass_def)

lemma count_pass_fix: "int e \<in> set is \<Longrightarrow> count_pass is e \<noteq> e"
proof (induction "is")
  case (Cons i "is")
  show ?case
  proof (cases "i = int e")
    case True
    then have "count_pass (i # is) e = count_pass is (e + 1)" by (simp add: count_pass_def)
    with count_pass_ge [of "e + 1" "is"] show ?thesis by simp
  next
    case False
    with Cons show ?thesis by (simp add: count_pass_def)
  qed
qed simp

text \<open>The passes stop at the first number that is missing, whatever the order of the tags is.\<close>

lemma count_indices_spec:
  "e \<le> count_indices is e \<and> (\<forall>j. e \<le> j \<longrightarrow> j < count_indices is e \<longrightarrow> int j \<in> set is) \<and> int (count_indices is e) \<notin> set is"
proof (induction "is" e rule: count_indices.induct)
  case (1 "is" e)
  show ?case
  proof (cases "count_pass is e = e")
    case True
    then have "count_indices is e = e" by (subst count_indices.simps) simp
    with True count_pass_fix [of e "is"] show ?thesis by auto
  next
    case False
    then have c: "count_indices is e = count_indices is (count_pass is e)" by (subst count_indices.simps) simp
    from 1 [OF False] count_pass_ge [of e "is"] count_pass_step [of e "is"] show ?thesis
      unfolding c by (meson le_trans not_le_imp_less)
  qed
qed

text \<open>A name with a number for each element, each number once, is read in the order of the numbers.\<close>

lemma array_fill_length [simp]: "length (array_fill name cap tags out) = length out"
  by (induction tags arbitrary: out) (auto split: option.split)

lemma array_fill_nth:
  assumes "inj_on (element_index name) {t \<in> set tags. element_index name t \<noteq> None}" "distinct tags" "length out = cap" "j < cap"
  shows "array_fill name cap tags out ! j =
    (if \<exists>t \<in> set tags. element_index name t = Some (int j + 1)
     then Some (c_str (after_zero (THE t. t \<in> set tags \<and> element_index name t = Some (int j + 1)))) else out ! j)"
  using assms
proof (induction tags arbitrary: out)
  case (Cons tag tags)
  define out' where "out' = (case element_index name tag of
      Some i \<Rightarrow> if 0 < i \<and> i \<le> int cap then out[nat i - 1 := Some (c_str (after_zero tag))] else out | None \<Rightarrow> out)"
  have len: "length out' = cap" using Cons.prems(3) by (auto simp: out'_def split: option.split)
  have inj: "inj_on (element_index name) {t \<in> set tags. element_index name t \<noteq> None}"
    using Cons.prems(1) by (rule inj_on_subset) auto
  note IH = Cons.IH [OF inj _ len Cons.prems(4)]
  have fill: "array_fill name cap (tag # tags) out = array_fill name cap tags out'" by (simp add: out'_def)
  show ?case
  proof (cases "element_index name tag = Some (int j + 1)")
    case True
    have u: "t = tag" if "t \<in> set (tag # tags)" "element_index name t = Some (int j + 1)" for t
      using Cons.prems(1) that True by (auto simp: inj_on_def)
    then have "\<not> (\<exists>t \<in> set tags. element_index name t = Some (int j + 1))" using Cons.prems(2) by auto
    with IH Cons.prems(2) have "array_fill name cap tags out' ! j = out' ! j" by simp
    moreover have "out' ! j = Some (c_str (after_zero tag))"
      using True Cons.prems(3,4) by (simp add: out'_def nat_add_distrib)
    moreover have "(THE t. t \<in> set (tag # tags) \<and> element_index name t = Some (int j + 1)) = tag"
      using u True by (intro the_equality) auto
    ultimately show ?thesis using True fill by simp
  next
    case False
    have "out' ! j = out ! j"
    proof (cases "element_index name tag")
      case (Some i)
      have "nat i - 1 \<noteq> j" if "0 < i" using that False Some by auto
      then show ?thesis using Some by (simp add: out'_def)
    qed (simp add: out'_def)
    moreover have "(THE t. t \<in> set (tag # tags) \<and> element_index name t = Some (int j + 1)) =
        (THE t. t \<in> set tags \<and> element_index name t = Some (int j + 1))"
      using False by (metis set_ConsD list.set_intros(2))
    ultimately show ?thesis using IH Cons.prems(2) False fill by auto
  qed
qed simp

lemma ReadStrings_values:
  assumes "inj_on (element_index (c_str name)) {t \<in> set (is_Tags S). element_index (c_str name) t \<noteq> None}"
    "distinct (is_Tags S)" "ReadStrings_vec name [] S = (m, vs)"
  shows "m = length vs"
    and "j < m \<Longrightarrow> \<exists>t \<in> set (is_Tags S). element_index (c_str name) t = Some (int j + 1) \<and> vs ! j = c_str (after_zero t)"
    and "t \<in> set (is_Tags S) \<Longrightarrow> element_index (c_str name) t \<noteq> Some (int m + 1)"
proof -
  let ?name = "c_str name" and ?tags = "is_Tags S"
  define n where "n = ArraySize name S"
  let ?out = "array_fill ?name n ?tags (replicate n None)"
  have ix: "i \<in> set (map (\<lambda>i. i - 1) (List.map_filter (element_index ?name) ?tags)) \<longleftrightarrow>
      (\<exists>t \<in> set ?tags. element_index ?name t = Some (i + 1))" for i
    by (force simp: List.map_filter_def)
  note C = count_indices_spec [of 0 "map (\<lambda>i. i - 1) (List.map_filter (element_index ?name) ?tags)",
      folded ArraySize_def, folded n_def, unfolded ix]
  have ex: "\<exists>t \<in> set ?tags. element_index ?name t = Some (int j + 1)" if "j < n" for j using C that by blast
  have val: "\<exists>t \<in> set ?tags. element_index ?name t = Some (int j + 1) \<and> ?out ! j = Some (c_str (after_zero t))" if j: "j < n" for j
  proof -
    obtain t where t: "t \<in> set ?tags" "element_index ?name t = Some (int j + 1)" using ex [OF j] by blast
    have "(THE t. t \<in> set ?tags \<and> element_index ?name t = Some (int j + 1)) = t"
      using t assms(1) by (intro the_equality) (auto simp: inj_on_def)
    with array_fill_nth [OF assms(1,2) _ j, of "replicate n None"] t ex [OF j] show ?thesis by (intro bexI [of _ t]) simp_all
  qed
  have "\<forall>v \<in> set ?out. v \<noteq> None" using val by (fastforce simp: in_set_conv_nth)
  then have tw: "takeWhile (\<lambda>v. v \<noteq> None) ?out = ?out" by (simp add: takeWhile_eq_all_conv)
  have "is_ReadStrings name n S = map the ?out" unfolding is_ReadStrings_def tw ..
  then have vs: "vs = map the ?out" "m = n"
    using assms(3) unfolding ReadStrings_vec_def n_def [symmetric] Let_def by auto
  then show "m = length vs" by simp
  show "j < m \<Longrightarrow> \<exists>t \<in> set ?tags. element_index ?name t = Some (int j + 1) \<and> vs ! j = c_str (after_zero t)"
    using val [of j] vs by auto
  show "t \<in> set ?tags \<Longrightarrow> element_index ?name t \<noteq> Some (int m + 1)" using C vs(2) by auto
qed

section \<open>What is lost\<close>

text \<open>
  An empty header ends a section but begins none: the tags after it up to the next header are not read.
  An empty value in a list ends the list.
\<close>

definition lost_demo :: string where
  "lost_demo = ''a=1'' @ [CHR 0x0A] @ ''[]'' @ [CHR 0x0A] @ ''b=2'' @ [CHR 0x0A]"

lemma empty_header_loses_tags:
  "Option.bind (LoadBuffer ini_globals_init lost_demo INIFile_new) (ini_values ''[DEFAULT]'' ''a'') = Some [''1'']"
  "Option.bind (LoadBuffer ini_globals_init lost_demo INIFile_new) (ini_values ''[DEFAULT]'' ''b'') = Some []"
  by code_simp+

lemma empty_value_ends_list: "values_ok vs \<Longrightarrow> value_list (value_buf vs @ r) cap = take cap vs"
proof (induction vs arbitrary: cap)
  case Nil
  then show ?case by (simp add: value_list.simps value_buf_def c_str_def)
next
  case (Cons v vs)
  then have e: "value_buf (v # vs) @ r = v @ CHR 0x00 # value_buf vs @ r" and v: "CHR 0x00 \<notin> set v" "v \<noteq> []"
    by (simp_all add: value_buf_def values_ok_def)
  then have "c_str (value_buf (v # vs) @ r) = v" by (simp add: c_str_no_zero)
  moreover from this e have "after_zero (value_buf (v # vs) @ r) = value_buf vs @ r" by (simp add: after_zero_def)
  ultimately show ?case using Cons v by (cases cap) (subst value_list.simps, simp add: values_ok_def)+
qed

end
