(* ===== verification/Server_Start.thy ===== *)
theory Server_Start
  imports World_Loop Log_File Net_Server Ini_Round "HOL-Library.State_Monad"
begin

text \<open>
  Starting and stopping the process: the system calls of \<^verbatim>\<open>CServer\<close> (pitayaserver/framework/Server.cpp)
  and \<^verbatim>\<open>CUtil\<close> (Util.cpp), the network thread (NetRunnable.cpp), the thread of the relay connections
  (RelayClientRunnable.cpp), and \<^verbatim>\<open>main\<close> with its options, signals and settings (main.cpp).

  The system is a function \<open>os\<close> that answers a call from the calls made before it; a program part is a
  state monad over the list of its calls. The configuration file is a parameter, which \<open>ini_of\<close> gives for
  a file the reader has loaded. Log lines are left out.
\<close>

section \<open>System calls\<close>

datatype sys_call =
    Sys_socket
  | Sys_setsockopt int
  | Sys_bind int uint16
  | Sys_listen int nat
  | Sys_nonblocking int
  | Sys_use_pthreads
  | Sys_base_new
  | Sys_event_add int
  | Sys_timer_add nat
  | Sys_base_loop
  | Sys_open string bool
  | Sys_getpid
  | Sys_write int string
  | Sys_close int
  | Sys_fork
  | Sys_exit
  | Sys_setsid
  | Sys_ignore_SIGHUP
  | Sys_open_null
  | Sys_setrlimit_core
  | Sys_setrlimit_nofile nat

type_synonym sys_trace = "sys_call list"
type_synonym os = "sys_trace \<Rightarrow> sys_call \<Rightarrow> int"
type_synonym 'a sys = "(sys_trace, 'a) state"

definition sys :: "os \<Rightarrow> sys_call \<Rightarrow> int sys" where
  "sys os c = State (\<lambda>tr. (os tr c, tr @ [c]))"

lemma run_sys [simp]: "run_state (sys os c) tr = (os tr c, tr @ [c])"
  by (simp add: sys_def)

section \<open>Pid file\<close>

text \<open>\<open>"./.pid"\<close> is opened, and created when that fails. \<open>CServer\<close> also tests the result of \<^verbatim>\<open>write\<close>.\<close>

definition open_pid_file :: "os \<Rightarrow> int sys" where
  "open_pid_file os =
     do { fd \<leftarrow> sys os (Sys_open ''./.pid'' False);
          if fd = - 1 then sys os (Sys_open ''./.pid'' True) else State_Monad.return fd }"

definition sv_CreatePidFile :: "os \<Rightarrow> bool sys" where
  "sv_CreatePidFile os =
     do { fd \<leftarrow> open_pid_file os;
          if fd = - 1 then State_Monad.return False
          else do { pid \<leftarrow> sys os Sys_getpid;
                    n \<leftarrow> sys os (Sys_write fd (int_str pid));
                    if n = - 1 then State_Monad.return False
                    else do { _ \<leftarrow> sys os (Sys_close fd); State_Monad.return True } } }"

definition cu_CreatePidFile :: "os \<Rightarrow> bool sys" where
  "cu_CreatePidFile os =
     do { fd \<leftarrow> open_pid_file os;
          if fd = - 1 then State_Monad.return False
          else do { pid \<leftarrow> sys os Sys_getpid;
                    _ \<leftarrow> sys os (Sys_write fd (int_str pid));
                    _ \<leftarrow> sys os (Sys_close fd);
                    State_Monad.return True } }"

section \<open>Daemon and limits\<close>

text \<open>\<open>DaemonInit\<close>; \<^verbatim>\<open>_exit\<close> in a parent ends that process, which is \<^const>\<open>None\<close>.\<close>

fun close_all :: "os \<Rightarrow> nat list \<Rightarrow> unit sys" where
  "close_all os [] = State_Monad.return ()"
| "close_all os (i # is) = do { _ \<leftarrow> sys os (Sys_close (int i)); close_all os is }"

definition DaemonInit :: "os \<Rightarrow> int option sys" where
  "DaemonInit os =
     do { pid \<leftarrow> sys os Sys_fork;
          if pid < 0 then State_Monad.return (Some (- 1))
          else if pid \<noteq> 0 then do { _ \<leftarrow> sys os Sys_exit; State_Monad.return None }
          else do {
            sid \<leftarrow> sys os Sys_setsid;
            if sid < 0 then State_Monad.return (Some (- 1))
            else do {
              _ \<leftarrow> sys os Sys_ignore_SIGHUP;
              pid \<leftarrow> sys os Sys_fork;
              if pid < 0 then State_Monad.return (Some (- 1))
              else if pid \<noteq> 0 then do { _ \<leftarrow> sys os Sys_exit; State_Monad.return None }
              else do {
                _ \<leftarrow> close_all os [0..<64];
                _ \<leftarrow> sys os Sys_open_null;
                _ \<leftarrow> sys os Sys_open_null;
                _ \<leftarrow> sys os Sys_open_null;
                State_Monad.return (Some 0) } } } }"

definition SetRLimit :: "os \<Rightarrow> bool sys" where
  "SetRLimit os =
     do { r \<leftarrow> sys os Sys_setrlimit_core;
          if r = - 1 then State_Monad.return False
          else do { r \<leftarrow> sys os (Sys_setrlimit_nofile (1024 * 6)); State_Monad.return (r \<noteq> - 1) } }"

section \<open>CServer\<close>

text \<open>
  The result, and whether \<^verbatim>\<open>evbase\<close> is not null afterwards (it is before the call). \<^verbatim>\<open>event_base_new\<close> may answer
  null, 0; the call for the log after it then looks at the null base, \<^const>\<open>None\<close>.
\<close>

definition sv_Init :: "os \<Rightarrow> (bool \<times> bool) option sys" where
  "sv_Init os =
     do { r \<leftarrow> sys os Sys_use_pthreads;
          if r = - 1 then State_Monad.return (Some (False, False))
          else do { evbase \<leftarrow> sys os Sys_base_new;
                    State_Monad.return (if evbase = 0 then None else Some (True, True)) } }"

text \<open>The result and \<open>listen_fd\<close>. The address is not used: the server listens on all addresses.\<close>

definition sv_StartListen :: "os \<Rightarrow> string \<Rightarrow> int \<Rightarrow> (bool \<times> int) sys" where
  "sv_StartListen os szAddr nPort =
     do { fd \<leftarrow> sys os Sys_socket;
          if fd < 0 then State_Monad.return (False, fd)
          else do {
            r \<leftarrow> sys os (Sys_setsockopt fd);
            if r = - 1 then State_Monad.return (False, fd)
            else do {
              r \<leftarrow> sys os (Sys_bind fd (word_of_int nPort));
              if r < 0 then State_Monad.return (False, fd)
              else do {
                r \<leftarrow> sys os (Sys_listen fd 1024);
                State_Monad.return (\<not> r < 0, fd) } } } }"

definition sv_SetNonBlock :: "os \<Rightarrow> int \<Rightarrow> bool sys" where
  "sv_SetNonBlock os listen_fd = do { r \<leftarrow> sys os (Sys_nonblocking listen_fd); State_Monad.return (\<not> r < 0) }"

text \<open>\<^verbatim>\<open>event_base_set\<close> looks at the base: a null one, left by an \<open>Init\<close> that failed, is \<^const>\<open>None\<close>.\<close>

definition sv_StartServer :: "os \<Rightarrow> bool \<Rightarrow> string \<Rightarrow> int \<Rightarrow> bool option sys" where
  "sv_StartServer os evbase szAddr nPort =
     do { (ok, fd) \<leftarrow> sv_StartListen os szAddr nPort;
          if \<not> ok then State_Monad.return (Some False)
          else if \<not> evbase then State_Monad.return None
          else do {
            r \<leftarrow> sys os (Sys_event_add fd);
            if r = - 1 then State_Monad.return (Some False)
            else do {
              r \<leftarrow> sys os (Sys_timer_add 1);
              if r = - 1 then State_Monad.return (Some False)
              else do {
                ok \<leftarrow> sv_CreatePidFile os;
                if \<not> ok then State_Monad.return (Some False)
                else do { _ \<leftarrow> sys os Sys_base_loop; State_Monad.return (Some True) } } } } }"

text \<open>
  The loop is entered only after the socket listens, the accept event and the timer are added and the
  pid is written to the file that was opened; and a start that fails never enters it.
\<close>

lemma open_pid_file_run:
  "run_state (open_pid_file os) tr =
     (if os tr (Sys_open ''./.pid'' False) = - 1
      then (os (tr @ [Sys_open ''./.pid'' False]) (Sys_open ''./.pid'' True),
            tr @ [Sys_open ''./.pid'' False, Sys_open ''./.pid'' True])
      else (os tr (Sys_open ''./.pid'' False), tr @ [Sys_open ''./.pid'' False]))"
  by (simp add: open_pid_file_def)

lemma start_server_calls:
  assumes "run_state (sv_StartServer os True a port) tr = (Some ok, tr')"
  shows "ok \<longleftrightarrow> Sys_base_loop \<in> set (drop (length tr) tr')"
    and "ok \<Longrightarrow> \<exists>fd pidfd pid opens. 0 \<le> fd \<and> pidfd \<noteq> - 1 \<and>
      tr' = tr @ [Sys_socket, Sys_setsockopt fd, Sys_bind fd (word_of_int port), Sys_listen fd 1024, Sys_event_add fd,
        Sys_timer_add 1] @ opens @ [Sys_getpid, Sys_write pidfd (int_str pid), Sys_close pidfd, Sys_base_loop]"
  using assms
  by (auto simp: sv_StartServer_def sv_StartListen_def sv_CreatePidFile_def open_pid_file_run split: if_splits)

text \<open>With a base the start always returns; without one it fails before the socket listens or is undefined.\<close>

lemma start_server_base:
  "fst (run_state (sv_StartServer os evbase a port) tr) = None \<longleftrightarrow>
     \<not> evbase \<and> fst (fst (run_state (sv_StartListen os a port) tr))"
  by (auto simp: sv_StartServer_def sv_StartListen_def sv_CreatePidFile_def open_pid_file_run split: prod.splits if_splits)

text \<open>A start that fails after the socket is made leaves it open.\<close>

lemma start_failure_leaks:
  assumes "run_state (sv_StartListen os a port) tr = ((False, fd), tr')" "0 \<le> fd"
  shows "\<forall>x. Sys_close x \<notin> set (drop (length tr) tr')"
  using assms by (auto simp: sv_StartListen_def split: if_splits)

section \<open>Configuration\<close>

record ini_section =
  ini_string :: "string \<Rightarrow> string option"
  ini_int :: "string \<Rightarrow> int option"
  ini_strings :: "string \<Rightarrow> string list option"
  ini_ints :: "string \<Rightarrow> int list option"

type_synonym ini_file = "string \<Rightarrow> ini_section option"

text \<open>
  The look-ups in a file the configuration reader has loaded. The lists are read into empty vectors and
  count as missing when nothing is read.
\<close>

definition ini_of :: "ini_file_data \<Rightarrow> ini_file" where
  "ini_of F name =
     (case GetSection name F of
        Some (Some S) \<Rightarrow>
          Some \<lparr>ini_string = (\<lambda>k. Option.bind (is_ReadString k S) (\<lambda>v. v)),
                ini_int = (\<lambda>k. Option.bind (is_ReadInt k S) (\<lambda>v. v)),
                ini_strings = (\<lambda>k. let (n, vs) = ReadStrings_vec k [] S in if n = 0 then None else Some vs),
                ini_ints = (\<lambda>k. let (n, vs) = ReadInts_vec k [] S in if n = 0 then None else Some vs)\<rparr>
      | _ \<Rightarrow> None)"

section \<open>Threads\<close>

text \<open>
  The network thread; the result is whether it sets \<^verbatim>\<open>g_stopEvent\<close>. The result of \<open>Init\<close> is not tested, and
  the start goes on with the null base.
\<close>

definition net_run :: "os \<Rightarrow> ini_file \<Rightarrow> bool option sys" where
  "net_run os ini =
     (case ini ''server'' of
        None \<Rightarrow> State_Monad.return (Some False)
      | Some server \<Rightarrow>
          (case ini_int server ''listen_port'' of
             None \<Rightarrow> State_Monad.return (Some False)
           | Some nPort \<Rightarrow>
               do { init \<leftarrow> sv_Init os;
                    case init of
                      None \<Rightarrow> State_Monad.return None
                    | Some (_, evbase) \<Rightarrow>
                        do { ok \<leftarrow> sv_StartServer os evbase [] nPort;
                             State_Monad.return (map_option Not ok) } }))"

text \<open>Without its section or port the thread ends and the rest of the server goes on.\<close>

lemma net_run_without_port:
  "ini ''server'' = None \<or> (\<exists>s. ini ''server'' = Some s \<and> ini_int s ''listen_port'' = None) \<Longrightarrow>
   run_state (net_run os ini) tr = (Some False, tr)"
  by (auto simp: net_run_def)

text \<open>A failed \<^verbatim>\<open>evthread_use_pthreads\<close> is not noticed: with a listening socket the thread goes on to the null base.\<close>

lemma net_run_without_threads:
  assumes "ini ''server'' = Some s" "ini_int s ''listen_port'' = Some port" "os [] Sys_use_pthreads = - 1"
    and "fst (fst (run_state (sv_StartListen os [] port) [Sys_use_pthreads]))"
  shows "fst (run_state (net_run os ini) []) = None"
  using assms start_server_base [of os False "[]" port "[Sys_use_pthreads]"]
  by (auto simp: net_run_def sv_Init_def split: prod.splits)

text \<open>
  C31: A server whose configuration file says \<open>listen_port\<close> in its section \<open>server\<close>, a number below 65536,
  binds its socket to that port and no other: from the text of the file, through its reading and the
  look-up, to the system call. The network thread ends with the stop flag set exactly when it did not
  reach the event loop, and when it reached it the socket is bound to the port. The one other outcome is
  undefined behaviour, and only when libevent could not be set up for threads or gave no event base. The
  file is as for the round trip of configuration files: distinct section and tag names, names and values
  not empty and without blanks, commas, brackets (names), separators (names) and comment characters.
\<close>

theorem server_port_from_file:
  assumes "ini_globals_ok g" "ini_doc_ok g docs" "LoadBuffer g (ini_text g docs) INIFile_new = Some F"
    and "map_of docs ''server'' = Some tags" "map_of tags ''listen_port'' = Some (dec_str port # vs)" "port < 65536"
    and "run_state (net_run os (ini_of F)) [] = (r, tr)"
  shows "(\<forall>fd p. Sys_bind fd p \<in> set tr \<longrightarrow> unat p = port) \<and>
    (case r of
       Some stop \<Rightarrow> (stop \<longleftrightarrow> Sys_base_loop \<notin> set tr) \<and> (stop \<or> (\<exists>fd p. Sys_bind fd p \<in> set tr \<and> unat p = port))
     | None \<Rightarrow> os [] Sys_use_pthreads = - 1 \<or> os [Sys_use_pthreads] Sys_base_new = 0)"
proof -
  have c: "c_str ''server'' = ''server''" "c_str ''listen_port'' = ''listen_port''" by (simp_all add: c_str_def)
  obtain F' where F': "LoadBuffer g (ini_text g docs) INIFile_new = Some F'" "name_sorted is_Name (if_Sections F')"
    "set (if_Sections F') = read_section ` set (default_section # docs)" using LoadBuffer_text [OF assms(1,2)] by blast
  then have "F' = F" using assms(3) by simp
  note F = F'(2,3) [unfolded this]
  have m: "map_of (default_section # docs) (c_str ''server'') = Some tags" using assms(4) c by (simp add: default_section_def)
  note G = GetSection_text [OF assms(2) _ F, of "''server''"]
  have sec: "GetSection ''server'' F = Some (Some (read_section (''server'', tags)))" using G(1) m c by simp
  have all_ok: "list_all (tag_ok g) tags \<and> distinct (map fst tags)" using G(2) [OF _ m] unfolding c by blast
  note tags = conjunct1 [OF all_ok] conjunct2 [OF all_ok]
  have rs: "is_ReadString ''listen_port'' (read_section (''server'', tags)) = Some (Some (dec_str port))"
    using section_values(2) [of g "(''server'', tags)" "''listen_port''"] tags assms(5) c by simp
  have "int port \<le> INT_MAX" using assms(6) by (simp add: INT_MAX_def)
  with rs have ri: "is_ReadInt ''listen_port'' (read_section (''server'', tags)) = Some (Some (int port))"
    using ParseInt_dec_str by (simp add: is_ReadInt_def)
  have port: "unat (word_of_int (int port) :: uint16) = port" "unat (word_of_nat port :: uint16) = port"
    using assms(6) by (simp_all add: unat_of_nat)
  have srv: "\<exists>S. ini_of F ''server'' = Some S \<and> ini_int S ''listen_port'' = Some (int port)"
    using sec ri by (simp add: ini_of_def)
  note defs = net_run_def sv_StartServer_def sv_StartListen_def sv_CreatePidFile_def sv_Init_def open_pid_file_run
  show ?thesis using srv assms(7) port by (auto simp: defs split: if_splits)
qed

theorem server_port_from_file_witness:
  "\<exists>F r tr. LoadBuffer ini_globals_init (ini_text ini_globals_init demo_doc) INIFile_new = Some F \<and>
     run_state (net_run (\<lambda>tr c. 3) (ini_of F)) [] = (r, tr) \<and> r = Some (Sys_base_loop \<notin> set tr) \<and>
     (Sys_base_loop \<notin> set tr \<or> (\<exists>fd p. Sys_bind fd p \<in> set tr \<and> unat p = 8000))"
proof -
  obtain F where F: "LoadBuffer ini_globals_init (ini_text ini_globals_init demo_doc) INIFile_new = Some F"
    using LoadBuffer_total [of ini_globals_init "ini_text ini_globals_init demo_doc" INIFile_new]
    by (auto simp: if_IsValid_def INIFile_new_def)
  obtain r tr where run: "run_state (net_run (\<lambda>tr c. 3) (ini_of F)) [] = (r, tr)" by fastforce
  have port: "map_of [(''listen_port'', [''8000''])] ''listen_port'' = Some (dec_str 8000 # [])"
    by (simp add: dec_str.simps digit_char_def char_of_def bit_0)
  have doc: "map_of demo_doc ''server'' = Some [(''listen_port'', [''8000''])]" by (simp add: demo_doc_def)
  from server_port_from_file [OF ini_globals_ok_init demo_doc_ok F doc port _ run] F run show ?thesis
    by (cases r) auto
qed

text \<open>
  The relay connections: one client and session for every host, up to the event loop. A host without a
  port reads \<^verbatim>\<open>vecPort\<close> out of range; without an event base the first use of it is undefined.
\<close>

fun relay_start :: "allocator \<Rightarrow> (nat \<Rightarrow> conn_env) \<Rightarrow> 'r \<Rightarrow> ('r \<Rightarrow> bool \<Rightarrow> nat \<Rightarrow> 'r) \<Rightarrow> int list \<Rightarrow> nat \<Rightarrow> string list \<Rightarrow>
    ('h, 'r) sess_ctrl \<Rightarrow> ('h, 'r) sess_ctrl option" where
  "relay_start alloc env h0 on_connect vecPort i [] sc = Some sc"
| "relay_start alloc env h0 on_connect vecPort i (host # vecHost) sc =
     (if length vecPort \<le> i then None
      else
        do { (_, client) \<leftarrow> cl_Connect (env i) (c_str host) (vecPort ! i) (cl_Init (ce_timer_ok (env i)) 3 (cl_new alloc));
             let relay = rs_new (Some client) i (on_connect h0 False i);
             relay_start alloc env h0 on_connect vecPort (i + 1) vecHost (sc_AddRelayClientSession relay sc) })"

definition relay_run :: "allocator \<Rightarrow> (nat \<Rightarrow> conn_env) \<Rightarrow> 'r \<Rightarrow> ('r \<Rightarrow> bool \<Rightarrow> nat \<Rightarrow> 'r) \<Rightarrow> bool \<Rightarrow> bool \<Rightarrow> ini_file \<Rightarrow>
    ('h, 'r) sess_ctrl \<Rightarrow> ('h, 'r) sess_ctrl option" where
  "relay_run alloc env h0 on_connect pthreads_ok evbase ini sc =
     (case ini ''relayserver'' of
        None \<Rightarrow> Some sc
      | Some server \<Rightarrow>
          (case (ini_strings server ''relayserver_host'', ini_ints server ''relayserver_port'') of
             (Some vecHost, Some vecPort) \<Rightarrow>
               if \<not> pthreads_ok then Some sc
               else if \<not> evbase then None
               else relay_start alloc env h0 on_connect vecPort 0 vecHost sc
           | _ \<Rightarrow> Some sc))"

lemma relay_connects: "\<exists>r. cl_Connect e host port (cl_Init t n (cl_new alloc)) = Some r"
  by (auto simp: cl_Connect_def cl_Init_def cl_new_def Let_def)

lemma relay_start_ports:
  "relay_start alloc env h0 oc vecPort i vecHost sc \<noteq> None \<longleftrightarrow> vecHost = [] \<or> i + length vecHost \<le> length vecPort"
proof (induction vecHost arbitrary: i sc)
  case (Cons host vecHost)
  obtain ok client where "cl_Connect (env i) (c_str host) (vecPort ! i) (cl_Init (ce_timer_ok (env i)) 3 (cl_new alloc)) = Some (ok, client)"
    using relay_connects by fastforce
  with Cons show ?case by auto
qed simp

section \<open>main\<close>

text \<open>The options, from the second argument on; every second argument is passed over. \<^const>\<open>None\<close> is the usage text and \<^verbatim>\<open>exit\<close>.\<close>

fun ParseArg_loop :: "string list \<Rightarrow> bool \<Rightarrow> bool option" where
  "ParseArg_loop [] gDaemonFlag = Some gDaemonFlag"
| "ParseArg_loop [a] gDaemonFlag = (if a = ''-d'' then Some True else None)"
| "ParseArg_loop (a # b # argv) gDaemonFlag = (if a = ''-d'' then ParseArg_loop argv True else None)"

definition ParseArg :: "string list \<Rightarrow> bool option" where
  "ParseArg argv = ParseArg_loop (drop 1 argv) False"

datatype signum = SIGINT | SIGQUIT | SIGTERM | SIGABRT | SIGPIPE | SIGUSR1

datatype sig_handler = SIG_DFL | SIG_IGN | SIG_OnSignal

record process =
  pr_stopEvent :: bool
  pr_handlers :: "signum \<Rightarrow> sig_handler"

definition OnSignal :: "signum \<Rightarrow> process \<Rightarrow> process" where
  "OnSignal s p =
     (let p = (case s of SIGINT \<Rightarrow> p\<lparr>pr_stopEvent := True\<rparr> | SIGQUIT \<Rightarrow> p\<lparr>pr_stopEvent := True\<rparr>
                | SIGTERM \<Rightarrow> p\<lparr>pr_stopEvent := True\<rparr> | SIGUSR1 \<Rightarrow> p\<lparr>pr_stopEvent := True\<rparr> | _ \<Rightarrow> p)
      in p\<lparr>pr_handlers := (pr_handlers p)(s := SIG_OnSignal)\<rparr>)"

definition HookSignals :: "process \<Rightarrow> process" where
  "HookSignals p =
     p\<lparr>pr_handlers := (pr_handlers p)(SIGINT := SIG_OnSignal, SIGQUIT := SIG_OnSignal, SIGTERM := SIG_OnSignal,
        SIGABRT := SIG_OnSignal, SIGPIPE := SIG_IGN, SIGUSR1 := SIG_OnSignal)\<rparr>"

definition UnHookSignals :: "process \<Rightarrow> process" where
  "UnHookSignals p =
     p\<lparr>pr_handlers := (pr_handlers p)(SIGINT := SIG_DFL, SIGQUIT := SIG_DFL, SIGTERM := SIG_DFL, SIGABRT := SIG_DFL,
        SIGUSR1 := SIG_DFL)\<rparr>"

text \<open>\<^verbatim>\<open>CUtil::shutDown\<close>, the other way to the end.\<close>

definition CUtil_shutDown :: "process \<Rightarrow> process" where
  "CUtil_shutDown p = p\<lparr>pr_stopEvent := True\<rparr>"

text \<open>The delivery of a signal to the process.\<close>

definition deliver :: "signum \<Rightarrow> process \<Rightarrow> process" where
  "deliver s p = (case pr_handlers p s of SIG_OnSignal \<Rightarrow> OnSignal s p | _ \<Rightarrow> p)"

definition hooked :: "process \<Rightarrow> bool" where
  "hooked p \<longleftrightarrow> (\<forall>s. pr_handlers p s = (if s = SIGPIPE then SIG_IGN else SIG_OnSignal))"

lemma hooked_HookSignals: "hooked (HookSignals p)"
  unfolding hooked_def
proof
  fix s show "pr_handlers (HookSignals p) s = (if s = SIGPIPE then SIG_IGN else SIG_OnSignal)"
    by (cases s) (simp_all add: HookSignals_def)
qed

lemma deliver_hooked:
  assumes "hooked p"
  shows "hooked (deliver s p)"
    and "pr_stopEvent (deliver s p) \<longleftrightarrow> pr_stopEvent p \<or> s \<in> {SIGINT, SIGQUIT, SIGTERM, SIGUSR1}"
  using assms by (cases s; simp add: hooked_def deliver_def OnSignal_def Let_def)+

lemma signals_stop:
  "pr_stopEvent (fold deliver sigs (HookSignals p)) \<longleftrightarrow>
    pr_stopEvent p \<or> set sigs \<inter> {SIGINT, SIGQUIT, SIGTERM, SIGUSR1} \<noteq> {}"
proof -
  have "pr_stopEvent (fold deliver sigs q) \<longleftrightarrow> pr_stopEvent q \<or> set sigs \<inter> {SIGINT, SIGQUIT, SIGTERM, SIGUSR1} \<noteq> {}"
    if "hooked q" for q
    using that
  proof (induction sigs arbitrary: q)
    case (Cons s sigs)
    from Cons.IH [OF deliver_hooked(1) [OF Cons.prems]] deliver_hooked(2) [OF Cons.prems] show ?case by auto
  qed simp
  from this [OF hooked_HookSignals, of p] show ?thesis by (simp add: HookSignals_def)
qed

text \<open>
  \<open>InitServer\<close>: the log level and mask from the configuration, then the script and the handler of the
  main thread, whose result is \<open>handler_ok\<close>.
\<close>

definition InitServer :: "log_env \<Rightarrow> ini_file \<Rightarrow> bool \<Rightarrow> ime_log \<Rightarrow> bool \<times> ime_log" where
  "InitServer e ini handler_ok L =
     (case ini ''config'' of
        None \<Rightarrow> (False, L)
      | Some configPath \<Rightarrow>
          (case ini_string configPath ''loglevel'' of
             None \<Rightarrow> (False, L)
           | Some strLogLevel \<Rightarrow>
               let L = SetLogLevel e strLogLevel L in
               (case ini_int configPath ''logdebug'' of
                  None \<Rightarrow> (False, L)
                | Some debugmask \<Rightarrow> (handler_ok, SetDebugLogMask e (word_of_int debugmask) L))))"

text \<open>\<open>main\<close> as the sequence of its steps. \<open>ClientSessionRun\<close> is 0 in the settings.\<close>

datatype main_step =
    Main_daemon | Main_log | Main_hook | Main_net_thread | Main_relay_thread | Main_world_thread
  | Main_wait_world | Main_wait_net | Main_wait_relay | Main_unhook | Main_end | Main_usage

definition main_steps :: "string list \<Rightarrow> bool \<Rightarrow> bool \<Rightarrow> bool \<Rightarrow> main_step list" where
  "main_steps argv ini_opened init_ok ClientSessionRun =
     (case ParseArg argv of
        None \<Rightarrow> [Main_usage]
      | Some daemon \<Rightarrow>
          (if daemon then [Main_daemon] else []) @ [Main_log] @
          (if \<not> ini_opened \<or> \<not> init_ok then []
           else [Main_hook, Main_net_thread] @ (if ClientSessionRun then [Main_relay_thread] else []) @
             [Main_world_thread, Main_wait_world, Main_wait_net] @ (if ClientSessionRun then [Main_wait_relay] else []) @
             [Main_unhook, Main_end]))"

text \<open>An argument after an option is not looked at.\<close>

lemma argument_passed_over: "ParseArg [''server'', ''-d'', x] = Some True"
  by (simp add: ParseArg_def)

end
