(* ===== verification/Support.thy ===== *)
theory Support
  imports Util
begin

unbundle bit_operations_syntax

text \<open>
  Smaller parts: lists of floating-point numbers in \<^verbatim>\<open>CUtil\<close> (pitayaserver/framework/Util.cpp), the type
  information of \<^verbatim>\<open>TObject\<close> (object.h, object.cpp), the numbers of the relay commands
  (CmdInnerDefine.h), the MongoDB driver (MongoDBDrive.cpp) and the script engine (ScriptGlue.cpp).

  Floating-point conversion, the MongoDB client library and the Lua engine are parameters.
\<close>

section \<open>Lists of floating-point numbers\<close>

text \<open>
  \<open>atof\<close> and \<open>print\<close> (\<^verbatim>\<open>%f\<close>) are the C library's. A number is printed into 50 bytes; a longer text
  overflows them.
\<close>

definition StrSplit_real :: "(string \<Rightarrow> 'f) \<Rightarrow> string \<Rightarrow> string \<Rightarrow> 'f list" where
  "StrSplit_real atof src sep = split_loop (\<lambda>s. atof (c_str s)) sep [] src"

definition print_real :: "('f \<Rightarrow> string) \<Rightarrow> 'f \<Rightarrow> string option" where
  "print_real print x = (if length (print x) < 50 then Some (print x) else None)"

fun merge_reals :: "('f \<Rightarrow> string) \<Rightarrow> string \<Rightarrow> 'f list \<Rightarrow> string \<Rightarrow> string option" where
  "merge_reals print sep [] src = Some src"
| "merge_reals print sep (x # xs) src = do { t \<leftarrow> print_real print x; merge_reals print sep xs (src @ sep @ t) }"

definition StrMerge_real :: "('f \<Rightarrow> string) \<Rightarrow> string \<Rightarrow> 'f list \<Rightarrow> string option" where
  "StrMerge_real print sep vecRes =
     (case vecRes of [] \<Rightarrow> Some [] | x # xs \<Rightarrow> do { t \<leftarrow> print_real print x; merge_reals print sep xs t })"

lemma StrMerge_real_fits:
  assumes "\<forall>x \<in> set xs. length (print x) < 50"
  shows "StrMerge_real print sep xs = Some (merge_with print sep xs)"
proof -
  have m: "merge_reals print sep ys src = Some (merge_loop print sep src ys)"
    if "\<forall>y \<in> set ys. length (print y) < 50" for ys src
    using that by (induction ys arbitrary: src) (auto simp: print_real_def)
  from assms show ?thesis
    by (cases xs) (auto simp: StrMerge_real_def merge_with_def print_real_def m)
qed

text \<open>\<open>GetLinearList\<close>; \<open>scale i\<close> is \<open>5 * k * i\<close> as an \<^verbatim>\<open>int\<close>. A negative length makes \<^verbatim>\<open>resize\<close> throw.\<close>

definition linear_value :: "(nat \<Rightarrow> int) \<Rightarrow> nat \<Rightarrow> int" where
  "linear_value scale i = (if scale i = 0 then 1 else scale i)"

definition GetLinearList :: "(nat \<Rightarrow> int) \<Rightarrow> int list \<Rightarrow> int \<Rightarrow> int list option" where
  "GetLinearList scale vecValue nLen =
     (if nLen < 0 then None
      else Some (fold (\<lambda>i v. v[nat nLen - i - 1 := linear_value scale i]) [0..<nat nLen] (vec_resize 0 (nat nLen) vecValue)))"

lemma GetLinearList_values:
  assumes "j < n"
  shows "\<exists>v. GetLinearList scale vec (int n) = Some v \<and> length v = n \<and> v ! j = linear_value scale (n - 1 - j)"
proof -
  have "length (fold (\<lambda>i v. v[n - i - 1 := linear_value scale i]) [0..<k] w) = length w \<and>
      (\<forall>j < n. length w = n \<longrightarrow> k \<le> n \<longrightarrow>
        fold (\<lambda>i v. v[n - i - 1 := linear_value scale i]) [0..<k] w ! j =
          (if n - 1 - j < k then linear_value scale (n - 1 - j) else w ! j))" for k and w :: "int list"
  proof (induction k)
    case (Suc k)
    then show ?case by (auto simp: nth_list_update)
  qed simp
  from this [of n "vec_resize 0 n vec"] assms show ?thesis by (simp add: GetLinearList_def)
qed

section \<open>Type information\<close>

text \<open>A class: its name, its number and its base; the numbers are given in the order of initialisation.\<close>

datatype type_info = TypeInfo (ti_className: string) (ti_type_id: nat) (ti_base: "type_info option")

fun IsKindOf_loop :: "type_info \<Rightarrow> nat \<Rightarrow> bool" where
  "IsKindOf_loop (TypeInfo n i base) cls =
     (if i = cls then True else case base of None \<Rightarrow> False | Some p \<Rightarrow> IsKindOf_loop p cls)"

definition IsKindOf :: "type_info \<Rightarrow> type_info \<Rightarrow> bool" where
  "IsKindOf obj cls = IsKindOf_loop obj (ti_type_id cls)"

definition IsInstanceOf :: "type_info \<Rightarrow> type_info \<Rightarrow> bool" where
  "IsInstanceOf obj cls \<longleftrightarrow> ti_type_id obj = ti_type_id cls"

definition safe_cast :: "(type_info \<times> 'o) option \<Rightarrow> type_info \<Rightarrow> 'o option" where
  "safe_cast ptr cls = (case ptr of None \<Rightarrow> None | Some (ti, obj) \<Rightarrow> if IsKindOf ti cls then Some obj else None)"

text \<open>\<open>InitTypeInfo\<close> sets the number of one class and counts on.\<close>

definition InitTypeInfo :: "type_info \<Rightarrow> nat \<Rightarrow> type_info \<times> nat" where
  "InitTypeInfo info TypeInfoOrder = (TypeInfo (ti_className info) TypeInfoOrder (ti_base info), TypeInfoOrder + 1)"

fun bases :: "type_info \<Rightarrow> type_info list" where
  "bases (TypeInfo n i base) = TypeInfo n i base # (case base of None \<Rightarrow> [] | Some p \<Rightarrow> bases p)"

text \<open>With one number for each class, \<open>IsKindOf\<close> is: the class is the object's or one of its bases.\<close>

lemma IsKindOf_bases: "IsKindOf obj cls \<longleftrightarrow> ti_type_id cls \<in> ti_type_id ` set (bases obj)"
proof -
  have "IsKindOf_loop t i \<longleftrightarrow> i \<in> ti_type_id ` set (bases t)" for t i
    by (induction t rule: bases.induct) (auto split: option.split)
  then show ?thesis by (simp add: IsKindOf_def)
qed

lemma IsKindOf_distinct:
  assumes "inj_on ti_type_id C" "set (bases obj) \<subseteq> C" "cls \<in> C"
  shows "IsKindOf obj cls \<longleftrightarrow> cls \<in> set (bases obj)"
  unfolding IsKindOf_bases by (rule inj_on_image_mem_iff [OF assms(1) assms(3,2)])

section \<open>Relay commands\<close>

definition CMD_MAKE_RELAYCLIENT :: "32 word \<Rightarrow> 32 word" where
  "CMD_MAKE_RELAYCLIENT v = push_bit 1 v OR 1"

definition CMD_MAKE_RELAYSERVER :: "32 word \<Rightarrow> 32 word" where
  "CMD_MAKE_RELAYSERVER v = push_bit 1 v"

definition CMD_IS_RELAYCLIENT :: "32 word \<Rightarrow> bool" where
  "CMD_IS_RELAYCLIENT v \<longleftrightarrow> v AND 1 = 1"

definition CMD_IS_RELAYSERVER :: "32 word \<Rightarrow> bool" where
  "CMD_IS_RELAYSERVER v \<longleftrightarrow> v AND 1 = 0"

lemma relay_command_side:
  "CMD_IS_RELAYCLIENT (CMD_MAKE_RELAYCLIENT v)" "\<not> CMD_IS_RELAYSERVER (CMD_MAKE_RELAYCLIENT v)"
  "CMD_IS_RELAYSERVER (CMD_MAKE_RELAYSERVER v)" "\<not> CMD_IS_RELAYCLIENT (CMD_MAKE_RELAYSERVER v)"
  "CMD_IS_RELAYSERVER w \<longleftrightarrow> \<not> CMD_IS_RELAYCLIENT w"
  by (auto simp: CMD_IS_RELAYCLIENT_def CMD_IS_RELAYSERVER_def CMD_MAKE_RELAYCLIENT_def CMD_MAKE_RELAYSERVER_def
      and_one_eq even_or_iff even_push_bit_iff simp flip: odd_iff_mod_2_eq_one even_iff_mod_2_eq_zero
      simp del: push_bit_Suc push_bit_eq_mult)


section \<open>MongoDB\<close>

text \<open>
  The client library over clients \<open>'m\<close>, documents \<open>'d\<close>. A collection is the database and its name. A call
  on a null collection stops the process in the library.
\<close>

record ('m, 'd) mongo_api =
  mo_client_new :: "string \<Rightarrow> 'm option"
  mo_default_database :: "'m \<Rightarrow> string option"
  mo_ping :: "string \<Rightarrow> 'm \<Rightarrow> bool"
  mo_upsert :: "string \<times> string \<Rightarrow> 'd \<Rightarrow> 'd \<Rightarrow> 'm \<Rightarrow> bool \<times> 'm"
  mo_find :: "string \<times> string \<Rightarrow> 'd \<Rightarrow> 'm \<Rightarrow> 'd list \<times> bool"

record 'm mongo =
  mg_client :: "'m option"
  mg_collection :: "(string \<times> string) option"

definition CMongo_new :: "'m mongo" where
  "CMongo_new = \<lparr>mg_client = None, mg_collection = None\<rparr>"

definition mg_Init :: "('m, 'd) mongo_api \<Rightarrow> string \<Rightarrow> string \<Rightarrow> 'm mongo \<Rightarrow> int \<times> 'm mongo" where
  "mg_Init api connectStr colName M =
     (if mg_client M \<noteq> None then (- 1, M)
      else case mo_client_new api (c_str connectStr) of
        None \<Rightarrow> (- 1, M)
      | Some c \<Rightarrow>
          let M = M\<lparr>mg_client := Some c\<rparr> in
          (case mo_default_database api c of
             None \<Rightarrow> (- 1, M)
           | Some dbName \<Rightarrow>
               let M = M\<lparr>mg_collection := Some (dbName, c_str colName)\<rparr> in
               if \<not> mo_ping api dbName c then (- 1, M) else (0, M)))"

definition mg_Upsert :: "('m, 'd) mongo_api \<Rightarrow> 'd \<Rightarrow> 'd \<Rightarrow> 'm mongo \<Rightarrow> (int \<times> 'm mongo) option" where
  "mg_Upsert api query update M =
     do { c \<leftarrow> mg_client M; col \<leftarrow> mg_collection M;
          let (ok, c) = mo_upsert api col query update c;
          Some (if ok then 0 else - 1, M\<lparr>mg_client := Some c\<rparr>) }"

definition mg_Find :: "('m, 'd) mongo_api \<Rightarrow> 'd \<Rightarrow> 'd list \<Rightarrow> 'm mongo \<Rightarrow> (int \<times> 'd list) option" where
  "mg_Find api query vecResult M =
     do { c \<leftarrow> mg_client M; col \<leftarrow> mg_collection M;
          let (docs, err) = mo_find api col query c;
          Some (if err then - 1 else 0, vecResult @ docs) }"

text \<open>A connection that fails after the client was made cannot be tried again on the same object.\<close>

lemma mongo_no_retry:
  assumes "mg_Init api u col M = (r, M')" "mo_client_new api (c_str u) \<noteq> None"
  shows "mg_Init api u' col' M' = (- 1, M')"
  using assms by (auto simp: mg_Init_def Let_def split: if_splits option.splits)

section \<open>Scripts\<close>

text \<open>
  The engine over Lua states \<open>'l\<close>: what it opens, and what registering a name and running a file do to a
  state. The names are registered in this order; a class is registered under an empty name. A null
  state is not checked before it is used.
\<close>

datatype script_type = CPP_SCRIPT | LUA_SCRIPT | JAVASCRIPT_SCRIPT

record 'l script_engine =
  se_openLua :: 'l
  se_register :: "string \<times> string \<Rightarrow> 'l \<Rightarrow> 'l"
  se_doFile :: "string \<Rightarrow> 'l \<Rightarrow> 'l"

record 'l script_support =
  ss_pL :: "'l option"
  ss_Type :: script_type

definition script_exports :: "(string \<times> string) list" where
  "script_exports =
     [(''WorldPacket'', []), (''WorldPacket'', ''Clear''), (''WorldPacket'', ''Set8''), (''WorldPacket'', ''Set16''),
      (''WorldPacket'', ''Set32''), (''WorldPacket'', ''Set64''), (''WorldPacket'', ''Get8''), (''WorldPacket'', ''Get16''),
      (''WorldPacket'', ''Get32''), (''WorldPacket'', ''Get64''), (''WorldPacket'', ''Getrpos''), (''WorldPacket'', ''Setrpos''),
      (''WorldPacket'', ''Getwpos''), (''WorldPacket'', ''Setwpos''), (''WorldPacket'', ''GetStr''), (''WorldPacket'', ''SetStr''),
      (''WorldPacket'', ''Append''), (''WorldPacket'', ''GetContents''), (''WorldPacket'', ''HexLike''),
      (''CHandlerPlayersession'', []), (''CHandlerPlayersession'', ''SendPacket''),
      (''CHandlerPlayersession'', ''SendPacketToRelay''), (''CHandlerClientSession'', []),
      (''CHandlerClientSession'', ''SendPacket''), ([], ''log''), ([], ''detail_log''), ([], ''debug_log''), ([], ''error_log'')]"

definition CScriptSupport_new :: "'l script_support" where
  "CScriptSupport_new = \<lparr>ss_pL = None, ss_Type = CPP_SCRIPT\<rparr>"

definition script_Init :: "'l script_engine \<Rightarrow> script_type \<Rightarrow> 'l script_support \<Rightarrow> bool \<times> 'l script_support" where
  "script_Init E e S =
     (case e of LUA_SCRIPT \<Rightarrow> (True, S\<lparr>ss_pL := Some (se_openLua E), ss_Type := e\<rparr>) | _ \<Rightarrow> (False, S))"

definition script_UnInit :: "'l script_support \<Rightarrow> 'l script_support" where
  "script_UnInit S = (if ss_Type S = LUA_SCRIPT then S\<lparr>ss_pL := None\<rparr> else S)"

definition LoadScript :: "'l script_engine \<Rightarrow> string \<Rightarrow> 'l script_support \<Rightarrow> (bool \<times> 'l script_support) option" where
  "LoadScript E script S =
     (case ss_Type S of
        LUA_SCRIPT \<Rightarrow>
          do { _ \<leftarrow> ss_pL S;
               let L = fold (se_register E) script_exports (se_openLua E);
               Some (True, S\<lparr>ss_pL := Some (se_doFile E script L)\<rparr>) }
      | _ \<Rightarrow> Some (False, S))"

text \<open>
  Loading again starts from a new engine state, so nothing of the earlier script is left; after
  \<open>UnInit\<close> the type is still Lua and loading uses a null state.
\<close>

lemma LoadScript_again:
  assumes "LoadScript E s1 S = Some (True, S1)"
  shows "LoadScript E s2 S1 = LoadScript E s2 S" and "LoadScript E s2 (script_UnInit S1) = None"
  using assms by (auto simp: LoadScript_def script_UnInit_def split: script_type.splits Option.bind_splits)

end
