(* ===== verification/Ini_Memory.thy ===== *)
theory Ini_Memory
  imports Prelude
begin

text \<open>
  The memory of the configuration reader: the allocator that gives out the space of names and tags
  (dep/include/miniini/allocator.h, dep/src/miniini/allocator.cpp).

  A block of \<^verbatim>\<open>new c[n]\<close> is a number of its own; a pointer into it is that number and an offset. A failed
  assertion or an index out of range is \<^const>\<open>None\<close>.
\<close>

section \<open>Blocks\<close>

record mem_block =
  mb_Allocated :: nat
  mb_Used :: nat
  mb_PtrsGiven :: nat
  mb_PtrsDeleted :: nat
  mb_Data :: nat

definition Block_new :: "nat \<Rightarrow> nat \<Rightarrow> mem_block" where
  "Block_new data alloc = \<lparr>mb_Allocated = alloc, mb_Used = 0, mb_PtrsGiven = 0, mb_PtrsDeleted = 0, mb_Data = data\<rparr>"

definition mb_GetRemainingSpace :: "mem_block \<Rightarrow> nat" where
  "mb_GetRemainingSpace B = mb_Allocated B - mb_Used B"

definition mb_Reallocate :: "nat \<Rightarrow> nat \<Rightarrow> mem_block \<Rightarrow> mem_block option" where
  "mb_Reallocate data sz B =
     (if mb_Used B \<noteq> 0 \<or> mb_PtrsGiven B \<noteq> 0 \<or> mb_PtrsDeleted B \<noteq> 0 then None
      else Some (B\<lparr>mb_Allocated := sz, mb_Data := data\<rparr>))"

section \<open>Allocator\<close>

text \<open>\<open>ma_fresh\<close> is the number of the next block of memory; it is not a field of the class.\<close>

record mem_alloc =
  ma_CurrentBlock :: nat
  ma_BlockMinSize :: nat
  ma_Blocks :: "mem_block list"
  ma_fresh :: nat

definition Allocator_new :: "nat \<Rightarrow> nat \<Rightarrow> mem_alloc option" where
  "Allocator_new sz blocks =
     (if blocks = 0 then None
      else Some \<lparr>ma_CurrentBlock = 0, ma_BlockMinSize = sz div blocks + 1,
                 ma_Blocks = map (\<lambda>d. Block_new d (sz div blocks + 1)) [0..<blocks], ma_fresh = blocks\<rparr>)"

definition NewBlock :: "mem_alloc \<Rightarrow> mem_alloc" where
  "NewBlock A =
     A\<lparr>ma_Blocks := ma_Blocks A @ [Block_new (ma_fresh A) (ma_BlockMinSize A)], ma_fresh := ma_fresh A + 1\<rparr>"

definition NextBlock :: "nat \<Rightarrow> mem_alloc \<Rightarrow> mem_alloc option" where
  "NextBlock minsize A =
     (let cur = ma_CurrentBlock A + 1;
          A = A\<lparr>ma_CurrentBlock := cur\<rparr>;
          A = (if minsize > ma_BlockMinSize A then A\<lparr>ma_BlockMinSize := minsize\<rparr> else A)
      in if cur < length (ma_Blocks A)
         then (if mb_GetRemainingSpace (ma_Blocks A ! cur) < minsize
               then do { B \<leftarrow> mb_Reallocate (ma_fresh A) (ma_BlockMinSize A) (ma_Blocks A ! cur);
                         Some (A\<lparr>ma_Blocks := (ma_Blocks A)[cur := B], ma_fresh := ma_fresh A + 1\<rparr>) }
               else Some A)
         else Some (NewBlock A))"

text \<open>\<open>NewSpace\<close> calls itself when the block is full; the block it then finds has the room.\<close>

lemma NextBlock_room:
  "NextBlock sz A = Some A' \<Longrightarrow> ma_CurrentBlock A' < length (ma_Blocks A') \<Longrightarrow>
    sz \<le> mb_GetRemainingSpace (ma_Blocks A' ! ma_CurrentBlock A')"
  by (auto simp: NextBlock_def Let_def NewBlock_def Block_new_def mb_Reallocate_def mb_GetRemainingSpace_def nth_append
      split: if_splits elim!: bind_SomeE)

function NewSpace :: "nat \<Rightarrow> mem_alloc \<Rightarrow> ((nat \<times> nat) \<times> mem_alloc) option" where
  "NewSpace sz A =
     (if \<not> ma_CurrentBlock A < length (ma_Blocks A) then None
      else
        let cur = ma_CurrentBlock A; B = ma_Blocks A ! cur in
        if mb_Allocated B - mb_Used B < sz
        then (case NextBlock sz A of None \<Rightarrow> None | Some A' \<Rightarrow> NewSpace sz A')
        else Some ((mb_Data B, mb_Used B),
                   A\<lparr>ma_Blocks := (ma_Blocks A)[cur := B\<lparr>mb_Used := mb_Used B + sz, mb_PtrsGiven := mb_PtrsGiven B + 1\<rparr>]\<rparr>))"
  by auto
termination
  by (relation "measure (\<lambda>(sz, A). if ma_CurrentBlock A < length (ma_Blocks A) \<and>
      mb_GetRemainingSpace (ma_Blocks A ! ma_CurrentBlock A) < sz then 1 else 0)")
    (auto simp: mb_GetRemainingSpace_def dest!: NextBlock_room)

declare NewSpace.simps [simp del]

definition DeleteBlock :: "nat \<Rightarrow> mem_alloc \<Rightarrow> mem_alloc option" where
  "DeleteBlock index A =
     (if \<not> index < length (ma_Blocks A) then None
      else
        let A = A\<lparr>ma_Blocks := take index (ma_Blocks A) @ drop (index + 1) (ma_Blocks A)\<rparr> in
        Some (if ma_Blocks A = [] then NewBlock A else A))"

function Trim :: "mem_alloc \<Rightarrow> mem_alloc" where
  "Trim A =
     (if ma_CurrentBlock A < length (ma_Blocks A) - 1
      then (case DeleteBlock (ma_CurrentBlock A + 1) A of None \<Rightarrow> A | Some A' \<Rightarrow> Trim A')
      else A)"
  by auto
termination
  by (relation "measure (\<lambda>A. length (ma_Blocks A))")
    (auto simp: DeleteBlock_def Let_def NewBlock_def split: if_splits)

declare Trim.simps [simp del]

fun find_block :: "nat \<times> nat \<Rightarrow> nat \<Rightarrow> mem_block list \<Rightarrow> int" where
  "find_block ptr i [] = - 1"
| "find_block ptr i (B # Bs) =
     (if mb_Data B = fst ptr \<and> snd ptr < mb_Allocated B then int i else find_block ptr (i + 1) Bs)"

definition FindBlock :: "nat \<times> nat \<Rightarrow> mem_alloc \<Rightarrow> int" where
  "FindBlock ptr A = find_block ptr 0 (ma_Blocks A)"

definition DeleteSpace :: "nat \<times> nat \<Rightarrow> mem_alloc \<Rightarrow> mem_alloc option" where
  "DeleteSpace ptr A =
     (let blockidx = FindBlock ptr A in
      if blockidx < 0 then None
      else
        let b = nat blockidx; B = (ma_Blocks A ! b)\<lparr>mb_PtrsDeleted := mb_PtrsDeleted (ma_Blocks A ! b) + 1\<rparr>;
            A = A\<lparr>ma_Blocks := (ma_Blocks A)[b := B]\<rparr>
        in if mb_PtrsDeleted B = mb_PtrsGiven B
           then (if b = ma_CurrentBlock A then Some A else DeleteBlock b A)
           else Some A)"

section \<open>Space given out is the caller's alone\<close>

text \<open>The blocks have memory of their own, none is over-full, and those after the current one are unused.\<close>

definition mem_ok :: "mem_alloc \<Rightarrow> bool" where
  "mem_ok A \<longleftrightarrow>
     ma_CurrentBlock A < length (ma_Blocks A) \<and> distinct (map mb_Data (ma_Blocks A)) \<and>
     (\<forall>B \<in> set (ma_Blocks A). mb_Data B < ma_fresh A \<and> mb_Used B \<le> mb_Allocated B) \<and>
     (\<forall>B \<in> set (drop (ma_CurrentBlock A + 1) (ma_Blocks A)). mb_Used B = 0 \<and> mb_PtrsGiven B = 0 \<and> mb_PtrsDeleted B = 0)"

text \<open>A space is a pointer and a size; it lies in the used part of a block.\<close>

type_synonym mem_space = "(nat \<times> nat) \<times> nat"

definition space_in :: "mem_alloc \<Rightarrow> mem_space \<Rightarrow> bool" where
  "space_in A s \<longleftrightarrow> (\<exists>B \<in> set (take (ma_CurrentBlock A + 1) (ma_Blocks A)).
     mb_Data B = fst (fst s) \<and> snd (fst s) + snd s \<le> mb_Used B)"

definition apart :: "mem_space \<Rightarrow> mem_space \<Rightarrow> bool" where
  "apart s t \<longleftrightarrow> fst (fst s) \<noteq> fst (fst t) \<or> snd (fst s) + snd s \<le> snd (fst t) \<or> snd (fst t) + snd t \<le> snd (fst s)"

lemma Allocator_ok: "Allocator_new sz blocks = Some A \<Longrightarrow> mem_ok A"
  by (auto simp: Allocator_new_def mem_ok_def Block_new_def comp_def dest!: in_set_dropD split: if_splits)

lemma NextBlock_ok:
  assumes "mem_ok A"
  shows "\<exists>A'. NextBlock sz A = Some A' \<and> mem_ok A' \<and> (\<forall>s. space_in A s \<longrightarrow> space_in A' s)"
proof -
  let ?cur = "ma_CurrentBlock A + 1" and ?bs = "ma_Blocks A"
  define m where "m = (if sz > ma_BlockMinSize A then sz else ma_BlockMinSize A)"
  have ok: "ma_CurrentBlock A < length ?bs" "distinct (map mb_Data ?bs)"
    "\<forall>B \<in> set ?bs. mb_Data B < ma_fresh A \<and> mb_Used B \<le> mb_Allocated B"
    "\<forall>B \<in> set (drop ?cur ?bs). mb_Used B = 0 \<and> mb_PtrsGiven B = 0 \<and> mb_PtrsDeleted B = 0"
    using assms by (simp_all add: mem_ok_def)
  show ?thesis
  proof (cases "?cur < length ?bs")
    case True
    then have "?bs ! ?cur \<in> set (drop ?cur ?bs)" by (metis Cons_nth_drop_Suc list.set_intros(1))
    then have u: "mb_Used (?bs ! ?cur) = 0" "mb_PtrsGiven (?bs ! ?cur) = 0" "mb_PtrsDeleted (?bs ! ?cur) = 0" using ok(4) by auto
    have sub: "set (drop (Suc ?cur) ?bs) \<subseteq> set (drop ?cur ?bs)"
      by (metis drop_Suc drop_tl list.set_sel(2) set_drop_subset_set_drop le_SucI order_refl)
    have tk: "set (take ?cur ?bs) \<subseteq> set (take (Suc ?cur) ?bs)" by (simp add: set_take_subset_set_take)
    show ?thesis
    proof (cases "mb_GetRemainingSpace (?bs ! ?cur) < sz")
      case realloc: True
      define B where "B = (?bs ! ?cur)\<lparr>mb_Allocated := m, mb_Data := ma_fresh A\<rparr>"
      let ?A = "A\<lparr>ma_CurrentBlock := ?cur, ma_BlockMinSize := m, ma_Blocks := ?bs[?cur := B], ma_fresh := ma_fresh A + 1\<rparr>"
      have N: "NextBlock sz A = Some ?A"
        using True realloc u by (simp add: NextBlock_def Let_def mb_Reallocate_def m_def B_def)
      have "distinct (map mb_Data (?bs[?cur := B]))"
      proof -
        have "ma_fresh A \<notin> set (map mb_Data ?bs)" using ok(3) by auto
        then show ?thesis using ok(2) True by (simp add: map_update B_def distinct_list_update)
      qed
      moreover have "\<forall>B' \<in> set (?bs[?cur := B]). mb_Data B' < ma_fresh A + 1 \<and> mb_Used B' \<le> mb_Allocated B'"
        using ok(3) u by (auto simp: B_def less_Suc_eq dest!: subsetD [OF set_update_subset_insert])
      ultimately have "mem_ok ?A" using True ok(4) sub by (auto simp: mem_ok_def)
      moreover have "space_in ?A s" if "space_in A s" for s
        using that True by (auto simp: space_in_def take_Suc_conv_app_nth)
      ultimately show ?thesis using N by blast
    next
      case False
      then have N: "NextBlock sz A = Some (A\<lparr>ma_CurrentBlock := ?cur, ma_BlockMinSize := m\<rparr>)"
        using True by (simp add: NextBlock_def Let_def m_def)
      moreover have "mem_ok (A\<lparr>ma_CurrentBlock := ?cur, ma_BlockMinSize := m\<rparr>)" using True ok sub by (auto simp: mem_ok_def)
      ultimately show ?thesis using tk by (auto simp: space_in_def)
    qed
  next
    case False
    let ?A = "A\<lparr>ma_CurrentBlock := ?cur, ma_BlockMinSize := m, ma_Blocks := ?bs @ [Block_new (ma_fresh A) m], ma_fresh := ma_fresh A + 1\<rparr>"
    have N: "NextBlock sz A = Some ?A" using False by (simp add: NextBlock_def Let_def NewBlock_def m_def)
    have "mem_ok ?A" using False ok by (auto simp: mem_ok_def Block_new_def less_Suc_eq)
    moreover have "space_in ?A s" if "space_in A s" for s using that False by (auto simp: space_in_def dest: in_set_takeD)
    ultimately show ?thesis using N by blast
  qed
qed

text \<open>A new space lies inside its block, does not touch the ones given out before, and they stay.\<close>

lemma NewSpace_here:
  assumes "mem_ok A" "sz \<le> mb_GetRemainingSpace (ma_Blocks A ! ma_CurrentBlock A)"
  shows "\<exists>p A'. NewSpace sz A = Some (p, A') \<and> mem_ok A' \<and> space_in A' (p, sz) \<and>
    (\<forall>s. space_in A s \<longrightarrow> space_in A' s \<and> apart s (p, sz))"
proof -
  let ?cur = "ma_CurrentBlock A" and ?bs = "ma_Blocks A"
  let ?B = "?bs ! ?cur"
  define B where "B = ?B\<lparr>mb_Used := mb_Used ?B + sz, mb_PtrsGiven := mb_PtrsGiven ?B + 1\<rparr>"
  let ?A = "A\<lparr>ma_Blocks := ?bs[?cur := B]\<rparr>"
  have ok: "?cur < length ?bs" "distinct (map mb_Data ?bs)"
    "\<forall>B \<in> set ?bs. mb_Data B < ma_fresh A \<and> mb_Used B \<le> mb_Allocated B"
    "\<forall>B \<in> set (drop (?cur + 1) ?bs). mb_Used B = 0 \<and> mb_PtrsGiven B = 0 \<and> mb_PtrsDeleted B = 0"
    using assms(1) by (simp_all add: mem_ok_def)
  have N: "NewSpace sz A = Some ((mb_Data ?B, mb_Used ?B), ?A)"
    using ok(1) assms(2) by (subst NewSpace.simps) (simp add: Let_def mb_GetRemainingSpace_def B_def)
  have Bin: "?B \<in> set ?bs" using ok(1) by simp
  then have room: "mb_Used ?B + sz \<le> mb_Allocated ?B" using ok(3) assms(2) by (auto simp: mb_GetRemainingSpace_def)
  have "map mb_Data (?bs[?cur := B]) = map mb_Data ?bs" using ok(1) list_update_id [of "map mb_Data ?bs" ?cur] by (simp add: map_update B_def)
  then have "mem_ok ?A"
    using ok Bin room unfolding mem_ok_def
    by (auto simp: B_def dest!: subsetD [OF set_update_subset_insert])
  moreover have "space_in ?A ((mb_Data ?B, mb_Used ?B), sz)"
    using ok(1) by (auto simp: space_in_def take_Suc_conv_app_nth B_def)
  moreover have "space_in ?A s \<and> apart s ((mb_Data ?B, mb_Used ?B), sz)" if sp: "space_in A s" for s
  proof -
    obtain C where C: "C \<in> set (take (?cur + 1) ?bs)" "mb_Data C = fst (fst s)" "snd (fst s) + snd s \<le> mb_Used C"
      using sp unfolding space_in_def by blast
    show ?thesis
    proof (cases "C = ?B")
      case True
      then have "space_in ?A s" using C ok(1) by (auto simp: space_in_def take_Suc_conv_app_nth B_def)
      with True C show ?thesis by (auto simp: apart_def)
    next
      case False
      with C ok(1) have "C \<in> set (take ?cur ?bs)" by (auto simp: take_Suc_conv_app_nth)
      then have "space_in ?A s" using C ok(1) by (auto simp: space_in_def take_Suc_conv_app_nth)
      moreover have "mb_Data C \<noteq> mb_Data ?B"
        using False C(1) Bin ok(2) by (auto simp: distinct_map inj_on_def dest!: in_set_takeD)
      ultimately show ?thesis using C by (simp add: apart_def)
    qed
  qed
  ultimately show ?thesis using N by blast
qed

lemma NewSpace_ok:
  assumes "mem_ok A"
  shows "\<exists>p A'. NewSpace sz A = Some (p, A') \<and> mem_ok A' \<and> space_in A' (p, sz) \<and>
    (\<forall>s. space_in A s \<longrightarrow> space_in A' s \<and> apart s (p, sz))"
proof (cases "sz \<le> mb_GetRemainingSpace (ma_Blocks A ! ma_CurrentBlock A)")
  case True
  then show ?thesis by (rule NewSpace_here [OF assms])
next
  case False
  obtain A1 where A1: "NextBlock sz A = Some A1" "mem_ok A1" "\<forall>s. space_in A s \<longrightarrow> space_in A1 s"
    using NextBlock_ok [OF assms] by blast
  then have "sz \<le> mb_GetRemainingSpace (ma_Blocks A1 ! ma_CurrentBlock A1)" by (auto simp: mem_ok_def intro: NextBlock_room)
  from NewSpace_here [OF A1(2) this] obtain p A' where N: "NewSpace sz A1 = Some (p, A')" "mem_ok A'" "space_in A' (p, sz)"
    "\<forall>s. space_in A1 s \<longrightarrow> space_in A' s \<and> apart s (p, sz)" by blast
  have "NewSpace sz A = NewSpace sz A1"
    using False A1(1) assms by (subst NewSpace.simps) (simp add: Let_def mb_GetRemainingSpace_def mem_ok_def)
  with N A1(3) show ?thesis by auto
qed

text \<open>\<open>Trim\<close> deletes only blocks after the current one.\<close>

lemma Trim_spaces: "mem_ok A \<Longrightarrow> mem_ok (Trim A) \<and> (\<forall>s. space_in A s \<longrightarrow> space_in (Trim A) s)"
proof (induction A rule: Trim.induct)
  case (1 A)
  let ?cur = "ma_CurrentBlock A" and ?bs = "ma_Blocks A"
  show ?case
  proof (cases "?cur < length ?bs - 1")
    case True
    let ?A = "A\<lparr>ma_Blocks := take (?cur + 1) ?bs @ drop (?cur + 2) ?bs\<rparr>"
    have D: "DeleteBlock (?cur + 1) A = Some ?A" using True by (auto simp: DeleteBlock_def Let_def)
    have sub: "set (drop (?cur + 2) ?bs) \<subseteq> set (drop (?cur + 1) ?bs)" by (simp add: set_drop_subset_set_drop)
    have "distinct (map mb_Data (take (?cur + 1) ?bs @ drop (?cur + 2) ?bs))"
      using "1.prems" by (simp add: mem_ok_def set_take_disj_set_drop_if_distinct flip: take_map drop_map)
    then have ok: "mem_ok ?A" using True "1.prems" sub by (auto simp: mem_ok_def min_def dest: in_set_takeD in_set_dropD)
    have "space_in ?A s" if "space_in A s" for s using that True by (auto simp: space_in_def min_def)
    with "1.IH" [OF True D ok] True D show ?thesis by (subst (1 2) Trim.simps) auto
  next
    case False
    with "1.prems" show ?thesis by (simp add: Trim.simps)
  qed
qed

text \<open>
  \<open>DeleteBlock\<close> of a block before the current one does not move the index of the current block: when the
  current one is the last, the next allocation reads past the array.
\<close>

lemma delete_before_current:
  assumes "mem_ok A" "ma_CurrentBlock A = length (ma_Blocks A) - 1" "b < ma_CurrentBlock A" "DeleteBlock b A = Some A'"
  shows "NewSpace sz A' = None"
proof -
  have "ma_Blocks A' = take b (ma_Blocks A) @ drop (b + 1) (ma_Blocks A)" "ma_CurrentBlock A' = ma_CurrentBlock A"
    using assms by (auto simp: DeleteBlock_def Let_def mem_ok_def split: if_splits)
  with assms have "\<not> ma_CurrentBlock A' < length (ma_Blocks A')" by (auto simp: mem_ok_def min_def)
  then show ?thesis by (simp add: NewSpace.simps)
qed

end
