(* ===== verification/Counted_Ptr.thy ===== *)
theory Counted_Ptr
  imports Prelude
begin

text \<open>
  The shared pointers of the connections, \<^verbatim>\<open>CountedPtr\<close> (dep/include/zthread/CountedPtr.h) over
  \<^verbatim>\<open>AtomicCount\<close> (dep/src/zthread/vanilla/SimpleAtomicCount.cxx): the table of connections of the network
  thread and a session of the world thread each hold one, and the last of them to end deletes the connection. A
  count and an object are addresses. A thread's work on a pointer runs in points, between which other threads
  run; one operation of \<^verbatim>\<open>AtomicCount\<close> is one point, because it holds the lock of the count. Undefined
  behaviour (the use or second deletion of what is deleted, a failed assertion) is \<^const>\<open>None\<close>.
\<close>

section \<open>Pointers and counts\<close>

text \<open>A \<^verbatim>\<open>CountedPtr\<close> is a variable of the program or the temporary of a thread.\<close>

datatype ptr_name = Var nat | Tmp nat

text \<open>
  Where a thread is: it has read the members of \<open>g\<close> to build \<open>dst\<close> and is to increment (for an assignment to
  \<open>h\<close>, \<open>dst\<close> is the temporary); it is to swap its temporary with \<open>h\<close>; in a destructor, it is to decrement;
  it is to delete the object, or the count.
\<close>

datatype cp_point =
    CP_idle
  | CP_inc nat ptr_name "nat option" "nat option" "nat option"
  | CP_swap nat
  | CP_end ptr_name
  | CP_delete nat "nat option"
  | CP_free nat

text \<open>
  \<open>cp_raw\<close> are the objects no pointer has been made for; \<open>cp_made\<close> records for which object a count was made.
\<close>

record cp_state =
  cp_ptr :: "ptr_name \<Rightarrow> (nat option \<times> nat option) option"
  cp_count :: "nat \<Rightarrow> nat option"
  cp_live :: "nat set"
  cp_raw :: "nat set"
  cp_at :: "nat \<Rightarrow> cp_point"
  cp_made :: "nat \<Rightarrow> nat option"

definition cp_new :: cp_state where
  "cp_new = \<lparr>cp_ptr = (\<lambda>_. None), cp_count = (\<lambda>_. None), cp_live = {}, cp_raw = {}, cp_at = (\<lambda>_. CP_idle),
     cp_made = (\<lambda>_. None)\<rparr>"

text \<open>\<^verbatim>\<open>AtomicCount\<close>: made with 0, \<^verbatim>\<open>c++\<close> and \<^verbatim>\<open>--c\<close> under its lock, and the assertion of its end.\<close>

definition ac_new :: "nat \<Rightarrow> (nat \<Rightarrow> nat option) \<Rightarrow> (nat \<Rightarrow> nat option) option" where
  "ac_new a m = (if m a = None then Some (m(a := Some 0)) else None)"

definition ac_inc :: "nat \<Rightarrow> (nat \<Rightarrow> nat option) \<Rightarrow> (nat \<Rightarrow> nat option) option" where
  "ac_inc a m = (case m a of None \<Rightarrow> None | Some n \<Rightarrow> Some (m(a := Some (n + 1))))"

definition ac_dec :: "nat \<Rightarrow> (nat \<Rightarrow> nat option) \<Rightarrow> (nat \<times> (nat \<Rightarrow> nat option)) option" where
  "ac_dec a m = (case m a of None \<Rightarrow> None | Some n \<Rightarrow> if n = 0 then None else Some (n - 1, m(a := Some (n - 1))))"

definition ac_delete :: "nat \<Rightarrow> (nat \<Rightarrow> nat option) \<Rightarrow> (nat \<Rightarrow> nat option) option" where
  "ac_delete a m = (if m a = Some 0 then Some (m(a := None)) else None)"

text \<open>The constructor from an object: a count is made and incremented.\<close>

definition cp_make :: "nat \<Rightarrow> nat \<Rightarrow> nat \<Rightarrow> cp_state \<Rightarrow> cp_state option" where
  "cp_make h a x s =
     do { m \<leftarrow> ac_new a (cp_count s);
          m \<leftarrow> ac_inc a m;
          Some (s\<lparr>cp_count := m, cp_ptr := (cp_ptr s)(Var h := Some (Some a, Some x)), cp_raw := cp_raw s - {x},
                  cp_made := (cp_made s)(a := Some x)\<rparr>) }"

text \<open>The empty constructor.\<close>

definition cp_null :: "ptr_name \<Rightarrow> cp_state \<Rightarrow> cp_state" where
  "cp_null p s = s\<lparr>cp_ptr := (cp_ptr s)(p := Some (None, None))\<rparr>"

text \<open>The copy constructor reads the members first.\<close>

definition cp_copy :: "nat \<Rightarrow> nat \<Rightarrow> nat \<Rightarrow> cp_state \<Rightarrow> cp_state option" where
  "cp_copy t g h s =
     (case cp_ptr s (Var g) of
        None \<Rightarrow> None
      | Some (c, i) \<Rightarrow> Some (s\<lparr>cp_at := (cp_at s)(t := CP_inc g (Var h) c i None)\<rparr>))"

text \<open>The assignment \<open>h = g\<close> copies \<open>g\<close> to a temporary, swaps it with \<open>h\<close> and destroys it; \<open>reset\<close> swaps an empty one.\<close>

definition cp_assign :: "nat \<Rightarrow> nat \<Rightarrow> nat \<Rightarrow> cp_state \<Rightarrow> cp_state option" where
  "cp_assign t g h s =
     (case cp_ptr s (Var g) of
        None \<Rightarrow> None
      | Some (c, i) \<Rightarrow> Some (s\<lparr>cp_at := (cp_at s)(t := CP_inc g (Tmp t) c i (Some h))\<rparr>))"

definition cp_reset :: "nat \<Rightarrow> nat \<Rightarrow> cp_state \<Rightarrow> cp_state" where
  "cp_reset t h s = (cp_null (Tmp t) s)\<lparr>cp_at := (cp_at s)(t := CP_swap h)\<rparr>"

definition cp_destroy :: "nat \<Rightarrow> nat \<Rightarrow> cp_state \<Rightarrow> cp_state" where
  "cp_destroy t h s = s\<lparr>cp_at := (cp_at s)(t := CP_end (Var h))\<rparr>"

definition cp_swap :: "ptr_name \<Rightarrow> ptr_name \<Rightarrow> cp_state \<Rightarrow> cp_state option" where
  "cp_swap p q s =
     (case (cp_ptr s p, cp_ptr s q) of
        (Some v, Some w) \<Rightarrow> Some (s\<lparr>cp_ptr := (cp_ptr s)(p := Some w, q := Some v)\<rparr>)
      | _ \<Rightarrow> None)"

text \<open>The next point of a thread.\<close>

definition cp_step :: "nat \<Rightarrow> cp_state \<Rightarrow> cp_state option" where
  "cp_step t s =
     (case cp_at s t of
        CP_idle \<Rightarrow> Some s
      | CP_inc g dst c i nxt \<Rightarrow>
          do { m \<leftarrow> (case c of None \<Rightarrow> Some (cp_count s) | Some a \<Rightarrow> ac_inc a (cp_count s));
               Some (s\<lparr>cp_count := m, cp_ptr := (cp_ptr s)(dst := Some (c, i)),
                       cp_at := (cp_at s)(t := case nxt of None \<Rightarrow> CP_idle | Some h \<Rightarrow> CP_swap h)\<rparr>) }
      | CP_swap h \<Rightarrow>
          do { s' \<leftarrow> cp_swap (Tmp t) (Var h) s; Some (s'\<lparr>cp_at := (cp_at s)(t := CP_end (Tmp t))\<rparr>) }
      | CP_end p \<Rightarrow>
          (case cp_ptr s p of
             None \<Rightarrow> None
           | Some (None, i) \<Rightarrow> Some (s\<lparr>cp_ptr := (cp_ptr s)(p := None), cp_at := (cp_at s)(t := CP_idle)\<rparr>)
           | Some (Some a, i) \<Rightarrow>
               do { (n, m) \<leftarrow> ac_dec a (cp_count s);
                    Some (s\<lparr>cp_count := m, cp_ptr := (cp_ptr s)(p := None),
                            cp_at := (cp_at s)(t := if n = 0 then CP_delete a i else CP_idle)\<rparr>) })
      | CP_delete a i \<Rightarrow>
          (case i of
             None \<Rightarrow> Some (s\<lparr>cp_at := (cp_at s)(t := CP_free a)\<rparr>)
           | Some x \<Rightarrow>
               if x \<in> cp_live s then Some (s\<lparr>cp_live := cp_live s - {x}, cp_at := (cp_at s)(t := CP_free a)\<rparr>) else None)
      | CP_free a \<Rightarrow>
          do { m \<leftarrow> ac_delete a (cp_count s); Some (s\<lparr>cp_count := m, cp_at := (cp_at s)(t := CP_idle)\<rparr>) })"

section \<open>Threads that use them\<close>

text \<open>
  What the program does: makes an object, makes a pointer for an object that has none (with a count at a free
  address), copies, assigns, resets and destroys pointers, and goes on. As with any object, a thread writes a
  pointer only while no other thread reads or writes it, and reads it only while no other thread writes it.
\<close>

datatype cp_event =
    F_object nat | F_make nat nat nat | F_null nat | F_copy nat nat nat | F_assign nat nat nat | F_reset nat nat
  | F_destroy nat nat | F_step nat

fun cp_reads :: "cp_point \<Rightarrow> nat set" where
  "cp_reads (CP_inc g dst c i nxt) = {g}"
| "cp_reads _ = {}"

fun cp_writes :: "cp_point \<Rightarrow> nat set" where
  "cp_writes (CP_inc g dst c i nxt) =
     (case dst of Var h \<Rightarrow> {h} | Tmp u \<Rightarrow> {}) \<union> (case nxt of Some h \<Rightarrow> {h} | None \<Rightarrow> {})"
| "cp_writes (CP_swap h) = {h}"
| "cp_writes (CP_end p) = (case p of Var h \<Rightarrow> {h} | Tmp u \<Rightarrow> {})"
| "cp_writes _ = {}"

definition may_read :: "nat list \<Rightarrow> nat \<Rightarrow> cp_state \<Rightarrow> bool" where
  "may_read ts g s \<longleftrightarrow> cp_ptr s (Var g) \<noteq> None \<and> (\<forall>u \<in> set ts. g \<notin> cp_writes (cp_at s u))"

definition may_write :: "nat list \<Rightarrow> nat \<Rightarrow> cp_state \<Rightarrow> bool" where
  "may_write ts h s \<longleftrightarrow> (\<forall>u \<in> set ts. h \<notin> cp_writes (cp_at s u) \<and> h \<notin> cp_reads (cp_at s u))"

text \<open>An event is possible: \<open>ts\<close> are the threads of the program.\<close>

fun cp_allowed :: "nat list \<Rightarrow> cp_event \<Rightarrow> cp_state \<Rightarrow> bool" where
  "cp_allowed ts (F_object x) s = (x \<notin> cp_live s)"
| "cp_allowed ts (F_make h a x) s =
     (x \<in> cp_raw s \<and> cp_count s a = None \<and> cp_ptr s (Var h) = None \<and> may_write ts h s)"
| "cp_allowed ts (F_null h) s = (cp_ptr s (Var h) = None \<and> may_write ts h s)"
| "cp_allowed ts (F_copy t g h) s =
     (t \<in> set ts \<and> cp_at s t = CP_idle \<and> may_read ts g s \<and> cp_ptr s (Var h) = None \<and> may_write ts h s)"
| "cp_allowed ts (F_assign t g h) s =
     (t \<in> set ts \<and> cp_at s t = CP_idle \<and> may_read ts g s \<and> cp_ptr s (Var h) \<noteq> None \<and> may_write ts h s)"
| "cp_allowed ts (F_reset t h) s = (t \<in> set ts \<and> cp_at s t = CP_idle \<and> cp_ptr s (Var h) \<noteq> None \<and> may_write ts h s)"
| "cp_allowed ts (F_destroy t h) s = (t \<in> set ts \<and> cp_at s t = CP_idle \<and> cp_ptr s (Var h) \<noteq> None \<and> may_write ts h s)"
| "cp_allowed ts (F_step t) s = (t \<in> set ts)"

fun cp_happens :: "cp_event \<Rightarrow> cp_state \<Rightarrow> cp_state option" where
  "cp_happens (F_object x) s = Some (s\<lparr>cp_live := insert x (cp_live s), cp_raw := insert x (cp_raw s)\<rparr>)"
| "cp_happens (F_make h a x) s = cp_make h a x s"
| "cp_happens (F_null h) s = Some (cp_null (Var h) s)"
| "cp_happens (F_copy t g h) s = cp_copy t g h s"
| "cp_happens (F_assign t g h) s = cp_assign t g h s"
| "cp_happens (F_reset t h) s = Some (cp_reset t h s)"
| "cp_happens (F_destroy t h) s = Some (cp_destroy t h s)"
| "cp_happens (F_step t) s = cp_step t s"

text \<open>A run leaves out the events that are not possible where they stand.\<close>

fun cp_run :: "nat list \<Rightarrow> cp_event list \<Rightarrow> cp_state \<Rightarrow> cp_state option" where
  "cp_run ts [] s = Some s"
| "cp_run ts (e # es) s =
     (if cp_allowed ts e s then Option.bind (cp_happens e s) (cp_run ts es) else cp_run ts es s)"

section \<open>The invariant\<close>

definition own :: "(ptr_name \<Rightarrow> (nat option \<times> nat option) option) \<Rightarrow> nat \<Rightarrow> ptr_name set" where
  "own m a = {p. \<exists>i. m p = Some (Some a, i)}"

lemma own_None: "own (m(p := None)) a = own m a - {p}"
  by (auto simp: own_def)

lemma own_Some: "own (m(p := Some (c, i))) a = (if c = Some a then insert p (own m a) else own m a - {p})"
  by (auto simp: own_def)

lemma own_swap:
  assumes "m p = Some v" "m q = Some w"
  shows "finite (own (m(p := Some w, q := Some v)) a) = finite (own m a)"
    and "card (own (m(p := Some w, q := Some v)) a) = card (own m a)"
proof -
  let ?f = "\<lambda>r. if r = p then q else if r = q then p else r"
  have inj: "inj_on ?f A" for A by (auto simp: inj_on_def)
  have im: "own (m(p := Some w, q := Some v)) a = ?f ` own m a"
  proof (rule set_eqI)
    fix r
    have "r \<in> ?f ` own m a \<longleftrightarrow> ?f r \<in> own m a" by (auto simp: image_iff)
    also have "\<dots> \<longleftrightarrow> r \<in> own (m(p := Some w, q := Some v)) a" using assms by (auto simp: own_def)
    finally show "r \<in> own (m(p := Some w, q := Some v)) a \<longleftrightarrow> r \<in> ?f ` own m a" by simp
  qed
  show "finite (own (m(p := Some w, q := Some v)) a) = finite (own m a)" unfolding im by (rule finite_image_iff [OF inj])
  show "card (own (m(p := Some w, q := Some v)) a) = card (own m a)" unfolding im by (rule card_image [OF inj])
qed

text \<open>Counts are the numbers of the pointers that share them.\<close>

definition counts_ok :: "cp_state \<Rightarrow> bool" where
  "counts_ok s \<longleftrightarrow>
     (\<forall>p a i. cp_ptr s p = Some (Some a, i) \<longrightarrow> cp_count s a \<noteq> None \<and> cp_made s a = i) \<and>
     (\<forall>p i. cp_ptr s p = Some (None, i) \<longrightarrow> i = None) \<and>
     (\<forall>a n. cp_count s a = Some n \<longrightarrow> finite (own (cp_ptr s) a) \<and> n = card (own (cp_ptr s) a))"

text \<open>A count that is 0 is on its way out with one thread; otherwise its object is there, and no other count's.\<close>

fun dying :: "cp_point \<Rightarrow> nat \<Rightarrow> bool" where
  "dying (CP_delete b i) a = (a = b)"
| "dying (CP_free b) a = (a = b)"
| "dying _ a = False"

definition deaths_ok :: "cp_state \<Rightarrow> bool" where
  "deaths_ok s \<longleftrightarrow>
     (\<forall>a. cp_count s a = Some 0 \<longrightarrow> (\<exists>t. dying (cp_at s t) a)) \<and>
     (\<forall>t a. dying (cp_at s t) a \<longrightarrow> cp_count s a = Some 0) \<and>
     (\<forall>t u a. dying (cp_at s t) a \<longrightarrow> dying (cp_at s u) a \<longrightarrow> t = u) \<and>
     (\<forall>t a i. cp_at s t = CP_delete a i \<longrightarrow> cp_made s a = i)"

definition holds :: "cp_state \<Rightarrow> nat \<Rightarrow> nat \<Rightarrow> bool" where
  "holds s a x \<longleftrightarrow> cp_count s a \<noteq> None \<and> (\<forall>t. cp_at s t \<noteq> CP_free a) \<and> cp_made s a = Some x"

definition objects_ok :: "cp_state \<Rightarrow> bool" where
  "objects_ok s \<longleftrightarrow>
     (\<forall>a x. holds s a x \<longrightarrow> x \<in> cp_live s \<and> x \<notin> cp_raw s) \<and>
     (\<forall>a b x. holds s a x \<longrightarrow> holds s b x \<longrightarrow> a = b) \<and>
     cp_raw s \<subseteq> cp_live s \<and> (\<forall>x \<in> cp_live s. x \<in> cp_raw s \<or> (\<exists>a. holds s a x))"

text \<open>Where the threads are.\<close>

definition point_ok :: "nat \<Rightarrow> cp_point \<Rightarrow> (ptr_name \<Rightarrow> (nat option \<times> nat option) option) \<Rightarrow> bool" where
  "point_ok t p m \<longleftrightarrow>
     (case p of
        CP_inc g dst c i nxt \<Rightarrow>
          m (Var g) = Some (c, i) \<and> m dst = None \<and>
          (case nxt of None \<Rightarrow> (\<exists>h. dst = Var h) | Some h \<Rightarrow> dst = Tmp t \<and> m (Var h) \<noteq> None)
      | CP_swap h \<Rightarrow> m (Tmp t) \<noteq> None \<and> m (Var h) \<noteq> None
      | CP_end p \<Rightarrow> m p \<noteq> None \<and> (p = Tmp t \<or> (\<exists>h. p = Var h))
      | _ \<Rightarrow> True) \<and>
     (m (Tmp t) \<noteq> None \<longrightarrow> (\<exists>h. p = CP_swap h) \<or> p = CP_end (Tmp t))"

definition threads_ok :: "nat list \<Rightarrow> cp_state \<Rightarrow> bool" where
  "threads_ok ts s \<longleftrightarrow>
     (\<forall>t. point_ok t (cp_at s t) (cp_ptr s)) \<and> (\<forall>t. t \<notin> set ts \<longrightarrow> cp_at s t = CP_idle) \<and>
     (\<forall>t u. t \<noteq> u \<longrightarrow> cp_writes (cp_at s t) \<inter> (cp_writes (cp_at s u) \<union> cp_reads (cp_at s u)) = {})"

definition cp_inv :: "nat list \<Rightarrow> cp_state \<Rightarrow> bool" where
  "cp_inv ts s \<longleftrightarrow> counts_ok s \<and> deaths_ok s \<and> objects_ok s \<and> threads_ok ts s"

lemma cp_inv_new: "cp_inv ts cp_new"
  by (simp add: cp_inv_def cp_new_def counts_ok_def deaths_ok_def objects_ok_def threads_ok_def point_ok_def holds_def)

lemma may_write_all:
  "threads_ok ts s \<Longrightarrow> may_write ts h s \<Longrightarrow> h \<notin> cp_writes (cp_at s u) \<and> h \<notin> cp_reads (cp_at s u)"
  by (cases "u \<in> set ts") (auto simp: may_write_def threads_ok_def)

lemma may_read_all: "threads_ok ts s \<Longrightarrow> may_read ts g s \<Longrightarrow> g \<notin> cp_writes (cp_at s u)"
  by (cases "u \<in> set ts") (auto simp: may_read_def threads_ok_def)

text \<open>The points of the other threads do not mind a change of pointers they neither read nor write.\<close>

lemma point_ok_other:
  assumes "point_ok u p m" "u \<noteq> t"
    and "\<And>q. m' q \<noteq> m q \<Longrightarrow> q = Tmp t \<or> (\<exists>h. q = Var h \<and> h \<notin> cp_writes p \<and> h \<notin> cp_reads p)"
  shows "point_ok u p m'"
proof -
  have tmp: "m' (Tmp u) = m (Tmp u)" using assms(2) assms(3) [of "Tmp u"] by auto
  have var: "m' (Var h) = m (Var h)" if "h \<in> cp_writes p \<or> h \<in> cp_reads p" for h using assms(3) [of "Var h"] that by auto
  show ?thesis
  proof (cases p)
    case (CP_inc g dst c i nxt)
    have "m' dst = m dst" using assms(1) tmp var CP_inc by (auto simp: point_ok_def split: option.splits)
    then show ?thesis using assms(1) tmp var CP_inc by (auto simp: point_ok_def split: option.splits)
  next
    case (CP_end q)
    have "m' q = m q" using assms(1) tmp var CP_end by (auto simp: point_ok_def)
    then show ?thesis using assms(1) tmp CP_end by (auto simp: point_ok_def)
  qed (use assms(1) tmp var in \<open>auto simp: point_ok_def\<close>)
qed

lemma threads_ok_upd:
  assumes ok: "threads_ok ts s" and t: "t \<in> set ts" and at: "cp_at s' = (cp_at s)(t := p')"
    and m: "\<And>q. cp_ptr s' q \<noteq> cp_ptr s q \<Longrightarrow>
      q = Tmp t \<or> (\<exists>h. q = Var h \<and> (\<forall>u. u \<noteq> t \<longrightarrow> h \<notin> cp_writes (cp_at s u) \<and> h \<notin> cp_reads (cp_at s u)))"
    and p': "point_ok t p' (cp_ptr s')"
    and w: "\<And>u. u \<noteq> t \<Longrightarrow> cp_writes p' \<inter> (cp_writes (cp_at s u) \<union> cp_reads (cp_at s u)) = {} \<and>
      cp_writes (cp_at s u) \<inter> cp_reads p' = {}"
  shows "threads_ok ts s'"
proof -
  have "point_ok u (cp_at s' u) (cp_ptr s')" for u
  proof (cases "u = t")
    case False
    have "point_ok u (cp_at s u) (cp_ptr s)" using ok by (simp add: threads_ok_def)
    then have "point_ok u (cp_at s u) (cp_ptr s')" by (rule point_ok_other [OF _ False]) (use m False in blast)
    then show ?thesis using False at by simp
  qed (use p' at in simp)
  moreover have "cp_writes (cp_at s' v) \<inter> (cp_writes (cp_at s' u) \<union> cp_reads (cp_at s' u)) = {}" if "v \<noteq> u" for u v
  proof -
    have "cp_writes (cp_at s v) \<inter> (cp_writes (cp_at s u) \<union> cp_reads (cp_at s u)) = {}"
      using ok that by (simp add: threads_ok_def)
    then show ?thesis using w [of u] w [of v] at that by (cases "v = t"; cases "u = t") auto
  qed
  ultimately show ?thesis using ok t at by (auto simp: threads_ok_def)
qed

text \<open>A thread that goes on with what it has.\<close>

lemma threads_ok_go:
  assumes ok: "threads_ok ts s" and t: "t \<in> set ts" and at: "cp_at s' = (cp_at s)(t := p')"
    and m: "\<And>q. cp_ptr s' q \<noteq> cp_ptr s q \<Longrightarrow> q = Tmp t \<or> (\<exists>h. q = Var h \<and> h \<in> cp_writes (cp_at s t))"
    and p': "point_ok t p' (cp_ptr s')" "cp_writes p' \<subseteq> cp_writes (cp_at s t)" "cp_reads p' = {}"
  shows "threads_ok ts s'"
proof (rule threads_ok_upd [OF ok t at _ p'(1)])
  have ex: "cp_writes (cp_at s t) \<inter> (cp_writes (cp_at s u) \<union> cp_reads (cp_at s u)) = {}" if "u \<noteq> t" for u
    using ok that by (simp add: threads_ok_def)
  show "q = Tmp t \<or> (\<exists>h. q = Var h \<and> (\<forall>u. u \<noteq> t \<longrightarrow> h \<notin> cp_writes (cp_at s u) \<and> h \<notin> cp_reads (cp_at s u)))"
    if "cp_ptr s' q \<noteq> cp_ptr s q" for q
    using m [OF that] ex by blast
  show "cp_writes p' \<inter> (cp_writes (cp_at s u) \<union> cp_reads (cp_at s u)) = {} \<and> cp_writes (cp_at s u) \<inter> cp_reads p' = {}"
    if "u \<noteq> t" for u
    using ex [OF that] p'(2,3) by auto
qed

text \<open>A change that makes no count 0 and takes no thread into or out of a deletion.\<close>

lemma quiet_ok:
  assumes "deaths_ok s" "objects_ok s" "cp_made s' = cp_made s" "cp_live s' = cp_live s" "cp_raw s' = cp_raw s"
    and at: "\<And>u. cp_at s' u = cp_at s u \<or> (\<forall>a. \<not> dying (cp_at s' u) a \<and> \<not> dying (cp_at s u) a)"
    and n: "\<And>a. cp_count s' a = Some 0 \<longleftrightarrow> cp_count s a = Some 0" "\<And>a. cp_count s' a = None \<longleftrightarrow> cp_count s a = None"
  shows "deaths_ok s' \<and> objects_ok s'"
proof -
  have d: "dying (cp_at s' u) a = dying (cp_at s u) a" for u a using at [of u] by auto
  have f: "cp_at s' u = CP_free a \<longleftrightarrow> cp_at s u = CP_free a" for u a using at [of u] by (metis dying.simps(2))
  have e: "cp_at s' u = CP_delete a i \<longleftrightarrow> cp_at s u = CP_delete a i" for u a i using at [of u] by (metis dying.simps(1))
  have h: "holds s' = holds s" by (intro ext) (simp add: holds_def f n assms(3))
  show ?thesis using assms(1-5) unfolding deaths_ok_def objects_ok_def d e h n by simp
qed

lemma owner_pos:
  assumes "counts_ok s" "cp_ptr s p = Some (Some a, i)"
  shows "\<exists>n. cp_count s a = Some (Suc n)"
proof -
  obtain n where n: "cp_count s a = Some n" "finite (own (cp_ptr s) a)" "n = card (own (cp_ptr s) a)"
    using assms unfolding counts_ok_def by (metis option.exhaust)
  have "p \<in> own (cp_ptr s) a" using assms(2) by (auto simp: own_def)
  then show ?thesis using n by (metis card_gt_0_iff empty_iff gr0_implies_Suc)
qed

lemma owner_holds:
  assumes "counts_ok s" "deaths_ok s" "cp_ptr s p = Some (Some a, Some x)"
  shows "holds s a x"
proof -
  obtain n where "cp_count s a = Some (Suc n)" using owner_pos assms by blast
  moreover have "cp_made s a = Some x" using assms(1,3) by (simp add: counts_ok_def)
  ultimately show ?thesis using assms(2) unfolding holds_def deaths_ok_def
    by (metis dying.simps(2) option.distinct(1) option.inject nat.distinct(1))
qed

section \<open>Every step keeps it\<close>

lemma cp_inv_object:
  assumes "cp_inv ts s" "x \<notin> cp_live s"
  shows "cp_inv ts (s\<lparr>cp_live := insert x (cp_live s), cp_raw := insert x (cp_raw s)\<rparr>)"
proof -
  have "holds (s\<lparr>cp_live := insert x (cp_live s), cp_raw := insert x (cp_raw s)\<rparr>) = holds s"
    by (intro ext) (simp add: holds_def)
  then show ?thesis
    using assms unfolding cp_inv_def objects_ok_def by (auto simp: counts_ok_def deaths_ok_def threads_ok_def)
qed

lemma cp_inv_null:
  assumes "cp_inv ts s" "cp_ptr s (Var h) = None" "may_write ts h s"
  shows "cp_inv ts (cp_null (Var h) s)"
proof -
  have h: "h \<notin> cp_writes (cp_at s u)" "h \<notin> cp_reads (cp_at s u)" for u
    using assms may_write_all [of ts s h u] by (auto simp: cp_inv_def)
  have "own ((cp_ptr s)(Var h := Some (None, None))) a = own (cp_ptr s) a" for a using assms(2) by (auto simp: own_def)
  then have "counts_ok (cp_null (Var h) s)" using assms(1) by (auto simp: cp_inv_def counts_ok_def cp_null_def)
  moreover have "deaths_ok (cp_null (Var h) s) \<and> objects_ok (cp_null (Var h) s)"
    using assms(1) by (intro quiet_ok [of s]) (auto simp: cp_inv_def cp_null_def)
  moreover have "point_ok u (cp_at s u) ((cp_ptr s)(Var h := Some (None, None)))" for u
  proof -
    have "point_ok u (cp_at s u) (cp_ptr s)" using assms(1) by (simp add: cp_inv_def threads_ok_def)
    then show ?thesis by (rule point_ok_other [where t = "Suc u"]) (use h in \<open>auto split: if_splits\<close>)
  qed
  ultimately show ?thesis using assms(1) by (simp add: cp_inv_def threads_ok_def cp_null_def)
qed

lemma cp_inv_make:
  assumes inv: "cp_inv ts s" and x: "x \<in> cp_raw s" and a: "cp_count s a = None" and h: "cp_ptr s (Var h) = None"
    and w: "may_write ts h s"
  shows "\<exists>s'. cp_make h a x s = Some s' \<and> cp_inv ts s'"
proof -
  let ?s = "s\<lparr>cp_count := (cp_count s)(a := Some 1), cp_ptr := (cp_ptr s)(Var h := Some (Some a, Some x)),
    cp_raw := cp_raw s - {x}, cp_made := (cp_made s)(a := Some x)\<rparr>"
  have hw: "h \<notin> cp_writes (cp_at s u)" "h \<notin> cp_reads (cp_at s u)" for u
    using inv w may_write_all [of ts s h u] by (auto simp: cp_inv_def)
  have nd: "\<not> dying (cp_at s t) a" for t using inv a unfolding cp_inv_def deaths_ok_def by (metis option.distinct(1))
  have na: "cp_ptr s p \<noteq> Some (Some a, i)" for p i using inv a unfolding cp_inv_def counts_ok_def by blast
  have own: "own (cp_ptr s) a = {}" using na by (auto simp: own_def)
  have own': "own ((cp_ptr s)(Var h := Some (Some a, Some x))) b = (if b = a then {Var h} else own (cp_ptr s) b)" for b
    using own h by (auto simp: own_Some) (auto simp: own_def)
  have c: "counts_ok ?s" using inv na by (auto simp: cp_inv_def counts_ok_def own')
  have d: "deaths_ok ?s"
  proof -
    have "cp_at s t \<noteq> CP_delete a i" for t i using nd [of t] by auto
    then show ?thesis using inv nd by (auto simp: cp_inv_def deaths_ok_def)
  qed
  have hold: "holds ?s b y \<longleftrightarrow> (b = a \<and> y = x) \<or> holds s b y" for b y
  proof -
    have "cp_at s t \<noteq> CP_free a" for t using nd [of t] by auto
    then show ?thesis using a by (auto simp: holds_def)
  qed
  have o: "objects_ok ?s" using inv x unfolding cp_inv_def objects_ok_def hold by auto
  have "point_ok u (cp_at s u) ((cp_ptr s)(Var h := Some (Some a, Some x)))" for u
  proof -
    have "point_ok u (cp_at s u) (cp_ptr s)" using inv by (simp add: cp_inv_def threads_ok_def)
    then show ?thesis by (rule point_ok_other [where t = "Suc u"]) (use hw in \<open>auto split: if_splits\<close>)
  qed
  then have "threads_ok ts ?s" using inv by (simp add: cp_inv_def threads_ok_def)
  with c d o have "cp_inv ts ?s" by (simp add: cp_inv_def)
  moreover have "cp_make h a x s = Some ?s" using a by (simp add: cp_make_def ac_new_def ac_inc_def)
  ultimately show ?thesis by blast
qed

text \<open>A call that starts.\<close>

lemma cp_inv_start:
  assumes inv: "cp_inv ts s" and t: "t \<in> set ts" "cp_at s t = CP_idle"
    and p': "point_ok t p' (cp_ptr s)" "\<And>a. \<not> dying p' a"
    and w: "\<And>u. u \<noteq> t \<Longrightarrow> cp_writes p' \<inter> (cp_writes (cp_at s u) \<union> cp_reads (cp_at s u)) = {} \<and>
      cp_writes (cp_at s u) \<inter> cp_reads p' = {}"
  shows "cp_inv ts (s\<lparr>cp_at := (cp_at s)(t := p')\<rparr>)"
proof -
  let ?s = "s\<lparr>cp_at := (cp_at s)(t := p')\<rparr>"
  have "threads_ok ts ?s"
    by (rule threads_ok_upd [where s = s and t = t and p' = p']) (use inv t p' w in \<open>auto simp: cp_inv_def\<close>)
  moreover have "deaths_ok ?s \<and> objects_ok ?s" using inv t p' by (intro quiet_ok [of s]) (auto simp: cp_inv_def)
  moreover have "counts_ok ?s" using inv by (simp add: cp_inv_def counts_ok_def)
  ultimately show ?thesis by (simp add: cp_inv_def)
qed

lemma idle_tmp: "threads_ok ts s \<Longrightarrow> cp_at s t = CP_idle \<Longrightarrow> cp_ptr s (Tmp t) = None"
  unfolding threads_ok_def point_ok_def by (metis cp_point.distinct(3) cp_point.distinct(5))

lemma cp_inv_copy:
  assumes "cp_inv ts s" "t \<in> set ts" "cp_at s t = CP_idle" "may_read ts g s" "cp_ptr s (Var h) = None" "may_write ts h s"
  shows "\<exists>s'. cp_copy t g h s = Some s' \<and> cp_inv ts s'"
proof -
  have ok: "threads_ok ts s" using assms(1) by (simp add: cp_inv_def)
  obtain c i where g: "cp_ptr s (Var g) = Some (c, i)" using assms(4) by (auto simp: may_read_def)
  have "cp_inv ts (s\<lparr>cp_at := (cp_at s)(t := CP_inc g (Var h) c i None)\<rparr>)"
    by (rule cp_inv_start [OF assms(1-3)])
      (use g assms(5) idle_tmp [OF ok assms(3)] may_write_all [OF ok assms(6)] may_read_all [OF ok assms(4)] in
        \<open>auto simp: point_ok_def\<close>)
  then show ?thesis using g by (simp add: cp_copy_def)
qed

lemma cp_inv_assign:
  assumes "cp_inv ts s" "t \<in> set ts" "cp_at s t = CP_idle" "may_read ts g s" "cp_ptr s (Var h) \<noteq> None" "may_write ts h s"
  shows "\<exists>s'. cp_assign t g h s = Some s' \<and> cp_inv ts s'"
proof -
  have ok: "threads_ok ts s" using assms(1) by (simp add: cp_inv_def)
  obtain c i where g: "cp_ptr s (Var g) = Some (c, i)" using assms(4) by (auto simp: may_read_def)
  have "cp_inv ts (s\<lparr>cp_at := (cp_at s)(t := CP_inc g (Tmp t) c i (Some h))\<rparr>)"
    by (rule cp_inv_start [OF assms(1-3)])
      (use g assms(5) idle_tmp [OF ok assms(3)] may_write_all [OF ok assms(6)] may_read_all [OF ok assms(4)] in
        \<open>auto simp: point_ok_def\<close>)
  then show ?thesis using g by (simp add: cp_assign_def)
qed

lemma cp_inv_destroy:
  assumes "cp_inv ts s" "t \<in> set ts" "cp_at s t = CP_idle" "cp_ptr s (Var h) \<noteq> None" "may_write ts h s"
  shows "cp_inv ts (cp_destroy t h s)"
  unfolding cp_destroy_def
proof (rule cp_inv_start [OF assms(1-3)])
  have ok: "threads_ok ts s" using assms(1) by (simp add: cp_inv_def)
  show "point_ok t (CP_end (Var h)) (cp_ptr s)" using assms(4) idle_tmp [OF ok assms(3)] by (simp add: point_ok_def)
  show "cp_writes (CP_end (Var h)) \<inter> (cp_writes (cp_at s u) \<union> cp_reads (cp_at s u)) = {} \<and>
      cp_writes (cp_at s u) \<inter> cp_reads (CP_end (Var h)) = {}" for u
    using may_write_all [OF ok assms(5)] by auto
qed simp

lemma cp_inv_reset:
  assumes "cp_inv ts s" "t \<in> set ts" "cp_at s t = CP_idle" "cp_ptr s (Var h) \<noteq> None" "may_write ts h s"
  shows "cp_inv ts (cp_reset t h s)"
proof -
  have ok: "threads_ok ts s" using assms(1) by (simp add: cp_inv_def)
  have tmp: "cp_ptr s (Tmp t) = None" by (rule idle_tmp [OF ok assms(3)])
  let ?s = "cp_reset t h s"
  have "own ((cp_ptr s)(Tmp t := Some (None, None))) a = own (cp_ptr s) a" for a using tmp by (auto simp: own_def)
  then have "counts_ok ?s" using assms(1) by (auto simp: cp_inv_def counts_ok_def cp_null_def cp_reset_def)
  moreover have "deaths_ok ?s \<and> objects_ok ?s"
    using assms(1,3) by (intro quiet_ok [of s]) (auto simp: cp_inv_def cp_null_def cp_reset_def)
  moreover have "threads_ok ts ?s"
    by (rule threads_ok_upd [OF ok assms(2), where p' = "CP_swap h"])
      (use assms(4) may_write_all [OF ok assms(5)] in \<open>auto simp: cp_reset_def cp_null_def point_ok_def split: if_splits\<close>)
  ultimately show ?thesis by (simp add: cp_inv_def)
qed

text \<open>A step: an increment.\<close>

lemma cp_inv_inc:
  assumes inv: "cp_inv ts s" and t: "t \<in> set ts" and at: "cp_at s t = CP_inc g dst c i nxt"
  shows "\<exists>s'. cp_step t s = Some s' \<and> cp_inv ts s'"
proof -
  have ok: "threads_ok ts s" and cok: "counts_ok s" using inv by (simp_all add: cp_inv_def)
  have pt: "point_ok t (CP_inc g dst c i nxt) (cp_ptr s)" using ok at unfolding threads_ok_def by metis
  then have g: "cp_ptr s (Var g) = Some (c, i)" and dst: "cp_ptr s dst = None" by (simp_all add: point_ok_def)
  let ?m = "case c of None \<Rightarrow> cp_count s | Some a \<Rightarrow> (cp_count s)(a := Some (the (cp_count s a) + 1))"
  let ?p = "case nxt of None \<Rightarrow> CP_idle | Some h \<Rightarrow> CP_swap h"
  let ?s = "s\<lparr>cp_count := ?m, cp_ptr := (cp_ptr s)(dst := Some (c, i)), cp_at := (cp_at s)(t := ?p)\<rparr>"
  have pos: "\<exists>n. cp_count s a = Some (Suc n)" if "c = Some a" for a using owner_pos [OF cok] g that by simp
  have own: "own ((cp_ptr s)(dst := Some (c, i))) a = (if c = Some a then insert dst (own (cp_ptr s) a) else own (cp_ptr s) a)"
    and new: "dst \<notin> own (cp_ptr s) a" for a
    using dst by (auto simp: own_def)
  have "counts_ok ?s"
    unfolding counts_ok_def
  proof (intro conjI allI impI)
    fix p a j assume "cp_ptr ?s p = Some (Some a, j)"
    then have "(\<exists>q. cp_ptr s q = Some (Some a, j))" using g by (auto split: if_splits)
    then have "cp_count s a \<noteq> None" "cp_made s a = j" using cok by (auto simp: counts_ok_def)
    then show "cp_count ?s a \<noteq> None" "cp_made ?s a = j" by (auto split: option.splits)
  next
    fix p j assume "cp_ptr ?s p = Some (None, j)"
    then have "(\<exists>q. cp_ptr s q = Some (None, j))" using g by (auto split: if_splits)
    then show "j = None" using cok by (auto simp: counts_ok_def)
  next
    fix a n assume n: "cp_count ?s a = Some n"
    then obtain k where k: "cp_count s a = Some k" "n = (if c = Some a then Suc k else k)"
      using pos by (cases c) (auto split: if_splits)
    then have "finite (own (cp_ptr s) a)" "k = card (own (cp_ptr s) a)" using cok by (auto simp: counts_ok_def)
    then show "finite (own (cp_ptr ?s) a)" "n = card (own (cp_ptr ?s) a)" using own new k(2) by auto
  qed
  moreover have "deaths_ok ?s \<and> objects_ok ?s"
    by (rule quiet_ok [of s]) (use inv at pos in \<open>auto simp: cp_inv_def split: option.splits if_splits\<close>)
  moreover have "threads_ok ts ?s"
  proof (rule threads_ok_go [OF ok t])
    show "point_ok t ?p (cp_ptr ?s)" using pt by (auto simp: point_ok_def split: option.splits)
    show "q = Tmp t \<or> (\<exists>h. q = Var h \<and> h \<in> cp_writes (cp_at s t))" if "cp_ptr ?s q \<noteq> cp_ptr s q" for q
      using that pt at by (auto simp: point_ok_def split: option.splits if_splits)
  qed (use at in \<open>auto split: option.splits\<close>)
  moreover have "cp_step t s = Some ?s" using at pos by (auto simp: cp_step_def ac_inc_def split: option.splits)
  ultimately show ?thesis by (auto simp: cp_inv_def)
qed

text \<open>A swap.\<close>

lemma cp_inv_swap:
  assumes inv: "cp_inv ts s" and t: "t \<in> set ts" and at: "cp_at s t = CP_swap h"
  shows "\<exists>s'. cp_step t s = Some s' \<and> cp_inv ts s'"
proof -
  have ok: "threads_ok ts s" and cok: "counts_ok s" using inv by (simp_all add: cp_inv_def)
  have pt: "point_ok t (CP_swap h) (cp_ptr s)" using ok at unfolding threads_ok_def by metis
  then obtain v w where v: "cp_ptr s (Tmp t) = Some v" and w: "cp_ptr s (Var h) = Some w" by (auto simp: point_ok_def)
  let ?m = "(cp_ptr s)(Tmp t := Some w, Var h := Some v)"
  let ?s = "s\<lparr>cp_ptr := ?m, cp_at := (cp_at s)(t := CP_end (Tmp t))\<rparr>"
  note own = own_swap [OF v w]
  have from_old: "\<exists>q. cp_ptr s q = Some x" if "?m p = Some x" for p x using that v w by (auto split: if_splits)
  have "counts_ok ?s"
    using cok own from_old unfolding counts_ok_def by (auto simp del: fun_upd_apply) (blast dest: from_old)+
  moreover have "deaths_ok ?s \<and> objects_ok ?s" by (rule quiet_ok [of s]) (use inv at in \<open>auto simp: cp_inv_def\<close>)
  moreover have "threads_ok ts ?s"
    by (rule threads_ok_go [OF ok t, where p' = "CP_end (Tmp t)"]) (use at in \<open>auto simp: point_ok_def split: if_splits\<close>)
  moreover have "cp_step t s = Some ?s" using at v w by (simp add: cp_step_def cp_swap_def)
  ultimately show ?thesis by (auto simp: cp_inv_def)
qed

text \<open>The decrement of a destructor.\<close>

lemma cp_inv_end:
  assumes inv: "cp_inv ts s" and t: "t \<in> set ts" and at: "cp_at s t = CP_end p"
  shows "\<exists>s'. cp_step t s = Some s' \<and> cp_inv ts s'"
proof -
  have ok: "threads_ok ts s" and cok: "counts_ok s" and dok: "deaths_ok s" and oko: "objects_ok s"
    using inv by (simp_all add: cp_inv_def)
  have pt: "point_ok t (CP_end p) (cp_ptr s)" using ok at unfolding threads_ok_def by metis
  then obtain c i where p: "cp_ptr s p = Some (c, i)" by (auto simp: point_ok_def)
  have thr: "threads_ok ts (s\<lparr>cp_count := m, cp_ptr := (cp_ptr s)(p := None), cp_at := (cp_at s)(t := q)\<rparr>)"
    if "cp_writes q = {}" "cp_reads q = {}" "\<forall>r. q \<noteq> CP_end r" "\<forall>g d c i n. q \<noteq> CP_inc g d c i n" for m q
  proof (rule threads_ok_go [OF ok t, where p' = q])
    have "cp_ptr s (Tmp t) \<noteq> None \<longrightarrow> p = Tmp t" using pt by (simp add: point_ok_def)
    moreover have "\<forall>h. q \<noteq> CP_swap h" using that(1) by auto
    ultimately show "point_ok t q (cp_ptr (s\<lparr>cp_count := m, cp_ptr := (cp_ptr s)(p := None), cp_at := (cp_at s)(t := q)\<rparr>))"
      using that by (auto simp: point_ok_def split: cp_point.splits)
    show "r = Tmp t \<or> (\<exists>h. r = Var h \<and> h \<in> cp_writes (cp_at s t))"
      if "cp_ptr (s\<lparr>cp_count := m, cp_ptr := (cp_ptr s)(p := None), cp_at := (cp_at s)(t := q)\<rparr>) r \<noteq> cp_ptr s r" for r
      using that pt at by (auto simp: point_ok_def split: if_splits)
  qed (use that in auto)
  have old: "cp_ptr s q = Some x" if "((cp_ptr s)(p := None)) q = Some x" for q x using that by (auto split: if_splits)
  show ?thesis
  proof (cases c)
    case None
    let ?s = "s\<lparr>cp_ptr := (cp_ptr s)(p := None), cp_at := (cp_at s)(t := CP_idle)\<rparr>"
    have "own ((cp_ptr s)(p := None)) a = own (cp_ptr s) a" for a using p None by (auto simp: own_def)
    then have "counts_ok ?s" using cok unfolding counts_ok_def by (auto simp del: fun_upd_apply dest: old)
    moreover have "deaths_ok ?s \<and> objects_ok ?s" by (rule quiet_ok [of s]) (use inv at in \<open>auto simp: cp_inv_def\<close>)
    moreover have "threads_ok ts ?s" using thr [of CP_idle "cp_count s"] by simp
    moreover have "cp_step t s = Some ?s" using at p None by (simp add: cp_step_def)
    ultimately show ?thesis by (auto simp: cp_inv_def)
  next
    case (Some a)
    obtain n where n: "cp_count s a = Some (Suc n)" using owner_pos [OF cok] p Some by blast
    have fin: "finite (own (cp_ptr s) b)" "k = card (own (cp_ptr s) b)" if "cp_count s b = Some k" for b k
      using cok that by (auto simp: counts_ok_def)
    have mem: "p \<in> own (cp_ptr s) a" using p Some by (auto simp: own_def)
    have oth: "own ((cp_ptr s)(p := None)) b = (if b = a then own (cp_ptr s) a - {p} else own (cp_ptr s) b)" for b
      using p Some by (auto simp: own_def)
    let ?q = "if n = 0 then CP_delete a i else CP_idle"
    let ?s = "s\<lparr>cp_count := (cp_count s)(a := Some n), cp_ptr := (cp_ptr s)(p := None), cp_at := (cp_at s)(t := ?q)\<rparr>"
    have cnt: "card (own (cp_ptr s) a - {p}) = n" using fin [OF n] mem by simp
    have "counts_ok ?s"
      unfolding counts_ok_def
    proof (intro conjI allI impI)
      fix q b j assume "cp_ptr ?s q = Some (Some b, j)"
      then show "cp_count ?s b \<noteq> None" "cp_made ?s b = j" using cok old [of q] by (auto simp: counts_ok_def)
    next
      fix q j assume "cp_ptr ?s q = Some (None, j)"
      then show "j = None" using cok old [of q] by (simp add: counts_ok_def del: fun_upd_apply)
    next
      fix b k assume "cp_count ?s b = Some k"
      then show "finite (own (cp_ptr ?s) b)" "k = card (own (cp_ptr ?s) b)"
        using fin [of b] fin [OF n] oth [of b] cnt by (auto split: if_splits)
    qed
    moreover have made: "cp_made s a = i" using cok p Some by (auto simp: counts_ok_def)
    have nd: "\<not> dying (cp_at s u) a" for u using dok n unfolding deaths_ok_def by (metis nat.distinct(1) option.inject)
    have "deaths_ok ?s \<and> objects_ok ?s"
    proof (cases n)
      case (Suc m)
      then show ?thesis by (intro quiet_ok [of s]) (use inv at n in \<open>auto simp: cp_inv_def split: if_splits\<close>)
    next
      case 0
      have dy: "dying (cp_at ?s u) b \<longleftrightarrow> dying (cp_at s u) b \<or> (u = t \<and> b = a)" for u b using at 0 by auto
      have cz: "cp_count ?s b = Some 0 \<longleftrightarrow> cp_count s b = Some 0 \<or> b = a" for b using 0 by auto
      have del: "cp_made ?s b = j" if "cp_at ?s u = CP_delete b j" for u b j
        using dok made 0 that unfolding deaths_ok_def by (auto split: if_splits)
      have "deaths_ok ?s" using dok nd del unfolding deaths_ok_def dy cz by blast
      moreover have fr: "cp_at ?s u = CP_free b \<longleftrightarrow> cp_at s u = CP_free b" for u b using at 0 by auto
      have nn: "cp_count ?s b = None \<longleftrightarrow> cp_count s b = None" for b using n by simp
      have "holds ?s = holds s" unfolding holds_def fr nn by simp
      ultimately show ?thesis using oko by (simp add: objects_ok_def)
    qed
    moreover have "threads_ok ts ?s" by (rule thr) auto
    moreover have "cp_step t s = Some ?s" using at p Some n by (simp add: cp_step_def ac_dec_def)
    ultimately show ?thesis by (auto simp: cp_inv_def)
  qed
qed

text \<open>The two deletions.\<close>

lemma cp_inv_delete:
  assumes inv: "cp_inv ts s" and t: "t \<in> set ts" and at: "cp_at s t = CP_delete a i"
  shows "\<exists>s'. cp_step t s = Some s' \<and> cp_inv ts s'"
proof -
  have ok: "threads_ok ts s" and cok: "counts_ok s" and dok: "deaths_ok s" and oko: "objects_ok s"
    using inv by (simp_all add: cp_inv_def)
  have zero: "cp_count s a = Some 0" and made: "cp_made s a = i" using dok at unfolding deaths_ok_def by (metis dying.simps(1))+
  have only: "cp_at s u \<noteq> CP_free a" for u
    using dok at unfolding deaths_ok_def by (metis cp_point.distinct(29) dying.simps(1,2))
  let ?s = "s\<lparr>cp_live := cp_live s - (case i of None \<Rightarrow> {} | Some x \<Rightarrow> {x}), cp_at := (cp_at s)(t := CP_free a)\<rparr>"
  have dy: "dying (cp_at ?s u) b = dying (cp_at s u) b" for u b using at by auto
  have c: "counts_ok ?s" using cok by (simp add: counts_ok_def)
  have del: "cp_made s b = j" if "cp_at ?s u = CP_delete b j" for u b j
    using dok that unfolding deaths_ok_def by (auto split: if_splits)
  have d: "deaths_ok ?s" using dok del unfolding deaths_ok_def dy by simp
  have hold: "holds ?s b x \<longleftrightarrow> holds s b x \<and> b \<noteq> a" for b x using at only by (auto simp: holds_def)
  have live: "x \<in> cp_live s" "x \<notin> cp_raw s" if "i = Some x" for x
    using oko zero made only that unfolding objects_ok_def holds_def by blast+
  have ha: "holds s a x \<longleftrightarrow> i = Some x" for x using zero only made by (auto simp: holds_def)
  have lv: "x \<in> cp_live ?s \<longleftrightarrow> x \<in> cp_live s \<and> i \<noteq> Some x" for x by (auto split: option.splits)
  have raw: "cp_raw ?s = cp_raw s" by simp
  note oo = oko [unfolded objects_ok_def]
  have inj: "holds s b x \<Longrightarrow> b \<noteq> a \<Longrightarrow> i \<noteq> Some x" for b x using oo ha by blast
  have o: "objects_ok ?s"
    unfolding objects_ok_def hold lv raw subset_iff
  proof (intro conjI allI impI ballI)
    fix x assume "x \<in> cp_live ?s"
    then have "x \<in> cp_live s" "i \<noteq> Some x" using lv by blast+
    then show "x \<in> cp_raw s \<or> (\<exists>b. holds s b x \<and> b \<noteq> a)" using oo ha by blast
  qed (use oo inj live in blast)+
  have "threads_ok ts ?s"
    by (rule threads_ok_go [OF ok t, where p' = "CP_free a"])
      (use at ok in \<open>auto simp: threads_ok_def point_ok_def dest!: spec [of _ t]\<close>)
  moreover have "cp_step t s = Some ?s" using at live by (auto simp: cp_step_def split: option.splits)
  ultimately show ?thesis using c d o by (auto simp: cp_inv_def)
qed

lemma cp_inv_free:
  assumes inv: "cp_inv ts s" and t: "t \<in> set ts" and at: "cp_at s t = CP_free a"
  shows "\<exists>s'. cp_step t s = Some s' \<and> cp_inv ts s'"
proof -
  have ok: "threads_ok ts s" and cok: "counts_ok s" and dok: "deaths_ok s" and oko: "objects_ok s"
    using inv by (simp_all add: cp_inv_def)
  have zero: "cp_count s a = Some 0" using dok at unfolding deaths_ok_def by (metis dying.simps(2))
  have only: "dying (cp_at s u) a \<Longrightarrow> u = t" for u using dok at unfolding deaths_ok_def by (metis dying.simps(2))
  let ?s = "s\<lparr>cp_count := (cp_count s)(a := None), cp_at := (cp_at s)(t := CP_idle)\<rparr>"
  have "finite (own (cp_ptr s) a)" "card (own (cp_ptr s) a) = 0" using cok zero by (auto simp: counts_ok_def)
  then have "own (cp_ptr s) a = {}" by simp
  then have na: "cp_ptr s p \<noteq> Some (Some a, j)" for p j by (auto simp: own_def)
  have c: "counts_ok ?s" using cok na by (auto simp: counts_ok_def)
  have dy: "dying (cp_at ?s u) b \<longleftrightarrow> dying (cp_at s u) b \<and> b \<noteq> a" for u b
  proof (cases "u = t")
    case False
    then have "\<not> dying (cp_at s u) a" using only by blast
    then show ?thesis using False by auto
  qed (use at in simp)
  have del: "cp_made ?s b = j" if "cp_at ?s u = CP_delete b j" for u b j
    using dok that unfolding deaths_ok_def by (auto split: if_splits)
  have cz: "cp_count ?s b = Some 0 \<longleftrightarrow> cp_count s b = Some 0 \<and> b \<noteq> a" for b by auto
  have d: "deaths_ok ?s" using dok del unfolding deaths_ok_def dy cz by blast
  have fr: "cp_at ?s u = CP_free b \<longleftrightarrow> cp_at s u = CP_free b" if "b \<noteq> a" for u b using at that by auto
  have hold: "holds ?s b x \<longleftrightarrow> holds s b x" for b x
  proof (cases "b = a")
    case True
    then show ?thesis using at unfolding holds_def by auto
  next
    case False
    then show ?thesis unfolding holds_def fr [OF False] by simp
  qed
  have o: "objects_ok ?s" using oko unfolding objects_ok_def hold by simp
  have "threads_ok ts ?s"
    by (rule threads_ok_go [OF ok t, where p' = CP_idle])
      (use at ok in \<open>auto simp: threads_ok_def point_ok_def dest!: spec [of _ t]\<close>)
  moreover have "cp_step t s = Some ?s" using at zero by (simp add: cp_step_def ac_delete_def)
  ultimately show ?thesis using c d o by (auto simp: cp_inv_def)
qed

lemma cp_inv_happens:
  assumes "cp_inv ts s" "cp_allowed ts e s"
  shows "\<exists>s'. cp_happens e s = Some s' \<and> cp_inv ts s'"
proof (cases e)
  case (F_step t)
  show ?thesis
  proof (cases "cp_at s t")
    case CP_idle
    then show ?thesis using assms F_step by (simp add: cp_step_def)
  qed (use assms F_step cp_inv_inc cp_inv_swap cp_inv_end cp_inv_delete cp_inv_free in auto)
qed (use assms cp_inv_object cp_inv_make cp_inv_null cp_inv_copy cp_inv_assign cp_inv_reset cp_inv_destroy in auto)

lemma cp_inv_run: "cp_inv ts s \<Longrightarrow> \<exists>s'. cp_run ts es s = Some s' \<and> cp_inv ts s'"
proof (induction es arbitrary: s)
  case (Cons e es)
  then show ?case using cp_inv_happens [OF Cons.prems, of e] by (cases "cp_allowed ts e s") auto
qed simp

section \<open>Properties\<close>

lemma holds_why:
  assumes "counts_ok s" "deaths_ok s" "holds s a x"
  shows "(\<exists>p a. cp_ptr s p = Some (Some a, Some x)) \<or> (\<exists>t a. cp_at s t = CP_delete a (Some x))"
proof -
  obtain n where n: "cp_count s a = Some n" and made: "cp_made s a = Some x" and nf: "\<And>t. cp_at s t \<noteq> CP_free a"
    using assms(3) by (auto simp: holds_def)
  show ?thesis
  proof (cases n)
    case 0
    then obtain t where t: "dying (cp_at s t) a" using assms(2) n unfolding deaths_ok_def by blast
    then obtain i where i: "cp_at s t = CP_delete a i" using nf [of t] by (cases "cp_at s t") auto
    then have "i = Some x" using assms(2) made unfolding deaths_ok_def by metis
    with i show ?thesis by blast
  next
    case (Suc m)
    have "finite (own (cp_ptr s) a)" "Suc m = card (own (cp_ptr s) a)" using assms(1) n Suc by (auto simp: counts_ok_def)
    then obtain p where "p \<in> own (cp_ptr s) a" by fastforce
    then obtain i where p: "cp_ptr s p = Some (Some a, i)" by (auto simp: own_def)
    then have "i = Some x" using assms(1) made by (auto simp: counts_ok_def)
    with p show ?thesis by blast
  qed
qed

text \<open>
  C6: Shared pointers, made, copied, assigned, reset and destroyed by any number of threads, point by point in
  any order, never touch what is deleted and delete nothing twice: a count is the number of the pointers that
  share it, the object of a pointer is there, and an object that no pointer has any more is with exactly the
  thread that is about to delete it. So a connection lives as long as the table or its session holds it, and is
  deleted when both have let go.
\<close>

theorem counted_ptr_owns:
  "\<exists>s. cp_run ts es cp_new = Some s \<and>
     (\<forall>p a x. cp_ptr s p = Some (Some a, Some x) \<longrightarrow>
        x \<in> cp_live s \<and> cp_count s a = Some (card {q. \<exists>j. cp_ptr s q = Some (Some a, j)})) \<and>
     (\<forall>x \<in> cp_live s. x \<in> cp_raw s \<or> (\<exists>p a. cp_ptr s p = Some (Some a, Some x)) \<or>
        (\<exists>t a. cp_at s t = CP_delete a (Some x))) \<and>
     (\<forall>t u a x. cp_at s t = CP_delete a x \<longrightarrow> cp_at s u = CP_delete a x \<longrightarrow> t = u)"
proof -
  obtain s where s: "cp_run ts es cp_new = Some s" and inv: "cp_inv ts s" using cp_inv_run [OF cp_inv_new] by blast
  have ok: "counts_ok s" "deaths_ok s" "objects_ok s" using inv by (simp_all add: cp_inv_def)
  have "x \<in> cp_live s \<and> cp_count s a = Some (card {q. \<exists>j. cp_ptr s q = Some (Some a, j)})"
    if p: "cp_ptr s p = Some (Some a, Some x)" for p a x
  proof -
    have "holds s a x" by (rule owner_holds [OF ok(1,2) p])
    then show ?thesis using ok(1,3) unfolding objects_ok_def counts_ok_def holds_def own_def by blast
  qed
  moreover have "x \<in> cp_raw s \<or> (\<exists>p a. cp_ptr s p = Some (Some a, Some x)) \<or> (\<exists>t a. cp_at s t = CP_delete a (Some x))"
    if "x \<in> cp_live s" for x
    using ok(3) that holds_why [OF ok(1,2)] unfolding objects_ok_def by blast
  moreover have "t = u" if "cp_at s t = CP_delete a x" "cp_at s u = CP_delete a x" for t u a x
    using ok(2) that unfolding deaths_ok_def by (metis dying.simps(1))
  ultimately show ?thesis using s by blast
qed

text \<open>
  A connection: made by thread 1 for an object, put into the table and given to a session; the table and the
  session let go at the same time, in threads 1 and 2, and thread 2, the later one, deletes it.
\<close>

definition cp_demo :: "cp_event list" where
  "cp_demo =
     [F_object 5, F_make 0 7 5, F_null 1, F_assign 1 0 1, F_step 1, F_step 1, F_step 1, F_copy 1 0 2, F_step 1,
      F_destroy 1 0, F_step 1, F_destroy 1 1, F_destroy 2 2, F_step 1, F_step 2, F_step 1, F_step 2]"

lemma counted_ptr_owns_witness:
  "\<exists>s. cp_run [1, 2] cp_demo cp_new = Some s \<and> 5 \<notin> cp_live s \<and> cp_at s 1 = CP_idle \<and> cp_at s 2 = CP_free 7"
proof -
  obtain s where s: "cp_run [1, 2] cp_demo cp_new = Some s" using counted_ptr_owns [of "[1, 2]" cp_demo] by blast
  have "map_option (\<lambda>s. (5 \<in> cp_live s, cp_at s 1, cp_at s 2)) (cp_run [1, 2] cp_demo cp_new) =
      Some (False, CP_idle, CP_free 7)"
    by code_simp
  then show ?thesis using s by simp
qed

end
