(* ===== verification/Locked_Queue.thy ===== *)
theory Locked_Queue
  imports Prelude
begin

text \<open>
  The queues between the threads, \<^verbatim>\<open>LockedQueue\<close> over \<^verbatim>\<open>FastMutex\<close> (dep/include/zthread: LockedQueue.h,
  Queue.h, Guard.h; dep/src/zthread: FastMutex.cxx, posix/FastLock.h). A thread is a number. A call runs in
  points, one for each access to the shared object; the threads' points interleave in any order, which is the
  list of events of a run. The class of the lock is a parameter of the queue, as it is in the source; the
  locale \<open>lock_type\<close> has the laws it needs.
\<close>

section \<open>Locks\<close>

text \<open>
  \<^verbatim>\<open>FastLock\<close> is a \<^verbatim>\<open>pthread_mutex_t\<close>, known by the thread that holds it. A call that cannot return yet is
  \<open>Waits\<close>; one that the library leaves undefined (the release of a mutex that the thread does not hold) is
  \<open>Undefined\<close>.
\<close>

datatype 'x outcome = Waits | Undefined | Steps 'x

record fast_lock =
  fl_owner :: "nat option"

definition fl_new :: fast_lock where
  "fl_new = \<lparr>fl_owner = None\<rparr>"

definition fl_acquire :: "nat \<Rightarrow> fast_lock \<Rightarrow> fast_lock outcome" where
  "fl_acquire t l = (if fl_owner l = None then Steps (l\<lparr>fl_owner := Some t\<rparr>) else Waits)"

definition fl_tryAcquire :: "nat \<Rightarrow> nat \<Rightarrow> fast_lock \<Rightarrow> bool \<times> fast_lock" where
  "fl_tryAcquire t timeout l = (if fl_owner l = None then (True, l\<lparr>fl_owner := Some t\<rparr>) else (False, l))"

definition fl_release :: "nat \<Rightarrow> fast_lock \<Rightarrow> fast_lock outcome" where
  "fl_release t l = (if fl_owner l = Some t then Steps (l\<lparr>fl_owner := None\<rparr>) else Undefined)"

text \<open>What a template over \<^verbatim>\<open>LockType\<close> calls, and \<^verbatim>\<open>FastMutex\<close>, which delegates to its \<^verbatim>\<open>FastLock\<close>.\<close>

record 'l lock_ops =
  lk_acquire :: "nat \<Rightarrow> 'l \<Rightarrow> 'l outcome"
  lk_tryAcquire :: "nat \<Rightarrow> nat \<Rightarrow> 'l \<Rightarrow> bool \<times> 'l"
  lk_release :: "nat \<Rightarrow> 'l \<Rightarrow> 'l outcome"

definition FastMutex :: "fast_lock lock_ops" where
  "FastMutex = \<lparr>lk_acquire = fl_acquire, lk_tryAcquire = fl_tryAcquire, lk_release = fl_release\<rparr>"

text \<open>\<^verbatim>\<open>Guard\<close> with its policy \<^verbatim>\<open>LockedScope\<close>: the two constructors and the destructor.\<close>

definition Guard_new :: "'l lock_ops \<Rightarrow> nat \<Rightarrow> 'l \<Rightarrow> 'l outcome" where
  "Guard_new L t l = lk_acquire L t l"

definition Guard_timed :: "'l lock_ops \<Rightarrow> nat \<Rightarrow> nat \<Rightarrow> 'l \<Rightarrow> bool \<times> 'l" where
  "Guard_timed L t timeout l = lk_tryAcquire L t timeout l"

definition Guard_end :: "'l lock_ops \<Rightarrow> nat \<Rightarrow> 'l \<Rightarrow> 'l outcome" where
  "Guard_end L t l = lk_release L t l"

section \<open>The queue\<close>

record ('a, 'l) locked_queue =
  lq_lock :: 'l
  lq_queue :: "'a list"
  lq_canceled :: bool

definition LockedQueue_new :: "'l \<Rightarrow> ('a, 'l) locked_queue" where
  "LockedQueue_new l0 = \<lparr>lq_lock = l0, lq_queue = [], lq_canceled = False\<rparr>"

datatype 'a lq_call =
    Q_add 'a | Q_add_timeout 'a nat | Q_next | Q_next_timeout nat | Q_cancel | Q_isCanceled | Q_size | Q_size_timeout nat

datatype 'a lq_result =
    R_void | R_bool bool | R_item 'a | R_size nat | R_Cancellation | R_NoSuchElement | R_Timeout

text \<open>
  The points of a call: before the first access, behind the guard, after the first test of \<open>next\<close>, before
  \<^verbatim>\<open>push_back\<close>, \<^verbatim>\<open>front\<close> and \<^verbatim>\<open>pop_front\<close>, before the end of the guard with the result, and after it.
\<close>

datatype 'a lq_point =
    P_start | P_body | P_test | P_push | P_front | P_pop 'a | P_leave "'a lq_result" | P_returned "'a lq_result"

text \<open>The guard is made; a timeout is an exception, which \<open>add\<close> turns into false.\<close>

definition lq_timeout :: "'a lq_call \<Rightarrow> (nat \<times> 'a lq_result) option" where
  "lq_timeout call =
     (case call of
        Q_add_timeout x ms \<Rightarrow> Some (ms, R_bool False)
      | Q_next_timeout ms \<Rightarrow> Some (ms, R_Timeout)
      | Q_size_timeout ms \<Rightarrow> Some (ms, R_Timeout)
      | _ \<Rightarrow> None)"

definition lq_enter :: "'l lock_ops \<Rightarrow> nat \<Rightarrow> 'a lq_call \<Rightarrow> ('a, 'l) locked_queue \<Rightarrow>
    (('a, 'l) locked_queue \<times> 'a lq_point) outcome" where
  "lq_enter L t call q =
     (case lq_timeout call of
        Some (ms, r) \<Rightarrow>
          (let (got, l) = Guard_timed L t ms (lq_lock q) in
           Steps (q\<lparr>lq_lock := l\<rparr>, if got then P_body else P_returned r))
      | None \<Rightarrow>
          (case Guard_new L t (lq_lock q) of
             Waits \<Rightarrow> Waits
           | Undefined \<Rightarrow> Undefined
           | Steps l \<Rightarrow> Steps (q\<lparr>lq_lock := l\<rparr>, P_body)))"

text \<open>The first access behind the guard.\<close>

definition lq_body :: "'a lq_call \<Rightarrow> ('a, 'l) locked_queue \<Rightarrow> ('a, 'l) locked_queue \<times> 'a lq_point" where
  "lq_body call q =
     (case call of
        Q_add x \<Rightarrow> (q, if lq_canceled q then P_leave R_Cancellation else P_push)
      | Q_add_timeout x ms \<Rightarrow> (q, if lq_canceled q then P_leave R_Cancellation else P_push)
      | Q_next \<Rightarrow> (q, if lq_queue q = [] \<and> lq_canceled q then P_leave R_Cancellation else P_test)
      | Q_next_timeout ms \<Rightarrow> (q, if lq_queue q = [] \<and> lq_canceled q then P_leave R_Cancellation else P_test)
      | Q_cancel \<Rightarrow> (q\<lparr>lq_canceled := True\<rparr>, P_leave R_void)
      | Q_isCanceled \<Rightarrow> (q, P_leave (R_bool (lq_canceled q)))
      | Q_size \<Rightarrow> (q, P_leave (R_size (length (lq_queue q))))
      | Q_size_timeout ms \<Rightarrow> (q, P_leave (R_size (length (lq_queue q)))))"

definition lq_push :: "'a lq_call \<Rightarrow> ('a, 'l) locked_queue \<Rightarrow> (('a, 'l) locked_queue \<times> 'a lq_point) outcome" where
  "lq_push call q =
     (case call of
        Q_add x \<Rightarrow> Steps (q\<lparr>lq_queue := lq_queue q @ [x]\<rparr>, P_leave R_void)
      | Q_add_timeout x ms \<Rightarrow> Steps (q\<lparr>lq_queue := lq_queue q @ [x]\<rparr>, P_leave (R_bool True))
      | _ \<Rightarrow> Undefined)"

fun lq_step :: "'l lock_ops \<Rightarrow> nat \<Rightarrow> 'a lq_call \<Rightarrow> ('a, 'l) locked_queue \<Rightarrow> 'a lq_point \<Rightarrow>
    (('a, 'l) locked_queue \<times> 'a lq_point) outcome" where
  "lq_step L t call q P_start =
     (if call = Q_isCanceled \<and> lq_canceled q then Steps (q, P_returned (R_bool True)) else lq_enter L t call q)"
| "lq_step L t call q P_body = Steps (lq_body call q)"
| "lq_step L t call q P_push = lq_push call q"
| "lq_step L t call q P_test = Steps (q, if lq_queue q = [] then P_leave R_NoSuchElement else P_front)"
| "lq_step L t call q P_front = (case lq_queue q of [] \<Rightarrow> Undefined | x # _ \<Rightarrow> Steps (q, P_pop x))"
| "lq_step L t call q (P_pop x) =
     (case lq_queue q of [] \<Rightarrow> Undefined | _ # xs \<Rightarrow> Steps (q\<lparr>lq_queue := xs\<rparr>, P_leave (R_item x)))"
| "lq_step L t call q (P_leave r) =
     (case Guard_end L t (lq_lock q) of
        Waits \<Rightarrow> Waits | Undefined \<Rightarrow> Undefined | Steps l \<Rightarrow> Steps (q\<lparr>lq_lock := l\<rparr>, P_returned r))"
| "lq_step L t call q (P_returned r) = Waits"

section \<open>Threads that use it\<close>

text \<open>
  A thread without a call is \<^const>\<open>None\<close>. Two records are kept beside the object: \<open>qs_log\<close>, the calls in the
  order in which they took effect, with their results, and \<open>qs_returns\<close>, the calls in the order in which
  they returned.
\<close>

type_synonym 'a lq_entry = "nat \<times> 'a lq_call \<times> 'a lq_result"

record ('a, 'l) lq_system =
  qs_obj :: "('a, 'l) locked_queue"
  qs_at :: "nat \<Rightarrow> ('a lq_call \<times> 'a lq_point) option"
  qs_log :: "'a lq_entry list"
  qs_returns :: "'a lq_entry list"

definition qs_new :: "'l \<Rightarrow> ('a, 'l) lq_system" where
  "qs_new l0 = \<lparr>qs_obj = LockedQueue_new l0, qs_at = (\<lambda>_. None), qs_log = [], qs_returns = []\<rparr>"

datatype 'a lq_event = E_call nat "'a lq_call" | E_step nat | E_return nat

text \<open>A call takes effect when its result is fixed.\<close>

fun lq_fixed :: "'a lq_point \<Rightarrow> 'a lq_result option" where
  "lq_fixed (P_leave r) = Some r"
| "lq_fixed (P_returned r) = Some r"
| "lq_fixed _ = None"

definition lq_logged :: "nat \<Rightarrow> 'a lq_call \<Rightarrow> 'a lq_point \<Rightarrow> 'a lq_point \<Rightarrow> 'a lq_entry list" where
  "lq_logged t call p p' =
     (case (lq_fixed p, lq_fixed p') of (None, Some r) \<Rightarrow> [(t, call, r)] | _ \<Rightarrow> [])"

fun lq_happens :: "'l lock_ops \<Rightarrow> 'a lq_event \<Rightarrow> ('a, 'l) lq_system \<Rightarrow> ('a, 'l) lq_system option" where
  "lq_happens L (E_call t call) s =
     Some (if qs_at s t = None then s\<lparr>qs_at := (qs_at s)(t := Some (call, P_start))\<rparr> else s)"
| "lq_happens L (E_step t) s =
     (case qs_at s t of
        None \<Rightarrow> Some s
      | Some (call, p) \<Rightarrow>
          (case lq_step L t call (qs_obj s) p of
             Waits \<Rightarrow> Some s
           | Undefined \<Rightarrow> None
           | Steps (q, p') \<Rightarrow>
               Some (s\<lparr>qs_obj := q, qs_at := (qs_at s)(t := Some (call, p')), qs_log := qs_log s @ lq_logged t call p p'\<rparr>)))"
| "lq_happens L (E_return t) s =
     (case qs_at s t of
        Some (call, P_returned r) \<Rightarrow> Some (s\<lparr>qs_at := (qs_at s)(t := None), qs_returns := qs_returns s @ [(t, call, r)]\<rparr>)
      | _ \<Rightarrow> Some s)"

fun lq_run :: "'l lock_ops \<Rightarrow> 'a lq_event list \<Rightarrow> ('a, 'l) lq_system \<Rightarrow> ('a, 'l) lq_system option" where
  "lq_run L [] s = Some s"
| "lq_run L (e # es) s = Option.bind (lq_happens L e s) (lq_run L es)"

section \<open>The abstract queue\<close>

text \<open>One call after the other, on a list and the flag.\<close>

fun lq_seq :: "'a lq_call \<Rightarrow> 'a list \<times> bool \<Rightarrow> 'a lq_result \<times> 'a list \<times> bool" where
  "lq_seq (Q_add x) (xs, c) = (if c then (R_Cancellation, xs, c) else (R_void, xs @ [x], c))"
| "lq_seq (Q_add_timeout x ms) (xs, c) = (if c then (R_Cancellation, xs, c) else (R_bool True, xs @ [x], c))"
| "lq_seq Q_next (xs, c) =
     (case xs of [] \<Rightarrow> (if c then R_Cancellation else R_NoSuchElement, xs, c) | x # xs \<Rightarrow> (R_item x, xs, c))"
| "lq_seq (Q_next_timeout ms) (xs, c) =
     (case xs of [] \<Rightarrow> (if c then R_Cancellation else R_NoSuchElement, xs, c) | x # xs \<Rightarrow> (R_item x, xs, c))"
| "lq_seq Q_cancel (xs, c) = (R_void, xs, True)"
| "lq_seq Q_isCanceled (xs, c) = (R_bool c, xs, c)"
| "lq_seq Q_size (xs, c) = (R_size (length xs), xs, c)"
| "lq_seq (Q_size_timeout ms) (xs, c) = (R_size (length xs), xs, c)"

text \<open>Doing the calls of a log; a call that timed out has no effect.\<close>

fun lq_replay :: "'a lq_entry list \<Rightarrow> 'a list \<times> bool \<Rightarrow> ('a list \<times> bool) option" where
  "lq_replay [] a = Some a"
| "lq_replay ((t, call, r) # es) a =
     (if map_option snd (lq_timeout call) = Some r then lq_replay es a
      else if fst (lq_seq call a) = r then lq_replay es (snd (lq_seq call a))
      else None)"

lemma lq_replay_append: "lq_replay (es @ fs) a = Option.bind (lq_replay es a) (lq_replay fs)"
  by (induction es a rule: lq_replay.induct) auto

section \<open>The invariant\<close>

text \<open>Where a thread holds the lock, and what it knows of the queue there.\<close>

fun lq_in :: "'a lq_point \<Rightarrow> bool" where
  "lq_in P_start = False"
| "lq_in (P_returned r) = False"
| "lq_in _ = True"

definition is_add :: "'a lq_call \<Rightarrow> bool" where
  "is_add call = (case call of Q_add x \<Rightarrow> True | Q_add_timeout x ms \<Rightarrow> True | _ \<Rightarrow> False)"

definition is_next :: "'a lq_call \<Rightarrow> bool" where
  "is_next call = (case call of Q_next \<Rightarrow> True | Q_next_timeout ms \<Rightarrow> True | _ \<Rightarrow> False)"

fun lq_point_ok :: "'a lq_call \<Rightarrow> 'a lq_point \<Rightarrow> ('a, 'l) locked_queue \<Rightarrow> bool" where
  "lq_point_ok call P_push q = (is_add call \<and> \<not> lq_canceled q)"
| "lq_point_ok call P_test q = (is_next call \<and> (lq_queue q = [] \<longrightarrow> \<not> lq_canceled q))"
| "lq_point_ok call P_front q = (is_next call \<and> lq_queue q \<noteq> [])"
| "lq_point_ok call (P_pop x) q = (is_next call \<and> lq_queue q \<noteq> [] \<and> hd (lq_queue q) = x)"
| "lq_point_ok call _ q = True"

definition lq_abs :: "('a, 'l) locked_queue \<Rightarrow> 'a list \<times> bool" where
  "lq_abs q = (lq_queue q, lq_canceled q)"

definition lq_pending :: "nat \<Rightarrow> ('a lq_call \<times> 'a lq_point) option \<Rightarrow> 'a lq_entry list" where
  "lq_pending t st = (case st of Some (call, p) \<Rightarrow> (case lq_fixed p of Some r \<Rightarrow> [(t, call, r)] | None \<Rightarrow> []) | None \<Rightarrow> [])"

lemma lq_pending_None [simp]: "lq_pending t None = []"
  by (simp add: lq_pending_def)

definition qs_inv :: "('l \<Rightarrow> nat option) \<Rightarrow> ('a, 'l) lq_system \<Rightarrow> bool" where
  "qs_inv holder s \<longleftrightarrow>
     (\<forall>t. (\<exists>call p. qs_at s t = Some (call, p) \<and> lq_in p) \<longleftrightarrow> holder (lq_lock (qs_obj s)) = Some t) \<and>
     (\<forall>t call p. qs_at s t = Some (call, p) \<longrightarrow> lq_point_ok call p (qs_obj s)) \<and>
     lq_replay (qs_log s) ([], False) = Some (lq_abs (qs_obj s)) \<and>
     (\<forall>t. filter (\<lambda>e. fst e = t) (qs_log s) =
        filter (\<lambda>e. fst e = t) (qs_returns s) @ lq_pending t (qs_at s t))"

section \<open>One consumer\<close>

text \<open>
  How the servers use the queues: the threads other than \<open>c\<close> add, and \<open>c\<close> takes an element only
  after it has seen that the queue is not empty, as in \<^verbatim>\<open>while(!m_recvQueue.empty())\<close>; \<open>empty\<close> asks
  for the size. Nobody cancels.
\<close>

definition lq_saw :: "nat \<Rightarrow> 'a lq_entry list \<Rightarrow> bool" where
  "lq_saw c es = (case rev (filter (\<lambda>e. fst e = c) es) of (_, Q_size, R_size n) # _ \<Rightarrow> 0 < n | _ \<Rightarrow> False)"

fun lq_allowed :: "nat \<Rightarrow> 'a lq_event \<Rightarrow> ('a, 'l) lq_system \<Rightarrow> bool" where
  "lq_allowed c (E_call t call) s =
     (case call of
        Q_add x \<Rightarrow> t \<noteq> c
      | Q_size \<Rightarrow> t = c
      | Q_next \<Rightarrow> t = c \<and> lq_saw c (qs_returns s)
      | _ \<Rightarrow> False)"
| "lq_allowed c _ s = True"

fun lq_disciplined :: "'l lock_ops \<Rightarrow> nat \<Rightarrow> 'a lq_event list \<Rightarrow> ('a, 'l) lq_system \<Rightarrow> bool" where
  "lq_disciplined L c [] s = True"
| "lq_disciplined L c (e # es) s =
     (lq_allowed c e s \<and> (case lq_happens L e s of None \<Rightarrow> True | Some s' \<Rightarrow> lq_disciplined L c es s'))"

text \<open>The elements taken and the elements added, in the order of a record.\<close>

fun lq_taken :: "'a lq_entry list \<Rightarrow> 'a list" where
  "lq_taken [] = []"
| "lq_taken ((t, call, r) # es) = (case r of R_item x \<Rightarrow> x # lq_taken es | _ \<Rightarrow> lq_taken es)"

fun lq_added :: "'a lq_entry list \<Rightarrow> 'a list" where
  "lq_added [] = []"
| "lq_added ((t, call, r) # es) = (case (call, r) of (Q_add x, R_void) \<Rightarrow> x # lq_added es | _ \<Rightarrow> lq_added es)"

lemma lq_taken_append: "lq_taken (es @ fs) = lq_taken es @ lq_taken fs"
  by (induction es rule: lq_taken.induct) (auto split: lq_result.splits)

lemma lq_added_append: "lq_added (es @ fs) = lq_added es @ lq_added fs"
  by (induction es rule: lq_added.induct) (auto split: lq_call.splits lq_result.splits)

text \<open>What is known of the entries and of the calls on their way.\<close>

definition entry_ok :: "nat \<Rightarrow> 'a lq_entry \<Rightarrow> bool" where
  "entry_ok c e \<longleftrightarrow>
     (case e of (t, call, r) \<Rightarrow>
        (t \<noteq> c \<and> (\<exists>x. call = Q_add x) \<and> r = R_void) \<or>
        (t = c \<and> call = Q_size \<and> (\<exists>n. r = R_size n)) \<or>
        (t = c \<and> call = Q_next \<and> (\<exists>x. r = R_item x)))"

definition call_ok :: "nat \<Rightarrow> nat \<Rightarrow> 'a lq_call \<Rightarrow> bool" where
  "call_ok c t call \<longleftrightarrow> (t \<noteq> c \<and> (\<exists>x. call = Q_add x)) \<or> (t = c \<and> (call = Q_size \<or> call = Q_next))"

definition qs_use :: "nat \<Rightarrow> ('a, 'l) lq_system \<Rightarrow> bool" where
  "qs_use c s \<longleftrightarrow>
     \<not> lq_canceled (qs_obj s) \<and> (\<forall>e \<in> set (qs_log s). entry_ok c e) \<and>
     (\<forall>t call p. qs_at s t = Some (call, p) \<longrightarrow> call_ok c t call) \<and>
     (lq_saw c (qs_log s) \<longrightarrow> lq_queue (qs_obj s) \<noteq> []) \<and>
     (\<forall>p. qs_at s c = Some (Q_next, p) \<longrightarrow> lq_fixed p = None \<longrightarrow> lq_saw c (qs_log s)) \<and>
     lq_taken (qs_log s) @ lq_queue (qs_obj s) = lq_added (qs_log s)"

lemma qs_use_new: "qs_use c (qs_new l0)"
  by (simp add: qs_use_def qs_new_def LockedQueue_new_def lq_saw_def)

lemma lq_saw_append:
  "lq_saw c (es @ [(t, call, r)]) =
    (if t = c then call = Q_size \<and> (\<exists>n. r = R_size n \<and> 0 < n) else lq_saw c es)"
  by (auto simp: lq_saw_def split: lq_call.splits lq_result.splits)

section \<open>What a lock promises\<close>

locale lock_type =
  fixes L :: "'l lock_ops" and holder :: "'l \<Rightarrow> nat option" and l0 :: 'l
  assumes new_free: "holder l0 = None"
    and acquire: "lk_acquire L t l = Steps l' \<Longrightarrow> holder l = None \<and> holder l' = Some t"
    and acquire_defined: "lk_acquire L t l \<noteq> Undefined"
    and acquire_free: "holder l = None \<Longrightarrow> lk_acquire L t l \<noteq> Waits"
    and try_got: "lk_tryAcquire L t ms l = (True, l') \<Longrightarrow> holder l = None \<and> holder l' = Some t"
    and try_not: "lk_tryAcquire L t ms l = (False, l') \<Longrightarrow> holder l' = holder l"
    and release: "holder l = Some t \<Longrightarrow> \<exists>l'. lk_release L t l = Steps l' \<and> holder l' = None"
begin

lemma lq_step_defined:
  assumes "lq_point_ok call p q" "lq_in p \<Longrightarrow> holder (lq_lock q) = Some t"
  shows "lq_step L t call q p \<noteq> Undefined"
  using assms release [of "lq_lock q" t] acquire_defined [of t "lq_lock q"]
  by (cases p)
    (auto simp: lq_enter_def Guard_new_def Guard_end_def lq_push_def is_add_def split: option.splits outcome.splits prod.splits
      list.splits lq_call.splits)

lemma lq_step_holder:
  assumes "lq_step L t call q p = Steps (q', p')" "lq_in p \<Longrightarrow> holder (lq_lock q) = Some t"
  shows "holder (lq_lock q') = (if lq_in p' then Some t else if lq_in p then None else holder (lq_lock q))"
    and "lq_in p' \<Longrightarrow> \<not> lq_in p \<Longrightarrow> holder (lq_lock q) = None"
  using assms release [of "lq_lock q" t]
  by (cases p; auto simp: lq_enter_def Guard_new_def Guard_timed_def Guard_end_def lq_push_def lq_body_def
      dest: acquire try_got try_not split: option.splits outcome.splits prod.splits list.splits lq_call.splits if_splits)+

lemma lq_step_point:
  assumes "lq_step L t call q p = Steps (q', p')" "lq_point_ok call p q"
  shows "lq_point_ok call p' q'" "\<not> lq_in p \<Longrightarrow> lq_abs q' = lq_abs q"
    "lq_replay (lq_logged t call p p') (lq_abs q) = Some (lq_abs q')"
  using assms
  by (cases p; auto simp: lq_enter_def lq_timeout_def Guard_new_def Guard_timed_def Guard_end_def lq_push_def lq_body_def
      is_add_def is_next_def lq_abs_def lq_logged_def
      split: option.splits outcome.splits prod.splits list.splits lq_call.splits if_splits)+

lemma lq_step_fixed:
  assumes "lq_step L t call q p = Steps (q', p')"
  shows "lq_pending t (Some (call, p')) = lq_pending t (Some (call, p)) @ lq_logged t call p p'"
    and "u \<noteq> t \<Longrightarrow> filter (\<lambda>e. fst e = u) (lq_logged t call p p') = []"
    and "filter (\<lambda>e. fst e = t) (lq_logged t call p p') = lq_logged t call p p'"
  using assms by (cases p; auto simp: lq_pending_def lq_logged_def split: option.splits outcome.splits)+

lemma qs_inv_new: "qs_inv holder (qs_new l0)"
  by (simp add: qs_inv_def qs_new_def LockedQueue_new_def new_free lq_abs_def lq_pending_def)

lemma qs_inv_step:
  assumes inv: "qs_inv holder s" and at: "qs_at s t = Some (call, p)"
    and step: "lq_step L t call (qs_obj s) p = Steps (q, p')"
  shows "qs_inv holder (s\<lparr>qs_obj := q, qs_at := (qs_at s)(t := Some (call, p')), qs_log := qs_log s @ lq_logged t call p p'\<rparr>)"
proof -
  let ?q = "qs_obj s" and ?at = "(qs_at s)(t := Some (call, p'))"
  have users: "(\<exists>call p. qs_at s u = Some (call, p) \<and> lq_in p) \<longleftrightarrow> holder (lq_lock ?q) = Some u" for u
    using inv by (simp add: qs_inv_def)
  have held: "lq_in p \<longleftrightarrow> holder (lq_lock ?q) = Some t" using users [of t] at by simp
  have ok: "lq_point_ok c r ?q" if "qs_at s u = Some (c, r)" for u c r using inv that by (simp add: qs_inv_def)
  note holder' = lq_step_holder [OF step]
  note point' = lq_step_point [OF step ok [OF at]]
  have "(\<exists>call p. ?at u = Some (call, p) \<and> lq_in p) \<longleftrightarrow> holder (lq_lock q) = Some u" for u
    using users [of u] held holder' by (cases "u = t"; cases "lq_in p"; cases "lq_in p'") auto
  moreover have "lq_point_ok c r q" if "?at u = Some (c, r)" for u c r
  proof (cases "u = t")
    case False
    then have u: "qs_at s u = Some (c, r)" using that by simp
    show ?thesis
    proof (cases "lq_in p")
      case True
      then have "\<not> lq_in r" using users [of u] held u False by auto
      then show ?thesis by (cases r) auto
    next
      case nin: False
      then show ?thesis using ok [OF u] point'(2) by (cases r) (auto simp: lq_abs_def)
    qed
  qed (use that point'(1) in auto)
  moreover have "lq_replay (qs_log s @ lq_logged t call p p') ([], False) = Some (lq_abs q)"
    using inv point'(3) by (simp add: qs_inv_def lq_replay_append)
  moreover have "filter (\<lambda>e. fst e = u) (qs_log s @ lq_logged t call p p') =
      filter (\<lambda>e. fst e = u) (qs_returns s) @ lq_pending u (?at u)" for u
    using inv at lq_step_fixed [OF step] by (cases "u = t") (auto simp: qs_inv_def)
  ultimately show ?thesis unfolding qs_inv_def by simp
qed

lemma qs_inv_happens:
  assumes inv: "qs_inv holder s"
  shows "\<exists>s'. lq_happens L e s = Some s' \<and> qs_inv holder s'"
proof (cases e)
  case (E_call t call)
  have "holder (lq_lock (qs_obj s)) \<noteq> Some t" if "qs_at s t = None"
    using inv that unfolding qs_inv_def by (metis option.distinct(1))
  then show ?thesis using E_call inv by (auto simp: qs_inv_def lq_pending_def)
next
  case (E_step t)
  show ?thesis
  proof (cases "qs_at s t")
    case (Some cp)
    then obtain call p where at: "qs_at s t = Some (call, p)" by (cases cp) auto
    have "lq_step L t call (qs_obj s) p \<noteq> Undefined"
      using inv at by (intro lq_step_defined) (auto simp: qs_inv_def)
    then show ?thesis using E_step at inv qs_inv_step [OF inv at] by (auto split: outcome.splits)
  qed (use E_step inv in auto)
next
  case (E_return t)
  show ?thesis
  proof (cases "\<exists>call r. qs_at s t = Some (call, P_returned r)")
    case True
    then obtain call r where at: "qs_at s t = Some (call, P_returned r)" by blast
    have "holder (lq_lock (qs_obj s)) \<noteq> Some t"
      using inv at unfolding qs_inv_def by (metis lq_in.simps(2) option.inject prod.inject)
    moreover have "lq_pending t (qs_at s t) = [(t, call, r)]" by (simp add: at lq_pending_def)
    ultimately show ?thesis using E_return at inv by (auto simp: qs_inv_def)
  next
    case False
    then have "lq_happens L (E_return t) s = Some s" by (auto split: option.splits lq_point.splits)
    then show ?thesis using E_return inv by simp
  qed
qed

lemma qs_inv_run: "qs_inv holder s \<Longrightarrow> \<exists>s'. lq_run L es s = Some s' \<and> qs_inv holder s'"
proof (induction es arbitrary: s)
  case (Cons e es)
  obtain s1 where "lq_happens L e s = Some s1" "qs_inv holder s1" using qs_inv_happens [OF Cons.prems] by blast
  with Cons.IH show ?case by simp
qed simp

text \<open>A step of a thread that uses the queue as the servers do.\<close>

lemma lq_step_use:
  assumes step: "lq_step L t call q p = Steps (q', p')" and ok: "call_ok c t call" and nc: "\<not> lq_canceled q"
    and saw: "t = c \<Longrightarrow> call = Q_next \<Longrightarrow> lq_fixed p = None \<Longrightarrow> lq_queue q \<noteq> []"
    and pt: "lq_point_ok call p q"
  shows "\<not> lq_canceled q' \<and>
    ((lq_logged t call p p' = [] \<and> lq_queue q' = lq_queue q \<and> (lq_fixed p' = None \<longrightarrow> lq_fixed p = None)) \<or>
     (\<exists>x. t \<noteq> c \<and> call = Q_add x \<and> lq_logged t call p p' = [(t, call, R_void)] \<and> lq_queue q' = lq_queue q @ [x]) \<or>
     (t = c \<and> call = Q_size \<and> lq_logged t call p p' = [(t, call, R_size (length (lq_queue q)))] \<and> lq_queue q' = lq_queue q) \<or>
     (\<exists>x. t = c \<and> call = Q_next \<and> lq_logged t call p p' = [(t, call, R_item x)] \<and> lq_queue q = x # lq_queue q' \<and>
        lq_fixed p' \<noteq> None))"
  using assms
  by (cases p; auto simp: lq_enter_def lq_timeout_def Guard_new_def Guard_timed_def Guard_end_def lq_push_def lq_body_def
      is_add_def is_next_def lq_logged_def call_ok_def
      split: option.splits outcome.splits prod.splits list.splits lq_call.splits if_splits)

lemma qs_use_call:
  assumes use: "qs_use c s" and inv: "qs_inv holder s" and al: "lq_allowed c (E_call t call) s" and none: "qs_at s t = None"
  shows "qs_use c (s\<lparr>qs_at := (qs_at s)(t := Some (call, P_start))\<rparr>)"
proof -
  have "filter (\<lambda>e. fst e = t) (qs_log s) = filter (\<lambda>e. fst e = t) (qs_returns s)"
    using inv none by (simp add: qs_inv_def)
  then have "lq_saw t (qs_log s) = lq_saw t (qs_returns s)" by (simp add: lq_saw_def)
  then have "call_ok c t call" "t = c \<Longrightarrow> call = Q_next \<Longrightarrow> lq_saw c (qs_log s)"
    using al by (auto simp: call_ok_def split: lq_call.splits)
  moreover have "\<forall>v d r. qs_at s v = Some (d, r) \<longrightarrow> call_ok c v d" using use by (simp add: qs_use_def)
  ultimately show ?thesis using use by (cases "t = c") (auto simp: qs_use_def)
qed

lemma qs_use_return:
  assumes use: "qs_use c s"
  shows "qs_use c (s\<lparr>qs_at := (qs_at s)(t := None), qs_returns := r\<rparr>)"
  using use by (auto simp: qs_use_def)

lemma qs_use_step:
  assumes use: "qs_use c s" and inv: "qs_inv holder s" and at: "qs_at s t = Some (call, p)"
    and step: "lq_step L t call (qs_obj s) p = Steps (q, p')"
  shows "qs_use c (s\<lparr>qs_obj := q, qs_at := (qs_at s)(t := Some (call, p')), qs_log := qs_log s @ lq_logged t call p p'\<rparr>)"
    (is "qs_use c ?s")
proof -
  let ?Q = "lq_queue (qs_obj s)"
  note u = use [unfolded qs_use_def]
  have ats: "call_ok c v d" if "qs_at s v = Some (d, r)" for v d r using u that by blast
  have saw: "?Q \<noteq> []" "lq_saw c (qs_log s)" if "t = c" "call = Q_next" "lq_fixed p = None" using u at that by blast+
  have pt: "lq_point_ok call p (qs_obj s)" using inv at by (simp add: qs_inv_def)
  have nc: "\<not> lq_canceled (qs_obj s)" using u by blast
  note eff = lq_step_use [OF step ats [OF at] nc saw(1) pt]
  have nc': "\<not> lq_canceled q" using eff by blast
  have ats': "\<forall>v d r. qs_at ?s v = Some (d, r) \<longrightarrow> call_ok c v d" using ats at by auto
  from eff consider
      (none) "lq_logged t call p p' = []" "lq_queue q = ?Q" "lq_fixed p' = None \<longrightarrow> lq_fixed p = None"
    | (add) x where "t \<noteq> c" "call = Q_add x" "lq_logged t call p p' = [(t, call, R_void)]" "lq_queue q = ?Q @ [x]"
    | (ask) "t = c" "call = Q_size" "lq_logged t call p p' = [(t, call, R_size (length ?Q))]" "lq_queue q = ?Q"
    | (take) x where "t = c" "call = Q_next" "lq_logged t call p p' = [(t, call, R_item x)]" "?Q = x # lq_queue q"
        "lq_fixed p' \<noteq> None"
    by blast
  then show ?thesis
  proof cases
    case none
    have "\<forall>r. qs_at ?s c = Some (Q_next, r) \<longrightarrow> lq_fixed r = None \<longrightarrow> lq_saw c (qs_log s)"
      using u saw(2) none(3) by (cases "t = c") auto
    with u nc' ats' none(1,2) show ?thesis unfolding qs_use_def by simp
  next
    case add
    have "\<forall>r. qs_at ?s c = Some (Q_next, r) \<longrightarrow> lq_fixed r = None \<longrightarrow> lq_saw c (qs_log s)"
      using u add(1) by simp
    with u nc' ats' add show ?thesis unfolding qs_use_def
      by (simp add: lq_saw_append lq_taken_append lq_added_append entry_ok_def)
  next
    case ask
    with u nc' ats' show ?thesis unfolding qs_use_def
      by (simp add: lq_saw_append lq_taken_append lq_added_append entry_ok_def)
  next
    case take
    with u nc' ats' show ?thesis unfolding qs_use_def
      by (simp add: lq_saw_append lq_taken_append lq_added_append entry_ok_def)
  qed
qed

lemma qs_use_happens:
  assumes "qs_use c s" "qs_inv holder s" "lq_allowed c e s" "lq_happens L e s = Some s'"
  shows "qs_use c s'"
proof (cases e)
  case (E_call t call)
  then show ?thesis using assms qs_use_call [of c s t call] by (cases "qs_at s t") auto
next
  case (E_return t)
  then show ?thesis using assms qs_use_return by (auto split: option.splits prod.splits lq_point.splits)
next
  case (E_step t)
  then show ?thesis using assms qs_use_step by (auto split: option.splits prod.splits outcome.splits)
qed

lemma qs_use_run:
  "qs_use c s \<Longrightarrow> qs_inv holder s \<Longrightarrow> lq_disciplined L c es s \<Longrightarrow>
    \<exists>s'. lq_run L es s = Some s' \<and> qs_inv holder s' \<and> qs_use c s'"
proof (induction es arbitrary: s)
  case (Cons e es)
  obtain s1 where s1: "lq_happens L e s = Some s1" "qs_inv holder s1" using qs_inv_happens [OF Cons.prems(2)] by blast
  have "qs_use c s1" using qs_use_happens [OF Cons.prems(1,2) _ s1(1)] Cons.prems(3) by simp
  with Cons.IH [of s1] Cons.prems(3) s1 show ?case by simp
qed simp

text \<open>
  Somebody can always go on: as long as a call has not returned, a step of some thread is not a wait.
\<close>

lemma qs_goes_on:
  assumes inv: "qs_inv holder s" and at: "qs_at s t = Some (call, p)" "lq_fixed p = None \<or> lq_in p"
  shows "\<exists>u c r. qs_at s u = Some (c, r) \<and> lq_step L u c (qs_obj s) r \<noteq> Waits"
proof (cases "holder (lq_lock (qs_obj s))")
  case None
  then have "\<not> lq_in p" using inv at unfolding qs_inv_def by fastforce
  then have "p = P_start" using at(2) by (cases p) auto
  then have "lq_step L t call (qs_obj s) p \<noteq> Waits"
    using acquire_free [OF None] by (auto simp: lq_enter_def Guard_new_def split: option.splits outcome.splits prod.splits)
  with at show ?thesis by blast
next
  case (Some u)
  then obtain c r where u: "qs_at s u = Some (c, r)" "lq_in r" using inv unfolding qs_inv_def by blast
  have "lq_step L u c (qs_obj s) r \<noteq> Waits"
    using u(2) release [OF Some]
    by (cases r) (auto simp: Guard_end_def lq_push_def split: outcome.splits list.splits lq_call.splits)
  with u show ?thesis by blast
qed

end

interpretation fast_mutex: lock_type FastMutex fl_owner fl_new
  by unfold_locales (auto simp: FastMutex_def fl_new_def fl_acquire_def fl_tryAcquire_def fl_release_def split: if_splits)

section \<open>Properties\<close>

text \<open>
  C7: Calls of a locked queue from any number of threads, interleaved point by point in any order, never leave
  defined behaviour and are the calls of a plain queue done one after the other: in the order in which they
  took effect, which for each thread is the order of its calls, a plain queue gives the same results and ends
  with the same elements and flag. The mutex is held exactly by a thread between its guard and the end of it,
  so by at most one, and as long as a call has not taken effect some thread can go on.
\<close>

theorem locked_queue_linear:
  "\<exists>s. lq_run FastMutex es (qs_new fl_new) = Some s \<and>
     lq_replay (qs_log s) ([], False) = Some (lq_queue (qs_obj s), lq_canceled (qs_obj s)) \<and>
     (\<forall>t. filter (\<lambda>e. fst e = t) (qs_log s) = filter (\<lambda>e. fst e = t) (qs_returns s) @ lq_pending t (qs_at s t)) \<and>
     (\<forall>t. (\<exists>call p. qs_at s t = Some (call, p) \<and> lq_in p) = (fl_owner (lq_lock (qs_obj s)) = Some t)) \<and>
     ((\<exists>t call p. qs_at s t = Some (call, p) \<and> lq_fixed p = None) \<longrightarrow>
      (\<exists>t call p. qs_at s t = Some (call, p) \<and> lq_step FastMutex t call (qs_obj s) p \<noteq> Waits))"
proof -
  obtain s where s: "lq_run FastMutex es (qs_new fl_new) = Some s" "qs_inv fl_owner s"
    using fast_mutex.qs_inv_run [OF fast_mutex.qs_inv_new] by blast
  have "(\<exists>t call p. qs_at s t = Some (call, p) \<and> lq_fixed p = None) \<longrightarrow>
      (\<exists>t call p. qs_at s t = Some (call, p) \<and> lq_step FastMutex t call (qs_obj s) p \<noteq> Waits)"
    using fast_mutex.qs_goes_on [OF s(2)] by blast
  with s show ?thesis unfolding qs_inv_def lq_abs_def by (intro exI [of _ s] conjI) simp_all
qed

text \<open>Two threads add while a third takes; the second add waits for the first.\<close>

definition lq_demo :: "nat lq_event list" where
  "lq_demo =
     [E_call 1 (Q_add 10), E_call 2 (Q_add 20), E_call 3 Q_size, E_step 1, E_step 2, E_step 1, E_step 3, E_step 1,
      E_step 1, E_return 1, E_step 3, E_step 3, E_step 2, E_step 3, E_return 3, E_call 3 Q_next, E_step 2, E_step 2,
      E_step 3, E_step 3, E_step 2, E_step 2, E_return 2, E_step 3, E_step 3, E_step 3, E_step 3, E_step 3, E_step 3,
      E_step 3, E_return 3]"

lemma locked_queue_linear_witness:
  "lq_run FastMutex lq_demo (qs_new fl_new) \<noteq> None \<and>
   map_option (\<lambda>s. qs_returns s) (lq_run FastMutex lq_demo (qs_new fl_new)) =
     Some [(1, Q_add 10, R_void), (3, Q_size, R_size 1), (2, Q_add 20, R_void), (3, Q_next, R_item 10)]"
proof
  show "lq_run FastMutex lq_demo (qs_new fl_new) \<noteq> None" using locked_queue_linear [of lq_demo] by auto
qed code_simp

text \<open>
  C4: The queues between the threads of a server: when all threads but one only add, and that one takes only
  after it has seen that the queue is not empty, no call ends with an exception, whatever the interleaving, and
  what has been taken, followed by what is on its way and what is in the queue, is what was added, in order.
\<close>

theorem single_consumer_gets_all:
  assumes "lq_disciplined FastMutex c es (qs_new fl_new)"
  shows "\<exists>s. lq_run FastMutex es (qs_new fl_new) = Some s \<and>
     lq_taken (qs_returns s) @ lq_taken (lq_pending c (qs_at s c)) @ lq_queue (qs_obj s) = lq_added (qs_log s) \<and>
     (\<forall>e \<in> set (qs_returns s). snd (snd e) \<notin> {R_Cancellation, R_NoSuchElement, R_Timeout})"
proof -
  obtain s where s: "lq_run FastMutex es (qs_new fl_new) = Some s" and inv: "qs_inv fl_owner s" and use: "qs_use c s"
    using fast_mutex.qs_use_run [OF qs_use_new fast_mutex.qs_inv_new assms] by blast
  have log: "filter (\<lambda>e. fst e = t) (qs_log s) = filter (\<lambda>e. fst e = t) (qs_returns s) @ lq_pending t (qs_at s t)" for t
    using inv by (simp add: qs_inv_def)
  have entry: "entry_ok c e" if "e \<in> set (qs_returns s)" for e
  proof -
    have "e \<in> set (filter (\<lambda>f. fst f = fst e) (qs_log s))" unfolding log using that by simp
    then show ?thesis using use by (simp add: qs_use_def)
  qed
  have taken: "lq_taken (filter (\<lambda>e. fst e = c) es) = lq_taken es" if "\<forall>e \<in> set es. entry_ok c e" for es :: "'a lq_entry list"
    using that by (induction es rule: lq_taken.induct) (auto simp: entry_ok_def split: lq_result.splits)
  have "lq_taken (qs_log s) = lq_taken (qs_returns s) @ lq_taken (lq_pending c (qs_at s c))"
    using taken [of "qs_log s"] taken [of "qs_returns s"] entry use
    by (metis log lq_taken_append qs_use_def)
  then have "lq_taken (qs_returns s) @ lq_taken (lq_pending c (qs_at s c)) @ lq_queue (qs_obj s) = lq_added (qs_log s)"
    using use by (simp add: qs_use_def)
  moreover have "\<forall>e \<in> set (qs_returns s). snd (snd e) \<notin> {R_Cancellation, R_NoSuchElement, R_Timeout}"
    using entry by (fastforce simp: entry_ok_def)
  ultimately show ?thesis using s by blast
qed

lemma single_consumer_gets_all_witness:
  "\<exists>s. lq_run FastMutex lq_demo (qs_new fl_new) = Some s \<and>
     lq_taken (qs_returns s) @ lq_taken (lq_pending 3 (qs_at s 3)) @ lq_queue (qs_obj s) = lq_added (qs_log s)"
proof -
  have "lq_disciplined FastMutex 3 lq_demo (qs_new fl_new)" by code_simp
  from single_consumer_gets_all [OF this] show ?thesis by blast
qed

end
