(* ===== verification/Close_Race.thy ===== *)
theory Close_Race
  imports Locked_Queue
begin

text \<open>
  A connection between two threads: the network thread runs the callbacks of its events (\<^verbatim>\<open>CNetClient\<close>,
  pitayaserver/framework/NetClient.cpp, Server.cpp), the world thread sends through it, closes it, and deletes its
  session (UserSession.cpp). \<open>Net_Client\<close> has what the operations do when they run alone; here they run in
  points, one for each access to what the threads share: the flag \<^verbatim>\<open>m_bIsClose\<close>, the pointer
  \<^verbatim>\<open>m_pSession\<close>, the two mutexes, the events and the socket. Whether \<^verbatim>\<open>event_del\<close> waits for a
  callback of the event that runs in the other thread is the parameter \<open>waits\<close>; libevent does with its thread
  support on.
\<close>

section \<open>Points\<close>

datatype rc_thread = Net | World

fun tid :: "rc_thread \<Rightarrow> nat" where
  "tid Net = 0"
| "tid World = 1"

text \<open>\<^verbatim>\<open>CloseSocket\<close>: its first critical section, the early return, and the second one.\<close>

datatype close_point =
    K_lock | K_test | K_set | K_del_read | K_del_write | K_close | K_unlock | K_lock_session | K_null | K_unlock_session
  | K_return

text \<open>
  The critical section of \<^verbatim>\<open>OnRead\<close> for one packet; \<^verbatim>\<open>CloseSocket\<close>, called alone or from the destructor
  of the session; the destructor; \<^verbatim>\<open>SendPacket\<close> of the session and of the connection.
\<close>

datatype rc_point =
    T_idle
  | T_read_lock | T_read_test | T_read_queue | T_read_unlock
  | T_close bool close_point
  | T_dead_test | T_dead_free | T_dead
  | T_send_test | T_send_add | T_send_del | T_send_event

datatype rc_callback = CB_read | CB_write | CB_timer

record rc_state =
  rc_closed :: bool
  rc_pSession :: bool
  rc_alive :: bool
  rc_closes :: nat
  rc_read_ev :: bool
  rc_write_ev :: bool
  rc_mClose :: fast_lock
  rc_mSession :: fast_lock
  rc_received :: nat
  rc_sent :: nat
  rc_callback :: "rc_callback option"
  rc_at :: "rc_thread \<Rightarrow> rc_point"

definition rc_new :: rc_state where
  "rc_new = \<lparr>rc_closed = False, rc_pSession = True, rc_alive = True, rc_closes = 0, rc_read_ev = True, rc_write_ev = False,
     rc_mClose = fl_new, rc_mSession = fl_new, rc_received = 0, rc_sent = 0, rc_callback = None, rc_at = (\<lambda>_. T_idle)\<rparr>"

definition rc_go :: "rc_thread \<Rightarrow> rc_point \<Rightarrow> rc_state \<Rightarrow> rc_state" where
  "rc_go t p s = s\<lparr>rc_at := (rc_at s)(t := p)\<rparr>"

text \<open>Taking and releasing the mutexes, for a guard that goes on at \<open>p\<close>.\<close>

definition lock_close :: "rc_thread \<Rightarrow> rc_point \<Rightarrow> rc_state \<Rightarrow> rc_state outcome" where
  "lock_close t p s =
     (case Guard_new FastMutex (tid t) (rc_mClose s) of
        Waits \<Rightarrow> Waits | Undefined \<Rightarrow> Undefined | Steps l \<Rightarrow> Steps (rc_go t p (s\<lparr>rc_mClose := l\<rparr>)))"

definition unlock_close :: "rc_thread \<Rightarrow> rc_point \<Rightarrow> rc_state \<Rightarrow> rc_state outcome" where
  "unlock_close t p s =
     (case Guard_end FastMutex (tid t) (rc_mClose s) of
        Waits \<Rightarrow> Waits | Undefined \<Rightarrow> Undefined | Steps l \<Rightarrow> Steps (rc_go t p (s\<lparr>rc_mClose := l\<rparr>)))"

definition lock_session :: "rc_thread \<Rightarrow> rc_point \<Rightarrow> rc_state \<Rightarrow> rc_state outcome" where
  "lock_session t p s =
     (case Guard_new FastMutex (tid t) (rc_mSession s) of
        Waits \<Rightarrow> Waits | Undefined \<Rightarrow> Undefined | Steps l \<Rightarrow> Steps (rc_go t p (s\<lparr>rc_mSession := l\<rparr>)))"

definition unlock_session :: "rc_thread \<Rightarrow> rc_point \<Rightarrow> rc_state \<Rightarrow> rc_state outcome" where
  "unlock_session t p s =
     (case Guard_end FastMutex (tid t) (rc_mSession s) of
        Waits \<Rightarrow> Waits | Undefined \<Rightarrow> Undefined | Steps l \<Rightarrow> Steps (rc_go t p (s\<lparr>rc_mSession := l\<rparr>)))"

text \<open>\<^verbatim>\<open>event_del\<close> in the world thread may wait for a callback of the event.\<close>

definition del_blocked :: "bool \<Rightarrow> rc_thread \<Rightarrow> rc_callback \<Rightarrow> rc_state \<Rightarrow> bool" where
  "del_blocked waits t cb s \<longleftrightarrow> waits \<and> t = World \<and> rc_callback s = Some cb"

text \<open>Where a thread goes on after \<^verbatim>\<open>CloseSocket\<close>.\<close>

definition after_close :: "bool \<Rightarrow> rc_point" where
  "after_close dead = (if dead then T_dead_free else T_idle)"

fun close_step :: "bool \<Rightarrow> rc_thread \<Rightarrow> bool \<Rightarrow> close_point \<Rightarrow> rc_state \<Rightarrow> rc_state outcome" where
  "close_step waits t d K_lock s = lock_close t (T_close d K_test) s"
| "close_step waits t d K_test s = Steps (rc_go t (T_close d (if rc_closed s then K_return else K_set)) s)"
| "close_step waits t d K_return s = unlock_close t (after_close d) s"
| "close_step waits t d K_set s = Steps (rc_go t (T_close d K_del_read) (s\<lparr>rc_closed := True\<rparr>))"
| "close_step waits t d K_del_read s =
     (if del_blocked waits t CB_read s then Waits
      else Steps (rc_go t (T_close d K_del_write) (s\<lparr>rc_read_ev := False\<rparr>)))"
| "close_step waits t d K_del_write s =
     (if del_blocked waits t CB_write s then Waits
      else Steps (rc_go t (T_close d K_close) (s\<lparr>rc_write_ev := False\<rparr>)))"
| "close_step waits t d K_close s = Steps (rc_go t (T_close d K_unlock) (s\<lparr>rc_closes := rc_closes s + 1\<rparr>))"
| "close_step waits t d K_unlock s = unlock_close t (T_close d K_lock_session) s"
| "close_step waits t d K_lock_session s = lock_session t (T_close d K_null) s"
| "close_step waits t d K_null s = Steps (rc_go t (T_close d K_unlock_session) (s\<lparr>rc_pSession := False\<rparr>))"
| "close_step waits t d K_unlock_session s = unlock_session t (after_close d) s"

text \<open>A use of the session after it has been deleted is \<^const>\<open>Undefined\<close>.\<close>

definition rc_step :: "bool \<Rightarrow> rc_thread \<Rightarrow> rc_state \<Rightarrow> rc_state outcome" where
  "rc_step waits t s =
     (case rc_at s t of
        T_idle \<Rightarrow> Waits
      | T_read_lock \<Rightarrow> lock_session t T_read_test s
      | T_read_test \<Rightarrow> Steps (rc_go t (if rc_pSession s then T_read_queue else T_read_unlock) s)
      | T_read_queue \<Rightarrow>
          if rc_alive s then Steps (rc_go t T_read_unlock (s\<lparr>rc_received := rc_received s + 1\<rparr>)) else Undefined
      | T_read_unlock \<Rightarrow> unlock_session t T_idle s
      | T_close d k \<Rightarrow> close_step waits t d k s
      | T_dead_test \<Rightarrow> Steps (rc_go t (if rc_closed s then T_dead_free else T_close True K_lock) s)
      | T_dead_free \<Rightarrow> Steps (rc_go t T_dead (s\<lparr>rc_alive := False\<rparr>))
      | T_dead \<Rightarrow> Waits
      | T_send_test \<Rightarrow> Steps (rc_go t (if rc_closed s then T_idle else T_send_add) s)
      | T_send_add \<Rightarrow> Steps (rc_go t T_send_del (s\<lparr>rc_sent := rc_sent s + 1\<rparr>))
      | T_send_del \<Rightarrow>
          if del_blocked waits t CB_write s then Waits else Steps (rc_go t T_send_event (s\<lparr>rc_write_ev := False\<rparr>))
      | T_send_event \<Rightarrow> Steps (rc_go t T_idle (s\<lparr>rc_write_ev := True\<rparr>)))"

section \<open>The two threads\<close>

text \<open>
  The network thread enters a callback, handles packets or closes in it, and leaves it; the world thread sends,
  closes, and deletes the session. An event that is not possible where it stands is left out.
\<close>

datatype rc_event = V_callback rc_callback | V_packet | V_net_close | V_callback_end | V_send | V_close | V_delete | V_step rc_thread

fun rc_happens :: "bool \<Rightarrow> rc_event \<Rightarrow> rc_state \<Rightarrow> rc_state option" where
  "rc_happens waits (V_callback cb) s = Some (if rc_callback s = None then s\<lparr>rc_callback := Some cb\<rparr> else s)"
| "rc_happens waits V_packet s =
     Some (if rc_callback s = Some CB_read \<and> rc_at s Net = T_idle then rc_go Net T_read_lock s else s)"
| "rc_happens waits V_net_close s =
     Some (if rc_callback s \<noteq> None \<and> rc_at s Net = T_idle then rc_go Net (T_close False K_lock) s else s)"
| "rc_happens waits V_callback_end s = Some (if rc_at s Net = T_idle then s\<lparr>rc_callback := None\<rparr> else s)"
| "rc_happens waits V_send s = Some (if rc_at s World = T_idle then rc_go World T_send_test s else s)"
| "rc_happens waits V_close s = Some (if rc_at s World = T_idle then rc_go World (T_close False K_lock) s else s)"
| "rc_happens waits V_delete s = Some (if rc_at s World = T_idle then rc_go World T_dead_test s else s)"
| "rc_happens waits (V_step t) s =
     (case rc_step waits t s of Waits \<Rightarrow> Some s | Undefined \<Rightarrow> None | Steps s' \<Rightarrow> Some s')"

fun rc_run :: "bool \<Rightarrow> rc_event list \<Rightarrow> rc_state \<Rightarrow> rc_state option" where
  "rc_run waits [] s = Some s"
| "rc_run waits (e # es) s = Option.bind (rc_happens waits e s) (rc_run waits es)"

section \<open>The invariant\<close>

text \<open>Where a thread holds a mutex, and where it is the one that closes.\<close>

fun has_close :: "rc_point \<Rightarrow> bool" where
  "has_close (T_close d k) = (k \<in> {K_test, K_set, K_del_read, K_del_write, K_close, K_unlock, K_return})"
| "has_close _ = False"

fun has_session :: "rc_point \<Rightarrow> bool" where
  "has_session (T_close d k) = (k \<in> {K_null, K_unlock_session})"
| "has_session p = (p \<in> {T_read_test, T_read_queue, T_read_unlock})"

fun before_close :: "rc_point \<Rightarrow> bool" where
  "before_close (T_close d k) = (k \<in> {K_del_read, K_del_write, K_close})"
| "before_close _ = False"

fun before_null :: "rc_point \<Rightarrow> bool" where
  "before_null (T_close d k) = (k \<in> {K_del_read, K_del_write, K_close, K_unlock, K_lock_session, K_null})"
| "before_null _ = False"

fun must_open :: "rc_point \<Rightarrow> bool" where
  "must_open (T_close d k) = (k = K_set)"
| "must_open _ = False"

fun must_closed :: "rc_point \<Rightarrow> bool" where
  "must_closed (T_close d k) = (k \<in> {K_return, K_unlock_session} \<or> before_null (T_close d k))"
| "must_closed p = (p \<in> {T_dead_free, T_dead})"

fun of_thread :: "rc_thread \<Rightarrow> rc_point \<Rightarrow> bool" where
  "of_thread Net (T_close d k) = (\<not> d)"
| "of_thread World (T_close d k) = True"
| "of_thread Net p = (p \<in> {T_idle, T_read_lock, T_read_test, T_read_queue, T_read_unlock})"
| "of_thread World p = (p \<notin> {T_read_lock, T_read_test, T_read_queue, T_read_unlock})"

definition locks_ok :: "rc_state \<Rightarrow> bool" where
  "locks_ok s \<longleftrightarrow>
     (\<forall>t. has_close (rc_at s t) \<longleftrightarrow> fl_owner (rc_mClose s) = Some (tid t)) \<and>
     (\<forall>t. has_session (rc_at s t) \<longleftrightarrow> fl_owner (rc_mSession s) = Some (tid t))"

definition flag_ok :: "rc_state \<Rightarrow> bool" where
  "flag_ok s \<longleftrightarrow>
     (\<forall>t. of_thread t (rc_at s t)) \<and> (\<forall>t. must_open (rc_at s t) \<longrightarrow> \<not> rc_closed s) \<and>
     (\<forall>t. must_closed (rc_at s t) \<longrightarrow> rc_closed s) \<and>
     rc_closes s = (if rc_closed s \<and> \<not> (\<exists>t. before_close (rc_at s t)) then 1 else 0)"

definition session_ok :: "rc_state \<Rightarrow> bool" where
  "session_ok s \<longleftrightarrow>
     (rc_closed s \<longrightarrow> rc_pSession s \<longrightarrow> (\<exists>t. before_null (rc_at s t))) \<and>
     (rc_alive s \<longleftrightarrow> rc_at s World \<noteq> T_dead) \<and> (rc_at s Net = T_read_queue \<longrightarrow> rc_pSession s)"

definition rc_inv :: "rc_state \<Rightarrow> bool" where
  "rc_inv s \<longleftrightarrow> locks_ok s \<and> flag_ok s \<and> session_ok s"

lemma all_threads: "(\<forall>t. P t) \<longleftrightarrow> P Net \<and> P World"
  by (metis rc_thread.exhaust)

lemma ex_thread: "(\<exists>t. P t) \<longleftrightarrow> P Net \<or> P World"
  by (metis rc_thread.exhaust)

lemma rc_inv_new: "rc_inv rc_new"
  by (simp add: rc_inv_def locks_ok_def flag_ok_def session_ok_def rc_new_def fl_new_def all_threads)

lemmas mutex_defs = lock_close_def unlock_close_def lock_session_def unlock_session_def Guard_new_def Guard_end_def
  FastMutex_def fl_acquire_def fl_release_def

lemma tid_eq [simp]: "tid t = tid u \<longleftrightarrow> t = u"
  by (cases t; cases u) auto

lemma tid_0 [simp]: "tid t = 0 \<longleftrightarrow> t = Net"
  by (cases t) auto

lemmas rc_step_defs = rc_step_def rc_go_def mutex_defs after_close_def

text \<open>What a step does, whatever the other thread is at.\<close>

lemma step_at: "rc_step w t s = Steps s' \<Longrightarrow> rc_at s' = (rc_at s)(t := rc_at s' t)"
  by (cases "rc_at s t"; auto simp: rc_step_defs split: if_splits elim!: close_step.elims)

lemma step_mutex:
  assumes "rc_step w t s = Steps s'" "has_close (rc_at s t) \<longleftrightarrow> fl_owner (rc_mClose s) = Some (tid t)"
    "has_session (rc_at s t) \<longleftrightarrow> fl_owner (rc_mSession s) = Some (tid t)"
  shows "(fl_owner (rc_mClose s') = fl_owner (rc_mClose s) \<and> has_close (rc_at s' t) = has_close (rc_at s t)) \<or>
      (fl_owner (rc_mClose s) = None \<and> fl_owner (rc_mClose s') = Some (tid t) \<and> has_close (rc_at s' t)) \<or>
      (fl_owner (rc_mClose s) = Some (tid t) \<and> fl_owner (rc_mClose s') = None \<and> \<not> has_close (rc_at s' t))"
    and "(fl_owner (rc_mSession s') = fl_owner (rc_mSession s) \<and> has_session (rc_at s' t) = has_session (rc_at s t)) \<or>
      (fl_owner (rc_mSession s) = None \<and> fl_owner (rc_mSession s') = Some (tid t) \<and> has_session (rc_at s' t)) \<or>
      (fl_owner (rc_mSession s) = Some (tid t) \<and> fl_owner (rc_mSession s') = None \<and> \<not> has_session (rc_at s' t))"
  using assms
  by (cases "rc_at s t"; auto simp: rc_step_defs split: if_splits elim!: close_step.elims)+

lemma step_of:
  assumes "rc_step w t s = Steps s'" "of_thread t (rc_at s t)"
  shows "of_thread t (rc_at s' t)"
  using assms
  by (cases t; cases "rc_at s t"; auto simp: rc_step_defs split: if_splits elim!: close_step.elims)

lemma step_open:
  assumes "rc_step w t s = Steps s'" "must_open (rc_at s t) \<longrightarrow> \<not> rc_closed s"
  shows "must_open (rc_at s' t) \<longrightarrow> \<not> rc_closed s'"
  using assms
  by (cases "rc_at s t"; auto simp: rc_step_defs split: if_splits elim!: close_step.elims)

lemma step_is_closed:
  assumes "rc_step w t s = Steps s'" "must_closed (rc_at s t) \<longrightarrow> rc_closed s"
  shows "must_closed (rc_at s' t) \<longrightarrow> rc_closed s'"
proof (cases "rc_at s t")
  case (T_close d k)
  then show ?thesis using assms by (cases k) (auto simp: rc_step_defs split: if_splits)
qed (use assms in \<open>auto simp: rc_step_defs split: if_splits\<close>)

lemma step_closed:
  assumes "rc_step w t s = Steps s'"
  shows "rc_closed s' = (rc_closed s \<or> must_open (rc_at s t))" "must_open (rc_at s t) \<longrightarrow> before_close (rc_at s' t)"
  using assms
  by (cases "rc_at s t"; auto simp: rc_step_defs split: if_splits elim!: close_step.elims)+

lemma step_closes:
  assumes "rc_step w t s = Steps s'"
  shows "rc_closes s' = (if before_close (rc_at s t) \<and> \<not> before_close (rc_at s' t) then rc_closes s + 1 else rc_closes s)"
    and "before_close (rc_at s' t) \<longrightarrow> before_close (rc_at s t) \<or> must_open (rc_at s t)"
  using assms
  by (cases "rc_at s t"; auto simp: rc_step_defs split: if_splits elim!: close_step.elims)+

lemma step_pSession:
  assumes "rc_step w t s = Steps s'"
  shows "rc_pSession s' = rc_pSession s \<or> (\<not> rc_pSession s' \<and> has_session (rc_at s t))"
    and "rc_at s' t = T_read_queue \<longrightarrow> rc_pSession s'"
    and "before_null (rc_at s t) \<longrightarrow> before_null (rc_at s' t) \<or> \<not> rc_pSession s'"
  using assms
  by (cases "rc_at s t"; auto simp: rc_step_defs split: if_splits elim!: close_step.elims)+

lemma step_alive:
  assumes "rc_step w t s = Steps s'" "of_thread t (rc_at s t)"
  shows "(rc_alive s' = rc_alive s \<and> (rc_at s' t = T_dead) = (rc_at s t = T_dead)) \<or>
      (\<not> rc_alive s' \<and> t = World \<and> rc_at s' t = T_dead)"
  using assms
  by (cases t; cases "rc_at s t"; auto simp: rc_step_defs split: if_splits elim!: close_step.elims)

lemma step_undefined:
  assumes "rc_step w t s = Undefined" "has_close (rc_at s t) \<longleftrightarrow> fl_owner (rc_mClose s) = Some (tid t)"
    "has_session (rc_at s t) \<longleftrightarrow> fl_owner (rc_mSession s) = Some (tid t)"
  shows "rc_at s t = T_read_queue \<and> \<not> rc_alive s"
  using assms by (cases "rc_at s t"; auto simp: rc_step_defs split: if_splits elim!: close_step.elims)

lemma before_close_has: "before_close p \<Longrightarrow> has_close p"
  by (cases p) auto

lemma must_open_has: "must_open p \<Longrightarrow> has_close p"
  by (cases p) auto

text \<open>So every step keeps the invariant.\<close>

lemma rc_inv_step:
  assumes inv: "rc_inv s" and step: "rc_step w t s = Steps s'"
  shows "rc_inv s'"
proof -
  have lk: "has_close (rc_at s u) \<longleftrightarrow> fl_owner (rc_mClose s) = Some (tid u)"
    "has_session (rc_at s u) \<longleftrightarrow> fl_owner (rc_mSession s) = Some (tid u)" for u
    using inv by (simp_all add: rc_inv_def locks_ok_def)
  have fk: "of_thread u (rc_at s u)" "must_open (rc_at s u) \<longrightarrow> \<not> rc_closed s" "must_closed (rc_at s u) \<longrightarrow> rc_closed s" for u
    using inv unfolding rc_inv_def flag_ok_def by blast+
  have closes: "rc_closes s = (if rc_closed s \<and> \<not> (\<exists>t. before_close (rc_at s t)) then 1 else 0)"
    using inv by (simp add: rc_inv_def flag_ok_def)
  have same: "rc_at s' u = rc_at s u" if "u \<noteq> t" for u using step_at [OF step] that by (metis fun_upd_apply)
  note mx = step_mutex [OF step lk]
  note cl = step_closed [OF step]
  have "locks_ok s'"
    unfolding locks_ok_def
  proof (intro conjI allI)
    fix u
    show "has_close (rc_at s' u) = (fl_owner (rc_mClose s') = Some (tid u))"
      using mx(1) lk(1) [of u] lk(1) [of t] same [of u] by (cases "u = t") auto
    show "has_session (rc_at s' u) = (fl_owner (rc_mSession s') = Some (tid u))"
      using mx(2) lk(2) [of u] lk(2) [of t] same [of u] by (cases "u = t") auto
  qed
  moreover have excl: "\<not> has_close (rc_at s u)" if "has_close (rc_at s t)" "u \<noteq> t" for u
    using that lk(1) [of t] lk(1) [of u] by simp
  moreover have "flag_ok s'"
    unfolding flag_ok_def
  proof (intro conjI allI)
    fix u
    show "of_thread u (rc_at s' u)" using step_of [OF step fk(1)] fk(1) [of u] same by (cases "u = t") auto
    show "must_open (rc_at s' u) \<longrightarrow> \<not> rc_closed s'"
      using step_open [OF step fk(2)] cl fk(2) [of u] same [of u] excl [of u] must_open_has by (cases "u = t") auto
    show "must_closed (rc_at s' u) \<longrightarrow> rc_closed s'" using step_is_closed [OF step fk(3)] cl fk(3) [of u] same [of u] by (cases "u = t") auto
  next
    have bc: "(\<exists>u. before_close (rc_at s' u)) \<longleftrightarrow> before_close (rc_at s' t) \<or> (\<exists>u. u \<noteq> t \<and> before_close (rc_at s u))"
      using same by metis
    have bs: "(\<exists>u. before_close (rc_at s u)) \<longleftrightarrow> before_close (rc_at s t) \<or> (\<exists>u. u \<noteq> t \<and> before_close (rc_at s u))"
      by metis
    have no: "\<not> (\<exists>u. u \<noteq> t \<and> before_close (rc_at s u))" if "has_close (rc_at s t)"
      using excl [OF that] before_close_has by blast
    have bcl: "before_close (rc_at s t) \<Longrightarrow> rc_closed s" using fk(3) [of t] by (cases "rc_at s t") auto
    show "rc_closes s' = (if rc_closed s' \<and> \<not> (\<exists>t. before_close (rc_at s' t)) then 1 else 0)"
      unfolding bc cl(1) step_closes(1) [OF step] closes bs
      using no bcl before_close_has must_open_has fk(2) [of t] cl(2) step_closes(2) [OF step] by auto
  qed
  moreover have "session_ok s'"
    unfolding session_ok_def
  proof (intro conjI impI)
    have se: "rc_closed s \<Longrightarrow> rc_pSession s \<Longrightarrow> \<exists>t. before_null (rc_at s t)" "rc_alive s \<longleftrightarrow> rc_at s World \<noteq> T_dead"
      "rc_at s Net = T_read_queue \<Longrightarrow> rc_pSession s"
      using inv unfolding rc_inv_def session_ok_def by blast+
    note ps = step_pSession [OF step]
    show "rc_alive s' = (rc_at s' World \<noteq> T_dead)"
      using step_alive [OF step fk(1)] se(2) same [of World] by (cases "t = World") auto
    show "rc_pSession s'" if "rc_at s' Net = T_read_queue"
    proof (cases "t = Net")
      case False
      then have "has_session (rc_at s Net)" "\<not> has_session (rc_at s t)" using that same [of Net] lk(2) [of t] lk(2) [of Net] by auto
      then show ?thesis using ps(1) se(3) that same [of Net] False by auto
    qed (use that ps(2) in simp)
    show "\<exists>u. before_null (rc_at s' u)" if cs: "rc_closed s'" and psn: "rc_pSession s'"
    proof (cases "rc_closed s")
      case True
      then obtain u where "before_null (rc_at s u)" using se(1) ps(1) psn by blast
      then show ?thesis using ps(3) psn same by (cases "u = t") metis+
    next
      case False
      then have "before_close (rc_at s' t)" using cl cs by blast
      then show ?thesis by (intro exI [of _ t]) (cases "rc_at s' t"; auto)
    qed
  qed
  ultimately show ?thesis by (simp add: rc_inv_def)
qed

lemma rc_inv_defined:
  assumes "rc_inv s"
  shows "rc_step w t s \<noteq> Undefined"
proof
  assume u: "rc_step w t s = Undefined"
  have q: "rc_at s t = T_read_queue" "\<not> rc_alive s"
    using step_undefined [OF u] assms by (simp_all add: rc_inv_def locks_ok_def)
  have of: "of_thread t (rc_at s t)" and cl: "must_closed (rc_at s World) \<longrightarrow> rc_closed s"
    using assms unfolding rc_inv_def flag_ok_def by blast+
  have net: "t = Net" using of q(1) by (cases t) auto
  have dead: "rc_at s World = T_dead" and p: "rc_pSession s"
    using assms q net by (simp_all add: rc_inv_def session_ok_def)
  then have "\<exists>t. before_null (rc_at s t)" using assms cl by (simp add: rc_inv_def session_ok_def)
  then show False using dead q net by (auto simp: ex_thread)
qed

text \<open>A thread that is outside starts something.\<close>

lemma rc_inv_start:
  assumes inv: "rc_inv s" and idle: "rc_at s t = T_idle" and p: "of_thread t p" "\<not> has_close p" "\<not> has_session p" "\<not> must_closed p"
    "p \<noteq> T_dead"
  shows "rc_inv (rc_go t p s)"
proof -
  have nb: "\<not> before_close p" "\<not> must_open p" "\<not> before_null p" "p \<noteq> T_read_queue"
    using p by (cases p; auto)+
  have b: "(\<exists>u. before_close (rc_at (rc_go t p s) u)) = (\<exists>u. before_close (rc_at s u))"
    "(\<exists>u. before_null (rc_at (rc_go t p s) u)) = (\<exists>u. before_null (rc_at s u))"
    using nb idle by (cases t; auto simp: rc_go_def ex_thread)+
  have l: "has_close (rc_at (rc_go t p s) u) = has_close (rc_at s u)"
    "has_session (rc_at (rc_go t p s) u) = has_session (rc_at s u)" for u
    using p idle by (auto simp: rc_go_def)
  have "locks_ok (rc_go t p s)" using inv unfolding rc_inv_def locks_ok_def l by (simp add: rc_go_def)
  moreover have m: "must_open (rc_at (rc_go t p s) u) = must_open (rc_at s u)"
    "must_closed (rc_at (rc_go t p s) u) = must_closed (rc_at s u)"
    "of_thread u (rc_at (rc_go t p s) u) = of_thread u (rc_at s u)" for u
    using p nb idle by (cases t; auto simp: rc_go_def)+
  have "flag_ok (rc_go t p s)" using inv unfolding rc_inv_def flag_ok_def m b by (simp add: rc_go_def)
  moreover have e: "(rc_at (rc_go t p s) World = T_dead) = (rc_at s World = T_dead)"
    "(rc_at (rc_go t p s) Net = T_read_queue) = (rc_at s Net = T_read_queue)"
    using p nb idle by (auto simp: rc_go_def)
  have "session_ok (rc_go t p s)" using inv unfolding rc_inv_def session_ok_def b e by (simp add: rc_go_def)
  ultimately show ?thesis by (simp add: rc_inv_def)
qed

lemma rc_inv_happens:
  assumes "rc_inv s"
  shows "\<exists>s'. rc_happens w e s = Some s' \<and> rc_inv s'"
proof (cases e)
  case (V_step t)
  then show ?thesis using rc_inv_defined [OF assms, of w t] rc_inv_step [OF assms, of w t] assms
    by (auto split: outcome.splits)
qed (use assms rc_inv_start [OF assms] in \<open>auto simp: rc_inv_def locks_ok_def flag_ok_def session_ok_def\<close>)

lemma rc_inv_run: "rc_inv s \<Longrightarrow> \<exists>s'. rc_run w es s = Some s' \<and> rc_inv s'"
proof (induction es arbitrary: s)
  case (Cons e es)
  obtain s1 where "rc_happens w e s = Some s1" "rc_inv s1" using rc_inv_happens [OF Cons.prems] by blast
  with Cons.IH show ?case by simp
qed simp

section \<open>Properties\<close>

text \<open>
  C5: However the network thread and the world thread interleave in reading, sending, closing and deleting the
  session of a connection: the socket is closed at most once, and is once no thread is in the middle of it after
  the flag is set; the session is never used after its deletion; and when both threads are outside and the flag is
  set, the connection has forgotten its session.
\<close>

theorem close_and_delete_safe:
  "\<exists>s. rc_run w es rc_new = Some s \<and> rc_closes s \<le> 1 \<and>
     (rc_at s Net = T_read_queue \<longrightarrow> rc_alive s) \<and>
     (rc_closed s \<and> \<not> has_close (rc_at s Net) \<and> \<not> has_close (rc_at s World) \<longrightarrow> rc_closes s = 1) \<and>
     (rc_closed s \<and> rc_at s Net = T_idle \<and> rc_at s World \<in> {T_idle, T_dead} \<longrightarrow> \<not> rc_pSession s)"
proof -
  obtain s where s: "rc_run w es rc_new = Some s" "rc_inv s" using rc_inv_run [OF rc_inv_new] by blast
  have c: "rc_closes s = (if rc_closed s \<and> \<not> (\<exists>t. before_close (rc_at s t)) then 1 else 0)"
    and p: "rc_closed s \<longrightarrow> rc_pSession s \<longrightarrow> (\<exists>t. before_null (rc_at s t))"
    using s(2) unfolding rc_inv_def flag_ok_def session_ok_def by blast+
  have "rc_closes s \<le> 1" using c by simp
  moreover have "rc_alive s" if "rc_at s Net = T_read_queue"
    using rc_inv_defined [OF s(2), of w Net] that by (auto simp: rc_step_def split: if_splits)
  moreover have "rc_closes s = 1" if "rc_closed s" "\<not> has_close (rc_at s Net)" "\<not> has_close (rc_at s World)"
    using c that before_close_has by (auto simp: ex_thread)
  moreover have "\<not> rc_pSession s" if "rc_closed s" "rc_at s Net = T_idle" "rc_at s World \<in> {T_idle, T_dead}"
    using p that by (auto simp: ex_thread)
  ultimately show ?thesis using s(1) by blast
qed

text \<open>Both threads close at the same time; then the session is deleted.\<close>

definition close_demo :: "rc_event list" where
  "close_demo =
     [V_callback CB_timer, V_net_close, V_close, V_step Net, V_step World, V_step Net, V_step Net, V_step Net, V_step Net,
      V_step World, V_step Net, V_step Net, V_step World, V_step World, V_step World, V_delete, V_step World, V_step World,
      V_step Net, V_step Net, V_step Net]"

lemma close_and_delete_safe_witness:
  "\<exists>s. rc_run False close_demo rc_new = Some s \<and> rc_closes s = 1 \<and> \<not> rc_alive s \<and> \<not> rc_pSession s"
proof -
  obtain s where s: "rc_run False close_demo rc_new = Some s"
    and c: "rc_closed s \<and> \<not> has_close (rc_at s Net) \<and> \<not> has_close (rc_at s World) \<longrightarrow> rc_closes s = 1"
      "rc_closed s \<and> rc_at s Net = T_idle \<and> rc_at s World \<in> {T_idle, T_dead} \<longrightarrow> \<not> rc_pSession s"
    using close_and_delete_safe [of False close_demo] by blast
  have "map_option (\<lambda>s. (rc_closed s, rc_alive s, rc_at s Net, rc_at s World)) (rc_run False close_demo rc_new) =
      Some (True, False, T_idle, T_dead)"
    by code_simp
  then show ?thesis using s c by simp
qed

section \<open>What the locks do not prevent\<close>

text \<open>
  \<^verbatim>\<open>SendPacket\<close> tests the flag and arms the write event without a lock: when the network thread closes in
  between, the event is armed on a socket that is closed.
\<close>

lemma send_after_close:
  "map_option (\<lambda>s. (rc_closed s, rc_closes s, rc_write_ev s))
     (rc_run False ([V_send, V_step World, V_callback CB_read, V_net_close] @ replicate 10 (V_step Net) @
       [V_callback_end, V_step World, V_step World, V_step World]) rc_new) = Some (True, 1, True)"
  by code_simp

text \<open>
  When \<^verbatim>\<open>event_del\<close> waits for a running callback, the two threads can wait for each other: the world thread
  deletes the read event inside the critical section of \<^verbatim>\<open>CloseSocket\<close>, while the network thread, in the
  callback of that event, waits for the same mutex.
\<close>

definition deadlock_demo :: "rc_event list" where
  "deadlock_demo = [V_callback CB_read, V_close, V_step World, V_step World, V_step World, V_net_close]"

lemma close_deadlock:
  "map_option (\<lambda>s. (rc_at s Net, rc_at s World, rc_step True Net s = Waits, rc_step True World s = Waits))
     (rc_run True deadlock_demo rc_new) = Some (T_close False K_lock, T_close False K_del_read, True, True)"
  by (simp add: deadlock_demo_def rc_new_def rc_go_def rc_step_def mutex_defs fl_new_def del_blocked_def)

end
