(* ===== verification/Spec2Isabelle.thy ===== *)
theory Spec2Isabelle
  imports Byte_Buffer Net_Server Relay_Client Stress_Client Sessions Id_Ctrl Obj_Admin Name_Checker Cache_Mgr Dynamic_Struct
    Center_Ids Gm_Run Login_Safe Mysql_Connection Log_Change I18n_String Md5 Config_Base
    Gift_Code Config_Reader Sharding Dispatch Center_Schema Server_Start Support Ini_Memory Counted_Ptr Close_Race
begin

text \<open>
  A verification development for the gp2 game server: the framework of the game servers
  (\<^verbatim>\<open>src/pitayaserver\<close>), the login server built on it (\<^verbatim>\<open>src/loginserver\<close>), and the parts of
  the libraries kept in \<^verbatim>\<open>src/dep\<close> that the servers stand on. Definitions are translated from the
  sources; a name of the model is the name of the function, with a prefix for its class where two classes
  share it (\<open>nc_\<close> for \<^verbatim>\<open>CNetClient\<close>, \<open>sv_\<close> for \<^verbatim>\<open>CServer\<close>, \<open>cd_\<close> for \<^verbatim>\<open>CenterDBCtrl\<close> and so on).

  \<^bold>\<open>The program.\<close> A server process reads its configuration file, starts its threads and listens. The network
  thread accepts connections, keeps them in a table and cuts their input into packets; each connection has a
  session, and the world thread updates the sessions about every 100 ms: it takes the packets from the queue
  of a session, calls the handler for their number and sends the answers through the send queue of the
  connection. Handlers use the database layers, object caches, configuration tables and the filter of names.
  The login server is such a server whose handlers register and log in players against a central database and
  lead them to a game server.

  \<^bold>\<open>How code becomes definitions.\<close> A class is a \<open>record\<close>, an enumeration or a tagged union a
  \<open>datatype\<close>; objects that are shared through pointers live in an explicit heap of addresses. A
  fixed-width integer is a word of its width where it can wrap, otherwise an \<^typ>\<open>int\<close> or a \<^typ>\<open>nat\<close>. A
  \<^verbatim>\<open>std::map\<close> is an association list in key order (\<open>omap\<close> of \<open>Prelude\<close>), because its order is
  visible. An operation that may leave the language's defined behaviour (an index out of range, a null
  pointer, a failed assertion, a loop without end) returns an option and is \<^const>\<open>None\<close> there. Errors the
  code reports are its own return values. What is not in the repository is an argument of the definitions:
  the allocator, the socket, event and system calls, the clocks, random numbers, the MySQL, MongoDB, protobuf and
  Lua libraries, what a MySQL server makes of a statement, the virtual functions, handlers and factories an
  application supplies. Log lines are left out, except in
  the model of the log itself.

  \<^bold>\<open>Bytes and packets.\<close>
  \<^item> \<open>Prelude\<close>: bytes, little-endian integers, ordered maps, C strings and decimal numbers.
  \<^item> \<open>Byte_Buffer\<close>: \<^verbatim>\<open>ByteBuffer.h\<close>, \<^verbatim>\<open>WorldPacket.h\<close>; the locales \<open>codec\<close> and
    \<open>pair_codec\<close> lift the round trip of an element to the container templates, and are interpreted for
    every pair of stream operators.
  \<^item> \<open>Any_Type\<close>, \<open>Dynamic_Struct\<close>: \<^verbatim>\<open>AnyType.h\<close>, \<^verbatim>\<open>DynamicStruct.h\<close>; values with a tag,
    structures with dirty flags and their five wire formats.
  \<^item> \<open>Md5\<close>, \<open>I18n_String\<close>, \<open>Gift_Code\<close>, \<open>Util\<close>, \<open>Name_Checker\<close>: \<^verbatim>\<open>md5.cpp\<close>,
    \<^verbatim>\<open>I18nString.cpp\<close>, \<^verbatim>\<open>GiftCode.cpp\<close>, \<^verbatim>\<open>Util.cpp\<close>, \<^verbatim>\<open>Trie.h\<close> and
    \<^verbatim>\<open>NameChecker.cpp\<close>; the locale \<open>word_set\<close> is what the filter needs of its dictionary.

  \<^bold>\<open>Connections.\<close>
  \<^item> \<open>Socket_Buffer\<close>: \<^verbatim>\<open>SocketBuffer.cpp\<close>; the locale \<open>byte_fifo\<close> is what the framing needs.
  \<^item> \<open>Net_Client\<close>, \<open>Net_Server\<close>: \<^verbatim>\<open>NetClient.cpp\<close>, \<^verbatim>\<open>Server.cpp\<close>; framing, the table of
    connections and the closing pass. \<open>split_frames\<close> is the specification of the framing. An object is
    deleted with the last pointer to it, that of the table or that of its session; using it afterwards is
    \<^const>\<open>None\<close>.
  \<^item> \<open>Relay_Client\<close>: \<^verbatim>\<open>Client.cpp\<close>, the outgoing connection as a state machine over its events
    (\<open>inductive\<close>), with the invariant of its reachable states. \<open>SendPacket\<close> runs in another thread and
    takes its steps between the events; the timer that reconnects may fail to be armed.
  \<^item> \<open>Stress_Client\<close>: \<^verbatim>\<open>StressTestClient.c\<close>, the load generator.

  \<^bold>\<open>Sessions and threads.\<close>
  \<^item> \<open>Timers\<close>, \<open>Sessions\<close>, \<open>World_Loop\<close>: \<^verbatim>\<open>Timer.h\<close>, \<^verbatim>\<open>UserSession.cpp\<close>,
    \<^verbatim>\<open>PlayerSession.cpp\<close>, \<^verbatim>\<open>RelayClientSession.cpp\<close>, \<^verbatim>\<open>SessCtrl.cpp\<close>, \<^verbatim>\<open>WorldRunnable.cpp\<close>.
  \<^item> \<open>Dispatch\<close>: \<^verbatim>\<open>server_eventdispatcher.h\<close>, \<^verbatim>\<open>logic_packetdispatcher.h\<close>,
    \<^verbatim>\<open>ProtocolDispatcher.h\<close>.
  \<^item> \<open>Locked_Queue\<close>, \<open>Counted_Ptr\<close>, \<open>Close_Race\<close>: what the threads share, point by point and for every
    interleaving: \<^verbatim>\<open>LockedQueue.h\<close>, \<^verbatim>\<open>Guard.h\<close> and \<^verbatim>\<open>FastLock.h\<close> (the locale \<open>lock_type\<close> has
    the laws of a lock; the abstract contract is a plain queue used by one call after the other), \<^verbatim>\<open>CountedPtr.h\<close>
    and \<^verbatim>\<open>AtomicCount\<close>, and closing a connection and deleting its session in two threads. In the other theories an
    operation is one step, but for \<open>SendPacket\<close> of \<open>Relay_Client\<close>.
  \<^item> \<open>Id_Ctrl\<close>: \<^verbatim>\<open>IDCtrl.cpp\<close>, a linked list in a heap; the locale \<open>id_pool\<close> is what a user of
    identifiers relies on.
  \<^item> \<open>Log_File\<close>, \<open>Log_Change\<close>: \<^verbatim>\<open>Log.cpp\<close> and its daily change of files.
  \<^item> \<open>Server_Start\<close>: \<^verbatim>\<open>main.cpp\<close>, \<^verbatim>\<open>NetRunnable.cpp\<close>, \<^verbatim>\<open>RelayClientRunnable.cpp\<close> and the
    start of \<^verbatim>\<open>Server.cpp\<close>, as a state monad over the system calls made; a null event base that is used is
    \<^const>\<open>None\<close>.

  \<^bold>\<open>Configuration.\<close>
  \<^item> \<open>Ini_Search\<close>, \<open>Ini_Number\<close>, \<open>Ini_File\<close>, \<open>Ini_Read\<close>, \<open>Ini_Memory\<close>: the reader
    \<^verbatim>\<open>miniini\<close>, its sorted arrays, its numbers, its files, its look-ups and its allocator;
    \<open>Ini_Round\<close> proves that it ends, never writes past a buffer and returns what was written.
  \<^item> \<open>Csv_Reader\<close>, \<open>Config_Base\<close>, \<open>Config_Reader\<close>: \<^verbatim>\<open>CsvReader.cpp\<close>,
    \<^verbatim>\<open>ConfigBase.cpp\<close>, \<^verbatim>\<open>ConfigReader.cpp\<close>, the tables of the games.

  \<^bold>\<open>Databases and caches.\<close>
  \<^item> \<open>Mysql_Client\<close> (the framework's \<^verbatim>\<open>DatabaseMysql.cpp\<close>), \<open>Mysql_Connection\<close> (the other one, in
    \<^verbatim>\<open>transition/database\<close>), \<open>Sharding\<close> (\<^verbatim>\<open>ShardingDB.cpp\<close>, \<^verbatim>\<open>WorldDb.cpp\<close>).
  \<^item> \<open>Callbacks\<close>, \<open>Sql_Database\<close>: \<^verbatim>\<open>Callback.h\<close>, \<^verbatim>\<open>SqlOperation.cpp\<close>,
    \<^verbatim>\<open>SqlDelayThread.cpp\<close>, \<^verbatim>\<open>Database.cpp\<close>; the abstract contract is the execution of the requests
    one by one, and every interleaving with the delay thread refines it. A database without its synchronous
    connection is used as a null pointer.
  \<^item> \<open>Obj_Admin\<close>, \<open>Cache_Mgr\<close>: \<^verbatim>\<open>ObjAdmin.cpp\<close>, \<^verbatim>\<open>CacheMgr.h\<close>, two caches over heaps; a plain
    map is the abstract contract of the first.
  \<^item> \<open>Support\<close>: \<^verbatim>\<open>object.cpp\<close>, \<^verbatim>\<open>MongoDBDrive.cpp\<close>, \<^verbatim>\<open>ScriptGlue.cpp\<close>,
    \<^verbatim>\<open>CmdInnerDefine.h\<close>.

  \<^bold>\<open>The login server and the central database.\<close>
  \<^item> \<open>Center_Schema\<close>, \<open>Center_Db\<close>, \<open>Center_Ids\<close>: \<^verbatim>\<open>CenterDBCtrl.cpp\<close>, its tables (on a
    server that may refuse statements), its operations, and the properties of its identifiers, merges and
    heartbeats.
  \<^item> \<open>Gm_Command\<close>, \<open>Gm_Run\<close>: \<^verbatim>\<open>GmCommand.cpp\<close>, \<^verbatim>\<open>GmCommandExt.cpp\<close> and the pass over
    the commands, with the statements it sends; the locale \<open>gm_hooks\<close> has the laws of a subclass's functions.
  \<^item> \<open>Login_Handler\<close>, \<open>Login_Safe\<close>: \<^verbatim>\<open>Handler.cpp\<close>, \<^verbatim>\<open>LoginGroup.cpp\<close>, and what a
    client can get out of the server.

  \<^bold>\<open>What the lemmas show.\<close> Every component has lemmas for its invariant and its branches; a property of the
  program stands behind a text with its number. They are of these kinds: streams and records survive being
  written and read (packets through a connection, containers, texts, tables, configuration files, gift codes);
  caches, databases and queues lose nothing and keep the order, whatever the interleaving; tables, pools and
  structures keep their invariants; a relay connection recovers while its timer can be armed, and a shutdown
  with a database connection saves everything; a transaction stops at the first statement that fails; answers
  need a login, and each error has its code; loops end and timers do not drift. Where the code behaves differently
  from what its comments say, or leaves the defined behaviour, a lemma states the case.

  \<^bold>\<open>Bounds and fuel.\<close> Recursion is structural or has a measure, except where the code may run forever: there
  the result is \<^const>\<open>None\<close> or the fuel is an argument, and a property or a lemma says when the code returns (the
  retries of a statement, the resolution of server merges, the replacement of forbidden words; the round trip of
  translated texts holds for every fuel above the depth of the text). Sizes are bounded only where a property says so, by the
  width of a counter or of a length field of the wire format.

  \<^bold>\<open>Not modelled.\<close> Of \<^verbatim>\<open>src/dep\<close>: the Lua engine and its binding ELuna (parameters of \<open>Support\<close>),
  zlib (no code of the servers calls it), the rest of ZThread (the servers only start threads), and of miniini the
  floating-point values (no caller in the servers), its tests and its log callback. Of the servers: the
  headers that only include others, and the protobuf definitions, from which the build generates the code
  of messages. Floating-point numbers are carried by their bits or through the C library's functions as
  parameters.
\<close>

end
